(* ===== verification/WxPrelude.thy ===== *)
theory WxPrelude
  imports Main "HOL-Library.Word"
begin

text \<open>
  Shared vocabulary of the development: machine types, the result type of the
  client's callbacks (a call returns, ends the process, loops for ever or uses memory it
  may not use), and the generic lemmas on lists and words that the components share.
\<close>

unbundle bit_operations_syntax

type_synonym u8 = "8 word"
type_synonym u16 = "16 word"
type_synonym u32 = "32 word"
type_synonym u64 = "64 word"
type_synonym NTSTATUS = u32
type_synonym WERROR = u32

named_theorems wx_defs \<open>definitions of the client's callbacks\<close>
named_theorems async_defs \<open>definitions of the pipe operations\<close>
named_theorems asn1_defs \<open>definitions of the ASN.1 primitives\<close>

section \<open>Results of calls that may not return\<close>

text \<open>
  \<^descr> \<open>Ret v s\<close>: the call returned \<open>v\<close> in state \<open>s\<close>;
  \<^descr> \<open>Exit n s\<close>: it called \<open>exit(n)\<close> in state \<open>s\<close>;
  \<^descr> \<open>Hang\<close>: it did not return within the fuel of a polling loop;
  \<^descr> \<open>Undef\<close>: it dereferenced NULL or freed memory, or read outside an array.
\<close>

datatype ('a, 's) res = Ret 'a 's | Exit u32 's | Hang | Undef

fun bindr :: "('a, 's) res \<Rightarrow> ('a \<Rightarrow> 's \<Rightarrow> ('b, 's) res) \<Rightarrow> ('b, 's) res" where
  "bindr (Ret v s) k = k v s"
| "bindr (Exit n s) k = Exit n s"
| "bindr Hang k = Hang"
| "bindr Undef k = Undef"

text \<open>\<open>andr m k\<close>: run \<open>m\<close>, ignore its value, continue with \<open>k\<close> in the new state.\<close>

definition andr :: "('a, 's) res \<Rightarrow> ('s \<Rightarrow> ('b, 's) res) \<Rightarrow> ('b, 's) res" where
  "andr m k = bindr m (\<lambda>_. k)"

lemma andr_simps [simp]:
  "andr (Ret v s) k = k s" "andr (Exit n s) k = Exit n s"
  "andr Hang k = Hang" "andr Undef k = Undef"
  by (simp_all add: andr_def)

lemma bindr_eq_Ret:
  "bindr m k = Ret v s \<longleftrightarrow> (\<exists>u t. m = Ret u t \<and> k u t = Ret v s)"
  by (cases m) auto

lemma andr_eq_Ret:
  "andr m k = Ret v s \<longleftrightarrow> (\<exists>u t. m = Ret u t \<and> k t = Ret v s)"
  by (simp add: andr_def bindr_eq_Ret)

lemma andr_eq_Exit:
  "andr m k = Exit n s \<longleftrightarrow> m = Exit n s \<or> (\<exists>u t. m = Ret u t \<and> k t = Exit n s)"
  by (cases m) auto

text \<open>
  \<open>all_res P Q m\<close>: every state \<open>m\<close> can end in satisfies \<open>P\<close> when \<open>m\<close> returned and
  \<open>Q\<close> (with the exit status) when it ended the process. The rules compose, so that an
  invariant of a callback is proved call by call.
\<close>

fun all_res :: "('s \<Rightarrow> bool) \<Rightarrow> (u32 \<Rightarrow> 's \<Rightarrow> bool) \<Rightarrow> ('a, 's) res \<Rightarrow> bool" where
  "all_res P Q (Ret v s) = P s"
| "all_res P Q (Exit n s) = Q n s"
| "all_res P Q Hang = True"
| "all_res P Q Undef = True"

lemma all_res_andr:
  "all_res P Q m \<Longrightarrow> (\<And>s. P s \<Longrightarrow> all_res R Q (k s)) \<Longrightarrow> all_res R Q (andr m k)"
  by (cases m) auto

lemma all_res_bindr:
  "all_res P Q m \<Longrightarrow> (\<And>v s. P s \<Longrightarrow> all_res R Q (k v s)) \<Longrightarrow> all_res R Q (bindr m k)"
  by (cases m) auto

lemma all_res_RetD: "all_res P Q m \<Longrightarrow> m = Ret v s \<Longrightarrow> P s"
  by simp

lemma all_res_ExitD: "all_res P Q m \<Longrightarrow> m = Exit n s \<Longrightarrow> Q n s"
  by simp

lemma all_res_mono:
  "all_res P Q m \<Longrightarrow> (\<And>s. P s \<Longrightarrow> P' s) \<Longrightarrow> (\<And>n s. Q n s \<Longrightarrow> Q' n s) \<Longrightarrow> all_res P' Q' m"
  by (cases m) auto

section \<open>Words\<close>

lemma unat_u32_less: "unat (w :: u32) < 4294967296"
  using unsigned_less [of w, where ?'a = nat] by simp

lemma of_nat_unat_mod_u32: "unat (of_nat n :: u32) = n mod 4294967296"
  by (simp add: unat_of_nat)

lemma unat_of_nat_u32: "n < 4294967296 \<Longrightarrow> unat (of_nat n :: u32) = n"
  by (simp add: unat_of_nat)

lemma ucast_up_down: "ucast (ucast (w :: u32) :: u64) = w"
  by (rule bit_word_eqI) (simp add: bit_simps)

lemma sint_eq_iff: "sint a = sint b \<longleftrightarrow> a = (b :: 'a::len word)"
  by (auto intro: signed_word_eqI)

lemma word_and_mask_eq_0_iff_bits:
  fixes a b :: "'a::len word"
  shows "a AND b = 0 \<longleftrightarrow> (\<forall>n < LENGTH('a). bit a n \<longrightarrow> \<not> bit b n)"
  by (auto simp add: bit_eq_iff bit_simps dest: bit_imp_le_length)

section \<open>Lists\<close>

lemma takeWhile_all: "(\<forall>x \<in> set xs. P x) \<Longrightarrow> takeWhile P xs = xs"
  by (induction xs) auto

lemma dropWhile_hd_stop: "xs = [] \<or> \<not> P (hd xs) \<Longrightarrow> dropWhile P xs = xs"
  by (cases xs) auto

text \<open>Neighbours in strictly increasing order: checked in one pass, and enough for distinctness.\<close>

fun increasing :: "'a::linorder list \<Rightarrow> bool" where
  "increasing (x # y # r) = (x < y \<and> increasing (y # r))"
| "increasing _ = True"

lemma increasing_sorted_wrt: "increasing xs \<Longrightarrow> sorted_wrt (<) xs"
proof (induction xs rule: increasing.induct)
  case (1 x y r)
  then have "sorted_wrt (<) (y # r)" "x < y" by simp_all
  then show ?case by auto
qed auto

lemma increasing_distinct: "increasing xs \<Longrightarrow> distinct xs"
  using increasing_sorted_wrt strict_sorted_iff by blast

lemma nth_append_mid: "length xs = n \<Longrightarrow> (xs @ y # ys) ! n = y"
  by auto

end
