(* ===== verification/NtErrorTables.thy ===== *)
theory NtErrorTables
  imports WxPrelude
begin

text \<open>
  The error tables of \<open>libcli/util/errormap.c\<close>, entry by entry in the order of the source:
  \<open>ntstatus_to_dos_map\<close> (class, code, NT status) and \<open>ntstatus_to_werror_map\<close>
  (NT status, Win32 error). The named codes of \<open>nterr.h\<close> and \<open>doserr.h\<close> are written as
  their values, with the name of the source as a comment in the first table; the second
  table has values in the source too, but for its first entry and its terminator. Each table
  is given in parts that are appended at the end.
\<close>

abbreviation (input) ERRDOS :: u8 where "ERRDOS \<equiv> 0x01"
abbreviation (input) ERRSRV :: u8 where "ERRSRV \<equiv> 0x02"
abbreviation (input) ERRHRD :: u8 where "ERRHRD \<equiv> 0x03"
abbreviation ERRgeneral :: u32 where "ERRgeneral \<equiv> 31"

section \<open>NT status to DOS error\<close>

definition ntstatus_to_dos_map_1 :: "(u8 \<times> u32 \<times> NTSTATUS) list" where
  "ntstatus_to_dos_map_1 =
     [
      (ERRDOS, 18, 0x80000006) \<comment> \<open>STATUS_NO_MORE_FILES, ERRnofiles\<close>,
      (ERRDOS, 18, 0x8000001A) \<comment> \<open>NT_STATUS_NO_MORE_ENTRIES, ERRnofiles\<close>,
      (ERRDOS, ERRgeneral, 0xC0000001) \<comment> \<open>NT_STATUS_UNSUCCESSFUL\<close>,
      (ERRDOS, 1, 0xC0000002) \<comment> \<open>NT_STATUS_NOT_IMPLEMENTED, ERRbadfunc\<close>,
      (ERRDOS, 87, 0xC0000003) \<comment> \<open>NT_STATUS_INVALID_INFO_CLASS\<close>,
      (ERRDOS, 24, 0xC0000004) \<comment> \<open>NT_STATUS_INFO_LENGTH_MISMATCH\<close>,
      (ERRHRD, ERRgeneral, 0xC0000005) \<comment> \<open>NT_STATUS_ACCESS_VIOLATION\<close>,
      (ERRHRD, ERRgeneral, 0xC0000006) \<comment> \<open>NT_STATUS_IN_PAGE_ERROR\<close>,
      (ERRHRD, ERRgeneral, 0xC0000007) \<comment> \<open>NT_STATUS_PAGEFILE_QUOTA\<close>,
      (ERRDOS, 6, 0xC0000008) \<comment> \<open>NT_STATUS_INVALID_HANDLE, ERRbadfid\<close>,
      (ERRHRD, ERRgeneral, 0xC0000009) \<comment> \<open>NT_STATUS_BAD_INITIAL_STACK\<close>,
      (ERRDOS, 193, 0xC000000A) \<comment> \<open>NT_STATUS_BAD_INITIAL_PC\<close>,
      (ERRDOS, 87, 0xC000000B) \<comment> \<open>NT_STATUS_INVALID_CID\<close>,
      (ERRHRD, ERRgeneral, 0xC000000C) \<comment> \<open>NT_STATUS_TIMER_NOT_CANCELED\<close>,
      (ERRDOS, 87, 0xC000000D) \<comment> \<open>NT_STATUS_INVALID_PARAMETER\<close>,
      (ERRDOS, 2, 0xC000000E) \<comment> \<open>NT_STATUS_NO_SUCH_DEVICE, ERRbadfile\<close>,
      (ERRDOS, 2, 0xC000000F) \<comment> \<open>NT_STATUS_NO_SUCH_FILE, ERRbadfile\<close>,
      (ERRDOS, 1, 0xC0000010) \<comment> \<open>NT_STATUS_INVALID_DEVICE_REQUEST, ERRbadfunc\<close>,
      (ERRDOS, 38, 0xC0000011) \<comment> \<open>NT_STATUS_END_OF_FILE\<close>,
      (ERRDOS, 34, 0xC0000012) \<comment> \<open>NT_STATUS_WRONG_VOLUME\<close>,
      (ERRDOS, 21, 0xC0000013) \<comment> \<open>NT_STATUS_NO_MEDIA_IN_DEVICE\<close>,
      (ERRHRD, ERRgeneral, 0xC0000014) \<comment> \<open>NT_STATUS_UNRECOGNIZED_MEDIA\<close>,
      (ERRDOS, 27, 0xC0000015) \<comment> \<open>NT_STATUS_NONEXISTENT_SECTOR\<close>,
      (ERRDOS, 8, 0xC0000017) \<comment> \<open>NT_STATUS_NO_MEMORY, ERRnomem\<close>,
      (ERRDOS, 487, 0xC0000018) \<comment> \<open>NT_STATUS_CONFLICTING_ADDRESSES\<close>,
      (ERRDOS, 487, 0xC0000019) \<comment> \<open>NT_STATUS_NOT_MAPPED_VIEW\<close>,
      (ERRDOS, 87, 0xC000001A) \<comment> \<open>NT_STATUS_UNABLE_TO_FREE_VM\<close>,
      (ERRDOS, 87, 0xC000001B) \<comment> \<open>NT_STATUS_UNABLE_TO_DELETE_SECTION\<close>,
      (ERRDOS, 2142, 0xC000001C) \<comment> \<open>NT_STATUS_INVALID_SYSTEM_SERVICE\<close>,
      (ERRHRD, ERRgeneral, 0xC000001D) \<comment> \<open>NT_STATUS_ILLEGAL_INSTRUCTION\<close>,
      (ERRDOS, 5, 0xC000001E) \<comment> \<open>NT_STATUS_INVALID_LOCK_SEQUENCE, ERRnoaccess\<close>,
      (ERRDOS, 5, 0xC000001F) \<comment> \<open>NT_STATUS_INVALID_VIEW_SIZE, ERRnoaccess\<close>,
      (ERRDOS, 193, 0xC0000020) \<comment> \<open>NT_STATUS_INVALID_FILE_FOR_SECTION\<close>,
      (ERRDOS, 5, 0xC0000021) \<comment> \<open>NT_STATUS_ALREADY_COMMITTED, ERRnoaccess\<close>,
      (ERRDOS, 5, 0xC0000022) \<comment> \<open>NT_STATUS_ACCESS_DENIED, ERRnoaccess\<close>,
      (ERRDOS, 111, 0xC0000023) \<comment> \<open>NT_STATUS_BUFFER_TOO_SMALL\<close>,
      (ERRDOS, 6, 0xC0000024) \<comment> \<open>NT_STATUS_OBJECT_TYPE_MISMATCH, ERRbadfid\<close>,
      (ERRHRD, ERRgeneral, 0xC0000025) \<comment> \<open>NT_STATUS_NONCONTINUABLE_EXCEPTION\<close>,
      (ERRHRD, ERRgeneral, 0xC0000026) \<comment> \<open>NT_STATUS_INVALID_DISPOSITION\<close>,
      (ERRHRD, ERRgeneral, 0xC0000027) \<comment> \<open>NT_STATUS_UNWIND\<close>,
      (ERRHRD, ERRgeneral, 0xC0000028) \<comment> \<open>NT_STATUS_BAD_STACK\<close>,
      (ERRHRD, ERRgeneral, 0xC0000029) \<comment> \<open>NT_STATUS_INVALID_UNWIND_TARGET\<close>,
      (ERRDOS, 158, 0xC000002A) \<comment> \<open>NT_STATUS_NOT_LOCKED\<close>,
      (ERRHRD, ERRgeneral, 0xC000002B) \<comment> \<open>NT_STATUS_PARITY_ERROR\<close>,
      (ERRDOS, 487, 0xC000002C) \<comment> \<open>NT_STATUS_UNABLE_TO_DECOMMIT_VM\<close>,
      (ERRDOS, 487, 0xC000002D) \<comment> \<open>NT_STATUS_NOT_COMMITTED\<close>,
      (ERRHRD, ERRgeneral, 0xC000002E) \<comment> \<open>NT_STATUS_INVALID_PORT_ATTRIBUTES\<close>,
      (ERRHRD, ERRgeneral, 0xC000002F) \<comment> \<open>NT_STATUS_PORT_MESSAGE_TOO_LONG\<close>,
      (ERRDOS, 87, 0xC0000030) \<comment> \<open>NT_STATUS_INVALID_PARAMETER_MIX\<close>,
      (ERRHRD, ERRgeneral, 0xC0000031) \<comment> \<open>NT_STATUS_INVALID_QUOTA_LOWER\<close>,
      (ERRHRD, ERRgeneral, 0xC0000032) \<comment> \<open>NT_STATUS_DISK_CORRUPT_ERROR\<close>,
      (ERRDOS, 123, 0xC0000033) \<comment> \<open>NT_STATUS_OBJECT_NAME_INVALID, ERRinvalidname\<close>,
      (ERRDOS, 2, 0xC0000034) \<comment> \<open>NT_STATUS_OBJECT_NAME_NOT_FOUND, ERRbadfile\<close>,
      (ERRDOS, 80, 0xC0000035) \<comment> \<open>NT_STATUS_OBJECT_NAME_COLLISION, ERRfilexists\<close>,
      (ERRHRD, ERRgeneral, 0xC0000036) \<comment> \<open>NT_STATUS_HANDLE_NOT_WAITABLE\<close>,
      (ERRDOS, 6, 0xC0000037) \<comment> \<open>NT_STATUS_PORT_DISCONNECTED, ERRbadfid\<close>,
      (ERRHRD, ERRgeneral, 0xC0000038) \<comment> \<open>NT_STATUS_DEVICE_ALREADY_ATTACHED\<close>,
      (ERRDOS, 161, 0xC0000039) \<comment> \<open>NT_STATUS_OBJECT_PATH_INVALID\<close>,
      (ERRDOS, 3, 0xC000003A) \<comment> \<open>NT_STATUS_OBJECT_PATH_NOT_FOUND, ERRbadpath\<close>,
      (ERRDOS, 161, 0xC000003B) \<comment> \<open>NT_STATUS_OBJECT_PATH_SYNTAX_BAD\<close>,
      (ERRHRD, ERRgeneral, 0xC000003C) \<comment> \<open>NT_STATUS_DATA_OVERRUN\<close>,
      (ERRHRD, ERRgeneral, 0xC000003D) \<comment> \<open>NT_STATUS_DATA_LATE_ERROR\<close>,
      (ERRDOS, 23, 0xC000003E) \<comment> \<open>NT_STATUS_DATA_ERROR\<close>,
      (ERRDOS, 23, 0xC000003F) \<comment> \<open>NT_STATUS_CRC_ERROR\<close>,
      (ERRDOS, 8, 0xC0000040) \<comment> \<open>NT_STATUS_SECTION_TOO_BIG, ERRnomem\<close>,
      (ERRDOS, 5, 0xC0000041) \<comment> \<open>NT_STATUS_PORT_CONNECTION_REFUSED, ERRnoaccess\<close>,
      (ERRDOS, 6, 0xC0000042) \<comment> \<open>NT_STATUS_INVALID_PORT_HANDLE, ERRbadfid\<close>,
      (ERRDOS, 32, 0xC0000043) \<comment> \<open>NT_STATUS_SHARING_VIOLATION, ERRbadshare\<close>,
      (ERRHRD, ERRgeneral, 0xC0000044) \<comment> \<open>NT_STATUS_QUOTA_EXCEEDED\<close>,
      (ERRDOS, 87, 0xC0000045) \<comment> \<open>NT_STATUS_INVALID_PAGE_PROTECTION\<close>,
      (ERRDOS, 288, 0xC0000046) \<comment> \<open>NT_STATUS_MUTANT_NOT_OWNED\<close>,
      (ERRDOS, 298, 0xC0000047) \<comment> \<open>NT_STATUS_SEMAPHORE_LIMIT_EXCEEDED\<close>,
      (ERRDOS, 87, 0xC0000048) \<comment> \<open>NT_STATUS_PORT_ALREADY_SET\<close>,
      (ERRDOS, 87, 0xC0000049) \<comment> \<open>NT_STATUS_SECTION_NOT_IMAGE\<close>,
      (ERRDOS, 156, 0xC000004A) \<comment> \<open>NT_STATUS_SUSPEND_COUNT_EXCEEDED\<close>,
      (ERRDOS, 5, 0xC000004B) \<comment> \<open>NT_STATUS_THREAD_IS_TERMINATING, ERRnoaccess\<close>,
      (ERRDOS, 87, 0xC000004C) \<comment> \<open>NT_STATUS_BAD_WORKING_SET_LIMIT\<close>,
      (ERRDOS, 87, 0xC000004D) \<comment> \<open>NT_STATUS_INCOMPATIBLE_FILE_MAP\<close>,
      (ERRDOS, 87, 0xC000004E) \<comment> \<open>NT_STATUS_SECTION_PROTECTION\<close>,
      (ERRDOS, 282, 0xC000004F) \<comment> \<open>NT_STATUS_EAS_NOT_SUPPORTED\<close>,
      (ERRDOS, 255, 0xC0000050) \<comment> \<open>NT_STATUS_EA_TOO_LARGE\<close>,
      (ERRHRD, ERRgeneral, 0xC0000051) \<comment> \<open>NT_STATUS_NONEXISTENT_EA_ENTRY\<close>,
      (ERRHRD, ERRgeneral, 0xC0000052) \<comment> \<open>NT_STATUS_NO_EAS_ON_FILE\<close>,
      (ERRHRD, ERRgeneral, 0xC0000053) \<comment> \<open>NT_STATUS_EA_CORRUPT_ERROR\<close>,
      (ERRDOS, 33, 0xC0000054) \<comment> \<open>NT_STATUS_FILE_LOCK_CONFLICT, ERRlock\<close>,
      (ERRDOS, 33, 0xC0000055) \<comment> \<open>NT_STATUS_LOCK_NOT_GRANTED, ERRlock\<close>,
      (ERRDOS, 5, 0xC0000056) \<comment> \<open>NT_STATUS_DELETE_PENDING, ERRnoaccess\<close>,
      (ERRDOS, 50, 0xC0000057) \<comment> \<open>NT_STATUS_CTL_FILE_NOT_SUPPORTED, ERRunsup\<close>,
      (ERRHRD, ERRgeneral, 0xC0000058) \<comment> \<open>NT_STATUS_UNKNOWN_REVISION\<close>,
      (ERRHRD, ERRgeneral, 0xC0000059) \<comment> \<open>NT_STATUS_REVISION_MISMATCH\<close>,
      (ERRHRD, ERRgeneral, 0xC000005A) \<comment> \<open>NT_STATUS_INVALID_OWNER\<close>,
      (ERRHRD, ERRgeneral, 0xC000005B) \<comment> \<open>NT_STATUS_INVALID_PRIMARY_GROUP\<close>,
      (ERRHRD, ERRgeneral, 0xC000005C) \<comment> \<open>NT_STATUS_NO_IMPERSONATION_TOKEN\<close>,
      (ERRHRD, ERRgeneral, 0xC000005D) \<comment> \<open>NT_STATUS_CANT_DISABLE_MANDATORY\<close>,
      (ERRDOS, 2215, 0xC000005E) \<comment> \<open>NT_STATUS_NO_LOGON_SERVERS\<close>,
      (ERRHRD, ERRgeneral, 0xC000005F) \<comment> \<open>NT_STATUS_NO_SUCH_LOGON_SESSION\<close>,
      (ERRHRD, ERRgeneral, 0xC0000060) \<comment> \<open>NT_STATUS_NO_SUCH_PRIVILEGE\<close>,
      (ERRDOS, 5, 0xC0000061) \<comment> \<open>NT_STATUS_PRIVILEGE_NOT_HELD, ERRnoaccess\<close>,
      (ERRHRD, ERRgeneral, 0xC0000062) \<comment> \<open>NT_STATUS_INVALID_ACCOUNT_NAME\<close>,
      (ERRHRD, ERRgeneral, 0xC0000063) \<comment> \<open>NT_STATUS_USER_EXISTS\<close>,
      (ERRDOS, 5, 0xC0000064) \<comment> \<open>NT_STATUS_NO_SUCH_USER, ERRnoaccess\<close>,
      (ERRHRD, ERRgeneral, 0xC0000065) \<comment> \<open>NT_STATUS_GROUP_EXISTS\<close>,
      (ERRHRD, ERRgeneral, 0xC0000066) \<comment> \<open>NT_STATUS_NO_SUCH_GROUP\<close>,
      (ERRHRD, ERRgeneral, 0xC0000067) \<comment> \<open>NT_STATUS_MEMBER_IN_GROUP\<close>,
      (ERRHRD, ERRgeneral, 0xC0000068) \<comment> \<open>NT_STATUS_MEMBER_NOT_IN_GROUP\<close>,
      (ERRHRD, ERRgeneral, 0xC0000069) \<comment> \<open>NT_STATUS_LAST_ADMIN\<close>,
      (ERRSRV, 2, 0xC000006A) \<comment> \<open>NT_STATUS_WRONG_PASSWORD, ERRbadpw\<close>,
      (ERRHRD, ERRgeneral, 0xC000006B) \<comment> \<open>NT_STATUS_ILL_FORMED_PASSWORD\<close>,
      (ERRHRD, ERRgeneral, 0xC000006C) \<comment> \<open>NT_STATUS_PASSWORD_RESTRICTION\<close>,
      (ERRDOS, 5, 0xC000006D) \<comment> \<open>NT_STATUS_LOGON_FAILURE, ERRnoaccess\<close>,
      (ERRHRD, ERRgeneral, 0xC000006E) \<comment> \<open>NT_STATUS_ACCOUNT_RESTRICTION\<close>,
      (ERRSRV, 2241, 0xC000006F) \<comment> \<open>NT_STATUS_INVALID_LOGON_HOURS\<close>,
      (ERRSRV, 2240, 0xC0000070) \<comment> \<open>NT_STATUS_INVALID_WORKSTATION\<close>,
      (ERRSRV, 2242, 0xC0000071) \<comment> \<open>NT_STATUS_PASSWORD_EXPIRED\<close>,
      (ERRSRV, 2239, 0xC0000072) \<comment> \<open>NT_STATUS_ACCOUNT_DISABLED\<close>,
      (ERRHRD, ERRgeneral, 0xC0000073) \<comment> \<open>NT_STATUS_NONE_MAPPED\<close>,
      (ERRHRD, ERRgeneral, 0xC0000074) \<comment> \<open>NT_STATUS_TOO_MANY_LUIDS_REQUESTED\<close>,
      (ERRHRD, ERRgeneral, 0xC0000075) \<comment> \<open>NT_STATUS_LUIDS_EXHAUSTED\<close>]"

definition ntstatus_to_dos_map_2 :: "(u8 \<times> u32 \<times> NTSTATUS) list" where
  "ntstatus_to_dos_map_2 =
     [
      (ERRHRD, ERRgeneral, 0xC0000076) \<comment> \<open>NT_STATUS_INVALID_SUB_AUTHORITY\<close>,
      (ERRHRD, ERRgeneral, 0xC0000077) \<comment> \<open>NT_STATUS_INVALID_ACL\<close>,
      (ERRHRD, ERRgeneral, 0xC0000078) \<comment> \<open>NT_STATUS_INVALID_SID\<close>,
      (ERRHRD, ERRgeneral, 0xC0000079) \<comment> \<open>NT_STATUS_INVALID_SECURITY_DESCR\<close>,
      (ERRDOS, 127, 0xC000007A) \<comment> \<open>NT_STATUS_PROCEDURE_NOT_FOUND\<close>,
      (ERRDOS, 193, 0xC000007B) \<comment> \<open>NT_STATUS_INVALID_IMAGE_FORMAT\<close>,
      (ERRHRD, ERRgeneral, 0xC000007C) \<comment> \<open>NT_STATUS_NO_TOKEN\<close>,
      (ERRHRD, ERRgeneral, 0xC000007D) \<comment> \<open>NT_STATUS_BAD_INHERITANCE_ACL\<close>,
      (ERRDOS, 158, 0xC000007E) \<comment> \<open>NT_STATUS_RANGE_NOT_LOCKED\<close>,
      (ERRDOS, 112, 0xC000007F) \<comment> \<open>NT_STATUS_DISK_FULL\<close>,
      (ERRHRD, ERRgeneral, 0xC0000080) \<comment> \<open>NT_STATUS_SERVER_DISABLED\<close>,
      (ERRHRD, ERRgeneral, 0xC0000081) \<comment> \<open>NT_STATUS_SERVER_NOT_DISABLED\<close>,
      (ERRDOS, 68, 0xC0000082) \<comment> \<open>NT_STATUS_TOO_MANY_GUIDS_REQUESTED\<close>,
      (ERRDOS, 259, 0xC0000083) \<comment> \<open>NT_STATUS_GUIDS_EXHAUSTED\<close>,
      (ERRHRD, ERRgeneral, 0xC0000084) \<comment> \<open>NT_STATUS_INVALID_ID_AUTHORITY\<close>,
      (ERRDOS, 259, 0xC0000085) \<comment> \<open>NT_STATUS_AGENTS_EXHAUSTED\<close>,
      (ERRDOS, 154, 0xC0000086) \<comment> \<open>NT_STATUS_INVALID_VOLUME_LABEL\<close>,
      (ERRDOS, 14, 0xC0000087) \<comment> \<open>NT_STATUS_SECTION_NOT_EXTENDED, ERRres\<close>,
      (ERRDOS, 487, 0xC0000088) \<comment> \<open>NT_STATUS_NOT_MAPPED_DATA\<close>,
      (ERRHRD, ERRgeneral, 0xC0000089) \<comment> \<open>NT_STATUS_RESOURCE_DATA_NOT_FOUND\<close>,
      (ERRHRD, ERRgeneral, 0xC000008A) \<comment> \<open>NT_STATUS_RESOURCE_TYPE_NOT_FOUND\<close>,
      (ERRHRD, ERRgeneral, 0xC000008B) \<comment> \<open>NT_STATUS_RESOURCE_NAME_NOT_FOUND\<close>,
      (ERRHRD, ERRgeneral, 0xC000008C) \<comment> \<open>NT_STATUS_ARRAY_BOUNDS_EXCEEDED\<close>,
      (ERRHRD, ERRgeneral, 0xC000008D) \<comment> \<open>NT_STATUS_FLOAT_DENORMAL_OPERAND\<close>,
      (ERRHRD, ERRgeneral, 0xC000008E) \<comment> \<open>NT_STATUS_FLOAT_DIVIDE_BY_ZERO\<close>,
      (ERRHRD, ERRgeneral, 0xC000008F) \<comment> \<open>NT_STATUS_FLOAT_INEXACT_RESULT\<close>,
      (ERRHRD, ERRgeneral, 0xC0000090) \<comment> \<open>NT_STATUS_FLOAT_INVALID_OPERATION\<close>,
      (ERRHRD, ERRgeneral, 0xC0000091) \<comment> \<open>NT_STATUS_FLOAT_OVERFLOW\<close>,
      (ERRHRD, ERRgeneral, 0xC0000092) \<comment> \<open>NT_STATUS_FLOAT_STACK_CHECK\<close>,
      (ERRHRD, ERRgeneral, 0xC0000093) \<comment> \<open>NT_STATUS_FLOAT_UNDERFLOW\<close>,
      (ERRHRD, ERRgeneral, 0xC0000094) \<comment> \<open>NT_STATUS_INTEGER_DIVIDE_BY_ZERO\<close>,
      (ERRDOS, 534, 0xC0000095) \<comment> \<open>NT_STATUS_INTEGER_OVERFLOW\<close>,
      (ERRHRD, ERRgeneral, 0xC0000096) \<comment> \<open>NT_STATUS_PRIVILEGED_INSTRUCTION\<close>,
      (ERRDOS, 8, 0xC0000097) \<comment> \<open>NT_STATUS_TOO_MANY_PAGING_FILES, ERRnomem\<close>,
      (ERRHRD, ERRgeneral, 0xC0000098) \<comment> \<open>NT_STATUS_FILE_INVALID\<close>,
      (ERRHRD, ERRgeneral, 0xC0000099) \<comment> \<open>NT_STATUS_ALLOTTED_SPACE_EXCEEDED\<close>,
      (ERRDOS, 8, 0xC000009A) \<comment> \<open>NT_STATUS_INSUFFICIENT_RESOURCES, ERRnomem\<close>,
      (ERRDOS, 3, 0xC000009B) \<comment> \<open>NT_STATUS_DFS_EXIT_PATH_FOUND, ERRbadpath\<close>,
      (ERRDOS, 23, 0xC000009C) \<comment> \<open>NT_STATUS_DEVICE_DATA_ERROR\<close>,
      (ERRHRD, ERRgeneral, 0xC000009D) \<comment> \<open>NT_STATUS_DEVICE_NOT_CONNECTED\<close>,
      (ERRDOS, 21, 0xC000009E) \<comment> \<open>NT_STATUS_DEVICE_POWER_FAILURE\<close>,
      (ERRDOS, 487, 0xC000009F) \<comment> \<open>NT_STATUS_FREE_VM_NOT_AT_BASE\<close>,
      (ERRDOS, 487, 0xC00000A0) \<comment> \<open>NT_STATUS_MEMORY_NOT_ALLOCATED\<close>,
      (ERRHRD, ERRgeneral, 0xC00000A1) \<comment> \<open>NT_STATUS_WORKING_SET_QUOTA\<close>,
      (ERRDOS, 19, 0xC00000A2) \<comment> \<open>NT_STATUS_MEDIA_WRITE_PROTECTED\<close>,
      (ERRDOS, 21, 0xC00000A3) \<comment> \<open>NT_STATUS_DEVICE_NOT_READY\<close>,
      (ERRHRD, ERRgeneral, 0xC00000A4) \<comment> \<open>NT_STATUS_INVALID_GROUP_ATTRIBUTES\<close>,
      (ERRHRD, ERRgeneral, 0xC00000A5) \<comment> \<open>NT_STATUS_BAD_IMPERSONATION_LEVEL\<close>,
      (ERRHRD, ERRgeneral, 0xC00000A6) \<comment> \<open>NT_STATUS_CANT_OPEN_ANONYMOUS\<close>,
      (ERRHRD, ERRgeneral, 0xC00000A7) \<comment> \<open>NT_STATUS_BAD_VALIDATION_CLASS\<close>,
      (ERRHRD, ERRgeneral, 0xC00000A8) \<comment> \<open>NT_STATUS_BAD_TOKEN_TYPE\<close>,
      (ERRDOS, 87, 0xC00000A9) \<comment> \<open>NT_STATUS_BAD_MASTER_BOOT_RECORD\<close>,
      (ERRHRD, ERRgeneral, 0xC00000AA) \<comment> \<open>NT_STATUS_INSTRUCTION_MISALIGNMENT\<close>,
      (ERRDOS, 231, 0xC00000AB) \<comment> \<open>NT_STATUS_INSTANCE_NOT_AVAILABLE, ERRpipebusy\<close>,
      (ERRDOS, 231, 0xC00000AC) \<comment> \<open>NT_STATUS_PIPE_NOT_AVAILABLE, ERRpipebusy\<close>,
      (ERRDOS, 230, 0xC00000AD) \<comment> \<open>NT_STATUS_INVALID_PIPE_STATE, ERRbadpipe\<close>,
      (ERRDOS, 231, 0xC00000AE) \<comment> \<open>NT_STATUS_PIPE_BUSY, ERRpipebusy\<close>,
      (ERRDOS, 1, 0xC00000AF) \<comment> \<open>NT_STATUS_ILLEGAL_FUNCTION, ERRbadfunc\<close>,
      (ERRDOS, 233, 0xC00000B0) \<comment> \<open>NT_STATUS_PIPE_DISCONNECTED, ERRnotconnected\<close>,
      (ERRDOS, 232, 0xC00000B1) \<comment> \<open>NT_STATUS_PIPE_CLOSING, ERRpipeclosing\<close>,
      (ERRHRD, ERRgeneral, 0xC00000B2) \<comment> \<open>NT_STATUS_PIPE_CONNECTED\<close>,
      (ERRHRD, ERRgeneral, 0xC00000B3) \<comment> \<open>NT_STATUS_PIPE_LISTENING\<close>,
      (ERRDOS, 230, 0xC00000B4) \<comment> \<open>NT_STATUS_INVALID_READ_MODE, ERRbadpipe\<close>,
      (ERRDOS, 121, 0xC00000B5) \<comment> \<open>NT_STATUS_IO_TIMEOUT\<close>,
      (ERRDOS, 38, 0xC00000B6) \<comment> \<open>NT_STATUS_FILE_FORCED_CLOSED\<close>,
      (ERRHRD, ERRgeneral, 0xC00000B7) \<comment> \<open>NT_STATUS_PROFILING_NOT_STARTED\<close>,
      (ERRHRD, ERRgeneral, 0xC00000B8) \<comment> \<open>NT_STATUS_PROFILING_NOT_STOPPED\<close>,
      (ERRHRD, ERRgeneral, 0xC00000B9) \<comment> \<open>NT_STATUS_COULD_NOT_INTERPRET\<close>,
      (ERRDOS, 5, 0xC00000BA) \<comment> \<open>NT_STATUS_FILE_IS_A_DIRECTORY, ERRnoaccess\<close>,
      (ERRDOS, 50, 0xC00000BB) \<comment> \<open>NT_STATUS_NOT_SUPPORTED, ERRunsup\<close>,
      (ERRDOS, 51, 0xC00000BC) \<comment> \<open>NT_STATUS_REMOTE_NOT_LISTENING\<close>,
      (ERRDOS, 52, 0xC00000BD) \<comment> \<open>NT_STATUS_DUPLICATE_NAME\<close>,
      (ERRDOS, 53, 0xC00000BE) \<comment> \<open>NT_STATUS_BAD_NETWORK_PATH\<close>,
      (ERRDOS, 54, 0xC00000BF) \<comment> \<open>NT_STATUS_NETWORK_BUSY\<close>,
      (ERRDOS, 55, 0xC00000C0) \<comment> \<open>NT_STATUS_DEVICE_DOES_NOT_EXIST\<close>,
      (ERRDOS, 56, 0xC00000C1) \<comment> \<open>NT_STATUS_TOO_MANY_COMMANDS\<close>,
      (ERRDOS, 57, 0xC00000C2) \<comment> \<open>NT_STATUS_ADAPTER_HARDWARE_ERROR\<close>,
      (ERRDOS, 58, 0xC00000C3) \<comment> \<open>NT_STATUS_INVALID_NETWORK_RESPONSE\<close>,
      (ERRDOS, 59, 0xC00000C4) \<comment> \<open>NT_STATUS_UNEXPECTED_NETWORK_ERROR\<close>,
      (ERRDOS, 60, 0xC00000C5) \<comment> \<open>NT_STATUS_BAD_REMOTE_ADAPTER\<close>,
      (ERRDOS, 61, 0xC00000C6) \<comment> \<open>NT_STATUS_PRINT_QUEUE_FULL\<close>,
      (ERRDOS, 62, 0xC00000C7) \<comment> \<open>NT_STATUS_NO_SPOOL_SPACE\<close>,
      (ERRDOS, 63, 0xC00000C8) \<comment> \<open>NT_STATUS_PRINT_CANCELLED\<close>,
      (ERRDOS, 64, 0xC00000C9) \<comment> \<open>NT_STATUS_NETWORK_NAME_DELETED\<close>,
      (ERRDOS, 65, 0xC00000CA) \<comment> \<open>NT_STATUS_NETWORK_ACCESS_DENIED\<close>,
      (ERRDOS, 66, 0xC00000CB) \<comment> \<open>NT_STATUS_BAD_DEVICE_TYPE\<close>,
      (ERRDOS, 67, 0xC00000CC) \<comment> \<open>NT_STATUS_BAD_NETWORK_NAME, ERRnosuchshare\<close>,
      (ERRDOS, 68, 0xC00000CD) \<comment> \<open>NT_STATUS_TOO_MANY_NAMES\<close>,
      (ERRDOS, 69, 0xC00000CE) \<comment> \<open>NT_STATUS_TOO_MANY_SESSIONS\<close>,
      (ERRDOS, 70, 0xC00000CF) \<comment> \<open>NT_STATUS_SHARING_PAUSED\<close>,
      (ERRDOS, 71, 0xC00000D0) \<comment> \<open>NT_STATUS_REQUEST_NOT_ACCEPTED\<close>,
      (ERRDOS, 72, 0xC00000D1) \<comment> \<open>NT_STATUS_REDIRECTOR_PAUSED\<close>,
      (ERRDOS, 88, 0xC00000D2) \<comment> \<open>NT_STATUS_NET_WRITE_FAULT\<close>,
      (ERRHRD, ERRgeneral, 0xC00000D3) \<comment> \<open>NT_STATUS_PROFILING_AT_LIMIT\<close>,
      (ERRDOS, 17, 0xC00000D4) \<comment> \<open>NT_STATUS_NOT_SAME_DEVICE, ERRdiffdevice\<close>,
      (ERRDOS, 5, 0xC00000D5) \<comment> \<open>NT_STATUS_FILE_RENAMED, ERRnoaccess\<close>,
      (ERRDOS, 240, 0xC00000D6) \<comment> \<open>NT_STATUS_VIRTUAL_CIRCUIT_CLOSED\<close>,
      (ERRHRD, ERRgeneral, 0xC00000D7) \<comment> \<open>NT_STATUS_NO_SECURITY_ON_OBJECT\<close>,
      (ERRHRD, ERRgeneral, 0xC00000D8) \<comment> \<open>NT_STATUS_CANT_WAIT\<close>,
      (ERRDOS, 232, 0xC00000D9) \<comment> \<open>NT_STATUS_PIPE_EMPTY, ERRpipeclosing\<close>,
      (ERRHRD, ERRgeneral, 0xC00000DA) \<comment> \<open>NT_STATUS_CANT_ACCESS_DOMAIN_INFO\<close>,
      (ERRHRD, ERRgeneral, 0xC00000DB) \<comment> \<open>NT_STATUS_CANT_TERMINATE_SELF\<close>,
      (ERRHRD, ERRgeneral, 0xC00000DC) \<comment> \<open>NT_STATUS_INVALID_SERVER_STATE\<close>,
      (ERRHRD, ERRgeneral, 0xC00000DD) \<comment> \<open>NT_STATUS_INVALID_DOMAIN_STATE\<close>,
      (ERRHRD, ERRgeneral, 0xC00000DE) \<comment> \<open>NT_STATUS_INVALID_DOMAIN_ROLE\<close>,
      (ERRHRD, ERRgeneral, 0xC00000DF) \<comment> \<open>NT_STATUS_NO_SUCH_DOMAIN\<close>,
      (ERRHRD, ERRgeneral, 0xC00000E0) \<comment> \<open>NT_STATUS_DOMAIN_EXISTS\<close>,
      (ERRHRD, ERRgeneral, 0xC00000E1) \<comment> \<open>NT_STATUS_DOMAIN_LIMIT_EXCEEDED\<close>,
      (ERRDOS, 300, 0xC00000E2) \<comment> \<open>NT_STATUS_OPLOCK_NOT_GRANTED\<close>,
      (ERRDOS, 301, 0xC00000E3) \<comment> \<open>NT_STATUS_INVALID_OPLOCK_PROTOCOL\<close>,
      (ERRHRD, ERRgeneral, 0xC00000E4) \<comment> \<open>NT_STATUS_INTERNAL_DB_CORRUPTION\<close>,
      (ERRHRD, ERRgeneral, 0xC00000E5) \<comment> \<open>NT_STATUS_INTERNAL_ERROR\<close>,
      (ERRHRD, ERRgeneral, 0xC00000E6) \<comment> \<open>NT_STATUS_GENERIC_NOT_MAPPED\<close>,
      (ERRHRD, ERRgeneral, 0xC00000E7) \<comment> \<open>NT_STATUS_BAD_DESCRIPTOR_FORMAT\<close>,
      (ERRHRD, ERRgeneral, 0xC00000E8) \<comment> \<open>NT_STATUS_INVALID_USER_BUFFER\<close>,
      (ERRHRD, ERRgeneral, 0xC00000E9) \<comment> \<open>NT_STATUS_UNEXPECTED_IO_ERROR\<close>,
      (ERRHRD, ERRgeneral, 0xC00000EA) \<comment> \<open>NT_STATUS_UNEXPECTED_MM_CREATE_ERR\<close>,
      (ERRHRD, ERRgeneral, 0xC00000EB) \<comment> \<open>NT_STATUS_UNEXPECTED_MM_MAP_ERROR\<close>,
      (ERRHRD, ERRgeneral, 0xC00000EC) \<comment> \<open>NT_STATUS_UNEXPECTED_MM_EXTEND_ERR\<close>,
      (ERRHRD, ERRgeneral, 0xC00000ED) \<comment> \<open>NT_STATUS_NOT_LOGON_PROCESS\<close>,
      (ERRHRD, ERRgeneral, 0xC00000EE) \<comment> \<open>NT_STATUS_LOGON_SESSION_EXISTS\<close>,
      (ERRDOS, 87, 0xC00000EF) \<comment> \<open>NT_STATUS_INVALID_PARAMETER_1\<close>,
      (ERRDOS, 87, 0xC00000F0) \<comment> \<open>NT_STATUS_INVALID_PARAMETER_2\<close>,
      (ERRDOS, 87, 0xC00000F1) \<comment> \<open>NT_STATUS_INVALID_PARAMETER_3\<close>,
      (ERRDOS, 87, 0xC00000F2) \<comment> \<open>NT_STATUS_INVALID_PARAMETER_4\<close>,
      (ERRDOS, 87, 0xC00000F3) \<comment> \<open>NT_STATUS_INVALID_PARAMETER_5\<close>,
      (ERRDOS, 87, 0xC00000F4) \<comment> \<open>NT_STATUS_INVALID_PARAMETER_6\<close>,
      (ERRDOS, 87, 0xC00000F5) \<comment> \<open>NT_STATUS_INVALID_PARAMETER_7\<close>,
      (ERRDOS, 87, 0xC00000F6) \<comment> \<open>NT_STATUS_INVALID_PARAMETER_8\<close>,
      (ERRDOS, 87, 0xC00000F7) \<comment> \<open>NT_STATUS_INVALID_PARAMETER_9\<close>,
      (ERRDOS, 87, 0xC00000F8) \<comment> \<open>NT_STATUS_INVALID_PARAMETER_10\<close>,
      (ERRDOS, 87, 0xC00000F9) \<comment> \<open>NT_STATUS_INVALID_PARAMETER_11\<close>,
      (ERRDOS, 87, 0xC00000FA) \<comment> \<open>NT_STATUS_INVALID_PARAMETER_12\<close>,
      (ERRDOS, 3, 0xC00000FB) \<comment> \<open>NT_STATUS_REDIRECTOR_NOT_STARTED, ERRbadpath\<close>,
      (ERRHRD, ERRgeneral, 0xC00000FC) \<comment> \<open>NT_STATUS_REDIRECTOR_STARTED\<close>,
      (ERRHRD, ERRgeneral, 0xC00000FD) \<comment> \<open>NT_STATUS_STACK_OVERFLOW\<close>]"

definition ntstatus_to_dos_map_3 :: "(u8 \<times> u32 \<times> NTSTATUS) list" where
  "ntstatus_to_dos_map_3 =
     [
      (ERRHRD, ERRgeneral, 0xC00000FE) \<comment> \<open>NT_STATUS_NO_SUCH_PACKAGE\<close>,
      (ERRHRD, ERRgeneral, 0xC00000FF) \<comment> \<open>NT_STATUS_BAD_FUNCTION_TABLE\<close>,
      (ERRDOS, 203, 0xC0000100) \<comment> \<open>NT_STATUS(0xc0000100)\<close>,
      (ERRDOS, 145, 0xC0000101) \<comment> \<open>NT_STATUS_DIRECTORY_NOT_EMPTY\<close>,
      (ERRHRD, ERRgeneral, 0xC0000102) \<comment> \<open>NT_STATUS_FILE_CORRUPT_ERROR\<close>,
      (ERRDOS, 267, 0xC0000103) \<comment> \<open>NT_STATUS_NOT_A_DIRECTORY\<close>,
      (ERRHRD, ERRgeneral, 0xC0000104) \<comment> \<open>NT_STATUS_BAD_LOGON_SESSION_STATE\<close>,
      (ERRHRD, ERRgeneral, 0xC0000105) \<comment> \<open>NT_STATUS_LOGON_SESSION_COLLISION\<close>,
      (ERRDOS, 206, 0xC0000106) \<comment> \<open>NT_STATUS_NAME_TOO_LONG\<close>,
      (ERRDOS, 2401, 0xC0000107) \<comment> \<open>NT_STATUS_FILES_OPEN\<close>,
      (ERRDOS, 2404, 0xC0000108) \<comment> \<open>NT_STATUS_CONNECTION_IN_USE\<close>,
      (ERRHRD, ERRgeneral, 0xC0000109) \<comment> \<open>NT_STATUS_MESSAGE_NOT_FOUND\<close>,
      (ERRDOS, 5, 0xC000010A) \<comment> \<open>NT_STATUS_PROCESS_IS_TERMINATING, ERRnoaccess\<close>,
      (ERRHRD, ERRgeneral, 0xC000010B) \<comment> \<open>NT_STATUS_INVALID_LOGON_TYPE\<close>,
      (ERRHRD, ERRgeneral, 0xC000010C) \<comment> \<open>NT_STATUS_NO_GUID_TRANSLATION\<close>,
      (ERRHRD, ERRgeneral, 0xC000010D) \<comment> \<open>NT_STATUS_CANNOT_IMPERSONATE\<close>,
      (ERRHRD, ERRgeneral, 0xC000010E) \<comment> \<open>NT_STATUS_IMAGE_ALREADY_LOADED\<close>,
      (ERRHRD, ERRgeneral, 0xC000010F) \<comment> \<open>NT_STATUS_ABIOS_NOT_PRESENT\<close>,
      (ERRHRD, ERRgeneral, 0xC0000110) \<comment> \<open>NT_STATUS_ABIOS_LID_NOT_EXIST\<close>,
      (ERRHRD, ERRgeneral, 0xC0000111) \<comment> \<open>NT_STATUS_ABIOS_LID_ALREADY_OWNED\<close>,
      (ERRHRD, ERRgeneral, 0xC0000112) \<comment> \<open>NT_STATUS_ABIOS_NOT_LID_OWNER\<close>,
      (ERRHRD, ERRgeneral, 0xC0000113) \<comment> \<open>NT_STATUS_ABIOS_INVALID_COMMAND\<close>,
      (ERRHRD, ERRgeneral, 0xC0000114) \<comment> \<open>NT_STATUS_ABIOS_INVALID_LID\<close>,
      (ERRHRD, ERRgeneral, 0xC0000115) \<comment> \<open>NT_STATUS_ABIOS_SELECTOR_NOT_AVAILABLE\<close>,
      (ERRHRD, ERRgeneral, 0xC0000116) \<comment> \<open>NT_STATUS_ABIOS_INVALID_SELECTOR\<close>,
      (ERRHRD, ERRgeneral, 0xC0000117) \<comment> \<open>NT_STATUS_NO_LDT\<close>,
      (ERRHRD, ERRgeneral, 0xC0000118) \<comment> \<open>NT_STATUS_INVALID_LDT_SIZE\<close>,
      (ERRHRD, ERRgeneral, 0xC0000119) \<comment> \<open>NT_STATUS_INVALID_LDT_OFFSET\<close>,
      (ERRHRD, ERRgeneral, 0xC000011A) \<comment> \<open>NT_STATUS_INVALID_LDT_DESCRIPTOR\<close>,
      (ERRDOS, 193, 0xC000011B) \<comment> \<open>NT_STATUS_INVALID_IMAGE_NE_FORMAT\<close>,
      (ERRHRD, ERRgeneral, 0xC000011C) \<comment> \<open>NT_STATUS_RXACT_INVALID_STATE\<close>,
      (ERRHRD, ERRgeneral, 0xC000011D) \<comment> \<open>NT_STATUS_RXACT_COMMIT_FAILURE\<close>,
      (ERRHRD, ERRgeneral, 0xC000011E) \<comment> \<open>NT_STATUS_MAPPED_FILE_SIZE_ZERO\<close>,
      (ERRDOS, 4, 0xC000011F) \<comment> \<open>NT_STATUS_TOO_MANY_OPENED_FILES, ERRnofids\<close>,
      (ERRHRD, ERRgeneral, 0xC0000120) \<comment> \<open>NT_STATUS_CANCELLED\<close>,
      (ERRDOS, 5, 0xC0000121) \<comment> \<open>NT_STATUS_CANNOT_DELETE, ERRnoaccess\<close>,
      (ERRHRD, ERRgeneral, 0xC0000122) \<comment> \<open>NT_STATUS_INVALID_COMPUTER_NAME\<close>,
      (ERRDOS, 5, 0xC0000123) \<comment> \<open>NT_STATUS_FILE_DELETED, ERRnoaccess\<close>,
      (ERRHRD, ERRgeneral, 0xC0000124) \<comment> \<open>NT_STATUS_SPECIAL_ACCOUNT\<close>,
      (ERRHRD, ERRgeneral, 0xC0000125) \<comment> \<open>NT_STATUS_SPECIAL_GROUP\<close>,
      (ERRHRD, ERRgeneral, 0xC0000126) \<comment> \<open>NT_STATUS_SPECIAL_USER\<close>,
      (ERRHRD, ERRgeneral, 0xC0000127) \<comment> \<open>NT_STATUS_MEMBERS_PRIMARY_GROUP\<close>,
      (ERRDOS, 6, 0xC0000128) \<comment> \<open>NT_STATUS_FILE_CLOSED, ERRbadfid\<close>,
      (ERRHRD, ERRgeneral, 0xC0000129) \<comment> \<open>NT_STATUS_TOO_MANY_THREADS\<close>,
      (ERRHRD, ERRgeneral, 0xC000012A) \<comment> \<open>NT_STATUS_THREAD_NOT_IN_PROCESS\<close>,
      (ERRHRD, ERRgeneral, 0xC000012B) \<comment> \<open>NT_STATUS_TOKEN_ALREADY_IN_USE\<close>,
      (ERRHRD, ERRgeneral, 0xC000012C) \<comment> \<open>NT_STATUS_PAGEFILE_QUOTA_EXCEEDED\<close>,
      (ERRHRD, ERRgeneral, 0xC000012D) \<comment> \<open>NT_STATUS_COMMITMENT_LIMIT\<close>,
      (ERRDOS, 193, 0xC000012E) \<comment> \<open>NT_STATUS_INVALID_IMAGE_LE_FORMAT\<close>,
      (ERRDOS, 193, 0xC000012F) \<comment> \<open>NT_STATUS_INVALID_IMAGE_NOT_MZ\<close>,
      (ERRDOS, 193, 0xC0000130) \<comment> \<open>NT_STATUS_INVALID_IMAGE_PROTECT\<close>,
      (ERRDOS, 193, 0xC0000131) \<comment> \<open>NT_STATUS_INVALID_IMAGE_WIN_16\<close>,
      (ERRHRD, ERRgeneral, 0xC0000132) \<comment> \<open>NT_STATUS_LOGON_SERVER_CONFLICT\<close>,
      (ERRHRD, ERRgeneral, 0xC0000133) \<comment> \<open>NT_STATUS_TIME_DIFFERENCE_AT_DC\<close>,
      (ERRHRD, ERRgeneral, 0xC0000134) \<comment> \<open>NT_STATUS_SYNCHRONIZATION_REQUIRED\<close>,
      (ERRDOS, 126, 0xC0000135) \<comment> \<open>NT_STATUS_DLL_NOT_FOUND\<close>,
      (ERRHRD, ERRgeneral, 0xC0000136) \<comment> \<open>NT_STATUS_OPEN_FAILED\<close>,
      (ERRHRD, ERRgeneral, 0xC0000137) \<comment> \<open>NT_STATUS_IO_PRIVILEGE_FAILED\<close>,
      (ERRDOS, 182, 0xC0000138) \<comment> \<open>NT_STATUS_ORDINAL_NOT_FOUND\<close>,
      (ERRDOS, 127, 0xC0000139) \<comment> \<open>NT_STATUS_ENTRYPOINT_NOT_FOUND\<close>,
      (ERRHRD, ERRgeneral, 0xC000013A) \<comment> \<open>NT_STATUS_CONTROL_C_EXIT\<close>,
      (ERRDOS, 64, 0xC000013B) \<comment> \<open>NT_STATUS_LOCAL_DISCONNECT\<close>,
      (ERRDOS, 64, 0xC000013C) \<comment> \<open>NT_STATUS_REMOTE_DISCONNECT\<close>,
      (ERRDOS, 51, 0xC000013D) \<comment> \<open>NT_STATUS_REMOTE_RESOURCES\<close>,
      (ERRDOS, 59, 0xC000013E) \<comment> \<open>NT_STATUS_LINK_FAILED\<close>,
      (ERRDOS, 59, 0xC000013F) \<comment> \<open>NT_STATUS_LINK_TIMEOUT\<close>,
      (ERRDOS, 59, 0xC0000140) \<comment> \<open>NT_STATUS_INVALID_CONNECTION\<close>,
      (ERRDOS, 59, 0xC0000141) \<comment> \<open>NT_STATUS_INVALID_ADDRESS\<close>,
      (ERRHRD, ERRgeneral, 0xC0000142) \<comment> \<open>NT_STATUS_DLL_INIT_FAILED\<close>,
      (ERRHRD, ERRgeneral, 0xC0000143) \<comment> \<open>NT_STATUS_MISSING_SYSTEMFILE\<close>,
      (ERRHRD, ERRgeneral, 0xC0000144) \<comment> \<open>NT_STATUS_UNHANDLED_EXCEPTION\<close>,
      (ERRHRD, ERRgeneral, 0xC0000145) \<comment> \<open>NT_STATUS_APP_INIT_FAILURE\<close>,
      (ERRHRD, ERRgeneral, 0xC0000146) \<comment> \<open>NT_STATUS_PAGEFILE_CREATE_FAILED\<close>,
      (ERRHRD, ERRgeneral, 0xC0000147) \<comment> \<open>NT_STATUS_NO_PAGEFILE\<close>,
      (ERRDOS, 124, 0xC0000148) \<comment> \<open>NT_STATUS_INVALID_LEVEL\<close>,
      (ERRDOS, 86, 0xC0000149) \<comment> \<open>NT_STATUS_WRONG_PASSWORD_CORE\<close>,
      (ERRHRD, ERRgeneral, 0xC000014A) \<comment> \<open>NT_STATUS_ILLEGAL_FLOAT_CONTEXT\<close>,
      (ERRDOS, 109, 0xC000014B) \<comment> \<open>NT_STATUS_PIPE_BROKEN\<close>,
      (ERRHRD, ERRgeneral, 0xC000014C) \<comment> \<open>NT_STATUS_REGISTRY_CORRUPT\<close>,
      (ERRHRD, ERRgeneral, 0xC000014D) \<comment> \<open>NT_STATUS_REGISTRY_IO_FAILED\<close>,
      (ERRHRD, ERRgeneral, 0xC000014E) \<comment> \<open>NT_STATUS_NO_EVENT_PAIR\<close>,
      (ERRHRD, ERRgeneral, 0xC000014F) \<comment> \<open>NT_STATUS_UNRECOGNIZED_VOLUME\<close>,
      (ERRHRD, ERRgeneral, 0xC0000150) \<comment> \<open>NT_STATUS_SERIAL_NO_DEVICE_INITED\<close>,
      (ERRHRD, ERRgeneral, 0xC0000151) \<comment> \<open>NT_STATUS_NO_SUCH_ALIAS\<close>,
      (ERRHRD, ERRgeneral, 0xC0000152) \<comment> \<open>NT_STATUS_MEMBER_NOT_IN_ALIAS\<close>,
      (ERRHRD, ERRgeneral, 0xC0000153) \<comment> \<open>NT_STATUS_MEMBER_IN_ALIAS\<close>,
      (ERRHRD, ERRgeneral, 0xC0000154) \<comment> \<open>NT_STATUS_ALIAS_EXISTS\<close>,
      (ERRHRD, ERRgeneral, 0xC0000155) \<comment> \<open>NT_STATUS_LOGON_NOT_GRANTED\<close>,
      (ERRHRD, ERRgeneral, 0xC0000156) \<comment> \<open>NT_STATUS_TOO_MANY_SECRETS\<close>,
      (ERRHRD, ERRgeneral, 0xC0000157) \<comment> \<open>NT_STATUS_SECRET_TOO_LONG\<close>,
      (ERRHRD, ERRgeneral, 0xC0000158) \<comment> \<open>NT_STATUS_INTERNAL_DB_ERROR\<close>,
      (ERRHRD, ERRgeneral, 0xC0000159) \<comment> \<open>NT_STATUS_FULLSCREEN_MODE\<close>,
      (ERRHRD, ERRgeneral, 0xC000015A) \<comment> \<open>NT_STATUS_TOO_MANY_CONTEXT_IDS\<close>,
      (ERRDOS, 5, 0xC000015B) \<comment> \<open>NT_STATUS_LOGON_TYPE_NOT_GRANTED, ERRnoaccess\<close>,
      (ERRHRD, ERRgeneral, 0xC000015C) \<comment> \<open>NT_STATUS_NOT_REGISTRY_FILE\<close>,
      (ERRHRD, ERRgeneral, 0xC000015D) \<comment> \<open>NT_STATUS_NT_CROSS_ENCRYPTION_REQUIRED\<close>,
      (ERRHRD, ERRgeneral, 0xC000015E) \<comment> \<open>NT_STATUS_DOMAIN_CTRLR_CONFIG_ERROR\<close>,
      (ERRHRD, ERRgeneral, 0xC000015F) \<comment> \<open>NT_STATUS_FT_MISSING_MEMBER\<close>,
      (ERRHRD, ERRgeneral, 0xC0000160) \<comment> \<open>NT_STATUS_ILL_FORMED_SERVICE_ENTRY\<close>,
      (ERRHRD, ERRgeneral, 0xC0000161) \<comment> \<open>NT_STATUS_ILLEGAL_CHARACTER\<close>,
      (ERRHRD, ERRgeneral, 0xC0000162) \<comment> \<open>NT_STATUS_UNMAPPABLE_CHARACTER\<close>,
      (ERRHRD, ERRgeneral, 0xC0000163) \<comment> \<open>NT_STATUS_UNDEFINED_CHARACTER\<close>,
      (ERRHRD, ERRgeneral, 0xC0000164) \<comment> \<open>NT_STATUS_FLOPPY_VOLUME\<close>,
      (ERRHRD, ERRgeneral, 0xC0000165) \<comment> \<open>NT_STATUS_FLOPPY_ID_MARK_NOT_FOUND\<close>,
      (ERRHRD, ERRgeneral, 0xC0000166) \<comment> \<open>NT_STATUS_FLOPPY_WRONG_CYLINDER\<close>,
      (ERRHRD, ERRgeneral, 0xC0000167) \<comment> \<open>NT_STATUS_FLOPPY_UNKNOWN_ERROR\<close>,
      (ERRHRD, ERRgeneral, 0xC0000168) \<comment> \<open>NT_STATUS_FLOPPY_BAD_REGISTERS\<close>,
      (ERRHRD, ERRgeneral, 0xC0000169) \<comment> \<open>NT_STATUS_DISK_RECALIBRATE_FAILED\<close>,
      (ERRHRD, ERRgeneral, 0xC000016A) \<comment> \<open>NT_STATUS_DISK_OPERATION_FAILED\<close>,
      (ERRHRD, ERRgeneral, 0xC000016B) \<comment> \<open>NT_STATUS_DISK_RESET_FAILED\<close>,
      (ERRHRD, ERRgeneral, 0xC000016C) \<comment> \<open>NT_STATUS_SHARED_IRQ_BUSY\<close>,
      (ERRHRD, ERRgeneral, 0xC000016D) \<comment> \<open>NT_STATUS_FT_ORPHANING\<close>,
      (ERRHRD, ERRgeneral, 0xC000016E) \<comment> \<open>NT_STATUS(0xc000016e)\<close>,
      (ERRHRD, ERRgeneral, 0xC000016F) \<comment> \<open>NT_STATUS(0xc000016f)\<close>,
      (ERRHRD, ERRgeneral, 0xC0000170) \<comment> \<open>NT_STATUS(0xc0000170)\<close>,
      (ERRHRD, ERRgeneral, 0xC0000171) \<comment> \<open>NT_STATUS(0xc0000171)\<close>,
      (ERRHRD, ERRgeneral, 0xC0000172) \<comment> \<open>NT_STATUS_PARTITION_FAILURE\<close>,
      (ERRHRD, ERRgeneral, 0xC0000173) \<comment> \<open>NT_STATUS_INVALID_BLOCK_LENGTH\<close>,
      (ERRHRD, ERRgeneral, 0xC0000174) \<comment> \<open>NT_STATUS_DEVICE_NOT_PARTITIONED\<close>,
      (ERRHRD, ERRgeneral, 0xC0000175) \<comment> \<open>NT_STATUS_UNABLE_TO_LOCK_MEDIA\<close>,
      (ERRHRD, ERRgeneral, 0xC0000176) \<comment> \<open>NT_STATUS_UNABLE_TO_UNLOAD_MEDIA\<close>,
      (ERRHRD, ERRgeneral, 0xC0000177) \<comment> \<open>NT_STATUS_EOM_OVERFLOW\<close>,
      (ERRHRD, ERRgeneral, 0xC0000178) \<comment> \<open>NT_STATUS_NO_MEDIA\<close>,
      (ERRHRD, ERRgeneral, 0xC0000179) \<comment> \<open>NT_STATUS(0xc0000179)\<close>,
      (ERRHRD, ERRgeneral, 0xC000017A) \<comment> \<open>NT_STATUS_NO_SUCH_MEMBER\<close>,
      (ERRHRD, ERRgeneral, 0xC000017B) \<comment> \<open>NT_STATUS_INVALID_MEMBER\<close>,
      (ERRHRD, ERRgeneral, 0xC000017C) \<comment> \<open>NT_STATUS_KEY_DELETED\<close>,
      (ERRHRD, ERRgeneral, 0xC000017D) \<comment> \<open>NT_STATUS_NO_LOG_SPACE\<close>,
      (ERRHRD, ERRgeneral, 0xC000017E) \<comment> \<open>NT_STATUS_TOO_MANY_SIDS\<close>,
      (ERRHRD, ERRgeneral, 0xC000017F) \<comment> \<open>NT_STATUS_LM_CROSS_ENCRYPTION_REQUIRED\<close>,
      (ERRHRD, ERRgeneral, 0xC0000180) \<comment> \<open>NT_STATUS_KEY_HAS_CHILDREN\<close>,
      (ERRHRD, ERRgeneral, 0xC0000181) \<comment> \<open>NT_STATUS_CHILD_MUST_BE_VOLATILE\<close>,
      (ERRDOS, 87, 0xC0000182) \<comment> \<open>NT_STATUS_DEVICE_CONFIGURATION_ERROR\<close>,
      (ERRHRD, ERRgeneral, 0xC0000183) \<comment> \<open>NT_STATUS_DRIVER_INTERNAL_ERROR\<close>,
      (ERRDOS, 22, 0xC0000184) \<comment> \<open>NT_STATUS_INVALID_DEVICE_STATE\<close>,
      (ERRHRD, ERRgeneral, 0xC0000185) \<comment> \<open>NT_STATUS_IO_DEVICE_ERROR\<close>,
      (ERRHRD, ERRgeneral, 0xC0000186) \<comment> \<open>NT_STATUS_DEVICE_PROTOCOL_ERROR\<close>,
      (ERRHRD, ERRgeneral, 0xC0000187) \<comment> \<open>NT_STATUS_BACKUP_CONTROLLER\<close>,
      (ERRHRD, ERRgeneral, 0xC0000188) \<comment> \<open>NT_STATUS_LOG_FILE_FULL\<close>,
      (ERRDOS, 19, 0xC0000189) \<comment> \<open>NT_STATUS_TOO_LATE\<close>]"

definition ntstatus_to_dos_map_4 :: "(u8 \<times> u32 \<times> NTSTATUS) list" where
  "ntstatus_to_dos_map_4 =
     [
      (ERRDOS, 5, 0xC000018A) \<comment> \<open>NT_STATUS_NO_TRUST_LSA_SECRET, ERRnoaccess\<close>,
      (ERRDOS, 5, 0xC000018B) \<comment> \<open>NT_STATUS_NO_TRUST_SAM_ACCOUNT, ERRnoaccess\<close>,
      (ERRDOS, 5, 0xC000018C) \<comment> \<open>NT_STATUS_TRUSTED_DOMAIN_FAILURE, ERRnoaccess\<close>,
      (ERRDOS, 5, 0xC000018D) \<comment> \<open>NT_STATUS_TRUSTED_RELATIONSHIP_FAILURE, ERRnoaccess\<close>,
      (ERRHRD, ERRgeneral, 0xC000018E) \<comment> \<open>NT_STATUS_EVENTLOG_FILE_CORRUPT\<close>,
      (ERRHRD, ERRgeneral, 0xC000018F) \<comment> \<open>NT_STATUS_EVENTLOG_CANT_START\<close>,
      (ERRDOS, 5, 0xC0000190) \<comment> \<open>NT_STATUS_TRUST_FAILURE, ERRnoaccess\<close>,
      (ERRHRD, ERRgeneral, 0xC0000191) \<comment> \<open>NT_STATUS_MUTANT_LIMIT_EXCEEDED\<close>,
      (ERRDOS, 2455, 0xC0000192) \<comment> \<open>NT_STATUS_NETLOGON_NOT_STARTED, ERRinvgroup\<close>,
      (ERRSRV, 2239, 0xC0000193) \<comment> \<open>NT_STATUS_ACCOUNT_EXPIRED\<close>,
      (ERRHRD, ERRgeneral, 0xC0000194) \<comment> \<open>NT_STATUS_POSSIBLE_DEADLOCK\<close>,
      (ERRHRD, ERRgeneral, 0xC0000195) \<comment> \<open>NT_STATUS_NETWORK_CREDENTIAL_CONFLICT\<close>,
      (ERRHRD, ERRgeneral, 0xC0000196) \<comment> \<open>NT_STATUS_REMOTE_SESSION_LIMIT\<close>,
      (ERRHRD, ERRgeneral, 0xC0000197) \<comment> \<open>NT_STATUS_EVENTLOG_FILE_CHANGED\<close>,
      (ERRDOS, 5, 0xC0000198) \<comment> \<open>NT_STATUS_NOLOGON_INTERDOMAIN_TRUST_ACCOUNT, ERRnoaccess\<close>,
      (ERRDOS, 5, 0xC0000199) \<comment> \<open>NT_STATUS_NOLOGON_WORKSTATION_TRUST_ACCOUNT, ERRnoaccess\<close>,
      (ERRDOS, 5, 0xC000019A) \<comment> \<open>NT_STATUS_NOLOGON_SERVER_TRUST_ACCOUNT, ERRnoaccess\<close>,
      (ERRDOS, 5, 0xC000019B) \<comment> \<open>NT_STATUS_DOMAIN_TRUST_INCONSISTENT, ERRnoaccess\<close>,
      (ERRHRD, ERRgeneral, 0xC000019C) \<comment> \<open>NT_STATUS_FS_DRIVER_REQUIRED\<close>,
      (ERRHRD, ERRgeneral, 0xC0000202) \<comment> \<open>NT_STATUS_NO_USER_SESSION_KEY\<close>,
      (ERRDOS, 59, 0xC0000203) \<comment> \<open>NT_STATUS_USER_SESSION_DELETED\<close>,
      (ERRHRD, ERRgeneral, 0xC0000204) \<comment> \<open>NT_STATUS_RESOURCE_LANG_NOT_FOUND\<close>,
      (ERRDOS, 8, 0xC0000205) \<comment> \<open>NT_STATUS_INSUFF_SERVER_RESOURCES, ERRnomem\<close>,
      (ERRHRD, ERRgeneral, 0xC0000206) \<comment> \<open>NT_STATUS_INVALID_BUFFER_SIZE\<close>,
      (ERRHRD, ERRgeneral, 0xC0000207) \<comment> \<open>NT_STATUS_INVALID_ADDRESS_COMPONENT\<close>,
      (ERRHRD, ERRgeneral, 0xC0000208) \<comment> \<open>NT_STATUS_INVALID_ADDRESS_WILDCARD\<close>,
      (ERRDOS, 68, 0xC0000209) \<comment> \<open>NT_STATUS_TOO_MANY_ADDRESSES\<close>,
      (ERRDOS, 52, 0xC000020A) \<comment> \<open>NT_STATUS_ADDRESS_ALREADY_EXISTS\<close>,
      (ERRDOS, 64, 0xC000020B) \<comment> \<open>NT_STATUS_ADDRESS_CLOSED\<close>,
      (ERRDOS, 64, 0xC000020C) \<comment> \<open>NT_STATUS_CONNECTION_DISCONNECTED\<close>,
      (ERRDOS, 64, 0xC000020D) \<comment> \<open>NT_STATUS_CONNECTION_RESET\<close>,
      (ERRDOS, 68, 0xC000020E) \<comment> \<open>NT_STATUS_TOO_MANY_NODES\<close>,
      (ERRDOS, 59, 0xC000020F) \<comment> \<open>NT_STATUS_TRANSACTION_ABORTED\<close>,
      (ERRDOS, 59, 0xC0000210) \<comment> \<open>NT_STATUS_TRANSACTION_TIMED_OUT\<close>,
      (ERRDOS, 59, 0xC0000211) \<comment> \<open>NT_STATUS_TRANSACTION_NO_RELEASE\<close>,
      (ERRDOS, 59, 0xC0000212) \<comment> \<open>NT_STATUS_TRANSACTION_NO_MATCH\<close>,
      (ERRDOS, 59, 0xC0000213) \<comment> \<open>NT_STATUS_TRANSACTION_RESPONDED\<close>,
      (ERRDOS, 59, 0xC0000214) \<comment> \<open>NT_STATUS_TRANSACTION_INVALID_ID\<close>,
      (ERRDOS, 59, 0xC0000215) \<comment> \<open>NT_STATUS_TRANSACTION_INVALID_TYPE\<close>,
      (ERRDOS, 50, 0xC0000216) \<comment> \<open>NT_STATUS_NOT_SERVER_SESSION, ERRunsup\<close>,
      (ERRDOS, 50, 0xC0000217) \<comment> \<open>NT_STATUS_NOT_CLIENT_SESSION, ERRunsup\<close>,
      (ERRHRD, ERRgeneral, 0xC0000218) \<comment> \<open>NT_STATUS_CANNOT_LOAD_REGISTRY_FILE\<close>,
      (ERRHRD, ERRgeneral, 0xC0000219) \<comment> \<open>NT_STATUS_DEBUG_ATTACH_FAILED\<close>,
      (ERRHRD, ERRgeneral, 0xC000021A) \<comment> \<open>NT_STATUS_SYSTEM_PROCESS_TERMINATED\<close>,
      (ERRHRD, ERRgeneral, 0xC000021B) \<comment> \<open>NT_STATUS_DATA_NOT_ACCEPTED\<close>,
      (ERRHRD, ERRgeneral, 0xC000021C) \<comment> \<open>NT_STATUS_NO_BROWSER_SERVERS_FOUND\<close>,
      (ERRHRD, ERRgeneral, 0xC000021D) \<comment> \<open>NT_STATUS_VDM_HARD_ERROR\<close>,
      (ERRHRD, ERRgeneral, 0xC000021E) \<comment> \<open>NT_STATUS_DRIVER_CANCEL_TIMEOUT\<close>,
      (ERRHRD, ERRgeneral, 0xC000021F) \<comment> \<open>NT_STATUS_REPLY_MESSAGE_MISMATCH\<close>,
      (ERRHRD, ERRgeneral, 0xC0000220) \<comment> \<open>NT_STATUS_MAPPED_ALIGNMENT\<close>,
      (ERRDOS, 193, 0xC0000221) \<comment> \<open>NT_STATUS_IMAGE_CHECKSUM_MISMATCH\<close>,
      (ERRHRD, ERRgeneral, 0xC0000222) \<comment> \<open>NT_STATUS_LOST_WRITEBEHIND_DATA\<close>,
      (ERRHRD, ERRgeneral, 0xC0000223) \<comment> \<open>NT_STATUS_CLIENT_SERVER_PARAMETERS_INVALID\<close>,
      (ERRSRV, 2242, 0xC0000224) \<comment> \<open>NT_STATUS_PASSWORD_MUST_CHANGE\<close>,
      (ERRHRD, ERRgeneral, 0xC0000225) \<comment> \<open>NT_STATUS_NOT_FOUND\<close>,
      (ERRHRD, ERRgeneral, 0xC0000226) \<comment> \<open>NT_STATUS_NOT_TINY_STREAM\<close>,
      (ERRHRD, ERRgeneral, 0xC0000227) \<comment> \<open>NT_STATUS_RECOVERY_FAILURE\<close>,
      (ERRHRD, ERRgeneral, 0xC0000228) \<comment> \<open>NT_STATUS_STACK_OVERFLOW_READ\<close>,
      (ERRHRD, ERRgeneral, 0xC0000229) \<comment> \<open>NT_STATUS_FAIL_CHECK\<close>,
      (ERRHRD, ERRgeneral, 0xC000022A) \<comment> \<open>NT_STATUS_DUPLICATE_OBJECTID\<close>,
      (ERRHRD, ERRgeneral, 0xC000022B) \<comment> \<open>NT_STATUS_OBJECTID_EXISTS\<close>,
      (ERRHRD, ERRgeneral, 0xC000022C) \<comment> \<open>NT_STATUS_CONVERT_TO_LARGE\<close>,
      (ERRHRD, ERRgeneral, 0xC000022D) \<comment> \<open>NT_STATUS_RETRY\<close>,
      (ERRHRD, ERRgeneral, 0xC000022E) \<comment> \<open>NT_STATUS_FOUND_OUT_OF_SCOPE\<close>,
      (ERRHRD, ERRgeneral, 0xC000022F) \<comment> \<open>NT_STATUS_ALLOCATE_BUCKET\<close>,
      (ERRHRD, ERRgeneral, 0xC0000230) \<comment> \<open>NT_STATUS_PROPSET_NOT_FOUND\<close>,
      (ERRHRD, ERRgeneral, 0xC0000231) \<comment> \<open>NT_STATUS_MARSHALL_OVERFLOW\<close>,
      (ERRHRD, ERRgeneral, 0xC0000232) \<comment> \<open>NT_STATUS_INVALID_VARIANT\<close>,
      (ERRHRD, ERRgeneral, 0xC0000233) \<comment> \<open>NT_STATUS_DOMAIN_CONTROLLER_NOT_FOUND\<close>,
      (ERRDOS, 5, 0xC0000234) \<comment> \<open>NT_STATUS_ACCOUNT_LOCKED_OUT, ERRnoaccess\<close>,
      (ERRDOS, 6, 0xC0000235) \<comment> \<open>NT_STATUS_HANDLE_NOT_CLOSABLE, ERRbadfid\<close>,
      (ERRHRD, ERRgeneral, 0xC0000236) \<comment> \<open>NT_STATUS_CONNECTION_REFUSED\<close>,
      (ERRHRD, ERRgeneral, 0xC0000237) \<comment> \<open>NT_STATUS_GRACEFUL_DISCONNECT\<close>,
      (ERRHRD, ERRgeneral, 0xC0000238) \<comment> \<open>NT_STATUS_ADDRESS_ALREADY_ASSOCIATED\<close>,
      (ERRHRD, ERRgeneral, 0xC0000239) \<comment> \<open>NT_STATUS_ADDRESS_NOT_ASSOCIATED\<close>,
      (ERRHRD, ERRgeneral, 0xC000023A) \<comment> \<open>NT_STATUS_CONNECTION_INVALID\<close>,
      (ERRHRD, ERRgeneral, 0xC000023B) \<comment> \<open>NT_STATUS_CONNECTION_ACTIVE\<close>,
      (ERRHRD, ERRgeneral, 0xC000023C) \<comment> \<open>NT_STATUS_NETWORK_UNREACHABLE\<close>,
      (ERRHRD, ERRgeneral, 0xC000023D) \<comment> \<open>NT_STATUS_HOST_UNREACHABLE\<close>,
      (ERRHRD, ERRgeneral, 0xC000023E) \<comment> \<open>NT_STATUS_PROTOCOL_UNREACHABLE\<close>,
      (ERRHRD, ERRgeneral, 0xC000023F) \<comment> \<open>NT_STATUS_PORT_UNREACHABLE\<close>,
      (ERRHRD, ERRgeneral, 0xC0000240) \<comment> \<open>NT_STATUS_REQUEST_ABORTED\<close>,
      (ERRHRD, ERRgeneral, 0xC0000241) \<comment> \<open>NT_STATUS_CONNECTION_ABORTED\<close>,
      (ERRHRD, ERRgeneral, 0xC0000242) \<comment> \<open>NT_STATUS_BAD_COMPRESSION_BUFFER\<close>,
      (ERRHRD, ERRgeneral, 0xC0000243) \<comment> \<open>NT_STATUS_USER_MAPPED_FILE\<close>,
      (ERRHRD, ERRgeneral, 0xC0000244) \<comment> \<open>NT_STATUS_AUDIT_FAILED\<close>,
      (ERRHRD, ERRgeneral, 0xC0000245) \<comment> \<open>NT_STATUS_TIMER_RESOLUTION_NOT_SET\<close>,
      (ERRHRD, ERRgeneral, 0xC0000246) \<comment> \<open>NT_STATUS_CONNECTION_COUNT_LIMIT\<close>,
      (ERRHRD, ERRgeneral, 0xC0000247) \<comment> \<open>NT_STATUS_LOGIN_TIME_RESTRICTION\<close>,
      (ERRHRD, ERRgeneral, 0xC0000248) \<comment> \<open>NT_STATUS_LOGIN_WKSTA_RESTRICTION\<close>,
      (ERRDOS, 193, 0xC0000249) \<comment> \<open>NT_STATUS_IMAGE_MP_UP_MISMATCH\<close>,
      (ERRHRD, ERRgeneral, 0xC000024A) \<comment> \<open>NT_STATUS(0xc000024a)\<close>,
      (ERRHRD, ERRgeneral, 0xC000024B) \<comment> \<open>NT_STATUS(0xc000024b)\<close>,
      (ERRHRD, ERRgeneral, 0xC000024C) \<comment> \<open>NT_STATUS(0xc000024c)\<close>,
      (ERRHRD, ERRgeneral, 0xC000024D) \<comment> \<open>NT_STATUS(0xc000024d)\<close>,
      (ERRHRD, ERRgeneral, 0xC000024E) \<comment> \<open>NT_STATUS(0xc000024e)\<close>,
      (ERRHRD, ERRgeneral, 0xC000024F) \<comment> \<open>NT_STATUS(0xc000024f)\<close>,
      (ERRHRD, ERRgeneral, 0xC0000250) \<comment> \<open>NT_STATUS_INSUFFICIENT_LOGON_INFO\<close>,
      (ERRHRD, ERRgeneral, 0xC0000251) \<comment> \<open>NT_STATUS_BAD_DLL_ENTRYPOINT\<close>,
      (ERRHRD, ERRgeneral, 0xC0000252) \<comment> \<open>NT_STATUS_BAD_SERVICE_ENTRYPOINT\<close>,
      (ERRHRD, ERRgeneral, 0xC0000253) \<comment> \<open>NT_STATUS_LPC_REPLY_LOST\<close>,
      (ERRHRD, ERRgeneral, 0xC0000254) \<comment> \<open>NT_STATUS_IP_ADDRESS_CONFLICT1\<close>,
      (ERRHRD, ERRgeneral, 0xC0000255) \<comment> \<open>NT_STATUS_IP_ADDRESS_CONFLICT2\<close>,
      (ERRHRD, ERRgeneral, 0xC0000256) \<comment> \<open>NT_STATUS_REGISTRY_QUOTA_LIMIT\<close>,
      (ERRSRV, 3, 0xC0000257) \<comment> \<open>NT_STATUS_PATH_NOT_COVERED, ERRbadtype\<close>,
      (ERRHRD, ERRgeneral, 0xC0000258) \<comment> \<open>NT_STATUS_NO_CALLBACK_ACTIVE\<close>,
      (ERRHRD, ERRgeneral, 0xC0000259) \<comment> \<open>NT_STATUS_LICENSE_QUOTA_EXCEEDED\<close>,
      (ERRHRD, ERRgeneral, 0xC000025A) \<comment> \<open>NT_STATUS_PWD_TOO_SHORT\<close>,
      (ERRHRD, ERRgeneral, 0xC000025B) \<comment> \<open>NT_STATUS_PWD_TOO_RECENT\<close>,
      (ERRHRD, ERRgeneral, 0xC000025C) \<comment> \<open>NT_STATUS_PWD_HISTORY_CONFLICT\<close>,
      (ERRHRD, ERRgeneral, 0xC000025D) \<comment> \<open>NT_STATUS(0xc000025d)\<close>,
      (ERRHRD, ERRgeneral, 0xC000025E) \<comment> \<open>NT_STATUS_PLUGPLAY_NO_DEVICE\<close>,
      (ERRHRD, ERRgeneral, 0xC000025F) \<comment> \<open>NT_STATUS_UNSUPPORTED_COMPRESSION\<close>,
      (ERRHRD, ERRgeneral, 0xC0000260) \<comment> \<open>NT_STATUS_INVALID_HW_PROFILE\<close>,
      (ERRHRD, ERRgeneral, 0xC0000261) \<comment> \<open>NT_STATUS_INVALID_PLUGPLAY_DEVICE_PATH\<close>,
      (ERRDOS, 182, 0xC0000262) \<comment> \<open>NT_STATUS_DRIVER_ORDINAL_NOT_FOUND\<close>,
      (ERRDOS, 127, 0xC0000263) \<comment> \<open>NT_STATUS_DRIVER_ENTRYPOINT_NOT_FOUND\<close>,
      (ERRDOS, 288, 0xC0000264) \<comment> \<open>NT_STATUS_RESOURCE_NOT_OWNED\<close>,
      (ERRHRD, ERRgeneral, 0xC0000265) \<comment> \<open>NT_STATUS_TOO_MANY_LINKS\<close>,
      (ERRHRD, ERRgeneral, 0xC0000266) \<comment> \<open>NT_STATUS_QUOTA_LIST_INCONSISTENT\<close>,
      (ERRHRD, ERRgeneral, 0xC0000267) \<comment> \<open>NT_STATUS_FILE_IS_OFFLINE\<close>,
      (ERRDOS, 21, 0xC000026E) \<comment> \<open>NT_STATUS(0xc000026e)\<close>,
      (ERRDOS, 161, 0xC0000281) \<comment> \<open>NT_STATUS(0xc0000281)\<close>,
      (ERRDOS, 5, 0xC000028A) \<comment> \<open>NT_STATUS(0xc000028a), ERRnoaccess\<close>,
      (ERRDOS, 5, 0xC000028B) \<comment> \<open>NT_STATUS(0xc000028b), ERRnoaccess\<close>,
      (ERRHRD, ERRgeneral, 0xC000028C) \<comment> \<open>NT_STATUS(0xc000028c)\<close>,
      (ERRDOS, 5, 0xC000028D) \<comment> \<open>NT_STATUS(0xc000028d), ERRnoaccess\<close>,
      (ERRDOS, 5, 0xC000028E) \<comment> \<open>NT_STATUS(0xc000028e), ERRnoaccess\<close>,
      (ERRDOS, 5, 0xC000028F) \<comment> \<open>NT_STATUS(0xc000028f), ERRnoaccess\<close>,
      (ERRDOS, 5, 0xC0000290) \<comment> \<open>NT_STATUS(0xc0000290), ERRnoaccess\<close>,
      (ERRDOS, 1, 0xC000029C) \<comment> \<open>NT_STATUS(0xc000029c), ERRbadfunc\<close>]"

definition ntstatus_to_dos_map :: "(u8 \<times> u32 \<times> NTSTATUS) list" where
  "ntstatus_to_dos_map =
     ntstatus_to_dos_map_1 @
     ntstatus_to_dos_map_2 @
     ntstatus_to_dos_map_3 @
     ntstatus_to_dos_map_4"

section \<open>NT status to Win32 error\<close>

definition ntstatus_to_werror_map_1 :: "(NTSTATUS \<times> WERROR) list" where
  "ntstatus_to_werror_map_1 =
     [
      (0xC0000022, 0x5)]"

definition ntstatus_to_werror_map_2 :: "(NTSTATUS \<times> WERROR) list" where
  "ntstatus_to_werror_map_2 =
     [
      (0x00000103, 0x3E5), (0x00000105, 0xEA), (0x00000106, 0x514), (0x00000107, 0x515),
      (0x0000010C, 0x3FE), (0x0000010D, 0x516), (0x00000121, 0x2009), (0xC0000001, 0x1F),
      (0xC0000002, 0x1), (0xC0000003, 0x57), (0xC0000004, 0x18), (0xC0000005, 0x3E6),
      (0xC0000006, 0x3E7), (0xC0000007, 0x5AE), (0xC0000008, 0x6), (0xC0000009, 0x3E9),
      (0xC000000A, 0xC1), (0xC000000B, 0x57), (0xC000000D, 0x57), (0xC000000E, 0x2),
      (0xC000000F, 0x2), (0xC0000010, 0x1), (0xC0000011, 0x26), (0xC0000012, 0x22),
      (0xC0000013, 0x15), (0xC0000014, 0x6F9), (0xC0000015, 0x1B), (0xC0000016, 0xEA),
      (0xC0000017, 0x8), (0xC0000018, 0x1E7), (0xC0000019, 0x1E7), (0xC000001A, 0x57),
      (0xC000001B, 0x57), (0xC000001C, 0x1), (0xC000001D, 0xC000001D), (0xC000001E, 0x5),
      (0xC000001F, 0x5), (0xC0000020, 0xC1), (0xC0000021, 0x5), (0xC0000022, 0x5),
      (0xC0000023, 0x7A), (0xC0000024, 0x6), (0xC0000025, 0xC0000025), (0xC0000026, 0xC0000026),
      (0xC000002A, 0x9E), (0xC000002B, 0xC000002B), (0xC000002C, 0x1E7), (0xC000002D, 0x1E7),
      (0xC0000030, 0x57), (0xC0000032, 0x571), (0xC0000033, 0x7B), (0xC0000034, 0x2),
      (0xC0000035, 0xB7), (0xC0000037, 0x6), (0xC0000039, 0xA1), (0xC000003A, 0x3),
      (0xC000003B, 0xA1), (0xC000003C, 0x45D), (0xC000003D, 0x45D), (0xC000003E, 0x17),
      (0xC000003F, 0x17), (0xC0000040, 0x8), (0xC0000041, 0x5), (0xC0000042, 0x6),
      (0xC0000043, 0x20), (0xC0000044, 0x718), (0xC0000045, 0x57), (0xC0000046, 0x120),
      (0xC0000047, 0x12A), (0xC0000048, 0x57), (0xC0000049, 0x57), (0xC000004A, 0x9C),
      (0xC000004B, 0x5), (0xC000004C, 0x57), (0xC000004D, 0x57), (0xC000004E, 0x57),
      (0xC000004F, 0x11A), (0xC0000050, 0xFF), (0xC0000051, 0x570), (0xC0000052, 0x570),
      (0xC0000053, 0x570), (0xC0000054, 0x21), (0xC0000055, 0x21), (0xC0000056, 0x5),
      (0xC0000057, 0x32), (0xC0000058, 0x519), (0xC0000059, 0x51A), (0xC000005A, 0x51B),
      (0xC000005B, 0x51C), (0xC000005C, 0x51D), (0xC000005D, 0x51E), (0xC000005E, 0x51F),
      (0xC000005F, 0x520), (0xC0000060, 0x521), (0xC0000061, 0x522), (0xC0000062, 0x523),
      (0xC0000063, 0x524), (0xC0000064, 0x525), (0xC0000065, 0x526), (0xC0000066, 0x527),
      (0xC0000067, 0x528), (0xC0000068, 0x529), (0xC0000069, 0x52A), (0xC000006A, 0x56),
      (0xC000006B, 0x52C), (0xC000006C, 0x52D), (0xC000006D, 0x52E), (0xC000006E, 0x52F),
      (0xC000006F, 0x530), (0xC0000070, 0x531), (0xC0000071, 0x532), (0xC0000072, 0x533),
      (0xC0000073, 0x534), (0xC0000074, 0x535), (0xC0000075, 0x536), (0xC0000076, 0x537),
      (0xC0000077, 0x538), (0xC0000078, 0x539), (0xC0000079, 0x53A), (0xC000007A, 0x7F),
      (0xC000007B, 0xC1), (0xC000007C, 0x3F0), (0xC000007D, 0x53C), (0xC000007E, 0x9E),
      (0xC000007F, 0x70), (0xC0000080, 0x53D), (0xC0000081, 0x53E), (0xC0000082, 0x44),
      (0xC0000083, 0x103), (0xC0000084, 0x53F), (0xC0000085, 0x103), (0xC0000086, 0x9A),
      (0xC0000087, 0xE), (0xC0000088, 0x1E7), (0xC0000089, 0x714), (0xC000008A, 0x715),
      (0xC000008B, 0x716), (0xC000008C, 0xC000008C), (0xC000008D, 0xC000008D), (0xC000008E, 0xC000008E)]"

definition ntstatus_to_werror_map_3 :: "(NTSTATUS \<times> WERROR) list" where
  "ntstatus_to_werror_map_3 =
     [
      (0xC000008F, 0xC000008F), (0xC0000090, 0xC0000090), (0xC0000091, 0xC0000091), (0xC0000092, 0xC0000092),
      (0xC0000093, 0xC0000093), (0xC0000094, 0xC0000094), (0xC0000095, 0x216), (0xC0000096, 0xC0000096),
      (0xC0000097, 0x8), (0xC0000098, 0x3EE), (0xC0000099, 0x540), (0xC000009A, 0x5AA),
      (0xC000009B, 0x3), (0xC000009C, 0x17), (0xC000009D, 0x48F), (0xC000009E, 0x15),
      (0xC000009F, 0x1E7), (0xC00000A0, 0x1E7), (0xC00000A1, 0x5AD), (0xC00000A2, 0x13),
      (0xC00000A3, 0x15), (0xC00000A4, 0x541), (0xC00000A5, 0x542), (0xC00000A6, 0x543),
      (0xC00000A7, 0x544), (0xC00000A8, 0x545), (0xC00000A9, 0x57), (0xC00000AB, 0xE7),
      (0xC00000AC, 0xE7), (0xC00000AD, 0xE6), (0xC00000AE, 0xE7), (0xC00000AF, 0x1),
      (0xC00000B0, 0xE9), (0xC00000B1, 0xE8), (0xC00000B2, 0x217), (0xC00000B3, 0x218),
      (0xC00000B4, 0xE6), (0xC00000B5, 0x79), (0xC00000B6, 0x26), (0xC00000BA, 0x5),
      (0xC00000BB, 0x32), (0xC00000BC, 0x33), (0xC00000BD, 0x34), (0xC00000BE, 0x35),
      (0xC00000BF, 0x36), (0xC00000C0, 0x37), (0xC00000C1, 0x38), (0xC00000C2, 0x39),
      (0xC00000C3, 0x3A), (0xC00000C4, 0x3B), (0xC00000C5, 0x3C), (0xC00000C6, 0x3D),
      (0xC00000C7, 0x3E), (0xC00000C8, 0x3F), (0xC00000C9, 0x40), (0xC00000CA, 0x41),
      (0xC00000CB, 0x42), (0xC00000CC, 0x43), (0xC00000CD, 0x44), (0xC00000CE, 0x45),
      (0xC00000CF, 0x46), (0xC00000D0, 0x47), (0xC00000D1, 0x48), (0xC00000D2, 0x58),
      (0xC00000D4, 0x11), (0xC00000D5, 0x5), (0xC00000D6, 0xF0), (0xC00000D7, 0x546),
      (0xC00000D9, 0xE8), (0xC00000DA, 0x547), (0xC00000DC, 0x548), (0xC00000DD, 0x549),
      (0xC00000DE, 0x54A), (0xC00000DF, 0x54B), (0xC00000E0, 0x54C), (0xC00000E1, 0x54D),
      (0xC00000E2, 0x12C), (0xC00000E3, 0x12D), (0xC00000E4, 0x54E), (0xC00000E5, 0x54F),
      (0xC00000E6, 0x550), (0xC00000E7, 0x551), (0xC00000E8, 0x6F8), (0xC00000ED, 0x552),
      (0xC00000EE, 0x553), (0xC00000EF, 0x57), (0xC00000F0, 0x57), (0xC00000F1, 0x57),
      (0xC00000F2, 0x57), (0xC00000F3, 0x57), (0xC00000F4, 0x57), (0xC00000F5, 0x57),
      (0xC00000F6, 0x57), (0xC00000F7, 0x57), (0xC00000F8, 0x57), (0xC00000F9, 0x57),
      (0xC00000FA, 0x57), (0xC00000FB, 0x3), (0xC00000FD, 0x3E9), (0xC00000FE, 0x554),
      (0xC0000100, 0xCB), (0xC0000101, 0x91), (0xC0000102, 0x570), (0xC0000103, 0x10B),
      (0xC0000104, 0x555), (0xC0000105, 0x556), (0xC0000106, 0xCE), (0xC0000107, 0x961),
      (0xC0000108, 0x964), (0xC000010A, 0x5), (0xC000010B, 0x557), (0xC000010D, 0x558),
      (0xC000010E, 0x420), (0xC0000117, 0x5A4), (0xC000011B, 0xC1), (0xC000011C, 0x559),
      (0xC000011D, 0x55A), (0xC000011E, 0x3EE), (0xC000011F, 0x4), (0xC0000120, 0x3E3),
      (0xC0000121, 0x5), (0xC0000122, 0x4BA), (0xC0000123, 0x5), (0xC0000124, 0x55B),
      (0xC0000125, 0x55C), (0xC0000126, 0x55D), (0xC0000127, 0x55E), (0xC0000128, 0x6),
      (0xC000012B, 0x55F), (0xC000012D, 0x5AF), (0xC000012E, 0xC1), (0xC000012F, 0xC1),
      (0xC0000130, 0xC1), (0xC0000131, 0xC1), (0xC0000133, 0x576), (0xC0000135, 0x7E),
      (0xC0000138, 0xB6), (0xC0000139, 0x7F), (0xC000013B, 0x40), (0xC000013C, 0x40)]"

definition ntstatus_to_werror_map_4 :: "(NTSTATUS \<times> WERROR) list" where
  "ntstatus_to_werror_map_4 =
     [
      (0xC000013D, 0x33), (0xC000013E, 0x3B), (0xC000013F, 0x3B), (0xC0000140, 0x3B),
      (0xC0000141, 0x3B), (0xC0000142, 0x45A), (0xC0000148, 0x7C), (0xC0000149, 0x56),
      (0xC000014B, 0x6D), (0xC000014C, 0x3F1), (0xC000014D, 0x3F8), (0xC000014F, 0x3ED),
      (0xC0000150, 0x45E), (0xC0000151, 0x560), (0xC0000152, 0x561), (0xC0000153, 0x562),
      (0xC0000154, 0x563), (0xC0000155, 0x564), (0xC0000156, 0x565), (0xC0000157, 0x566),
      (0xC0000158, 0x567), (0xC0000159, 0x3EF), (0xC000015A, 0x568), (0xC000015B, 0x569),
      (0xC000015C, 0x3F9), (0xC000015D, 0x56A), (0xC000015F, 0x45D), (0xC0000162, 0x459),
      (0xC0000165, 0x462), (0xC0000166, 0x463), (0xC0000167, 0x464), (0xC0000168, 0x465),
      (0xC0000169, 0x466), (0xC000016A, 0x467), (0xC000016B, 0x468), (0xC000016C, 0x45F),
      (0xC000016D, 0x45D), (0xC0000172, 0x451), (0xC0000173, 0x452), (0xC0000174, 0x453),
      (0xC0000175, 0x454), (0xC0000176, 0x455), (0xC0000177, 0x469), (0xC0000178, 0x458),
      (0xC000017A, 0x56B), (0xC000017B, 0x56C), (0xC000017C, 0x3FA), (0xC000017D, 0x3FB),
      (0xC000017E, 0x56D), (0xC000017F, 0x56E), (0xC0000180, 0x3FC), (0xC0000181, 0x3FD),
      (0xC0000182, 0x57), (0xC0000183, 0x45D), (0xC0000184, 0x16), (0xC0000185, 0x45D),
      (0xC0000186, 0x45D), (0xC0000188, 0x5DE), (0xC0000189, 0x13), (0xC000018A, 0x6FA),
      (0xC000018B, 0x6FB), (0xC000018C, 0x6FC), (0xC000018D, 0x6FD), (0xC000018E, 0x5DC),
      (0xC000018F, 0x5DD), (0xC0000190, 0x6FE), (0xC0000192, 0x700), (0xC0000193, 0x701),
      (0xC0000194, 0x46B), (0xC0000195, 0x4C3), (0xC0000196, 0x4C4), (0xC0000197, 0x5DF),
      (0xC0000198, 0x70F), (0xC0000199, 0x710), (0xC000019A, 0x711), (0xC000019B, 0x712),
      (0xC0000202, 0x572), (0xC0000203, 0x3B), (0xC0000204, 0x717), (0xC0000205, 0x46A),
      (0xC0000206, 0x6F8), (0xC0000207, 0x4BE), (0xC0000208, 0x4BE), (0xC0000209, 0x44),
      (0xC000020A, 0x34), (0xC000020B, 0x40), (0xC000020C, 0x40), (0xC000020D, 0x40),
      (0xC000020E, 0x44), (0xC000020F, 0x3B), (0xC0000210, 0x3B), (0xC0000211, 0x3B),
      (0xC0000212, 0x3B), (0xC0000213, 0x3B), (0xC0000214, 0x3B), (0xC0000215, 0x3B),
      (0xC0000216, 0x32), (0xC0000217, 0x32), (0xC000021C, 0x17E6), (0xC0000220, 0x46C),
      (0xC0000221, 0xC1), (0xC0000224, 0x773), (0xC0000225, 0x490), (0xC000022A, 0xC000022A),
      (0xC000022B, 0xC000022B), (0xC000022D, 0x4D5), (0xC0000230, 0x492), (0xC0000233, 0x774),
      (0xC0000234, 0x775), (0xC0000235, 0x6), (0xC0000236, 0x4C9), (0xC0000237, 0x4CA),
      (0xC0000238, 0x4CB), (0xC0000239, 0x4CC), (0xC000023A, 0x4CD), (0xC000023B, 0x4CE),
      (0xC000023C, 0x4CF), (0xC000023D, 0x4D0), (0xC000023E, 0x4D1), (0xC000023F, 0x4D2),
      (0xC0000240, 0x4D3), (0xC0000241, 0x4D4), (0xC0000243, 0x4C8), (0xC0000246, 0x4D6),
      (0xC0000247, 0x4D7), (0xC0000248, 0x4D8), (0xC0000249, 0xC1), (0xC0000253, 0x54F),
      (0xC0000257, 0x4D0), (0xC0000259, 0x573), (0xC000025E, 0x422), (0xC0000262, 0xB6),
      (0xC0000263, 0x7F), (0xC0000264, 0x120), (0xC0000265, 0x476), (0xC0000267, 0x10FE),
      (0xC000026C, 0x7D1), (0xC000026D, 0x4B1), (0xC000026E, 0x15), (0xC0000272, 0x491)]"

definition ntstatus_to_werror_map_5 :: "(NTSTATUS \<times> WERROR) list" where
  "ntstatus_to_werror_map_5 =
     [
      (0xC0000275, 0x1126), (0xC0000276, 0x1129), (0xC0000277, 0x112A), (0xC0000278, 0x1128),
      (0xC0000279, 0x780), (0xC0000280, 0x781), (0xC0000281, 0xA1), (0xC0000283, 0x488),
      (0xC0000284, 0x489), (0xC0000285, 0x48A), (0xC0000286, 0x48B), (0xC0000287, 0x48C),
      (0xC000028A, 0x5), (0xC000028B, 0x5), (0xC000028D, 0x5), (0xC000028E, 0x5),
      (0xC000028F, 0x5), (0xC0000290, 0x5), (0xC0000291, 0x1777), (0xC0000292, 0x1778),
      (0xC0000293, 0x1772), (0xC0000295, 0x1068), (0xC0000296, 0x1069), (0xC0000297, 0x106A),
      (0xC0000298, 0x106B), (0xC0000299, 0x201A), (0xC000029A, 0x201B), (0xC000029B, 0x201C),
      (0xC000029C, 0x1), (0xC000029D, 0x10FF), (0xC000029E, 0x1100), (0xC000029F, 0x494),
      (0xC00002A1, 0x200A), (0xC00002A2, 0x200B), (0xC00002A3, 0x200C), (0xC00002A4, 0x200D),
      (0xC00002A5, 0x200E), (0xC00002A6, 0x200F), (0xC00002A7, 0x2010), (0xC00002A8, 0x2011),
      (0xC00002A9, 0x2012), (0xC00002AA, 0x2013), (0xC00002AB, 0x2014), (0xC00002AC, 0x2015),
      (0xC00002AD, 0x2016), (0xC00002AE, 0x2017), (0xC00002AF, 0x2018), (0xC00002B0, 0x2019),
      (0xC00002B1, 0x211E), (0xC00002B2, 0x1127), (0xC00002B6, 0x651), (0xC00002B7, 0x49A),
      (0xC00002B8, 0x49B), (0xC00002C1, 0x2024), (0xC00002C3, 0x575), (0xC00002C5, 0x3E6),
      (0xC00002C6, 0x1075), (0xC00002C7, 0x1076), (0xC00002CA, 0x10E8), (0xC00002CB, 0x2138),
      (0xC00002CC, 0x4E3), (0xC00002CD, 0x2139), (0xC00002CF, 0x49D), (0xC00002D0, 0x213A),
      (0xC00002D4, 0x2141), (0xC00002D5, 0x2142), (0xC00002D6, 0x2143), (0xC00002D7, 0x2144),
      (0xC00002D8, 0x2145), (0xC00002D9, 0x2146), (0xC00002DA, 0x2147), (0xC00002DB, 0x2148),
      (0xC00002DC, 0x2149), (0xC00002DD, 0x32), (0xC00002DF, 0x2151), (0xC00002E0, 0x2152),
      (0xC00002E1, 0x2153), (0xC00002E2, 0x2154), (0xC00002E3, 0x215D), (0xC00002E4, 0x2163),
      (0xC00002E5, 0x2164), (0xC00002E6, 0x2165), (0xC00002E7, 0x216D), (0xC00002FE, 0x45B),
      (0xC00002FF, 0x4E7), (0xC0000300, 0x4E6)]"

definition ntstatus_to_werror_map_6 :: "(NTSTATUS \<times> WERROR) list" where
  "ntstatus_to_werror_map_6 =
     [
      (0x80000001, 0x80000001), (0x80000002, 0x3E6), (0x80000003, 0x80000003), (0x80000004, 0x80000004),
      (0x80000005, 0xEA), (0x80000006, 0x12), (0x8000000B, 0x56F), (0x8000000D, 0x12B),
      (0x8000000E, 0x1C), (0x8000000F, 0x15), (0x80000010, 0x15), (0x80000011, 0xAA),
      (0x80000012, 0x103), (0x80000013, 0xFE), (0x80000014, 0xFF), (0x80000015, 0xFF),
      (0x80000016, 0x456), (0x8000001A, 0x103), (0x8000001B, 0x44D), (0x8000001C, 0x456),
      (0x8000001D, 0x457), (0x8000001E, 0x44C), (0x8000001F, 0x44E), (0x80000021, 0x44F),
      (0x80000022, 0x450), (0x80000025, 0x962), (0x80000288, 0x48D), (0x80000289, 0x48E),
      (0xC002001B, 0x6BE)]"

definition ntstatus_to_werror_map_7 :: "(NTSTATUS \<times> WERROR) list" where
  "ntstatus_to_werror_map_7 =
     [
      (0x00000000, 0x0)]"

definition ntstatus_to_werror_map :: "(NTSTATUS \<times> WERROR) list" where
  "ntstatus_to_werror_map =
     ntstatus_to_werror_map_1 @
     ntstatus_to_werror_map_2 @
     ntstatus_to_werror_map_3 @
     ntstatus_to_werror_map_4 @
     ntstatus_to_werror_map_5 @
     ntstatus_to_werror_map_6 @
     ntstatus_to_werror_map_7"

end
