(* ===== verification/NtError.thy ===== *)
theory NtError
  imports NtErrorTables
begin

text \<open>
  NT status and Win32 error codes: the macros of \<open>libcli/util/nt_status.h\<close> and the
  conversions of \<open>libcli/util/errormap.c\<close>. The service control calls of the client return
  an NT status made from the Win32 result by \<open>werror_to_ntstatus\<close>, so the client's error
  handling rests on these conversions.

  A loop over \<open>ntstatus_to_dos_map\<close> may run past the end of the array; that read is
  the value None.
\<close>

section \<open>Status macros\<close>

abbreviation (input) NT_STATUS_OK :: NTSTATUS where "NT_STATUS_OK \<equiv> 0"
abbreviation (input) WERR_OK :: WERROR where "WERR_OK \<equiv> 0"
abbreviation NT_STATUS_UNSUCCESSFUL :: NTSTATUS where "NT_STATUS_UNSUCCESSFUL \<equiv> 0xC0000001"
abbreviation NT_STATUS_INVALID_PARAMETER :: NTSTATUS where "NT_STATUS_INVALID_PARAMETER \<equiv> 0xC000000D"
abbreviation NT_STATUS_NO_MEMORY :: NTSTATUS where "NT_STATUS_NO_MEMORY \<equiv> 0xC0000017"
abbreviation NT_STATUS_ACCESS_DENIED :: NTSTATUS where "NT_STATUS_ACCESS_DENIED \<equiv> 0xC0000022"
abbreviation NT_STATUS_OBJECT_NAME_NOT_FOUND :: NTSTATUS where
  "NT_STATUS_OBJECT_NAME_NOT_FOUND \<equiv> 0xC0000034"
abbreviation NT_STATUS_PRIVILEGE_NOT_HELD :: NTSTATUS where
  "NT_STATUS_PRIVILEGE_NOT_HELD \<equiv> 0xC0000061"

definition NT_STATUS_IS_OK :: "NTSTATUS \<Rightarrow> bool" where
  "NT_STATUS_IS_OK x = (x = 0)"

definition NT_STATUS_IS_ERR :: "NTSTATUS \<Rightarrow> bool" where
  "NT_STATUS_IS_ERR x = (x AND 0xC0000000 = 0xC0000000)"

definition NT_STATUS_DOS :: "u32 \<Rightarrow> u32 \<Rightarrow> NTSTATUS" where
  "NT_STATUS_DOS cls code = 0xF1000000 OR push_bit 16 cls OR code"

definition NT_STATUS_IS_DOS :: "NTSTATUS \<Rightarrow> bool" where
  "NT_STATUS_IS_DOS st = (st AND 0xFF000000 = 0xF1000000)"

definition NT_STATUS_DOS_CLASS :: "NTSTATUS \<Rightarrow> u32" where
  "NT_STATUS_DOS_CLASS st = drop_bit 16 st AND 0xFF"

definition NT_STATUS_DOS_CODE :: "NTSTATUS \<Rightarrow> u32" where
  "NT_STATUS_DOS_CODE st = st AND 0xFFFF"

section \<open>Conversions\<close>

text \<open>
  The loop of \<open>ntstatus_to_dos\<close>: it stops at an entry whose status is zero. The list is
  what is left of the array from index \<open>i\<close>.
\<close>

fun ntstatus_to_dos_loop :: "(u8 \<times> u32 \<times> NTSTATUS) list \<Rightarrow> NTSTATUS \<Rightarrow> (u8 \<times> u32) option" where
  "ntstatus_to_dos_loop [] ntstatus = None"
| "ntstatus_to_dos_loop ((dos_class, dos_code, s) # rest) ntstatus =
     (if s = 0 then Some (ERRHRD, ERRgeneral)
      else if ntstatus = s then Some (dos_class, dos_code)
      else ntstatus_to_dos_loop rest ntstatus)"

definition ntstatus_to_dos :: "NTSTATUS \<Rightarrow> (u8 \<times> u32) option" where
  "ntstatus_to_dos ntstatus =
     (if NT_STATUS_IS_OK ntstatus then Some (0, 0)
      else if NT_STATUS_IS_DOS ntstatus then
        Some (ucast (NT_STATUS_DOS_CLASS ntstatus), NT_STATUS_DOS_CODE ntstatus)
      else ntstatus_to_dos_loop ntstatus_to_dos_map ntstatus)"

text \<open>\<open>lp_nt_status_support()\<close> is a setting of the configuration file.\<close>

definition ntstatus_dos_equal :: "bool \<Rightarrow> NTSTATUS \<Rightarrow> NTSTATUS \<Rightarrow> bool option" where
  "ntstatus_dos_equal lp_nt_status_support status1 status2 =
     (if lp_nt_status_support then Some (status1 = status2)
      else if \<not> NT_STATUS_IS_DOS status1 \<and> NT_STATUS_IS_DOS status2 then
        (case ntstatus_to_dos status1 of
           None \<Rightarrow> None
         | Some (eclass, ecode) \<Rightarrow>
             Some (ucast eclass = NT_STATUS_DOS_CLASS status2 \<and> ecode = NT_STATUS_DOS_CODE status2))
      else if NT_STATUS_IS_DOS status1 \<and> \<not> NT_STATUS_IS_DOS status2 then
        (case ntstatus_to_dos status2 of
           None \<Rightarrow> None
         | Some (eclass, ecode) \<Rightarrow>
             Some (ucast eclass = NT_STATUS_DOS_CLASS status1 \<and> ecode = NT_STATUS_DOS_CODE status1))
      else Some (status1 = status2))"

definition NT_STATUS_EQUAL :: "bool \<Rightarrow> NTSTATUS \<Rightarrow> NTSTATUS \<Rightarrow> bool option" where
  "NT_STATUS_EQUAL lp x y =
     (if NT_STATUS_IS_DOS x \<or> NT_STATUS_IS_DOS y then ntstatus_dos_equal lp x y
      else Some (x = y))"

fun werror_to_ntstatus_loop :: "(NTSTATUS \<times> WERROR) list \<Rightarrow> WERROR \<Rightarrow> NTSTATUS" where
  "werror_to_ntstatus_loop [] err = err OR 0xC0000000"
| "werror_to_ntstatus_loop ((s, w) # rest) err =
     (if s = 0 then err OR 0xC0000000
      else if err = w then s
      else werror_to_ntstatus_loop rest err)"

definition werror_to_ntstatus :: "WERROR \<Rightarrow> NTSTATUS" where
  "werror_to_ntstatus err =
     (if err = WERR_OK then NT_STATUS_OK else werror_to_ntstatus_loop ntstatus_to_werror_map err)"

fun ntstatus_to_werror_loop :: "(NTSTATUS \<times> WERROR) list \<Rightarrow> NTSTATUS \<Rightarrow> WERROR" where
  "ntstatus_to_werror_loop [] err = err AND 0xFFFF"
| "ntstatus_to_werror_loop ((s, w) # rest) err =
     (if s = 0 then err AND 0xFFFF
      else if err = s then w
      else ntstatus_to_werror_loop rest err)"

definition ntstatus_to_werror :: "NTSTATUS \<Rightarrow> WERROR" where
  "ntstatus_to_werror err =
     (if NT_STATUS_IS_OK err then WERR_OK else ntstatus_to_werror_loop ntstatus_to_werror_map err)"

end
