(* ===== verification/NtErrorProps.thy ===== *)
theory NtErrorProps
  imports NtError
begin

text \<open>
  Facts about the error tables (which entries are zero, which statuses repeat), checked by
  evaluation in one pass over each table, and the properties of the conversions that rest
  on them.
\<close>

section \<open>The tables\<close>

lemmas dos_map_defs =
  ntstatus_to_dos_map_1_def ntstatus_to_dos_map_2_def ntstatus_to_dos_map_3_def
  ntstatus_to_dos_map_4_def

text \<open>No status of \<open>ntstatus_to_dos_map\<close> is zero: the array has no terminator.\<close>

lemma dos_map_nonzero: "list_all (\<lambda>(c, d, s). s \<noteq> 0) ntstatus_to_dos_map"
  by (simp add: ntstatus_to_dos_map_def dos_map_defs)

text \<open>The entries of \<open>ntstatus_to_werror_map\<close> before its terminator.\<close>

definition werror_entries :: "(NTSTATUS \<times> WERROR) list" where
  "werror_entries =
     ntstatus_to_werror_map_2 @ ntstatus_to_werror_map_3 @ ntstatus_to_werror_map_4 @
     ntstatus_to_werror_map_5 @ ntstatus_to_werror_map_6"

lemmas werror_low_defs =
  ntstatus_to_werror_map_2_def ntstatus_to_werror_map_3_def ntstatus_to_werror_map_4_def
  ntstatus_to_werror_map_5_def

lemma werror_map_shape:
  "ntstatus_to_werror_map = (NT_STATUS_ACCESS_DENIED, 5) # werror_entries @ [(0, 0)]"
  by (simp add: ntstatus_to_werror_map_def werror_entries_def
      ntstatus_to_werror_map_1_def ntstatus_to_werror_map_7_def)

lemma werror_low_increasing:
  "increasing (map fst (ntstatus_to_werror_map_2 @ ntstatus_to_werror_map_3 @
     ntstatus_to_werror_map_4 @ ntstatus_to_werror_map_5))"
  by (simp add: werror_low_defs)

lemma werror_high_increasing: "increasing (map fst ntstatus_to_werror_map_6)"
  by (simp add: ntstatus_to_werror_map_6_def)

lemma werror_nonzero: "list_all (\<lambda>(s, w). s \<noteq> 0 \<and> w \<noteq> 0) werror_entries"
  by (simp add: werror_entries_def werror_low_defs ntstatus_to_werror_map_6_def)

text \<open>
  The two increasing runs of the table do not meet: the first holds success codes below
  \<open>0x10000\<close> and errors of facility 0, the second everything else.
\<close>

lemma werror_low_range:
  "list_all (\<lambda>(s, w). s < 0x10000 \<or> (0xC0000000 \<le> s \<and> s < 0xC0010000))
     (ntstatus_to_werror_map_2 @ ntstatus_to_werror_map_3 @ ntstatus_to_werror_map_4 @
      ntstatus_to_werror_map_5)"
  by (simp add: werror_low_defs)

lemma werror_high_range:
  "list_all (\<lambda>(s, w). \<not> (s < 0x10000 \<or> (0xC0000000 \<le> s \<and> s < 0xC0010000)))
     ntstatus_to_werror_map_6"
  by (simp add: ntstatus_to_werror_map_6_def)

lemma werror_entries_distinct: "distinct (map fst werror_entries)"
proof -
  let ?lo = "ntstatus_to_werror_map_2 @ ntstatus_to_werror_map_3 @
     ntstatus_to_werror_map_4 @ ntstatus_to_werror_map_5"
  let ?hi = ntstatus_to_werror_map_6
  have "distinct (map fst ?lo)" "distinct (map fst ?hi)"
    using werror_low_increasing werror_high_increasing by (blast intro: increasing_distinct)+
  moreover have "set (map fst ?lo) \<inter> set (map fst ?hi) = {}"
  proof (rule ccontr)
    assume "set (map fst ?lo) \<inter> set (map fst ?hi) \<noteq> {}"
    then obtain s w w' where "(s, w) \<in> set ?lo" "(s, w') \<in> set ?hi" by fastforce
    then show False
      using werror_low_range werror_high_range by (fastforce simp only: list_all_iff)
  qed
  ultimately have "distinct (map fst ?lo @ map fst ?hi)" by (simp only: distinct_append)
  then show ?thesis by (simp only: werror_entries_def map_append append_assoc)
qed

lemma access_denied_entry: "(NT_STATUS_ACCESS_DENIED, 5) \<in> set werror_entries"
  by (simp add: werror_entries_def ntstatus_to_werror_map_2_def)

text \<open>Both loops are lookups in the entries before the terminator.\<close>

lemma ntstatus_to_werror_loop_lookup:
  assumes "list_all (\<lambda>(s, w). s \<noteq> 0 \<and> w \<noteq> 0) es"
  shows "ntstatus_to_werror_loop (es @ [(0, 0)]) err
    = (case map_of es err of None \<Rightarrow> err AND 0xFFFF | Some w \<Rightarrow> w)"
  using assms by (induction es) auto

lemma werror_to_ntstatus_loop_cases:
  assumes "list_all (\<lambda>(s, w). s \<noteq> 0 \<and> w \<noteq> 0) es"
  shows "(werror_to_ntstatus_loop (es @ [(0, 0)]) err, err) \<in> set es
    \<or> err \<notin> snd ` set es \<and> werror_to_ntstatus_loop (es @ [(0, 0)]) err = err OR 0xC0000000"
  using assms by (induction es) (auto split: if_splits)

lemma map_of_werror_entries:
  "(s, w) \<in> set werror_entries \<Longrightarrow>
   map_of ((NT_STATUS_ACCESS_DENIED, 5) # werror_entries) s = Some w"
  using werror_entries_distinct access_denied_entry
  by (auto simp: eq_key_imp_eq_value)

lemma werror_full_nonzero:
  "list_all (\<lambda>(s, w). s \<noteq> 0 \<and> w \<noteq> 0) ((NT_STATUS_ACCESS_DENIED, 5) # werror_entries)"
  using werror_nonzero by simp

lemma ntstatus_to_werror_lookup:
  "s \<noteq> 0 \<Longrightarrow> ntstatus_to_werror s =
     (case map_of ((NT_STATUS_ACCESS_DENIED, 5) # werror_entries) s of
        None \<Rightarrow> s AND 0xFFFF | Some w \<Rightarrow> w)"
  using ntstatus_to_werror_loop_lookup [OF werror_full_nonzero, of s]
  by (simp add: ntstatus_to_werror_def NT_STATUS_IS_OK_def werror_map_shape)

lemma werror_to_ntstatus_cases:
  assumes "w \<noteq> 0"
  shows "(werror_to_ntstatus w, w) \<in> set werror_entries
    \<or> w \<notin> snd ` set werror_entries \<and> werror_to_ntstatus w = w OR 0xC0000000"
proof -
  have "(werror_to_ntstatus w, w) \<in> set ((NT_STATUS_ACCESS_DENIED, 5) # werror_entries)
    \<or> w \<notin> snd ` set ((NT_STATUS_ACCESS_DENIED, 5) # werror_entries)
      \<and> werror_to_ntstatus w = w OR 0xC0000000"
    using werror_to_ntstatus_loop_cases [OF werror_full_nonzero, of w] assms
    by (simp add: werror_to_ntstatus_def werror_map_shape)
  then show ?thesis using access_denied_entry by auto
qed

lemma or_error_bits_nonzero: "(w :: u32) OR 0xC0000000 \<noteq> 0"
proof
  assume "w OR 0xC0000000 = 0"
  then have "(w OR 0xC0000000) AND 0xC0000000 = (0 :: u32)" by simp
  then show False by (simp add: bit.conj_disj_distrib2)
qed

lemma ntstatus_to_dos_loop_None:
  "list_all (\<lambda>(c, d, s). s \<noteq> 0) es \<Longrightarrow>
   ntstatus_to_dos_loop es st = None \<longleftrightarrow> st \<notin> (snd \<circ> snd) ` set es"
  by (induction es) (auto split: if_splits)

section \<open>Properties\<close>

text \<open>
  Converting a Win32 error of the table to an NT status and back gives the error:
  \<open>ntstatus_to_werror (werror_to_ntstatus w) = w\<close> for every \<open>w\<close> of the table, although
  many NT statuses share one Win32 error.
\<close>

theorem werror_roundtrip:
  assumes "(s, w) \<in> set ntstatus_to_werror_map"
  shows "ntstatus_to_werror (werror_to_ntstatus w) = w"
proof (cases "w = 0")
  case True
  then show ?thesis
    by (simp add: werror_to_ntstatus_def ntstatus_to_werror_def NT_STATUS_IS_OK_def)
next
  case False
  with assms have "w \<in> snd ` set werror_entries"
    using access_denied_entry by (force simp: werror_map_shape)
  with werror_to_ntstatus_cases [OF False]
  have entry: "(werror_to_ntstatus w, w) \<in> set werror_entries" by blast
  then have "werror_to_ntstatus w \<noteq> 0"
    using werror_nonzero by (auto simp: list_all_iff)
  from ntstatus_to_werror_lookup [OF this] map_of_werror_entries [OF entry]
  show ?thesis by (simp only: option.case)
qed

theorem werror_roundtrip_witness:
  "ntstatus_to_werror (werror_to_ntstatus 5) = 5"
proof -
  have "(NT_STATUS_ACCESS_DENIED, 5) \<in> set ntstatus_to_werror_map"
    by (simp add: werror_map_shape)
  then show ?thesis by (rule werror_roundtrip)
qed

text \<open>
  \<open>werror_to_ntstatus\<close> reports success exactly for the Win32 success code: no failed
  call of the service control manager is taken for a success, and none the other way round.
\<close>

theorem werror_to_ntstatus_ok_iff:
  "NT_STATUS_IS_OK (werror_to_ntstatus w) \<longleftrightarrow> w = WERR_OK"
proof (cases "w = 0")
  case True
  then show ?thesis by (simp add: werror_to_ntstatus_def NT_STATUS_IS_OK_def)
next
  case False
  from werror_to_ntstatus_cases [OF False] have "werror_to_ntstatus w \<noteq> 0"
    using werror_nonzero or_error_bits_nonzero by (auto simp: list_all_iff)
  with False show ?thesis by (simp add: NT_STATUS_IS_OK_def)
qed

text \<open>
  \<open>ntstatus_to_dos\<close> reads past the end of \<open>ntstatus_to_dos_map\<close> for exactly the
  statuses that are neither success, nor an encoded DOS error, nor listed in the map: the
  loop looks for an entry with status zero, and the map has none.
\<close>

theorem ntstatus_to_dos_out_of_bounds:
  "ntstatus_to_dos st = None \<longleftrightarrow>
     st \<noteq> 0 \<and> \<not> NT_STATUS_IS_DOS st \<and> st \<notin> (\<lambda>(c, d, s). s) ` set ntstatus_to_dos_map"
  using ntstatus_to_dos_loop_None [OF dos_map_nonzero, of st]
  by (auto simp: ntstatus_to_dos_def NT_STATUS_IS_OK_def image_iff split: prod.splits)

end
