(* ===== verification/SvcControl.thy ===== *)
theory SvcControl
  imports NtError
begin

text \<open>
  Installing and removing the service on the remote host: \<open>winexe/service.c\<close>.

  Every call that leaves the program (the generated \<open>dcerpc_svcctl_*\<close> stubs, the SMB
  file calls, \<open>msleep\<close>) is a value of \<open>svc_call\<close> with the arguments the code fills
  in. The environment \<open>env\<close> answers it and may change the remote host; the world keeps
  the calls with their answers in order, so that what the client does is a property of that
  trace. A polling loop has fuel: \<open>Hang\<close> is a service that was still pending when it ran
  out. Failing allocations of the request blocks are not modelled.
\<close>

section \<open>Calls and answers\<close>

abbreviation (input) "SVC_INTERACTIVE \<equiv> (1 :: u32)"
abbreviation (input) "SVC_IGNORE_INTERACTIVE \<equiv> (2 :: u32)"
abbreviation (input) "SVC_INTERACTIVE_MASK \<equiv> (3 :: u32)"
abbreviation (input) "SVC_FORCE_UPLOAD \<equiv> (4 :: u32)"
abbreviation (input) "SVC_OS64BIT \<equiv> (8 :: u32)"
abbreviation (input) "SVC_OSCHOOSE \<equiv> (16 :: u32)"

abbreviation (input) "SEC_FLAG_MAXIMUM_ALLOWED \<equiv> (0x02000000 :: u32)"
abbreviation (input) "SERVICE_ALL_ACCESS \<equiv> (0xF01FF :: u32)"
abbreviation (input) "SERVICE_WIN32_OWN_PROCESS \<equiv> (0x00000010 :: u32)"
abbreviation (input) "SERVICE_INTERACTIVE_PROCESS \<equiv> (0x00000100 :: u32)"
abbreviation (input) "SERVICE_DEMAND_START \<equiv> (0x00000003 :: u32)"
abbreviation (input) "SERVICE_ERROR_NORMAL \<equiv> (0x00000001 :: u32)"
abbreviation (input) "SERVICE_NO_CHANGE \<equiv> (0xFFFFFFFF :: u32)"
abbreviation (input) "SERVICE_CONTROL_STOP \<equiv> (0x00000001 :: u32)"
abbreviation (input) "NT_STATUS_SERVICE_DOES_NOT_EXIST \<equiv> (0xC0000424 :: NTSTATUS)"

abbreviation (input) "SERVICE_STOPPED \<equiv> (1 :: u32)"
abbreviation (input) "SERVICE_START_PENDING \<equiv> (2 :: u32)"
abbreviation (input) "SERVICE_STOP_PENDING \<equiv> (3 :: u32)"
abbreviation (input) "SERVICE_RUNNING \<equiv> (4 :: u32)"

type_synonym policy_handle = nat

record SERVICE_STATUS =
  ss_type :: u32
  ss_state :: u32
  ss_controls_accepted :: u32
  ss_win32_exit_code :: u32
  ss_service_exit_code :: u32
  ss_check_point :: u32
  ss_wait_hint :: u32

text \<open>
  The input of \<open>CreateServiceW\<close> and \<open>ChangeServiceConfigW\<close>; the pointers the code sets to
  NULL are None.
\<close>

record service_config =
  cf_service_name :: "string option"
  cf_display_name :: "string option"
  cf_desired_access :: u32
  cf_type :: u32
  cf_start_type :: u32
  cf_error_control :: u32
  cf_binary_path :: "string option"
  cf_load_order_group :: "string option"
  cf_dependencies :: "string option"
  cf_dependencies_size :: u32
  cf_service_start_name :: "string option"
  cf_password :: "string option"
  cf_password_size :: u32

datatype service_exe = Winexesvc32 | Winexesvc64

datatype svc_call =
    Pipe_connect string
  | Pipe_free
  | OpenSCManagerW string "string option" u32
  | OpenServiceW policy_handle string u32
  | CreateServiceW policy_handle service_config
  | ChangeServiceConfigW policy_handle service_config
  | StartServiceW policy_handle u32
  | ControlService policy_handle u32
  | QueryServiceStatus policy_handle
  | DeleteService policy_handle
  | CloseServiceHandle policy_handle
  | Full_connection string string
  | Smb_unlink string
  | Smb_open string
  | Smb_close int
  | Smb_chkpath string
  | Savefile string service_exe
  | Tdis
  | Msleep nat

record answer =
  an_status :: NTSTATUS
  an_result :: WERROR
  an_handle :: policy_handle
  an_service :: SERVICE_STATUS
  an_fd :: int

record 'h svc_world =
  remote :: 'h
  trace :: "(svc_call \<times> answer) list"

type_synonym 'h svc_env = "svc_call \<Rightarrow> 'h \<Rightarrow> answer \<times> 'h"

definition invoke :: "'h svc_env \<Rightarrow> svc_call \<Rightarrow> 'h svc_world \<Rightarrow> answer \<times> 'h svc_world" where
  "invoke env c w =
     (let (a, h) = env c (remote w) in (a, \<lparr>remote = h, trace = trace w @ [(c, a)]\<rparr>))"

definition NT_RES :: "NTSTATUS \<Rightarrow> WERROR \<Rightarrow> NTSTATUS" where
  "NT_RES status werr = (if NT_STATUS_IS_OK status then werror_to_ntstatus werr else status)"

text \<open>The status of a remote call: transport status first, then the result of the service manager.\<close>

definition invoke_rpc :: "'h svc_env \<Rightarrow> svc_call \<Rightarrow> 'h svc_world \<Rightarrow> NTSTATUS \<times> answer \<times> 'h svc_world" where
  "invoke_rpc env c w =
     (let (a, w1) = invoke env c w in (NT_RES (an_status a) (an_result a), a, w1))"

section \<open>One call each\<close>

definition svc_pipe_connect :: "'h svc_env \<Rightarrow> bool \<Rightarrow> string \<Rightarrow> 'h svc_world \<Rightarrow> NTSTATUS \<times> 'h svc_world" where
  "svc_pipe_connect env debuglvl9 hostname w =
     (let (a, w1) = invoke env
            (Pipe_connect (''ncacn_np:'' @ hostname @ (if debuglvl9 then ''[print]'' else []))) w
      in (an_status a, w1))"

definition svc_OpenSCManager ::
    "'h svc_env \<Rightarrow> string \<Rightarrow> 'h svc_world \<Rightarrow> NTSTATUS \<times> policy_handle \<times> 'h svc_world" where
  "svc_OpenSCManager env hostname w =
     (let (st, a, w1) = invoke_rpc env (OpenSCManagerW hostname None SEC_FLAG_MAXIMUM_ALLOWED) w
      in (st, an_handle a, w1))"

definition svc_OpenService ::
    "'h svc_env \<Rightarrow> policy_handle \<Rightarrow> string \<Rightarrow> 'h svc_world \<Rightarrow>
     NTSTATUS \<times> policy_handle \<times> 'h svc_world" where
  "svc_OpenService env scm_handle ServiceName w =
     (let (st, a, w1) = invoke_rpc env (OpenServiceW scm_handle ServiceName SERVICE_ALL_ACCESS) w
      in (st, an_handle a, w1))"

definition svc_CreateService ::
    "'h svc_env \<Rightarrow> policy_handle \<Rightarrow> string \<Rightarrow> u32 \<Rightarrow> string \<Rightarrow> 'h svc_world \<Rightarrow>
     NTSTATUS \<times> policy_handle \<times> 'h svc_world" where
  "svc_CreateService env scm_handle ServiceName type binary_path w =
     (let (st, a, w1) = invoke_rpc env (CreateServiceW scm_handle
            \<lparr>cf_service_name = Some ServiceName, cf_display_name = None,
             cf_desired_access = SERVICE_ALL_ACCESS, cf_type = type,
             cf_start_type = SERVICE_DEMAND_START, cf_error_control = SERVICE_ERROR_NORMAL,
             cf_binary_path = Some binary_path, cf_load_order_group = None,
             cf_dependencies = None, cf_dependencies_size = 0, cf_service_start_name = None,
             cf_password = None, cf_password_size = 0\<rparr>) w
      in (st, an_handle a, w1))"

definition svc_ChangeServiceConfig ::
    "'h svc_env \<Rightarrow> policy_handle \<Rightarrow> u32 \<Rightarrow> string option \<Rightarrow> 'h svc_world \<Rightarrow>
     NTSTATUS \<times> 'h svc_world" where
  "svc_ChangeServiceConfig env svc_handle type binary_path w =
     (let (st, a, w1) = invoke_rpc env (ChangeServiceConfigW svc_handle
            \<lparr>cf_service_name = None, cf_display_name = None, cf_desired_access = 0, cf_type = type,
             cf_start_type = SERVICE_NO_CHANGE, cf_error_control = SERVICE_NO_CHANGE,
             cf_binary_path = binary_path, cf_load_order_group = None,
             cf_dependencies = None, cf_dependencies_size = 0, cf_service_start_name = None,
             cf_password = None, cf_password_size = 0\<rparr>) w
      in (st, w1))"

definition svc_StartService ::
    "'h svc_env \<Rightarrow> policy_handle \<Rightarrow> 'h svc_world \<Rightarrow> NTSTATUS \<times> 'h svc_world" where
  "svc_StartService env svc_handle w =
     (let (st, a, w1) = invoke_rpc env (StartServiceW svc_handle 0) w in (st, w1))"

definition svc_ControlService ::
    "'h svc_env \<Rightarrow> policy_handle \<Rightarrow> u32 \<Rightarrow> 'h svc_world \<Rightarrow>
     NTSTATUS \<times> SERVICE_STATUS \<times> 'h svc_world" where
  "svc_ControlService env svc_handle control w =
     (let (st, a, w1) = invoke_rpc env (ControlService svc_handle control) w
      in (st, an_service a, w1))"

definition svc_QueryServiceStatus ::
    "'h svc_env \<Rightarrow> policy_handle \<Rightarrow> 'h svc_world \<Rightarrow> NTSTATUS \<times> SERVICE_STATUS \<times> 'h svc_world" where
  "svc_QueryServiceStatus env svc_handle w =
     (let (st, a, w1) = invoke_rpc env (QueryServiceStatus svc_handle) w in (st, an_service a, w1))"

definition svc_DeleteService ::
    "'h svc_env \<Rightarrow> policy_handle \<Rightarrow> 'h svc_world \<Rightarrow> NTSTATUS \<times> 'h svc_world" where
  "svc_DeleteService env svc_handle w =
     (let (st, a, w1) = invoke_rpc env (DeleteService svc_handle) w in (st, w1))"

definition svc_CloseServiceHandle ::
    "'h svc_env \<Rightarrow> policy_handle \<Rightarrow> 'h svc_world \<Rightarrow> NTSTATUS \<times> 'h svc_world" where
  "svc_CloseServiceHandle env svc_handle w =
     (let (a, w1) = invoke env (CloseServiceHandle svc_handle) w in (an_status a, w1))"

definition msleep :: "'h svc_env \<Rightarrow> nat \<Rightarrow> 'h svc_world \<Rightarrow> 'h svc_world" where
  "msleep env t w = snd (invoke env (Msleep t) w)"

section \<open>Uploading the service program\<close>

definition svc_UploadService :: "'h svc_env \<Rightarrow> string \<Rightarrow> u32 \<Rightarrow> 'h svc_world \<Rightarrow> NTSTATUS \<times> 'h svc_world" where
  "svc_UploadService env hostname flags w0 =
     (let (a, w1) = invoke env (Full_connection hostname ''ADMIN$'') w0; status = an_status a in
      if \<not> NT_STATUS_IS_OK status then (status, w1)
      else
        (let (found, w2) =
           (if flags AND SVC_FORCE_UPLOAD \<noteq> 0
            then (False, snd (invoke env (Smb_unlink ''winexesvc.exe'') w1))
            else (let (b, w) = invoke env (Smb_open ''winexesvc.exe'') w1 in
                  if 0 \<le> an_fd b then (True, snd (invoke env (Smb_close (an_fd b)) w))
                  else (False, w)))
         in if found then (status, w2)
            else
              (let (status, w3) =
                 (if flags AND SVC_OSCHOOSE \<noteq> 0
                  then (let (b, w) = invoke env (Smb_chkpath ''sysWOW64'') w2 in (an_status b, w))
                  else (status, w2));
                   exe = (if flags AND SVC_OSCHOOSE \<noteq> 0 \<and> NT_STATUS_IS_OK status
                             \<or> flags AND SVC_OS64BIT \<noteq> 0
                          then Winexesvc64 else Winexesvc32);
                   (b, w4) = invoke env (Savefile ''winexesvc.exe'' exe) w3;
                   status = an_status b
               in if \<not> NT_STATUS_IS_OK status then (status, w4)
                  else (status, snd (invoke env Tdis w4)))))"

section \<open>Installing\<close>

text \<open>
  The polling loops: sleep, ask for the status, again while it is \<open>pending\<close>. An error of
  the query ends the caller (macro \<open>NT_ERR\<close>), so it is returned like a final status.
\<close>

fun svc_poll ::
    "'h svc_env \<Rightarrow> nat \<Rightarrow> policy_handle \<Rightarrow> u32 \<Rightarrow> 'h svc_world \<Rightarrow>
     (NTSTATUS \<times> SERVICE_STATUS, 'h svc_world) res" where
  "svc_poll env 0 svc_handle pending_state w = Hang"
| "svc_poll env (Suc n) svc_handle pending_state w =
     (let (status, s, w1) = svc_QueryServiceStatus env svc_handle (msleep env 100 w) in
      if \<not> NT_STATUS_IS_OK status then Ret (status, s) w1
      else if ss_state s = pending_state then svc_poll env n svc_handle pending_state w1
      else Ret (status, s) w1)"

text \<open>
  The branch of \<open>svc_install\<close> for a service that exists and an interactive mode that was
  asked for: reconfigure it when its type differs. The result is \<open>Inl\<close> the status
  \<open>svc_install\<close> returns with, or \<open>Inr\<close> the value of the variable \<open>need_start\<close>, which
  this branch sets or leaves alone.
\<close>

definition svc_reconfigure ::
    "'h svc_env \<Rightarrow> nat \<Rightarrow> u32 \<Rightarrow> int \<Rightarrow> policy_handle \<Rightarrow> 'h svc_world \<Rightarrow>
     (NTSTATUS + int, 'h svc_world) res" where
  "svc_reconfigure env fuel flags need_start svc_handle w0 =
     (let (status, s, w1) = svc_QueryServiceStatus env svc_handle w0 in
      if \<not> NT_STATUS_IS_OK status then Ret (Inl status) w1
      else
        (let what = (ss_type s AND SERVICE_INTERACTIVE_PROCESS \<noteq> 0);
             want = (flags AND SVC_INTERACTIVE \<noteq> 0)
         in if what = want then Ret (Inr need_start) w1
            else
              (let (status, w2) =
                 (if ss_state s \<noteq> SERVICE_STOPPED
                  then (let (st, _, w) = svc_ControlService env svc_handle SERVICE_CONTROL_STOP w1
                        in (st, w))
                  else (status, w1))
               in if \<not> NT_STATUS_IS_OK status then Ret (Inl status) w2
                  else
                    (let (status, w3) = svc_ChangeServiceConfig env svc_handle
                           (SERVICE_WIN32_OWN_PROCESS OR (if want then SERVICE_INTERACTIVE_PROCESS else 0))
                           None w2
                     in if \<not> NT_STATUS_IS_OK status then Ret (Inl status) w3
                        else
                          bindr (svc_poll env fuel svc_handle SERVICE_STOP_PENDING w3)
                            (\<lambda>(status, s) w4.
                               if \<not> NT_STATUS_IS_OK status then Ret (Inl status) w4
                               else Ret (Inr 1) w4)))))"

text \<open>
  Opening or creating the service. The variable \<open>need_start\<close> is not initialised in the
  code: the argument is the value it happens to have.
\<close>

definition svc_open_or_create ::
    "'h svc_env \<Rightarrow> bool \<Rightarrow> nat \<Rightarrow> u32 \<Rightarrow> int \<Rightarrow> policy_handle \<Rightarrow> 'h svc_world \<Rightarrow>
     (NTSTATUS + policy_handle \<times> int, 'h svc_world) res" where
  "svc_open_or_create env lp fuel flags need_start scm_handle w0 =
     (let (status, svc_handle, w1) = svc_OpenService env scm_handle ''winexesvc'' w0 in
      case NT_STATUS_EQUAL lp status NT_STATUS_SERVICE_DOES_NOT_EXIST of
        None \<Rightarrow> Undef
      | Some True \<Rightarrow>
          (let (status, svc_handle, w2) = svc_CreateService env scm_handle ''winexesvc''
                 (SERVICE_WIN32_OWN_PROCESS OR
                  (if flags AND SVC_INTERACTIVE \<noteq> 0 then SERVICE_INTERACTIVE_PROCESS else 0))
                 ''winexesvc.exe'' w1
           in if \<not> NT_STATUS_IS_OK status then Ret (Inl status) w2
              else Ret (Inr (svc_handle, need_start)) w2)
      | Some False \<Rightarrow>
          if NT_STATUS_IS_OK status \<and> flags AND SVC_IGNORE_INTERACTIVE = 0
          then bindr (svc_reconfigure env fuel flags need_start svc_handle w1)
                 (\<lambda>r w2. Ret (map_sum id (\<lambda>ns. (svc_handle, ns)) r) w2)
          else if \<not> NT_STATUS_IS_OK status then Ret (Inl status) w1
          else Ret (Inr (svc_handle, need_start)) w1)"

text \<open>Starting the service, waiting for it and closing the handles.\<close>

definition svc_start_and_wait ::
    "'h svc_env \<Rightarrow> nat \<Rightarrow> u32 \<Rightarrow> int \<Rightarrow> policy_handle \<Rightarrow> policy_handle \<Rightarrow> 'h svc_world \<Rightarrow>
     (NTSTATUS, 'h svc_world) res" where
  "svc_start_and_wait env fuel flags need_start scm_handle svc_handle w0 =
     (let (status, w1) =
        (if flags AND SVC_IGNORE_INTERACTIVE \<noteq> 0 \<or> need_start \<noteq> 0
         then svc_StartService env svc_handle w0 else (NT_STATUS_OK, w0))
      in if \<not> NT_STATUS_IS_OK status then Ret status w1
         else
           bindr (svc_poll env fuel svc_handle SERVICE_START_PENDING w1)
             (\<lambda>(status, s) w2.
                if \<not> NT_STATUS_IS_OK status then Ret status w2
                else if ss_state s \<noteq> SERVICE_RUNNING then Ret NT_STATUS_UNSUCCESSFUL w2
                else
                  (let (_, w3) = svc_CloseServiceHandle env svc_handle w2;
                       (_, w4) = svc_CloseServiceHandle env scm_handle w3;
                       (_, w5) = invoke env Pipe_free w4
                   in Ret status w5)))"

definition svc_install ::
    "'h svc_env \<Rightarrow> bool \<Rightarrow> bool \<Rightarrow> nat \<Rightarrow> int \<Rightarrow> string \<Rightarrow> u32 \<Rightarrow> 'h svc_world \<Rightarrow>
     (NTSTATUS, 'h svc_world) res" where
  "svc_install env lp debuglvl9 fuel need_start hostname flags w0 =
     (let (status, w1) = svc_pipe_connect env debuglvl9 hostname w0 in
      if \<not> NT_STATUS_IS_OK status then Ret status w1
      else
        (let (status, w2) = svc_UploadService env hostname flags w1 in
         if \<not> NT_STATUS_IS_OK status then Ret status w2
         else
           (let (status, scm_handle, w3) = svc_OpenSCManager env hostname w2 in
            if \<not> NT_STATUS_IS_OK status then Ret status w3
            else
              bindr (svc_open_or_create env lp fuel flags need_start scm_handle w3)
                (\<lambda>r w4. case r of
                   Inl st \<Rightarrow> Ret st w4
                 | Inr (svc_handle, ns) \<Rightarrow>
                     svc_start_and_wait env fuel flags ns scm_handle svc_handle w4))))"

section \<open>Removing\<close>

text \<open>Stop the service, wait, delete it and close the handles: the first half of \<open>svc_uninstall\<close>.\<close>

definition svc_stop_and_delete ::
    "'h svc_env \<Rightarrow> nat \<Rightarrow> policy_handle \<Rightarrow> policy_handle \<Rightarrow> 'h svc_world \<Rightarrow>
     (NTSTATUS option, 'h svc_world) res" where
  "svc_stop_and_delete env fuel scm_handle svc_handle w0 =
     (let (_, _, w1) = svc_ControlService env svc_handle SERVICE_CONTROL_STOP w0 in
      bindr (svc_poll env fuel svc_handle SERVICE_STOP_PENDING w1)
        (\<lambda>(status, s) w2.
           if \<not> NT_STATUS_IS_OK status then Ret (Some status) w2
           else if ss_state s \<noteq> SERVICE_STOPPED then Ret (Some NT_STATUS_UNSUCCESSFUL) w2
           else
             (let (_, w3) = svc_DeleteService env svc_handle w2;
                  (_, w4) = svc_CloseServiceHandle env svc_handle w3;
                  (_, w5) = svc_CloseServiceHandle env scm_handle w4
              in Ret None w5)))"

text \<open>Remove the program file: the second half.\<close>

definition svc_uninstall_tail ::
    "'h svc_env \<Rightarrow> string \<Rightarrow> 'h svc_world \<Rightarrow> (NTSTATUS, 'h svc_world) res" where
  "svc_uninstall_tail env hostname w0 =
     (let (a, w1) = invoke env (Full_connection hostname ''ADMIN$'') w0 in
      if \<not> NT_STATUS_IS_OK (an_status a) then Ret (an_status a) w1
      else
        (let w2 = msleep env 300 w1;
             (_, w3) = invoke env (Smb_unlink ''winexesvc.exe'') w2;
             (b, w4) = invoke env Tdis w3
         in Ret (an_status b) w4))"

definition svc_uninstall ::
    "'h svc_env \<Rightarrow> bool \<Rightarrow> nat \<Rightarrow> string \<Rightarrow> 'h svc_world \<Rightarrow> (NTSTATUS, 'h svc_world) res" where
  "svc_uninstall env debuglvl9 fuel hostname w0 =
     (let (status, w1) = svc_pipe_connect env debuglvl9 hostname w0 in
      if \<not> NT_STATUS_IS_OK status then Ret status w1
      else
        (let (status, scm_handle, w2) = svc_OpenSCManager env hostname w1 in
         if \<not> NT_STATUS_IS_OK status then Ret status w2
         else
           (let (status, svc_handle, w3) = svc_OpenService env scm_handle ''winexesvc'' w2 in
            if \<not> NT_STATUS_IS_OK status then Ret status w3
            else
              bindr (svc_stop_and_delete env fuel scm_handle svc_handle w3)
                (\<lambda>r w4. case r of
                   Some st \<Rightarrow> Ret st w4
                 | None \<Rightarrow> svc_uninstall_tail env hostname w4))))"

section \<open>Traces\<close>

lemmas svc_call_defs = svc_pipe_connect_def svc_OpenSCManager_def svc_OpenService_def
  svc_CreateService_def svc_ChangeServiceConfig_def svc_StartService_def svc_ControlService_def
  svc_QueryServiceStatus_def svc_DeleteService_def svc_CloseServiceHandle_def msleep_def
  invoke_rpc_def

text \<open>A world extends another when it only added calls to the trace.\<close>

definition extends :: "'h svc_world \<Rightarrow> 'h svc_world \<Rightarrow> bool" where
  "extends w w' = (\<exists>t. trace w' = trace w @ t)"

lemma extends_refl [simp]: "extends w w"
  by (simp add: extends_def)

lemma extends_trans: "extends w w' \<Longrightarrow> extends w' w'' \<Longrightarrow> extends w w''"
  by (auto simp: extends_def)

lemma trace_invoke: "invoke env c w = (a, w') \<Longrightarrow> trace w' = trace w @ [(c, a)]"
  by (auto simp: invoke_def split: prod.splits)

lemma extends_invoke: "extends w0 w \<Longrightarrow> invoke env c w = (a, w') \<Longrightarrow> extends w0 w'"
  by (auto simp: extends_def trace_invoke)

lemma extends_snd_invoke: "extends w0 w \<Longrightarrow> extends w0 (snd (invoke env c w))"
  by (cases "invoke env c w") (auto intro: extends_invoke)

lemma extends_svc_calls:
  "svc_pipe_connect env dbg host w = (st, w') \<Longrightarrow> extends w w'"
  "svc_OpenSCManager env host w = (st, h, w') \<Longrightarrow> extends w w'"
  "svc_OpenService env scm name w = (st, h, w') \<Longrightarrow> extends w w'"
  by (auto simp: svc_call_defs split: prod.splits elim!: extends_invoke [rotated])

lemma NT_RES_ok: "NT_STATUS_IS_OK (NT_RES st e) \<longleftrightarrow> NT_STATUS_IS_OK st \<and> NT_STATUS_IS_OK (werror_to_ntstatus e)"
  by (simp add: NT_RES_def)

lemma svc_poll_trace:
  assumes "svc_poll env n h p w = Ret (st, s) w'"
  shows "\<exists>pre a. trace w' = trace w @ pre @ [(QueryServiceStatus h, a)]
     \<and> (\<forall>c \<in> fst ` set pre. c = Msleep 100 \<or> c = QueryServiceStatus h)
     \<and> st = NT_RES (an_status a) (an_result a) \<and> s = an_service a
     \<and> (NT_STATUS_IS_OK st \<longrightarrow> ss_state s \<noteq> p)
     \<and> (\<exists>v. invoke env (QueryServiceStatus h) v = (a, w'))"
  using assms
proof (induction n arbitrary: w)
  case 0
  then show ?case by simp
next
  case (Suc n)
  obtain b w1 where b: "invoke env (Msleep 100) w = (b, w1)" by force
  obtain a w2 where a: "invoke env (QueryServiceStatus h) w1 = (a, w2)" by force
  let ?st = "NT_RES (an_status a) (an_result a)"
  have tr: "trace w2 = trace w @ [(Msleep 100, b), (QueryServiceStatus h, a)]"
    using trace_invoke [OF b] trace_invoke [OF a] by simp
  show ?case
  proof (cases "NT_STATUS_IS_OK ?st \<and> ss_state (an_service a) = p")
    case True
    with Suc.prems a b have "svc_poll env n h p w2 = Ret (st, s) w'"
      by (simp add: svc_call_defs)
    from Suc.IH [OF this] obtain pre a' where
      "trace w' = trace w2 @ pre @ [(QueryServiceStatus h, a')]"
      "\<forall>c \<in> fst ` set pre. c = Msleep 100 \<or> c = QueryServiceStatus h"
      "st = NT_RES (an_status a') (an_result a')" "s = an_service a'"
      "NT_STATUS_IS_OK st \<longrightarrow> ss_state s \<noteq> p"
      "\<exists>v. invoke env (QueryServiceStatus h) v = (a', w')" by blast
    with tr show ?thesis
      by (intro exI [of _ "(Msleep 100, b) # (QueryServiceStatus h, a) # pre"] exI [of _ a']) auto
  next
    case False
    with Suc.prems a b have "w' = w2" "st = ?st" "s = an_service a"
      by (auto simp: svc_call_defs split: if_splits)
    with tr False a show ?thesis by (auto intro!: exI [of _ "[(Msleep 100, b)]"])
  qed
qed

lemma svc_poll_no_exit [simp]: "svc_poll env n h p w \<noteq> Exit c w'"
  by (induction n arbitrary: w) (auto simp: Let_def split: prod.splits)

lemma svc_poll_no_undef [simp]: "svc_poll env n h p w \<noteq> Undef"
  by (induction n arbitrary: w) (auto simp: Let_def split: prod.splits)

lemma svc_UploadService_extends:
  "svc_UploadService env host flags w = (st, w') \<Longrightarrow> extends w w'"
  by (auto simp: svc_UploadService_def Let_def split: prod.splits if_splits
      intro!: extends_snd_invoke elim!: extends_invoke [rotated])

text \<open>\<open>grows w m\<close>: however the call \<open>m\<close> returns, it only added calls to the trace of \<open>w\<close>.\<close>

abbreviation grows :: "'h svc_world \<Rightarrow> ('a, 'h svc_world) res \<Rightarrow> bool" where
  "grows w m \<equiv> all_res (extends w) (\<lambda>_ _. False) m"

lemma svc_poll_grows: "extends w0 w \<Longrightarrow> grows w0 (svc_poll env n h p w)"
proof (induction n arbitrary: w)
  case (Suc n)
  obtain a w1 where a: "invoke env (QueryServiceStatus h) (msleep env 100 w) = (a, w1)" by force
  have "extends w0 (msleep env 100 w)"
    using Suc.prems by (simp add: msleep_def extends_snd_invoke)
  then have "extends w0 w1" using a by (rule extends_invoke)
  with a Suc.IH show ?case by (simp add: svc_QueryServiceStatus_def invoke_rpc_def)
qed simp

lemma svc_reconfigure_grows: "extends w0 w \<Longrightarrow> grows w0 (svc_reconfigure env n flags ns h w)"
  by (auto simp: svc_reconfigure_def svc_call_defs Let_def split: prod.splits if_splits
      intro!: all_res_bindr [OF svc_poll_grows] elim!: extends_invoke [rotated])

lemma svc_open_or_create_grows:
  "extends w0 w \<Longrightarrow> grows w0 (svc_open_or_create env lp n flags ns scm w)"
  by (auto simp: svc_open_or_create_def svc_call_defs Let_def
      split: prod.splits option.splits bool.splits sum.splits
      intro!: all_res_bindr [OF svc_reconfigure_grows] elim!: extends_invoke [rotated])

text \<open>An early return of these parts carries an error.\<close>

lemma map_sum_id_Inl [simp]: "map_sum id f r = Inl x \<longleftrightarrow> r = Inl x"
  by (cases r) auto

lemma svc_reconfigure_error:
  "svc_reconfigure env n flags ns h w = Ret (Inl st) w' \<Longrightarrow> \<not> NT_STATUS_IS_OK st"
  by (auto simp: svc_reconfigure_def svc_call_defs Let_def bindr_eq_Ret split: prod.splits if_splits)

lemma svc_open_or_create_error:
  "svc_open_or_create env lp n flags ns scm w = Ret (Inl st) w' \<Longrightarrow> \<not> NT_STATUS_IS_OK st"
  by (auto simp: svc_open_or_create_def svc_call_defs Let_def bindr_eq_Ret
      split: prod.splits if_splits option.splits bool.splits dest: svc_reconfigure_error)

lemma svc_start_and_wait_ok:
  assumes "svc_start_and_wait env n flags ns scm h w = Ret st w'" "NT_STATUS_IS_OK st"
  shows "\<exists>pre q a b c v w2. trace w' = trace w @ pre @
     [(QueryServiceStatus h, q), (CloseServiceHandle h, a), (CloseServiceHandle scm, b), (Pipe_free, c)]
     \<and> NT_STATUS_IS_OK (an_status q) \<and> ss_state (an_service q) = SERVICE_RUNNING
     \<and> invoke env (QueryServiceStatus h) v = (q, w2)
     \<and> w' = snd (invoke env Pipe_free (snd (invoke env (CloseServiceHandle scm)
              (snd (invoke env (CloseServiceHandle h) w2)))))"
proof -
  obtain st1 w1 where start: "(if flags AND SVC_IGNORE_INTERACTIVE \<noteq> 0 \<or> ns \<noteq> 0
      then svc_StartService env h w else (NT_STATUS_OK, w)) = (st1, w1)" by force
  then have ext: "extends w w1"
    by (auto simp: svc_call_defs split: if_splits prod.splits elim!: extends_invoke [rotated])
  from assms obtain s w2 where
    poll: "svc_poll env n h SERVICE_START_PENDING w1 = Ret (st, s) w2"
    and run: "ss_state s = SERVICE_RUNNING"
    and fin: "Ret st (snd (invoke env Pipe_free (snd (svc_CloseServiceHandle env scm
       (snd (svc_CloseServiceHandle env h w2)))))) = (Ret st w' :: (NTSTATUS, 'a svc_world) res)"
    unfolding svc_start_and_wait_def start
    by (auto simp: bindr_eq_Ret Let_def NT_STATUS_IS_OK_def split: prod.splits if_splits)
  obtain a w3 where a: "invoke env (CloseServiceHandle h) w2 = (a, w3)" by force
  obtain b w4 where b: "invoke env (CloseServiceHandle scm) w3 = (b, w4)" by force
  obtain c w5 where c: "invoke env Pipe_free w4 = (c, w5)" by force
  have
    "trace w' = trace w2 @ [(CloseServiceHandle h, a), (CloseServiceHandle scm, b), (Pipe_free, c)]"
    using fin a b c trace_invoke [OF a] trace_invoke [OF b] trace_invoke [OF c]
    by (simp add: svc_call_defs)
  moreover have "w' = snd (invoke env Pipe_free (snd (invoke env (CloseServiceHandle scm)
              (snd (invoke env (CloseServiceHandle h) w2)))))"
    using fin by (simp add: svc_CloseServiceHandle_def split: prod.splits)
  ultimately show ?thesis
    using svc_poll_trace [OF poll] ext run assms(2) by (fastforce simp: extends_def NT_RES_ok)
qed

lemma NT_STATUS_EQUAL_nt: "NT_STATUS_EQUAL True x y = Some (x = y)"
  by (simp add: NT_STATUS_EQUAL_def ntstatus_dos_equal_def)

section \<open>Handles\<close>

text \<open>
  The handles in a trace: those a successful answer has given to the client, and those the client
  has closed, in order. \<open>logs w l w'\<close>: the calls from \<open>w\<close> to \<open>w'\<close> have the handle log \<open>l\<close>.
\<close>

datatype handle_event = Opened policy_handle | Closed policy_handle

fun handle_step :: "svc_call \<Rightarrow> answer \<Rightarrow> handle_event list" where
  "handle_step (OpenSCManagerW m d x) a = (if NT_STATUS_IS_OK (NT_RES (an_status a) (an_result a)) then [Opened (an_handle a)] else [])"
| "handle_step (OpenServiceW m d x) a = (if NT_STATUS_IS_OK (NT_RES (an_status a) (an_result a)) then [Opened (an_handle a)] else [])"
| "handle_step (CreateServiceW m cf) a = (if NT_STATUS_IS_OK (NT_RES (an_status a) (an_result a)) then [Opened (an_handle a)] else [])"
| "handle_step (CloseServiceHandle h) a = [Closed h]"
| "handle_step _ a = []"

definition handle_log :: "(svc_call \<times> answer) list \<Rightarrow> handle_event list" where
  "handle_log t = concat (map (\<lambda>(c, a). handle_step c a) t)"

lemma handle_log_simps [simp]:
  "handle_log [] = []" "handle_log ((c, a) # t) = handle_step c a @ handle_log t"
  "handle_log (t @ u) = handle_log t @ handle_log u"
  by (simp_all add: handle_log_def)

definition logs :: "'h svc_world \<Rightarrow> handle_event list \<Rightarrow> 'h svc_world \<Rightarrow> bool" where
  "logs w l w' \<longleftrightarrow> (\<exists>t. trace w' = trace w @ t \<and> handle_log t = l)"

lemma logs_refl: "logs w [] w"
  by (simp add: logs_def)

lemma logs_trans: "logs w l w' \<Longrightarrow> logs w' l' w'' \<Longrightarrow> logs w (l @ l') w''"
  by (auto simp: logs_def)

lemma logs_nil: "logs w [] w' \<Longrightarrow> logs w' l w'' \<Longrightarrow> logs w l w''"
  using logs_trans [of w "[]" w' l w''] by simp

lemma logs_invoke: "logs w l w1 \<Longrightarrow> invoke env c w1 = (a, w2) \<Longrightarrow> logs w (l @ handle_step c a) w2"
  by (auto simp: logs_def trace_invoke)

lemma logs_quiet: "logs w l w1 \<Longrightarrow> invoke env c w1 = (a, w2) \<Longrightarrow> handle_step c a = [] \<Longrightarrow> logs w l w2"
  using logs_invoke [of w l w1 env c a w2] by simp

lemma logs_snd_quiet: "logs w l w1 \<Longrightarrow> (\<And>a. handle_step c a = []) \<Longrightarrow> logs w l (snd (invoke env c w1))"
  by (cases "invoke env c w1") (auto intro: logs_quiet)

lemma svc_UploadService_logs: "svc_UploadService env host flags w = (st, w') \<Longrightarrow> logs w [] w'"
  by (auto simp: svc_UploadService_def Let_def split: prod.splits if_splits
      intro!: logs_snd_quiet logs_refl elim!: logs_quiet [rotated])

lemma svc_calls_logs:
  "svc_pipe_connect env dbg host w = (st, w') \<Longrightarrow> logs w [] w'"
  "svc_OpenSCManager env host w = (st, h, w') \<Longrightarrow> NT_STATUS_IS_OK st \<Longrightarrow> logs w [Opened h] w'"
  "svc_OpenService env scm name w = (st, h, w') \<Longrightarrow> logs w (if NT_STATUS_IS_OK st then [Opened h] else []) w'"
  "svc_CreateService env scm name type path w = (st, h, w') \<Longrightarrow> NT_STATUS_IS_OK st \<Longrightarrow> logs w [Opened h] w'"
  "svc_StartService env h w = (st, w') \<Longrightarrow> logs w [] w'"
  "svc_ControlService env h x w = (st, ss, w') \<Longrightarrow> logs w [] w'"
  "svc_QueryServiceStatus env h w = (st, ss, w') \<Longrightarrow> logs w [] w'"
  "svc_ChangeServiceConfig env h x y w = (st, w') \<Longrightarrow> logs w [] w'"
  "svc_CloseServiceHandle env h w = (st, w') \<Longrightarrow> logs w [Closed h] w'"
  by (auto simp: svc_call_defs logs_def split: prod.splits dest: trace_invoke)

lemma svc_poll_logs: "svc_poll env n h p w = Ret (st, s) w' \<Longrightarrow> logs w [] w'"
proof (drule svc_poll_trace, elim exE conjE)
  fix pre a assume t: "trace w' = trace w @ pre @ [(QueryServiceStatus h, a)]"
    "\<forall>c \<in> fst ` set pre. c = Msleep 100 \<or> c = QueryServiceStatus h"
  then have "handle_log pre = []" by (auto simp: handle_log_def)
  with t show "logs w [] w'" by (simp add: logs_def)
qed

lemma svc_reconfigure_logs: "svc_reconfigure env n flags ns h w = Ret r w' \<Longrightarrow> logs w [] w'"
  by (auto simp: svc_reconfigure_def Let_def bindr_eq_Ret split: prod.splits if_splits
      dest!: svc_calls_logs svc_poll_logs dest: logs_nil)

lemma ok_exists: "NT_STATUS_IS_OK st \<Longrightarrow> NT_STATUS_EQUAL lp st NT_STATUS_SERVICE_DOES_NOT_EXIST \<noteq> Some True"
  by (auto simp: NT_STATUS_EQUAL_def ntstatus_dos_equal_def NT_STATUS_IS_OK_def NT_STATUS_IS_DOS_def)

lemma map_sum_id_Pair: "map_sum id (Pair x) r = Inr (h, y) \<Longrightarrow> h = x"
  by (cases r) auto

lemma svc_open_or_create_logs:
  "svc_open_or_create env lp n flags ns scm w = Ret (Inr (h, ns')) w' \<Longrightarrow> logs w [Opened h] w'"
  by (auto simp: svc_open_or_create_def Let_def bindr_eq_Ret split: prod.splits if_splits option.splits bool.splits
      sum.splits dest!: svc_calls_logs svc_reconfigure_logs map_sum_id_Pair dest: logs_trans ok_exists)

section \<open>Deleting only what has stopped\<close>

text \<open>Every \<open>DeleteService\<close> of a trace comes right after a status query that saw the service stopped.\<close>

definition saw_stopped :: "policy_handle \<Rightarrow> (svc_call \<times> answer) option \<Rightarrow> bool" where
  "saw_stopped h prev =
     (case prev of
        None \<Rightarrow> False
      | Some (c, a) \<Rightarrow> c = QueryServiceStatus h \<and> NT_STATUS_IS_OK (an_status a)
                       \<and> ss_state (an_service a) = SERVICE_STOPPED)"

fun delete_guarded :: "(svc_call \<times> answer) option \<Rightarrow> (svc_call \<times> answer) list \<Rightarrow> bool" where
  "delete_guarded prev [] = True"
| "delete_guarded prev ((c, a) # t) =
     ((case c of DeleteService h \<Rightarrow> saw_stopped h prev | _ \<Rightarrow> True)
      \<and> delete_guarded (Some (c, a)) t)"

abbreviation last_call :: "(svc_call \<times> answer) option \<Rightarrow> (svc_call \<times> answer) list \<Rightarrow> (svc_call \<times> answer) option" where
  "last_call prev t \<equiv> (if t = [] then prev else Some (last t))"

lemma delete_guarded_append:
  "delete_guarded prev (t @ u) \<longleftrightarrow> delete_guarded prev t \<and> delete_guarded (last_call prev t) u"
  by (induction prev t rule: delete_guarded.induct) (auto split: svc_call.splits)

lemma delete_guarded_polling:
  "(\<forall>c \<in> fst ` set t. c = Msleep 100 \<or> c = QueryServiceStatus h) \<Longrightarrow> delete_guarded prev t"
  by (induction prev t rule: delete_guarded.induct) auto

definition guarded_step :: "'h svc_world \<Rightarrow> 'h svc_world \<Rightarrow> bool" where
  "guarded_step w w' = (\<exists>t. trace w' = trace w @ t \<and> (\<forall>prev. delete_guarded prev t))"

lemma guarded_step_refl: "guarded_step w w"
  by (simp add: guarded_step_def)

lemma guarded_step_trans: "guarded_step w w' \<Longrightarrow> guarded_step w' w'' \<Longrightarrow> guarded_step w w''"
  by (auto simp: guarded_step_def delete_guarded_append)

lemma guarded_step_invoke:
  "guarded_step w0 w \<Longrightarrow> invoke env c w = (a, w') \<Longrightarrow> (\<And>h. c \<noteq> DeleteService h) \<Longrightarrow> guarded_step w0 w'"
  by (auto simp: guarded_step_def trace_invoke delete_guarded_append split: svc_call.splits)

lemma guarded_step_snd_invoke:
  "guarded_step w0 w \<Longrightarrow> (\<And>h. c \<noteq> DeleteService h) \<Longrightarrow> guarded_step w0 (snd (invoke env c w))"
  by (cases "invoke env c w") (auto intro: guarded_step_invoke)

lemma guarded_svc_calls:
  "svc_pipe_connect env dbg host w = (st, w') \<Longrightarrow> guarded_step w w'"
  "svc_OpenSCManager env host w = (st, h, w') \<Longrightarrow> guarded_step w w'"
  "svc_OpenService env scm name w = (st, h, w') \<Longrightarrow> guarded_step w w'"
  by (auto simp: svc_call_defs split: prod.splits
      elim!: guarded_step_invoke [OF guarded_step_refl])

lemma svc_stop_and_delete_guarded:
  assumes "svc_stop_and_delete env n scm h w = Ret r w'"
  shows "guarded_step w w'"
proof -
  obtain x w1 where x: "invoke env (ControlService h SERVICE_CONTROL_STOP) w = (x, w1)" by force
  from assms x obtain st s w2 where
    poll: "svc_poll env n h SERVICE_STOP_PENDING w1 = Ret (st, s) w2"
    and rest: "w' = w2 \<or> NT_STATUS_IS_OK st \<and> ss_state s = SERVICE_STOPPED \<and>
      w' = snd (invoke env (CloseServiceHandle scm) (snd (invoke env (CloseServiceHandle h)
             (snd (invoke env (DeleteService h) w2)))))"
    by (auto simp: svc_stop_and_delete_def svc_call_defs Let_def bindr_eq_Ret
        split: prod.splits if_splits)
  from svc_poll_trace [OF poll] obtain pre q where
    tr: "trace w2 = trace w @ (ControlService h SERVICE_CONTROL_STOP, x) # pre @ [(QueryServiceStatus h, q)]"
    and pre: "\<forall>c \<in> fst ` set pre. c = Msleep 100 \<or> c = QueryServiceStatus h"
    and q: "st = NT_RES (an_status q) (an_result q)" "s = an_service q"
    using trace_invoke [OF x] by auto
  obtain a w3 where a: "invoke env (DeleteService h) w2 = (a, w3)" by force
  obtain b w4 where b: "invoke env (CloseServiceHandle h) w3 = (b, w4)" by force
  obtain c w5 where c: "invoke env (CloseServiceHandle scm) w4 = (c, w5)" by force
  from rest tr pre q show ?thesis
    using a b c trace_invoke [OF a] trace_invoke [OF b] trace_invoke [OF c]
    by (auto simp: guarded_step_def delete_guarded_append delete_guarded_polling saw_stopped_def NT_RES_ok)
qed

lemma svc_start_and_wait_logs:
  assumes "svc_start_and_wait env n flags ns scm h w = Ret st w'" "NT_STATUS_IS_OK st"
  shows "logs w [Closed h, Closed scm] w'"
proof -
  obtain st1 w1 where start: "(if flags AND SVC_IGNORE_INTERACTIVE \<noteq> 0 \<or> ns \<noteq> 0
      then svc_StartService env h w else (NT_STATUS_OK, w)) = (st1, w1)" by force
  then have w1: "logs w [] w1"
    by (auto simp: logs_refl split: if_splits dest: svc_calls_logs)
  from assms obtain s w2 where
    poll: "svc_poll env n h SERVICE_START_PENDING w1 = Ret (st, s) w2"
    and fin: "Ret st (snd (invoke env Pipe_free (snd (svc_CloseServiceHandle env scm
       (snd (svc_CloseServiceHandle env h w2)))))) = (Ret st w' :: (NTSTATUS, 'a svc_world) res)"
    unfolding svc_start_and_wait_def start
    by (auto simp: bindr_eq_Ret Let_def NT_STATUS_IS_OK_def split: prod.splits if_splits)
  obtain a w3 where a: "svc_CloseServiceHandle env h w2 = (a, w3)" by force
  obtain b w4 where b: "svc_CloseServiceHandle env scm w3 = (b, w4)" by force
  have "logs w [] w2" using w1 svc_poll_logs [OF poll] by (rule logs_nil)
  from logs_trans [OF logs_trans [OF this svc_calls_logs(9) [OF a]] svc_calls_logs(9) [OF b]]
  have "logs w [Closed h, Closed scm] w4" by simp
  with fin a b show ?thesis by (auto intro: logs_snd_quiet)
qed

lemma svc_install_ok:
  assumes "svc_install env lp dbg fuel need_start hostname flags w = Ret st w'"
    and "NT_STATUS_IS_OK st"
  shows "\<exists>pre h scm q a b c v w2. trace w' = trace w @ pre @
     [(QueryServiceStatus h, q), (CloseServiceHandle h, a), (CloseServiceHandle scm, b), (Pipe_free, c)]
     \<and> NT_STATUS_IS_OK (an_status q) \<and> ss_state (an_service q) = SERVICE_RUNNING
     \<and> invoke env (QueryServiceStatus h) v = (q, w2)
     \<and> w' = snd (invoke env Pipe_free (snd (invoke env (CloseServiceHandle scm)
              (snd (invoke env (CloseServiceHandle h) w2)))))
     \<and> logs w [Opened scm, Opened h, Closed h, Closed scm] w'"
proof -
  obtain st1 w1 where c1: "svc_pipe_connect env dbg hostname w = (st1, w1)" by force
  obtain st2 w2 where c2: "svc_UploadService env hostname flags w1 = (st2, w2)" by force
  obtain st3 scm w3 where c3: "svc_OpenSCManager env hostname w2 = (st3, scm, w3)"
    by (metis prod_cases3)
  have "extends w w3"
    using extends_svc_calls(1) [OF c1] svc_UploadService_extends [OF c2] extends_svc_calls(2) [OF c3]
    by (blast intro: extends_trans)
  with assms c1 c2 c3 obtain r w4 where
    mid: "svc_open_or_create env lp fuel flags need_start scm w3 = Ret r w4"
    and k: "(case r of Inl st \<Rightarrow> Ret st w4
       | Inr (h, ns) \<Rightarrow> svc_start_and_wait env fuel flags ns scm h w4) = Ret st w'"
    by (auto simp: svc_install_def bindr_eq_Ret split: if_splits)
  from k assms(2) mid obtain h ns where
    last: "svc_start_and_wait env fuel flags ns scm h w4 = Ret st w'" and r: "r = Inr (h, ns)"
    by (cases r) (auto dest: svc_open_or_create_error)
  have "extends w w4"
    using all_res_RetD [OF svc_open_or_create_grows [OF \<open>extends w w3\<close>] mid] .
  then obtain t where t: "trace w4 = trace w @ t" by (auto simp: extends_def)
  have "logs w [Opened scm] w3"
    using assms c1 c2 c3 svc_calls_logs(1) [OF c1] svc_UploadService_logs [OF c2] svc_calls_logs(2) [OF c3]
    by (auto simp: svc_install_def split: if_splits intro: logs_nil)
  from logs_trans [OF this svc_open_or_create_logs [OF mid [unfolded r]]]
  have l4: "logs w [Opened scm, Opened h] w4" by simp
  have "logs w [Opened scm, Opened h, Closed h, Closed scm] w'"
    using logs_trans [OF l4 svc_start_and_wait_logs [OF last assms(2)]] by simp
  note log = this
  from svc_start_and_wait_ok [OF last assms(2)] obtain pre q a b c v w2 where
    "trace w' = trace w4 @ pre @ [(QueryServiceStatus h, q), (CloseServiceHandle h, a),
       (CloseServiceHandle scm, b), (Pipe_free, c)]"
    "NT_STATUS_IS_OK (an_status q) \<and> ss_state (an_service q) = SERVICE_RUNNING"
    "invoke env (QueryServiceStatus h) v = (q, w2)"
    "w' = snd (invoke env Pipe_free (snd (invoke env (CloseServiceHandle scm)
              (snd (invoke env (CloseServiceHandle h) w2)))))" by blast
  with t log show ?thesis
    by (intro exI [of _ "t @ pre"] exI [of _ h] exI [of _ scm] exI [of _ q] exI [of _ a]
        exI [of _ b] exI [of _ c] exI [of _ v] exI [of _ w2]) simp
qed

section \<open>Properties\<close>

text \<open>
  C5. When \<open>svc_install\<close> reports success, the last thing it asked the host was the status of
  the service, the host answered that it is running, and after that it closed the service
  handle, the manager handle and the pipe, in this order. The two handles are the only ones the
  host has given it, the manager handle first, and each of them was closed exactly once.
\<close>

theorem svc_install_running:
  assumes "svc_install env lp dbg fuel need_start hostname flags w = Ret st w'"
    and "NT_STATUS_IS_OK st"
  shows "\<exists>pre h scm q a b c. trace w' = trace w @ pre @
     [(QueryServiceStatus h, q), (CloseServiceHandle h, a), (CloseServiceHandle scm, b), (Pipe_free, c)]
     \<and> NT_STATUS_IS_OK (an_status q) \<and> ss_state (an_service q) = SERVICE_RUNNING
     \<and> handle_log pre = [Opened scm, Opened h]"
proof -
  obtain pre h scm q a b c where t: "trace w' = trace w @ pre @
     [(QueryServiceStatus h, q), (CloseServiceHandle h, a), (CloseServiceHandle scm, b), (Pipe_free, c)]"
    "NT_STATUS_IS_OK (an_status q)" "ss_state (an_service q) = SERVICE_RUNNING"
    "logs w [Opened scm, Opened h, Closed h, Closed scm] w'"
    using svc_install_ok [OF assms] by blast
  then have "handle_log pre = [Opened scm, Opened h]" by (auto simp: logs_def)
  with t show ?thesis by blast
qed

text \<open>
  C6. \<open>svc_uninstall\<close> deletes the service only when the host has just answered that it is
  stopped: in the calls it adds, every \<open>DeleteService\<close> follows a status query with that
  answer.
\<close>

theorem svc_uninstall_delete_guarded:
  assumes "svc_uninstall env dbg fuel hostname w = Ret st w'"
  shows "\<exists>t. trace w' = trace w @ t \<and> delete_guarded None t"
proof -
  obtain st1 w1 where c1: "svc_pipe_connect env dbg hostname w = (st1, w1)" by force
  obtain st2 scm w2 where c2: "svc_OpenSCManager env hostname w1 = (st2, scm, w2)"
    by (metis prod_cases3)
  obtain st3 h w3 where c3: "svc_OpenService env scm ''winexesvc'' w2 = (st3, h, w3)"
    by (metis prod_cases3)
  have g1: "guarded_step w w1" and g2: "guarded_step w w2" and g3: "guarded_step w w3"
    using guarded_svc_calls(1) [OF c1] guarded_svc_calls(2) [OF c2] guarded_svc_calls(3) [OF c3]
    by (blast intro: guarded_step_trans)+
  have tail: "guarded_step w4 w'" if "svc_uninstall_tail env hostname w4 = Ret st w'" for w4
    using that guarded_step_refl [of w4]
    by (auto simp: svc_uninstall_tail_def svc_call_defs Let_def split: prod.splits if_splits
        elim!: guarded_step_invoke [rotated] intro!: guarded_step_snd_invoke)
  have "guarded_step w w'"
    using assms c1 c2 c3 g1 g2 g3
    by (auto simp: svc_uninstall_def bindr_eq_Ret split: if_splits option.splits
        dest!: svc_stop_and_delete_guarded dest: tail intro: guarded_step_trans)
  then show ?thesis by (auto simp: guarded_step_def)
qed

end
