(* ===== verification/SvcMain.thy ===== *)
theory SvcMain
  imports SvcControl
begin

text \<open>
  The service process as the service control manager of Windows sees it:
  \<open>winexe/winexesvc/service.c\<close>. Its globals are the record \<open>svc_process\<close>; the statuses it
  gives to \<open>SetServiceStatus\<close> are kept in order in \<open>reported\<close> (a failing
  \<open>SetServiceStatus\<close> is only logged by the code). The SERVICE_STATUS of Windows has the
  layout of the one on the wire, so the same record is used.
\<close>

abbreviation (input) "SERVICE_CONTROL_PAUSE \<equiv> (2 :: u32)"
abbreviation (input) "SERVICE_CONTROL_CONTINUE \<equiv> (3 :: u32)"
abbreviation (input) "SERVICE_CONTROL_INTERROGATE \<equiv> (4 :: u32)"
abbreviation (input) "SERVICE_PAUSED \<equiv> (7 :: u32)"
abbreviation (input) "SERVICE_WIN32 \<equiv> (0x30 :: u32)"
abbreviation (input) "SERVICE_ACCEPT_STOP \<equiv> (1 :: u32)"
abbreviation (input) "SERVICE_ACCEPT_PAUSE_CONTINUE \<equiv> (2 :: u32)"
abbreviation (input) "NO_ERROR \<equiv> (0 :: u32)"

record svc_process =
  winexesvcStatus :: SERVICE_STATUS
  winexesvcStatusHandle :: nat
  reported :: "SERVICE_STATUS list"
  server_loops :: nat

definition SetServiceStatus :: "svc_process \<Rightarrow> svc_process" where
  "SetServiceStatus p = p\<lparr>reported := reported p @ [winexesvcStatus p]\<rparr>"

definition winexesvcCtrlHandler :: "u32 \<Rightarrow> svc_process \<Rightarrow> svc_process" where
  "winexesvcCtrlHandler Opcode p =
     (let s = winexesvcStatus p in
      if Opcode = SERVICE_CONTROL_PAUSE then
        SetServiceStatus (p\<lparr>winexesvcStatus := s\<lparr>ss_state := SERVICE_PAUSED\<rparr>\<rparr>)
      else if Opcode = SERVICE_CONTROL_CONTINUE then
        SetServiceStatus (p\<lparr>winexesvcStatus := s\<lparr>ss_state := SERVICE_RUNNING\<rparr>\<rparr>)
      else if Opcode = SERVICE_CONTROL_STOP then
        SetServiceStatus (p\<lparr>winexesvcStatus :=
          s\<lparr>ss_win32_exit_code := 0, ss_state := SERVICE_STOPPED, ss_check_point := 0,
            ss_wait_hint := 0\<rparr>\<rparr>)
      else SetServiceStatus p)"

text \<open>
  \<open>thread_ok\<close>: whether \<open>CreateThread\<close> gives a thread for \<open>server_loop\<close>. The function has a
  parameter \<open>specificError\<close> to return an error in, and never writes to it.
\<close>

definition winexesvcInitialization :: "bool \<Rightarrow> svc_process \<Rightarrow> u32 \<times> svc_process" where
  "winexesvcInitialization thread_ok p =
     (if thread_ok then (NO_ERROR, p\<lparr>server_loops := Suc (server_loops p)\<rparr>) else (1, p))"

text \<open>
  \<open>handle\<close>: what \<open>RegisterServiceCtrlHandler\<close> returns; \<open>specificError\<close>: the value the
  uninitialised variable of that name happens to have.
\<close>

definition winexesvcStart :: "nat \<Rightarrow> bool \<Rightarrow> u32 \<Rightarrow> svc_process \<Rightarrow> svc_process" where
  "winexesvcStart handle thread_ok specificError p =
     (let s = (winexesvcStatus p)
            \<lparr>ss_type := SERVICE_WIN32, ss_state := SERVICE_START_PENDING,
             ss_controls_accepted := SERVICE_ACCEPT_STOP OR SERVICE_ACCEPT_PAUSE_CONTINUE,
             ss_win32_exit_code := 0, ss_service_exit_code := 0, ss_check_point := 0,
             ss_wait_hint := 0\<rparr>;
          p1 = p\<lparr>winexesvcStatus := s, winexesvcStatusHandle := handle\<rparr>
      in if handle = 0 then p1
         else
           (let (status, p2) = winexesvcInitialization thread_ok p1 in
            if status \<noteq> NO_ERROR then
              SetServiceStatus (p2\<lparr>winexesvcStatus :=
                s\<lparr>ss_state := SERVICE_STOPPED, ss_check_point := 0, ss_wait_hint := 0,
                  ss_win32_exit_code := status, ss_service_exit_code := specificError\<rparr>\<rparr>)
            else
              SetServiceStatus (p2\<lparr>winexesvcStatus :=
                s\<lparr>ss_state := SERVICE_RUNNING, ss_check_point := 0, ss_wait_hint := 0\<rparr>\<rparr>)))"

text \<open>\<open>main\<close> hands \<open>winexesvcStart\<close> to the dispatcher, which runs it and then the controls.\<close>

definition svc_main :: "bool \<Rightarrow> nat \<Rightarrow> bool \<Rightarrow> u32 \<Rightarrow> u32 list \<Rightarrow> svc_process \<Rightarrow> svc_process" where
  "svc_main dispatcher_ok handle thread_ok specificError opcodes p =
     (if dispatcher_ok
      then fold winexesvcCtrlHandler opcodes (winexesvcStart handle thread_ok specificError p)
      else p)"

section \<open>Properties\<close>

text \<open>The process as it is loaded: zeroed globals.\<close>

definition zero_status :: SERVICE_STATUS where
  "zero_status = \<lparr>ss_type = 0, ss_state = 0, ss_controls_accepted = 0, ss_win32_exit_code = 0,
     ss_service_exit_code = 0, ss_check_point = 0, ss_wait_hint = 0\<rparr>"

definition new_process :: svc_process where
  "new_process = \<lparr>winexesvcStatus = zero_status, winexesvcStatusHandle = 0, reported = [],
     server_loops = 0\<rparr>"

text \<open>What every status that is reported has in common.\<close>

definition reported_wf :: "SERVICE_STATUS \<Rightarrow> bool" where
  "reported_wf s \<longleftrightarrow>
     ss_type s = SERVICE_WIN32 \<and> ss_controls_accepted s = 3 \<and> ss_wait_hint s = 0 \<and>
     ss_check_point s = 0 \<and>
     ss_state s \<in> {SERVICE_STOPPED, SERVICE_RUNNING, SERVICE_PAUSED}"

definition process_inv :: "svc_process \<Rightarrow> bool" where
  "process_inv p \<longleftrightarrow>
     (\<forall>s \<in> set (reported p). reported_wf s) \<and>
     reported_wf (winexesvcStatus p) \<and>
     reported p \<noteq> [] \<and> last (reported p) = winexesvcStatus p"

lemma handler_inv: "process_inv p \<Longrightarrow> process_inv (winexesvcCtrlHandler op p)"
  by (auto simp: process_inv_def winexesvcCtrlHandler_def SetServiceStatus_def reported_wf_def Let_def)

lemma handler_loops [simp]: "server_loops (winexesvcCtrlHandler op p) = server_loops p"
  by (simp add: winexesvcCtrlHandler_def SetServiceStatus_def Let_def)

lemma fold_handler_inv: "process_inv p \<Longrightarrow> process_inv (fold winexesvcCtrlHandler ops p)"
  by (induction ops arbitrary: p) (auto intro: handler_inv)

lemma start_inv:
  "handle \<noteq> 0 \<Longrightarrow> reported p = [] \<Longrightarrow> process_inv (winexesvcStart handle t se p)"
  by (auto simp: process_inv_def winexesvcStart_def winexesvcInitialization_def SetServiceStatus_def
      reported_wf_def Let_def)

lemma fold_handler_counts:
  "server_loops (fold winexesvcCtrlHandler ops p) = server_loops p"
  "length (reported (fold winexesvcCtrlHandler ops p)) = length (reported p) + length ops"
  by (induction ops arbitrary: p)
     (auto simp: winexesvcCtrlHandler_def SetServiceStatus_def Let_def)

lemma start_counts:
  "handle \<noteq> 0 \<Longrightarrow> length (reported (winexesvcStart handle t se p)) = Suc (length (reported p))"
  "handle \<noteq> 0 \<Longrightarrow> server_loops (winexesvcStart handle t se p) = server_loops p + (if t then 1 else 0)"
  by (auto simp: winexesvcStart_def winexesvcInitialization_def SetServiceStatus_def Let_def)

text \<open>
  Once the control handler is registered, the service reports its status exactly once at
  start and once for each control; whatever controls the manager sends, every reported status
  has the service's type and accepted controls and is one of stopped, running and paused, the
  last one is the service's current status, and one control pipe loop was started unless
  \<open>CreateThread\<close> failed.
\<close>

theorem svc_main_reports:
  assumes "handle \<noteq> 0"
    and "p = svc_main True handle thread_ok specificError opcodes new_process"
  shows "length (reported p) = Suc (length opcodes)
    \<and> (\<forall>s \<in> set (reported p). reported_wf s)
    \<and> last (reported p) = winexesvcStatus p
    \<and> server_loops p = (if thread_ok then 1 else 0)"
proof -
  have "process_inv p"
    using assms by (simp add: svc_main_def fold_handler_inv start_inv new_process_def)
  then show ?thesis
    using assms by (simp add: process_inv_def svc_main_def fold_handler_counts start_counts new_process_def)
qed

theorem svc_main_reports_witness:
  "length (reported (svc_main True 1 True 0 [SERVICE_CONTROL_PAUSE, SERVICE_CONTROL_STOP] new_process)) = 3
   \<and> server_loops (svc_main True 1 True 0 [SERVICE_CONTROL_PAUSE, SERVICE_CONTROL_STOP] new_process) = 1"
  using svc_main_reports [OF _ refl, of 1 True 0 "[SERVICE_CONTROL_PAUSE, SERVICE_CONTROL_STOP]"]
  by simp

end
