(* ===== verification/ScmHost.thy ===== *)
theory ScmHost
  imports SvcMain
begin

text \<open>
  What the client relies on in the remote service manager, as a locale, and a host that
  provides it: a manager with one service slot that runs the model of the service process
  (\<open>winexesvcStart\<close>, \<open>winexesvcCtrlHandler\<close>) when the client starts and stops it. The
  client's calls are then followed to their effect on the host.
\<close>

section \<open>The contract\<close>

locale service_manager =
  fixes env :: "'h svc_env" and running :: "'h \<Rightarrow> bool"
  assumes query_running: "env (QueryServiceStatus h) x = (a, y) \<Longrightarrow> NT_STATUS_IS_OK (an_status a) \<Longrightarrow>
      ss_state (an_service a) = SERVICE_RUNNING \<Longrightarrow> running y"
    and close_quiet: "running x \<Longrightarrow> running (snd (env (CloseServiceHandle h) x))"
    and free_quiet: "running x \<Longrightarrow> running (snd (env Pipe_free x))"
begin

lemma remote_snd_invoke: "remote (snd (invoke env c w)) = snd (env c (remote w))"
  by (simp add: invoke_def split: prod.splits)

lemma install_ok_running:
  assumes "svc_install env lp dbg fuel need_start hostname flags w = Ret st w'" "NT_STATUS_IS_OK st"
  shows "running (remote w')"
proof -
  obtain h scm q v w2 where q: "invoke env (QueryServiceStatus h) v = (q, w2)"
    "NT_STATUS_IS_OK (an_status q)" "ss_state (an_service q) = SERVICE_RUNNING"
    and w': "w' = snd (invoke env Pipe_free (snd (invoke env (CloseServiceHandle scm)
              (snd (invoke env (CloseServiceHandle h) w2)))))"
    using svc_install_ok [OF assms] by blast
  from q have "running (remote w2)"
    by (auto simp: invoke_def split: prod.splits intro: query_running)
  with w' show ?thesis by (simp add: remote_snd_invoke close_quiet free_quiet)
qed

end

section \<open>A host\<close>

record scm_host =
  sc_exists :: bool
  sc_type :: u32
  sc_process :: "svc_process option"
  sc_file :: "service_exe option"
  sc_wow64 :: bool

definition ok_answer :: answer where
  "ok_answer = \<lparr>an_status = NT_STATUS_OK, an_result = WERR_OK, an_handle = 1,
     an_service = zero_status, an_fd = -1\<rparr>"

definition scm_status :: "scm_host \<Rightarrow> SERVICE_STATUS" where
  "scm_status h =
     (case sc_process h of
        None \<Rightarrow> zero_status\<lparr>ss_type := sc_type h, ss_state := SERVICE_STOPPED\<rparr>
      | Some p \<Rightarrow> (winexesvcStatus p)\<lparr>ss_type := sc_type h\<rparr>)"

definition scm_running :: "scm_host \<Rightarrow> bool" where
  "scm_running h \<longleftrightarrow> ss_state (scm_status h) = SERVICE_RUNNING"

text \<open>
  The answers of the host. The Win32 errors: 0x424 the service does not exist, 0x420 it runs
  already, 0x426 it does not run, 2 its program file is missing.
\<close>

fun scm_env :: "scm_host svc_env" where
  "scm_env (OpenServiceW _ _ _) h =
     (if sc_exists h then ok_answer\<lparr>an_handle := 2\<rparr> else ok_answer\<lparr>an_result := 0x424\<rparr>, h)"
| "scm_env (CreateServiceW _ cf) h =
     (ok_answer\<lparr>an_handle := 2\<rparr>, h\<lparr>sc_exists := True, sc_type := cf_type cf, sc_process := None\<rparr>)"
| "scm_env (ChangeServiceConfigW _ cf) h = (ok_answer, h\<lparr>sc_type := cf_type cf\<rparr>)"
| "scm_env (StartServiceW _ _) h =
     (if sc_file h = None then (ok_answer\<lparr>an_result := 2\<rparr>, h)
      else if scm_running h then (ok_answer\<lparr>an_result := 0x420\<rparr>, h)
      else (ok_answer, h\<lparr>sc_process := Some (winexesvcStart 1 True 0 new_process)\<rparr>))"
| "scm_env (ControlService _ opcode) h =
     (case sc_process h of
        None \<Rightarrow> (ok_answer\<lparr>an_result := 0x426\<rparr>, h)
      | Some p \<Rightarrow>
          (let h' = h\<lparr>sc_process := Some (winexesvcCtrlHandler opcode p)\<rparr>
           in (ok_answer\<lparr>an_service := scm_status h'\<rparr>, h')))"
| "scm_env (QueryServiceStatus _) h = (ok_answer\<lparr>an_service := scm_status h\<rparr>, h)"
| "scm_env (DeleteService _) h = (ok_answer, h\<lparr>sc_exists := False, sc_process := None\<rparr>)"
| "scm_env (Smb_open _) h = (if sc_file h = None then ok_answer else ok_answer\<lparr>an_fd := 7\<rparr>, h)"
| "scm_env (Smb_unlink _) h = (ok_answer, h\<lparr>sc_file := None\<rparr>)"
| "scm_env (Smb_chkpath _) h =
     (if sc_wow64 h then ok_answer
      else ok_answer\<lparr>an_status := NT_STATUS_OBJECT_NAME_NOT_FOUND\<rparr>, h)"
| "scm_env (Savefile _ exe) h = (ok_answer, h\<lparr>sc_file := Some exe\<rparr>)"
| "scm_env _ h = (ok_answer, h)"

interpretation scm: service_manager scm_env scm_running
  by unfold_locales (auto simp: scm_running_def)

text \<open>A host on which the service was never installed, and the client's world around it.\<close>

definition fresh_host :: "bool \<Rightarrow> scm_host" where
  "fresh_host wow64 = \<lparr>sc_exists = False, sc_type = 0, sc_process = None, sc_file = None, sc_wow64 = wow64\<rparr>"

definition fresh_world :: "bool \<Rightarrow> scm_host svc_world" where
  "fresh_world wow64 = \<lparr>remote = fresh_host wow64, trace = []\<rparr>"

lemma werror_to_ntstatus_0 [simp]: "werror_to_ntstatus 0 = 0"
  by (simp add: werror_to_ntstatus_def)

lemma werror_service_does_not_exist:
  "werror_to_ntstatus 0x424 = NT_STATUS_SERVICE_DOES_NOT_EXIST"
  by (simp add: werror_to_ntstatus_def ntstatus_to_werror_map_def ntstatus_to_werror_map_1_def
      ntstatus_to_werror_map_2_def ntstatus_to_werror_map_3_def ntstatus_to_werror_map_4_def
      ntstatus_to_werror_map_5_def ntstatus_to_werror_map_6_def ntstatus_to_werror_map_7_def)

lemmas svc_run_defs = svc_install_def svc_open_or_create_def svc_reconfigure_def
  svc_start_and_wait_def svc_UploadService_def svc_call_defs invoke_def NT_RES_def
  NT_STATUS_IS_OK_def NT_STATUS_EQUAL_nt ok_answer_def zero_status_def
  scm_status_def scm_running_def fresh_host_def fresh_world_def
  winexesvcStart_def winexesvcInitialization_def winexesvcCtrlHandler_def SetServiceStatus_def
  new_process_def


section \<open>Runs on the host\<close>

lemma install_fresh_ok:
  "\<exists>w'. svc_install scm_env True False 1 1 ''host'' SVC_OSCHOOSE (fresh_world True) = Ret NT_STATUS_OK w'
     \<and> sc_file (remote w') = Some Winexesvc64"
  by (simp add: svc_run_defs werror_service_does_not_exist)

lemma running_host_uninstall:
  "\<exists>w'. svc_uninstall scm_env False 1 ''host''
      \<lparr>remote = \<lparr>sc_exists = True, sc_type = 0x10, sc_process = Some (winexesvcStart 1 True 0 new_process),
        sc_file = Some Winexesvc32, sc_wow64 = False\<rparr>, trace = []\<rparr> = Ret NT_STATUS_OK w'
     \<and> \<not> sc_exists (remote w')"
  by (simp add: svc_uninstall_def svc_stop_and_delete_def svc_uninstall_tail_def svc_run_defs)

theorem svc_install_running_witness:
  "\<exists>w' pre h scm q a b c.
     svc_install scm_env True False 1 1 ''host'' SVC_OSCHOOSE (fresh_world True) = Ret NT_STATUS_OK w'
     \<and> trace w' = pre @ [(QueryServiceStatus h, q), (CloseServiceHandle h, a),
          (CloseServiceHandle scm, b), (Pipe_free, c)]
     \<and> ss_state (an_service q) = SERVICE_RUNNING \<and> handle_log pre = [Opened scm, Opened h]"
proof -
  from install_fresh_ok obtain w' where
    "svc_install scm_env True False 1 1 ''host'' SVC_OSCHOOSE (fresh_world True) = Ret NT_STATUS_OK w'"
    by blast
  with svc_install_running [OF this] show ?thesis
    by (fastforce simp: NT_STATUS_IS_OK_def fresh_world_def)
qed

theorem svc_uninstall_delete_guarded_witness:
  "\<exists>w'. svc_uninstall scm_env False 1 ''host''
      \<lparr>remote = \<lparr>sc_exists = True, sc_type = 0x10, sc_process = Some (winexesvcStart 1 True 0 new_process),
        sc_file = Some Winexesvc32, sc_wow64 = False\<rparr>, trace = []\<rparr> = Ret NT_STATUS_OK w'
     \<and> delete_guarded None (trace w')"
proof -
  from running_host_uninstall obtain w' where
    "svc_uninstall scm_env False 1 ''host''
      \<lparr>remote = \<lparr>sc_exists = True, sc_type = 0x10, sc_process = Some (winexesvcStart 1 True 0 new_process),
        sc_file = Some Winexesvc32, sc_wow64 = False\<rparr>, trace = []\<rparr> = Ret NT_STATUS_OK w'"
    by blast
  with svc_uninstall_delete_guarded [OF this] show ?thesis by auto
qed

text \<open>
  The variable \<open>need_start\<close> of \<open>svc_install\<close> is read without having been set when the
  service is created with an interactive mode asked for (the call in \<open>main\<close>): on a host that
  never had the service, the value the variable happens to have decides whether the service
  is started and the call succeeds.
\<close>

theorem svc_install_need_start_uninitialised:
  "(\<exists>w'. svc_install scm_env True False 1 0 ''host'' (SVC_INTERACTIVE OR SVC_OSCHOOSE) (fresh_world b)
       = Ret NT_STATUS_UNSUCCESSFUL w' \<and> \<not> scm_running (remote w'))
   \<and> (\<exists>w'. svc_install scm_env True False 1 1 ''host'' (SVC_INTERACTIVE OR SVC_OSCHOOSE) (fresh_world b)
       = Ret NT_STATUS_OK w' \<and> scm_running (remote w'))"
  by (cases b) (simp_all add: svc_run_defs werror_service_does_not_exist)

end
