(* ===== verification/CString.thy ===== *)
theory CString
  imports WxPrelude
begin

text \<open>
  The parts of the C library the sources use on strings: character classes,
  \<open>strchr\<close>, the prefix test \<open>strstr(s, p) == s\<close>, \<open>strtoul\<close> and
  \<open>strtol\<close> (with 64-bit \<open>long\<close>, as on the client's platform), \<open>atoi\<close>, and the
  conversions \<open>%u\<close>, \<open>%d\<close> and \<open>%0nX\<close> of \<open>printf\<close>. A C string is the list of its
  characters before the terminating NUL; the end of a list is where the NUL stands.
\<close>

section \<open>Strings\<close>

definition cstr :: "string \<Rightarrow> string" where
  "cstr s = takeWhile (\<lambda>c. c \<noteq> CHR 0x00) s"

text \<open>\<open>char_at s i\<close> is \<open>s[i]\<close> for an index up to the NUL.\<close>

definition char_at :: "string \<Rightarrow> nat \<Rightarrow> char" where
  "char_at s i = (if i < length s then s ! i else CHR 0x00)"

fun strchr :: "string \<Rightarrow> char \<Rightarrow> string option" where
  "strchr [] c = None"
| "strchr (x # xs) c = (if x = c then Some (x # xs) else strchr xs c)"

fun has_prefix :: "string \<Rightarrow> string \<Rightarrow> bool" where
  "has_prefix s [] = True"
| "has_prefix [] (p # ps) = False"
| "has_prefix (c # cs) (p # ps) = (c = p \<and> has_prefix cs ps)"

lemma has_prefix_iff: "has_prefix s p \<longleftrightarrow> (\<exists>r. s = p @ r)"
  by (induction s p rule: has_prefix.induct) auto

lemma has_prefix_append [simp]: "has_prefix (p @ r) p"
  by (auto simp: has_prefix_iff)

lemma strchr_Some_split:
  "strchr s c = Some t \<Longrightarrow> \<exists>p r. s = p @ c # r \<and> t = c # r \<and> c \<notin> set p"
proof (induction s arbitrary: t)
  case Nil
  then show ?case by simp
next
  case (Cons x xs)
  show ?case
  proof (cases "x = c")
    case True
    with Cons.prems show ?thesis by (auto intro: exI [of _ "[]"])
  next
    case False
    with Cons.prems Cons.IH [of t] obtain p r where pr: "xs = p @ c # r" "t = c # r" "c \<notin> set p"
      by auto
    with False have "x # xs = (x # p) @ c # r \<and> t = c # r \<and> c \<notin> set (x # p)" by simp
    then show ?thesis by blast
  qed
qed

lemma strchr_append: "c \<notin> set p \<Longrightarrow> strchr (p @ c # r) c = Some (c # r)"
  by (induction p) auto

lemma strchr_None: "strchr s c = None \<longleftrightarrow> c \<notin> set s"
  by (induction s) auto

section \<open>Digits\<close>

text \<open>The value of a digit or letter, as the number parsers read it.\<close>

definition digit_of :: "char \<Rightarrow> nat option" where
  "digit_of ch =
     (let c = of_char ch :: nat in
      if 48 \<le> c \<and> c \<le> 57 then Some (c - 48)
      else if 65 \<le> c \<and> c \<le> 90 then Some (c - 55)
      else if 97 \<le> c \<and> c \<le> 122 then Some (c - 87)
      else None)"

definition digit_in :: "nat \<Rightarrow> char \<Rightarrow> nat option" where
  "digit_in b c =
     (case digit_of c of None \<Rightarrow> None | Some d \<Rightarrow> if d < b then Some d else None)"

text \<open>The digit \<open>printf\<close> writes for \<open>%u\<close>, \<open>%d\<close> and \<open>%X\<close>.\<close>

definition digit_char :: "nat \<Rightarrow> char" where
  "digit_char d = (if d < 10 then char_of (48 + d) else char_of (55 + d))"

lemma digit_char_0: "digit_char 0 = CHR ''0''"
  by code_simp

lemma digit_of_digit_char: "d < 36 \<Longrightarrow> digit_of (digit_char d) = Some d"
  by (simp add: digit_of_def digit_char_def)

lemma digit_in_digit_char [simp]: "d < b \<Longrightarrow> b \<le> 36 \<Longrightarrow> digit_in b (digit_char d) = Some d"
  by (simp add: digit_in_def digit_of_digit_char)

text \<open>\<open>scan b acc s\<close>: the digits of base \<open>b\<close> at the front of \<open>s\<close>, and what follows them.\<close>

fun scan :: "nat \<Rightarrow> nat \<Rightarrow> string \<Rightarrow> nat \<times> string" where
  "scan b acc [] = (acc, [])"
| "scan b acc (c # cs) =
     (case digit_in b c of
        None \<Rightarrow> (acc, c # cs)
      | Some d \<Rightarrow> scan b (acc * b + d) cs)"

section \<open>Printing numbers\<close>

function show_base :: "nat \<Rightarrow> nat \<Rightarrow> string" where
  "show_base b n =
     (if b < 2 \<or> n < b then [digit_char n] else show_base b (n div b) @ [digit_char (n mod b)])"
  by pat_completeness auto
termination
  by (relation "measure snd") (auto intro: div_less_dividend)

declare show_base.simps [simp del]

text \<open>\<open>%u\<close> and \<open>%d\<close> of a value that is not negative; \<open>%d\<close> of any; \<open>%0wX\<close>.\<close>

definition fmt_u :: "nat \<Rightarrow> string" where
  "fmt_u n = show_base 10 n"

definition fmt_d :: "int \<Rightarrow> string" where
  "fmt_d i = (if i < 0 then CHR ''-'' # fmt_u (nat (- i)) else fmt_u (nat i))"

definition fmt_X :: "nat \<Rightarrow> nat \<Rightarrow> string" where
  "fmt_X w n = (let s = show_base 16 n in replicate (w - length s) (CHR ''0'') @ s)"

lemma show_base_small: "n < b \<Longrightarrow> show_base b n = [digit_char n]"
  by (subst show_base.simps) simp

lemma show_base_step:
  "2 \<le> b \<Longrightarrow> \<not> n < b \<Longrightarrow> show_base b n = show_base b (n div b) @ [digit_char (n mod b)]"
  by (subst show_base.simps) simp

lemma show_base_digits:
  assumes "2 \<le> b" "b \<le> 36" "c \<in> set (show_base b n)"
  shows "\<exists>d < b. c = digit_char d"
  using assms
proof (induction b n rule: show_base.induct)
  case (1 b n)
  show ?case
  proof (cases "n < b")
    case True
    with 1 show ?thesis by (auto simp: show_base_small)
  next
    case False
    with 1 have "c \<in> set (show_base b (n div b)) \<or> c = digit_char (n mod b)"
      by (auto simp: show_base_step)
    then show ?thesis
    proof
      assume "c \<in> set (show_base b (n div b))"
      with 1 False show ?thesis by simp
    next
      assume "c = digit_char (n mod b)"
      moreover have "n mod b < b" using 1 by simp
      ultimately show ?thesis by blast
    qed
  qed
qed

lemma show_base_nonempty [simp]: "show_base b n \<noteq> []"
  by (subst show_base.simps) auto

text \<open>Scanning a printed number gives the number back.\<close>

lemma scan_append_digit:
  "d < b \<Longrightarrow> b \<le> 36 \<Longrightarrow> scan b acc (digit_char d # s) = scan b (acc * b + d) s"
  by simp

lemma scan_show_base_aux:
  assumes "2 \<le> b" "b \<le> 36"
  shows "scan b acc (show_base b n @ s) = scan b (acc * b ^ length (show_base b n) + n) s"
  using assms
proof (induction b n arbitrary: acc s rule: show_base.induct)
  case (1 b n)
  show ?case
  proof (cases "n < b")
    case True
    with 1 show ?thesis by (simp add: show_base_small)
  next
    case False
    with 1 have eq: "show_base b n = show_base b (n div b) @ [digit_char (n mod b)]"
      by (simp add: show_base_step)
    have "scan b acc (show_base b n @ s)
        = scan b (acc * b ^ length (show_base b (n div b)) + n div b) (digit_char (n mod b) # s)"
      using 1 False by (simp add: eq)
    also have "\<dots> = scan b ((acc * b ^ length (show_base b (n div b)) + n div b) * b + n mod b) s"
      using 1 by (subst scan_append_digit) auto
    also have "(acc * b ^ length (show_base b (n div b)) + n div b) * b + n mod b
        = acc * b ^ length (show_base b n) + n"
      by (simp add: eq algebra_simps)
    finally show ?thesis .
  qed
qed

lemma scan_stop: "(s = [] \<or> digit_in b (hd s) = None) \<Longrightarrow> scan b acc s = (acc, s)"
  by (cases s) auto

lemma scan_show_base:
  "2 \<le> b \<Longrightarrow> b \<le> 36 \<Longrightarrow> s = [] \<or> digit_in b (hd s) = None \<Longrightarrow>
   scan b 0 (show_base b n @ s) = (n, s)"
  by (simp add: scan_show_base_aux scan_stop)

lemma scan_zeros:
  "2 \<le> b \<Longrightarrow> scan b 0 (replicate k (CHR ''0'') @ s) = scan b 0 s"
  by (induction k) (auto simp: digit_in_def digit_of_def)

lemma scan_fmt_X:
  "s = [] \<or> digit_in 16 (hd s) = None \<Longrightarrow> scan 16 0 (fmt_X w n @ s) = (n, s)"
  by (simp add: fmt_X_def Let_def scan_zeros scan_show_base)

section \<open>Parsing numbers\<close>

definition isspace :: "char \<Rightarrow> bool" where
  "isspace ch = (let c = of_char ch :: nat in c = 32 \<or> (9 \<le> c \<and> c \<le> 13))"

text \<open>The optional sign: True for a minus.\<close>

definition scan_sign :: "string \<Rightarrow> bool \<times> string" where
  "scan_sign s =
     (case s of
        [] \<Rightarrow> (False, s)
      | c # cs \<Rightarrow> if c = CHR ''-'' then (True, cs)
                  else if c = CHR ''+'' then (False, cs) else (False, s))"

text \<open>
  The base a number is read in, and the string after a prefix \<open>0x\<close>: base 0 asks the
  parser to decide by the prefix, base 16 allows it. The prefix counts only when a
  hexadecimal digit follows it.
\<close>

definition hex_prefix :: "string \<Rightarrow> bool" where
  "hex_prefix s =
     (case s of
        a # x # d # _ \<Rightarrow> a = CHR ''0'' \<and> (x = CHR ''x'' \<or> x = CHR ''X'') \<and> digit_in 16 d \<noteq> None
      | _ \<Rightarrow> False)"

definition scan_base :: "nat \<Rightarrow> string \<Rightarrow> nat \<times> string" where
  "scan_base b s =
     (if (b = 0 \<or> b = 16) \<and> hex_prefix s then (16, drop 2 s)
      else if b = 0 then (if s \<noteq> [] \<and> hd s = CHR ''0'' then 8 else 10, s)
      else (b, s))"

text \<open>
  The parser both \<open>strtoul\<close> and \<open>strtol\<close> share: sign, magnitude and rest, or None when
  there is no digit.
\<close>

definition parse_number :: "nat \<Rightarrow> string \<Rightarrow> (bool \<times> nat \<times> string) option" where
  "parse_number b s =
     (let (neg, s2) = scan_sign (dropWhile isspace s);
          (b', s3) = scan_base b s2;
          (n, rest) = scan b' 0 s3
      in if s3 = [] \<or> digit_in b' (hd s3) = None then None else Some (neg, n, rest))"

definition strtoul :: "nat \<Rightarrow> string \<Rightarrow> u64 \<times> string" where
  "strtoul b s =
     (case parse_number b s of
        None \<Rightarrow> (0, s)
      | Some (neg, n, rest) \<Rightarrow>
          (if 2 ^ 64 \<le> n then - 1 else if neg then - of_nat n else of_nat n, rest))"

definition strtol :: "nat \<Rightarrow> string \<Rightarrow> u64 \<times> string" where
  "strtol b s =
     (case parse_number b s of
        None \<Rightarrow> (0, s)
      | Some (neg, n, rest) \<Rightarrow>
          (if neg then (if 2 ^ 63 < n then of_nat (2 ^ 63) else - of_nat n)
           else (if 2 ^ 63 \<le> n then of_nat (2 ^ 63 - 1) else of_nat n), rest))"

text \<open>\<open>atoi\<close> of the service's platform, where \<open>long\<close> has 32 bits.\<close>

definition atoi :: "string \<Rightarrow> int" where
  "atoi s =
     (case parse_number 10 s of
        None \<Rightarrow> 0
      | Some (neg, n, _) \<Rightarrow>
          if neg then max (- (2 ^ 31)) (- int n) else min (2 ^ 31 - 1) (int n))"

lemma digit_char_not_space: "d < 36 \<Longrightarrow> \<not> isspace (digit_char d)"
  by (auto simp: isspace_def digit_char_def Let_def)

lemma digit_char_not_sign: "d < 36 \<Longrightarrow> digit_char d \<noteq> CHR ''-'' \<and> digit_char d \<noteq> CHR ''+''"
proof -
  assume "d < 36"
  then have "digit_of (digit_char d) \<noteq> None" by (simp add: digit_of_digit_char)
  then show ?thesis by (auto simp: digit_of_def)
qed

text \<open>A printed number, followed by no digit or letter, is read back as itself.\<close>

abbreviation number_ends :: "string \<Rightarrow> bool" where
  "number_ends s \<equiv> s = [] \<or> digit_of (hd s) = None"

lemma number_ends_stop: "number_ends s \<Longrightarrow> s = [] \<or> digit_in b (hd s) = None"
  by (auto simp: digit_in_def)

lemma hd_show_base:
  "2 \<le> b \<Longrightarrow> b \<le> 36 \<Longrightarrow> \<exists>d < b. hd (show_base b n) = digit_char d"
  using show_base_digits hd_in_set show_base_nonempty by blast

lemma fmt_X_digits: "c \<in> set (fmt_X w n) \<Longrightarrow> \<exists>d < 16. c = digit_char d"
proof -
  assume "c \<in> set (fmt_X w n)"
  then have "c = digit_char 0 \<or> c \<in> set (show_base 16 n)"
    by (auto simp: fmt_X_def Let_def digit_char_0)
  then show ?thesis using show_base_digits [of 16 c n] by (auto intro: exI [of _ 0])
qed

lemma fmt_X_nonempty [simp]: "fmt_X w n \<noteq> []"
  by (simp add: fmt_X_def Let_def)

lemma fmt_u_digits: "c \<in> set (fmt_u n) \<Longrightarrow> \<exists>d < 10. c = digit_char d"
  using show_base_digits [of 10 c n] by (auto simp: fmt_u_def)

lemma parse_number_plain:
  assumes "s \<noteq> []" "hd s = digit_char d" "d < b" "b \<le> 36" "scan_base b0 s = (b, s)"
  shows "parse_number b0 s = (case scan b 0 s of (n, rest) \<Rightarrow> Some (False, n, rest))"
proof -
  have "dropWhile isspace s = s"
    using assms by (intro dropWhile_hd_stop) (simp add: digit_char_not_space)
  moreover have "scan_sign s = (False, s)"
    using assms digit_char_not_sign [of d] by (cases s) (auto simp: scan_sign_def)
  ultimately show ?thesis
    using assms by (simp add: parse_number_def split: prod.splits)
qed

lemma digit_char_not_x: "d < 16 \<Longrightarrow> digit_char d \<noteq> CHR ''x'' \<and> digit_char d \<noteq> CHR ''X''"
proof -
  assume "d < 16"
  then have "digit_in 16 (digit_char d) \<noteq> None" by simp
  then show ?thesis by (auto simp: digit_in_def digit_of_def)
qed

lemma hex_prefix_digits:
  assumes "\<forall>c \<in> set s. \<exists>d < 16. c = digit_char d" "number_ends r"
  shows "\<not> hex_prefix (s @ r)"
proof
  assume "hex_prefix (s @ r)"
  then obtain x d t where eq: "s @ r = CHR ''0'' # x # d # t" and x: "x = CHR ''x'' \<or> x = CHR ''X''"
    by (auto simp: hex_prefix_def split: list.splits)
  have "x \<notin> set s" using assms(1) x digit_char_not_x by metis
  with eq have "\<exists>r'. r = x # r' \<or> r = CHR ''0'' # x # r'"
    by (cases s; cases "tl s") (auto simp: Cons_eq_append_conv)
  with assms(2) x show False by (auto simp: digit_of_def)
qed

lemma parse_number_fmt_X:
  assumes "number_ends r"
  shows "parse_number 16 (fmt_X w n @ r) = Some (False, n, r)"
proof -
  obtain d where d: "d < 16" "hd (fmt_X w n) = digit_char d"
    using fmt_X_digits hd_in_set fmt_X_nonempty by metis
  have "\<not> hex_prefix (fmt_X w n @ r)"
    using assms by (intro hex_prefix_digits) (auto dest: fmt_X_digits)
  then have "scan_base 16 (fmt_X w n @ r) = (16, fmt_X w n @ r)" by (simp add: scan_base_def)
  with d have "parse_number 16 (fmt_X w n @ r)
      = (case scan 16 0 (fmt_X w n @ r) of (m, rest) \<Rightarrow> Some (False, m, rest))"
    by (intro parse_number_plain) auto
  with assms show ?thesis by (simp add: scan_fmt_X number_ends_stop)
qed

lemma parse_number_0x_fmt_X:
  assumes "number_ends r"
  shows "parse_number 0 (''0x'' @ fmt_X w n @ r) = Some (False, n, r)"
proof -
  obtain d t where d: "d < 16" "fmt_X w n = digit_char d # t"
    using fmt_X_digits list.set_sel(1) fmt_X_nonempty list.exhaust_sel by metis
  then have "hex_prefix (''0x'' @ fmt_X w n @ r)" by (simp add: hex_prefix_def)
  moreover have "dropWhile isspace (''0x'' @ fmt_X w n @ r) = ''0x'' @ fmt_X w n @ r"
    by (simp add: isspace_def)
  moreover have "scan_sign (''0x'' @ fmt_X w n @ r) = (False, ''0x'' @ fmt_X w n @ r)"
    by (simp add: scan_sign_def)
  moreover have "scan 16 0 (fmt_X w n @ r) = (n, r)"
    using assms by (simp add: scan_fmt_X number_ends_stop)
  ultimately show ?thesis
    using d by (simp add: parse_number_def scan_base_def)
qed

lemma parse_number_fmt_u:
  assumes "number_ends r"
  shows "parse_number 10 (fmt_u n @ r) = Some (False, n, r)"
proof -
  obtain d where d: "d < 10" "hd (fmt_u n) = digit_char d"
    using hd_show_base [of 10 n] by (auto simp: fmt_u_def)
  then have "parse_number 10 (fmt_u n @ r)
      = (case scan 10 0 (fmt_u n @ r) of (m, rest) \<Rightarrow> Some (False, m, rest))"
    by (intro parse_number_plain) (auto simp: fmt_u_def scan_base_def)
  with assms show ?thesis by (simp add: fmt_u_def scan_show_base number_ends_stop)
qed

lemma strtoul_fmt_X [simp]:
  "number_ends r \<Longrightarrow> n < 2 ^ 64 \<Longrightarrow> strtoul 16 (fmt_X w n @ r) = (of_nat n, r)"
  by (simp add: strtoul_def parse_number_fmt_X)

lemma strtoul_0x_fmt_X:
  "number_ends r \<Longrightarrow> n < 2 ^ 64 \<Longrightarrow> strtoul 0 (''0x'' @ fmt_X w n @ r) = (of_nat n, r)"
  by (simp only: strtoul_def parse_number_0x_fmt_X) simp

lemma strtoul_fmt_u [simp]:
  "number_ends r \<Longrightarrow> n < 2 ^ 64 \<Longrightarrow> strtoul 10 (fmt_u n @ r) = (of_nat n, r)"
  by (simp add: strtoul_def parse_number_fmt_u)

lemma strtol_fmt_u [simp]:
  "number_ends r \<Longrightarrow> n < 2 ^ 63 \<Longrightarrow> strtol 10 (fmt_u n @ r) = (of_nat n, r)"
  by (simp add: strtol_def parse_number_fmt_u)

text \<open>Printed numbers tell their values apart.\<close>

lemma fmt_X_inj: "fmt_X w n = fmt_X w m \<Longrightarrow> n = m"
  using parse_number_fmt_X [of "[]" w n] parse_number_fmt_X [of "[]" w m] by simp

lemma fmt_u_inj: "fmt_u n = fmt_u m \<Longrightarrow> n = m"
  using parse_number_fmt_u [of "[]" n] parse_number_fmt_u [of "[]" m] by simp

end
