(* ===== verification/AsyncPipe.thy ===== *)
theory AsyncPipe
  imports CString NtError
begin

text \<open>
  The asynchronous pipe layer of the client, \<open>winexe/async.c\<close>, and its types from
  \<open>winexe/winexe.h\<close>.

  An \<open>async_context\<close> lives in a store of contexts, since the code frees it and keeps
  pointers to it; using a freed context, or a NULL parameter block, is the result
  \<open>Undef\<close>. The write queue is a linked list in a heap. The transport (\<open>libcli/raw\<close>)
  keeps the requests it has sent and the ones that have no reply yet; whether an allocation
  or a send succeeds is decided by the environment \<open>aenv\<close>, asked at the current value of
  a clock that ticks with every attempt. The callbacks of a context are names of the
  client's functions, and the argument \<open>call\<close> of the operations runs them.
\<close>

section \<open>The write queue\<close>

type_synonym addr = nat

record list_item =
  li_next :: "addr option"
  li_size :: nat
  li_data :: string

record item_list =
  l_begin :: "addr option"
  l_end :: "addr option"

type_synonym heap = "addr \<rightharpoonup> list_item"

text \<open>\<open>mem\<close> is the block the allocator returns; the code copies into it without a test.\<close>

definition list_enqueue ::
    "addr option \<Rightarrow> string \<Rightarrow> nat \<Rightarrow> heap \<times> item_list \<Rightarrow> (heap \<times> item_list) option" where
  "list_enqueue mem data sz hl =
     (let (h, l) = hl in
      case mem of
        None \<Rightarrow> None
      | Some li \<Rightarrow>
          (let h1 = h(li \<mapsto> \<lparr>li_next = None, li_size = sz, li_data = take sz data\<rparr>) in
           case l_end l of
             Some e \<Rightarrow>
               (case h1 e of
                  None \<Rightarrow> None
                | Some it \<Rightarrow> Some (h1(e \<mapsto> it\<lparr>li_next := Some li\<rparr>), l\<lparr>l_end := Some li\<rparr>))
           | None \<Rightarrow> Some (h1, l\<lparr>l_begin := Some li, l_end := Some li\<rparr>)))"

definition list_dequeue :: "heap \<times> item_list \<Rightarrow> (heap \<times> item_list) option" where
  "list_dequeue hl =
     (let (h, l) = hl in
      case l_begin l of
        None \<Rightarrow> Some (h, l)
      | Some a \<Rightarrow>
          (case h a of
             None \<Rightarrow> None
           | Some li \<Rightarrow>
               (let b = li_next li in
                Some (h(a := None), \<lparr>l_begin = b, l_end = (if b = None then None else l_end l)\<rparr>))))"

text \<open>The element at the front, as \<open>async_write_recv\<close> reads it.\<close>

definition list_front :: "heap \<times> item_list \<Rightarrow> string option" where
  "list_front hl =
     (let (h, l) = hl in
      case l_begin l of None \<Rightarrow> None | Some a \<Rightarrow> map_option li_data (h a))"

text \<open>
  What the queue promises its clients, as a refinement of a list: \<open>rel q xs\<close> says that
  \<open>q\<close> holds the elements \<open>xs\<close>, \<open>fresh m q\<close> that the block \<open>m\<close> is not in use.
\<close>

fun enq_all :: "('m \<Rightarrow> 'a \<Rightarrow> 'q \<Rightarrow> 'q option) \<Rightarrow> ('m \<times> 'a) list \<Rightarrow> 'q \<Rightarrow> 'q option" where
  "enq_all enq [] q = Some q"
| "enq_all enq ((m, x) # ps) q =
     (case enq m x q of None \<Rightarrow> None | Some q' \<Rightarrow> enq_all enq ps q')"

fun drain :: "('q \<Rightarrow> 'q option) \<Rightarrow> ('q \<Rightarrow> 'a option) \<Rightarrow> nat \<Rightarrow> 'q \<Rightarrow> ('a list \<times> 'q) option" where
  "drain deq front 0 q = Some ([], q)"
| "drain deq front (Suc n) q =
     (case front q of
        None \<Rightarrow> None
      | Some x \<Rightarrow>
          (case deq q of
             None \<Rightarrow> None
           | Some q' \<Rightarrow>
               (case drain deq front n q' of
                  None \<Rightarrow> None
                | Some (xs, r) \<Rightarrow> Some (x # xs, r))))"

locale fifo =
  fixes rel :: "'q \<Rightarrow> 'a list \<Rightarrow> bool"
    and fresh :: "'m \<Rightarrow> 'q \<Rightarrow> bool"
    and enq :: "'m \<Rightarrow> 'a \<Rightarrow> 'q \<Rightarrow> 'q option"
    and deq :: "'q \<Rightarrow> 'q option"
    and front :: "'q \<Rightarrow> 'a option"
  assumes enq_rel: "rel q xs \<Longrightarrow> fresh m q \<Longrightarrow> \<exists>q'. enq m x q = Some q' \<and> rel q' (xs @ [x])"
    and enq_fresh: "rel q xs \<Longrightarrow> fresh m q \<Longrightarrow> fresh m' q \<Longrightarrow> m \<noteq> m' \<Longrightarrow>
      enq m x q = Some q' \<Longrightarrow> fresh m' q'"
    and deq_rel: "rel q xs \<Longrightarrow> \<exists>q'. deq q = Some q' \<and> rel q' (tl xs)"
    and front_rel: "rel q xs \<Longrightarrow> front q = (if xs = [] then None else Some (hd xs))"
begin

lemma enq_all_rel:
  assumes "rel q xs" "distinct (map fst ps)" "\<forall>p \<in> set ps. fresh (fst p) q"
  shows "\<exists>q'. enq_all enq ps q = Some q' \<and> rel q' (xs @ map snd ps)"
  using assms
proof (induction ps arbitrary: q xs)
  case Nil
  then show ?case by simp
next
  case (Cons p ps)
  obtain m x where p: "p = (m, x)" by force
  from Cons.prems p obtain q1 where q1: "enq m x q = Some q1" "rel q1 (xs @ [x])"
    using enq_rel by fastforce
  have "\<forall>p \<in> set ps. fresh (fst p) q1"
    using Cons.prems p q1(1) by (force intro: enq_fresh)
  with Cons.IH [OF q1(2)] Cons.prems(2) p q1(1) show ?case by auto
qed

lemma drain_rel:
  "rel q xs \<Longrightarrow> n \<le> length xs \<Longrightarrow>
   \<exists>q'. drain deq front n q = Some (take n xs, q') \<and> rel q' (drop n xs)"
proof (induction n arbitrary: q xs)
  case 0
  then show ?case by simp
next
  case (Suc n)
  then obtain x ys where xs: "xs = x # ys" by (cases xs) auto
  with Suc.prems obtain q1 where "deq q = Some q1" "rel q1 ys" "front q = Some x"
    using deq_rel [of q xs] front_rel [of q xs] by auto
  with Suc.IH [of q1 ys] Suc.prems(2) xs show ?case by auto
qed

text \<open>First in, first out: draining after a run of enqueues gives the elements in order.\<close>

lemma fifo_order:
  assumes "rel q []" "distinct (map fst ps)" "\<forall>p \<in> set ps. fresh (fst p) q"
  shows "\<exists>q1 q2. enq_all enq ps q = Some q1 \<and>
     drain deq front (length ps) q1 = Some (map snd ps, q2) \<and> rel q2 []"
proof -
  obtain q1 where q1: "enq_all enq ps q = Some q1" "rel q1 (map snd ps)"
    using enq_all_rel [OF assms] by auto
  with drain_rel [OF q1(2), of "length ps"] show ?thesis by auto
qed

end

text \<open>The linked list: the nodes from \<open>p\<close> on are \<open>as\<close> and hold \<open>ds\<close>.\<close>

fun lseg :: "heap \<Rightarrow> addr option \<Rightarrow> addr list \<Rightarrow> string list \<Rightarrow> bool" where
  "lseg h p [] [] = (p = None)"
| "lseg h p (a # as) (d # ds) =
     (p = Some a \<and> (case h a of
        None \<Rightarrow> False
      | Some it \<Rightarrow> li_data it = d \<and> li_size it = length d \<and> lseg h (li_next it) as ds))"
| "lseg h p _ _ = False"

definition wq_rel :: "heap \<times> item_list \<Rightarrow> string list \<Rightarrow> bool" where
  "wq_rel hl ds =
     (\<exists>as. lseg (fst hl) (l_begin (snd hl)) as ds \<and> distinct as \<and>
        l_end (snd hl) = (if as = [] then None else Some (last as)))"

definition wq_fresh :: "addr \<Rightarrow> heap \<times> item_list \<Rightarrow> bool" where
  "wq_fresh a hl = (fst hl a = None)"

definition wq_enq :: "addr \<Rightarrow> string \<Rightarrow> heap \<times> item_list \<Rightarrow> (heap \<times> item_list) option" where
  "wq_enq a d hl = list_enqueue (Some a) d (length d) hl"

lemma lseg_length: "lseg h p as ds \<Longrightarrow> length as = length ds"
  by (induction h p as ds rule: lseg.induct) (auto split: option.splits)

lemma lseg_dom: "lseg h p as ds \<Longrightarrow> a \<in> set as \<Longrightarrow> h a \<noteq> None"
  by (induction h p as ds rule: lseg.induct) (auto split: option.splits)

lemma lseg_upd: "a \<notin> set as \<Longrightarrow> lseg (h(a := v)) p as ds = lseg h p as ds"
  by (induction h p as ds rule: lseg.induct) (auto split: option.splits)

lemma lseg_snoc:
  assumes "lseg h p as ds" "distinct as" "as \<noteq> []" "h (last as) = Some it"
    and "a \<notin> set as" "h a = Some \<lparr>li_next = None, li_size = length d, li_data = d\<rparr>"
  shows "lseg (h(last as \<mapsto> it\<lparr>li_next := Some a\<rparr>)) p (as @ [a]) (ds @ [d])"
  using assms
proof (induction as arbitrary: p ds)
  case Nil
  then show ?case by simp
next
  case (Cons b bs)
  then obtain e es itb where ds: "ds = e # es" and b: "p = Some b" "h b = Some itb"
    "li_data itb = e" "li_size itb = length e" "lseg h (li_next itb) bs es"
    by (cases ds) (auto split: option.splits)
  show ?case
  proof (cases "bs = []")
    case True
    with Cons.prems ds b show ?thesis
      by (cases es) auto
  next
    case False
    with Cons.IH [OF b(5)] Cons.prems ds b show ?thesis by auto
  qed
qed

interpretation wq_fifo: fifo wq_rel wq_fresh wq_enq list_dequeue list_front
proof (unfold_locales, goal_cases)
  case (1 q xs m x)
  obtain h l where q: "q = (h, l)" by force
  from 1 q obtain as where as: "lseg h (l_begin l) as xs" "distinct as"
    "l_end l = (if as = [] then None else Some (last as))" and fr: "h m = None"
    by (auto simp: wq_rel_def wq_fresh_def)
  have m: "m \<notin> set as" using lseg_dom [OF as(1)] fr by blast
  let ?it = "\<lparr>li_next = None, li_size = length x, li_data = x\<rparr>"
  show ?case
  proof (cases "as = []")
    case True
    with as have "xs = []" using lseg_length by fastforce
    with True as q show ?thesis
      by (auto simp: wq_enq_def list_enqueue_def wq_rel_def intro!: exI [of _ "[m]"])
  next
    case False
    then have la: "last as \<in> set as" by simp
    with lseg_dom [OF as(1)] obtain it where it: "h (last as) = Some it" by blast
    have seg: "lseg (h(m \<mapsto> ?it)) (l_begin l) as xs" using as(1) m by (simp add: lseg_upd)
    have "lseg ((h(m \<mapsto> ?it))(last as \<mapsto> it\<lparr>li_next := Some m\<rparr>)) (l_begin l) (as @ [m]) (xs @ [x])"
      using seg as(2) False m la it by (intro lseg_snoc) auto
    with False as q m la it show ?thesis
      by (auto simp: wq_enq_def list_enqueue_def wq_rel_def intro!: exI [of _ "as @ [m]"])
  qed
next
  case (2 q xs m m' x q')
  then show ?case
    by (cases q)
       (auto simp: wq_enq_def list_enqueue_def wq_fresh_def Let_def split: option.splits if_splits)
next
  case (3 q xs)
  obtain h l where q: "q = (h, l)" by force
  with 3 obtain as where as: "lseg h (l_begin l) as xs" "distinct as"
    "l_end l = (if as = [] then None else Some (last as))" by (auto simp: wq_rel_def)
  show ?case
  proof (cases as)
    case Nil
    with as q show ?thesis
      by (cases xs) (auto simp: list_dequeue_def wq_rel_def intro!: exI [of _ "[]"])
  next
    case (Cons a as')
    with as obtain d ds it where ds: "xs = d # ds" "l_begin l = Some a" "h a = Some it"
      "lseg h (li_next it) as' ds" by (cases xs) (auto split: option.splits)
    with as Cons have "lseg (h(a := None)) (li_next it) as' ds" by (simp add: lseg_upd)
    moreover have "li_next it = None \<longleftrightarrow> as' = []"
      using ds(4) by (cases as'; cases ds) auto
    ultimately show ?thesis
      using as Cons ds q by (auto simp: list_dequeue_def wq_rel_def intro!: exI [of _ as'])
  qed
next
  case (4 q xs)
  then show ?case
    by (cases q; cases xs)
       (auto simp: wq_rel_def list_front_def neq_Nil_conv split: option.splits elim!: lseg.elims)
qed

section \<open>Requests and contexts\<close>

datatype async_func = ASYNC_OPEN | ASYNC_OPEN_RECV | ASYNC_READ | ASYNC_READ_RECV
  | ASYNC_WRITE | ASYNC_WRITE_RECV | ASYNC_CLOSE | ASYNC_CLOSE_RECV

type_synonym ctxid = nat

record smb_openx =
  ox_flags :: u16
  ox_open_mode :: u16
  ox_search_attrs :: u16
  ox_file_attrs :: u16
  ox_write_time :: nat
  ox_open_func :: u16
  ox_size :: u32
  ox_timeout :: u32
  ox_fname :: string

record smb_readx =
  rx_fnum :: u16
  rx_offset :: u64
  rx_mincnt :: u16
  rx_maxcnt :: u32
  rx_remaining :: u16
  rx_read_for_execute :: bool

record smb_write =
  wr_fnum :: u16
  wr_offset :: u32
  wr_remaining :: u16
  wr_count :: u16
  wr_data :: string

record smb_close =
  cl_fnum :: u16
  cl_write_time :: nat

datatype smb_call = SmbOpen smb_openx | SmbRead smb_readx | SmbWrite smb_write | SmbClose smb_close

text \<open>The functions the code stores in \<open>req->async.fn\<close>.\<close>

datatype recv_fn = Async_open_recv | Async_read_recv | Async_write_recv | Async_close_recv

record request =
  rq_id :: nat
  rq_private :: ctxid
  rq_fn :: recv_fn
  rq_call :: smb_call

record 'cb async_context =
  cb_open :: "'cb option"
  cb_read :: "'cb option"
  cb_close :: "'cb option"
  cb_error :: "'cb option"
  fd :: u16
  io_open :: "smb_openx option"
  io_read :: "smb_readx option"
  io_write :: "smb_write option"
  io_close :: "smb_close option"
  rreq :: "nat option"
  wreq :: "nat option"
  wq :: item_list
  buffer :: string

text \<open>\<open>sizeof(c->buffer)\<close>, and a context fresh from \<open>talloc_zero\<close>.\<close>

abbreviation buffer_size :: nat where "buffer_size \<equiv> 256"

definition zero_context :: "'cb async_context" where
  "zero_context =
     \<lparr>cb_open = None, cb_read = None, cb_close = None, cb_error = None, fd = 0,
      io_open = None, io_read = None, io_write = None, io_close = None,
      rreq = None, wreq = None, wq = \<lparr>l_begin = None, l_end = None\<rparr>,
      buffer = replicate buffer_size (CHR 0x00)\<rparr>"

record 'cb astate =
  ctxs :: "ctxid \<rightharpoonup> 'cb async_context"
  items :: heap
  pending :: "request list"
  wire :: "request list"
  clk :: nat
  request_timeout :: nat

record aenv =
  alloc_ok :: "nat \<Rightarrow> bool"
  send_ok :: "nat \<Rightarrow> bool"
  item_mem :: "nat \<Rightarrow> addr option"

text \<open>What a callback is called with, besides the client's context.\<close>

datatype cb_args = Cb_open | Cb_read string nat | Cb_close | Cb_error async_func NTSTATUS

definition with_ctx ::
    "ctxid \<Rightarrow> ('cb, 'z) astate_scheme \<Rightarrow>
     ('cb async_context \<Rightarrow> ('a, ('cb, 'z) astate_scheme) res) \<Rightarrow>
     ('a, ('cb, 'z) astate_scheme) res" where
  "with_ctx c s k = (case ctxs s c of None \<Rightarrow> Undef | Some x \<Rightarrow> k x)"

definition set_ctx ::
    "ctxid \<Rightarrow> 'cb async_context \<Rightarrow> ('cb, 'z) astate_scheme \<Rightarrow> ('cb, 'z) astate_scheme" where
  "set_ctx c x s = s\<lparr>ctxs := (ctxs s)(c \<mapsto> x)\<rparr>"

definition tick :: "('cb, 'z) astate_scheme \<Rightarrow> ('cb, 'z) astate_scheme" where
  "tick s = s\<lparr>clk := Suc (clk s)\<rparr>"

text \<open>
  \<open>smb_raw_*_send\<close> followed by the assignments to \<open>req->async\<close>: the request is on the
  wire and waits for its reply, or the send fails and there is no request.
\<close>

definition smb_send ::
    "aenv \<Rightarrow> ctxid \<Rightarrow> recv_fn \<Rightarrow> smb_call \<Rightarrow> ('cb, 'z) astate_scheme \<Rightarrow>
     nat option \<times> ('cb, 'z) astate_scheme" where
  "smb_send e c fn io s =
     (if send_ok e (clk s)
      then (let r = \<lparr>rq_id = clk s, rq_private = c, rq_fn = fn, rq_call = io\<rparr> in
            (Some (clk s), tick (s\<lparr>pending := pending s @ [r], wire := wire s @ [r]\<rparr>)))
      else (None, tick s))"

definition smbcli_request_destroy ::
    "nat option \<Rightarrow> ('cb, 'z) astate_scheme \<Rightarrow> ('cb, 'z) astate_scheme" where
  "smbcli_request_destroy r s =
     (case r of None \<Rightarrow> s
      | Some i \<Rightarrow> s\<lparr>pending := filter (\<lambda>q. rq_id q \<noteq> i) (pending s)\<rparr>)"

definition call_cb ::
    "('cb \<Rightarrow> cb_args \<Rightarrow> ('cb, 'z) astate_scheme \<Rightarrow> (unit, ('cb, 'z) astate_scheme) res) \<Rightarrow>
     'cb option \<Rightarrow> cb_args \<Rightarrow> ('cb, 'z) astate_scheme \<Rightarrow> (unit, ('cb, 'z) astate_scheme) res" where
  "call_cb call f args s = (case f of None \<Rightarrow> Ret () s | Some g \<Rightarrow> call g args s)"

section \<open>Operations\<close>

definition async_read ::
    "aenv \<Rightarrow> ('cb \<Rightarrow> cb_args \<Rightarrow> ('cb, 'z) astate_scheme \<Rightarrow> (unit, ('cb, 'z) astate_scheme) res) \<Rightarrow>
     ctxid \<Rightarrow> ('cb, 'z) astate_scheme \<Rightarrow> (int, ('cb, 'z) astate_scheme) res" where
  "async_read e call c s =
     with_ctx c s (\<lambda>x.
       if io_read x = None \<and> \<not> alloc_ok e (clk s) then Undef
       else
         (let io = (case io_read x of
                      Some io \<Rightarrow> io
                    | None \<Rightarrow> \<lparr>rx_fnum = fd x, rx_offset = 0,
                               rx_mincnt = of_nat buffer_size, rx_maxcnt = of_nat buffer_size,
                               rx_remaining = 0, rx_read_for_execute = False\<rparr>);
              (req, s1) = smb_send e c Async_read_recv (SmbRead io) s;
              s2 = set_ctx c (x\<lparr>io_read := Some io, rreq := req\<rparr>) s1
          in case req of
               None \<Rightarrow> andr (call_cb call (cb_error x) (Cb_error ASYNC_READ NT_STATUS_NO_MEMORY) s2) (Ret 0)
             | Some _ \<Rightarrow> Ret 1 (s2\<lparr>request_timeout := 0\<rparr>)))"

definition async_open ::
    "aenv \<Rightarrow> ctxid \<Rightarrow> string \<Rightarrow> u16 \<Rightarrow> ('cb, 'z) astate_scheme \<Rightarrow>
     (int, ('cb, 'z) astate_scheme) res" where
  "async_open e c fn open_mode s =
     with_ctx c s (\<lambda>x.
       if \<not> alloc_ok e (clk s) then Ret 0 (tick (s\<lparr>ctxs := (ctxs s)(c := None)\<rparr>))
       else
         (let io = \<lparr>ox_flags = 0, ox_open_mode = open_mode,
                    ox_search_attrs = 0x0004 OR 0x0002, ox_file_attrs = 0, ox_write_time = 0,
                    ox_open_func = 0, ox_size = 0, ox_timeout = 0, ox_fname = fn\<rparr>;
              (req, s1) = smb_send e c Async_open_recv (SmbOpen io) s
          in case req of
               None \<Rightarrow> Ret 0 (s1\<lparr>ctxs := (ctxs s1)(c := None)\<rparr>)
             | Some _ \<Rightarrow> Ret 1 (set_ctx c (x\<lparr>io_open := Some io, rreq := req\<rparr>) s1)))"

text \<open>
  Note that the code never stores the request of a write in \<open>c->wreq\<close>. The 16-bit count
  decides how much of the data goes on the wire.
\<close>

definition async_write ::
    "aenv \<Rightarrow> ctxid \<Rightarrow> string \<Rightarrow> nat \<Rightarrow> ('cb, 'z) astate_scheme \<Rightarrow>
     (int, ('cb, 'z) astate_scheme) res" where
  "async_write e c buf len s =
     with_ctx c s (\<lambda>x.
       if wreq x \<noteq> None then
         (case list_enqueue (item_mem e (clk s)) buf len (items s, wq x) of
            None \<Rightarrow> Undef
          | Some (h, l) \<Rightarrow> Ret 0 (tick (set_ctx c (x\<lparr>wq := l\<rparr>) (s\<lparr>items := h\<rparr>))))
       else if io_write x = None \<and> \<not> alloc_ok e (clk s) then Ret 0 (tick s)
       else
         (let io0 = (case io_write x of
                       Some io \<Rightarrow> io
                     | None \<Rightarrow> \<lparr>wr_fnum = fd x, wr_offset = 0, wr_remaining = 0,
                                wr_count = 0, wr_data = []\<rparr>);
              count = (of_nat len :: u16);
              io = io0\<lparr>wr_count := count, wr_data := take (unat count) buf\<rparr>;
              (req, s1) = smb_send e c Async_write_recv (SmbWrite io) s
          in case req of
               None \<Rightarrow> Ret 0 (set_ctx c (x\<lparr>io_write := None\<rparr>) s1)
             | Some _ \<Rightarrow> Ret 1 (set_ctx c (x\<lparr>io_write := Some io\<rparr>) s1)))"

definition async_close ::
    "aenv \<Rightarrow> ctxid \<Rightarrow> ('cb, 'z) astate_scheme \<Rightarrow> (int, ('cb, 'z) astate_scheme) res" where
  "async_close e c s =
     with_ctx c s (\<lambda>x.
       let s0 = smbcli_request_destroy (wreq x) (smbcli_request_destroy (rreq x) s);
           x0 = x\<lparr>rreq := None, wreq := None\<rparr>
       in if \<not> alloc_ok e (clk s0) then Ret 0 (tick (set_ctx c (x0\<lparr>io_close := None\<rparr>) s0))
          else
            (let io = \<lparr>cl_fnum = fd x, cl_write_time = 0\<rparr>;
                 (req, s1) = smb_send e c Async_close_recv (SmbClose io) s0
             in case req of
                  None \<Rightarrow> Ret 0 (set_ctx c (x0\<lparr>io_close := None\<rparr>) s1)
                | Some _ \<Rightarrow> Ret 1 (set_ctx c (x0\<lparr>io_close := Some io\<rparr>) s1)))"

section \<open>Replies\<close>

text \<open>
  A reply: the status, the file number of an open, the data of a read (at most the
  \<open>maxcnt\<close> the request asked for; \<open>smb_raw_read_recv\<close> copies it into the buffer).
\<close>

record reply =
  rp_status :: NTSTATUS
  rp_fnum :: u16
  rp_data :: string

definition async_read_recv ::
    "aenv \<Rightarrow> ('cb \<Rightarrow> cb_args \<Rightarrow> ('cb, 'z) astate_scheme \<Rightarrow> (unit, ('cb, 'z) astate_scheme) res) \<Rightarrow>
     ctxid \<Rightarrow> reply \<Rightarrow> ('cb, 'z) astate_scheme \<Rightarrow> (unit, ('cb, 'z) astate_scheme) res" where
  "async_read_recv e call c rp s =
     with_ctx c s (\<lambda>x.
       if \<not> NT_STATUS_IS_OK (rp_status rp) then
         call_cb call (cb_error x) (Cb_error ASYNC_READ_RECV (rp_status rp))
           (set_ctx c (x\<lparr>rreq := None\<rparr>) s)
       else if io_read x = None then Undef
       else
         (let buf = rp_data rp @ drop (length (rp_data rp)) (buffer x);
              s1 = set_ctx c (x\<lparr>rreq := None, buffer := buf\<rparr>) s
          in andr (call_cb call (cb_read x) (Cb_read buf (length (rp_data rp))) s1)
               (\<lambda>s2. andr (async_read e call c s2) (Ret ()))))"

definition async_write_recv ::
    "aenv \<Rightarrow> ('cb \<Rightarrow> cb_args \<Rightarrow> ('cb, 'z) astate_scheme \<Rightarrow> (unit, ('cb, 'z) astate_scheme) res) \<Rightarrow>
     ctxid \<Rightarrow> reply \<Rightarrow> ('cb, 'z) astate_scheme \<Rightarrow> (unit, ('cb, 'z) astate_scheme) res" where
  "async_write_recv e call c rp s =
     with_ctx c s (\<lambda>x.
       if \<not> NT_STATUS_IS_OK (rp_status rp) then
         call_cb call (cb_error x) (Cb_error ASYNC_WRITE_RECV (rp_status rp))
           (set_ctx c (x\<lparr>wreq := None, io_write := None\<rparr>) s)
       else if io_write x = None then Undef
       else
         (let s1 = set_ctx c (x\<lparr>wreq := None\<rparr>) s in
          case l_begin (wq x) of
            None \<Rightarrow> Ret () s1
          | Some a \<Rightarrow>
              (case items s1 a of
                 None \<Rightarrow> Undef
               | Some li \<Rightarrow>
                   andr (async_write e c (li_data li) (li_size li) s1)
                     (\<lambda>s2. with_ctx c s2 (\<lambda>x2.
                        case list_dequeue (items s2, wq x2) of
                          None \<Rightarrow> Undef
                        | Some (h, l) \<Rightarrow> Ret () (set_ctx c (x2\<lparr>wq := l\<rparr>) (s2\<lparr>items := h\<rparr>)))))))"

definition async_open_recv ::
    "aenv \<Rightarrow> ('cb \<Rightarrow> cb_args \<Rightarrow> ('cb, 'z) astate_scheme \<Rightarrow> (unit, ('cb, 'z) astate_scheme) res) \<Rightarrow>
     ctxid \<Rightarrow> reply \<Rightarrow> ('cb, 'z) astate_scheme \<Rightarrow> (unit, ('cb, 'z) astate_scheme) res" where
  "async_open_recv e call c rp s =
     with_ctx c s (\<lambda>x.
       if \<not> NT_STATUS_IS_OK (rp_status rp) then
         call_cb call (cb_error x) (Cb_error ASYNC_OPEN_RECV (rp_status rp))
           (set_ctx c (x\<lparr>rreq := None, io_open := None\<rparr>) s)
       else if io_open x = None then Undef
       else
         andr (call_cb call (cb_open x) Cb_open
                 (set_ctx c (x\<lparr>rreq := None, fd := rp_fnum rp, io_open := None\<rparr>) s))
           (\<lambda>s2. andr (async_read e call c s2) (Ret ())))"

definition async_close_recv ::
    "('cb \<Rightarrow> cb_args \<Rightarrow> ('cb, 'z) astate_scheme \<Rightarrow> (unit, ('cb, 'z) astate_scheme) res) \<Rightarrow>
     ctxid \<Rightarrow> ('cb, 'z) astate_scheme \<Rightarrow> (unit, ('cb, 'z) astate_scheme) res" where
  "async_close_recv call c s =
     with_ctx c s (\<lambda>x.
       call_cb call (cb_close x) Cb_close
         (set_ctx c (x\<lparr>io_close := None, io_open := None, io_read := None, io_write := None\<rparr>) s))"

text \<open>The transport gives a reply to the request it belongs to.\<close>

definition request_done ::
    "aenv \<Rightarrow> ('cb \<Rightarrow> cb_args \<Rightarrow> ('cb, 'z) astate_scheme \<Rightarrow> (unit, ('cb, 'z) astate_scheme) res) \<Rightarrow>
     request \<Rightarrow> reply \<Rightarrow> ('cb, 'z) astate_scheme \<Rightarrow> (unit, ('cb, 'z) astate_scheme) res" where
  "request_done e call r rp s =
     (let s0 = smbcli_request_destroy (Some (rq_id r)) s in
      case rq_fn r of
        Async_open_recv \<Rightarrow> async_open_recv e call (rq_private r) rp s0
      | Async_read_recv \<Rightarrow> async_read_recv e call (rq_private r) rp s0
      | Async_write_recv \<Rightarrow> async_write_recv e call (rq_private r) rp s0
      | Async_close_recv \<Rightarrow> async_close_recv call (rq_private r) s0)"

section \<open>Invariants of a client\<close>

declare async_read_def [async_defs] async_open_def [async_defs] async_write_def [async_defs]
  async_close_def [async_defs] async_read_recv_def [async_defs] async_write_recv_def [async_defs]
  async_open_recv_def [async_defs] async_close_recv_def [async_defs] with_ctx_def [async_defs]
  smb_send_def [async_defs] smbcli_request_destroy_def [async_defs] tick_def [async_defs]

text \<open>
  The contract between this layer and its client: an invariant \<open>I\<close> of the client's state
  that bounds every context by \<open>P\<close> and does not look at the transport, where \<open>P\<close> allows
  the layer's own updates and keeps the write queue out of use. Then no operation breaks
  \<open>I\<close>, and a reply does not when the callbacks it may call do not.
\<close>

locale async_inv =
  fixes I :: "('cb, 'z) astate_scheme \<Rightarrow> bool" and P :: "ctxid \<Rightarrow> 'cb async_context \<Rightarrow> bool"
  assumes I_ctx: "I s \<Longrightarrow> ctxs s c = Some x \<Longrightarrow> P c x"
    and I_set: "I s \<Longrightarrow> ctxs s c \<noteq> None \<Longrightarrow> P c x \<Longrightarrow> I (set_ctx c x s)"
    and I_free: "I s \<Longrightarrow> I (s\<lparr>ctxs := (ctxs s)(c := None)\<rparr>)"
    and I_transport: "I s \<Longrightarrow> I (s\<lparr>pending := p, wire := w, clk := k, request_timeout := t\<rparr>)"
    and P_io: "P c x \<Longrightarrow> P c (x\<lparr>fd := n, io_open := oa, io_read := ob, io_write := oc, io_close := od,
      rreq := r\<rparr>)"
    and P_buffer: "P c x \<Longrightarrow> length d \<le> buffer_size \<Longrightarrow>
      P c (x\<lparr>buffer := d @ drop (length d) (buffer x)\<rparr>)"
    and P_idle: "P c x \<Longrightarrow> wreq x = None \<and> l_begin (wq x) = None"
begin

lemma I_pending: "I s \<Longrightarrow> I (s\<lparr>pending := p\<rparr>)"
  using I_transport [where s = s and p = p and w = "wire s" and k = "clk s" and t = "request_timeout s"]
  by simp

lemma I_timeout: "I s \<Longrightarrow> I (s\<lparr>request_timeout := t\<rparr>)"
  using I_transport [where s = s and p = "pending s" and w = "wire s" and k = "clk s" and t = t]
  by simp

lemma I_tick: "I s \<Longrightarrow> I (tick s)"
  using I_transport [where s = s and p = "pending s" and w = "wire s" and k = "Suc (clk s)"
      and t = "request_timeout s"]
  by (simp add: tick_def)

lemma I_wire: "I s \<Longrightarrow> I (s\<lparr>pending := p, wire := w\<rparr>)"
  using I_transport [where s = s and p = p and w = w and k = "clk s" and t = "request_timeout s"]
  by simp

lemma I_send: "I s \<Longrightarrow> smb_send e c fn io s = (r, s') \<Longrightarrow> I s' \<and> ctxs s' = ctxs s"
  by (auto simp: smb_send_def Let_def tick_def [symmetric] split: if_splits intro!: I_tick I_wire)
    (auto simp: tick_def)

lemma I_destroy: "I s \<Longrightarrow> I (smbcli_request_destroy r s)"
  by (auto simp: smbcli_request_destroy_def split: option.splits intro: I_pending)

lemma ctxs_destroy [simp]: "ctxs (smbcli_request_destroy r s) = ctxs s"
  by (auto simp: smbcli_request_destroy_def split: option.splits)

lemma P_fields:
  assumes "P c x"
  shows "P c (x\<lparr>io_open := oa\<rparr>)" "P c (x\<lparr>io_read := ob\<rparr>)" "P c (x\<lparr>io_write := oc\<rparr>)"
    "P c (x\<lparr>io_close := od\<rparr>)" "P c (x\<lparr>rreq := r\<rparr>)" "P c (x\<lparr>fd := n\<rparr>)"
  using assms
    P_io [where x = x and n = "fd x" and oa = oa and ob = "io_read x" and oc = "io_write x"
      and od = "io_close x" and r = "rreq x"]
    P_io [where x = x and n = "fd x" and oa = "io_open x" and ob = ob and oc = "io_write x"
      and od = "io_close x" and r = "rreq x"]
    P_io [where x = x and n = "fd x" and oa = "io_open x" and ob = "io_read x" and oc = oc
      and od = "io_close x" and r = "rreq x"]
    P_io [where x = x and n = "fd x" and oa = "io_open x" and ob = "io_read x"
      and oc = "io_write x" and od = od and r = "rreq x"]
    P_io [where x = x and n = "fd x" and oa = "io_open x" and ob = "io_read x"
      and oc = "io_write x" and od = "io_close x" and r = r]
    P_io [where x = x and n = n and oa = "io_open x" and ob = "io_read x"
      and oc = "io_write x" and od = "io_close x" and r = "rreq x"]
  by simp_all

lemma P_read_buffer:
  assumes "P c x" "length d \<le> buffer_size"
  shows "P c (x\<lparr>rreq := r, buffer := d @ drop (length d) (buffer x)\<rparr>)"
  using P_buffer [OF P_fields(5) [OF assms(1)] assms(2), of r] by simp

lemma wreq_idle: "P c x \<Longrightarrow> x\<lparr>wreq := None\<rparr> = x"
  using P_idle [of c x] by simp

lemma I_set_send:
  "I s \<Longrightarrow> ctxs s c = Some x0 \<Longrightarrow> P c x \<Longrightarrow> smb_send e c fn io s = (r, s') \<Longrightarrow> I (set_ctx c x s')"
  using I_send [of s e c fn io r s'] I_set [of s' c x] by simp

lemma open_keeps: "I s \<Longrightarrow> all_res I Q (async_open e c fn m s)"
  by (auto simp: async_open_def with_ctx_def Let_def split: option.splits prod.splits
      intro!: I_tick I_free I_set_send P_fields dest: I_send I_ctx)

lemma write_keeps: "I s \<Longrightarrow> all_res I Q (async_write e c buf len s)"
proof (cases "ctxs s c")
  case (Some x)
  assume I: "I s"
  with Some have P: "P c x" by (blast intro: I_ctx)
  then have "wreq x = None" using P_idle by blast
  with I Some P show ?thesis
    by (auto simp: async_write_def with_ctx_def Let_def split: option.splits prod.splits
        intro: I_tick I_set_send [OF I Some] P_fields)
qed (simp add: async_write_def with_ctx_def)

lemma close_keeps: "I s \<Longrightarrow> all_res I Q (async_close e c s)"
proof (cases "ctxs s c")
  case (Some x)
  assume "I s"
  let ?s0 = "smbcli_request_destroy (wreq x) (smbcli_request_destroy (rreq x) s)"
  have I0: "I ?s0" and c0: "ctxs ?s0 c = Some x"
    using \<open>I s\<close> Some by (simp_all add: I_destroy)
  have "P c (x\<lparr>rreq := None\<rparr>)" using I_ctx [OF \<open>I s\<close> Some] by (rule P_fields)
  then have P0: "P c (x\<lparr>rreq := None, wreq := None\<rparr>)" by (simp only: wreq_idle)
  with I0 c0 Some show ?thesis
    by (auto simp: async_close_def with_ctx_def Let_def simp del: ctxs_destroy
        split: option.splits prod.splits intro: I_tick I_set I_set_send [OF I0 c0] P_fields)
qed (simp add: async_close_def with_ctx_def)

text \<open>
  Which callbacks are called with what: \<open>A\<close> must allow all calls but those that deliver data,
  and of these the one that hands over the data of the reply.
\<close>

lemma call_cb_keeps:
  "(\<And>f a s. A f a \<Longrightarrow> I s \<Longrightarrow> all_res I Q (call f a s)) \<Longrightarrow> (\<And>g. f = Some g \<Longrightarrow> A g a) \<Longrightarrow> I s \<Longrightarrow>
   all_res I Q (call_cb call f a s)"
  by (auto simp: call_cb_def split: option.splits)

lemma read_keeps:
  assumes call: "\<And>f a s. A f a \<Longrightarrow> I s \<Longrightarrow> all_res I Q (call f a s)" and err: "\<And>f g st. A f (Cb_error g st)" and "I s"
  shows "all_res I Q (async_read e call c s)"
  using assms(3)
  by (auto simp: async_read_def with_ctx_def Let_def split: option.splits prod.splits
      intro!: I_timeout I_set_send P_fields all_res_andr [where P = I] call_cb_keeps [where A = A, OF call err]
      dest: I_ctx)

lemma request_done_calls:
  assumes call: "\<And>f a s. A f a \<Longrightarrow> I s \<Longrightarrow> all_res I Q (call f a s)" and "I s"
    and len: "length (rp_data rp) \<le> buffer_size"
    and quiet: "\<And>f. A f Cb_open" "\<And>f. A f Cb_close" "\<And>f g st. A f (Cb_error g st)"
    and rd: "\<And>x f rest. rq_fn r = Async_read_recv \<Longrightarrow> NT_STATUS_IS_OK (rp_status rp) \<Longrightarrow> P (rq_private r) x \<Longrightarrow>
      cb_read x = Some f \<Longrightarrow> A f (Cb_read (rp_data rp @ rest) (length (rp_data rp)))"
  shows "all_res I Q (request_done e call r rp s)"
proof -
  let ?s = "smbcli_request_destroy (Some (rq_id r)) s" and ?c = "rq_private r"
  have I: "I ?s" using assms(2) by (rule I_destroy)
  note rules = all_res_andr [where P = I] call_cb_keeps [where A = A, OF call] I_set P_fields P_read_buffer
    read_keeps [where A = A, OF call] len quiet
  have "all_res I Q (async_open_recv e call ?c rp ?s)"
    using I by (auto simp: async_open_recv_def with_ctx_def Let_def
      split: option.splits intro!: rules dest: I_ctx)
  moreover have "all_res I Q (async_read_recv e call ?c rp ?s)" if "rq_fn r = Async_read_recv"
    using I by (auto simp: async_read_recv_def with_ctx_def Let_def
      split: option.splits intro!: rules rd [OF that] dest: I_ctx)
  moreover have "all_res I Q (async_write_recv e call ?c rp ?s)"
  proof (cases "ctxs ?s ?c")
    case (Some x)
    with I have "P ?c x" by (rule I_ctx)
    with Some I show ?thesis
      by (auto simp: async_write_recv_def with_ctx_def Let_def wreq_idle P_idle
          split: option.splits intro!: rules)
  qed (simp add: async_write_recv_def with_ctx_def)
  moreover have "all_res I Q (async_close_recv call ?c ?s)"
    using I by (auto simp: async_close_recv_def with_ctx_def
      split: option.splits intro!: rules dest: I_ctx)
  ultimately show ?thesis by (simp add: request_done_def Let_def split: recv_fn.splits)
qed

end

end
