(* ===== verification/Winexe.thy ===== *)
theory Winexe
  imports AsyncPipe SvcControl
begin

text \<open>
  The client program, \<open>winexe/winexe.c\<close>: the command line, the start of the program, the
  callbacks of its three pipes, the timer, the standard input and the signals, and the event
  loop as steps on the state of the process. The state extends the one of the pipe layer by
  the variables of \<open>struct winexe_context\<close>, the two static flags, the registered events, the
  output written so far and the world of the service calls.

  A pointer that is NULL, a context that was freed and an allocation the code does not test
  end in \<open>Undef\<close> where they are used. Debug messages are left out.
\<close>

section \<open>Constants shared with the service\<close>

text \<open>From \<open>winexesvc/shared.h\<close>, \<open>winexe.h\<close> and \<open>libcli/raw/smb.h\<close>.\<close>

abbreviation (input) "VERSION \<equiv> (90 :: nat)"
abbreviation (input) "OPENX_MODE_ACCESS_RDWR \<equiv> (0x0002 :: u16)"

definition PIPE_PREFIX :: string where
  "PIPE_PREFIX = [CHR 0x5C] @ ''pipe'' @ [CHR 0x5C]"

definition PIPE_NAME :: string where "PIPE_NAME = ''ahexec''"

definition PIPE_NAME_IO :: "u32 \<Rightarrow> string" where
  "PIPE_NAME_IO n = ''ahexec_stdio'' @ fmt_X 8 (unat n)"

definition PIPE_NAME_ERR :: "u32 \<Rightarrow> string" where
  "PIPE_NAME_ERR n = ''ahexec_stderr'' @ fmt_X 8 (unat n)"

definition CMD_STD_IO_ERR :: string where "CMD_STD_IO_ERR = ''std_io_err''"
definition CMD_RETURN_CODE :: string where "CMD_RETURN_CODE = ''return_code''"

definition newline :: string where "newline = [CHR 0x0A]"

section \<open>State\<close>

record program_args =
  pa_hostname :: string
  pa_cmd :: "string option"
  pa_reinstall :: int
  pa_uninstall :: int
  pa_system :: int
  pa_runas :: "string option"
  pa_interactive :: u32
  pa_ostype :: int
  pa_flags :: u32

datatype wx_phase = STATE_OPENING | STATE_GETTING_VERSION | STATE_RUNNING | STATE_CLOSING
  | STATE_CLOSING_FOR_REINSTALL

text \<open>The callbacks the program installs in its contexts.\<close>

datatype wx_cb = On_ctrl_pipe_open | On_ctrl_pipe_read | On_ctrl_pipe_error | On_ctrl_pipe_close
  | On_io_pipe_open | On_io_pipe_read | On_io_pipe_error | On_err_pipe_read | On_err_pipe_error

datatype wx_signal = SIGINT | SIGTERM

text \<open>
  \<open>next_ctx\<close> is the next free address of the context store, \<open>timers\<close> the number of timer
  events that are due, \<open>stdin_watch\<close> the number of handlers on the standard input,
  \<open>out_io\<close> and \<open>out_err\<close> what went to the file descriptors 1 and 2.
\<close>

record 'h winexe = "wx_cb astate" +
  wx_state :: wx_phase
  wx_args :: program_args
  ac_ctrl :: ctxid
  ac_io :: "ctxid option"
  ac_err :: "ctxid option"
  return_code :: u32
  activated :: bool
  abort_requested :: bool
  catching :: "wx_signal \<Rightarrow> bool"
  timers :: nat
  stdin_watch :: nat
  icanon :: bool
  out_io :: string
  out_err :: string
  next_ctx :: ctxid
  svc :: "'h svc_world"

text \<open>
  The environment: the transport, the remote host, whether the client is configured for NT
  status codes, the debug level, the fuel of the polling loops and the value of the
  uninitialised \<open>need_start\<close> in \<open>svc_install\<close>.
\<close>

record 'h wenv =
  we_net :: aenv
  we_scm :: "'h svc_env"
  we_nt :: bool
  we_dbg :: bool
  we_fuel :: nat
  we_junk :: int

type_synonym 'h wx_res = "(unit, 'h winexe) res"

section \<open>Command line\<close>

text \<open>
  \<open>parse_args\<close> after popt: \<open>opt\<close> is the first value of \<open>poptGetNextOpt\<close>, \<open>argv_new\<close> the
  words \<open>poptGetArgs\<close> left (None is NULL; otherwise a NULL follows the words), and \<open>a\<close> the
  arguments with the options popt has stored. The loop looks for the NULL below \<open>argc - 1\<close>
  only.
\<close>

fun count_args :: "nat \<Rightarrow> nat \<Rightarrow> string list \<Rightarrow> nat \<Rightarrow> nat" where
  "count_args i 0 argv_new argc = argc"
| "count_args i (Suc n) argv_new argc =
     (if i = length argv_new then i else count_args (Suc i) n argv_new argc)"

definition parse_args :: "int \<Rightarrow> nat \<Rightarrow> string list option \<Rightarrow> program_args \<Rightarrow> (program_args, unit) res" where
  "parse_args opt argc argv_new a =
     (if opt \<noteq> -1 then Exit 1 ()
      else
        case argv_new of
          None \<Rightarrow> if 2 \<le> argc then Undef else Exit 1 ()
        | Some ws \<Rightarrow>
            if count_args 0 (argc - 1) ws argc \<noteq> 2
               \<or> char_at (ws ! 0) 0 \<noteq> CHR ''/'' \<or> char_at (ws ! 0) 1 \<noteq> CHR ''/''
            then Exit 1 ()
            else Ret (a\<lparr>pa_hostname := drop 2 (ws ! 0),
                        pa_cmd := (if 1 < length ws then Some (ws ! 1) else None)\<rparr>) ())"

section \<open>Calls of the service layer\<close>

definition lift_svc :: "(NTSTATUS, 'h svc_world) res \<Rightarrow> 'h winexe \<Rightarrow> (NTSTATUS, 'h winexe) res" where
  "lift_svc r s =
     (case r of
        Ret st w \<Rightarrow> Ret st (s\<lparr>svc := w\<rparr>)
      | Exit n w \<Rightarrow> Exit n (s\<lparr>svc := w\<rparr>)
      | Hang \<Rightarrow> Hang
      | Undef \<Rightarrow> Undef)"

definition wx_install :: "'h wenv \<Rightarrow> 'h winexe \<Rightarrow> (NTSTATUS, 'h winexe) res" where
  "wx_install e s =
     lift_svc (svc_install (we_scm e) (we_nt e) (we_dbg e) (we_fuel e) (we_junk e)
       (pa_hostname (wx_args s)) (pa_flags (wx_args s)) (svc s)) s"

definition wx_uninstall :: "'h wenv \<Rightarrow> 'h winexe \<Rightarrow> (NTSTATUS, 'h winexe) res" where
  "wx_uninstall e s =
     lift_svc (svc_uninstall (we_scm e) (we_dbg e) (we_fuel e) (pa_hostname (wx_args s)) (svc s)) s"

definition exit_program :: "'h wenv \<Rightarrow> 'h winexe \<Rightarrow> 'h wx_res" where
  "exit_program e s =
     (if pa_uninstall (wx_args s) \<noteq> 0
      then andr (wx_uninstall e s) (\<lambda>s1. Exit (return_code s1) s1)
      else Exit (return_code s) s)"

section \<open>The control pipe\<close>

definition open_ctrl :: "'h wenv \<Rightarrow> 'h winexe \<Rightarrow> 'h wx_res" where
  "open_ctrl e s =
     andr (async_open (we_net e) (ac_ctrl s) (PIPE_PREFIX @ PIPE_NAME) OPENX_MODE_ACCESS_RDWR s) (Ret ())"

definition on_ctrl_pipe_error :: "'h wenv \<Rightarrow> async_func \<Rightarrow> NTSTATUS \<Rightarrow> 'h winexe \<Rightarrow> 'h wx_res" where
  "on_ctrl_pipe_error e func status s =
     (case (if activated s then Some False
            else NT_STATUS_EQUAL (we_nt e) status NT_STATUS_OBJECT_NAME_NOT_FOUND) of
        None \<Rightarrow> Undef
      | Some True \<Rightarrow>
          bindr (wx_install e s)
            (\<lambda>st s1.
               if \<not> NT_STATUS_IS_OK st then exit_program e (s1\<lparr>return_code := 1\<rparr>)
               else open_ctrl e (s1\<lparr>activated := True\<rparr>))
      | Some False \<Rightarrow>
          if func = ASYNC_OPEN_RECV then exit_program e (s\<lparr>return_code := 1\<rparr>)
          else if func = ASYNC_READ_RECV \<and> wx_state s = STATE_OPENING then Ret () s
          else exit_program e s)"

definition cmd_check :: "string \<Rightarrow> string \<Rightarrow> nat \<Rightarrow> string option" where
  "cmd_check data cmd len =
     (let lcmd = length cmd in
      if len \<le> lcmd then None
      else if has_prefix data cmd \<and> (data ! lcmd = CHR '' '' \<or> data ! lcmd = CHR 0x0A)
      then Some (drop (lcmd + 1) data)
      else None)"

text \<open>
  \<open>strtoul\<close> on the rest of the read buffer, where no NUL ends the text: when the number, or
  what could become one, reaches the end of the buffer, the function reads outside it.
\<close>

definition buf_strtoul :: "nat \<Rightarrow> string \<Rightarrow> u64 option" where
  "buf_strtoul base p =
     (let (_, q) = scan_sign (dropWhile isspace p); (v, rest) = strtoul base p in
      if q = [] \<or> rest = [] \<or> q = ''0x'' \<or> q = ''0X'' then None else Some v)"

text \<open>C's division of ints rounds toward zero.\<close>

definition cdiv :: "int \<Rightarrow> int \<Rightarrow> int" where
  "cdiv a b = sgn a * sgn b * (\<bar>a\<bar> div \<bar>b\<bar>)"

text \<open>A new context with its callbacks, and the pipe it opens; its memory is not tested.\<close>

definition new_pipe ::
    "'h wenv \<Rightarrow> wx_cb async_context \<Rightarrow> (ctxid \<Rightarrow> 'h winexe \<Rightarrow> 'h winexe) \<Rightarrow> string \<Rightarrow>
     'h winexe \<Rightarrow> 'h wx_res" where
  "new_pipe e x store fn s =
     (if \<not> alloc_ok (we_net e) (clk s) \<or> \<not> alloc_ok (we_net e) (Suc (clk s)) then Undef
      else
        (let c = next_ctx s;
             s1 = store c (set_ctx c x (s\<lparr>clk := clk s + 2, next_ctx := Suc c\<rparr>))
         in andr (async_open (we_net e) c fn OPENX_MODE_ACCESS_RDWR s1) (Ret ())))"

definition io_context :: "wx_cb async_context" where
  "io_context = zero_context\<lparr>cb_open := Some On_io_pipe_open, cb_read := Some On_io_pipe_read,
     cb_error := Some On_io_pipe_error\<rparr>"

definition err_context :: "wx_cb async_context" where
  "err_context = zero_context\<lparr>cb_read := Some On_err_pipe_read, cb_error := Some On_err_pipe_error\<rparr>"

text \<open>The text of the command that starts the remote program.\<close>

definition run_command :: "program_args \<Rightarrow> string option" where
  "run_command a =
     (case pa_cmd a of
        None \<Rightarrow> None
      | Some cmd \<Rightarrow>
          Some (case pa_runas a of
                  Some r \<Rightarrow> ''set runas '' @ r @ newline @ ''run '' @ cmd @ newline
                | None \<Rightarrow> (if pa_system a \<noteq> 0 then ''set system 1'' @ newline else [])
                            @ ''run '' @ cmd @ newline))"

definition ctrl_std_io_err :: "'h wenv \<Rightarrow> string \<Rightarrow> 'h winexe \<Rightarrow> 'h wx_res" where
  "ctrl_std_io_err e p s =
     (case buf_strtoul 16 p of
        None \<Rightarrow> Undef
      | Some v \<Rightarrow>
          (let npipe = (ucast v :: u32) in
           andr (new_pipe e io_context (\<lambda>c t. t\<lparr>ac_io := Some c\<rparr>) (PIPE_PREFIX @ PIPE_NAME_IO npipe) s)
             (new_pipe e err_context (\<lambda>c t. t\<lparr>ac_err := Some c\<rparr>) (PIPE_PREFIX @ PIPE_NAME_ERR npipe))))"

definition close_for_reinstall :: "'h wenv \<Rightarrow> 'h winexe \<Rightarrow> 'h wx_res" where
  "close_for_reinstall e s =
     andr (async_close (we_net e) (ac_ctrl s) s)
       (\<lambda>s1. Ret () (s1\<lparr>wx_state := STATE_CLOSING_FOR_REINSTALL\<rparr>))"

definition ctrl_version :: "'h wenv \<Rightarrow> string \<Rightarrow> 'h winexe \<Rightarrow> 'h wx_res" where
  "ctrl_version e p s =
     (case buf_strtoul 0 p of
        None \<Rightarrow> Undef
      | Some v \<Rightarrow>
          if cdiv (sint (ucast v :: u32)) 10 \<noteq> cdiv (int VERSION) 10 then close_for_reinstall e s
          else
            (case run_command (wx_args s) of
               None \<Rightarrow> Undef
             | Some str \<Rightarrow>
                 if \<not> alloc_ok (we_net e) (clk s) then Undef
                 else
                   andr (async_write (we_net e) (ac_ctrl s) str (length str) (tick s))
                     (\<lambda>s1. Ret () (s1\<lparr>wx_state := STATE_RUNNING\<rparr>))))"

definition on_ctrl_pipe_read :: "'h wenv \<Rightarrow> string \<Rightarrow> nat \<Rightarrow> 'h winexe \<Rightarrow> 'h wx_res" where
  "on_ctrl_pipe_read e data len s =
     (case cmd_check data CMD_STD_IO_ERR len of
        Some p \<Rightarrow> ctrl_std_io_err e p s
      | None \<Rightarrow>
     case cmd_check data CMD_RETURN_CODE len of
        Some p \<Rightarrow>
          (case buf_strtoul 16 p of
             None \<Rightarrow> Undef
           | Some v \<Rightarrow> Ret () (s\<lparr>return_code := ucast v\<rparr>))
      | None \<Rightarrow>
     case cmd_check data ''version'' len of
        Some p \<Rightarrow> ctrl_version e p s
      | None \<Rightarrow>
     case cmd_check data ''error'' len of
        Some p \<Rightarrow>
          if wx_state s = STATE_GETTING_VERSION then close_for_reinstall e s else Ret () s
      | None \<Rightarrow> Ret () s)"

definition on_ctrl_pipe_open :: "'h wenv \<Rightarrow> 'h winexe \<Rightarrow> 'h wx_res" where
  "on_ctrl_pipe_open e s =
     (let str = ''get version'' @ newline in
      andr (async_write (we_net e) (ac_ctrl s) str (length str) (s\<lparr>wx_state := STATE_GETTING_VERSION\<rparr>))
        (\<lambda>s1. Ret () (s1\<lparr>catching := (\<lambda>_. True), timers := Suc (timers s1)\<rparr>)))"

definition on_ctrl_pipe_close :: "'h wenv \<Rightarrow> 'h winexe \<Rightarrow> 'h wx_res" where
  "on_ctrl_pipe_close e s =
     (if wx_state s = STATE_CLOSING_FOR_REINSTALL
      then andr (wx_uninstall e s) (\<lambda>s1. andr (wx_install e s1)
             (\<lambda>s2. open_ctrl e (s2\<lparr>wx_state := STATE_OPENING\<rparr>)))
      else Ret () s)"

section \<open>Timer, signals, standard input and the other pipes\<close>

definition catch_alarm :: "wx_signal \<Rightarrow> 'h winexe \<Rightarrow> 'h winexe" where
  "catch_alarm sig s = s\<lparr>abort_requested := True, catching := (catching s)(sig := False)\<rparr>"

definition timer :: "'h wenv \<Rightarrow> 'h winexe \<Rightarrow> 'h wx_res" where
  "timer e s =
     (if abort_requested s
      then andr (async_write (we_net e) (ac_ctrl s) (''abort'' @ newline) 6 s) (Ret ())
      else Ret () (s\<lparr>timers := Suc (timers s)\<rparr>))"

text \<open>\<open>input\<close> is what \<open>read\<close> put into the buffer, empty at the end of the input or on an error.\<close>

definition on_stdin_read_event :: "'h wenv \<Rightarrow> string \<Rightarrow> 'h winexe \<Rightarrow> 'h wx_res" where
  "on_stdin_read_event e input s =
     (if input = [] then Ret () s
      else case ac_io s of
             None \<Rightarrow> Undef
           | Some c \<Rightarrow> andr (async_write (we_net e) c input (length input) s) (Ret ()))"

definition on_io_pipe_open :: "'h winexe \<Rightarrow> 'h wx_res" where
  "on_io_pipe_open s = Ret () (s\<lparr>stdin_watch := Suc (stdin_watch s), icanon := False\<rparr>)"

definition on_io_pipe_read :: "string \<Rightarrow> nat \<Rightarrow> 'h winexe \<Rightarrow> 'h wx_res" where
  "on_io_pipe_read data len s = Ret () (s\<lparr>out_io := out_io s @ take len data\<rparr>)"

definition on_err_pipe_read :: "string \<Rightarrow> nat \<Rightarrow> 'h winexe \<Rightarrow> 'h wx_res" where
  "on_err_pipe_read data len s = Ret () (s\<lparr>out_err := out_err s @ take len data\<rparr>)"

definition close_pipe :: "'h wenv \<Rightarrow> ctxid option \<Rightarrow> 'h winexe \<Rightarrow> 'h wx_res" where
  "close_pipe e c s = (case c of None \<Rightarrow> Undef | Some i \<Rightarrow> andr (async_close (we_net e) i s) (Ret ()))"

definition on_io_pipe_error :: "'h wenv \<Rightarrow> 'h winexe \<Rightarrow> 'h wx_res" where
  "on_io_pipe_error e s = close_pipe e (ac_io s) s"

definition on_err_pipe_error :: "'h wenv \<Rightarrow> 'h winexe \<Rightarrow> 'h wx_res" where
  "on_err_pipe_error e s = close_pipe e (ac_err s) s"

text \<open>The call through a callback pointer; the casts of the code fix the argument types.\<close>

fun call_client :: "'h wenv \<Rightarrow> wx_cb \<Rightarrow> cb_args \<Rightarrow> 'h winexe \<Rightarrow> 'h wx_res" where
  "call_client e On_ctrl_pipe_open Cb_open s = on_ctrl_pipe_open e s"
| "call_client e On_ctrl_pipe_read (Cb_read data len) s = on_ctrl_pipe_read e data len s"
| "call_client e On_ctrl_pipe_error (Cb_error func status) s = on_ctrl_pipe_error e func status s"
| "call_client e On_ctrl_pipe_close Cb_close s = on_ctrl_pipe_close e s"
| "call_client e On_io_pipe_open Cb_open s = on_io_pipe_open s"
| "call_client e On_io_pipe_read (Cb_read data len) s = on_io_pipe_read data len s"
| "call_client e On_io_pipe_error (Cb_error func status) s = on_io_pipe_error e s"
| "call_client e On_err_pipe_read (Cb_read data len) s = on_err_pipe_read data len s"
| "call_client e On_err_pipe_error (Cb_error func status) s = on_err_pipe_error e s"
| "call_client e _ _ s = Undef"

section \<open>The program\<close>

definition main_flags :: "program_args \<Rightarrow> program_args" where
  "main_flags a =
     (let i = pa_interactive a AND SVC_INTERACTIVE_MASK;
          f1 = (if pa_reinstall a \<noteq> 0 then i OR SVC_FORCE_UPLOAD else i);
          f2 = (if pa_ostype a = 1 then f1 OR SVC_OS64BIT else f1);
          f3 = (if pa_ostype a = 2 then f2 OR SVC_OSCHOOSE else f2)
      in a\<lparr>pa_interactive := i, pa_flags := f3\<rparr>)"

definition ctrl_context :: "wx_cb async_context" where
  "ctrl_context = zero_context\<lparr>cb_open := Some On_ctrl_pipe_open, cb_read := Some On_ctrl_pipe_read,
     cb_error := Some On_ctrl_pipe_error, cb_close := Some On_ctrl_pipe_close\<rparr>"

text \<open>The state of the process before \<open>main\<close>: nothing is open, the context is not allocated yet.\<close>

definition initial_state :: "program_args \<Rightarrow> 'h svc_world \<Rightarrow> 'h winexe" where
  "initial_state a w =
     \<lparr>ctxs = Map.empty, items = Map.empty, pending = [], wire = [], clk = 0, request_timeout = 60,
      wx_state = STATE_OPENING, wx_args = a, ac_ctrl = 0, ac_io = None, ac_err = None,
      return_code = 0, activated = False, abort_requested = False, catching = (\<lambda>_. False),
      timers = 0, stdin_watch = 0, icanon = True, out_io = [], out_err = [], next_ctx = 0, svc = w\<rparr>"

text \<open>\<open>main\<close> up to the event loop, which is entered in the state of the result.\<close>

definition wx_connect :: "'h wenv \<Rightarrow> 'h winexe \<Rightarrow> 'h wx_res" where
  "wx_connect e s =
     (let (a, w) = invoke (we_scm e) (Full_connection (pa_hostname (wx_args s)) ''IPC$'') (svc s);
          s1 = s\<lparr>svc := w\<rparr>
      in if \<not> NT_STATUS_IS_OK (an_status a) then Exit 1 s1
         else if \<not> alloc_ok (we_net e) (clk s1) then Exit 1 (tick s1)
         else if \<not> alloc_ok (we_net e) (Suc (clk s1)) then Undef
         else open_ctrl e (set_ctx 0 ctrl_context
                (s1\<lparr>clk := clk s1 + 2, next_ctx := 1, ac_ctrl := 0, return_code := 99,
                    wx_state := STATE_OPENING\<rparr>)))"

definition main_program :: "'h wenv \<Rightarrow> program_args \<Rightarrow> 'h svc_world \<Rightarrow> 'h wx_res" where
  "main_program e a w =
     (let a' = main_flags a; s = initial_state a' w in
      andr (if pa_flags a' AND SVC_FORCE_UPLOAD \<noteq> 0 then wx_uninstall e s else Ret 0 s)
        (\<lambda>s1. andr (if pa_flags a' AND SVC_IGNORE_INTERACTIVE = 0 then wx_install e s1 else Ret 0 s1)
           (wx_connect e)))"

section \<open>The event loop\<close>

datatype wx_event = Reply_event request reply | Timer_event | Stdin_event string | Signal_event wx_signal
  | Loop_end

text \<open>
  What can happen next: a reply to a pending request (a read returns at most the buffer), a
  timer that is due, input while it is watched, a signal whose handler is installed. A signal
  with the default action kills the process and is not an event here. \<open>Loop_end\<close> is the return of
  \<open>event_loop_wait\<close>, when the event library has nothing more to wait for; its state is not part of
  this model, so it may return at any time, and \<open>main\<close> then ends with the status 0.
\<close>

fun enabled :: "wx_event \<Rightarrow> 'h winexe \<Rightarrow> bool" where
  "enabled (Reply_event r rp) s = (r \<in> set (pending s) \<and> length (rp_data rp) \<le> buffer_size)"
| "enabled Timer_event s = (0 < timers s)"
| "enabled (Stdin_event input) s = (0 < stdin_watch s \<and> length input \<le> buffer_size)"
| "enabled (Signal_event sig) s = catching s sig"
| "enabled Loop_end s = True"

fun handle_event :: "'h wenv \<Rightarrow> wx_event \<Rightarrow> 'h winexe \<Rightarrow> 'h wx_res" where
  "handle_event e (Reply_event r rp) s = request_done (we_net e) (call_client e) r rp s"
| "handle_event e Timer_event s = timer e (s\<lparr>timers := timers s - 1\<rparr>)"
| "handle_event e (Stdin_event input) s = on_stdin_read_event e input s"
| "handle_event e (Signal_event sig) s = Ret () (catch_alarm sig s)"
| "handle_event e Loop_end s = Exit 0 s"

inductive wx_reach :: "'h wenv \<Rightarrow> 'h winexe \<Rightarrow> 'h winexe \<Rightarrow> bool" for e :: "'h wenv" and s0 :: "'h winexe" where
  wx_start: "wx_reach e s0 s0"
| wx_step: "wx_reach e s0 s \<Longrightarrow> enabled ev s \<Longrightarrow> handle_event e ev s = Ret () s' \<Longrightarrow> wx_reach e s0 s'"

text \<open>The same with the events handled so far, oldest first.\<close>

inductive wx_trace :: "'h wenv \<Rightarrow> 'h winexe \<Rightarrow> wx_event list \<Rightarrow> 'h winexe \<Rightarrow> bool"
  for e :: "'h wenv" and s0 :: "'h winexe" where
  trace_start: "wx_trace e s0 [] s0"
| trace_step: "wx_trace e s0 evs s \<Longrightarrow> enabled ev s \<Longrightarrow> handle_event e ev s = Ret () s' \<Longrightarrow>
    wx_trace e s0 (evs @ [ev]) s'"

lemma wx_trace_reach: "wx_trace e s0 evs s \<Longrightarrow> wx_reach e s0 s"
  by (induction rule: wx_trace.induct) (auto intro: wx_reach.intros)

text \<open>A run along a list of events, for executions; it stops at the first event that is not enabled.\<close>

fun run_events :: "'h wenv \<Rightarrow> wx_event list \<Rightarrow> 'h winexe \<Rightarrow> 'h wx_res" where
  "run_events e [] s = Ret () s"
| "run_events e (ev # evs) s =
     (if enabled ev s then andr (handle_event e ev s) (run_events e evs) else Ret () s)"

section \<open>The invariant of the program\<close>

text \<open>
  A context: the write queue is not in use, the buffer has its size, and the callbacks are the
  ones of the control pipe for the context 0 and of the io or the err pipe for the others.
\<close>

definition same_callbacks :: "wx_cb async_context \<Rightarrow> wx_cb async_context \<Rightarrow> bool" where
  "same_callbacks x y \<longleftrightarrow> cb_open x = cb_open y \<and> cb_read x = cb_read y \<and> cb_close x = cb_close y
     \<and> cb_error x = cb_error y"

definition ctx_ok :: "ctxid \<Rightarrow> wx_cb async_context \<Rightarrow> bool" where
  "ctx_ok c x \<longleftrightarrow> wreq x = None \<and> l_begin (wq x) = None \<and> length (buffer x) = buffer_size
     \<and> (if c = 0 then same_callbacks x ctrl_context
        else same_callbacks x io_context \<or> same_callbacks x err_context)"

definition ctxs_ok :: "(ctxid \<rightharpoonup> wx_cb async_context) \<Rightarrow> ctxid \<Rightarrow> bool" where
  "ctxs_ok m n \<longleftrightarrow> (\<forall>c x. m c = Some x \<longrightarrow> c < n \<and> ctx_ok c x)"

definition client_ctx :: "ctxid option \<Rightarrow> ctxid \<Rightarrow> bool" where
  "client_ctx c n \<longleftrightarrow> (case c of None \<Rightarrow> True | Some i \<Rightarrow> 0 < i \<and> i < n)"

definition wx_inv :: "program_args \<Rightarrow> 'h winexe \<Rightarrow> bool" where
  "wx_inv a s \<longleftrightarrow> wx_args s = a \<and> ac_ctrl s = 0 \<and> 0 < next_ctx s \<and> wx_state s \<noteq> STATE_CLOSING
     \<and> client_ctx (ac_io s) (next_ctx s) \<and> client_ctx (ac_err s) (next_ctx s)
     \<and> ctxs_ok (ctxs s) (next_ctx s)"

text \<open>
  The invariant with the return codes the program may hold, and how it may end from its event
  loop with a call of \<open>exit\<close>.
\<close>

definition wx_ok :: "program_args \<Rightarrow> u32 set \<Rightarrow> 'h winexe \<Rightarrow> bool" where
  "wx_ok a R s \<longleftrightarrow> wx_inv a s \<and> return_code s \<in> R"

definition wx_exit :: "'h wenv \<Rightarrow> program_args \<Rightarrow> u32 set \<Rightarrow> u32 \<Rightarrow> 'h winexe \<Rightarrow> bool" where
  "wx_exit e a R n s \<longleftrightarrow> n = return_code s \<and> n \<in> R \<and>
     (pa_uninstall a \<noteq> 0 \<longrightarrow>
        (\<exists>st w. svc_uninstall (we_scm e) (we_dbg e) (we_fuel e) (pa_hostname a) w = Ret st (svc s)))"

text \<open>
  The return codes a reply can tell: data that came on the control pipe, starting with the
  keyword, followed by the number. The rest of the read buffer may still hold older bytes.
\<close>

definition code_message :: "string \<Rightarrow> u32 \<Rightarrow> bool" where
  "code_message d v \<longleftrightarrow> (\<exists>rest p x. cmd_check (d @ rest) CMD_RETURN_CODE (length d) = Some p
     \<and> buf_strtoul 16 p = Some x \<and> v = ucast x)"

fun told_by :: "wx_event \<Rightarrow> u32 \<Rightarrow> bool" where
  "told_by (Reply_event r rp) v =
     (rq_fn r = Async_read_recv \<and> rq_private r = 0 \<and> NT_STATUS_IS_OK (rp_status rp) \<and> code_message (rp_data rp) v)"
| "told_by _ v = False"

lemma ctxs_ok_upd: "ctxs_ok m n \<Longrightarrow> ctx_ok c x \<Longrightarrow> c < n \<Longrightarrow> ctxs_ok (m(c \<mapsto> x)) n"
  by (auto simp: ctxs_ok_def)

lemma ctxs_ok_free: "ctxs_ok m n \<Longrightarrow> ctxs_ok (m(c := None)) n"
  by (auto simp: ctxs_ok_def)

lemma ctxs_ok_Suc: "ctxs_ok m n \<Longrightarrow> ctxs_ok m (Suc n)"
  by (auto simp: ctxs_ok_def less_Suc_eq)

lemma client_ctx_Suc: "client_ctx c n \<Longrightarrow> client_ctx c (Suc n)"
  by (auto simp: client_ctx_def split: option.splits)

lemma same_callbacks_upd [simp]:
  "same_callbacks (x\<lparr>fd := n\<rparr>) y = same_callbacks x y"
  "same_callbacks (x\<lparr>io_open := oa\<rparr>) y = same_callbacks x y"
  "same_callbacks (x\<lparr>io_read := ob\<rparr>) y = same_callbacks x y"
  "same_callbacks (x\<lparr>io_write := oc\<rparr>) y = same_callbacks x y"
  "same_callbacks (x\<lparr>io_close := od\<rparr>) y = same_callbacks x y"
  "same_callbacks (x\<lparr>rreq := r\<rparr>) y = same_callbacks x y"
  "same_callbacks (x\<lparr>buffer := d\<rparr>) y = same_callbacks x y"
  by (simp_all add: same_callbacks_def)

lemma ctxs_okD: "ctxs_ok m n \<Longrightarrow> m c = Some x \<Longrightarrow> c < n" "ctxs_ok m n \<Longrightarrow> m c = Some x \<Longrightarrow> ctx_ok c x"
  by (auto simp: ctxs_ok_def)

interpretation wx_async: async_inv "wx_ok a R" ctx_ok
proof (unfold_locales, goal_cases)
  case (1 s c x)
  then show ?case by (auto simp: wx_ok_def wx_inv_def dest: ctxs_okD)
next
  case (2 s c x)
  then show ?case by (auto simp: wx_ok_def wx_inv_def set_ctx_def intro: ctxs_ok_upd dest: ctxs_okD)
next
  case (3 s c)
  then show ?case by (simp add: wx_ok_def wx_inv_def ctxs_ok_free)
qed (simp_all add: wx_ok_def wx_inv_def ctx_ok_def)

text \<open>The service layer returns to its caller or does not return: it never ends the process.\<close>

abbreviation no_exit :: "('b, 'c) res \<Rightarrow> bool" where
  "no_exit \<equiv> all_res (\<lambda>_. True) (\<lambda>_ _. False)"

lemma no_exit_poll: "no_exit (svc_poll env n h p w)"
  by (induction n arbitrary: w) (auto simp: Let_def split: prod.splits)

lemma no_exit_reconfigure: "no_exit (svc_reconfigure env n flags ns h w)"
  by (auto simp: svc_reconfigure_def Let_def split: prod.splits intro!: all_res_bindr [OF no_exit_poll])

lemma no_exit_open: "no_exit (svc_open_or_create env lp n flags ns scm w)"
  by (auto simp: svc_open_or_create_def Let_def split: prod.splits option.splits bool.splits
      intro!: all_res_bindr [OF no_exit_reconfigure])

lemma no_exit_start: "no_exit (svc_start_and_wait env n flags ns scm h w)"
  by (auto simp: svc_start_and_wait_def Let_def split: prod.splits intro!: all_res_bindr [OF no_exit_poll])

lemma no_exit_install: "no_exit (svc_install env lp dbg n ns host flags w)"
  by (auto simp: svc_install_def Let_def no_exit_start split: prod.splits sum.splits
      intro!: all_res_bindr [OF no_exit_open])

lemma no_exit_stop: "no_exit (svc_stop_and_delete env n scm h w)"
  by (auto simp: svc_stop_and_delete_def Let_def split: prod.splits intro!: all_res_bindr [OF no_exit_poll])

lemma no_exit_uninstall: "no_exit (svc_uninstall env dbg n host w)"
  by (auto simp: svc_uninstall_def svc_uninstall_tail_def Let_def split: prod.splits option.splits
      intro!: all_res_bindr [OF no_exit_stop])

lemma svc_never_exits:
  "svc_install env lp dbg fuel ns host flags w \<noteq> Exit n w'" "svc_uninstall env dbg fuel host w \<noteq> Exit n w'"
  using no_exit_install [of env lp dbg fuel ns host flags w] no_exit_uninstall [of env dbg fuel host w]
  by auto

text \<open>What the callbacks assign of their own.\<close>

lemma wx_ok_fields:
  assumes "wx_ok a R s"
  shows "wx_ok a R (s\<lparr>svc := w\<rparr>)" "n \<in> R \<Longrightarrow> wx_ok a R (s\<lparr>return_code := n\<rparr>)" "wx_ok a R (s\<lparr>activated := b\<rparr>)"
    "wx_ok a R (s\<lparr>timers := k\<rparr>)" "wx_ok a R (s\<lparr>out_io := d\<rparr>)" "wx_ok a R (s\<lparr>out_err := d\<rparr>)"
    "wx_ok a R (s\<lparr>catching := f, timers := k\<rparr>)" "wx_ok a R (s\<lparr>stdin_watch := k, icanon := b\<rparr>)"
    "wx_ok a R (s\<lparr>abort_requested := b, catching := f\<rparr>)"
    "p \<noteq> STATE_CLOSING \<Longrightarrow> wx_ok a R (s\<lparr>wx_state := p\<rparr>)"
  using assms by (simp_all add: wx_ok_def wx_inv_def)

lemma lift_svc_keeps: "wx_ok a R s \<Longrightarrow> (\<And>n w. r \<noteq> Exit n w) \<Longrightarrow> all_res (wx_ok a R) Q (lift_svc r s)"
  by (auto simp: lift_svc_def wx_ok_fields split: res.splits)

lemma wx_install_keeps: "wx_ok a R s \<Longrightarrow> all_res (wx_ok a R) Q (wx_install e s)"
  by (simp add: wx_install_def lift_svc_keeps svc_never_exits)

lemma wx_uninstall_keeps: "wx_ok a R s \<Longrightarrow> all_res (wx_ok a R) Q (wx_uninstall e s)"
  by (simp add: wx_uninstall_def lift_svc_keeps svc_never_exits)

lemma exit_program_exit: "wx_ok a R s \<Longrightarrow> all_res P (wx_exit e a R) (exit_program e s)"
  by (cases "svc_uninstall (we_scm e) (we_dbg e) (we_fuel e) (pa_hostname (wx_args s)) (svc s)")
    (auto simp: exit_program_def wx_uninstall_def lift_svc_def wx_exit_def wx_ok_def wx_inv_def svc_never_exits)

lemma open_ctrl_keeps: "wx_ok a R s \<Longrightarrow> all_res (wx_ok a R) Q (open_ctrl e s)"
  by (auto simp: open_ctrl_def intro: all_res_andr [OF wx_async.open_keeps])

lemma close_for_reinstall_keeps: "wx_ok a R s \<Longrightarrow> all_res (wx_ok a R) Q (close_for_reinstall e s)"
  by (auto simp: close_for_reinstall_def wx_ok_fields intro!: all_res_andr [OF wx_async.close_keeps])

lemma on_ctrl_pipe_error_keeps:
  "wx_ok a R s \<Longrightarrow> 1 \<in> R \<Longrightarrow> all_res (wx_ok a R) (wx_exit e a R) (on_ctrl_pipe_error e func status s)"
  by (auto simp: on_ctrl_pipe_error_def wx_ok_fields split: option.splits bool.splits
      intro!: all_res_bindr [OF wx_install_keeps] exit_program_exit open_ctrl_keeps)

lemma ctx_ok_new: "0 < c \<Longrightarrow> ctx_ok c io_context" "0 < c \<Longrightarrow> ctx_ok c err_context" "ctx_ok 0 ctrl_context"
  by (simp_all add: ctx_ok_def same_callbacks_def io_context_def err_context_def ctrl_context_def
      zero_context_def)

lemma new_pipe_keeps:
  assumes "wx_ok a R s" "\<And>c. 0 < c \<Longrightarrow> ctx_ok c x"
    and store: "\<And>c t. wx_ok a R t \<Longrightarrow> 0 < c \<Longrightarrow> c < next_ctx t \<Longrightarrow> wx_ok a R (store c t)"
  shows "all_res (wx_ok a R) Q (new_pipe e x store fn s)"
proof -
  let ?t = "set_ctx (next_ctx s) x (s\<lparr>clk := clk s + 2, next_ctx := Suc (next_ctx s)\<rparr>)"
  have "wx_ok a R ?t"
    using assms(1) assms(2) [of "next_ctx s"]
    by (auto simp: wx_ok_def wx_inv_def set_ctx_def client_ctx_Suc intro: ctxs_ok_upd [OF ctxs_ok_Suc])
  moreover have "0 < next_ctx s" "next_ctx s < next_ctx ?t"
    using assms(1) by (simp_all add: wx_ok_def wx_inv_def set_ctx_def)
  ultimately have "wx_ok a R (store (next_ctx s) ?t)" by (rule store)
  then show ?thesis
    by (auto simp: new_pipe_def Let_def intro: all_res_andr [OF wx_async.open_keeps])
qed

lemma ctrl_std_io_err_keeps: "wx_ok a R s \<Longrightarrow> all_res (wx_ok a R) Q (ctrl_std_io_err e p s)"
  by (auto simp: ctrl_std_io_err_def Let_def split: option.splits
      intro!: all_res_andr [where P = "wx_ok a R"] new_pipe_keeps ctx_ok_new)
    (auto simp: wx_ok_def wx_inv_def client_ctx_def)

lemma ctrl_version_keeps: "wx_ok a R s \<Longrightarrow> all_res (wx_ok a R) Q (ctrl_version e p s)"
  by (auto simp: ctrl_version_def wx_ok_fields split: option.splits
      intro!: close_for_reinstall_keeps all_res_andr [OF wx_async.write_keeps] wx_async.I_tick)

lemma on_ctrl_pipe_read_keeps:
  assumes "wx_ok a R s"
    and "\<And>p v. cmd_check data CMD_RETURN_CODE len = Some p \<Longrightarrow> buf_strtoul 16 p = Some v \<Longrightarrow> ucast v \<in> R"
  shows "all_res (wx_ok a R) Q (on_ctrl_pipe_read e data len s)"
  using assms
  by (auto simp: on_ctrl_pipe_read_def wx_ok_fields split: option.splits
      intro: ctrl_std_io_err_keeps ctrl_version_keeps close_for_reinstall_keeps)

lemma on_ctrl_pipe_open_keeps: "wx_ok a R s \<Longrightarrow> all_res (wx_ok a R) Q (on_ctrl_pipe_open e s)"
  by (auto simp: on_ctrl_pipe_open_def wx_ok_fields
      intro!: all_res_andr [where P = "wx_ok a R", OF wx_async.write_keeps])

lemma on_ctrl_pipe_close_keeps: "wx_ok a R s \<Longrightarrow> all_res (wx_ok a R) Q (on_ctrl_pipe_close e s)"
  by (auto simp: on_ctrl_pipe_close_def wx_ok_fields
      intro!: all_res_andr [OF wx_install_keeps] all_res_andr [OF wx_uninstall_keeps] open_ctrl_keeps)

lemma close_pipe_keeps: "wx_ok a R s \<Longrightarrow> all_res (wx_ok a R) Q (close_pipe e c s)"
  by (auto simp: close_pipe_def split: option.splits intro: all_res_andr [OF wx_async.close_keeps])

text \<open>The calls that leave no other return code behind than those of \<open>R\<close>.\<close>

definition codes_in :: "u32 set \<Rightarrow> wx_cb \<Rightarrow> cb_args \<Rightarrow> bool" where
  "codes_in R f args \<longleftrightarrow> (\<forall>data len p v. f = On_ctrl_pipe_read \<longrightarrow> args = Cb_read data len \<longrightarrow>
     cmd_check data CMD_RETURN_CODE len = Some p \<longrightarrow> buf_strtoul 16 p = Some v \<longrightarrow> ucast v \<in> R)"

lemma call_client_keeps:
  "codes_in R f args \<Longrightarrow> 1 \<in> R \<Longrightarrow> wx_ok a R s \<Longrightarrow> all_res (wx_ok a R) (wx_exit e a R) (call_client e f args s)"
  by (cases "(e, f, args, s)" rule: call_client.cases)
    (auto simp: on_io_pipe_open_def on_io_pipe_read_def on_err_pipe_read_def on_io_pipe_error_def
      on_err_pipe_error_def wx_ok_fields codes_in_def
      intro: on_ctrl_pipe_open_keeps on_ctrl_pipe_read_keeps on_ctrl_pipe_error_keeps
        on_ctrl_pipe_close_keeps close_pipe_keeps)

text \<open>Only the control context has the callback that stores a return code.\<close>

lemma ctx_ok_ctrl: "ctx_ok c x \<Longrightarrow> cb_read x = Some On_ctrl_pipe_read \<Longrightarrow> c = 0"
  by (auto simp: ctx_ok_def same_callbacks_def io_context_def err_context_def zero_context_def split: if_splits)

lemma timer_keeps: "wx_ok a R s \<Longrightarrow> all_res (wx_ok a R) Q (timer e s)"
  by (auto simp: timer_def wx_ok_fields intro: all_res_andr [OF wx_async.write_keeps])

lemma stdin_keeps: "wx_ok a R s \<Longrightarrow> all_res (wx_ok a R) Q (on_stdin_read_event e input s)"
  by (auto simp: on_stdin_read_event_def split: option.splits intro: all_res_andr [OF wx_async.write_keeps])

lemma handle_event_keeps:
  assumes "wx_ok a R s" "1 \<in> R" "enabled ev s" "{v. told_by ev v} \<subseteq> R" "ev \<noteq> Loop_end"
  shows "all_res (wx_ok a R) (wx_exit e a R) (handle_event e ev s)"
proof (cases ev)
  case (Reply_event r rp)
  have "codes_in R f (Cb_read (rp_data rp @ rest) (length (rp_data rp)))"
    if "rq_fn r = Async_read_recv" "NT_STATUS_IS_OK (rp_status rp)" "ctx_ok (rq_private r) x" "cb_read x = Some f" for x f rest
    using that assms(4) Reply_event ctx_ok_ctrl [OF that(3)] by (auto simp: codes_in_def code_message_def)
  then show ?thesis
    using Reply_event assms
    by (auto intro!: wx_async.request_done_calls [where A = "codes_in R"] call_client_keeps simp: codes_in_def)
qed (use assms in \<open>auto simp: catch_alarm_def wx_ok_fields intro!: timer_keeps stdin_keeps\<close>)

text \<open>Before the loop: the state has the arguments and no context yet.\<close>

definition wx_pre :: "program_args \<Rightarrow> 'h winexe \<Rightarrow> bool" where
  "wx_pre a s \<longleftrightarrow> (\<exists>w. s = initial_state a w)"

lemma wx_pre_svc:
  "wx_pre a s \<Longrightarrow> all_res (wx_pre a) Q (wx_install e s)"
  "wx_pre a s \<Longrightarrow> all_res (wx_pre a) Q (wx_uninstall e s)"
  by (auto simp: wx_pre_def wx_install_def wx_uninstall_def lift_svc_def svc_never_exits initial_state_def
      split: res.splits)

lemma wx_connect_inv: "wx_pre a s \<Longrightarrow> 99 \<in> R \<Longrightarrow> all_res (wx_ok a R) (\<lambda>n _. n = 1) (wx_connect e s)"
  by (auto simp: wx_pre_def wx_connect_def Let_def split: prod.splits intro!: open_ctrl_keeps)
    (simp add: wx_ok_def wx_inv_def initial_state_def set_ctx_def ctxs_ok_def client_ctx_def ctx_ok_new)

lemma main_program_inv: "99 \<in> R \<Longrightarrow> all_res (wx_ok (main_flags a) R) (\<lambda>n _. n = 1) (main_program e a w)"
  by (auto simp: main_program_def Let_def wx_pre_def
      intro!: all_res_andr [where P = "wx_pre (main_flags a)"] wx_pre_svc wx_connect_inv)

lemma wx_trace_ok:
  assumes "wx_trace e s0 evs s" "wx_ok a {99} s0"
  shows "wx_ok a ({99, 1} \<union> {v. \<exists>ev \<in> set evs. told_by ev v}) s"
  using assms
proof (induction rule: wx_trace.induct)
  case trace_start
  then show ?case by (simp add: wx_ok_def)
next
  case (trace_step evs s ev s')
  let ?R = "{99, 1} \<union> {v. \<exists>x \<in> set (evs @ [ev]). told_by x v}"
  have "wx_ok a ?R s" using trace_step by (auto simp: wx_ok_def)
  moreover have "ev \<noteq> Loop_end" using trace_step.hyps(3) by auto
  ultimately have "all_res (wx_ok a ?R) (wx_exit e a ?R) (handle_event e ev s)"
    using trace_step.hyps(2) by (intro handle_event_keeps) auto
  with trace_step.hyps(3) show ?case by simp
qed

lemma wx_reach_inv:
  assumes "wx_reach e s0 s" "wx_inv a s0"
  shows "wx_inv a s"
proof -
  from assms have "wx_ok a UNIV s"
  proof (induction rule: wx_reach.induct)
    case (wx_step s ev s')
    then have "ev \<noteq> Loop_end" by auto
    with wx_step have "all_res (wx_ok a UNIV) (wx_exit e a UNIV) (handle_event e ev s)"
      by (intro handle_event_keeps) auto
    with wx_step show ?case by simp
  qed (simp add: wx_ok_def)
  then show ?thesis by (simp add: wx_ok_def)
qed

section \<open>Properties\<close>

text \<open>
  C3. In every state the program can reach, no write is ever waiting: the write queue of
  every pipe is empty and no write request is remembered, so that the serialisation of writes
  in the pipe layer is never used. The read buffer keeps its size, each pipe keeps its own
  callbacks, the arguments stay as \<open>main\<close> set them and the phase \<open>STATE_CLOSING\<close> is never
  entered.
\<close>

theorem winexe_invariant:
  assumes "main_program e a w = Ret () s0" "wx_reach e s0 s"
  shows "wx_args s = main_flags a \<and> wx_state s \<noteq> STATE_CLOSING \<and>
    (\<forall>c x. ctxs s c = Some x \<longrightarrow>
       wreq x = None \<and> l_begin (wq x) = None \<and> length (buffer x) = buffer_size \<and>
       (if c = ac_ctrl s then same_callbacks x ctrl_context
        else same_callbacks x io_context \<or> same_callbacks x err_context))"
proof -
  have "wx_inv (main_flags a) s0"
    using main_program_inv [where e = e and a = a and w = w and R = UNIV] assms(1) by (simp add: wx_ok_def)
  then have "wx_inv (main_flags a) s" by (rule wx_reach_inv [OF assms(2)])
  then show ?thesis by (auto simp: wx_inv_def ctx_ok_def dest!: ctxs_okD(2))
qed

text \<open>
  C4. The exit status of the program once it runs its event loop. When the loop returns, it is 0.
  Otherwise the program has ended itself: the status is the return code it has stored, and that is
  99, the value \<open>main\<close> has set, or 1, the value of an error, or a number that one of the handled
  replies has told: data read successfully from the control pipe that starts with the keyword
  \<open>return_code\<close> followed by this number in hexadecimal. With \<open>--uninstall\<close> the last thing the
  program has done is a complete call of \<open>svc_uninstall\<close>.
\<close>

theorem winexe_exit_status:
  assumes "main_program e a w = Ret () s0" "wx_trace e s0 evs s" "enabled ev s"
    and "handle_event e ev s = Exit n s'"
  shows "if ev = Loop_end then n = 0
    else n = return_code s' \<and> (n = 99 \<or> n = 1 \<or> (\<exists>x \<in> set (evs @ [ev]). told_by x n))
      \<and> (pa_uninstall a = 0 \<or>
        (\<exists>st v. svc_uninstall (we_scm e) (we_dbg e) (we_fuel e) (pa_hostname a) v = Ret st (svc s')))"
proof (cases "ev = Loop_end")
  case False
  let ?R = "{99, 1} \<union> {v. \<exists>x \<in> set (evs @ [ev]). told_by x v}"
  have "wx_ok (main_flags a) {99} s0"
    using main_program_inv [where e = e and a = a and w = w and R = "{99}"] assms(1) by simp
  from wx_trace_ok [OF assms(2) this] have "wx_ok (main_flags a) ?R s" by (auto simp: wx_ok_def)
  then have "all_res (wx_ok (main_flags a) ?R) (wx_exit e (main_flags a) ?R) (handle_event e ev s)"
    using assms(3) False by (intro handle_event_keeps) auto
  from all_res_ExitD [OF this assms(4)] False show ?thesis
    by (auto simp: wx_exit_def main_flags_def Let_def)
qed (use assms(4) in simp)

lemma count_args_eq:
  "i \<le> length ws \<Longrightarrow> count_args i n ws argc = (if length ws < i + n then length ws else argc)"
proof (induction n arbitrary: i)
  case (Suc n)
  show ?case
  proof (cases "i = length ws")
    case False
    with Suc.prems Suc.IH [of "Suc i"] show ?thesis by simp
  qed simp
qed simp

lemma double_slash: "char_at s 0 = CHR ''/'' \<and> char_at s 1 = CHR ''/'' \<longleftrightarrow> has_prefix s ''//''"
  by (cases s; cases "tl s") (auto simp: char_at_def)

text \<open>
  Which command lines are accepted, for \<open>argc\<close> words of which \<open>ws\<close> are no options: the
  first one must start with two slashes, and there must be two of them and at least one option
  word, or a single one and no option. So \<open>winexe //host command\<close> without any option is
  refused although the usage text asks for it, and \<open>winexe //host\<close> is accepted without a
  command.
\<close>

theorem parse_args_accepts:
  assumes "ws \<noteq> []" "length ws < argc"
  shows "(\<exists>a'. parse_args (-1) argc (Some ws) a = Ret a' ()) \<longleftrightarrow>
    has_prefix (hd ws) ''//'' \<and> (length ws = 2 \<and> argc \<noteq> 3 \<or> length ws = 1 \<and> argc = 2)"
proof -
  have "(\<exists>a'. parse_args (-1) argc (Some ws) a = Ret a' ()) \<longleftrightarrow>
      count_args 0 (argc - 1) ws argc = 2 \<and> has_prefix (hd ws) ''//''"
    using assms(1) double_slash [of "hd ws"] by (auto simp: parse_args_def hd_conv_nth)
  moreover have "count_args 0 (argc - 1) ws argc = (if length ws < argc - 1 then length ws else argc)"
    by (simp add: count_args_eq)
  moreover have "(if length ws < argc - 1 then length ws else argc) = 2 \<longleftrightarrow>
      length ws = 2 \<and> argc \<noteq> 3 \<or> length ws = 1 \<and> argc = 2"
  proof -
    have "0 < length ws" using assms(1) by simp
    with assms(2) show ?thesis by presburger
  qed
  ultimately show ?thesis by (simp only: conj_commute)
qed

text \<open>The arguments as \<open>main\<close> initialises them, before the command line is read.\<close>

definition default_args :: program_args where
  "default_args = \<lparr>pa_hostname = [], pa_cmd = None, pa_reinstall = 0, pa_uninstall = 0, pa_system = 0,
     pa_runas = None, pa_interactive = SVC_IGNORE_INTERACTIVE, pa_ostype = 2, pa_flags = 0\<rparr>"

theorem parse_args_accepts_witness:
  "\<not> (\<exists>a'. parse_args (-1) 3 (Some [''//host'', ''ipconfig'']) default_args = Ret a' ())
   \<and> (\<exists>a'. parse_args (-1) 4 (Some [''//host'', ''ipconfig'']) default_args = Ret a' ())
   \<and> (\<exists>a'. parse_args (-1) 2 (Some [''//host'']) default_args = Ret a' ())"
  using parse_args_accepts [of "[''//host'', ''ipconfig'']" 3 default_args]
    parse_args_accepts [of "[''//host'', ''ipconfig'']" 4 default_args]
    parse_args_accepts [of "[''//host'']" 2 default_args] by simp

end
