(* ===== verification/WinexeSvc.thy ===== *)
theory WinexeSvc
  imports CString
begin

text \<open>
  The service program, \<open>winexe/winexesvc/winexesvc.c\<close>: reading and writing lines on the
  control pipe, the commands \<open>set\<close>, \<open>get\<close> and \<open>run\<close>, the connection loop and the server
  loop that accepts connections.

  Every call of the Win32 API is a value of \<open>w32_call\<close> with the arguments that matter. An
  environment \<open>env\<close> answers it from the state of the kernel; the world keeps the calls with
  their answers, so that what the service does is a property of that trace. Memory
  allocation succeeds.
\<close>

section \<open>The Win32 calls\<close>

type_synonym HANDLE = nat

abbreviation (input) "ERROR_IO_PENDING \<equiv> (997 :: u32)"
abbreviation (input) "ERROR_PIPE_CONNECTED \<equiv> (535 :: u32)"
abbreviation (input) "WAIT_OBJECT_0 \<equiv> (0 :: u32)"
abbreviation (input) "FILE_ALL_ACCESS \<equiv> (0x1F01FF :: u32)"

text \<open>The entry of the access list \<open>CreatePipesSA\<close> makes, and the security attributes.\<close>

record explicit_access =
  ea_permissions :: u32
  ea_sid :: "nat list"
  ea_inherit :: bool

record security_attributes =
  sa_dacl :: "explicit_access list"
  sa_inherit_handle :: bool

datatype w32_call =
    ReadFile HANDLE nat
  | WriteFile HANDLE string
  | GetOverlappedResult HANDLE
  | FlushFileBuffers HANDLE
  | CloseHandle HANDLE
  | CreateEvent
  | ResetEvent HANDLE
  | CreateNamedPipe string bool security_attributes
  | ConnectNamedPipe HANDLE
  | DisconnectNamedPipe HANDLE
  | SetHandleInformation HANDLE
  | LogonUser string string "string option"
  | OpenProcessToken
  | ImpersonateNamedPipeClient HANDLE
  | OpenThreadToken
  | DuplicateTokenEx HANDLE int
  | RevertToSelf
  | GetCurrentProcessId
  | CreateProcessAsUser HANDLE string HANDLE HANDLE
  | WaitForMultipleObjects HANDLE HANDLE
  | GetExitCodeProcess HANDLE
  | TerminateProcess HANDLE u32
  | AllocateAndInitializeSid "nat list"
  | SetEntriesInAcl explicit_access
  | LocalAlloc
  | InitializeSecurityDescriptor
  | SetSecurityDescriptorDacl
  | CreateThread HANDLE int

record w32_answer =
  wa_ok :: bool
  wa_error :: u32
  wa_handle :: HANDLE
  wa_thread :: HANDLE
  wa_count :: u32
  wa_byte :: char
  wa_code :: u32

record 'k w32 =
  kernel :: 'k
  calls :: "(w32_call \<times> w32_answer) list"

type_synonym 'k w32_env = "w32_call \<Rightarrow> 'k \<Rightarrow> w32_answer \<times> 'k"

definition w32 :: "'k w32_env \<Rightarrow> w32_call \<Rightarrow> 'k w32 \<Rightarrow> w32_answer \<times> 'k w32" where
  "w32 env c w = (let (a, k) = env c (kernel w) in (a, \<lparr>kernel = k, calls = calls w @ [(c, a)]\<rparr>))"

text \<open>A call whose answer the code does not look at.\<close>

definition w32x :: "'k w32_env \<Rightarrow> w32_call \<Rightarrow> 'k w32 \<Rightarrow> 'k w32" where
  "w32x env c w = snd (w32 env c w)"

section \<open>Security attributes of the pipes\<close>

text \<open>
  BUILTIN\Administrators is the SID with the sub-authorities SECURITY_BUILTIN_DOMAIN_RID and
  DOMAIN_ALIAS_RID_ADMINS. None is the result 0.
\<close>

definition CreatePipesSA :: "'k w32_env \<Rightarrow> 'k w32 \<Rightarrow> security_attributes option \<times> 'k w32" where
  "CreatePipesSA env w0 =
     (let sid = [0x20, 0x220];
          (a, w1) = w32 env (AllocateAndInitializeSid sid) w0 in
      if \<not> wa_ok a then (None, w1)
      else
        (let ea = \<lparr>ea_permissions = FILE_ALL_ACCESS, ea_sid = sid, ea_inherit = False\<rparr>;
             (b, w2) = w32 env (SetEntriesInAcl ea) w1 in
         if wa_error b \<noteq> 0 then (None, w2)
         else
           (let (c, w3) = w32 env LocalAlloc w2 in
            if \<not> wa_ok c then (None, w3)
            else
              (let (d, w4) = w32 env InitializeSecurityDescriptor w3 in
               if \<not> wa_ok d then (None, w4)
               else
                 (let (f, w5) = w32 env SetSecurityDescriptorDacl w4 in
                  if \<not> wa_ok f then (None, w5)
                  else (Some \<lparr>sa_dacl = [ea], sa_inherit_handle = False\<rparr>, w5))))))"

section \<open>Lines on a pipe\<close>

record OV_HANDLE =
  ov_h :: HANDLE
  ov_event :: HANDLE

text \<open>
  The loop of \<open>hgets\<close>: at most \<open>n\<close> bytes, one at a time, up to a newline or an error; the
  bytes are what it has stored in \<open>str\<close>, and the return value is their number.
\<close>

fun hgets_loop :: "'k w32_env \<Rightarrow> OV_HANDLE \<Rightarrow> nat \<Rightarrow> 'k w32 \<Rightarrow> string \<times> 'k w32" where
  "hgets_loop env pipe 0 w = ([], w)"
| "hgets_loop env pipe (Suc n) w =
     (let (a, w1) = w32 env (ReadFile (ov_h pipe) 1) w in
      if \<not> wa_ok a \<and> wa_error a \<noteq> ERROR_IO_PENDING then ([], w1)
      else
        (let (b, w2) = w32 env (GetOverlappedResult (ov_h pipe)) w1 in
         if \<not> wa_ok b \<or> wa_count b = 0 then ([], w2)
         else if wa_byte b = CHR 0x0A then ([], w2)
         else (let (s, w3) = hgets_loop env pipe n w2 in (wa_byte b # s, w3))))"

text \<open>The buffer \<open>str\<close> after the call, and the count; \<open>n\<close> is the size of the buffer.\<close>

definition hgets :: "'k w32_env \<Rightarrow> string \<Rightarrow> nat \<Rightarrow> OV_HANDLE \<Rightarrow> 'k w32 \<Rightarrow> nat \<times> string \<times> 'k w32" where
  "hgets env str n pipe w =
     (let (s, w1) = hgets_loop env pipe (n - 1) w
      in (length s, s @ CHR 0x00 # drop (Suc (length s)) str, w1))"

text \<open>\<open>hprintf\<close> with the formatted text: what does not fit into its buffer of 1024 bytes is lost.\<close>

definition hprintf :: "'k w32_env \<Rightarrow> OV_HANDLE \<Rightarrow> string \<Rightarrow> 'k w32 \<Rightarrow> 'k w32" where
  "hprintf env pipe text w =
     (let buf = take 1023 (cstr text);
          (a, w1) = w32 env (WriteFile (ov_h pipe) buf) w;
          w2 = (if \<not> wa_ok a \<and> wa_error a = ERROR_IO_PENDING
                then w32x env (GetOverlappedResult (ov_h pipe)) w1 else w1)
      in w32x env (FlushFileBuffers (ov_h pipe)) w2)"

section \<open>Commands\<close>

record connection_context =
  cc_pipe :: OV_HANDLE
  cc_cmd :: string
  cc_pio :: HANDLE
  cc_perr :: HANDLE
  cc_token :: HANDLE
  cc_implevel :: int
  cc_system :: int
  cc_runas :: "string option"
  cc_conn_number :: int

abbreviation (input) "nl \<equiv> [CHR 0x0A]"

definition cmd_set :: "'k w32_env \<Rightarrow> connection_context \<Rightarrow> 'k w32 \<Rightarrow> int \<times> connection_context \<times> 'k w32" where
  "cmd_set env c w =
     (case strchr (cc_cmd c) (CHR '' '') of
        None \<Rightarrow> (0, c, w)
      | Some t \<Rightarrow>
          (let cmdline = drop 1 t in
           if has_prefix cmdline ''system'' \<and> char_at cmdline 6 = CHR '' ''
           then (1, c\<lparr>cc_system := atoi (drop 7 cmdline)\<rparr>, w)
           else if has_prefix cmdline ''implevel'' \<and> char_at cmdline 8 = CHR '' ''
           then (1, c\<lparr>cc_implevel := atoi (drop 9 cmdline)\<rparr>, w)
           else if has_prefix cmdline ''runas'' \<and> char_at cmdline 5 = CHR '' ''
           then (1, c\<lparr>cc_runas := Some (drop 6 cmdline)\<rparr>, w)
           else (0, c, hprintf env (cc_pipe c) (''error Unknown commad ('' @ cc_cmd c @ '')'' @ nl) w)))"

definition cmd_get :: "'k w32_env \<Rightarrow> connection_context \<Rightarrow> 'k w32 \<Rightarrow> int \<times> connection_context \<times> 'k w32" where
  "cmd_get env c w =
     (case strchr (cc_cmd c) (CHR '' '') of
        None \<Rightarrow> (0, c, w)
      | Some t \<Rightarrow>
          (let cmdline = drop 1 t in
           if has_prefix cmdline ''version'' \<and> char_at cmdline 7 = CHR 0x00
           then (1, c, hprintf env (cc_pipe c) (''version 0x'' @ fmt_X 4 90 @ nl) w)
           else (0, c, hprintf env (cc_pipe c) (''error Unknown argument ('' @ cc_cmd c @ '')'' @ nl) w)))"

record credentials =
  cr_user :: string
  cr_domain :: string
  cr_password :: "string option"

text \<open>\<open>until s c\<close>: the text before the first \<open>c\<close>, where the code writes a NUL.\<close>

definition until :: "string \<Rightarrow> char \<Rightarrow> string" where
  "until s ch = takeWhile (\<lambda>x. x \<noteq> ch) s"

definition prepare_credentials :: "string \<Rightarrow> credentials" where
  "prepare_credentials str =
     (let (domain, user) =
        (case strchr str (CHR ''/'') of
           Some t \<Rightarrow> (until str (CHR ''/''), drop 1 t)
         | None \<Rightarrow>
             (case strchr str (CHR 0x5C) of
                Some t \<Rightarrow> (until str (CHR 0x5C), drop 1 t)
              | None \<Rightarrow> (''.'', str)))
      in case strchr user (CHR ''%'') of
           Some t \<Rightarrow> \<lparr>cr_user = until user (CHR ''%''), cr_domain = domain, cr_password = Some (drop 1 t)\<rparr>
         | None \<Rightarrow> \<lparr>cr_user = user, cr_domain = domain, cr_password = None\<rparr>)"

definition show_arg :: "string option \<Rightarrow> string" where
  "show_arg s = (case s of None \<Rightarrow> ''(null)'' | Some t \<Rightarrow> t)"

definition error_number :: "string \<Rightarrow> u32 \<Rightarrow> string" where
  "error_number msg err = msg @ '' '' @ fmt_d (sint err) @ nl"

text \<open>The label \<open>finishRevertToSelf\<close> of \<open>get_token\<close>.\<close>

definition token_revert ::
    "'k w32_env \<Rightarrow> int \<Rightarrow> connection_context \<Rightarrow> 'k w32 \<Rightarrow> int \<times> connection_context \<times> 'k w32" where
  "token_revert env res c w =
     (if cc_system c = 0
      then (let (a, w1) = w32 env RevertToSelf w in
            if \<not> wa_ok a
            then (0, c, hprintf env (cc_pipe c) (error_number ''error Cannot RevertToSelf'' (wa_error a)) w1)
            else (res, c, w1))
      else (res, c, w))"

text \<open>From \<open>DuplicateTokenEx\<close> through the label \<open>finishCloseToken\<close>.\<close>

definition token_duplicate ::
    "'k w32_env \<Rightarrow> HANDLE \<Rightarrow> connection_context \<Rightarrow> 'k w32 \<Rightarrow> int \<times> connection_context \<times> 'k w32" where
  "token_duplicate env token c w =
     (let (a, w1) = w32 env (DuplicateTokenEx token (cc_implevel c)) w in
      if \<not> wa_ok a
      then token_revert env 0 c (w32x env (CloseHandle token)
             (hprintf env (cc_pipe c) (error_number ''error Cannot Duplicate Token'' (wa_error a)) w1))
      else token_revert env 1 (c\<lparr>cc_token := wa_handle a\<rparr>) (w32x env (CloseHandle token) w1))"

definition get_token :: "'k w32_env \<Rightarrow> connection_context \<Rightarrow> 'k w32 \<Rightarrow> int \<times> connection_context \<times> 'k w32" where
  "get_token env c w =
     (case cc_runas c of
        Some r \<Rightarrow>
          (let crd = prepare_credentials r;
               (a, w1) = w32 env (LogonUser (cr_user crd) (cr_domain crd) (cr_password crd)) w in
           if \<not> wa_ok a
           then (0, c, hprintf env (cc_pipe c)
                   (error_number (''error Cannot LogonUser('' @ cr_user crd @ '','' @ cr_domain crd @ '',''
                      @ show_arg (cr_password crd) @ '')'') (wa_error a)) w1)
           else (1, c\<lparr>cc_token := wa_handle a\<rparr>, w1))
      | None \<Rightarrow>
          if cc_system c \<noteq> 0
          then (let (a, w1) = w32 env OpenProcessToken w in
                if \<not> wa_ok a
                then (0, c, hprintf env (cc_pipe c) (error_number ''error Cannot OpenProcessToken'' (wa_error a)) w1)
                else token_duplicate env (wa_handle a) c w1)
          else
            (let (a, w1) = w32 env (ImpersonateNamedPipeClient (ov_h (cc_pipe c))) w in
             if \<not> wa_ok a
             then (0, c, hprintf env (cc_pipe c)
                     (error_number ''error Cannot ImpersonateNamedPipeClient'' (wa_error a)) w1)
             else
               (let (b, w2) = w32 env OpenThreadToken w1 in
                if \<not> wa_ok b
                then token_revert env 0 c
                       (hprintf env (cc_pipe c) (error_number ''error Cannot OpenThreadToken'' (wa_error b)) w2)
                else token_duplicate env (wa_handle b) c w2)))"

text \<open>The names the service gives its pipes, and the number both ends use.\<close>

definition pipe_number :: "u32 \<Rightarrow> int \<Rightarrow> u32" where
  "pipe_number pid conn = push_bit 16 pid + word_of_int conn"

definition pipe_path :: "string \<Rightarrow> u32 \<Rightarrow> string" where
  "pipe_path name n = [CHR 0x5C, CHR 0x5C] @ ''.'' @ [CHR 0x5C] @ ''pipe'' @ [CHR 0x5C] @ name @ fmt_X 8 (unat n)"

text \<open>The process has been created: wait for it or for the client, end it, report its exit code.\<close>

definition run_wait ::
    "'k w32_env \<Rightarrow> connection_context \<Rightarrow> HANDLE \<Rightarrow> HANDLE \<Rightarrow> 'k w32 \<Rightarrow> 'k w32" where
  "run_wait env c hProcess hThread w =
     (let pipe = cc_pipe c;
          w1 = w32x env (ResetEvent (ov_event pipe)) w;
          w2 = w32x env (ReadFile (ov_h pipe) 1) w1;
          (a, w3) = w32 env (WaitForMultipleObjects (ov_event pipe) hProcess) w2;
          (ec, w4) =
            (if wa_code a \<noteq> WAIT_OBJECT_0
             then (let (b, w) = w32 env (GetExitCodeProcess hProcess) w3
                   in (if wa_ok b then wa_code b else wa_code a, w))
             else (0x1234, w32x env (TerminateProcess hProcess 0x1234) w3));
          w5 = w32x env (FlushFileBuffers (cc_pio c)) w4;
          w6 = w32x env (FlushFileBuffers (cc_perr c)) w5;
          w7 = w32x env (CloseHandle hProcess) w6;
          w8 = w32x env (CloseHandle hThread) w7
      in hprintf env pipe (''return_code '' @ fmt_X 8 (unat ec) @ nl) w8)"

definition run_process ::
    "'k w32_env \<Rightarrow> connection_context \<Rightarrow> string \<Rightarrow> 'k w32 \<Rightarrow> 'k w32" where
  "run_process env c cmdline w =
     (let w1 = w32x env (SetHandleInformation (cc_pio c)) w;
          w2 = w32x env (SetHandleInformation (cc_perr c)) w1;
          (a, w3) = w32 env (CreateProcessAsUser (cc_token c) cmdline (cc_pio c) (cc_perr c)) w2
      in if wa_ok a then run_wait env c (wa_handle a) (wa_thread a) w3
         else hprintf env (cc_pipe c)
                (error_number (''error Creating process('' @ cmdline @ '')'') (wa_error a)) w3)"

text \<open>\<open>ConnectNamedPipe\<close> without overlap: a client that is already there counts as connected.\<close>

definition pipe_connected :: "'k w32_env \<Rightarrow> HANDLE \<Rightarrow> 'k w32 \<Rightarrow> bool \<times> 'k w32" where
  "pipe_connected env h w =
     (let (a, w1) = w32 env (ConnectNamedPipe h) w
      in (wa_ok a \<or> wa_error a = ERROR_PIPE_CONNECTED, w1))"

text \<open>Both pipes exist: tell the client, wait for it on both, run the process.\<close>

definition run_connected ::
    "'k w32_env \<Rightarrow> connection_context \<Rightarrow> u32 \<Rightarrow> string \<Rightarrow> 'k w32 \<Rightarrow> 'k w32" where
  "run_connected env c pipe_nr cmdline w =
     (let w1 = hprintf env (cc_pipe c) (''std_io_err '' @ fmt_X 8 (unat pipe_nr) @ nl) w;
          (ok1, w2) = pipe_connected env (cc_pio c) w1
      in if \<not> ok1 then hprintf env (cc_pipe c) (''error ConnectNamedPipe(pio)'' @ nl) w2
         else
           (let (ok2, w3) = pipe_connected env (cc_perr c) w2;
                w4 = (if \<not> ok2 then hprintf env (cc_pipe c) (''error ConnectNamedPipe(perr)'' @ nl) w3
                      else w32x env (DisconnectNamedPipe (cc_perr c)) (run_process env c cmdline w3))
            in w32x env (DisconnectNamedPipe (cc_pio c)) w4))"

definition cmd_run ::
    "'k w32_env \<Rightarrow> security_attributes \<Rightarrow> connection_context \<Rightarrow> 'k w32 \<Rightarrow> int \<times> connection_context \<times> 'k w32" where
  "cmd_run env sa c w0 =
     (case strchr (cc_cmd c) (CHR '' '') of
        None \<Rightarrow> (0, c, w0)
      | Some t \<Rightarrow>
          (let cmdline = drop 1 t; (res, c1, w1) = get_token env c w0 in
           if res = 0 then (0, c1, w1)
           else
             (let (p, w2) = w32 env GetCurrentProcessId w1;
                  pipe_nr = pipe_number (wa_code p) (cc_conn_number c1);
                  io_name = pipe_path ''ahexec_stdio'' pipe_nr;
                  (a, w3) = w32 env (CreateNamedPipe io_name False sa) w2;
                  c2 = c1\<lparr>cc_pio := wa_handle a\<rparr>;
                  (c3, w4) =
                    (if \<not> wa_ok a
                     then (c2, hprintf env (cc_pipe c2)
                             (''error Cannot create io pipe('' @ io_name @ ''), error 0x''
                                @ fmt_X 8 (unat (wa_error a)) @ nl) w3)
                     else
                       (let (b, w) = w32 env (CreateNamedPipe (pipe_path ''ahexec_stderr'' pipe_nr) False sa) w3;
                            c3 = c2\<lparr>cc_perr := wa_handle b\<rparr>;
                            w' = (if \<not> wa_ok b
                                  then hprintf env (cc_pipe c3) (''error Cannot create err pipe'' @ nl) w
                                  else w32x env (CloseHandle (cc_perr c3)) (run_connected env c3 pipe_nr cmdline w))
                        in (c3, w32x env (CloseHandle (cc_pio c3)) w')))
              in (0, c3, w32x env (CloseHandle (cc_token c3)) w4))))"

section \<open>The connection loop\<close>

text \<open>The table of commands: the first name that starts the line and ends at a blank or at its end.\<close>

datatype cmd_func = Cmd_run | Cmd_set | Cmd_get

definition cmd_table :: "(string \<times> cmd_func) list" where
  "cmd_table = [(''run'', Cmd_run), (''set'', Cmd_set), (''get'', Cmd_get)]"

fun find_cmd :: "(string \<times> cmd_func) list \<Rightarrow> string \<Rightarrow> cmd_func option" where
  "find_cmd [] cmd = None"
| "find_cmd ((name, f) # ci) cmd =
     (if has_prefix cmd name
         \<and> (char_at cmd (length name) = CHR 0x00 \<or> char_at cmd (length name) = CHR '' '')
      then Some f else find_cmd ci cmd)"

fun call_cmd ::
    "'k w32_env \<Rightarrow> security_attributes \<Rightarrow> cmd_func \<Rightarrow> connection_context \<Rightarrow> 'k w32 \<Rightarrow>
     int \<times> connection_context \<times> 'k w32" where
  "call_cmd env sa Cmd_run c w = cmd_run env sa c w"
| "call_cmd env sa Cmd_set c w = cmd_set env c w"
| "call_cmd env sa Cmd_get c w = cmd_get env c w"

abbreviation MAX_COMMAND_LENGTH :: nat where "MAX_COMMAND_LENGTH \<equiv> 32768"

text \<open>One round: False when the loop goes to \<open>finish\<close>. The buffer is the C string of the command.\<close>

definition connection_round ::
    "'k w32_env \<Rightarrow> security_attributes \<Rightarrow> string \<Rightarrow> connection_context \<Rightarrow> 'k w32 \<Rightarrow>
     bool \<times> string \<times> connection_context \<times> 'k w32" where
  "connection_round env sa buf c w =
     (let (res, buf1, w1) = hgets env buf MAX_COMMAND_LENGTH (cc_pipe c) w;
          c1 = c\<lparr>cc_cmd := cstr buf1\<rparr>
      in if res = 0 then (False, buf1, c1, w1)
         else
           (case find_cmd cmd_table (cc_cmd c1) of
              Some f \<Rightarrow> (let (r, c2, w2) = call_cmd env sa f c1 w1 in (r \<noteq> 0, buf1, c2, w2))
            | None \<Rightarrow>
                (True, buf1, c1,
                 hprintf env (cc_pipe c1) (''error Ignoring unknown command ('' @ cc_cmd c1 @ '')'' @ nl) w1)))"

text \<open>The loop, with fuel: None is a connection that was still open when it ran out.\<close>

fun connection_loop ::
    "'k w32_env \<Rightarrow> security_attributes \<Rightarrow> nat \<Rightarrow> string \<Rightarrow> connection_context \<Rightarrow> 'k w32 \<Rightarrow>
     (connection_context \<times> 'k w32) option" where
  "connection_loop env sa 0 buf c w = None"
| "connection_loop env sa (Suc n) buf c w =
     (let (go, buf1, c1, w1) = connection_round env sa buf c w
      in if go then connection_loop env sa n buf1 c1 w1 else Some (c1, w1))"

definition new_connection :: "OV_HANDLE \<Rightarrow> int \<Rightarrow> connection_context" where
  "new_connection pipe conn = \<lparr>cc_pipe = pipe, cc_cmd = [], cc_pio = 0, cc_perr = 0, cc_token = 0,
     cc_implevel = 0, cc_system = 0, cc_runas = None, cc_conn_number = conn\<rparr>"

definition handle_connection ::
    "'k w32_env \<Rightarrow> security_attributes \<Rightarrow> nat \<Rightarrow> OV_HANDLE \<Rightarrow> int \<Rightarrow> 'k w32 \<Rightarrow> 'k w32 option" where
  "handle_connection env sa fuel pipe conn w =
     (case connection_loop env sa fuel (replicate MAX_COMMAND_LENGTH (CHR 0x00)) (new_connection pipe conn) w of
        None \<Rightarrow> None
      | Some (c, w1) \<Rightarrow>
          (let w2 = w32x env (FlushFileBuffers (ov_h (cc_pipe c))) w1;
               w3 = w32x env (DisconnectNamedPipe (ov_h (cc_pipe c))) w2;
               w4 = w32x env (CloseHandle (ov_h (cc_pipe c))) w3
           in Some (w32x env (CloseHandle (ov_event (cc_pipe c))) w4)))"

section \<open>The server loop\<close>

definition close_ov :: "'k w32_env \<Rightarrow> OV_HANDLE \<Rightarrow> 'k w32 \<Rightarrow> 'k w32" where
  "close_ov env pipe w = w32x env (CloseHandle (ov_event pipe)) (w32x env (CloseHandle (ov_h pipe)) w)"

text \<open>
  One iteration: False when the control pipe cannot be created and the loop returns 0; else
  the value of \<open>conn_number\<close> afterwards. A connection is a thread that runs
  \<open>handle_connection\<close> on the pipe with its number.
\<close>

definition server_iteration ::
    "'k w32_env \<Rightarrow> security_attributes \<Rightarrow> int \<Rightarrow> 'k w32 \<Rightarrow> bool \<times> int \<times> 'k w32" where
  "server_iteration env sa conn_number w0 =
     (let (ev, w1) = w32 env CreateEvent w0;
          (p, w2) = w32 env (CreateNamedPipe ([CHR 0x5C, CHR 0x5C] @ ''.'' @ [CHR 0x5C] @ ''pipe'' @ [CHR 0x5C]
                      @ ''ahexec'') True sa) w1
      in if \<not> wa_ok p then (False, conn_number, w32x env (CloseHandle (wa_handle ev)) w2)
         else
           (let pipe = \<lparr>ov_h = wa_handle p, ov_event = wa_handle ev\<rparr>;
                (a, w3) = w32 env (ConnectNamedPipe (ov_h pipe)) w2;
                (res, w4) =
                  (if wa_ok a then (False, w3)
                   else if wa_error a = ERROR_IO_PENDING
                   then (let (b, w) = w32 env (GetOverlappedResult (ov_h pipe)) w3 in (wa_ok b, w))
                   else (wa_error a = ERROR_PIPE_CONNECTED, w3))
            in if res
               then
                 (let n = conn_number + 1;
                      (th, w5) = w32 env (CreateThread (ov_h pipe) n) w4
                  in if \<not> wa_ok th then (True, n, close_ov env pipe w5)
                     else (True, n, w32x env (CloseHandle (wa_handle th)) w5))
               else (True, conn_number, close_ov env pipe w4)))"

fun server_iterations ::
    "'k w32_env \<Rightarrow> security_attributes \<Rightarrow> nat \<Rightarrow> int \<Rightarrow> 'k w32 \<Rightarrow> bool \<times> int \<times> 'k w32" where
  "server_iterations env sa 0 conn w = (True, conn, w)"
| "server_iterations env sa (Suc k) conn w =
     (let (go, conn1, w1) = server_iteration env sa conn w
      in if go then server_iterations env sa k conn1 w1 else (False, conn1, w1))"

text \<open>The first \<open>k\<close> iterations of \<open>server_loop\<close>, from the start of the service.\<close>

definition server_loop :: "'k w32_env \<Rightarrow> nat \<Rightarrow> 'k w32 \<Rightarrow> bool \<times> int \<times> 'k w32" where
  "server_loop env k w =
     (case CreatePipesSA env w of
        (None, w1) \<Rightarrow> (False, 0, w1)
      | (Some sa, w1) \<Rightarrow> server_iterations env sa k 0 w1)"

end
