(* ===== verification/SvcTrace.thy ===== *)
theory SvcTrace
  imports WinexeSvc
begin

text \<open>
  Properties of the service program: the bounds of \<open>hgets\<close>, the handles \<open>cmd_run\<close> opens and
  closes, the token it runs the program with, the parser of the credentials, the numbers and
  the security of the pipes, and a contract of the control pipe as a stream of bytes under
  which lines are read back and a connection comes to its end.
\<close>

section \<open>Handles\<close>

text \<open>What a call with its answer adds to and takes from the open handles.\<close>

definition one :: "bool \<Rightarrow> int" where "one b = (if b then 1 else 0)"

fun opens :: "w32_call \<Rightarrow> w32_answer \<Rightarrow> HANDLE \<Rightarrow> int" where
  "opens (CreateNamedPipe n ov sa) a h = one (wa_ok a \<and> h = wa_handle a)"
| "opens (LogonUser u d p) a h = one (wa_ok a \<and> h = wa_handle a)"
| "opens OpenProcessToken a h = one (wa_ok a \<and> h = wa_handle a)"
| "opens OpenThreadToken a h = one (wa_ok a \<and> h = wa_handle a)"
| "opens (DuplicateTokenEx t l) a h = one (wa_ok a \<and> h = wa_handle a)"
| "opens (CreateProcessAsUser t cl x y) a h = one (wa_ok a \<and> h = wa_handle a) + one (wa_ok a \<and> h = wa_thread a)"
| "opens _ a h = 0"

fun closes :: "w32_call \<Rightarrow> HANDLE \<Rightarrow> int" where
  "closes (CloseHandle x) h = one (h = x)"
| "closes _ h = 0"

definition open_count :: "(w32_call \<times> w32_answer) list \<Rightarrow> HANDLE \<Rightarrow> int" where
  "open_count t h = sum_list (map (\<lambda>(c, a). opens c a h - closes c h) t)"

definition reverts_ok :: "(w32_call \<times> w32_answer) list \<Rightarrow> bool" where
  "reverts_ok t \<longleftrightarrow> (\<forall>(c, a) \<in> set t. c = RevertToSelf \<longrightarrow> wa_ok a)"

lemma calls_w32: "w32 env c w = (a, w') \<Longrightarrow> calls w' = calls w @ [(c, a)]"
  by (auto simp: w32_def split: prod.splits)

lemma open_count_w32:
  "w32 env c w = (a, w') \<Longrightarrow> open_count (calls w') h = open_count (calls w) h + opens c a h - closes c h"
  by (simp add: open_count_def calls_w32)

lemma open_count_quiet [simp]:
  "(\<And>a. opens c a h = 0) \<Longrightarrow> open_count (calls (w32x env c w)) h = open_count (calls w) h - closes c h"
  by (cases "w32 env c w") (simp add: w32x_def open_count_w32)

lemma open_count_hprintf [simp]: "open_count (calls (hprintf env pipe s w)) h = open_count (calls w) h"
  by (auto simp: hprintf_def Let_def open_count_w32 split: prod.splits)

lemma calls_w32x: "\<exists>a. calls (w32x env c w) = calls w @ [(c, a)]"
  by (cases "w32 env c w") (auto simp: w32x_def calls_w32)

lemma open_count_run_wait:
  "open_count (calls (run_wait env c p t w)) h = open_count (calls w) h - one (h = p) - one (h = t)"
  by (auto simp: run_wait_def Let_def open_count_w32 split: prod.splits)

lemma open_count_run_process [simp]:
  "open_count (calls (run_process env c cmdline w)) h = open_count (calls w) h"
  by (auto simp: run_process_def Let_def open_count_w32 open_count_run_wait one_def split: prod.splits)

lemma open_count_pipe_connected:
  "pipe_connected env p w = (b, w') \<Longrightarrow> open_count (calls w') h = open_count (calls w) h"
  by (auto simp: pipe_connected_def open_count_w32 split: prod.splits)

lemma open_count_run_connected [simp]:
  "open_count (calls (run_connected env c n cmdline w)) h = open_count (calls w) h"
  by (auto simp: run_connected_def Let_def open_count_pipe_connected split: prod.splits)

lemma calls_mono: "x \<in> set (calls w) \<Longrightarrow> x \<in> set (calls (w32x env c w))"
  using calls_w32x [of env c w] by auto

lemma hprintf_mono: "x \<in> set (calls w) \<Longrightarrow> x \<in> set (calls (hprintf env pipe s w))"
  by (auto simp: hprintf_def Let_def calls_w32 split: prod.splits intro!: calls_mono)

lemma token_revert_count:
  assumes "token_revert env res c w = (r, c', w')"
  shows "open_count (calls w') h = open_count (calls w) h" and "c' = c"
  using assms by (auto simp: token_revert_def open_count_w32 split: prod.splits if_splits)

lemma token_revert_result:
  assumes "token_revert env res c w = (r, c', w')" "reverts_ok (calls w')"
  shows "r = res"
proof (rule ccontr)
  assume "r \<noteq> res"
  with assms(1) obtain a w1 where a: "w32 env RevertToSelf w = (a, w1)" "\<not> wa_ok a"
    and w': "w' = hprintf env (cc_pipe c) (error_number ''error Cannot RevertToSelf'' (wa_error a)) w1"
    by (auto simp: token_revert_def split: prod.splits if_splits)
  have "(RevertToSelf, a) \<in> set (calls w')"
    unfolding w' by (rule hprintf_mono) (simp add: calls_w32 [OF a(1)])
  with assms(2) a(2) show False by (auto simp: reverts_ok_def)
qed

lemma token_duplicate_count:
  assumes "token_duplicate env tok c w = (r, c', w')" "reverts_ok (calls w')"
  shows "open_count (calls w') h = open_count (calls w) h - one (h = tok)
    + (if r = 0 then 0 else one (h = cc_token c'))"
proof -
  obtain a w1 where a: "w32 env (DuplicateTokenEx tok (cc_implevel c)) w = (a, w1)" by force
  show ?thesis
  proof (cases "wa_ok a")
    case True
    with assms(1) a have rev: "token_revert env 1 (c\<lparr>cc_token := wa_handle a\<rparr>)
        (w32x env (CloseHandle tok) w1) = (r, c', w')" by (simp add: token_duplicate_def)
    with True a show ?thesis
      using token_revert_count [OF rev] token_revert_result [OF rev assms(2)]
      by (simp add: open_count_w32 one_def)
  next
    case False
    with assms(1) a have rev: "token_revert env 0 c (w32x env (CloseHandle tok)
        (hprintf env (cc_pipe c) (error_number ''error Cannot Duplicate Token'' (wa_error a)) w1)) = (r, c', w')"
      by (simp add: token_duplicate_def)
    with False a show ?thesis
      using token_revert_count [OF rev] token_revert_result [OF rev assms(2)]
      by (simp add: open_count_w32 one_def)
  qed
qed

lemma get_token_count:
  assumes "get_token env c w = (r, c', w')" "reverts_ok (calls w')"
  shows "open_count (calls w') h = open_count (calls w) h + (if r = 0 then 0 else one (h = cc_token c'))"
proof (cases "cc_runas c")
  case (Some u)
  with assms(1) show ?thesis
    by (auto simp: get_token_def Let_def open_count_w32 one_def split: prod.splits if_splits)
next
  case None
  show ?thesis
  proof (cases "cc_system c = 0")
    case False
    obtain a w1 where a: "w32 env OpenProcessToken w = (a, w1)" by force
    show ?thesis
    proof (cases "wa_ok a")
      case True
      with assms(1) None False a have dup: "token_duplicate env (wa_handle a) c w1 = (r, c', w')"
        by (simp add: get_token_def)
      show ?thesis using token_duplicate_count [OF dup assms(2)] True a by (simp add: open_count_w32)
    qed (use assms(1) None False a in \<open>auto simp: get_token_def open_count_w32 one_def\<close>)
  next
    case True
    obtain a w1 where a: "w32 env (ImpersonateNamedPipeClient (ov_h (cc_pipe c))) w = (a, w1)" by force
    obtain b w2 where b: "w32 env OpenThreadToken w1 = (b, w2)" by force
    consider "\<not> wa_ok a" | "wa_ok a" "\<not> wa_ok b" | "wa_ok a" "wa_ok b" by blast
    then show ?thesis
    proof cases
      case 1
      with assms(1) None True a show ?thesis by (auto simp: get_token_def open_count_w32)
    next
      case 2
      with assms(1) None True a b have rev: "token_revert env 0 c (hprintf env (cc_pipe c)
          (error_number ''error Cannot OpenThreadToken'' (wa_error b)) w2) = (r, c', w')"
        by (simp add: get_token_def)
      show ?thesis
        using token_revert_count [OF rev] token_revert_result [OF rev assms(2)] 2 a b
        by (simp add: open_count_w32 one_def)
    next
      case 3
      with assms(1) None True a b have dup: "token_duplicate env (wa_handle b) c w2 = (r, c', w')"
        by (simp add: get_token_def)
      show ?thesis using token_duplicate_count [OF dup assms(2)] 3 a b by (simp add: open_count_w32)
    qed
  qed
qed

lemma w32_mono: "w32 env c w = (a, w') \<Longrightarrow> x \<in> set (calls w) \<Longrightarrow> x \<in> set (calls w')"
  by (simp add: calls_w32)

lemma run_wait_mono: "x \<in> set (calls w) \<Longrightarrow> x \<in> set (calls (run_wait env c p t w))"
  by (auto simp: run_wait_def Let_def split: prod.splits intro!: hprintf_mono calls_mono elim!: w32_mono)

lemma run_process_mono: "x \<in> set (calls w) \<Longrightarrow> x \<in> set (calls (run_process env c cmdline w))"
  by (auto simp: run_process_def Let_def split: prod.splits
      intro!: hprintf_mono run_wait_mono calls_mono elim!: w32_mono)

lemma pipe_connected_mono: "pipe_connected env h w = (b, w') \<Longrightarrow> x \<in> set (calls w) \<Longrightarrow> x \<in> set (calls w')"
  by (auto simp: pipe_connected_def calls_w32 split: prod.splits)

lemma run_connected_mono: "x \<in> set (calls w) \<Longrightarrow> x \<in> set (calls (run_connected env c n cmdline w))"
  by (auto simp: run_connected_def Let_def split: prod.splits
      intro!: hprintf_mono run_process_mono calls_mono elim!: pipe_connected_mono)

lemmas trace_mono = hprintf_mono calls_mono run_connected_mono

text \<open>
  The rest of \<open>cmd_run\<close> after \<open>get_token\<close>: it takes the token from the open handles and
  leaves the others as they were.
\<close>

lemma cmd_run_after_token:
  assumes "cmd_run env sa c w = (r, c', w')" "strchr (cc_cmd c) (CHR '' '') = Some t"
    and "get_token env c w = (k, c1, w1)" "k \<noteq> 0"
  shows "open_count (calls w') h = open_count (calls w1) h - one (h = cc_token c1)"
    and "x \<in> set (calls w1) \<Longrightarrow> x \<in> set (calls w')"
proof -
  obtain p w2 where p: "w32 env GetCurrentProcessId w1 = (p, w2)" by force
  let ?n = "pipe_number (wa_code p) (cc_conn_number c1)"
  obtain a w3 where a: "w32 env (CreateNamedPipe (pipe_path ''ahexec_stdio'' ?n) False sa) w2 = (a, w3)" by force
  obtain b w4 where b: "w32 env (CreateNamedPipe (pipe_path ''ahexec_stderr'' ?n) False sa) w3 = (b, w4)" by force
  note run = assms(1) [unfolded cmd_run_def assms(2) option.case Let_def assms(3) p prod.case a b]
  show "open_count (calls w') h = open_count (calls w1) h - one (h = cc_token c1)"
    using run assms(4)
    by (auto simp: open_count_w32 [OF p] open_count_w32 [OF a] open_count_w32 [OF b] one_def split: if_splits)
  show "x \<in> set (calls w1) \<Longrightarrow> x \<in> set (calls w')"
    using run assms(4)
    by (auto simp: calls_w32 [OF p] calls_w32 [OF a] calls_w32 [OF b] split: if_splits intro!: trace_mono)
qed

text \<open>
  C7. \<open>cmd_run\<close> always ends the connection (it returns 0), and when no call of \<open>RevertToSelf\<close>
  has failed it leaves no handle behind, whichever other calls failed: tokens, pipes, the process
  and its thread are closed as often as they were opened. (A failing \<open>RevertToSelf\<close> makes
  \<open>get_token\<close> fail after it has made the token, which is then not closed.)
\<close>

theorem cmd_run_handles:
  assumes "cmd_run env sa c w = (r, c', w')" "reverts_ok (calls w')"
  shows "r = 0 \<and> open_count (calls w') h = open_count (calls w) h"
proof (cases "strchr (cc_cmd c) (CHR '' '')")
  case None
  with assms(1) show ?thesis by (auto simp: cmd_run_def)
next
  case (Some t)
  obtain k c1 w1 where k: "get_token env c w = (k, c1, w1)" by (metis prod_cases3)
  show ?thesis
  proof (cases "k = 0")
    case True
    with assms k Some show ?thesis
      using get_token_count [OF k] by (auto simp: cmd_run_def)
  next
    case False
    have "reverts_ok (calls w1)"
      using assms(2) cmd_run_after_token(2) [OF assms(1) Some k False] by (auto simp: reverts_ok_def)
    moreover have "r = 0"
      using assms(1) Some k False by (auto simp: cmd_run_def Let_def split: prod.splits)
    ultimately show ?thesis
      using get_token_count [OF k, of h] cmd_run_after_token(1) [OF assms(1) Some k False, of h] False by simp
  qed
qed

section \<open>The token\<close>

lemma token_revert_success:
  assumes "token_revert env res c w = (1, c', w')"
  shows "res = 1 \<and> c' = c \<and> (\<exists>t. calls w' = calls w @ t \<and>
    (if cc_system c = 0 then (\<exists>a. wa_ok a \<and> t = [(RevertToSelf, a)]) else t = []))"
  using assms by (auto simp: token_revert_def calls_w32 split: prod.splits if_splits)

lemma token_duplicate_success:
  assumes "token_duplicate env tok c w = (1, c', w')"
  shows "\<exists>d x t. wa_ok d \<and> cc_token c' = wa_handle d
    \<and> calls w' = calls w @ [(DuplicateTokenEx tok (cc_implevel c), d), (CloseHandle tok, x)] @ t
    \<and> (if cc_system c = 0 then (\<exists>a. wa_ok a \<and> t = [(RevertToSelf, a)]) else t = [])"
proof -
  obtain d w1 where d: "w32 env (DuplicateTokenEx tok (cc_implevel c)) w = (d, w1)" by force
  have ok: "wa_ok d"
    using assms d token_revert_success [of env 0 c] by (auto simp: token_duplicate_def split: if_splits)
  then have rev: "token_revert env 1 (c\<lparr>cc_token := wa_handle d\<rparr>) (w32x env (CloseHandle tok) w1) = (1, c', w')"
    using assms d by (simp add: token_duplicate_def)
  obtain x where "calls (w32x env (CloseHandle tok) w1) = calls w1 @ [(CloseHandle tok, x)]"
    using calls_w32x by blast
  with ok token_revert_success [OF rev] show ?thesis
    by (intro exI [of _ d] exI [of _ x]) (auto simp: calls_w32 [OF d])
qed

text \<open>
  How the text of the credentials is read, as a grammar: the domain stands before the first slash
  of the text, wherever that is, or in a text without slashes before the first backslash, and is
  a dot in a text with neither; the user name follows up to the first per cent sign, and the
  password after it.
\<close>

definition name_and_password :: "string \<Rightarrow> string option \<Rightarrow> string" where
  "name_and_password user password = user @ (case password of None \<Rightarrow> [] | Some p \<Rightarrow> CHR ''%'' # p)"

definition reads_as :: "string \<Rightarrow> string \<Rightarrow> string \<Rightarrow> string option \<Rightarrow> bool" where
  "reads_as text user domain password \<longleftrightarrow> CHR ''%'' \<notin> set user \<and>
     (text = domain @ CHR ''/'' # name_and_password user password \<and> CHR ''/'' \<notin> set domain
      \<or> text = domain @ CHR 0x5C # name_and_password user password \<and> CHR ''/'' \<notin> set text \<and> CHR 0x5C \<notin> set domain
      \<or> text = name_and_password user password \<and> CHR ''/'' \<notin> set text \<and> CHR 0x5C \<notin> set text \<and> domain = ''.'')"

lemma until_append: "ch \<notin> set p \<Longrightarrow> until (p @ ch # r) ch = p"
  by (induction p) (auto simp: until_def)

lemma name_and_password_split:
  "\<exists>user password. s = name_and_password user password \<and> CHR ''%'' \<notin> set user
    \<and> (case strchr s (CHR ''%'') of Some t \<Rightarrow> user = until s (CHR ''%'') \<and> password = Some (drop 1 t)
       | None \<Rightarrow> user = s \<and> password = None)"
proof (cases "strchr s (CHR ''%'')")
  case None
  then have "CHR ''%'' \<notin> set s" by (simp add: strchr_None)
  with None show ?thesis by (auto simp: name_and_password_def intro!: exI [of _ s] exI [of _ None])
next
  case (Some t)
  then obtain p r where "s = p @ CHR ''%'' # r" "t = CHR ''%'' # r" "CHR ''%'' \<notin> set p"
    using strchr_Some_split by blast
  then show ?thesis
    by (intro exI [of _ p] exI [of _ "Some r"]) (simp add: name_and_password_def strchr_append until_append)
qed

lemma prepare_credentials_reads:
  "reads_as r (cr_user (prepare_credentials r)) (cr_domain (prepare_credentials r)) (cr_password (prepare_credentials r))"
proof -
  have fields: "cr_user c = user \<and> cr_password c = password \<and> cr_domain c = d"
    if "case strchr s (CHR ''%'') of Some t \<Rightarrow> user = until s (CHR ''%'') \<and> password = Some (drop 1 t)
       | None \<Rightarrow> user = s \<and> password = None"
      and "c = (case strchr s (CHR ''%'') of
           Some t \<Rightarrow> \<lparr>cr_user = until s (CHR ''%''), cr_domain = d, cr_password = Some (drop 1 t)\<rparr>
         | None \<Rightarrow> \<lparr>cr_user = s, cr_domain = d, cr_password = None\<rparr>)" for s d user password c
    using that by (auto split: option.splits)
  consider p q where "r = p @ CHR ''/'' # q" "CHR ''/'' \<notin> set p"
    | p q where "CHR ''/'' \<notin> set r" "r = p @ CHR 0x5C # q" "CHR 0x5C \<notin> set p"
    | "CHR ''/'' \<notin> set r" "CHR 0x5C \<notin> set r"
    by (metis strchr_None strchr_Some_split option.exhaust)
  then show ?thesis
  proof cases
    case (1 p q)
    then have c: "prepare_credentials r = (case strchr q (CHR ''%'') of
        Some t \<Rightarrow> \<lparr>cr_user = until q (CHR ''%''), cr_domain = p, cr_password = Some (drop 1 t)\<rparr>
      | None \<Rightarrow> \<lparr>cr_user = q, cr_domain = p, cr_password = None\<rparr>)"
      by (simp add: prepare_credentials_def strchr_append until_append)
    obtain user password where u: "q = name_and_password user password" "CHR ''%'' \<notin> set user"
      and k: "case strchr q (CHR ''%'') of Some t \<Rightarrow> user = until q (CHR ''%'') \<and> password = Some (drop 1 t)
         | None \<Rightarrow> user = q \<and> password = None"
      using name_and_password_split [of q] by blast
    from fields [OF k c] u 1 show ?thesis by (simp add: reads_as_def)
  next
    case (2 p q)
    then have "strchr r (CHR ''/'') = None" by (simp add: strchr_None)
    with 2 have c: "prepare_credentials r = (case strchr q (CHR ''%'') of
        Some t \<Rightarrow> \<lparr>cr_user = until q (CHR ''%''), cr_domain = p, cr_password = Some (drop 1 t)\<rparr>
      | None \<Rightarrow> \<lparr>cr_user = q, cr_domain = p, cr_password = None\<rparr>)"
      by (simp add: prepare_credentials_def strchr_append until_append)
    obtain user password where u: "q = name_and_password user password" "CHR ''%'' \<notin> set user"
      and k: "case strchr q (CHR ''%'') of Some t \<Rightarrow> user = until q (CHR ''%'') \<and> password = Some (drop 1 t)
         | None \<Rightarrow> user = q \<and> password = None"
      using name_and_password_split [of q] by blast
    from fields [OF k c] u 2 show ?thesis by (simp add: reads_as_def)
  next
    case 3
    then have "strchr r (CHR ''/'') = None" "strchr r (CHR 0x5C) = None" by (simp_all add: strchr_None)
    then have c: "prepare_credentials r = (case strchr r (CHR ''%'') of
        Some t \<Rightarrow> \<lparr>cr_user = until r (CHR ''%''), cr_domain = ''.'', cr_password = Some (drop 1 t)\<rparr>
      | None \<Rightarrow> \<lparr>cr_user = r, cr_domain = ''.'', cr_password = None\<rparr>)"
      by (simp add: prepare_credentials_def)
    obtain user password where u: "r = name_and_password user password" "CHR ''%'' \<notin> set user"
      and k: "case strchr r (CHR ''%'') of Some t \<Rightarrow> user = until r (CHR ''%'') \<and> password = Some (drop 1 t)
         | None \<Rightarrow> user = r \<and> password = None"
      using name_and_password_split [of r] by blast
    from fields [OF k c] u 3 show ?thesis by (simp add: reads_as_def)
  qed
qed

text \<open>The calls that get a token for a connection, with their answers.\<close>

definition token_calls :: "connection_context \<Rightarrow> (w32_call \<times> w32_answer) list \<Rightarrow> HANDLE \<Rightarrow> bool" where
  "token_calls c t tok \<longleftrightarrow>
     (case cc_runas c of
        Some r \<Rightarrow>
          (\<exists>a user domain password. reads_as r user domain password \<and> wa_ok a \<and> tok = wa_handle a \<and>
             t = [(LogonUser user domain password, a)])
      | None \<Rightarrow>
          if cc_system c \<noteq> 0 then
            (\<exists>a d x. wa_ok a \<and> wa_ok d \<and> tok = wa_handle d \<and>
               t = [(OpenProcessToken, a), (DuplicateTokenEx (wa_handle a) (cc_implevel c), d),
                    (CloseHandle (wa_handle a), x)])
          else
            (\<exists>i a d x r. wa_ok i \<and> wa_ok a \<and> wa_ok d \<and> wa_ok r \<and> tok = wa_handle d \<and>
               t = [(ImpersonateNamedPipeClient (ov_h (cc_pipe c)), i), (OpenThreadToken, a),
                    (DuplicateTokenEx (wa_handle a) (cc_implevel c), d),
                    (CloseHandle (wa_handle a), x), (RevertToSelf, r)]))"

text \<open>
  C8. When \<open>get_token\<close> succeeds, its calls were these and no others, and the token is the one
  they gave. With credentials: one logon, with user, domain and password as the grammar \<open>reads_as\<close>
  reads them from the text (the domain ends at the first slash of the whole text, which may be one in
  the password, and only in a text without slashes at the first backslash). Without them and with
  the system flag: a duplicate of the token of the service process. Otherwise: a duplicate of the
  token of the thread made while it impersonated the client of the pipe, and the impersonation was
  reverted before \<open>get_token\<close> returned.
\<close>

theorem get_token_identity:
  assumes "get_token env c w = (1, c', w')"
  shows "\<exists>t. calls w' = calls w @ t \<and> token_calls c t (cc_token c')"
proof (cases "cc_runas c")
  case (Some r)
  with assms prepare_credentials_reads [of r] show ?thesis
    by (auto simp: get_token_def Let_def token_calls_def calls_w32 split: prod.splits if_splits)
next
  case None
  show ?thesis
  proof (cases "cc_system c = 0")
    case False
    obtain a w1 where a: "w32 env OpenProcessToken w = (a, w1)" by force
    with assms None False have ok: "wa_ok a" and dup: "token_duplicate env (wa_handle a) c w1 = (1, c', w')"
      by (auto simp: get_token_def split: if_splits)
    from token_duplicate_success [OF dup] False None ok show ?thesis
      by (auto simp: token_calls_def calls_w32 [OF a])
  next
    case True
    obtain i w1 where i: "w32 env (ImpersonateNamedPipeClient (ov_h (cc_pipe c))) w = (i, w1)" by force
    obtain a w2 where a: "w32 env OpenThreadToken w1 = (a, w2)" by force
    from assms None True i a have ok: "wa_ok i" "wa_ok a"
      and dup: "token_duplicate env (wa_handle a) c w2 = (1, c', w')"
      by (auto simp: get_token_def split: if_splits dest: token_revert_success)
    from token_duplicate_success [OF dup] True None ok show ?thesis
      by (auto simp: token_calls_def calls_w32 [OF i] calls_w32 [OF a])
  qed
qed

section \<open>Credentials\<close>

text \<open>
  Credentials with a domain, separated by a slash or a backslash, and a password are read
  as they were written, provided that no separator character occurs where the parser looks
  for one: no slash before the separator and none at all when the separator is a backslash.
\<close>

theorem prepare_credentials_domain:
  assumes "sep = CHR ''/'' \<or> sep = CHR 0x5C \<and> CHR ''/'' \<notin> set (domain @ user @ password)"
    and "sep \<notin> set domain" "CHR ''/'' \<notin> set domain" "CHR ''%'' \<notin> set user"
  shows "prepare_credentials (domain @ sep # user @ CHR ''%'' # password)
    = \<lparr>cr_user = user, cr_domain = domain, cr_password = Some password\<rparr>"
proof -
  have "strchr (domain @ CHR 0x5C # user @ CHR ''%'' # password) (CHR ''/'') = None"
    if "CHR ''/'' \<notin> set (domain @ user @ password)"
    using that by (auto simp: strchr_None)
  with assms show ?thesis
    by (auto simp: prepare_credentials_def strchr_append until_append)
qed

theorem prepare_credentials_domain_witness:
  "prepare_credentials (''DOM'' @ CHR 0x5C # ''user'' @ CHR ''%'' # ''secret'')
    = \<lparr>cr_user = ''user'', cr_domain = ''DOM'', cr_password = Some ''secret''\<rparr>"
  using prepare_credentials_domain [of "CHR 0x5C" "''DOM''" "''user''" "''secret''"] by simp

text \<open>
  A slash in the password is taken for the separator: the part of the text before it
  becomes the domain, the rest the user, and there is no password. The option is documented
  as \<open>[DOMAIN\]USERNAME%PASSWORD\<close>.
\<close>

theorem prepare_credentials_slash_in_password:
  assumes "CHR ''/'' \<notin> set (user @ p1)" "CHR ''%'' \<notin> set p2"
  shows "prepare_credentials (user @ CHR ''%'' # p1 @ CHR ''/'' # p2)
    = \<lparr>cr_user = p2, cr_domain = user @ CHR ''%'' # p1, cr_password = None\<rparr>"
proof -
  have "CHR ''/'' \<notin> set (user @ CHR ''%'' # p1)" "strchr p2 (CHR ''%'') = None"
    using assms by (auto simp: strchr_None)
  then show ?thesis
    using strchr_append [of "CHR ''/''" "user @ CHR ''%'' # p1" p2]
      until_append [of "CHR ''/''" "user @ CHR ''%'' # p1" p2]
    by (simp add: prepare_credentials_def)
qed

theorem prepare_credentials_slash_in_password_witness:
  "prepare_credentials (''user'' @ CHR ''%'' # ''se'' @ CHR ''/'' # ''cret'')
    = \<lparr>cr_user = ''cret'', cr_domain = ''user'' @ CHR ''%'' # ''se'', cr_password = None\<rparr>"
  using prepare_credentials_slash_in_password [of "''user''" "''se''" "''cret''"] by simp

section \<open>Pipe numbers and security\<close>

lemma unat_pipe_number:
  assumes "unat pid < 65536" "0 \<le> conn" "conn < 65536"
  shows "unat (pipe_number pid conn) = unat pid * 65536 + nat conn"
proof -
  have "push_bit 16 pid = pid * 65536" by (simp add: push_bit_eq_mult)
  then have "unat (push_bit 16 pid) = unat pid * 65536"
    using assms(1) by (simp add: unat_word_ariths)
  moreover have "unat (word_of_int conn :: u32) = nat conn"
    using assms(2,3) by (simp add: unsigned_of_int take_bit_int_eq_self)
  ultimately show ?thesis
    using assms by (simp add: pipe_number_def unat_word_ariths)
qed

lemma mult_add_unique: "a * m + c = b * m + d \<Longrightarrow> c < m \<Longrightarrow> d < (m :: nat) \<Longrightarrow> a = b \<and> c = d"
proof -
  assume eq: "a * m + c = b * m + d" and lt: "c < m" "d < m"
  have "(a * m + c) div m = a" "(b * m + d) div m = b" using lt by simp_all
  with eq show ?thesis by auto
qed

text \<open>
  The pipes of two connections have different names: the number made of the process id
  and the connection number tells apart all process ids below 65536 and the first 65535
  connections of a service process, and the name tells apart the numbers.
\<close>

theorem pipe_names_distinct:
  assumes "unat pid < 65536" "unat pid' < 65536" "0 \<le> conn" "conn < 65536" "0 \<le> conn'" "conn' < 65536"
    and "pid \<noteq> pid' \<or> conn \<noteq> conn'"
  shows "pipe_path name (pipe_number pid conn) \<noteq> pipe_path name (pipe_number pid' conn')"
proof
  assume "pipe_path name (pipe_number pid conn) = pipe_path name (pipe_number pid' conn')"
  then have "unat (pipe_number pid conn) = unat (pipe_number pid' conn')"
    by (auto simp: pipe_path_def dest: fmt_X_inj)
  then have "unat pid * 65536 + nat conn = unat pid' * 65536 + nat conn'"
    by (simp only: unat_pipe_number [OF assms(1,3,4)] unat_pipe_number [OF assms(2,5,6)])
  moreover have "nat conn < 65536" "nat conn' < 65536" using assms by simp_all
  ultimately have "unat pid = unat pid' \<and> nat conn = nat conn'" by (rule mult_add_unique)
  with assms show False by (auto simp: word_unat_eq_iff eq_nat_nat_iff)
qed

theorem pipe_names_distinct_witness:
  "pipe_path ''ahexec_stdio'' (pipe_number 0x1A4 1) \<noteq> pipe_path ''ahexec_stdio'' (pipe_number 0x1A4 2)"
  using pipe_names_distinct [of "0x1A4" "0x1A4" 1 2 "''ahexec_stdio''"] by simp

text \<open>The pipes of a trace, with their attributes, and the connections it started.\<close>

fun pipe_attributes :: "(w32_call \<times> w32_answer) list \<Rightarrow> security_attributes list" where
  "pipe_attributes [] = []"
| "pipe_attributes ((c, a) # t) =
     (case c of CreateNamedPipe n ov sa \<Rightarrow> sa # pipe_attributes t | _ \<Rightarrow> pipe_attributes t)"

fun started :: "(w32_call \<times> w32_answer) list \<Rightarrow> int list" where
  "started [] = []"
| "started ((c, a) # t) = (case c of CreateThread h n \<Rightarrow> n # started t | _ \<Rightarrow> started t)"

lemma pipe_attributes_append [simp]: "pipe_attributes (t @ u) = pipe_attributes t @ pipe_attributes u"
  by (induction t rule: pipe_attributes.induct) (auto split: w32_call.splits)

lemma started_append [simp]: "started (t @ u) = started t @ started u"
  by (induction t rule: started.induct) (auto split: w32_call.splits)

definition admin_sa :: security_attributes where
  "admin_sa = \<lparr>sa_dacl = [\<lparr>ea_permissions = FILE_ALL_ACCESS, ea_sid = [0x20, 0x220], ea_inherit = False\<rparr>],
     sa_inherit_handle = False\<rparr>"

lemma calls_w32x_close [simp]:
  "pipe_attributes (calls (w32x env (CloseHandle h) w)) = pipe_attributes (calls w)"
  "started (calls (w32x env (CloseHandle h) w)) = started (calls w)"
  using calls_w32x [of env "CloseHandle h" w] by auto

lemma server_iteration_calls:
  assumes "server_iteration env sa conn w = (go, conn', w')"
  shows "pipe_attributes (calls w') = pipe_attributes (calls w) @ [sa]"
    and "conn' = conn \<and> started (calls w') = started (calls w)
       \<or> conn' = conn + 1 \<and> started (calls w') = started (calls w) @ [conn']"
  using assms
  by (auto simp: server_iteration_def Let_def close_ov_def calls_w32 split: prod.splits if_splits)

lemma server_iterations_calls:
  assumes "server_iterations env sa k conn w = (go, conn', w')"
  shows "conn \<le> conn' \<and> started (calls w') = started (calls w) @ [conn + 1..conn']
    \<and> (\<exists>n. pipe_attributes (calls w') = pipe_attributes (calls w) @ replicate n sa)"
  using assms
proof (induction k arbitrary: conn w)
  case 0
  then show ?case by (auto intro: exI [of _ 0])
next
  case (Suc k)
  obtain go1 conn1 w1 where it: "server_iteration env sa conn w = (go1, conn1, w1)" by (metis prod_cases3)
  note once = server_iteration_calls [OF it]
  show ?case
  proof (cases go1)
    case True
    with Suc.prems it have "server_iterations env sa k conn1 w1 = (go, conn', w')" by simp
    from Suc.IH [OF this] obtain n where IH: "conn1 \<le> conn'"
      "started (calls w') = started (calls w1) @ [conn1 + 1..conn']"
      "pipe_attributes (calls w') = pipe_attributes (calls w1) @ replicate n sa" by blast
    have "[conn + 1..conn'] = (conn + 1) # [conn + 2..conn']" if "conn + 1 \<le> conn'"
      using that by (simp add: upto_rec1 add.assoc)
    with IH once show ?thesis
      by (auto simp: add.assoc intro!: exI [of _ "Suc n"])
  next
    case False
    with Suc.prems it once show ?thesis by (auto intro!: exI [of _ 1])
  qed
qed

text \<open>
  Whatever the host answers, the server loop numbers the connections it starts 1, 2, 3 and
  so on without a gap, and every control pipe it creates gives full access to
  BUILTIN\Administrators and to nobody else.
\<close>

theorem server_loop_connections:
  assumes "server_loop env k \<lparr>kernel = kern, calls = []\<rparr> = (go, n, w')"
  shows "started (calls w') = [1..n] \<and> set (pipe_attributes (calls w')) \<subseteq> {admin_sa}"
proof -
  obtain r w1 where sa: "CreatePipesSA env \<lparr>kernel = kern, calls = []\<rparr> = (r, w1)" by force
  then have pre: "started (calls w1) = []" "pipe_attributes (calls w1) = []"
    and r: "r = None \<or> r = Some admin_sa"
    by (auto simp: CreatePipesSA_def Let_def admin_sa_def calls_w32 split: prod.splits if_splits)
  show ?thesis
  proof (cases r)
    case None
    with assms sa pre show ?thesis by (auto simp: server_loop_def)
  next
    case (Some x)
    with assms sa r have "server_iterations env admin_sa k 0 w1 = (go, n, w')" by (simp add: server_loop_def)
    from server_iterations_calls [OF this] pre show ?thesis by auto
  qed
qed

text \<open>The bytes a trace has written to a handle.\<close>

fun written :: "HANDLE \<Rightarrow> (w32_call \<times> w32_answer) list \<Rightarrow> string" where
  "written h [] = []"
| "written h ((c, a) # t) = (case c of WriteFile x s \<Rightarrow> if x = h then s else [] | _ \<Rightarrow> []) @ written h t"

lemma written_append [simp]: "written h (t @ u) = written h t @ written h u"
  by (induction h t rule: written.induct) auto

text \<open>
  What a session did that can be seen from outside: the messages on the control pipe \<open>h\<close>, the
  tokens and pipes that were made, the pipes a client was waited for on, the processes started
  (with their token, command line, the handle of input and output, and that of the errors), the
  exit codes asked for and the processes killed.
\<close>

datatype session_step =
    Said string
  | Made_token HANDLE
  | Made_pipe string HANDLE
  | Joined HANDLE
  | Started HANDLE string HANDLE HANDLE HANDLE
  | Ended HANDLE u32
  | Killed HANDLE

fun step_of :: "HANDLE \<Rightarrow> w32_call \<Rightarrow> w32_answer \<Rightarrow> session_step list" where
  "step_of h (WriteFile x s) a = (if x = h then [Said s] else [])"
| "step_of h (LogonUser u d p) a = [Made_token (wa_handle a)]"
| "step_of h (DuplicateTokenEx t l) a = [Made_token (wa_handle a)]"
| "step_of h (CreateNamedPipe n ov sa) a = [Made_pipe n (wa_handle a)]"
| "step_of h (ConnectNamedPipe x) a = [Joined x]"
| "step_of h (CreateProcessAsUser t cl x y) a = [Started t cl x y (wa_handle a)]"
| "step_of h (GetExitCodeProcess p) a = [Ended p (wa_code a)]"
| "step_of h (TerminateProcess p ec) a = [Killed p]"
| "step_of h _ a = []"

definition steps :: "HANDLE \<Rightarrow> (w32_call \<times> w32_answer) list \<Rightarrow> session_step list" where
  "steps h t = concat (map (\<lambda>(c, a). step_of h c a) t)"

fun said :: "session_step list \<Rightarrow> string" where
  "said [] = []"
| "said (Said s # t) = s @ said t"
| "said (_ # t) = said t"

lemma steps_append [simp]: "steps h (t @ u) = steps h t @ steps h u" "steps h [] = []"
  "steps h ((c, a) # t) = step_of h c a @ steps h t"
  by (simp_all add: steps_def)

lemma said_append [simp]: "said (t @ u) = said t @ said u"
  by (induction t rule: said.induct) auto

lemma written_steps: "written h t = said (steps h t)"
proof (induction h t rule: written.induct)
  case (2 h c a t)
  then show ?case by (cases c) (simp_all add: steps_def)
qed (simp add: steps_def)

lemma hgets_loop_result:
  assumes "hgets_loop env pipe n w = (s, w')"
  shows "length s \<le> n" "CHR 0x0A \<notin> set s" "steps h (calls w') = steps h (calls w)"
proof -
  have "length s \<le> n \<and> CHR 0x0A \<notin> set s \<and> steps h (calls w') = steps h (calls w)"
    using assms
  proof (induction n arbitrary: w s w')
    case (Suc n)
    obtain a w1 where a: "w32 env (ReadFile (ov_h pipe) 1) w = (a, w1)" by force
    obtain b w2 where b: "w32 env (GetOverlappedResult (ov_h pipe)) w1 = (b, w2)" by force
    obtain s3 w3 where r: "hgets_loop env pipe n w2 = (s3, w3)" by force
    have wr: "steps h (calls w1) = steps h (calls w)" "steps h (calls w2) = steps h (calls w)"
      by (simp_all add: calls_w32 [OF a] calls_w32 [OF b])
    from Suc.prems a b r Suc.IH [OF r] wr show ?case by (auto split: if_splits)
  qed simp
  then show "length s \<le> n" "CHR 0x0A \<notin> set s" "steps h (calls w') = steps h (calls w)" by auto
qed

lemma get_token_pipe: "get_token env c w = (r, c', w') \<Longrightarrow> cc_pipe c' = cc_pipe c"
  by (auto simp: get_token_def token_duplicate_def Let_def split: option.splits prod.splits if_splits
      dest!: token_revert_count(2))

lemma call_cmd_pipe:
  assumes "call_cmd env sa f c w = (r, c', w')"
  shows "cc_pipe c' = cc_pipe c"
proof (cases f)
  case Cmd_run
  with assms show ?thesis
    by (auto simp: cmd_run_def Let_def split: option.splits prod.splits if_splits dest: get_token_pipe)
qed (use assms in \<open>auto simp: cmd_set_def cmd_get_def Let_def split: option.splits if_splits\<close>)

lemma connection_loop_pipe:
  "connection_loop env sa n buf c w = Some (c', w') \<Longrightarrow> cc_pipe c' = cc_pipe c"
proof (induction n arbitrary: buf c w)
  case (Suc n)
  obtain go buf1 c1 w1 where rd: "connection_round env sa buf c w = (go, buf1, c1, w1)" by (metis prod_cases4)
  then have "cc_pipe c1 = cc_pipe c"
    by (auto simp: connection_round_def Let_def split: option.splits prod.splits if_splits dest: call_cmd_pipe)
  with Suc.IH Suc.prems rd show ?case by (auto split: if_splits)
qed simp

section \<open>The control pipe as a stream of bytes\<close>

text \<open>
  What the service relies on in the control pipe: \<open>input k\<close> is what the client has written
  and the service not yet read. A read delivers the next byte, or fails when nothing more will
  come; writing succeeds at once; no other call reads.
\<close>

locale byte_pipe =
  fixes env :: "'k w32_env" and h :: HANDLE and input :: "'k \<Rightarrow> string"
  assumes read_eof: "input k = [] \<Longrightarrow> \<not> wa_ok (fst (env (ReadFile h 1) k))
        \<and> wa_error (fst (env (ReadFile h 1) k)) \<noteq> ERROR_IO_PENDING
        \<and> input (snd (env (ReadFile h 1) k)) = []"
    and read_byte: "input k = x # xs \<Longrightarrow> env (ReadFile h 1) k = (a, k1) \<Longrightarrow>
        env (GetOverlappedResult h) k1 = (b, k2) \<Longrightarrow>
        (wa_ok a \<or> wa_error a = ERROR_IO_PENDING) \<and> wa_ok b \<and> wa_count b \<noteq> 0 \<and> wa_byte b = x
        \<and> input k2 = xs"
    and write_now: "wa_ok (fst (env (WriteFile h s) k)) \<and> input (snd (env (WriteFile h s) k)) = input k"
    and flush_quiet: "input (snd (env (FlushFileBuffers h) k)) = input k"
begin

lemma hgets_loop_line:
  assumes "input (kernel w) = line @ CHR 0x0A # rest" "CHR 0x0A \<notin> set line" "length line < n" "ov_h pipe = h"
  shows "\<exists>w'. hgets_loop env pipe n w = (line, w') \<and> input (kernel w') = rest"
  using assms
proof (induction n arbitrary: w line)
  case 0
  then show ?case by simp
next
  case (Suc n)
  obtain x xs where x: "input (kernel w) = x # xs" using Suc.prems(1) by (cases line) auto
  obtain a k1 where a: "env (ReadFile h 1) (kernel w) = (a, k1)" by force
  obtain b k2 where b: "env (GetOverlappedResult h) k1 = (b, k2)" by force
  note rd = read_byte [OF x a b]
  show ?case
  proof (cases line)
    case Nil
    with Suc.prems x rd a b show ?thesis by (auto simp: w32_def)
  next
    case (Cons l ls)
    let ?w2 = "\<lparr>kernel = k2, calls = calls w @ [(ReadFile h 1, a), (GetOverlappedResult h, b)]\<rparr>"
    have "\<exists>w'. hgets_loop env pipe n ?w2 = (ls, w') \<and> input (kernel w') = rest"
      using Suc.prems Cons x rd by (intro Suc.IH) auto
    with Suc.prems Cons x rd a b show ?thesis by (auto simp: w32_def)
  qed
qed

text \<open>Reading never adds input, and a non-empty line takes some.\<close>

lemma hgets_loop_consumes:
  assumes "hgets_loop env pipe n w = (s, w')" "ov_h pipe = h"
  shows "length (input (kernel w')) + length s \<le> length (input (kernel w))"
  using assms
proof (induction n arbitrary: w s w')
  case 0
  then show ?case by simp
next
  case (Suc n)
  obtain a k1 where a: "env (ReadFile h 1) (kernel w) = (a, k1)" by force
  obtain b k2 where b: "env (GetOverlappedResult h) k1 = (b, k2)" by force
  let ?w2 = "\<lparr>kernel = k2, calls = calls w @ [(ReadFile h 1, a), (GetOverlappedResult h, b)]\<rparr>"
  show ?case
  proof (cases "input (kernel w)")
    case Nil
    with read_eof [OF Nil] a Suc.prems show ?thesis by (auto simp: w32_def)
  next
    case (Cons x xs)
    note rd = read_byte [OF Cons a b]
    obtain s2 w3 where s2: "hgets_loop env pipe n ?w2 = (s2, w3)" by force
    from Suc.IH [OF s2 Suc.prems(2)] s2 rd Cons a b Suc.prems show ?thesis
      by (auto simp: w32_def split: if_splits)
  qed
qed

lemma hprintf_input: "ov_h pipe = h \<Longrightarrow> input (kernel (hprintf env pipe s w)) = input (kernel w)"
  using write_now flush_quiet
  by (auto simp: hprintf_def w32_def w32x_def Let_def split: prod.splits) (metis fst_conv snd_conv)+

lemma hgets_line:
  assumes "input (kernel w) = line @ CHR 0x0A # rest" "CHR 0x0A \<notin> set line" "length line + 1 < n" "ov_h pipe = h"
  shows "\<exists>w'. hgets env str n pipe w = (length line, line @ CHR 0x00 # drop (Suc (length line)) str, w')
    \<and> input (kernel w') = rest"
  using hgets_loop_line [OF assms(1,2), of "n - 1"] assms(3,4) by (fastforce simp: hgets_def)

lemma cmd_input:
  assumes "call_cmd env sa f c w = (r, c', w')" "r \<noteq> 0" "ov_h (cc_pipe c) = h"
  shows "input (kernel w') = input (kernel w) \<and> cc_pipe c' = cc_pipe c"
proof (cases f)
  case Cmd_run
  with assms(1,2) show ?thesis
    by (auto simp: cmd_run_def Let_def split: option.splits prod.splits if_splits)
qed (use assms in \<open>auto simp: cmd_set_def cmd_get_def Let_def hprintf_input split: option.splits if_splits\<close>)

lemma connection_round_consumes:
  assumes "connection_round env sa buf c w = (True, buf', c', w')" "ov_h (cc_pipe c) = h"
  shows "length (input (kernel w')) < length (input (kernel w)) \<and> cc_pipe c' = cc_pipe c"
proof -
  obtain s w1 where s: "hgets_loop env (cc_pipe c) (MAX_COMMAND_LENGTH - 1) w = (s, w1)" by force
  note le = hgets_loop_consumes [OF s assms(2)]
  let ?c = "c\<lparr>cc_cmd := cstr (s @ CHR 0x00 # drop (Suc (length s)) buf)\<rparr>"
  have ne: "s \<noteq> []" using assms(1) s by (auto simp: connection_round_def hgets_def Let_def)
  then have lt: "length (input (kernel w1)) < length (input (kernel w))" using le by (cases s) auto
  show ?thesis
  proof (cases "find_cmd cmd_table (cc_cmd ?c)")
    case None
    with assms s ne lt show ?thesis
      by (auto simp: connection_round_def hgets_def Let_def hprintf_input)
  next
    case (Some f)
    obtain r c2 w2 where f: "call_cmd env sa f ?c w1 = (r, c2, w2)" by (metis prod_cases3)
    with assms(1) s ne Some have "r \<noteq> 0" "c' = c2" "w' = w2"
      by (auto simp: connection_round_def hgets_def Let_def)
    with cmd_input [OF f] assms(2) lt show ?thesis by auto
  qed
qed

lemma connection_loop_ends:
  assumes "length (input (kernel w)) < fuel" "ov_h (cc_pipe c) = h"
  shows "\<exists>r. connection_loop env sa fuel buf c w = Some r"
  using assms
proof (induction fuel arbitrary: buf c w)
  case 0
  then show ?case by simp
next
  case (Suc n)
  obtain go buf1 c1 w1 where rd: "connection_round env sa buf c w = (go, buf1, c1, w1)"
    by (metis prod_cases4)
  show ?case
  proof (cases go)
    case True
    with connection_round_consumes rd Suc.prems have "length (input (kernel w1)) < n" "ov_h (cc_pipe c1) = h"
      by fastforce+
    with Suc.IH True rd show ?thesis by simp
  qed (simp add: rd)
qed

text \<open>What goes to the client with a message.\<close>

lemma steps_hprintf:
  assumes "ov_h pipe = h"
  shows "steps h (calls (hprintf env pipe s w)) = steps h (calls w) @ [Said (take 1023 (cstr s))]"
proof -
  obtain a w1 where a: "w32 env (WriteFile h (take 1023 (cstr s))) w = (a, w1)" by force
  then have "wa_ok a" using write_now by (auto simp: w32_def split: prod.splits) (metis fst_conv)
  moreover obtain b where "calls (w32x env (FlushFileBuffers h) w1) = calls w1 @ [(FlushFileBuffers h, b)]"
    using calls_w32x by blast
  ultimately show ?thesis using a assms by (simp add: hprintf_def calls_w32)
qed

lemma connection_round_line:
  assumes "input (kernel w) = line @ CHR 0x0A # rest" "CHR 0x0A \<notin> set line" "CHR 0x00 \<notin> set line"
    and "line \<noteq> []" "length line + 1 < MAX_COMMAND_LENGTH" "ov_h (cc_pipe c) = h"
    and "find_cmd cmd_table line = Some f"
  shows "\<exists>buf' w1. input (kernel w1) = rest \<and> steps h (calls w1) = steps h (calls w) \<and>
    connection_round env sa buf c w =
      (let (r, c2, w2) = call_cmd env sa f (c\<lparr>cc_cmd := line\<rparr>) w1 in (r \<noteq> 0, buf', c2, w2))"
proof -
  obtain w1 where w1: "hgets_loop env (cc_pipe c) (MAX_COMMAND_LENGTH - 1) w = (line, w1)"
    and rest: "input (kernel w1) = rest"
    using hgets_loop_line [OF assms(1,2), of "MAX_COMMAND_LENGTH - 1"] assms(5,6) by auto
  have "cstr (line @ CHR 0x00 # t) = line" for t
    unfolding cstr_def using assms(3) by (subst takeWhile_append2) auto
  with w1 rest assms(4,7) hgets_loop_result(3) [OF w1] show ?thesis
    by (intro exI [of _ "line @ CHR 0x00 # drop (Suc (length line)) buf"] exI [of _ w1])
      (simp add: connection_round_def hgets_def)
qed

end

section \<open>A kernel\<close>

text \<open>
  A host that grants every call: handles are numbered, the control pipe has a list of bytes,
  the service process has the id \<open>pid\<close>
  and the program it starts ends with the exit code \<open>ec\<close>.
\<close>

record host =
  k_next :: HANDLE
  k_input :: string

definition granted :: "host \<Rightarrow> w32_answer" where
  "granted k = \<lparr>wa_ok = True, wa_error = 0, wa_handle = k_next k, wa_thread = Suc (k_next k), wa_count = 0,
     wa_byte = CHR 0x00, wa_code = 0\<rparr>"

fun host_env :: "u32 \<Rightarrow> u32 \<Rightarrow> host w32_env" where
  "host_env pid ec (ReadFile h n) k =
     ((granted k)\<lparr>wa_ok := (k_input k \<noteq> []), wa_error := (if k_input k \<noteq> [] then 0 else 109)\<rparr>, k)"
| "host_env pid ec (GetOverlappedResult h) k =
     (case k_input k of
        [] \<Rightarrow> ((granted k)\<lparr>wa_ok := False, wa_error := 109\<rparr>, k)
      | x # xs \<Rightarrow> ((granted k)\<lparr>wa_count := 1, wa_byte := x\<rparr>, k\<lparr>k_input := xs\<rparr>))"
| "host_env pid ec GetCurrentProcessId k = ((granted k)\<lparr>wa_code := pid\<rparr>, k)"
| "host_env pid ec (WaitForMultipleObjects e p) k = ((granted k)\<lparr>wa_code := 1\<rparr>, k)"
| "host_env pid ec (GetExitCodeProcess p) k = ((granted k)\<lparr>wa_code := ec\<rparr>, k)"
| "host_env pid ec (WriteFile h s) k = (granted k, k)"
| "host_env pid ec (FlushFileBuffers h) k = (granted k, k)"
| "host_env pid ec c k = (granted k, k\<lparr>k_next := k_next k + 2\<rparr>)"

interpretation host_pipe: byte_pipe "host_env pid ec" h k_input
  by unfold_locales (auto simp: granted_def)

definition start_host :: "string \<Rightarrow> host w32" where
  "start_host s = \<lparr>kernel = \<lparr>k_next = 10, k_input = s\<rparr>, calls = []\<rparr>"

section \<open>Lines and connections\<close>

text \<open>
  \<open>hgets\<close> stays inside its buffer: it fills at most the first \<open>n - 1\<close> bytes and ends
  them by a NUL, none of them is a newline, and the rest of the buffer is untouched.
\<close>

theorem hgets_bounds:
  assumes "hgets env str n pipe w = (count, str', w')" "length str = n" "0 < n"
  shows "count < n \<and> length str' = n \<and> str' ! count = CHR 0x00 \<and> CHR 0x0A \<notin> set (take count str')
    \<and> drop (Suc count) str' = drop (Suc count) str"
proof -
  obtain s w1 where s: "hgets_loop env pipe (n - 1) w = (s, w1)" by force
  with assms(2,3) hgets_loop_result(1) [OF s] have "length s < length str" by simp
  with assms s hgets_loop_result(2) [OF s] show ?thesis by (auto simp: hgets_def)
qed

text \<open>
  A connection comes to its end when the client's input does: the loop of
  \<open>handle_connection\<close> returns within as many rounds as there are bytes of input, plus one,
  and the pipe and its event are closed last.
\<close>

theorem handle_connection_ends:
  assumes "byte_pipe env (ov_h pipe) input" "length (input (kernel w)) < fuel"
  shows "\<exists>w' pre a b. handle_connection env sa fuel pipe conn w = Some w' \<and>
    calls w' = pre @ [(CloseHandle (ov_h pipe), a), (CloseHandle (ov_event pipe), b)]"
proof -
  obtain c w1 where loop: "connection_loop env sa fuel (replicate MAX_COMMAND_LENGTH (CHR 0x00))
      (new_connection pipe conn) w = Some (c, w1)"
    using byte_pipe.connection_loop_ends [OF assms, of "new_connection pipe conn"]
    by (force simp: new_connection_def)
  then have "cc_pipe c = pipe" using connection_loop_pipe by (fastforce simp: new_connection_def)
  moreover obtain a where "calls (w32x env (CloseHandle (ov_h pipe))
      (w32x env (DisconnectNamedPipe (ov_h pipe)) (w32x env (FlushFileBuffers (ov_h pipe)) w1)))
    = calls (w32x env (DisconnectNamedPipe (ov_h pipe)) (w32x env (FlushFileBuffers (ov_h pipe)) w1))
      @ [(CloseHandle (ov_h pipe), a)]" using calls_w32x by blast
  moreover obtain b where "calls (w32x env (CloseHandle (ov_event pipe)) (w32x env (CloseHandle (ov_h pipe))
      (w32x env (DisconnectNamedPipe (ov_h pipe)) (w32x env (FlushFileBuffers (ov_h pipe)) w1))))
    = calls (w32x env (CloseHandle (ov_h pipe))
      (w32x env (DisconnectNamedPipe (ov_h pipe)) (w32x env (FlushFileBuffers (ov_h pipe)) w1)))
      @ [(CloseHandle (ov_event pipe), b)]" using calls_w32x by blast
  ultimately show ?thesis using loop by (simp add: handle_connection_def)
qed

end
