(* ===== verification/Protocol.thy ===== *)
theory Protocol
  imports Winexe SvcTrace ScmHost
begin

text \<open>
  The protocol between the two programs: what the client writes is what the service carries
  out, and what the service writes is what the client acts on.
\<close>

section \<open>From the service to the client\<close>

lemma fmt_X_cons: "\<exists>d t. d < 16 \<and> fmt_X k n = digit_char d # t"
  by (metis fmt_X_digits fmt_X_nonempty list.exhaust_sel list.set_sel(1))

lemma scan_sign_digit: "d < 36 \<Longrightarrow> scan_sign (digit_char d # t) = (False, digit_char d # t)"
  using digit_char_not_sign [of d] by (simp add: scan_sign_def)

lemma member_neq: "x \<in> set xs \<Longrightarrow> x \<notin> set ys \<Longrightarrow> xs \<noteq> ys"
  by auto

text \<open>A hexadecimal number before a newline is read from the buffer, whatever follows it there.\<close>

lemma buf_strtoul_fmt_X:
  assumes "n < 2 ^ 64"
  shows "buf_strtoul 16 (fmt_X k n @ CHR 0x0A # stale) = Some (of_nat n)"
proof -
  obtain d t where d: "d < 16" "fmt_X k n = digit_char d # t" using fmt_X_cons by blast
  have "number_ends (CHR 0x0A # stale)" by (simp add: digit_of_def)
  then have "strtoul 16 (fmt_X k n @ CHR 0x0A # stale) = (of_nat n, CHR 0x0A # stale)"
    using assms by (rule strtoul_fmt_X)
  moreover have "scan_sign (dropWhile isspace (fmt_X k n @ CHR 0x0A # stale)) = (False, fmt_X k n @ CHR 0x0A # stale)"
    using d by (simp add: digit_char_not_space scan_sign_digit)
  moreover have "fmt_X k n @ CHR 0x0A # stale \<noteq> ''0x''" "fmt_X k n @ CHR 0x0A # stale \<noteq> ''0X''"
    by (rule member_neq [of "CHR 0x0A"]; simp)+
  ultimately show ?thesis by (simp add: buf_strtoul_def)
qed

lemma buf_strtoul_0x_fmt_X:
  assumes "n < 2 ^ 64"
  shows "buf_strtoul 0 (''0x'' @ fmt_X k n @ CHR 0x0A # stale) = Some (of_nat n)"
proof -
  have "number_ends (CHR 0x0A # stale)" by (simp add: digit_of_def)
  then have "strtoul 0 (''0x'' @ fmt_X k n @ CHR 0x0A # stale) = (of_nat n, CHR 0x0A # stale)"
    using assms by (rule strtoul_0x_fmt_X)
  moreover have "scan_sign (dropWhile isspace (''0x'' @ fmt_X k n @ CHR 0x0A # stale))
      = (False, ''0x'' @ fmt_X k n @ CHR 0x0A # stale)"
    by (simp add: isspace_def scan_sign_def)
  ultimately show ?thesis by (simp add: buf_strtoul_def)
qed

text \<open>The messages of the service, as \<open>cmd_get\<close>, \<open>run_connected\<close> and \<open>run_wait\<close> format them.\<close>

definition version_msg :: "nat \<Rightarrow> string" where
  "version_msg v = ''version 0x'' @ fmt_X 4 v @ nl"

definition std_io_err_msg :: "u32 \<Rightarrow> string" where
  "std_io_err_msg n = ''std_io_err '' @ fmt_X 8 (unat n) @ nl"

definition return_code_msg :: "u32 \<Rightarrow> string" where
  "return_code_msg ec = ''return_code '' @ fmt_X 8 (unat ec) @ nl"

lemma cmd_check_hit:
  "length cmd < len \<Longrightarrow> b = CHR '' '' \<or> b = CHR 0x0A \<Longrightarrow> cmd_check (cmd @ b # p) cmd len = Some p"
  by (auto simp: cmd_check_def nth_append)

lemma unat_lt_64: "unat (w :: u32) < 2 ^ 64"
  using unat_u32_less [of w] by simp

lemma read_return_code:
  assumes "11 < len"
  shows "on_ctrl_pipe_read e (return_code_msg ec @ stale) len s = Ret () (s\<lparr>return_code := ec\<rparr>)"
proof -
  let ?p = "fmt_X 8 (unat ec) @ CHR 0x0A # stale"
  have d: "return_code_msg ec @ stale = ''return_code'' @ CHR '' '' # ?p"
    by (simp add: return_code_msg_def)
  have "cmd_check (return_code_msg ec @ stale) CMD_RETURN_CODE len = Some ?p"
    unfolding d CMD_RETURN_CODE_def using assms by (intro cmd_check_hit) simp_all
  moreover have "cmd_check (return_code_msg ec @ stale) CMD_STD_IO_ERR len = None"
    by (simp add: cmd_check_def CMD_STD_IO_ERR_def return_code_msg_def)
  ultimately show ?thesis
    by (simp add: on_ctrl_pipe_read_def buf_strtoul_fmt_X [OF unat_lt_64] ucast_up_down Let_def)
qed

lemma read_std_io_err:
  assumes "10 < len"
  shows "on_ctrl_pipe_read e (std_io_err_msg n @ stale) len s =
    andr (new_pipe e io_context (\<lambda>c t. t\<lparr>ac_io := Some c\<rparr>) (PIPE_PREFIX @ PIPE_NAME_IO n) s)
      (new_pipe e err_context (\<lambda>c t. t\<lparr>ac_err := Some c\<rparr>) (PIPE_PREFIX @ PIPE_NAME_ERR n))"
proof -
  let ?p = "fmt_X 8 (unat n) @ CHR 0x0A # stale"
  have d: "std_io_err_msg n @ stale = ''std_io_err'' @ CHR '' '' # ?p"
    by (simp add: std_io_err_msg_def)
  have "cmd_check (std_io_err_msg n @ stale) CMD_STD_IO_ERR len = Some ?p"
    unfolding d CMD_STD_IO_ERR_def using assms by (intro cmd_check_hit) simp_all
  then show ?thesis
    by (simp add: on_ctrl_pipe_read_def ctrl_std_io_err_def buf_strtoul_fmt_X [OF unat_lt_64] ucast_up_down Let_def)
qed

lemma read_version:
  assumes "7 < len" "v < 2 ^ 31"
  shows "on_ctrl_pipe_read e (version_msg v @ stale) len s =
    (if v div 10 \<noteq> VERSION div 10 then close_for_reinstall e s
     else case run_command (wx_args s) of
       None \<Rightarrow> Undef
     | Some str \<Rightarrow>
         if \<not> alloc_ok (we_net e) (clk s) then Undef
         else andr (async_write (we_net e) (ac_ctrl s) str (length str) (tick s))
                (\<lambda>s1. Ret () (s1\<lparr>wx_state := STATE_RUNNING\<rparr>)))"
proof -
  let ?p = "''0x'' @ fmt_X 4 v @ CHR 0x0A # stale"
  have d: "version_msg v @ stale = ''version'' @ CHR '' '' # ?p" by (simp add: version_msg_def)
  have "cmd_check (version_msg v @ stale) ''version'' len = Some ?p"
    unfolding d using assms by (intro cmd_check_hit) simp_all
  moreover have "cmd_check (version_msg v @ stale) CMD_STD_IO_ERR len = None"
    "cmd_check (version_msg v @ stale) CMD_RETURN_CODE len = None"
    by (simp_all add: cmd_check_def CMD_STD_IO_ERR_def CMD_RETURN_CODE_def version_msg_def)
  moreover have "buf_strtoul 0 ?p = Some (of_nat v)"
    using assms(2) by (intro buf_strtoul_0x_fmt_X) simp
  moreover have "sint (ucast (of_nat v :: u64) :: u32) = int v"
  proof -
    have "(ucast (of_nat v :: u64) :: u32) = of_nat v"
      using assms(2) by (simp add: word_unat_eq_iff unsigned_ucast_eq unsigned_of_nat take_bit_eq_mod)
    with assms(2) show ?thesis by (simp add: signed_of_nat signed_take_bit_int_eq_self)
  qed
  moreover have "cdiv (int v) 10 \<noteq> cdiv (int VERSION) 10 \<longleftrightarrow> v div 10 \<noteq> VERSION div 10"
    by (auto simp: cdiv_def sgn_if) 
  ultimately show ?thesis
    by (simp add: on_ctrl_pipe_read_def ctrl_version_def split: option.splits)
qed

lemma length_msgs: "11 < length (return_code_msg ec)" "10 < length (std_io_err_msg n)" "7 < length (version_msg v)"
  by (simp_all add: return_code_msg_def std_io_err_msg_def version_msg_def)

text \<open>A read of the control pipe whose text the client has handled: the layer reads again.\<close>

lemma ctrl_read_reply:
  assumes "wx_inv a s" "rq_fn r = Async_read_recv" "rq_private r = ac_ctrl s"
    and "ctxs s (ac_ctrl s) = Some x" "io_read x \<noteq> None" "NT_STATUS_IS_OK (rp_status rp)"
  shows "handle_event e (Reply_event r rp) s =
    (let buf = rp_data rp @ drop (length (rp_data rp)) (buffer x);
         s1 = set_ctx 0 (x\<lparr>rreq := None, buffer := buf\<rparr>) (smbcli_request_destroy (Some (rq_id r)) s)
     in andr (on_ctrl_pipe_read e buf (length (rp_data rp)) s1)
          (\<lambda>s2. andr (async_read (we_net e) (call_client e) 0 s2) (Ret ())))"
proof -
  have c: "ac_ctrl s = 0" and "ctx_ok 0 x"
    using assms by (auto simp: wx_inv_def dest: ctxs_okD)
  then have "cb_read x = Some On_ctrl_pipe_read"
    by (simp add: ctx_ok_def same_callbacks_def ctrl_context_def)
  with c assms show ?thesis
    by (cases "io_read x") (simp_all add: request_done_def async_read_recv_def with_ctx_def call_cb_def Let_def)
qed

text \<open>
  The next read of the control pipe: it is sent, or the client ends with its return code.
\<close>

lemma ctrl_read_next:
  assumes "ctxs s 0 = Some x" "io_read x \<noteq> None" "cb_error x = Some On_ctrl_pipe_error"
    and "we_nt e" "pa_uninstall (wx_args s) = 0"
  shows "(\<exists>s'. async_read (we_net e) (call_client e) 0 s = Ret 1 s' \<and> return_code s' = return_code s)
    \<or> (\<exists>s'. async_read (we_net e) (call_client e) 0 s = Exit (return_code s) s')"
  using assms
  by (auto simp: async_read_def with_ctx_def smb_send_def tick_def set_ctx_def call_cb_def Let_def
      on_ctrl_pipe_error_def NT_STATUS_EQUAL_nt exit_program_def)

text \<open>
  The exit code arrives: when the client reads the message in which the service reports
  the exit code of the program, its return code is that code, whatever the buffer held
  before; and if the next read cannot be sent, the client ends with that code.
\<close>

theorem exit_code_delivered:
  assumes "wx_inv a s" "rq_fn r = Async_read_recv" "rq_private r = ac_ctrl s"
    and "ctxs s (ac_ctrl s) = Some x" "io_read x \<noteq> None" "NT_STATUS_IS_OK (rp_status rp)"
    and "rp_data rp = return_code_msg ec" "we_nt e" "pa_uninstall a = 0"
  shows "(\<exists>s'. handle_event e (Reply_event r rp) s = Ret () s' \<and> return_code s' = ec)
    \<or> (\<exists>s'. handle_event e (Reply_event r rp) s = Exit ec s')"
proof -
  let ?x = "x\<lparr>rreq := None, buffer := return_code_msg ec @ drop (length (return_code_msg ec)) (buffer x)\<rparr>"
  let ?s1 = "set_ctx 0 ?x (smbcli_request_destroy (Some (rq_id r)) s)"
  let ?s2 = "?s1\<lparr>return_code := ec\<rparr>"
  have "ctx_ok 0 x" using assms(1,4) by (auto simp: wx_inv_def dest: ctxs_okD)
  then have err: "cb_error ?x = Some On_ctrl_pipe_error"
    by (simp add: ctx_ok_def same_callbacks_def ctrl_context_def)
  have ev: "handle_event e (Reply_event r rp) s = andr (async_read (we_net e) (call_client e) 0 ?s2) (Ret ())"
    using ctrl_read_reply [OF assms(1-6)] assms(7)
    by (simp add: Let_def read_return_code [OF length_msgs(1)])
  have "wx_args ?s2 = a" using assms(1) by (simp add: wx_inv_def set_ctx_def smbcli_request_destroy_def)
  with ctrl_read_next [of ?s2 ?x e] err assms(5,8,9) show ?thesis
    unfolding ev by (auto simp: set_ctx_def)
qed

text \<open>Every allocation and every send succeeds.\<close>

definition good_net :: aenv where
  "good_net = \<lparr>alloc_ok = (\<lambda>_. True), send_ok = (\<lambda>_. True), item_mem = (\<lambda>n. Some n)\<rparr>"

definition open_names :: "request list \<Rightarrow> string list" where
  "open_names rs = concat (map (\<lambda>r. case rq_call r of SmbOpen io \<Rightarrow> [ox_fname io] | _ \<Rightarrow> []) rs)"

text \<open>
  Both ends use the same pipes: on the service's message with the number \<open>n\<close> the client
  opens, on the host's share, the two pipes the service has created for this number, first
  the one for the standard input and output, then the one for errors.
\<close>

theorem pipes_match:
  assumes "we_net e = good_net" "10 < len"
  shows "\<exists>s'. on_ctrl_pipe_read e (std_io_err_msg n @ stale) len s = Ret () s'
    \<and> (\<exists>rs. wire s' = wire s @ rs \<and>
         open_names rs = [drop 3 (pipe_path ''ahexec_stdio'' n), drop 3 (pipe_path ''ahexec_stderr'' n)])
    \<and> ac_io s' = Some (next_ctx s) \<and> ac_err s' = Some (Suc (next_ctx s))"
  using assms(1)
  by (simp add: read_std_io_err [OF assms(2)] new_pipe_def async_open_def with_ctx_def set_ctx_def tick_def
      smb_send_def good_net_def open_names_def pipe_path_def PIPE_PREFIX_def PIPE_NAME_IO_def PIPE_NAME_ERR_def
      Let_def numeral_3_eq_3)

text \<open>
  Only the first message of a read counts: when the control pipe delivers the pipe number
  and the exit code in one read, as a byte stream may, the exit code is lost.
\<close>

theorem coalesced_messages_lose_exit_code:
  assumes "we_net e = good_net" "10 < len"
  shows "\<exists>s'. on_ctrl_pipe_read e (std_io_err_msg n @ return_code_msg ec @ stale) len s = Ret () s'
    \<and> return_code s' = return_code s"
  using assms(1)
  by (simp add: read_std_io_err [OF assms(2)] new_pipe_def async_open_def with_ctx_def set_ctx_def tick_def
      smb_send_def good_net_def Let_def)

definition writes :: "request list \<Rightarrow> string list" where
  "writes rs = concat (map (\<lambda>r. case rq_call r of SmbWrite io \<Rightarrow> [wr_data io] | _ \<Rightarrow> []) rs)"

definition closes_of :: "request list \<Rightarrow> nat" where
  "closes_of rs = length (filter (\<lambda>r. case rq_call r of SmbClose _ \<Rightarrow> True | _ \<Rightarrow> False) rs)"

text \<open>
  The version check: a service of the client's series (\<open>VERSION\<close> without its last digit)
  is sent the run command, in one write, and the client is running; any other service makes
  the client close the control pipe in order to reinstall it, and nothing is run.
\<close>

theorem version_handshake:
  assumes "wx_inv a s" "we_net e = good_net" "7 < len" "v < 2 ^ 31"
    and "ctxs s (ac_ctrl s) = Some x" "run_command a = Some text" "length text < 65536"
  shows "\<exists>s' rs. on_ctrl_pipe_read e (version_msg v @ stale) len s = Ret () s' \<and> wire s' = wire s @ rs \<and>
    (if v div 10 = VERSION div 10
     then wx_state s' = STATE_RUNNING \<and> writes rs = [text] \<and> closes_of rs = 0
     else wx_state s' = STATE_CLOSING_FOR_REINSTALL \<and> writes rs = [] \<and> closes_of rs = 1)"
proof -
  have c: "ac_ctrl s = 0" "wx_args s = a" "ctx_ok 0 x"
    using assms(1,5) by (auto simp: wx_inv_def dest: ctxs_okD)
  then have "wreq x = None" by (simp add: ctx_ok_def)
  moreover have "unat (of_nat (length text) :: u16) = length text"
    using assms(7) by (simp add: unat_of_nat)
  ultimately show ?thesis
    using c assms(2,5,6)
    by (simp add: read_version [OF assms(3,4)] close_for_reinstall_def async_write_def async_close_def
        with_ctx_def set_ctx_def tick_def smb_send_def good_net_def writes_def closes_of_def
        smbcli_request_destroy_def Let_def split: option.splits)
qed

section \<open>From the client to the service\<close>

lemma no_prefix_cmds: "find_cmd cmd_table (''run '' @ t) = Some Cmd_run"
  "find_cmd cmd_table (''set '' @ t) = Some Cmd_set" "find_cmd cmd_table ''get version'' = Some Cmd_get"
  by (simp_all add: cmd_table_def char_at_def)

text \<open>Text that fits on a line of the protocol.\<close>

definition clean_text :: "string \<Rightarrow> bool" where
  "clean_text t \<longleftrightarrow> CHR 0x0A \<notin> set t \<and> CHR 0x00 \<notin> set t \<and> length t < 32000"

lemma strchr_cmds: "strchr (''set '' @ t) (CHR '' '') = Some ('' '' @ t)"
  "strchr (''run '' @ t) (CHR '' '') = Some ('' '' @ t)"
  by simp_all

lemma cmd_set_system: "cmd_set env (c\<lparr>cc_cmd := ''set '' @ ''system 1''\<rparr>) w
    = (1, c\<lparr>cc_cmd := ''set '' @ ''system 1'', cc_system := 1\<rparr>, w)"
proof -
  have "atoi ''1'' = 1" by code_simp
  then show ?thesis by (simp add: cmd_set_def char_at_def)
qed

lemma cmd_set_runas: "cmd_set env (c\<lparr>cc_cmd := ''set '' @ ''runas '' @ r\<rparr>) w
    = (1, c\<lparr>cc_cmd := ''set '' @ ''runas '' @ r, cc_runas := Some r\<rparr>, w)"
  by (simp add: cmd_set_def char_at_def)

lemma cmd_get_version: "cmd_get env (c\<lparr>cc_cmd := ''get version''\<rparr>) w
    = (1, c\<lparr>cc_cmd := ''get version''\<rparr>, hprintf env (cc_pipe c) (version_msg 90) w)"
  by (simp add: cmd_get_def char_at_def version_msg_def)

lemma cmd_run_zero: "\<exists>c' w'. cmd_run env sa c w = (0, c', w')"
  by (auto simp: cmd_run_def Let_def split: option.splits prod.splits)

lemma cstr_clean: "CHR 0x00 \<notin> set s \<Longrightarrow> cstr s = s"
  by (auto simp: cstr_def takeWhile_eq_all_conv)

lemma cstr_version_msg: "take 1023 (cstr (version_msg 90)) = version_msg 90"
  by code_simp

context byte_pipe
begin

lemma round_get:
  assumes "input (kernel w) = ''get version'' @ CHR 0x0A # rest" "ov_h (cc_pipe c) = h"
  shows "\<exists>buf' w'. connection_round env sa buf c w = (True, buf', c\<lparr>cc_cmd := ''get version''\<rparr>, w')
    \<and> input (kernel w') = rest \<and> steps h (calls w') = steps h (calls w) @ [Said (version_msg 90)]"
proof -
  obtain buf' w1 where "input (kernel w1) = rest" "steps h (calls w1) = steps h (calls w)"
    "connection_round env sa buf c w =
      (let (r, c2, w2) = call_cmd env sa Cmd_get (c\<lparr>cc_cmd := ''get version''\<rparr>) w1 in (r \<noteq> 0, buf', c2, w2))"
    using connection_round_line [of w "''get version''" rest c Cmd_get sa buf] assms no_prefix_cmds by auto
  with assms(2) show ?thesis
    by (auto simp: cmd_get_version hprintf_input steps_hprintf cstr_version_msg)
qed

lemma round_set:
  assumes "input (kernel w) = ''set '' @ t @ CHR 0x0A # rest" "ov_h (cc_pipe c) = h"
    and "CHR 0x0A \<notin> set t" "CHR 0x00 \<notin> set t" "length t < 32010"
    and "\<And>w. cmd_set env (c\<lparr>cc_cmd := ''set '' @ t\<rparr>) w = (1, c', w)"
  shows "\<exists>buf' w'. connection_round env sa buf c w = (True, buf', c', w')
    \<and> input (kernel w') = rest \<and> steps h (calls w') = steps h (calls w)"
proof -
  obtain buf' w1 where "input (kernel w1) = rest" "steps h (calls w1) = steps h (calls w)"
    "connection_round env sa buf c w =
      (let (r, c2, w2) = call_cmd env sa Cmd_set (c\<lparr>cc_cmd := ''set '' @ t\<rparr>) w1 in (r \<noteq> 0, buf', c2, w2))"
    using connection_round_line [of w "''set '' @ t" rest c Cmd_set sa buf] assms no_prefix_cmds by auto
  with assms(6) show ?thesis by auto
qed

lemma round_run:
  assumes "input (kernel w) = ''run '' @ cmd @ CHR 0x0A # rest" "ov_h (cc_pipe c) = h" "clean_text cmd"
  shows "\<exists>buf' w1 c' w'. input (kernel w1) = rest \<and> steps h (calls w1) = steps h (calls w)
    \<and> cmd_run env sa (c\<lparr>cc_cmd := ''run '' @ cmd\<rparr>) w1 = (0, c', w')
    \<and> connection_round env sa buf c w = (False, buf', c', w')"
proof -
  obtain buf' w1 where *: "input (kernel w1) = rest" "steps h (calls w1) = steps h (calls w)"
    "connection_round env sa buf c w =
      (let (r, c2, w2) = call_cmd env sa Cmd_run (c\<lparr>cc_cmd := ''run '' @ cmd\<rparr>) w1 in (r \<noteq> 0, buf', c2, w2))"
    using connection_round_line [of w "''run '' @ cmd" rest c Cmd_run sa buf] assms no_prefix_cmds
    by (auto simp: clean_text_def)
  obtain c' w' where "cmd_run env sa (c\<lparr>cc_cmd := ''run '' @ cmd\<rparr>) w1 = (0, c', w')"
    using cmd_run_zero by blast
  with * show ?thesis by auto
qed

text \<open>The line before the run command, if there is one.\<close>

lemma round_options:
  assumes "run_command a = Some text" "pa_cmd a = Some cmd" "input (kernel w) = text"
    and "ov_h (cc_pipe c) = h" "cc_runas c = None" "cc_system c = 0"
    and "\<And>r. pa_runas a = Some r \<Longrightarrow> clean_text r"
  shows "\<exists>n buf1 c1 w1. n \<le> 1 \<and> (\<forall>fuel. connection_loop env sa (n + fuel) buf c w = connection_loop env sa fuel buf1 c1 w1)
    \<and> input (kernel w1) = ''run '' @ cmd @ newline \<and> steps h (calls w1) = steps h (calls w)
    \<and> cc_pipe c1 = cc_pipe c \<and> cc_conn_number c1 = cc_conn_number c \<and> cc_runas c1 = pa_runas a
    \<and> cc_system c1 = (if pa_runas a = None \<and> pa_system a \<noteq> 0 then 1 else 0)"
proof -
  let ?c1 = "c\<lparr>cc_cmd := ''set '' @ ''system 1'', cc_system := 1\<rparr>"
  let ?c2 = "\<lambda>r. c\<lparr>cc_cmd := ''set '' @ ''runas '' @ r, cc_runas := Some r\<rparr>"
  consider r where "pa_runas a = Some r" | "pa_runas a = None" "pa_system a \<noteq> 0"
    | "pa_runas a = None" "pa_system a = 0" by fastforce
  then show ?thesis
  proof cases
    case (1 r)
    then have "input (kernel w) = ''set '' @ (''runas '' @ r) @ CHR 0x0A # ''run '' @ cmd @ newline"
      using assms by (auto simp: run_command_def newline_def)
    moreover have "CHR 0x0A \<notin> set (''runas '' @ r)" "CHR 0x00 \<notin> set (''runas '' @ r)" "length (''runas '' @ r) < 32010"
      using assms(7) [OF 1] by (auto simp: clean_text_def)
    ultimately obtain buf' w' where rd: "connection_round env sa buf c w = (True, buf', ?c2 r, w')"
      and "input (kernel w') = ''run '' @ cmd @ newline" "steps h (calls w') = steps h (calls w)"
      using round_set [OF _ assms(4) _ _ _ cmd_set_runas, of w r "''run '' @ cmd @ newline" sa buf] by auto
    with 1 assms(5,6) show ?thesis
      by (intro exI [of _ 1] exI [of _ buf'] exI [of _ "?c2 r"] exI [of _ w']) simp
  next
    case 2
    then have "input (kernel w) = ''set '' @ ''system 1'' @ CHR 0x0A # ''run '' @ cmd @ newline"
      using assms by (auto simp: run_command_def newline_def)
    then obtain buf' w' where rd: "connection_round env sa buf c w = (True, buf', ?c1, w')"
      and "input (kernel w') = ''run '' @ cmd @ newline" "steps h (calls w') = steps h (calls w)"
      using round_set [OF _ assms(4) _ _ _ cmd_set_system, of w "''run '' @ cmd @ newline" sa buf] by auto
    with 2 assms(5,6) show ?thesis
      by (intro exI [of _ 1] exI [of _ buf'] exI [of _ ?c1] exI [of _ w']) simp
  next
    case 3
    then have "input (kernel w) = ''run '' @ cmd @ newline" using assms by (auto simp: run_command_def)
    with 3 assms(5,6) show ?thesis by (intro exI [of _ 0]) auto
  qed
qed

lemma commands_run:
  assumes "ov_h pipe = h" "run_command a = Some text" "pa_cmd a = Some cmd"
    and "input (kernel w) = ''get version'' @ newline @ text" "clean_text cmd"
    and "\<And>r. pa_runas a = Some r \<Longrightarrow> clean_text r" "3 \<le> fuel"
  shows "\<exists>c w1 c' w'. connection_loop env sa fuel buf (new_connection pipe conn) w = Some (c', w')
    \<and> cmd_run env sa c w1 = (0, c', w')
    \<and> cc_cmd c = ''run '' @ cmd \<and> cc_runas c = pa_runas a \<and> cc_conn_number c = conn
    \<and> cc_pipe c = pipe
    \<and> cc_system c = (if pa_runas a = None \<and> pa_system a \<noteq> 0 then 1 else 0)
    \<and> steps h (calls w1) = steps h (calls w) @ [Said (version_msg 90)]"
proof -
  let ?c = "new_connection pipe conn" and ?d = "(new_connection pipe conn)\<lparr>cc_cmd := ''get version''\<rparr>"
  have new: "ov_h (cc_pipe ?c) = h" "ov_h (cc_pipe ?d) = h" "cc_runas ?d = None" "cc_system ?d = 0"
    using assms(1) by (simp_all add: new_connection_def)
  obtain buf0 w0 where r0: "connection_round env sa buf ?c w = (True, buf0, ?d, w0)"
    and in0: "input (kernel w0) = text" and wr0: "steps h (calls w0) = steps h (calls w) @ [Said (version_msg 90)]"
    using round_get [OF _ new(1), of w "text" sa buf] assms(4) by (auto simp: newline_def)
  obtain n buf1 c1 w1 where n: "n \<le> 1"
    "\<forall>fuel. connection_loop env sa (n + fuel) buf0 ?d w0 = connection_loop env sa fuel buf1 c1 w1"
    and in1: "input (kernel w1) = ''run '' @ cmd @ newline" and wr1: "steps h (calls w1) = steps h (calls w0)"
    and c1: "cc_pipe c1 = cc_pipe ?d" "cc_conn_number c1 = cc_conn_number ?d" "cc_runas c1 = pa_runas a"
      "cc_system c1 = (if pa_runas a = None \<and> pa_system a \<noteq> 0 then 1 else 0)"
    using round_options [OF assms(2,3) in0 new(2-4) assms(6), of sa buf0] by blast
  have "ov_h (cc_pipe c1) = h" using c1(1) new(2) by simp
  then obtain buf2 w2 c' w' where run: "steps h (calls w2) = steps h (calls w1)"
    "cmd_run env sa (c1\<lparr>cc_cmd := ''run '' @ cmd\<rparr>) w2 = (0, c', w')"
    "connection_round env sa buf1 c1 w1 = (False, buf2, c', w')"
    using round_run [of w1 cmd "[]" c1 sa buf1] in1 assms(5) by (auto simp: newline_def)
  obtain k where k: "fuel = Suc (n + Suc k)" 
    using n(1) assms(7) by (intro that [of "fuel - n - 2"]) auto
  have "connection_loop env sa fuel buf ?c w = Some (c', w')"
    using r0 n(2) [rule_format, of "Suc k"] run(3) unfolding k connection_loop.simps(2) by simp
  with run c1 wr0 wr1 show ?thesis
    by (intro exI [of _ "c1\<lparr>cc_cmd := ''run '' @ cmd\<rparr>"] exI [of _ w2] exI [of _ c'] exI [of _ w'])
      (simp add: new_connection_def)
qed

end

text \<open>
  C9. The service carries out what the client sends: on the text of the client's first
  message and of its run command, the connection answers with its version and then executes
  \<open>cmd_run\<close> with the command line, the credentials and the system flag of the client's
  arguments, and ends.
\<close>

theorem client_commands_run:
  assumes "byte_pipe env (ov_h pipe) input" "run_command a = Some text" "pa_cmd a = Some cmd"
    and "input (kernel w) = ''get version'' @ newline @ text" "clean_text cmd"
    and "\<forall>r. pa_runas a = Some r \<longrightarrow> clean_text r" "3 \<le> fuel"
  shows "\<exists>c w1 c' w'. connection_loop env sa fuel buf (new_connection pipe conn) w = Some (c', w')
    \<and> cmd_run env sa c w1 = (0, c', w')
    \<and> cc_cmd c = ''run '' @ cmd \<and> cc_runas c = pa_runas a \<and> cc_conn_number c = conn
    \<and> cc_pipe c = pipe
    \<and> cc_system c = (if pa_runas a = None \<and> pa_system a \<noteq> 0 then 1 else 0)
    \<and> written (ov_h pipe) (calls w1) = written (ov_h pipe) (calls w) @ version_msg 90"
proof -
  obtain c w1 c' w' where "connection_loop env sa fuel buf (new_connection pipe conn) w = Some (c', w')"
    "cmd_run env sa c w1 = (0, c', w')" "cc_cmd c = ''run '' @ cmd" "cc_runas c = pa_runas a"
    "cc_conn_number c = conn" "cc_pipe c = pipe"
    "cc_system c = (if pa_runas a = None \<and> pa_system a \<noteq> 0 then 1 else 0)"
    "steps (ov_h pipe) (calls w1) = steps (ov_h pipe) (calls w) @ [Said (version_msg 90)]"
    using byte_pipe.commands_run [OF assms(1) refl assms(2-5) _ assms(7), of sa buf conn] assms(6) by blast
  moreover from this(8) have "written (ov_h pipe) (calls w1) = written (ov_h pipe) (calls w) @ version_msg 90"
    by (simp add: written_steps)
  ultimately show ?thesis by blast
qed

section \<open>Whole sessions\<close>

lemma steps_w32x: "(\<And>a. step_of h c a = []) \<Longrightarrow> steps h (calls (w32x env c w)) = steps h (calls w)"
  using calls_w32x [of env c w] by auto

lemma length_show_base_16: "n < 16 ^ k \<Longrightarrow> 0 < k \<Longrightarrow> length (show_base 16 n) \<le> k"
proof (induction k arbitrary: n)
  case (Suc k)
  show ?case
  proof (cases "n < 16")
    case False
    then have "n div 16 < 16 ^ k" "0 < k" using Suc.prems by (auto intro: ccontr)
    with Suc.IH [of "n div 16"] False show ?thesis by (simp add: show_base_step)
  qed (simp add: show_base_small)
qed simp

lemma length_fmt_X_8: "length (fmt_X 8 (unat (w :: u32))) = 8"
  using length_show_base_16 [of "unat w" 8] unat_u32_less [of w] by (simp add: fmt_X_def Let_def)

lemma fmt_X_no_nul: "CHR 0x00 \<notin> set (fmt_X k n)"
proof
  assume "CHR 0x00 \<in> set (fmt_X k n)"
  then obtain d where "d < 16" "CHR 0x00 = digit_char d" using fmt_X_digits by blast
  then have "digit_of (CHR 0x00) = Some d" by (simp add: digit_of_digit_char)
  then show False by (simp add: digit_of_def)
qed

lemma msgs_fit:
  "take 1023 (cstr (std_io_err_msg n)) = std_io_err_msg n" "take 1023 (cstr (return_code_msg ec)) = return_code_msg ec"
proof -
  have "CHR 0x00 \<notin> set (std_io_err_msg n)" "CHR 0x00 \<notin> set (return_code_msg ec)"
    using fmt_X_no_nul by (auto simp: std_io_err_msg_def return_code_msg_def)
  moreover have "length (std_io_err_msg n) < 1023" "length (return_code_msg ec) < 1023"
    by (simp_all add: std_io_err_msg_def return_code_msg_def length_fmt_X_8)
  ultimately show "take 1023 (cstr (std_io_err_msg n)) = std_io_err_msg n"
    "take 1023 (cstr (return_code_msg ec)) = return_code_msg ec"
    by (simp_all add: cstr_clean)
qed

text \<open>The steps of a run: the token, the two pipes, what the client is told, and the program.\<close>

definition run_steps :: "HANDLE \<Rightarrow> HANDLE \<Rightarrow> HANDLE \<Rightarrow> HANDLE \<Rightarrow> u32 \<Rightarrow> string \<Rightarrow> u32 \<Rightarrow> session_step list" where
  "run_steps tok pio perr p n cmd ec =
     [Made_token tok, Made_pipe (pipe_path ''ahexec_stdio'' n) pio, Made_pipe (pipe_path ''ahexec_stderr'' n) perr,
      Said (std_io_err_msg n), Joined pio, Joined perr, Started tok cmd pio perr p, Ended p ec,
      Said (return_code_msg ec)]"

text \<open>
  A host that grants the calls of a run: the service has the process id \<open>pid\<close>, tokens, pipes and
  the process are made, the client joins the pipes, and it is the end of the process that ends the
  wait, not a byte from the client.
\<close>

definition answer :: "'k w32_env \<Rightarrow> w32_call \<Rightarrow> 'k w32 \<Rightarrow> w32_answer" where
  "answer env c w = fst (env c (kernel w))"

lemma w32_answer: "w32 env c w = (answer env c w, w32x env c w)"
  by (simp add: w32_def w32x_def answer_def split: prod.splits)

lemma calls_answer: "calls (w32x env c w) = calls w @ [(c, answer env c w)]"
  by (simp add: w32_def w32x_def answer_def split: prod.splits)

lemma steps_answer: "steps h (calls (w32x env c w)) = steps h (calls w) @ step_of h c (answer env c w)"
  by (simp add: calls_answer)

locale granting_host = byte_pipe +
  fixes pid :: u32
  assumes grants: "c \<in> {OpenProcessToken, OpenThreadToken, RevertToSelf} \<Longrightarrow> wa_ok (fst (env c k))"
    and grants_logon: "wa_ok (fst (env (LogonUser u d pw) k))"
    and grants_client: "wa_ok (fst (env (ImpersonateNamedPipeClient x) k))"
    and grants_token: "wa_ok (fst (env (DuplicateTokenEx x l) k))"
    and grants_pipe: "wa_ok (fst (env (CreateNamedPipe name ov sa) k))"
    and grants_join: "wa_ok (fst (env (ConnectNamedPipe x) k))"
    and grants_process: "wa_ok (fst (env (CreateProcessAsUser x cmd y z) k))"
    and process_ends: "wa_code (fst (env (WaitForMultipleObjects x y) k)) \<noteq> WAIT_OBJECT_0"
    and grants_code: "wa_ok (fst (env (GetExitCodeProcess x) k))"
    and process_id: "wa_code (fst (env GetCurrentProcessId k)) = pid"

context granting_host
begin

lemma granted_answers [simp]:
  "wa_ok (answer env OpenProcessToken w)" "wa_ok (answer env OpenThreadToken w)" "wa_ok (answer env RevertToSelf w)"
  "wa_ok (answer env (LogonUser u d pw) w)" "wa_ok (answer env (ImpersonateNamedPipeClient x) w)"
  "wa_ok (answer env (DuplicateTokenEx x l) w)" "wa_ok (answer env (CreateNamedPipe name ov sa) w)"
  "wa_ok (answer env (ConnectNamedPipe x) w)" "wa_ok (answer env (CreateProcessAsUser x cmd y z) w)"
  "wa_code (answer env (WaitForMultipleObjects x y) w) \<noteq> WAIT_OBJECT_0" "wa_ok (answer env (GetExitCodeProcess x) w)"
  "wa_code (answer env GetCurrentProcessId w) = pid"
  by (simp_all add: answer_def grants grants_logon grants_client grants_token grants_pipe grants_join
      grants_process process_ends [simplified] grants_code process_id)

lemmas msgs_fit_text = msgs_fit [unfolded std_io_err_msg_def return_code_msg_def, simplified]

lemma host_run_wait:
  assumes "ov_h (cc_pipe c) = h"
  shows "\<exists>ec. steps h (calls (run_wait env c p t w)) = steps h (calls w) @ [Ended p ec, Said (return_code_msg ec)]"
  using assms
  by (simp add: run_wait_def Let_def w32_answer steps_answer steps_hprintf msgs_fit_text return_code_msg_def)

lemma host_run_process:
  assumes "ov_h (cc_pipe c) = h"
  shows "\<exists>p ec. steps h (calls (run_process env c cmdline w)) = steps h (calls w)
    @ [Started (cc_token c) cmdline (cc_pio c) (cc_perr c) p, Ended p ec, Said (return_code_msg ec)]"
proof -
  define w3 where "w3 = w32x env (SetHandleInformation (cc_perr c)) (w32x env (SetHandleInformation (cc_pio c)) w)"
  let ?x = "CreateProcessAsUser (cc_token c) cmdline (cc_pio c) (cc_perr c)"
  obtain ec where "steps h (calls (run_wait env c (wa_handle (answer env ?x w3)) (wa_thread (answer env ?x w3))
      (w32x env ?x w3))) = steps h (calls (w32x env ?x w3)) @ [Ended (wa_handle (answer env ?x w3)) ec, Said (return_code_msg ec)]"
    using host_run_wait [OF assms] by blast
  then show ?thesis by (auto simp: run_process_def Let_def w32_answer steps_answer w3_def)
qed

lemma host_run_connected:
  assumes "ov_h (cc_pipe c) = h"
  shows "\<exists>p ec. steps h (calls (run_connected env c n cmdline w)) = steps h (calls w)
    @ [Said (std_io_err_msg n), Joined (cc_pio c), Joined (cc_perr c),
       Started (cc_token c) cmdline (cc_pio c) (cc_perr c) p, Ended p ec, Said (return_code_msg ec)]"
proof -
  let ?k = "hprintf env (cc_pipe c) (''std_io_err '' @ fmt_X 8 (unat n) @ nl) w"
  define w3 where "w3 = w32x env (ConnectNamedPipe (cc_perr c)) (w32x env (ConnectNamedPipe (cc_pio c)) ?k)"
  have k: "steps h (calls ?k) = steps h (calls w) @ [Said (std_io_err_msg n)]"
    using assms by (simp add: steps_hprintf msgs_fit_text std_io_err_msg_def)
  obtain p ec where "steps h (calls (run_process env c cmdline w3)) = steps h (calls w3)
    @ [Started (cc_token c) cmdline (cc_pio c) (cc_perr c) p, Ended p ec, Said (return_code_msg ec)]"
    using host_run_process [OF assms] by blast
  with k show ?thesis
    by (auto simp: run_connected_def Let_def pipe_connected_def w32_answer steps_answer w3_def)
qed

lemma host_get_token:
  assumes "get_token env c w = (r, c', w')"
  shows "r = 1 \<and> cc_pipe c' = cc_pipe c \<and> cc_conn_number c' = cc_conn_number c
    \<and> steps h (calls w') = steps h (calls w) @ [Made_token (cc_token c')]"
  using assms
  by (auto simp: get_token_def token_duplicate_def token_revert_def w32_answer steps_answer Let_def
      split: option.splits if_splits)

lemma host_cmd_run:
  assumes "cmd_run env sa c w = (r, c', w')" "cc_cmd c = ''run '' @ cmd" "ov_h (cc_pipe c) = h"
  shows "\<exists>tok pio perr p ec. steps h (calls w') = steps h (calls w)
    @ run_steps tok pio perr p (pipe_number pid (cc_conn_number c)) cmd ec"
proof -
  obtain k c1 w1 where tok: "get_token env c w = (k, c1, w1)" by (metis prod_cases3)
  note t = host_get_token [OF tok]
  let ?n = "pipe_number pid (cc_conn_number c)"
  let ?io = "CreateNamedPipe (pipe_path ''ahexec_stdio'' ?n) False sa"
    and ?err = "CreateNamedPipe (pipe_path ''ahexec_stderr'' ?n) False sa"
  define x where "x = w32x env GetCurrentProcessId w1"
  define w2 where "w2 = w32x env ?err (w32x env ?io x)"
  define c3 where "c3 = c1\<lparr>cc_pio := wa_handle (answer env ?io x), cc_perr := wa_handle (answer env ?err (w32x env ?io x))\<rparr>"
  have c3: "ov_h (cc_pipe c3) = h" using assms(3) t by (simp add: c3_def)
  have w2: "cc_token c3 = cc_token c1" "steps h (calls w2) = steps h (calls w1)
    @ [Made_pipe (pipe_path ''ahexec_stdio'' ?n) (cc_pio c3), Made_pipe (pipe_path ''ahexec_stderr'' ?n) (cc_perr c3)]"
    by (simp_all add: c3_def w2_def x_def steps_answer)
  obtain p ec where p: "steps h (calls (run_connected env c3 ?n cmd w2)) = steps h (calls w2)
    @ [Said (std_io_err_msg ?n), Joined (cc_pio c3), Joined (cc_perr c3),
       Started (cc_token c3) cmd (cc_pio c3) (cc_perr c3) p, Ended p ec, Said (return_code_msg ec)]"
    using host_run_connected [OF c3] by blast
  have "w' = w32x env (CloseHandle (cc_token c3)) (w32x env (CloseHandle (cc_pio c3))
      (w32x env (CloseHandle (cc_perr c3)) (run_connected env c3 ?n cmd w2)))"
    using assms(1,2) t tok by (auto simp: cmd_run_def Let_def w2_def c3_def x_def w32_answer)
  then have "steps h (calls w') = steps h (calls w)
    @ run_steps (cc_token c1) (cc_pio c3) (cc_perr c3) p ?n cmd ec"
    using p t w2 by (simp add: steps_answer run_steps_def)
  then show ?thesis by blast
qed

end

text \<open>
  C2. A whole session of the service: on a host that grants its calls, the connection that
  reads the client's messages does exactly this, in this order, and closes: it says its version,
  makes the token and the two pipes whose names carry the connection's number, tells the
  client that number, waits for the client on both, starts one process with this token, the
  client's command line and the two pipes as its input and output and as its errors, asks for the
  exit code of that process and tells the client the code it got.
\<close>

theorem service_session:
  assumes "granting_host env (ov_h pipe) input pid"
    and "run_command a = Some text" "pa_cmd a = Some cmd" "clean_text cmd"
    and "\<forall>r. pa_runas a = Some r \<longrightarrow> clean_text r" "3 \<le> fuel"
    and "input (kernel w) = ''get version'' @ newline @ text"
  shows "\<exists>w' tok pio perr p ec.
    handle_connection env sa fuel pipe conn w = Some w'
    \<and> steps (ov_h pipe) (calls w') = steps (ov_h pipe) (calls w) @
        Said (version_msg 90) # run_steps tok pio perr p (pipe_number pid conn) cmd ec
    \<and> written (ov_h pipe) (calls w') = written (ov_h pipe) (calls w) @
        version_msg 90 @ std_io_err_msg (pipe_number pid conn) @ return_code_msg ec"
proof -
  let ?h = "ov_h pipe"
  have bp: "byte_pipe env ?h input" using assms(1) by (rule granting_host.axioms)
  obtain c w1 c' w' where
    loop: "connection_loop env sa fuel (replicate MAX_COMMAND_LENGTH (CHR 0x00)) (new_connection pipe conn) w
      = Some (c', w')"
    and run: "cmd_run env sa c w1 = (0, c', w')"
    and c: "cc_cmd c = ''run '' @ cmd" "cc_conn_number c = conn"
      "steps ?h (calls w1) = steps ?h (calls w) @ [Said (version_msg 90)]"
    and pipe: "cc_pipe c = pipe"
    using byte_pipe.commands_run [OF bp refl assms(2,3,7,4) _ assms(6), where sa = sa
        and buf = "replicate MAX_COMMAND_LENGTH (CHR 0x00)" and conn = conn]
      assms(5)
    by auto
  have "cc_pipe c' = pipe" using connection_loop_pipe [OF loop] by (simp add: new_connection_def)
  with loop granting_host.host_cmd_run [OF assms(1) run c(1)] c pipe show ?thesis
    by (fastforce simp: handle_connection_def steps_answer written_steps run_steps_def)
qed

text \<open>The host of the examples is such a host.\<close>

lemma host_w32:
  "w32 (host_env pid ec) c w =
     (fst (host_env pid ec c (kernel w)), \<lparr>kernel = snd (host_env pid ec c (kernel w)),
       calls = calls w @ [(c, fst (host_env pid ec c (kernel w)))]\<rparr>)"
  by (simp add: w32_def split: prod.splits)

interpretation demo_host: granting_host "host_env pid ec" h k_input pid
  by unfold_locales (auto simp: granted_def)

text \<open>
  The other side of the same session. The client runs in the event loop; the script names the
  pending request the next reply belongs to.
\<close>

definition session_env :: "scm_host wenv" where
  "session_env = \<lparr>we_net = good_net, we_scm = scm_env, we_nt = True, we_dbg = False, we_fuel = 1, we_junk = 0\<rparr>"

lemma session_env_simps:
  "we_net session_env = good_net" "we_scm session_env = scm_env" "we_nt session_env = True"
  "alloc_ok good_net = (\<lambda>_. True)" "send_ok good_net = (\<lambda>_. True)"
  by (simp_all add: session_env_def good_net_def)

definition answer_next :: "'h wenv \<Rightarrow> recv_fn \<Rightarrow> ctxid \<Rightarrow> reply \<Rightarrow> 'h winexe \<Rightarrow> 'h wx_res" where
  "answer_next e fn c rp s =
     (case find (\<lambda>r. rq_fn r = fn \<and> rq_private r = c) (pending s) of
        None \<Rightarrow> Undef
      | Some r \<Rightarrow> if enabled (Reply_event r rp) s then handle_event e (Reply_event r rp) s else Undef)"

definition opened_reply :: "u16 \<Rightarrow> reply" where
  "opened_reply n = \<lparr>rp_status = NT_STATUS_OK, rp_fnum = n, rp_data = []\<rparr>"

definition data_reply :: "string \<Rightarrow> reply" where
  "data_reply d = \<lparr>rp_status = NT_STATUS_OK, rp_fnum = 0, rp_data = d\<rparr>"

definition broken_reply :: reply where
  "broken_reply = \<lparr>rp_status = 0xC000014B, rp_fnum = 0, rp_data = []\<rparr>"

definition client_session :: "program_args \<Rightarrow> u32 \<Rightarrow> u32 \<Rightarrow> scm_host wx_res" where
  "client_session a n ec =
     (let e = session_env in
      andr (main_program e a (fresh_world True)) (\<lambda>s0.
      andr (answer_next e Async_open_recv 0 (opened_reply 1) s0) (\<lambda>s1.
      andr (answer_next e Async_read_recv 0 (data_reply (version_msg 90)) s1) (\<lambda>s2.
      andr (answer_next e Async_read_recv 0 (data_reply (std_io_err_msg n)) s2) (\<lambda>s3.
      andr (answer_next e Async_open_recv 1 (opened_reply 2) s3) (\<lambda>s4.
      andr (answer_next e Async_open_recv 2 (opened_reply 3) s4) (\<lambda>s5.
      andr (answer_next e Async_read_recv 0 (data_reply (return_code_msg ec)) s5)
        (answer_next e Async_read_recv 0 broken_reply))))))))"

lemma length_msgs_buffer:
  "length (return_code_msg ec) \<le> buffer_size" "length (std_io_err_msg n) \<le> buffer_size"
  by (simp_all add: return_code_msg_def std_io_err_msg_def length_fmt_X_8)

lemma main_flags_default:
  assumes "pa_interactive a = SVC_IGNORE_INTERACTIVE" "pa_reinstall a = 0"
  shows "pa_flags (main_flags a) AND SVC_FORCE_UPLOAD = 0" "pa_flags (main_flags a) AND SVC_IGNORE_INTERACTIVE \<noteq> 0"
    "run_command (main_flags a) = run_command a" "pa_uninstall (main_flags a) = pa_uninstall a"
  using assms by (auto simp: main_flags_def Let_def run_command_def split: option.splits)

lemmas session_defs = answer_next_def opened_reply_def data_reply_def broken_reply_def request_done_def
  async_open_recv_def async_read_recv_def async_read_def async_write_def async_open_def with_ctx_def
  set_ctx_def tick_def smb_send_def call_cb_def smbcli_request_destroy_def NT_STATUS_IS_OK_def
  ctrl_context_def io_context_def err_context_def zero_context_def on_ctrl_pipe_open_def on_io_pipe_open_def

lemma session_start:
  assumes "pa_interactive a = SVC_IGNORE_INTERACTIVE" "pa_reinstall a = 0"
  shows "main_program session_env a (fresh_world True) =
    open_ctrl session_env (set_ctx 0 ctrl_context
      ((initial_state (main_flags a) (snd (invoke scm_env (Full_connection (pa_hostname (main_flags a)) ''IPC$'') (fresh_world True))))
       \<lparr>clk := Suc (Suc 0), next_ctx := 1, ac_ctrl := 0, return_code := 99, wx_state := STATE_OPENING\<rparr>))"
  using main_flags_default [OF assms]
  by (simp add: main_program_def Let_def session_env_def good_net_def wx_connect_def initial_state_def
      invoke_def ok_answer_def NT_STATUS_IS_OK_def)

text \<open>
  C1. A whole session of the client: with the default options and for every command, exit
  code and pipe number, the client that receives the messages of the service writes its
  version question and the run command, opens the control pipe and the two pipes of that
  number, and when the control pipe breaks ends with the exit code of the remote program.
\<close>

theorem client_session_exit_code:
  assumes "pa_interactive a = SVC_IGNORE_INTERACTIVE" "pa_reinstall a = 0" "pa_uninstall a = 0"
    and "run_command a = Some text" "length text < 65536"
  shows "\<exists>s'. client_session a n ec = Exit ec s'
    \<and> writes (wire s') = [''get version'' @ newline, text]
    \<and> open_names (wire s') = [PIPE_PREFIX @ PIPE_NAME, PIPE_PREFIX @ PIPE_NAME_IO n, PIPE_PREFIX @ PIPE_NAME_ERR n]"
proof -
  have len: "unat (of_nat (length text) :: u16) = length text" using assms(5) by (simp add: unat_of_nat)
  note flags = main_flags_default [OF assms(1,2)]
  have v: "length (version_msg 90) \<le> buffer_size" by code_simp
  show ?thesis
    using assms(3,4) flags(3,4) len
    by (simp add: client_session_def session_start [OF assms(1,2)] Let_def open_ctrl_def session_env_simps
        initial_state_def session_defs newline_def read_version length_msgs v length_msgs_buffer
        read_std_io_err read_return_code new_pipe_def on_ctrl_pipe_error_def NT_STATUS_EQUAL_nt exit_program_def
        writes_def open_names_def)
qed

section \<open>Concrete inputs\<close>

definition demo_args :: program_args where
  "demo_args = default_args\<lparr>pa_hostname := ''host'', pa_cmd := Some ''ipconfig''\<rparr>"

definition demo_text :: string where "demo_text = ''run ipconfig'' @ newline"

lemma demo_run_command: "run_command demo_args = Some demo_text" "run_command (main_flags demo_args) = Some demo_text"
  by (simp_all add: run_command_def demo_args_def demo_text_def default_args_def main_flags_def)

theorem client_session_exit_code_witness:
  "\<exists>s'. client_session demo_args 0x1A40001 7 = Exit 7 s' \<and> writes (wire s') = [''get version'' @ newline, demo_text]"
  using client_session_exit_code [OF _ _ _ demo_run_command(1), of "0x1A40001" 7]
  by (auto simp: demo_args_def default_args_def demo_text_def newline_def)

theorem service_session_witness:
  "\<exists>w' tok pio perr p ec. handle_connection (host_env 0x1A4 7) admin_sa 3 \<lparr>ov_h = 1, ov_event = 2\<rparr> 1
      (start_host (''get version'' @ newline @ demo_text)) = Some w'
    \<and> steps 1 (calls w') = Said (version_msg 90) # run_steps tok pio perr p (pipe_number 0x1A4 1) ''ipconfig'' ec
    \<and> written 1 (calls w') = version_msg 90 @ std_io_err_msg (pipe_number 0x1A4 1) @ return_code_msg ec"
  using service_session [OF demo_host.granting_host_axioms [where pid = "0x1A4" and ec = 7 and h = "ov_h \<lparr>ov_h = 1, ov_event = 2\<rparr>"]
      demo_run_command(1), of "''ipconfig''" 3 "start_host (''get version'' @ newline @ demo_text)" admin_sa 1]
  by (simp add: demo_args_def default_args_def clean_text_def start_host_def)

theorem client_commands_run_witness:
  "\<exists>c w1 c' w'. connection_loop (host_env 0x1A4 7) admin_sa 3 [] (new_connection \<lparr>ov_h = 1, ov_event = 2\<rparr> 1)
      (start_host (''get version'' @ newline @ demo_text)) = Some (c', w')
    \<and> cmd_run (host_env 0x1A4 7) admin_sa c w1 = (0, c', w') \<and> cc_cmd c = ''run ipconfig''"
  using client_commands_run [OF host_pipe.byte_pipe_axioms [where pid = "0x1A4" and ec = 7] demo_run_command(1), where cmd = "''ipconfig''"
      and w = "start_host (''get version'' @ newline @ demo_text)" and pipe = "\<lparr>ov_h = 1, ov_event = 2\<rparr>"
      and fuel = 3 and sa = admin_sa and buf = "[]" and conn = 1]
  by (auto simp: demo_args_def default_args_def clean_text_def start_host_def)

text \<open>A state of the client with the control pipe open and a read in flight.\<close>

definition ctrl_read :: request where
  "ctrl_read = \<lparr>rq_id = 5, rq_private = 0, rq_fn = Async_read_recv,
     rq_call = SmbRead \<lparr>rx_fnum = 1, rx_offset = 0, rx_mincnt = 256, rx_maxcnt = 256, rx_remaining = 0,
       rx_read_for_execute = False\<rparr>\<rparr>"

definition ctrl_reading :: "wx_cb async_context" where
  "ctrl_reading = ctrl_context\<lparr>fd := 1, rreq := Some 5, io_read := Some \<lparr>rx_fnum = 1, rx_offset = 0,
     rx_mincnt = 256, rx_maxcnt = 256, rx_remaining = 0, rx_read_for_execute = False\<rparr>\<rparr>"

definition demo_state :: "scm_host winexe" where
  "demo_state = (initial_state (main_flags demo_args) (fresh_world True))
     \<lparr>ctxs := [0 \<mapsto> ctrl_reading], pending := [ctrl_read], wire := [ctrl_read], clk := 6,
      next_ctx := 1, return_code := 99, wx_state := STATE_GETTING_VERSION\<rparr>"

lemma demo_state_inv: "wx_inv (main_flags demo_args) demo_state"
  by (simp add: wx_inv_def demo_state_def initial_state_def client_ctx_def ctxs_ok_def ctx_ok_def
      same_callbacks_def ctrl_reading_def ctrl_context_def zero_context_def)

theorem exit_code_delivered_witness:
  "(\<exists>s'. handle_event session_env (Reply_event ctrl_read (data_reply (return_code_msg 7))) demo_state = Ret () s'
      \<and> return_code s' = 7)
   \<or> (\<exists>s'. handle_event session_env (Reply_event ctrl_read (data_reply (return_code_msg 7))) demo_state = Exit 7 s')"
proof -
  have x: "ctxs demo_state (ac_ctrl demo_state) = Some ctrl_reading" "io_read ctrl_reading \<noteq> None"
    by (simp_all add: demo_state_def initial_state_def ctrl_reading_def)
  show ?thesis
    by (rule exit_code_delivered [OF demo_state_inv _ _ x])
      (simp_all add: ctrl_read_def demo_state_def initial_state_def data_reply_def
        NT_STATUS_IS_OK_def session_env_simps main_flags_def demo_args_def default_args_def)
qed

theorem pipes_match_witness:
  "\<exists>s' rs. on_ctrl_pipe_read session_env (std_io_err_msg 0x1A40001) 20 demo_state = Ret () s'
     \<and> wire s' = wire demo_state @ rs
     \<and> open_names rs = [drop 3 (pipe_path ''ahexec_stdio'' 0x1A40001), drop 3 (pipe_path ''ahexec_stderr'' 0x1A40001)]"
  using pipes_match [of session_env 20 "0x1A40001" "[]" demo_state] by (auto simp: session_env_simps)

theorem coalesced_messages_lose_exit_code_witness:
  "\<exists>s'. on_ctrl_pipe_read session_env (std_io_err_msg 0x1A40001 @ return_code_msg 7) 41 demo_state = Ret () s'
     \<and> return_code s' = 99"
  using coalesced_messages_lose_exit_code [of session_env 41 "0x1A40001" 7 "[]" demo_state]
  by (auto simp: session_env_simps demo_state_def)

theorem version_handshake_witness:
  "\<exists>s' rs. on_ctrl_pipe_read session_env (version_msg 90) 15 demo_state = Ret () s' \<and> wire s' = wire demo_state @ rs
     \<and> wx_state s' = STATE_RUNNING \<and> writes rs = [demo_text]"
proof -
  have x: "ctxs demo_state (ac_ctrl demo_state) = Some ctrl_reading"
    by (simp add: demo_state_def initial_state_def)
  have "we_net session_env = good_net" "(7 :: nat) < 15" "(90 :: nat) < 2 ^ 31" "length demo_text < 65536"
    by (simp_all add: session_env_simps demo_text_def newline_def)
  from version_handshake [OF demo_state_inv this(1-3) x demo_run_command(2) this(4), of "[]"] show ?thesis by auto
qed

text \<open>The client after its start, and the end of its session.\<close>

lemma demo_start: "\<exists>s0. main_program session_env demo_args (fresh_world True) = Ret () s0"
  by (simp add: session_start demo_args_def default_args_def open_ctrl_def async_open_def with_ctx_def set_ctx_def
      smb_send_def session_env_simps Let_def)

theorem winexe_invariant_witness:
  "\<exists>s0. main_program session_env demo_args (fresh_world True) = Ret () s0 \<and>
     (\<forall>c x. ctxs s0 c = Some x \<longrightarrow> wreq x = None \<and> l_begin (wq x) = None)"
proof -
  from demo_start obtain s0 where s0: "main_program session_env demo_args (fresh_world True) = Ret () s0" by blast
  from winexe_invariant [OF this wx_start] s0 show ?thesis by blast
qed

lemma demo_open_fails:
  "\<exists>s0 r s'. main_program session_env demo_args (fresh_world True) = Ret () s0
     \<and> enabled (Reply_event r \<lparr>rp_status = 0xC0000022, rp_fnum = 0, rp_data = []\<rparr>) s0
     \<and> handle_event session_env (Reply_event r \<lparr>rp_status = 0xC0000022, rp_fnum = 0, rp_data = []\<rparr>) s0 = Exit 1 s'"
  by (simp add: session_start demo_args_def default_args_def open_ctrl_def async_open_def with_ctx_def set_ctx_def
      smb_send_def session_env_simps Let_def request_done_def async_open_recv_def NT_STATUS_IS_OK_def tick_def
      smbcli_request_destroy_def call_cb_def ctrl_context_def on_ctrl_pipe_error_def NT_STATUS_EQUAL_nt exit_program_def
      initial_state_def main_flags_def)

theorem winexe_exit_status_witness:
  "\<exists>s0 ev s'. main_program session_env demo_args (fresh_world True) = Ret () s0 \<and> enabled ev s0
     \<and> handle_event session_env ev s0 = Exit 1 s' \<and> return_code s' = 1"
proof -
  from demo_open_fails obtain s0 r s' where
    r: "main_program session_env demo_args (fresh_world True) = Ret () s0"
    "enabled (Reply_event r \<lparr>rp_status = 0xC0000022, rp_fnum = 0, rp_data = []\<rparr>) s0"
    "handle_event session_env (Reply_event r \<lparr>rp_status = 0xC0000022, rp_fnum = 0, rp_data = []\<rparr>) s0 = Exit 1 s'"
    by blast
  from winexe_exit_status [OF r(1) trace_start r(2,3)] have "return_code s' = 1" by simp
  with r show ?thesis by blast
qed

section \<open>Concrete inputs of the service\<close>

definition demo_connection :: connection_context where
  "demo_connection = (new_connection \<lparr>ov_h = 1, ov_event = 2\<rparr> 1)\<lparr>cc_cmd := ''run ipconfig''\<rparr>"

theorem get_token_identity_witness:
  "\<exists>c' w'. get_token (host_env 0x1A4 7) demo_connection (start_host []) = (1, c', w')
     \<and> token_calls demo_connection (calls w') (cc_token c')"
proof -
  obtain r c' w' where g: "get_token (host_env 0x1A4 7) demo_connection (start_host []) = (r, c', w')"
    by (metis prod_cases3)
  with demo_host.host_get_token [OF g] have g1: "get_token (host_env 0x1A4 7) demo_connection (start_host []) = (1, c', w')"
    by simp
  from get_token_identity [OF g1] g1 show ?thesis by (auto simp: start_host_def)
qed

lemma demo_reverts: "\<exists>r c' w'. cmd_run (host_env 0x1A4 7) admin_sa demo_connection (start_host []) = (r, c', w')
    \<and> reverts_ok (calls w')"
  by (simp add: cmd_run_def demo_connection_def new_connection_def start_host_def get_token_def token_duplicate_def
      token_revert_def host_w32 w32x_def granted_def hprintf_def run_connected_def pipe_connected_def run_process_def
      run_wait_def reverts_ok_def Let_def)

theorem cmd_run_handles_witness:
  "\<exists>r c' w'. cmd_run (host_env 0x1A4 7) admin_sa demo_connection (start_host []) = (r, c', w')
     \<and> r = 0 \<and> open_count (calls w') 10 = 0"
proof -
  from demo_reverts obtain r c' w' where
    run: "cmd_run (host_env 0x1A4 7) admin_sa demo_connection (start_host []) = (r, c', w')" "reverts_ok (calls w')"
    by blast
  from cmd_run_handles [OF run, of 10] run(1) show ?thesis by (auto simp: start_host_def open_count_def)
qed

theorem hgets_bounds_witness:
  "\<exists>count str' w'. hgets (host_env 0x1A4 7) (replicate 4 (CHR ''x'')) 4 \<lparr>ov_h = 1, ov_event = 2\<rparr> (start_host ''abcdef'')
       = (count, str', w')
     \<and> count < 4 \<and> length str' = 4 \<and> str' ! count = CHR 0x00"
proof -
  obtain count str' w' where
    h: "hgets (host_env 0x1A4 7) (replicate 4 (CHR ''x'')) 4 \<lparr>ov_h = 1, ov_event = 2\<rparr> (start_host ''abcdef'')
      = (count, str', w')" by (metis prod_cases3)
  from hgets_bounds [OF h] h show ?thesis by auto
qed

theorem handle_connection_ends_witness:
  "\<exists>w'. handle_connection (host_env 0x1A4 7) admin_sa 9 \<lparr>ov_h = 1, ov_event = 2\<rparr> 1 (start_host ''nonsense'') = Some w'"
  using handle_connection_ends [OF host_pipe.byte_pipe_axioms [where pid = "0x1A4" and ec = 7], where w = "start_host ''nonsense''"
      and fuel = 9 and pipe = "\<lparr>ov_h = 1, ov_event = 2\<rparr>"]
  by (force simp: start_host_def)

theorem server_loop_connections_witness:
  "\<exists>go n w'. server_loop (host_env 0x1A4 7) 3 (start_host []) = (go, n, w') \<and> started (calls w') = [1..n]"
proof -
  obtain go n w' where "server_loop (host_env 0x1A4 7) 3 (start_host []) = (go, n, w')" by (metis prod_cases3)
  with server_loop_connections [of "host_env 0x1A4 7" 3 _ go n w'] show ?thesis by (auto simp: start_host_def)
qed

end
