(* ===== verification/DomSid.thy ===== *)
theory DomSid
  imports CString NtError
begin

text \<open>
  Security identifiers, \<open>libcli/security/dom_sid.c\<close>. The structure is the one of
  \<open>librpc/idl/security.idl\<close>: \<open>num_auths\<close> is a signed byte, the array \<open>sub_auths\<close> may be longer
  than it says. A pointer that may be NULL is an option; allocation succeeds.
\<close>

section \<open>Identifiers\<close>

record dom_sid =
  sid_rev_num :: u8
  num_auths :: u8
  id_auth :: "u8 list"
  sub_auths :: "u32 list"

text \<open>The value the loops count to, and the well-formed identifiers.\<close>

definition auths :: "dom_sid \<Rightarrow> nat" where "auths s = nat (sint (num_auths s))"

definition sid_wf :: "dom_sid \<Rightarrow> bool" where
  "sid_wf s \<longleftrightarrow> length (id_auth s) = 6 \<and> 0 \<le> sint (num_auths s) \<and> auths s \<le> length (sub_auths s)"

section \<open>Comparison\<close>

fun compare_bytes :: "nat \<Rightarrow> nat \<Rightarrow> dom_sid \<Rightarrow> dom_sid \<Rightarrow> int" where
  "compare_bytes i 0 sid1 sid2 = 0"
| "compare_bytes i (Suc n) sid1 sid2 =
     (if id_auth sid1 ! i \<noteq> id_auth sid2 ! i then uint (id_auth sid1 ! i) - uint (id_auth sid2 ! i)
      else compare_bytes (Suc i) n sid1 sid2)"

definition dom_sid_compare_auth :: "dom_sid option \<Rightarrow> dom_sid option \<Rightarrow> int" where
  "dom_sid_compare_auth p1 p2 =
     (case (p1, p2) of
        (None, None) \<Rightarrow> 0
      | (None, Some _) \<Rightarrow> -1
      | (Some _, None) \<Rightarrow> 1
      | (Some sid1, Some sid2) \<Rightarrow>
          if sid_rev_num sid1 \<noteq> sid_rev_num sid2 then uint (sid_rev_num sid1) - uint (sid_rev_num sid2)
          else compare_bytes 0 6 sid1 sid2)"

text \<open>
  The loop over the sub-authorities runs downwards; the difference of two 32-bit values is
  returned as an int.
\<close>

fun compare_auths :: "nat \<Rightarrow> dom_sid \<Rightarrow> dom_sid \<Rightarrow> int option" where
  "compare_auths 0 sid1 sid2 = None"
| "compare_auths (Suc i) sid1 sid2 =
     (if sub_auths sid1 ! i \<noteq> sub_auths sid2 ! i then Some (sint (sub_auths sid1 ! i - sub_auths sid2 ! i))
      else compare_auths i sid1 sid2)"

definition dom_sid_compare :: "dom_sid option \<Rightarrow> dom_sid option \<Rightarrow> int" where
  "dom_sid_compare p1 p2 =
     (case (p1, p2) of
        (None, None) \<Rightarrow> 0
      | (None, Some _) \<Rightarrow> -1
      | (Some _, None) \<Rightarrow> 1
      | (Some sid1, Some sid2) \<Rightarrow>
          if num_auths sid1 \<noteq> num_auths sid2 then sint (num_auths sid1) - sint (num_auths sid2)
          else (case compare_auths (auths sid1) sid1 sid2 of
                  Some d \<Rightarrow> d
                | None \<Rightarrow> dom_sid_compare_auth p1 p2))"

definition dom_sid_equal :: "dom_sid option \<Rightarrow> dom_sid option \<Rightarrow> bool" where
  "dom_sid_equal p1 p2 \<longleftrightarrow> dom_sid_compare p1 p2 = 0"

section \<open>Text\<close>

definition toupper :: "char \<Rightarrow> char" where
  "toupper ch = (let c = of_char ch :: nat in if 97 \<le> c \<and> c \<le> 122 then char_of (c - 32) else ch)"

definition strncasecmp_eq :: "string \<Rightarrow> string \<Rightarrow> nat \<Rightarrow> bool" where
  "strncasecmp_eq s t n \<longleftrightarrow> map toupper (take n s) = map toupper (take n t)"

fun parse_auths :: "nat \<Rightarrow> string \<Rightarrow> u32 list option" where
  "parse_auths 0 sidstr = Some []"
| "parse_auths (Suc n) sidstr =
     (if char_at sidstr 0 \<noteq> CHR ''-'' then None
      else
        (let s = drop 1 sidstr; (v, p) = strtoul 10 s in
         if p = s then None
         else map_option (Cons (ucast v)) (parse_auths n p)))"

definition dom_sid_parse_talloc :: "string \<Rightarrow> dom_sid option" where
  "dom_sid_parse_talloc sidstr =
     (if \<not> strncasecmp_eq sidstr ''S-'' 2 then None
      else
        (let (rev, p) = strtol 10 (drop 2 sidstr) in
         if char_at p 0 \<noteq> CHR ''-'' then None
         else
           (let s1 = drop 1 p; (v, q) = strtol 10 s1; ia = (ucast v :: u32) in
            if q = s1 then None
            else
              (let num_sub_auths = length (filter (\<lambda>c. c = CHR ''-'') q) in
               case parse_auths num_sub_auths q of
                 None \<Rightarrow> None
               | Some subs \<Rightarrow>
                   Some \<lparr>sid_rev_num = ucast rev, num_auths = of_nat num_sub_auths,
                         id_auth = [0, 0, ucast (drop_bit 24 ia), ucast (drop_bit 16 ia),
                                    ucast (drop_bit 8 ia), ucast ia],
                         sub_auths = subs\<rparr>))))"

fun auth_strings :: "u32 list \<Rightarrow> string" where
  "auth_strings [] = []"
| "auth_strings (a # as) = CHR ''-'' # fmt_u (unat a) @ auth_strings as"

definition dom_sid_string :: "dom_sid option \<Rightarrow> string" where
  "dom_sid_string p =
     (case p of
        None \<Rightarrow> ''(NULL SID)''
      | Some sid \<Rightarrow>
          (let ia = (ucast (id_auth sid ! 5) + push_bit 8 (ucast (id_auth sid ! 4))
                     + push_bit 16 (ucast (id_auth sid ! 3)) + push_bit 24 (ucast (id_auth sid ! 2)) :: u32)
           in ''S-'' @ fmt_u (unat (sid_rev_num sid)) @ ''-'' @ fmt_u (unat ia)
              @ auth_strings (take (auths sid) (sub_auths sid))))"

section \<open>Domains\<close>

definition dom_sid_dup :: "dom_sid option \<Rightarrow> dom_sid option" where
  "dom_sid_dup p = map_option (\<lambda>sid. sid\<lparr>sub_auths := take (auths sid) (sub_auths sid)\<rparr>) p"

definition dom_sid_add_rid :: "dom_sid \<Rightarrow> u32 \<Rightarrow> dom_sid" where
  "dom_sid_add_rid domain_sid rid =
     domain_sid\<lparr>sub_auths := take (auths domain_sid) (sub_auths domain_sid) @ [rid],
                num_auths := num_auths domain_sid + 1\<rparr>"

definition dom_sid_split_rid :: "dom_sid \<Rightarrow> NTSTATUS + dom_sid \<times> u32" where
  "dom_sid_split_rid sid =
     (if num_auths sid = 0 then Inl 0xC000000D
      else
        (case dom_sid_dup (Some sid) of
           None \<Rightarrow> Inl NT_STATUS_NO_MEMORY
         | Some d \<Rightarrow>
             (let d' = d\<lparr>num_auths := num_auths d - 1\<rparr> in Inr (d', sub_auths d' ! auths d'))))"

fun same_auths :: "nat \<Rightarrow> dom_sid \<Rightarrow> dom_sid \<Rightarrow> bool" where
  "same_auths 0 d s = True"
| "same_auths (Suc i) d s = (sub_auths d ! i = sub_auths s ! i \<and> same_auths i d s)"

definition dom_sid_in_domain :: "dom_sid option \<Rightarrow> dom_sid option \<Rightarrow> bool" where
  "dom_sid_in_domain p1 p2 =
     (case (p1, p2) of
        (Some domain_sid, Some sid) \<Rightarrow>
          \<not> sint (num_auths sid) < sint (num_auths domain_sid)
          \<and> same_auths (auths domain_sid) domain_sid sid
          \<and> dom_sid_compare_auth p1 p2 = 0
      | _ \<Rightarrow> False)"

section \<open>Equality\<close>

text \<open>What an identifier denotes: the array beyond \<open>num_auths\<close> does not count.\<close>

definition sid_view :: "dom_sid \<Rightarrow> u8 \<times> u8 list \<times> u32 list" where
  "sid_view s = (sid_rev_num s, id_auth s, take (auths s) (sub_auths s))"

lemma compare_bytes_0: "compare_bytes i n a b = 0 \<longleftrightarrow> (\<forall>k < n. id_auth a ! (i + k) = id_auth b ! (i + k))"
proof (induction n arbitrary: i)
  case (Suc n)
  show ?case
    by (auto simp: Suc.IH less_Suc_eq_0_disj word_uint_eq_iff)
qed simp

lemma compare_auths_None: "compare_auths n a b = None \<longleftrightarrow> (\<forall>k < n. sub_auths a ! k = sub_auths b ! k)"
  by (induction n) (auto simp: less_Suc_eq)

lemma compare_auths_not_0: "compare_auths n a b \<noteq> Some 0"
  by (induction n) (auto simp: sint_eq_iff [of _ 0, simplified])

lemma same_auths_iff: "same_auths n a b \<longleftrightarrow> (\<forall>k < n. sub_auths a ! k = sub_auths b ! k)"
  by (induction n) (auto simp: less_Suc_eq)

lemma take_eq_nth:
  "n \<le> length xs \<Longrightarrow> n \<le> length ys \<Longrightarrow> take n xs = take n ys \<longleftrightarrow> (\<forall>k < n. xs ! k = ys ! k)"
  by (auto simp: list_eq_iff_nth_eq)

lemma compare_auth_0:
  "sid_wf a \<Longrightarrow> sid_wf b \<Longrightarrow>
   dom_sid_compare_auth (Some a) (Some b) = 0 \<longleftrightarrow> sid_rev_num a = sid_rev_num b \<and> id_auth a = id_auth b"
  by (auto simp: dom_sid_compare_auth_def compare_bytes_0 sid_wf_def list_eq_iff_nth_eq word_uint_eq_iff)

lemma auths_inj: "sid_wf a \<Longrightarrow> sid_wf b \<Longrightarrow> auths a = auths b \<longleftrightarrow> num_auths a = num_auths b"
  by (auto simp: sid_wf_def auths_def eq_nat_nat_iff intro: signed_word_eqI)

lemma dom_sid_equal_iff:
  assumes "sid_wf a" "sid_wf b"
  shows "dom_sid_equal (Some a) (Some b) \<longleftrightarrow> sid_view a = sid_view b"
proof (cases "num_auths a = num_auths b")
  case True
  then have n: "auths a = auths b" by (simp add: auths_def)
  with assms have "auths a \<le> length (sub_auths a)" "auths a \<le> length (sub_auths b)" by (auto simp: sid_wf_def)
  then have auths_eq: "take (auths a) (sub_auths a) = take (auths b) (sub_auths b) \<longleftrightarrow> compare_auths (auths a) a b = None"
    unfolding compare_auths_None n [symmetric] by (rule take_eq_nth)
  show ?thesis
  proof (cases "compare_auths (auths a) a b")
    case None
    with True auths_eq compare_auth_0 [OF assms] show ?thesis
      by (simp add: dom_sid_equal_def dom_sid_compare_def sid_view_def)
  next
    case (Some d)
    with True auths_eq compare_auths_not_0 [of "auths a" a b] show ?thesis
      by (simp add: dom_sid_equal_def dom_sid_compare_def sid_view_def)
  qed
next
  case False
  then have "auths a \<noteq> auths b" using auths_inj [OF assms] by simp
  with assms have "length (take (auths a) (sub_auths a)) \<noteq> length (take (auths b) (sub_auths b))"
    by (simp add: sid_wf_def)
  then have "sid_view a \<noteq> sid_view b" by (auto simp: sid_view_def simp del: length_take)
  with False show ?thesis
    by (simp add: dom_sid_equal_def dom_sid_compare_def sint_eq_iff)
qed

lemma dom_sid_equal_None: "dom_sid_equal None (Some b) = False" "dom_sid_equal (Some b) None = False"
  "dom_sid_equal None None = True"
  by (simp_all add: dom_sid_equal_def dom_sid_compare_def)

text \<open>
  \<open>dom_sid_equal\<close> decides equality: for well-formed identifiers it holds exactly when
  revision, authority and the sub-authorities within \<open>num_auths\<close> are the same, whatever the
  arrays hold beyond; the conversion of the 32-bit difference to an int never hides one.
\<close>

theorem dom_sid_equal_correct:
  assumes "sid_wf a" "sid_wf b"
  shows "dom_sid_equal (Some a) (Some b) \<longleftrightarrow>
    sid_rev_num a = sid_rev_num b \<and> id_auth a = id_auth b
    \<and> take (auths a) (sub_auths a) = take (auths b) (sub_auths b)"
  using dom_sid_equal_iff [OF assms] by (simp add: sid_view_def)

text \<open>The identifier S-1-5-32-544 of the builtin administrators.\<close>

definition admins_sid :: dom_sid where
  "admins_sid = \<lparr>sid_rev_num = 1, num_auths = 2, id_auth = [0, 0, 0, 0, 0, 5], sub_auths = [32, 544]\<rparr>"

lemma admins_wf: "sid_wf admins_sid" "sid_wf (admins_sid\<lparr>sub_auths := [32, 544, 7]\<rparr>)" "auths admins_sid = 2"
  by (simp_all add: sid_wf_def auths_def admins_sid_def)

theorem dom_sid_equal_correct_witness:
  "dom_sid_equal (Some admins_sid) (Some (admins_sid\<lparr>sub_auths := [32, 544, 7]\<rparr>))"
  using dom_sid_equal_correct [OF admins_wf(1,2)] by (simp add: admins_sid_def auths_def)

section \<open>Domains and relative identifiers\<close>

lemma sint_Suc:
  assumes "sint (w :: u8) < 127"
  shows "sint (w + 1) = sint w + 1"
proof -
  have "sint (w + 1) = signed_take_bit 7 (sint w + 1)" by (simp add: sint_word_ariths)
  moreover have "- 128 \<le> sint w" using sint_greater_eq [of w] by simp
  ultimately show ?thesis using assms by (simp add: signed_take_bit_int_eq_self)
qed

lemma auths_add_rid:
  assumes "sid_wf d" "auths d < 127"
  shows "auths (dom_sid_add_rid d rid) = Suc (auths d)" "sid_wf (dom_sid_add_rid d rid)"
  using assms sint_Suc [of "num_auths d"] by (auto simp: dom_sid_add_rid_def auths_def sid_wf_def nat_add_distrib)

text \<open>
  A relative identifier: adding it to a domain gives a well-formed identifier that is in
  the domain, and splitting that gives the identifier and a domain equal to the first one.
\<close>

theorem add_split_rid:
  assumes "sid_wf d" "auths d < 127"
  shows "sid_wf (dom_sid_add_rid d rid) \<and> dom_sid_in_domain (Some d) (Some (dom_sid_add_rid d rid))
    \<and> (\<exists>d'. dom_sid_split_rid (dom_sid_add_rid d rid) = Inr (d', rid) \<and> sid_wf d'
          \<and> dom_sid_equal (Some d') (Some d))"
proof -
  let ?s = "dom_sid_add_rid d rid"
  note n = auths_add_rid [OF assms]
  have len: "auths d \<le> length (sub_auths d)" using assms(1) by (simp add: sid_wf_def)
  have "dom_sid_in_domain (Some d) (Some ?s)"
  proof -
    have "same_auths (auths d) d ?s" using len by (auto simp: same_auths_iff dom_sid_add_rid_def nth_append)
    moreover have "dom_sid_compare_auth (Some d) (Some ?s) = 0"
      using compare_auth_0 [OF assms(1) n(2)] by (simp add: dom_sid_add_rid_def)
    moreover have "sint (num_auths d) \<le> sint (num_auths ?s)"
      using n(1) [of rid] unfolding auths_def by linarith
    ultimately show ?thesis by (simp add: dom_sid_in_domain_def)
  qed
  moreover have "\<exists>d'. dom_sid_split_rid ?s = Inr (d', rid) \<and> sid_wf d' \<and> dom_sid_equal (Some d') (Some d)"
  proof -
    define d' where "d' = ?s\<lparr>sub_auths := take (auths ?s) (sub_auths ?s), num_auths := num_auths ?s - 1\<rparr>"
    have n': "num_auths d' = num_auths d" by (simp add: d'_def dom_sid_add_rid_def)
    then have a': "auths d' = auths d" by (simp add: auths_def)
    have subs: "sub_auths d' = take (auths d) (sub_auths d) @ [rid]"
      using len by (simp add: d'_def n(1)) (simp add: dom_sid_add_rid_def)
    have wf: "sid_wf d'"
      using assms(1) n' a' subs len by (simp add: sid_wf_def) (simp add: d'_def dom_sid_add_rid_def)
    have "num_auths ?s \<noteq> 0" using n(1) [of rid] by (auto simp: auths_def)
    then have "dom_sid_split_rid ?s = Inr (d', rid)"
      using a' subs len
      by (simp add: dom_sid_split_rid_def dom_sid_dup_def Let_def d'_def [symmetric] nth_append)
    moreover have "dom_sid_equal (Some d') (Some d)"
      using dom_sid_equal_iff [OF wf assms(1)] a' subs len
      by (simp add: sid_view_def) (simp add: d'_def dom_sid_add_rid_def)
    ultimately show ?thesis using wf by blast
  qed
  ultimately show ?thesis using n(2) by blast
qed

theorem add_split_rid_witness:
  "sid_wf (dom_sid_add_rid admins_sid 1000) \<and>
   (\<exists>d'. dom_sid_split_rid (dom_sid_add_rid admins_sid 1000) = Inr (d', 1000))"
  using add_split_rid [OF admins_wf(1), of 1000] by (auto simp: admins_wf)

section \<open>Printing and parsing\<close>

lemma fmt_u_no_dash: "CHR ''-'' \<notin> set (fmt_u n)"
proof
  assume "CHR ''-'' \<in> set (fmt_u n)"
  then obtain d where "d < 10" "CHR ''-'' = digit_char d" using fmt_u_digits by blast
  then show False using digit_char_not_sign [of d] by simp
qed

lemma fmt_u_nonempty [simp]: "fmt_u n \<noteq> []"
  by (simp add: fmt_u_def)

lemma number_ends_auths: "number_ends (auth_strings as)"
  by (cases as) (auto simp: digit_of_def)

lemma count_auths: "length (filter (\<lambda>c. c = CHR ''-'') (auth_strings as)) = length as"
proof (induction as)
  case (Cons a as)
  have "filter (\<lambda>c. c = CHR ''-'') (fmt_u (unat a)) = []"
    using fmt_u_no_dash [of "unat a"] by (auto simp: filter_empty_conv)
  with Cons show ?case by simp
qed simp

lemma parse_auth_strings: "parse_auths (length as) (auth_strings as) = Some as"
proof (induction as)
  case (Cons a as)
  have "strtoul 10 (fmt_u (unat a) @ auth_strings as) = (of_nat (unat a), auth_strings as)"
    using unat_u32_less [of a] number_ends_auths by (intro strtoul_fmt_u) auto
  moreover have "auth_strings as \<noteq> fmt_u (unat a) @ auth_strings as" by simp
  ultimately show ?case using Cons by (simp add: char_at_def ucast_up_down)
qed simp

lemma unat_ia:
  fixes a b c d :: u8
  shows "unat (ucast a + push_bit 8 (ucast b) + push_bit 16 (ucast c) + push_bit 24 (ucast d) :: u32)
    = unat a + 256 * unat b + 65536 * unat c + 16777216 * unat d"
proof -
  have lt: "unat a < 256" "unat b < 256" "unat c < 256" "unat d < 256"
    using unsigned_less [where ?'b = 8 and ?'a = nat] by auto
  have u: "unat (ucast x :: u32) = unat x" for x :: u8
    using unsigned_less [of x, where ?'a = nat] by (simp add: unsigned_ucast_eq take_bit_nat_eq_self_iff)
  have "unat (push_bit 8 (ucast b) :: u32) = 256 * unat b" "unat (push_bit 16 (ucast c) :: u32) = 65536 * unat c"
    "unat (push_bit 24 (ucast d) :: u32) = 16777216 * unat d"
    using lt u by (simp_all add: push_bit_eq_mult unat_word_ariths)
  then show ?thesis using lt u by (simp add: unat_word_ariths)
qed

lemma base_256:
  fixes a b c d :: nat
  assumes "a < 256" "b < 256" "c < 256" "d < 256" "n = a + 256 * b + 65536 * c + 16777216 * d"
  shows "n mod 256 = a" "n div 256 mod 256 = b" "n div 65536 mod 256 = c" "n div 16777216 mod 256 = d"
proof -
  have step: "(x + 256 * m) mod 256 = x \<and> (x + 256 * m) div 256 = m" if "x < 256" for x m :: nat
    using that by simp
  have n: "n = a + 256 * (b + 256 * (c + 256 * d))" using assms(5) by simp
  have q1: "n mod 256 = a" "n div 256 = b + 256 * (c + 256 * d)"
    unfolding n using step [OF assms(1)] by blast+
  have q2: "n div 256 mod 256 = b" "n div 256 div 256 = c + 256 * d"
    unfolding q1 using step [OF assms(2)] by blast+
  have q3: "n div 256 div 256 mod 256 = c" "n div 256 div 256 div 256 = d"
    unfolding q2 using step [OF assms(3)] by blast+
  have "n div 65536 = n div 256 div 256" "n div 16777216 = n div 256 div 256 div 256"
    by (simp_all flip: div_mult2_eq)
  with q1 q2 q3 assms(4) show "n mod 256 = a" "n div 256 mod 256 = b" "n div 65536 mod 256 = c"
    "n div 16777216 mod 256 = d" by simp_all
qed

lemma ia_bytes:
  fixes a b c d :: u8
  defines "ia \<equiv> ucast a + push_bit 8 (ucast b) + push_bit 16 (ucast c) + push_bit 24 (ucast d) :: u32"
  shows "ucast ia = a" "ucast (drop_bit 8 ia) = b" "ucast (drop_bit 16 ia) = c" "ucast (drop_bit 24 ia) = d"
proof -
  have n: "unat ia = unat a + 256 * unat b + 65536 * unat c + 16777216 * unat d"
    unfolding ia_def by (rule unat_ia)
  have lt: "unat a < 256" "unat b < 256" "unat c < 256" "unat d < 256"
    using unsigned_less [where ?'b = 8 and ?'a = nat] by auto
  have byte: "unat (ucast w :: u8) = unat w mod 256" for w :: u32
    by (simp add: unsigned_ucast_eq take_bit_eq_mod)
  have sh: "unat (drop_bit k ia) = unat ia div 2 ^ k" for k
    by (simp add: unat_drop_bit_eq) (simp add: drop_bit_eq_div)
  show "ucast ia = a" "ucast (drop_bit 8 ia) = b" "ucast (drop_bit 16 ia) = c" "ucast (drop_bit 24 ia) = d"
    using base_256 [OF lt n] by (simp_all add: word_unat_eq_iff byte sh)
qed

text \<open>
  Identifiers survive printing and parsing: the text of a well-formed identifier whose
  authority fits into 32 bits parses to an identifier equal to it.
\<close>

theorem dom_sid_parse_string:
  assumes "sid_wf s" "id_auth s ! 0 = 0" "id_auth s ! 1 = 0"
  shows "\<exists>s'. dom_sid_parse_talloc (dom_sid_string (Some s)) = Some s' \<and> sid_wf s' \<and> dom_sid_equal (Some s') (Some s)"
proof -
  define subs where "subs = take (auths s) (sub_auths s)"
  obtain b2 b3 b4 b5 where ids: "id_auth s = [0, 0, b2, b3, b4, b5]"
    using assms by (auto simp: sid_wf_def numeral_eq_Suc length_Suc_conv)
  define ia where "ia = (ucast b5 + push_bit 8 (ucast b4) + push_bit 16 (ucast b3) + push_bit 24 (ucast b2) :: u32)"
  have str: "dom_sid_string (Some s) =
      ''S-'' @ fmt_u (unat (sid_rev_num s)) @ CHR ''-'' # fmt_u (unat ia) @ auth_strings subs"
    by (simp add: dom_sid_string_def ids ia_def subs_def)
  have small: "unat (sid_rev_num s) < 2 ^ 63" "unat ia < 2 ^ 63"
    using unsigned_less [of "sid_rev_num s", where ?'a = nat] unat_u32_less [of ia] by auto
  have rev: "strtol 10 (fmt_u (unat (sid_rev_num s)) @ CHR ''-'' # fmt_u (unat ia) @ auth_strings subs)
      = (of_nat (unat (sid_rev_num s)), CHR ''-'' # fmt_u (unat ia) @ auth_strings subs)"
    using small(1) by (intro strtol_fmt_u) (auto simp: digit_of_def)
  have auth: "strtol 10 (fmt_u (unat ia) @ auth_strings subs) = (of_nat (unat ia), auth_strings subs)"
    using small(2) number_ends_auths by (intro strtol_fmt_u)
  have num: "length subs = auths s" "of_nat (auths s) = num_auths s"
    using assms(1) by (auto simp: sid_wf_def subs_def auths_def)
  let ?s = "\<lparr>sid_rev_num = sid_rev_num s, num_auths = num_auths s, id_auth = id_auth s, sub_auths = subs\<rparr>"
  have pre: "strncasecmp_eq (''S-'' @ t) ''S-'' 2" for t by (simp add: strncasecmp_eq_def)
  have r8: "ucast (ucast (w :: u8) :: u64) = w" for w by (rule bit_word_eqI) (simp add: bit_simps)
  have "dom_sid_parse_talloc (dom_sid_string (Some s)) = Some ?s"
    unfolding str dom_sid_parse_talloc_def
    using pre rev auth num parse_auth_strings [of subs] count_auths [of subs] ids
      ia_bytes [where a = b5 and b = b4 and c = b3 and d = b2, folded ia_def]
    by (simp add: char_at_def r8 ucast_up_down)
  moreover have "sid_wf ?s" using assms(1) num by (simp add: sid_wf_def auths_def)
  moreover have "sid_view ?s = sid_view s" using num by (simp add: sid_view_def auths_def subs_def)
  ultimately show ?thesis using dom_sid_equal_iff assms(1) by blast
qed

theorem dom_sid_parse_string_witness:
  "dom_sid_string (Some admins_sid) = ''S-1-5-32-544'' \<and>
   (\<exists>s'. dom_sid_parse_talloc ''S-1-5-32-544'' = Some s' \<and> dom_sid_equal (Some s') (Some admins_sid))"
proof -
  have "dom_sid_string (Some admins_sid) = ''S-1-5-32-544''" by code_simp
  with dom_sid_parse_string [OF admins_wf(1)] show ?thesis by (auto simp: admins_sid_def)
qed

end
