(* ===== verification/SecurityToken.thy ===== *)
theory SecurityToken
  imports DomSid
begin

text \<open>
  Privileges and tokens: \<open>libcli/security/privilege.c\<close> and \<open>libcli/security/security_token.c\<close>.
  The table of names is the one of the code; the debug output is left out.
\<close>

section \<open>Privileges\<close>

abbreviation (input) "SEC_PRIV_SECURITY \<equiv> (1 :: nat)"
abbreviation (input) "SEC_PRIV_BACKUP \<equiv> (2 :: nat)"
abbreviation (input) "SEC_PRIV_RESTORE \<equiv> (3 :: nat)"
abbreviation (input) "SEC_PRIV_SYSTEMTIME \<equiv> (4 :: nat)"
abbreviation (input) "SEC_PRIV_SHUTDOWN \<equiv> (5 :: nat)"
abbreviation (input) "SEC_PRIV_REMOTE_SHUTDOWN \<equiv> (6 :: nat)"
abbreviation (input) "SEC_PRIV_TAKE_OWNERSHIP \<equiv> (7 :: nat)"
abbreviation (input) "SEC_PRIV_DEBUG \<equiv> (8 :: nat)"
abbreviation (input) "SEC_PRIV_SYSTEM_ENVIRONMENT \<equiv> (9 :: nat)"
abbreviation (input) "SEC_PRIV_SYSTEM_PROFILE \<equiv> (10 :: nat)"
abbreviation (input) "SEC_PRIV_PROFILE_SINGLE_PROCESS \<equiv> (11 :: nat)"
abbreviation (input) "SEC_PRIV_INCREASE_BASE_PRIORITY \<equiv> (12 :: nat)"
abbreviation (input) "SEC_PRIV_LOAD_DRIVER \<equiv> (13 :: nat)"
abbreviation (input) "SEC_PRIV_CREATE_PAGEFILE \<equiv> (14 :: nat)"
abbreviation (input) "SEC_PRIV_INCREASE_QUOTA \<equiv> (15 :: nat)"
abbreviation (input) "SEC_PRIV_CHANGE_NOTIFY \<equiv> (16 :: nat)"
abbreviation (input) "SEC_PRIV_UNDOCK \<equiv> (17 :: nat)"
abbreviation (input) "SEC_PRIV_MANAGE_VOLUME \<equiv> (18 :: nat)"
abbreviation (input) "SEC_PRIV_IMPERSONATE \<equiv> (19 :: nat)"
abbreviation (input) "SEC_PRIV_CREATE_GLOBAL \<equiv> (20 :: nat)"
abbreviation (input) "SEC_PRIV_ENABLE_DELEGATION \<equiv> (21 :: nat)"
abbreviation (input) "SEC_PRIV_INTERACTIVE_LOGON \<equiv> (22 :: nat)"
abbreviation (input) "SEC_PRIV_NETWORK_LOGON \<equiv> (23 :: nat)"
abbreviation (input) "SEC_PRIV_REMOTE_INTERACTIVE_LOGON \<equiv> (24 :: nat)"

definition privilege_names :: "(nat \<times> string \<times> string) list" where
  "privilege_names =
     [(SEC_PRIV_SECURITY, ''SeSecurityPrivilege'', ''System security''),
      (SEC_PRIV_BACKUP, ''SeBackupPrivilege'', ''Backup files and directories''),
      (SEC_PRIV_RESTORE, ''SeRestorePrivilege'', ''Restore files and directories''),
      (SEC_PRIV_SYSTEMTIME, ''SeSystemtimePrivilege'', ''Set the system clock''),
      (SEC_PRIV_SHUTDOWN, ''SeShutdownPrivilege'', ''Shutdown the system''),
      (SEC_PRIV_REMOTE_SHUTDOWN, ''SeRemoteShutdownPrivilege'', ''Shutdown the system remotely''),
      (SEC_PRIV_TAKE_OWNERSHIP, ''SeTakeOwnershipPrivilege'', ''Take ownership of files and directories''),
      (SEC_PRIV_DEBUG, ''SeDebugPrivilege'', ''Debug processes''),
      (SEC_PRIV_SYSTEM_ENVIRONMENT, ''SeSystemEnvironmentPrivilege'', ''Modify system environment''),
      (SEC_PRIV_SYSTEM_PROFILE, ''SeSystemProfilePrivilege'', ''Profile the system''),
      (SEC_PRIV_PROFILE_SINGLE_PROCESS, ''SeProfileSingleProcessPrivilege'', ''Profile one process''),
      (SEC_PRIV_INCREASE_BASE_PRIORITY, ''SeIncreaseBasePriorityPrivilege'', ''Increase base priority''),
      (SEC_PRIV_LOAD_DRIVER, ''SeLoadDriverPrivilege'', ''Load drivers''),
      (SEC_PRIV_CREATE_PAGEFILE, ''SeCreatePagefilePrivilege'', ''Create page files''),
      (SEC_PRIV_INCREASE_QUOTA, ''SeIncreaseQuotaPrivilege'', ''Increase quota''),
      (SEC_PRIV_CHANGE_NOTIFY, ''SeChangeNotifyPrivilege'', ''Register for change notify''),
      (SEC_PRIV_UNDOCK, ''SeUndockPrivilege'', ''Undock devices''),
      (SEC_PRIV_MANAGE_VOLUME, ''SeManageVolumePrivilege'', ''Manage system volumes''),
      (SEC_PRIV_IMPERSONATE, ''SeImpersonatePrivilege'', ''Impersonate users''),
      (SEC_PRIV_CREATE_GLOBAL, ''SeCreateGlobalPrivilege'', ''Create global''),
      (SEC_PRIV_ENABLE_DELEGATION, ''SeEnableDelegationPrivilege'', ''Enable Delegation''),
      (SEC_PRIV_INTERACTIVE_LOGON, ''SeInteractiveLogonRight'', ''Interactive logon''),
      (SEC_PRIV_NETWORK_LOGON, ''SeNetworkLogonRight'', ''Network logon''),
      (SEC_PRIV_REMOTE_INTERACTIVE_LOGON, ''SeRemoteInteractiveLogonRight'', ''Remote Interactive logon'')]"

fun find_privilege :: "(nat \<times> string \<times> string) list \<Rightarrow> nat \<Rightarrow> (string \<times> string) option" where
  "find_privilege [] privilege = None"
| "find_privilege ((p, n, d) # ps) privilege = (if p = privilege then Some (n, d) else find_privilege ps privilege)"

definition sec_privilege_name :: "nat \<Rightarrow> string option" where
  "sec_privilege_name privilege = map_option fst (find_privilege privilege_names privilege)"

definition sec_privilege_display_name :: "nat \<Rightarrow> string option" where
  "sec_privilege_display_name privilege =
     (if privilege < 1 \<or> 64 < privilege then None
      else map_option snd (find_privilege privilege_names privilege))"

definition strcasecmp_eq :: "string \<Rightarrow> string \<Rightarrow> bool" where
  "strcasecmp_eq s t \<longleftrightarrow> map toupper s = map toupper t"

fun find_name :: "(nat \<times> string \<times> string) list \<Rightarrow> string \<Rightarrow> int" where
  "find_name [] name = -1"
| "find_name ((p, n, d) # ps) name = (if strcasecmp_eq n name then int p else find_name ps name)"

definition sec_privilege_id :: "string \<Rightarrow> int" where
  "sec_privilege_id name = find_name privilege_names name"

definition sec_privilege_mask :: "nat \<Rightarrow> u64" where
  "sec_privilege_mask privilege =
     (if privilege < 1 \<or> 64 < privilege then 0 else push_bit (privilege - 1) 1)"

section \<open>Tokens\<close>

record security_token =
  user_sid :: "dom_sid option"
  tok_group_sid :: "dom_sid option"
  sids :: "dom_sid option list"
  privilege_mask :: u64

definition security_token_initialise :: security_token where
  "security_token_initialise = \<lparr>user_sid = None, tok_group_sid = None, sids = [], privilege_mask = 0\<rparr>"

definition security_token_has_privilege :: "security_token \<Rightarrow> nat \<Rightarrow> bool" where
  "security_token_has_privilege token privilege \<longleftrightarrow>
     \<not> (privilege < 1 \<or> 64 < privilege) \<and> privilege_mask token AND sec_privilege_mask privilege \<noteq> 0"

definition security_token_set_privilege :: "security_token \<Rightarrow> nat \<Rightarrow> security_token" where
  "security_token_set_privilege token privilege =
     (if privilege < 1 \<or> 64 < privilege then token
      else token\<lparr>privilege_mask := privilege_mask token OR sec_privilege_mask privilege\<rparr>)"

definition security_token_is_sid :: "security_token \<Rightarrow> dom_sid option \<Rightarrow> bool" where
  "security_token_is_sid token sid \<longleftrightarrow> dom_sid_equal (user_sid token) sid"

definition security_token_is_sid_string :: "security_token \<Rightarrow> string \<Rightarrow> bool" where
  "security_token_is_sid_string token sid_string =
     (case dom_sid_parse_talloc sid_string of
        None \<Rightarrow> False
      | Some sid \<Rightarrow> security_token_is_sid token (Some sid))"

definition security_token_is_system :: "security_token \<Rightarrow> bool" where
  "security_token_is_system token = security_token_is_sid_string token ''S-1-5-18''"

definition security_token_is_anonymous :: "security_token \<Rightarrow> bool" where
  "security_token_is_anonymous token = security_token_is_sid_string token ''S-1-5-7''"

fun has_sid_in :: "dom_sid option list \<Rightarrow> dom_sid option \<Rightarrow> bool" where
  "has_sid_in [] sid = False"
| "has_sid_in (s # ss) sid = (if dom_sid_equal s sid then True else has_sid_in ss sid)"

definition security_token_has_sid :: "security_token \<Rightarrow> dom_sid option \<Rightarrow> bool" where
  "security_token_has_sid token sid = has_sid_in (sids token) sid"

definition security_token_has_sid_string :: "security_token \<Rightarrow> string \<Rightarrow> bool" where
  "security_token_has_sid_string token sid_string =
     (case dom_sid_parse_talloc sid_string of
        None \<Rightarrow> False
      | Some sid \<Rightarrow> security_token_has_sid token (Some sid))"

definition security_token_has_builtin_administrators :: "security_token \<Rightarrow> bool" where
  "security_token_has_builtin_administrators token = security_token_has_sid_string token ''S-1-5-32-544''"

definition security_token_has_nt_authenticated_users :: "security_token \<Rightarrow> bool" where
  "security_token_has_nt_authenticated_users token = security_token_has_sid_string token ''S-1-5-11''"

section \<open>Properties\<close>

lemma has_privilege_bit:
  "security_token_has_privilege t p \<longleftrightarrow> 1 \<le> p \<and> p \<le> 64 \<and> bit (privilege_mask t) (p - 1)"
proof (cases "1 \<le> p \<and> p \<le> 64")
  case True
  have "privilege_mask t AND push_bit (p - 1) 1 \<noteq> 0 \<longleftrightarrow> bit (privilege_mask t) (p - 1)"
    using True by (auto simp: word_and_mask_eq_0_iff_bits bit_simps)
  with True show ?thesis by (auto simp: security_token_has_privilege_def sec_privilege_mask_def not_less)
qed (auto simp: security_token_has_privilege_def)

text \<open>
  Privileges are independent: setting a privilege gives exactly this one, for a valid
  number, and leaves all others as they were; a number outside 1 to 64 changes nothing.
\<close>

theorem set_privilege_exact:
  "security_token_has_privilege (security_token_set_privilege t p) q \<longleftrightarrow>
     security_token_has_privilege t q \<or> (q = p \<and> 1 \<le> p \<and> p \<le> 64)"
proof (cases "1 \<le> p \<and> p \<le> 64")
  case True
  then show ?thesis
    by (auto simp: has_privilege_bit security_token_set_privilege_def sec_privilege_mask_def bit_simps not_less)
next
  case False
  then show ?thesis by (auto simp: security_token_set_privilege_def not_le)
qed

lemma find_name_upper:
  assumes "distinct (map (\<lambda>(p, n, d). map toupper n) ps)" "find_privilege ps p = Some (n, d)" "strcasecmp_eq m n"
  shows "find_name ps m = int p"
  using assms
proof (induction ps)
  case (Cons a ps)
  obtain p' n' d' where a: "a = (p', n', d')" by (metis prod_cases3)
  show ?case
  proof (cases "p' = p")
    case True
    with Cons.prems a show ?thesis by (simp add: strcasecmp_eq_def)
  next
    case False
    with Cons.prems a have rest: "find_privilege ps p = Some (n, d)" by simp
    then have "(p, n, d) \<in> set ps" by (induction ps p rule: find_privilege.induct) (auto split: if_splits)
    with Cons.prems a have "map toupper n \<noteq> map toupper n'" by force
    with Cons rest a show ?thesis by (simp add: strcasecmp_eq_def)
  qed
qed simp

lemma privilege_names_distinct: "distinct (map (\<lambda>(p, n, d). map toupper n) privilege_names)"
  by code_simp

lemma find_privilege_dom: "find_privilege ps p \<noteq> None \<longleftrightarrow> p \<in> set (map fst ps)"
  by (induction ps p rule: find_privilege.induct) auto

lemma privilege_numbers: "map fst privilege_names = [1..<25]"
  by code_simp

text \<open>
  Privilege names and numbers correspond: exactly the numbers 1 to 24 have a name, and the
  name of a privilege, in any mix of cases, is mapped back to its number.
\<close>

theorem privilege_name_id:
  "(sec_privilege_name p \<noteq> None \<longleftrightarrow> 1 \<le> p \<and> p \<le> 24) \<and>
   (\<forall>n m. sec_privilege_name p = Some n \<and> strcasecmp_eq m n \<longrightarrow> sec_privilege_id m = int p)"
proof -
  have "sec_privilege_name p \<noteq> None \<longleftrightarrow> p \<in> set (map fst privilege_names)"
    unfolding sec_privilege_name_def using find_privilege_dom [of privilege_names p] by simp
  then have "sec_privilege_name p \<noteq> None \<longleftrightarrow> 1 \<le> p \<and> p \<le> 24" by (auto simp: privilege_numbers)
  moreover have "sec_privilege_id m = int p" if "sec_privilege_name p = Some n" "strcasecmp_eq m n" for n m
    using that find_name_upper [OF privilege_names_distinct, of p n _ m]
    by (auto simp: sec_privilege_name_def sec_privilege_id_def)
  ultimately show ?thesis by blast
qed

theorem privilege_name_id_witness: "sec_privilege_id ''SEDEBUGPRIVILEGE'' = 8"
proof -
  have "sec_privilege_name 8 = Some ''SeDebugPrivilege''" "strcasecmp_eq ''SEDEBUGPRIVILEGE'' ''SeDebugPrivilege''"
    by code_simp+
  with privilege_name_id [of 8] show ?thesis by (metis of_nat_numeral)
qed

lemma has_sid_in_iff: "has_sid_in ss sid \<longleftrightarrow> (\<exists>s \<in> set ss. dom_sid_equal s sid)"
  by (induction ss sid rule: has_sid_in.induct) auto

end
