(* ===== verification/AccessCheck.thy ===== *)
theory AccessCheck
  imports SecurityToken
begin

text \<open>
  Security descriptors and access checks: \<open>libcli/security/security_descriptor.c\<close> and
  \<open>libcli/security/access_check.c\<close>. An access control list holds its entries as a list, so
  \<open>num_aces\<close> is its length; the fields \<open>size\<close> and \<open>object\<close> of an entry are left out, no function
  looks at them. Allocation succeeds.
\<close>

section \<open>Descriptors\<close>

abbreviation (input) "SEC_FLAG_SYSTEM_SECURITY \<equiv> (0x01000000 :: u32)"
abbreviation (input) "SEC_FLAG_MAXIMUM_ALLOWED \<equiv> (0x02000000 :: u32)"
abbreviation (input) "SEC_STD_DELETE \<equiv> (0x00010000 :: u32)"
abbreviation (input) "SEC_STD_READ_CONTROL \<equiv> (0x00020000 :: u32)"
abbreviation (input) "SEC_STD_WRITE_DAC \<equiv> (0x00040000 :: u32)"
abbreviation (input) "SEC_DESC_DACL_PRESENT \<equiv> (0x0004 :: u16)"
abbreviation (input) "SEC_DESC_SACL_PRESENT \<equiv> (0x0010 :: u16)"
abbreviation (input) "SEC_DESC_SELF_RELATIVE \<equiv> (0x8000 :: u16)"
abbreviation (input) "SEC_ACE_FLAG_INHERIT_ONLY \<equiv> (0x08 :: u8)"
abbreviation (input) "SEC_ACE_TYPE_ACCESS_ALLOWED \<equiv> (0 :: u32)"
abbreviation (input) "SEC_ACE_TYPE_ACCESS_DENIED \<equiv> (1 :: u32)"
abbreviation (input) "SEC_ACE_TYPE_ACCESS_DENIED_OBJECT \<equiv> (6 :: u32)"
abbreviation (input) "NT4_ACL_REVISION \<equiv> (2 :: u32)"

record security_ace =
  ace_type :: u32
  ace_flags :: u8
  access_mask :: u32
  trustee :: dom_sid

record security_acl =
  acl_revision :: u32
  acl_size :: u16
  aces :: "security_ace list"

record security_descriptor =
  sd_revision :: u8
  sd_type :: u16
  owner_sid :: "dom_sid option"
  group_sid :: "dom_sid option"
  sacl :: "security_acl option"
  dacl :: "security_acl option"

definition security_descriptor_initialise :: security_descriptor where
  "security_descriptor_initialise = \<lparr>sd_revision = 1, sd_type = SEC_DESC_SELF_RELATIVE, owner_sid = None,
     group_sid = None, sacl = None, dacl = None\<rparr>"

text \<open>The copy of a list copies the arrays of the trustees too.\<close>

definition dup_ace :: "security_ace \<Rightarrow> security_ace" where
  "dup_ace a = a\<lparr>trustee := (trustee a)\<lparr>sub_auths := take (auths (trustee a)) (sub_auths (trustee a))\<rparr>\<rparr>"

definition security_acl_dup :: "security_acl \<Rightarrow> security_acl" where
  "security_acl_dup oacl = \<lparr>acl_revision = acl_revision oacl, acl_size = acl_size oacl, aces = map dup_ace (aces oacl)\<rparr>"

text \<open>The new descriptor comes zeroed; the code copies the four pointers and nothing else.\<close>

definition security_descriptor_copy :: "security_descriptor \<Rightarrow> security_descriptor" where
  "security_descriptor_copy osd =
     \<lparr>sd_revision = 0, sd_type = 0, owner_sid = dom_sid_dup (owner_sid osd), group_sid = dom_sid_dup (group_sid osd),
      sacl = map_option security_acl_dup (sacl osd), dacl = map_option security_acl_dup (dacl osd)\<rparr>"

definition security_descriptor_dacl_add :: "security_descriptor \<Rightarrow> security_ace \<Rightarrow> NTSTATUS \<times> security_descriptor" where
  "security_descriptor_dacl_add sd ace =
     (let acl = (case dacl sd of
                   None \<Rightarrow> \<lparr>acl_revision = NT4_ACL_REVISION, acl_size = 0, aces = []\<rparr>
                 | Some a \<Rightarrow> a)
      in (NT_STATUS_OK, sd\<lparr>dacl := Some (acl\<lparr>aces := aces acl @ [dup_ace ace]\<rparr>),
                           sd_type := sd_type sd OR SEC_DESC_DACL_PRESENT\<rparr>))"

fun del_ace :: "dom_sid \<Rightarrow> security_ace list \<Rightarrow> security_ace list option" where
  "del_ace t [] = None"
| "del_ace t (a # as) =
     (if dom_sid_equal (Some t) (Some (trustee a)) then Some as else map_option (Cons a) (del_ace t as))"

definition security_descriptor_dacl_del :: "security_descriptor \<Rightarrow> dom_sid \<Rightarrow> NTSTATUS \<times> security_descriptor" where
  "security_descriptor_dacl_del sd t =
     (case dacl sd of
        None \<Rightarrow> (NT_STATUS_OBJECT_NAME_NOT_FOUND, sd)
      | Some acl \<Rightarrow>
          (case del_ace t (aces acl) of
             None \<Rightarrow> (NT_STATUS_OBJECT_NAME_NOT_FOUND, sd)
           | Some as \<Rightarrow> (NT_STATUS_OK, sd\<lparr>dacl := Some (acl\<lparr>aces := as\<rparr>)\<rparr>)))"

definition security_ace_equal :: "security_ace \<Rightarrow> security_ace \<Rightarrow> bool" where
  "security_ace_equal a b \<longleftrightarrow> ace_type a = ace_type b \<and> ace_flags a = ace_flags b
     \<and> access_mask a = access_mask b \<and> dom_sid_equal (Some (trustee a)) (Some (trustee b))"

definition security_acl_equal :: "security_acl option \<Rightarrow> security_acl option \<Rightarrow> bool" where
  "security_acl_equal p1 p2 =
     (case (p1, p2) of
        (None, None) \<Rightarrow> True
      | (Some acl1, Some acl2) \<Rightarrow>
          acl_revision acl1 = acl_revision acl2 \<and> list_all2 security_ace_equal (aces acl1) (aces acl2)
      | _ \<Rightarrow> False)"

definition security_descriptor_equal :: "security_descriptor \<Rightarrow> security_descriptor \<Rightarrow> bool" where
  "security_descriptor_equal sd1 sd2 \<longleftrightarrow> sd_revision sd1 = sd_revision sd2 \<and> sd_type sd1 = sd_type sd2
     \<and> dom_sid_equal (owner_sid sd1) (owner_sid sd2) \<and> dom_sid_equal (group_sid sd1) (group_sid sd2)
     \<and> security_acl_equal (sacl sd1) (sacl sd2) \<and> security_acl_equal (dacl sd1) (dacl sd2)"

definition security_descriptor_mask_equal :: "security_descriptor \<Rightarrow> security_descriptor \<Rightarrow> u32 \<Rightarrow> bool" where
  "security_descriptor_mask_equal sd1 sd2 msk \<longleftrightarrow> sd_revision sd1 = sd_revision sd2
     \<and> (ucast (sd_type sd1) :: u32) AND msk = ucast (sd_type sd2) AND msk
     \<and> dom_sid_equal (owner_sid sd1) (owner_sid sd2) \<and> dom_sid_equal (group_sid sd1) (group_sid sd2)
     \<and> (msk AND ucast SEC_DESC_DACL_PRESENT = 0 \<or> security_acl_equal (dacl sd1) (dacl sd2))
     \<and> (msk AND ucast SEC_DESC_SACL_PRESENT = 0 \<or> security_acl_equal (sacl sd1) (sacl sd2))"

text \<open>The entries of the variable argument list: identifier, type, mask, flags.\<close>

fun create_aces :: "(string \<times> u32 \<times> u32 \<times> u32) list \<Rightarrow> security_descriptor \<Rightarrow> security_descriptor option" where
  "create_aces [] sd = Some sd"
| "create_aces ((sidstr, ty, msk, fl) # rest) sd =
     (case dom_sid_parse_talloc sidstr of
        None \<Rightarrow> None
      | Some sid \<Rightarrow>
          (let (status, sd') = security_descriptor_dacl_add sd
                 \<lparr>ace_type = ty, ace_flags = ucast fl, access_mask = msk, trustee = sid\<rparr>
           in if \<not> NT_STATUS_IS_OK status then None else create_aces rest sd'))"

text \<open>An optional identifier given as text: the outer None is a text that does not parse.\<close>

definition parse_optional :: "string option \<Rightarrow> dom_sid option option" where
  "parse_optional p = (case p of None \<Rightarrow> Some None | Some t \<Rightarrow> map_option Some (dom_sid_parse_talloc t))"

definition security_descriptor_create ::
    "string option \<Rightarrow> string option \<Rightarrow> (string \<times> u32 \<times> u32 \<times> u32) list \<Rightarrow> security_descriptor option" where
  "security_descriptor_create owner grp args =
     (case parse_optional owner of
        None \<Rightarrow> None
      | Some ow \<Rightarrow>
          (case parse_optional grp of
             None \<Rightarrow> None
           | Some gr \<Rightarrow>
               create_aces args (security_descriptor_initialise\<lparr>owner_sid := ow, group_sid := gr\<rparr>)))"

section \<open>Access checks\<close>

definition ace_applies :: "security_token \<Rightarrow> security_ace \<Rightarrow> bool" where
  "ace_applies token ace \<longleftrightarrow>
     ace_flags ace AND SEC_ACE_FLAG_INHERIT_ONLY = 0 \<and> security_token_has_sid token (Some (trustee ace))"

definition ace_denies :: "security_ace \<Rightarrow> bool" where
  "ace_denies ace \<longleftrightarrow>
     ace_type ace = SEC_ACE_TYPE_ACCESS_DENIED \<or> ace_type ace = SEC_ACE_TYPE_ACCESS_DENIED_OBJECT"

fun max_allowed_aces :: "security_token \<Rightarrow> security_ace list \<Rightarrow> u32 \<Rightarrow> u32 \<Rightarrow> u32" where
  "max_allowed_aces token [] denied granted = granted AND NOT denied"
| "max_allowed_aces token (ace # as) denied granted =
     (if \<not> ace_applies token ace then max_allowed_aces token as denied granted
      else if ace_type ace = SEC_ACE_TYPE_ACCESS_ALLOWED
      then max_allowed_aces token as denied (granted OR access_mask ace)
      else if ace_denies ace then max_allowed_aces token as (denied OR access_mask ace) granted
      else max_allowed_aces token as denied granted)"

text \<open>None: the code follows the NULL pointer \<open>sd->dacl\<close>.\<close>

definition access_check_max_allowed :: "security_descriptor \<Rightarrow> security_token \<Rightarrow> u32 option" where
  "access_check_max_allowed sd token =
     (let granted = (if security_token_has_sid token (owner_sid sd)
                     then SEC_STD_WRITE_DAC OR SEC_STD_READ_CONTROL OR SEC_STD_DELETE
                     else if security_token_has_privilege token SEC_PRIV_RESTORE then SEC_STD_DELETE else 0)
      in case dacl sd of
           None \<Rightarrow> None
         | Some acl \<Rightarrow> Some (max_allowed_aces token (aces acl) 0 granted))"

fun check_aces :: "security_token \<Rightarrow> security_ace list \<Rightarrow> u32 \<Rightarrow> NTSTATUS" where
  "check_aces token [] bits_remaining = (if bits_remaining \<noteq> 0 then NT_STATUS_ACCESS_DENIED else NT_STATUS_OK)"
| "check_aces token (ace # as) bits_remaining =
     (if bits_remaining = 0 then NT_STATUS_OK
      else if \<not> ace_applies token ace then check_aces token as bits_remaining
      else if ace_type ace = SEC_ACE_TYPE_ACCESS_ALLOWED
      then check_aces token as (bits_remaining AND NOT (access_mask ace))
      else if ace_denies ace
      then if bits_remaining AND access_mask ace \<noteq> 0 then NT_STATUS_ACCESS_DENIED
           else check_aces token as bits_remaining
      else check_aces token as bits_remaining)"

text \<open>
  \<open>sec_access_check\<close> returns the status and the value of \<open>*access_granted\<close>; None is the NULL
  pointer of above.
\<close>

definition check_dacl ::
    "security_descriptor \<Rightarrow> security_token \<Rightarrow> u32 \<Rightarrow> u32 \<Rightarrow> u32 \<Rightarrow> NTSTATUS \<times> u32" where
  "check_dacl sd token access_desired access_granted bits_remaining =
     (if sd_type sd AND SEC_DESC_DACL_PRESENT = 0 then (NT_STATUS_OK, access_desired)
      else
        (case dacl sd of
           None \<Rightarrow> (NT_STATUS_ACCESS_DENIED, access_granted)
         | Some acl \<Rightarrow>
             if aces acl = [] then (NT_STATUS_ACCESS_DENIED, access_granted)
             else
               (let owner_bits = SEC_STD_WRITE_DAC OR SEC_STD_READ_CONTROL OR SEC_STD_DELETE;
                    r1 = (if bits_remaining AND owner_bits \<noteq> 0 \<and> security_token_has_sid token (owner_sid sd)
                          then bits_remaining AND NOT owner_bits else bits_remaining);
                    r2 = (if r1 AND SEC_STD_DELETE \<noteq> 0 \<and> security_token_has_privilege token SEC_PRIV_RESTORE
                          then r1 AND NOT SEC_STD_DELETE else r1)
                in (check_aces token (aces acl) r2, access_granted))))"

definition check_system ::
    "security_descriptor \<Rightarrow> security_token \<Rightarrow> u32 \<Rightarrow> u32 \<Rightarrow> u32 \<Rightarrow> NTSTATUS \<times> u32" where
  "check_system sd token access_desired access_granted bits_remaining =
     (if access_desired AND SEC_FLAG_SYSTEM_SECURITY \<noteq> 0
      then if security_token_has_privilege token SEC_PRIV_SECURITY
           then check_dacl sd token access_desired access_granted (bits_remaining AND NOT SEC_FLAG_SYSTEM_SECURITY)
           else (NT_STATUS_PRIVILEGE_NOT_HELD, access_granted)
      else check_dacl sd token access_desired access_granted bits_remaining)"

definition sec_access_check ::
    "security_descriptor \<Rightarrow> security_token \<Rightarrow> u32 \<Rightarrow> (NTSTATUS \<times> u32) option" where
  "sec_access_check sd token access_desired =
     (if access_desired AND SEC_FLAG_MAXIMUM_ALLOWED \<noteq> 0
      then (case access_check_max_allowed sd token of
              None \<Rightarrow> None
            | Some m \<Rightarrow>
                (let d = (access_desired OR m) AND NOT SEC_FLAG_MAXIMUM_ALLOWED
                 in Some (check_system sd token d d (d AND NOT SEC_STD_DELETE))))
      else Some (check_system sd token access_desired access_desired access_desired))"

section \<open>What the list decides\<close>

text \<open>
  The specification, one access bit at a time: the first entry that applies to the token and
  names the bit decides, an allow entry for and a deny entry against it.
\<close>

fun first_verdict :: "security_token \<Rightarrow> security_ace list \<Rightarrow> nat \<Rightarrow> bool" where
  "first_verdict token [] b = False"
| "first_verdict token (ace # as) b =
     (if ace_applies token ace \<and> bit (access_mask ace) b \<and> ace_type ace = SEC_ACE_TYPE_ACCESS_ALLOWED then True
      else if ace_applies token ace \<and> bit (access_mask ace) b \<and> ace_denies ace then False
      else first_verdict token as b)"

lemma check_aces_status: "check_aces token as r = NT_STATUS_OK \<or> check_aces token as r = NT_STATUS_ACCESS_DENIED"
  by (induction token as r rule: check_aces.induct) auto

lemma word_zero_bits: "(r :: u32) = 0 \<longleftrightarrow> (\<forall>b < 32. \<not> bit r b)"
  by (auto simp: bit_eq_iff dest: bit_imp_le_length)

lemma check_aces_spec:
  "check_aces token as r = NT_STATUS_OK \<longleftrightarrow> (\<forall>b < 32. bit r b \<longrightarrow> first_verdict token as b)"
proof (induction token as r rule: check_aces.induct)
  case (1 token r)
  then show ?case using word_zero_bits [of r] by auto
next
  case (2 token ace as r)
  show ?case
  proof (cases "r = 0")
    case False
    note [simp] = bit_simps
    show ?thesis
    proof (cases "ace_applies token ace")
      case applies: True
      show ?thesis
      proof (cases "ace_type ace = SEC_ACE_TYPE_ACCESS_ALLOWED")
        case True
        with 2 False applies show ?thesis by (auto simp: ace_denies_def)
      next
        case allow: False
        show ?thesis
        proof (cases "ace_denies ace")
          case True
          with 2 False applies allow show ?thesis
            by (auto simp: word_and_mask_eq_0_iff_bits)
        qed (use 2 False applies allow in auto)
      qed
    qed (use 2 False in auto)
  qed simp
qed

text \<open>The three rights an owner always has, and deleting for who may restore files.\<close>

definition owner_right :: "nat \<Rightarrow> bool" where "owner_right b \<longleftrightarrow> b = 16 \<or> b = 17 \<or> b = 18"

definition bit_granted :: "security_descriptor \<Rightarrow> security_token \<Rightarrow> security_ace list \<Rightarrow> nat \<Rightarrow> bool" where
  "bit_granted sd token as b \<longleftrightarrow>
     owner_right b \<and> security_token_has_sid token (owner_sid sd)
     \<or> b = 16 \<and> security_token_has_privilege token SEC_PRIV_RESTORE
     \<or> first_verdict token as b"

lemma std_bits:
  "bit SEC_STD_DELETE b \<longleftrightarrow> b = 16" "bit SEC_STD_READ_CONTROL b \<longleftrightarrow> b = 17" "bit SEC_STD_WRITE_DAC b \<longleftrightarrow> b = 18"
  "bit SEC_FLAG_MAXIMUM_ALLOWED b \<longleftrightarrow> b = 25" "bit SEC_FLAG_SYSTEM_SECURITY b \<longleftrightarrow> b = 24"
proof -
  have "SEC_STD_DELETE = push_bit 16 1" "SEC_STD_READ_CONTROL = push_bit 17 1" "SEC_STD_WRITE_DAC = push_bit 18 1"
    "SEC_FLAG_MAXIMUM_ALLOWED = push_bit 25 1" "SEC_FLAG_SYSTEM_SECURITY = push_bit 24 1" by simp_all
  then show "bit SEC_STD_DELETE b \<longleftrightarrow> b = 16" "bit SEC_STD_READ_CONTROL b \<longleftrightarrow> b = 17"
    "bit SEC_STD_WRITE_DAC b \<longleftrightarrow> b = 18" "bit SEC_FLAG_MAXIMUM_ALLOWED b \<longleftrightarrow> b = 25"
    "bit SEC_FLAG_SYSTEM_SECURITY b \<longleftrightarrow> b = 24" by (auto simp only: bit_push_bit_iff) (auto simp: bit_1_iff)
qed

lemma word_bits_neq: "(r :: u32) \<noteq> 0 \<longleftrightarrow> (\<exists>b < 32. bit r b)"
  using word_zero_bits [of r] by blast

lemma access_check_bits:
  assumes "sd_type sd AND SEC_DESC_DACL_PRESENT \<noteq> 0" "dacl sd = Some acl" "aces acl \<noteq> []"
    and "d AND SEC_FLAG_MAXIMUM_ALLOWED = 0" "d AND SEC_FLAG_SYSTEM_SECURITY = 0"
  shows "sec_access_check sd token d =
    Some (if \<forall>b < 32. bit d b \<longrightarrow> bit_granted sd token (aces acl) b then NT_STATUS_OK else NT_STATUS_ACCESS_DENIED, d)"
proof -
  let ?own = "security_token_has_sid token (owner_sid sd)"
  let ?res = "security_token_has_privilege token SEC_PRIV_RESTORE"
  define ob where "ob = SEC_STD_WRITE_DAC OR SEC_STD_READ_CONTROL OR SEC_STD_DELETE"
  define del where "del = SEC_STD_DELETE"
  define r1 where "r1 = (if d AND ob \<noteq> 0 \<and> ?own then d AND NOT ob else d)"
  define r2 where "r2 = (if r1 AND del \<noteq> 0 \<and> ?res then r1 AND NOT del else r1)"
  have bits: "bit ob b \<longleftrightarrow> owner_right b" "bit del b \<longleftrightarrow> b = 16" for b
    unfolding ob_def del_def owner_right_def bit_or_iff std_bits by blast+
  have b1: "bit r1 b \<longleftrightarrow> bit d b \<and> \<not> (owner_right b \<and> ?own)" if "b < 32" for b
    using that unfolding r1_def word_bits_neq
    by (auto simp: bit_and_iff bit_not_iff_eq bits)
  have b2: "bit r2 b \<longleftrightarrow> bit d b \<and> \<not> (owner_right b \<and> ?own) \<and> \<not> (b = 16 \<and> ?res)" if "b < 32" for b
    using that b1 [OF that] unfolding r2_def word_bits_neq
    by (auto simp: bit_and_iff bit_not_iff_eq bits)
  have run: "sec_access_check sd token d = Some (check_aces token (aces acl) r2, d)"
    using assms by (simp add: sec_access_check_def check_system_def check_dacl_def r2_def r1_def ob_def del_def Let_def)
  have "check_aces token (aces acl) r2 = NT_STATUS_OK \<longleftrightarrow> (\<forall>b < 32. bit d b \<longrightarrow> bit_granted sd token (aces acl) b)"
    unfolding check_aces_spec using b2 by (auto simp: bit_granted_def)
  then show ?thesis
    unfolding run using check_aces_status [of token "aces acl" r2] by auto
qed

text \<open>
  C36. The access check against a list decides bit by bit: with a list present and no special
  flag asked for, access is granted exactly when every desired bit is one the owner has, or
  deleting by a token that may restore, or is allowed by the first applicable entry that names
  it. The granted mask is the desired one in both cases.
\<close>

theorem sec_access_check_correct:
  assumes "sd_type sd AND SEC_DESC_DACL_PRESENT \<noteq> 0" "dacl sd = Some acl" "aces acl \<noteq> []"
    and "d AND SEC_FLAG_MAXIMUM_ALLOWED = 0" "d AND SEC_FLAG_SYSTEM_SECURITY = 0"
  shows "sec_access_check sd token d =
    Some (if \<forall>b < 32. bit d b \<longrightarrow> bit_granted sd token (aces acl) b then NT_STATUS_OK else NT_STATUS_ACCESS_DENIED, d)"
  using assms by (rule access_check_bits)

text \<open>A descriptor with one entry for the administrators, and a token that is one of them.\<close>

definition admins_sd :: security_descriptor where
  "admins_sd = security_descriptor_initialise\<lparr>sd_type := 0x8004, dacl := Some \<lparr>acl_revision = 2, acl_size = 0,
     aces = [\<lparr>ace_type = 0, ace_flags = 0, access_mask = 0x1F01FF, trustee = admins_sid\<rparr>]\<rparr>\<rparr>"

definition admin_token :: security_token where
  "admin_token = security_token_initialise\<lparr>sids := [Some admins_sid]\<rparr>"

theorem sec_access_check_correct_witness:
  "sec_access_check admins_sd admin_token 0x1F01FF = Some (NT_STATUS_OK, 0x1F01FF)
   \<and> sec_access_check admins_sd security_token_initialise 1 = Some (NT_STATUS_ACCESS_DENIED, 1)"
proof -
  have run: "sec_access_check admins_sd admin_token 0x1F01FF = Some (NT_STATUS_OK, 0x1F01FF)" by code_simp
  have nobody: "\<not> first_verdict security_token_initialise as b" for as b
    by (induction as) (auto simp: ace_applies_def security_token_has_sid_def security_token_initialise_def)
  have sd: "sd_type admins_sd AND SEC_DESC_DACL_PRESENT \<noteq> 0" "dacl admins_sd = Some \<lparr>acl_revision = 2, acl_size = 0,
     aces = [\<lparr>ace_type = 0, ace_flags = 0, access_mask = 0x1F01FF, trustee = admins_sid\<rparr>]\<rparr>"
    by (simp_all add: admins_sd_def)
  have "\<exists>b < 32. bit (1 :: u32) b \<and> \<not> bit_granted admins_sd security_token_initialise as b" for as
    by (intro exI [of _ 0]) (simp add: bit_granted_def owner_right_def nobody)
  with run sec_access_check_correct [OF sd, of 1 security_token_initialise] show ?thesis by auto
qed

text \<open>
  A copy of a security descriptor protects nothing: \<open>security_descriptor_copy\<close> leaves out
  the type, so the copy says that it has no access list, and every access to it that asks for
  no special flag is granted, whatever the original said.
\<close>

theorem descriptor_copy_grants_all:
  assumes "d AND SEC_FLAG_MAXIMUM_ALLOWED = 0" "d AND SEC_FLAG_SYSTEM_SECURITY = 0"
  shows "sec_access_check (security_descriptor_copy sd) token d = Some (NT_STATUS_OK, d)"
  using assms by (simp add: sec_access_check_def check_system_def check_dacl_def security_descriptor_copy_def)

theorem descriptor_copy_grants_all_witness:
  "sec_access_check (security_descriptor_copy admins_sd) security_token_initialise 1 = Some (NT_STATUS_OK, 1)
   \<and> sec_access_check admins_sd security_token_initialise 1 = Some (NT_STATUS_ACCESS_DENIED, 1)"
proof -
  have "sec_access_check admins_sd security_token_initialise 1 = Some (NT_STATUS_ACCESS_DENIED, 1)" by code_simp
  with descriptor_copy_grants_all [of 1 admins_sd security_token_initialise] show ?thesis by simp
qed

text \<open>
  Asking for the maximum access to a descriptor without an access list follows a NULL
  pointer, although without a list all access is meant to be granted.
\<close>

theorem maximum_allowed_null_dacl:
  assumes "dacl sd = None" "d AND SEC_FLAG_MAXIMUM_ALLOWED \<noteq> 0"
  shows "sec_access_check sd token d = None"
  using assms by (simp add: sec_access_check_def access_check_max_allowed_def)

theorem maximum_allowed_null_dacl_witness:
  "sec_access_check security_descriptor_initialise security_token_initialise SEC_FLAG_MAXIMUM_ALLOWED = None"
  using maximum_allowed_null_dacl [of security_descriptor_initialise SEC_FLAG_MAXIMUM_ALLOWED security_token_initialise]
  by (simp add: security_descriptor_initialise_def)

lemma max_allowed_bits:
  "b < 32 \<Longrightarrow> bit (max_allowed_aces token as den gr) b \<longleftrightarrow>
     (bit gr b \<or> (\<exists>a \<in> set as. ace_applies token a \<and> ace_type a = SEC_ACE_TYPE_ACCESS_ALLOWED \<and> bit (access_mask a) b))
     \<and> \<not> bit den b \<and> \<not> (\<exists>a \<in> set as. ace_applies token a \<and> ace_denies a \<and> bit (access_mask a) b)"
proof (induction token as den gr rule: max_allowed_aces.induct)
  case (1 token den gr)
  then show ?case by (auto simp: bit_and_iff bit_not_iff_eq)
next
  case (2 token ace as den gr)
  then show ?case by (auto simp: bit_or_iff ace_denies_def)
qed

lemma and_not_or: "(m AND NOT (x OR y)) AND x = (0 :: u32)" "(m AND NOT (x OR y)) AND y = (0 :: u32)"
  by (rule bit_word_eqI, auto simp: bit_simps)+

lemma first_verdict_undenied:
  assumes "\<exists>a \<in> set as. ace_applies token a \<and> ace_type a = SEC_ACE_TYPE_ACCESS_ALLOWED \<and> bit (access_mask a) b"
    and "\<not> (\<exists>a \<in> set as. ace_applies token a \<and> ace_denies a \<and> bit (access_mask a) b)"
  shows "first_verdict token as b"
  using assms by (induction as) auto

text \<open>
  The maximum access is consistent with the check: what the code finds as the maximum
  for a token, apart from its two special flags, is granted when it is asked for directly.
\<close>

theorem maximum_allowed_sound:
  assumes "sd_type sd AND SEC_DESC_DACL_PRESENT \<noteq> 0" "dacl sd = Some acl" "aces acl \<noteq> []"
    and "access_check_max_allowed sd token = Some m"
    and "d = m AND NOT (SEC_FLAG_MAXIMUM_ALLOWED OR SEC_FLAG_SYSTEM_SECURITY)"
  shows "sec_access_check sd token d = Some (NT_STATUS_OK, d)"
proof -
  define ob where "ob = SEC_STD_WRITE_DAC OR SEC_STD_READ_CONTROL OR SEC_STD_DELETE"
  define del where "del = SEC_STD_DELETE"
  have bits: "bit ob b \<longleftrightarrow> owner_right b" "bit del b \<longleftrightarrow> b = 16" for b
    unfolding ob_def del_def owner_right_def bit_or_iff std_bits by blast+
  define g where "g = (if security_token_has_sid token (owner_sid sd) then ob
    else if security_token_has_privilege token SEC_PRIV_RESTORE then del else 0)"
  have m: "m = max_allowed_aces token (aces acl) 0 g"
    using assms(4)
    unfolding access_check_max_allowed_def Let_def assms(2) g_def ob_def del_def option.case option.inject by (rule sym)
  have "bit_granted sd token (aces acl) b" if "b < 32" "bit d b" for b
  proof -
    have "bit m b" using that(2) assms(5) by (auto simp: bit_and_iff)
    then show ?thesis
      using first_verdict_undenied [of "aces acl" token b]
      by (auto simp: m max_allowed_bits [OF that(1)] bit_granted_def g_def bits split: if_splits)
  qed
  moreover have "d AND SEC_FLAG_MAXIMUM_ALLOWED = 0" "d AND SEC_FLAG_SYSTEM_SECURITY = 0"
    unfolding assms(5) by (rule and_not_or)+
  ultimately show ?thesis using access_check_bits [OF assms(1-3)] by auto
qed

theorem maximum_allowed_sound_witness:
  "access_check_max_allowed admins_sd admin_token = Some 0x1F01FF
   \<and> sec_access_check admins_sd admin_token 0x1F01FF = Some (NT_STATUS_OK, 0x1F01FF)"
proof -
  have m: "access_check_max_allowed admins_sd admin_token = Some 0x1F01FF" by code_simp
  have sd: "sd_type admins_sd AND SEC_DESC_DACL_PRESENT \<noteq> 0" "dacl admins_sd = Some \<lparr>acl_revision = 2, acl_size = 0,
     aces = [\<lparr>ace_type = 0, ace_flags = 0, access_mask = 0x1F01FF, trustee = admins_sid\<rparr>]\<rparr>"
    by (simp_all add: admins_sd_def)
  from m maximum_allowed_sound [OF sd _ m] show ?thesis by simp
qed

lemma del_ace_append: "del_ace t as = None \<Longrightarrow> dom_sid_equal (Some t) (Some (trustee a)) \<Longrightarrow> del_ace t (as @ [a]) = Some as"
  by (induction as) (auto split: if_splits)

lemma sid_view_dup: "sid_view (trustee (dup_ace a)) = sid_view (trustee a)" "sid_wf (trustee a) \<Longrightarrow> sid_wf (trustee (dup_ace a))"
  by (auto simp: dup_ace_def sid_view_def sid_wf_def auths_def)

text \<open>
  Adding an entry for a trustee that has none, and deleting the trustee again, leaves the
  list as it was; deleting a trustee without an entry fails and changes nothing.
\<close>

theorem dacl_add_del:
  assumes "dacl sd = Some acl" "del_ace (trustee a) (aces acl) = None" "sid_wf (trustee a)"
  shows "security_descriptor_dacl_del sd (trustee a) = (NT_STATUS_OBJECT_NAME_NOT_FOUND, sd)
    \<and> (\<exists>sd1 sd2. security_descriptor_dacl_add sd a = (NT_STATUS_OK, sd1)
         \<and> security_descriptor_dacl_del sd1 (trustee a) = (NT_STATUS_OK, sd2) \<and> dacl sd2 = Some acl)"
proof -
  have "dom_sid_equal (Some (trustee a)) (Some (trustee (dup_ace a)))"
    using assms(3) by (simp add: dom_sid_equal_iff sid_view_dup)
  with assms show ?thesis
    by (simp add: security_descriptor_dacl_del_def security_descriptor_dacl_add_def del_ace_append)
qed

theorem dacl_add_del_witness:
  "\<exists>sd1 sd2. security_descriptor_dacl_add (admins_sd\<lparr>dacl := Some \<lparr>acl_revision = 2, acl_size = 0, aces = []\<rparr>\<rparr>)
       \<lparr>ace_type = 0, ace_flags = 0, access_mask = 1, trustee = admins_sid\<rparr> = (NT_STATUS_OK, sd1)
     \<and> security_descriptor_dacl_del sd1 admins_sid = (NT_STATUS_OK, sd2)
     \<and> dacl sd2 = Some \<lparr>acl_revision = 2, acl_size = 0, aces = []\<rparr>"
  using dacl_add_del [of "admins_sd\<lparr>dacl := Some \<lparr>acl_revision = 2, acl_size = 0, aces = []\<rparr>\<rparr>"
      "\<lparr>acl_revision = 2, acl_size = 0, aces = []\<rparr>"
      "\<lparr>ace_type = 0, ace_flags = 0, access_mask = 1, trustee = admins_sid\<rparr>"] admins_wf
  by simp

end
