(* ===== verification/Asn1.thy ===== *)
theory Asn1
  imports CString NtError
begin

text \<open>
  The ASN.1 reader and writer, \<open>libcli/util/asn1.c\<close>. The buffer is a list of bytes, so
  \<open>data->length\<close> is its length; offsets are naturals (a buffer is shorter than 2^63 bytes), the
  length of a tag is a 64-bit word and \<open>asn1_tag_remaining\<close> an int, as in the code. Functions
  take the structure and return their result with the new structure. Allocation succeeds.
\<close>

section \<open>The structure\<close>

record nesting =
  ns_start :: nat
  ns_taglen :: u64

record asn1_data =
  as_data :: "u8 list"
  as_ofs :: nat
  as_nesting :: "nesting list"
  has_error :: bool

type_synonym 'a as_fun = "asn1_data \<Rightarrow> 'a \<times> asn1_data"

definition asn1_empty :: asn1_data where
  "asn1_empty = \<lparr>as_data = [], as_ofs = 0, as_nesting = [], has_error = False\<rparr>"

abbreviation (input) "ASN1_GENERAL_STRING \<equiv> (0x1b :: u8)"
abbreviation (input) "ASN1_OCTET_STRING \<equiv> (0x4 :: u8)"
abbreviation (input) "ASN1_OID \<equiv> (0x6 :: u8)"
abbreviation (input) "ASN1_BOOLEAN \<equiv> (0x1 :: u8)"
abbreviation (input) "ASN1_INTEGER \<equiv> (0x2 :: u8)"
abbreviation (input) "ASN1_ENUMERATED \<equiv> (0xa :: u8)"
abbreviation (input) "STATUS_MORE_ENTRIES \<equiv> (0x0105 :: u32)"

definition ASN1_CONTEXT_SIMPLE :: "u8 \<Rightarrow> u8" where "ASN1_CONTEXT_SIMPLE x = x + 0x80"

section \<open>Writing\<close>

definition asn1_write :: "u8 list \<Rightarrow> bool as_fun" where
  "asn1_write p d =
     (if has_error d then (False, d)
      else (True, d\<lparr>as_data := take (as_ofs d) (as_data d) @ p @ drop (as_ofs d + length p) (as_data d),
                    as_ofs := as_ofs d + length p\<rparr>))"

definition asn1_write_uint8 :: "u8 \<Rightarrow> bool as_fun" where
  "asn1_write_uint8 v = asn1_write [v]"

definition asn1_push_tag :: "u8 \<Rightarrow> bool as_fun" where
  "asn1_push_tag tag d =
     (let (_, d1) = asn1_write_uint8 tag d
      in asn1_write_uint8 0xff
           (d1\<lparr>as_nesting := \<lparr>ns_start = as_ofs d1, ns_taglen = 0\<rparr> # as_nesting d1\<rparr>))"

text \<open>\<open>memmove\<close> of \<open>len\<close> bytes from the offset \<open>from\<close> to the offset \<open>to\<close>.\<close>

definition memmove :: "nat \<Rightarrow> nat \<Rightarrow> nat \<Rightarrow> u8 list \<Rightarrow> u8 list" where
  "memmove to from len b = take to b @ take len (drop from b) @ drop (to + len) b"

text \<open>\<open>n\<close> zero bytes at the end, to make room; False when a write fails.\<close>

fun asn1_grow :: "nat \<Rightarrow> bool as_fun" where
  "asn1_grow 0 d = (True, d)"
| "asn1_grow (Suc n) d = (let (ok, d1) = asn1_write_uint8 0 d in if \<not> ok then (False, d1) else asn1_grow n d1)"

text \<open>A difference of offsets stored in a \<open>size_t\<close>.\<close>

definition size_diff :: "nat \<Rightarrow> nat \<Rightarrow> nat" where
  "size_diff a b = (if b \<le> a then a - b else 2 ^ 64 + a - b)"

definition asn1_pop_tag :: "bool as_fun" where
  "asn1_pop_tag d =
     (case as_nesting d of
        [] \<Rightarrow> (False, d\<lparr>has_error := True\<rparr>)
      | n # ns \<Rightarrow>
          (let st = ns_start n; len = size_diff (as_ofs d) (st + 1) in
           if 0xFFFF < len then
             (let (ok, d1) = asn1_grow 3 (d\<lparr>as_data := (as_data d)[st := 0x83]\<rparr>) in
              if \<not> ok then (False, d1)
              else (True, d1\<lparr>as_data := (memmove (st + 4) (st + 1) len (as_data d1))
                               [st + 1 := of_nat (len div 65536), st + 2 := of_nat (len div 256), st + 3 := of_nat len],
                             as_nesting := ns\<rparr>))
           else if 255 < len then
             (let (ok, d1) = asn1_grow 2 (d\<lparr>as_data := (as_data d)[st := 0x82]\<rparr>) in
              if \<not> ok then (False, d1)
              else (True, d1\<lparr>as_data := (memmove (st + 3) (st + 1) len (as_data d1))
                               [st + 1 := of_nat (len div 256), st + 2 := of_nat len],
                             as_nesting := ns\<rparr>))
           else if 127 < len then
             (let (ok, d1) = asn1_grow 1 (d\<lparr>as_data := (as_data d)[st := 0x81]\<rparr>) in
              if \<not> ok then (False, d1)
              else (True, d1\<lparr>as_data := (memmove (st + 2) (st + 1) len (as_data d1))[st + 1 := of_nat len],
                             as_nesting := ns\<rparr>))
           else (True, d\<lparr>as_data := (as_data d)[st := of_nat len], as_nesting := ns\<rparr>)))"

text \<open>
  The bytes of an integer, most significant first. None is the use of \<open>data->nesting\<close> when no
  tag is open.
\<close>

function push_int_bigendian :: "u32 \<Rightarrow> bool \<Rightarrow> asn1_data \<Rightarrow> (bool \<times> asn1_data) option" where
  "push_int_bigendian i negative d =
     (let lowest = (ucast i :: u8); rest = drop_bit 8 i in
      case (if rest \<noteq> 0 then push_int_bigendian rest negative d else Some (True, d)) of
        None \<Rightarrow> None
      | Some (False, d1) \<Rightarrow> Some (False, d1)
      | Some (True, d1) \<Rightarrow>
          (case as_nesting d1 of
             [] \<Rightarrow> None
           | n # _ \<Rightarrow>
               if ns_start n + 1 = as_ofs d1 then
                 (if negative then
                    (if lowest = 0xFF then Some (True, d1)
                     else if lowest AND 0x80 = 0 then
                       (let (ok, d2) = asn1_write_uint8 0xff d1
                        in if \<not> ok then Some (False, d2) else Some (asn1_write_uint8 lowest d2))
                     else Some (asn1_write_uint8 lowest d1))
                  else
                    (if lowest AND 0x80 \<noteq> 0 then
                       (let (ok, d2) = asn1_write_uint8 0 d1
                        in if \<not> ok then Some (False, d2) else Some (asn1_write_uint8 lowest d2))
                     else Some (asn1_write_uint8 lowest d1)))
               else Some (asn1_write_uint8 lowest d1)))"
  by pat_completeness auto
termination
proof (relation "measure (\<lambda>(i, _, _). unat i)", goal_cases)
  case (2 i negative d x rest)
  have "unat rest = unat i div 256" using 2 by (simp add: unat_drop_bit_eq) (simp add: drop_bit_eq_div)
  moreover have "i \<noteq> 0" using 2 by auto
  then have "0 < unat i" by (simp add: unat_gt_0)
  ultimately show ?case by simp
qed simp

definition asn1_write_implicit_Integer :: "int \<Rightarrow> asn1_data \<Rightarrow> (bool \<times> asn1_data) option" where
  "asn1_write_implicit_Integer i d =
     (if i = -1 then Some (asn1_write_uint8 0xff d) else push_int_bigendian (word_of_int i) (i < 0) d)"

definition asn1_write_Integer :: "int \<Rightarrow> asn1_data \<Rightarrow> (bool \<times> asn1_data) option" where
  "asn1_write_Integer i d =
     (let (ok, d1) = asn1_push_tag ASN1_INTEGER d in
      if \<not> ok then Some (False, d1)
      else
        (case asn1_write_implicit_Integer i d1 of
           None \<Rightarrow> None
         | Some (ok2, d2) \<Rightarrow> if \<not> ok2 then Some (False, d2) else Some (asn1_pop_tag d2)))"

text \<open>The frame of the writers that ignore the single results and look at the error flag at the end.\<close>

definition asn1_framed :: "u8 \<Rightarrow> u8 list \<Rightarrow> bool as_fun" where
  "asn1_framed tag p d =
     (let d1 = snd (asn1_push_tag tag d); d2 = snd (asn1_write p d1); d3 = snd (asn1_pop_tag d2)
      in (\<not> has_error d3, d3))"

definition asn1_write_OctetString :: "u8 list \<Rightarrow> bool as_fun" where
  "asn1_write_OctetString p = asn1_framed ASN1_OCTET_STRING p"

definition bytes_of :: "string \<Rightarrow> u8 list" where "bytes_of s = map of_char s"

definition asn1_write_LDAPString :: "string \<Rightarrow> bool as_fun" where
  "asn1_write_LDAPString s d = (let d1 = snd (asn1_write (bytes_of s) d) in (\<not> has_error d1, d1))"

definition asn1_write_GeneralString :: "string \<Rightarrow> bool as_fun" where
  "asn1_write_GeneralString s = asn1_framed ASN1_GENERAL_STRING (bytes_of s)"

definition asn1_write_ContextSimple :: "u8 \<Rightarrow> u8 list \<Rightarrow> bool as_fun" where
  "asn1_write_ContextSimple num blob = asn1_framed (ASN1_CONTEXT_SIMPLE num) blob"

definition asn1_write_BOOLEAN :: "bool \<Rightarrow> bool as_fun" where
  "asn1_write_BOOLEAN v = asn1_framed ASN1_BOOLEAN [if v then 0xFF else 0]"

definition asn1_write_enumerated :: "u8 \<Rightarrow> bool as_fun" where
  "asn1_write_enumerated v d =
     (let (ok, d1) = asn1_push_tag ASN1_ENUMERATED d in
      if \<not> ok then (False, d1)
      else (let d2 = snd (asn1_write_uint8 v d1); d3 = snd (asn1_pop_tag d2) in (\<not> has_error d3, d3)))"

section \<open>Reading\<close>

definition asn1_load :: "u8 list \<Rightarrow> asn1_data" where
  "asn1_load blob = \<lparr>as_data = blob, as_ofs = 0, as_nesting = [], has_error = False\<rparr>"

text \<open>None is the result False; the bytes are what the code copies to the caller.\<close>

definition asn1_peek :: "nat \<Rightarrow> u8 list option as_fun" where
  "asn1_peek len d =
     (if length (as_data d) < as_ofs d + len then (None, d\<lparr>as_ofs := length (as_data d)\<rparr>)
      else (Some (take len (drop (as_ofs d) (as_data d))), d))"

definition asn1_read :: "nat \<Rightarrow> u8 list option as_fun" where
  "asn1_read len d =
     (case asn1_peek len d of
        (None, d1) \<Rightarrow> (None, d1\<lparr>has_error := True\<rparr>)
      | (Some p, d1) \<Rightarrow> (Some p, d1\<lparr>as_ofs := as_ofs d1 + len\<rparr>))"

definition asn1_read_uint8 :: "u8 option as_fun" where
  "asn1_read_uint8 d = (case asn1_read 1 d of (r, d1) \<Rightarrow> (map_option hd r, d1))"

definition asn1_peek_uint8 :: "u8 option as_fun" where
  "asn1_peek_uint8 d = (case asn1_peek 1 d of (r, d1) \<Rightarrow> (map_option hd r, d1))"

definition asn1_tag_remaining :: "int as_fun" where
  "asn1_tag_remaining d =
     (if has_error d then (-1, d)
      else
        (case as_nesting d of
           [] \<Rightarrow> (-1, d\<lparr>has_error := True\<rparr>)
         | n # _ \<Rightarrow>
             (let remaining = (ucast (ns_taglen n - (of_nat (as_ofs d) - of_nat (ns_start n))) :: u32);
                  left = (of_nat (length (as_data d)) - of_nat (as_ofs d) :: u64)
              in if left < (scast remaining :: u64) then (-1, d\<lparr>has_error := True\<rparr>)
                 else (sint remaining, d))))"

definition asn1_peek_tag :: "u8 \<Rightarrow> bool as_fun" where
  "asn1_peek_tag tag d =
     (let (r, d1) = asn1_tag_remaining d in
      if r \<le> 0 then (False, d1)
      else (case asn1_peek 1 d1 of (None, d2) \<Rightarrow> (False, d2) | (Some p, d2) \<Rightarrow> (hd p = tag, d2)))"

text \<open>The further bytes of a long length; None is a read that failed.\<close>

fun read_taglen :: "nat \<Rightarrow> u64 \<Rightarrow> u64 option as_fun" where
  "read_taglen 0 t d = (Some t, d)"
| "read_taglen (Suc n) t d =
     (case asn1_read_uint8 d of
        (None, d1) \<Rightarrow> (None, d1)
      | (Some b, d1) \<Rightarrow> read_taglen n (push_bit 8 t OR ucast b) d1)"

definition enter_tag :: "u64 \<Rightarrow> bool as_fun" where
  "enter_tag len d =
     (let d1 = d\<lparr>as_nesting := \<lparr>ns_start = as_ofs d, ns_taglen = len\<rparr> # as_nesting d\<rparr>;
          (r, d2) = asn1_tag_remaining d1
      in if r = -1 then (False, d2) else (\<not> has_error d2, d2))"

definition asn1_start_tag :: "u8 \<Rightarrow> bool as_fun" where
  "asn1_start_tag tag d =
     (case asn1_read_uint8 d of
        (None, d1) \<Rightarrow> (False, d1)
      | (Some b, d1) \<Rightarrow>
          if b \<noteq> tag then (False, d1\<lparr>has_error := True\<rparr>)
          else
            (case asn1_read_uint8 d1 of
               (None, d2) \<Rightarrow> (False, d2)
             | (Some b, d2) \<Rightarrow>
                 if b AND 0x80 \<noteq> 0
                 then (case asn1_read_uint8 d2 of
                         (None, d3) \<Rightarrow> (False, d3)
                       | (Some c, d3) \<Rightarrow>
                           (case read_taglen (unat (b AND 0x7f) - 1) (ucast c) d3 of
                              (None, d4) \<Rightarrow> (False, d4)
                            | (Some len, d4) \<Rightarrow> enter_tag len d4))
                 else enter_tag (ucast b) d2))"

definition asn1_end_tag :: "bool as_fun" where
  "asn1_end_tag d =
     (let (r, d1) = asn1_tag_remaining d in
      if r \<noteq> 0 then (False, d1\<lparr>has_error := True\<rparr>)
      else (case as_nesting d1 of
              [] \<Rightarrow> (False, d1\<lparr>has_error := True\<rparr>)
            | _ # ns \<Rightarrow> (True, d1\<lparr>as_nesting := ns\<rparr>)))"

text \<open>A byte into a variable that keeps its value when the read fails.\<close>

definition read_into :: "u8 \<Rightarrow> u8 as_fun" where
  "read_into old d = (case asn1_read_uint8 d of (None, d1) \<Rightarrow> (old, d1) | (Some b, d1) \<Rightarrow> (b, d1))"

definition asn1_read_BOOLEAN :: "(bool \<times> bool) as_fun" where
  "asn1_read_BOOLEAN d =
     (let d1 = snd (asn1_start_tag ASN1_BOOLEAN d); (tmp, d2) = read_into 0 d1; d3 = snd (asn1_end_tag d2)
      in ((\<not> has_error d3, tmp = 0xFF), d3))"

definition asn1_check_BOOLEAN :: "bool \<Rightarrow> bool as_fun" where
  "asn1_check_BOOLEAN v d =
     (let (b, d1) = read_into 0 d in
      if b \<noteq> ASN1_BOOLEAN then (False, d1\<lparr>has_error := True\<rparr>)
      else
        (let (b, d2) = read_into b d1 in
         if b \<noteq> (if v then 1 else 0) then (False, d2\<lparr>has_error := True\<rparr>)
         else (\<not> has_error d2, d2)))"

definition asn1_read_LDAPString :: "u8 list option as_fun" where
  "asn1_read_LDAPString d =
     (let (len, d1) = asn1_tag_remaining d in
      if len < 0 then (None, d1\<lparr>has_error := True\<rparr>)
      else (let (r, d2) = asn1_read (nat len) d1 in (if has_error d2 then None else r, d2)))"

definition asn1_read_GeneralString :: "u8 list option as_fun" where
  "asn1_read_GeneralString d =
     (let (ok, d1) = asn1_start_tag ASN1_GENERAL_STRING d in
      if \<not> ok then (None, d1)
      else
        (case asn1_read_LDAPString d1 of
           (None, d2) \<Rightarrow> (None, d2)
         | (Some s, d2) \<Rightarrow> (let (ok2, d3) = asn1_end_tag d2 in (if ok2 then Some s else None, d3))))"

text \<open>The blob readers: start, take what remains, end; None is the result False.\<close>

definition read_blob :: "u8 \<Rightarrow> u8 list option as_fun" where
  "read_blob tag d =
     (let (ok, d1) = asn1_start_tag tag d in
      if \<not> ok then (None, d1)
      else
        (let (len, d2) = asn1_tag_remaining d1 in
         if len < 0 then (None, d2\<lparr>has_error := True\<rparr>)
         else
           (let (r, d3) = asn1_read (nat len) d2; (_, d4) = asn1_end_tag d3
            in (if has_error d4 then None else r, d4))))"

definition asn1_read_OctetString :: "u8 list option as_fun" where
  "asn1_read_OctetString = read_blob ASN1_OCTET_STRING"

definition asn1_read_ContextSimple :: "u8 \<Rightarrow> u8 list option as_fun" where
  "asn1_read_ContextSimple num = read_blob (ASN1_CONTEXT_SIMPLE num)"

lemma read_uint8_Some:
  "asn1_read_uint8 d = (Some b, d') \<Longrightarrow>
   as_ofs d < length (as_data d) \<and> b = as_data d ! as_ofs d \<and> d' = d\<lparr>as_ofs := Suc (as_ofs d)\<rparr>"
  by (auto simp: asn1_read_uint8_def asn1_read_def asn1_peek_def hd_drop_conv_nth take_Suc split: if_splits)

lemma tag_remaining_frame:
  "asn1_tag_remaining d = (r, d') \<Longrightarrow> as_ofs d' = as_ofs d \<and> as_data d' = as_data d \<and> as_nesting d' = as_nesting d"
  by (auto simp: asn1_tag_remaining_def Let_def split: if_splits list.splits)

text \<open>
  The loops over the bytes that remain in a tag. Every round consumes a byte, so they end; the
  result says whether no read failed.
\<close>

function read_int_loop :: "u32 \<Rightarrow> (bool \<times> u32) as_fun" where
  "read_int_loop i d =
     (if has_error d then ((True, i), d)
      else
        (let (r, d1) = asn1_tag_remaining d in
         if r \<le> 0 then ((True, i), d1)
         else
           (case asn1_read_uint8 d1 of
              (None, d2) \<Rightarrow> ((False, i), d2)
            | (Some b, d2) \<Rightarrow> read_int_loop (push_bit 8 i + ucast b) d2)))"
  by pat_completeness auto
termination
  by (relation "measure (\<lambda>(_, d). length (as_data d) - as_ofs d)")
    (auto dest!: read_uint8_Some [OF sym] tag_remaining_frame [OF sym])

definition asn1_read_implicit_Integer :: "(bool \<times> int) as_fun" where
  "asn1_read_implicit_Integer d =
     (let ((ok, i), d1) = read_int_loop 0 d in ((ok \<and> \<not> has_error d1, sint i), d1))"

definition asn1_read_Integer :: "(bool \<times> int) as_fun" where
  "asn1_read_Integer d =
     (let (ok, d1) = asn1_start_tag ASN1_INTEGER d in
      if \<not> ok then ((False, 0), d1)
      else
        (let ((ok2, i), d2) = asn1_read_implicit_Integer d1 in
         if \<not> ok2 then ((False, i), d2)
         else (let (ok3, d3) = asn1_end_tag d2 in ((ok3, i), d3))))"

definition asn1_read_enumerated :: "(bool \<times> int) as_fun" where
  "asn1_read_enumerated d =
     (let (ok, d1) = asn1_start_tag ASN1_ENUMERATED d in
      if \<not> ok then ((False, 0), d1)
      else (let ((_, v), d2) = read_int_loop 0 d1; (ok3, d3) = asn1_end_tag d2 in ((ok3, sint v), d3)))"

text \<open>\<open>junk\<close> is the value of the uninitialised \<open>b\<close>, which stays when the read fails.\<close>

definition asn1_check_enumerated :: "u8 \<Rightarrow> int \<Rightarrow> bool as_fun" where
  "asn1_check_enumerated junk v d =
     (let (ok, d1) = asn1_start_tag ASN1_ENUMERATED d in
      if \<not> ok then (False, d1)
      else
        (let (b, d2) = read_into junk d1;
             d3 = snd (asn1_end_tag d2);
             d4 = (if v \<noteq> uint b then d3\<lparr>has_error := False\<rparr> else d3)
         in (\<not> has_error d4, d4)))"

definition asn1_full_tag :: "u8 list \<Rightarrow> u8 \<Rightarrow> NTSTATUS \<times> nat option" where
  "asn1_full_tag blob tag =
     (let d1 = snd (asn1_start_tag tag (asn1_load blob)) in
      if has_error d1 then (STATUS_MORE_ENTRIES, None)
      else
        (let (r, d2) = asn1_tag_remaining d1; sz = (scast (word_of_int (r + int (as_ofs d2)) :: u32) :: u64) in
         if of_nat (length blob) < sz then (STATUS_MORE_ENTRIES, None) else (NT_STATUS_OK, Some (unat sz))))"

section \<open>Object identifiers\<close>

text \<open>The bytes of one component: seven bits each, the continuation bit on all but the last.\<close>

definition oid_bytes :: "u32 \<Rightarrow> u8 list" where
  "oid_bytes v =
     (if 0x10000000 \<le> v then [0x80 OR ucast (drop_bit 28 v)] else [])
     @ (if 0x200000 \<le> v then [0x80 OR ucast (drop_bit 21 v)] else [])
     @ (if 0x4000 \<le> v then [0x80 OR ucast (drop_bit 14 v)] else [])
     @ (if 0x80 \<le> v then [0x80 OR ucast (drop_bit 7 v)] else [])
     @ [ucast (v AND 0x7f)]"

fun write_bytes :: "u8 list \<Rightarrow> bool as_fun" where
  "write_bytes [] d = (True, d)"
| "write_bytes (b # bs) d = (let (ok, d1) = asn1_write_uint8 b d in if bs = [] then (ok, d1) else write_bytes bs d1)"

text \<open>The loop over the text, with fuel: None is a loop that goes on for ever.\<close>

fun write_oid_loop :: "nat \<Rightarrow> string \<Rightarrow> asn1_data \<Rightarrow> (bool \<times> asn1_data) option" where
  "write_oid_loop 0 p d = None"
| "write_oid_loop (Suc n) p d =
     (if p = [] then Some (asn1_pop_tag d)
      else
        (let (v, newp) = strtol 10 p; (ok, d1) = write_bytes (oid_bytes (ucast v)) d in
         if \<not> ok then Some (False, d1) else write_oid_loop n newp d1))"

definition asn1_write_OID :: "nat \<Rightarrow> string \<Rightarrow> asn1_data \<Rightarrow> (bool \<times> asn1_data) option" where
  "asn1_write_OID fuel oid d =
     (let (ok, d1) = asn1_push_tag ASN1_OID d in
      if \<not> ok then Some (False, d1)
      else
        (let (v, p) = strtol 10 oid; (v2, q) = strtol 10 p;
             (ok2, d2) = asn1_write_uint8 (ucast (40 * (ucast v :: u32) + ucast v2)) d1
         in if \<not> ok2 then Some (False, d2) else write_oid_loop fuel q d2))"

text \<open>One component: bytes up to one without the continuation bit, or an error.\<close>

function read_component :: "u8 \<Rightarrow> u32 \<Rightarrow> (u8 \<times> u32) as_fun" where
  "read_component b v d =
     (case asn1_read_uint8 d of
        (None, d1) \<Rightarrow> ((b, push_bit 7 v OR ucast (b AND 0x7f)), d1)
      | (Some c, d1) \<Rightarrow>
          if \<not> has_error d1 \<and> c AND 0x80 \<noteq> 0 then read_component c (push_bit 7 v OR ucast (c AND 0x7f)) d1
          else ((c, push_bit 7 v OR ucast (c AND 0x7f)), d1))"
  by pat_completeness auto
termination
  by (relation "measure (\<lambda>(_, _, d). length (as_data d) - as_ofs d)") (auto dest!: read_uint8_Some [OF sym])

declare push_int_bigendian.simps [simp del] read_int_loop.simps [simp del] read_component.simps [simp del]

lemma read_component_step:
  "read_component b v d = ((c, w), d') \<Longrightarrow>
   has_error d' \<or> as_data d' = as_data d \<and> as_nesting d' = as_nesting d \<and> as_ofs d < as_ofs d' \<and> as_ofs d' \<le> length (as_data d)"
proof (induction b v d rule: read_component.induct)
  case (1 b v d)
  obtain r d1 where r: "asn1_read_uint8 d = (r, d1)" by fastforce
  show ?case
  proof (cases r)
    case None
    with 1 r show ?thesis
      by (auto simp: read_component.simps [of b v d] asn1_read_uint8_def asn1_read_def split: prod.splits option.splits)
  next
    case (Some x)
    then have "as_ofs d < length (as_data d)" "d1 = d\<lparr>as_ofs := Suc (as_ofs d)\<rparr>"
      using r read_uint8_Some by auto
    moreover from 1 r Some have "has_error d' \<or> d' = d1 \<or>
        as_data d' = as_data d1 \<and> as_nesting d' = as_nesting d1 \<and> as_ofs d1 < as_ofs d' \<and> as_ofs d' \<le> length (as_data d1)"
      by (auto simp: read_component.simps [of b v d] split: if_splits)
    ultimately show ?thesis by auto
  qed
qed

text \<open>The components in decimal, a space before each; \<open>b\<close> is the last byte read.\<close>

function read_oid_loop :: "u8 \<Rightarrow> string as_fun" where
  "read_oid_loop b d =
     (if has_error d then ([], d)
      else
        (let (r, d1) = asn1_tag_remaining d in
         if r \<le> 0 then ([], d1)
         else
           (let (cv, d2) = read_component b 0 d1; (s, d3) = read_oid_loop (fst cv) d2
            in ('' '' @ fmt_u (unat (snd cv)) @ s, d3))))"
  by pat_completeness auto
termination
  by (relation "measure (\<lambda>(_, d). if has_error d then 0 else Suc (length (as_data d) - as_ofs d))")
    (auto dest!: read_component_step [OF sym] tag_remaining_frame [OF sym])

definition asn1_read_OID :: "u8 \<Rightarrow> string option as_fun" where
  "asn1_read_OID junk d =
     (let (ok, d1) = asn1_start_tag ASN1_OID d in
      if \<not> ok then (None, d1)
      else
        (let (b, d2) = read_into junk d1; (s, d3) = read_oid_loop b d2; d4 = snd (asn1_end_tag d3)
         in (if has_error d4 then None
             else Some (fmt_u (unat b div 40) @ '' '' @ fmt_u (unat b mod 40) @ s), d4)))"

definition asn1_check_OID :: "u8 \<Rightarrow> string \<Rightarrow> bool as_fun" where
  "asn1_check_OID junk oid d =
     (case asn1_read_OID junk d of
        (None, d1) \<Rightarrow> (False, d1)
      | (Some s, d1) \<Rightarrow> if cstr s \<noteq> cstr oid then (False, d1\<lparr>has_error := True\<rparr>) else (True, d1))"

declare read_oid_loop.simps [simp del]

section \<open>What the readers may touch\<close>

lemma uint_scast: "uint (scast (w :: u32) :: u64) = (if sint w < 0 then sint w + 2 ^ 64 else sint w)"
proof -
  have "uint (word_of_int (sint w) :: u64) = sint w mod 2 ^ LENGTH(64)" by (rule uint_word_of_int)
  moreover have "word_of_int (sint w) = (scast w :: u64)" by simp
  ultimately have u: "uint (scast w :: u64) = sint w mod 2 ^ 64" by (simp only: len_num0 len_bit0 len_num1) simp
  have b: "- (2 ^ 31) \<le> sint w" "sint w < 2 ^ 31"
    using sint_greater_eq [of w] sint_less [of w] by simp_all
  show ?thesis
  proof (cases "sint w < 0")
    case True
    have "sint w mod 2 ^ 64 = (sint w + 2 ^ 64) mod 2 ^ 64" by simp
    also have "\<dots> = sint w + 2 ^ 64" using True b by (intro mod_pos_pos_trivial) simp_all
    finally show ?thesis using True u by simp
  next
    case False
    then show ?thesis using u b by (simp add: mod_pos_pos_trivial)
  qed
qed

lemma tag_remaining_bound:
  assumes "asn1_tag_remaining d = (r, d')" "as_ofs d \<le> length (as_data d)" "length (as_data d) < 2 ^ 63"
  shows "r = -1 \<and> has_error d' \<and> as_ofs d' = as_ofs d \<and> as_data d' = as_data d
    \<or> 0 \<le> r \<and> nat r \<le> length (as_data d) - as_ofs d \<and> d' = d \<and> \<not> has_error d"
proof (cases "has_error d \<or> as_nesting d = []")
  case True
  with assms(1) show ?thesis by (auto simp: asn1_tag_remaining_def split: list.splits if_splits)
next
  case False
  then obtain n ns where n: "as_nesting d = n # ns" by (cases "as_nesting d") auto
  define rem where "rem = (ucast (ns_taglen n - (of_nat (as_ofs d) - of_nat (ns_start n))) :: u32)"
  define left where "left = (of_nat (length (as_data d)) - of_nat (as_ofs d) :: u64)"
  have "left = of_nat (length (as_data d) - as_ofs d)" using assms(2) by (simp add: left_def of_nat_diff)
  then have left: "uint left = int (length (as_data d) - as_ofs d)"
    using assms(3) by (simp add: uint_nat unat_of_nat)
  have res: "(r, d') = (if left < scast rem then (-1, d\<lparr>has_error := True\<rparr>) else (sint rem, d))"
    using assms(1) False n by (auto simp: asn1_tag_remaining_def rem_def left_def Let_def split: if_splits)
  show ?thesis
  proof (cases "left < scast rem")
    case True
    with res show ?thesis by simp
  next
    case no: False
    then have le: "uint (scast rem :: u64) \<le> uint left" by (simp add: word_less_def not_less)
    have "0 \<le> sint rem"
    proof (rule ccontr)
      assume "\<not> 0 \<le> sint rem"
      moreover have "- (2 ^ 31) \<le> sint rem" using sint_greater_eq [of rem] by simp
      ultimately have "uint (scast rem :: u64) \<ge> 2 ^ 64 - 2 ^ 31" by (simp add: uint_scast)
      with le left assms(3) show False by simp
    qed
    with le left no res False show ?thesis by (auto simp: uint_scast)
  qed
qed

text \<open>
  \<open>reads d d'\<close>: from \<open>d\<close> to \<open>d'\<close> the buffer is the same and the offset has moved forward
  and not past the end. This is the contract of every reader; the locale says what follows for a
  caller that runs one reader after another.
\<close>

definition reads :: "asn1_data \<Rightarrow> asn1_data \<Rightarrow> bool" where
  "reads d d' \<longleftrightarrow> as_data d' = as_data d \<and>
     (as_ofs d \<le> length (as_data d) \<longrightarrow> as_ofs d \<le> as_ofs d' \<and> as_ofs d' \<le> length (as_data d))"

locale asn1_reader =
  fixes rd :: "asn1_data \<Rightarrow> 'a \<times> asn1_data"
  assumes reads: "reads d (snd (rd d))"
begin

lemma reads_result: "rd d = (r, d') \<Longrightarrow> reads d d'"
  using reads [of d] by simp

lemma reads_after: "reads d d1 \<Longrightarrow> reads d (snd (rd d1))"
  using reads [of d1] by (auto simp: reads_def)

lemma reads_then: "rd d1 = (r, d') \<Longrightarrow> reads d d1 \<Longrightarrow> reads d d'"
  using reads_after [of d d1] by simp

end

lemma reads_refl [simp]: "reads d d"
  by (simp add: reads_def)

lemma reads_error [simp]: "reads d (d'\<lparr>has_error := e\<rparr>) = reads d d'"
  by (simp add: reads_def)

lemma reads_nesting [simp]: "reads d (d'\<lparr>as_nesting := ns\<rparr>) = reads d d'"
  by (simp add: reads_def)

interpretation rd_peek: asn1_reader "asn1_peek n"
  by unfold_locales (simp add: asn1_peek_def reads_def)

interpretation rd_read: asn1_reader "asn1_read n"
  by unfold_locales (auto simp: asn1_read_def asn1_peek_def reads_def split: prod.splits option.splits)

interpretation rd_read_uint8: asn1_reader asn1_read_uint8
  by unfold_locales (auto simp: asn1_read_uint8_def split: prod.splits dest: rd_read.reads_result)

lemma tag_remaining_reads: "reads d (snd (asn1_tag_remaining d))"
  by (cases "asn1_tag_remaining d") (simp add: reads_def tag_remaining_frame)

interpretation rd_remaining: asn1_reader asn1_tag_remaining
  by unfold_locales (rule tag_remaining_reads)

interpretation rd_taglen: asn1_reader "read_taglen n t"
proof
  show "reads d (snd (read_taglen n t d))" for d
  proof (induction n t d rule: read_taglen.induct)
    case (2 n t d)
    obtain r d1 where r: "asn1_read_uint8 d = (r, d1)" by fastforce
    with rd_read_uint8.reads_result have 1: "reads d d1" by blast
    show ?case
    proof (cases r)
      case (Some b)
      have "reads d1 (snd (read_taglen n (push_bit 8 t OR ucast b) d1))" by (rule 2 [OF r [symmetric] Some])
      with 1 r Some show ?thesis by (auto simp: reads_def)
    qed (use 1 r in simp)
  qed simp
qed

interpretation rd_enter: asn1_reader "enter_tag len"
  by unfold_locales (auto simp: enter_tag_def Let_def split: prod.splits dest: rd_remaining.reads_result simp: reads_def)

lemmas reads_rules = rd_read_uint8.reads_then rd_taglen.reads_then rd_remaining.reads_then
  rd_read.reads_then rd_peek.reads_then rd_enter.reads_then

interpretation rd_start: asn1_reader "asn1_start_tag tag"
  by unfold_locales
    (auto simp: asn1_start_tag_def split: prod.splits option.splits elim!: reads_rules intro!: rd_enter.reads_after)

interpretation rd_end: asn1_reader asn1_end_tag
  by unfold_locales (auto simp: asn1_end_tag_def split: prod.splits list.splits elim!: reads_rules)

interpretation rd_into: asn1_reader "read_into old"
  by unfold_locales (auto simp: read_into_def split: prod.splits option.splits elim!: reads_rules)

interpretation rd_peek_tag: asn1_reader "asn1_peek_tag tag"
  by unfold_locales (auto simp: asn1_peek_tag_def split: prod.splits option.splits elim!: reads_rules)

lemmas reads_tag_rules = reads_rules rd_start.reads_then rd_end.reads_then rd_into.reads_then

interpretation rd_read_BOOLEAN: asn1_reader asn1_read_BOOLEAN
  by unfold_locales (auto simp: asn1_read_BOOLEAN_def Let_def split: prod.splits elim!: reads_tag_rules
    intro!: rd_end.reads_after rd_start.reads_after)

interpretation rd_check_BOOLEAN: asn1_reader "asn1_check_BOOLEAN v"
  by unfold_locales (auto simp: asn1_check_BOOLEAN_def Let_def split: prod.splits elim!: reads_tag_rules)

interpretation rd_LDAPString: asn1_reader asn1_read_LDAPString
  by unfold_locales (auto simp: asn1_read_LDAPString_def split: prod.splits elim!: reads_rules)

interpretation rd_GeneralString: asn1_reader asn1_read_GeneralString
  by unfold_locales (auto simp: asn1_read_GeneralString_def split: prod.splits option.splits
    elim!: reads_tag_rules rd_LDAPString.reads_then)

interpretation rd_blob: asn1_reader "read_blob tag"
  by unfold_locales (auto simp: read_blob_def split: prod.splits elim!: reads_tag_rules)

lemma reads_trans: "reads d d1 \<Longrightarrow> reads d1 d2 \<Longrightarrow> reads d d2"
  by (auto simp: reads_def)

interpretation rd_int_loop: asn1_reader "read_int_loop i"
proof
  show "reads d (snd (read_int_loop i d))" for d
  proof (induction i d rule: read_int_loop.induct)
    case (1 i d)
    have "snd (asn1_tag_remaining d) = d1 \<Longrightarrow> reads d d1" for d1 using rd_remaining.reads [of d] by simp
    with 1 show ?case
      by (subst read_int_loop.simps) (fastforce split: prod.splits option.splits elim: reads_rules
        dest: rd_read_uint8.reads_result intro: reads_trans)
  qed
qed

interpretation rd_read_Integer: asn1_reader asn1_read_Integer
  by unfold_locales (auto simp: asn1_read_Integer_def asn1_read_implicit_Integer_def split: prod.splits
    elim!: reads_tag_rules rd_int_loop.reads_then)

interpretation rd_read_enumerated: asn1_reader asn1_read_enumerated
  by unfold_locales (auto simp: asn1_read_enumerated_def split: prod.splits
    elim!: reads_tag_rules rd_int_loop.reads_then)

interpretation rd_check_enumerated: asn1_reader "asn1_check_enumerated junk v"
  by unfold_locales (auto simp: asn1_check_enumerated_def Let_def split: prod.splits
    elim!: reads_tag_rules intro!: rd_end.reads_after)

interpretation rd_component: asn1_reader "read_component b v"
proof
  show "reads d (snd (read_component b v d))" for d
  proof (induction b v d rule: read_component.induct)
    case (1 b v d)
    obtain r d1 where r: "asn1_read_uint8 d = (r, d1)" by fastforce
    with rd_read_uint8.reads_result have d1: "reads d d1" by blast
    show ?case
    proof (cases r)
      case (Some c)
      with 1 [OF r [symmetric] Some] r d1 show ?thesis
        by (auto simp: read_component.simps [of b v d] intro: reads_trans)
    qed (use r d1 in \<open>simp add: read_component.simps [of b v d]\<close>)
  qed
qed

interpretation rd_oid_loop: asn1_reader "read_oid_loop b"
proof
  show "reads d (snd (read_oid_loop b d))" for d
  proof (induction b d rule: read_oid_loop.induct)
    case (1 b d)
    then show ?case
      by (subst read_oid_loop.simps) (fastforce split: prod.splits elim: reads_rules
        dest: rd_component.reads_result rd_remaining.reads_result intro: reads_trans)
  qed
qed

interpretation rd_OID: asn1_reader "asn1_read_OID junk"
  by unfold_locales (auto simp: asn1_read_OID_def Let_def split: prod.splits
    elim!: reads_tag_rules rd_oid_loop.reads_then intro!: rd_end.reads_after)

interpretation rd_check_OID: asn1_reader "asn1_check_OID junk oid"
  by unfold_locales (auto simp: asn1_check_OID_def split: prod.splits option.splits elim!: rd_OID.reads_then)

text \<open>The bytes a blob reader returns are the bytes of the buffer just before the new offset.\<close>

lemma read_slice:
  "asn1_read n d = (Some p, d') \<Longrightarrow>
   length p = n \<and> as_ofs d' = as_ofs d + n \<and> as_ofs d' \<le> length (as_data d) \<and>
   as_data d' = as_data d \<and> p = take n (drop (as_ofs d) (as_data d))"
  by (auto simp: asn1_read_def asn1_peek_def split: if_splits)

lemma end_tag_ofs: "asn1_end_tag d = (r, d') \<Longrightarrow> as_ofs d' = as_ofs d \<and> as_data d' = as_data d"
  by (auto simp: asn1_end_tag_def split: prod.splits if_splits list.splits dest!: tag_remaining_frame)

lemma read_blob_slice:
  assumes "read_blob tag d = (Some p, d')"
  shows "length p \<le> as_ofs d' \<and> p = take (length p) (drop (as_ofs d' - length p) (as_data d))"
proof -
  obtain d1 r d2 d3 b where 1: "asn1_start_tag tag d = (True, d1)" "asn1_tag_remaining d1 = (r, d2)"
      "asn1_read (nat r) d2 = (Some p, d3)" "asn1_end_tag d3 = (b, d')"
    using assms by (auto simp: read_blob_def split: prod.splits if_splits)
  have "as_data d1 = as_data d" using 1 rd_start.reads_result [of tag d] by (simp add: reads_def)
  with read_slice [OF 1(3)] tag_remaining_frame [OF 1(2)] end_tag_ofs [OF 1(4)] show ?thesis by auto
qed

text \<open>
  C40. No reader leaves the buffer: whatever the bytes (lengths that are too long, that wrap around or
  that are missing), every reader of \<open>asn1.c\<close> returns, keeps the buffer as it was, moves the offset
  forward and never past the end, and a blob that is returned is exactly the bytes of the buffer
  that precede the new offset.
\<close>

theorem asn1_readers_in_bounds:
  "reads d (snd (asn1_start_tag tag d)) \<and> reads d (snd (asn1_end_tag d)) \<and>
   reads d (snd (asn1_peek_tag tag d)) \<and> reads d (snd (asn1_read_BOOLEAN d)) \<and>
   reads d (snd (asn1_check_BOOLEAN v d)) \<and> reads d (snd (asn1_read_GeneralString d)) \<and>
   reads d (snd (asn1_read_OctetString d)) \<and> reads d (snd (asn1_read_ContextSimple num d)) \<and>
   reads d (snd (asn1_read_Integer d)) \<and> reads d (snd (asn1_read_enumerated d)) \<and>
   reads d (snd (asn1_check_enumerated junk i d)) \<and> reads d (snd (asn1_read_OID junk d)) \<and>
   reads d (snd (asn1_check_OID junk oid d)) \<and>
   (case asn1_read_OctetString d of
      (None, _) \<Rightarrow> True
    | (Some p, d') \<Rightarrow> length p \<le> as_ofs d' \<and> p = take (length p) (drop (as_ofs d' - length p) (as_data d)))"
  by (auto simp: asn1_read_OctetString_def asn1_read_ContextSimple_def rd_start.reads rd_end.reads
      rd_peek_tag.reads rd_read_BOOLEAN.reads rd_check_BOOLEAN.reads rd_GeneralString.reads rd_blob.reads
      rd_read_Integer.reads rd_read_enumerated.reads rd_check_enumerated.reads rd_OID.reads rd_check_OID.reads
      split: prod.splits option.splits dest: read_blob_slice)

section \<open>What is written is read back\<close>

text \<open>
  The abstract encoding: the tag, the length in the shortest of the four forms the writer uses, the
  contents. \<open>appending d\<close>: \<open>d\<close> has no error and its offset is at the end, as while writing.
\<close>

definition length_bytes :: "nat \<Rightarrow> u8 list" where
  "length_bytes n =
     (if 0xFFFF < n then [0x83, of_nat (n div 65536), of_nat (n div 256), of_nat n]
      else if 255 < n then [0x82, of_nat (n div 256), of_nat n]
      else if 127 < n then [0x81, of_nat n] else [of_nat n])"

definition tlv :: "u8 \<Rightarrow> u8 list \<Rightarrow> u8 list" where
  "tlv tag p = tag # length_bytes (length p) @ p"

definition appending :: "asn1_data \<Rightarrow> bool" where
  "appending d \<longleftrightarrow> \<not> has_error d \<and> as_ofs d = length (as_data d)"

definition appended :: "u8 list \<Rightarrow> asn1_data \<Rightarrow> asn1_data" where
  "appended p d = d\<lparr>as_data := as_data d @ p, as_ofs := as_ofs d + length p\<rparr>"

lemma appended_simps [simp]:
  "as_data (appended p d) = as_data d @ p" "as_nesting (appended p d) = as_nesting d"
  "as_ofs (appended p d) = as_ofs d + length p" "has_error (appended p d) = has_error d"
  "appending (appended p d) = appending d" "appended q (appended p d) = appended (p @ q) d"
  by (auto simp: appended_def appending_def)

lemma write_appending: "appending d \<Longrightarrow> asn1_write p d = (True, appended p d)"
  by (simp add: asn1_write_def appending_def appended_def)

lemma write_uint8_appending: "appending d \<Longrightarrow> asn1_write_uint8 b d = (True, appended [b] d)"
  by (simp add: asn1_write_uint8_def write_appending)

lemma grow_appending: "appending d \<Longrightarrow> asn1_grow n d = (True, appended (replicate n 0) d)"
proof (induction n arbitrary: d)
  case 0
  then show ?case by (simp add: appended_def)
next
  case (Suc n)
  then show ?case by (simp add: write_uint8_appending)
qed

definition opened :: "u8 \<Rightarrow> asn1_data \<Rightarrow> asn1_data" where
  "opened tag d =
     (appended [tag, 0xff] d)\<lparr>as_nesting := \<lparr>ns_start = as_ofs d + 1, ns_taglen = 0\<rparr> # as_nesting d\<rparr>"

lemma appending_opened [simp]: "appending (opened tag d) = appending d"
  by (auto simp: appending_def opened_def)

lemma push_appending: "appending d \<Longrightarrow> asn1_push_tag tag d = (True, opened tag d)"
  by (simp add: asn1_push_tag_def write_uint8_appending opened_def)
    (simp add: asn1_write_uint8_def asn1_write_def appending_def appended_def)

text \<open>The contents moved up by three, two or one bytes, and the bytes of the length written.\<close>

lemma memmove_shift:
  assumes "length ys = k" "k \<le> length p" "j = length xs + 1 + k" "i = length xs + 1" "m = length p"
  shows "memmove j i m (xs @ y # p @ ys) = xs @ y # take k p @ p"
  using assms by (simp add: memmove_def)

lemma take_parts:
  "3 \<le> length p \<Longrightarrow> \<exists>a b c. take 3 p = [a, b, c]" "2 \<le> length p \<Longrightarrow> \<exists>a b. take 2 p = [a, b]"
  "1 \<le> length p \<Longrightarrow> \<exists>a. take 1 p = [a]"
  by (auto simp: numeral_eq_Suc Suc_le_length_iff)

lemma pop_appending:
  assumes "appending d" "as_data d = pre @ x # p" "as_nesting d = n # ns" "ns_start n = length pre"
  shows "asn1_pop_tag d =
    (True, d\<lparr>as_data := pre @ length_bytes (length p) @ p,
             as_ofs := length pre + length (length_bytes (length p)) + length p, as_nesting := ns\<rparr>)"
proof -
  have ofs: "as_ofs d = Suc (length pre + length p)" and err: "\<not> has_error d"
    using assms(1,2) by (auto simp: appending_def)
  have grow: "asn1_grow k (d\<lparr>as_data := pre @ z # p\<rparr>)
      = (True, appended (replicate k 0) (d\<lparr>as_data := pre @ z # p\<rparr>))" for z k
    using ofs err by (intro grow_appending) (simp add: appending_def)
  have len: "size_diff (Suc (length pre + length p)) (Suc (length pre)) = length p" by (simp add: size_diff_def)
  note defs = asn1_pop_tag_def assms len grow Let_def length_bytes_def
  consider "0xFFFF < length p" | "\<not> 0xFFFF < length p" "255 < length p"
    | "\<not> 0xFFFF < length p" "\<not> 255 < length p" "127 < length p" | "length p \<le> 127" by linarith
  then show ?thesis
  proof cases
    case 1
    then obtain a b c where "take 3 p = [a, b, c]" using take_parts(1) [of p] by auto
    then have "memmove (length pre + 4) (length pre + 1) (length p) (pre @ y # p @ replicate 3 0)
        = pre @ y # a # b # c # p" for y
      using 1 memmove_shift [of "replicate 3 0" 3 p "length pre + 4" pre "length pre + 1"] by simp
    with 1 show ?thesis by (auto simp: defs ofs list_update_append appended_def intro!: asn1_data.equality)
  next
    case 2
    then obtain a b where "take 2 p = [a, b]" using take_parts(2) [of p] by auto
    then have "memmove (length pre + 3) (length pre + 1) (length p) (pre @ y # p @ replicate 2 0)
        = pre @ y # a # b # p" for y
      using 2 memmove_shift [of "replicate 2 0" 2 p "length pre + 3" pre "length pre + 1"] by simp
    with 2 show ?thesis by (auto simp: defs ofs list_update_append appended_def intro!: asn1_data.equality)
  next
    case 3
    then obtain a where "take 1 p = [a]" using take_parts(3) [of p] by auto
    then have "memmove (length pre + 2) (length pre + 1) (length p) (pre @ y # p @ replicate 1 0)
        = pre @ y # a # p" for y
      using 3 memmove_shift [of "replicate 1 0" 1 p "length pre + 2" pre "length pre + 1"] by simp
    with 3 show ?thesis by (auto simp: defs ofs list_update_append appended_def intro!: asn1_data.equality)
  next
    case 4
    then show ?thesis by (auto simp: defs ofs intro!: asn1_data.equality)
  qed
qed

lemma pop_opened:
  assumes "appending d"
  shows "asn1_pop_tag (appended p (opened tag d)) = (True, appended (tlv tag p) d)"
  using assms by (subst pop_appending [where pre = "as_data d @ [tag]" and x = 255 and p = p])
    (auto simp: opened_def appending_def tlv_def intro!: asn1_data.equality)

lemma framed_appending: "appending d \<Longrightarrow> asn1_framed tag p d = (True, appended (tlv tag p) d)"
  by (simp add: asn1_framed_def push_appending write_appending pop_opened) (simp add: appending_def)

text \<open>The reader at the start of a tag of length \<open>n\<close>, with at least \<open>n\<close> bytes after the length.\<close>

definition entered :: "nat \<Rightarrow> nat \<Rightarrow> asn1_data \<Rightarrow> asn1_data" where
  "entered n k d = d\<lparr>as_ofs := as_ofs d + k,
     as_nesting := \<lparr>ns_start = as_ofs d + k, ns_taglen = of_nat n\<rparr> # as_nesting d\<rparr>"

lemma tag_remaining_exact:
  assumes "\<not> has_error d" "as_nesting d = n # ns" "ns_taglen n = of_nat (m + r)" "as_ofs d = ns_start n + m"
    "as_ofs d + r \<le> length (as_data d)" "length (as_data d) < 2 ^ 63" "r < 2 ^ 31"
  shows "asn1_tag_remaining d = (int r, d)"
proof -
  have 1: "ns_taglen n - (of_nat (as_ofs d) - of_nat (ns_start n)) = of_nat r"
    by (simp add: assms(3,4))
  have 2: "sint (of_nat r :: u32) = int r"
    using assms(7) by (simp add: signed_of_nat signed_take_bit_int_eq_self)
  have 3: "of_nat (length (as_data d)) - of_nat (as_ofs d) = (of_nat (length (as_data d) - as_ofs d) :: u64)"
    using assms(5) by (simp add: of_nat_diff)
  have "\<not> (of_nat k :: u64) < of_nat r" if "r \<le> k" "k < 2 ^ 63" for k
    using that assms(7) by (simp add: word_less_nat_alt unat_of_nat)
  then have 4: "\<not> (of_nat (length (as_data d) - as_ofs d) :: u64) < of_nat r"
    using assms(5,6) by (metis Nat.add_diff_assoc2 add_leD1 add_le_imp_le_diff diff_le_self add.commute le_less_trans)
  have 5: "(ucast (of_nat r :: u64) :: u32) = of_nat r" "(scast (of_nat r :: u32) :: u64) = of_nat r"
    using assms(7) by (simp_all add: unsigned_of_nat signed_of_nat take_bit_nat_eq_self signed_take_bit_int_eq_self)
  show ?thesis unfolding asn1_tag_remaining_def Let_def assms(2) list.case 1 3 5 using assms(1) 2 4 by simp
qed

lemma read_uint8_at:
  "as_data d = pre @ b # r \<Longrightarrow> as_ofs d = length pre \<Longrightarrow>
   asn1_read_uint8 d = (Some b, d\<lparr>as_ofs := Suc (as_ofs d)\<rparr>)"
  by (simp add: asn1_read_uint8_def asn1_read_def asn1_peek_def)

text \<open>A length of two or three bytes is the number that was split.\<close>

lemma join_bytes: "push_bit 8 (of_nat a :: u64) OR ucast (of_nat b :: u8) = of_nat (a * 256 + b mod 256)"
proof -
  have "push_bit 8 a AND take_bit 8 b = 0" by (rule bit_eqI) (auto simp: bit_simps)
  then have "a * 256 + b mod 256 = push_bit 8 a OR take_bit 8 b"
    using disjunctive_add_eq_or [of "push_bit 8 a" "take_bit 8 b"] by (simp add: push_bit_eq_mult take_bit_eq_mod)
  moreover have "push_bit 8 (of_nat a :: u64) OR ucast (of_nat b :: u8) = of_nat (push_bit 8 a OR take_bit 8 b)"
    by (rule bit_word_eqI) (auto simp: bit_simps)
  ultimately show ?thesis by simp
qed

lemma length_value:
  "127 < n \<Longrightarrow> n \<le> 255 \<Longrightarrow> ucast (of_nat n :: u8) = (of_nat n :: u64)"
  "n < 2 ^ 16 \<Longrightarrow> push_bit 8 (ucast (of_nat (n div 256) :: u8) :: u64) OR ucast (of_nat n :: u8) = of_nat n"
  "n < 2 ^ 24 \<Longrightarrow> push_bit 8 (push_bit 8 (ucast (of_nat (n div 65536) :: u8) :: u64) OR ucast (of_nat (n div 256) :: u8))
     OR ucast (of_nat n :: u8) = of_nat n"
proof -
  have u: "ucast (of_nat m :: u8) = (of_nat m :: u64)" if "m < 256" for m
    using that by (simp add: unsigned_of_nat take_bit_nat_eq_self)
  show "127 < n \<Longrightarrow> n \<le> 255 \<Longrightarrow> ucast (of_nat n :: u8) = (of_nat n :: u64)" by (rule u) simp
  show "n < 2 ^ 16 \<Longrightarrow> push_bit 8 (ucast (of_nat (n div 256) :: u8) :: u64) OR ucast (of_nat n :: u8) = of_nat n"
    by (subst u) (simp_all add: join_bytes div_mult_mod_eq)
  have "n div 65536 * 256 + (n div 256) mod 256 = n div 256"
    using div_mult_mod_eq [of "n div 256" 256] by (simp add: div_mult2_eq [symmetric])
  then show "n < 2 ^ 24 \<Longrightarrow>
     push_bit 8 (push_bit 8 (ucast (of_nat (n div 65536) :: u8) :: u64) OR ucast (of_nat (n div 256) :: u8))
     OR ucast (of_nat n :: u8) = of_nat n"
    by (subst u) (simp_all add: join_bytes div_mult_mod_eq)
qed

lemma of_nat_and_128: "n < 128 \<Longrightarrow> (of_nat n :: u8) AND 0x80 = 0"
proof -
  assume "n < 128"
  then have "\<not> bit n 7" by (simp add: bit_nat_iff bit_iff_odd)
  moreover have "bit (0x80 :: u8) k \<Longrightarrow> k = 7" for k
    using bit_push_bit_iff [of 7 "1 :: u8" k] by (simp add: push_bit_eq_mult bit_1_iff)
  ultimately show ?thesis by (auto simp: word_and_mask_eq_0_iff_bits bit_simps)
qed

lemma enter_tag_exact:
  assumes "\<not> has_error d" "as_ofs d + n \<le> length (as_data d)" "length (as_data d) < 2 ^ 63" "n < 2 ^ 24"
  shows "enter_tag (of_nat n) d = (True, entered n 0 d)"
  using assms by (simp add: enter_tag_def entered_def
      tag_remaining_exact [where m = 0 and r = n and ns = "as_nesting d"
        and n = "\<lparr>ns_start = as_ofs d, ns_taglen = of_nat n\<rparr>"])

definition join_length :: "u64 \<Rightarrow> u8 list \<Rightarrow> u64" where
  "join_length = foldl (\<lambda>t b. push_bit 8 t OR ucast b)"

lemma read_taglen_at:
  "as_data d = pre @ bs @ r \<Longrightarrow> as_ofs d = length pre \<Longrightarrow>
   read_taglen (length bs) t d = (Some (join_length t bs), d\<lparr>as_ofs := length pre + length bs\<rparr>)"
proof (induction bs arbitrary: pre t d)
  case Nil
  then have "d\<lparr>as_ofs := length pre\<rparr> = d" by (simp add: asn1_data.equality)
  then show ?case by (simp add: join_length_def)
next
  case (Cons b bs)
  have "asn1_read_uint8 d = (Some b, d\<lparr>as_ofs := Suc (as_ofs d)\<rparr>)"
    using Cons.prems by (intro read_uint8_at) simp_all
  with Cons.prems Cons.IH [of "d\<lparr>as_ofs := Suc (as_ofs d)\<rparr>" "pre @ [b]"] show ?case
    by (simp add: join_length_def)
qed

lemma start_tag_short:
  assumes "as_data d = pre @ tag # h # r" "as_ofs d = length pre" "h AND 0x80 = 0"
  shows "asn1_start_tag tag d = enter_tag (ucast h) (d\<lparr>as_ofs := Suc (Suc (length pre))\<rparr>)"
  using assms read_uint8_at [of d pre tag "h # r"] read_uint8_at [of "d\<lparr>as_ofs := Suc (length pre)\<rparr>" "pre @ [tag]" h r]
  by (simp add: asn1_start_tag_def)

lemma start_tag_long:
  assumes "as_data d = pre @ tag # h # c # bs @ r" "as_ofs d = length pre" "h AND 0x80 \<noteq> 0"
    "unat (h AND 0x7f) - 1 = length bs"
  shows "asn1_start_tag tag d
    = enter_tag (join_length (ucast c) bs) (d\<lparr>as_ofs := Suc (Suc (Suc (length pre + length bs)))\<rparr>)"
  using assms read_uint8_at [of d pre tag "h # c # bs @ r"]
    read_uint8_at [of "d\<lparr>as_ofs := Suc (length pre)\<rparr>" "pre @ [tag]" h "c # bs @ r"]
    read_uint8_at [of "d\<lparr>as_ofs := Suc (Suc (length pre))\<rparr>" "pre @ [tag, h]" c "bs @ r"]
    read_taglen_at [of "d\<lparr>as_ofs := Suc (Suc (Suc (length pre)))\<rparr>" "pre @ [tag, h, c]" bs r "ucast c"]
  by (simp add: asn1_start_tag_def)

lemma length_bytes_forms:
  assumes "n < 2 ^ 24"
  shows "(\<exists>h. length_bytes n = [h] \<and> h AND 0x80 = 0 \<and> ucast h = (of_nat n :: u64)) \<or>
    (\<exists>h c bs. length_bytes n = h # c # bs \<and> h AND 0x80 \<noteq> 0 \<and> unat (h AND 0x7f) - 1 = length bs \<and>
       join_length (ucast c) bs = of_nat n)"
proof -
  have 0: "join_length t [] = t" "join_length t (b # bs) = join_length (push_bit 8 t OR ucast b) bs" for t b bs
    by (simp_all add: join_length_def)
  consider "0xFFFF < n" | "\<not> 0xFFFF < n" "255 < n" | "\<not> 0xFFFF < n" "\<not> 255 < n" "127 < n" | "n \<le> 127" by linarith
  then show ?thesis
  proof cases
    case 1
    then have "length_bytes n = [0x83, of_nat (n div 65536), of_nat (n div 256), of_nat n]" by (simp add: length_bytes_def)
    moreover have "join_length (ucast (of_nat (n div 65536) :: u8)) [of_nat (n div 256), of_nat n] = of_nat n"
      unfolding 0 by (rule length_value(3) [OF assms])
    ultimately show ?thesis by simp
  next
    case 2
    then have "length_bytes n = [0x82, of_nat (n div 256), of_nat n]" by (simp add: length_bytes_def)
    moreover have "join_length (ucast (of_nat (n div 256) :: u8)) [of_nat n] = of_nat n"
      unfolding 0 by (rule length_value(2)) (use 2 in simp)
    ultimately show ?thesis by simp
  next
    case 3
    then show ?thesis using length_value(1) [of n] by (simp add: length_bytes_def 0)
  next
    case 4
    then show ?thesis by (simp add: length_bytes_def of_nat_and_128 unsigned_of_nat take_bit_nat_eq_self)
  qed
qed

lemma start_tag_at:
  assumes "as_data d = pre @ tag # length_bytes n @ r" "as_ofs d = length pre" "\<not> has_error d"
    "n \<le> length r" "n < 2 ^ 24" "length (as_data d) < 2 ^ 63"
  shows "asn1_start_tag tag d = (True, entered n (1 + length (length_bytes n)) d)"
proof -
  have en: "enter_tag (of_nat n) (d\<lparr>as_ofs := length pre + 1 + length (length_bytes n)\<rparr>)
      = (True, entered n (1 + length (length_bytes n)) d)"
    using assms by (subst enter_tag_exact) (auto simp: entered_def)
  from length_bytes_forms [OF assms(5)] show ?thesis
  proof (elim disjE exE conjE)
    fix h assume "length_bytes n = [h]" "h AND 0x80 = 0" "ucast h = (of_nat n :: u64)"
    with assms(1,2) en start_tag_short [of d pre tag h r] show ?thesis by simp
  next
    fix h c bs assume "length_bytes n = h # c # bs" "h AND 0x80 \<noteq> 0" "unat (h AND 0x7f) - 1 = length bs"
      "join_length (ucast c) bs = of_nat n"
    with assms(1,2) en start_tag_long [of d pre tag h c bs r] show ?thesis by simp
  qed
qed

text \<open>Inside a tag: \<open>m\<close> of its \<open>m + k\<close> bytes have been read.\<close>

definition inside :: "nat \<Rightarrow> nat \<Rightarrow> nat \<Rightarrow> asn1_data \<Rightarrow> asn1_data" where
  "inside n h m d = (entered n h d)\<lparr>as_ofs := as_ofs d + h + m\<rparr>"

lemma inside_simps [simp]:
  "as_data (inside n h m d) = as_data d" "as_ofs (inside n h m d) = as_ofs d + h + m"
  "has_error (inside n h m d) = has_error d"
  "as_nesting (inside n h m d) = \<lparr>ns_start = as_ofs d + h, ns_taglen = of_nat n\<rparr> # as_nesting d"
  by (simp_all add: inside_def entered_def)

lemma inside_0: "entered n h d = inside n h 0 d"
  by (simp add: inside_def entered_def)

lemma inside_ofs: "x = as_ofs d + h + k \<Longrightarrow> (inside n h m d)\<lparr>as_ofs := x\<rparr> = inside n h k d"
  by (simp add: inside_def entered_def)

text \<open>
  A tag with contents \<open>p\<close> is at the offset; \<open>hdr p\<close> is the length of what precedes the contents.
\<close>

definition tlv_at :: "u8 \<Rightarrow> u8 list \<Rightarrow> asn1_data \<Rightarrow> bool" where
  "tlv_at tag p d \<longleftrightarrow> (\<exists>pre r. as_data d = pre @ tlv tag p @ r \<and> as_ofs d = length pre) \<and>
     \<not> has_error d \<and> length p < 2 ^ 24 \<and> length (as_data d) < 2 ^ 63"

definition hdr :: "u8 list \<Rightarrow> nat" where
  "hdr p = 1 + length (length_bytes (length p))"

lemma tlv_at_start: "tlv_at tag p d \<Longrightarrow> asn1_start_tag tag d = (True, inside (length p) (hdr p) 0 d)"
  unfolding tlv_at_def tlv_def by (elim conjE exE, subst start_tag_at) (auto simp: inside_0 hdr_def)

lemma tlv_at_contents: "tlv_at tag p d \<Longrightarrow> take (length p) (drop (as_ofs d + hdr p) (as_data d)) = p"
  by (auto simp: tlv_at_def tlv_def hdr_def)

lemma tlv_at_length: "tlv_at tag p d \<Longrightarrow> as_ofs d + hdr p + length p \<le> length (as_data d)"
  by (auto simp: tlv_at_def tlv_def hdr_def)

lemma tlv_at_byte:
  "tlv_at tag p d \<Longrightarrow> m < length p \<Longrightarrow> as_data d ! (as_ofs d + hdr p + m) = p ! m"
  by (auto simp: tlv_at_def tlv_def hdr_def nth_append)

lemma remaining_inside:
  "tlv_at tag p d \<Longrightarrow> m \<le> length p \<Longrightarrow>
   asn1_tag_remaining (inside (length p) (hdr p) m d) = (int (length p - m), inside (length p) (hdr p) m d)"
  using tlv_at_length [of tag p d]
  by (intro tag_remaining_exact [where m = m]) (auto simp: tlv_at_def)

lemma end_inside:
  "tlv_at tag p d \<Longrightarrow>
   asn1_end_tag (inside (length p) (hdr p) (length p) d) = (True, d\<lparr>as_ofs := as_ofs d + hdr p + length p\<rparr>)"
  using remaining_inside [of tag p d "length p"] by (simp add: asn1_end_tag_def inside_def entered_def)

lemma read_inside:
  "tlv_at tag p d \<Longrightarrow>
   asn1_read (length p) (inside (length p) (hdr p) 0 d) = (Some p, inside (length p) (hdr p) (length p) d)"
  using tlv_at_length [of tag p d] tlv_at_contents [of tag p d] 
  by (simp add: asn1_read_def asn1_peek_def inside_ofs)

lemma read_uint8_inside:
  "tlv_at tag p d \<Longrightarrow> m < length p \<Longrightarrow>
   asn1_read_uint8 (inside (length p) (hdr p) m d) = (Some (p ! m), inside (length p) (hdr p) (Suc m) d)"
  using tlv_at_length [of tag p d] tlv_at_byte [of tag p d m]
  by (simp add: asn1_read_uint8_def asn1_read_def asn1_peek_def take_Suc hd_drop_conv_nth inside_ofs)

lemmas inside_rules = tlv_at_start remaining_inside end_inside read_inside read_uint8_inside

lemma read_blob_at:
  "tlv_at tag p d \<Longrightarrow> read_blob tag d = (Some p, d\<lparr>as_ofs := as_ofs d + hdr p + length p\<rparr>)"
  by (simp add: read_blob_def inside_rules [of tag p d]) (simp add: tlv_at_def)

lemma read_LDAPString_inside:
  "tlv_at tag p d \<Longrightarrow>
   asn1_read_LDAPString (inside (length p) (hdr p) 0 d) = (Some p, inside (length p) (hdr p) (length p) d)"
  by (simp add: asn1_read_LDAPString_def inside_rules [of tag p d]) (simp add: tlv_at_def)

text \<open>The structure read back: the bytes written, and more after them, from where writing started.\<close>

definition reread :: "u8 list \<Rightarrow> asn1_data \<Rightarrow> asn1_data \<Rightarrow> asn1_data" where
  "reread r d d' = d'\<lparr>as_data := as_data d' @ r, as_ofs := as_ofs d\<rparr>"

lemma tlv_at_reread:
  "appending d \<Longrightarrow> length p < 2 ^ 24 \<Longrightarrow> length (as_data d) + length p + length r + 5 < 2 ^ 63 \<Longrightarrow>
   tlv_at tag p (reread r d (appended (tlv tag p) d))"
proof -
  assume a: "appending d" "length p < 2 ^ 24" "length (as_data d) + length p + length r + 5 < 2 ^ 63"
  have "length (length_bytes (length p)) \<le> 4" by (simp add: length_bytes_def)
  with a show ?thesis by (auto simp: tlv_at_def reread_def appending_def tlv_def)
qed

lemma reread_end:
  "(reread r d (appended (tlv tag p) d))\<lparr>as_ofs := as_ofs (reread r d (appended (tlv tag p) d)) + hdr p + length p\<rparr>
   = (appended (tlv tag p) d)\<lparr>as_data := as_data d @ tlv tag p @ r\<rparr>"
  by (simp add: reread_def appended_def tlv_def hdr_def)

lemma framed_reread:
  assumes "appending d" "length p < 2 ^ 24" "length (as_data d) + length p + length r + 5 < 2 ^ 63"
    "\<And>x. tlv_at tag p x \<Longrightarrow> rd x = (v, x\<lparr>as_ofs := as_ofs x + hdr p + length p\<rparr>)"
  shows "case asn1_framed tag p d of (ok, d') \<Rightarrow> ok \<and> rd (reread r d d') = (v, d'\<lparr>as_data := as_data d' @ r\<rparr>)"
  using assms(4) [OF tlv_at_reread [OF assms(1-3)]]
  by (simp add: framed_appending [OF assms(1)] reread_end)

lemma read_GeneralString_at:
  "tlv_at ASN1_GENERAL_STRING p d \<Longrightarrow>
   asn1_read_GeneralString d = (Some p, d\<lparr>as_ofs := as_ofs d + hdr p + length p\<rparr>)"
  by (simp add: asn1_read_GeneralString_def inside_rules [where p = p] read_LDAPString_inside [where p = p])

lemma read_BOOLEAN_at:
  "tlv_at ASN1_BOOLEAN [b] d \<Longrightarrow>
   asn1_read_BOOLEAN d = ((True, b = 0xFF), d\<lparr>as_ofs := as_ofs d + hdr [b] + length [b]\<rparr>)"
  using inside_rules [where p = "[b]" and tag = ASN1_BOOLEAN and d = d]
    read_uint8_inside [where p = "[b]" and tag = ASN1_BOOLEAN and d = d and m = 0]
  by (simp add: asn1_read_BOOLEAN_def read_into_def) (simp add: tlv_at_def)

text \<open>
  What is written is read back: an octet string, a context-specific blob, a general string
  and a boolean of fewer than 2^24 bytes are written without error at the end of a buffer, and
  reading at the place where writing started returns the same value, consumes exactly what was
  written, leaves the open tags as they were and whatever follows untouched. The length takes one,
  two, three or four bytes.
\<close>

theorem asn1_string_roundtrip:
  assumes "appending d" "length p < 2 ^ 24" "length (as_data d) + length p + length r + 6 < 2 ^ 63" "bytes_of s = p"
  shows "(case asn1_write_OctetString p d of (ok, d') \<Rightarrow>
       ok \<and> asn1_read_OctetString (reread r d d') = (Some p, d'\<lparr>as_data := as_data d' @ r\<rparr>))
    \<and> (case asn1_write_ContextSimple num p d of (ok, d') \<Rightarrow>
       ok \<and> asn1_read_ContextSimple num (reread r d d') = (Some p, d'\<lparr>as_data := as_data d' @ r\<rparr>))
    \<and> (case asn1_write_GeneralString s d of (ok, d') \<Rightarrow>
       ok \<and> asn1_read_GeneralString (reread r d d') = (Some p, d'\<lparr>as_data := as_data d' @ r\<rparr>))
    \<and> (case asn1_write_BOOLEAN v d of (ok, d') \<Rightarrow>
       ok \<and> asn1_read_BOOLEAN (reread r d d') = ((True, v), d'\<lparr>as_data := as_data d' @ r\<rparr>))"
proof (intro conjI)
  note rt = framed_reread [OF assms(1)]
  show "case asn1_write_OctetString p d of (ok, d') \<Rightarrow>
      ok \<and> asn1_read_OctetString (reread r d d') = (Some p, d'\<lparr>as_data := as_data d' @ r\<rparr>)"
    unfolding asn1_write_OctetString_def asn1_read_OctetString_def
    by (rule rt) (use assms in \<open>simp_all add: read_blob_at\<close>)
  show "case asn1_write_ContextSimple num p d of (ok, d') \<Rightarrow>
      ok \<and> asn1_read_ContextSimple num (reread r d d') = (Some p, d'\<lparr>as_data := as_data d' @ r\<rparr>)"
    unfolding asn1_write_ContextSimple_def asn1_read_ContextSimple_def
    by (rule rt) (use assms in \<open>simp_all add: read_blob_at\<close>)
  show "case asn1_write_GeneralString s d of (ok, d') \<Rightarrow>
      ok \<and> asn1_read_GeneralString (reread r d d') = (Some p, d'\<lparr>as_data := as_data d' @ r\<rparr>)"
    unfolding asn1_write_GeneralString_def assms(4)
    by (rule rt) (use assms in \<open>simp_all add: read_GeneralString_at\<close>)
  show "case asn1_write_BOOLEAN v d of (ok, d') \<Rightarrow>
      ok \<and> asn1_read_BOOLEAN (reread r d d') = ((True, v), d'\<lparr>as_data := as_data d' @ r\<rparr>)"
    unfolding asn1_write_BOOLEAN_def
    by (rule rt) (use assms in \<open>auto simp: read_BOOLEAN_at\<close>)
qed

theorem asn1_string_roundtrip_witness:
  "case asn1_write_OctetString (replicate 200 7) asn1_empty of (ok, d') \<Rightarrow>
     ok \<and> asn1_read_OctetString (reread [1, 2] asn1_empty d') = (Some (replicate 200 7), d'\<lparr>as_data := as_data d' @ [1, 2]\<rparr>)"
  using asn1_string_roundtrip [of asn1_empty "replicate 200 7" "[1, 2]" "replicate 200 (CHR 0x07)"]
  by (simp add: asn1_empty_def appending_def bytes_of_def)

section \<open>Integers read back\<close>

text \<open>
  The bytes \<open>push_int_bigendian\<close> adds: \<open>int_step\<close> is what it does with one byte, \<open>int_out\<close> the
  bytes in the tag after all of them, \<open>int_value\<close> what the reader makes of them.
\<close>

definition int_step :: "bool \<Rightarrow> u8 list \<Rightarrow> u8 \<Rightarrow> u8 list" where
  "int_step negative w b =
     (if w \<noteq> [] then w @ [b]
      else if negative then (if b = 0xFF then [] else if b AND 0x80 = 0 then [0xFF, b] else [b])
      else if b AND 0x80 \<noteq> 0 then [0, b] else [b])"

function int_out :: "u32 \<Rightarrow> bool \<Rightarrow> u8 list" where
  "int_out i negative =
     int_step negative (if drop_bit 8 i \<noteq> 0 then int_out (drop_bit 8 i) negative else []) (ucast i)"
  by pat_completeness auto
termination
proof (relation "measure (\<lambda>(i, _). unat i)", goal_cases)
  case (2 i negative)
  have "unat (drop_bit 8 i) = unat i div 256" by (simp add: unat_drop_bit_eq) (simp add: drop_bit_eq_div)
  moreover have "i \<noteq> 0" using 2 by auto
  then have "0 < unat i" by (simp add: unat_gt_0)
  ultimately show ?case by simp
qed simp

declare int_out.simps [simp del]

lemma push_int_opened:
  "appending d \<Longrightarrow>
   push_int_bigendian i negative (appended [] (opened tag d)) = Some (True, appended (int_out i negative) (opened tag d))"
proof (induction i negative rule: int_out.induct)
  case (1 i negative)
  define w where "w = (if drop_bit 8 i \<noteq> 0 then int_out (drop_bit 8 i) negative else [])"
  have rec: "(if drop_bit 8 i \<noteq> 0 then push_int_bigendian (drop_bit 8 i) negative (appended [] (opened tag d))
      else Some (True, appended [] (opened tag d))) = Some (True, appended w (opened tag d))"
    using 1 by (simp add: w_def)
  have st: "as_nesting (appended w (opened tag d)) = \<lparr>ns_start = as_ofs d + 1, ns_taglen = 0\<rparr> # as_nesting d"
      "(ns_start \<lparr>ns_start = as_ofs d + 1, ns_taglen = 0\<rparr> + 1 = as_ofs (appended w (opened tag d))) = (w = [])"
    by (auto simp: opened_def)
  have out: "int_out i negative = int_step negative w (ucast i)" by (simp add: int_out.simps [of i] w_def)
  have wr: "asn1_write_uint8 b (appended v (opened tag d)) = (True, appended (v @ [b]) (opened tag d))" for b v
    using 1(2) by (simp add: write_uint8_appending)
  show ?case
    unfolding push_int_bigendian.simps [of i] Let_def rec option.case prod.case bool.case st list.case out int_step_def
    by (cases w) (simp_all add: wr)
qed

definition int_value :: "u8 list \<Rightarrow> int" where
  "int_value = foldl (\<lambda>a b. a * 256 + uint b) 0"

lemma int_value_simps [simp]: "int_value [] = 0" "int_value (bs @ [b]) = int_value bs * 256 + uint b"
  by (simp_all add: int_value_def)

lemma uint_split: "uint (i :: u32) = uint (drop_bit 8 i) * 256 + uint (ucast i :: u8)"
proof -
  have "unat (drop_bit 8 i) = unat i div 256" by (simp add: unat_drop_bit_eq) (simp add: drop_bit_eq_div)
  then have "int (unat (drop_bit 8 i)) = int (unat i) div 256" by (simp only: of_nat_div of_nat_numeral)
  then have "uint (drop_bit 8 i) = uint i div 256" by simp
  moreover have "uint (ucast i :: u8) = uint i mod 256" by (simp add: unsigned_ucast_eq take_bit_eq_mod)
  ultimately show ?thesis by simp
qed

lemma int_value_positive: "int_out i False \<noteq> [] \<and> int_value (int_out i False) = uint i"
proof (induction i False rule: int_out.induct)
  case (1 i)
  have v: "int_value [b] = uint b" "int_value [a, b] = uint a * 256 + uint b" for a b :: u8
    by (simp_all add: int_value_def)
  show ?case using 1 uint_split [of i]
    by (cases "drop_bit 8 i = 0") (auto simp: int_out.simps [of i] int_step_def v)
qed

text \<open>The four bytes of a negative number, in integers.\<close>

lemma and_128: "(b :: u8) AND 0x80 = 0 \<longleftrightarrow> uint b < 128"
proof -
  have "push_bit 7 1 = (0x80 :: u8)" by simp
  then have "b AND 0x80 = 0 \<longleftrightarrow> \<not> bit b 7" using bit_iff_and_push_bit_not_eq_0 [of b 7] by simp
  also have "\<dots> \<longleftrightarrow> \<not> bit (uint b) 7" by (simp add: bit_uint_iff)
  also have "\<dots> \<longleftrightarrow> uint b div 128 mod 2 = 0" by (simp add: bit_iff_odd even_iff_mod_2_eq_zero)
  also have "\<dots> \<longleftrightarrow> uint b < 128"
  proof -
    have "0 \<le> uint b" "uint b < 256" using uint_bounded [of b] by simp_all
    then show ?thesis by presburger
  qed
  finally show ?thesis .
qed

lemma uint_255: "(b :: u8) = 0xFF \<longleftrightarrow> uint b = 255"
  by (simp add: word_uint_eq_iff)

lemma int_out_negative:
  assumes "drop_bit 8 i \<noteq> 0" "drop_bit 8 (drop_bit 8 i) \<noteq> 0" "drop_bit 8 (drop_bit 8 (drop_bit 8 i)) \<noteq> 0"
  shows "int_out i True = foldl (int_step True) []
    [ucast (drop_bit 8 (drop_bit 8 (drop_bit 8 i))), ucast (drop_bit 8 (drop_bit 8 i)), ucast (drop_bit 8 i), ucast i]"
proof -
  have z: "drop_bit 8 (drop_bit 8 (drop_bit 8 (drop_bit 8 i))) = 0" by (rule bit_word_eqI) (simp add: bit_simps)
  show ?thesis
    by (simp only: int_out.simps [of i] int_out.simps [of "drop_bit 8 i"] int_out.simps [of "drop_bit 8 (drop_bit 8 i)"]
        int_out.simps [of "drop_bit 8 (drop_bit 8 (drop_bit 8 i))"] z assms foldl_Cons foldl_Nil simp_thms if_True if_False)
qed

lemma int_value_steps:
  fixes e d c b :: u8
  assumes "128 \<le> uint e" "\<not> (uint e = 255 \<and> uint d = 255 \<and> uint c = 255 \<and> uint b = 255)"
  defines "v \<equiv> ((uint e * 256 + uint d) * 256 + uint c) * 256 + uint b - 2 ^ 32"
  shows "int_value (foldl (int_step True) [] [e, d, c, b]) =
    (if -128 \<le> v then v + 2 ^ 8 else if - (2 ^ 15) \<le> v then v + 2 ^ 16
     else if - (2 ^ 23) \<le> v then v + 2 ^ 24 else v + 2 ^ 32)"
proof -
  have vals: "int_value [x] = uint x" "int_value [x, y] = uint x * 256 + uint y"
      "int_value [x, y, z] = (uint x * 256 + uint y) * 256 + uint z"
      "int_value [x, y, z, w] = ((uint x * 256 + uint y) * 256 + uint z) * 256 + uint w" for x y z w :: u8
    by (simp_all add: int_value_def)
  have b: "0 \<le> uint e" "uint e < 256" "0 \<le> uint d" "uint d < 256" "0 \<le> uint c" "uint c < 256" "0 \<le> uint b" "uint b < 256"
    using uint_bounded [of e] uint_bounded [of d] uint_bounded [of c] uint_bounded [of b] by simp_all
  consider "uint e \<noteq> 255" | "uint e = 255" "uint d < 128" | "uint e = 255" "128 \<le> uint d" "uint d \<noteq> 255"
    | "uint e = 255" "uint d = 255" "uint c < 128" | "uint e = 255" "uint d = 255" "128 \<le> uint c" "uint c \<noteq> 255"
    | "uint e = 255" "uint d = 255" "uint c = 255" "uint b < 128" | "uint e = 255" "uint d = 255" "uint c = 255" "128 \<le> uint b"
    by linarith
  then show ?thesis using assms(1,2) b unfolding v_def
    by cases (simp_all add: int_step_def and_128 uint_255 vals, insert uint_ge_0 [of b] uint_ge_0 [of c], linarith+)
qed

lemma int_value_negative:
  assumes "- (2 ^ 31) \<le> i" "i < -1"
  shows "int_value (int_out (word_of_int i) True) =
    (if -128 \<le> i then i + 2 ^ 8 else if - (2 ^ 15) \<le> i then i + 2 ^ 16
     else if - (2 ^ 23) \<le> i then i + 2 ^ 24 else i + 2 ^ 32)"
proof -
  define w where "w = (word_of_int i :: u32)"
  define w1 w2 w3 where "w1 = drop_bit 8 w" and "w2 = drop_bit 8 w1" and "w3 = drop_bit 8 w2"
  have "uint w = i mod 2 ^ 32" by (simp add: w_def uint_word_of_int)
  also have "\<dots> = (i + 2 ^ 32) mod 2 ^ 32" by simp
  also have "\<dots> = i + 2 ^ 32" using assms by (intro mod_pos_pos_trivial) simp_all
  finally have w: "uint w = i + 2 ^ 32" .
  note sp = uint_split [of w, folded w1_def] uint_split [of w1, folded w2_def] uint_split [of w2, folded w3_def]
    uint_split [of w3]
  have z: "drop_bit 8 w3 = 0" by (rule bit_word_eqI) (simp add: w3_def w2_def w1_def bit_simps)
  have bnd: "0 \<le> uint (ucast x :: u8)" "uint (ucast x :: u8) < 256" for x :: u32
    using uint_bounded [of "ucast x :: u8"] by simp_all
  have e: "128 \<le> uint (ucast w3 :: u8)" using w assms(1) sp z bnd [of w3] bnd [of w2] bnd [of w1] bnd [of w] by simp
  then have n3: "w3 \<noteq> 0" by auto
  then have n2: "w2 \<noteq> 0" unfolding w3_def by auto
  then have n1: "w1 \<noteq> 0" unfolding w2_def by auto
  have v: "((uint (ucast w3 :: u8) * 256 + uint (ucast w2 :: u8)) * 256 + uint (ucast w1 :: u8)) * 256
      + uint (ucast w :: u8) - 2 ^ 32 = i"
    using w sp z by simp
  have "\<not> (uint (ucast w3 :: u8) = 255 \<and> uint (ucast w2 :: u8) = 255 \<and> uint (ucast w1 :: u8) = 255 \<and> uint (ucast w :: u8) = 255)"
    using v assms(2) by auto
  from int_value_steps [OF e this] show ?thesis
    using int_out_negative [of w, folded w1_def, folded w2_def, folded w3_def, OF n1 n2 n3]
    unfolding w_def [symmetric] v by simp
qed

text \<open>The reader's loop over the bytes of a tag.\<close>

lemma read_int_inside:
  "tlv_at tag p d \<Longrightarrow> m \<le> length p \<Longrightarrow>
   read_int_loop (word_of_int (int_value (take m p))) (inside (length p) (hdr p) m d)
   = ((True, word_of_int (int_value p)), inside (length p) (hdr p) (length p) d)"
proof (induction "length p - m" arbitrary: m)
  case 0
  then show ?case
    using remaining_inside [of tag p d m] by (subst read_int_loop.simps) (simp add: tlv_at_def)
next
  case (Suc k)
  then have m: "m < length p" by simp
  have "push_bit 8 (word_of_int (int_value (take m p)) :: u32) + ucast (p ! m)
      = word_of_int (int_value (take (Suc m) p))"
    using m by (simp add: take_Suc_conv_app_nth push_bit_eq_mult mult.commute)
  moreover have "\<not> has_error (inside (length p) (hdr p) m d)" using Suc.prems by (simp add: tlv_at_def)
  ultimately show ?case
    using Suc m remaining_inside [of tag p d m] read_uint8_inside [of tag p d m]
    by (subst read_int_loop.simps) simp
qed

definition read_back :: "int \<Rightarrow> int" where
  "read_back i =
     (if 0 \<le> i \<or> i < - (2 ^ 23) then i
      else if -128 \<le> i then i + 2 ^ 8 else if - (2 ^ 15) \<le> i then i + 2 ^ 16 else i + 2 ^ 24)"

definition integer_bytes :: "int \<Rightarrow> u8 list" where
  "integer_bytes i = (if i = -1 then [0xFF] else int_out (word_of_int i) (i < 0))"

lemma int_step_length: "length (int_step neg w b) \<le> length w + 2 \<and> (w \<noteq> [] \<longrightarrow> length (int_step neg w b) = length w + 1)"
  by (simp add: int_step_def)

lemma int_out_length: "n \<le> 4 \<Longrightarrow> uint i < 256 ^ n \<Longrightarrow> 0 < n \<Longrightarrow> length (int_out i neg) \<le> n + 1"
proof (induction n arbitrary: i)
  case (Suc n)
  have "unat (drop_bit 8 i) = unat i div 256" by (simp add: unat_drop_bit_eq) (simp add: drop_bit_eq_div)
  then have "int (unat (drop_bit 8 i)) = int (unat i) div 256" by (simp only: of_nat_div of_nat_numeral)
  then have "uint (drop_bit 8 i) < 256 ^ n" using Suc.prems(2) by (simp add: div_less_iff_less_mult)
  moreover from this have "n = 0 \<Longrightarrow> drop_bit 8 i = 0"
  proof -
    assume "n = 0"
    then have "uint (drop_bit 8 i) < 1" using \<open>uint (drop_bit 8 i) < 256 ^ n\<close> by simp
    then have "uint (drop_bit 8 i) = 0" using uint_ge_0 [of "drop_bit 8 i"] by linarith
    then show "drop_bit 8 i = 0" by (simp add: word_uint_eq_iff)
  qed
  ultimately have IH: "drop_bit 8 i \<noteq> 0 \<Longrightarrow> length (int_out (drop_bit 8 i) neg) \<le> n + 1"
    using Suc by (cases "n = 0") auto
  then show ?case
    using int_step_length [of neg "int_out (drop_bit 8 i) neg" "ucast i"] int_step_length [of neg "[]" "ucast i"]
    by (subst int_out.simps) (cases "drop_bit 8 i = 0"; cases "int_out (drop_bit 8 i) neg = []"; auto)
qed simp

lemma integer_bytes_length: "length (integer_bytes i) \<le> 5"
  using int_out_length [of 4 "word_of_int i" "i < 0"] uint_bounded [of "word_of_int i :: u32"]
  by (auto simp: integer_bytes_def)

lemma integer_bytes_value:
  assumes "- (2 ^ 31) \<le> i" "i < 2 ^ 31"
  shows "sint (word_of_int (int_value (integer_bytes i)) :: u32) = read_back i"
proof -
  have s: "sint (word_of_int k :: u32) = k" if "- (2 ^ 31) \<le> k" "k < 2 ^ 31" for k
    using that by (simp add: signed_of_int signed_take_bit_int_eq_self)
  consider "0 \<le> i" | "i = -1" | "i < -1" by linarith
  then show ?thesis
  proof cases
    case 1
    then have "uint (word_of_int i :: u32) = i" using assms by (simp add: uint_word_of_int)
    with 1 assms s [of i] show ?thesis by (simp add: integer_bytes_def int_value_positive read_back_def)
  next
    case 2
    then show ?thesis by (simp add: integer_bytes_def int_value_def read_back_def)
  next
    case 3
    have big: "sint (word_of_int (i + 2 ^ 32) :: u32) = i"
    proof -
      have "(word_of_int (2 ^ 32) :: u32) = 0" by (simp add: word_of_int_eq_iff)
      then have "(word_of_int (i + 2 ^ 32) :: u32) = word_of_int i" by (simp only: wi_hom_add [symmetric] add_0_right)
      then show ?thesis using s [OF assms] by (simp only:)
    qed
    show ?thesis
    proof (cases "i < - (2 ^ 23)")
      case True
      then have "int_value (integer_bytes i) = i + 2 ^ 32"
        using 3 assms by (simp add: integer_bytes_def int_value_negative)
      with True big show ?thesis by (simp only: read_back_def simp_thms if_True)
    next
      case False
      with 3 assms show ?thesis
        by (simp add: integer_bytes_def int_value_negative read_back_def s)
    qed
  qed
qed

lemma write_Integer_appending:
  assumes "appending d"
  shows "asn1_write_Integer i d = Some (True, appended (tlv ASN1_INTEGER (integer_bytes i)) d)"
proof -
  have e: "opened tag d = appended [] (opened tag d)" for tag by (simp add: appended_def)
  have "asn1_write_implicit_Integer i (opened ASN1_INTEGER d) = Some (True, appended (integer_bytes i) (opened ASN1_INTEGER d))"
    using push_int_opened [OF assms, of "word_of_int i" "i < 0" ASN1_INTEGER] assms
    by (subst (1) e) (auto simp: asn1_write_implicit_Integer_def integer_bytes_def write_uint8_appending)
  then show ?thesis
    using pop_opened [OF assms] by (simp add: asn1_write_Integer_def push_appending [OF assms])
qed

lemma read_Integer_at:
  assumes "tlv_at ASN1_INTEGER p d"
  shows "asn1_read_Integer d = ((True, sint (word_of_int (int_value p) :: u32)), d\<lparr>as_ofs := as_ofs d + hdr p + length p\<rparr>)"
  using inside_rules [OF assms] read_int_inside [OF assms, of 0] assms
  by (simp add: asn1_read_Integer_def asn1_read_implicit_Integer_def tlv_at_def)

text \<open>
  Integers: every int is written in at most five bytes of contents, and read back at the place
  where writing started as itself when it is not negative or needs four bytes; a negative number of
  one, two or three bytes comes back with 2^8, 2^16 or 2^24 added, since the reader does not extend
  the sign. The reader consumes exactly what was written.
\<close>

theorem asn1_integer_roundtrip:
  assumes "appending d" "- (2 ^ 31) \<le> i" "i < 2 ^ 31" "length (as_data d) + length r + 10 < 2 ^ 63"
  shows "\<exists>d'. asn1_write_Integer i d = Some (True, d') \<and>
    asn1_read_Integer (reread r d d') = ((True, read_back i), d'\<lparr>as_data := as_data d' @ r\<rparr>)"
proof -
  let ?d = "appended (tlv ASN1_INTEGER (integer_bytes i)) d"
  have "tlv_at ASN1_INTEGER (integer_bytes i) (reread r d ?d)"
    using assms(1,4) integer_bytes_length [of i] by (intro tlv_at_reread) simp_all
  from read_Integer_at [OF this] show ?thesis
    using assms(1) by (simp add: write_Integer_appending integer_bytes_value [OF assms(2,3)] reread_end)
qed

theorem asn1_integer_roundtrip_witness:
  "\<exists>d'. asn1_write_Integer (-2) asn1_empty = Some (True, d') \<and>
     asn1_read_Integer (reread [] asn1_empty d') = ((True, 254), d'\<lparr>as_data := as_data d' @ []\<rparr>)"
  using asn1_integer_roundtrip [of asn1_empty "-2" "[]"]
  by (simp add: asn1_empty_def appending_def read_back_def)

section \<open>Object identifiers read back\<close>

text \<open>The reader's loop over the bytes of one component, and its value on the bytes of the writer.\<close>

definition join7 :: "u32 \<Rightarrow> u8 \<Rightarrow> u32" where
  "join7 v b = push_bit 7 v OR ucast (b AND 0x7f)"

lemma and_7f: "(b :: u8) AND 0x7f = take_bit 7 b"
  by (simp add: take_bit_eq_mask mask_eq_exp_minus_1)

lemma and_80: "(b :: u8) AND 0x80 = 0 \<longleftrightarrow> \<not> bit b 7"
  using bit_iff_and_push_bit_not_eq_0 [of b 7] by simp

lemma or_80_bit: "bit (0x80 OR (b :: u8)) 7" "take_bit 7 (0x80 OR b) = take_bit 7 b"
proof -
  have e: "(0x80 :: u8) = push_bit 7 1" by simp
  show "bit (0x80 OR b) 7" by (simp add: e bit_or_iff bit_push_bit_iff del: push_bit_of_1)
  show "take_bit 7 (0x80 OR b) = take_bit 7 b"
    by (rule bit_word_eqI) (auto simp: e bit_or_iff bit_push_bit_iff bit_take_bit_iff simp del: push_bit_of_1)
qed

lemma join7_high: "join7 (drop_bit (k + 7) v) (0x80 OR ucast (drop_bit k v)) = drop_bit k v"
proof (rule bit_word_eqI)
  show "bit (join7 (drop_bit (k + 7) v) (0x80 OR ucast (drop_bit k v))) n = bit (drop_bit k v) n" if "n < LENGTH(32)" for n
    using that by (cases "n < 7") (auto simp: join7_def and_7f or_80_bit bit_simps)
qed

lemma join7_low: "join7 (drop_bit 7 v) (ucast (v AND 0x7f)) = v"
proof (rule bit_word_eqI)
  have e: "v AND 0x7f = take_bit 7 v" by (simp add: take_bit_eq_mask mask_eq_exp_minus_1)
  show "bit (join7 (drop_bit 7 v) (ucast (v AND 0x7f))) n = bit v n" if "n < LENGTH(32)" for n
    using that by (cases "n < 7") (auto simp: e join7_def and_7f bit_simps)
qed

lemma drop_bit_small: "v < 2 ^ k \<Longrightarrow> k < 32 \<Longrightarrow> drop_bit k (v :: u32) = 0"
proof -
  assume a: "v < 2 ^ k" "k < 32"
  then have "(2 :: nat) ^ k < 2 ^ 32" by (intro power_strict_increasing) simp_all
  then have "unat (of_nat (2 ^ k) :: u32) = 2 ^ k" by (intro unat_of_nat_u32) simp
  then have "unat v < 2 ^ k" using a(1) by (simp add: word_less_nat_alt)
  then have "unat (drop_bit k v) = 0" by (simp add: unat_drop_bit_eq) (simp add: drop_bit_eq_div)
  then show ?thesis by (simp add: unat_eq_zero)
qed

lemma fold_optional:
  assumes "k < 32"
  shows "foldl join7 (drop_bit (k + 7) v) (if 2 ^ k \<le> v then [0x80 OR ucast (drop_bit k v)] else []) = drop_bit k v"
proof (cases "2 ^ k \<le> v")
  case True
  then show ?thesis by (simp add: join7_high)
next
  case False
  then have "drop_bit k v = 0" using assms by (intro drop_bit_small) (simp_all add: not_le)
  moreover have "drop_bit (k + 7) v = drop_bit 7 (drop_bit k v)" by (simp add: add.commute)
  ultimately show ?thesis using False by simp
qed

lemma join_oid_bytes: "foldl join7 0 (oid_bytes v) = v"
proof -
  have z: "0 = drop_bit (28 + 7) v" by (rule bit_word_eqI) (auto simp: bit_simps)
  note f = fold_optional [of 28 v] fold_optional [of 21 v] fold_optional [of 14 v] fold_optional [of 7 v]
  show ?thesis
    unfolding oid_bytes_def foldl_append by (subst z) (use f join7_low [of v] in simp)
qed

lemma oid_bytes_forms: "\<exists>cs l. oid_bytes v = cs @ [l] \<and> (\<forall>c \<in> set cs. c AND 0x80 \<noteq> 0) \<and> l AND 0x80 = 0"
proof -
  have e: "v AND 0x7f = take_bit 7 v" by (simp add: take_bit_eq_mask mask_eq_exp_minus_1)
  have "(ucast (v AND 0x7f) :: u8) AND 0x80 = 0" by (simp add: and_80 e bit_simps)
  then show ?thesis by (auto simp: oid_bytes_def and_80 or_80_bit)
qed

lemma read_component_inside:
  assumes "tlv_at tag p d" "\<forall>c \<in> set cs. c AND 0x80 \<noteq> 0" "l AND 0x80 = 0"
  shows "drop m p = cs @ [l] @ r \<Longrightarrow>
    read_component b v (inside (length p) (hdr p) m d)
    = ((l, foldl join7 v (cs @ [l])), inside (length p) (hdr p) (m + length cs + 1) d)"
  using assms(2)
proof (induction cs arbitrary: b v m)
  case Nil
  then have m: "m < length p" by (metis append_Cons append_Nil drop_eq_Nil linorder_not_le list.distinct(1))
  then have "p ! m = l" using Nil.prems by (metis append_Nil append_Cons hd_drop_conv_nth list.sel(1))
  then show ?case
    using read_uint8_inside [OF assms(1) m] assms(3) by (subst read_component.simps) (simp add: join7_def)
next
  case (Cons c cs)
  then have m: "m < length p" by (metis append_Cons drop_eq_Nil linorder_not_le list.distinct(1))
  then have pm: "p ! m = c" "drop (Suc m) p = cs @ [l] @ r"
    using Cons.prems Cons_nth_drop_Suc [OF m] by simp_all
  have "\<not> has_error (inside (length p) (hdr p) (Suc m) d)" using assms(1) by (simp add: tlv_at_def)
  then show ?case
    using read_uint8_inside [OF assms(1) m] pm Cons.IH [OF pm(2)] Cons.prems(2)
    by (subst read_component.simps) (simp add: join7_def [symmetric])
qed

definition oid_tail :: "u32 list \<Rightarrow> string" where
  "oid_tail vs = concat (map (\<lambda>v. '' '' @ fmt_u (unat v)) vs)"

lemma read_oid_inside:
  assumes "tlv_at tag p d"
  shows "m \<le> length p \<Longrightarrow> drop m p = concat (map oid_bytes vs) \<Longrightarrow>
    read_oid_loop b (inside (length p) (hdr p) m d) = (oid_tail vs, inside (length p) (hdr p) (length p) d)"
proof (induction vs arbitrary: b m)
  case Nil
  then have "m = length p" by simp
  then show ?case using remaining_inside [OF assms, of m] by (subst read_oid_loop.simps) (simp add: oid_tail_def)
next
  case (Cons v vs)
  obtain cs l where o: "oid_bytes v = cs @ [l]" "\<forall>c \<in> set cs. c AND 0x80 \<noteq> 0" "l AND 0x80 = 0"
    using oid_bytes_forms by blast
  define k where "k = m + length cs + 1"
  have dr: "drop m p = cs @ [l] @ concat (map oid_bytes vs)" using Cons.prems o(1) by simp
  then have k: "drop k p = concat (map oid_bytes vs)"
    unfolding k_def by (metis append.assoc add.assoc drop_drop add.commute append_eq_conv_conj length_append_singleton Suc_eq_plus1)
  have len: "length (drop m p) = length cs + 1 + length (concat (map oid_bytes vs))" by (simp add: dr)
  then have "k \<le> length p" and r: "0 < length p - m" by (simp_all add: k_def)
  have "read_component b 0 (inside (length p) (hdr p) m d) = ((l, v), inside (length p) (hdr p) k d)"
    using read_component_inside [OF assms o(2,3) dr] join_oid_bytes [of v] by (simp add: o(1) k_def)
  then show ?case
    using remaining_inside [OF assms Cons.prems(1)] r Cons.IH [OF \<open>k \<le> length p\<close> k, of l] assms
    by (subst read_oid_loop.simps) (simp add: tlv_at_def oid_tail_def)
qed

text \<open>The writer over the text of an identifier.\<close>

lemma isspace_blank: "isspace (CHR '' '')"
  by (simp add: isspace_def)

lemma number_ends_tail: "number_ends (oid_tail vs)"
  by (cases vs) (simp_all add: oid_tail_def digit_of_def)

lemma strtol_blank_fmt_u:
  "number_ends r \<Longrightarrow> n < 2 ^ 63 \<Longrightarrow> strtol 10 (CHR '' '' # fmt_u n @ r) = (of_nat n, r)"
proof -
  assume a: "number_ends r" "n < 2 ^ 63"
  have "parse_number 10 (CHR '' '' # s) = parse_number 10 s" for s
    by (simp add: parse_number_def isspace_blank)
  then have "strtol 10 (CHR '' '' # fmt_u n @ r) = (case parse_number 10 (fmt_u n @ r) of None \<Rightarrow> (0, CHR '' '' # fmt_u n @ r)
      | Some (neg, k, rest) \<Rightarrow> (if neg then (if 2 ^ 63 < k then of_nat (2 ^ 63) else - of_nat k)
          else (if 2 ^ 63 \<le> k then of_nat (2 ^ 63 - 1) else of_nat k), rest))"
    by (simp add: strtol_def)
  with a show ?thesis by (simp add: parse_number_fmt_u)
qed

lemma write_bytes_appending: "appending d \<Longrightarrow> bs \<noteq> [] \<Longrightarrow> write_bytes bs d = (True, appended bs d)"
proof (induction bs arbitrary: d)
  case (Cons b bs)
  then show ?case by (cases "bs = []") (simp_all add: write_uint8_appending)
qed simp

lemma write_oid_opened:
  assumes "appending d"
  shows "length vs < fuel \<Longrightarrow>
    write_oid_loop fuel (oid_tail vs) (appended w (opened tag d))
    = Some (True, appended (tlv tag (w @ concat (map oid_bytes vs))) d)"
proof (induction vs arbitrary: fuel w)
  case Nil
  then show ?case using pop_opened [OF assms] by (cases fuel) (simp_all add: oid_tail_def)
next
  case (Cons v vs)
  then obtain n where n: "fuel = Suc n" "length vs < n" by (cases fuel) auto
  have "unat v < 2 ^ 63" using unat_u32_less [of v] by simp
  then have "strtol 10 (oid_tail (v # vs)) = (of_nat (unat v), oid_tail vs)"
    using strtol_blank_fmt_u [OF number_ends_tail [of vs]] by (simp add: oid_tail_def)
  moreover have "ucast (of_nat (unat v) :: u64) = v" by (simp add: ucast_up_down)
  moreover have "oid_tail (v # vs) \<noteq> []" by (simp add: oid_tail_def)
  moreover have "oid_bytes v \<noteq> []" by (simp add: oid_bytes_def)
  then have "write_bytes (oid_bytes v) (appended w (opened tag d)) = (True, appended (w @ oid_bytes v) (opened tag d))"
    using assms by (simp add: write_bytes_appending)
  ultimately show ?case using n Cons.IH [OF n(2), of "w @ oid_bytes v"] by simp
qed

definition oid_text :: "nat \<Rightarrow> nat \<Rightarrow> u32 list \<Rightarrow> string" where
  "oid_text a b vs = fmt_u a @ '' '' @ fmt_u b @ oid_tail vs"

lemma write_OID_appending:
  assumes "appending d" "a < 2 ^ 31" "b < 2 ^ 31" "length vs < fuel"
  shows "asn1_write_OID fuel (oid_text a b vs) d
    = Some (True, appended (tlv ASN1_OID (of_nat (40 * a + b) # concat (map oid_bytes vs))) d)"
proof -
  have 1: "strtol 10 (oid_text a b vs) = (of_nat a, CHR '' '' # fmt_u b @ oid_tail vs)"
    using assms(2) by (simp add: oid_text_def digit_of_def)
  have 2: "strtol 10 (CHR '' '' # fmt_u b @ oid_tail vs) = (of_nat b, oid_tail vs)"
    using assms(3) number_ends_tail by (intro strtol_blank_fmt_u) simp_all
  have u: "ucast (of_nat n :: u64) = (of_nat n :: u32)" "ucast (of_nat n :: u32) = (of_nat n :: u8)" for n
    by (rule bit_word_eqI, simp add: bit_simps)+
  have "40 * (of_nat a :: u32) + of_nat b = of_nat (40 * a + b)" by simp
  then have 3: "ucast (40 * (ucast (of_nat a :: u64) :: u32) + ucast (of_nat b :: u64)) = (of_nat (40 * a + b) :: u8)"
    by (simp only: u)
  have e: "opened tag d = appended [] (opened tag d)" for tag by (simp add: appended_def)
  show ?thesis
    using write_oid_opened [OF assms(1,4), of "[of_nat (40 * a + b)]" ASN1_OID] assms(1)
    by (simp add: asn1_write_OID_def push_appending 1 2 3 write_uint8_appending del: of_nat_add of_nat_mult)
qed

lemma read_OID_at:
  assumes "tlv_at ASN1_OID (of_nat n # concat (map oid_bytes vs)) d" "n < 256"
  shows "asn1_read_OID junk d = (Some (oid_text (n div 40) (n mod 40) vs),
    d\<lparr>as_ofs := as_ofs d + hdr (of_nat n # concat (map oid_bytes vs)) + Suc (length (concat (map oid_bytes vs)))\<rparr>)"
proof -
  let ?p = "of_nat n # concat (map oid_bytes vs) :: u8 list"
  have n: "unat (of_nat n :: u8) = n" using assms(2) by (simp add: unat_of_nat)
  have "read_into junk (inside (length ?p) (hdr ?p) 0 d) = (of_nat n, inside (length ?p) (hdr ?p) 1 d)"
    using read_uint8_inside [OF assms(1), of 0] by (simp add: read_into_def)
  moreover have "read_oid_loop (of_nat n) (inside (length ?p) (hdr ?p) 1 d) = (oid_tail vs, inside (length ?p) (hdr ?p) (length ?p) d)"
    by (rule read_oid_inside [OF assms(1)]) simp_all
  ultimately show ?thesis
    using tlv_at_start [OF assms(1)] end_inside [OF assms(1)] assms(1)
    by (simp add: asn1_read_OID_def n oid_text_def) (simp add: tlv_at_def)
qed

text \<open>
  Object identifiers: the text of an identifier, two numbers with 40 a + b below 256 and b below 40 and
  any list of 32-bit components separated by blanks, is written by a loop that ends after one round
  for each component, and read back at the place where writing started as the same text; the check against this text
  succeeds.
\<close>

theorem asn1_oid_roundtrip:
  assumes "appending d" "b < 40" "40 * a + b < 256" "length vs < fuel"
    "length (concat (map oid_bytes vs)) + 1 < 2 ^ 24" "length (as_data d) + length r + 2 ^ 24 + 5 < 2 ^ 63"
  shows "\<exists>d'. asn1_write_OID fuel (oid_text a b vs) d = Some (True, d') \<and>
    asn1_read_OID junk (reread r d d') = (Some (oid_text a b vs), d'\<lparr>as_data := as_data d' @ r\<rparr>) \<and>
    fst (asn1_check_OID junk (oid_text a b vs) (reread r d d'))"
proof -
  let ?p = "of_nat (40 * a + b) # concat (map oid_bytes vs) :: u8 list"
  let ?d = "appended (tlv ASN1_OID ?p) d"
  have d: "(40 * a + b) div 40 = a" "(40 * a + b) mod 40 = b" using assms(2) by simp_all
  have "tlv_at ASN1_OID ?p (reread r d ?d)" using assms(1,5,6) by (intro tlv_at_reread) simp_all
  from read_OID_at [OF this assms(3), unfolded d]
  have "asn1_read_OID junk (reread r d ?d) = (Some (oid_text a b vs), ?d\<lparr>as_data := as_data ?d @ r\<rparr>)"
    using reread_end [of r d ASN1_OID ?p] by simp
  then show ?thesis
    using write_OID_appending [OF assms(1) _ _ assms(4), of a b] assms(2,3) by (simp add: asn1_check_OID_def)
qed

theorem asn1_oid_roundtrip_witness:
  "\<exists>d'. asn1_write_OID 8 (oid_text 1 3 [6, 1, 4, 1, 311, 2000000000]) asn1_empty = Some (True, d') \<and>
     asn1_read_OID 0 (reread [] asn1_empty d')
       = (Some (oid_text 1 3 [6, 1, 4, 1, 311, 2000000000]), d'\<lparr>as_data := as_data d' @ []\<rparr>) \<and>
     fst (asn1_check_OID 0 (oid_text 1 3 [6, 1, 4, 1, 311, 2000000000]) (reread [] asn1_empty d'))"
  by (rule asn1_oid_roundtrip) (simp_all add: asn1_empty_def appending_def oid_bytes_def)

end
