(* ===== verification/Ndr.thy ===== *)
theory Ndr
  imports NtError
begin

text \<open>
  The NDR marshalling library that carries the service control calls: \<open>librpc/ndr/ndr.c\<close>,
  \<open>ndr_basic.c\<close>, the macros of \<open>libndr.h\<close> and the byte order macros of
  \<open>lib/util/byteorder.h\<close> they use. Offsets and sizes are 32-bit words and wrap as in the code;
  the memory behind a data pointer is a list of bytes, and a call that touches memory outside it
  is the result \<open>NBad\<close>. A pointer that serves as a key of a token list is a number.
  Allocation succeeds, but for a size that wraps to zero.
\<close>

section \<open>Results\<close>

datatype ('a, 's) nres = NOk 'a 's | NErr NTSTATUS 's | NBad

type_synonym ('a, 's) ncall = "'s \<Rightarrow> ('a, 's) nres"

definition nret :: "'a \<Rightarrow> ('a, 's) ncall" where "nret x s = NOk x s"

text \<open>\<open>NDR_CHECK\<close>: go on when the call succeeded, return its status otherwise.\<close>

definition nbind :: "('a, 's) ncall \<Rightarrow> ('a \<Rightarrow> ('b, 's) ncall) \<Rightarrow> ('b, 's) ncall" where
  "nbind m k s = (case m s of NOk x t \<Rightarrow> k x t | NErr e t \<Rightarrow> NErr e t | NBad \<Rightarrow> NBad)"

definition nseq :: "('a, 's) ncall \<Rightarrow> ('b, 's) ncall \<Rightarrow> ('b, 's) ncall" where
  "nseq m k = nbind m (\<lambda>_. k)"

datatype ndr_err_code = NDR_ERR_ARRAY_SIZE | NDR_ERR_BAD_SWITCH | NDR_ERR_OFFSET | NDR_ERR_RELATIVE
  | NDR_ERR_CHARCNV | NDR_ERR_LENGTH | NDR_ERR_SUBCONTEXT | NDR_ERR_COMPRESSION | NDR_ERR_STRING
  | NDR_ERR_VALIDATE | NDR_ERR_BUFSIZE | NDR_ERR_ALLOC | NDR_ERR_RANGE | NDR_ERR_TOKEN | NDR_ERR_IPV4ADDRESS

abbreviation (input) "NT_STATUS_BUFFER_TOO_SMALL \<equiv> (0xC0000023 :: NTSTATUS)"
abbreviation (input) "NT_STATUS_INTERNAL_ERROR \<equiv> (0xC00000E5 :: NTSTATUS)"
abbreviation (input) "NT_STATUS_ARRAY_BOUNDS_EXCEEDED \<equiv> (0xC000008C :: NTSTATUS)"

fun ndr_map_error :: "ndr_err_code \<Rightarrow> NTSTATUS" where
  "ndr_map_error NDR_ERR_BUFSIZE = NT_STATUS_BUFFER_TOO_SMALL"
| "ndr_map_error NDR_ERR_TOKEN = NT_STATUS_INTERNAL_ERROR"
| "ndr_map_error NDR_ERR_ALLOC = NT_STATUS_NO_MEMORY"
| "ndr_map_error NDR_ERR_ARRAY_SIZE = NT_STATUS_ARRAY_BOUNDS_EXCEEDED"
| "ndr_map_error _ = NT_STATUS_INVALID_PARAMETER"

text \<open>\<open>ndr_pull_error\<close> and \<open>ndr_push_error\<close>: a line in the log and the status.\<close>

definition ndr_error :: "ndr_err_code \<Rightarrow> ('a, 's) ncall" where
  "ndr_error e s = NErr (ndr_map_error e) s"

section \<open>The structures\<close>

type_synonym ptr = nat
type_synonym token_list = "(ptr \<times> u32) list"

record ndr_pull =
  nl_flags :: u32
  nl_data :: "u8 list"
  nl_size :: u32
  nl_offset :: u32
  nl_relative_base :: u32
  nl_relative_base_list :: token_list
  nl_relative_list :: token_list
  nl_array_size_list :: token_list
  nl_array_length_list :: token_list
  nl_switch_list :: token_list
  nl_ptr_count :: u32

text \<open>\<open>np_fill\<close> is what the allocator leaves in bytes nobody has written.\<close>

record ndr_push =
  np_flags :: u32
  np_data :: "u8 list"
  np_alloc :: u32
  np_offset :: u32
  np_relative_base :: u32
  np_relative_base_list :: token_list
  np_switch_list :: token_list
  np_relative_list :: token_list
  np_full_ptr_list :: token_list
  np_ptr_count :: u32
  np_fill :: "nat \<Rightarrow> u8"

abbreviation (input) "LIBNDR_FLAG_BIGENDIAN \<equiv> (0x1 :: u32)"
abbreviation (input) "LIBNDR_FLAG_NOALIGN \<equiv> (0x2 :: u32)"
abbreviation (input) "LIBNDR_FLAG_REMAINING \<equiv> (0x200000 :: u32)"
abbreviation (input) "LIBNDR_FLAG_ALIGN2 \<equiv> (0x400000 :: u32)"
abbreviation (input) "LIBNDR_FLAG_ALIGN4 \<equiv> (0x800000 :: u32)"
abbreviation (input) "LIBNDR_FLAG_ALIGN8 \<equiv> (0x1000000 :: u32)"
abbreviation (input) "LIBNDR_ALIGN_FLAGS \<equiv> (0x1C00000 :: u32)"
abbreviation (input) "LIBNDR_FLAG_LITTLE_ENDIAN \<equiv> (0x8000000 :: u32)"
abbreviation (input) "LIBNDR_FLAG_PAD_CHECK \<equiv> (0x10000000 :: u32)"
abbreviation (input) "LIBNDR_FLAG_NO_NDR_SIZE \<equiv> (0x80000000 :: u32)"
abbreviation (input) "NDR_SCALARS \<equiv> (1 :: u32)"
abbreviation (input) "NDR_BASE_MARSHALL_SIZE \<equiv> (1024 :: u32)"

definition NDR_BE :: "u32 \<Rightarrow> bool" where
  "NDR_BE flags \<longleftrightarrow> flags AND (LIBNDR_FLAG_BIGENDIAN OR LIBNDR_FLAG_LITTLE_ENDIAN) = LIBNDR_FLAG_BIGENDIAN"

definition ndr_set_flags :: "u32 \<Rightarrow> u32 \<Rightarrow> u32" where
  "ndr_set_flags flags0 new_flags =
     (let f1 = (if new_flags AND LIBNDR_FLAG_LITTLE_ENDIAN \<noteq> 0 then flags0 AND NOT LIBNDR_FLAG_BIGENDIAN else flags0);
          f2 = (if new_flags AND LIBNDR_FLAG_BIGENDIAN \<noteq> 0 then f1 AND NOT LIBNDR_FLAG_LITTLE_ENDIAN else f1);
          f3 = (if new_flags AND LIBNDR_FLAG_REMAINING \<noteq> 0 then f2 AND NOT LIBNDR_ALIGN_FLAGS else f2);
          f4 = (if new_flags AND LIBNDR_ALIGN_FLAGS \<noteq> 0 then f3 AND NOT LIBNDR_FLAG_REMAINING else f3)
      in f4 OR new_flags)"

section \<open>Byte order\<close>

definition SVAL :: "u8 list \<Rightarrow> nat \<Rightarrow> u32" where
  "SVAL buf pos = ucast (buf ! pos) OR push_bit 8 (ucast (buf ! (pos + 1)))"

definition IVAL :: "u8 list \<Rightarrow> nat \<Rightarrow> u32" where
  "IVAL buf pos = SVAL buf pos OR push_bit 16 (SVAL buf (pos + 2))"

definition SREV :: "u32 \<Rightarrow> u32" where
  "SREV x = push_bit 8 (x AND 0xFF) OR (drop_bit 8 x AND 0xFF)"

definition IREV :: "u32 \<Rightarrow> u32" where
  "IREV x = push_bit 16 (SREV x) OR SREV (drop_bit 16 x)"

text \<open>The bytes that \<open>SSVAL\<close> and \<open>SIVAL\<close> store.\<close>

definition SSVAL :: "u16 \<Rightarrow> u8 list" where
  "SSVAL v = [ucast (v AND 0xFF), ucast (drop_bit 8 v)]"

definition SIVAL :: "u32 \<Rightarrow> u8 list" where
  "SIVAL v = SSVAL (ucast (v AND 0xFFFF)) @ SSVAL (ucast (drop_bit 16 v))"

definition NDR_SVAL :: "ndr_pull \<Rightarrow> u32 \<Rightarrow> u32" where
  "NDR_SVAL s ofs = (let v = SVAL (nl_data s) (unat ofs) in if NDR_BE (nl_flags s) then SREV v else v)"

definition NDR_IVAL :: "ndr_pull \<Rightarrow> u32 \<Rightarrow> u32" where
  "NDR_IVAL s ofs = (let v = IVAL (nl_data s) (unat ofs) in if NDR_BE (nl_flags s) then IREV v else v)"

definition NDR_SSVAL :: "u32 \<Rightarrow> u16 \<Rightarrow> u8 list" where
  "NDR_SSVAL flags v = SSVAL (if NDR_BE flags then ucast (SREV (ucast v)) else v)"

definition NDR_SIVAL :: "u32 \<Rightarrow> u32 \<Rightarrow> u8 list" where
  "NDR_SIVAL flags v = SIVAL (if NDR_BE flags then IREV v else v)"

section \<open>Alignment and room\<close>

definition ndr_align_size :: "u32 \<Rightarrow> u64 \<Rightarrow> u64" where
  "ndr_align_size offset n =
     (if ucast offset AND (n - 1) = 0 then 0 else n - (ucast offset AND (n - 1)))"

definition align_up :: "u32 \<Rightarrow> u32 \<Rightarrow> u32" where
  "align_up offset n = (offset + (n - 1)) AND NOT (n - 1)"

text \<open>
  \<open>ndr_check_padding\<close> reads the bytes up to the alignment, all of them when one is not zero. Its
  index is an int that is compared with a \<open>size_t\<close>; the result says whether it stayed inside.
\<close>

fun padding_reads :: "u8 list \<Rightarrow> nat list \<Rightarrow> nat list \<Rightarrow> bool" where
  "padding_reads data [] all = True"
| "padding_reads data (i # is) all =
     (i < length data \<and>
      (if data ! i \<noteq> 0 then list_all (\<lambda>j. j < length data) all else padding_reads data is all))"

definition ndr_check_padding :: "u32 \<Rightarrow> ndr_pull \<Rightarrow> bool" where
  "ndr_check_padding n s =
     (let ofs = unat (nl_offset s);
          ofs2 = unat ((ucast (nl_offset s) + ucast (n - 1)) AND NOT (ucast (n - 1)) :: u64);
          is = (if ofs < 2 ^ 31 then [ofs..<ofs2] else [])
      in padding_reads (nl_data s) is is)"

definition NDR_PULL_NEED_BYTES :: "u32 \<Rightarrow> (unit, ndr_pull) ncall" where
  "NDR_PULL_NEED_BYTES n s =
     (if nl_size s < n \<or> nl_size s < nl_offset s + n then ndr_error NDR_ERR_BUFSIZE s else NOk () s)"

definition NDR_PULL_ALIGN :: "u32 \<Rightarrow> (unit, ndr_pull) ncall" where
  "NDR_PULL_ALIGN n s =
     (if nl_flags s AND LIBNDR_FLAG_NOALIGN = 0 \<and> nl_flags s AND LIBNDR_FLAG_PAD_CHECK \<noteq> 0 \<and> \<not> ndr_check_padding n s
      then NBad
      else
        (let s1 = (if nl_flags s AND LIBNDR_FLAG_NOALIGN = 0 then s\<lparr>nl_offset := align_up (nl_offset s) n\<rparr> else s)
         in if nl_size s1 < nl_offset s1 then ndr_error NDR_ERR_BUFSIZE s1 else NOk () s1))"

definition resize :: "(nat \<Rightarrow> u8) \<Rightarrow> nat \<Rightarrow> u8 list \<Rightarrow> u8 list" where
  "resize fill n data = take n data @ map fill [length data..<n]"

definition ndr_push_expand :: "u32 \<Rightarrow> (unit, ndr_push) ncall" where
  "ndr_push_expand sz s =
     (if sz < np_alloc s then NOk () s
      else
        (let a1 = np_alloc s + NDR_BASE_MARSHALL_SIZE; a2 = (if a1 < sz + 1 then sz + 1 else a1);
             s1 = s\<lparr>np_alloc := a2, np_data := resize (np_fill s) (unat a2) (np_data s)\<rparr>
         in if a2 = 0 then ndr_error NDR_ERR_ALLOC s1 else NOk () s1))"

definition NDR_PUSH_NEED_BYTES :: "u32 \<Rightarrow> (unit, ndr_push) ncall" where
  "NDR_PUSH_NEED_BYTES n s = ndr_push_expand (np_offset s + n) s"

text \<open>Store bytes at an offset of the data, and advance.\<close>

definition store_at :: "u32 \<Rightarrow> u8 list \<Rightarrow> (unit, ndr_push) ncall" where
  "store_at ofs bs s =
     (if unat ofs + length bs \<le> length (np_data s)
      then NOk () (s\<lparr>np_data := take (unat ofs) (np_data s) @ bs @ drop (unat ofs + length bs) (np_data s)\<rparr>)
      else NBad)"

definition push_advance :: "u32 \<Rightarrow> (unit, ndr_push) ncall" where
  "push_advance n s = NOk () (s\<lparr>np_offset := np_offset s + n\<rparr>)"

definition store_here :: "u8 list \<Rightarrow> (unit, ndr_push) ncall" where
  "store_here bs s = store_at (np_offset s) bs s"

text \<open>\<open>ndr_push_int8\<close>, \<open>ndr_push_uint8\<close>: room, the byte, advance; likewise for more bytes.\<close>

definition push_raw :: "u8 list \<Rightarrow> (unit, ndr_push) ncall" where
  "push_raw bs = nseq (NDR_PUSH_NEED_BYTES (of_nat (length bs))) (nseq (store_here bs) (push_advance (of_nat (length bs))))"

definition ndr_push_uint8 :: "u8 \<Rightarrow> (unit, ndr_push) ncall" where
  "ndr_push_uint8 v = push_raw [v]"

definition ndr_push_int8 :: "int \<Rightarrow> (unit, ndr_push) ncall" where
  "ndr_push_int8 v = push_raw [word_of_int v]"

fun push_pad :: "nat \<Rightarrow> (unit, ndr_push) ncall" where
  "push_pad 0 s = NOk () s"
| "push_pad (Suc n) s = nseq (ndr_push_uint8 0) (push_pad n) s"

definition NDR_PUSH_ALIGN :: "u32 \<Rightarrow> (unit, ndr_push) ncall" where
  "NDR_PUSH_ALIGN n s =
     (if np_flags s AND LIBNDR_FLAG_NOALIGN = 0
      then push_pad (unat (align_up (np_offset s) n - np_offset s)) s else NOk () s)"

section \<open>Initialisation\<close>

definition ndr_pull_init_blob :: "u8 list \<Rightarrow> ndr_pull" where
  "ndr_pull_init_blob blob =
     \<lparr>nl_flags = 0, nl_data = blob, nl_size = of_nat (length blob), nl_offset = 0, nl_relative_base = 0,
      nl_relative_base_list = [], nl_relative_list = [], nl_array_size_list = [], nl_array_length_list = [],
      nl_switch_list = [], nl_ptr_count = 0\<rparr>"

definition ndr_push_init_ctx :: "(nat \<Rightarrow> u8) \<Rightarrow> ndr_push" where
  "ndr_push_init_ctx fill =
     \<lparr>np_flags = 0, np_data = map fill [0..<unat NDR_BASE_MARSHALL_SIZE], np_alloc = NDR_BASE_MARSHALL_SIZE,
      np_offset = 0, np_relative_base = 0, np_relative_base_list = [], np_switch_list = [], np_relative_list = [],
      np_full_ptr_list = [], np_ptr_count = 0, np_fill = fill\<rparr>"

text \<open>The marshalled bytes; a zero byte is stored behind them when there is room.\<close>

definition ndr_push_blob :: "(u8 list, ndr_push) ncall" where
  "ndr_push_blob s =
     (let s1 = (if np_offset s < np_alloc s then s\<lparr>np_data := (np_data s)[unat (np_offset s) := 0]\<rparr> else s)
      in NOk (take (unat (np_offset s)) (np_data s1)) s1)"

definition ndr_pull_advance :: "u32 \<Rightarrow> (unit, ndr_pull) ncall" where
  "ndr_pull_advance sz s =
     (let s1 = s\<lparr>nl_offset := nl_offset s + sz\<rparr>
      in if nl_size s1 < nl_offset s1 then ndr_error NDR_ERR_BUFSIZE s1 else NOk () s1)"

definition ndr_pull_set_offset :: "u32 \<Rightarrow> (unit, ndr_pull) ncall" where
  "ndr_pull_set_offset ofs s =
     (let s1 = s\<lparr>nl_offset := ofs\<rparr>
      in if nl_size s1 < nl_offset s1 then ndr_error NDR_ERR_BUFSIZE s1 else NOk () s1)"

section \<open>Reading scalars\<close>

text \<open>Read \<open>n\<close> bytes at the offset and advance.\<close>

definition load_here :: "nat \<Rightarrow> (ndr_pull \<Rightarrow> 'a) \<Rightarrow> ('a, ndr_pull) ncall" where
  "load_here n f s =
     (if unat (nl_offset s) + n \<le> length (nl_data s) then NOk (f s) (s\<lparr>nl_offset := nl_offset s + of_nat n\<rparr>) else NBad)"

definition pull_raw :: "nat \<Rightarrow> (ndr_pull \<Rightarrow> 'a) \<Rightarrow> ('a, ndr_pull) ncall" where
  "pull_raw n f = nseq (NDR_PULL_NEED_BYTES (of_nat n)) (load_here n f)"

definition ndr_pull_uint8 :: "(u8, ndr_pull) ncall" where
  "ndr_pull_uint8 = pull_raw 1 (\<lambda>s. nl_data s ! unat (nl_offset s))"

definition ndr_pull_int8 :: "(int, ndr_pull) ncall" where
  "ndr_pull_int8 = pull_raw 1 (\<lambda>s. sint (nl_data s ! unat (nl_offset s)))"

definition ndr_pull_uint16 :: "(u16, ndr_pull) ncall" where
  "ndr_pull_uint16 = nseq (NDR_PULL_ALIGN 2) (pull_raw 2 (\<lambda>s. ucast (NDR_SVAL s (nl_offset s))))"

definition ndr_pull_int16 :: "(int, ndr_pull) ncall" where
  "ndr_pull_int16 = nseq (NDR_PULL_ALIGN 2) (pull_raw 2 (\<lambda>s. sint (ucast (NDR_SVAL s (nl_offset s)) :: u16)))"

definition ndr_pull_uint32 :: "(u32, ndr_pull) ncall" where
  "ndr_pull_uint32 = nseq (NDR_PULL_ALIGN 4) (pull_raw 4 (\<lambda>s. NDR_IVAL s (nl_offset s)))"

definition ndr_pull_int32 :: "(int, ndr_pull) ncall" where
  "ndr_pull_int32 = nseq (NDR_PULL_ALIGN 4) (pull_raw 4 (\<lambda>s. sint (NDR_IVAL s (nl_offset s))))"

definition ndr_pull_udlong :: "(u64, ndr_pull) ncall" where
  "ndr_pull_udlong = nseq (NDR_PULL_ALIGN 4)
     (pull_raw 8 (\<lambda>s. ucast (NDR_IVAL s (nl_offset s)) OR push_bit 32 (ucast (NDR_IVAL s (nl_offset s + 4)))))"

definition ndr_pull_udlongr :: "(u64, ndr_pull) ncall" where
  "ndr_pull_udlongr = nseq (NDR_PULL_ALIGN 4)
     (pull_raw 8 (\<lambda>s. push_bit 32 (ucast (NDR_IVAL s (nl_offset s))) OR ucast (NDR_IVAL s (nl_offset s + 4))))"

definition ndr_pull_dlong :: "(int, ndr_pull) ncall" where
  "ndr_pull_dlong = nbind ndr_pull_udlong (\<lambda>v. nret (sint v))"

definition ndr_pull_hyper :: "(u64, ndr_pull) ncall" where
  "ndr_pull_hyper = nseq (NDR_PULL_ALIGN 8) ndr_pull_udlong"

definition ndr_pull_align :: "u32 \<Rightarrow> (unit, ndr_pull) ncall" where
  "ndr_pull_align n = NDR_PULL_ALIGN n"

definition ndr_pull_bytes :: "u32 \<Rightarrow> (u8 list, ndr_pull) ncall" where
  "ndr_pull_bytes n = nseq (NDR_PULL_NEED_BYTES n)
     (load_here (unat n) (\<lambda>s. take (unat n) (drop (unat (nl_offset s)) (nl_data s))))"

text \<open>None: the caller's array is left as it is.\<close>

definition ndr_pull_array_uint8 :: "u32 \<Rightarrow> u32 \<Rightarrow> (u8 list option, ndr_pull) ncall" where
  "ndr_pull_array_uint8 ndr_flags n =
     (if ndr_flags AND NDR_SCALARS = 0 then nret None else nbind (ndr_pull_bytes n) (\<lambda>bs. nret (Some bs)))"

definition ndr_pull_generic_ptr :: "(u32, ndr_pull) ncall" where
  "ndr_pull_generic_ptr =
     nbind ndr_pull_uint32 (\<lambda>v s. NOk v (if v \<noteq> 0 then s\<lparr>nl_ptr_count := nl_ptr_count s + 1\<rparr> else s))"

definition ndr_pull_ref_ptr :: "(u32, ndr_pull) ncall" where
  "ndr_pull_ref_ptr = nbind ndr_pull_uint32 (\<lambda>_. nret 1)"

definition ndr_pull_NTSTATUS :: "(NTSTATUS, ndr_pull) ncall" where
  "ndr_pull_NTSTATUS = nbind ndr_pull_uint32 nret"

definition ndr_pull_WERROR :: "(WERROR, ndr_pull) ncall" where
  "ndr_pull_WERROR = nbind ndr_pull_uint32 nret"

definition ndr_pull_NTTIME :: "(u64, ndr_pull) ncall" where
  "ndr_pull_NTTIME = nbind ndr_pull_udlong nret"

definition ndr_pull_NTTIME_1sec :: "(u64, ndr_pull) ncall" where
  "ndr_pull_NTTIME_1sec = nbind ndr_pull_hyper (\<lambda>t. nret (t * 10000000))"

definition ndr_pull_NTTIME_hyper :: "(u64, ndr_pull) ncall" where
  "ndr_pull_NTTIME_hyper = nbind ndr_pull_hyper nret"

text \<open>A \<open>time_t\<close> has 64 bits.\<close>

definition ndr_pull_time_t :: "(u64, ndr_pull) ncall" where
  "ndr_pull_time_t = nbind ndr_pull_uint32 (\<lambda>tt. nret (ucast tt))"

section \<open>Writing scalars\<close>

text \<open>The writers in the byte order of the flags: align, make room, store, advance.\<close>

definition push_aligned :: "u32 \<Rightarrow> nat \<Rightarrow> (u32 \<Rightarrow> u8 list) \<Rightarrow> (unit, ndr_push) ncall" where
  "push_aligned n len f = nseq (NDR_PUSH_ALIGN n)
     (nseq (NDR_PUSH_NEED_BYTES (of_nat len))
       (nseq (\<lambda>s. store_here (f (np_flags s)) s) (push_advance (of_nat len))))"

definition ndr_push_uint16 :: "u16 \<Rightarrow> (unit, ndr_push) ncall" where
  "ndr_push_uint16 v = push_aligned 2 2 (\<lambda>fl. NDR_SSVAL fl v)"

definition ndr_push_int16 :: "int \<Rightarrow> (unit, ndr_push) ncall" where
  "ndr_push_int16 v = push_aligned 2 2 (\<lambda>fl. NDR_SSVAL fl (word_of_int v))"

definition ndr_push_uint32 :: "u32 \<Rightarrow> (unit, ndr_push) ncall" where
  "ndr_push_uint32 v = push_aligned 4 4 (\<lambda>fl. NDR_SIVAL fl v)"

definition ndr_push_int32 :: "int \<Rightarrow> (unit, ndr_push) ncall" where
  "ndr_push_int32 v = push_aligned 4 4 (\<lambda>fl. NDR_SIVAL fl (word_of_int v))"

definition ndr_push_udlong :: "u64 \<Rightarrow> (unit, ndr_push) ncall" where
  "ndr_push_udlong v =
     push_aligned 4 8 (\<lambda>fl. NDR_SIVAL fl (ucast (v AND 0xFFFFFFFF)) @ NDR_SIVAL fl (ucast (drop_bit 32 v)))"

definition ndr_push_udlongr :: "u64 \<Rightarrow> (unit, ndr_push) ncall" where
  "ndr_push_udlongr v =
     push_aligned 4 8 (\<lambda>fl. NDR_SIVAL fl (ucast (drop_bit 32 v)) @ NDR_SIVAL fl (ucast (v AND 0xFFFFFFFF)))"

definition ndr_push_dlong :: "int \<Rightarrow> (unit, ndr_push) ncall" where
  "ndr_push_dlong v = ndr_push_udlong (word_of_int v)"

definition ndr_push_hyper :: "u64 \<Rightarrow> (unit, ndr_push) ncall" where
  "ndr_push_hyper v = nseq (NDR_PUSH_ALIGN 8) (ndr_push_udlong v)"

definition ndr_push_align :: "u32 \<Rightarrow> (unit, ndr_push) ncall" where
  "ndr_push_align n = NDR_PUSH_ALIGN n"

text \<open>\<open>n\<close> bytes of the array; the array has at least as many.\<close>

definition ndr_push_bytes :: "u8 list \<Rightarrow> u32 \<Rightarrow> (unit, ndr_push) ncall" where
  "ndr_push_bytes data n = nseq (NDR_PUSH_NEED_BYTES n)
     (nseq (if length data < unat n then (\<lambda>_. NBad) else store_here (take (unat n) data)) (push_advance n))"

definition ndr_push_zero :: "u32 \<Rightarrow> (unit, ndr_push) ncall" where
  "ndr_push_zero n = nseq (NDR_PUSH_NEED_BYTES n) (nseq (store_here (replicate (unat n) 0)) (push_advance n))"

definition ndr_push_array_uint8 :: "u32 \<Rightarrow> u8 list \<Rightarrow> u32 \<Rightarrow> (unit, ndr_push) ncall" where
  "ndr_push_array_uint8 ndr_flags data n =
     (if ndr_flags AND NDR_SCALARS = 0 then nret () else ndr_push_bytes data n)"

definition ndr_push_NTSTATUS :: "NTSTATUS \<Rightarrow> (unit, ndr_push) ncall" where
  "ndr_push_NTSTATUS v = ndr_push_uint32 v"

definition ndr_push_WERROR :: "WERROR \<Rightarrow> (unit, ndr_push) ncall" where
  "ndr_push_WERROR v = ndr_push_uint32 v"

definition ndr_push_NTTIME :: "u64 \<Rightarrow> (unit, ndr_push) ncall" where
  "ndr_push_NTTIME t = ndr_push_udlong t"

definition ndr_push_NTTIME_1sec :: "u64 \<Rightarrow> (unit, ndr_push) ncall" where
  "ndr_push_NTTIME_1sec t = ndr_push_hyper (t div 10000000)"

definition ndr_push_NTTIME_hyper :: "u64 \<Rightarrow> (unit, ndr_push) ncall" where
  "ndr_push_NTTIME_hyper t = ndr_push_hyper t"

definition ndr_push_time_t :: "u64 \<Rightarrow> (unit, ndr_push) ncall" where
  "ndr_push_time_t t = ndr_push_uint32 (ucast t)"

definition ndr_push_DATA_BLOB :: "u8 list \<Rightarrow> (unit, ndr_push) ncall" where
  "ndr_push_DATA_BLOB blob s =
     (if np_flags s AND LIBNDR_ALIGN_FLAGS \<noteq> 0
      then (let len = (if np_flags s AND LIBNDR_FLAG_ALIGN2 \<noteq> 0 then ndr_align_size (np_offset s) 2
                       else if np_flags s AND LIBNDR_FLAG_ALIGN4 \<noteq> 0 then ndr_align_size (np_offset s) 4
                       else ndr_align_size (np_offset s) 8)
            in ndr_push_bytes (replicate (unat len) 0) (ucast len) s)
      else
        nseq (if np_flags s AND LIBNDR_FLAG_REMAINING = 0 then ndr_push_uint32 (of_nat (length blob)) else nret ())
          (ndr_push_bytes blob (of_nat (length blob))) s)"

definition ndr_pull_DATA_BLOB :: "(u8 list, ndr_pull) ncall" where
  "ndr_pull_DATA_BLOB s =
     (let rest = nl_size s - nl_offset s in
      nbind (if nl_flags s AND LIBNDR_ALIGN_FLAGS \<noteq> 0
             then (let len = ucast (if nl_flags s AND LIBNDR_FLAG_ALIGN2 \<noteq> 0 then ndr_align_size (nl_offset s) 2
                              else if nl_flags s AND LIBNDR_FLAG_ALIGN4 \<noteq> 0 then ndr_align_size (nl_offset s) 4
                              else ndr_align_size (nl_offset s) 8)
                   in nret (if rest < len then rest else len))
             else if nl_flags s AND LIBNDR_FLAG_REMAINING \<noteq> 0 then nret rest
             else ndr_pull_uint32)
        ndr_pull_bytes s)"

section \<open>Tokens and pointers\<close>

text \<open>\<open>DLIST_ADD\<close> puts the token in front; the search finds the newest.\<close>

definition ndr_token_store :: "ptr \<Rightarrow> u32 \<Rightarrow> token_list \<Rightarrow> token_list" where
  "ndr_token_store key v ts = (key, v) # ts"

fun ndr_token_retrieve_cmp_fn ::
    "(ptr \<Rightarrow> ptr \<Rightarrow> int) option \<Rightarrow> bool \<Rightarrow> ptr \<Rightarrow> token_list \<Rightarrow> (u32 \<times> token_list) option" where
  "ndr_token_retrieve_cmp_fn cmp_fn remove_tok key [] = None"
| "ndr_token_retrieve_cmp_fn cmp_fn remove_tok key ((k, v) # ts) =
     (if (case cmp_fn of None \<Rightarrow> k = key | Some f \<Rightarrow> f k key = 0)
      then Some (v, if remove_tok then ts else (k, v) # ts)
      else case ndr_token_retrieve_cmp_fn cmp_fn remove_tok key ts of None \<Rightarrow> None | Some (w, ts') \<Rightarrow> Some (w, (k, v) # ts'))"

definition ndr_token_retrieve :: "ptr \<Rightarrow> token_list \<Rightarrow> (u32 \<times> token_list) option" where
  "ndr_token_retrieve key ts = ndr_token_retrieve_cmp_fn None True key ts"

definition ndr_token_peek :: "ptr \<Rightarrow> token_list \<Rightarrow> u32" where
  "ndr_token_peek key ts = (case ndr_token_retrieve_cmp_fn None False key ts of None \<Rightarrow> 0 | Some (v, _) \<Rightarrow> v)"

definition ndr_push_unique_ptr :: "ptr option \<Rightarrow> (unit, ndr_push) ncall" where
  "ndr_push_unique_ptr p s =
     (case p of
        None \<Rightarrow> ndr_push_uint32 0 s
      | Some _ \<Rightarrow> ndr_push_uint32 (np_ptr_count s * 4 OR 0x00020000) (s\<lparr>np_ptr_count := np_ptr_count s + 1\<rparr>))"

definition ndr_push_full_ptr :: "ptr option \<Rightarrow> (unit, ndr_push) ncall" where
  "ndr_push_full_ptr p s =
     (case p of
        None \<Rightarrow> ndr_push_uint32 0 s
      | Some k \<Rightarrow>
          (let id = ndr_token_peek k (np_full_ptr_list s) in
           if id = 0
           then (let n = np_ptr_count s + 1
                 in ndr_push_uint32 n (s\<lparr>np_ptr_count := n, np_full_ptr_list := ndr_token_store k n (np_full_ptr_list s)\<rparr>))
           else ndr_push_uint32 id s))"

definition ndr_push_ref_ptr :: "(unit, ndr_push) ncall" where
  "ndr_push_ref_ptr = ndr_push_uint32 0xAEF1AEF1"

definition ndr_pull_array_size :: "ptr \<Rightarrow> (unit, ndr_pull) ncall" where
  "ndr_pull_array_size p = nbind ndr_pull_uint32
     (\<lambda>v s. NOk () (s\<lparr>nl_array_size_list := ndr_token_store p v (nl_array_size_list s)\<rparr>))"

definition ndr_get_array_size :: "ptr \<Rightarrow> ndr_pull \<Rightarrow> u32" where
  "ndr_get_array_size p s = ndr_token_peek p (nl_array_size_list s)"

definition ndr_check_array_size :: "ptr \<Rightarrow> u32 \<Rightarrow> (unit, ndr_pull) ncall" where
  "ndr_check_array_size p v s =
     (if ndr_token_peek p (nl_array_size_list s) \<noteq> v then ndr_error NDR_ERR_ARRAY_SIZE s else NOk () s)"

definition ndr_pull_array_length :: "ptr \<Rightarrow> (unit, ndr_pull) ncall" where
  "ndr_pull_array_length p = nbind ndr_pull_uint32
     (\<lambda>ofs. if ofs \<noteq> 0 then ndr_error NDR_ERR_ARRAY_SIZE
            else nbind ndr_pull_uint32
              (\<lambda>v s. NOk () (s\<lparr>nl_array_length_list := ndr_token_store p v (nl_array_length_list s)\<rparr>)))"

definition ndr_get_array_length :: "ptr \<Rightarrow> ndr_pull \<Rightarrow> u32" where
  "ndr_get_array_length p s = ndr_token_peek p (nl_array_length_list s)"

definition ndr_check_array_length :: "ptr \<Rightarrow> u32 \<Rightarrow> (unit, ndr_pull) ncall" where
  "ndr_check_array_length p v s =
     (if ndr_token_peek p (nl_array_length_list s) \<noteq> v then ndr_error NDR_ERR_ARRAY_SIZE s else NOk () s)"

text \<open>The saved position; a pull also saves the size.\<close>

definition ndr_pull_save :: "ndr_pull \<Rightarrow> u32 \<times> u32" where
  "ndr_pull_save s = (nl_offset s, nl_size s)"

definition ndr_pull_restore :: "u32 \<times> u32 \<Rightarrow> ndr_pull \<Rightarrow> ndr_pull" where
  "ndr_pull_restore save s = s\<lparr>nl_offset := fst save, nl_size := snd save\<rparr>"

definition ndr_push_save :: "ndr_push \<Rightarrow> u32" where
  "ndr_push_save s = np_offset s"

definition ndr_push_restore :: "u32 \<Rightarrow> ndr_push \<Rightarrow> ndr_push" where
  "ndr_push_restore save s = s\<lparr>np_offset := save\<rparr>"

definition ndr_push_set_switch_value :: "ptr \<Rightarrow> u32 \<Rightarrow> ndr_push \<Rightarrow> ndr_push" where
  "ndr_push_set_switch_value p v s = s\<lparr>np_switch_list := ndr_token_store p v (np_switch_list s)\<rparr>"

definition ndr_pull_set_switch_value :: "ptr \<Rightarrow> u32 \<Rightarrow> ndr_pull \<Rightarrow> ndr_pull" where
  "ndr_pull_set_switch_value p v s = s\<lparr>nl_switch_list := ndr_token_store p v (nl_switch_list s)\<rparr>"

definition ndr_push_get_switch_value :: "ptr \<Rightarrow> ndr_push \<Rightarrow> u32" where
  "ndr_push_get_switch_value p s = ndr_token_peek p (np_switch_list s)"

definition ndr_pull_get_switch_value :: "ptr \<Rightarrow> ndr_pull \<Rightarrow> u32" where
  "ndr_pull_get_switch_value p s = ndr_token_peek p (nl_switch_list s)"

section \<open>Relative pointers\<close>

definition ndr_push_get_relative_base_offset :: "ndr_push \<Rightarrow> u32" where
  "ndr_push_get_relative_base_offset s = np_relative_base s"

definition ndr_push_restore_relative_base_offset :: "u32 \<Rightarrow> ndr_push \<Rightarrow> ndr_push" where
  "ndr_push_restore_relative_base_offset ofs s = s\<lparr>np_relative_base := ofs\<rparr>"

definition ndr_push_setup_relative_base_offset1 :: "ptr \<Rightarrow> u32 \<Rightarrow> ndr_push \<Rightarrow> ndr_push" where
  "ndr_push_setup_relative_base_offset1 p ofs s =
     s\<lparr>np_relative_base := ofs, np_relative_base_list := ndr_token_store p ofs (np_relative_base_list s)\<rparr>"

definition ndr_push_setup_relative_base_offset2 :: "ptr \<Rightarrow> (unit, ndr_push) ncall" where
  "ndr_push_setup_relative_base_offset2 p s =
     (case ndr_token_retrieve p (np_relative_base_list s) of
        None \<Rightarrow> ndr_error NDR_ERR_TOKEN s
      | Some (v, ts) \<Rightarrow> NOk () (s\<lparr>np_relative_base := v, np_relative_base_list := ts\<rparr>))"

definition ndr_push_relative_ptr1 :: "ptr option \<Rightarrow> (unit, ndr_push) ncall" where
  "ndr_push_relative_ptr1 p =
     (case p of
        None \<Rightarrow> ndr_push_uint32 0
      | Some k \<Rightarrow> nseq (ndr_push_align 4)
          (\<lambda>s. ndr_push_uint32 0xFFFFFFFF (s\<lparr>np_relative_list := ndr_token_store k (np_offset s) (np_relative_list s)\<rparr>)))"

definition ndr_push_relative_ptr2 :: "ptr option \<Rightarrow> (unit, ndr_push) ncall" where
  "ndr_push_relative_ptr2 p s =
     (case p of
        None \<Rightarrow> NOk () s
      | Some k \<Rightarrow>
          (case ndr_token_retrieve k (np_relative_list s) of
             None \<Rightarrow> ndr_error NDR_ERR_TOKEN s
           | Some (ptr_offset, ts) \<Rightarrow>
               (let s1 = s\<lparr>np_relative_list := ts\<rparr>; save = ndr_push_save s in
                if save < ptr_offset then ndr_error NDR_ERR_BUFSIZE s1
                else
                  (let s2 = s1\<lparr>np_offset := ptr_offset\<rparr> in
                   if save < np_relative_base s then ndr_error NDR_ERR_BUFSIZE s2
                   else nbind (ndr_push_uint32 (save - np_relative_base s)) (\<lambda>_ t. NOk () (ndr_push_restore save t)) s2))))"

definition ndr_pull_get_relative_base_offset :: "ndr_pull \<Rightarrow> u32" where
  "ndr_pull_get_relative_base_offset s = nl_relative_base s"

definition ndr_pull_restore_relative_base_offset :: "u32 \<Rightarrow> ndr_pull \<Rightarrow> ndr_pull" where
  "ndr_pull_restore_relative_base_offset ofs s = s\<lparr>nl_relative_base := ofs\<rparr>"

definition ndr_pull_setup_relative_base_offset1 :: "ptr \<Rightarrow> u32 \<Rightarrow> ndr_pull \<Rightarrow> ndr_pull" where
  "ndr_pull_setup_relative_base_offset1 p ofs s =
     s\<lparr>nl_relative_base := ofs, nl_relative_base_list := ndr_token_store p ofs (nl_relative_base_list s)\<rparr>"

definition ndr_pull_setup_relative_base_offset2 :: "ptr \<Rightarrow> (unit, ndr_pull) ncall" where
  "ndr_pull_setup_relative_base_offset2 p s =
     (case ndr_token_retrieve p (nl_relative_base_list s) of
        None \<Rightarrow> ndr_error NDR_ERR_TOKEN s
      | Some (v, ts) \<Rightarrow> NOk () (s\<lparr>nl_relative_base := v, nl_relative_base_list := ts\<rparr>))"

definition ndr_pull_relative_ptr1 :: "ptr \<Rightarrow> u32 \<Rightarrow> ndr_pull \<Rightarrow> ndr_pull" where
  "ndr_pull_relative_ptr1 p rel s = s\<lparr>nl_relative_list := ndr_token_store p rel (nl_relative_list s)\<rparr>"

definition ndr_pull_relative_ptr2 :: "ptr \<Rightarrow> (unit, ndr_pull) ncall" where
  "ndr_pull_relative_ptr2 p s =
     (case ndr_token_retrieve p (nl_relative_list s) of
        None \<Rightarrow> ndr_error NDR_ERR_TOKEN s
      | Some (v, ts) \<Rightarrow>
          (let s1 = s\<lparr>nl_relative_list := ts\<rparr>; rel = v + nl_relative_base s
           in if nl_size s < rel then ndr_error NDR_ERR_BUFSIZE s1 else ndr_pull_set_offset rel s1))"

section \<open>Subcontexts\<close>

text \<open>
  \<open>size_is\<close> is a \<open>ssize_t\<close>, here an int. The value is the structure of the inner context: its
  data starts at the offset of the outer one.
\<close>

definition inner_pull :: "u32 \<Rightarrow> ndr_pull \<Rightarrow> ndr_pull" where
  "inner_pull n s = (ndr_pull_init_blob [])\<lparr>nl_flags := nl_flags s, nl_data := drop (unat (nl_offset s)) (nl_data s), nl_size := n\<rparr>"

definition subcontext_header :: "nat \<Rightarrow> int \<Rightarrow> (u32, ndr_pull) ncall" where
  "subcontext_header header_size size_is =
     (if header_size = 0 then (\<lambda>s. NOk (if 0 \<le> size_is then word_of_int size_is else nl_size s - nl_offset s) s)
      else if header_size = 2 then nbind ndr_pull_uint16
        (\<lambda>v. if 0 \<le> size_is \<and> size_is \<noteq> uint v then ndr_error NDR_ERR_SUBCONTEXT else nret (ucast v :: u32))
      else if header_size = 4 then nbind ndr_pull_uint32
        (\<lambda>v. if 0 \<le> size_is \<and> size_is \<noteq> uint v then ndr_error NDR_ERR_SUBCONTEXT else nret v)
      else ndr_error NDR_ERR_SUBCONTEXT)"

definition ndr_pull_subcontext_start :: "nat \<Rightarrow> int \<Rightarrow> (ndr_pull, ndr_pull) ncall" where
  "ndr_pull_subcontext_start header_size size_is =
     nbind (subcontext_header header_size size_is) (\<lambda>n. nseq (NDR_PULL_NEED_BYTES n) (\<lambda>s. NOk (inner_pull n s) s))"

definition ndr_pull_subcontext_end :: "ndr_pull \<Rightarrow> nat \<Rightarrow> int \<Rightarrow> (unit, ndr_pull) ncall" where
  "ndr_pull_subcontext_end subndr header_size size_is =
     ndr_pull_advance (if 0 \<le> size_is then word_of_int size_is
                       else if 0 < header_size then nl_size subndr else nl_offset subndr)"

definition ndr_push_subcontext_start :: "ndr_push \<Rightarrow> ndr_push" where
  "ndr_push_subcontext_start s = (ndr_push_init_ctx (np_fill s))\<lparr>np_flags := np_flags s\<rparr>"

definition ndr_push_subcontext_end :: "ndr_push \<Rightarrow> nat \<Rightarrow> int \<Rightarrow> (unit, ndr_push) ncall" where
  "ndr_push_subcontext_end subndr header_size size_is s =
     (let padding_len = size_is - uint (np_offset subndr) in
      if 0 \<le> size_is \<and> padding_len < 0 then ndr_error NDR_ERR_SUBCONTEXT s
      else
        (case (if 0 \<le> size_is \<and> 0 < padding_len then ndr_push_zero (word_of_int padding_len) subndr else NOk () subndr) of
           NBad \<Rightarrow> NBad
         | NErr e _ \<Rightarrow> NErr e s
         | NOk _ sub \<Rightarrow>
             nseq (if header_size = 0 then nret ()
                   else if header_size = 2 then ndr_push_uint16 (ucast (np_offset sub))
                   else if header_size = 4 then ndr_push_uint32 (np_offset sub)
                   else ndr_error NDR_ERR_SUBCONTEXT)
               (ndr_push_bytes (np_data sub) (np_offset sub)) s))"

section \<open>Whole structures\<close>

text \<open>
  The helpers that run a reader or a writer of a structure on a fresh context; \<open>Inl\<close> is the
  status of a failure, None an access outside the buffer.
\<close>

definition ndr_pull_struct_blob :: "u8 list \<Rightarrow> ('a, ndr_pull) ncall \<Rightarrow> (NTSTATUS + 'a) option" where
  "ndr_pull_struct_blob blob fn =
     (case fn (ndr_pull_init_blob blob) of NOk x s \<Rightarrow> Some (Inr x) | NErr e s \<Rightarrow> Some (Inl e) | NBad \<Rightarrow> None)"

definition ndr_pull_struct_blob_all :: "u8 list \<Rightarrow> ('a, ndr_pull) ncall \<Rightarrow> (NTSTATUS + 'a) option" where
  "ndr_pull_struct_blob_all blob fn =
     (case fn (ndr_pull_init_blob blob) of
        NOk x s \<Rightarrow> Some (if nl_offset s \<noteq> nl_size s then Inl NT_STATUS_BUFFER_TOO_SMALL else Inr x)
      | NErr e s \<Rightarrow> Some (Inl e)
      | NBad \<Rightarrow> None)"

definition ndr_pull_union_blob :: "u8 list \<Rightarrow> ptr \<Rightarrow> u32 \<Rightarrow> ('a, ndr_pull) ncall \<Rightarrow> (NTSTATUS + 'a) option" where
  "ndr_pull_union_blob blob p level fn =
     (case fn (ndr_pull_set_switch_value p level (ndr_pull_init_blob blob)) of
        NOk x s \<Rightarrow> Some (if nl_offset s \<noteq> nl_size s then Inl NT_STATUS_BUFFER_TOO_SMALL else Inr x)
      | NErr e s \<Rightarrow> Some (Inl e)
      | NBad \<Rightarrow> None)"

definition push_to_blob :: "(unit, ndr_push) ncall \<Rightarrow> ndr_push \<Rightarrow> (NTSTATUS + u8 list) option" where
  "push_to_blob fn s =
     (case nseq fn ndr_push_blob s of NOk b _ \<Rightarrow> Some (Inr b) | NErr e _ \<Rightarrow> Some (Inl e) | NBad \<Rightarrow> None)"

definition ndr_push_struct_blob :: "(nat \<Rightarrow> u8) \<Rightarrow> (unit, ndr_push) ncall \<Rightarrow> (NTSTATUS + u8 list) option" where
  "ndr_push_struct_blob fill fn = push_to_blob fn (ndr_push_init_ctx fill)"

definition ndr_push_union_blob ::
    "(nat \<Rightarrow> u8) \<Rightarrow> ptr \<Rightarrow> u32 \<Rightarrow> (unit, ndr_push) ncall \<Rightarrow> (NTSTATUS + u8 list) option" where
  "ndr_push_union_blob fill p level fn = push_to_blob fn (ndr_push_set_switch_value p level (ndr_push_init_ctx fill))"

text \<open>The size a structure takes: it is pushed, with a flag against recursion; 0 when that fails.\<close>

definition ndr_size_struct :: "(nat \<Rightarrow> u8) \<Rightarrow> u32 \<Rightarrow> (unit, ndr_push) ncall \<Rightarrow> u32 option" where
  "ndr_size_struct fill flags push =
     (if flags AND LIBNDR_FLAG_NO_NDR_SIZE \<noteq> 0 then Some 0
      else
        (case push ((ndr_push_init_ctx fill)\<lparr>np_flags := flags OR LIBNDR_FLAG_NO_NDR_SIZE\<rparr>) of
           NOk _ s \<Rightarrow> Some (np_offset s) | NErr _ _ \<Rightarrow> Some 0 | NBad \<Rightarrow> None))"

definition ndr_size_union :: "(nat \<Rightarrow> u8) \<Rightarrow> u32 \<Rightarrow> ptr \<Rightarrow> u32 \<Rightarrow> (unit, ndr_push) ncall \<Rightarrow> u32 option" where
  "ndr_size_union fill flags p level push =
     (if flags AND LIBNDR_FLAG_NO_NDR_SIZE \<noteq> 0 then Some 0
      else
        (case push (ndr_push_set_switch_value p level ((ndr_push_init_ctx fill)\<lparr>np_flags := flags OR LIBNDR_FLAG_NO_NDR_SIZE\<rparr>)) of
           NOk _ s \<Rightarrow> Some (np_offset s) | NErr _ _ \<Rightarrow> Some 0 | NBad \<Rightarrow> None))"

end
