(* ===== verification/NdrProps.thy ===== *)
theory NdrProps
  imports Ndr
begin

text \<open>
  Properties of the marshalling library: what the writers append, that what is written is read
  back, that no reader leaves its buffer, and how pointers are numbered.
\<close>

section \<open>Byte order\<close>

lemma mask_numerals:
  "(v :: 'a::len word) AND 0xFF = take_bit 8 v" "v AND 0xFFFF = take_bit 16 v" "v AND 0xFFFFFFFF = take_bit 32 v"
  by (simp_all add: take_bit_eq_mask mask_eq_exp_minus_1)

lemma bit_u8: "bit (b :: u8) n \<Longrightarrow> n < 8"
  using bit_imp_le_length by fastforce

lemma SREV_bits: "bit (SREV x) n \<longleftrightarrow> n < 8 \<and> bit x (8 + n) \<or> 8 \<le> n \<and> n < 16 \<and> bit x (n - 8)"
  by (cases "n < 8") (auto simp: SREV_def mask_numerals bit_simps)

lemma IREV_bits:
  "bit (IREV x) n \<longleftrightarrow>
     (if n < 8 then bit x (24 + n) else if n < 16 then bit x (8 + n)
      else if n < 24 then bit x (n - 8) else n < 32 \<and> bit x (n - 24))"
  by (auto simp: IREV_def SREV_bits bit_simps)

lemma IREV_IREV: "IREV (IREV x) = x"
proof (rule bit_word_eqI)
  fix n assume "n < LENGTH(32)"
  then consider "n < 8" | "8 \<le> n" "n < 16" | "16 \<le> n" "n < 24" | "24 \<le> n" "n < 32" by force
  then show "bit (IREV (IREV x)) n = bit x n" by cases (simp_all add: IREV_bits less_diff_conv2)
qed

lemma SREV_SREV: "ucast (SREV (SREV (ucast (x :: u16)))) = x"
proof (rule bit_word_eqI)
  fix n assume "n < LENGTH(16)"
  then have "n < 8 \<or> 8 \<le> n \<and> n < 16" by auto
  then show "bit (ucast (SREV (SREV (ucast x))) :: u16) n = bit x n" by (auto simp: SREV_bits bit_simps)
qed

lemma length_SVALs [simp]: "length (SSVAL v) = 2" "length (SIVAL w) = 4" "length (NDR_SSVAL fl v) = 2" "length (NDR_SIVAL fl w) = 4"
  by (simp_all add: SSVAL_def SIVAL_def NDR_SSVAL_def NDR_SIVAL_def)

lemma SVAL_at: "SVAL (pre @ SSVAL v @ r) (length pre) = ucast v"
proof (rule bit_word_eqI)
  fix n assume "n < LENGTH(32)"
  then show "bit (SVAL (pre @ SSVAL v @ r) (length pre)) n = bit (ucast v :: u32) n"
    using bit_imp_le_length [of v n]
    by (cases "n < 8") (auto simp: SVAL_def SSVAL_def nth_append mask_numerals bit_simps)
qed

lemma IVAL_at: "IVAL (pre @ SIVAL v @ r) (length pre) = v"
proof -
  have "SVAL (pre @ SIVAL v @ r) (length pre) = ucast (ucast (v AND 0xFFFF) :: u16)"
    unfolding SIVAL_def append_assoc by (rule SVAL_at)
  moreover have "SVAL ((pre @ SSVAL (ucast (v AND 0xFFFF))) @ SSVAL (ucast (drop_bit 16 v)) @ r) (length pre + 2)
      = ucast (ucast (drop_bit 16 v) :: u16)"
    using SVAL_at [of "pre @ SSVAL (ucast (v AND 0xFFFF))"] by simp
  ultimately show ?thesis
    by (auto simp: IVAL_def SIVAL_def mask_numerals bit_simps intro!: bit_word_eqI)
qed

lemma SREV_u16: "ucast (ucast (SREV y) :: u16) = SREV y"
  by (rule bit_word_eqI) (auto simp: bit_simps SREV_bits)

lemma u16_up_down: "ucast (ucast (v :: u16) :: u32) = v"
  by (rule bit_word_eqI) (simp add: bit_simps)

lemma NDR_SVAL_at:
  "nl_data s = pre @ NDR_SSVAL (nl_flags s) v @ r \<Longrightarrow> unat ofs = length pre \<Longrightarrow> ucast (NDR_SVAL s ofs) = v"
  using SREV_SREV [of v] SVAL_at [of pre _ r]
  by (auto simp: NDR_SVAL_def NDR_SSVAL_def Let_def SREV_u16 u16_up_down)

lemma NDR_IVAL_at:
  "nl_data s = pre @ NDR_SIVAL (nl_flags s) v @ r \<Longrightarrow> unat ofs = length pre \<Longrightarrow> NDR_IVAL s ofs = v"
  by (auto simp: NDR_IVAL_def NDR_SIVAL_def Let_def IVAL_at IREV_IREV)

section \<open>Alignment\<close>

definition pad_len :: "nat \<Rightarrow> nat \<Rightarrow> nat" where
  "pad_len n pos = (n - pos mod n) mod n"

lemma unat_push_drop: "unat (push_bit k (drop_bit k x) :: 'a::len word) = unat x div 2 ^ k * 2 ^ k"
proof -
  have "unat x div 2 ^ k * 2 ^ k \<le> unat x" by simp
  then have "unat x div 2 ^ k * 2 ^ k < 2 ^ LENGTH('a)" by (rule le_less_trans) simp
  then have "take_bit LENGTH('a) (push_bit k (drop_bit k (unat x))) = unat x div 2 ^ k * 2 ^ k"
    by (simp add: push_bit_eq_mult drop_bit_eq_div take_bit_nat_eq_self)
  moreover have "unat (push_bit k (drop_bit k x)) = take_bit LENGTH('a) (push_bit k (drop_bit k (unat x)))"
    unfolding unsigned_push_bit_eq unat_drop_bit_eq by simp
  ultimately show ?thesis by simp
qed

lemma unat_mask_word:
  assumes "k < LENGTH('a::len)"
  shows "unat (mask k :: 'a word) = 2 ^ k - 1"
proof -
  have "unat (word_of_nat (mask k) :: 'a word) = mask k"
    using assms by (simp add: unsigned_of_nat min_def)
  then show ?thesis unfolding of_nat_mask_eq by (simp only: mask_nat_def)
qed

lemma round_up: "0 < n \<Longrightarrow> (p + (n - 1)) div n * n = p + pad_len n p"
proof -
  assume n: "0 < n"
  define q r where "q = p div n" and "r = p mod n"
  have p: "p = q * n + r" "r < n" using n by (simp_all add: q_def r_def)
  show ?thesis
  proof (cases "r = 0")
    case True
    have "(p + (n - 1)) div n = q"
    proof (rule div_nat_eqI)
      show "n * q \<le> p + (n - 1)" "p + (n - 1) < n * Suc q" using p n True by (simp_all add: algebra_simps)
    qed
    then show ?thesis using True p(1) unfolding pad_len_def r_def [symmetric] by simp
  next
    case False
    have "(p + (n - 1)) div n = q + 1"
    proof (rule div_nat_eqI)
      show "n * (q + 1) \<le> p + (n - 1)" using p False by (simp add: algebra_simps)
      show "p + (n - 1) < n * Suc (q + 1)" using p n by (simp add: algebra_simps)
    qed
    moreover have "pad_len n p = n - r" using False p(2) unfolding pad_len_def r_def [symmetric] by simp
    ultimately show ?thesis using p by (simp add: algebra_simps)
  qed
qed

lemma pad_len_less: "0 < n \<Longrightarrow> pad_len n p < n"
  by (simp add: pad_len_def)

lemma unat_round_up:
  assumes "k < LENGTH('a::len)" "unat pos + 2 ^ k \<le> 2 ^ LENGTH('a)"
  shows "unat ((pos + mask k) AND NOT (mask k) :: 'a word) = unat pos + pad_len (2 ^ k) (unat pos)"
proof -
  have "(pos + mask k) AND NOT (mask k) = push_bit k (drop_bit k (pos + mask k))"
    by (auto simp: bit_simps intro!: bit_word_eqI)
  moreover have "unat pos + (2 ^ k - 1) < 2 ^ LENGTH('a)"
    by (rule less_le_trans [OF _ assms(2)]) simp
  then have "unat (pos + mask k) = unat pos + (2 ^ k - 1)"
    using assms(1) by (simp add: unat_word_ariths unat_mask_word)
  ultimately show ?thesis using round_up [of "2 ^ k" "unat pos"] by (simp add: unat_push_drop)
qed

lemma align_up_pad:
  assumes "k < 32" "unat pos + 2 ^ k \<le> 2 ^ 32"
  shows "unat (align_up pos (2 ^ k)) = unat pos + pad_len (2 ^ k) (unat pos)"
    "unat (align_up pos (2 ^ k) - pos) = pad_len (2 ^ k) (unat pos)"
proof -
  show up: "unat (align_up pos (2 ^ k)) = unat pos + pad_len (2 ^ k) (unat pos)"
    using unat_round_up [of k pos] assms by (simp add: align_up_def mask_eq_exp_minus_1)
  show "unat (align_up pos (2 ^ k) - pos) = pad_len (2 ^ k) (unat pos)"
    using up by (simp add: unat_sub_if')
qed

section \<open>What the writers append\<close>

definition push_wf :: "ndr_push \<Rightarrow> bool" where
  "push_wf s \<longleftrightarrow> length (np_data s) = unat (np_alloc s) \<and> unat (np_offset s) \<le> unat (np_alloc s)"

definition marshalled :: "ndr_push \<Rightarrow> u8 list" where
  "marshalled s = take (unat (np_offset s)) (np_data s)"

lemma length_marshalled: "push_wf s \<Longrightarrow> length (marshalled s) = unat (np_offset s)"
  by (simp add: push_wf_def marshalled_def)

definition push_frame :: "ndr_push \<Rightarrow> ndr_push" where
  "push_frame s = s\<lparr>np_data := [], np_alloc := 0, np_offset := 0\<rparr>"

text \<open>\<open>pushed bs s t\<close>: from \<open>s\<close> to \<open>t\<close> the bytes \<open>bs\<close> are appended and nothing else changes.\<close>

definition pushed :: "u8 list \<Rightarrow> ndr_push \<Rightarrow> ndr_push \<Rightarrow> bool" where
  "pushed bs s t \<longleftrightarrow> push_wf s \<and> push_wf t \<and> marshalled t = marshalled s @ bs \<and> push_frame t = push_frame s"

lemma pushed_refl: "push_wf s \<Longrightarrow> pushed [] s s"
  by (simp add: pushed_def)

lemma pushed_trans: "pushed as s t \<Longrightarrow> pushed bs t u \<Longrightarrow> pushed (as @ bs) s u"
  by (simp add: pushed_def)

lemma pushed_fields:
  assumes "pushed bs s t"
  shows "push_wf s" "push_wf t" "unat (np_offset t) = unat (np_offset s) + length bs" "np_flags t = np_flags s"
    "np_ptr_count t = np_ptr_count s" "np_fill t = np_fill s"
proof -
  show wf: "push_wf s" "push_wf t" using assms by (simp_all add: pushed_def)
  have "length (marshalled t) = length (marshalled s) + length bs" using assms by (simp add: pushed_def)
  then show "unat (np_offset t) = unat (np_offset s) + length bs" using wf by (simp add: length_marshalled)
  have fr: "push_frame t = push_frame s" using assms by (simp add: pushed_def)
  show "np_flags t = np_flags s" using arg_cong [OF fr, of np_flags] by (simp add: push_frame_def)
  show "np_ptr_count t = np_ptr_count s" using arg_cong [OF fr, of np_ptr_count] by (simp add: push_frame_def)
  show "np_fill t = np_fill s" using arg_cong [OF fr, of np_fill] by (simp add: push_frame_def)
qed

text \<open>\<open>writes m bs s\<close>: run from \<open>s\<close>, the call succeeds and appends \<open>bs\<close>.\<close>

definition writes :: "(unit, ndr_push) ncall \<Rightarrow> u8 list \<Rightarrow> ndr_push \<Rightarrow> bool" where
  "writes m bs s \<longleftrightarrow> (\<exists>t. m s = NOk () t \<and> pushed bs s t)"

lemma writes_seq:
  "writes m as s \<Longrightarrow> (\<And>t. pushed as s t \<Longrightarrow> writes k bs t) \<Longrightarrow> writes (nseq m k) (as @ bs) s"
  unfolding writes_def nseq_def nbind_def using pushed_trans by fastforce

lemma resize_grow: "length data \<le> n \<Longrightarrow> length (resize fill n data) = n \<and> take (length data) (resize fill n data) = data"
  by (simp add: resize_def)

lemma NDR_PUSH_NEED_BYTES_room:
  assumes wf: "push_wf s" and n: "unat (np_offset s) + n + 1 < 2 ^ 32"
  shows "\<exists>t. NDR_PUSH_NEED_BYTES (of_nat n) s = NOk () t \<and> pushed [] s t \<and> np_offset t = np_offset s \<and>
           unat (np_offset s) + n < length (np_data t)"
proof -
  define sz where "sz = np_offset s + of_nat n"
  have sz: "unat sz = unat (np_offset s) + n" "unat (sz + 1) = unat sz + 1"
    using n by (simp_all add: sz_def unat_word_ariths unsigned_of_nat take_bit_nat_eq_self)
  show ?thesis
  proof (cases "sz < np_alloc s")
    case True
    then show ?thesis using wf sz pushed_refl [OF wf]
      by (simp add: NDR_PUSH_NEED_BYTES_def ndr_push_expand_def sz_def [symmetric] word_less_nat_alt push_wf_def)
  next
    case False
    define a where "a = (if np_alloc s + NDR_BASE_MARSHALL_SIZE < sz + 1 then sz + 1 else np_alloc s + NDR_BASE_MARSHALL_SIZE)"
    define t where "t = s\<lparr>np_alloc := a, np_data := resize (np_fill s) (unat a) (np_data s)\<rparr>"
    have a: "unat sz < unat a" using sz(2) by (auto simp: a_def word_less_nat_alt)
    then have le: "length (np_data s) \<le> unat a"
      using False wf by (simp add: word_less_nat_alt push_wf_def)
    then have "take (unat (np_offset s)) (resize (np_fill s) (unat a) (np_data s)) = take (unat (np_offset s)) (np_data s)"
      using wf by (simp add: resize_def push_wf_def)
    then have "pushed [] s t" using wf resize_grow [OF le, of "np_fill s"] a False sz
      by (simp add: pushed_def t_def push_wf_def marshalled_def push_frame_def word_less_nat_alt)
    moreover have "a \<noteq> 0" using a by auto
    then have "NDR_PUSH_NEED_BYTES (of_nat n) s = NOk () t" using False
      by (simp add: NDR_PUSH_NEED_BYTES_def ndr_push_expand_def sz_def [symmetric] Let_def a_def t_def)
    moreover have "unat (np_offset s) + n < length (np_data t)"
      using a sz(1) resize_grow [OF le, of "np_fill s"] by (simp add: t_def)
    ultimately show ?thesis by (auto simp: t_def)
  qed
qed

lemma store_advance:
  assumes wf: "push_wf s" and room: "unat (np_offset s) + length bs < length (np_data s)"
  shows "writes (nseq (store_here bs) (push_advance (of_nat (length bs)))) bs s"
proof -
  have "unat (np_offset s) + length bs < 2 ^ 32"
    using room wf unat_u32_less [of "np_alloc s"] by (simp add: push_wf_def)
  then have "unat (np_offset s + of_nat (length bs)) = unat (np_offset s) + length bs"
    by (simp add: unat_word_ariths unsigned_of_nat take_bit_nat_eq_self)
  then show ?thesis using wf room
    by (simp add: writes_def nseq_def nbind_def store_here_def store_at_def push_advance_def pushed_def push_wf_def
        marshalled_def push_frame_def)
qed

text \<open>Room for the bytes, which may depend on the flags, then the bytes.\<close>

lemma writes_room:
  assumes wf: "push_wf s" and n: "unat (np_offset s) + n + 1 < 2 ^ 32" and len: "length (f (np_flags s)) = n"
  shows "writes (nseq (NDR_PUSH_NEED_BYTES (of_nat n)) (nseq (\<lambda>t. store_here (f (np_flags t)) t) (push_advance (of_nat n)))) (f (np_flags s)) s"
proof -
  obtain t where t: "NDR_PUSH_NEED_BYTES (of_nat n) s = NOk () t" "pushed [] s t" "np_offset t = np_offset s"
      "unat (np_offset s) + n < length (np_data t)"
    using NDR_PUSH_NEED_BYTES_room [OF wf n] by blast
  have "writes (nseq (store_here (f (np_flags s))) (push_advance (of_nat n))) (f (np_flags s)) t"
    using store_advance [of t "f (np_flags s)"] pushed_fields [OF t(2)] t(3,4) len by simp
  then show ?thesis
    using t(1) pushed_trans [OF t(2)] pushed_fields(4) [OF t(2)] by (auto simp: writes_def nseq_def nbind_def)
qed

lemma writes_push_raw:
  "push_wf s \<Longrightarrow> unat (np_offset s) + length bs + 1 < 2 ^ 32 \<Longrightarrow> writes (push_raw bs) bs s"
  unfolding push_raw_def using writes_room [of s "length bs" "\<lambda>_. bs"] by simp

lemma writes_push_pad:
  "push_wf s \<Longrightarrow> unat (np_offset s) + n + 1 < 2 ^ 32 \<Longrightarrow> writes (push_pad n) (replicate n 0) s"
proof (induction n arbitrary: s)
  case 0
  then show ?case by (simp add: writes_def pushed_refl)
next
  case (Suc n)
  have "writes (nseq (ndr_push_uint8 0) (push_pad n)) ([0] @ replicate n 0) s"
  proof (rule writes_seq)
    show "writes (ndr_push_uint8 0) [0] s" using Suc.prems by (simp add: ndr_push_uint8_def writes_push_raw)
    show "writes (push_pad n) (replicate n 0) t" if "pushed [0] s t" for t
      using Suc.IH [of t] Suc.prems(2) pushed_fields [OF that] by simp
  qed
  then show ?case by (simp add: writes_def)
qed

definition padding :: "u32 \<Rightarrow> nat \<Rightarrow> nat \<Rightarrow> u8 list" where
  "padding fl n pos = (if fl AND LIBNDR_FLAG_NOALIGN = 0 then replicate (pad_len n pos) 0 else [])"

lemma length_padding: "0 < n \<Longrightarrow> length (padding fl n pos) < n"
  by (simp add: padding_def pad_len_less)

lemma writes_align:
  assumes "push_wf s" "k < 32" "unat (np_offset s) + 2 ^ k < 2 ^ 32"
  shows "writes (NDR_PUSH_ALIGN (2 ^ k)) (padding (np_flags s) (2 ^ k) (unat (np_offset s))) s"
  using assms writes_push_pad [of s "pad_len (2 ^ k) (unat (np_offset s))"] pad_len_less [of "2 ^ k" "unat (np_offset s)"]
  by (simp add: NDR_PUSH_ALIGN_def padding_def align_up_pad(2) writes_def pushed_refl)

lemma writes_push_aligned:
  assumes wf: "push_wf s" and k: "k < 32" and room: "unat (np_offset s) + 2 ^ k + n < 2 ^ 32"
    and len: "length (f (np_flags s)) = n"
  shows "writes (push_aligned (2 ^ k) n f) (padding (np_flags s) (2 ^ k) (unat (np_offset s)) @ f (np_flags s)) s"
  unfolding push_aligned_def
proof (rule writes_seq)
  show "writes (NDR_PUSH_ALIGN (2 ^ k)) (padding (np_flags s) (2 ^ k) (unat (np_offset s))) s"
    using wf k room by (simp add: writes_align)
  fix t assume t: "pushed (padding (np_flags s) (2 ^ k) (unat (np_offset s))) s t"
  note t = pushed_fields [OF t] length_padding [of "2 ^ k" "np_flags s" "unat (np_offset s)"]
  show "writes (nseq (NDR_PUSH_NEED_BYTES (of_nat n)) (nseq (\<lambda>s. store_here (f (np_flags s)) s) (push_advance (of_nat n))))
          (f (np_flags s)) t"
    using writes_room [of t n f] t room len by simp
qed

section \<open>Sequences of values\<close>

text \<open>
  A marshalled call is a sequence of values. The representation of a value depends on the flags
  and on the position it starts at.
\<close>

datatype ndr_item = Uint8 u8 | Uint16 u16 | Uint32 u32 | Udlong u64 | Udlongr u64 | Hyper u64 | Bytes "u8 list"

definition udlong_bytes :: "u32 \<Rightarrow> nat \<Rightarrow> u64 \<Rightarrow> u8 list" where
  "udlong_bytes fl pos v =
     padding fl 4 pos @ NDR_SIVAL fl (ucast (v AND 0xFFFFFFFF)) @ NDR_SIVAL fl (ucast (drop_bit 32 v))"

primrec item_bytes :: "u32 \<Rightarrow> nat \<Rightarrow> ndr_item \<Rightarrow> u8 list" where
  "item_bytes fl pos (Uint8 v) = [v]"
| "item_bytes fl pos (Uint16 v) = padding fl 2 pos @ NDR_SSVAL fl v"
| "item_bytes fl pos (Uint32 v) = padding fl 4 pos @ NDR_SIVAL fl v"
| "item_bytes fl pos (Udlong v) = udlong_bytes fl pos v"
| "item_bytes fl pos (Udlongr v) =
     padding fl 4 pos @ NDR_SIVAL fl (ucast (drop_bit 32 v)) @ NDR_SIVAL fl (ucast (v AND 0xFFFFFFFF))"
| "item_bytes fl pos (Hyper v) =
     padding fl 8 pos @ udlong_bytes fl (pos + length (padding fl 8 pos)) v"
| "item_bytes fl pos (Bytes bs) = bs"

fun items_bytes :: "u32 \<Rightarrow> nat \<Rightarrow> ndr_item list \<Rightarrow> u8 list" where
  "items_bytes fl pos [] = []"
| "items_bytes fl pos (i # is) = item_bytes fl pos i @ items_bytes fl (pos + length (item_bytes fl pos i)) is"

fun push_item :: "ndr_item \<Rightarrow> (unit, ndr_push) ncall" where
  "push_item (Uint8 v) = ndr_push_uint8 v"
| "push_item (Uint16 v) = ndr_push_uint16 v"
| "push_item (Uint32 v) = ndr_push_uint32 v"
| "push_item (Udlong v) = ndr_push_udlong v"
| "push_item (Udlongr v) = ndr_push_udlongr v"
| "push_item (Hyper v) = ndr_push_hyper v"
| "push_item (Bytes bs) = ndr_push_bytes bs (of_nat (length bs))"

fun push_items :: "ndr_item list \<Rightarrow> (unit, ndr_push) ncall" where
  "push_items [] = nret ()"
| "push_items (i # is) = nseq (push_item i) (push_items is)"

text \<open>The reader of a value of the same kind.\<close>

fun pull_item :: "ndr_item \<Rightarrow> (ndr_item, ndr_pull) ncall" where
  "pull_item (Uint8 _) = nbind ndr_pull_uint8 (\<lambda>v. nret (Uint8 v))"
| "pull_item (Uint16 _) = nbind ndr_pull_uint16 (\<lambda>v. nret (Uint16 v))"
| "pull_item (Uint32 _) = nbind ndr_pull_uint32 (\<lambda>v. nret (Uint32 v))"
| "pull_item (Udlong _) = nbind ndr_pull_udlong (\<lambda>v. nret (Udlong v))"
| "pull_item (Udlongr _) = nbind ndr_pull_udlongr (\<lambda>v. nret (Udlongr v))"
| "pull_item (Hyper _) = nbind ndr_pull_hyper (\<lambda>v. nret (Hyper v))"
| "pull_item (Bytes bs) = nbind (ndr_pull_bytes (of_nat (length bs))) (\<lambda>v. nret (Bytes v))"

fun pull_items :: "ndr_item list \<Rightarrow> (ndr_item list, ndr_pull) ncall" where
  "pull_items [] = nret []"
| "pull_items (i # is) = nbind (pull_item i) (\<lambda>x. nbind (pull_items is) (\<lambda>xs. nret (x # xs)))"

lemma writes_udlong:
  assumes "push_wf s" "unat (np_offset s) + 12 < 2 ^ 32"
  shows "writes (ndr_push_udlong v) (udlong_bytes (np_flags s) (unat (np_offset s)) v) s"
  unfolding ndr_push_udlong_def udlong_bytes_def
  using writes_push_aligned [of s 2 8 "\<lambda>fl. NDR_SIVAL fl (ucast (v AND 0xFFFFFFFF)) @ NDR_SIVAL fl (ucast (drop_bit 32 v))"]
    assms by simp

lemma writes_hyper:
  assumes "push_wf s" "unat (np_offset s) + 20 < 2 ^ 32"
  shows "writes (ndr_push_hyper v) (item_bytes (np_flags s) (unat (np_offset s)) (Hyper v)) s"
  unfolding ndr_push_hyper_def item_bytes.simps(6)
proof (rule writes_seq)
  show "writes (NDR_PUSH_ALIGN 8) (padding (np_flags s) 8 (unat (np_offset s))) s"
    using writes_align [of s 3] assms by simp
  fix t assume t: "pushed (padding (np_flags s) 8 (unat (np_offset s))) s t"
  note t = pushed_fields [OF t] length_padding [of 8 "np_flags s" "unat (np_offset s)"]
  show "writes (ndr_push_udlong v)
          (udlong_bytes (np_flags s) (unat (np_offset s) + length (padding (np_flags s) 8 (unat (np_offset s)))) v) t"
    using writes_udlong [of t v] t assms by simp
qed

lemma writes_bytes:
  assumes "push_wf s" "unat (np_offset s) + length bs + 1 < 2 ^ 32"
  shows "writes (ndr_push_bytes bs (of_nat (length bs))) bs s"
proof -
  have "unat (of_nat (length bs) :: u32) = length bs"
    using assms by (simp add: unsigned_of_nat take_bit_nat_eq_self)
  then show ?thesis using writes_room [of s "length bs" "\<lambda>_. bs"] assms by (simp add: ndr_push_bytes_def)
qed

lemma writes_item:
  assumes "push_wf s" "unat (np_offset s) + length (item_bytes (np_flags s) (unat (np_offset s)) i) + 20 < 2 ^ 32"
  shows "writes (push_item i) (item_bytes (np_flags s) (unat (np_offset s)) i) s"
proof (cases i)
  case (Uint8 v)
  then show ?thesis using assms by (simp add: ndr_push_uint8_def writes_push_raw)
next
  case (Uint16 v)
  then show ?thesis using assms writes_push_aligned [of s 1 2 "\<lambda>fl. NDR_SSVAL fl v"] by (simp add: ndr_push_uint16_def)
next
  case (Uint32 v)
  then show ?thesis using assms writes_push_aligned [of s 2 4 "\<lambda>fl. NDR_SIVAL fl v"] by (simp add: ndr_push_uint32_def)
next
  case (Udlong v)
  then show ?thesis using assms writes_udlong [of s v] by simp
next
  case (Udlongr v)
  then show ?thesis
    using assms writes_push_aligned [of s 2 8 "\<lambda>fl. NDR_SIVAL fl (ucast (drop_bit 32 v)) @ NDR_SIVAL fl (ucast (v AND 0xFFFFFFFF))"]
    by (simp add: ndr_push_udlongr_def)
next
  case (Hyper v)
  then show ?thesis using assms writes_hyper [of s v] by simp
next
  case (Bytes bs)
  then show ?thesis using assms writes_bytes [of s bs] by simp
qed

lemma writes_items:
  assumes "push_wf s" "unat (np_offset s) + length (items_bytes (np_flags s) (unat (np_offset s)) is) + 20 < 2 ^ 32"
  shows "writes (push_items is) (items_bytes (np_flags s) (unat (np_offset s)) is) s"
  using assms
proof (induction "is" arbitrary: s)
  case Nil
  then show ?case by (simp add: writes_def nret_def pushed_refl)
next
  case (Cons i "is")
  show ?case unfolding push_items.simps items_bytes.simps
  proof (rule writes_seq)
    show "writes (push_item i) (item_bytes (np_flags s) (unat (np_offset s)) i) s"
      using Cons.prems by (simp add: writes_item)
    fix t assume t: "pushed (item_bytes (np_flags s) (unat (np_offset s)) i) s t"
    show "writes (push_items is)
            (items_bytes (np_flags s) (unat (np_offset s) + length (item_bytes (np_flags s) (unat (np_offset s)) i)) is) t"
      using Cons.IH [of t] Cons.prems pushed_fields [OF t] by simp
  qed
qed

section \<open>What the readers consume\<close>

definition pull_wf :: "ndr_pull \<Rightarrow> bool" where
  "pull_wf s \<longleftrightarrow> unat (nl_size s) \<le> length (nl_data s) \<and> nl_offset s \<le> nl_size s \<and> unat (nl_size s) < 2 ^ 31"

definition adv :: "nat \<Rightarrow> ndr_pull \<Rightarrow> ndr_pull" where
  "adv n s = s\<lparr>nl_offset := nl_offset s + of_nat n\<rparr>"

lemma adv_simps [simp]:
  "adv 0 s = s" "adv m (adv n s) = adv (n + m) s" "nl_data (adv n s) = nl_data s" "nl_size (adv n s) = nl_size s"
  "nl_flags (adv n s) = nl_flags s" "nl_offset (adv n s) = nl_offset s + of_nat n"
  by (simp_all add: adv_def add.assoc)

text \<open>The next bytes are \<open>bs\<close>.\<close>

definition next_bytes :: "u8 list \<Rightarrow> ndr_pull \<Rightarrow> bool" where
  "next_bytes bs s \<longleftrightarrow> pull_wf s \<and> unat (nl_offset s) + length bs \<le> unat (nl_size s) \<and>
     (\<exists>pre r. nl_data s = pre @ bs @ r \<and> length pre = unat (nl_offset s))"

lemma unat_offset_add:
  assumes "pull_wf s" "unat (nl_offset s) + n \<le> unat (nl_size s)"
  shows "unat (nl_offset s + of_nat n) = unat (nl_offset s) + n" "unat (of_nat n :: u32) = n"
  using assms by (simp_all add: unat_word_ariths unsigned_of_nat take_bit_nat_eq_self pull_wf_def)

lemma next_bytes_append:
  assumes "next_bytes (as @ bs) s"
  shows "next_bytes as s" "next_bytes bs (adv (length as) s)"
    "unat (nl_offset (adv (length as) s)) = unat (nl_offset s) + length as"
proof -
  obtain pre r where d: "nl_data s = pre @ as @ bs @ r" "length pre = unat (nl_offset s)"
    using assms by (auto simp: next_bytes_def)
  have w: "pull_wf s" "unat (nl_offset s) + length as + length bs \<le> unat (nl_size s)"
    using assms by (auto simp: next_bytes_def)
  then have o: "unat (nl_offset s + of_nat (length as)) = unat (nl_offset s) + length as"
    by (intro unat_offset_add(1)) auto
  show "next_bytes as s" using d w unfolding next_bytes_def by auto
  have "pull_wf (adv (length as) s)" using w o by (auto simp: pull_wf_def word_le_nat_alt)
  moreover have "nl_data s = (pre @ as) @ bs @ r" "length (pre @ as) = unat (nl_offset s + of_nat (length as))"
    using d o by simp_all
  ultimately show "next_bytes bs (adv (length as) s)" using w o unfolding next_bytes_def
    by (intro conjI exI [of _ "pre @ as"] exI [of _ r]) simp_all
  show "unat (nl_offset (adv (length as) s)) = unat (nl_offset s) + length as" using o by simp
qed

text \<open>\<open>reads m x bs s\<close>: the call returns \<open>x\<close> and consumes just \<open>bs\<close>.\<close>

definition reads :: "('a, ndr_pull) ncall \<Rightarrow> 'a \<Rightarrow> u8 list \<Rightarrow> ndr_pull \<Rightarrow> bool" where
  "reads m x bs s \<longleftrightarrow> m s = NOk x (adv (length bs) s)"

lemma reads_bind:
  "reads m x as s \<Longrightarrow> reads (k x) y bs (adv (length as) s) \<Longrightarrow> reads (nbind m k) y (as @ bs) s"
  by (simp add: reads_def nbind_def)

lemma reads_seq:
  "reads m x as s \<Longrightarrow> reads k y bs (adv (length as) s) \<Longrightarrow> reads (nseq m k) y (as @ bs) s"
  by (simp add: reads_def nbind_def nseq_def)

lemma reads_map: "reads m x bs s \<Longrightarrow> reads (nbind m (\<lambda>v. nret (f v))) (f x) bs s"
  by (simp add: reads_def nbind_def nret_def)

lemma need_bytes_ok:
  assumes "next_bytes bs s"
  shows "NDR_PULL_NEED_BYTES (of_nat (length bs)) s = NOk () s"
  using assms unat_offset_add [of s "length bs"]
  by (auto simp: next_bytes_def NDR_PULL_NEED_BYTES_def word_less_nat_alt pull_wf_def)

lemma load_here_ok: "next_bytes bs s \<Longrightarrow> load_here (length bs) f s = NOk (f s) (adv (length bs) s)"
  by (auto simp: next_bytes_def load_here_def adv_def)

lemma reads_pull_raw: "next_bytes bs s \<Longrightarrow> n = length bs \<Longrightarrow> reads (pull_raw n f) (f s) bs s"
  by (simp add: reads_def pull_raw_def nseq_def nbind_def need_bytes_ok load_here_ok)

lemma padding_reads_inside: "list_all (\<lambda>i. i < length data) all \<Longrightarrow> list_all (\<lambda>i. i < length data) is \<Longrightarrow> padding_reads data is all"
  by (induction "is") auto

lemma check_padding_inside:
  assumes "k < 32" "unat (nl_offset s) + pad_len (2 ^ k) (unat (nl_offset s)) \<le> length (nl_data s)"
  shows "ndr_check_padding (2 ^ k) s"
proof -
  have u: "unat (ucast (nl_offset s) :: u64) = unat (nl_offset s)"
    using unat_u32_less [of "nl_offset s"] by (simp add: unsigned_ucast_eq take_bit_nat_eq_self)
  have m: "ucast (2 ^ k - 1 :: u32) = (mask k :: u64)"
    using assms(1) unfolding mask_eq_exp_minus_1 [symmetric] by (auto simp: bit_simps intro!: bit_word_eqI)
  have "(2 :: nat) ^ k \<le> 2 ^ 31" using assms(1) by (intro power_increasing) auto
  then have "unat (nl_offset s) + 2 ^ k \<le> (2 :: nat) ^ 64"
    using unat_u32_less [of "nl_offset s"] by simp
  then have "unat ((ucast (nl_offset s) + ucast (2 ^ k - 1 :: u32)) AND NOT (ucast (2 ^ k - 1 :: u32)) :: u64)
      = unat (nl_offset s) + pad_len (2 ^ k) (unat (nl_offset s))"
    unfolding m using unat_round_up [of k "ucast (nl_offset s) :: u64"] assms(1) u by simp
  then show ?thesis using assms(2) unfolding ndr_check_padding_def Let_def
    by (auto simp: list_all_iff intro!: padding_reads_inside)
qed

lemma reads_align:
  assumes nb: "next_bytes (padding (nl_flags s) (2 ^ k) (unat (nl_offset s))) s" and k: "k < 32"
  shows "reads (NDR_PULL_ALIGN (2 ^ k)) () (padding (nl_flags s) (2 ^ k) (unat (nl_offset s))) s"
proof (cases "nl_flags s AND LIBNDR_FLAG_NOALIGN = 0")
  case False
  then show ?thesis using nb by (auto simp: NDR_PULL_ALIGN_def reads_def padding_def next_bytes_def pull_wf_def)
next
  case True
  define p where "p = pad_len (2 ^ k) (unat (nl_offset s))"
  have w: "pull_wf s" "unat (nl_offset s) + p \<le> unat (nl_size s)"
    using nb True by (auto simp: next_bytes_def padding_def p_def)
  note o = unat_offset_add [OF w]
  have "(2 :: nat) ^ k \<le> 2 ^ 31" using k by (intro power_increasing) auto
  then have "unat (nl_offset s) + 2 ^ k \<le> 2 ^ 32" using w by (simp add: pull_wf_def word_le_nat_alt)
  then have "unat (align_up (nl_offset s) (2 ^ k)) = unat (nl_offset s) + p"
    using align_up_pad(1) [of k "nl_offset s"] k by (simp add: p_def)
  then have al: "align_up (nl_offset s) (2 ^ k) = nl_offset s + of_nat p" using o(1) by (simp add: word_unat_eq_iff)
  have "ndr_check_padding (2 ^ k) s"
    using w k by (intro check_padding_inside) (auto simp: pull_wf_def p_def)
  then show ?thesis using True al o w
    by (simp add: NDR_PULL_ALIGN_def reads_def padding_def p_def [symmetric] word_less_nat_alt adv_def)
qed

lemma reads_aligned:
  assumes nb: "next_bytes (padding (nl_flags s) (2 ^ k) (unat (nl_offset s)) @ bs) s" and k: "k < 32" and n: "n = length bs"
    and f: "\<And>t. next_bytes bs t \<Longrightarrow> nl_flags t = nl_flags s \<Longrightarrow> f t = x"
  shows "reads (nseq (NDR_PULL_ALIGN (2 ^ k)) (pull_raw n f)) x (padding (nl_flags s) (2 ^ k) (unat (nl_offset s)) @ bs) s"
proof (rule reads_seq)
  let ?pad = "padding (nl_flags s) (2 ^ k) (unat (nl_offset s))"
  show "reads (NDR_PULL_ALIGN (2 ^ k)) () ?pad s" using next_bytes_append(1) [OF nb] k by (rule reads_align)
  show "reads (pull_raw n f) x bs (adv (length ?pad) s)"
    using reads_pull_raw [OF next_bytes_append(2) [OF nb] n, of f] f [OF next_bytes_append(2) [OF nb]] by simp
qed

lemma next_uint16: "next_bytes (NDR_SSVAL (nl_flags t) v) t \<Longrightarrow> ucast (NDR_SVAL t (nl_offset t)) = v"
  unfolding next_bytes_def using NDR_SVAL_at [of t] by metis

lemma next_uint32: "next_bytes (NDR_SIVAL (nl_flags t) v) t \<Longrightarrow> NDR_IVAL t (nl_offset t) = v"
  unfolding next_bytes_def using NDR_IVAL_at [of t] by metis

lemma next_uint32s:
  assumes "next_bytes (NDR_SIVAL (nl_flags t) v @ NDR_SIVAL (nl_flags t) w) t"
  shows "NDR_IVAL t (nl_offset t) = v" "NDR_IVAL t (nl_offset t + 4) = w"
proof -
  show "NDR_IVAL t (nl_offset t) = v" using next_bytes_append(1) [OF assms] by (rule next_uint32)
  have "NDR_IVAL (adv 4 t) (nl_offset t + 4) = w"
    using next_uint32 [of "adv 4 t" w] next_bytes_append(2) [OF assms] by simp
  then show "NDR_IVAL t (nl_offset t + 4) = w" by (simp add: NDR_IVAL_def)
qed

lemma u64_halves:
  "ucast (ucast (v AND 0xFFFFFFFF) :: u32) OR push_bit 32 (ucast (ucast (drop_bit 32 v) :: u32)) = (v :: u64)"
  by (rule bit_word_eqI) (auto simp: mask_numerals bit_simps)

lemma reads_udlong:
  assumes "next_bytes (udlong_bytes (nl_flags s) (unat (nl_offset s)) v) s"
  shows "reads ndr_pull_udlong v (udlong_bytes (nl_flags s) (unat (nl_offset s)) v) s"
  unfolding ndr_pull_udlong_def udlong_bytes_def
proof (rule reads_aligned [of s 2, simplified])
  let ?bs = "NDR_SIVAL (nl_flags s) (ucast (v AND 0xFFFFFFFF)) @ NDR_SIVAL (nl_flags s) (ucast (drop_bit 32 v))"
  show "next_bytes (padding (nl_flags s) 4 (unat (nl_offset s)) @ ?bs) s" using assms by (simp add: udlong_bytes_def)
  show "ucast (NDR_IVAL t (nl_offset t)) OR push_bit 32 (ucast (NDR_IVAL t (nl_offset t + 4))) = v"
    if "next_bytes ?bs t" "nl_flags t = nl_flags s" for t
    using next_uint32s [of t] that by (simp add: u64_halves)
qed simp_all

lemma reads_udlongr:
  assumes "next_bytes (item_bytes (nl_flags s) (unat (nl_offset s)) (Udlongr v)) s"
  shows "reads ndr_pull_udlongr v (item_bytes (nl_flags s) (unat (nl_offset s)) (Udlongr v)) s"
  unfolding ndr_pull_udlongr_def item_bytes.simps
proof (rule reads_aligned [of s 2, simplified])
  let ?bs = "NDR_SIVAL (nl_flags s) (ucast (drop_bit 32 v)) @ NDR_SIVAL (nl_flags s) (ucast (v AND 0xFFFFFFFF))"
  show "next_bytes (padding (nl_flags s) 4 (unat (nl_offset s)) @ ?bs) s" using assms by simp
  show "push_bit 32 (ucast (NDR_IVAL t (nl_offset t))) OR ucast (NDR_IVAL t (nl_offset t + 4)) = v"
    if "next_bytes ?bs t" "nl_flags t = nl_flags s" for t
    using next_uint32s [of t] that u64_halves [of v] by (simp add: or.commute)
qed simp_all

lemma reads_hyper:
  assumes "next_bytes (item_bytes (nl_flags s) (unat (nl_offset s)) (Hyper v)) s"
  shows "reads ndr_pull_hyper v (item_bytes (nl_flags s) (unat (nl_offset s)) (Hyper v)) s"
  unfolding ndr_pull_hyper_def item_bytes.simps
proof (rule reads_seq)
  let ?pad = "padding (nl_flags s) 8 (unat (nl_offset s))"
  note nb = next_bytes_append [OF assms [unfolded item_bytes.simps]]
  show "reads (NDR_PULL_ALIGN 8) () ?pad s" using reads_align [of s 3] nb(1) by simp
  show "reads ndr_pull_udlong v (udlong_bytes (nl_flags s) (unat (nl_offset s) + length ?pad) v) (adv (length ?pad) s)"
    using reads_udlong [of "adv (length ?pad) s" v] nb(2,3) by simp
qed

lemma reads_bytes: "next_bytes bs s \<Longrightarrow> reads (ndr_pull_bytes (of_nat (length bs))) bs bs s"
proof -
  assume nb: "next_bytes bs s"
  then have "unat (of_nat (length bs) :: u32) = length bs" using unat_offset_add(2) by (auto simp: next_bytes_def)
  moreover have "take (length bs) (drop (unat (nl_offset s)) (nl_data s)) = bs" using nb by (auto simp: next_bytes_def)
  ultimately show ?thesis using nb
    by (simp add: reads_def ndr_pull_bytes_def nseq_def nbind_def need_bytes_ok load_here_ok)
qed

lemma reads_item:
  assumes nb: "next_bytes (item_bytes (nl_flags s) (unat (nl_offset s)) i) s"
  shows "reads (pull_item i) i (item_bytes (nl_flags s) (unat (nl_offset s)) i) s"
proof (cases i)
  case (Uint8 v)
  have "nl_data s ! unat (nl_offset s) = v" using nb Uint8 by (auto simp: next_bytes_def nth_append)
  then show ?thesis
    using Uint8 nb reads_map [OF reads_pull_raw, of "[v]" s 1 "\<lambda>s. nl_data s ! unat (nl_offset s)" Uint8]
    by (simp add: ndr_pull_uint8_def)
next
  case (Uint16 v)
  show ?thesis unfolding Uint16 pull_item.simps ndr_pull_uint16_def item_bytes.simps
    by (rule reads_map, rule reads_aligned [of s 1, simplified]) (use nb Uint16 in \<open>auto simp: next_uint16\<close>)
next
  case (Uint32 v)
  show ?thesis unfolding Uint32 pull_item.simps ndr_pull_uint32_def item_bytes.simps
    by (rule reads_map, rule reads_aligned [of s 2, simplified]) (use nb Uint32 in \<open>auto simp: next_uint32\<close>)
next
  case (Udlong v)
  then show ?thesis using nb by (simp add: reads_map reads_udlong)
next
  case (Udlongr v)
  then show ?thesis using nb reads_udlongr [of s v] by (simp add: reads_map)
next
  case (Hyper v)
  then show ?thesis using nb reads_hyper [of s v] by (simp add: reads_map)
next
  case (Bytes bs)
  then show ?thesis using nb by (simp add: reads_map reads_bytes)
qed

lemma reads_items:
  "next_bytes (items_bytes (nl_flags s) (unat (nl_offset s)) is) s \<Longrightarrow>
   reads (pull_items is) is (items_bytes (nl_flags s) (unat (nl_offset s)) is) s"
proof (induction "is" arbitrary: s)
  case Nil
  then show ?case by (simp add: reads_def nret_def)
next
  case (Cons i "is")
  let ?b = "item_bytes (nl_flags s) (unat (nl_offset s)) i"
  note nb = next_bytes_append [OF Cons.prems [unfolded items_bytes.simps]]
  show ?case unfolding pull_items.simps items_bytes.simps
  proof (rule reads_bind)
    show "reads (pull_item i) i ?b s" using nb(1) by (rule reads_item)
    show "reads (nbind (pull_items is) (\<lambda>xs. nret (i # xs))) (i # is)
            (items_bytes (nl_flags s) (unat (nl_offset s) + length ?b) is) (adv (length ?b) s)"
      using Cons.IH [of "adv (length ?b) s"] nb(2,3) by (simp add: reads_map)
  qed
qed

lemma init_wf: "push_wf ((ndr_push_init_ctx fill)\<lparr>np_flags := fl\<rparr>)"
  by (simp add: push_wf_def ndr_push_init_ctx_def)

lemma init_pull_wf:
  assumes "length blob < 2 ^ 31"
  shows "unat (nl_size (ndr_pull_init_blob blob)) = length blob" "pull_wf ((ndr_pull_init_blob blob)\<lparr>nl_flags := fl\<rparr>)"
  using assms by (simp_all add: ndr_pull_init_blob_def pull_wf_def unsigned_of_nat take_bit_nat_eq_self)

lemma push_blob_marshalled: "\<exists>t. ndr_push_blob s = NOk (marshalled s) t"
  by (simp add: ndr_push_blob_def marshalled_def Let_def)

text \<open>C37. Marshalling: writing any sequence of values to a fresh context, in either byte order, with or
  without alignment, gives their representation as the blob, whatever the allocator leaves in
  memory; and reading values of the same kinds from that blob, with whatever behind it, gives the
  sequence back and ends right behind it.\<close>

theorem ndr_items_roundtrip:
  assumes "length (items_bytes fl 0 is @ tail) < 2 ^ 31"
  shows "(\<exists>t. nseq (push_items is) ndr_push_blob ((ndr_push_init_ctx fill)\<lparr>np_flags := fl\<rparr>) = NOk (items_bytes fl 0 is) t) \<and>
    pull_items is ((ndr_pull_init_blob (items_bytes fl 0 is @ tail))\<lparr>nl_flags := fl\<rparr>) =
       NOk is ((ndr_pull_init_blob (items_bytes fl 0 is @ tail))\<lparr>nl_flags := fl, nl_offset := of_nat (length (items_bytes fl 0 is))\<rparr>)"
proof -
  let ?s = "(ndr_push_init_ctx fill)\<lparr>np_flags := fl\<rparr>" and ?b = "items_bytes fl 0 is"
  have "writes (push_items is) ?b ?s"
    using writes_items [OF init_wf, of fl fill "is"] assms by (simp add: ndr_push_init_ctx_def)
  moreover have "marshalled ?s = []" by (simp add: marshalled_def ndr_push_init_ctx_def)
  ultimately obtain t where "push_items is ?s = NOk () t" "marshalled t = ?b"
    by (auto simp: writes_def pushed_def)
  then have w: "\<exists>t. nseq (push_items is) ndr_push_blob ?s = NOk ?b t"
    using push_blob_marshalled [of t] by (simp add: nseq_def nbind_def)
  let ?p = "(ndr_pull_init_blob (?b @ tail))\<lparr>nl_flags := fl\<rparr>"
  have "next_bytes ?b ?p"
    using init_pull_wf [of "?b @ tail"] assms by (simp add: next_bytes_def) (simp add: ndr_pull_init_blob_def)
  then have "pull_items is ?p = NOk is (?p\<lparr>nl_offset := of_nat (length ?b)\<rparr>)"
    using reads_items [of ?p "is"] by (simp add: reads_def adv_def ndr_pull_init_blob_def)
  with w show ?thesis by simp
qed

theorem ndr_items_roundtrip_witness:
  "(\<exists>t. nseq (push_items [Uint8 7, Uint32 0x01020304, Uint16 0x0506]) ndr_push_blob ((ndr_push_init_ctx (\<lambda>_. 0xAA))\<lparr>np_flags := 1\<rparr>)
        = NOk [7, 0, 0, 0, 1, 2, 3, 4, 5, 6] t) \<and>
   (\<exists>t. pull_items [Uint8 0, Uint32 0, Uint16 0] ((ndr_pull_init_blob ([7, 0, 0, 0, 1, 2, 3, 4, 5, 6] @ [9]))\<lparr>nl_flags := 1\<rparr>)
        = NOk [Uint8 7, Uint32 0x01020304, Uint16 0x0506] t)"
proof -
  let ?is = "[Uint8 7, Uint32 0x01020304, Uint16 0x0506]"
  have b: "items_bytes 1 0 ?is = [7, 0, 0, 0, 1, 2, 3, 4, 5, 6]"
    by code_simp
  show ?thesis using ndr_items_roundtrip [of 1 ?is "[9]" "\<lambda>_. 0xAA"] unfolding b by simp
qed

section \<open>Readers stay inside their buffer\<close>

text \<open>
  The contract of a reader: on a well-formed context, with the check of the padding off, it
  returns a value or a status, it touches no memory outside the buffer, and the context stays
  well-formed on the same buffer.
\<close>

definition same_buffer :: "ndr_pull \<Rightarrow> ndr_pull \<Rightarrow> bool" where
  "same_buffer s t \<longleftrightarrow> nl_data t = nl_data s \<and> nl_size t = nl_size s \<and> nl_flags t = nl_flags s"

definition good :: "ndr_pull \<Rightarrow> bool" where
  "good s \<longleftrightarrow> pull_wf s \<and> nl_flags s AND LIBNDR_FLAG_PAD_CHECK = 0"

definition stays :: "('a, ndr_pull) nres \<Rightarrow> ndr_pull \<Rightarrow> bool" where
  "stays r s = (case r of NOk _ t \<Rightarrow> good t \<and> same_buffer s t | NErr _ _ \<Rightarrow> True | NBad \<Rightarrow> False)"

locale ndr_reader =
  fixes m :: "('a, ndr_pull) ncall"
  assumes stays_in: "good s \<Longrightarrow> stays (m s) s"
begin

lemma never_bad: "good s \<Longrightarrow> m s \<noteq> NBad"
  using stays_in [of s] by (auto simp: stays_def)

lemma init_good: "length blob < 2 ^ 31 \<Longrightarrow> good (ndr_pull_init_blob blob)"
  using init_pull_wf(2) [of blob 0] by (simp add: good_def ndr_pull_init_blob_def)

lemma struct_blob_returns: "length blob < 2 ^ 31 \<Longrightarrow> ndr_pull_struct_blob blob m \<noteq> None"
  using never_bad [OF init_good] by (auto simp: ndr_pull_struct_blob_def split: nres.splits)

lemma struct_blob_all_returns: "length blob < 2 ^ 31 \<Longrightarrow> ndr_pull_struct_blob_all blob m \<noteq> None"
  using never_bad [OF init_good] by (auto simp: ndr_pull_struct_blob_all_def split: nres.splits)

lemma union_blob_returns: "length blob < 2 ^ 31 \<Longrightarrow> ndr_pull_union_blob blob p level m \<noteq> None"
proof -
  assume "length blob < 2 ^ 31"
  then have "good (ndr_pull_set_switch_value p level (ndr_pull_init_blob blob))"
    using init_good [of blob] by (simp add: good_def pull_wf_def ndr_pull_set_switch_value_def)
  then show ?thesis using never_bad by (auto simp: ndr_pull_union_blob_def split: nres.splits)
qed

end

lemma same_buffer_trans: "same_buffer s t \<Longrightarrow> same_buffer t u \<Longrightarrow> same_buffer s u"
  by (simp add: same_buffer_def)

lemma stays_error [simp]: "stays (ndr_error e t) s"
  by (simp add: stays_def ndr_error_def)

lemma stays_NOk [simp]: "stays (NOk x t) s \<longleftrightarrow> good t \<and> same_buffer s t"
  by (simp add: stays_def)

lemma stays_nret [simp]: "good s \<Longrightarrow> stays (nret x s) s"
  by (simp add: nret_def same_buffer_def)

lemma stays_bind:
  "stays (m s) s \<Longrightarrow> (\<And>x t. m s = NOk x t \<Longrightarrow> good t \<Longrightarrow> same_buffer s t \<Longrightarrow> stays (k x t) t) \<Longrightarrow> stays (nbind m k s) s"
  by (fastforce simp: stays_def nbind_def same_buffer_def split: nres.splits)

lemma stays_seq:
  "stays (m s) s \<Longrightarrow> (\<And>x t. m s = NOk x t \<Longrightarrow> good t \<Longrightarrow> same_buffer s t \<Longrightarrow> stays (k t) t) \<Longrightarrow> stays (nseq m k s) s"
  unfolding nseq_def by (rule stays_bind)

lemma stays_align [simp]: "good s \<Longrightarrow> stays (NDR_PULL_ALIGN n s) s"
  by (auto simp: NDR_PULL_ALIGN_def Let_def good_def pull_wf_def same_buffer_def)

lemma need_bytes_inside:
  assumes "good s" "NDR_PULL_NEED_BYTES n s = NOk x t"
  shows "t = s" "unat (nl_offset s) + unat n \<le> unat (nl_size s)"
proof -
  show "t = s" using assms(2) by (simp add: NDR_PULL_NEED_BYTES_def ndr_error_def split: if_splits)
  have b: "unat n \<le> unat (nl_size s)" "unat (nl_offset s + n) \<le> unat (nl_size s)" "unat (nl_size s) < 2 ^ 31"
      "unat (nl_offset s) \<le> unat (nl_size s)"
    using assms by (auto simp: NDR_PULL_NEED_BYTES_def ndr_error_def word_less_nat_alt word_le_nat_alt good_def pull_wf_def
        split: if_splits)
  then have "unat (nl_offset s + n) = unat (nl_offset s) + unat n" by (simp add: unat_word_ariths)
  with b show "unat (nl_offset s) + unat n \<le> unat (nl_size s)" by simp
qed

lemma stays_need_bytes [simp]: "good s \<Longrightarrow> stays (NDR_PULL_NEED_BYTES n s) s"
  by (simp add: NDR_PULL_NEED_BYTES_def same_buffer_def)

lemma stays_load:
  assumes "good s" "unat (nl_offset s) + n \<le> unat (nl_size s)"
  shows "stays (load_here n f s) s"
proof -
  have "unat (nl_offset s + of_nat n) = unat (nl_offset s) + n"
    using unat_offset_add(1) assms by (simp add: good_def)
  then show ?thesis using assms by (auto simp: load_here_def good_def pull_wf_def same_buffer_def word_le_nat_alt)
qed

lemma stays_need_load:
  assumes "good s"
  shows "stays (nseq (NDR_PULL_NEED_BYTES n) (load_here (unat n) f) s) s"
proof (rule stays_seq)
  show "stays (NDR_PULL_NEED_BYTES n s) s" using assms by simp
  fix x t assume "NDR_PULL_NEED_BYTES n s = NOk x t"
  note need_bytes_inside [OF assms this]
  then show "stays (load_here (unat n) f t) t" using stays_load [OF assms] by simp
qed

lemma stays_pull_raw: "good s \<Longrightarrow> n < 2 ^ 32 \<Longrightarrow> stays (pull_raw n f s) s"
  using stays_need_load [of s "of_nat n" f] by (simp add: pull_raw_def unsigned_of_nat take_bit_nat_eq_self)

lemma stays_bytes [simp]: "good s \<Longrightarrow> stays (ndr_pull_bytes n s) s"
  unfolding ndr_pull_bytes_def by (rule stays_need_load)

lemma stays_aligned: "good s \<Longrightarrow> n < 2 ^ 32 \<Longrightarrow> stays (nseq (NDR_PULL_ALIGN k) (pull_raw n f) s) s"
  by (intro stays_seq stays_pull_raw) simp_all

lemma stays_scalars [simp]:
  assumes "good s"
  shows "stays (ndr_pull_uint8 s) s" "stays (ndr_pull_int8 s) s" "stays (ndr_pull_uint16 s) s" "stays (ndr_pull_int16 s) s"
    "stays (ndr_pull_uint32 s) s" "stays (ndr_pull_int32 s) s" "stays (ndr_pull_udlong s) s" "stays (ndr_pull_udlongr s) s"
  using assms
  by (simp_all add: ndr_pull_uint8_def ndr_pull_int8_def ndr_pull_uint16_def ndr_pull_int16_def ndr_pull_uint32_def
      ndr_pull_int32_def ndr_pull_udlong_def ndr_pull_udlongr_def stays_pull_raw stays_aligned)

lemma stays_hyper [simp]: "good s \<Longrightarrow> stays (ndr_pull_hyper s) s"
  unfolding ndr_pull_hyper_def by (rule stays_seq) simp_all

lemma stays_item: "good s \<Longrightarrow> stays (pull_item i s) s"
  by (cases i) (auto intro!: stays_bind)

lemma good_update:
  "good t \<Longrightarrow> nl_data u = nl_data t \<Longrightarrow> nl_size u = nl_size t \<Longrightarrow> nl_flags u = nl_flags t \<Longrightarrow> nl_offset u = nl_offset t \<Longrightarrow>
   good u \<and> same_buffer t u"
  by (simp add: good_def pull_wf_def same_buffer_def)

lemma stays_DATA_BLOB: "good s \<Longrightarrow> stays (ndr_pull_DATA_BLOB s) s"
  unfolding ndr_pull_DATA_BLOB_def Let_def by (rule stays_bind) auto

lemma stays_generic_ptr: "good s \<Longrightarrow> stays (ndr_pull_generic_ptr s) s"
  unfolding ndr_pull_generic_ptr_def by (rule stays_bind) (auto simp: good_update intro!: good_update)

lemma stays_array_size: "good s \<Longrightarrow> stays (ndr_pull_array_size p s) s"
  unfolding ndr_pull_array_size_def by (rule stays_bind) (auto simp: good_def pull_wf_def same_buffer_def)

lemma stays_array_length: "good s \<Longrightarrow> stays (ndr_pull_array_length p s) s"
  unfolding ndr_pull_array_length_def
  by (rule stays_bind, simp, split if_split, intro conjI impI stays_bind)
    (auto simp: good_def pull_wf_def same_buffer_def)

lemma stays_set_offset: "good s \<Longrightarrow> stays (ndr_pull_set_offset ofs s) s"
  by (auto simp: ndr_pull_set_offset_def Let_def good_def pull_wf_def same_buffer_def)

lemma stays_advance: "good s \<Longrightarrow> stays (ndr_pull_advance n s) s"
  by (auto simp: ndr_pull_advance_def Let_def good_def pull_wf_def same_buffer_def)

lemma stays_relative_ptr2: "good s \<Longrightarrow> stays (ndr_pull_relative_ptr2 p s) s"
  by (auto simp: ndr_pull_relative_ptr2_def ndr_pull_set_offset_def Let_def good_def pull_wf_def same_buffer_def
      split: option.splits)

lemma inner_pull_good:
  assumes "good s" "unat (nl_offset s) + unat n \<le> unat (nl_size s)"
  shows "good (inner_pull n s)"
proof -
  have "unat n \<le> length (nl_data s) - unat (nl_offset s)" "unat n < 2 ^ 31"
    using assms unfolding good_def pull_wf_def by linarith+
  then show ?thesis using assms by (simp add: good_def pull_wf_def inner_pull_def ndr_pull_init_blob_def)
qed

lemma nbind_NOk: "nbind m k s = NOk y u \<Longrightarrow> \<exists>x t. m s = NOk x t \<and> k x t = NOk y u"
  by (auto simp: nbind_def split: nres.splits)

lemma subcontext_start_header:
  "ndr_pull_subcontext_start h n =
     nbind (subcontext_header h n) (\<lambda>k. nbind (NDR_PULL_NEED_BYTES k) (\<lambda>_ s. NOk (inner_pull k s) s))"
  by (simp add: ndr_pull_subcontext_start_def nseq_def)

lemma stays_header: "good s \<Longrightarrow> stays (subcontext_header h n s) s"
  by (auto simp: subcontext_header_def same_buffer_def intro!: stays_bind)

lemma stays_subcontext_start: "good s \<Longrightarrow> stays (ndr_pull_subcontext_start h n s) s"
  unfolding subcontext_start_header
  by (intro stays_bind stays_header) (auto simp: same_buffer_def)

lemma subcontext_start_good:
  assumes "good s" "ndr_pull_subcontext_start h n s = NOk sub t"
  shows "good sub"
proof -
  obtain k u v where k: "subcontext_header h n s = NOk k u" "NDR_PULL_NEED_BYTES k u = NOk () v" "sub = inner_pull k v"
    using assms(2) unfolding subcontext_start_header by (auto dest!: nbind_NOk)
  have "good u" using stays_header [OF assms(1), of h n] k(1) by simp
  then show ?thesis using need_bytes_inside [OF _ k(2)] k(3) inner_pull_good [of u k] by simp
qed

section \<open>Programs of reader calls\<close>

text \<open>
  The generated readers are sequences of these calls; a subcontext holds a sequence of its own,
  run between \<open>ndr_pull_subcontext_start\<close> and \<open>ndr_pull_subcontext_end\<close>.
\<close>

datatype ndr_call = Item ndr_item | Blob | GenericPtr | ArraySize ptr | ArrayLength ptr | Align u32 | SetOffset u32
  | Advance u32 | Relative1 ptr u32 | Relative2 ptr | Sub nat int "ndr_call list"

fun run_call :: "ndr_call \<Rightarrow> (unit, ndr_pull) ncall" and run_calls :: "ndr_call list \<Rightarrow> (unit, ndr_pull) ncall" where
  "run_call (Item i) s = nbind (pull_item i) (\<lambda>_. nret ()) s"
| "run_call Blob s = nbind ndr_pull_DATA_BLOB (\<lambda>_. nret ()) s"
| "run_call GenericPtr s = nbind ndr_pull_generic_ptr (\<lambda>_. nret ()) s"
| "run_call (ArraySize p) s = ndr_pull_array_size p s"
| "run_call (ArrayLength p) s = ndr_pull_array_length p s"
| "run_call (Align n) s = ndr_pull_align n s"
| "run_call (SetOffset n) s = ndr_pull_set_offset n s"
| "run_call (Advance n) s = ndr_pull_advance n s"
| "run_call (Relative1 p v) s = NOk () (ndr_pull_relative_ptr1 p v s)"
| "run_call (Relative2 p) s = ndr_pull_relative_ptr2 p s"
| "run_call (Sub h n cs) s =
     (case ndr_pull_subcontext_start h n s of
        NBad \<Rightarrow> NBad
      | NErr e t \<Rightarrow> NErr e t
      | NOk sub t \<Rightarrow>
          (case run_calls cs sub of NBad \<Rightarrow> NBad | NErr e _ \<Rightarrow> NErr e t | NOk _ sub2 \<Rightarrow> ndr_pull_subcontext_end sub2 h n t))"
| "run_calls [] s = NOk () s"
| "run_calls (c # cs) s = nbind (run_call c) (\<lambda>_. run_calls cs) s"

lemma stays_trans: "stays r t \<Longrightarrow> same_buffer s t \<Longrightarrow> stays r s"
  by (auto simp: stays_def same_buffer_def split: nres.splits)

lemma stays_run:
  "good s \<Longrightarrow> stays (run_call c s) s" "good s \<Longrightarrow> stays (run_calls cs s) s"
proof (induction c s and cs s rule: run_call_run_calls.induct)
  case (11 h n cs s)
  show ?case
  proof (cases "ndr_pull_subcontext_start h n s")
    case (NOk sub t)
    have g: "good t" "same_buffer s t" using stays_subcontext_start [OF "11.prems", of h n] NOk by simp_all
    have "stays (run_calls cs sub) sub" using "11.IH" NOk subcontext_start_good [OF "11.prems" NOk] by simp
    moreover have "stays (ndr_pull_subcontext_end sub2 h n t) s" for sub2
      unfolding ndr_pull_subcontext_end_def using stays_advance [OF g(1)] g(2) by (rule stays_trans)
    ultimately show ?thesis using NOk by (auto simp: stays_def [of "run_calls cs sub"] stays_def [of "NErr _ _"] split: nres.splits)
  next
    case (NErr e t)
    then show ?thesis by (simp add: stays_def)
  next
    case NBad
    then show ?thesis using stays_subcontext_start [OF "11.prems", of h n] by (simp add: stays_def)
  qed
qed (auto intro!: stays_bind simp: stays_item stays_DATA_BLOB stays_generic_ptr stays_array_size stays_array_length
     stays_set_offset stays_advance stays_relative_ptr2 ndr_pull_align_def ndr_pull_relative_ptr1_def good_def pull_wf_def
     same_buffer_def)

interpretation rc: ndr_reader "run_calls cs" for cs
  by unfold_locales (rule stays_run(2))

interpretation ri: ndr_reader "pull_item i" for i
  by unfold_locales (rule stays_item)

text \<open>C38. Bounds: on any blob shorter than 2 GB, whatever its bytes, any program of reader calls, with any
  sizes, offsets, relative pointers and nested subcontexts, ends with a value or a status and
  touches no byte outside the blob, whichever of the three helpers runs it.\<close>

theorem ndr_readers_in_bounds:
  assumes "length blob < 2 ^ 31"
  shows "ndr_pull_struct_blob blob (run_calls cs) \<noteq> None \<and> ndr_pull_struct_blob_all blob (run_calls cs) \<noteq> None \<and>
    ndr_pull_union_blob blob p level (run_calls cs) \<noteq> None"
  using rc.struct_blob_returns [OF assms] rc.struct_blob_all_returns [OF assms] rc.union_blob_returns [OF assms] by simp

theorem ndr_readers_in_bounds_witness:
  "ndr_pull_struct_blob [3, 0, 1] (run_calls [Sub 2 (- 1) [Item (Uint8 0), Item (Hyper 0)], Blob]) \<noteq> None"
  using ndr_readers_in_bounds [of "[3, 0, 1]" "[Sub 2 (- 1) [Item (Uint8 0), Item (Hyper 0)], Blob]"] by simp

text \<open>
  Both conditions matter. With the check of the padding on, the padding is read before the size
  is compared; and on a buffer of 2 GB or more the sum in \<open>NDR_PULL_NEED_BYTES\<close> may wrap.
\<close>

lemma pad_check_reads_past_end:
  "ndr_pull_uint32 ((ndr_pull_init_blob [1])\<lparr>nl_flags := LIBNDR_FLAG_PAD_CHECK, nl_offset := 1\<rparr>) = NBad"
  by (simp add: ndr_pull_uint32_def nseq_def nbind_def NDR_PULL_ALIGN_def ndr_check_padding_def ndr_pull_init_blob_def upt_rec)

lemma need_bytes_wraps:
  assumes "nl_size s = 0xC0000000" "nl_offset s = 0xA0000000"
  shows "NDR_PULL_NEED_BYTES 0x80000000 s = NOk () s"
  using assms by (simp add: NDR_PULL_NEED_BYTES_def)

section \<open>Pointers\<close>

lemma retrieve_map_of:
  "map_option fst (ndr_token_retrieve_cmp_fn None remove key ts) = map_of ts key"
  by (induction ts) (auto split: option.splits)

lemma peek_map_of: "ndr_token_peek key ts = (case map_of ts key of None \<Rightarrow> 0 | Some v \<Rightarrow> v)"
  unfolding ndr_token_peek_def retrieve_map_of [of False, symmetric] by (auto split: option.splits)

text \<open>
  Full pointers: an object gets a number when it is first written and keeps it. The table is
  faithful when the numbers are distinct, not 0, and none is above the counter.
\<close>

definition faithful :: "token_list \<Rightarrow> u32 \<Rightarrow> bool" where
  "faithful ts n \<longleftrightarrow> inj_on (map_of ts) (dom (map_of ts)) \<and> (\<forall>v \<in> ran (map_of ts). 0 < v \<and> v \<le> n)"

definition ptr_id :: "token_list \<Rightarrow> ptr option \<Rightarrow> u32" where
  "ptr_id ts p = (case p of None \<Rightarrow> 0 | Some k \<Rightarrow> ndr_token_peek k ts)"

fun push_full_ptrs :: "ptr option list \<Rightarrow> (unit, ndr_push) ncall" where
  "push_full_ptrs [] = nret ()"
| "push_full_ptrs (p # ps) = nseq (ndr_push_full_ptr p) (push_full_ptrs ps)"

lemma faithful_store:
  assumes "faithful ts n" "map_of ts k = None" "n < n + 1"
  shows "faithful (ndr_token_store k (n + 1) ts) (n + 1)"
proof -
  have fresh: "n + 1 \<notin> ran (map_of ts)" "0 < n + 1"
    using assms le_less_trans [OF word_zero_le assms(3)] by (auto simp: faithful_def)
  have "inj_on ((map_of ts)(k \<mapsto> n + 1)) (insert k (dom (map_of ts)))"
    using assms fresh by (auto simp: inj_on_def faithful_def ran_def)
  moreover have "ran ((map_of ts)(k \<mapsto> n + 1)) = insert (n + 1) (ran (map_of ts))"
    using assms(2) by (rule ran_map_upd)
  ultimately show ?thesis using assms fresh by (auto simp: faithful_def ndr_token_store_def)
qed

lemma faithful_inj:
  assumes "faithful ts n" "the ` (set ps - {None}) \<subseteq> dom (map_of ts)"
  shows "inj_on (ptr_id ts) (insert None (set ps))"
proof (rule inj_onI)
  fix p q assume pq: "p \<in> insert None (set ps)" "q \<in> insert None (set ps)" "ptr_id ts p = ptr_id ts q"
  have *: "\<exists>v. map_of ts k = Some v \<and> 0 < v" if "Some k \<in> insert None (set ps)" for k
    using that assms by (force simp: faithful_def ran_def dom_def)
  show "p = q"
  proof (cases p; cases q)
    fix k l assume "p = Some k" "q = Some l"
    then show ?thesis using pq * [of k] * [of l] assms(1)
      by (auto simp: ptr_id_def peek_map_of faithful_def inj_on_def dom_def)
  qed (use pq * in \<open>force simp: ptr_id_def peek_map_of\<close>)+
qed

definition knows :: "token_list \<Rightarrow> ptr option \<Rightarrow> bool" where
  "knows ts p = (case p of None \<Rightarrow> True | Some k \<Rightarrow> k \<in> dom (map_of ts))"

text \<open>From \<open>s\<close> to \<open>t\<close> the pointers \<open>ps\<close> are written and numbered; old numbers stay.\<close>

definition numbered :: "ptr option list \<Rightarrow> ndr_push \<Rightarrow> ndr_push \<Rightarrow> bool" where
  "numbered ps s t \<longleftrightarrow> push_wf t \<and> faithful (np_full_ptr_list t) (np_ptr_count t) \<and> np_flags t = np_flags s \<and>
     marshalled t = marshalled s @ items_bytes (np_flags s) (unat (np_offset s)) (map (\<lambda>p. Uint32 (ptr_id (np_full_ptr_list t) p)) ps) \<and>
     map_of (np_full_ptr_list s) \<subseteq>\<^sub>m map_of (np_full_ptr_list t) \<and> list_all (knows (np_full_ptr_list t)) ps \<and>
     unat (np_ptr_count t) \<le> unat (np_ptr_count s) + length ps"

lemma writes_uint32:
  assumes "push_wf s" "unat (np_offset s) + 8 < 2 ^ 32"
  shows "\<exists>t. ndr_push_uint32 v s = NOk () t \<and> push_wf t \<and>
     marshalled t = marshalled s @ item_bytes (np_flags s) (unat (np_offset s)) (Uint32 v) \<and> push_frame t = push_frame s"
  using writes_push_aligned [of s 2 4 "\<lambda>fl. NDR_SIVAL fl v"] assms by (auto simp: ndr_push_uint32_def writes_def pushed_def)

lemma push_frame_fields:
  assumes "push_frame t = push_frame s"
  shows "np_flags t = np_flags s" "np_ptr_count t = np_ptr_count s" "np_full_ptr_list t = np_full_ptr_list s"
  using arg_cong [OF assms, of np_flags] arg_cong [OF assms, of np_ptr_count] arg_cong [OF assms, of np_full_ptr_list]
  by (simp_all add: push_frame_def)

lemma numbered_one:
  assumes "push_wf s" "faithful (np_full_ptr_list s) (np_ptr_count s)" "unat (np_offset s) + 8 < 2 ^ 32"
    "unat (np_ptr_count s) + 1 < 2 ^ 32"
  shows "\<exists>t. ndr_push_full_ptr p s = NOk () t \<and> numbered [p] s t"
proof (cases "ptr_id (np_full_ptr_list s) p = 0 \<and> p \<noteq> None")
  case False
  then have "ndr_push_full_ptr p s = ndr_push_uint32 (ptr_id (np_full_ptr_list s) p) s"
    by (auto simp: ndr_push_full_ptr_def ptr_id_def Let_def split: option.splits)
  moreover have "knows (np_full_ptr_list s) p"
    using False by (auto simp: knows_def ptr_id_def peek_map_of dom_def split: option.splits)
  moreover obtain t where t: "ndr_push_uint32 (ptr_id (np_full_ptr_list s) p) s = NOk () t" "push_wf t"
      "marshalled t = marshalled s @ item_bytes (np_flags s) (unat (np_offset s)) (Uint32 (ptr_id (np_full_ptr_list s) p))"
      "push_frame t = push_frame s"
    using writes_uint32 [OF assms(1,3)] by blast
  ultimately show ?thesis using push_frame_fields [OF t(4)] t(1-3) assms(2) by (simp add: numbered_def)
next
  case True
  then obtain k where p: "p = Some k" by auto
  let ?n = "np_ptr_count s + 1"
  have k: "map_of (np_full_ptr_list s) k = None"
    using True p assms(2) by (auto simp: ptr_id_def peek_map_of faithful_def ran_def split: option.splits)
  have n: "unat ?n = unat (np_ptr_count s) + 1" using assms(4) by (simp add: unat_word_ariths)
  then have f: "faithful (ndr_token_store k ?n (np_full_ptr_list s)) ?n"
    using faithful_store [OF assms(2) k] by (simp add: word_less_nat_alt)
  define u where "u = s\<lparr>np_ptr_count := ?n, np_full_ptr_list := ndr_token_store k ?n (np_full_ptr_list s)\<rparr>"
  have u: "push_wf u" "marshalled u = marshalled s" "np_offset u = np_offset s" "np_flags u = np_flags s"
    "np_ptr_count u = ?n" "np_full_ptr_list u = ndr_token_store k ?n (np_full_ptr_list s)"
    using assms(1) by (simp_all add: u_def push_wf_def marshalled_def)
  have "ndr_push_full_ptr p s = ndr_push_uint32 ?n u"
    using True p by (simp add: ndr_push_full_ptr_def ptr_id_def Let_def u_def)
  moreover have "map_of (np_full_ptr_list s) \<subseteq>\<^sub>m map_of (np_full_ptr_list u)"
    using k by (auto simp: u(6) map_le_def ndr_token_store_def)
  moreover have "ptr_id (np_full_ptr_list u) p = ?n" "knows (np_full_ptr_list u) p"
    by (simp_all add: u(6) p ptr_id_def peek_map_of knows_def ndr_token_store_def)
  moreover obtain t where t: "ndr_push_uint32 ?n u = NOk () t" "push_wf t"
      "marshalled t = marshalled u @ item_bytes (np_flags u) (unat (np_offset u)) (Uint32 ?n)" "push_frame t = push_frame u"
    using writes_uint32 [of u ?n] u(1,3) assms(3) by auto
  ultimately show ?thesis using push_frame_fields [OF t(4)] t(1-3) u f n by (simp add: numbered_def)
qed

lemma length_item_uint32: "length (item_bytes fl pos (Uint32 v)) \<le> 7"
  using length_padding [of 4 fl pos] by simp

lemma knows_le:
  "knows ts p \<Longrightarrow> map_of ts \<subseteq>\<^sub>m map_of us \<Longrightarrow> knows us p \<and> ptr_id us p = ptr_id ts p"
  by (auto simp: knows_def ptr_id_def peek_map_of map_le_def dom_def split: option.splits)

lemma numbered_Cons:
  assumes "numbered [p] s t" "numbered ps t u" "push_wf s"
  shows "numbered (p # ps) s u"
proof -
  let ?b = "item_bytes (np_flags s) (unat (np_offset s)) (Uint32 (ptr_id (np_full_ptr_list t) p))"
  have t: "push_wf t" "marshalled t = marshalled s @ ?b" using assms(1) by (simp_all add: numbered_def)
  have "unat (np_offset t) = unat (np_offset s) + length ?b"
    using length_marshalled [OF t(1)] length_marshalled [OF assms(3)] t(2) by simp
  moreover have "knows (np_full_ptr_list u) p \<and> ptr_id (np_full_ptr_list u) p = ptr_id (np_full_ptr_list t) p"
    using assms(1,2) by (intro knows_le) (simp_all add: numbered_def)
  moreover have "map_of (np_full_ptr_list s) \<subseteq>\<^sub>m map_of (np_full_ptr_list u)"
    using assms(1,2) by (auto simp: numbered_def intro: map_le_trans)
  ultimately show ?thesis using assms t by (simp add: numbered_def)
qed

lemma numbered_all:
  assumes "push_wf s" "faithful (np_full_ptr_list s) (np_ptr_count s)"
    "unat (np_offset s) + 8 * length ps + 8 < 2 ^ 32" "unat (np_ptr_count s) + length ps < 2 ^ 32"
  shows "\<exists>t. push_full_ptrs ps s = NOk () t \<and> numbered ps s t"
  using assms
proof (induction ps arbitrary: s)
  case Nil
  then show ?case by (simp add: numbered_def nret_def)
next
  case (Cons p ps)
  obtain t where t: "ndr_push_full_ptr p s = NOk () t" "numbered [p] s t"
    using numbered_one [of s p] Cons.prems by auto
  have "unat (np_offset t) \<le> unat (np_offset s) + 7"
    using t(2) length_marshalled [of t] length_marshalled [OF Cons.prems(1)]
      length_item_uint32 [of "np_flags s" "unat (np_offset s)" "ptr_id (np_full_ptr_list t) p"]
    by (simp add: numbered_def)
  then obtain u where "push_full_ptrs ps t = NOk () u" "numbered ps t u"
    using Cons.IH [of t] Cons.prems t(2) by (auto simp: numbered_def)
  then show ?case using t numbered_Cons [OF t(2) _ Cons.prems(1)] by (auto simp: nseq_def nbind_def)
qed

text \<open>Full pointers: writing any sequence of full pointers to a fresh context writes one number for each, 0 for the
  null pointer, and two pointers of the sequence get the same number exactly when they are the
  same pointer.\<close>

theorem full_ptr_numbers_faithful:
  assumes "length ps < 2 ^ 28"
  shows "\<exists>t. push_full_ptrs ps ((ndr_push_init_ctx fill)\<lparr>np_flags := fl\<rparr>) = NOk () t \<and>
    marshalled t = items_bytes fl 0 (map (\<lambda>p. Uint32 (ptr_id (np_full_ptr_list t) p)) ps) \<and>
    inj_on (ptr_id (np_full_ptr_list t)) (insert None (set ps)) \<and> ptr_id (np_full_ptr_list t) None = 0"
proof -
  let ?s = "(ndr_push_init_ctx fill)\<lparr>np_flags := fl\<rparr>"
  have s: "marshalled ?s = []" "np_flags ?s = fl" "np_offset ?s = 0" "np_full_ptr_list ?s = []" "np_ptr_count ?s = 0"
    by (simp_all add: marshalled_def ndr_push_init_ctx_def)
  then obtain t where t: "push_full_ptrs ps ?s = NOk () t" "numbered ps ?s t"
    using numbered_all [OF init_wf, of fl fill ps] assms by (auto simp: faithful_def)
  have "the ` (set ps - {None}) \<subseteq> dom (map_of (np_full_ptr_list t))"
    using t(2) by (force simp: numbered_def list_all_iff knows_def split: option.splits)
  then have "inj_on (ptr_id (np_full_ptr_list t)) (insert None (set ps))"
    using t(2) by (intro faithful_inj [of _ "np_ptr_count t"]) (simp_all add: numbered_def)
  then show ?thesis using t s by (auto simp: numbered_def ptr_id_def)
qed

theorem full_ptr_numbers_faithful_witness:
  "\<exists>t. push_full_ptrs [Some 5, None, Some 9, Some 5] ((ndr_push_init_ctx (\<lambda>_. 0))\<lparr>np_flags := 0\<rparr>) = NOk () t \<and>
     ptr_id (np_full_ptr_list t) (Some 5) \<noteq> ptr_id (np_full_ptr_list t) (Some 9) \<and> ptr_id (np_full_ptr_list t) (Some 9) \<noteq> 0"
proof -
  let ?ps = "[Some 5, None, Some 9, Some 5] :: ptr option list"
  have "length ?ps < 2 ^ 28" by simp
  from full_ptr_numbers_faithful [OF this, of 0 "\<lambda>_. 0"] obtain t where
    t: "push_full_ptrs ?ps ((ndr_push_init_ctx (\<lambda>_. 0))\<lparr>np_flags := 0\<rparr>) = NOk () t"
      "inj_on (ptr_id (np_full_ptr_list t)) (insert None (set ?ps))" "ptr_id (np_full_ptr_list t) None = 0"
    by (elim exE conjE) (rule that)
  have "ptr_id (np_full_ptr_list t) (Some 5) \<noteq> ptr_id (np_full_ptr_list t) (Some 9)"
    "ptr_id (np_full_ptr_list t) (Some 9) \<noteq> ptr_id (np_full_ptr_list t) None"
    using t(2) by (simp_all add: inj_on_def)
  with t(1,3) show ?thesis by (intro exI [of _ t]) (simp del: push_full_ptrs.simps)
qed

end
