(* ===== verification/Iconv.thy ===== *)
theory Iconv
  imports CString
begin

text \<open>
  The character set converters of \<open>lib/charset/iconv.c\<close>. A converter is given the input bytes
  and the room left for output; it returns its result (\<open>Inl\<close> is -1 with the errno), the input
  it has not consumed and the bytes it has stored. The loops end since each round consumes
  input. Lengths are below 2 GB, so that the \<open>int\<close> in the copying converters does not wrap.
\<close>

datatype errno = E2BIG | EINVAL | EILSEQ | ENOMEM

type_synonym conv_res = "(errno + nat) \<times> u8 list \<times> u8 list"
type_synonym converter = "u8 list \<Rightarrow> nat \<Rightarrow> conv_res"

text \<open>Store some bytes, then go on.\<close>

definition emit :: "u8 list \<Rightarrow> conv_res \<Rightarrow> conv_res" where
  "emit bs r = (fst r, fst (snd r), bs @ snd (snd r))"

section \<open>The converters\<close>

fun ascii_pull :: converter where
  "ascii_pull [] out = (Inr 0, [], [])"
| "ascii_pull (c # r) out = (if out < 2 then (Inl E2BIG, c # r, []) else emit [c, 0] (ascii_pull r (out - 2)))"

text \<open>The number of characters that do not fit is the result.\<close>

fun ascii_push_count :: "nat \<Rightarrow> converter" where
  "ascii_push_count n [] out = (Inr n, [], [])"
| "ascii_push_count n [c] out = (Inl EINVAL, [c], [])"
| "ascii_push_count n (c # d # r) out =
     (if out < 1 then (Inl E2BIG, c # d # r, [])
      else emit [c AND 0x7F] (ascii_push_count (if d \<noteq> 0 then n + 1 else n) r (out - 1)))"

definition ascii_push :: converter where
  "ascii_push = ascii_push_count 0"

definition isspace_byte :: "u8 \<Rightarrow> bool" where
  "isspace_byte c \<longleftrightarrow> c = 0x20 \<or> 9 \<le> c \<and> c \<le> 13"

definition hex_value :: "u8 \<Rightarrow> u32 option" where
  "hex_value c =
     (if 0x30 \<le> c \<and> c \<le> 0x39 then Some (ucast (c - 0x30))
      else if 0x61 \<le> c \<and> c \<le> 0x66 then Some (ucast (c - 0x57))
      else if 0x41 \<le> c \<and> c \<le> 0x46 then Some (ucast (c - 0x37))
      else None)"

fun hex_digits :: "u8 list \<Rightarrow> u32 list" where
  "hex_digits [] = []"
| "hex_digits (c # r) = (case hex_value c of None \<Rightarrow> [] | Some v \<Rightarrow> v # hex_digits r)"

text \<open>\<open>sscanf(s, "%04x", &v)\<close>: blanks, then at most four characters: a sign, \<open>0x\<close>, digits.\<close>

definition sscanf_04x :: "u8 list \<Rightarrow> u32 option" where
  "sscanf_04x s =
     (let t = take 4 (dropWhile isspace_byte s);
          neg = (t \<noteq> [] \<and> hd t = 0x2D);
          u = (if t \<noteq> [] \<and> (hd t = 0x2D \<or> hd t = 0x2B) then tl t else t);
          w = (if 2 \<le> length u \<and> u ! 0 = 0x30 \<and> (u ! 1 = 0x78 \<or> u ! 1 = 0x58) then drop 2 u else u);
          ds = hex_digits w;
          v = foldl (\<lambda>a d. a * 16 + d) 0 ds
      in if ds = [] then None else Some (if neg then - v else v))"

function ucs2hex_pull :: converter where
  "ucs2hex_pull inb out =
     (case inb of
        [] \<Rightarrow> (Inr 0, [], [])
      | c # r \<Rightarrow>
          if out < 2 then (Inl E2BIG, inb, [])
          else if c \<noteq> 0x40 then emit [c, 0] (ucs2hex_pull r (out - 2))
          else if length inb < 5 then (Inl EINVAL, inb, [])
          else
            (case sscanf_04x r of
               None \<Rightarrow> (Inl EILSEQ, inb, [])
             | Some v \<Rightarrow> emit [ucast (v AND 0xFF), ucast (drop_bit 8 v)] (ucs2hex_pull (drop 5 inb) (out - 2))))"
  by pat_completeness auto
termination by (relation "measure (\<lambda>(inb, out). length inb)") auto

definition hex_char :: "u16 \<Rightarrow> u8" where
  "hex_char n = (if n < 10 then 0x30 + ucast n else 0x57 + ucast n)"

text \<open>\<open>snprintf(buf, 6, "@%04x", v)\<close>.\<close>

definition at_hex :: "u16 \<Rightarrow> u8 list" where
  "at_hex v = [0x40, hex_char (drop_bit 12 v), hex_char (drop_bit 8 v AND 0xF), hex_char (drop_bit 4 v AND 0xF), hex_char (v AND 0xF)]"

fun ucs2hex_push :: converter where
  "ucs2hex_push [] out = (Inr 0, [], [])"
| "ucs2hex_push [c] out = (Inl EINVAL, [c], [])"
| "ucs2hex_push (c # d # r) out =
     (if out < 1 then (Inl E2BIG, c # d # r, [])
      else if d = 0 \<and> c AND 0x80 = 0 \<and> c \<noteq> 0x40 then emit [c] (ucs2hex_push r (out - 1))
      else if out < 5 then (Inl E2BIG, c # d # r, [])
      else emit (at_hex (ucast c OR push_bit 8 (ucast d))) (ucs2hex_push r (out - 5)))"

fun swab :: "u8 list \<Rightarrow> u8 list" where
  "swab (a # b # r) = b # a # swab r"
| "swab _ = []"

text \<open>A last byte without a partner is stored as 0.\<close>

definition iconv_swab :: converter where
  "iconv_swab inb out =
     (let n = min (length inb) out; r = drop n inb
      in (if r = [] then Inr 0 else Inl E2BIG, r, swab (take n inb) @ (if odd n then [0] else [])))"

definition iconv_copy :: converter where
  "iconv_copy inb out =
     (let n = min (length inb) out; r = drop n inb in (if r = [] then Inr 0 else Inl E2BIG, r, take n inb))"

definition is_cont :: "u8 \<Rightarrow> bool" where
  "is_cont c \<longleftrightarrow> c AND 0xC0 = 0x80"

function utf8_pull :: converter where
  "utf8_pull inb out =
     (case inb of
        [] \<Rightarrow> (Inr 0, [], [])
      | c0 # r \<Rightarrow>
          if out < 2 then (Inl E2BIG, inb, [])
          else if c0 AND 0x80 = 0 then emit [c0, 0] (utf8_pull r (out - 2))
          else if c0 AND 0xE0 = 0xC0 then
            (if length inb < 2 \<or> \<not> is_cont (inb ! 1) then (Inl EILSEQ, inb, [])
             else emit [push_bit 6 c0 OR (inb ! 1 AND 0x3F), drop_bit 2 c0 AND 0x7] (utf8_pull (drop 2 inb) (out - 2)))
          else if c0 AND 0xF0 = 0xE0 then
            (if length inb < 3 \<or> \<not> is_cont (inb ! 1) \<or> \<not> is_cont (inb ! 2) then (Inl EILSEQ, inb, [])
             else emit [push_bit 6 (inb ! 1) OR (inb ! 2 AND 0x3F), push_bit 4 (c0 AND 0xF) OR (drop_bit 2 (inb ! 1) AND 0xF)]
                    (utf8_pull (drop 3 inb) (out - 2)))
          else if c0 AND 0xF8 = 0xF0 then
            (if length inb < 4 \<or> \<not> is_cont (inb ! 1) \<or> \<not> is_cont (inb ! 2) \<or> \<not> is_cont (inb ! 3) then (Inl EILSEQ, inb, [])
             else
               (let codepoint = ucast (inb ! 3 AND 0x3F) OR push_bit 6 (ucast (inb ! 2 AND 0x3F)) OR
                      push_bit 12 (ucast (inb ! 1 AND 0x3F)) OR push_bit 18 (ucast (c0 AND 0x7)) :: u32
                in if codepoint < 0x10000
                   then emit [ucast (codepoint AND 0xFF), ucast (drop_bit 8 codepoint)] (utf8_pull (drop 4 inb) (out - 2))
                   else if out < 4 then (Inl E2BIG, inb, [])
                   else
                     (let v = codepoint - 0x10000
                      in emit [ucast (drop_bit 10 v AND 0xFF), ucast (drop_bit 18 v) OR 0xD8, ucast (v AND 0xFF),
                               ucast (drop_bit 8 v AND 0x3) OR 0xDC]
                           (utf8_pull (drop 4 inb) (out - 4)))))
          else (Inl EINVAL, inb, []))"
  by pat_completeness auto
termination by (relation "measure (\<lambda>(inb, out). length inb)") auto

function utf8_push :: converter where
  "utf8_push inb out =
     (if length inb = 0 then (Inr 0, [], [])
      else if length inb = 1 then (Inl EINVAL, inb, [])
      else if out < 1 then (Inl E2BIG, inb, [])
      else if inb ! 1 = 0 \<and> inb ! 0 AND 0x80 = 0 then emit [inb ! 0] (utf8_push (drop 2 inb) (out - 1))
      else if inb ! 1 AND 0xF8 = 0 then
        (if out < 2 then (Inl E2BIG, inb, [])
         else emit [0xC0 OR drop_bit 6 (inb ! 0) OR push_bit 2 (inb ! 1), 0x80 OR (inb ! 0 AND 0x3F)] (utf8_push (drop 2 inb) (out - 2)))
      else if inb ! 1 AND 0xFC = 0xDC then (Inl (if length inb < 4 then EINVAL else EILSEQ), inb, [])
      else if inb ! 1 AND 0xFC \<noteq> 0xD8 then
        (let codepoint = ucast (inb ! 0) OR push_bit 8 (ucast (inb ! 1)) :: u32
         in if out < 3 then (Inl E2BIG, inb, [])
            else emit [0xE0 OR ucast (drop_bit 12 codepoint), 0x80 OR ucast (drop_bit 6 codepoint AND 0x3F), 0x80 OR ucast (codepoint AND 0x3F)]
                   (utf8_push (drop 2 inb) (out - 3)))
      else if length inb < 4 then (Inl EINVAL, inb, [])
      else if inb ! 3 AND 0xFC \<noteq> 0xDC then (Inl EILSEQ, inb, [])
      else
        (let codepoint = 0x10000 + (ucast (inb ! 2) OR push_bit 8 (ucast (inb ! 3 AND 0x3)) OR
               push_bit 10 (ucast (inb ! 0)) OR push_bit 18 (ucast (inb ! 1 AND 0x3))) :: u32
         in if out < 4 then (Inl E2BIG, inb, [])
            else emit [0xF0 OR ucast (drop_bit 18 codepoint), 0x80 OR ucast (drop_bit 12 codepoint AND 0x3F),
                       0x80 OR ucast (drop_bit 6 codepoint AND 0x3F), 0x80 OR ucast (codepoint AND 0x3F)]
                   (utf8_push (drop 4 inb) (out - 4))))"
  by pat_completeness auto
termination by (relation "measure (\<lambda>(inb, out). length inb)") auto

declare ucs2hex_pull.simps [simp del] utf8_pull.simps [simp del] utf8_push.simps [simp del]

end
