(* ===== verification/Utf.thy ===== *)
theory Utf
  imports Iconv
begin

text \<open>
  The UTF-8 converters against the encodings of the Unicode standard, code point by code point.
\<close>

section \<open>The encodings\<close>

definition scalar :: "u32 \<Rightarrow> bool" where
  "scalar cp \<longleftrightarrow> cp < 0x110000 \<and> \<not> (0xD800 \<le> cp \<and> cp < 0xE000)"

definition le16 :: "u32 \<Rightarrow> u8 list" where
  "le16 w = [ucast w, ucast (drop_bit 8 w)]"

definition utf16_enc :: "u32 \<Rightarrow> u8 list" where
  "utf16_enc cp =
     (if cp < 0x10000 then le16 cp
      else let v = cp - 0x10000 in le16 (0xD800 OR drop_bit 10 v) @ le16 (0xDC00 OR take_bit 10 v))"

definition tail6 :: "nat \<Rightarrow> u32 \<Rightarrow> u8" where
  "tail6 k cp = 0x80 OR ucast (take_bit 6 (drop_bit k cp))"

definition utf8_enc :: "u32 \<Rightarrow> u8 list" where
  "utf8_enc cp =
     (if cp < 0x80 then [ucast cp]
      else if cp < 0x800 then [0xC0 OR ucast (drop_bit 6 cp), tail6 0 cp]
      else if cp < 0x10000 then [0xE0 OR ucast (drop_bit 12 cp), tail6 6 cp, tail6 0 cp]
      else [0xF0 OR ucast (drop_bit 18 cp), tail6 12 cp, tail6 6 cp, tail6 0 cp])"

section \<open>Bits\<close>

text \<open>A position below a given number is one of finitely many.\<close>

lemma bit_positions:
  "(n :: nat) < 5 \<Longrightarrow> n \<in> {4, 3, 2, 1, 0}"
  "(n :: nat) < 21 \<Longrightarrow> n \<in> {20, 19, 18, 17, 16, 15, 14, 13, 12, 11, 10, 9, 8, 7, 6, 5, 4, 3, 2, 1, 0}"
  by (auto simp: less_Suc_eq numeral_eq_Suc)

lemma all_less_8: "(\<forall>n < 8. P n) \<longleftrightarrow> P 0 \<and> P 1 \<and> P 2 \<and> P 3 \<and> P 4 \<and> P 5 \<and> P 6 \<and> P (7 :: nat)"
  by (simp add: eval_nat_numeral All_less_Suc conj_ac)

lemma u8_eq_iff:
  "(x :: u8) = y \<longleftrightarrow> bit x 0 = bit y 0 \<and> bit x 1 = bit y 1 \<and> bit x 2 = bit y 2 \<and> bit x 3 = bit y 3 \<and>
     bit x 4 = bit y 4 \<and> bit x 5 = bit y 5 \<and> bit x 6 = bit y 6 \<and> bit x 7 = bit y 7"
proof -
  have "x = y \<longleftrightarrow> (\<forall>n < 8. bit x n = bit y n)" by (auto intro!: bit_word_eqI)
  then show ?thesis by (simp only: all_less_8)
qed

lemma byte_tests:
  "(x :: u8) AND 0x80 = 0 \<longleftrightarrow> \<not> bit x 7"
  "x AND 0xC0 = 0x80 \<longleftrightarrow> bit x 7 \<and> \<not> bit x 6"
  "x AND 0xE0 = 0xC0 \<longleftrightarrow> bit x 7 \<and> bit x 6 \<and> \<not> bit x 5"
  "x AND 0xF0 = 0xE0 \<longleftrightarrow> bit x 7 \<and> bit x 6 \<and> bit x 5 \<and> \<not> bit x 4"
  "x AND 0xF8 = 0xF0 \<longleftrightarrow> bit x 7 \<and> bit x 6 \<and> bit x 5 \<and> bit x 4 \<and> \<not> bit x 3"
  "x AND 0xF8 = 0 \<longleftrightarrow> \<not> bit x 7 \<and> \<not> bit x 6 \<and> \<not> bit x 5 \<and> \<not> bit x 4 \<and> \<not> bit x 3"
  "x AND 0xFC = 0xDC \<longleftrightarrow> bit x 7 \<and> bit x 6 \<and> \<not> bit x 5 \<and> bit x 4 \<and> bit x 3 \<and> bit x 2"
  "x AND 0xFC = 0xD8 \<longleftrightarrow> bit x 7 \<and> bit x 6 \<and> \<not> bit x 5 \<and> bit x 4 \<and> bit x 3 \<and> \<not> bit x 2"
  by (auto simp: u8_eq_iff bit_simps)

lemma bit_below: "unat (x :: u32) < 2 ^ k \<Longrightarrow> bit x n \<Longrightarrow> n < k"
proof (rule ccontr)
  assume "unat x < 2 ^ k" "bit x n" "\<not> n < k"
  then have "unat x < 2 ^ n" by (meson le_less_trans less_le_trans not_less one_le_numeral power_increasing)
  moreover have "bit (unat x) n" using \<open>bit x n\<close> by (simp add: bit_unsigned_iff)
  ultimately show False by (simp add: bit_iff_odd)
qed

lemma high_bits_zero:
  "(cp :: u32) < 0x80 \<Longrightarrow> 7 \<le> n \<Longrightarrow> \<not> bit cp n" "cp < 0x800 \<Longrightarrow> 11 \<le> n \<Longrightarrow> \<not> bit cp n"
  "cp < 0x10000 \<Longrightarrow> 16 \<le> n \<Longrightarrow> \<not> bit cp n" "cp < 0x100000 \<Longrightarrow> 20 \<le> n \<Longrightarrow> \<not> bit cp n"
  "cp < 0x110000 \<Longrightarrow> 21 \<le> n \<Longrightarrow> \<not> bit cp n"
  using bit_below [of cp 7 n] bit_below [of cp 11 n] bit_below [of cp 16 n] bit_below [of cp 20 n] bit_below [of cp 21 n]
  by (auto simp: word_less_nat_alt)

lemma low_from_bits: "(\<And>n. k \<le> n \<Longrightarrow> n < 32 \<Longrightarrow> \<not> bit (x :: u32) n) \<Longrightarrow> unat x < 2 ^ k"
proof -
  assume "\<And>n. k \<le> n \<Longrightarrow> n < 32 \<Longrightarrow> \<not> bit x n"
  then have "take_bit k x = x" by (intro bit_word_eqI) (auto simp: bit_simps, meson not_less)
  then have "take_bit k (unat x) = unat x" by (metis unsigned_take_bit_eq)
  then show ?thesis by (metis take_bit_nat_less_exp)
qed

lemma le16_bytes: "le16 w ! 0 = ucast w" "le16 w ! 1 = ucast (drop_bit 8 w)" "length (le16 w) = 2"
  by (simp_all add: le16_def)

text \<open>The masks of the converters.\<close>

lemma masks:
  "(v :: 'a::len word) AND 0x3 = take_bit 2 v" "v AND 0x7 = take_bit 3 v" "v AND 0xF = take_bit 4 v"
  "v AND 0x3F = take_bit 6 v" "v AND 0xFF = take_bit 8 v"
  by (simp_all add: take_bit_eq_mask mask_eq_exp_minus_1)

lemma surrogate_bits:
  assumes "(cp :: u32) < 0x10000" "bit cp 15" "bit cp 14" "\<not> bit cp 13" "bit cp 12" "bit cp 11"
  shows "0xD800 \<le> cp \<and> cp < 0xE000"
proof -
  have "drop_bit 11 cp = 0x1B"
  proof (rule bit_word_eqI)
    fix n assume "n < LENGTH(32)"
    have "n \<in> {4, 3, 2, 1, 0} \<or> 5 \<le> n" using bit_positions(1) by fastforce
    then show "bit (drop_bit 11 cp) n = bit (0x1B :: u32) n"
      using assms high_bits_zero(3) [OF assms(1), of "11 + n"] bit_below [of "0x1B" 5 n]
      by (elim disjE insertE emptyE) (auto simp: bit_simps)
  qed
  then have "unat (drop_bit 11 cp) = unat (0x1B :: u32)" by (rule arg_cong)
  then have "unat cp div 2048 = 27" unfolding unat_drop_bit_eq by (simp add: drop_bit_eq_div)
  then show ?thesis by (auto simp: word_le_nat_alt word_less_nat_alt)
qed

section \<open>Writing UTF-8\<close>

lemma push_1:
  assumes "cp < 0x80" "1 \<le> out"
  shows "utf8_push (le16 cp @ r) out = emit [ucast cp] (utf8_push r (out - 1))"
proof -
  have "(ucast (drop_bit 8 cp) :: u8) = 0" "(ucast cp :: u8) AND 0x80 = 0"
    using high_bits_zero(1) [OF assms(1)] by (auto simp: u8_eq_iff byte_tests bit_simps)
  then show ?thesis using assms(2) by (subst utf8_push.simps) (simp add: le16_def)
qed

lemma push_2:
  assumes "0x80 \<le> cp" "cp < 0x800" "2 \<le> out"
  shows "utf8_push (le16 cp @ r) out = emit [0xC0 OR ucast (drop_bit 6 cp), tail6 0 cp] (utf8_push r (out - 2))"
proof -
  note z = high_bits_zero(2) [OF assms(2)]
  have "\<not> ((ucast (drop_bit 8 cp) :: u8) = 0 \<and> (ucast cp :: u8) AND 0x80 = 0)"
  proof
    assume "(ucast (drop_bit 8 cp) :: u8) = 0 \<and> (ucast cp :: u8) AND 0x80 = 0"
    then have b: "\<not> bit cp 7" "\<not> bit cp 8" "\<not> bit cp 9" "\<not> bit cp 10" by (simp_all add: u8_eq_iff byte_tests bit_simps)
    have "\<not> bit cp n" if "7 \<le> n" for n
    proof -
      have "n = 7 \<or> n = 8 \<or> n = 9 \<or> n = 10 \<or> 11 \<le> n" using that by auto
      then show ?thesis using b z [of n] by (elim disjE) simp_all
    qed
    then have "unat cp < 2 ^ 7" by (intro low_from_bits) simp
    then show False using assms(1) by (simp add: word_le_nat_alt)
  qed
  moreover have "(ucast (drop_bit 8 cp) :: u8) AND 0xF8 = 0" using z by (auto simp: byte_tests bit_simps)
  moreover have "0xC0 OR drop_bit 6 (ucast cp :: u8) OR push_bit 2 (ucast (drop_bit 8 cp)) = 0xC0 OR ucast (drop_bit 6 cp)"
    using z by (auto simp: u8_eq_iff bit_simps)
  moreover have "0x80 OR (ucast cp AND 0x3F) = tail6 0 cp" by (auto simp: u8_eq_iff bit_simps masks tail6_def)
  ultimately show ?thesis using assms(3) by (subst utf8_push.simps) (auto simp: le16_def)
qed

lemma not_small_16:
  assumes "0x800 \<le> (cp :: u32)" "cp < 0x10000"
  shows "\<not> (ucast (drop_bit 8 cp) :: u8) AND 0xF8 = 0"
proof
  assume "(ucast (drop_bit 8 cp) :: u8) AND 0xF8 = 0"
  then have b: "\<not> bit cp 11" "\<not> bit cp 12" "\<not> bit cp 13" "\<not> bit cp 14" "\<not> bit cp 15" by (simp_all add: byte_tests bit_simps)
  have "\<not> bit cp n" if "11 \<le> n" for n
  proof -
    have "n = 11 \<or> n = 12 \<or> n = 13 \<or> n = 14 \<or> n = 15 \<or> 16 \<le> n" using that by auto
    then show ?thesis using b high_bits_zero(3) [OF assms(2), of n] by (elim disjE) simp_all
  qed
  then have "unat cp < 2 ^ 11" by (intro low_from_bits) simp
  then show False using assms(1) by (simp add: word_le_nat_alt)
qed

lemma push_3:
  assumes "0x800 \<le> cp" "cp < 0x10000" "\<not> (0xD800 \<le> cp \<and> cp < 0xE000)" "3 \<le> out"
  shows "utf8_push (le16 cp @ r) out = emit [0xE0 OR ucast (drop_bit 12 cp), tail6 6 cp, tail6 0 cp] (utf8_push r (out - 3))"
proof -
  note z = high_bits_zero(3) [OF assms(2)] and h = not_small_16 [OF assms(1,2)]
  have "(ucast (drop_bit 8 cp) :: u8) \<noteq> 0" using h by auto
  moreover have "(ucast (drop_bit 8 cp) :: u8) AND 0xFC \<noteq> 0xDC" "(ucast (drop_bit 8 cp) :: u8) AND 0xFC \<noteq> 0xD8"
    using assms(3) surrogate_bits [OF assms(2)] by (auto simp: byte_tests bit_simps)
  moreover have "ucast (ucast cp :: u8) OR push_bit 8 (ucast (ucast (drop_bit 8 cp) :: u8)) = cp" (is "?w = cp")
  proof (rule bit_word_eqI)
    fix n assume "n < LENGTH(32)"
    then show "bit ?w n = bit cp n" using z [of n] by (cases "n < 8"; cases "n < 16") (auto simp: bit_simps)
  qed
  moreover have "0x80 OR ucast (drop_bit k cp AND 0x3F) = tail6 k cp" for k by (simp add: tail6_def masks)
  note this [of 6] this [of 0]
  ultimately show ?thesis using assms(4) h by (subst utf8_push.simps) (simp add: le16_def)
qed

lemma supplementary:
  assumes "0x10000 \<le> cp" "cp < 0x110000"
  shows "(cp :: u32) - 0x10000 < 0x100000" "0x10000 + (cp - 0x10000) = cp"
  using assms by (simp_all add: word_le_nat_alt word_less_nat_alt unat_sub_if')

lemma surrogate_value:
  assumes "v < 0x100000"
  shows "ucast (ucast (0xDC00 OR take_bit 10 v) :: u8) OR push_bit 8 (ucast (ucast (drop_bit 8 (0xDC00 OR take_bit 10 v)) AND 0x3 :: u8)) OR
    push_bit 10 (ucast (ucast (0xD800 OR drop_bit 10 v) :: u8)) OR push_bit 18 (ucast (ucast (drop_bit 8 (0xD800 OR drop_bit 10 v)) AND 0x3 :: u8)) = (v :: u32)"
  (is "?w = v")
proof (rule bit_word_eqI)
  fix n assume n: "n < LENGTH(32)"
  have "n \<in> {20, 19, 18, 17, 16, 15, 14, 13, 12, 11, 10, 9, 8, 7, 6, 5, 4, 3, 2, 1, 0} \<or> 21 \<le> n"
    using bit_positions(2) [of n] by linarith
  then show "bit ?w n = bit v n"
    using high_bits_zero(4) [OF assms, of n] n
    by (elim disjE insertE emptyE) (simp_all add: bit_simps masks)
qed

lemma tail6_code: "0x80 OR ucast (drop_bit k cp AND 0x3F) = tail6 k cp" "0x80 OR ucast (cp AND 0x3F) = tail6 0 cp"
  by (simp_all add: tail6_def masks)

lemma tail6_drop [simp]: "tail6 0 (drop_bit k cp) = tail6 k cp"
  by (simp add: tail6_def)

lemma Suc_4: "Suc (Suc (Suc (Suc 0))) = 4"
  by simp

lemma surrogate_tests:
  assumes "(v :: u32) < 0x100000"
  shows "(ucast (drop_bit 8 (0xD800 OR drop_bit 10 v)) :: u8) AND 0xFC = 0xD8" "(ucast (drop_bit 8 (0xDC00 OR take_bit 10 v)) :: u8) AND 0xFC = 0xDC"
  using high_bits_zero(4) [OF assms] by (auto simp: byte_tests bit_simps)

lemma push_4:
  assumes "0x10000 \<le> cp" "cp < 0x110000" "4 \<le> out"
  shows "utf8_push (le16 (0xD800 OR drop_bit 10 (cp - 0x10000)) @ le16 (0xDC00 OR take_bit 10 (cp - 0x10000)) @ r) out =
    emit [0xF0 OR ucast (drop_bit 18 cp), tail6 12 cp, tail6 6 cp, tail6 0 cp] (utf8_push r (out - 4))"
proof -
  define v where "v = cp - 0x10000"
  have v: "v < 0x100000" "0x10000 + v = cp" using supplementary [OF assms(1,2)] by (simp_all add: v_def)
  define h l where "h = 0xD800 OR drop_bit 10 v" and "l = 0xDC00 OR take_bit 10 v"
  have t: "(ucast (drop_bit 8 h) :: u8) AND 0xFC = 0xD8" "(ucast (drop_bit 8 l) :: u8) AND 0xFC = 0xDC"
    using surrogate_tests [OF v(1)] by (simp_all add: h_def l_def)
  have n: "(ucast (drop_bit 8 h) :: u8) \<noteq> 0" using t(1) by auto
  have n2: "(ucast (drop_bit 8 h) :: u8) AND 0xF8 \<noteq> 0" using t(1) unfolding byte_tests by blast
  have w: "0x10000 + (ucast (ucast l :: u8) OR push_bit 8 (ucast (ucast (drop_bit 8 l) AND 0x3 :: u8)) OR
      push_bit 10 (ucast (ucast h :: u8)) OR push_bit 18 (ucast (ucast (drop_bit 8 h) AND 0x3 :: u8))) = cp"
    using surrogate_value [OF v(1)] v(2) by (simp add: h_def l_def)
  show ?thesis unfolding v_def [symmetric] h_def [symmetric] l_def [symmetric]
    using t n n2 w assms(3) by (subst utf8_push.simps) (simp add: le16_def Let_def tail6_code)
qed

lemma enc_forms:
  "cp < 0x80 \<Longrightarrow> utf8_enc cp = [ucast cp] \<and> utf16_enc cp = le16 cp"
  "0x80 \<le> cp \<Longrightarrow> cp < 0x800 \<Longrightarrow> utf8_enc cp = [0xC0 OR ucast (drop_bit 6 cp), tail6 0 cp] \<and> utf16_enc cp = le16 cp"
  "0x800 \<le> cp \<Longrightarrow> cp < 0x10000 \<Longrightarrow>
     utf8_enc cp = [0xE0 OR ucast (drop_bit 12 cp), tail6 6 cp, tail6 0 cp] \<and> utf16_enc cp = le16 cp"
  "0x10000 \<le> cp \<Longrightarrow> utf8_enc cp = [0xF0 OR ucast (drop_bit 18 cp), tail6 12 cp, tail6 6 cp, tail6 0 cp] \<and>
     utf16_enc cp = le16 (0xD800 OR drop_bit 10 (cp - 0x10000)) @ le16 (0xDC00 OR take_bit 10 (cp - 0x10000))"
  unfolding utf8_enc_def utf16_enc_def Let_def word_less_nat_alt word_le_nat_alt by simp_all

lemma scalar_cases:
  assumes "scalar cp"
  shows "cp < 0x80 \<or> 0x80 \<le> cp \<and> cp < 0x800 \<or> 0x800 \<le> cp \<and> cp < 0x10000 \<and> \<not> (0xD800 \<le> cp \<and> cp < 0xE000) \<or>
    0x10000 \<le> cp \<and> cp < 0x110000"
  using assms by (auto simp: scalar_def not_less)

lemma utf8_push_char:
  assumes "scalar cp" "length (utf8_enc cp) \<le> out"
  shows "utf8_push (utf16_enc cp @ r) out = emit (utf8_enc cp) (utf8_push r (out - length (utf8_enc cp)))"
  using scalar_cases [OF assms(1)]
proof (elim disjE conjE)
  assume "cp < 0x80"
  with enc_forms(1) [OF this] assms(2) show ?thesis by (simp add: push_1)
next
  assume "0x80 \<le> cp" "cp < 0x800"
  with enc_forms(2) [OF this] assms(2) show ?thesis by (simp add: push_2 numeral_2_eq_2)
next
  assume "0x800 \<le> cp" "cp < 0x10000" "\<not> (0xD800 \<le> cp \<and> cp < 0xE000)"
  with enc_forms(3) [OF this(1,2)] assms(2) show ?thesis by (simp add: push_3 numeral_3_eq_3 del: not_le not_less)
next
  assume "0x10000 \<le> cp" "cp < 0x110000"
  with enc_forms(4) [OF this(1)] push_4 [OF this, of out r] assms(2) show ?thesis by (simp add: Suc_4)
qed

section \<open>Reading UTF-8\<close>

lemma pull_1:
  assumes "(cp :: u32) < 0x80" "2 \<le> out"
  shows "utf8_pull (ucast cp # r) out = emit (le16 cp) (utf8_pull r (out - 2))"
proof -
  have "(ucast (drop_bit 8 cp) :: u8) = 0" "(ucast cp :: u8) AND 0x80 = 0"
    using high_bits_zero(1) [OF assms(1)] by (auto simp: u8_eq_iff byte_tests bit_simps)
  then show ?thesis using assms(2) by (subst utf8_pull.simps) (simp add: le16_def)
qed

lemma tail6_cont: "is_cont (tail6 k cp)" "tail6 k cp AND 0x3F = ucast (take_bit 6 (drop_bit k cp))"
  by (auto simp: is_cont_def byte_tests tail6_def u8_eq_iff bit_simps masks)

lemma lead_2: "(cp :: u32) < 0x800 \<Longrightarrow> (0xC0 OR ucast (drop_bit 6 cp) :: u8) AND 0xE0 = 0xC0"
  using high_bits_zero(2) [of cp] by (auto simp: byte_tests bit_simps)

lemma lead_3: "(cp :: u32) < 0x10000 \<Longrightarrow> (0xE0 OR ucast (drop_bit 12 cp) :: u8) AND 0xF0 = 0xE0"
  using high_bits_zero(3) [of cp] by (auto simp: byte_tests bit_simps)

lemma lead_4: "(cp :: u32) < 0x110000 \<Longrightarrow> (0xF0 OR ucast (drop_bit 18 cp) :: u8) AND 0xF8 = 0xF0"
  using high_bits_zero(5) [of cp] by (auto simp: byte_tests bit_simps)

lemma pull_2:
  assumes "(cp :: u32) < 0x800" "2 \<le> out"
  shows "utf8_pull ([0xC0 OR ucast (drop_bit 6 cp), tail6 0 cp] @ r) out = emit (le16 cp) (utf8_pull r (out - 2))"
proof -
  let ?c = "0xC0 OR ucast (drop_bit 6 cp) :: u8"
  note z = high_bits_zero(2) [OF assms(1)] and t = tail6_cont
  have "?c AND 0x80 \<noteq> 0" by (simp add: byte_tests bit_simps)
  moreover have "push_bit 6 ?c OR ucast (take_bit 6 cp) = ucast cp" "drop_bit 2 ?c AND 0x7 = ucast (drop_bit 8 cp)"
    using z by (auto simp: u8_eq_iff bit_simps masks)
  ultimately show ?thesis using lead_2 [OF assms(1)] assms(2)
    by (subst utf8_pull.simps) (simp add: le16_def tail6_cont [of 0, simplified])
qed

lemma pull_3:
  assumes "(cp :: u32) < 0x10000" "2 \<le> out"
  shows "utf8_pull ([0xE0 OR ucast (drop_bit 12 cp), tail6 6 cp, tail6 0 cp] @ r) out = emit (le16 cp) (utf8_pull r (out - 2))"
proof -
  let ?c = "0xE0 OR ucast (drop_bit 12 cp) :: u8"
  note z = high_bits_zero(3) [OF assms(1)]
  have "?c AND 0x80 \<noteq> 0" "?c AND 0xE0 \<noteq> 0xC0" by (simp_all add: byte_tests bit_simps)
  moreover have "push_bit 6 (tail6 6 cp) OR (tail6 0 cp AND 0x3F) = ucast cp"
      "push_bit 4 (?c AND 0xF) OR (drop_bit 2 (tail6 6 cp) AND 0xF) = ucast (drop_bit 8 cp)"
    using z by (auto simp: u8_eq_iff bit_simps masks tail6_def)
  ultimately show ?thesis using lead_3 [OF assms(1)] assms(2)
    by (subst utf8_pull.simps) (simp add: le16_def tail6_cont(1))
qed

lemma four_byte_value:
  assumes "cp < 0x110000"
  shows "ucast (tail6 0 cp AND 0x3F) OR push_bit 6 (ucast (tail6 6 cp AND 0x3F)) OR push_bit 12 (ucast (tail6 12 cp AND 0x3F)) OR
    push_bit 18 (ucast ((0xF0 OR ucast (drop_bit 18 cp) :: u8) AND 0x7)) = (cp :: u32)" (is "?w = cp")
proof (rule bit_word_eqI)
  fix n assume n: "n < LENGTH(32)"
  have "n \<in> {20, 19, 18, 17, 16, 15, 14, 13, 12, 11, 10, 9, 8, 7, 6, 5, 4, 3, 2, 1, 0} \<or> 21 \<le> n"
    using bit_positions(2) [of n] by linarith
  then show "bit ?w n = bit cp n"
    using high_bits_zero(5) [OF assms, of n] n
    by (elim disjE insertE emptyE) (simp_all add: bit_simps masks tail6_def)
qed

lemma pull_4:
  assumes "0x10000 \<le> cp" "cp < 0x110000" "4 \<le> out"
  shows "utf8_pull ([0xF0 OR ucast (drop_bit 18 cp), tail6 12 cp, tail6 6 cp, tail6 0 cp] @ r) out =
    emit (le16 (0xD800 OR drop_bit 10 (cp - 0x10000)) @ le16 (0xDC00 OR take_bit 10 (cp - 0x10000))) (utf8_pull r (out - 4))"
proof -
  let ?c = "0xF0 OR ucast (drop_bit 18 cp) :: u8"
  define v where "v = cp - 0x10000"
  have v: "v < 0x100000" using supplementary [OF assms(1,2)] by (simp add: v_def)
  note z = high_bits_zero(4) [OF v]
  have "?c AND 0x80 \<noteq> 0" "?c AND 0xE0 \<noteq> 0xC0" "?c AND 0xF0 \<noteq> 0xE0" by (simp_all add: byte_tests bit_simps)
  moreover have "[ucast (drop_bit 10 v AND 0xFF), ucast (drop_bit 18 v) OR 0xD8, ucast (v AND 0xFF), ucast (drop_bit 8 v AND 0x3) OR 0xDC]
      = le16 (0xD800 OR drop_bit 10 v) @ le16 (0xDC00 OR take_bit 10 v)"
    using z by (simp add: le16_def u8_eq_iff bit_simps masks)
  moreover have "\<not> cp < 0x10000" using assms(1) by (simp add: not_less)
  ultimately show ?thesis using lead_4 [OF assms(2)] four_byte_value [OF assms(2)] assms(3) unfolding v_def [symmetric]
    by (subst utf8_pull.simps) (simp add: tail6_cont(1) Let_def v_def del: not_less)
qed

lemma length_utf16_enc: "length (utf16_enc cp) = (if cp < 0x10000 then 2 else 4)"
  by (simp add: utf16_enc_def le16_def Let_def)

lemma utf8_pull_char:
  assumes "scalar cp" "length (utf16_enc cp) \<le> out"
  shows "utf8_pull (utf8_enc cp @ r) out = emit (utf16_enc cp) (utf8_pull r (out - length (utf16_enc cp)))"
  using scalar_cases [OF assms(1)]
proof (elim disjE conjE)
  assume "cp < 0x80"
  with enc_forms(1) [OF this] pull_1 [of cp out r] assms(2) show ?thesis by (simp add: le16_def numeral_2_eq_2)
next
  assume "0x80 \<le> cp" "cp < 0x800"
  with enc_forms(2) [OF this] pull_2 [of cp out r] assms(2) show ?thesis by (simp add: le16_def numeral_2_eq_2)
next
  assume "0x800 \<le> cp" "cp < 0x10000"
  with enc_forms(3) [OF this] pull_3 [of cp out r] assms(2) show ?thesis by (simp add: le16_def numeral_2_eq_2)
next
  assume "0x10000 \<le> cp" "cp < 0x110000"
  with enc_forms(4) [OF this(1)] pull_4 [OF this, of out r] assms(2) show ?thesis by (simp add: le16_def Suc_4)
qed

definition utf16 :: "u32 list \<Rightarrow> u8 list" where
  "utf16 cps = concat (map utf16_enc cps)"

definition utf8 :: "u32 list \<Rightarrow> u8 list" where
  "utf8 cps = concat (map utf8_enc cps)"

lemma emit_simps [simp]: "emit bs (r, i, os) = (r, i, bs @ os)"
  by (simp add: emit_def)

lemma utf8_push_text:
  "list_all scalar cps \<Longrightarrow> length (utf8 cps) \<le> out \<Longrightarrow> utf8_push (utf16 cps) out = (Inr 0, [], utf8 cps)"
proof (induction cps arbitrary: out)
  case Nil
  then show ?case by (subst utf8_push.simps) (simp add: utf16_def utf8_def)
next
  case (Cons cp cps)
  have "utf8_push (utf16_enc cp @ utf16 cps) out = emit (utf8_enc cp) (utf8_push (utf16 cps) (out - length (utf8_enc cp)))"
    using Cons.prems by (intro utf8_push_char) (auto simp: utf8_def)
  then show ?case using Cons by (simp add: utf16_def utf8_def)
qed

lemma utf8_pull_text:
  "list_all scalar cps \<Longrightarrow> length (utf16 cps) \<le> out \<Longrightarrow> utf8_pull (utf8 cps) out = (Inr 0, [], utf16 cps)"
proof (induction cps arbitrary: out)
  case Nil
  then show ?case by (subst utf8_pull.simps) (simp add: utf16_def utf8_def)
next
  case (Cons cp cps)
  have "utf8_pull (utf8_enc cp @ utf8 cps) out = emit (utf16_enc cp) (utf8_pull (utf8 cps) (out - length (utf16_enc cp)))"
    using Cons.prems by (intro utf8_pull_char) (auto simp: utf16_def)
  then show ?case using Cons by (simp add: utf16_def utf8_def)
qed

end
