(* ===== verification/Charcnv.thy ===== *)
theory Charcnv
  imports Utf
begin

text \<open>
  \<open>smb_iconv\<close> and \<open>smb_iconv_open\<close> of \<open>lib/charset/iconv.c\<close> and the functions of
  \<open>lib/charset/charcnv.c\<close>. The charset names are configuration, the iconv of the system and the
  charsets that modules register are parameters. A string is the list of its bytes; the size of
  a buffer is a number of bytes below 2 GB.
\<close>

section \<open>Descriptors\<close>

record charset_functions =
  cf_name :: string
  cf_pull :: converter
  cf_push :: converter

definition builtin_functions :: "charset_functions list" where
  "builtin_functions =
    [\<lparr>cf_name = ''UCS-2LE'', cf_pull = iconv_copy, cf_push = iconv_copy\<rparr>,
     \<lparr>cf_name = ''UTF-16LE'', cf_pull = iconv_copy, cf_push = iconv_copy\<rparr>,
     \<lparr>cf_name = ''UCS-2BE'', cf_pull = iconv_swab, cf_push = iconv_swab\<rparr>,
     \<lparr>cf_name = ''UTF-16BE'', cf_pull = iconv_swab, cf_push = iconv_swab\<rparr>,
     \<lparr>cf_name = ''UTF8'', cf_pull = utf8_pull, cf_push = utf8_push\<rparr>,
     \<lparr>cf_name = ''UTF-8'', cf_pull = utf8_pull, cf_push = utf8_push\<rparr>,
     \<lparr>cf_name = ''ASCII'', cf_pull = ascii_pull, cf_push = ascii_push\<rparr>,
     \<lparr>cf_name = ''UCS2-HEX'', cf_pull = ucs2hex_pull, cf_push = ucs2hex_push\<rparr>]"

record smb_iconv_t =
  ic_direct :: "converter option"
  ic_pull :: "converter option"
  ic_push :: "converter option"

text \<open>
  The environment: charsets registered by modules, newest first, whether the iconv of the system
  may be used, and its \<open>iconv_open(to, from)\<close>.
\<close>

record iconv_env =
  ie_charsets :: "charset_functions list"
  ie_native :: bool
  ie_iconv_open :: "string \<Rightarrow> string \<Rightarrow> converter option"

definition tolower :: "char \<Rightarrow> char" where
  "tolower c = (if 65 \<le> (of_char c :: nat) \<and> of_char c \<le> (90 :: nat) then char_of (of_char c + (32 :: nat)) else c)"

definition same_name :: "string \<Rightarrow> string \<Rightarrow> bool" where
  "same_name a b \<longleftrightarrow> map tolower a = map tolower b"

definition is_utf16 :: "string \<Rightarrow> bool" where
  "is_utf16 name \<longleftrightarrow> same_name name ''UCS-2LE'' \<or> same_name name ''UTF-16LE''"

text \<open>The loop over the built-in charsets takes the last match, the one over the others the first.\<close>

definition find_charset :: "iconv_env \<Rightarrow> string \<Rightarrow> charset_functions option" where
  "find_charset env code =
     (case find (\<lambda>f. same_name code (cf_name f)) (rev builtin_functions) of
        Some f \<Rightarrow> Some f
      | None \<Rightarrow> find (\<lambda>f. same_name (cf_name f) code) (ie_charsets env))"

definition charset_register_backend :: "charset_functions \<Rightarrow> iconv_env \<Rightarrow> bool \<times> iconv_env" where
  "charset_register_backend f env =
     (if list_ex (\<lambda>c. same_name (cf_name c) (cf_name f)) (ie_charsets env) then (False, env)
      else (True, env\<lparr>ie_charsets := f # ie_charsets env\<rparr>))"

definition either :: "'a option \<Rightarrow> 'a option \<Rightarrow> 'a option" where
  "either a b = (case a of Some _ \<Rightarrow> a | None \<Rightarrow> b)"

definition smb_iconv_open :: "iconv_env \<Rightarrow> string \<Rightarrow> string \<Rightarrow> smb_iconv_t option" where
  "smb_iconv_open env tocode fromcode =
     (if fromcode = tocode then Some \<lparr>ic_direct = Some iconv_copy, ic_pull = None, ic_push = None\<rparr>
      else
        (let fromf = find_charset env fromcode; tof = find_charset env tocode;
             spull = either (ie_iconv_open env ''UTF-16LE'' fromcode) (ie_iconv_open env ''UCS-2LE'' fromcode);
             spush = either (ie_iconv_open env tocode ''UTF-16LE'') (ie_iconv_open env tocode ''UCS-2LE'');
             ret = \<lparr>ic_direct = None, ic_pull = (if Option.is_none fromf then spull else None),
                    ic_push = (if Option.is_none tof then spush else None)\<rparr>
         in if (Option.is_none fromf \<or> Option.is_none tof) \<and> \<not> ie_native env then None
            else if Option.is_none fromf \<and> Option.is_none spull then None
            else if Option.is_none tof \<and> Option.is_none spush then None
            else if is_utf16 fromcode \<and> \<not> Option.is_none tof then Some (ret\<lparr>ic_direct := map_option cf_push tof\<rparr>)
            else if is_utf16 tocode \<and> \<not> Option.is_none fromf then Some (ret\<lparr>ic_direct := map_option cf_pull fromf\<rparr>)
            else if is_utf16 fromcode then Some (ret\<lparr>ic_direct := spush, ic_push := None\<rparr>)
            else if is_utf16 tocode then Some (ret\<lparr>ic_direct := spull, ic_pull := None\<rparr>)
            else Some (ret\<lparr>ic_pull := either (ic_pull ret) (map_option cf_pull fromf),
                           ic_push := either (ic_push ret) (map_option cf_push tof)\<rparr>)))"

section \<open>Conversion\<close>

text \<open>
  Without a direct converter the input goes through a buffer of 2048 bytes. A round that consumes
  nothing would be repeated for ever; None stands for that, and the fuel is one more round than
  there are bytes.
\<close>

definition hard_error :: "errno + nat \<Rightarrow> errno option" where
  "hard_error r = (case r of Inl e \<Rightarrow> if e = E2BIG then None else Some e | Inr _ \<Rightarrow> None)"

fun iconv_loop :: "nat \<Rightarrow> converter \<Rightarrow> converter \<Rightarrow> u8 list \<Rightarrow> nat \<Rightarrow> conv_res option" where
  "iconv_loop 0 pull push inb out = None"
| "iconv_loop (Suc n) pull push inb out =
     (if inb = [] then Some (Inr 0, [], [])
      else
        (case pull inb 2048 of (r, left, cvtbuf) \<Rightarrow>
           (case hard_error r of
              Some e \<Rightarrow> Some (Inl e, left, [])
            | None \<Rightarrow>
                (case push cvtbuf out of (r2, rest, os) \<Rightarrow>
                   (case r2 of
                      Inl e \<Rightarrow> Some (Inl e, left, os)
                    | Inr _ \<Rightarrow> map_option (emit os) (iconv_loop n pull push left (out - length os)))))))"

definition smb_iconv :: "smb_iconv_t \<Rightarrow> u8 list \<Rightarrow> nat \<Rightarrow> conv_res option" where
  "smb_iconv cd inb out =
     (case ic_direct cd of
        Some c \<Rightarrow> Some (c inb out)
      | None \<Rightarrow> iconv_loop (Suc (length inb)) (the (ic_pull cd)) (the (ic_push cd)) inb out)"

datatype charset_t = CH_UTF16 | CH_UNIX | CH_DISPLAY | CH_DOS | CH_UTF8 | CH_UTF16BE

text \<open>A handle is NULL before its first use and -1 when it could not be opened.\<close>

datatype conv_handle = NoHandle | BadHandle | Handle smb_iconv_t

record conv_state =
  cs_env :: iconv_env
  cs_unix :: string
  cs_dos :: string
  cs_display :: string
  cs_handles :: "charset_t \<Rightarrow> charset_t \<Rightarrow> conv_handle"

fun charset_name :: "conv_state \<Rightarrow> charset_t \<Rightarrow> string" where
  "charset_name st CH_UTF16 = ''UTF-16LE''"
| "charset_name st CH_UNIX = cs_unix st"
| "charset_name st CH_DOS = cs_dos st"
| "charset_name st CH_DISPLAY = cs_display st"
| "charset_name st CH_UTF8 = ''UTF8''"
| "charset_name st CH_UTF16BE = ''UTF-16BE''"

definition init_iconv :: "conv_state \<Rightarrow> conv_state" where
  "init_iconv st = st\<lparr>cs_handles := \<lambda>_ _. NoHandle\<rparr>"

definition set_handle :: "charset_t \<Rightarrow> charset_t \<Rightarrow> conv_handle \<Rightarrow> conv_state \<Rightarrow> conv_state" where
  "set_handle a b h st = st\<lparr>cs_handles := (cs_handles st)(a := (cs_handles st a)(b := h))\<rparr>"

definition open_handle :: "conv_state \<Rightarrow> charset_t \<Rightarrow> charset_t \<Rightarrow> conv_handle" where
  "open_handle st a b =
     (case smb_iconv_open (cs_env st) (charset_name st b) (charset_name st a) of None \<Rightarrow> BadHandle | Some d \<Rightarrow> Handle d)"

definition get_conv_handle :: "charset_t \<Rightarrow> charset_t \<Rightarrow> conv_state \<Rightarrow> conv_handle \<times> conv_state" where
  "get_conv_handle a b st =
     (case cs_handles st a b of
        NoHandle \<Rightarrow>
          (let h = open_handle st a b in
           case h of
             BadHandle \<Rightarrow>
               if (a = CH_DOS \<or> b = CH_DOS) \<and> \<not> same_name (cs_dos st) ''ASCII''
               then (let st1 = st\<lparr>cs_dos := ''ASCII''\<rparr>; h1 = open_handle st1 a b in (h1, set_handle a b h1 st1))
               else (h, set_handle a b h st)
           | _ \<Rightarrow> (h, set_handle a b h st))
      | h \<Rightarrow> (h, st))"

text \<open>The source up to a length, or up to the NUL and with it when the length is -1.\<close>

definition source_bytes :: "nat option \<Rightarrow> u8 list \<Rightarrow> u8 list" where
  "source_bytes srclen src = (case srclen of Some n \<Rightarrow> take n src | None \<Rightarrow> takeWhile (\<lambda>c. c \<noteq> 0) src @ [0])"

text \<open>
  The result and the bytes stored at the destination; None is a conversion that does not end. The
  switch over errno has no default: an error it does not list falls through to the byte count.
\<close>

definition convert_string ::
    "charset_t \<Rightarrow> charset_t \<Rightarrow> u8 list \<Rightarrow> nat option \<Rightarrow> nat \<Rightarrow> conv_state \<Rightarrow> (int \<times> u8 list) option \<times> conv_state" where
  "convert_string a b src srclen destlen st =
     (let bytes = source_bytes srclen src in
      case get_conv_handle a b st of (h, st1) \<Rightarrow>
        ((case h of
            Handle d \<Rightarrow>
              (case smb_iconv d bytes destlen of
                 None \<Rightarrow> None
               | Some (r, left, os) \<Rightarrow>
                   Some (case r of
                           Inl e \<Rightarrow> if e = EINVAL \<or> e = E2BIG \<or> e = EILSEQ then - 1 else int (length os)
                         | Inr _ \<Rightarrow> int (length os), os))
          | _ \<Rightarrow> (let n = min (length bytes) destlen in Some (int n, take n bytes))), st1))"

text \<open>
  The buffer is three times as long as the source. When it is too small the code converts again
  with more, but the pointers have moved: if anything was converted, \<open>talloc_realloc\<close> is given
  a pointer into the middle of the buffer, which is \<open>ConvBad\<close>. Two zero bytes follow the result.
\<close>

datatype conv_talloc = Conv "u8 list" | ConvFail | ConvBad | ConvHang

fun talloc_convert :: "nat \<Rightarrow> smb_iconv_t \<Rightarrow> u8 list \<Rightarrow> nat \<Rightarrow> conv_talloc" where
  "talloc_convert 0 d src destlen = ConvHang"
| "talloc_convert (Suc n) d src destlen =
     (let destlen' = 2 + destlen * 3 in
      case smb_iconv d src (destlen' - 2) of
        None \<Rightarrow> ConvHang
      | Some (Inr _, left, os) \<Rightarrow> Conv os
      | Some (Inl e, left, os) \<Rightarrow>
          if e = E2BIG then (if left = src \<and> os = [] then talloc_convert n d src destlen' else ConvBad) else ConvFail)"

definition talloc_fuel :: nat where "talloc_fuel = 20"

text \<open>None is a NULL source.\<close>

definition convert_string_talloc ::
    "charset_t \<Rightarrow> charset_t \<Rightarrow> u8 list option \<Rightarrow> conv_state \<Rightarrow> conv_talloc \<times> conv_state" where
  "convert_string_talloc a b src st =
     (case src of
        None \<Rightarrow> (ConvFail, st)
      | Some bytes \<Rightarrow>
          if bytes = [] then (ConvFail, st)
          else
            (case get_conv_handle a b st of (h, st1) \<Rightarrow>
               ((case h of Handle d \<Rightarrow> talloc_convert talloc_fuel d bytes (length bytes) | _ \<Rightarrow> ConvFail), st1)))"

section \<open>Strings in packets\<close>

abbreviation (input) "STR_TERMINATE \<equiv> (1 :: u32)"
abbreviation (input) "STR_UPPER \<equiv> (2 :: u32)"
abbreviation (input) "STR_ASCII \<equiv> (4 :: u32)"
abbreviation (input) "STR_UNICODE \<equiv> (8 :: u32)"
abbreviation (input) "STR_NOALIGN \<equiv> (16 :: u32)"
abbreviation (input) "STR_TERMINATE_ASCII \<equiv> (128 :: u32)"

text \<open>A C string is the list of its bytes without the NUL.\<close>

definition cstring :: "u8 list \<Rightarrow> u8 list" where
  "cstring s = s @ [0]"

definition push_ascii_talloc :: "u8 list \<Rightarrow> conv_state \<Rightarrow> conv_talloc \<times> conv_state" where
  "push_ascii_talloc src = convert_string_talloc CH_UNIX CH_DOS (Some (cstring src))"

definition push_ucs2_talloc :: "u8 list \<Rightarrow> conv_state \<Rightarrow> conv_talloc \<times> conv_state" where
  "push_ucs2_talloc src = convert_string_talloc CH_UNIX CH_UTF16 (Some (cstring src))"

definition push_utf8_talloc :: "u8 list \<Rightarrow> conv_state \<Rightarrow> conv_talloc \<times> conv_state" where
  "push_utf8_talloc src = convert_string_talloc CH_UNIX CH_UTF8 (Some (cstring src))"

definition pull_ascii_talloc :: "u8 list \<Rightarrow> conv_state \<Rightarrow> conv_talloc \<times> conv_state" where
  "pull_ascii_talloc src = convert_string_talloc CH_DOS CH_UNIX (Some (cstring src))"

definition pull_utf8_talloc :: "u8 list \<Rightarrow> conv_state \<Rightarrow> conv_talloc \<times> conv_state" where
  "pull_utf8_talloc src = convert_string_talloc CH_UTF8 CH_UNIX (Some (cstring src))"

text \<open>The bytes of a UTF-16 string up to the first zero unit and with it; without one, all.\<close>

fun utf16_len :: "u8 list \<Rightarrow> nat" where
  "utf16_len (a # b # r) = (if a = 0 \<and> b = 0 then 2 else 2 + utf16_len r)"
| "utf16_len _ = 0"

definition pull_ucs2_talloc :: "u8 list \<Rightarrow> conv_state \<Rightarrow> conv_talloc \<times> conv_state" where
  "pull_ucs2_talloc src = convert_string_talloc CH_UTF16 CH_UNIX (Some (take (utf16_len src) src))"

text \<open>The loop of \<open>utf16_len_n\<close> from a position.\<close>

fun utf16_units :: "u8 list \<Rightarrow> nat \<Rightarrow> nat" where
  "utf16_units (a # b # r) n = (if 2 < n \<and> (a \<noteq> 0 \<or> b \<noteq> 0) then 2 + utf16_units r (n - 2) else 0)"
| "utf16_units _ n = 0"

definition utf16_len_n :: "u8 list \<Rightarrow> nat \<Rightarrow> nat" where
  "utf16_len_n src n = (let len = utf16_units src n in if len + 2 \<le> n then len + 2 else len)"

definition strnlen :: "u8 list \<Rightarrow> nat \<Rightarrow> nat" where
  "strnlen s n = length (takeWhile (\<lambda>c. c \<noteq> 0) (take n s))"

definition ascii_len_n :: "u8 list \<Rightarrow> nat \<Rightarrow> nat" where
  "ascii_len_n src n = (let len = strnlen src n in if len + 1 \<le> n then len + 1 else len)"

definition ucs2_align :: "bool \<Rightarrow> u32 \<Rightarrow> nat" where
  "ucs2_align odd_ptr flags = (if flags AND (STR_NOALIGN OR STR_ASCII) \<noteq> 0 then 0 else if odd_ptr then 1 else 0)"

text \<open>
  \<open>strupper_talloc\<close> is a parameter; None is a failed allocation. The writers return the number of
  bytes and what they stored; None is a conversion that does not end.
\<close>

type_synonym push_res = "(int \<times> u8 list) option \<times> conv_state"

definition with_upper :: "(u8 list \<Rightarrow> u8 list option) \<Rightarrow> u32 \<Rightarrow> u8 list \<Rightarrow> u8 list option" where
  "with_upper strupper flags src = (if flags AND STR_UPPER \<noteq> 0 then strupper src else Some src)"

definition push_ascii :: "(u8 list \<Rightarrow> u8 list option) \<Rightarrow> u8 list \<Rightarrow> nat \<Rightarrow> u32 \<Rightarrow> conv_state \<Rightarrow> push_res" where
  "push_ascii strupper src dest_len flags st =
     (case with_upper strupper flags src of
        None \<Rightarrow> (Some (- 1, []), st)
      | Some s \<Rightarrow>
          convert_string CH_UNIX CH_DOS (cstring s)
            (Some (if flags AND (STR_TERMINATE OR STR_TERMINATE_ASCII) \<noteq> 0 then length s + 1 else length s)) dest_len st)"

text \<open>For an odd address a zero byte is stored first, also when there is no room for it.\<close>

definition push_ucs2 :: "(u8 list \<Rightarrow> u8 list option) \<Rightarrow> bool \<Rightarrow> u8 list \<Rightarrow> nat \<Rightarrow> u32 \<Rightarrow> conv_state \<Rightarrow> push_res" where
  "push_ucs2 strupper odd_ptr src dest_len flags st =
     (case with_upper strupper flags src of
        None \<Rightarrow> (Some (- 1, []), st)
      | Some s \<Rightarrow>
          (let src_len = (if flags AND STR_TERMINATE \<noteq> 0 then length s + 1 else length s);
               pad = ucs2_align odd_ptr flags;
               room = (dest_len - pad) div 2 * 2
           in case convert_string CH_UNIX CH_UTF16 (cstring s) (Some src_len) room st of
                (None, st1) \<Rightarrow> (None, st1)
              | (Some (ret, os), st1) \<Rightarrow>
                  (Some (if ret = - 1 then 0 else int pad + ret, replicate pad 0 @ os), st1)))"

definition push_string ::
    "(u8 list \<Rightarrow> u8 list option) \<Rightarrow> bool \<Rightarrow> u8 list \<Rightarrow> nat \<Rightarrow> u32 \<Rightarrow> conv_state \<Rightarrow> push_res option" where
  "push_string strupper odd_ptr src dest_len flags st =
     (if flags AND STR_ASCII \<noteq> 0 then Some (push_ascii strupper src dest_len flags st)
      else if flags AND STR_UNICODE \<noteq> 0 then Some (push_ucs2 strupper odd_ptr src dest_len flags st)
      else None)"

text \<open>
  The readers fill the buffer \<open>dest\<close> and end it with a NUL at the number of bytes, or at its end
  when the conversion failed. \<open>src_len\<close> None is -1.
\<close>

definition finish_pull :: "int \<Rightarrow> u8 list \<Rightarrow> u8 list \<Rightarrow> u8 list" where
  "finish_pull ret os dest =
     (let d = os @ drop (length os) dest
      in if dest = [] then d
         else d[(if ret = - 1 then length dest - 1 else min (nat ret) (length dest - 1)) := 0])"

type_synonym pull_res = "(int \<times> u8 list) option \<times> conv_state"

definition len_result :: "nat option \<Rightarrow> int" where
  "len_result n = (case n of None \<Rightarrow> - 1 | Some k \<Rightarrow> int k)"

definition pull_ascii :: "u8 list \<Rightarrow> u8 list \<Rightarrow> nat option \<Rightarrow> u32 \<Rightarrow> conv_state \<Rightarrow> pull_res" where
  "pull_ascii dest src src_len flags st =
     (let len =
        (if flags AND (STR_TERMINATE OR STR_TERMINATE_ASCII) \<noteq> 0
         then (case src_len of
                 None \<Rightarrow> Some (length (takeWhile (\<lambda>c. c \<noteq> 0) src) + 1)
               | Some n \<Rightarrow> Some (if strnlen src n < n then strnlen src n + 1 else strnlen src n))
         else src_len)
      in case convert_string CH_DOS CH_UNIX src len (length dest) st of
           (None, st1) \<Rightarrow> (None, st1)
         | (Some (ret, os), st1) \<Rightarrow> (Some (len_result len, finish_pull ret os dest), st1))"

definition pull_ucs2 :: "bool \<Rightarrow> u8 list \<Rightarrow> u8 list \<Rightarrow> nat option \<Rightarrow> u32 \<Rightarrow> conv_state \<Rightarrow> pull_res" where
  "pull_ucs2 odd_ptr dest src0 src_len0 flags st =
     (let pad = ucs2_align odd_ptr flags;
          src = drop pad src0;
          len1 = (if pad = 0 then src_len0 else case src_len0 of None \<Rightarrow> Some (2 ^ 64 - 2) | Some n \<Rightarrow> Some (n - 1));
          len2 = (if flags AND STR_TERMINATE = 0 then len1
                  else case len1 of None \<Rightarrow> Some (utf16_len src) | Some n \<Rightarrow> Some (utf16_len_n src n));
          len = map_option (\<lambda>n. n div 2 * 2) len2
      in case convert_string CH_UTF16 CH_UNIX src len (length dest) st of
           (None, st1) \<Rightarrow> (None, st1)
         | (Some (ret, os), st1) \<Rightarrow> (Some (len_result len, finish_pull ret os dest), st1))"

definition pull_string ::
    "bool \<Rightarrow> u8 list \<Rightarrow> u8 list \<Rightarrow> nat option \<Rightarrow> u32 \<Rightarrow> conv_state \<Rightarrow> pull_res option" where
  "pull_string odd_ptr dest src src_len flags st =
     (if flags AND STR_ASCII \<noteq> 0 then Some (pull_ascii dest src src_len flags st)
      else if flags AND STR_UNICODE \<noteq> 0 then Some (pull_ucs2 odd_ptr dest src src_len flags st)
      else None)"

section \<open>Code points\<close>

abbreviation (input) "INVALID_CODEPOINT \<equiv> (0xFFFFFFFF :: u32)"

definition utf16_value :: "u8 list \<Rightarrow> u32" where
  "utf16_value buf =
     (if length buf = 2 then ucast (buf ! 0) OR push_bit 8 (ucast (buf ! 1))
      else if length buf = 4 then 0x10000 + (ucast (buf ! 2) OR push_bit 8 (ucast (buf ! 3 AND 0x3)) OR
             push_bit 10 (ucast (buf ! 0)) OR push_bit 18 (ucast (buf ! 1 AND 0x3)))
      else INVALID_CODEPOINT)"

text \<open>
  The next code point and its size: a try with room for two bytes, then one with room for four.
  The string is followed by a NUL. None is a conversion that does not end.
\<close>

definition next_codepoint :: "u8 list \<Rightarrow> conv_state \<Rightarrow> (u32 \<times> nat) option \<times> conv_state" where
  "next_codepoint str st =
     (let c0 = (case str of [] \<Rightarrow> 0 | c # _ \<Rightarrow> c) in
      if c0 AND 0x80 = 0 then (Some (ucast c0, 1), st)
      else
        (let inb = take (strnlen str 5) str in
         case get_conv_handle CH_UNIX CH_UTF16 st of (h, st1) \<Rightarrow>
           ((case h of
               Handle d \<Rightarrow>
                 (case smb_iconv d inb 2 of
                    None \<Rightarrow> None
                  | Some (r, left, os) \<Rightarrow>
                      if os \<noteq> [] then Some (utf16_value os, length inb - length left)
                      else
                        (case smb_iconv d left 4 of
                           None \<Rightarrow> None
                         | Some (r2, left2, os2) \<Rightarrow>
                             if os2 = [] then Some (INVALID_CODEPOINT, 1)
                             else Some (utf16_value os2, length inb - length left2)))
             | _ \<Rightarrow> Some (INVALID_CODEPOINT, 1)), st1)))"

text \<open>The result is the number of bytes or -1, with the bytes stored.\<close>

definition push_codepoint :: "u32 \<Rightarrow> conv_state \<Rightarrow> (int \<times> u8 list) option \<times> conv_state" where
  "push_codepoint c st =
     (if c < 128 then (Some (1, [ucast c]), st)
      else
        (case get_conv_handle CH_UTF16 CH_UNIX st of (h, st1) \<Rightarrow>
           ((case h of
               Handle d \<Rightarrow>
                 (let v = c - 0x10000;
                      buf = (if c < 0x10000 then [ucast c, ucast (drop_bit 8 c)]
                             else [ucast (drop_bit 10 v AND 0xFF), ucast (drop_bit 18 v) OR 0xD8, ucast (v AND 0xFF),
                                   ucast (drop_bit 8 v AND 0x3) OR 0xDC])
                  in case smb_iconv d buf 5 of
                       None \<Rightarrow> None
                     | Some (r, left, os) \<Rightarrow> Some (if left \<noteq> [] then - 1 else int (length os), os))
             | _ \<Rightarrow> Some (- 1, [])), st1)))"

end
