(* ===== verification/CharcnvProps.thy ===== *)
theory CharcnvProps
  imports Charcnv
begin

text \<open>
  Properties of the character conversion: what every converter keeps to, that a conversion ends
  and does not need more room than the buffer has, and that texts are converted as Unicode says.
\<close>

section \<open>The contract of a converter\<close>

text \<open>
  The output fits the room; the rest is a suffix of the input, and the output is at most \<open>a/b\<close>
  times as long as what was consumed; success consumes all; and \<open>E2BIG\<close> is reported only when
  less than \<open>a/b\<close> times the input was given as room, and fewer than 5 bytes of it are left.
\<close>

definition lawful :: "nat \<Rightarrow> nat \<Rightarrow> u8 list \<Rightarrow> nat \<Rightarrow> conv_res \<Rightarrow> bool" where
  "lawful a b inb out res =
     (case res of (r, left, os) \<Rightarrow>
        length os \<le> out \<and> (\<exists>pre. inb = pre @ left \<and> b * length os \<le> a * length pre) \<and>
        (\<forall>n. r = Inr n \<longrightarrow> left = []) \<and> (r = Inl E2BIG \<longrightarrow> b * out < a * length inb \<and> out < length os + 5))"

locale charset_converter =
  fixes cv :: converter and a b :: nat
  assumes law: "lawful a b inb out (cv inb out)" and factor: "0 < b"
begin

lemma fits: "a * length inb \<le> b * out \<Longrightarrow> cv inb out \<noteq> (Inl E2BIG, left, os)"
  using law [of inb out] by (auto simp: lawful_def)

lemma room: "cv inb out = (r, left, os) \<Longrightarrow> length os \<le> out"
  using law [of inb out] by (auto simp: lawful_def)

lemma consumed: "cv inb out = (r, left, os) \<Longrightarrow> \<exists>pre. inb = pre @ left \<and> b * length os \<le> a * length pre"
  using law [of inb out] by (auto simp: lawful_def)

lemma progress: "cv inb 2048 = (r, left, os) \<Longrightarrow> hard_error r = None \<Longrightarrow> inb \<noteq> [] \<Longrightarrow> length left < length inb"
proof -
  assume c: "cv inb 2048 = (r, left, os)" "hard_error r = None" "inb \<noteq> []"
  show ?thesis
  proof (cases r)
    case (Inl e)
    then have "r = Inl E2BIG" using c(2) by (simp add: hard_error_def split: if_splits)
    then have "0 < length os" using law [of inb 2048] c(1) by (auto simp: lawful_def)
    moreover obtain pre where p: "inb = pre @ left" "b * length os \<le> a * length pre" using consumed [OF c(1)] by blast
    ultimately have "pre \<noteq> []" using factor by auto
    then show ?thesis using p(1) by simp
  next
    case (Inr n)
    then have "left = []" using law [of inb 2048] c(1) by (simp add: lawful_def)
    then show ?thesis using c(3) by simp
  qed
qed

end

lemma lawful_done: "lawful a b [] out (Inr n, [], [])"
  by (simp add: lawful_def)

lemma lawful_error: "e \<noteq> E2BIG \<Longrightarrow> lawful a b inb out (Inl e, inb, [])"
  by (simp add: lawful_def)

lemma lawful_errors:
  "lawful a b inb out (Inl EINVAL, inb, [])" "lawful a b inb out (Inl EILSEQ, inb, [])"
  "lawful a b inb out (Inl (if c then EINVAL else EILSEQ), inb, [])"
  by (simp_all add: lawful_error)

lemma lawful_if:
  "(c \<Longrightarrow> lawful a b inb out x) \<Longrightarrow> (\<not> c \<Longrightarrow> lawful a b inb out y) \<Longrightarrow> lawful a b inb out (if c then x else y)"
  by simp

lemma lawful_big: "b * out < a * length inb \<Longrightarrow> out < 5 \<Longrightarrow> lawful a b inb out (Inl E2BIG, inb, [])"
  by (simp add: lawful_def)

lemma lawful_emit:
  assumes rest0: "lawful a b rest (out - m) res" and m: "m = length bs" and inb: "inb = pre @ rest"
    and bs: "b * length bs \<le> a * length pre" "length bs \<le> out"
  shows "lawful a b inb out (emit bs res)"
proof -
  note rest = rest0 [unfolded m]
  obtain r left os where res: "res = (r, left, os)" by (cases res) auto
  obtain p where p: "rest = p @ left" "b * length os \<le> a * length p" using rest by (auto simp: lawful_def res)
  have "inb = (pre @ p) @ left \<and> b * length (bs @ os) \<le> a * length (pre @ p)"
    using inb p bs(1) by (simp add: distrib_left)
  then have "\<exists>q. inb = q @ left \<and> b * length (bs @ os) \<le> a * length q" by blast
  moreover have "b * out < a * length inb \<and> out < length (bs @ os) + 5" if "r = Inl E2BIG"
  proof -
    have "b * (out - length bs) < a * length rest" "out - length bs < length os + 5"
      using rest that by (auto simp: lawful_def res)
    moreover have "b * out = b * (out - length bs) + b * length bs" using bs(2) by (simp flip: distrib_left)
    ultimately show ?thesis using bs inb by (simp add: distrib_left)
  qed
  ultimately show ?thesis using rest bs(2) by (auto simp: lawful_def res)
qed

lemma lawful_emit_drop:
  "lawful a b (drop n inb) (out - m) res \<Longrightarrow> m = length bs \<Longrightarrow> b * length bs \<le> a * n \<Longrightarrow> n \<le> length inb \<Longrightarrow> length bs \<le> out \<Longrightarrow>
   lawful a b inb out (emit bs res)"
  by (rule lawful_emit [of _ _ "drop n inb" _ _ _ _ _ "take n inb"]) simp_all

lemma ascii_pull_law: "lawful 2 1 inb out (ascii_pull inb out)"
proof (induction inb out rule: ascii_pull.induct)
  case (2 c r out)
  then show ?case
    by (auto intro!: lawful_big lawful_emit [of _ _ r _ _ _ _ _ "[c]"])
qed (simp add: lawful_done)

lemma ascii_push_law: "lawful 1 2 inb out (ascii_push_count n inb out)"
proof (induction n inb out rule: ascii_push_count.induct)
  case (3 n c d r out)
  then show ?case by (auto intro!: lawful_big lawful_emit [of _ _ r _ _ _ _ _ "[c, d]"])
qed (simp_all add: lawful_done lawful_error)

lemma ucs2hex_push_law: "lawful 5 2 inb out (ucs2hex_push inb out)"
proof (induction inb out rule: ucs2hex_push.induct)
  case (3 c d r out)
  then show ?case
    by (auto intro!: lawful_big lawful_emit [of _ _ r _ _ _ _ _ "[c, d]"] simp: at_hex_def)
qed (simp_all add: lawful_done lawful_error)

lemma copy_law: "lawful 1 1 inb out (iconv_copy inb out)"
  by (auto simp: iconv_copy_def lawful_def Let_def intro!: exI [of _ "take (min (length inb) out) inb"])

lemma length_swab: "length (swab xs) = length xs div 2 * 2"
  by (induction xs rule: swab.induct) auto

lemma swab_law: "lawful 1 1 inb out (iconv_swab inb out)"
proof -
  define n where "n = min (length inb) out"
  have "length (swab (take n inb) @ (if odd n then [0] else [])) = n"
    by (auto simp: length_swab n_def min_def elim!: oddE)
  moreover have "inb = take n inb @ drop n inb" "length (take n inb) = n" by (simp_all add: n_def)
  ultimately show ?thesis unfolding iconv_swab_def lawful_def Let_def n_def [symmetric]
    by (auto simp: n_def intro!: exI [of _ "take n inb"])
qed

lemma lawful_nil: "length inb = 0 \<Longrightarrow> lawful a b inb out (Inr n, [], [])"
  by (simp add: lawful_def)

lemma utf8_push_law: "lawful 3 2 inb out (utf8_push inb out)"
proof (induction "length inb" arbitrary: inb out rule: less_induct)
  case less
  have ih: "lawful 3 2 (drop n inb) m (utf8_push (drop n inb) m)" if "0 < n" "inb \<noteq> []" for n m
    using less [of "drop n inb"] that by (simp add: length_greater_0_conv)
  note step = lawful_emit_drop [OF ih]
  show ?case
  proof (cases "length inb < 2")
    case True
    then have "length inb = 0 \<or> length inb = 1" by arith
    then show ?thesis unfolding utf8_push.simps [of inb out] by (elim disjE) (simp_all add: lawful_done lawful_errors)
  next
    case False
    then have len: "2 \<le> length inb" "inb \<noteq> []" "length inb \<noteq> 0" "length inb \<noteq> 1" by auto
    show ?thesis
      unfolding utf8_push.simps [of inb out] Let_def if_not_P [OF len(3)] if_not_P [OF len(4)]
      by (intro lawful_if lawful_errors lawful_big step; use len(1,2) in \<open>simp add: not_less\<close>)
  qed
qed

lemma ucs2hex_pull_law: "lawful 2 1 inb out (ucs2hex_pull inb out)"
proof (induction "length inb" arbitrary: inb out rule: less_induct)
  case less
  show ?case
  proof (cases inb)
    case Nil
    then show ?thesis by (subst ucs2hex_pull.simps) (simp add: lawful_done)
  next
    case (Cons c r)
    have ih: "lawful 2 1 (drop n (c # r)) m (ucs2hex_pull (drop n (c # r)) m)" if "0 < n" for n m
      using less [of "drop n (c # r)"] that Cons by simp
    have ih1: "lawful 2 1 (drop 1 (c # r)) m (ucs2hex_pull r m)" for m using ih [of 1 m] by simp
    have "lawful 2 1 (c # r) out (case sscanf_04x r of None \<Rightarrow> (Inl EILSEQ, c # r, [])
        | Some v \<Rightarrow> emit [ucast (v AND 0xFF), ucast (drop_bit 8 v)] (ucs2hex_pull (drop 5 (c # r)) (out - 2)))"
      if "\<not> out < 2" "\<not> length (c # r) < 5"
    proof (cases "sscanf_04x r")
      case (Some v)
      show ?thesis unfolding Some option.case by (rule lawful_emit_drop [OF ih]) (use that in auto)
    qed (simp add: lawful_errors)
    then show ?thesis unfolding Cons ucs2hex_pull.simps [of "c # r" out] list.case
      by (intro lawful_if lawful_errors lawful_big lawful_emit_drop [OF ih1]; simp add: not_less)
  qed
qed

lemma utf8_pull_law: "lawful 2 1 inb out (utf8_pull inb out)"
proof (induction "length inb" arbitrary: inb out rule: less_induct)
  case less
  show ?case
  proof (cases inb)
    case Nil
    then show ?thesis by (subst utf8_pull.simps) (simp add: lawful_done)
  next
    case (Cons c r)
    have ih: "lawful 2 1 (drop n (c # r)) m (utf8_pull (drop n (c # r)) m)" if "0 < n" for n m
      using less [of "drop n (c # r)"] that Cons by simp
    have ih1: "lawful 2 1 (drop 1 (c # r)) m (utf8_pull r m)" for m using ih [of 1 m] by simp
    show ?thesis unfolding Cons utf8_pull.simps [of "c # r" out] list.case Let_def
      by (intro lawful_if lawful_errors lawful_big lawful_emit_drop [OF ih] lawful_emit_drop [OF ih1]; auto simp: not_less Suc_le_eq)
  qed
qed

interpretation cvap: charset_converter ascii_pull 2 1
  by unfold_locales (simp_all add: ascii_pull_law [simplified])

interpretation cvas: charset_converter ascii_push 1 2
  by unfold_locales (simp_all add: ascii_push_def ascii_push_law [simplified])

interpretation cvhp: charset_converter ucs2hex_pull 2 1
  by unfold_locales (simp_all add: ucs2hex_pull_law [simplified])

interpretation cvhs: charset_converter ucs2hex_push 5 2
  by unfold_locales (simp_all add: ucs2hex_push_law)

interpretation cvsw: charset_converter iconv_swab 1 1
  by unfold_locales (simp_all add: swab_law [simplified])

interpretation cvcp: charset_converter iconv_copy 1 1
  by unfold_locales (simp_all add: copy_law [simplified])

interpretation cv8p: charset_converter utf8_pull 2 1
  by unfold_locales (simp_all add: utf8_pull_law [simplified])

interpretation cv8s: charset_converter utf8_push 3 2
  by unfold_locales (simp_all add: utf8_push_law)

section \<open>Conversions through the buffer\<close>

lemma lawful_weaken:
  assumes "lawful a b inb out res" "a * d \<le> c * b" "0 < b" "0 < d"
  shows "lawful c d inb out res"
proof -
  obtain r left os where res: "res = (r, left, os)" by (cases res) auto
  obtain pre where p: "inb = pre @ left" "b * length os \<le> a * length pre" using assms(1) by (auto simp: lawful_def res)
  have scale: "d * x \<le> c * y" if "b * x \<le> a * y" for x y
  proof -
    have "b * (d * x) \<le> d * (a * y)" using mult_le_mono2 [OF that, of d] by (simp add: ac_simps)
    also have "\<dots> \<le> b * (c * y)" using mult_le_mono1 [OF assms(2), of y] by (simp add: ac_simps)
    finally show ?thesis using assms(3) by simp
  qed
  have "d * out < c * length inb" if "b * out < a * length inb"
  proof -
    have "b * (d * out) < d * (a * length inb)" using that assms(4) by (simp add: ac_simps)
    also have "\<dots> \<le> b * (c * length inb)" using mult_le_mono1 [OF assms(2), of "length inb"] by (simp add: ac_simps)
    finally show ?thesis using assms(3) by simp
  qed
  then show ?thesis using assms(1) p scale [OF p(2)] by (auto simp: lawful_def res)
qed

text \<open>Two converters and the buffer between them: the factors multiply.\<close>

locale charset_pipe = pl: charset_converter pull a1 b1 + ps: charset_converter push a2 b2
  for pull push a1 b1 a2 b2
begin

lemma loop_lawful:
  "length inb < n \<Longrightarrow> \<exists>res. iconv_loop n pull push inb out = Some res \<and> lawful (a1 * a2) (b1 * b2) inb out res"
proof (induction n arbitrary: inb out)
  case (Suc n)
  obtain r left mid where p: "pull inb 2048 = (r, left, mid)" by (cases "pull inb 2048") auto
  obtain r2 rest os where q: "push mid out = (r2, rest, os)" by (cases "push mid out") auto
  obtain pre where pre: "inb = pre @ left" "b1 * length mid \<le> a1 * length pre" using pl.consumed [OF p] by blast
  have scale: "b1 * (a2 * length mid) \<le> a1 * a2 * length pre"
    using mult_le_mono2 [OF pre(2), of a2] by (simp add: ac_simps)
  have os: "length os \<le> out" "b1 * b2 * length os \<le> a1 * a2 * length pre"
  proof -
    show "length os \<le> out" using ps.room [OF q] .
    obtain m where "mid = m @ rest" "b2 * length os \<le> a2 * length m" using ps.consumed [OF q] by blast
    then have "b2 * length os \<le> a2 * length mid" by (simp add: distrib_left)
    then have "b1 * b2 * length os \<le> b1 * (a2 * length mid)" by (simp add: ac_simps)
    with scale show "b1 * b2 * length os \<le> a1 * a2 * length pre" by linarith
  qed
  show ?case
  proof (cases "inb = [] \<or> hard_error r \<noteq> None")
    case True
    then show ?thesis using p pre by (auto simp: lawful_done lawful_def hard_error_def split: sum.splits if_splits)
  next
    case False
    show ?thesis
    proof (cases r2)
      case (Inl e)
      have "b1 * b2 * out < a1 * a2 * length inb \<and> out < length os + 5" if "e = E2BIG"
      proof -
        have "b2 * out < a2 * length mid" "out < length os + 5" using ps.law [of mid out] q Inl that by (auto simp: lawful_def)
        moreover from this(1) have "b1 * b2 * out < b1 * (a2 * length mid)" using pl.factor by (simp add: ac_simps)
        moreover have "a1 * a2 * length pre \<le> a1 * a2 * length inb" using pre(1) by simp
        ultimately show ?thesis using scale by linarith
      qed
      then show ?thesis using False p q Inl os pre(1) by (auto simp: lawful_def)
    next
      case (Inr k)
      have "length left < n" using pl.progress [OF p] False Suc.prems by auto
      then obtain res where res: "iconv_loop n pull push left (out - length os) = Some res"
          "lawful (a1 * a2) (b1 * b2) left (out - length os) res"
        using Suc.IH by blast
      then have "lawful (a1 * a2) (b1 * b2) inb out (emit os res)" using os pre(1) by (intro lawful_emit [OF res(2)]) auto
      then show ?thesis using False p q Inr res(1) by auto
    qed
  qed
qed simp

end

text \<open>The two pipes of a configuration with UTF-8 and UTF-16BE.\<close>

interpretation pipe_8b: charset_pipe utf8_pull iconv_swab 2 1 1 1
  by unfold_locales

interpretation pipe_b8: charset_pipe iconv_swab utf8_push 1 1 3 2
  by unfold_locales

section \<open>The built-in text charsets\<close>

definition text_charsets :: "string list" where
  "text_charsets = [''UCS-2LE'', ''UTF-16LE'', ''UCS-2BE'', ''UTF-16BE'', ''UTF8'', ''UTF-8'', ''ASCII'']"

lemma find_builtin:
  "find_charset env ''UCS-2LE'' = Some \<lparr>cf_name = ''UCS-2LE'', cf_pull = iconv_copy, cf_push = iconv_copy\<rparr>"
  "find_charset env ''UTF-16LE'' = Some \<lparr>cf_name = ''UTF-16LE'', cf_pull = iconv_copy, cf_push = iconv_copy\<rparr>"
  "find_charset env ''UCS-2BE'' = Some \<lparr>cf_name = ''UCS-2BE'', cf_pull = iconv_swab, cf_push = iconv_swab\<rparr>"
  "find_charset env ''UTF-16BE'' = Some \<lparr>cf_name = ''UTF-16BE'', cf_pull = iconv_swab, cf_push = iconv_swab\<rparr>"
  "find_charset env ''UTF8'' = Some \<lparr>cf_name = ''UTF8'', cf_pull = utf8_pull, cf_push = utf8_push\<rparr>"
  "find_charset env ''UTF-8'' = Some \<lparr>cf_name = ''UTF-8'', cf_pull = utf8_pull, cf_push = utf8_push\<rparr>"
  "find_charset env ''ASCII'' = Some \<lparr>cf_name = ''ASCII'', cf_pull = ascii_pull, cf_push = ascii_push\<rparr>"
  by (simp_all add: find_charset_def builtin_functions_def same_name_def tolower_def)

lemma pull_laws: "charset_converter iconv_copy 2 1" "charset_converter iconv_swab 2 1" "charset_converter utf8_pull 2 1"
    "charset_converter ascii_pull 2 1"
  by (unfold_locales; auto intro: lawful_weaken [OF copy_law] lawful_weaken [OF swab_law] utf8_pull_law [simplified] ascii_pull_law [simplified])+

lemma push_laws: "charset_converter iconv_copy 3 2" "charset_converter iconv_swab 3 2" "charset_converter utf8_push 3 2"
    "charset_converter ascii_push 3 2"
  unfolding ascii_push_def
  by (unfold_locales; auto intro: lawful_weaken [OF copy_law] lawful_weaken [OF swab_law] utf8_push_law lawful_weaken [OF ascii_push_law])+

lemma text_charset_found:
  assumes "name \<in> set text_charsets"
  shows "\<exists>f. find_charset env name = Some f \<and> charset_converter (cf_pull f) 2 1 \<and> charset_converter (cf_push f) 3 2"
  using assms by (auto simp: text_charsets_def find_builtin pull_laws [simplified] push_laws)

definition good_descriptor :: "smb_iconv_t \<Rightarrow> bool" where
  "good_descriptor d \<longleftrightarrow> (\<forall>inb out. \<exists>res. smb_iconv d inb out = Some res \<and> lawful 3 1 inb out res)"

lemma good_direct:
  assumes "charset_converter c a b" "a \<le> 3 * b" "ic_direct d = Some c"
  shows "good_descriptor d"
proof -
  have "lawful 3 1 inb out (c inb out)" for inb out
    using lawful_weaken [OF charset_converter.law [OF assms(1)], of 1 3 inb out] charset_converter.factor [OF assms(1)] assms(2)
    by simp
  then show ?thesis using assms(3) by (simp add: good_descriptor_def smb_iconv_def)
qed

lemma good_pipe:
  assumes "charset_converter p 2 1" "charset_converter q 3 2" "ic_direct d = None" "ic_pull d = Some p" "ic_push d = Some q"
  shows "good_descriptor d"
proof -
  have "charset_pipe p q 2 1 3 2" using assms(1,2) by (rule charset_pipe.intro)
  then have "\<exists>res. smb_iconv d inb out = Some res \<and> lawful (2 * 3) (1 * 2) inb out res" for inb out
    using charset_pipe.loop_lawful [of p q 2 1 3 2 inb "Suc (length inb)" out] assms(3-5) by (simp add: smb_iconv_def)
  moreover have "lawful 3 1 inb out res" if "lawful (2 * 3) (1 * 2) inb out res" for inb out res
    using lawful_weaken [OF that, of 1 3] by simp
  ultimately show ?thesis unfolding good_descriptor_def by blast
qed

lemma smb_iconv_open_text:
  assumes "a \<in> set text_charsets" "b \<in> set text_charsets"
  shows "\<exists>d. smb_iconv_open env b a = Some d \<and> good_descriptor d"
proof -
  obtain f where f: "find_charset env a = Some f" "charset_converter (cf_pull f) 2 1" using text_charset_found [OF assms(1)] by blast
  obtain g where g: "find_charset env b = Some g" "charset_converter (cf_push g) 3 2" using text_charset_found [OF assms(2)] by blast
  show ?thesis
    using f g good_direct [OF pull_laws(1)] good_direct [OF f(2)] good_direct [OF g(2)] good_pipe [OF f(2) g(2)]
    by (simp add: smb_iconv_open_def either_def Let_def)
qed

section \<open>The table of handles\<close>

text \<open>The configured charsets are built in, and a handle that is set is the one opening it again would give.\<close>

definition conv_inv :: "conv_state \<Rightarrow> bool" where
  "conv_inv st \<longleftrightarrow> cs_unix st \<in> set text_charsets \<and> cs_dos st \<in> set text_charsets \<and> cs_display st \<in> set text_charsets \<and>
     (\<forall>a b. cs_handles st a b = NoHandle \<or> cs_handles st a b = open_handle st a b)"

definition same_names :: "conv_state \<Rightarrow> conv_state \<Rightarrow> bool" where
  "same_names st t \<longleftrightarrow> cs_env t = cs_env st \<and> cs_unix t = cs_unix st \<and> cs_dos t = cs_dos st \<and> cs_display t = cs_display st"

lemma charset_name_text: "conv_inv st \<Longrightarrow> charset_name st a \<in> set text_charsets"
  by (cases a) (auto simp: conv_inv_def text_charsets_def)

lemma open_handle_good:
  assumes "conv_inv st"
  shows "\<exists>d. open_handle st a b = Handle d \<and> good_descriptor d"
  using smb_iconv_open_text [OF charset_name_text [OF assms] charset_name_text [OF assms], of "cs_env st" b a]
  by (auto simp: open_handle_def)

lemma same_names_open: "same_names st t \<Longrightarrow> open_handle t a b = open_handle st a b"
proof -
  assume s: "same_names st t"
  have "charset_name t c = charset_name st c" for c using s by (cases c) (simp_all add: same_names_def)
  then show ?thesis using s by (simp add: open_handle_def same_names_def)
qed

lemma get_conv_handle_inv:
  assumes "conv_inv st"
  shows "\<exists>st'. get_conv_handle a b st = (open_handle st a b, st') \<and> conv_inv st' \<and> same_names st st'"
proof (cases "cs_handles st a b = NoHandle")
  case True
  obtain d where d: "open_handle st a b = Handle d" using open_handle_good [OF assms] by blast
  let ?t = "set_handle a b (Handle d) st"
  have s: "same_names st ?t" by (simp add: same_names_def set_handle_def)
  have "cs_handles ?t x y = NoHandle \<or> cs_handles ?t x y = open_handle ?t x y" for x y
    using assms same_names_open [OF s, of x y] d by (auto simp: conv_inv_def set_handle_def)
  then have "conv_inv ?t" using assms s by (simp add: conv_inv_def same_names_def)
  then show ?thesis using True d s by (simp add: get_conv_handle_def Let_def)
next
  case False
  then have "cs_handles st a b = open_handle st a b" using assms by (auto simp: conv_inv_def)
  moreover obtain d where "open_handle st a b = Handle d" using open_handle_good [OF assms] by blast
  ultimately show ?thesis using assms by (simp add: get_conv_handle_def same_names_def)
qed

lemma init_iconv_inv:
  "cs_unix st \<in> set text_charsets \<Longrightarrow> cs_dos st \<in> set text_charsets \<Longrightarrow> cs_display st \<in> set text_charsets \<Longrightarrow> conv_inv (init_iconv st)"
  by (simp add: conv_inv_def init_iconv_def)

lemma talloc_convert_good:
  assumes "good_descriptor d"
  shows "talloc_convert (Suc n) d src (length src) = ConvFail \<or>
    (\<exists>os. talloc_convert (Suc n) d src (length src) = Conv os \<and> length os \<le> 3 * length src)"
proof -
  obtain r left os where r: "smb_iconv d src (3 * length src) = Some (r, left, os)" "lawful 3 1 src (3 * length src) (r, left, os)"
    using assms unfolding good_descriptor_def by (metis prod_cases3)
  then show ?thesis by (cases r) (auto simp: Let_def lawful_def mult.commute)
qed

text \<open>The length functions stay below their limit.\<close>

lemma strnlen_le: "strnlen xs n \<le> n"
  unfolding strnlen_def by (metis length_take length_takeWhile_le min.cobounded2 order_trans)

lemma ascii_len_n_le: "ascii_len_n xs n \<le> n"
  using strnlen_le [of xs n] by (simp add: ascii_len_n_def Let_def)

lemma utf16_units_le: "utf16_units xs n \<le> n"
  by (induction xs n rule: utf16_units.induct) auto

lemma utf16_len_n_le: "utf16_len_n xs n \<le> n"
  using utf16_units_le [of xs n] by (simp add: utf16_len_n_def Let_def)

lemma conversions_total:
  assumes "conv_inv st"
  shows "(\<exists>ret os st'. convert_string a b src srclen destlen st = (Some (ret, os), st') \<and> conv_inv st' \<and>
            length os \<le> destlen \<and> (ret = - 1 \<or> ret = int (length os))) \<and>
    (\<exists>r st'. convert_string_talloc a b text st = (r, st') \<and> conv_inv st' \<and> (r = ConvFail \<or> (\<exists>os. r = Conv os)))"
proof
  obtain d where d: "open_handle st a b = Handle d" "good_descriptor d" using open_handle_good [OF assms] by blast
  obtain st' where h: "get_conv_handle a b st = (Handle d, st')" "conv_inv st'"
    using get_conv_handle_inv [OF assms, of a b] d(1) by auto
  obtain r left os where r: "smb_iconv d (source_bytes srclen src) destlen = Some (r, left, os)"
      "lawful 3 1 (source_bytes srclen src) destlen (r, left, os)"
    using d(2) unfolding good_descriptor_def by (metis prod_cases3)
  show "\<exists>ret os st'. convert_string a b src srclen destlen st = (Some (ret, os), st') \<and> conv_inv st' \<and>
      length os \<le> destlen \<and> (ret = - 1 \<or> ret = int (length os))"
    using h r by (auto simp: convert_string_def Let_def lawful_def split: sum.split)
  have "talloc_fuel = Suc 19" by (simp add: talloc_fuel_def)
  then show "\<exists>r st'. convert_string_talloc a b text st = (r, st') \<and> conv_inv st' \<and> (r = ConvFail \<or> (\<exists>os. r = Conv os))"
    using h assms talloc_convert_good [OF d(2), of 19] by (auto simp: convert_string_talloc_def split: option.split)
qed

text \<open>Conversion: with built-in text charsets configured, both conversion functions return for all bytes, lengths
  and charsets; \<open>convert_string\<close> stores no more than the destination holds and reports the number
  of bytes it stored or -1; \<open>convert_string_talloc\<close> never takes its defective retry path, which
  would reallocate a moved pointer; and the table of handles stays consistent.\<close>

theorem conversions_return:
  assumes "conv_inv st"
  shows "(\<exists>ret os st'. convert_string a b src srclen destlen st = (Some (ret, os), st') \<and> conv_inv st' \<and>
            length os \<le> destlen \<and> (ret = - 1 \<or> ret = int (length os))) \<and>
    (\<exists>r st'. convert_string_talloc a b text st = (r, st') \<and> conv_inv st' \<and> (r = ConvFail \<or> (\<exists>os. r = Conv os)))"
  using conversions_total [OF assms] .

definition utf8_state :: conv_state where
  "utf8_state = \<lparr>cs_env = \<lparr>ie_charsets = [], ie_native = False, ie_iconv_open = \<lambda>_ _. None\<rparr>,
     cs_unix = ''UTF8'', cs_dos = ''ASCII'', cs_display = ''UTF-8'', cs_handles = \<lambda>_ _. NoHandle\<rparr>"

lemma utf8_state_inv: "conv_inv utf8_state"
  by (simp add: conv_inv_def utf8_state_def text_charsets_def)

theorem conversions_return_witness:
  "conv_inv utf8_state \<and>
   (\<exists>r st'. convert_string_talloc CH_UTF16BE CH_UNIX (Some [0, 0x41]) utf8_state = (r, st') \<and> conv_inv st' \<and> (r = ConvFail \<or> (\<exists>os. r = Conv os)))"
  using conversions_return [OF utf8_state_inv, of CH_UTF16BE CH_UNIX "[]" None 0 "Some [0, 0x41]"] utf8_state_inv by blast

section \<open>Texts\<close>

lemma length_utf8_enc: "scalar cp \<Longrightarrow> length (utf16_enc cp) \<le> 2 * length (utf8_enc cp) \<and> length (utf8_enc cp) \<le> 3 * length (utf16_enc cp)"
  by (auto simp: utf8_enc_def length_utf16_enc word_less_nat_alt)

lemma length_utf:
  "list_all scalar cps \<Longrightarrow> length (utf16 cps) \<le> 2 * length (utf8 cps) \<and> length (utf8 cps) \<le> 3 * length (utf16 cps)"
  by (induction cps) (auto simp: utf16_def utf8_def dest: length_utf8_enc)

lemma even_utf16: "even (length (utf16 cps))"
  by (induction cps) (auto simp: utf16_def length_utf16_enc)

lemma swab_swab: "even (length xs) \<Longrightarrow> swab (swab xs) = xs"
  by (induction xs rule: swab.induct) auto

lemma swab_all:
  assumes "even (length xs)" "length xs \<le> out"
  shows "iconv_swab xs out = (Inr 0, [], swab xs)"
  using assms by (simp add: iconv_swab_def Let_def)

lemma utf_nonempty: "cps \<noteq> [] \<Longrightarrow> utf8 cps \<noteq> [] \<and> utf16 cps \<noteq> []"
  by (cases cps) (auto simp: utf8_def utf16_def utf8_enc_def utf16_enc_def le16_def Let_def)

lemma open_utf:
  assumes "name = ''UTF8'' \<or> name = ''UTF-8''"
  shows "\<exists>d. smb_iconv_open env ''UTF-16LE'' name = Some d \<and> ic_direct d = Some utf8_pull"
    "\<exists>d. smb_iconv_open env name ''UTF-16LE'' = Some d \<and> ic_direct d = Some utf8_push"
    "\<exists>d. smb_iconv_open env ''UTF-16BE'' name = Some d \<and> ic_direct d = None \<and> ic_pull d = Some utf8_pull \<and> ic_push d = Some iconv_swab"
    "\<exists>d. smb_iconv_open env name ''UTF-16BE'' = Some d \<and> ic_direct d = None \<and> ic_pull d = Some iconv_swab \<and> ic_push d = Some utf8_push"
  using assms by (auto simp: smb_iconv_open_def find_builtin is_utf16_def same_name_def tolower_def either_def Let_def)

lemma one_round:
  assumes "pull inb 2048 = (Inr 0, [], mid)" "push mid out = (Inr 0, [], os)" "inb \<noteq> []"
  shows "iconv_loop (Suc (length inb)) pull push inb out = Some (Inr 0, [], os)"
  using assms by (cases "length inb") (simp_all add: hard_error_def)

lemma talloc_by_handle:
  assumes "conv_inv st" "open_handle st a b = Handle d" "src \<noteq> []" "smb_iconv d src (3 * length src) = Some (Inr 0, [], os)"
  shows "\<exists>st'. convert_string_talloc a b (Some src) st = (Conv os, st') \<and> conv_inv st'"
proof -
  have f: "talloc_fuel = Suc 19" by (simp add: talloc_fuel_def)
  have "talloc_convert talloc_fuel d src (length src) = Conv os"
    unfolding f talloc_convert.simps using assms(4) by (simp add: Let_def mult.commute)
  then show ?thesis using get_conv_handle_inv [OF assms(1), of a b] assms(2,3) by (auto simp: convert_string_talloc_def)
qed

lemma text_conversions:
  assumes "conv_inv st" "cs_unix st = ''UTF8'' \<or> cs_unix st = ''UTF-8''" "list_all scalar cps" "cps \<noteq> []"
  shows "(\<exists>st'. convert_string_talloc CH_UNIX CH_UTF16 (Some (utf8 cps)) st = (Conv (utf16 cps), st') \<and> conv_inv st') \<and>
    (\<exists>st'. convert_string_talloc CH_UTF16 CH_UNIX (Some (utf16 cps)) st = (Conv (utf8 cps), st') \<and> conv_inv st') \<and>
    (length (utf16 cps) \<le> 2048 \<longrightarrow>
       (\<exists>st'. convert_string_talloc CH_UNIX CH_UTF16BE (Some (utf8 cps)) st = (Conv (swab (utf16 cps)), st') \<and> conv_inv st') \<and>
       (\<exists>st'. convert_string_talloc CH_UTF16BE CH_UNIX (Some (swab (utf16 cps))) st = (Conv (utf8 cps), st') \<and> conv_inv st'))"
proof (intro conjI impI)
  note ne = utf_nonempty [OF assms(4)] and len = length_utf [OF assms(3)]
  note op = open_utf [OF assms(2), of "cs_env st"]
  obtain d where d: "open_handle st CH_UNIX CH_UTF16 = Handle d" "ic_direct d = Some utf8_pull"
    using op(1) by (auto simp: open_handle_def)
  have "smb_iconv d (utf8 cps) (3 * length (utf8 cps)) = Some (Inr 0, [], utf16 cps)"
    using utf8_pull_text [OF assms(3)] len d(2) by (simp add: smb_iconv_def)
  then show "\<exists>st'. convert_string_talloc CH_UNIX CH_UTF16 (Some (utf8 cps)) st = (Conv (utf16 cps), st') \<and> conv_inv st'"
    using talloc_by_handle [OF assms(1) d(1)] ne by blast
  obtain e where e: "open_handle st CH_UTF16 CH_UNIX = Handle e" "ic_direct e = Some utf8_push"
    using op(2) by (auto simp: open_handle_def)
  have "smb_iconv e (utf16 cps) (3 * length (utf16 cps)) = Some (Inr 0, [], utf8 cps)"
    using utf8_push_text [OF assms(3)] len e(2) by (simp add: smb_iconv_def)
  then show "\<exists>st'. convert_string_talloc CH_UTF16 CH_UNIX (Some (utf16 cps)) st = (Conv (utf8 cps), st') \<and> conv_inv st'"
    using talloc_by_handle [OF assms(1) e(1)] ne by blast
  assume short: "length (utf16 cps) \<le> 2048"
  note sw = swab_all [OF even_utf16 [of cps]] and ls = length_swab [of "utf16 cps"]
  have ls: "length (swab (utf16 cps)) = length (utf16 cps)" using ls even_utf16 [of cps] by simp
  obtain f where f: "open_handle st CH_UNIX CH_UTF16BE = Handle f" "ic_direct f = None" "ic_pull f = Some utf8_pull" "ic_push f = Some iconv_swab"
    using op(3) by (auto simp: open_handle_def)
  have "smb_iconv f (utf8 cps) (3 * length (utf8 cps)) = Some (Inr 0, [], swab (utf16 cps))"
    using one_round [of utf8_pull "utf8 cps" "utf16 cps" iconv_swab] utf8_pull_text [OF assms(3) short] sw f ne len
    by (simp add: smb_iconv_def del: iconv_loop.simps)
  then show "\<exists>st'. convert_string_talloc CH_UNIX CH_UTF16BE (Some (utf8 cps)) st = (Conv (swab (utf16 cps)), st') \<and> conv_inv st'"
    using talloc_by_handle [OF assms(1) f(1)] ne by blast
  obtain g where g: "open_handle st CH_UTF16BE CH_UNIX = Handle g" "ic_direct g = None" "ic_pull g = Some iconv_swab" "ic_push g = Some utf8_push"
    using op(4) by (auto simp: open_handle_def)
  have sb: "iconv_swab (swab (utf16 cps)) 2048 = (Inr 0, [], utf16 cps)"
    using swab_all [of "swab (utf16 cps)" 2048] ls short swab_swab [OF even_utf16] even_utf16 [of cps] by simp
  have ns: "swab (utf16 cps) \<noteq> []" using ne ls by (metis length_0_conv)
  have "smb_iconv g (swab (utf16 cps)) (3 * length (swab (utf16 cps))) = Some (Inr 0, [], utf8 cps)"
    using one_round [of iconv_swab "swab (utf16 cps)" "utf16 cps" utf8_push] sb utf8_push_text [OF assms(3)] ns g len ls
    by (simp add: smb_iconv_def del: iconv_loop.simps)
  then show "\<exists>st'. convert_string_talloc CH_UTF16BE CH_UNIX (Some (swab (utf16 cps))) st = (Conv (utf8 cps), st') \<and> conv_inv st'"
    using talloc_by_handle [OF assms(1) g(1) ns] by blast
qed

text \<open>Texts: with UTF-8 as the charset of the system, every text of Unicode scalar values is converted to its
  UTF-16 form and back, in little-endian order whatever its length, and in big-endian order when
  the form is at most 2048 bytes, the size of the intermediate buffer.\<close>

theorem text_conversion_roundtrip:
  assumes "conv_inv st" "cs_unix st = ''UTF8'' \<or> cs_unix st = ''UTF-8''" "list_all scalar cps" "cps \<noteq> []"
  shows "(\<exists>st'. convert_string_talloc CH_UNIX CH_UTF16 (Some (utf8 cps)) st = (Conv (utf16 cps), st') \<and> conv_inv st') \<and>
    (\<exists>st'. convert_string_talloc CH_UTF16 CH_UNIX (Some (utf16 cps)) st = (Conv (utf8 cps), st') \<and> conv_inv st') \<and>
    (length (utf16 cps) \<le> 2048 \<longrightarrow>
       (\<exists>st'. convert_string_talloc CH_UNIX CH_UTF16BE (Some (utf8 cps)) st = (Conv (swab (utf16 cps)), st') \<and> conv_inv st') \<and>
       (\<exists>st'. convert_string_talloc CH_UTF16BE CH_UNIX (Some (swab (utf16 cps))) st = (Conv (utf8 cps), st') \<and> conv_inv st'))"
  using text_conversions [OF assms] .

theorem text_conversion_roundtrip_witness:
  "\<exists>st'. convert_string_talloc CH_UNIX CH_UTF16BE (Some [0x41, 0xC3, 0xA9, 0xF0, 0x9F, 0x98, 0x80]) utf8_state =
     (Conv [0, 0x41, 0, 0xE9, 0xD8, 0x3D, 0xDE, 0], st')"
proof -
  have s: "list_all scalar [0x41, 0xE9, 0x1F600]" by (simp add: scalar_def)
  have b: "utf8 [0x41, 0xE9, 0x1F600] = [0x41, 0xC3, 0xA9, 0xF0, 0x9F, 0x98, 0x80]"
    "utf16 [0x41, 0xE9, 0x1F600] = [0x41, 0, 0xE9, 0, 0x3D, 0xD8, 0, 0xDE]" by code_simp+
  have "cs_unix utf8_state = ''UTF8'' \<or> cs_unix utf8_state = ''UTF-8''" "[0x41, 0xE9, 0x1F600] \<noteq> []" by (simp_all add: utf8_state_def)
  from text_conversion_roundtrip [OF utf8_state_inv this(1) s this(2)] show ?thesis unfolding b by auto
qed

text \<open>
  The bound is needed: the buffer may end between the two units of a character above U+FFFF, and
  the converter that reads the buffer rejects the half it is given.
\<close>

lemma utf8_push_app:
  "list_all scalar cps \<Longrightarrow> length (utf8 cps) \<le> out \<Longrightarrow>
   utf8_push (utf16 cps @ r) out = emit (utf8 cps) (utf8_push r (out - length (utf8 cps)))"
proof (induction cps arbitrary: out)
  case Nil
  then show ?case by (cases "utf8_push r out") (simp add: utf16_def utf8_def)
next
  case (Cons cp cps)
  have "utf8_push (utf16_enc cp @ (utf16 cps @ r)) out = emit (utf8_enc cp) (utf8_push (utf16 cps @ r) (out - length (utf8_enc cp)))"
    using Cons.prems by (intro utf8_push_char) (auto simp: utf8_def)
  then show ?case using Cons by (simp add: utf16_def utf8_def emit_def)
qed

lemma swab_append: "even (length xs) \<Longrightarrow> swab (xs @ ys) = swab xs @ swab ys"
  by (induction xs rule: swab.induct) auto

lemma utf_ascii:
  "cp < 0x80 \<Longrightarrow> length (utf16 (replicate n cp)) = 2 * n" "cp < 0x80 \<Longrightarrow> length (utf8 (replicate n cp)) = n"
  by (induction n) (auto simp: utf16_def utf8_def enc_forms(1) le16_def)

lemma pair_split_by_buffer:
  assumes "2000 \<le> out"
  shows "\<exists>left os. iconv_loop (Suc n) iconv_swab utf8_push (swab (utf16 (replicate 1023 0x61 @ [0x10000]))) out = Some (Inl EINVAL, left, os)"
proof -
  let ?a = "utf16 (replicate 1023 0x61)"
  have l: "length ?a = 2046" "even (length ?a)" by (simp_all add: utf_ascii)
  have ls: "length (swab ?a) = 2046" using l by (simp add: length_swab)
  have x: "swab (utf16 (replicate 1023 0x61 @ [0x10000])) = swab ?a @ [0xD8, 0, 0xDC, 0]"
  proof -
    have "utf16_enc 0x10000 = [0, 0xD8, 0, 0xDC]" by code_simp
    then show ?thesis using swab_append [OF l(2), of "[0, 0xD8, 0, 0xDC]"] by (simp add: utf16_def)
  qed
  have "swab (swab ?a @ [0xD8, 0]) = ?a @ [0, 0xD8]" using swab_append [of "swab ?a" "[0xD8, 0]"] swab_swab [OF l(2)] ls by simp
  then have sw: "iconv_swab (swab ?a @ [0xD8, 0, 0xDC, 0]) 2048 = (Inl E2BIG, [0xDC, 0], ?a @ [0, 0xD8])"
    using ls by (simp add: iconv_swab_def Let_def)
  have "utf8_push [0, 0xD8] m = (Inl EINVAL, [0, 0xD8], [])" if "1 \<le> m" for m
    using that by (subst utf8_push.simps) simp
  moreover have "list_all scalar (replicate 1023 0x61)" by (simp add: list_all_iff scalar_def)
  moreover have "length (utf8 (replicate 1023 0x61)) = 1023" by (simp add: utf_ascii)
  ultimately have "utf8_push (?a @ [0, 0xD8]) out = (Inl EINVAL, [0, 0xD8], utf8 (replicate 1023 0x61))"
    using utf8_push_app [of "replicate 1023 0x61" out "[0, 0xD8]"] assms by simp
  then show ?thesis unfolding x using sw by (simp add: hard_error_def)
qed

section \<open>Code points\<close>

lemma utf8_pull_no_room: "utf8_pull r 0 = (if r = [] then (Inr 0, [], []) else (Inl E2BIG, r, []))"
  by (subst utf8_pull.simps) (auto split: list.split)

lemma pull_4_short:
  assumes "0x10000 \<le> cp" "cp < 0x110000"
  shows "utf8_pull ([0xF0 OR ucast (drop_bit 18 cp), tail6 12 cp, tail6 6 cp, tail6 0 cp] @ r) 2 =
    (Inl E2BIG, [0xF0 OR ucast (drop_bit 18 cp), tail6 12 cp, tail6 6 cp, tail6 0 cp] @ r, [])"
proof -
  let ?c = "0xF0 OR ucast (drop_bit 18 cp) :: u8"
  have "?c AND 0x80 \<noteq> 0" "?c AND 0xE0 \<noteq> 0xC0" "?c AND 0xF0 \<noteq> 0xE0" by (simp_all add: byte_tests bit_simps)
  moreover have "\<not> cp < 0x10000" using assms(1) by (simp add: not_less)
  ultimately show ?thesis using lead_4 [OF assms(2)] four_byte_value [OF assms(2)]
    by (subst utf8_pull.simps) (simp add: tail6_cont(1) Let_def del: not_less)
qed

lemma utf16_value_enc: "scalar cp \<Longrightarrow> utf16_value (utf16_enc cp) = cp"
proof (cases "cp < 0x10000")
  case True
  have "ucast (ucast cp :: u8) OR push_bit 8 (ucast (ucast (drop_bit 8 cp) :: u8)) = cp" (is "?w = cp")
  proof (rule bit_word_eqI)
    fix n assume "n < LENGTH(32)"
    then show "bit ?w n = bit cp n" using high_bits_zero(3) [OF True, of n] by (cases "n < 8"; cases "n < 16") (auto simp: bit_simps)
  qed
  then show ?thesis using True by (simp add: utf16_value_def utf16_enc_def le16_def)
next
  case False
  assume "scalar cp"
  then have c: "0x10000 \<le> cp" "cp < 0x110000" using False by (simp_all add: scalar_def not_less)
  show ?thesis using surrogate_value [OF supplementary(1) [OF c]] supplementary(2) [OF c] False
    by (simp add: utf16_value_def utf16_enc_def le16_def Let_def del: not_less)
qed

lemma utf8_enc_high:
  assumes "scalar cp" "0x80 \<le> cp"
  shows "\<exists>c cs. utf8_enc cp = c # cs \<and> c AND 0x80 \<noteq> 0" "list_all (\<lambda>c. c \<noteq> 0) (utf8_enc cp)" "length (utf8_enc cp) \<le> 4"
proof -
  have t: "tail6 k cp \<noteq> 0" for k by (auto simp: tail6_def u8_eq_iff bit_simps)
  have h: "(w OR x :: u8) AND 0x80 \<noteq> 0" "(w OR x :: u8) \<noteq> 0" if "w \<in> {0xC0, 0xE0, 0xF0}" for w x
    using that by (auto simp: byte_tests u8_eq_iff bit_simps)
  have "\<not> cp < 0x80" using assms(2) by (simp add: not_less)
  then show "\<exists>c cs. utf8_enc cp = c # cs \<and> c AND 0x80 \<noteq> 0" "list_all (\<lambda>c. c \<noteq> 0) (utf8_enc cp)" "length (utf8_enc cp) \<le> 4"
    using t h by (simp_all add: utf8_enc_def del: not_less)
qed

lemma next_input:
  assumes "list_all (\<lambda>c. c \<noteq> 0) e" "length e \<le> 5"
  shows "\<exists>s. take (strnlen (e @ r) 5) (e @ r) = e @ s"
proof -
  have "takeWhile (\<lambda>c. c \<noteq> 0) (take 5 (e @ r)) = e @ takeWhile (\<lambda>c. c \<noteq> 0) (take (5 - length e) r)"
    using assms by (simp add: takeWhile_append2 list_all_iff)
  then show ?thesis by (simp add: strnlen_def)
qed

lemma next_pull:
  assumes "scalar cp" "0x80 \<le> cp"
  shows "\<exists>x. utf8_pull (utf8_enc cp @ s) 2 = (if cp < 0x10000 then (x, s, utf16_enc cp) else (Inl E2BIG, utf8_enc cp @ s, []))"
    "\<exists>x. 0x10000 \<le> cp \<longrightarrow> utf8_pull (utf8_enc cp @ s) 4 = (x, s, utf16_enc cp)"
proof -
  have "\<exists>x. utf8_pull (utf8_enc cp @ s) 2 = (x, s, utf16_enc cp)" if "cp < 0x10000"
    using utf8_pull_char [OF assms(1), of 2 s] that utf8_pull_no_room [of s] by (simp add: length_utf16_enc)
  moreover have "utf8_pull (utf8_enc cp @ s) 2 = (Inl E2BIG, utf8_enc cp @ s, [])" if "\<not> cp < 0x10000"
    using pull_4_short [of cp s] that assms(1) enc_forms(4) [of cp] by (simp add: scalar_def not_less)
  ultimately show "\<exists>x. utf8_pull (utf8_enc cp @ s) 2 = (if cp < 0x10000 then (x, s, utf16_enc cp) else (Inl E2BIG, utf8_enc cp @ s, []))"
    by auto
  show "\<exists>x. 0x10000 \<le> cp \<longrightarrow> utf8_pull (utf8_enc cp @ s) 4 = (x, s, utf16_enc cp)"
    using utf8_pull_char [OF assms(1), of 4 s] utf8_pull_no_room [of s] by (cases "cp < 0x10000") (auto simp: length_utf16_enc not_less)
qed

lemma push_codepoint_buf:
  assumes "scalar c"
  shows "(if c < 0x10000 then [ucast c, ucast (drop_bit 8 c)]
     else [ucast (drop_bit 10 (c - 0x10000) AND 0xFF), ucast (drop_bit 18 (c - 0x10000)) OR 0xD8, ucast ((c - 0x10000) AND 0xFF),
           ucast (drop_bit 8 (c - 0x10000) AND 0x3) OR 0xDC]) = utf16_enc c"
proof (cases "c < 0x10000")
  case False
  then have c: "0x10000 \<le> c" "c < 0x110000" using assms by (simp_all add: scalar_def not_less)
  note z = high_bits_zero(4) [OF supplementary(1) [OF c]]
  show ?thesis using False z by (simp add: utf16_enc_def Let_def le16_def u8_eq_iff bit_simps masks del: not_less)
qed (simp add: utf16_enc_def le16_def)

lemma push_codepoint_enc:
  assumes "conv_inv st" "cs_unix st = ''UTF8'' \<or> cs_unix st = ''UTF-8''" "scalar cp"
  shows "\<exists>st'. push_codepoint cp st = (Some (int (length (utf8_enc cp)), utf8_enc cp), st') \<and> conv_inv st'"
proof (cases "cp < 0x80")
  case True
  then show ?thesis using assms(1) by (simp add: push_codepoint_def enc_forms(1))
next
  case False
  obtain d where d: "open_handle st CH_UTF16 CH_UNIX = Handle d" "ic_direct d = Some utf8_push"
    using open_utf(2) [OF assms(2), of "cs_env st"] by (auto simp: open_handle_def)
  obtain st' where h: "get_conv_handle CH_UTF16 CH_UNIX st = (Handle d, st')" "conv_inv st'"
    using get_conv_handle_inv [OF assms(1), of CH_UTF16 CH_UNIX] d(1) by auto
  have "length (utf8_enc cp) \<le> 4" using utf8_enc_high(3) [OF assms(3)] False by (simp add: not_less)
  then have "smb_iconv d (utf16_enc cp) 5 = Some (Inr 0, [], utf8_enc cp)"
    using utf8_push_text [of "[cp]" 5] assms(3) d(2) by (simp add: smb_iconv_def utf8_def utf16_def)
  then show ?thesis using h False
    unfolding push_codepoint_def Let_def push_codepoint_buf [OF assms(3)] by (simp del: not_less)
qed

lemma next_codepoint_enc:
  assumes "conv_inv st" "cs_unix st = ''UTF8'' \<or> cs_unix st = ''UTF-8''" "scalar cp"
  shows "\<exists>st'. next_codepoint (utf8_enc cp @ r) st = (Some (cp, length (utf8_enc cp)), st') \<and> conv_inv st'"
proof (cases "cp < 0x80")
  case True
  have "(ucast cp :: u8) AND 0x80 = 0" "ucast (ucast cp :: u8) = cp"
  proof -
    show "(ucast cp :: u8) AND 0x80 = 0" using high_bits_zero(1) [OF True] by (simp add: byte_tests bit_simps)
    show "ucast (ucast cp :: u8) = cp" (is "?w = cp")
    proof (rule bit_word_eqI)
      fix n assume "n < LENGTH(32)"
      then show "bit ?w n = bit cp n" using high_bits_zero(1) [OF True, of n] by (cases "n < 8") (auto simp: bit_simps)
    qed
  qed
  then show ?thesis using assms(1) True by (simp add: next_codepoint_def enc_forms(1))
next
  case False
  then have ge: "0x80 \<le> cp" by (simp add: not_less)
  note e = utf8_enc_high [OF assms(3) ge]
  obtain c cs where c: "utf8_enc cp = c # cs" "c AND 0x80 \<noteq> 0" using e(1) by blast
  obtain s where s: "take (strnlen (utf8_enc cp @ r) 5) (utf8_enc cp @ r) = utf8_enc cp @ s" using next_input [OF e(2)] e(3) by auto
  obtain d where d: "open_handle st CH_UNIX CH_UTF16 = Handle d" "ic_direct d = Some utf8_pull"
    using open_utf(1) [OF assms(2), of "cs_env st"] by (auto simp: open_handle_def)
  obtain st' where h: "get_conv_handle CH_UNIX CH_UTF16 st = (Handle d, st')" "conv_inv st'"
    using get_conv_handle_inv [OF assms(1), of CH_UNIX CH_UTF16] d(1) by auto
  obtain x where x: "utf8_pull (utf8_enc cp @ s) 2 = (if cp < 0x10000 then (x, s, utf16_enc cp) else (Inl E2BIG, utf8_enc cp @ s, []))"
    using next_pull(1) [OF assms(3) ge] by blast
  obtain y where y: "0x10000 \<le> cp \<longrightarrow> utf8_pull (utf8_enc cp @ s) 4 = (y, s, utf16_enc cp)" using next_pull(2) [OF assms(3) ge] by blast
  have ne: "utf16_enc cp \<noteq> []" using length_utf16_enc [of cp] by (auto split: if_splits)
  have c0: "(case utf8_enc cp @ r of [] \<Rightarrow> 0 | c # _ \<Rightarrow> c) = c" using c by simp
  have i: "smb_iconv d = (\<lambda>inb out. Some (utf8_pull inb out))" using d(2) by (simp add: smb_iconv_def fun_eq_iff)
  have v: "utf16_value (utf16_enc cp) = cp" by (rule utf16_value_enc [OF assms(3)])
  show ?thesis
    unfolding next_codepoint_def Let_def c0 s
    using c(2) h x y ne v by (cases "cp < 0x10000") (simp_all add: i not_less)
qed

text \<open>Code points: with UTF-8 as the charset of the system, \<open>push_codepoint\<close> writes the UTF-8 form of every
  Unicode scalar value, and \<open>next_codepoint\<close> reads the value and its length back, whatever follows.\<close>

theorem codepoint_roundtrip:
  assumes "conv_inv st" "cs_unix st = ''UTF8'' \<or> cs_unix st = ''UTF-8''" "scalar cp"
  shows "(\<exists>st'. push_codepoint cp st = (Some (int (length (utf8_enc cp)), utf8_enc cp), st') \<and> conv_inv st') \<and>
    (\<exists>st'. next_codepoint (utf8_enc cp @ r) st = (Some (cp, length (utf8_enc cp)), st') \<and> conv_inv st')"
  using push_codepoint_enc [OF assms] next_codepoint_enc [OF assms] by simp

theorem codepoint_roundtrip_witness:
  "\<exists>st'. next_codepoint [0xE2, 0x82, 0xAC, 0x41] utf8_state = (Some (0x20AC, 3), st')"
proof -
  have "scalar 0x20AC" by (simp add: scalar_def)
  moreover have "cs_unix utf8_state = ''UTF8'' \<or> cs_unix utf8_state = ''UTF-8''" by (simp add: utf8_state_def)
  moreover have b: "utf8_enc 0x20AC = [0xE2, 0x82, 0xAC]" by code_simp
  ultimately show ?thesis using codepoint_roundtrip [OF utf8_state_inv, of "0x20AC" "[0x41]"] unfolding b by auto
qed

end
