(* ===== verification/NdrString.thy ===== *)
theory NdrString
  imports NdrProps CharcnvProps
begin

text \<open>
  The string types of the marshalling library, \<open>librpc/ndr/ndr_string.c\<close>. The character
  conversion is an argument: \<open>conv\<close> stands for \<open>convert_string_talloc\<close>, \<open>cvs\<close> for
  \<open>convert_string\<close> into a buffer of a given size, both in a fixed configuration. A conversion that
  does not return is \<open>NBad\<close>. The string a reader returns is given up to its first NUL.
\<close>

type_synonym conv_fun = "charset_t \<Rightarrow> charset_t \<Rightarrow> u8 list option \<Rightarrow> conv_talloc"
type_synonym conv_into = "charset_t \<Rightarrow> charset_t \<Rightarrow> u8 list \<Rightarrow> nat \<Rightarrow> (int \<times> u8 list) option"

abbreviation (input) "LIBNDR_FLAG_STR_ASCII \<equiv> (0x4 :: u32)"
abbreviation (input) "LIBNDR_FLAG_STR_LEN4 \<equiv> (0x8 :: u32)"
abbreviation (input) "LIBNDR_FLAG_STR_SIZE4 \<equiv> (0x10 :: u32)"
abbreviation (input) "LIBNDR_FLAG_STR_NOTERM \<equiv> (0x20 :: u32)"
abbreviation (input) "LIBNDR_FLAG_STR_NULLTERM \<equiv> (0x40 :: u32)"
abbreviation (input) "LIBNDR_FLAG_STR_SIZE2 \<equiv> (0x80 :: u32)"
abbreviation (input) "LIBNDR_FLAG_STR_BYTESIZE \<equiv> (0x100 :: u32)"
abbreviation (input) "LIBNDR_FLAG_STR_FIXLEN32 \<equiv> (0x200 :: u32)"
abbreviation (input) "LIBNDR_FLAG_STR_CONFORMANT \<equiv> (0x400 :: u32)"
abbreviation (input) "LIBNDR_FLAG_STR_CHARLEN \<equiv> (0x800 :: u32)"
abbreviation (input) "LIBNDR_FLAG_STR_UTF8 \<equiv> (0x1000 :: u32)"
abbreviation (input) "LIBNDR_FLAG_STR_FIXLEN15 \<equiv> (0x2000 :: u32)"
abbreviation (input) "LIBNDR_STRING_FLAGS \<equiv> (0x7FFC :: u32)"

definition has :: "u32 \<Rightarrow> u32 \<Rightarrow> bool" where
  "has flags f \<longleftrightarrow> flags AND f \<noteq> 0"

text \<open>The charset, the bytes of a unit, and the flags that are left; likewise for both directions.\<close>

definition string_charset :: "u32 \<Rightarrow> charset_t \<times> u32 \<times> u32" where
  "string_charset flags0 =
     (let c0 = (if NDR_BE flags0 then CH_UTF16BE else CH_UTF16);
          (c1, m1, f1) = (if has flags0 LIBNDR_FLAG_STR_ASCII then (CH_DOS, 1, flags0 AND NOT LIBNDR_FLAG_STR_ASCII) else (c0, 2, flags0));
          (c2, m2, f2) = (if has f1 LIBNDR_FLAG_STR_UTF8 then (CH_UTF8, 1, f1 AND NOT LIBNDR_FLAG_STR_UTF8) else (c1, m1, f1))
      in (c2, m2, f2 AND NOT LIBNDR_FLAG_STR_CONFORMANT))"

definition c_string :: "u8 list \<Rightarrow> u8 list" where
  "c_string bs = takeWhile (\<lambda>c. c \<noteq> 0) bs"

section \<open>Reading strings\<close>

text \<open>Convert the next \<open>n\<close> bytes.\<close>

definition convert_here :: "conv_fun \<Rightarrow> charset_t \<Rightarrow> u32 \<Rightarrow> (u8 list, ndr_pull) ncall" where
  "convert_here conv chset n s =
     (if unat (nl_offset s) + unat n \<le> length (nl_data s)
      then (case conv chset CH_UNIX (Some (take (unat n) (drop (unat (nl_offset s)) (nl_data s)))) of
              Conv bs \<Rightarrow> NOk (c_string bs) s
            | ConvFail \<Rightarrow> ndr_error NDR_ERR_CHARCNV s
            | _ \<Rightarrow> NBad)
      else NBad)"

text \<open>Room for \<open>n\<close> bytes, the empty string for the length 0 and the text otherwise, advance.\<close>

definition pull_text :: "conv_fun \<Rightarrow> charset_t \<Rightarrow> bool \<Rightarrow> u32 \<Rightarrow> (u8 list, ndr_pull) ncall" where
  "pull_text conv chset nothing n =
     nseq (NDR_PULL_NEED_BYTES n)
       (nbind (if nothing then nret [] else convert_here conv chset n) (\<lambda>as. nseq (ndr_pull_advance n) (nret as)))"

definition convert_advance :: "conv_fun \<Rightarrow> charset_t \<Rightarrow> u32 \<Rightarrow> (u8 list, ndr_pull) ncall" where
  "convert_advance conv chset n = nbind (convert_here conv chset n) (\<lambda>as. nseq (ndr_pull_advance n) (nret as))"

definition nullterm_len :: "u32 \<Rightarrow> ndr_pull \<Rightarrow> nat" where
  "nullterm_len byte_mul s =
     (let rest = drop (unat (nl_offset s)) (nl_data s); n = unat (nl_size s - nl_offset s)
      in if byte_mul = 1 then ascii_len_n rest n else utf16_len_n rest n)"

text \<open>The switch over the flags.\<close>

definition pull_string_body :: "conv_fun \<Rightarrow> charset_t \<Rightarrow> u32 \<Rightarrow> u32 \<Rightarrow> (u8 list, ndr_pull) ncall" where
  "pull_string_body conv chset byte_mul f1 =
     (let c_len_term = (if has f1 LIBNDR_FLAG_STR_CHARLEN then 1 else 0 :: u32);
          f2 = f1 AND NOT LIBNDR_FLAG_STR_CHARLEN;
          sw = f2 AND LIBNDR_STRING_FLAGS
      in (if sw = LIBNDR_FLAG_STR_LEN4 OR LIBNDR_FLAG_STR_SIZE4 \<or>
         sw = LIBNDR_FLAG_STR_LEN4 OR LIBNDR_FLAG_STR_SIZE4 OR LIBNDR_FLAG_STR_NOTERM
      then nbind ndr_pull_uint32 (\<lambda>len1. nbind ndr_pull_uint32 (\<lambda>ofs.
             if ofs \<noteq> 0 then ndr_error NDR_ERR_STRING
             else nbind ndr_pull_uint32 (\<lambda>len2.
               if len1 < len2 then ndr_error NDR_ERR_STRING
               else pull_text conv chset (len2 = 0) ((len2 + c_len_term) * byte_mul))))
      else if sw = LIBNDR_FLAG_STR_SIZE4 \<or> sw = LIBNDR_FLAG_STR_SIZE4 OR LIBNDR_FLAG_STR_NOTERM
      then nbind ndr_pull_uint32 (\<lambda>len1. pull_text conv chset (len1 = 0) ((len1 + c_len_term) * byte_mul))
      else if sw = LIBNDR_FLAG_STR_LEN4 \<or> sw = LIBNDR_FLAG_STR_LEN4 OR LIBNDR_FLAG_STR_NOTERM
      then nbind ndr_pull_uint32 (\<lambda>ofs.
             if ofs \<noteq> 0 then ndr_error NDR_ERR_STRING
             else nbind ndr_pull_uint32 (\<lambda>len1. pull_text conv chset (len1 = 0) ((len1 + c_len_term) * byte_mul)))
      else if sw = LIBNDR_FLAG_STR_SIZE2 \<or> sw = LIBNDR_FLAG_STR_SIZE2 OR LIBNDR_FLAG_STR_NOTERM
      then nbind ndr_pull_uint16 (\<lambda>len3. pull_text conv chset (len3 = 0) ((ucast len3 + c_len_term) * byte_mul))
      else if sw = LIBNDR_FLAG_STR_SIZE2 OR LIBNDR_FLAG_STR_NOTERM OR LIBNDR_FLAG_STR_BYTESIZE
      then nbind ndr_pull_uint16 (\<lambda>len3. pull_text conv chset (len3 = 0) (ucast len3))
      else if sw = LIBNDR_FLAG_STR_NULLTERM
      then (\<lambda>t. convert_advance conv chset (of_nat (nullterm_len byte_mul t)) t)
      else if sw = LIBNDR_FLAG_STR_FIXLEN15 \<or> sw = LIBNDR_FLAG_STR_FIXLEN32
      then (let n = (if has f2 LIBNDR_FLAG_STR_FIXLEN32 then 32 else 15) * byte_mul
            in nseq (NDR_PULL_NEED_BYTES n) (convert_advance conv chset n))
      else ndr_error NDR_ERR_STRING))"

text \<open>None: the caller's string is left as it is.\<close>

definition ndr_pull_string :: "conv_fun \<Rightarrow> u32 \<Rightarrow> (u8 list option, ndr_pull) ncall" where
  "ndr_pull_string conv ndr_flags s =
     (if ndr_flags AND NDR_SCALARS = 0 then NOk None s
      else case string_charset (nl_flags s) of
             (chset, byte_mul, f1) \<Rightarrow> nbind (pull_string_body conv chset byte_mul f1) (\<lambda>as. nret (Some as)) s)"

section \<open>Writing strings\<close>

text \<open>A string is None for NULL. The lengths are \<open>ssize_t\<close>, here integers.\<close>

definition ndr_push_string :: "conv_fun \<Rightarrow> u32 \<Rightarrow> u8 list option \<Rightarrow> (unit, ndr_push) ncall" where
  "ndr_push_string conv ndr_flags str s =
     (if ndr_flags AND NDR_SCALARS = 0 then NOk () s
      else
        (let (chset, byte_mul, f1) = string_charset (np_flags s);
             noterm = has f1 (LIBNDR_FLAG_STR_NOTERM OR LIBNDR_FLAG_STR_FIXLEN15 OR LIBNDR_FLAG_STR_FIXLEN32)
         in case conv CH_UNIX chset (map_option (\<lambda>cs. if noterm then cs else cs @ [0]) str) of
              ConvFail \<Rightarrow> ndr_error NDR_ERR_CHARCNV s
            | ConvBad \<Rightarrow> NBad
            | ConvHang \<Rightarrow> NBad
            | Conv dest \<Rightarrow>
                (let d_len = int (length dest);
                     (c_len, f2) =
                       (if has f1 LIBNDR_FLAG_STR_BYTESIZE then (d_len, f1 AND NOT LIBNDR_FLAG_STR_BYTESIZE)
                        else if has f1 LIBNDR_FLAG_STR_CHARLEN then (d_len div uint byte_mul - 1, f1 AND NOT LIBNDR_FLAG_STR_CHARLEN)
                        else (d_len div uint byte_mul, f1));
                     sw = (f2 AND LIBNDR_STRING_FLAGS) AND NOT LIBNDR_FLAG_STR_NOTERM;
                     c_len32 = word_of_int c_len; put = ndr_push_bytes dest (word_of_int d_len)
                 in if sw = LIBNDR_FLAG_STR_LEN4 OR LIBNDR_FLAG_STR_SIZE4
                    then nseq (ndr_push_uint32 c_len32) (nseq (ndr_push_uint32 0) (nseq (ndr_push_uint32 c_len32) put)) s
                    else if sw = LIBNDR_FLAG_STR_LEN4 then nseq (ndr_push_uint32 0) (nseq (ndr_push_uint32 c_len32) put) s
                    else if sw = LIBNDR_FLAG_STR_SIZE4 then nseq (ndr_push_uint32 c_len32) put s
                    else if sw = LIBNDR_FLAG_STR_SIZE2 then nseq (ndr_push_uint16 (word_of_int c_len)) put s
                    else if sw = LIBNDR_FLAG_STR_NULLTERM then put s
                    else if sw = LIBNDR_FLAG_STR_FIXLEN15 \<or> sw = LIBNDR_FLAG_STR_FIXLEN32
                    then (let fix_len = (if has f2 LIBNDR_FLAG_STR_FIXLEN32 then 32 else 15); pad_len = word_of_int (fix_len - d_len)
                          in if fix_len < d_len then ndr_error NDR_ERR_CHARCNV s
                             else nseq put (if pad_len \<noteq> 0 then ndr_push_zero pad_len else nret ()) s)
                    else ndr_error NDR_ERR_STRING s)))"

text \<open>\<open>slen\<close> stands for \<open>strlen_m\<close>, the number of UTF-16 units.\<close>

definition ndr_string_array_size :: "(u8 list \<Rightarrow> nat) \<Rightarrow> u32 \<Rightarrow> u8 list option \<Rightarrow> nat" where
  "ndr_string_array_size slen flags str =
     (if has flags LIBNDR_FLAG_STR_FIXLEN32 then 32
      else if has flags LIBNDR_FLAG_STR_FIXLEN15 then 15
      else
        (let byte_mul = (if has flags (LIBNDR_FLAG_STR_ASCII OR LIBNDR_FLAG_STR_UTF8) then 1 else 2);
             c_len = (case str of None \<Rightarrow> 0 | Some cs \<Rightarrow> slen cs) + (if has flags LIBNDR_FLAG_STR_NOTERM then 0 else 1)
         in if has flags LIBNDR_FLAG_STR_BYTESIZE then c_len * byte_mul else c_len))"

definition ndr_size_string :: "int \<Rightarrow> u8 list option \<Rightarrow> u32" where
  "ndr_size_string ret str = (case str of None \<Rightarrow> word_of_int ret | Some cs \<Rightarrow> word_of_int (ret + int (length cs) + 1))"

section \<open>Arrays of strings\<close>

text \<open>The loop ends at the empty string; each other string takes a byte at least, so the fuel is the size.\<close>

fun pull_strings :: "nat \<Rightarrow> conv_fun \<Rightarrow> (u8 list list, ndr_pull) ncall" where
  "pull_strings 0 conv s = NBad"
| "pull_strings (Suc n) conv s =
     nbind (ndr_pull_string conv NDR_SCALARS)
       (\<lambda>x. case x of
              Some (c # cs) \<Rightarrow> nbind (pull_strings n conv) (\<lambda>xs. nret ((c # cs) # xs))
            | _ \<Rightarrow> nret []) s"

definition ndr_pull_string_array :: "conv_fun \<Rightarrow> u32 \<Rightarrow> (u8 list list option, ndr_pull) ncall" where
  "ndr_pull_string_array conv ndr_flags s =
     (if ndr_flags AND NDR_SCALARS = 0 then NOk None s
      else nbind (pull_strings (Suc (unat (nl_size s))) conv) (\<lambda>xs. nret (Some xs)) s)"

fun push_strings :: "conv_fun \<Rightarrow> u8 list list \<Rightarrow> (unit, ndr_push) ncall" where
  "push_strings conv [] = ndr_push_string conv NDR_SCALARS (Some [])"
| "push_strings conv (x # xs) = nseq (ndr_push_string conv NDR_SCALARS (Some x)) (push_strings conv xs)"

definition ndr_push_string_array :: "conv_fun \<Rightarrow> u32 \<Rightarrow> u8 list list option \<Rightarrow> (unit, ndr_push) ncall" where
  "ndr_push_string_array conv ndr_flags a s =
     (if ndr_flags AND NDR_SCALARS = 0 then NOk () s
      else push_strings conv (case a of None \<Rightarrow> [] | Some xs \<Rightarrow> xs) s)"

section \<open>Arrays of characters\<close>

text \<open>The elements up to the first zero one, with it; None when there is none.\<close>

function ndr_string_length :: "u8 list \<Rightarrow> nat \<Rightarrow> nat option" where
  "ndr_string_length var n =
     (if n = 0 then Some 1
      else if length var < n then None
      else if list_all (\<lambda>c. c = 0) (take n var) then Some 1
      else map_option Suc (ndr_string_length (drop n var) n))"
  by pat_completeness auto
termination by (relation "measure (\<lambda>(var, n). length var)") auto

text \<open>
  The result of \<open>ndr_pull_advance\<close> is ignored. The bytes at the offset are read, which counts modulo \<open>2^32\<close>.
\<close>

fun terminator_zero :: "u8 list \<Rightarrow> u32 \<Rightarrow> u32 list \<Rightarrow> bool option" where
  "terminator_zero data offset [] = Some True"
| "terminator_zero data offset (i # is) =
     (if length data \<le> unat (offset + i) then None
      else if data ! unat (offset + i) \<noteq> 0 then Some False
      else terminator_zero data offset is)"

definition ndr_check_string_terminator :: "u32 \<Rightarrow> u32 \<Rightarrow> (unit, ndr_pull) ncall" where
  "ndr_check_string_terminator count element_size s =
     (let save = ndr_pull_save s; s1 = s\<lparr>nl_offset := nl_offset s + (count - 1) * element_size\<rparr> in
      nseq (NDR_PULL_NEED_BYTES element_size)
        (\<lambda>t. case terminator_zero (nl_data t) (nl_offset t) (map of_nat [0..<unat element_size]) of
               None \<Rightarrow> NBad
             | Some False \<Rightarrow> ndr_error NDR_ERR_ARRAY_SIZE (ndr_pull_restore save t)
             | Some True \<Rightarrow> NOk () (ndr_pull_restore save t)) s1)"

definition native_charset :: "u32 \<Rightarrow> charset_t \<Rightarrow> charset_t" where
  "native_charset flags chset = (if NDR_BE flags \<and> chset = CH_UTF16 then CH_UTF16BE else chset)"

definition ndr_pull_charset :: "conv_fun \<Rightarrow> u32 \<Rightarrow> u8 \<Rightarrow> charset_t \<Rightarrow> (u8 list, ndr_pull) ncall" where
  "ndr_pull_charset conv len byte_mul chset s =
     (if len = 0 then NOk [] s
      else (let n = len * ucast byte_mul
            in nseq (NDR_PULL_NEED_BYTES n) (convert_advance conv (native_charset (nl_flags s) chset) n) s))"

text \<open>The product is a 32-bit one; the rest behind the text is filled with zero bytes.\<close>

definition ndr_push_charset :: "conv_into \<Rightarrow> u8 list \<Rightarrow> u32 \<Rightarrow> u8 \<Rightarrow> charset_t \<Rightarrow> (unit, ndr_push) ncall" where
  "ndr_push_charset cvs var len byte_mul chset s =
     (let required = ucast byte_mul * len; chs = native_charset (np_flags s) chset in
      nseq (NDR_PUSH_NEED_BYTES required)
        (\<lambda>t. case cvs CH_UNIX chs var (unat required) of
               None \<Rightarrow> NBad
             | Some (ret, os) \<Rightarrow>
                 nbind (store_here os)
                   (\<lambda>_. if ret = - 1 then ndr_error NDR_ERR_CHARCNV
                        else nseq (\<lambda>u. store_at (np_offset u + word_of_int ret) (replicate (unat required - nat ret) 0) u)
                               (push_advance required)) t) s)"

definition ndr_charset_length :: "u8 list \<Rightarrow> u32" where
  "ndr_charset_length var = of_nat (length var + 1)"

end
