(* ===== verification/NdrStringProps.thy ===== *)
theory NdrStringProps
  imports NdrString
begin

text \<open>
  Properties of the string types: readers stay inside their buffer and end, strings are read back
  as they were written, and the check of the terminator, which does not stay inside.
\<close>

section \<open>Readers stay inside the buffer\<close>

locale conversion =
  fixes conv :: conv_fun
  assumes returns: "conv a b src = ConvFail \<or> (\<exists>os. conv a b src = Conv os)"
    and no_source: "conv a b (Some []) = ConvFail"
begin

lemma stays_convert_here:
  assumes "good s" "unat (nl_offset s) + unat n \<le> unat (nl_size s)"
  shows "stays (convert_here conv ch n s) s"
  using assms returns [of ch CH_UNIX "Some (take (unat n) (drop (unat (nl_offset s)) (nl_data s)))"]
  by (auto simp: convert_here_def good_def pull_wf_def same_buffer_def)

lemma convert_here_same: "convert_here conv ch n s = NOk x t \<Longrightarrow> t = s"
  by (auto simp: convert_here_def ndr_error_def split: if_splits conv_talloc.splits)

lemma stays_convert_advance:
  assumes "good s" "unat (nl_offset s) + unat n \<le> unat (nl_size s)"
  shows "stays (convert_advance conv ch n s) s"
  unfolding convert_advance_def
proof (rule stays_bind)
  show "stays (convert_here conv ch n s) s" using assms by (rule stays_convert_here)
  show "stays (nseq (ndr_pull_advance n) (nret x) t) t" if "good t" for x t
    using that by (intro stays_seq stays_advance) simp_all
qed

lemma stays_need_convert: "good s \<Longrightarrow> stays (nseq (NDR_PULL_NEED_BYTES n) (convert_advance conv ch n) s) s"
proof (rule stays_seq)
  assume g: "good s"
  then show "stays (NDR_PULL_NEED_BYTES n s) s" by simp
  show "stays (convert_advance conv ch n t) t" if "NDR_PULL_NEED_BYTES n s = NOk x t" for x t
    using need_bytes_inside [OF g that] stays_convert_advance [OF g] by simp
qed

lemma stays_pull_text: "good s \<Longrightarrow> stays (pull_text conv ch e n s) s"
proof (cases e)
  case False
  assume "good s"
  then show ?thesis using stays_need_convert [of s n ch] False by (simp add: pull_text_def convert_advance_def)
next
  case True
  assume "good s"
  then show ?thesis using True unfolding pull_text_def by (auto intro!: stays_seq stays_bind stays_advance)
qed

end

lemma nullterm_len_inside:
  assumes "good s"
  shows "unat (nl_offset s) + unat (of_nat (nullterm_len m s) :: u32) \<le> unat (nl_size s)"
proof -
  have d: "unat (nl_size s - nl_offset s) = unat (nl_size s) - unat (nl_offset s)" "unat (nl_offset s) \<le> unat (nl_size s)"
    using assms by (simp_all add: good_def pull_wf_def word_le_nat_alt unat_sub_if')
  have "nullterm_len m s \<le> unat (nl_size s - nl_offset s)"
    by (simp add: nullterm_len_def Let_def ascii_len_n_le utf16_len_n_le)
  moreover have "unat (of_nat (nullterm_len m s) :: u32) \<le> nullterm_len m s" by (simp add: unsigned_of_nat)
  ultimately show ?thesis using d by linarith
qed

context conversion
begin

lemma stays_string_body: "good s \<Longrightarrow> stays (pull_string_body conv ch m f s) s"
proof -
  assume g: "good s"
  have nt: "stays (convert_advance conv ch (of_nat (nullterm_len m s)) s) s"
    using stays_convert_advance [OF g nullterm_len_inside [OF g]] .
  show ?thesis
    unfolding pull_string_body_def Let_def using g nt
    by (auto intro!: stays_bind stays_pull_text stays_need_convert)
qed

lemma stays_string: "good s \<Longrightarrow> stays (ndr_pull_string conv nf s) s"
  unfolding ndr_pull_string_def
  by (cases "string_charset (nl_flags s)") (auto simp: same_buffer_def intro!: stays_bind stays_string_body)

end

section \<open>Arrays of strings end\<close>

text \<open>A reader never moves back; one that returns a text that is not empty moves forward.\<close>

definition forward :: "('a, ndr_pull) ncall \<Rightarrow> bool" where
  "forward m \<longleftrightarrow> (\<forall>s x t. good s \<longrightarrow> m s = NOk x t \<longrightarrow> good t \<and> nl_size t = nl_size s \<and> nl_offset s \<le> nl_offset t)"

definition consumes :: "(u8 list, ndr_pull) ncall \<Rightarrow> bool" where
  "consumes m \<longleftrightarrow> (\<forall>s x t. good s \<longrightarrow> m s = NOk x t \<longrightarrow> x \<noteq> [] \<longrightarrow> nl_offset s < nl_offset t)"

lemma consumes_bind: "forward m \<Longrightarrow> (\<And>x. consumes (k x)) \<Longrightarrow> consumes (nbind m k)"
  unfolding consumes_def
proof (intro allI impI)
  fix s y t assume f: "forward m" and k: "\<And>x. \<forall>s y t. good s \<longrightarrow> k x s = NOk y t \<longrightarrow> y \<noteq> [] \<longrightarrow> nl_offset s < nl_offset t"
    and g: "good s" and r: "nbind m k s = NOk y t" "y \<noteq> []"
  obtain x u where u: "m s = NOk x u" "k x u = NOk y t" using nbind_NOk [OF r(1)] by blast
  have "good u" "nl_offset s \<le> nl_offset u" using f g u(1) unfolding forward_def by blast+
  then show "nl_offset s < nl_offset t" using k u(2) r(2) by (meson le_less_trans)
qed

lemma consumes_error: "consumes (ndr_error e)"
  by (simp add: consumes_def ndr_error_def)

lemma forward_seq: "forward m \<Longrightarrow> forward k \<Longrightarrow> forward (nseq m k)"
  unfolding forward_def [of "nseq m k"]
proof (intro allI impI)
  fix s y t assume f: "forward m" "forward k" and g: "good s" and r: "nseq m k s = NOk y t"
  obtain x u where u: "m s = NOk x u" "k u = NOk y t" using nbind_NOk [OF r [unfolded nseq_def]] by blast
  have "good u" "nl_size u = nl_size s" "nl_offset s \<le> nl_offset u" using f(1) g u(1) unfolding forward_def by blast+
  moreover have "good t" "nl_size t = nl_size u" "nl_offset u \<le> nl_offset t"
    using f(2) \<open>good u\<close> u(2) unfolding forward_def by blast+
  ultimately show "good t \<and> nl_size t = nl_size s \<and> nl_offset s \<le> nl_offset t" by simp
qed

lemma forward_align: "k < 31 \<Longrightarrow> forward (NDR_PULL_ALIGN (2 ^ k))"
  unfolding forward_def
proof (intro allI impI)
  fix s x t assume k: "k < 31" and g: "good s" and a: "NDR_PULL_ALIGN (2 ^ k) s = NOk x t"
  have st: "good t \<and> same_buffer s t" using stays_align [OF g, of "2 ^ k"] a by simp
  have "(2 :: nat) ^ k \<le> 2 ^ 31" using k by (intro power_increasing) auto
  moreover have "unat (nl_offset s) < 2 ^ 31" using g by (simp add: good_def pull_wf_def word_le_nat_alt)
  ultimately have "nl_offset s \<le> align_up (nl_offset s) (2 ^ k)"
    using align_up_pad(1) [of k "nl_offset s"] k by (simp add: word_le_nat_alt)
  then have "nl_offset s \<le> nl_offset t"
    using a g by (auto simp: NDR_PULL_ALIGN_def Let_def ndr_error_def good_def split: if_splits)
  then show "good t \<and> nl_size t = nl_size s \<and> nl_offset s \<le> nl_offset t" using st by (simp add: same_buffer_def)
qed

lemma forward_raw: "n < 2 ^ 31 \<Longrightarrow> forward (pull_raw n f)"
  unfolding forward_def
proof (intro allI impI)
  fix s x t assume n: "n < 2 ^ 31" and g: "good s" and a: "pull_raw n f s = NOk x t"
  have st: "good t \<and> same_buffer s t" using stays_pull_raw [OF g, of n f] a n by simp
  obtain y u where u: "NDR_PULL_NEED_BYTES (of_nat n) s = NOk y u" "load_here n f u = NOk x t"
    using a by (auto simp: pull_raw_def nseq_def dest!: nbind_NOk)
  have i: "u = s" "unat (nl_offset s) + n \<le> unat (nl_size s)"
    using need_bytes_inside [OF g u(1)] n by (simp_all add: unsigned_of_nat take_bit_nat_eq_self)
  have "nl_offset t = nl_offset s + of_nat n" using u(2) i(1) by (auto simp: load_here_def split: if_splits)
  then have "nl_offset s \<le> nl_offset t" using unat_offset_add(1) [of s n] g i(2) by (simp add: good_def word_le_nat_alt)
  then show "good t \<and> nl_size t = nl_size s \<and> nl_offset s \<le> nl_offset t" using st by (simp add: same_buffer_def)
qed

lemma forward_uint: "forward ndr_pull_uint16" "forward ndr_pull_uint32"
  unfolding ndr_pull_uint16_def ndr_pull_uint32_def
  by (intro forward_seq forward_align [of 1, simplified] forward_align [of 2, simplified] forward_raw; simp)+

context conversion
begin

lemma convert_advance_moves:
  assumes g: "good s" and i: "unat (nl_offset s) + unat n \<le> unat (nl_size s)" and r: "convert_advance conv ch n s = NOk x t"
  shows "nl_offset s < nl_offset t"
proof -
  obtain y u where u: "convert_here conv ch n s = NOk y u" "nseq (ndr_pull_advance n) (nret y) u = NOk x t"
    using r by (auto simp: convert_advance_def dest!: nbind_NOk)
  have us: "u = s" using convert_here_same [OF u(1)] .
  have "n \<noteq> 0" using u(1) by (auto simp: convert_here_def no_source ndr_error_def split: if_splits)
  then have "unat n \<noteq> 0" by (simp add: unat_eq_zero)
  moreover have "nl_offset t = nl_offset s + n"
    using u(2) us by (auto simp: ndr_pull_advance_def nseq_def nret_def ndr_error_def Let_def split: if_splits dest!: nbind_NOk)
  moreover have "unat (nl_offset s + n) = unat (nl_offset s) + unat n"
    using unat_offset_add(1) [of s "unat n"] g i by (simp add: good_def)
  ultimately show ?thesis by (simp add: word_less_nat_alt)
qed

lemma consumes_need: "consumes (nseq (NDR_PULL_NEED_BYTES n) (convert_advance conv ch n))"
  unfolding consumes_def
proof (intro allI impI)
  fix s x t assume g: "good s" and r: "nseq (NDR_PULL_NEED_BYTES n) (convert_advance conv ch n) s = NOk x t"
  obtain y u where u: "NDR_PULL_NEED_BYTES n s = NOk y u" "convert_advance conv ch n u = NOk x t"
    using r by (auto simp: nseq_def dest!: nbind_NOk)
  show "nl_offset s < nl_offset t" using need_bytes_inside [OF g u(1)] convert_advance_moves [OF g] u(2) by blast
qed

lemma consumes_pull_text: "consumes (pull_text conv ch e n)"
proof (cases e)
  case False
  then show ?thesis using consumes_need [of n ch] by (simp add: pull_text_def convert_advance_def)
next
  case True
  then show ?thesis by (auto simp: pull_text_def consumes_def nseq_def nret_def dest!: nbind_NOk)
qed

lemma consumes_nullterm: "consumes (\<lambda>s. convert_advance conv ch (of_nat (nullterm_len m s)) s)"
  unfolding consumes_def using convert_advance_moves nullterm_len_inside by blast

lemma consumes_body: "consumes (pull_string_body conv ch m f)"
  unfolding pull_string_body_def Let_def
  by (auto intro!: consumes_bind consumes_error consumes_pull_text consumes_need consumes_nullterm forward_uint)

lemma string_moves:
  assumes "good s" "ndr_pull_string conv NDR_SCALARS s = NOk (Some x) t" "x \<noteq> []"
  shows "nl_offset s < nl_offset t"
proof -
  obtain ch m f where sc: "string_charset (nl_flags s) = (ch, m, f)" by (cases "string_charset (nl_flags s)") auto
  then have "pull_string_body conv ch m f s = NOk x t"
    using assms(2) by (auto simp: ndr_pull_string_def nret_def dest!: nbind_NOk)
  then show ?thesis using consumes_body assms(1,3) by (auto simp: consumes_def)
qed

end

context conversion
begin

lemma stays_strings:
  "good s \<Longrightarrow> unat (nl_size s) - unat (nl_offset s) < n \<Longrightarrow> stays (pull_strings n conv s) s"
proof (induction n arbitrary: s)
  case (Suc n)
  show ?case unfolding pull_strings.simps
  proof (rule stays_bind)
    show "stays (ndr_pull_string conv NDR_SCALARS s) s" using Suc.prems(1) by (rule stays_string)
    fix x t assume x: "ndr_pull_string conv NDR_SCALARS s = NOk x t" and t: "good t" "same_buffer s t"
    show "stays ((case x of Some (c # cs) \<Rightarrow> nbind (pull_strings n conv) (\<lambda>xs. nret ((c # cs) # xs)) | _ \<Rightarrow> nret []) t) t"
    proof (cases "\<exists>c cs. x = Some (c # cs)")
      case True
      then obtain c cs where c: "x = Some (c # cs)" by blast
      have "nl_offset s < nl_offset t" using string_moves [OF Suc.prems(1)] x c by auto
      then have "unat (nl_size t) - unat (nl_offset t) < n"
        using Suc.prems t by (simp add: same_buffer_def good_def pull_wf_def word_less_nat_alt word_le_nat_alt)
      then have "stays (pull_strings n conv t) t" using Suc.IH t(1) by blast
      then show ?thesis unfolding c option.case list.case by (rule stays_bind) simp
    qed (use t(1) in \<open>auto split: option.split list.split\<close>)
  qed
qed simp

lemma stays_string_array: "good s \<Longrightarrow> stays (ndr_pull_string_array conv nf s) s"
  unfolding ndr_pull_string_array_def by (auto simp: same_buffer_def intro!: stays_bind stays_strings)

lemma stays_charset: "good s \<Longrightarrow> stays (ndr_pull_charset conv len m ch s) s"
  unfolding ndr_pull_charset_def Let_def by (auto simp: same_buffer_def intro!: stays_need_convert)

end

text \<open>The conversion of a configuration.\<close>

definition conv_of :: "conv_state \<Rightarrow> conv_fun" where
  "conv_of st a b src = fst (convert_string_talloc a b src st)"

lemma conv_of_conversion:
  assumes "conv_inv st"
  shows "conversion (conv_of st)"
proof
  fix a b src
  obtain d where d: "open_handle st a b = Handle d" "good_descriptor d" using open_handle_good [OF assms] by blast
  obtain st' where "get_conv_handle a b st = (Handle d, st')" using get_conv_handle_inv [OF assms, of a b] d(1) by auto
  moreover have "talloc_fuel = Suc 19" by (simp add: talloc_fuel_def)
  ultimately show "conv_of st a b src = ConvFail \<or> (\<exists>os. conv_of st a b src = Conv os)"
    using talloc_convert_good [OF d(2), of 19] by (auto simp: conv_of_def convert_string_talloc_def split: option.split)
  show "conv_of st a b (Some []) = ConvFail" by (simp add: conv_of_def convert_string_talloc_def)
qed

interpretation utf8_conv: conversion "conv_of utf8_state"
  by (rule conv_of_conversion [OF utf8_state_inv])

text \<open>Bounds: in every well-formed context, whatever its bytes, the readers of strings, of arrays of strings and
  of character arrays return a value or a status, for every flag, length and charset, and touch
  no byte outside the buffer; the loop over an array of strings ends.\<close>

theorem string_readers_in_bounds:
  assumes "conv_inv st" "good s"
  shows "ndr_pull_string (conv_of st) nf s \<noteq> NBad \<and> ndr_pull_string_array (conv_of st) nf s \<noteq> NBad \<and>
    ndr_pull_charset (conv_of st) len byte_mul ch s \<noteq> NBad"
  using conversion.stays_string [OF conv_of_conversion [OF assms(1)] assms(2), of nf]
    conversion.stays_string_array [OF conv_of_conversion [OF assms(1)] assms(2), of nf]
    conversion.stays_charset [OF conv_of_conversion [OF assms(1)] assms(2), of len byte_mul ch]
  by (auto simp: stays_def)

theorem string_readers_in_bounds_witness:
  "ndr_pull_string_array (conv_of utf8_state) 1 ((ndr_pull_init_blob [0x41, 0, 0x42])\<lparr>nl_flags := 0x40\<rparr>) \<noteq> NBad"
proof -
  have "good ((ndr_pull_init_blob [0x41, 0, 0x42])\<lparr>nl_flags := 0x40\<rparr>)"
    using init_pull_wf(2) [of "[0x41, 0, 0x42]" "0x40"] by (simp add: good_def)
  then show ?thesis using string_readers_in_bounds [OF utf8_state_inv] by blast
qed

section \<open>The check of the terminator\<close>

text \<open>The check of a string terminator leaves the buffer: the sum of the offset and the size wraps, so the
  size check passes for a length, taken from the wire, that moves the offset to the end of the
  address range, and two bytes 4 GB behind the start of the buffer are read.\<close>

theorem terminator_check_leaves_buffer:
  assumes "good s" "length (nl_data s) \<le> 2 ^ 31" "2 \<le> unat (nl_size s)" "nl_offset s + (count - 1) * 2 = 0xFFFFFFFE"
  shows "ndr_check_string_terminator count 2 s = NBad"
proof -
  let ?t = "s\<lparr>nl_offset := 0xFFFFFFFE\<rparr>"
  have "NDR_PULL_NEED_BYTES 2 ?t = NOk () ?t" using assms(3) by (simp add: NDR_PULL_NEED_BYTES_def word_less_nat_alt)
  moreover have "terminator_zero (nl_data ?t) (nl_offset ?t) (map of_nat [0..<unat (2 :: u32)]) = None"
    using assms(2) by (simp add: upt_rec)
  ultimately show ?thesis unfolding ndr_check_string_terminator_def Let_def assms(4)
    by (simp add: nseq_def nbind_def)
qed

theorem terminator_check_leaves_buffer_witness:
  "ndr_check_string_terminator 0x7FFFFFFC 2 ((ndr_pull_init_blob [0, 0, 0, 0, 0xFC, 0xFF, 0xFF, 0x7F, 0x41, 0])\<lparr>nl_offset := 8\<rparr>) = NBad"
proof (rule terminator_check_leaves_buffer)
  show "good ((ndr_pull_init_blob [0, 0, 0, 0, 0xFC, 0xFF, 0xFF, 0x7F, 0x41, 0])\<lparr>nl_offset := 8\<rparr>)"
    by (simp add: good_def pull_wf_def ndr_pull_init_blob_def)
qed (simp_all add: ndr_pull_init_blob_def)

section \<open>Strings are read back\<close>

lemma nseq_nret: "nseq m (nret ()) = m"
proof
  fix s show "nseq m (nret ()) s = m s" by (cases "m s") (auto simp: nseq_def nbind_def nret_def)
qed

lemma has_masked: "x AND LIBNDR_STRING_FLAGS = x \<Longrightarrow> has f x \<longleftrightarrow> has (f AND LIBNDR_STRING_FLAGS) x"
proof -
  assume "x AND LIBNDR_STRING_FLAGS = x"
  moreover have "(f AND LIBNDR_STRING_FLAGS) AND x = f AND (x AND LIBNDR_STRING_FLAGS)" by (simp only: ac_simps)
  ultimately show ?thesis unfolding has_def by simp
qed

text \<open>The layouts of a string: its length in units once or twice, an offset 0, its bytes.\<close>

definition string_items :: "u32 \<Rightarrow> u32 \<Rightarrow> u8 list \<Rightarrow> ndr_item list" where
  "string_items k c os =
     (if k = LIBNDR_FLAG_STR_LEN4 OR LIBNDR_FLAG_STR_SIZE4 then [Uint32 c, Uint32 0, Uint32 c, Bytes os]
      else if k = LIBNDR_FLAG_STR_LEN4 then [Uint32 0, Uint32 c, Bytes os] else [Uint32 c, Bytes os])"

definition string_layouts :: "u32 list" where
  "string_layouts = [LIBNDR_FLAG_STR_LEN4 OR LIBNDR_FLAG_STR_SIZE4, LIBNDR_FLAG_STR_LEN4, LIBNDR_FLAG_STR_SIZE4]"

lemma layout_flags:
  assumes "f AND LIBNDR_STRING_FLAGS \<in> set string_layouts"
  shows "\<not> has f LIBNDR_FLAG_STR_ASCII" "\<not> has f LIBNDR_FLAG_STR_UTF8" "\<not> has f LIBNDR_FLAG_STR_BYTESIZE" "\<not> has f LIBNDR_FLAG_STR_CHARLEN"
    "\<not> has f (LIBNDR_FLAG_STR_NOTERM OR LIBNDR_FLAG_STR_FIXLEN15 OR LIBNDR_FLAG_STR_FIXLEN32)"
  using assms has_masked [of LIBNDR_FLAG_STR_ASCII f] has_masked [of LIBNDR_FLAG_STR_UTF8 f] has_masked [of LIBNDR_FLAG_STR_BYTESIZE f]
    has_masked [of LIBNDR_FLAG_STR_CHARLEN f] has_masked [of "LIBNDR_FLAG_STR_NOTERM OR LIBNDR_FLAG_STR_FIXLEN15 OR LIBNDR_FLAG_STR_FIXLEN32" f]
  by (auto simp: has_def string_layouts_def)

lemma layout_clear:
  assumes "f AND LIBNDR_STRING_FLAGS \<in> set string_layouts" "\<forall>k \<in> set string_layouts. k AND NOT x = k"
  shows "(f AND NOT x) AND LIBNDR_STRING_FLAGS = f AND LIBNDR_STRING_FLAGS"
proof -
  have "(f AND NOT x) AND LIBNDR_STRING_FLAGS = (f AND LIBNDR_STRING_FLAGS) AND NOT x" by (simp only: ac_simps)
  then show ?thesis using assms by simp
qed

lemma string_charset_layout:
  assumes "fl AND LIBNDR_STRING_FLAGS \<in> set string_layouts"
  shows "string_charset fl = (if NDR_BE fl then CH_UTF16BE else CH_UTF16, 2, fl AND NOT LIBNDR_FLAG_STR_CONFORMANT)"
    "(fl AND NOT LIBNDR_FLAG_STR_CONFORMANT) AND LIBNDR_STRING_FLAGS = fl AND LIBNDR_STRING_FLAGS"
  using layout_flags [OF assms] layout_clear [OF assms, of "LIBNDR_FLAG_STR_CONFORMANT"]
  by (auto simp: string_charset_def string_layouts_def)

lemma push_string_items:
  assumes k: "np_flags s AND LIBNDR_STRING_FLAGS \<in> set string_layouts"
    and conv: "conv CH_UNIX (if NDR_BE (np_flags s) then CH_UTF16BE else CH_UTF16) (Some (txt @ [0])) = Conv os"
  shows "ndr_push_string conv NDR_SCALARS (Some txt) s =
    push_items (string_items (np_flags s AND LIBNDR_STRING_FLAGS) (of_nat (length os div 2)) os) s"
proof -
  let ?f = "np_flags s AND NOT LIBNDR_FLAG_STR_CONFORMANT"
  note sc = string_charset_layout [OF k]
  have kf: "?f AND LIBNDR_STRING_FLAGS \<in> set string_layouts" using k sc(2) by simp
  note fl = layout_flags [OF kf]
  have sw: "(?f AND LIBNDR_STRING_FLAGS) AND NOT LIBNDR_FLAG_STR_NOTERM = np_flags s AND LIBNDR_STRING_FLAGS"
    unfolding sc(2) using k by (auto simp: string_layouts_def)
  have c: "(word_of_int (int (length os) div 2) :: u32) = of_nat (length os div 2)"
  proof -
    have "int (length os) div 2 = int (length os div 2)" by (simp add: zdiv_int)
    then show ?thesis by (simp only: of_int_of_nat_eq)
  qed
  define f where "f = np_flags s AND NOT LIBNDR_FLAG_STR_CONFORMANT"
  have ff: "has f (LIBNDR_FLAG_STR_NOTERM OR LIBNDR_FLAG_STR_FIXLEN15 OR LIBNDR_FLAG_STR_FIXLEN32) = False"
    "has f LIBNDR_FLAG_STR_BYTESIZE = False" "has f LIBNDR_FLAG_STR_CHARLEN = False"
    "(f AND LIBNDR_STRING_FLAGS) AND NOT LIBNDR_FLAG_STR_NOTERM = np_flags s AND LIBNDR_STRING_FLAGS"
    using fl sw by (simp_all only: f_def simp_thms)
  have u: "uint (2 :: u32) = 2" "int (length os) = of_nat (length os)" by simp_all
  show ?thesis
    unfolding ndr_push_string_def sc(1) Let_def f_def [symmetric] prod.case option.map ff if_False conv conv_talloc.case u(1) c
    using k by (auto simp: string_layouts_def string_items_def nseq_nret)
qed

text \<open>What is next in the buffer, and reading a value in front of the rest.\<close>

definition next_items :: "ndr_item list \<Rightarrow> ndr_pull \<Rightarrow> bool" where
  "next_items is s \<longleftrightarrow> next_bytes (items_bytes (nl_flags s) (unat (nl_offset s)) is) s"

definition reads_from :: "('a, ndr_pull) ncall \<Rightarrow> 'a \<Rightarrow> ndr_item list \<Rightarrow> ndr_pull \<Rightarrow> bool" where
  "reads_from m x is s \<longleftrightarrow> reads m x (items_bytes (nl_flags s) (unat (nl_offset s)) is) s"

lemma reads_uint32_then:
  assumes nb: "next_items (Uint32 v # is) s"
    and k: "\<And>t. next_items is t \<Longrightarrow> nl_flags t = nl_flags s \<Longrightarrow> reads_from (k v) y is t"
  shows "reads_from (nbind ndr_pull_uint32 k) y (Uint32 v # is) s"
proof -
  let ?b = "item_bytes (nl_flags s) (unat (nl_offset s)) (Uint32 v)"
  note n = next_bytes_append [OF nb [unfolded next_items_def items_bytes.simps]]
  have "reads ndr_pull_uint32 v ?b s" unfolding ndr_pull_uint32_def item_bytes.simps
    by (rule reads_aligned [of s 2, simplified]) (use n(1) in \<open>auto simp: next_uint32\<close>)
  moreover have "reads_from (k v) y is (adv (length ?b) s)" using n(2,3) by (intro k) (simp_all add: next_items_def)
  ultimately show ?thesis using n(3) reads_bind [of ndr_pull_uint32 v ?b s k y] by (simp add: reads_from_def)
qed

lemma reads_text:
  assumes nb: "next_items [Bytes os] s" and c: "conv ch CH_UNIX (Some os) = Conv bs"
  shows "reads_from (pull_text conv ch False (of_nat (length os))) (c_string bs) [Bytes os] s"
proof -
  have nb: "next_bytes os s" using nb by (simp add: next_items_def)
  have l: "unat (of_nat (length os) :: u32) = length os" using nb unat_offset_add(2) by (auto simp: next_bytes_def)
  have t: "take (length os) (drop (unat (nl_offset s)) (nl_data s)) = os" using nb by (auto simp: next_bytes_def)
  have i: "unat (nl_offset s) + length os \<le> length (nl_data s)" using nb by (auto simp: next_bytes_def)
  have a: "ndr_pull_advance (of_nat (length os)) s = NOk () (adv (length os) s)"
    using nb unat_offset_add [of s "length os"]
    by (auto simp: next_bytes_def ndr_pull_advance_def adv_def word_less_nat_alt)
  show ?thesis using need_bytes_ok [OF nb] a
    by (simp add: reads_from_def reads_def pull_text_def nseq_def nbind_def nret_def convert_here_def l t i c)
qed

lemma units_bytes: "even (length os) \<Longrightarrow> (of_nat (length os div 2) + 0) * 2 = (of_nat (length os) :: u32)"
  by (metis add.right_neutral dvd_mult_div_cancel mult.commute of_nat_mult of_nat_numeral)

lemma pull_string_items:
  assumes k: "nl_flags s AND LIBNDR_STRING_FLAGS \<in> set string_layouts"
    and conv: "conv (if NDR_BE (nl_flags s) then CH_UTF16BE else CH_UTF16) CH_UNIX (Some os) = Conv bs"
    and os: "even (length os)" "os \<noteq> []" "length os < 2 ^ 32"
    and nb: "next_items (string_items (nl_flags s AND LIBNDR_STRING_FLAGS) (of_nat (length os div 2)) os) s"
  shows "reads_from (ndr_pull_string conv NDR_SCALARS) (Some (c_string bs))
    (string_items (nl_flags s AND LIBNDR_STRING_FLAGS) (of_nat (length os div 2)) os) s"
proof -
  define f where "f = nl_flags s AND NOT LIBNDR_FLAG_STR_CONFORMANT"
  define ch where "ch = (if NDR_BE (nl_flags s) then CH_UTF16BE else CH_UTF16)"
  define c where "c = (of_nat (length os div 2) :: u32)"
  note sc = string_charset_layout [OF k]
  have kf: "f AND LIBNDR_STRING_FLAGS \<in> set string_layouts" using k sc(2) by (simp add: f_def)
  have ff: "has f LIBNDR_FLAG_STR_CHARLEN = False" using layout_flags [OF kf] by simp
  have sw: "(f AND NOT LIBNDR_FLAG_STR_CHARLEN) AND LIBNDR_STRING_FLAGS = nl_flags s AND LIBNDR_STRING_FLAGS"
    using layout_clear [OF kf, of LIBNDR_FLAG_STR_CHARLEN] sc(2) by (simp add: string_layouts_def f_def)
  have c0: "c \<noteq> 0"
  proof
    assume "c = 0"
    moreover have "unat c = length os div 2" using os(3) by (simp add: c_def unsigned_of_nat take_bit_nat_eq_self)
    ultimately show False using os by (cases os) auto
  qed
  have n: "(c + 0) * 2 = of_nat (length os)" unfolding c_def using os(1) by (rule units_bytes)
  have rt: "reads_from (pull_text conv ch False ((c + 0) * 2)) (c_string bs) [Bytes os] t" if "next_items [Bytes os] t" for t
    unfolding n using that conv by (intro reads_text) (simp_all add: ch_def)
  have "reads_from (pull_string_body conv ch 2 f) (c_string bs)
      (string_items (nl_flags s AND LIBNDR_STRING_FLAGS) c os) s"
    using k nb rt c0 unfolding pull_string_body_def Let_def ff sw if_False string_layouts_def c_def [symmetric]
    by (auto simp: string_items_def intro!: reads_uint32_then)
  then show ?thesis
    unfolding reads_from_def ndr_pull_string_def reads_def sc(1) f_def ch_def c_def by (simp add: nbind_def nret_def)
qed

text \<open>The text on the wire: UTF-16 in the byte order of the context, with the terminator.\<close>

definition wire_text :: "u32 \<Rightarrow> u32 list \<Rightarrow> u8 list" where
  "wire_text fl cps = (if NDR_BE fl then swab (utf16 (cps @ [0])) else utf16 (cps @ [0]))"

definition wire_string :: "u32 \<Rightarrow> u32 list \<Rightarrow> u8 list" where
  "wire_string fl cps =
     items_bytes fl 0 (string_items (fl AND LIBNDR_STRING_FLAGS) (of_nat (length (wire_text fl cps) div 2)) (wire_text fl cps))"

lemma high_byte_nonzero: "bit (b :: u8) 7 \<Longrightarrow> 0 \<noteq> b"
  by (metis bit_0_eq bot_apply bot_bool_def)

lemma utf8_enc_nonzero: "cp \<noteq> 0 \<Longrightarrow> 0 \<notin> set (utf8_enc cp)"
proof (cases "cp < 0x80")
  case True
  assume "cp \<noteq> 0"
  moreover have "unat (ucast cp :: u8) = unat cp" using True
    by (simp add: unsigned_ucast_eq word_less_nat_alt take_bit_nat_eq_self)
  ultimately show ?thesis using True by (auto simp: utf8_enc_def) (metis unat_0 unsigned_0 unsigned_word_eqI)
next
  case False
  have "0 \<noteq> tail6 i cp" "0 \<noteq> (0xC0 OR x :: u8)" "0 \<noteq> (0xE0 OR x :: u8)" "0 \<noteq> (0xF0 OR x :: u8)" for i x
    by (rule high_byte_nonzero, simp add: tail6_def bit_simps)+
  then show ?thesis using False by (auto simp: utf8_enc_def)
qed

lemma c_string_utf8:
  assumes "0 \<notin> set cps"
  shows "c_string (utf8 (cps @ [0])) = utf8 cps"
proof -
  have "0 \<notin> set (utf8_enc cp)" if "cp \<in> set cps" for cp using assms that by (intro utf8_enc_nonzero) auto
  then have "0 \<notin> set (utf8 cps)" by (simp add: utf8_def)
  moreover have "utf8 (cps @ [0]) = utf8 cps @ [0]" by (simp add: utf8_def utf8_enc_def)
  ultimately show ?thesis by (auto simp: c_string_def takeWhile_append)
qed

lemma items_bytes_text: "length os \<le> length (items_bytes fl pos (string_items k c os))"
  by (auto simp: string_items_def)

lemma wire_conversions:
  assumes "conv_inv st" "cs_unix st = ''UTF8'' \<or> cs_unix st = ''UTF-8''" "list_all scalar cps"
    "NDR_BE fl \<longrightarrow> length (utf16 (cps @ [0])) \<le> 2048"
  shows "conv_of st CH_UNIX (if NDR_BE fl then CH_UTF16BE else CH_UTF16) (Some (utf8 cps @ [0])) = Conv (wire_text fl cps)"
    "conv_of st (if NDR_BE fl then CH_UTF16BE else CH_UTF16) CH_UNIX (Some (wire_text fl cps)) = Conv (utf8 (cps @ [0]))"
    "even (length (wire_text fl cps))" "wire_text fl cps \<noteq> []"
proof -
  have s: "list_all scalar (cps @ [0])" "cps @ [0] \<noteq> []" using assms(3) by (simp_all add: scalar_def)
  have u: "utf8 cps @ [0] = utf8 (cps @ [0])" by (simp add: utf8_def utf8_enc_def)
  note tc = text_conversions [OF assms(1,2) s]
  show "conv_of st CH_UNIX (if NDR_BE fl then CH_UTF16BE else CH_UTF16) (Some (utf8 cps @ [0])) = Conv (wire_text fl cps)"
    "conv_of st (if NDR_BE fl then CH_UTF16BE else CH_UTF16) CH_UNIX (Some (wire_text fl cps)) = Conv (utf8 (cps @ [0]))"
    using tc assms(4) unfolding u by (auto simp: conv_of_def wire_text_def)
  have e: "even (length (utf16 (cps @ [0])))" by (rule even_utf16)
  then show "even (length (wire_text fl cps))" by (simp add: wire_text_def length_swab)
  show "wire_text fl cps \<noteq> []" using e utf_nonempty [OF s(2)] length_swab [of "utf16 (cps @ [0])"] by (auto simp: wire_text_def)
qed

text \<open>C39. Strings over the wire: a text of Unicode characters is written by \<open>ndr_push_string\<close> as its
  length once or twice, the offset and its UTF-16 form with a terminator, in the byte order of the
  context, and \<open>ndr_pull_string\<close> reads just that text back and ends behind it, whatever follows.
  A text in big-endian order is limited to the conversion buffer.\<close>

theorem ndr_string_roundtrip:
  assumes "conv_inv st" "cs_unix st = ''UTF8'' \<or> cs_unix st = ''UTF-8''" "list_all scalar cps" "0 \<notin> set cps"
    "NDR_BE fl \<longrightarrow> length (utf16 (cps @ [0])) \<le> 2048" "fl AND LIBNDR_STRING_FLAGS \<in> set string_layouts"
    "length (wire_string fl cps @ tail) < 2 ^ 31"
  shows "(\<exists>t. nseq (ndr_push_string (conv_of st) NDR_SCALARS (Some (utf8 cps))) ndr_push_blob ((ndr_push_init_ctx fill)\<lparr>np_flags := fl\<rparr>) =
      NOk (wire_string fl cps) t) \<and>
    ndr_pull_string (conv_of st) NDR_SCALARS ((ndr_pull_init_blob (wire_string fl cps @ tail))\<lparr>nl_flags := fl\<rparr>) =
      NOk (Some (utf8 cps)) ((ndr_pull_init_blob (wire_string fl cps @ tail))\<lparr>nl_flags := fl, nl_offset := of_nat (length (wire_string fl cps))\<rparr>)"
proof -
  note wc = wire_conversions [OF assms(1-3,5)]
  let ?os = "wire_text fl cps" and ?s = "(ndr_push_init_ctx fill)\<lparr>np_flags := fl\<rparr>"
  let ?is = "string_items (fl AND LIBNDR_STRING_FLAGS) (of_nat (length ?os div 2)) ?os" and ?b = "wire_string fl cps"
  have "writes (push_items ?is) ?b ?s"
    using writes_items [OF init_wf, of fl fill ?is] assms(7) by (simp add: ndr_push_init_ctx_def wire_string_def)
  moreover have "marshalled ?s = []" by (simp add: marshalled_def ndr_push_init_ctx_def)
  ultimately obtain t where "push_items ?is ?s = NOk () t" "marshalled t = ?b" by (auto simp: writes_def pushed_def)
  moreover have "ndr_push_string (conv_of st) NDR_SCALARS (Some (utf8 cps)) ?s = push_items ?is ?s"
    using push_string_items [of ?s "conv_of st" "utf8 cps" ?os] wc(1) assms(6) by simp
  ultimately have w: "\<exists>t. nseq (ndr_push_string (conv_of st) NDR_SCALARS (Some (utf8 cps))) ndr_push_blob ?s = NOk ?b t"
    using push_blob_marshalled [of t] by (simp add: nseq_def nbind_def)
  let ?p = "(ndr_pull_init_blob (?b @ tail))\<lparr>nl_flags := fl\<rparr>"
  have o: "nl_offset ?p = 0" "nl_flags ?p = fl" by (simp_all add: ndr_pull_init_blob_def)
  have "next_bytes ?b ?p"
    using init_pull_wf [of "?b @ tail"] assms(7) by (simp add: next_bytes_def) (simp add: ndr_pull_init_blob_def)
  then have n: "next_items ?is ?p" using o by (simp add: next_items_def wire_string_def)
  have l: "length ?os < 2 ^ 32" using assms(7) items_bytes_text [of ?os fl 0 "fl AND LIBNDR_STRING_FLAGS" "of_nat (length ?os div 2)"]
    by (simp add: wire_string_def)
  have "reads_from (ndr_pull_string (conv_of st) NDR_SCALARS) (Some (utf8 cps)) ?is ?p"
    using pull_string_items [of ?p "conv_of st" ?os] wc l n assms(6) c_string_utf8 [OF assms(4)] o by simp
  then show ?thesis using w o by (simp add: reads_from_def reads_def adv_def wire_string_def)
qed

theorem ndr_string_roundtrip_witness:
  "\<exists>t u. nseq (ndr_push_string (conv_of utf8_state) NDR_SCALARS (Some [0x41, 0xC3, 0xA9])) ndr_push_blob ((ndr_push_init_ctx (\<lambda>_. 0xAA))\<lparr>np_flags := 0x18\<rparr>) =
      NOk [3, 0, 0, 0, 0, 0, 0, 0, 3, 0, 0, 0, 0x41, 0, 0xE9, 0, 0, 0] t \<and>
    ndr_pull_string (conv_of utf8_state) NDR_SCALARS
      ((ndr_pull_init_blob ([3, 0, 0, 0, 0, 0, 0, 0, 3, 0, 0, 0, 0x41, 0, 0xE9, 0, 0, 0] @ [9]))\<lparr>nl_flags := 0x18\<rparr>) = NOk (Some [0x41, 0xC3, 0xA9]) u"
proof -
  have b: "utf8 [0x41, 0xE9] = [0x41, 0xC3, 0xA9]"
    "wire_string 0x18 [0x41, 0xE9] = [3, 0, 0, 0, 0, 0, 0, 0, 3, 0, 0, 0, 0x41, 0, 0xE9, 0, 0, 0]" by code_simp+
  have p: "cs_unix utf8_state = ''UTF8'' \<or> cs_unix utf8_state = ''UTF-8''" "list_all scalar [0x41, 0xE9]" "0 \<notin> set [0x41, 0xE9 :: u32]"
    "NDR_BE 0x18 \<longrightarrow> length (utf16 ([0x41, 0xE9] @ [0])) \<le> 2048" "(0x18 :: u32) AND LIBNDR_STRING_FLAGS \<in> set string_layouts"
    by (simp_all add: utf8_state_def scalar_def NDR_BE_def string_layouts_def)
  have l: "length (wire_string 0x18 [0x41, 0xE9] @ [9]) < 2 ^ 31" unfolding b by simp
  from ndr_string_roundtrip [OF utf8_state_inv p l, of "\<lambda>_. 0xAA"] show ?thesis unfolding b by blast
qed

end
