(* ===== verification/DcerpcPdu.thy ===== *)
theory DcerpcPdu
  imports Ndr
begin

text \<open>
  Packets of the RPC runtime: the header fields that \<open>librpc/rpc/dcerpc.c\<close> sets and reads in a
  marshalled packet, signing and sealing of requests and the check of responses, and
  \<open>ncacn_push_auth\<close> of \<open>dcerpc_util.c\<close>. The marshalling functions of packets are generated
  from \<open>librpc/idl/dcerpc.idl\<close> and the functions of the security mechanism come from gensec: both
  are parameters.
\<close>

section \<open>Packets\<close>

abbreviation (input) "DCERPC_PKT_REQUEST \<equiv> (0 :: u8)"
abbreviation (input) "DCERPC_PKT_RESPONSE \<equiv> (2 :: u8)"
abbreviation (input) "DCERPC_PKT_FAULT \<equiv> (3 :: u8)"
abbreviation (input) "DCERPC_PKT_BIND \<equiv> (11 :: u8)"
abbreviation (input) "DCERPC_PKT_BIND_ACK \<equiv> (12 :: u8)"
abbreviation (input) "DCERPC_PKT_BIND_NAK \<equiv> (13 :: u8)"
abbreviation (input) "DCERPC_PKT_ALTER \<equiv> (14 :: u8)"
abbreviation (input) "DCERPC_PKT_ALTER_RESP \<equiv> (15 :: u8)"
abbreviation (input) "DCERPC_PKT_AUTH3 \<equiv> (16 :: u8)"
abbreviation (input) "DCERPC_PFC_FLAG_FIRST \<equiv> (1 :: u8)"
abbreviation (input) "DCERPC_PFC_FLAG_LAST \<equiv> (2 :: u8)"
abbreviation (input) "DCERPC_PFC_FLAG_ORPC \<equiv> (0x80 :: u8)"
abbreviation (input) "DCERPC_DREP_LE \<equiv> (0x10 :: u8)"
abbreviation (input) "DCERPC_REQUEST_LENGTH \<equiv> (24 :: nat)"
abbreviation (input) "DCERPC_MAX_SIGN_SIZE \<equiv> (32 :: nat)"
abbreviation (input) "DCERPC_AUTH_LEVEL_NONE \<equiv> (1 :: u8)"
abbreviation (input) "DCERPC_AUTH_LEVEL_CONNECT \<equiv> (2 :: u8)"
abbreviation (input) "DCERPC_AUTH_LEVEL_INTEGRITY \<equiv> (5 :: u8)"
abbreviation (input) "DCERPC_AUTH_LEVEL_PRIVACY \<equiv> (6 :: u8)"
abbreviation (input) "DCERPC_DEBUG_VALIDATE_IN \<equiv> (0x4 :: u32)"
abbreviation (input) "DCERPC_DEBUG_VALIDATE_OUT \<equiv> (0x8 :: u32)"
abbreviation (input) "DCERPC_CONNECT \<equiv> (0x10 :: u32)"
abbreviation (input) "DCERPC_SIGN \<equiv> (0x20 :: u32)"
abbreviation (input) "DCERPC_SEAL \<equiv> (0x40 :: u32)"
abbreviation (input) "DCERPC_PUSH_BIGENDIAN \<equiv> (0x80 :: u32)"
abbreviation (input) "DCERPC_PULL_BIGENDIAN \<equiv> (0x100 :: u32)"
abbreviation (input) "DCERPC_DEBUG_PAD_CHECK \<equiv> (0x2000 :: u32)"
abbreviation (input) "DCERPC_NDR_REF_ALLOC \<equiv> (0x4000 :: u32)"
abbreviation (input) "LIBNDR_FLAG_REF_ALLOC \<equiv> (0x100000 :: u32)"
abbreviation (input) "LIBNDR_FLAG_OBJECT_PRESENT \<equiv> (0x40000000 :: u32)"
abbreviation (input) "NT_STATUS_INFO_LENGTH_MISMATCH \<equiv> (0xC0000004 :: NTSTATUS)"
abbreviation (input) "NT_STATUS_INVALID_LEVEL \<equiv> (0xC0000148 :: NTSTATUS)"

text \<open>A GUID is the list of its bytes.\<close>

record dcerpc_syntax_id =
  si_uuid :: "u8 list"
  si_if_version :: u32

record dcerpc_auth =
  au_type :: u8
  au_level :: u8
  au_pad_length :: u8
  au_reserved :: u8
  au_context_id :: u32
  au_credentials :: "u8 list"

text \<open>
  The union of the payloads, as far as the runtime uses them. A list of contexts of a bind request
  has one element here; a result is the pair of result and reason.
\<close>

datatype dcerpc_payload =
    Request u32 u16 u16 "u8 list option" "u8 list"
  | Response "u8 list"
  | Fault u32
  | Bind u16 u16 u32 u16 dcerpc_syntax_id dcerpc_syntax_id
  | BindAck u16 u16 "(u16 \<times> u16) list" "u8 list"
  | BindNak u16
  | Auth3
  | OtherPayload

record ncacn_packet =
  pk_rpc_vers :: u8
  pk_rpc_vers_minor :: u8
  pk_ptype :: u8
  pk_pfc_flags :: u8
  pk_drep :: "u8 list"
  pk_auth_length :: u16
  pk_call_id :: u32
  pk_u :: dcerpc_payload

text \<open>
  The generated marshalling functions and the security mechanism. The functions of the mechanism
  are given the number of calls made to it before; sealing returns the sealed data and the
  signature. \<open>re_fill\<close> is what the allocator leaves in new memory.
\<close>

record rpc_codec =
  re_push_packet :: "ncacn_packet \<Rightarrow> (unit, ndr_push) ncall"
  re_pull_packet :: "(ncacn_packet, ndr_pull) ncall"
  re_push_auth :: "dcerpc_auth \<Rightarrow> (unit, ndr_push) ncall"
  re_pull_auth :: "(dcerpc_auth, ndr_pull) ncall"
  re_sig_size :: "nat \<Rightarrow> nat \<Rightarrow> nat"
  re_seal_packet :: "nat \<Rightarrow> u8 list \<Rightarrow> u8 list \<Rightarrow> NTSTATUS \<times> u8 list \<times> u8 list"
  re_sign_packet :: "nat \<Rightarrow> u8 list \<Rightarrow> u8 list \<Rightarrow> NTSTATUS \<times> u8 list"
  re_unseal_packet :: "nat \<Rightarrow> u8 list \<Rightarrow> u8 list \<Rightarrow> u8 list \<Rightarrow> NTSTATUS \<times> u8 list"
  re_check_packet :: "nat \<Rightarrow> u8 list \<Rightarrow> u8 list \<Rightarrow> u8 list \<Rightarrow> NTSTATUS"
  re_fill :: "nat \<Rightarrow> u8"

text \<open>The part of a connection that packets depend on.\<close>

record rpc_security =
  rs_flags :: u32
  rs_auth_info :: "dcerpc_auth option"
  rs_generic_state :: "nat option"

text \<open>The result of a function that returns a status; \<open>RBad\<close> is an access outside memory.\<close>

datatype 'a rpc_res = ROk 'a | RErr NTSTATUS | RBad

section \<open>Fields of a marshalled packet\<close>

definition store16 :: "nat \<Rightarrow> u8 list \<Rightarrow> u8 list \<Rightarrow> u8 list" where
  "store16 pos bs blob = take pos blob @ bs @ drop (pos + 2) blob"

text \<open>\<open>SSVAL\<close> or \<open>RSSVAL\<close> by the byte order the packet announces; None is outside the blob.\<close>

definition set_u16_field :: "nat \<Rightarrow> u8 list \<Rightarrow> u16 \<Rightarrow> u8 list option" where
  "set_u16_field pos blob v =
     (if length blob < pos + 2 \<or> length blob \<le> 4 then None
      else if blob ! 4 AND DCERPC_DREP_LE \<noteq> 0 then Some (store16 pos (SSVAL v) blob)
      else Some (store16 pos (rev (SSVAL v)) blob))"

definition dcerpc_set_frag_length :: "u8 list \<Rightarrow> u16 \<Rightarrow> u8 list option" where
  "dcerpc_set_frag_length = set_u16_field 8"

definition dcerpc_set_auth_length :: "u8 list \<Rightarrow> u16 \<Rightarrow> u8 list option" where
  "dcerpc_set_auth_length = set_u16_field 10"

definition dcerpc_get_frag_length :: "u8 list \<Rightarrow> u16 option" where
  "dcerpc_get_frag_length blob =
     (if length blob < 10 then None
      else if blob ! 4 AND DCERPC_DREP_LE \<noteq> 0 then Some (ucast (SVAL blob 8))
      else Some (ucast (SREV (SVAL blob 8))))"

definition ndr_pull_init_flags :: "u32 \<Rightarrow> u8 list \<Rightarrow> ndr_pull" where
  "ndr_pull_init_flags flags blob =
     (let f1 = (if flags AND DCERPC_DEBUG_PAD_CHECK \<noteq> 0 then LIBNDR_FLAG_PAD_CHECK else 0);
          f2 = (if flags AND DCERPC_NDR_REF_ALLOC \<noteq> 0 then f1 OR LIBNDR_FLAG_REF_ALLOC else f1)
      in (ndr_pull_init_blob blob)\<lparr>nl_flags := f2\<rparr>)"

definition with_order :: "bool \<Rightarrow> ndr_pull \<Rightarrow> ndr_pull" where
  "with_order big s = (if big then s\<lparr>nl_flags := nl_flags s OR LIBNDR_FLAG_BIGENDIAN\<rparr> else s)"

definition ncacn_pull :: "rpc_codec \<Rightarrow> u32 \<Rightarrow> u8 list \<Rightarrow> ncacn_packet rpc_res" where
  "ncacn_pull env flags blob =
     (if length blob \<le> 4 then RBad
      else case re_pull_packet env (with_order (blob ! 4 AND DCERPC_DREP_LE = 0) (ndr_pull_init_flags flags blob)) of
             NOk pkt _ \<Rightarrow> ROk pkt
           | NErr e _ \<Rightarrow> RErr e
           | NBad \<Rightarrow> RBad)"

definition init_ncacn_hdr :: "u32 \<Rightarrow> ncacn_packet \<Rightarrow> ncacn_packet" where
  "init_ncacn_hdr flags pkt =
     pkt\<lparr>pk_rpc_vers := 5, pk_rpc_vers_minor := 0,
         pk_drep := [if flags AND DCERPC_PUSH_BIGENDIAN \<noteq> 0 then 0 else DCERPC_DREP_LE, 0, 0, 0]\<rparr>"

text \<open>An uninitialised packet on the stack.\<close>

definition stack_packet :: ncacn_packet where
  "stack_packet = \<lparr>pk_rpc_vers = 0, pk_rpc_vers_minor = 0, pk_ptype = 0, pk_pfc_flags = 0, pk_drep = [], pk_auth_length = 0,
     pk_call_id = 0, pk_u = OtherPayload\<rparr>"

section \<open>Verifiers\<close>

definition dcerpc_connect_verifier :: "u8 list" where
  "dcerpc_connect_verifier = SIVAL 1 @ replicate 12 0"

definition dcerpc_check_connect_verifier :: "u8 list \<Rightarrow> NTSTATUS" where
  "dcerpc_check_connect_verifier blob =
     (if length blob \<noteq> 16 \<or> IVAL blob 0 \<noteq> 1 then NT_STATUS_ACCESS_DENIED else NT_STATUS_OK)"

definition push_ctx :: "rpc_codec \<Rightarrow> bool \<Rightarrow> u8 \<Rightarrow> ndr_push" where
  "push_ctx env big pfc_flags =
     (ndr_push_init_ctx (re_fill env))\<lparr>np_flags :=
        (if big then LIBNDR_FLAG_BIGENDIAN else 0) OR (if pfc_flags AND DCERPC_PFC_FLAG_ORPC \<noteq> 0 then LIBNDR_FLAG_OBJECT_PRESENT else 0)\<rparr>"

definition with_frag_length :: "u8 list \<Rightarrow> u8 list rpc_res" where
  "with_frag_length blob = (case dcerpc_set_frag_length blob (of_nat (length blob)) of None \<Rightarrow> RBad | Some b \<Rightarrow> ROk b)"

definition packet_blob :: "ndr_push \<Rightarrow> u8 list rpc_res" where
  "packet_blob s = (case ndr_push_blob s of NOk b _ \<Rightarrow> ROk b | NErr e _ \<Rightarrow> RErr e | NBad \<Rightarrow> RBad)"

definition rbind :: "'a rpc_res \<Rightarrow> ('a \<Rightarrow> 'b rpc_res) \<Rightarrow> 'b rpc_res" where
  "rbind m k = (case m of ROk x \<Rightarrow> k x | RErr e \<Rightarrow> RErr e | RBad \<Rightarrow> RBad)"

text \<open>The status of pushing the verifier is not looked at.\<close>

definition ncacn_push_auth :: "rpc_codec \<Rightarrow> ncacn_packet \<Rightarrow> dcerpc_auth option \<Rightarrow> u8 list rpc_res" where
  "ncacn_push_auth env pkt auth_info =
     (let pkt1 = pkt\<lparr>pk_auth_length := (case auth_info of Some a \<Rightarrow> of_nat (length (au_credentials a)) | None \<Rightarrow> 0)\<rparr> in
      case re_push_packet env pkt1 (push_ctx env (pk_drep pkt ! 0 AND DCERPC_DREP_LE = 0) (pk_pfc_flags pkt)) of
        NErr e _ \<Rightarrow> RErr e
      | NBad \<Rightarrow> RBad
      | NOk _ s \<Rightarrow>
          (case auth_info of
             None \<Rightarrow> rbind (packet_blob s) with_frag_length
           | Some a \<Rightarrow>
               (case re_push_auth env a s of
                  NBad \<Rightarrow> RBad
                | NOk _ t \<Rightarrow> rbind (packet_blob t) with_frag_length
                | NErr _ t \<Rightarrow> rbind (packet_blob t) with_frag_length)))"

section \<open>Signing and sealing a request\<close>

text \<open>The mechanism seals and unseals in place: what it returns is stored in the region it was given.\<close>

definition in_place :: "u8 list \<Rightarrow> u8 list \<Rightarrow> u8 list" where
  "in_place old new = take (length old) new @ drop (length new) old"

definition pad16 :: "nat \<Rightarrow> nat" where
  "pad16 n = (16 - n mod 16) mod 16"

text \<open>The credentials the verifier is first pushed with.\<close>

definition sign_credentials :: "rpc_codec \<Rightarrow> u8 \<Rightarrow> nat \<Rightarrow> nat \<Rightarrow> u8 list rpc_res" where
  "sign_credentials env level g payload_length =
     (if level = DCERPC_AUTH_LEVEL_PRIVACY \<or> level = DCERPC_AUTH_LEVEL_INTEGRITY
      then ROk (replicate (re_sig_size env g payload_length) 0)
      else if level = DCERPC_AUTH_LEVEL_CONNECT then ROk dcerpc_connect_verifier
      else if level = DCERPC_AUTH_LEVEL_NONE then ROk []
      else RErr NT_STATUS_INVALID_LEVEL)"

text \<open>Replace the credentials at the end by the signature and correct the lengths.\<close>

definition put_signature :: "nat \<Rightarrow> u8 list \<Rightarrow> u8 list \<Rightarrow> u8 list rpc_res" where
  "put_signature cred_len creds2 blob =
     (let blob2 = take (length blob - cred_len) blob @ creds2 in
      case dcerpc_set_auth_length blob2 (of_nat (length creds2)) of
        None \<Rightarrow> RBad
      | Some b3 \<Rightarrow>
          if cred_len = 0
          then (case dcerpc_get_frag_length b3 of
                  None \<Rightarrow> RBad
                | Some n \<Rightarrow> (case dcerpc_set_frag_length b3 (n + of_nat (length creds2)) of None \<Rightarrow> RBad | Some b4 \<Rightarrow> ROk b4))
          else ROk b3)"

text \<open>The mechanism's part: the blob, and whether the mechanism was called.\<close>

definition sign_blob :: "rpc_codec \<Rightarrow> u8 \<Rightarrow> nat \<Rightarrow> nat \<Rightarrow> nat \<Rightarrow> u8 list \<Rightarrow> u8 list rpc_res \<times> bool" where
  "sign_blob env level g payload_length cred_len blob =
     (let inside = DCERPC_REQUEST_LENGTH + payload_length \<le> length blob \<and> cred_len \<le> length blob;
          data = take payload_length (drop DCERPC_REQUEST_LENGTH blob);
          pdu = take (length blob - cred_len) blob
      in if level = DCERPC_AUTH_LEVEL_PRIVACY then
           (if \<not> inside then (RBad, True)
            else case re_seal_packet env g data pdu of
                   (st, data', creds2) \<Rightarrow>
                     (if \<not> NT_STATUS_IS_OK st then RErr st
                      else put_signature cred_len creds2
                             (take DCERPC_REQUEST_LENGTH blob @ in_place data data' @ drop (DCERPC_REQUEST_LENGTH + payload_length) blob), True))
         else if level = DCERPC_AUTH_LEVEL_INTEGRITY then
           (if \<not> inside then (RBad, True)
            else case re_sign_packet env g data pdu of
                   (st, creds2) \<Rightarrow> (if \<not> NT_STATUS_IS_OK st then RErr st else put_signature cred_len creds2 blob, True))
         else (ROk blob, False))"

definition ignore_status :: "('a, 's) nres \<Rightarrow> 's option" where
  "ignore_status r = (case r of NOk _ t \<Rightarrow> Some t | NErr _ t \<Rightarrow> Some t | NBad \<Rightarrow> None)"

definition stub_of :: "dcerpc_payload \<Rightarrow> u8 list option" where
  "stub_of u = (case u of Request _ _ _ _ stub \<Rightarrow> Some stub | Response stub \<Rightarrow> Some stub | _ \<Rightarrow> None)"

definition ncacn_push_request_sign :: "rpc_codec \<Rightarrow> ncacn_packet \<Rightarrow> rpc_security \<Rightarrow> u8 list rpc_res \<times> rpc_security" where
  "ncacn_push_request_sign env pkt c =
     (case (rs_auth_info c, rs_generic_state c) of
        (Some a, Some g) \<Rightarrow>
          (case re_push_packet env pkt (push_ctx env (rs_flags c AND DCERPC_PUSH_BIGENDIAN \<noteq> 0) (pk_pfc_flags pkt)) of
             NErr e _ \<Rightarrow> (RErr e, c)
           | NBad \<Rightarrow> (RBad, c)
           | NOk _ s \<Rightarrow>
               (case stub_of (pk_u pkt) of
                  None \<Rightarrow> (RBad, c)
                | Some stub \<Rightarrow>
                    (let pad = pad16 (length stub); payload_length = length stub + pad; a1 = a\<lparr>au_pad_length := of_nat pad\<rparr> in
                     case ignore_status (ndr_push_zero (of_nat pad) s) of
                       None \<Rightarrow> (RBad, c)
                     | Some s1 \<Rightarrow>
                         (case sign_credentials env (au_level a) g payload_length of
                            RErr e \<Rightarrow> (RErr e, c\<lparr>rs_auth_info := Some a1\<rparr>)
                          | RBad \<Rightarrow> (RBad, c)
                          | ROk creds \<Rightarrow>
                              (let a2 = a1\<lparr>au_credentials := creds\<rparr>; c2 = c\<lparr>rs_auth_info := Some a2\<rparr> in
                               case re_push_auth env a2 s1 of
                                 NErr e _ \<Rightarrow> (RErr e, c2)
                               | NBad \<Rightarrow> (RBad, c2)
                               | NOk _ s2 \<Rightarrow>
                                   (case rbind (rbind (packet_blob s2) with_frag_length)
                                           (\<lambda>b. case dcerpc_set_auth_length b (of_nat (length creds)) of None \<Rightarrow> RBad | Some b' \<Rightarrow> ROk b') of
                                      RErr e \<Rightarrow> (RErr e, c2)
                                    | RBad \<Rightarrow> (RBad, c2)
                                    | ROk blob \<Rightarrow>
                                        (case sign_blob env (au_level a) g payload_length (length creds) blob of
                                           (r, used) \<Rightarrow>
                                             (r, c2\<lparr>rs_generic_state := Some (if used then g + 1 else g),
                                                    rs_auth_info := Some (case r of ROk _ \<Rightarrow> a2\<lparr>au_credentials := []\<rparr> | _ \<Rightarrow> a2)\<rparr>))))))))
      | _ \<Rightarrow> (ncacn_push_auth env pkt (rs_auth_info c), c))"

section \<open>Checking a response\<close>

text \<open>The level's part: the status, the stub and whether the mechanism was called.\<close>

definition check_level :: "rpc_codec \<Rightarrow> u8 \<Rightarrow> nat \<Rightarrow> u8 list \<Rightarrow> u8 list \<Rightarrow> u8 list \<Rightarrow> (NTSTATUS \<times> u8 list \<times> bool) option" where
  "check_level env level g raw stub creds =
     (let pdu = take (length raw - length creds) raw in
      if level = DCERPC_AUTH_LEVEL_PRIVACY then
        (if length raw < DCERPC_REQUEST_LENGTH + length stub \<or> length raw < length creds then None
         else (let data = take (length stub) (drop DCERPC_REQUEST_LENGTH raw) in
               case re_unseal_packet env g data pdu creds of (st, data') \<Rightarrow> Some (st, in_place data data', True)))
      else if level = DCERPC_AUTH_LEVEL_INTEGRITY then
        (if length raw < length creds then None else Some (re_check_packet env g stub pdu creds, stub, True))
      else if level = DCERPC_AUTH_LEVEL_CONNECT then Some (dcerpc_check_connect_verifier creds, stub, False)
      else if level = DCERPC_AUTH_LEVEL_NONE then Some (NT_STATUS_OK, stub, False)
      else Some (NT_STATUS_INVALID_LEVEL, stub, False))"

text \<open>The status, the packet with the stub that is left, and the security state; None is \<open>RBad\<close>.\<close>

definition ncacn_pull_request_auth ::
    "rpc_codec \<Rightarrow> u8 list \<Rightarrow> ncacn_packet \<Rightarrow> rpc_security \<Rightarrow> (NTSTATUS \<times> ncacn_packet \<times> rpc_security) option" where
  "ncacn_pull_request_auth env raw pkt c =
     (case (rs_auth_info c, pk_u pkt) of
        (Some a, Response stub) \<Rightarrow>
          if pk_auth_length pkt = 0 \<and> au_level a = DCERPC_AUTH_LEVEL_CONNECT then Some (NT_STATUS_OK, pkt, c)
          else
            (let auth_len = 8 + unat (pk_auth_length pkt) in
             if length stub < auth_len then Some (NT_STATUS_INFO_LENGTH_MISMATCH, pkt, c)
             else
               (let auth_blob = drop (length stub - auth_len) stub; stub1 = take (length stub - auth_len) stub;
                    big = (pk_drep pkt ! 0 AND DCERPC_DREP_LE = 0); g = (case rs_generic_state c of Some n \<Rightarrow> n | None \<Rightarrow> 0)
                in case re_pull_auth env (with_order big (ndr_pull_init_flags (rs_flags c) auth_blob)) of
                     NBad \<Rightarrow> None
                   | NErr e _ \<Rightarrow> Some (e, pkt\<lparr>pk_u := Response stub1\<rparr>, c)
                   | NOk auth _ \<Rightarrow>
                       (case check_level env (au_level a) g raw stub1 (au_credentials auth) of
                          None \<Rightarrow> None
                        | Some (st, stub2, used) \<Rightarrow>
                            (let c1 = c\<lparr>rs_generic_state := Some (if used then g + 1 else g)\<rparr>; pad = unat (au_pad_length auth) in
                             if length stub2 < pad then Some (NT_STATUS_INFO_LENGTH_MISMATCH, pkt\<lparr>pk_u := Response stub2\<rparr>, c1)
                             else Some (st, pkt\<lparr>pk_u := Response (take (length stub2 - pad) stub2)\<rparr>, c1)))))
      | _ \<Rightarrow> None)"

end
