(* ===== verification/DList.thy ===== *)
theory DList
  imports WxPrelude
begin

text \<open>
  The doubly linked lists of \<open>lib/util/dlinklist.h\<close>. The fields \<open>next\<close> and \<open>prev\<close> of all
  elements are two functions on addresses, None is NULL; a list is the pointer to its first
  element. The macros are given that pointer and the links and return both.
\<close>

section \<open>The macros\<close>

record links =
  l_next :: "nat \<Rightarrow> nat option"
  l_prev :: "nat \<Rightarrow> nat option"

definition set_next :: "nat \<Rightarrow> nat option \<Rightarrow> links \<Rightarrow> links" where
  "set_next p q lk = lk\<lparr>l_next := (l_next lk)(p := q)\<rparr>"

definition set_prev :: "nat \<Rightarrow> nat option \<Rightarrow> links \<Rightarrow> links" where
  "set_prev p q lk = lk\<lparr>l_prev := (l_prev lk)(p := q)\<rparr>"

text \<open>An assignment through a pointer that is tested for NULL first.\<close>

definition opt_next :: "nat option \<Rightarrow> nat option \<Rightarrow> links \<Rightarrow> links" where
  "opt_next p q lk = (case p of None \<Rightarrow> lk | Some x \<Rightarrow> set_next x q lk)"

definition opt_prev :: "nat option \<Rightarrow> nat option \<Rightarrow> links \<Rightarrow> links" where
  "opt_prev p q lk = (case p of None \<Rightarrow> lk | Some x \<Rightarrow> set_prev x q lk)"

definition clear_links :: "nat \<Rightarrow> links \<Rightarrow> links" where
  "clear_links p lk = set_next p None (set_prev p None lk)"

definition DLIST_ADD :: "nat \<Rightarrow> nat option \<times> links \<Rightarrow> nat option \<times> links" where
  "DLIST_ADD p = (\<lambda>(l, lk).
     case l of
       None \<Rightarrow> (Some p, clear_links p lk)
     | Some x \<Rightarrow> (Some p, set_prev p None (set_next p (Some x) (set_prev x (Some p) lk))))"

definition DLIST_REMOVE :: "nat \<Rightarrow> nat option \<times> links \<Rightarrow> nat option \<times> links" where
  "DLIST_REMOVE p = (\<lambda>(l, lk).
     let (l1, lk1) =
       (if l = Some p then (l_next lk p, opt_prev (l_next lk p) None lk)
        else
          (let lk' = opt_next (l_prev lk p) (l_next lk p) lk
           in (l, opt_prev (l_next lk' p) (l_prev lk' p) lk')))
     in (l1, if l1 \<noteq> Some p then clear_links p lk1 else lk1))"

definition DLIST_PROMOTE :: "nat \<Rightarrow> nat option \<times> links \<Rightarrow> nat option \<times> links" where
  "DLIST_PROMOTE p = DLIST_ADD p \<circ> DLIST_REMOVE p"

text \<open>The last element; on a cyclic list the loop does not end.\<close>

partial_function (option) dl_last :: "(nat \<Rightarrow> nat option) \<Rightarrow> nat \<Rightarrow> nat option" where
  "dl_last nx t = (case nx t of None \<Rightarrow> Some t | Some u \<Rightarrow> dl_last nx u)"

definition DLIST_ADD_END :: "nat \<Rightarrow> nat option \<times> links \<Rightarrow> (nat option \<times> links) option" where
  "DLIST_ADD_END p = (\<lambda>(l, lk).
     case l of
       None \<Rightarrow> Some (Some p, clear_links p lk)
     | Some x \<Rightarrow>
         (case dl_last (l_next lk) x of
            None \<Rightarrow> None
          | Some t \<Rightarrow> Some (l, set_prev p (Some t) (set_next p None (set_next t (Some p) lk)))))"

definition DLIST_ADD_AFTER :: "nat \<Rightarrow> nat option \<Rightarrow> nat option \<times> links \<Rightarrow> nat option \<times> links" where
  "DLIST_ADD_AFTER p el = (\<lambda>(l, lk).
     case (l, el) of
       (Some _, Some e) \<Rightarrow>
         (let lk1 = set_next e (Some p) (set_next p (l_next lk e) (set_prev p (Some e) lk))
          in (l, opt_prev (l_next lk1 p) (Some p) lk1))
     | _ \<Rightarrow> DLIST_ADD p (l, lk))"

definition DLIST_DEMOTE :: "nat \<Rightarrow> nat option \<times> links \<Rightarrow> (nat option \<times> links) option" where
  "DLIST_DEMOTE p = DLIST_ADD_END p \<circ> DLIST_REMOVE p"

definition DLIST_CONCATENATE :: "nat option \<Rightarrow> nat option \<times> links \<Rightarrow> (nat option \<times> links) option" where
  "DLIST_CONCATENATE l2 = (\<lambda>(l, lk).
     case l of
       None \<Rightarrow> Some (l2, lk)
     | Some x \<Rightarrow>
         (case dl_last (l_next lk) x of
            None \<Rightarrow> None
          | Some t \<Rightarrow> Some (l, opt_prev l2 (Some t) (set_next t l2 lk))))"

section \<open>The lists they represent\<close>

definition first :: "nat list \<Rightarrow> nat option \<Rightarrow> nat option" where
  "first xs q = (case xs of [] \<Rightarrow> q | x # _ \<Rightarrow> Some x)"

lemma first_simps [simp]: "first [] q = q" "first (x # xs) q = Some x"
  by (simp_all add: first_def)

text \<open>The elements \<open>xs\<close> are linked both ways, between \<open>p\<close> and \<open>q\<close>.\<close>

fun dseg :: "links \<Rightarrow> nat option \<Rightarrow> nat list \<Rightarrow> nat option \<Rightarrow> bool" where
  "dseg lk p [] q = True"
| "dseg lk p (x # xs) q = (l_prev lk x = p \<and> l_next lk x = first xs q \<and> dseg lk (Some x) xs q)"

definition dlist :: "nat option \<times> links \<Rightarrow> nat list \<Rightarrow> bool" where
  "dlist = (\<lambda>(l, lk) xs. l = first xs None \<and> distinct xs \<and> dseg lk None xs None)"

definition final :: "nat option \<Rightarrow> nat list \<Rightarrow> nat option" where
  "final p xs = (if xs = [] then p else Some (last xs))"

lemma final_simps [simp]: "final p [] = p" "final p (xs @ [x]) = Some x" "final p (x # xs) = final (Some x) xs"
  by (simp_all add: final_def)

text \<open>Links outside a set of addresses are the same.\<close>

definition same_links :: "nat set \<Rightarrow> links \<Rightarrow> links \<Rightarrow> bool" where
  "same_links A lk lk' \<longleftrightarrow> (\<forall>x. x \<notin> A \<longrightarrow> l_next lk' x = l_next lk x \<and> l_prev lk' x = l_prev lk x)"

lemmas link_defs = set_next_def set_prev_def opt_next_def opt_prev_def clear_links_def

lemma first_append: "first (xs @ ys) q = first xs (first ys q)"
  by (cases xs) simp_all

lemma dseg_append: "dseg lk p (xs @ ys) q \<longleftrightarrow> dseg lk p xs (first ys q) \<and> dseg lk (final p xs) ys q"
  by (induction xs arbitrary: p) (auto simp: first_append)

lemma dseg_same: "same_links A lk lk' \<Longrightarrow> A \<inter> set xs = {} \<Longrightarrow> dseg lk p xs q \<Longrightarrow> dseg lk' p xs q"
  by (induction xs arbitrary: p) (auto simp: same_links_def)

lemma dlist_same: "same_links A lk lk' \<Longrightarrow> A \<inter> set xs = {} \<Longrightarrow> dlist (l, lk) xs \<Longrightarrow> dlist (l, lk') xs"
  by (auto simp: dlist_def intro: dseg_same)

text \<open>The pointer and the links determine the list.\<close>

lemma dseg_unique: "dseg lk p xs None \<Longrightarrow> dseg lk p ys None \<Longrightarrow> first xs None = first ys None \<Longrightarrow> xs = ys"
proof (induction xs arbitrary: p ys)
  case Nil
  then show ?case by (cases ys) auto
next
  case (Cons x xs)
  then show ?case by (cases ys) auto
qed

lemma dlist_unique: "dlist l xs \<Longrightarrow> dlist l ys \<Longrightarrow> xs = ys"
  by (cases l) (auto simp: dlist_def intro: dseg_unique)

text \<open>The last element may be given another successor, the first another predecessor.\<close>

lemma dseg_snoc: "dseg lk p (xs @ [x]) q \<longleftrightarrow> dseg lk p xs (Some x) \<and> l_prev lk x = final p xs \<and> l_next lk x = q"
  by (simp add: dseg_append)

lemma dseg_ends:
  assumes "dseg lk p xs q" "distinct xs"
    and "\<And>x. x \<in> set xs \<Longrightarrow> l_next lk' x = (if x = last xs then q' else l_next lk x)"
    and "\<And>x. x \<in> set xs \<Longrightarrow> l_prev lk' x = (if x = hd xs then p' else l_prev lk x)"
  shows "dseg lk' p' xs q'"
  using assms
proof (induction xs arbitrary: p p')
  case Nil
  then show ?case by simp
next
  case (Cons x xs)
  show ?case
  proof (cases xs)
    case Nil
    then show ?thesis using Cons.prems by simp
  next
    case (Cons y ys)
    have "dseg lk' (Some x) xs q'"
    proof (rule Cons.IH)
      show "dseg lk (Some x) xs q" "distinct xs" using Cons.prems(1,2) by simp_all
      show "l_next lk' z = (if z = last xs then q' else l_next lk z)" if "z \<in> set xs" for z
        using Cons.prems(3) [of z] that Cons by simp
      show "l_prev lk' z = (if z = hd xs then Some x else l_prev lk z)" if "z \<in> set xs" for z
        using Cons.prems(1,2) Cons.prems(4) [of z] that Cons by auto
    qed
    then show ?thesis using Cons.prems Cons by auto
  qed
qed

lemma dseg_last: "dseg lk p xs q \<Longrightarrow> xs \<noteq> [] \<Longrightarrow> l_next lk (last xs) = q"
  by (cases xs rule: rev_cases) (simp_all add: dseg_snoc)

lemma dl_last_dseg: "dseg lk p (x # xs) None \<Longrightarrow> dl_last (l_next lk) x = Some (last (x # xs))"
proof (induction xs arbitrary: p x)
  case Nil
  then show ?case by (simp add: dl_last.simps)
next
  case (Cons y ys)
  then show ?case using dl_last.simps [of "l_next lk" x] by simp
qed

text \<open>Updates elsewhere, and of the two ends.\<close>

lemma dseg_other [simp]:
  "x \<notin> set xs \<Longrightarrow> dseg (set_next x v lk) p xs q \<longleftrightarrow> dseg lk p xs q"
  "x \<notin> set xs \<Longrightarrow> dseg (set_prev x v lk) p xs q \<longleftrightarrow> dseg lk p xs q"
  "x \<notin> set xs \<Longrightarrow> dseg (clear_links x lk) p xs q \<longleftrightarrow> dseg lk p xs q"
  by (induction xs arbitrary: p) (auto simp: link_defs)

lemma dseg_new_prev: "dseg lk p xs q \<Longrightarrow> distinct xs \<Longrightarrow> dseg (opt_prev (first xs None) p' lk) p' xs q"
  by (cases xs) (auto simp: opt_prev_def, auto simp: set_prev_def)

lemma dseg_new_next: "dseg lk p xs q \<Longrightarrow> distinct xs \<Longrightarrow> xs \<noteq> [] \<Longrightarrow> dseg (set_next (last xs) q' lk) p xs q'"
  by (rule dseg_ends) (auto simp: set_next_def dseg_last, (cases xs; simp)+)

section \<open>What the macros do to the lists\<close>

lemma DLIST_ADD_rel:
  assumes "dlist (l, lk) xs" "p \<notin> set xs"
  shows "dlist (DLIST_ADD p (l, lk)) (p # xs)" "same_links (insert p (set xs)) lk (snd (DLIST_ADD p (l, lk)))"
proof -
  show "same_links (insert p (set xs)) lk (snd (DLIST_ADD p (l, lk)))"
    using assms(1) by (cases xs) (auto simp: DLIST_ADD_def dlist_def same_links_def link_defs)
  show "dlist (DLIST_ADD p (l, lk)) (p # xs)"
  proof (cases xs)
    case Nil
    then show ?thesis using assms by (simp add: DLIST_ADD_def dlist_def link_defs)
  next
    case (Cons x ys)
    let ?lk = "set_prev p None (set_next p (Some x) (set_prev x (Some p) lk))"
    have "dseg ?lk (Some p) xs None"
      by (rule dseg_ends [of lk None xs None]) (use assms Cons in \<open>auto simp: dlist_def link_defs dseg_last\<close>)
    then show ?thesis using assms Cons by (auto simp: DLIST_ADD_def dlist_def link_defs)
  qed
qed

lemma DLIST_ADD_END_rel:
  assumes "dlist (l, lk) xs" "p \<notin> set xs"
  shows "\<exists>l' lk'. DLIST_ADD_END p (l, lk) = Some (l', lk') \<and> dlist (l', lk') (xs @ [p]) \<and> same_links (insert p (set xs)) lk lk'"
proof (cases xs)
  case Nil
  then show ?thesis using assms by (simp add: DLIST_ADD_END_def dlist_def link_defs same_links_def)
next
  case (Cons x ys)
  let ?t = "last xs"
  let ?lk = "set_prev p (Some ?t) (set_next p None (set_next ?t (Some p) lk))"
  have t: "dl_last (l_next lk) x = Some ?t" using assms(1) Cons dl_last_dseg [of lk None x ys] by (simp add: dlist_def)
  have "dseg ?lk None xs (Some p)"
    by (rule dseg_ends [of lk None xs None]) (use assms Cons in \<open>auto simp: dlist_def link_defs\<close>)
  then have "dlist (l, ?lk) (xs @ [p])"
    using assms Cons by (auto simp: dlist_def dseg_snoc link_defs final_def first_append)
  moreover have "same_links (insert p (set xs)) lk ?lk" using Cons by (auto simp: same_links_def link_defs)
  moreover have "DLIST_ADD_END p (l, lk) = Some (l, ?lk)"
    using assms(1) Cons t by (simp add: DLIST_ADD_END_def dlist_def)
  ultimately show ?thesis by blast
qed

text \<open>Unlinking an element from its neighbours.\<close>

lemma unlink_dseg:
  assumes "dseg lk p (as @ x # bs) q" "distinct (as @ x # bs)"
    and "l_next lk' = (\<lambda>y. if as \<noteq> [] \<and> y = last as then first bs q else if y = x then None else l_next lk y)"
    and "l_prev lk' = (\<lambda>y. if bs \<noteq> [] \<and> y = hd bs then final p as else if y = x then None else l_prev lk y)"
  shows "dseg lk' p (as @ bs) q"
proof -
  have d: "dseg lk p as (Some x)" "dseg lk (Some x) bs q" using assms(1) by (simp_all add: dseg_append)
  have "dseg lk' p as (first bs q)"
  proof (rule dseg_ends [OF d(1)])
    show "distinct as" using assms(2) by simp
    show "l_next lk' y = (if y = last as then first bs q else l_next lk y)" if "y \<in> set as" for y
      using that assms(2,3) by auto
    show "l_prev lk' y = (if y = hd as then p else l_prev lk y)" if "y \<in> set as" for y
      using that assms(2,4) d(1) by (cases as) auto
  qed
  moreover have "dseg lk' (final p as) bs q"
  proof (rule dseg_ends [OF d(2)])
    show "distinct bs" using assms(2) by simp
    show "l_next lk' y = (if y = last bs then q else l_next lk y)" if "y \<in> set bs" for y
    proof -
      have "l_next lk (last bs) = q" using d(2) that by (intro dseg_last) auto
      moreover have "y \<notin> set as" "y \<noteq> x" using that assms(2) by auto
      moreover have "as = [] \<or> y \<noteq> last as" using \<open>y \<notin> set as\<close> by (metis last_in_set)
      ultimately show ?thesis using assms(3) by auto
    qed
    show "l_prev lk' y = (if y = hd bs then final p as else l_prev lk y)" if "y \<in> set bs" for y
      using that assms(2,4) by auto
  qed
  ultimately show ?thesis by (simp add: dseg_append)
qed

lemma dlist_middle:
  assumes "dlist (l, lk) (as @ x # bs)"
  shows "l_prev lk x = final None as" "l_next lk x = first bs None" "l = first as (Some x)"
  using assms by (auto simp: dlist_def dseg_append first_append)

lemma DLIST_REMOVE_links:
  assumes "dlist (l, lk) (as @ x # bs)"
  shows "fst (DLIST_REMOVE x (l, lk)) = first (as @ bs) None"
    "l_next (snd (DLIST_REMOVE x (l, lk))) = (\<lambda>y. if as \<noteq> [] \<and> y = last as then first bs None else if y = x then None else l_next lk y)"
    "l_prev (snd (DLIST_REMOVE x (l, lk))) = (\<lambda>y. if bs \<noteq> [] \<and> y = hd bs then final None as else if y = x then None else l_prev lk y)"
proof -
  note m = dlist_middle [OF assms]
  have d: "distinct (as @ x # bs)" using assms by (simp add: dlist_def)
  show "fst (DLIST_REMOVE x (l, lk)) = first (as @ bs) None"
    using m d by (cases as) (auto simp: DLIST_REMOVE_def Let_def first_append split: prod.splits)
  show "l_next (snd (DLIST_REMOVE x (l, lk))) = (\<lambda>y. if as \<noteq> [] \<and> y = last as then first bs None else if y = x then None else l_next lk y)"
    using m d by (cases as; cases bs) (auto simp: DLIST_REMOVE_def Let_def link_defs final_def fun_eq_iff)
  show "l_prev (snd (DLIST_REMOVE x (l, lk))) = (\<lambda>y. if bs \<noteq> [] \<and> y = hd bs then final None as else if y = x then None else l_prev lk y)"
    using m d by (cases as; cases bs) (auto simp: DLIST_REMOVE_def Let_def link_defs final_def fun_eq_iff)
qed

lemma DLIST_REMOVE_rel:
  assumes "dlist (l, lk) xs" "p \<in> set xs"
  shows "dlist (DLIST_REMOVE p (l, lk)) (remove1 p xs)" "same_links (set xs) lk (snd (DLIST_REMOVE p (l, lk)))"
    "l_next (snd (DLIST_REMOVE p (l, lk))) p = None" "l_prev (snd (DLIST_REMOVE p (l, lk))) p = None"
proof -
  obtain as bs where xs: "xs = as @ p # bs" "p \<notin> set as" using split_list_first [OF assms(2)] by blast
  have d: "distinct (as @ p # bs)" "dseg lk None (as @ p # bs) None" using assms(1) xs by (auto simp: dlist_def)
  note r = DLIST_REMOVE_links [OF assms(1) [unfolded xs(1)]]
  have "dseg (snd (DLIST_REMOVE p (l, lk))) None (as @ bs) None" by (rule unlink_dseg [OF d(2,1) r(2,3)])
  then show "dlist (DLIST_REMOVE p (l, lk)) (remove1 p xs)"
    using r(1) xs d(1) by (cases "DLIST_REMOVE p (l, lk)") (simp add: dlist_def remove1_append)
  show "same_links (set xs) lk (snd (DLIST_REMOVE p (l, lk)))" using r(2,3) xs by (auto simp: same_links_def)
  show "l_next (snd (DLIST_REMOVE p (l, lk))) p = None" using r(2) d(1) xs(2) by auto
  show "l_prev (snd (DLIST_REMOVE p (l, lk))) p = None" using r(3) d(1) by (cases bs) auto
qed

text \<open>Removing an element that is in no list changes nothing but its own links.\<close>

lemma DLIST_REMOVE_unlinked:
  assumes "l_next lk p = None" "l_prev lk p = None" "l \<noteq> Some p"
  shows "DLIST_REMOVE p (l, lk) = (l, lk)"
proof -
  have "(l_next lk)(p := None) = l_next lk" "(l_prev lk)(p := None) = l_prev lk" using assms(1,2) by (auto simp: fun_eq_iff)
  then show ?thesis using assms by (simp add: DLIST_REMOVE_def Let_def link_defs)
qed

text \<open>
  Removing the first element of another list: that list's pointer still leads to the element, and
  what followed it can no longer be reached from there.
\<close>

lemma DLIST_REMOVE_foreign_head:
  assumes "dlist (l, lk) (p # xs)" "m \<noteq> Some p"
  shows "\<exists>lk'. DLIST_REMOVE p (m, lk) = (m, lk') \<and> dlist (l, lk') [p] \<and> dlist (first xs None, lk') xs \<and>
    same_links (insert p (set xs)) lk lk'"
proof -
  have d: "l_prev lk p = None" "l_next lk p = first xs None" "l = Some p" "distinct (p # xs)" "dseg lk (Some p) xs None"
    using assms(1) by (auto simp: dlist_def)
  let ?lk = "clear_links p (opt_prev (first xs None) None lk)"
  have "DLIST_REMOVE p (m, lk) = (m, ?lk)"
    using assms(2) d(1,2) by (cases xs) (simp_all add: DLIST_REMOVE_def Let_def link_defs)
  moreover have "dseg ?lk None xs None" using d(4) dseg_new_prev [OF d(5)] by simp
  moreover have "same_links (insert p (set xs)) lk ?lk" by (cases xs) (auto simp: same_links_def link_defs)
  ultimately show ?thesis using d by (auto simp: dlist_def clear_links_def set_next_def set_prev_def)
qed

lemma DLIST_ADD_AFTER_rel:
  assumes "dlist (l, lk) (as @ e # bs)" "p \<notin> set (as @ e # bs)"
  shows "dlist (DLIST_ADD_AFTER p (Some e) (l, lk)) (as @ e # p # bs)"
proof -
  have d: "distinct (as @ e # bs)" "l = first as (Some e)" "dseg lk None as (Some e)" "l_prev lk e = final None as"
      "l_next lk e = first bs None" "dseg lk (Some e) bs None"
    using assms(1) by (auto simp: dlist_def dseg_append first_append)
  let ?lk = "opt_prev (first bs None) (Some p) (set_next e (Some p) (set_next p (first bs None) (set_prev p (Some e) lk)))"
  have ep: "e \<noteq> p" using assms(2) by auto
  have r: "DLIST_ADD_AFTER p (Some e) (l, lk) = (l, ?lk)"
    unfolding DLIST_ADD_AFTER_def d(5) [symmetric] using d(2) ep by (cases as) (simp_all add: Let_def set_next_def set_prev_def)
  have "same_links (insert e (insert p (set bs))) lk ?lk" by (cases bs) (auto simp: same_links_def link_defs)
  then have "dseg ?lk None as (Some e)" by (rule dseg_same) (use d(1,3) assms(2) in auto)
  moreover have "dseg ?lk (Some p) bs None"
    using d(1,6) assms(2) by (intro dseg_new_prev) auto
  moreover have "l_prev ?lk e = final None as" "l_next ?lk e = Some p" "l_prev ?lk p = Some e" "l_next ?lk p = first bs None"
    using d(1,4) ep assms(2) by (cases bs; simp add: link_defs)+
  ultimately show ?thesis unfolding r using d(1,2) assms(2) by (auto simp: dlist_def dseg_append first_append)
qed

lemma DLIST_CONCATENATE_rel:
  assumes "dlist (l, lk) xs" "dlist (m, lk) ys" "set xs \<inter> set ys = {}"
  shows "\<exists>r. DLIST_CONCATENATE m (l, lk) = Some r \<and> dlist r (xs @ ys)"
proof (cases xs)
  case Nil
  then show ?thesis using assms by (simp add: DLIST_CONCATENATE_def dlist_def)
next
  case (Cons x zs)
  have d: "dseg lk None xs None" "dseg lk None ys None" "distinct xs" "distinct ys" "m = first ys None"
    using assms by (auto simp: dlist_def)
  let ?lk = "opt_prev m (Some (last xs)) (set_next (last xs) m lk)"
  have "dl_last (l_next lk) x = Some (last xs)" using d(1) Cons dl_last_dseg [of lk None x zs] by simp
  then have r: "DLIST_CONCATENATE m (l, lk) = Some (l, ?lk)"
    using assms(1) Cons by (simp add: DLIST_CONCATENATE_def dlist_def)
  have l: "last xs \<notin> set ys" using assms(3) Cons last_in_set [of xs] by auto
  have ne: "xs \<noteq> []" using Cons by simp
  have "dseg ?lk (Some (last xs)) ys None" unfolding d(5) using d l by (intro dseg_new_prev) auto
  moreover have "dseg (set_next (last xs) m lk) None xs m" using d ne by (intro dseg_new_next)
  then have "dseg ?lk None xs m" using assms(3) d(5) by (cases ys) (auto simp: opt_prev_def)
  ultimately show ?thesis unfolding r using assms(1,3) d Cons
    by (auto simp: dlist_def dseg_append final_def first_append)
qed

section \<open>The contract\<close>

text \<open>
  What a user of such lists relies on: \<open>rel l h xs\<close> says that the list with the pointer \<open>l\<close> in
  the heap \<open>h\<close> holds \<open>xs\<close>, \<open>free x h\<close> that \<open>x\<close> is linked to nothing. Two lists without a
  common element do not affect each other.
\<close>

locale linked_lists =
  fixes rel :: "'l \<Rightarrow> 'h \<Rightarrow> 'a list \<Rightarrow> bool"
    and free :: "'a \<Rightarrow> 'h \<Rightarrow> bool"
    and add :: "'a \<Rightarrow> 'l \<times> 'h \<Rightarrow> 'l \<times> 'h"
    and add_end :: "'a \<Rightarrow> 'l \<times> 'h \<Rightarrow> ('l \<times> 'h) option"
    and remove :: "'a \<Rightarrow> 'l \<times> 'h \<Rightarrow> 'l \<times> 'h"
  assumes rel_distinct: "rel l h xs \<Longrightarrow> distinct xs"
    and add_rel: "rel l h xs \<Longrightarrow> rel m h ys \<Longrightarrow> set xs \<inter> set ys = {} \<Longrightarrow> x \<notin> set xs \<union> set ys \<Longrightarrow> add x (l, h) = (l', h') \<Longrightarrow>
      rel l' h' (x # xs) \<and> rel m h' ys \<and> (\<forall>z. z \<notin> insert x (set xs) \<longrightarrow> free z h \<longrightarrow> free z h')"
    and add_end_rel: "rel l h xs \<Longrightarrow> rel m h ys \<Longrightarrow> set xs \<inter> set ys = {} \<Longrightarrow> x \<notin> set xs \<union> set ys \<Longrightarrow>
      \<exists>l' h'. add_end x (l, h) = Some (l', h') \<and> rel l' h' (xs @ [x]) \<and> rel m h' ys \<and>
        (\<forall>z. z \<notin> insert x (set xs) \<longrightarrow> free z h \<longrightarrow> free z h')"
    and remove_rel: "rel l h xs \<Longrightarrow> rel m h ys \<Longrightarrow> set xs \<inter> set ys = {} \<Longrightarrow> x \<in> set xs \<Longrightarrow> remove x (l, h) = (l', h') \<Longrightarrow>
      rel l' h' (remove1 x xs) \<and> rel m h' ys \<and> free x h' \<and> (\<forall>z. z \<notin> set xs \<longrightarrow> free z h \<longrightarrow> free z h')"
    and remove_free: "rel l h xs \<Longrightarrow> x \<notin> set xs \<Longrightarrow> free x h \<Longrightarrow> remove x (l, h) = (l, h)"
begin

text \<open>Moving an element from one list to the front of another.\<close>

lemma move_to_front:
  assumes "rel l h xs" "rel m h ys" "set xs \<inter> set ys = {}" "x \<in> set xs"
    and "remove x (l, h) = (l1, h1)" "add x (m, h1) = (m2, h2)"
  shows "rel l1 h2 (remove1 x xs) \<and> rel m2 h2 (x # ys) \<and> (\<forall>z. z \<notin> set xs \<union> set ys \<longrightarrow> free z h \<longrightarrow> free z h2)"
proof -
  have 1: "rel l1 h1 (remove1 x xs)" "rel m h1 ys" "\<forall>z. z \<notin> set xs \<longrightarrow> free z h \<longrightarrow> free z h1"
    using remove_rel [OF assms(1-5)] by auto
  have d: "x \<notin> set ys \<union> set (remove1 x xs)" "set ys \<inter> set (remove1 x xs) = {}"
    using assms(3,4) rel_distinct [OF assms(1)] by (auto dest: notin_set_remove1)
  show ?thesis using add_rel [OF 1(2,1) d(2,1) assms(6)] 1(3) assms(4) by auto
qed

end

interpretation dll: linked_lists "\<lambda>l lk. dlist (l, lk)" "\<lambda>x lk. l_next lk x = None \<and> l_prev lk x = None" DLIST_ADD DLIST_ADD_END DLIST_REMOVE
proof
  fix l m l' :: "nat option" and h h' :: links and xs ys :: "nat list" and x :: nat
  show "distinct xs" if "dlist (l, h) xs" using that by (simp add: dlist_def)
  show "dlist (l', h') (x # xs) \<and> dlist (m, h') ys \<and>
      (\<forall>z. z \<notin> insert x (set xs) \<longrightarrow> l_next h z = None \<and> l_prev h z = None \<longrightarrow> l_next h' z = None \<and> l_prev h' z = None)"
    if "dlist (l, h) xs" "dlist (m, h) ys" "set xs \<inter> set ys = {}" "x \<notin> set xs \<union> set ys" "DLIST_ADD x (l, h) = (l', h')"
  proof -
    have a: "dlist (l', h') (x # xs)" "same_links (insert x (set xs)) h h'"
      using DLIST_ADD_rel [OF that(1), of x] that(4,5) by auto
    have "dlist (m, h') ys" by (rule dlist_same [OF a(2)]) (use that in auto)
    then show ?thesis using a by (auto simp: same_links_def)
  qed
  show "\<exists>l' h'. DLIST_ADD_END x (l, h) = Some (l', h') \<and> dlist (l', h') (xs @ [x]) \<and> dlist (m, h') ys \<and>
      (\<forall>z. z \<notin> insert x (set xs) \<longrightarrow> l_next h z = None \<and> l_prev h z = None \<longrightarrow> l_next h' z = None \<and> l_prev h' z = None)"
    if pre: "dlist (l, h) xs" "dlist (m, h) ys" "set xs \<inter> set ys = {}" "x \<notin> set xs \<union> set ys"
  proof -
    obtain l' h' where a: "DLIST_ADD_END x (l, h) = Some (l', h')" "dlist (l', h') (xs @ [x])" "same_links (insert x (set xs)) h h'"
      using DLIST_ADD_END_rel [OF pre(1), of x] pre(4) by auto
    have "dlist (m, h') ys" by (rule dlist_same [OF a(3)]) (use pre in auto)
    then show ?thesis using a by (auto simp: same_links_def)
  qed
  show "dlist (l', h') (remove1 x xs) \<and> dlist (m, h') ys \<and> (l_next h' x = None \<and> l_prev h' x = None) \<and>
      (\<forall>z. z \<notin> set xs \<longrightarrow> l_next h z = None \<and> l_prev h z = None \<longrightarrow> l_next h' z = None \<and> l_prev h' z = None)"
    if "dlist (l, h) xs" "dlist (m, h) ys" "set xs \<inter> set ys = {}" "x \<in> set xs" "DLIST_REMOVE x (l, h) = (l', h')"
  proof -
    have a: "dlist (l', h') (remove1 x xs)" "same_links (set xs) h h'" "l_next h' x = None" "l_prev h' x = None"
      using DLIST_REMOVE_rel [OF that(1,4)] that(5) by auto
    have "dlist (m, h') ys" by (rule dlist_same [OF a(2)]) (use that in auto)
    then show ?thesis using a by (auto simp: same_links_def)
  qed
  show "DLIST_REMOVE x (l, h) = (l, h)" if "dlist (l, h) xs" "x \<notin> set xs" "l_next h x = None \<and> l_prev h x = None"
    using that by (intro DLIST_REMOVE_unlinked) (auto simp: dlist_def first_def split: list.splits)
qed

end
