(* ===== verification/Dcerpc.thy ===== *)
theory Dcerpc
  imports DcerpcPdu DList
begin

text \<open>
  The client side of the RPC runtime, \<open>librpc/rpc/dcerpc.c\<close>, with the composite contexts of
  \<open>libcli/composite/composite.c\<close> it completes. Requests live on a heap of addresses; an access
  to a freed one is \<open>Undef\<close>. They are linked into the two lists of a connection, the requests
  waiting for a reply and those waiting to be sent. What the code asks of the transport and of the
  event library is recorded in the order of the calls. Allocation succeeds. Callbacks of the
  client are parameters.
\<close>

abbreviation (input) "NT_STATUS_NET_WRITE_FAULT \<equiv> (0xC00000D2 :: NTSTATUS)"
abbreviation (input) "NT_STATUS_IO_TIMEOUT \<equiv> (0xC00000B5 :: NTSTATUS)"
abbreviation (input) "NT_STATUS_UNEXPECTED_NETWORK_ERROR \<equiv> (0xC00000C4 :: NTSTATUS)"
abbreviation (input) "NT_STATUS_CONNECTION_DISCONNECTED \<equiv> (0xC000020C :: NTSTATUS)"
abbreviation (input) "NT_STATUS_RPC_UNSUPPORTED_NAME_SYNTAX \<equiv> (0xC0020026 :: NTSTATUS)"
abbreviation (input) "DCERPC_BIND_REASON_ASYNTAX \<equiv> (1 :: u16)"
abbreviation (input) "DCERPC_BIND_REASON_INVALID_AUTH_TYPE \<equiv> (8 :: u16)"
abbreviation (input) "DCERPC_FAULT_OTHER \<equiv> (1 :: u32)"
abbreviation (input) "DCERPC_FAULT_ACCESS_DENIED \<equiv> (5 :: u32)"
abbreviation (input) "DCERPC_REQUEST_TIMEOUT \<equiv> (60 :: u32)"

section \<open>State\<close>

datatype rpc_request_state = RPC_REQUEST_PENDING | RPC_REQUEST_DONE
datatype recv_handler = NoHandler | BindHandler | AlterHandler
datatype request_callback = NoCallback | CompositeFail nat | Client

record rpc_request =
  rr_pipe :: nat
  rr_status :: NTSTATUS
  rr_call_id :: u32
  rr_state :: rpc_request_state
  rr_payload :: "u8 list"
  rr_flags :: u32
  rr_fault_code :: u32
  rr_recv_handler :: recv_handler
  rr_object :: "u8 list option"
  rr_opnum :: u16
  rr_request_data :: "u8 list"
  rr_async_call :: bool
  rr_callback :: request_callback

record dcerpc_pipe =
  dp_context_id :: u32
  dp_syntax :: dcerpc_syntax_id
  dp_transfer_syntax :: dcerpc_syntax_id
  dp_last_fault_code :: u32
  dp_request_timeout :: u32

record dcerpc_connection =
  dc_call_id :: u32
  dc_srv_max_xmit_frag :: u32
  dc_srv_max_recv_frag :: u32
  dc_security :: rpc_security
  dc_pending :: "nat option"
  dc_request_queue :: "nat option"

datatype composite_state = COMPOSITE_STATE_INIT | COMPOSITE_STATE_IN_PROGRESS | COMPOSITE_STATE_DONE | COMPOSITE_STATE_ERROR

record composite_context =
  cx_state :: composite_state
  cx_pipe :: nat
  cx_status :: NTSTATUS
  cx_has_fn :: bool
  cx_used_wait :: bool

text \<open>Requests to the transport and the event library, and calls of the client.\<close>

datatype rpc_act = SendRequest "u8 list" bool | SendRead | RequestTimer nat | TriggerTimer nat | ClientCallback nat | CompositeFn nat

record dstate =
  ds_conn :: dcerpc_connection
  ds_pipes :: "nat \<Rightarrow> dcerpc_pipe"
  ds_reqs :: "nat \<Rightarrow> rpc_request option"
  ds_links :: links
  ds_comps :: "nat \<Rightarrow> composite_context option"
  ds_next :: nat
  ds_acts :: "rpc_act list"

text \<open>
  The environment: the codec, the answers of the transport (the number of calls before is an
  argument), the client's callbacks, what a packet on the stack holds when reading it has failed,
  and the fuel of the loops.
\<close>

record rpc_env =
  ev_codec :: rpc_codec
  ev_send_request :: "nat \<Rightarrow> u8 list \<Rightarrow> bool \<Rightarrow> NTSTATUS"
  ev_callback :: "nat \<Rightarrow> dstate \<Rightarrow> dstate"
  ev_composite_fn :: "nat \<Rightarrow> dstate \<Rightarrow> dstate"
  ev_junk :: ncacn_packet
  ev_fuel :: nat

type_synonym 'a rcall = "dstate \<Rightarrow> ('a, dstate) res"

definition act :: "rpc_act \<Rightarrow> dstate \<Rightarrow> dstate" where
  "act a s = s\<lparr>ds_acts := ds_acts s @ [a]\<rparr>"

definition with_req :: "nat \<Rightarrow> dstate \<Rightarrow> (rpc_request \<Rightarrow> ('a, dstate) res) \<Rightarrow> ('a, dstate) res" where
  "with_req p s k = (case ds_reqs s p of None \<Rightarrow> Undef | Some r \<Rightarrow> k r)"

definition upd_req :: "nat \<Rightarrow> (rpc_request \<Rightarrow> rpc_request) \<Rightarrow> dstate \<Rightarrow> dstate" where
  "upd_req p f s = s\<lparr>ds_reqs := (ds_reqs s)(p := map_option f (ds_reqs s p))\<rparr>"

definition upd_conn :: "(dcerpc_connection \<Rightarrow> dcerpc_connection) \<Rightarrow> dstate \<Rightarrow> dstate" where
  "upd_conn f s = s\<lparr>ds_conn := f (ds_conn s)\<rparr>"

definition pending_list :: "dstate \<Rightarrow> nat option \<times> links" where
  "pending_list s = (dc_pending (ds_conn s), ds_links s)"

definition queue_list :: "dstate \<Rightarrow> nat option \<times> links" where
  "queue_list s = (dc_request_queue (ds_conn s), ds_links s)"

definition set_pending :: "nat option \<times> links \<Rightarrow> dstate \<Rightarrow> dstate" where
  "set_pending q s = (upd_conn (\<lambda>c. c\<lparr>dc_pending := fst q\<rparr>) s)\<lparr>ds_links := snd q\<rparr>"

definition set_queue :: "nat option \<times> links \<Rightarrow> dstate \<Rightarrow> dstate" where
  "set_queue q s = (upd_conn (\<lambda>c. c\<lparr>dc_request_queue := fst q\<rparr>) s)\<lparr>ds_links := snd q\<rparr>"

definition pending_remove :: "nat \<Rightarrow> dstate \<Rightarrow> dstate" where
  "pending_remove p s = set_pending (DLIST_REMOVE p (pending_list s)) s"

definition pending_add :: "nat \<Rightarrow> dstate \<Rightarrow> dstate" where
  "pending_add p s = set_pending (DLIST_ADD p (pending_list s)) s"

definition pending_add_end :: "nat \<Rightarrow> unit rcall" where
  "pending_add_end p s = (case DLIST_ADD_END p (pending_list s) of None \<Rightarrow> Hang | Some q \<Rightarrow> Ret () (set_pending q s))"

definition queue_remove :: "nat \<Rightarrow> dstate \<Rightarrow> dstate" where
  "queue_remove p s = set_queue (DLIST_REMOVE p (queue_list s)) s"

definition queue_add_end :: "nat \<Rightarrow> unit rcall" where
  "queue_add_end p s = (case DLIST_ADD_END p (queue_list s) of None \<Rightarrow> Hang | Some q \<Rightarrow> Ret () (set_queue q s))"

section \<open>Composite contexts\<close>

definition composite_create :: "nat \<Rightarrow> dstate \<Rightarrow> nat \<times> dstate" where
  "composite_create pipe s =
     (ds_next s, s\<lparr>ds_comps := (ds_comps s)(ds_next s \<mapsto> \<lparr>cx_state = COMPOSITE_STATE_IN_PROGRESS, cx_pipe = pipe,
        cx_status = NT_STATUS_OK, cx_has_fn = False, cx_used_wait = False\<rparr>), ds_next := ds_next s + 1\<rparr>)"

definition upd_comp :: "nat \<Rightarrow> (composite_context \<Rightarrow> composite_context) \<Rightarrow> dstate \<Rightarrow> dstate" where
  "upd_comp c f s = s\<lparr>ds_comps := (ds_comps s)(c := map_option f (ds_comps s c))\<rparr>"

definition composite_fn :: "rpc_env \<Rightarrow> nat \<Rightarrow> composite_context \<Rightarrow> dstate \<Rightarrow> dstate" where
  "composite_fn env c x s = (if cx_has_fn x then ev_composite_fn env c (act (CompositeFn c) s) else s)"

definition composite_is_ok :: "rpc_env \<Rightarrow> nat \<Rightarrow> bool rcall" where
  "composite_is_ok env c s =
     (case ds_comps s c of
        None \<Rightarrow> Undef
      | Some x \<Rightarrow>
          if NT_STATUS_IS_OK (cx_status x) then Ret True s
          else Ret False (composite_fn env c x (upd_comp c (\<lambda>x. x\<lparr>cx_state := COMPOSITE_STATE_ERROR\<rparr>) s)))"

text \<open>A context that is completed before the client could install its function gets a timer.\<close>

definition trigger :: "nat \<Rightarrow> composite_context \<Rightarrow> dstate \<Rightarrow> dstate" where
  "trigger c x s = (if \<not> cx_used_wait x \<and> \<not> cx_has_fn x then act (TriggerTimer c) s else s)"

definition composite_error :: "rpc_env \<Rightarrow> nat \<Rightarrow> NTSTATUS \<Rightarrow> unit rcall" where
  "composite_error env c st s =
     (case ds_comps s c of
        None \<Rightarrow> Undef
      | Some x \<Rightarrow>
          bindr (composite_is_ok env c (upd_comp c (\<lambda>x. x\<lparr>cx_status := st\<rparr>) (trigger c x s)))
            (\<lambda>ok t. if ok then Undef else Ret () t))"

definition composite_done :: "rpc_env \<Rightarrow> nat \<Rightarrow> unit rcall" where
  "composite_done env c s =
     (case ds_comps s c of
        None \<Rightarrow> Undef
      | Some x \<Rightarrow> Ret () (composite_fn env c x (upd_comp c (\<lambda>x. x\<lparr>cx_state := COMPOSITE_STATE_DONE\<rparr>) (trigger c x s))))"

text \<open>The timer that \<open>composite_done\<close> and \<open>composite_error\<close> start.\<close>

definition composite_trigger :: "rpc_env \<Rightarrow> nat \<Rightarrow> unit rcall" where
  "composite_trigger env c s = (case ds_comps s c of None \<Rightarrow> Undef | Some x \<Rightarrow> Ret () (composite_fn env c x s))"

definition comp_finished :: "composite_context \<Rightarrow> bool" where
  "comp_finished x = (cx_state x = COMPOSITE_STATE_DONE \<or> cx_state x = COMPOSITE_STATE_ERROR)"

text \<open>The client's continuation of a context or of a request.\<close>

definition composite_continue :: "nat \<Rightarrow> unit rcall" where
  "composite_continue c s =
     (case ds_comps s c of
        None \<Rightarrow> Undef
      | Some x \<Rightarrow>
          (let s1 = upd_comp c (\<lambda>x. x\<lparr>cx_has_fn := True\<rparr>) s in
           Ret () (if comp_finished x then act (TriggerTimer c) s1 else s1)))"

definition composite_continue_rpc :: "nat \<Rightarrow> unit rcall" where
  "composite_continue_rpc p s = with_req p s (\<lambda>_. Ret () (upd_req p (\<lambda>r. r\<lparr>rr_callback := Client\<rparr>) s))"

section \<open>Connections\<close>

definition dcerpc_connection_init :: dcerpc_connection where
  "dcerpc_connection_init = \<lparr>dc_call_id = 1, dc_srv_max_xmit_frag = 0, dc_srv_max_recv_frag = 0,
     dc_security = \<lparr>rs_flags = 0, rs_auth_info = None, rs_generic_state = None\<rparr>, dc_pending = None, dc_request_queue = None\<rparr>"

definition dcerpc_pipe_init :: dcerpc_pipe where
  "dcerpc_pipe_init = \<lparr>dp_context_id = 0, dp_syntax = \<lparr>si_uuid = replicate 16 0, si_if_version = 0\<rparr>,
     dp_transfer_syntax = \<lparr>si_uuid = replicate 16 0, si_if_version = 0\<rparr>, dp_last_fault_code = 0,
     dp_request_timeout = DCERPC_REQUEST_TIMEOUT\<rparr>"

definition initial_dstate :: "links \<Rightarrow> dstate" where
  "initial_dstate junk = \<lparr>ds_conn = dcerpc_connection_init, ds_pipes = \<lambda>_. dcerpc_pipe_init, ds_reqs = \<lambda>_. None, ds_links = junk,
     ds_comps = \<lambda>_. None, ds_next = 0, ds_acts = []\<rparr>"

definition next_call_id :: "dcerpc_connection \<Rightarrow> u32 \<times> dcerpc_connection" where
  "next_call_id c =
     (let i = dc_call_id c + 1; j = (if i = 0 then i + 1 else i) in (j, c\<lparr>dc_call_id := j\<rparr>))"

definition dcerpc_auth_level :: "u32 \<Rightarrow> u32" where
  "dcerpc_auth_level flags =
     (if flags AND DCERPC_SEAL \<noteq> 0 then ucast DCERPC_AUTH_LEVEL_PRIVACY
      else if flags AND DCERPC_SIGN \<noteq> 0 then ucast DCERPC_AUTH_LEVEL_INTEGRITY
      else if flags AND DCERPC_CONNECT \<noteq> 0 then ucast DCERPC_AUTH_LEVEL_CONNECT
      else ucast DCERPC_AUTH_LEVEL_NONE)"

definition dcerpc_map_reason :: "u16 \<Rightarrow> NTSTATUS" where
  "dcerpc_map_reason reason =
     (if reason = DCERPC_BIND_REASON_ASYNTAX then NT_STATUS_RPC_UNSUPPORTED_NAME_SYNTAX
      else if reason = DCERPC_BIND_REASON_INVALID_AUTH_TYPE then NT_STATUS_INVALID_PARAMETER
      else NT_STATUS_UNSUCCESSFUL)"

text \<open>\<open>req->async.callback(req)\<close>; \<open>dcerpc_composite_fail\<close> is the callback of a bind.\<close>

definition dcerpc_composite_fail :: "rpc_env \<Rightarrow> nat \<Rightarrow> rpc_request \<Rightarrow> unit rcall" where
  "dcerpc_composite_fail env c r = composite_error env c (rr_status r)"

definition call_callback :: "rpc_env \<Rightarrow> nat \<Rightarrow> unit rcall" where
  "call_callback env p s = with_req p s
     (\<lambda>r. case rr_callback r of
            NoCallback \<Rightarrow> Ret () s
          | CompositeFail c \<Rightarrow> dcerpc_composite_fail env c r s
          | Client \<Rightarrow> Ret () (ev_callback env p (act (ClientCallback p) s)))"

fun dead_loop :: "nat \<Rightarrow> rpc_env \<Rightarrow> NTSTATUS \<Rightarrow> unit rcall" where
  "dead_loop 0 env st s = (case dc_pending (ds_conn s) of None \<Rightarrow> Ret () s | Some _ \<Rightarrow> Hang)"
| "dead_loop (Suc n) env st s =
     (case dc_pending (ds_conn s) of
        None \<Rightarrow> Ret () s
      | Some p \<Rightarrow> with_req p s
          (\<lambda>_. andr (call_callback env p (pending_remove p (upd_req p (\<lambda>r. r\<lparr>rr_state := RPC_REQUEST_DONE, rr_status := st\<rparr>) s)))
                 (dead_loop n env st)))"

definition dcerpc_connection_dead :: "rpc_env \<Rightarrow> NTSTATUS \<Rightarrow> unit rcall" where
  "dcerpc_connection_dead env st = dead_loop (ev_fuel env) env st"

section \<open>Sending\<close>

text \<open>
  One fragment after another, without waiting for a reply. \<open>remaining\<close> has 32 bits, the length
  of the data is a \<open>size_t\<close>.
\<close>

definition fragment_flags :: "u8 \<Rightarrow> bool \<Rightarrow> bool \<Rightarrow> u8" where
  "fragment_flags flags0 is_first is_last =
     (let f = flags0 AND NOT (DCERPC_PFC_FLAG_FIRST OR DCERPC_PFC_FLAG_LAST);
          g = (if is_first then f OR DCERPC_PFC_FLAG_FIRST else f)
      in if is_last then g OR DCERPC_PFC_FLAG_LAST else g)"

definition with_stub :: "u8 list \<Rightarrow> dcerpc_payload \<Rightarrow> dcerpc_payload" where
  "with_stub stub u = (case u of Request h c n ob _ \<Rightarrow> Request h c n ob stub | _ \<Rightarrow> u)"

definition fail_request :: "nat \<Rightarrow> NTSTATUS \<Rightarrow> dstate \<Rightarrow> dstate" where
  "fail_request p st s = pending_remove p (upd_req p (\<lambda>r. r\<lparr>rr_status := st, rr_state := RPC_REQUEST_DONE\<rparr>) s)"

fun ship_loop :: "nat \<Rightarrow> rpc_env \<Rightarrow> nat \<Rightarrow> u8 list \<Rightarrow> u32 \<Rightarrow> ncacn_packet \<Rightarrow> u32 \<Rightarrow> bool \<Rightarrow> unit rcall" where
  "ship_loop 0 env p data chunk_size pkt remaining first_packet s = Hang"
| "ship_loop (Suc n) env p data chunk_size pkt remaining first_packet s =
     (if \<not> (0 < remaining \<or> first_packet) then Ret () s
      else
        (let chunk = min chunk_size remaining;
             last_frag = (chunk = remaining);
             pkt1 = pkt\<lparr>pk_pfc_flags := fragment_flags (pk_pfc_flags pkt) (unat remaining = length data) last_frag,
                        pk_u := with_stub (take (unat chunk) (drop (length data - unat remaining) data)) (pk_u pkt)\<rparr>
         in case ncacn_push_request_sign (ev_codec env) pkt1 (dc_security (ds_conn s)) of
              (r, sec) \<Rightarrow>
                (let s1 = upd_conn (\<lambda>c. c\<lparr>dc_security := sec\<rparr>) s in
                 case r of
                   RBad \<Rightarrow> Undef
                 | RErr e \<Rightarrow> Ret () (fail_request p e s1)
                 | ROk blob \<Rightarrow>
                     (let st = ev_send_request env (length (ds_acts s1)) blob last_frag;
                          s2 = act (SendRequest blob last_frag) s1
                      in if \<not> NT_STATUS_IS_OK st then Ret () (fail_request p st s2)
                         else ship_loop n env p data chunk_size pkt1 (remaining - chunk) False (upd_req p (\<lambda>r. r\<lparr>rr_status := st\<rparr>) s2)))))"

definition chunk_size_of :: "u32 \<Rightarrow> u8 list option \<Rightarrow> u32" where
  "chunk_size_of max_recv_frag obj =
     max_recv_frag - of_nat (DCERPC_MAX_SIGN_SIZE + DCERPC_REQUEST_LENGTH) - (case obj of None \<Rightarrow> 0 | Some _ \<Rightarrow> 16)"

definition request_packet :: "dcerpc_connection \<Rightarrow> dcerpc_pipe \<Rightarrow> rpc_request \<Rightarrow> ncacn_packet" where
  "request_packet c pipe r =
     (init_ncacn_hdr (rs_flags (dc_security c)) stack_packet)\<lparr>pk_ptype := DCERPC_PKT_REQUEST, pk_call_id := rr_call_id r, pk_auth_length := 0,
        pk_pfc_flags := (case rr_object r of None \<Rightarrow> 0 | Some _ \<Rightarrow> DCERPC_PFC_FLAG_ORPC),
        pk_u := Request (of_nat (length (rr_request_data r))) (ucast (dp_context_id pipe)) (rr_opnum r) (rr_object r) []\<rparr>"

definition dcerpc_ship_next_request :: "rpc_env \<Rightarrow> unit rcall" where
  "dcerpc_ship_next_request env s =
     (case dc_request_queue (ds_conn s) of
        None \<Rightarrow> Ret () s
      | Some p \<Rightarrow> with_req p s
          (\<lambda>r. if \<not> rr_async_call r \<and> dc_pending (ds_conn s) \<noteq> None then Ret () s
               else
                 (let s1 = pending_add p (queue_remove p s); c = ds_conn s1; data = rr_request_data r
                  in ship_loop (ev_fuel env) env p data (chunk_size_of (dc_srv_max_recv_frag c) (rr_object r))
                       (request_packet c (ds_pipes s1 (rr_pipe r)) r) (of_nat (length data)) True s1)))"

definition dcerpc_request_send :: "rpc_env \<Rightarrow> nat \<Rightarrow> u8 list option \<Rightarrow> u16 \<Rightarrow> bool \<Rightarrow> u8 list \<Rightarrow> nat rcall" where
  "dcerpc_request_send env pipe obj opnum async stub s =
     (let p = ds_next s; (i, c) = next_call_id (ds_conn s);
          r = \<lparr>rr_pipe = pipe, rr_status = NT_STATUS_OK, rr_call_id = i, rr_state = RPC_REQUEST_PENDING, rr_payload = [],
               rr_flags = 0, rr_fault_code = 0, rr_recv_handler = NoHandler, rr_object = obj, rr_opnum = opnum,
               rr_request_data = stub, rr_async_call = async, rr_callback = NoCallback\<rparr>;
          s1 = s\<lparr>ds_conn := c, ds_reqs := (ds_reqs s)(p \<mapsto> r), ds_next := p + 1\<rparr>
      in andr (queue_add_end p s1)
           (\<lambda>s2. andr (dcerpc_ship_next_request env s2)
              (\<lambda>s3. Ret p (if dp_request_timeout (ds_pipes s3 pipe) \<noteq> 0 then act (RequestTimer p) s3 else s3))))"

section \<open>Receiving\<close>

text \<open>The request with a call number; None when the walk meets a freed one or does not end.\<close>

partial_function (option) find_from :: "(nat \<Rightarrow> nat option) \<Rightarrow> (nat \<Rightarrow> rpc_request option) \<Rightarrow> u32 \<Rightarrow> nat \<Rightarrow> nat option option" where
  "find_from nx reqs i p = Option.bind (reqs p)
     (\<lambda>r. if rr_call_id r = i then Some (Some p) else (case nx p of None \<Rightarrow> Some None | Some q \<Rightarrow> find_from nx reqs i q))"

definition find_call :: "u32 \<Rightarrow> dstate \<Rightarrow> nat option option" where
  "find_call i s = (case dc_pending (ds_conn s) of None \<Rightarrow> Some None | Some p \<Rightarrow> find_from (l_next (ds_links s)) (ds_reqs s) i p)"

text \<open>A failed read leaves the stored authentication information as it was.\<close>

definition pull_reply_auth :: "rpc_env \<Rightarrow> nat \<Rightarrow> u8 list \<Rightarrow> bool rcall" where
  "pull_reply_auth env c blob s =
     (if rs_auth_info (dc_security (ds_conn s)) = None \<or> blob = [] then Ret True s
      else
        (case ndr_pull_struct_blob blob (re_pull_auth (ev_codec env)) of
           None \<Rightarrow> Undef
         | Some (Inl e) \<Rightarrow> composite_is_ok env c (upd_comp c (\<lambda>x. x\<lparr>cx_status := e\<rparr>) s)
         | Some (Inr a) \<Rightarrow> composite_is_ok env c (upd_comp c (\<lambda>x. x\<lparr>cx_status := NT_STATUS_OK\<rparr>)
             (upd_conn (\<lambda>k. k\<lparr>dc_security := (dc_security k)\<lparr>rs_auth_info := Some a\<rparr>\<rparr>) s))))"

definition dcerpc_bind_recv_handler :: "rpc_env \<Rightarrow> nat \<Rightarrow> ncacn_packet \<Rightarrow> unit rcall" where
  "dcerpc_bind_recv_handler env c pkt s =
     (case pk_u pkt of
        BindNak reason \<Rightarrow>
          if pk_ptype pkt = DCERPC_PKT_BIND_NAK then composite_error env c (dcerpc_map_reason reason) s
          else composite_error env c NT_STATUS_NET_WRITE_FAULT s
      | BindAck max_xmit max_recv results auth \<Rightarrow>
          if pk_ptype pkt = DCERPC_PKT_BIND_NAK then Undef
          else if pk_ptype pkt \<noteq> DCERPC_PKT_BIND_ACK \<or> results = [] \<or> fst (hd results) \<noteq> 0
          then composite_error env c NT_STATUS_NET_WRITE_FAULT s
          else
            bindr (pull_reply_auth env c auth
                     (upd_conn (\<lambda>k. k\<lparr>dc_srv_max_xmit_frag := ucast max_xmit, dc_srv_max_recv_frag := ucast max_recv\<rparr>) s))
              (\<lambda>ok t. if ok then composite_done env c t else Ret () t)
      | _ \<Rightarrow>
          if pk_ptype pkt = DCERPC_PKT_BIND_NAK \<or> pk_ptype pkt = DCERPC_PKT_BIND_ACK then Undef
          else composite_error env c NT_STATUS_NET_WRITE_FAULT s)"

definition dcerpc_alter_recv_handler :: "rpc_env \<Rightarrow> nat \<Rightarrow> ncacn_packet \<Rightarrow> unit rcall" where
  "dcerpc_alter_recv_handler env c pkt s =
     (if pk_ptype pkt \<noteq> DCERPC_PKT_ALTER_RESP then composite_error env c NT_STATUS_NET_WRITE_FAULT s
      else
        (case pk_u pkt of
           BindAck _ _ results auth \<Rightarrow>
             if length results = 1 \<and> fst (hd results) \<noteq> 0 then composite_error env c (dcerpc_map_reason (snd (hd results))) s
             else if results = [] \<or> fst (hd results) \<noteq> 0 then composite_error env c NT_STATUS_NET_WRITE_FAULT s
             else bindr (pull_reply_auth env c auth s) (\<lambda>ok t. if ok then composite_done env c t else Ret () t)
         | _ \<Rightarrow> Undef))"

text \<open>The end of a request: it leaves the list, the next one is sent, the callback is called.\<close>

definition req_done :: "rpc_env \<Rightarrow> nat \<Rightarrow> unit rcall" where
  "req_done env p s =
     (let s1 = pending_remove p (upd_req p (\<lambda>r. r\<lparr>rr_state := RPC_REQUEST_DONE\<rparr>) s)
      in andr (if dc_request_queue (ds_conn s1) \<noteq> None then dcerpc_ship_next_request env s1 else Ret () s1) (call_callback env p))"

definition response_data :: "rpc_env \<Rightarrow> nat \<Rightarrow> ncacn_packet \<Rightarrow> NTSTATUS \<Rightarrow> unit rcall" where
  "response_data env p pkt st s =
     (case pk_u pkt of
        Response stub \<Rightarrow>
          if \<not> NT_STATUS_IS_OK st then req_done env p (upd_req p (\<lambda>r. r\<lparr>rr_status := st\<rparr>) s)
          else
            (let s1 = upd_req p (\<lambda>r. r\<lparr>rr_payload := rr_payload r @ stub\<rparr>) s in
             if pk_pfc_flags pkt AND DCERPC_PFC_FLAG_LAST = 0 then Ret () (act SendRead s1)
             else req_done env p (upd_req p (\<lambda>r. r\<lparr>rr_flags :=
                    if pk_drep pkt ! 0 AND DCERPC_DREP_LE = 0 then rr_flags r OR DCERPC_PULL_BIGENDIAN
                    else rr_flags r AND NOT DCERPC_PULL_BIGENDIAN\<rparr>) s1))
      | _ \<Rightarrow> Undef)"

definition fault_data :: "rpc_env \<Rightarrow> nat \<Rightarrow> u32 \<Rightarrow> unit rcall" where
  "fault_data env p code s =
     req_done env p (upd_req p (\<lambda>r. r\<lparr>rr_fault_code := code,
       rr_status := if code = DCERPC_FAULT_ACCESS_DENIED then NT_STATUS_ACCESS_DENIED else NT_STATUS_NET_WRITE_FAULT\<rparr>) s)"

definition dispatch :: "rpc_env \<Rightarrow> nat \<Rightarrow> ncacn_packet \<Rightarrow> NTSTATUS \<Rightarrow> unit rcall" where
  "dispatch env p pkt st s = with_req p s
     (\<lambda>r. let done = pending_remove p (upd_req p (\<lambda>r. r\<lparr>rr_state := RPC_REQUEST_DONE\<rparr>) s);
              comp = (case rr_callback r of CompositeFail c \<Rightarrow> c | _ \<Rightarrow> 0)
          in case rr_recv_handler r of
               BindHandler \<Rightarrow> dcerpc_bind_recv_handler env comp pkt done
             | AlterHandler \<Rightarrow> dcerpc_alter_recv_handler env comp pkt done
             | NoHandler \<Rightarrow>
                 if pk_ptype pkt = DCERPC_PKT_FAULT then (case pk_u pkt of Fault code \<Rightarrow> fault_data env p code s | _ \<Rightarrow> Undef)
                 else if pk_ptype pkt \<noteq> DCERPC_PKT_RESPONSE
                 then req_done env p (upd_req p (\<lambda>r. r\<lparr>rr_fault_code := DCERPC_FAULT_OTHER, rr_status := NT_STATUS_NET_WRITE_FAULT\<rparr>) s)
                 else response_data env p pkt st s)"

definition dcerpc_request_recv_data :: "rpc_env \<Rightarrow> u8 list \<Rightarrow> ncacn_packet \<Rightarrow> unit rcall" where
  "dcerpc_request_recv_data env raw pkt s =
     (let sec = dc_security (ds_conn s) in
      case (if rs_auth_info sec \<noteq> None \<and> rs_generic_state sec \<noteq> None \<and> pk_ptype pkt = DCERPC_PKT_RESPONSE
            then ncacn_pull_request_auth (ev_codec env) raw pkt sec else Some (NT_STATUS_OK, pkt, sec)) of
        None \<Rightarrow> Undef
      | Some (st, pkt1, sec1) \<Rightarrow>
          (let s1 = upd_conn (\<lambda>c. c\<lparr>dc_security := sec1\<rparr>) s in
           case find_call (pk_call_id pkt1) s1 of
             None \<Rightarrow> Undef
           | Some None \<Rightarrow> Ret () s1
           | Some (Some p) \<Rightarrow> dispatch env p pkt1 st s1))"

text \<open>
  When the packet cannot be read the connection is declared dead, but the code goes on: the data
  has been freed and the packet on the stack holds whatever it holds.
\<close>

definition dcerpc_recv_data :: "rpc_env \<Rightarrow> u8 list \<Rightarrow> NTSTATUS \<Rightarrow> unit rcall" where
  "dcerpc_recv_data env blob status s =
     (let st = (if NT_STATUS_IS_OK status \<and> blob = [] then NT_STATUS_UNEXPECTED_NETWORK_ERROR else status) in
      if \<not> NT_STATUS_IS_OK st then dcerpc_connection_dead env st s
      else
        (case ncacn_pull (ev_codec env) (rs_flags (dc_security (ds_conn s))) blob of
           RBad \<Rightarrow> Undef
         | RErr e \<Rightarrow> andr (dcerpc_connection_dead env e s) (dcerpc_request_recv_data env [] (ev_junk env))
         | ROk pkt \<Rightarrow> dcerpc_request_recv_data env blob pkt s))"

definition dcerpc_timeout_handler :: "rpc_env \<Rightarrow> nat \<Rightarrow> unit rcall" where
  "dcerpc_timeout_handler env p s = with_req p s
     (\<lambda>r. if rr_state r \<noteq> RPC_REQUEST_PENDING then Ret () s
          else call_callback env p
                 (pending_remove p (upd_req p (\<lambda>r. r\<lparr>rr_status := NT_STATUS_IO_TIMEOUT, rr_state := RPC_REQUEST_DONE\<rparr>) s)))"

text \<open>\<open>talloc_free(req)\<close> with the destructor.\<close>

definition dcerpc_req_destructor :: "nat \<Rightarrow> dstate \<Rightarrow> dstate" where
  "dcerpc_req_destructor p s = pending_remove p s"

definition free_req :: "nat \<Rightarrow> dstate \<Rightarrow> dstate" where
  "free_req p s = (dcerpc_req_destructor p s)\<lparr>ds_reqs := (ds_reqs (dcerpc_req_destructor p s))(p := None)\<rparr>"

section \<open>Waiting\<close>

text \<open>
  One turn of the event loop: data from the transport, an error of the transport, the timer of a
  request, which is freed together with the request, or that of a context. When no event is left
  the loop fails.
\<close>

datatype rpc_event = RecvData "u8 list" | TransportError NTSTATUS | RequestTimeout nat | CompositeTimer nat

fun handle_rpc_event :: "rpc_env \<Rightarrow> rpc_event \<Rightarrow> unit rcall" where
  "handle_rpc_event env (RecvData blob) s = dcerpc_recv_data env blob NT_STATUS_OK s"
| "handle_rpc_event env (TransportError st) s = dcerpc_recv_data env [] st s"
| "handle_rpc_event env (RequestTimeout p) s = (if ds_reqs s p = None then Ret () s else dcerpc_timeout_handler env p s)"
| "handle_rpc_event env (CompositeTimer c) s = (if ds_comps s c = None then Ret () s else composite_trigger env c s)"

text \<open>Until the request is finished; None when the loop has failed before.\<close>

fun wait_request :: "rpc_env \<Rightarrow> nat \<Rightarrow> rpc_event list \<Rightarrow> (rpc_request option \<times> rpc_event list) rcall" where
  "wait_request env p [] s = with_req p s (\<lambda>r. Ret (if rr_state r = RPC_REQUEST_PENDING then None else Some r, []) s)"
| "wait_request env p (e # es) s = with_req p s
     (\<lambda>r. if rr_state r = RPC_REQUEST_PENDING then andr (handle_rpc_event env e s) (wait_request env p es)
          else Ret (Some r, e # es) s)"

definition finish_request :: "rpc_request \<Rightarrow> dstate \<Rightarrow> dstate" where
  "finish_request r s =
     (if NT_STATUS_IS_OK (rr_status r) then s
      else s\<lparr>ds_pipes := (ds_pipes s)(rr_pipe r := (ds_pipes s (rr_pipe r))\<lparr>dp_last_fault_code :=
             if rr_fault_code r \<noteq> 0 then rr_fault_code r else DCERPC_FAULT_OTHER\<rparr>)\<rparr>)"

text \<open>The status, the payload, and the events that are left.\<close>

definition dcerpc_request_recv :: "rpc_env \<Rightarrow> nat \<Rightarrow> rpc_event list \<Rightarrow> (NTSTATUS \<times> u8 list \<times> rpc_event list) rcall" where
  "dcerpc_request_recv env p evs s =
     bindr (wait_request env p evs s)
       (\<lambda>(r, es) t. case r of
            None \<Rightarrow> Ret (NT_STATUS_CONNECTION_DISCONNECTED, [], es) t
          | Some x \<Rightarrow> Ret (rr_status x, rr_payload x, es) (free_req p (finish_request x t)))"

definition dcerpc_request :: "rpc_env \<Rightarrow> nat \<Rightarrow> u8 list option \<Rightarrow> u16 \<Rightarrow> bool \<Rightarrow> u8 list \<Rightarrow> rpc_event list \<Rightarrow>
    (NTSTATUS \<times> u8 list \<times> rpc_event list) rcall" where
  "dcerpc_request env pipe obj opnum async stub evs s =
     bindr (dcerpc_request_send env pipe obj opnum async stub s) (\<lambda>p. dcerpc_request_recv env p evs)"

text \<open>Waiting for a composite context.\<close>

fun wait_composite :: "rpc_env \<Rightarrow> nat \<Rightarrow> rpc_event list \<Rightarrow> (NTSTATUS \<times> rpc_event list) rcall" where
  "wait_composite env c [] s =
     (case ds_comps s c of
        None \<Rightarrow> Undef
      | Some x \<Rightarrow> Ret (if comp_finished x then cx_status x else NT_STATUS_UNSUCCESSFUL, []) s)"
| "wait_composite env c (e # es) s =
     (case ds_comps s c of
        None \<Rightarrow> Undef
      | Some x \<Rightarrow>
          if comp_finished x then Ret (cx_status x, e # es) s
          else andr (handle_rpc_event env e s) (wait_composite env c es))"

definition composite_wait :: "rpc_env \<Rightarrow> nat \<Rightarrow> rpc_event list \<Rightarrow> (NTSTATUS \<times> rpc_event list) rcall" where
  "composite_wait env c evs s = wait_composite env c evs (upd_comp c (\<lambda>x. x\<lparr>cx_used_wait := True\<rparr>) s)"

section \<open>Binding\<close>

definition context_packet :: "u8 \<Rightarrow> dcerpc_connection \<Rightarrow> u32 \<Rightarrow> dcerpc_pipe \<Rightarrow> ncacn_packet" where
  "context_packet ptype c context_id pipe =
     (init_ncacn_hdr (rs_flags (dc_security c)) stack_packet)\<lparr>pk_ptype := ptype, pk_pfc_flags := DCERPC_PFC_FLAG_FIRST OR DCERPC_PFC_FLAG_LAST,
        pk_call_id := dc_call_id c, pk_auth_length := 0,
        pk_u := Bind 5840 5840 0 (ucast context_id) (dp_syntax pipe) (dp_transfer_syntax pipe)\<rparr>"

text \<open>A bind or an alter context waits in the list of pending requests like a normal request.\<close>

definition context_send :: "rpc_env \<Rightarrow> recv_handler \<Rightarrow> u8 \<Rightarrow> u32 \<Rightarrow> nat \<Rightarrow> nat \<Rightarrow> nat rcall" where
  "context_send env handler ptype context_id pipe c s =
     (let pkt = context_packet ptype (ds_conn s) context_id (ds_pipes s pipe) in
      case ncacn_push_auth (ev_codec env) pkt (rs_auth_info (dc_security (ds_conn s))) of
        RBad \<Rightarrow> Undef
      | RErr e \<Rightarrow> bindr (composite_is_ok env c (upd_comp c (\<lambda>x. x\<lparr>cx_status := e\<rparr>) s)) (\<lambda>_ t. Ret c t)
      | ROk blob \<Rightarrow>
          (let p = ds_next s;
               r = \<lparr>rr_pipe = pipe, rr_status = NT_STATUS_OK, rr_call_id = pk_call_id pkt, rr_state = RPC_REQUEST_PENDING,
                    rr_payload = [], rr_flags = 0, rr_fault_code = 0, rr_recv_handler = handler, rr_object = None, rr_opnum = 0,
                    rr_request_data = [], rr_async_call = False, rr_callback = CompositeFail c\<rparr>
           in andr (pending_add_end p (s\<lparr>ds_reqs := (ds_reqs s)(p \<mapsto> r), ds_next := p + 1\<rparr>))
                (\<lambda>s1. let st = ev_send_request env (length (ds_acts s1)) blob True in
                   bindr (composite_is_ok env c (upd_comp c (\<lambda>x. x\<lparr>cx_status := st\<rparr>) (act (SendRequest blob True) s1)))
                     (\<lambda>ok t. Ret c (if ok then act (RequestTimer p) t else t)))))"

definition set_syntax :: "nat \<Rightarrow> dcerpc_syntax_id \<Rightarrow> dcerpc_syntax_id \<Rightarrow> dstate \<Rightarrow> dstate" where
  "set_syntax pipe syntax transfer s =
     s\<lparr>ds_pipes := (ds_pipes s)(pipe := (ds_pipes s pipe)\<lparr>dp_syntax := syntax, dp_transfer_syntax := transfer\<rparr>)\<rparr>"

definition dcerpc_bind_send :: "rpc_env \<Rightarrow> nat \<Rightarrow> dcerpc_syntax_id \<Rightarrow> dcerpc_syntax_id \<Rightarrow> nat rcall" where
  "dcerpc_bind_send env pipe syntax transfer s =
     (case composite_create pipe s of
        (c, s1) \<Rightarrow>
          (let s2 = set_syntax pipe syntax transfer s1
           in context_send env BindHandler DCERPC_PKT_BIND (dp_context_id (ds_pipes s2 pipe)) pipe c s2))"

definition dcerpc_alter_context_send :: "rpc_env \<Rightarrow> nat \<Rightarrow> dcerpc_syntax_id \<Rightarrow> dcerpc_syntax_id \<Rightarrow> nat rcall" where
  "dcerpc_alter_context_send env pipe syntax transfer s =
     (case composite_create pipe s of
        (c, s1) \<Rightarrow>
          (let s2 = set_syntax pipe syntax transfer s1;
               i = dp_context_id (ds_pipes s2 pipe) + 1;
               s3 = s2\<lparr>ds_pipes := (ds_pipes s2)(pipe := (ds_pipes s2 pipe)\<lparr>dp_context_id := i\<rparr>)\<rparr>
           in context_send env AlterHandler DCERPC_PKT_ALTER i pipe c s3))"

text \<open>Waiting for either, and freeing the context with its child, the request, which has no destructor.\<close>

definition free_comp :: "nat \<Rightarrow> dstate \<Rightarrow> dstate" where
  "free_comp c s = s\<lparr>ds_comps := (ds_comps s)(c := None),
     ds_reqs := \<lambda>p. Option.bind (ds_reqs s p) (\<lambda>r. if rr_callback r = CompositeFail c then None else Some r)\<rparr>"

definition dcerpc_bind_recv :: "rpc_env \<Rightarrow> nat \<Rightarrow> rpc_event list \<Rightarrow> (NTSTATUS \<times> rpc_event list) rcall" where
  "dcerpc_bind_recv env c evs s = bindr (composite_wait env c evs s) (\<lambda>r t. Ret r (free_comp c t))"

definition dcerpc_alter_context_recv :: "rpc_env \<Rightarrow> nat \<Rightarrow> rpc_event list \<Rightarrow> (NTSTATUS \<times> rpc_event list) rcall" where
  "dcerpc_alter_context_recv env c evs s = bindr (composite_wait env c evs s) (\<lambda>r t. Ret r (free_comp c t))"

definition dcerpc_alter_context ::
    "rpc_env \<Rightarrow> nat \<Rightarrow> dcerpc_syntax_id \<Rightarrow> dcerpc_syntax_id \<Rightarrow> rpc_event list \<Rightarrow> (NTSTATUS \<times> rpc_event list) rcall" where
  "dcerpc_alter_context env pipe syntax transfer evs s =
     bindr (dcerpc_alter_context_send env pipe syntax transfer s) (\<lambda>c. dcerpc_alter_context_recv env c evs)"

definition dcerpc_auth3 :: "rpc_env \<Rightarrow> NTSTATUS rcall" where
  "dcerpc_auth3 env s =
     (let (i, c) = next_call_id (ds_conn s); s1 = s\<lparr>ds_conn := c\<rparr>;
          pkt = (init_ncacn_hdr (rs_flags (dc_security c)) stack_packet)\<lparr>pk_ptype := DCERPC_PKT_AUTH3,
                  pk_pfc_flags := DCERPC_PFC_FLAG_FIRST OR DCERPC_PFC_FLAG_LAST, pk_call_id := i, pk_auth_length := 0, pk_u := Auth3\<rparr>
      in case ncacn_push_auth (ev_codec env) pkt (rs_auth_info (dc_security c)) of
           RBad \<Rightarrow> Undef
         | RErr e \<Rightarrow> Ret e s1
         | ROk blob \<Rightarrow> Ret (ev_send_request env (length (ds_acts s1)) blob False) (act (SendRequest blob False) s1))"

end
