(* ===== verification/DcerpcCall.thy ===== *)
theory DcerpcCall
  imports Dcerpc
begin

text \<open>
  Calls with typed arguments on top of \<open>dcerpc_request\<close>: the second half of
  \<open>librpc/rpc/dcerpc.c\<close>, \<open>dcerpc_ndr_request_send\<close> to \<open>dcerpc_ndr_request\<close> with the two
  validators that marshal a structure back. The marshalling functions of a call are generated from
  its interface and are parameters, as is what fresh memory holds.
\<close>

abbreviation (input) "NDR_IN \<equiv> (1 :: u32)"
abbreviation (input) "NDR_OUT \<equiv> (2 :: u32)"

record 'r rpc_call =
  ca_push :: "u32 \<Rightarrow> 'r \<Rightarrow> (unit, ndr_push) ncall"
  ca_pull :: "u32 \<Rightarrow> 'r \<Rightarrow> ('r, ndr_pull) ncall"
  ca_async :: bool
  ca_memory :: 'r

text \<open>The blob of a structure.\<close>

definition push_struct :: "'r rpc_call \<Rightarrow> rpc_codec \<Rightarrow> u32 \<Rightarrow> u32 \<Rightarrow> 'r \<Rightarrow> u8 list rpc_res" where
  "push_struct call codec order ndr_flags r =
     (case ca_push call ndr_flags r ((ndr_push_init_ctx (re_fill codec))\<lparr>np_flags := order\<rparr>) of
        NOk _ t \<Rightarrow> packet_blob t
      | NErr e _ \<Rightarrow> RErr e
      | NBad \<Rightarrow> RBad)"

definition pull_struct :: "'r rpc_call \<Rightarrow> u32 \<Rightarrow> u32 \<Rightarrow> u32 \<Rightarrow> 'r \<Rightarrow> u8 list \<Rightarrow> 'r rpc_res" where
  "pull_struct call conn_flags extra ndr_flags r blob =
     (let ndr = ndr_pull_init_flags conn_flags blob in
      case ca_pull call ndr_flags r (ndr\<lparr>nl_flags := nl_flags ndr OR extra\<rparr>) of
        NOk v _ \<Rightarrow> ROk v
      | NErr e _ \<Rightarrow> RErr e
      | NBad \<Rightarrow> RBad)"

text \<open>A failure inside a validator becomes a validation error.\<close>

definition validation :: "'a rpc_res \<Rightarrow> ('a \<Rightarrow> unit rpc_res) \<Rightarrow> unit rpc_res" where
  "validation m k = (case m of ROk x \<Rightarrow> k x | RErr _ \<Rightarrow> RErr (ndr_map_error NDR_ERR_VALIDATE) | RBad \<Rightarrow> RBad)"

definition dcerpc_ndr_validate_in :: "'r rpc_call \<Rightarrow> rpc_codec \<Rightarrow> u32 \<Rightarrow> u8 list \<Rightarrow> unit rpc_res" where
  "dcerpc_ndr_validate_in call codec conn_flags blob =
     validation (pull_struct call conn_flags LIBNDR_FLAG_REF_ALLOC NDR_IN (ca_memory call) blob)
       (\<lambda>st. validation (push_struct call codec 0 NDR_IN st)
          (\<lambda>blob2. if blob = blob2 then ROk () else RErr (ndr_map_error NDR_ERR_VALIDATE)))"

text \<open>The printed forms of the two structures are compared too, but the result is only logged.\<close>

definition dcerpc_ndr_validate_out :: "'r rpc_call \<Rightarrow> rpc_codec \<Rightarrow> u32 \<Rightarrow> 'r \<Rightarrow> unit rpc_res" where
  "dcerpc_ndr_validate_out call codec conn_flags r =
     validation (push_struct call codec 0 NDR_OUT r)
       (\<lambda>blob. validation (pull_struct call conn_flags LIBNDR_FLAG_REF_ALLOC NDR_OUT r blob)
          (\<lambda>st. validation (push_struct call codec 0 NDR_OUT st)
             (\<lambda>blob2. if blob = blob2 then ROk () else RErr (ndr_map_error NDR_ERR_VALIDATE))))"

text \<open>None is the null pointer the function returns when it fails.\<close>

definition dcerpc_ndr_request_send :: "rpc_env \<Rightarrow> 'r rpc_call \<Rightarrow> nat \<Rightarrow> u8 list option \<Rightarrow> u16 \<Rightarrow> 'r \<Rightarrow> nat option rcall" where
  "dcerpc_ndr_request_send env call pipe obj opnum r s =
     (let flags = rs_flags (dc_security (ds_conn s));
          order = (if flags AND DCERPC_PUSH_BIGENDIAN \<noteq> 0 then LIBNDR_FLAG_BIGENDIAN else 0)
      in case push_struct call (ev_codec env) order NDR_IN r of
           RBad \<Rightarrow> Undef
         | RErr _ \<Rightarrow> Ret None s
         | ROk request \<Rightarrow>
             (case (if flags AND DCERPC_DEBUG_VALIDATE_IN \<noteq> 0 then dcerpc_ndr_validate_in call (ev_codec env) flags request else ROk ()) of
                RBad \<Rightarrow> Undef
              | RErr _ \<Rightarrow> Ret None s
              | ROk _ \<Rightarrow> bindr (dcerpc_request_send env pipe obj opnum (ca_async call) request s) (\<lambda>p. Ret (Some p))))"

text \<open>
  The reference that is taken keeps the request until its flags have been read. When the event loop
  has failed nothing is freed. The structure is returned when the call succeeds.
\<close>

definition pull_reply :: "rpc_env \<Rightarrow> 'r rpc_call \<Rightarrow> 'r \<Rightarrow> u32 \<Rightarrow> rpc_request \<Rightarrow> (NTSTATUS \<times> 'r option) option" where
  "pull_reply env call r conn_flags x =
     (if \<not> NT_STATUS_IS_OK (rr_status x) then Some (rr_status x, None)
      else
        (case pull_struct call conn_flags (if rr_flags x AND DCERPC_PULL_BIGENDIAN \<noteq> 0 then LIBNDR_FLAG_BIGENDIAN else 0) NDR_OUT r (rr_payload x) of
           RBad \<Rightarrow> None
         | RErr e \<Rightarrow> Some (e, None)
         | ROk v \<Rightarrow>
             (case (if conn_flags AND DCERPC_DEBUG_VALIDATE_OUT \<noteq> 0 then dcerpc_ndr_validate_out call (ev_codec env) conn_flags v else ROk ()) of
                RBad \<Rightarrow> None
              | RErr e \<Rightarrow> Some (e, None)
              | ROk _ \<Rightarrow> Some (NT_STATUS_OK, Some v))))"

definition dcerpc_ndr_request_recv :: "rpc_env \<Rightarrow> 'r rpc_call \<Rightarrow> 'r \<Rightarrow> nat \<Rightarrow> rpc_event list \<Rightarrow> (NTSTATUS \<times> 'r option \<times> rpc_event list) rcall" where
  "dcerpc_ndr_request_recv env call r p evs s =
     bindr (wait_request env p evs s)
       (\<lambda>(x, es) t. case x of
            None \<Rightarrow> Ret (NT_STATUS_CONNECTION_DISCONNECTED, None, es) t
          | Some y \<Rightarrow>
              (case pull_reply env call r (rs_flags (dc_security (ds_conn t))) y of
                 None \<Rightarrow> Undef
               | Some (st, v) \<Rightarrow> Ret (st, v, es) (free_req p (finish_request y t))))"

definition dcerpc_ndr_request ::
    "rpc_env \<Rightarrow> 'r rpc_call \<Rightarrow> nat \<Rightarrow> u8 list option \<Rightarrow> u16 \<Rightarrow> 'r \<Rightarrow> rpc_event list \<Rightarrow> (NTSTATUS \<times> 'r option \<times> rpc_event list) rcall" where
  "dcerpc_ndr_request env call pipe obj opnum r evs s =
     bindr (dcerpc_ndr_request_send env call pipe obj opnum r s)
       (\<lambda>q. case q of None \<Rightarrow> Ret (NT_STATUS_NO_MEMORY, None, evs) | Some p \<Rightarrow> dcerpc_ndr_request_recv env call r p evs)"

end
