(* ===== verification/DcerpcInv.thy ===== *)
theory DcerpcInv
  imports DcerpcCall
begin

text \<open>
  The invariant of a connection: the requests waiting for a reply and those waiting to be sent are
  two linked lists without a common element, of live requests in the state PENDING; every other
  live request is DONE and linked to nothing. It is proved for all operations of the runtime with
  the laws of the interface \<open>linked_lists\<close>.
\<close>

section \<open>The invariant\<close>

definition unlinked :: "links \<Rightarrow> nat \<Rightarrow> bool" where
  "unlinked lk p \<longleftrightarrow> l_next lk p = None \<and> l_prev lk p = None"

definition conn_lists :: "nat list \<Rightarrow> nat list \<Rightarrow> dstate \<Rightarrow> bool" where
  "conn_lists ps qs s \<longleftrightarrow>
     dlist (dc_pending (ds_conn s), ds_links s) ps \<and> dlist (dc_request_queue (ds_conn s), ds_links s) qs \<and>
     set ps \<inter> set qs = {} \<and>
     (\<forall>p \<in> set ps \<union> set qs. ds_reqs s p \<noteq> None) \<and>
     (\<forall>p r. ds_reqs s p = Some r \<longrightarrow> p < ds_next s \<and>
        (if p \<in> set ps \<union> set qs then rr_state r = RPC_REQUEST_PENDING else rr_state r = RPC_REQUEST_DONE \<and> unlinked (ds_links s) p))"

definition wf_conn :: "dstate \<Rightarrow> bool" where
  "wf_conn s \<longleftrightarrow> (\<exists>ps qs. conn_lists ps qs s)"

lemma wf_connI [intro]: "conn_lists ps qs s \<Longrightarrow> wf_conn s"
  by (auto simp: wf_conn_def)

lemma lists_distinct: "conn_lists ps qs s \<Longrightarrow> distinct ps \<and> distinct qs"
  by (auto simp: conn_lists_def dlist_def)

lemma lists_pending: "conn_lists ps qs s \<Longrightarrow> dc_pending (ds_conn s) = first ps None"
  by (simp add: conn_lists_def dlist_def)

lemma lists_queue: "conn_lists ps qs s \<Longrightarrow> dc_request_queue (ds_conn s) = first qs None"
  by (simp add: conn_lists_def dlist_def)

lemma lists_live: "conn_lists ps qs s \<Longrightarrow> p \<in> set ps \<union> set qs \<Longrightarrow> \<exists>r. ds_reqs s p = Some r \<and> rr_state r = RPC_REQUEST_PENDING"
  by (fastforce simp: conn_lists_def)

lemma lists_outside:
  "conn_lists ps qs s \<Longrightarrow> p \<notin> set ps \<union> set qs \<Longrightarrow> ds_reqs s p = Some r \<Longrightarrow> rr_state r = RPC_REQUEST_DONE \<and> unlinked (ds_links s) p"
  by (simp add: conn_lists_def)

lemma lists_fresh: "conn_lists ps qs s \<Longrightarrow> ds_reqs s (ds_next s) = None"
  by (cases "ds_reqs s (ds_next s)") (force simp: conn_lists_def)+

text \<open>What the invariant does not look at.\<close>

lemma lists_frame:
  assumes "conn_lists ps qs s" "dc_pending (ds_conn t) = dc_pending (ds_conn s)" "dc_request_queue (ds_conn t) = dc_request_queue (ds_conn s)"
    and "ds_links t = ds_links s" "ds_next s \<le> ds_next t"
    and "\<And>p. map_option rr_state (ds_reqs t p) = map_option rr_state (ds_reqs s p)"
  shows "conn_lists ps qs t"
proof -
  have earlier: "\<exists>r'. ds_reqs s p = Some r' \<and> rr_state r' = rr_state r" if "ds_reqs t p = Some r" for p r
    using assms(6) [of p] that by (cases "ds_reqs s p") auto
  have some: "ds_reqs t p \<noteq> None" if "ds_reqs s p \<noteq> None" for p using assms(6) [of p] that by (cases "ds_reqs t p") auto
  show ?thesis unfolding conn_lists_def
  proof (intro conjI ballI allI impI)
    show "dlist (dc_pending (ds_conn t), ds_links t) ps" "dlist (dc_request_queue (ds_conn t), ds_links t) qs" "set ps \<inter> set qs = {}"
      using assms(1-4) by (auto simp: conn_lists_def)
    show "ds_reqs t p \<noteq> None" if "p \<in> set ps \<union> set qs" for p using that assms(1) some by (auto simp: conn_lists_def)
    fix p r
    assume "ds_reqs t p = Some r"
    then obtain r' where r: "ds_reqs s p = Some r'" "rr_state r' = rr_state r" using earlier by blast
    then have old: "p < ds_next s" "if p \<in> set ps \<union> set qs then rr_state r' = RPC_REQUEST_PENDING else rr_state r' = RPC_REQUEST_DONE \<and> unlinked (ds_links s) p"
      using assms(1) unfolding conn_lists_def by blast+
    show "p < ds_next t" using old(1) assms(5) by simp
    show "if p \<in> set ps \<union> set qs then rr_state r = RPC_REQUEST_PENDING else rr_state r = RPC_REQUEST_DONE \<and> unlinked (ds_links t) p"
      using old(2) r(2) assms(4) by (auto split: if_splits)
  qed
qed

lemma lists_upd_req: "conn_lists ps qs s \<Longrightarrow> (\<And>r. rr_state (f r) = rr_state r) \<Longrightarrow> conn_lists ps qs (upd_req p f s)"
  by (rule lists_frame) (auto simp: upd_req_def option.map_comp comp_def)

lemma lists_act [simp]: "conn_lists ps qs (act a s) \<longleftrightarrow> conn_lists ps qs s"
  by (auto simp: act_def elim: lists_frame)

lemma lists_upd_comp [simp]: "conn_lists ps qs (upd_comp c f s) \<longleftrightarrow> conn_lists ps qs s"
  by (auto simp: upd_comp_def elim: lists_frame)

lemma lists_security [simp]: "conn_lists ps qs (upd_conn (\<lambda>c. c\<lparr>dc_security := f c\<rparr>) s) \<longleftrightarrow> conn_lists ps qs s"
  by (auto simp: upd_conn_def elim: lists_frame)

lemma lists_frag_sizes [simp]:
  "conn_lists ps qs (upd_conn (\<lambda>c. c\<lparr>dc_srv_max_xmit_frag := a, dc_srv_max_recv_frag := b\<rparr>) s) \<longleftrightarrow> conn_lists ps qs s"
  by (auto simp: upd_conn_def elim: lists_frame)

lemma lists_pipes [simp]: "conn_lists ps qs (s\<lparr>ds_pipes := f\<rparr>) \<longleftrightarrow> conn_lists ps qs s"
  by (auto elim: lists_frame)

text \<open>A request that is finished leaves the list.\<close>

lemma lists_finish:
  assumes "conn_lists ps qs s" "p \<in> set ps" "\<And>r. rr_state (f r) = RPC_REQUEST_DONE"
  shows "conn_lists (remove1 p ps) qs (pending_remove p (upd_req p f s))"
proof -
  let ?t = "pending_remove p (upd_req p f s)"
  have d: "distinct ps" "set ps \<inter> set qs = {}" using assms(1) lists_distinct [OF assms(1)] by (auto simp: conn_lists_def)
  obtain l h where lh: "DLIST_REMOVE p (pending_list s) = (l, h)" by fastforce
  have t: "dc_pending (ds_conn ?t) = l" "dc_request_queue (ds_conn ?t) = dc_request_queue (ds_conn s)" "ds_links ?t = h" "ds_next ?t = ds_next s"
    "ds_reqs ?t = (ds_reqs s)(p := map_option f (ds_reqs s p))"
    using lh by (simp_all add: pending_remove_def set_pending_def pending_list_def upd_req_def upd_conn_def)
  have r: "dlist (l, h) (remove1 p ps)" "dlist (dc_request_queue (ds_conn s), h) qs" "unlinked h p"
    "\<forall>z. z \<notin> set ps \<longrightarrow> unlinked (ds_links s) z \<longrightarrow> unlinked h z"
    using dll.remove_rel [of "dc_pending (ds_conn s)" "ds_links s" ps "dc_request_queue (ds_conn s)" qs p l h] assms(1,2) lh
    by (auto simp: conn_lists_def pending_list_def unlinked_def)
  show ?thesis
    unfolding conn_lists_def t using r d assms by (auto simp: conn_lists_def split: if_splits)
qed

lemma lists_ship:
  assumes "conn_lists ps (p # qs) s"
  shows "conn_lists (p # ps) qs (pending_add p (queue_remove p s))"
proof -
  let ?t = "pending_add p (queue_remove p s)"
  have d: "distinct (p # qs)" "set ps \<inter> set (p # qs) = {}" using assms lists_distinct [OF assms] by (auto simp: conn_lists_def)
  obtain l h where lh: "DLIST_REMOVE p (queue_list s) = (l, h)" by fastforce
  obtain l2 h2 where lh2: "DLIST_ADD p (dc_pending (ds_conn s), h) = (l2, h2)" by fastforce
  have t: "dc_pending (ds_conn ?t) = l2" "dc_request_queue (ds_conn ?t) = l" "ds_links ?t = h2" "ds_next ?t = ds_next s" "ds_reqs ?t = ds_reqs s"
    using lh lh2 by (simp_all add: pending_add_def queue_remove_def set_pending_def set_queue_def pending_list_def queue_list_def upd_conn_def)
  have r: "dlist (l, h2) qs" "dlist (l2, h2) (p # ps)" "\<forall>z. z \<notin> set (p # qs) \<union> set ps \<longrightarrow> unlinked (ds_links s) z \<longrightarrow> unlinked h2 z"
    using dll.move_to_front [of "dc_request_queue (ds_conn s)" "ds_links s" "p # qs" "dc_pending (ds_conn s)" ps p l h l2 h2] assms lh lh2 d
    by (auto simp: conn_lists_def queue_list_def unlinked_def)
  show ?thesis
    unfolding conn_lists_def t using r d assms by (auto simp: conn_lists_def split: if_splits)
qed

text \<open>A new request at the end of a list.\<close>

definition new_req :: "nat \<Rightarrow> rpc_request \<Rightarrow> dstate \<Rightarrow> dstate" where
  "new_req p r s = s\<lparr>ds_reqs := (ds_reqs s)(p \<mapsto> r), ds_next := p + 1\<rparr>"

lemma lists_queue_add:
  assumes "conn_lists ps qs s" "p = ds_next s" "rr_state r = RPC_REQUEST_PENDING"
  shows "\<exists>t. queue_add_end p (new_req p r s) = Ret () t \<and> conn_lists ps (qs @ [p]) t \<and> ds_reqs t = (ds_reqs s)(p \<mapsto> r) \<and>
    ds_acts t = ds_acts s \<and> ds_pipes t = ds_pipes s \<and> dc_security (ds_conn t) = dc_security (ds_conn s) \<and>
    dc_srv_max_recv_frag (ds_conn t) = dc_srv_max_recv_frag (ds_conn s)"
proof -
  have new: "p \<notin> set qs \<union> set ps" "ds_reqs s p = None" using assms(1,2) by (fastforce simp: conn_lists_def)+
  obtain l h where e: "DLIST_ADD_END p (queue_list s) = Some (l, h)" "dlist (l, h) (qs @ [p])" "dlist (dc_pending (ds_conn s), h) ps"
    "\<forall>z. z \<notin> insert p (set qs) \<longrightarrow> unlinked (ds_links s) z \<longrightarrow> unlinked h z"
    using dll.add_end_rel [of "dc_request_queue (ds_conn s)" "ds_links s" qs "dc_pending (ds_conn s)" ps p] assms(1) new
    by (fastforce simp: conn_lists_def queue_list_def unlinked_def)
  let ?t = "set_queue (l, h) (new_req p r s)"
  have q: "queue_list (new_req p r s) = queue_list s" by (simp add: queue_list_def new_req_def)
  have t: "dc_pending (ds_conn ?t) = dc_pending (ds_conn s)" "dc_request_queue (ds_conn ?t) = l" "ds_links ?t = h" "ds_next ?t = p + 1"
    "ds_reqs ?t = (ds_reqs s)(p \<mapsto> r)"
    by (simp_all add: set_queue_def upd_conn_def new_req_def)
  have "conn_lists ps (qs @ [p]) ?t"
    unfolding conn_lists_def t using e(2-4) new assms by (auto simp: conn_lists_def less_Suc_eq split: if_splits)
  moreover have "queue_add_end p (new_req p r s) = Ret () ?t" by (simp add: queue_add_end_def q e(1))
  ultimately show ?thesis using t by (auto simp: set_queue_def upd_conn_def new_req_def)
qed

lemma lists_pending_add:
  assumes "conn_lists ps qs s" "p = ds_next s" "rr_state r = RPC_REQUEST_PENDING"
  shows "\<exists>t. pending_add_end p (new_req p r s) = Ret () t \<and> conn_lists (ps @ [p]) qs t"
proof -
  have new: "p \<notin> set qs \<union> set ps" "ds_reqs s p = None" using assms(1,2) by (fastforce simp: conn_lists_def)+
  obtain l h where e: "DLIST_ADD_END p (pending_list s) = Some (l, h)" "dlist (l, h) (ps @ [p])" "dlist (dc_request_queue (ds_conn s), h) qs"
    "\<forall>z. z \<notin> insert p (set ps) \<longrightarrow> unlinked (ds_links s) z \<longrightarrow> unlinked h z"
    using dll.add_end_rel [of "dc_pending (ds_conn s)" "ds_links s" ps "dc_request_queue (ds_conn s)" qs p] assms(1) new
    by (fastforce simp: conn_lists_def pending_list_def unlinked_def)
  let ?t = "set_pending (l, h) (new_req p r s)"
  have q: "pending_list (new_req p r s) = pending_list s" by (simp add: pending_list_def new_req_def)
  have t: "dc_pending (ds_conn ?t) = l" "dc_request_queue (ds_conn ?t) = dc_request_queue (ds_conn s)" "ds_links ?t = h" "ds_next ?t = p + 1"
    "ds_reqs ?t = (ds_reqs s)(p \<mapsto> r)"
    by (simp_all add: set_pending_def upd_conn_def new_req_def)
  have "conn_lists (ps @ [p]) qs ?t"
    unfolding conn_lists_def t using e(2-4) new assms by (auto simp: conn_lists_def less_Suc_eq split: if_splits)
  moreover have "pending_add_end p (new_req p r s) = Ret () ?t" by (simp add: pending_add_end_def q e(1))
  ultimately show ?thesis by blast
qed

lemma lists_free:
  assumes "conn_lists ps qs s" "p \<notin> set qs" "ds_reqs s p \<noteq> None"
  shows "conn_lists (remove1 p ps) qs (free_req p s)"
proof (cases "p \<in> set ps")
  case True
  let ?f = "\<lambda>r. r\<lparr>rr_state := RPC_REQUEST_DONE\<rparr>"
  have l: "conn_lists (remove1 p ps) qs (pending_remove p (upd_req p ?f s))" by (rule lists_finish [OF assms(1) True]) simp
  have d: "p \<notin> set (remove1 p ps)" using lists_distinct [OF assms(1)] by simp
  have t: "dc_pending (ds_conn (free_req p s)) = dc_pending (ds_conn (pending_remove p (upd_req p ?f s)))"
    "dc_request_queue (ds_conn (free_req p s)) = dc_request_queue (ds_conn (pending_remove p (upd_req p ?f s)))"
    "ds_links (free_req p s) = ds_links (pending_remove p (upd_req p ?f s))" "ds_next (free_req p s) = ds_next s"
    "ds_next (pending_remove p (upd_req p ?f s)) = ds_next s"
    "ds_reqs (free_req p s) = (ds_reqs (pending_remove p (upd_req p ?f s)))(p := None)"
    by (simp_all add: free_req_def dcerpc_req_destructor_def pending_remove_def set_pending_def pending_list_def upd_req_def upd_conn_def)
  show ?thesis using l d assms(2) unfolding conn_lists_def t by (auto split: if_splits)
next
  case False
  obtain r where r: "ds_reqs s p = Some r" using assms(3) by blast
  have u: "unlinked (ds_links s) p" using r False assms by (auto simp: conn_lists_def)
  have "DLIST_REMOVE p (pending_list s) = pending_list s"
    unfolding pending_list_def by (rule dll.remove_free) (use assms(1) False u in \<open>auto simp: conn_lists_def unlinked_def\<close>)
  then have "pending_remove p s = s" by (simp add: pending_remove_def set_pending_def pending_list_def upd_conn_def)
  then show ?thesis using assms False by (auto simp: free_req_def dcerpc_req_destructor_def conn_lists_def remove1_idem split: if_splits)
qed

text \<open>The walk over the pending list finds the request with a call number and meets live requests only.\<close>

definition has_call :: "dstate \<Rightarrow> u32 \<Rightarrow> nat \<Rightarrow> bool" where
  "has_call s i p \<longleftrightarrow> (case ds_reqs s p of None \<Rightarrow> False | Some r \<Rightarrow> rr_call_id r = i)"

lemma find_from_dseg:
  "dseg (ds_links s) q (p # ps) None \<Longrightarrow> \<forall>x \<in> set (p # ps). ds_reqs s x \<noteq> None \<Longrightarrow>
   find_from (l_next (ds_links s)) (ds_reqs s) i p = Some (find (has_call s i) (p # ps))"
proof (induction ps arbitrary: p q)
  case Nil
  then show ?case by (subst find_from.simps) (auto simp: has_call_def)
next
  case (Cons x xs)
  then have "find_from (l_next (ds_links s)) (ds_reqs s) i x = Some (find (has_call s i) (x # xs))" by auto
  then show ?case using Cons.prems by (subst find_from.simps) (auto simp: has_call_def)
qed

lemma find_call_lists:
  assumes "conn_lists ps qs s"
  shows "find_call i s = Some (find (has_call s i) ps)"
proof (cases ps)
  case Nil
  then show ?thesis using lists_pending [OF assms] by (simp add: find_call_def)
next
  case (Cons p r)
  have "dseg (ds_links s) None (p # r) None" "\<forall>x \<in> set (p # r). ds_reqs s x \<noteq> None"
    using assms Cons by (auto simp: conn_lists_def dlist_def)
  then show ?thesis using find_from_dseg lists_pending [OF assms] Cons by (simp add: find_call_def)
qed

section \<open>Operations\<close>

text \<open>What a client's functions may do: anything that keeps the invariant.\<close>

definition client_ok :: "rpc_env \<Rightarrow> bool" where
  "client_ok env \<longleftrightarrow> (\<forall>p s. wf_conn s \<longrightarrow> wf_conn (ev_callback env p s)) \<and> (\<forall>c s. wf_conn s \<longrightarrow> wf_conn (ev_composite_fn env c s))"

abbreviation stays_wf :: "('a, dstate) res \<Rightarrow> bool" where
  "stays_wf m \<equiv> all_res wf_conn (\<lambda>_ _. False) m"

lemma wf_frame [simp]:
  "wf_conn (act a s) \<longleftrightarrow> wf_conn s" "wf_conn (upd_comp c f s) \<longleftrightarrow> wf_conn s"
  "wf_conn (upd_conn (\<lambda>c. c\<lparr>dc_security := g c\<rparr>) s) \<longleftrightarrow> wf_conn s"
  "wf_conn (upd_conn (\<lambda>c. c\<lparr>dc_srv_max_xmit_frag := a', dc_srv_max_recv_frag := b\<rparr>) s) \<longleftrightarrow> wf_conn s"
  "wf_conn (s\<lparr>ds_pipes := h\<rparr>) \<longleftrightarrow> wf_conn s"
  by (simp_all add: wf_conn_def)

lemma wf_composite_fn: "client_ok env \<Longrightarrow> wf_conn s \<Longrightarrow> wf_conn (composite_fn env c x s)"
  by (simp add: composite_fn_def client_ok_def)

lemma wf_trigger [simp]: "wf_conn (trigger c x s) \<longleftrightarrow> wf_conn s"
  by (simp add: trigger_def)

lemma composite_is_ok_wf: "client_ok env \<Longrightarrow> wf_conn s \<Longrightarrow> stays_wf (composite_is_ok env c s)"
  by (auto simp: composite_is_ok_def wf_composite_fn split: option.splits)

lemma composite_error_wf: "client_ok env \<Longrightarrow> wf_conn s \<Longrightarrow> stays_wf (composite_error env c st s)"
  by (auto simp: composite_error_def intro!: all_res_bindr [OF composite_is_ok_wf] split: option.splits)

lemma composite_done_wf: "client_ok env \<Longrightarrow> wf_conn s \<Longrightarrow> stays_wf (composite_done env c s)"
  by (auto simp: composite_done_def wf_composite_fn split: option.splits)

lemma composite_trigger_wf: "client_ok env \<Longrightarrow> wf_conn s \<Longrightarrow> stays_wf (composite_trigger env c s)"
  by (auto simp: composite_trigger_def wf_composite_fn split: option.splits)

lemma call_callback_wf: "client_ok env \<Longrightarrow> wf_conn s \<Longrightarrow> stays_wf (call_callback env p s)"
  by (auto simp: call_callback_def with_req_def dcerpc_composite_fail_def client_ok_def intro!: composite_error_wf
      split: option.splits request_callback.splits)

lemma dead_loop_wf: "client_ok env \<Longrightarrow> wf_conn s \<Longrightarrow> stays_wf (dead_loop n env st s)"
proof (induction n arbitrary: s)
  case (Suc n)
  obtain ps qs where l: "conn_lists ps qs s" using Suc.prems(2) by (auto simp: wf_conn_def)
  show ?case
  proof (cases ps)
    case Nil
    then show ?thesis using lists_pending [OF l] Suc.prems(2) by simp
  next
    case (Cons p r)
    let ?s = "pending_remove p (upd_req p (\<lambda>r. r\<lparr>rr_state := RPC_REQUEST_DONE, rr_status := st\<rparr>) s)"
    have "conn_lists (remove1 p ps) qs ?s" by (rule lists_finish [OF l]) (simp_all add: Cons)
    then have "stays_wf (andr (call_callback env p ?s) (dead_loop n env st))"
      using Suc by (intro all_res_andr [OF call_callback_wf]) auto
    then show ?thesis using lists_pending [OF l] Cons by (auto simp: with_req_def split: option.splits)
  qed
qed (auto split: option.splits)

lemma dcerpc_connection_dead_wf: "client_ok env \<Longrightarrow> wf_conn s \<Longrightarrow> stays_wf (dcerpc_connection_dead env st s)"
  by (simp add: dcerpc_connection_dead_def dead_loop_wf)

lemma fail_request_lists: "conn_lists ps qs s \<Longrightarrow> p \<in> set ps \<Longrightarrow> wf_conn (fail_request p st s)"
  unfolding fail_request_def by (rule wf_connI, rule lists_finish) simp_all

lemma ship_loop_wf:
  "conn_lists ps qs s \<Longrightarrow> p \<in> set ps \<Longrightarrow> stays_wf (ship_loop n env p data c pkt remaining first_packet s)"
proof (induction n arbitrary: pkt remaining first_packet s)
  case (Suc n)
  have step: "conn_lists ps qs (upd_req p (\<lambda>r. r\<lparr>rr_status := st\<rparr>) (act a (upd_conn (\<lambda>c. c\<lparr>dc_security := sec\<rparr>) s)))" for st a sec
    by (rule lists_upd_req) (simp_all add: Suc.prems(1))
  have fail: "wf_conn (fail_request p e (upd_conn (\<lambda>c. c\<lparr>dc_security := sec\<rparr>) s))"
    "wf_conn (fail_request p e (act a (upd_conn (\<lambda>c. c\<lparr>dc_security := sec\<rparr>) s)))" for e sec a
    using Suc.prems by (auto intro!: fail_request_lists)
  show ?case
  proof (cases "0 < remaining \<or> first_packet")
    case False
    then show ?thesis using Suc.prems(1) by auto
  next
    case True
    then show ?thesis using Suc.IH [OF step Suc.prems(2)] fail
      by (simp add: Let_def split: prod.split rpc_res.split del: all_res.simps) (auto split: if_splits)
  qed
qed simp

lemma dcerpc_ship_next_request_wf:
  assumes "wf_conn s"
  shows "stays_wf (dcerpc_ship_next_request env s)"
proof -
  obtain ps qs where l: "conn_lists ps qs s" using assms by (auto simp: wf_conn_def)
  show ?thesis
  proof (cases qs)
    case Nil
    then show ?thesis using lists_queue [OF l] assms by (simp add: dcerpc_ship_next_request_def)
  next
    case (Cons p r)
    have "conn_lists (p # ps) r (pending_add p (queue_remove p s))" using lists_ship l Cons by simp
    then have "stays_wf (ship_loop n env p data c pkt remaining fp (pending_add p (queue_remove p s)))" for n data c pkt remaining fp
      by (rule ship_loop_wf) simp
    then show ?thesis
      using lists_queue [OF l] Cons assms
      by (auto simp: dcerpc_ship_next_request_def with_req_def Let_def split: option.splits)
  qed
qed

lemma lists_call_id [simp]: "conn_lists ps qs (s\<lparr>ds_conn := snd (next_call_id (ds_conn s))\<rparr>) \<longleftrightarrow> conn_lists ps qs s"
  by (auto simp: next_call_id_def Let_def elim: lists_frame)

lemma wf_call_id [simp]: "wf_conn (s\<lparr>ds_conn := snd (next_call_id (ds_conn s))\<rparr>) \<longleftrightarrow> wf_conn s"
  by (simp add: wf_conn_def)

lemma find_SomeD: "find P xs = Some x \<Longrightarrow> x \<in> set xs \<and> P x"
  by (auto simp: find_Some_iff)

lemma queue_add_wf:
  "wf_conn s \<Longrightarrow> p = ds_next s \<Longrightarrow> rr_state r = RPC_REQUEST_PENDING \<Longrightarrow> stays_wf (queue_add_end p (new_req p r s))"
  unfolding wf_conn_def [of s] using lists_queue_add by (fastforce simp: wf_conn_def)

lemma pending_add_wf:
  "wf_conn s \<Longrightarrow> p = ds_next s \<Longrightarrow> rr_state r = RPC_REQUEST_PENDING \<Longrightarrow> stays_wf (pending_add_end p (new_req p r s))"
  unfolding wf_conn_def [of s] using lists_pending_add by (fastforce simp: wf_conn_def)

lemma dcerpc_request_send_wf:
  assumes "wf_conn s"
  shows "stays_wf (dcerpc_request_send env pipe obj opnum async stub s)"
proof -
  obtain i c where ic: "next_call_id (ds_conn s) = (i, c)" by fastforce
  have wf: "wf_conn (s\<lparr>ds_conn := c\<rparr>)" using wf_call_id [of s] assms ic by simp
  have new: "s\<lparr>ds_conn := c, ds_reqs := (ds_reqs s)(p \<mapsto> r), ds_next := p + 1\<rparr> = new_req p r (s\<lparr>ds_conn := c\<rparr>)" for p r
    by (simp add: new_req_def)
  show ?thesis unfolding dcerpc_request_send_def ic Let_def prod.case new
    by (intro all_res_andr [OF queue_add_wf [OF wf]] all_res_andr [OF dcerpc_ship_next_request_wf]) auto
qed

lemma pull_reply_auth_wf: "client_ok env \<Longrightarrow> wf_conn s \<Longrightarrow> stays_wf (pull_reply_auth env c blob s)"
  by (auto simp: pull_reply_auth_def intro!: composite_is_ok_wf split: option.splits sum.splits)

lemma finish_bind_wf:
  "client_ok env \<Longrightarrow> wf_conn s \<Longrightarrow> stays_wf (bindr (pull_reply_auth env c auth s) (\<lambda>ok t. if ok then composite_done env c t else Ret () t))"
  by (rule all_res_bindr [OF pull_reply_auth_wf]) (auto intro: composite_done_wf)

lemma dcerpc_bind_recv_handler_wf: "client_ok env \<Longrightarrow> wf_conn s \<Longrightarrow> stays_wf (dcerpc_bind_recv_handler env c pkt s)"
  unfolding dcerpc_bind_recv_handler_def
  by (auto intro!: composite_error_wf finish_bind_wf split: dcerpc_payload.splits)

lemma dcerpc_alter_recv_handler_wf: "client_ok env \<Longrightarrow> wf_conn s \<Longrightarrow> stays_wf (dcerpc_alter_recv_handler env c pkt s)"
  unfolding dcerpc_alter_recv_handler_def
  by (auto intro!: composite_error_wf finish_bind_wf split: dcerpc_payload.splits)

lemma req_done_wf:
  assumes "client_ok env" "conn_lists ps qs s" "p \<in> set ps"
  shows "stays_wf (req_done env p s)"
proof -
  have "wf_conn (pending_remove p (upd_req p (\<lambda>r. r\<lparr>rr_state := RPC_REQUEST_DONE\<rparr>) s))"
    by (rule wf_connI, rule lists_finish [OF assms(2,3)]) simp
  then show ?thesis unfolding req_done_def Let_def
    by (intro all_res_andr [where P = wf_conn] call_callback_wf assms(1)) (auto intro: dcerpc_ship_next_request_wf)
qed

lemma response_data_wf:
  assumes "client_ok env" "conn_lists ps qs s" "p \<in> set ps"
  shows "stays_wf (response_data env p pkt st s)"
proof -
  have l: "conn_lists ps qs (upd_req p (\<lambda>r. r\<lparr>rr_status := st\<rparr>) s)" "conn_lists ps qs (upd_req p (\<lambda>r. r\<lparr>rr_payload := rr_payload r @ x\<rparr>) s)"
    "conn_lists ps qs (upd_req p (\<lambda>r. r\<lparr>rr_flags := f r\<rparr>) (upd_req p (\<lambda>r. r\<lparr>rr_payload := rr_payload r @ x\<rparr>) s))" for x f
    by (auto intro!: lists_upd_req assms(2))
  show ?thesis
    unfolding response_data_def Let_def using req_done_wf [OF assms(1) l(1) assms(3)] req_done_wf [OF assms(1) l(3) assms(3)] l(2)
    by (auto split: dcerpc_payload.splits)
qed

lemma fault_data_wf:
  assumes "client_ok env" "conn_lists ps qs s" "p \<in> set ps"
  shows "stays_wf (fault_data env p code s)"
  unfolding fault_data_def by (rule req_done_wf [OF assms(1) _ assms(3)], rule lists_upd_req [OF assms(2)]) simp

lemma dispatch_wf:
  assumes "client_ok env" "conn_lists ps qs s" "p \<in> set ps"
  shows "stays_wf (dispatch env p pkt st s)"
proof -
  have fin: "wf_conn (pending_remove p (upd_req p (\<lambda>r. r\<lparr>rr_state := RPC_REQUEST_DONE\<rparr>) s))"
    by (rule wf_connI, rule lists_finish [OF assms(2,3)]) simp
  have other: "stays_wf (req_done env p (upd_req p (\<lambda>r. r\<lparr>rr_fault_code := a, rr_status := b\<rparr>) s))" for a b
    by (rule req_done_wf [OF assms(1) _ assms(3)], rule lists_upd_req [OF assms(2)]) simp
  show ?thesis
    unfolding dispatch_def with_req_def Let_def
    using dcerpc_bind_recv_handler_wf [OF assms(1) fin] dcerpc_alter_recv_handler_wf [OF assms(1) fin] fault_data_wf [OF assms]
      response_data_wf [OF assms] other
    by (auto split: option.splits recv_handler.splits dcerpc_payload.splits)
qed

lemma dcerpc_request_recv_data_wf:
  assumes "client_ok env" "wf_conn s"
  shows "stays_wf (dcerpc_request_recv_data env raw pkt s)"
proof -
  have found: "stays_wf (case find_call i t of None \<Rightarrow> Undef | Some None \<Rightarrow> Ret () t | Some (Some p) \<Rightarrow> dispatch env p pkt1 st t)"
    if wf: "wf_conn t" for t i pkt1 st
  proof -
    obtain ps qs where l: "conn_lists ps qs t" using wf by (auto simp: wf_conn_def)
    show ?thesis
      unfolding find_call_lists [OF l] using dispatch_wf [OF assms(1) l] wf
      by (auto split: option.splits dest!: find_SomeD)
  qed
  show ?thesis
    unfolding dcerpc_request_recv_data_def Let_def using found assms(2) by (auto split: option.splits)
qed

lemma dcerpc_recv_data_wf: "client_ok env \<Longrightarrow> wf_conn s \<Longrightarrow> stays_wf (dcerpc_recv_data env blob status s)"
  unfolding dcerpc_recv_data_def Let_def
  by (auto intro: dcerpc_connection_dead_wf dcerpc_request_recv_data_wf all_res_andr [OF dcerpc_connection_dead_wf] split: rpc_res.splits)

lemma dcerpc_timeout_handler_wf:
  assumes "client_ok env" "conn_lists ps qs s" "p \<notin> set qs"
  shows "stays_wf (dcerpc_timeout_handler env p s)"
proof (cases "p \<in> set ps")
  case True
  have "wf_conn (pending_remove p (upd_req p (\<lambda>r. r\<lparr>rr_status := NT_STATUS_IO_TIMEOUT, rr_state := RPC_REQUEST_DONE\<rparr>) s))"
    by (rule wf_connI, rule lists_finish [OF assms(2) True]) simp
  then show ?thesis
    unfolding dcerpc_timeout_handler_def with_req_def using call_callback_wf [OF assms(1)] assms(2) by (auto split: option.splits)
next
  case False
  then have "rr_state r = RPC_REQUEST_DONE" if "ds_reqs s p = Some r" for r using assms(2,3) that by (auto simp: conn_lists_def)
  then show ?thesis
    unfolding dcerpc_timeout_handler_def with_req_def using assms(2) by (auto split: option.splits)
qed

lemma handle_rpc_event_wf:
  assumes "client_ok env" "conn_lists ps qs s" "\<And>p. e = RequestTimeout p \<Longrightarrow> p \<notin> set qs"
  shows "stays_wf (handle_rpc_event env e s)"
  using assms wf_connI [OF assms(2)]
  by (cases e) (auto intro: dcerpc_recv_data_wf dcerpc_timeout_handler_wf composite_trigger_wf)

lemma context_send_wf:
  assumes "client_ok env" "wf_conn s"
  shows "stays_wf (context_send env handler ptype i pipe c s)"
proof -
  have new: "s\<lparr>ds_reqs := (ds_reqs s)(p \<mapsto> r), ds_next := p + 1\<rparr> = new_req p r s" for p r by (simp add: new_req_def)
  have ok: "stays_wf (bindr (composite_is_ok env c t) (\<lambda>_ t. Ret c t))" if "wf_conn t" for t
    by (rule all_res_bindr [OF composite_is_ok_wf]) (use assms(1) that in auto)
  have sent: "stays_wf (bindr (composite_is_ok env c t) (\<lambda>ok u. Ret c (if ok then act a u else u)))" if "wf_conn t" for t a
    by (rule all_res_bindr [OF composite_is_ok_wf]) (use assms(1) that in auto)
  show ?thesis
    unfolding context_send_def Let_def new
    using ok assms(2) by (auto intro!: all_res_andr [OF pending_add_wf] sent split: rpc_res.splits)
qed

lemma wf_composite_create: "wf_conn s \<Longrightarrow> wf_conn (snd (composite_create pipe s))"
proof -
  assume "wf_conn s"
  then obtain ps qs where "conn_lists ps qs s" by (auto simp: wf_conn_def)
  then have "conn_lists ps qs (snd (composite_create pipe s))" by (rule lists_frame) (simp_all add: composite_create_def)
  then show ?thesis ..
qed

lemma wf_set_syntax [simp]: "wf_conn (set_syntax pipe a b s) \<longleftrightarrow> wf_conn s"
  by (simp add: set_syntax_def)

lemma dcerpc_bind_send_wf: "client_ok env \<Longrightarrow> wf_conn s \<Longrightarrow> stays_wf (dcerpc_bind_send env pipe a b s)"
  unfolding dcerpc_bind_send_def Let_def using wf_composite_create [of s pipe]
  by (auto intro!: context_send_wf split: prod.splits)

lemma dcerpc_alter_context_send_wf: "client_ok env \<Longrightarrow> wf_conn s \<Longrightarrow> stays_wf (dcerpc_alter_context_send env pipe a b s)"
  unfolding dcerpc_alter_context_send_def Let_def using wf_composite_create [of s pipe]
  by (auto intro!: context_send_wf split: prod.splits)

lemma dcerpc_auth3_wf:
  assumes "wf_conn s"
  shows "stays_wf (dcerpc_auth3 env s)"
proof -
  obtain i c where ic: "next_call_id (ds_conn s) = (i, c)" by fastforce
  have wf: "wf_conn (s\<lparr>ds_conn := c\<rparr>)" using wf_call_id [of s] assms ic by simp
  then show ?thesis unfolding dcerpc_auth3_def ic Let_def prod.case by (auto split: rpc_res.splits)
qed

lemma lists_free_comp:
  assumes "conn_lists ps qs s" "\<And>p r. p \<in> set ps \<union> set qs \<Longrightarrow> ds_reqs s p = Some r \<Longrightarrow> rr_callback r \<noteq> CompositeFail c"
  shows "conn_lists ps qs (free_comp c s)"
proof -
  have keep: "ds_reqs (free_comp c s) p = ds_reqs s p" if "p \<in> set ps \<union> set qs" for p
    using assms(2) [OF that] by (cases "ds_reqs s p") (auto simp: free_comp_def)
  have less: "ds_reqs s p = Some r" if "ds_reqs (free_comp c s) p = Some r" for p r
    using that by (cases "ds_reqs s p") (auto simp: free_comp_def split: if_splits)
  have t: "ds_conn (free_comp c s) = ds_conn s" "ds_links (free_comp c s) = ds_links s" "ds_next (free_comp c s) = ds_next s"
    by (simp_all add: free_comp_def)
  show ?thesis unfolding conn_lists_def t
  proof (intro conjI ballI allI impI)
    show "dlist (dc_pending (ds_conn s), ds_links s) ps" "dlist (dc_request_queue (ds_conn s), ds_links s) qs" "set ps \<inter> set qs = {}"
      using assms(1) by (auto simp: conn_lists_def)
    show "ds_reqs (free_comp c s) p \<noteq> None" if "p \<in> set ps \<union> set qs" for p
      using that assms(1) keep [OF that] by (auto simp: conn_lists_def)
    fix p r
    assume "ds_reqs (free_comp c s) p = Some r"
    then have "ds_reqs s p = Some r" by (rule less)
    then show "p < ds_next s" "if p \<in> set ps \<union> set qs then rr_state r = RPC_REQUEST_PENDING else rr_state r = RPC_REQUEST_DONE \<and> unlinked (ds_links s) p"
      using assms(1) unfolding conn_lists_def by blast+
  qed
qed

section \<open>Reachable states\<close>

text \<open>
  The states of a connection between two calls: the client sends requests and installs
  continuations, binds and alters contexts, completes the authentication, waits for events, and frees
  requests and contexts. A request that is still in the queue does not time out and is not freed, and a
  context is not freed while its request is in a list.
\<close>

definition queued :: "dstate \<Rightarrow> nat \<Rightarrow> bool" where
  "queued s p \<longleftrightarrow> (\<exists>qs. dlist (queue_list s) qs \<and> p \<in> set qs)"

inductive rpc_run :: "rpc_env \<Rightarrow> dstate \<Rightarrow> bool" for env where
  start: "rpc_run env (initial_dstate lk)"
| request: "rpc_run env s \<Longrightarrow> dcerpc_request_send env pipe obj opnum async stub s = Ret p t \<Longrightarrow> rpc_run env t"
| continue: "rpc_run env s \<Longrightarrow> composite_continue_rpc p s = Ret u t \<Longrightarrow> rpc_run env t"
| continue_comp: "rpc_run env s \<Longrightarrow> composite_continue c s = Ret u t \<Longrightarrow> rpc_run env t"
| bind: "rpc_run env s \<Longrightarrow> dcerpc_bind_send env pipe a b s = Ret c t \<Longrightarrow> rpc_run env t"
| alter: "rpc_run env s \<Longrightarrow> dcerpc_alter_context_send env pipe a b s = Ret c t \<Longrightarrow> rpc_run env t"
| auth3: "rpc_run env s \<Longrightarrow> dcerpc_auth3 env s = Ret st t \<Longrightarrow> rpc_run env t"
| event: "rpc_run env s \<Longrightarrow> (\<And>p. e = RequestTimeout p \<Longrightarrow> \<not> queued s p) \<Longrightarrow> handle_rpc_event env e s = Ret u t \<Longrightarrow> rpc_run env t"
| finish: "rpc_run env s \<Longrightarrow> ds_reqs s p = Some r \<Longrightarrow> \<not> queued s p \<Longrightarrow> rpc_run env (free_req p (finish_request r s))"
| discard: "rpc_run env s \<Longrightarrow> (\<And>p r. ds_reqs s p = Some r \<Longrightarrow> rr_callback r = CompositeFail c \<Longrightarrow> rr_state r = RPC_REQUEST_DONE) \<Longrightarrow>
    rpc_run env (free_comp c s)"

inductive_cases rpc_runE: "rpc_run env s"

lemma not_queued: "conn_lists ps qs s \<Longrightarrow> \<not> queued s p \<Longrightarrow> p \<notin> set qs"
  by (auto simp: conn_lists_def queued_def queue_list_def)

lemma initial_lists: "conn_lists [] [] (initial_dstate lk)"
  by (simp add: conn_lists_def initial_dstate_def dcerpc_connection_init_def dlist_def)

lemma composite_continue_rpc_wf:
  assumes "wf_conn s"
  shows "stays_wf (composite_continue_rpc p s)"
proof -
  obtain ps qs where l: "conn_lists ps qs s" using assms by (auto simp: wf_conn_def)
  have "conn_lists ps qs (upd_req p (\<lambda>r. r\<lparr>rr_callback := Client\<rparr>) s)" by (rule lists_upd_req [OF l]) simp
  then show ?thesis by (auto simp: composite_continue_rpc_def with_req_def split: option.splits)
qed

lemma composite_continue_wf: "wf_conn s \<Longrightarrow> stays_wf (composite_continue c s)"
  by (auto simp: composite_continue_def Let_def split: option.splits)

lemma finish_request_wf: "wf_conn s \<Longrightarrow> wf_conn (finish_request r s)"
  by (simp add: finish_request_def)

lemma rpc_run_wf:
  assumes "client_ok env" "rpc_run env s"
  shows "wf_conn s"
  using assms(2)
proof (induction rule: rpc_run.induct)
  case (start lk)
  show ?case by (rule wf_connI [OF initial_lists])
next
  case (event s e u t)
  obtain ps qs where l: "conn_lists ps qs s" using event.IH by (auto simp: wf_conn_def)
  have "stays_wf (handle_rpc_event env e s)" by (rule handle_rpc_event_wf [OF assms(1) l]) (use not_queued [OF l] event.hyps(2) in auto)
  then show ?case by (rule all_res_RetD) (rule event.hyps(3))
next
  case (finish s p r)
  obtain ps qs where l: "conn_lists ps qs s" using finish.IH by (auto simp: wf_conn_def)
  have f: "conn_lists ps qs (finish_request r s)" using l by (simp add: finish_request_def)
  have "conn_lists (remove1 p ps) qs (free_req p (finish_request r s))"
    by (rule lists_free [OF f]) (use not_queued [OF l] finish.hyps(2,3) in \<open>auto simp: finish_request_def\<close>)
  then show ?case ..
next
  case (discard s c)
  obtain ps qs where l: "conn_lists ps qs s" using discard.IH by (auto simp: wf_conn_def)
  have "conn_lists ps qs (free_comp c s)"
    by (rule lists_free_comp [OF l]) (use lists_live [OF l] discard.hyps(2) in fastforce)
  then show ?case ..
qed (use assms(1) in \<open>auto dest: all_res_RetD [OF dcerpc_request_send_wf] all_res_RetD [OF composite_continue_rpc_wf]
  all_res_RetD [OF composite_continue_wf] all_res_RetD [OF dcerpc_bind_send_wf [OF assms(1)]]
  all_res_RetD [OF dcerpc_alter_context_send_wf [OF assms(1)]] all_res_RetD [OF dcerpc_auth3_wf]\<close>)

end
