(* ===== verification/DcerpcProps.thy ===== *)
theory DcerpcProps
  imports DcerpcInv
begin

text \<open>
  What the RPC runtime does: the fragments a request is sent in, the lists of a connection in every
  reachable state, how replies are put together, and what happens to requests when the connection
  breaks, a packet cannot be sent or a request times out.
\<close>

section \<open>Fragments of a request\<close>

text \<open>A list in pieces of \<open>c\<close> elements; an empty list is one piece.\<close>

fun pieces :: "nat \<Rightarrow> 'a list \<Rightarrow> 'a list list" where
  "pieces c xs = (if c = 0 \<or> length xs \<le> c then [xs] else take c xs # pieces c (drop c xs))"

declare pieces.simps [simp del]

fun tagged :: "u8 \<Rightarrow> bool \<Rightarrow> 'a list list \<Rightarrow> (u8 \<times> 'a list \<times> bool) list" where
  "tagged f is_first [] = []"
| "tagged f is_first [x] = [(fragment_flags f is_first True, x, True)]"
| "tagged f is_first (x # y # r) = (fragment_flags f is_first False, x, False) # tagged f False (y # r)"

text \<open>Sign and send one fragment after another, up to the first failure.\<close>

fun send_fragments :: "rpc_env \<Rightarrow> nat \<Rightarrow> ncacn_packet \<Rightarrow> (u8 \<times> u8 list \<times> bool) list \<Rightarrow> unit rcall" where
  "send_fragments env p pkt [] s = Ret () s"
| "send_fragments env p pkt ((flags, stub, last_frag) # fs) s =
     (case ncacn_push_request_sign (ev_codec env) (pkt\<lparr>pk_pfc_flags := flags, pk_u := with_stub stub (pk_u pkt)\<rparr>) (dc_security (ds_conn s)) of
        (RBad, sec) \<Rightarrow> Undef
      | (RErr e, sec) \<Rightarrow> Ret () (fail_request p e (upd_conn (\<lambda>c. c\<lparr>dc_security := sec\<rparr>) s))
      | (ROk blob, sec) \<Rightarrow>
          (let s1 = upd_conn (\<lambda>c. c\<lparr>dc_security := sec\<rparr>) s;
               st = ev_send_request env (length (ds_acts s1)) blob last_frag;
               s2 = act (SendRequest blob last_frag) s1
           in if NT_STATUS_IS_OK st then send_fragments env p pkt fs (upd_req p (\<lambda>r. r\<lparr>rr_status := st\<rparr>) s2)
              else Ret () (fail_request p st s2)))"

lemma concat_pieces [simp]: "concat (pieces c xs) = xs"
  by (induction c xs rule: pieces.induct) (subst pieces.simps, simp)

lemma pieces_not_Nil [simp]: "pieces c xs \<noteq> []"
  by (subst pieces.simps) simp

lemma length_piece: "0 < c \<Longrightarrow> x \<in> set (pieces c xs) \<Longrightarrow> length x \<le> c"
proof (induction c xs rule: pieces.induct)
  case (1 c xs)
  show ?case
  proof (cases "length xs \<le> c")
    case True
    then have "pieces c xs = [xs]" by (subst pieces.simps) simp
    then show ?thesis using 1(3) True by simp
  next
    case False
    then have "pieces c xs = take c xs # pieces c (drop c xs)" using 1(2) by (subst pieces.simps) simp
    then show ?thesis using 1 False by auto
  qed
qed

lemma length_pieces: "0 < c \<Longrightarrow> length (pieces c xs) \<le> length xs + 1"
proof (induction c xs rule: pieces.induct)
  case (1 c xs)
  show ?case
  proof (cases "length xs \<le> c")
    case True
    then have "pieces c xs = [xs]" by (subst pieces.simps) simp
    then show ?thesis by simp
  next
    case False
    then have "pieces c xs = take c xs # pieces c (drop c xs)" using 1(2) by (subst pieces.simps) simp
    then show ?thesis using 1 False by auto
  qed
qed

lemma tagged_stubs [simp]: "map (\<lambda>f. fst (snd f)) (tagged f b xs) = xs"
  by (induction f b xs rule: tagged.induct) simp_all

lemma length_tagged [simp]: "length (tagged f b xs) = length xs"
  by (induction f b xs rule: tagged.induct) simp_all

lemma tagged_nth: "i < length xs \<Longrightarrow> tagged f b xs ! i = (fragment_flags f (b \<and> i = 0) (i = length xs - 1), xs ! i, i = length xs - 1)"
proof (induction f b xs arbitrary: i rule: tagged.induct)
  case (3 f b x y r)
  then show ?case by (cases i) auto
qed simp_all

lemma fragment_flags_bits:
  "fragment_flags f a b AND DCERPC_PFC_FLAG_FIRST \<noteq> 0 \<longleftrightarrow> a"
  "fragment_flags f a b AND DCERPC_PFC_FLAG_LAST \<noteq> 0 \<longleftrightarrow> b"
  "fragment_flags f a b AND DCERPC_PFC_FLAG_ORPC = f AND DCERPC_PFC_FLAG_ORPC"
proof -
  have bits: "\<And>n. n < 8 \<Longrightarrow> bit (fragment_flags f a b) n = (if n = 0 then a else if n = 1 then b else bit f n)"
  proof -
    fix n :: nat
    assume "n < 8"
    then have "n \<in> {0, 1, 2, 3, 4, 5, 6, 7}" by auto
    then show "bit (fragment_flags f a b) n = (if n = 0 then a else if n = 1 then b else bit f n)"
      unfolding fragment_flags_def Let_def by (elim insertE emptyE) (auto simp: bit_simps)
  qed
  have one: "w AND 1 \<noteq> 0 \<longleftrightarrow> bit w 0" and two: "w AND 2 \<noteq> 0 \<longleftrightarrow> bit w 1" for w :: u8
  proof -
    show "w AND 1 \<noteq> 0 \<longleftrightarrow> bit w 0" by (simp add: and_exp_eq_0_iff_not_bit [of w 0, simplified])
    show "w AND 2 \<noteq> 0 \<longleftrightarrow> bit w 1" by (simp add: and_exp_eq_0_iff_not_bit [of w 1, simplified])
  qed
  show "fragment_flags f a b AND 1 \<noteq> 0 \<longleftrightarrow> a" unfolding one using bits [of 0] by simp
  show "fragment_flags f a b AND 2 \<noteq> 0 \<longleftrightarrow> b" unfolding two using bits [of 1] by simp
  show "fragment_flags f a b AND 128 = f AND 128"
  proof (rule bit_word_eqI)
    fix n
    assume "n < LENGTH(8)"
    then have n: "n < 8" by simp
    have "\<not> bit (128 :: u8) 0" "\<not> bit (128 :: u8) 1" by (simp_all add: bit_numeral_rec)
    then show "bit (fragment_flags f a b AND 128) n = bit (f AND 128) n"
      using bits [OF n] by (auto simp: bit_and_iff split: if_splits)
  qed
qed

lemma fragment_flags_again [simp]: "fragment_flags (fragment_flags f a b) c d = fragment_flags f c d"
proof -
  have "(fragment_flags f a b) AND NOT 3 = f AND NOT 3"
    unfolding fragment_flags_def Let_def by (rule bit_word_eqI) (auto simp: bit_simps)
  then show ?thesis unfolding fragment_flags_def [of "fragment_flags f a b"] fragment_flags_def [of f c d] by simp
qed

lemma tagged_again [simp]: "tagged (fragment_flags f a b) c xs = tagged f c xs"
  by (induction f c xs rule: tagged.induct) simp_all

lemma with_stub_again [simp]: "with_stub x (with_stub y u) = with_stub x u"
  by (cases u) (simp_all add: with_stub_def)

lemma send_fragments_base [simp]:
  "send_fragments env p (pkt\<lparr>pk_pfc_flags := f, pk_u := with_stub x (pk_u pkt)\<rparr>) fs s = send_fragments env p pkt fs s"
  by (induction env p pkt fs s rule: send_fragments.induct)
    (simp_all add: Let_def split: prod.splits rpc_res.splits)

text \<open>One turn of the loop.\<close>

lemma ship_loop_step:
  assumes "0 < remaining \<or> first_packet"
  shows "ship_loop (Suc n) env p data c pkt remaining first_packet s =
    (let chunk = min c remaining;
         flags = fragment_flags (pk_pfc_flags pkt) (unat remaining = length data) (chunk = remaining);
         stub = take (unat chunk) (drop (length data - unat remaining) data)
     in case ncacn_push_request_sign (ev_codec env) (pkt\<lparr>pk_pfc_flags := flags, pk_u := with_stub stub (pk_u pkt)\<rparr>) (dc_security (ds_conn s)) of
        (RBad, sec) \<Rightarrow> Undef
      | (RErr e, sec) \<Rightarrow> Ret () (fail_request p e (upd_conn (\<lambda>c. c\<lparr>dc_security := sec\<rparr>) s))
      | (ROk blob, sec) \<Rightarrow>
          (let s1 = upd_conn (\<lambda>c. c\<lparr>dc_security := sec\<rparr>) s;
               st = ev_send_request env (length (ds_acts s1)) blob (chunk = remaining);
               s2 = act (SendRequest blob (chunk = remaining)) s1
           in if NT_STATUS_IS_OK st
              then ship_loop n env p data c (pkt\<lparr>pk_pfc_flags := flags, pk_u := with_stub stub (pk_u pkt)\<rparr>) (remaining - chunk) False
                     (upd_req p (\<lambda>r. r\<lparr>rr_status := st\<rparr>) s2)
              else Ret () (fail_request p st s2)))"
  using assms by (auto simp: Let_def split: prod.splits rpc_res.splits)

lemma ship_loop_end: "ship_loop (Suc n) env p data c pkt 0 False s = Ret () s"
  by simp

text \<open>The loop sends the pieces of what is left.\<close>

lemma ship_loop_fragments:
  assumes "0 < c" "length (sent @ rest) < 2 ^ 32" "length (pieces (unat c) rest) < n" "rest \<noteq> [] \<or> sent = [] \<and> first_packet"
  shows "ship_loop n env p (sent @ rest) c pkt (of_nat (length rest)) first_packet s =
    send_fragments env p pkt (tagged (pk_pfc_flags pkt) (sent = []) (pieces (unat c) rest)) s"
  using assms
proof (induction n arbitrary: sent rest pkt first_packet s)
  case 0
  then show ?case by simp
next
  case (Suc n)
  define rem where "rem = (of_nat (length rest) :: u32)"
  have len: "length rest < 2 ^ 32" using Suc.prems(2) by simp
  have urem: "unat rem = length rest" using len by (simp add: rem_def unat_of_nat)
  have go: "0 < rem \<or> first_packet" using Suc.prems(4) urem by (auto simp: word_gt_0_no word_less_nat_alt)
  have c0: "0 < unat c" using Suc.prems(1) by (simp add: word_less_nat_alt)
  have first: "(length rest = length (sent @ rest)) = (sent = [])" by auto
  have start: "drop (length (sent @ rest) - length rest) (sent @ rest) = rest" by simp
  show ?case
  proof (cases "length rest \<le> unat c")
    case True
    then have "rem \<le> c" by (simp add: word_le_nat_alt urem)
    then have ch: "min c rem = rem" by (rule min.absorb2)
    have ps: "pieces (unat c) rest = [rest]" using True by (subst pieces.simps) simp
    obtain m where m: "n = Suc m" using Suc.prems(3) ps by (cases n) auto
    show ?thesis
      unfolding rem_def [symmetric] ship_loop_step [OF go] ps
      by (simp add: ch urem first m Let_def split: prod.splits rpc_res.splits)
  next
    case False
    then have ch: "min c rem = c" "c \<noteq> rem" by (auto simp: min_def word_le_nat_alt urem)
    define rest' where "rest' = drop (unat c) rest"
    have ps: "pieces (unat c) rest = take (unat c) rest # pieces (unat c) rest'"
      using False c0 unfolding rest'_def by (subst pieces.simps) simp
    obtain y r where yr: "pieces (unat c) rest' = y # r" by (cases "pieces (unat c) rest'") auto
    have rem': "rem - c = of_nat (length rest')"
    proof -
      have "rem = of_nat (length rest' + unat c)" unfolding rem_def rest'_def using False by simp
      then show ?thesis by simp
    qed
    have split: "sent @ rest = (sent @ take (unat c) rest) @ rest'" by (simp add: rest'_def)
    have ne: "rest' \<noteq> []" "sent @ take (unat c) rest \<noteq> []" using False c0 by (auto simp: rest'_def)
    have IH: "ship_loop n env p (sent @ rest) c q (of_nat (length rest')) False t =
        send_fragments env p q (tagged (pk_pfc_flags q) False (pieces (unat c) rest')) t" for q t
    proof -
      have "(sent @ take (unat c) rest = []) = False" using ne(2) by simp
      then show ?thesis
        unfolding split using Suc.IH [OF Suc.prems(1), of "sent @ take (unat c) rest" rest' False] Suc.prems(2) [unfolded split] Suc.prems(3) ne(1) ps
        by (simp del: append_is_Nil_conv)
    qed
    show ?thesis
      unfolding rem_def [symmetric] ship_loop_step [OF go]
      by (simp add: ch urem first rem' IH ps yr Let_def split: prod.splits rpc_res.splits del: tagged.simps(2))
  qed
qed

lemma ship_keeps [simp]:
  "dc_security (ds_conn (pending_add p (queue_remove p s))) = dc_security (ds_conn s)"
  "dc_srv_max_recv_frag (ds_conn (pending_add p (queue_remove p s))) = dc_srv_max_recv_frag (ds_conn s)"
  "ds_pipes (pending_add p (queue_remove p s)) = ds_pipes s" "ds_reqs (pending_add p (queue_remove p s)) = ds_reqs s"
  "ds_acts (pending_add p (queue_remove p s)) = ds_acts s" "ds_next (pending_add p (queue_remove p s)) = ds_next s"
  by (simp_all add: pending_add_def queue_remove_def set_pending_def set_queue_def upd_conn_def)

lemma ship_fragments_eq:
  assumes "dc_request_queue (ds_conn s) = Some p" "ds_reqs s p = Some r" "rr_async_call r \<or> dc_pending (ds_conn s) = None"
    and c: "c = chunk_size_of (dc_srv_max_recv_frag (ds_conn s)) (rr_object r)" "0 < c"
    and len: "length (rr_request_data r) < 2 ^ 32" "length (rr_request_data r) + 1 < ev_fuel env"
    and pkt: "pkt = request_packet (ds_conn s) (ds_pipes s (rr_pipe r)) r"
  shows "dcerpc_ship_next_request env s =
    send_fragments env p pkt (tagged (pk_pfc_flags pkt) True (pieces (unat c) (rr_request_data r))) (pending_add p (queue_remove p s))"
proof -
  let ?d = "rr_request_data r"
  have c0: "0 < unat c" using c(2) by (simp add: word_less_nat_alt)
  have n: "length (pieces (unat c) ?d) < ev_fuel env" using length_pieces [OF c0, of ?d] len(2) by simp
  have "dcerpc_ship_next_request env s =
      ship_loop (ev_fuel env) env p ?d c pkt (of_nat (length ?d)) True (pending_add p (queue_remove p s))"
    using assms(1-3) by (auto simp: dcerpc_ship_next_request_def with_req_def Let_def c(1) pkt request_packet_def)
  also have "\<dots> = send_fragments env p pkt (tagged (pk_pfc_flags pkt) True (pieces (unat c) ?d)) (pending_add p (queue_remove p s))"
    using ship_loop_fragments [of c "[]" ?d "ev_fuel env" True] c(2) len(1) n by simp
  finally show ?thesis .
qed

text \<open>C12. Sending a request. When the server accepts fragments larger than the headers, the
  request at the head of the queue is moved to the pending list and its data is signed and sent in
  consecutive fragments up to the first failure: together they are the data, none is larger than the
  chunk size, exactly the first is marked FIRST and exactly the last is marked LAST. The loop ends.\<close>

theorem ship_sends_fragments:
  assumes "dc_request_queue (ds_conn s) = Some p" "ds_reqs s p = Some r" "rr_async_call r \<or> dc_pending (ds_conn s) = None"
    and c: "c = chunk_size_of (dc_srv_max_recv_frag (ds_conn s)) (rr_object r)" "0 < c"
    and len: "length (rr_request_data r) < 2 ^ 32" "length (rr_request_data r) + 1 < ev_fuel env"
    and pkt: "pkt = request_packet (ds_conn s) (ds_pipes s (rr_pipe r)) r"
  shows "\<exists>fs. dcerpc_ship_next_request env s = send_fragments env p pkt fs (pending_add p (queue_remove p s)) \<and>
    fs \<noteq> [] \<and> concat (map (\<lambda>f. fst (snd f)) fs) = rr_request_data r \<and>
    (\<forall>i < length fs. length (fst (snd (fs ! i))) \<le> unat c \<and>
       (fst (fs ! i) AND DCERPC_PFC_FLAG_FIRST \<noteq> 0 \<longleftrightarrow> i = 0) \<and>
       (fst (fs ! i) AND DCERPC_PFC_FLAG_LAST \<noteq> 0 \<longleftrightarrow> i = length fs - 1) \<and>
       (snd (snd (fs ! i)) \<longleftrightarrow> i = length fs - 1) \<and>
       fst (fs ! i) AND DCERPC_PFC_FLAG_ORPC = (if rr_object r = None then 0 else DCERPC_PFC_FLAG_ORPC))"
proof -
  let ?d = "rr_request_data r"
  let ?fs = "tagged (pk_pfc_flags pkt) True (pieces (unat c) ?d)"
  have c0: "0 < unat c" using c(2) by (simp add: word_less_nat_alt)
  have orpc: "pk_pfc_flags pkt AND 128 = (if rr_object r = None then 0 else 128)"
    by (auto simp: pkt request_packet_def split: option.splits)
  note eq = ship_fragments_eq [OF assms]
  have len_fs: "length ?fs = length (pieces (unat c) ?d)" by simp
  show ?thesis
  proof (intro exI [of _ ?fs] conjI allI impI eq)
    show "?fs \<noteq> []" using len_fs by (metis length_0_conv pieces_not_Nil)
    show "concat (map (\<lambda>f. fst (snd f)) ?fs) = ?d" by simp
    fix i
    assume "i < length ?fs"
    then have i: "i < length (pieces (unat c) ?d)" by simp
    note nth = tagged_nth [OF i, of "pk_pfc_flags pkt" True]
    show "length (fst (snd (?fs ! i))) \<le> unat c" using length_piece [OF c0 nth_mem [OF i]] by (simp add: nth)
    show "(fst (?fs ! i) AND 1 \<noteq> 0) = (i = 0)" unfolding nth by (simp only: fst_conv fragment_flags_bits) simp
    show "(fst (?fs ! i) AND 2 \<noteq> 0) = (i = length ?fs - 1)" unfolding nth len_fs by (simp only: fst_conv fragment_flags_bits)
    show "snd (snd (?fs ! i)) = (i = length ?fs - 1)" unfolding nth len_fs by simp
    show "fst (?fs ! i) AND 128 = (if rr_object r = None then 0 else 128)" unfolding nth fst_conv fragment_flags_bits orpc ..
  qed
qed

text \<open>The given fragments of a packet can be marshalled, without authentication, and the transport takes
  them. Nothing is said of any other packet.\<close>

definition carries :: "rpc_env \<Rightarrow> ncacn_packet \<Rightarrow> (u8 \<times> u8 list \<times> bool) list \<Rightarrow> bool" where
  "carries env pkt fs \<longleftrightarrow> (\<forall>(flags, stub, is_last) \<in> set fs.
     \<exists>b. ncacn_push_auth (ev_codec env) (pkt\<lparr>pk_pfc_flags := flags, pk_u := with_stub stub (pk_u pkt)\<rparr>) None = ROk b \<and>
       (\<forall>n. ev_send_request env n b is_last = NT_STATUS_OK))"

lemma carries_again: "carries env (pkt\<lparr>pk_pfc_flags := f, pk_u := with_stub x (pk_u pkt)\<rparr>) fs \<longleftrightarrow> carries env pkt fs"
  by (simp add: carries_def)

lemma sign_plain: "rs_auth_info sec = None \<Longrightarrow> ncacn_push_request_sign codec pkt sec = (ncacn_push_auth codec pkt None, sec)"
  by (simp add: ncacn_push_request_sign_def split: option.splits)

lemma NT_STATUS_IS_OK_OK [simp]: "NT_STATUS_IS_OK NT_STATUS_OK"
  by (simp add: NT_STATUS_IS_OK_def)

lemma ship_loop_no_progress:
  shows "\<forall>f. carries env pkt [(f, [], False)] \<Longrightarrow> 0 < remaining \<Longrightarrow> rs_auth_info (dc_security (ds_conn s)) = None \<Longrightarrow>
    ship_loop n env p data 0 pkt remaining first_packet s = Hang"
proof (induction n arbitrary: pkt first_packet s)
  case (Suc n)
  have ch: "min 0 remaining = (0 :: u32)" by (simp add: min_def)
  define f where "f = fragment_flags (pk_pfc_flags pkt) (unat remaining = length data) (0 = remaining)"
  define q where "q = pkt\<lparr>pk_pfc_flags := f, pk_u := with_stub [] (pk_u pkt)\<rparr>"
  obtain blob where b: "ncacn_push_auth (ev_codec env) q None = ROk blob" "\<And>k. ev_send_request env k blob False = NT_STATUS_OK"
    using Suc.prems(1) [rule_format, of f] by (auto simp: carries_def q_def)
  have q: "\<forall>f. carries env q [(f, [], False)]" using Suc.prems(1) unfolding q_def carries_again .
  have last: "(0 = remaining) = False" using Suc.prems(2) by auto
  show ?case
    unfolding ship_loop_step [OF disjI1 [OF Suc.prems(2)]] Let_def ch unat_0 take_0 f_def [symmetric] q_def [symmetric]
    using Suc.IH [OF q] Suc.prems(2,3) b last by (simp add: sign_plain upd_conn_def act_def upd_req_def)
qed simp

text \<open>The limit a server announces in its bind reply is used without a check: with 56, the size of
  the headers, every fragment is empty and a request with data is sent as empty fragments without
  end, whatever number of rounds is allowed.\<close>

theorem ship_never_ends:
  assumes "rs_auth_info (dc_security (ds_conn s)) = None"
    and "dc_request_queue (ds_conn s) = Some p" "ds_reqs s p = Some r" "dc_pending (ds_conn s) = None"
    and "\<forall>f. carries env (request_packet (ds_conn s) (ds_pipes s (rr_pipe r)) r) [(f, [], False)]"
    and "rr_object r = None" "rr_request_data r \<noteq> []" "length (rr_request_data r) < 2 ^ 32" "dc_srv_max_recv_frag (ds_conn s) = 56"
  shows "dcerpc_ship_next_request env s = Hang"
proof -
  have "0 < (of_nat (length (rr_request_data r)) :: u32)" using assms(7,8) by (simp add: word_less_nat_alt unat_of_nat)
  moreover have "chunk_size_of 56 None = 0" by (simp add: chunk_size_of_def)
  moreover have "request_packet (ds_conn (pending_add p (queue_remove p s))) (ds_pipes s (rr_pipe r)) r =
      request_packet (ds_conn s) (ds_pipes s (rr_pipe r)) r" by (simp add: request_packet_def)
  ultimately show ?thesis
    using assms by (auto simp: dcerpc_ship_next_request_def with_req_def Let_def ship_loop_no_progress)
qed

section \<open>A request and its reply\<close>

text \<open>On an unauthenticated connection that sends everything, nothing changes but the transport.\<close>

definition acted :: "rpc_act list \<Rightarrow> dstate \<Rightarrow> dstate" where
  "acted as s = s\<lparr>ds_acts := ds_acts s @ as\<rparr>"

lemma acted_simps [simp]:
  "ds_conn (acted as s) = ds_conn s" "ds_pipes (acted as s) = ds_pipes s" "ds_reqs (acted as s) = ds_reqs s"
  "ds_links (acted as s) = ds_links s" "ds_comps (acted as s) = ds_comps s" "ds_next (acted as s) = ds_next s"
  "acted [] s = s" "acted bs (acted as s) = acted (as @ bs) s" "act a s = acted [a] s"
  by (simp_all add: acted_def act_def)

lemma acted_acts: "ds_acts (acted as s) = ds_acts s @ as"
  by (simp add: acted_def)

lemma lists_acted [simp]: "conn_lists ps qs (acted as s) \<longleftrightarrow> conn_lists ps qs s"
  by (auto simp: acted_def elim: lists_frame)

lemma upd_req_same: "ds_reqs s p = Some r \<Longrightarrow> f r = r \<Longrightarrow> upd_req p f s = s"
proof -
  assume a: "ds_reqs s p = Some r" "f r = r"
  then have "(ds_reqs s)(p := map_option f (ds_reqs s p)) = ds_reqs s" by (auto simp: fun_eq_iff)
  then show ?thesis by (simp add: upd_req_def)
qed

lemma upd_security_same: "upd_conn (\<lambda>c. c\<lparr>dc_security := dc_security (ds_conn s)\<rparr>) s = s"
  by (simp add: upd_conn_def)

lemma send_fragments_plain:
  shows "carries env pkt fs \<Longrightarrow> rs_auth_info (dc_security (ds_conn s)) = None \<Longrightarrow> ds_reqs s p = Some r \<Longrightarrow> rr_status r = NT_STATUS_OK \<Longrightarrow>
    \<exists>as. send_fragments env p pkt fs s = Ret () (acted as s)"
proof (induction fs arbitrary: s)
  case Nil
  have "send_fragments env p pkt [] s = Ret () (acted [] s)" by simp
  then show ?case by blast
next
  case (Cons f fs)
  obtain flags stub l where f: "f = (flags, stub, l)" by (cases f) auto
  obtain b where b: "ncacn_push_auth (ev_codec env) (pkt\<lparr>pk_pfc_flags := flags, pk_u := with_stub stub (pk_u pkt)\<rparr>) None = ROk b"
    and st: "\<And>n. ev_send_request env n b l = NT_STATUS_OK"
    using Cons.prems(1) unfolding carries_def f by auto
  have rest: "carries env pkt fs" using Cons.prems(1) by (simp add: carries_def)
  have same: "upd_req p (\<lambda>r. r\<lparr>rr_status := NT_STATUS_OK\<rparr>) (acted [SendRequest b l] s) = acted [SendRequest b l] s"
    by (rule upd_req_same [of _ _ r]) (use Cons.prems(3,4) in auto)
  obtain as where "send_fragments env p pkt fs (acted [SendRequest b l] s) = Ret () (acted as (acted [SendRequest b l] s))"
    using Cons.IH [OF rest, of "acted [SendRequest b l] s"] Cons.prems by auto
  then have "send_fragments env p pkt (f # fs) s = Ret () (acted ([SendRequest b l] @ as) s)"
    using same by (simp add: f sign_plain [OF Cons.prems(2)] b st upd_security_same)
  then show ?case by blast
qed

text \<open>The request as it is waiting for its reply, and the state it waits in.\<close>

definition waiting :: "nat \<Rightarrow> u16 \<Rightarrow> u8 list option \<Rightarrow> bool \<Rightarrow> u8 list \<Rightarrow> u32 \<Rightarrow> rpc_request" where
  "waiting pipe opnum obj async stub i =
     \<lparr>rr_pipe = pipe, rr_status = NT_STATUS_OK, rr_call_id = i, rr_state = RPC_REQUEST_PENDING, rr_payload = [],
      rr_flags = 0, rr_fault_code = 0, rr_recv_handler = NoHandler, rr_object = obj, rr_opnum = opnum,
      rr_request_data = stub, rr_async_call = async, rr_callback = NoCallback\<rparr>"

text \<open>The fragments a request is sent in.\<close>

definition request_fragments :: "dstate \<Rightarrow> nat \<Rightarrow> u8 list option \<Rightarrow> u16 \<Rightarrow> bool \<Rightarrow> u8 list \<Rightarrow> ncacn_packet \<times> (u8 \<times> u8 list \<times> bool) list" where
  "request_fragments s pipe obj opnum async stub =
     (let pkt = request_packet (ds_conn s) (ds_pipes s pipe) (waiting pipe opnum obj async stub (fst (next_call_id (ds_conn s))))
      in (pkt, tagged (pk_pfc_flags pkt) True (pieces (unat (chunk_size_of (dc_srv_max_recv_frag (ds_conn s)) obj)) stub)))"

lemma dcerpc_request_send_plain:
  assumes env: "case request_fragments s pipe obj opnum async stub of (pkt, fs) \<Rightarrow> carries env pkt fs"
    and auth: "rs_auth_info (dc_security (ds_conn s)) = None" and l: "conn_lists ps [] s" "async \<or> ps = []"
    and c: "0 < chunk_size_of (dc_srv_max_recv_frag (ds_conn s)) obj"
    and len: "length stub < 2 ^ 32" "length stub + 1 < ev_fuel env"
  shows "\<exists>t. dcerpc_request_send env pipe obj opnum async stub s = Ret (ds_next s) t \<and> conn_lists (ds_next s # ps) [] t \<and>
    ds_reqs t = (ds_reqs s)(ds_next s \<mapsto> waiting pipe opnum obj async stub (fst (next_call_id (ds_conn s)))) \<and>
    ds_pipes t = ds_pipes s \<and> dc_security (ds_conn t) = dc_security (ds_conn s)"
proof -
  define p where "p = ds_next s"
  define i where "i = fst (next_call_id (ds_conn s))"
  define r where "r = waiting pipe opnum obj async stub i"
  define s0 where "s0 = s\<lparr>ds_conn := snd (next_call_id (ds_conn s))\<rparr>"
  have conn0: "dc_security (ds_conn s0) = dc_security (ds_conn s)" "dc_srv_max_recv_frag (ds_conn s0) = dc_srv_max_recv_frag (ds_conn s)"
    "ds_pipes s0 = ds_pipes s" "ds_reqs s0 = ds_reqs s" "ds_next s0 = ds_next s"
    by (simp_all add: s0_def next_call_id_def Let_def)
  obtain s1 where s1: "queue_add_end p (new_req p r s0) = Ret () s1" "conn_lists ps ([] @ [p]) s1" "ds_reqs s1 = (ds_reqs s0)(p \<mapsto> r)"
    "ds_pipes s1 = ds_pipes s0" "dc_security (ds_conn s1) = dc_security (ds_conn s0)" "dc_srv_max_recv_frag (ds_conn s1) = dc_srv_max_recv_frag (ds_conn s0)"
    using lists_queue_add [of ps "[]" s0 p r] l(1) by (auto simp: s0_def p_def r_def waiting_def)
  define s2 where "s2 = pending_add p (queue_remove p s1)"
  have l2: "conn_lists (p # ps) [] s2" unfolding s2_def by (rule lists_ship) (use s1(2) in simp)
  have q: "dc_request_queue (ds_conn s1) = Some p" "ds_reqs s1 p = Some r" "rr_async_call r \<or> dc_pending (ds_conn s1) = None"
    using lists_queue [OF s1(2)] lists_pending [OF s1(2)] s1(3) l(2) by (auto simp: r_def waiting_def)
  define pkt where "pkt = request_packet (ds_conn s1) (ds_pipes s1 (rr_pipe r)) r"
  define fs where "fs = tagged (pk_pfc_flags pkt) True (pieces (unat (chunk_size_of (dc_srv_max_recv_frag (ds_conn s1)) (rr_object r))) (rr_request_data r))"
  have "pkt = request_packet (ds_conn s) (ds_pipes s pipe) r"
    using s1(4,5) conn0(1,3) by (simp add: pkt_def request_packet_def) (simp add: r_def waiting_def)
  then have "carries env pkt fs"
    using env s1(6) conn0(2) by (simp add: request_fragments_def Let_def r_def i_def fs_def) (simp add: waiting_def)
  then have "\<exists>as. send_fragments env p pkt fs s2 = Ret () (acted as s2)"
    by (rule send_fragments_plain [of _ _ _ _ p r]) (use auth s1(3,5) conn0 in \<open>simp_all add: s2_def r_def waiting_def\<close>)
  then have "\<exists>as. dcerpc_ship_next_request env s1 = Ret () (acted as s2)"
    using ship_fragments_eq [OF q refl _ _ _ refl, of env] c len s1(6) conn0(2) by (simp add: s2_def r_def waiting_def fs_def pkt_def)
  then obtain as where ship: "dcerpc_ship_next_request env s1 = Ret () (acted as s2)" by blast
  have start: "s\<lparr>ds_conn := snd (next_call_id (ds_conn s)), ds_reqs := (ds_reqs s)(p \<mapsto> r), ds_next := p + 1\<rparr> = new_req p r s0"
    by (simp add: new_req_def s0_def)
  have "\<exists>bs. dcerpc_request_send env pipe obj opnum async stub s = Ret p (acted bs s2)"
    unfolding dcerpc_request_send_def Let_def split_beta p_def [symmetric] i_def [symmetric] r_def [unfolded waiting_def, symmetric] start s1(1)
    using ship by (auto intro: exI [of _ as])
  then obtain bs where "dcerpc_request_send env pipe obj opnum async stub s = Ret p (acted bs s2)" by blast
  then show ?thesis using l2 s1 conn0 by (auto simp: p_def [symmetric] i_def [symmetric] r_def [symmetric] s2_def)
qed

text \<open>A packet that carries a piece of the answer to the call \<open>i\<close>, and a whole answer.\<close>

definition reply_frag :: "rpc_codec \<Rightarrow> u32 \<Rightarrow> u32 \<Rightarrow> u8 list \<Rightarrow> u8 list \<Rightarrow> bool \<Rightarrow> bool" where
  "reply_frag codec flags i blob stub is_last \<longleftrightarrow> blob \<noteq> [] \<and>
     (\<exists>pkt. ncacn_pull codec flags blob = ROk pkt \<and> pk_ptype pkt = DCERPC_PKT_RESPONSE \<and> pk_call_id pkt = i \<and>
        pk_u pkt = Response stub \<and> (pk_pfc_flags pkt AND DCERPC_PFC_FLAG_LAST \<noteq> 0 \<longleftrightarrow> is_last))"

fun reply_frags :: "rpc_codec \<Rightarrow> u32 \<Rightarrow> u32 \<Rightarrow> (u8 list \<times> u8 list) list \<Rightarrow> bool" where
  "reply_frags codec flags i [] = False"
| "reply_frags codec flags i [(b, st)] = reply_frag codec flags i b st True"
| "reply_frags codec flags i ((b, st) # f # fs) = (reply_frag codec flags i b st False \<and> reply_frags codec flags i (f # fs))"

lemma recv_data_plain:
  assumes l: "conn_lists ps qs s" and auth: "rs_auth_info (dc_security (ds_conn s)) = None"
    and b: "blob \<noteq> []" "ncacn_pull (ev_codec env) (rs_flags (dc_security (ds_conn s))) blob = ROk pkt"
  shows "dcerpc_recv_data env blob NT_STATUS_OK s =
    (case find (has_call s (pk_call_id pkt)) ps of None \<Rightarrow> Ret () s | Some p \<Rightarrow> dispatch env p pkt NT_STATUS_OK s)"
  using b auth find_call_lists [OF l]
  by (simp add: dcerpc_recv_data_def dcerpc_request_recv_data_def upd_security_same split: option.splits)

lemma recv_more:
  assumes "conn_lists ps qs s" "rs_auth_info (dc_security (ds_conn s)) = None" "find (has_call s i) ps = Some p"
    and "ds_reqs s p = Some r" "rr_recv_handler r = NoHandler"
    and "reply_frag (ev_codec env) (rs_flags (dc_security (ds_conn s))) i blob stub False"
  shows "dcerpc_recv_data env blob NT_STATUS_OK s = Ret () (act SendRead (upd_req p (\<lambda>r. r\<lparr>rr_payload := rr_payload r @ stub\<rparr>) s))"
  using assms recv_data_plain [OF assms(1,2)] unfolding reply_frag_def
  by (auto simp: dispatch_def with_req_def response_data_def Let_def)

lemma recv_last:
  assumes l: "conn_lists ps [] s" and "rs_auth_info (dc_security (ds_conn s)) = None" "find (has_call s i) ps = Some p"
    and r: "ds_reqs s p = Some r" "rr_recv_handler r = NoHandler" "rr_callback r = NoCallback"
    and frag: "reply_frag (ev_codec env) (rs_flags (dc_security (ds_conn s))) i blob stub True"
  shows "\<exists>t f. dcerpc_recv_data env blob NT_STATUS_OK s = Ret () t \<and> conn_lists (remove1 p ps) [] t \<and>
    ds_reqs t = (ds_reqs s)(p \<mapsto> r\<lparr>rr_payload := rr_payload r @ stub, rr_flags := f, rr_state := RPC_REQUEST_DONE\<rparr>) \<and>
    ds_pipes t = ds_pipes s \<and> dc_security (ds_conn t) = dc_security (ds_conn s)"
proof -
  obtain pkt where pkt: "ncacn_pull (ev_codec env) (rs_flags (dc_security (ds_conn s))) blob = ROk pkt" "blob \<noteq> []" "pk_ptype pkt = 2"
    "pk_call_id pkt = i" "pk_u pkt = Response stub" "pk_pfc_flags pkt AND 2 \<noteq> 0"
    using frag by (auto simp: reply_frag_def)
  define g where "g = (\<lambda>r. r\<lparr>rr_flags := if pk_drep pkt ! 0 AND DCERPC_DREP_LE = 0 then rr_flags r OR DCERPC_PULL_BIGENDIAN
    else rr_flags r AND NOT DCERPC_PULL_BIGENDIAN\<rparr> :: rpc_request)"
  define s1 where "s1 = upd_req p g (upd_req p (\<lambda>r. r\<lparr>rr_payload := rr_payload r @ stub\<rparr>) s)"
  define t where "t = pending_remove p (upd_req p (\<lambda>r. r\<lparr>rr_state := RPC_REQUEST_DONE\<rparr>) s1)"
  have p: "p \<in> set ps" using assms(3) by (auto simp: find_Some_iff)
  have l1: "conn_lists ps [] s1" unfolding s1_def by (intro lists_upd_req l) (simp_all add: g_def)
  have lt: "conn_lists (remove1 p ps) [] t" unfolding t_def by (rule lists_finish [OF l1 p]) simp
  have reqs: "ds_reqs t = (ds_reqs s)(p \<mapsto> (g (r\<lparr>rr_payload := rr_payload r @ stub\<rparr>))\<lparr>rr_state := RPC_REQUEST_DONE\<rparr>)"
    using r(1) by (simp add: t_def s1_def pending_remove_def set_pending_def upd_conn_def upd_req_def)
  have keep: "ds_pipes t = ds_pipes s" "dc_security (ds_conn t) = dc_security (ds_conn s)"
    by (simp_all add: t_def s1_def pending_remove_def set_pending_def upd_conn_def upd_req_def)
  have "req_done env p s1 = Ret () t"
    using lists_queue [OF lt] reqs r(3)
    by (simp add: req_done_def Let_def t_def [symmetric] call_callback_def with_req_def) (simp add: g_def)
  then have "dcerpc_recv_data env blob NT_STATUS_OK s = Ret () t"
    using recv_data_plain [OF l assms(2) pkt(2,1)] assms(3) pkt r
    by (simp add: dispatch_def with_req_def response_data_def Let_def s1_def g_def)
  then show ?thesis using lt keep reqs by (intro exI [of _ t] exI [of _ "rr_flags (g r)"]) (simp add: g_def)
qed

lemma wait_done: "ds_reqs s p = Some r \<Longrightarrow> rr_state r = RPC_REQUEST_DONE \<Longrightarrow> wait_request env p es s = Ret (Some r, es) s"
  by (cases es) (simp_all add: with_req_def)

lemma wait_reply:
  assumes "conn_lists ps [] s" "rs_auth_info (dc_security (ds_conn s)) = None" "find (has_call s i) ps = Some p"
    and "ds_reqs s p = Some r" "rr_recv_handler r = NoHandler" "rr_callback r = NoCallback"
    and "reply_frags (ev_codec env) (rs_flags (dc_security (ds_conn s))) i fs"
  shows "\<exists>t r'. wait_request env p (map (\<lambda>f. RecvData (fst f)) fs @ es) s = Ret (Some r', es) t \<and> conn_lists (remove1 p ps) [] t \<and>
    ds_reqs t = (ds_reqs s)(p \<mapsto> r') \<and> rr_payload r' = rr_payload r @ concat (map snd fs) \<and> rr_status r' = rr_status r \<and>
    ds_pipes t = ds_pipes s"
  using assms
proof (induction fs arbitrary: s r rule: reply_frags.induct [of "\<lambda>_ _ _ fs. _ fs"])
  case (2 _ _ _ b st)
  have pending: "rr_state r = RPC_REQUEST_PENDING"
    using lists_live [OF 2(1)] 2(3,4) by (fastforce dest: find_SomeD)
  obtain t f where t: "dcerpc_recv_data env b NT_STATUS_OK s = Ret () t" "conn_lists (remove1 p ps) [] t"
    "ds_reqs t = (ds_reqs s)(p \<mapsto> r\<lparr>rr_payload := rr_payload r @ st, rr_flags := f, rr_state := RPC_REQUEST_DONE\<rparr>)" "ds_pipes t = ds_pipes s"
    using recv_last [OF 2(1-6), of env b st] 2(7) by auto
  then show ?case using wait_done [of t p _ env es] 2(4) pending by (auto simp: with_req_def)
next
  case (3 _ _ _ b st f fs)
  have pending: "rr_state r = RPC_REQUEST_PENDING"
    using lists_live [OF 3(2)] 3(4,5) by (fastforce dest: find_SomeD)
  define s1 where "s1 = acted [SendRead] (upd_req p (\<lambda>r. r\<lparr>rr_payload := rr_payload r @ st\<rparr>) s)"
  have recv: "dcerpc_recv_data env b NT_STATUS_OK s = Ret () s1"
    using recv_more [OF 3(2-6)] 3(8) by (simp add: s1_def)
  have l1: "conn_lists ps [] s1" unfolding s1_def lists_acted by (rule lists_upd_req [OF 3(2)]) simp
  have reqs: "ds_reqs s1 = (ds_reqs s)(p \<mapsto> r\<lparr>rr_payload := rr_payload r @ st\<rparr>)" using 3(5) by (simp add: s1_def upd_req_def)
  have conn: "ds_conn s1 = ds_conn s" "ds_pipes s1 = ds_pipes s" by (simp_all add: s1_def upd_req_def)
  have "has_call s1 i = has_call s i" using 3(5) by (auto simp: has_call_def reqs fun_eq_iff)
  then obtain t r' where "wait_request env p (map (\<lambda>f. RecvData (fst f)) (f # fs) @ es) s1 = Ret (Some r', es) t" "conn_lists (remove1 p ps) [] t"
    "ds_reqs t = (ds_reqs s1)(p \<mapsto> r')" "rr_payload r' = (rr_payload r @ st) @ concat (map snd (f # fs))" "rr_status r' = rr_status r"
    "ds_pipes t = ds_pipes s1"
    using 3(1) [OF l1, of "r\<lparr>rr_payload := rr_payload r @ st\<rparr>"] 3(3,4,6-8) reqs conn by (auto simp: fun_upd_def cong: if_cong)
  then show ?case using recv 3(5) pending reqs conn by (auto simp: with_req_def)
qed simp

lemma free_done:
  assumes "conn_lists ps qs s" "p \<notin> set ps \<union> set qs" "ds_reqs s p \<noteq> None"
  shows "conn_lists ps qs (free_req p s)" "ds_reqs (free_req p s) = (ds_reqs s)(p := None)" "ds_pipes (free_req p s) = ds_pipes s"
  using lists_free [OF assms(1), of p] assms(2,3)
  by (auto simp: remove1_idem free_req_def dcerpc_req_destructor_def pending_remove_def set_pending_def upd_conn_def)

lemma idle_lists: "conn_lists ps qs s \<Longrightarrow> dc_pending (ds_conn s) = None \<Longrightarrow> dc_request_queue (ds_conn s) = None \<Longrightarrow> conn_lists [] [] s"
  using lists_pending [of ps qs s] lists_queue [of ps qs s] by (cases ps; cases qs) auto

text \<open>C10. A request and its reply, on an unauthenticated connection. In every state of a run (\<open>rpc_run\<close>)
  with no outstanding request, a client whose callbacks keep the lists, a chunk size above zero and
  data of less than 4 GB: if the packets of this request can be marshalled and the transport takes them,
  and the answer to it arrives in packets that the codec reads as response fragments with its call
  number, the last one and only that marked LAST, then \<open>dcerpc_request\<close> returns success and the
  concatenation of the data of the fragments. Events that follow are not touched, both lists are empty
  again and the request has been freed.\<close>

theorem dcerpc_request_returns_reply:
  assumes run: "client_ok env" "rpc_run env s" "dc_pending (ds_conn s) = None" "dc_request_queue (ds_conn s) = None"
    and env: "case request_fragments s pipe obj opnum async stub of (pkt, fs) \<Rightarrow> carries env pkt fs"
      "rs_auth_info (dc_security (ds_conn s)) = None"
    and c: "0 < chunk_size_of (dc_srv_max_recv_frag (ds_conn s)) obj"
    and len: "length stub < 2 ^ 32" "length stub + 1 < ev_fuel env"
    and reply: "reply_frags (ev_codec env) (rs_flags (dc_security (ds_conn s))) (fst (next_call_id (ds_conn s))) fs"
  shows "\<exists>t. dcerpc_request env pipe obj opnum async stub (map (\<lambda>f. RecvData (fst f)) fs @ es) s = Ret (NT_STATUS_OK, concat (map snd fs), es) t \<and>
    dc_pending (ds_conn t) = None \<and> dc_request_queue (ds_conn t) = None \<and> ds_reqs t = ds_reqs s \<and> ds_pipes t = ds_pipes s"
proof -
  let ?i = "fst (next_call_id (ds_conn s))" and ?p = "ds_next s"
  have l: "conn_lists [] [] s" using rpc_run_wf [OF run(1,2)] idle_lists run(3,4) by (auto simp: wf_conn_def)
  have fresh: "ds_reqs s ?p = None" using lists_fresh [OF l] .
  obtain t1 where t1: "dcerpc_request_send env pipe obj opnum async stub s = Ret ?p t1" "conn_lists [?p] [] t1"
    "ds_reqs t1 = (ds_reqs s)(?p \<mapsto> waiting pipe opnum obj async stub ?i)" "ds_pipes t1 = ds_pipes s" "dc_security (ds_conn t1) = dc_security (ds_conn s)"
    using dcerpc_request_send_plain [OF env l disjI2 [OF refl] c len] by auto
  have r: "ds_reqs t1 ?p = Some (waiting pipe opnum obj async stub ?i)" "find (has_call t1 ?i) [?p] = Some ?p"
    using t1(3) by (simp_all add: has_call_def waiting_def)
  obtain t2 r' where t2: "wait_request env ?p (map (\<lambda>f. RecvData (fst f)) fs @ es) t1 = Ret (Some r', es) t2" "conn_lists (remove1 ?p [?p]) [] t2"
    "ds_reqs t2 = (ds_reqs t1)(?p \<mapsto> r')" "rr_payload r' = concat (map snd fs)" "rr_status r' = NT_STATUS_OK" "ds_pipes t2 = ds_pipes t1"
    using wait_reply [OF t1(2) _ r(2,1), where fs = fs and env = env and es = es] env(2) reply t1(5) by (auto simp: waiting_def)
  have t2': "conn_lists [] [] t2" "ds_reqs t2 ?p \<noteq> None" using t2(2,3) by simp_all
  have fin: "finish_request r' t2 = t2" using t2(5) by (simp add: finish_request_def)
  note t = free_done [OF t2'(1) _ t2'(2)]
  have "ds_reqs (free_req ?p t2) = ds_reqs s" using t(2) t2(3) t1(3) fresh by (auto simp: fun_eq_iff)
  moreover have "dcerpc_request env pipe obj opnum async stub (map (\<lambda>f. RecvData (fst f)) fs @ es) s =
      Ret (NT_STATUS_OK, concat (map snd fs), es) (free_req ?p t2)"
    by (simp add: dcerpc_request_def dcerpc_request_recv_def t1(1) t2(1,4,5) fin)
  ultimately show ?thesis using t(1,3) t1(4) t2(6) lists_pending [of "[]" "[]"] lists_queue [of "[]" "[]"] by auto
qed

text \<open>C11. The lists of a connection. The runs \<open>rpc_run\<close> are all sequences of requests, continuations, binds,
  alter contexts, authentication legs, events and frees in which no request times out or is freed while
  it is still in the queue, and no context is freed while its bind or alter request is unfinished; the
  code allows these as well, and a timeout in the queue and a failed bind do break the lists (theorems
  \<open>queued_timeout_breaks_queue\<close> and \<open>failed_bind_leaves_dangling_request\<close> below). The client's callbacks keep the lists. Then in every state of a run the
  requests waiting for a reply and those waiting to be sent form two linked lists without a common
  element, which hold exactly the live requests that are not finished; looking for the request a packet
  answers meets no freed memory and finds the first pending request with that call number.\<close>

theorem rpc_lists_invariant:
  assumes "client_ok env" "rpc_run env s"
  shows "\<exists>ps qs. dlist (pending_list s) ps \<and> dlist (queue_list s) qs \<and> set ps \<inter> set qs = {} \<and>
    (\<forall>p. p \<in> set ps \<union> set qs \<longleftrightarrow> (\<exists>r. ds_reqs s p = Some r \<and> rr_state r = RPC_REQUEST_PENDING)) \<and>
    (\<forall>i. find_call i s = Some (find (has_call s i) ps))"
proof -
  obtain ps qs where l: "conn_lists ps qs s" using rpc_run_wf [OF assms] by (auto simp: wf_conn_def)
  have "p \<in> set ps \<union> set qs \<longleftrightarrow> (\<exists>r. ds_reqs s p = Some r \<and> rr_state r = RPC_REQUEST_PENDING)" for p
    using lists_live [OF l, of p] lists_outside [OF l, of p] by fastforce
  then show ?thesis using l find_call_lists [OF l]
    by (intro exI [of _ ps] exI [of _ qs]) (simp add: conn_lists_def pending_list_def queue_list_def)
qed

section \<open>When the connection breaks\<close>

text \<open>A client that takes notice of a callback and does nothing.\<close>

definition idle_client :: "rpc_env \<Rightarrow> bool" where
  "idle_client env \<longleftrightarrow> (\<forall>p s. ev_callback env p s = s) \<and> (\<forall>c s. ev_composite_fn env c s = s)"

lemma idle_client_ok: "idle_client env \<Longrightarrow> client_ok env"
  by (simp add: idle_client_def client_ok_def)

definition has_callback :: "request_callback \<Rightarrow> dstate \<Rightarrow> nat \<Rightarrow> bool" where
  "has_callback cb s p \<longleftrightarrow> (case ds_reqs s p of None \<Rightarrow> False | Some r \<Rightarrow> rr_callback r = cb)"

definition killed :: "NTSTATUS \<Rightarrow> rpc_request \<Rightarrow> rpc_request" where
  "killed st r = r\<lparr>rr_state := RPC_REQUEST_DONE, rr_status := st\<rparr>"

lemma killed_eq: "killed st = (\<lambda>r. r\<lparr>rr_state := RPC_REQUEST_DONE, rr_status := st\<rparr>)"
  by (simp add: fun_eq_iff killed_def)

lemma dead_loop_idle:
  assumes "idle_client env"
  shows "conn_lists ps qs s \<Longrightarrow> length ps \<le> n \<Longrightarrow> \<forall>p \<in> set ps. has_callback NoCallback s p \<or> has_callback Client s p \<Longrightarrow>
    \<exists>t. dead_loop n env st s = Ret () t \<and> conn_lists [] qs t \<and>
      ds_reqs t = (\<lambda>p. if p \<in> set ps then map_option (killed st) (ds_reqs s p) else ds_reqs s p) \<and>
      ds_acts t = ds_acts s @ map ClientCallback (filter (has_callback Client s) ps)"
proof (induction ps arbitrary: n s)
  case Nil
  then show ?case using lists_pending [OF Nil(1)] by (cases n) (auto intro!: exI [of _ s])
next
  case (Cons p ps)
  obtain m where n: "n = Suc m" using Cons.prems(2) by (cases n) auto
  obtain r where r: "ds_reqs s p = Some r" using lists_live [OF Cons.prems(1)] by fastforce
  define s1 where "s1 = pending_remove p (upd_req p (killed st) s)"
  have l1: "conn_lists ps qs s1" using lists_finish [OF Cons.prems(1), of p "killed st"] by (simp add: s1_def killed_def)
  have reqs: "ds_reqs s1 = (ds_reqs s)(p \<mapsto> killed st r)" and acts: "ds_acts s1 = ds_acts s"
    using r by (simp_all add: s1_def pending_remove_def set_pending_def upd_conn_def upd_req_def)
  have new: "p \<notin> set ps" using lists_distinct [OF Cons.prems(1)] by simp
  define s2 where "s2 = (if rr_callback r = Client then acted [ClientCallback p] s1 else s1)"
  have same: "has_callback cb s2 q \<longleftrightarrow> has_callback cb s q" if "q \<in> set ps" for cb q
    using that new by (auto simp: has_callback_def s2_def reqs)
  have "call_callback env p s1 = Ret () s2"
    using assms Cons.prems(3) r reqs
    by (auto simp: call_callback_def with_req_def idle_client_def s2_def has_callback_def killed_def split: request_callback.split)
  moreover have s2: "conn_lists ps qs s2" "ds_reqs s2 = ds_reqs s1"
    "ds_acts s2 = ds_acts s @ map ClientCallback (filter (has_callback Client s) [p])"
    using l1 acts r by (simp_all add: s2_def has_callback_def acted_acts)
  moreover obtain t where t: "dead_loop m env st s2 = Ret () t" "conn_lists [] qs t"
    "ds_reqs t = (\<lambda>p. if p \<in> set ps then map_option (killed st) (ds_reqs s2 p) else ds_reqs s2 p)"
    "ds_acts t = ds_acts s2 @ map ClientCallback (filter (has_callback Client s2) ps)"
  proof -
    have "\<forall>q \<in> set ps. has_callback NoCallback s2 q \<or> has_callback Client s2 q"
      using Cons.prems(3) by (simp add: same)
    then show ?thesis using Cons.IH [OF s2(1), of m] Cons.prems(2) n that by auto
  qed
  moreover have "filter (has_callback Client s2) ps = filter (has_callback Client s) ps"
    by (rule filter_cong) (simp_all add: same)
  ultimately have "dead_loop n env st s = Ret () t"
    "ds_acts t = ds_acts s @ map ClientCallback (filter (has_callback Client s) (p # ps))"
    using lists_pending [OF Cons.prems(1)] r by (simp_all add: n with_req_def s1_def killed_eq)
  moreover have "ds_reqs t = (\<lambda>q. if q \<in> set (p # ps) then map_option (killed st) (ds_reqs s q) else ds_reqs s q)"
    using t(3) s2(2) reqs new r by (auto simp: fun_eq_iff)
  ultimately show ?case using t(2) by blast
qed

text \<open>C13. When the transport reports an error in a state of a run (\<open>rpc_run\<close>, with the runs it leaves
  out), and the client's callbacks do nothing, and the pending list holds ordinary requests only, no
  bind or alter context request: then every request that waits for a reply is finished with that status
  and its client, if it has given a callback, is called once, in the order of the list; the loop ends. The
  requests that wait to be sent get no error: they stay pending in the queue.\<close>

theorem transport_error_finishes_pending:
  assumes run: "idle_client env" "rpc_run env s" and ps: "dlist (pending_list s) ps" "length ps \<le> ev_fuel env"
    and cb: "\<forall>p \<in> set ps. has_callback NoCallback s p \<or> has_callback Client s p" and st: "\<not> NT_STATUS_IS_OK st"
  shows "\<exists>t. handle_rpc_event env (TransportError st) s = Ret () t \<and> dc_pending (ds_conn t) = None \<and>
    ds_reqs t = (\<lambda>p. if p \<in> set ps then map_option (killed st) (ds_reqs s p) else ds_reqs s p) \<and>
    ds_acts t = ds_acts s @ map ClientCallback (filter (has_callback Client s) ps) \<and>
    (\<exists>qs. dlist (queue_list s) qs \<and> dlist (queue_list t) qs \<and>
      (\<forall>p \<in> set qs. \<exists>r. ds_reqs t p = Some r \<and> rr_state r = RPC_REQUEST_PENDING))"
proof -
  obtain ps' qs where l': "conn_lists ps' qs s" using rpc_run_wf [OF idle_client_ok [OF run(1)] run(2)] by (auto simp: wf_conn_def)
  have "ps' = ps" using dlist_unique [of "pending_list s" ps' ps] l' ps(1) by (simp add: conn_lists_def pending_list_def)
  then have l: "conn_lists ps qs s" using l' by simp
  obtain t where t: "dead_loop (ev_fuel env) env st s = Ret () t" "conn_lists [] qs t"
    "ds_reqs t = (\<lambda>p. if p \<in> set ps then map_option (killed st) (ds_reqs s p) else ds_reqs s p)"
    "ds_acts t = ds_acts s @ map ClientCallback (filter (has_callback Client s) ps)"
    using dead_loop_idle [OF run(1) l ps(2) cb] by blast
  have "handle_rpc_event env (TransportError st) s = Ret () t"
    using st t(1) by (simp add: dcerpc_recv_data_def dcerpc_connection_dead_def Let_def)
  moreover have "dlist (queue_list s) qs" "dlist (queue_list t) qs" using l t(2) by (simp_all add: conn_lists_def queue_list_def)
  moreover have "\<forall>p \<in> set qs. \<exists>r. ds_reqs t p = Some r \<and> rr_state r = RPC_REQUEST_PENDING" using lists_live [OF t(2)] by simp
  ultimately show ?thesis using t(3,4) lists_pending [OF t(2)] by (intro exI [of _ t] conjI exI [of _ qs]) simp_all
qed

section \<open>Requests that time out in the queue\<close>

text \<open>The timeout handler and the destructor remove a request from the pending list, also when it
  is still in the queue. If the first request of the queue times out, the queue consists of that
  finished request alone: those behind it are still waiting but will never be sent. And once it is
  freed, sending the next request reads freed memory.\<close>

theorem queued_timeout_breaks_queue:
  assumes run: "idle_client env" "rpc_run env s" and q: "dlist (queue_list s) (p # qs)" and cb: "has_callback NoCallback s p"
  shows "\<exists>t. handle_rpc_event env (RequestTimeout p) s = Ret () t \<and> dlist (queue_list t) [p] \<and>
    (\<exists>r. ds_reqs t p = Some r \<and> rr_state r = RPC_REQUEST_DONE \<and> rr_status r = NT_STATUS_IO_TIMEOUT) \<and>
    (\<forall>x \<in> set qs. \<exists>r. ds_reqs t x = Some r \<and> rr_state r = RPC_REQUEST_PENDING) \<and>
    dcerpc_ship_next_request env (free_req p t) = Undef"
proof -
  obtain ps qs' where l': "conn_lists ps qs' s" using rpc_run_wf [OF idle_client_ok [OF run(1)] run(2)] by (auto simp: wf_conn_def)
  have "qs' = p # qs" using dlist_unique [of "queue_list s" qs' "p # qs"] l' q by (simp add: conn_lists_def queue_list_def)
  then have l: "conn_lists ps (p # qs) s" using l' by simp
  obtain r where r: "ds_reqs s p = Some r" "rr_state r = RPC_REQUEST_PENDING" using lists_live [OF l, of p] by auto
  have other: "dc_pending (ds_conn s) \<noteq> Some p" using lists_pending [OF l] l by (cases ps) (auto simp: conn_lists_def)
  obtain lk where lk: "DLIST_REMOVE p (dc_pending (ds_conn s), ds_links s) = (dc_pending (ds_conn s), lk)" "dlist (dc_request_queue (ds_conn s), lk) [p]"
    using DLIST_REMOVE_foreign_head [OF q [unfolded queue_list_def] other] by blast
  define t where "t = pending_remove p (upd_req p (\<lambda>r. r\<lparr>rr_status := NT_STATUS_IO_TIMEOUT, rr_state := RPC_REQUEST_DONE\<rparr>) s)"
  have t: "ds_conn t = ds_conn s" "ds_links t = lk" "ds_reqs t = (ds_reqs s)(p \<mapsto> r\<lparr>rr_status := NT_STATUS_IO_TIMEOUT, rr_state := RPC_REQUEST_DONE\<rparr>)"
    using lk(1) r(1) by (simp_all add: t_def pending_remove_def set_pending_def pending_list_def upd_conn_def upd_req_def)
  have "handle_rpc_event env (RequestTimeout p) s = Ret () t"
    using r cb t(3) by (simp add: dcerpc_timeout_handler_def with_req_def call_callback_def t_def [symmetric] has_callback_def)
  moreover have "dlist (queue_list t) [p]" using lk(2) t by (simp add: queue_list_def)
  moreover have "\<forall>x \<in> set qs. \<exists>r. ds_reqs t x = Some r \<and> rr_state r = RPC_REQUEST_PENDING"
    using lists_live [OF l] lists_distinct [OF l] t(3) by auto
  moreover have "dcerpc_ship_next_request env (free_req p t) = Undef"
  proof -
    have "dc_request_queue (ds_conn (free_req p t)) = Some p"
      using lists_queue [OF l] by (simp add: free_req_def dcerpc_req_destructor_def pending_remove_def set_pending_def upd_conn_def t(1))
    then show ?thesis by (simp add: dcerpc_ship_next_request_def with_req_def free_req_def)
  qed
  ultimately show ?thesis using t(3) by auto
qed

section \<open>A bind that cannot be sent\<close>

text \<open>A bind request is put in the pending list before it is sent. If the transport refuses it, the
  client gets the error and frees the context and with it the request, which has no destructor: the
  pending list then points to freed memory, and the next error of the transport reads it.\<close>

theorem failed_bind_leaves_dangling_request:
  assumes run: "client_ok env" "rpc_run env s" "dc_pending (ds_conn s) = None" "dc_request_queue (ds_conn s) = None"
    and env: "\<And>pkt. stub_of (pk_u pkt) = None \<Longrightarrow> \<exists>b. ncacn_push_auth (ev_codec env) pkt (rs_auth_info (dc_security (ds_conn s))) = ROk b"
    and fails: "\<And>n b t. ev_send_request env n b t = st" "\<not> NT_STATUS_IS_OK st" "\<not> NT_STATUS_IS_OK st'" "0 < ev_fuel env"
  shows "\<exists>c t u. dcerpc_bind_send env pipe syntax transfer s = Ret c t \<and> dcerpc_bind_recv env c es t = Ret (st, es) u \<and>
    handle_rpc_event env (TransportError st') u = Undef"
proof -
  define c where "c = ds_next s"
  define s1 where "s1 = set_syntax pipe syntax transfer (snd (composite_create pipe s))"
  have l: "conn_lists [] [] s" using rpc_run_wf [OF run(1,2)] idle_lists run(3,4) by (auto simp: wf_conn_def)
  have l1: "conn_lists [] [] s1" unfolding s1_def set_syntax_def lists_pipes
    by (rule lists_frame [OF l]) (simp_all add: composite_create_def)
  have s1: "ds_conn s1 = ds_conn s" "ds_comps s1 c = Some \<lparr>cx_state = COMPOSITE_STATE_IN_PROGRESS, cx_pipe = pipe, cx_status = NT_STATUS_OK,
      cx_has_fn = False, cx_used_wait = False\<rparr>" "ds_next s1 = c + 1"
    by (simp_all add: s1_def c_def set_syntax_def composite_create_def)
  define pkt where "pkt = context_packet DCERPC_PKT_BIND (ds_conn s1) (dp_context_id (ds_pipes s1 pipe)) (ds_pipes s1 pipe)"
  obtain b where b: "ncacn_push_auth (ev_codec env) pkt (rs_auth_info (dc_security (ds_conn s1))) = ROk b"
    using env [of pkt] s1(1) by (auto simp: pkt_def context_packet_def stub_of_def)
  define r where "r = \<lparr>rr_pipe = pipe, rr_status = NT_STATUS_OK, rr_call_id = pk_call_id pkt, rr_state = RPC_REQUEST_PENDING,
    rr_payload = [], rr_flags = 0, rr_fault_code = 0, rr_recv_handler = BindHandler, rr_object = None, rr_opnum = 0,
    rr_request_data = [], rr_async_call = False, rr_callback = CompositeFail c\<rparr>"
  obtain s2 where s2: "pending_add_end (c + 1) (new_req (c + 1) r s1) = Ret () s2" "conn_lists ([] @ [c + 1]) [] s2"
    using lists_pending_add [OF l1, of "c + 1" r] s1(3) by (auto simp: r_def)
  have kept: "ds_comps s2 = ds_comps s1" "ds_reqs s2 (c + 1) = Some r"
    using s2(1) by (auto simp: pending_add_end_def set_pending_def upd_conn_def new_req_def split: option.splits)
  define t where "t = upd_comp c (\<lambda>x. x\<lparr>cx_state := COMPOSITE_STATE_ERROR\<rparr>) (upd_comp c (\<lambda>x. x\<lparr>cx_status := st\<rparr>) (act (SendRequest b True) s2))"
  have start: "s1\<lparr>ds_reqs := (ds_reqs s1)(c + 1 \<mapsto> r), ds_next := c + 1 + 1\<rparr> = new_req (c + 1) r s1" by (simp add: new_req_def)
  have send: "context_send env BindHandler DCERPC_PKT_BIND (dp_context_id (ds_pipes s1 pipe)) pipe c s1 = Ret c t"
    unfolding context_send_def Let_def pkt_def [symmetric] b rpc_res.case s1(3) r_def [symmetric] start s2(1)
    using s1(2) kept(1) fails(1,2) by (simp add: composite_is_ok_def composite_fn_def upd_comp_def t_def)
  have bind: "dcerpc_bind_send env pipe syntax transfer s = Ret c t"
    using send by (simp add: dcerpc_bind_send_def composite_create_def Let_def s1_def c_def)
  obtain x where x: "ds_comps t c = Some x" "cx_state x = COMPOSITE_STATE_ERROR" "cx_status x = st"
    using s1(2) kept(1) by (auto simp: t_def upd_comp_def)
  define u where "u = free_comp c (upd_comp c (\<lambda>x. x\<lparr>cx_used_wait := True\<rparr>) t)"
  have "composite_wait env c es t = Ret (st, es) (upd_comp c (\<lambda>x. x\<lparr>cx_used_wait := True\<rparr>) t)"
    using x by (cases es) (simp_all add: composite_wait_def upd_comp_def comp_finished_def)
  then have recv: "dcerpc_bind_recv env c es t = Ret (st, es) u" by (simp add: dcerpc_bind_recv_def u_def)
  have "dc_pending (ds_conn u) = Some (c + 1)" "ds_reqs u (c + 1) = None"
    using lists_pending [OF s2(2)] kept(2) by (simp_all add: u_def t_def free_comp_def upd_comp_def r_def)
  moreover obtain n where "ev_fuel env = Suc n" using fails(4) by (cases "ev_fuel env") auto
  ultimately have "handle_rpc_event env (TransportError st') u = Undef"
    using fails(3) by (simp add: dcerpc_recv_data_def dcerpc_connection_dead_def with_req_def Let_def)
  then show ?thesis using bind recv by blast
qed

end
