(* ===== verification/DcerpcPduProps.thy ===== *)
theory DcerpcPduProps
  imports DcerpcPdu NdrProps
begin

text \<open>
  The length fields of marshalled packets: reading a length returns the one that was stored, in
  either byte order, and every packet that is sent announces its own length, also after a signature
  has replaced the placeholder for it.
\<close>

lemma set_u16_field_Some:
  assumes "set_u16_field pos blob v = Some b"
  shows "length b = length blob" "pos + 2 \<le> length blob" "4 < length blob" "i < pos \<Longrightarrow> b ! i = blob ! i"
    "b = take pos blob @ (if blob ! 4 AND DCERPC_DREP_LE \<noteq> 0 then SSVAL v else rev (SSVAL v)) @ drop (pos + 2) blob"
  using assms by (auto simp: set_u16_field_def store16_def nth_append split: if_splits)

lemma SVAL_cong: "xs ! n = ys ! n \<Longrightarrow> xs ! Suc n = ys ! Suc n \<Longrightarrow> SVAL xs n = SVAL ys n"
  by (simp add: SVAL_def)

lemma rev_SSVAL: "rev (SSVAL v) = SSVAL (ucast (SREV (ucast v)))"
proof -
  have "bit v n \<Longrightarrow> n < 16" for n using bit_imp_le_length [of v n] by simp
  then show ?thesis unfolding SSVAL_def by (auto intro!: bit_word_eqI simp: bit_simps SREV_bits mask_numerals)
qed

lemma frag_length_stored:
  assumes "dcerpc_set_frag_length blob v = Some b"
  shows "dcerpc_get_frag_length b = Some v"
proof -
  note s = set_u16_field_Some [OF assms [unfolded dcerpc_set_frag_length_def]]
  have order: "b ! 4 = blob ! 4" using s(4) by simp
  have at8: "SVAL (take 8 blob @ SSVAL w @ drop 10 blob) 8 = ucast w" for w
    using SVAL_at [of "take 8 blob" w "drop 10 blob"] s(2) by simp
  show ?thesis
  proof (cases "blob ! 4 AND DCERPC_DREP_LE \<noteq> 0")
    case True
    then have "SVAL b 8 = ucast v" using s(5) at8 by simp
    moreover have "ucast (ucast v :: u32) = v" by (rule bit_word_eqI) (simp add: bit_simps)
    ultimately show ?thesis using True s(1,2) order by (simp add: dcerpc_get_frag_length_def)
  next
    case False
    then have "SVAL b 8 = SREV (ucast v)" using s(5) at8 [of "ucast (SREV (ucast v))"] by (simp add: rev_SSVAL SREV_u16)
    then show ?thesis using False s(1,2) order SREV_SREV [of v] by (simp add: dcerpc_get_frag_length_def)
  qed
qed

lemma frag_length_auth_length:
  assumes "dcerpc_set_auth_length blob v = Some b"
  shows "dcerpc_get_frag_length b = dcerpc_get_frag_length blob" "length b = length blob"
proof -
  note s = set_u16_field_Some [OF assms [unfolded dcerpc_set_auth_length_def]]
  show "length b = length blob" by (rule s(1))
  show "dcerpc_get_frag_length b = dcerpc_get_frag_length blob"
    using s(1) s(4) [of 4] s(4) [of 8] s(4) [of 9] SVAL_cong [of b 8 blob] by (simp add: dcerpc_get_frag_length_def)
qed

lemma frag_length_prefix:
  "10 \<le> length blob \<Longrightarrow> 10 \<le> length b \<Longrightarrow> take 10 b = take 10 blob \<Longrightarrow> dcerpc_get_frag_length b = dcerpc_get_frag_length blob"
proof -
  assume a: "10 \<le> length blob" "10 \<le> length b" "take 10 b = take 10 blob"
  have "b ! i = blob ! i" if "i < 10" for i using a(3) that nth_take [of i 10 b] nth_take [of i 10 blob] by simp
  then show ?thesis using a(1,2) SVAL_cong [of b 8 blob] by (simp add: dcerpc_get_frag_length_def)
qed

text \<open>A blob announces its own length, up to the width of the field.\<close>

definition announces :: "u8 list \<Rightarrow> bool" where
  "announces blob \<longleftrightarrow> dcerpc_get_frag_length blob = Some (of_nat (length blob))"

lemma with_frag_length_announces: "with_frag_length blob = ROk b \<Longrightarrow> announces b"
  using frag_length_stored set_u16_field_Some(1)
  by (fastforce simp: with_frag_length_def announces_def dcerpc_set_frag_length_def split: option.splits)

lemma rbind_ROk: "rbind m k = ROk y \<longleftrightarrow> (\<exists>x. m = ROk x \<and> k x = ROk y)"
  by (cases m) (simp_all add: rbind_def)

lemma ncacn_push_auth_announces:
  "ncacn_push_auth k pkt a = ROk b \<Longrightarrow> announces b"
  by (auto simp: ncacn_push_auth_def Let_def rbind_ROk split: nres.splits option.splits intro: with_frag_length_announces)

lemma put_signature_announces:
  assumes "put_signature n sig blob = ROk b" "announces blob" "n \<le> length blob" "n \<noteq> 0 \<Longrightarrow> length sig = n" "10 \<le> length blob - n"
  shows "announces b"
proof -
  let ?b2 = "take (length blob - n) blob @ sig"
  obtain b3 where b3: "dcerpc_set_auth_length ?b2 (of_nat (length sig)) = Some b3"
    using assms(1) by (auto simp: put_signature_def Let_def split: option.splits)
  have len: "length b3 = length blob - n + length sig" using frag_length_auth_length(2) [OF b3] assms(3) by simp
  have "dcerpc_get_frag_length ?b2 = dcerpc_get_frag_length blob"
    by (rule frag_length_prefix) (use assms(3,5) in \<open>auto simp: take_append min_def\<close>)
  then have get: "dcerpc_get_frag_length b3 = Some (of_nat (length blob))"
    using frag_length_auth_length(1) [OF b3] assms(2) by (simp add: announces_def)
  show ?thesis
  proof (cases "n = 0")
    case False
    then have "b = b3" using assms(1) b3 by (simp add: put_signature_def Let_def)
    then show ?thesis using get len assms(3,4) False by (simp add: announces_def)
  next
    case True
    then have b: "dcerpc_set_frag_length b3 (of_nat (length blob) + of_nat (length sig)) = Some b"
      using assms(1) b3 get by (simp add: put_signature_def Let_def split: option.splits)
    have "length b = length blob + length sig"
      using set_u16_field_Some(1) [OF b [unfolded dcerpc_set_frag_length_def]] len True by simp
    then show ?thesis using frag_length_stored [OF b] by (simp add: announces_def)
  qed
qed

text \<open>
  What the security mechanism promises: a signature has the announced size, unless that is 0, and
  sealing leaves the length of the data.
\<close>

definition sig_size_law :: "rpc_codec \<Rightarrow> bool" where
  "sig_size_law k \<longleftrightarrow>
     (\<forall>g data pdu st d sig. re_seal_packet k g data pdu = (st, d, sig) \<longrightarrow> re_sig_size k g (length data) \<noteq> 0 \<longrightarrow> length sig = re_sig_size k g (length data)) \<and>
     (\<forall>g data pdu st sig. re_sign_packet k g data pdu = (st, sig) \<longrightarrow> re_sig_size k g (length data) \<noteq> 0 \<longrightarrow> length sig = re_sig_size k g (length data))"

lemma length_in_place [simp]: "length (in_place old new) = length old"
  by (auto simp: in_place_def)

lemma in_place_prefix: "24 \<le> length blob \<Longrightarrow> take 10 (take 24 blob @ x) = take 10 blob"
  by (simp add: take_append min_def)

lemma sign_blob_announces:
  assumes "sign_blob k level g n cred_len blob = (ROk b, used)" "announces blob" "sig_size_law k"
    and "level = DCERPC_AUTH_LEVEL_PRIVACY \<or> level = DCERPC_AUTH_LEVEL_INTEGRITY \<Longrightarrow> cred_len = re_sig_size k g n \<and> 10 \<le> length blob - cred_len"
  shows "announces b"
proof (cases "level = DCERPC_AUTH_LEVEL_PRIVACY \<or> level = DCERPC_AUTH_LEVEL_INTEGRITY")
  case False
  then show ?thesis using assms(1,2) by (simp add: sign_blob_def Let_def)
next
  case True
  then have cred: "cred_len = re_sig_size k g n" "10 \<le> length blob - cred_len" using assms(4) by auto
  have inside: "24 + n \<le> length blob" "cred_len \<le> length blob"
    using assms(1) True by (auto simp: sign_blob_def Let_def split: if_splits)
  define data where "data = take n (drop 24 blob)"
  have data: "length data = n" using inside by (simp add: data_def)
  show ?thesis
  proof (cases "level = DCERPC_AUTH_LEVEL_PRIVACY")
    case True
    obtain st d sig where seal: "re_seal_packet k g data (take (length blob - cred_len) blob) = (st, d, sig)" by (metis surj_pair)
    define blob' where "blob' = take 24 blob @ in_place data d @ drop (24 + n) blob"
    have len: "length blob' = length blob" using inside data by (simp add: blob'_def)
    have ok: "put_signature cred_len sig blob' = ROk b"
      using assms(1) True inside seal by (auto simp: sign_blob_def Let_def data_def blob'_def split: if_splits)
    have "dcerpc_get_frag_length blob' = dcerpc_get_frag_length blob"
      by (rule frag_length_prefix) (use inside len in \<open>auto simp: blob'_def in_place_prefix\<close>)
    then have ann: "announces blob'" using assms(2) len by (simp add: announces_def)
    have "length sig = cred_len" if "cred_len \<noteq> 0"
      using assms(3) seal that unfolding sig_size_law_def cred(1) data [symmetric] by blast
    then show ?thesis using put_signature_announces [OF ok ann] inside cred(2) len by simp
  next
    case False
    then have level: "level = DCERPC_AUTH_LEVEL_INTEGRITY" using True by simp
    obtain st sig where sign: "re_sign_packet k g data (take (length blob - cred_len) blob) = (st, sig)" by fastforce
    have ok: "put_signature cred_len sig blob = ROk b"
      using assms(1) level inside sign by (auto simp: sign_blob_def Let_def data_def split: if_splits)
    have "length sig = cred_len" if "cred_len \<noteq> 0"
      using assms(3) sign that unfolding sig_size_law_def cred(1) data [symmetric] by blast
    then show ?thesis using put_signature_announces [OF ok assms(2)] inside cred(2) by simp
  qed
qed

text \<open>
  What the marshalling functions promise: the packet header is in front of the verifier, so that at
  least its sixteen bytes are left when the credentials are taken off the end.
\<close>

definition push_auth_law :: "rpc_codec \<Rightarrow> bool" where
  "push_auth_law k \<longleftrightarrow>
     (\<forall>pkt a s s1 s2 t n blob. re_push_packet k pkt s = NOk () s1 \<longrightarrow> ignore_status (ndr_push_zero n s1) = Some s2 \<longrightarrow> re_push_auth k a s2 = NOk () t \<longrightarrow>
        packet_blob t = ROk blob \<longrightarrow> 16 + length (au_credentials a) \<le> length blob)"

text \<open>The way through the function when it succeeds on an authenticated connection.\<close>

lemma signed_request:
  assumes "ncacn_push_request_sign k pkt c = (ROk b, c')" "rs_auth_info c = Some a" "rs_generic_state c = Some g"
  obtains s s1 s2 t stub n creds b0 b1 blob used where "re_push_packet k pkt s = NOk () s1" "ignore_status (ndr_push_zero n s1) = Some s2"
    "sign_credentials k (au_level a) g (length (stub :: u8 list) + pad16 (length stub)) = ROk creds"
    "re_push_auth k (a\<lparr>au_pad_length := of_nat (pad16 (length stub)), au_credentials := creds\<rparr>) s2 = NOk () t" "packet_blob t = ROk b0"
    "with_frag_length b0 = ROk b1" "dcerpc_set_auth_length b1 (of_nat (length creds)) = Some blob"
    "sign_blob k (au_level a) g (length stub + pad16 (length stub)) (length creds) blob = (ROk b, used)"
    "map_option au_credentials (rs_auth_info c') = Some []"
proof -
  define order where "order = push_ctx k (rs_flags c AND DCERPC_PUSH_BIGENDIAN \<noteq> 0) (pk_pfc_flags pkt)"
  note eq = assms(1) [unfolded ncacn_push_request_sign_def assms(2,3) prod.case option.case, folded order_def]
  obtain s1 where s1: "re_push_packet k pkt order = NOk () s1" using eq by (auto split: nres.splits)
  obtain stub where stub: "stub_of (pk_u pkt) = Some stub" using eq s1 by (auto split: option.splits)
  define n where "n = length stub + pad16 (length stub)"
  obtain s2 where s2: "ignore_status (ndr_push_zero (of_nat (pad16 (length stub))) s1) = Some s2"
    using eq s1 stub by (auto simp: Let_def split: option.splits)
  obtain creds where creds: "sign_credentials k (au_level a) g n = ROk creds"
    using eq s1 stub s2 by (auto simp: Let_def n_def split: rpc_res.splits)
  define a2 where "a2 = a\<lparr>au_pad_length := of_nat (pad16 (length stub)), au_credentials := creds\<rparr>"
  obtain t where t: "re_push_auth k a2 s2 = NOk () t"
    using eq s1 stub s2 creds by (auto simp: Let_def n_def a2_def split: nres.splits)
  define m where "m = rbind (rbind (packet_blob t) with_frag_length) (\<lambda>b. case dcerpc_set_auth_length b (of_nat (length creds)) of None \<Rightarrow> RBad | Some b' \<Rightarrow> ROk b')"
  obtain blob where blob: "m = ROk blob"
    using eq s1 stub s2 creds t by (auto simp: Let_def n_def a2_def m_def split: rpc_res.splits)
  then obtain b0 b1 where b01: "packet_blob t = ROk b0" "with_frag_length b0 = ROk b1" "dcerpc_set_auth_length b1 (of_nat (length creds)) = Some blob"
    by (auto simp: m_def rbind_ROk split: option.splits)
  obtain r used where signed: "sign_blob k (au_level a) g n (length creds) blob = (r, used)" by fastforce
  have r: "r = ROk b" and wiped: "map_option au_credentials (rs_auth_info c') = Some []"
    using eq s1 stub s2 creds t blob signed by (auto simp: Let_def n_def a2_def m_def)
  show ?thesis by (rule that [OF s1 s2 creds [unfolded n_def] t [unfolded a2_def] b01 signed [unfolded n_def r] wiped])
qed

text \<open>Every request packet announces its own length in its header, in the byte order of the packet,
  whether it is sent in the clear, with a verifier, signed or sealed, and also when the size of the
  signature was not known before (modulo the width of the field). On a connection with a security
  mechanism the credentials are wiped afterwards.\<close>

theorem request_announces_length:
  assumes sign: "ncacn_push_request_sign k pkt c = (ROk b, c')" and laws: "sig_size_law k" "push_auth_law k"
  shows "dcerpc_get_frag_length b = Some (of_nat (length b)) \<and>
    (rs_generic_state c \<noteq> None \<and> rs_auth_info c \<noteq> None \<longrightarrow> map_option au_credentials (rs_auth_info c') = Some [])"
proof (cases "\<exists>a g. rs_auth_info c = Some a \<and> rs_generic_state c = Some g")
  case False
  then have "ncacn_push_auth k pkt (rs_auth_info c) = ROk b"
    using sign by (auto simp: ncacn_push_request_sign_def split: option.splits)
  then show ?thesis using ncacn_push_auth_announces False by (auto simp: announces_def)
next
  case True
  then obtain a g where ag: "rs_auth_info c = Some a" "rs_generic_state c = Some g" by blast
  show ?thesis
  proof (rule signed_request [OF sign ag])
    fix s s1 s2 t n creds b0 b1 blob used and stub :: "u8 list"
    assume way: "re_push_packet k pkt s = NOk () s1" "ignore_status (ndr_push_zero n s1) = Some s2"
      "sign_credentials k (au_level a) g (length stub + pad16 (length stub)) = ROk creds"
      "re_push_auth k (a\<lparr>au_pad_length := of_nat (pad16 (length stub)), au_credentials := creds\<rparr>) s2 = NOk () t" "packet_blob t = ROk b0"
      "with_frag_length b0 = ROk b1" "dcerpc_set_auth_length b1 (of_nat (length creds)) = Some blob"
      "sign_blob k (au_level a) g (length stub + pad16 (length stub)) (length creds) blob = (ROk b, used)"
      "map_option au_credentials (rs_auth_info c') = Some []"
    have "16 + length creds \<le> length b0" using laws(2) way(1,2,4,5) unfolding push_auth_law_def by fastforce
    moreover have "length b1 = length b0"
      using way(6) set_u16_field_Some(1) by (fastforce simp: with_frag_length_def dcerpc_set_frag_length_def split: option.splits)
    ultimately have len: "16 + length creds \<le> length blob" using frag_length_auth_length(2) [OF way(7)] by simp
    have ann: "announces blob"
      using with_frag_length_announces [OF way(6)] frag_length_auth_length [OF way(7)] by (simp add: announces_def)
    have "announces b"
      by (rule sign_blob_announces [OF way(8) ann laws(1)]) (use way(3) len in \<open>auto simp: sign_credentials_def\<close>)
    then show ?thesis using way(9) by (simp add: announces_def)
  qed
qed

end
