(* ===== verification/DcerpcWitness.thy ===== *)
theory DcerpcWitness
  imports DcerpcProps DcerpcPduProps
begin

text \<open>
  A small codec and a connection over a transport that always sends, on which the theorems about the
  RPC runtime are applied.
\<close>

definition sample_header :: "ncacn_packet \<Rightarrow> u8 list" where
  "sample_header pkt = [5, 0, pk_ptype pkt, pk_pfc_flags pkt] @ take 4 (pk_drep pkt @ replicate 4 0) @ [0, 0, 0, 0] @ SIVAL (pk_call_id pkt) @
     (case stub_of (pk_u pkt) of None \<Rightarrow> [] | Some stub \<Rightarrow> stub)"

definition sample_push :: "u8 list \<Rightarrow> ndr_push \<Rightarrow> ndr_push" where
  "sample_push d s = s\<lparr>np_data := d, np_offset := of_nat (length d), np_alloc := of_nat (length d)\<rparr>"

definition sample_packet :: "u8 list \<Rightarrow> ncacn_packet" where
  "sample_packet d = \<lparr>pk_rpc_vers = d ! 0, pk_rpc_vers_minor = d ! 1, pk_ptype = d ! 2, pk_pfc_flags = d ! 3, pk_drep = take 4 (drop 4 d),
     pk_auth_length = 0, pk_call_id = IVAL d 12, pk_u = if d ! 2 = DCERPC_PKT_RESPONSE then Response (drop 16 d) else OtherPayload\<rparr>"

definition sample_codec :: rpc_codec where
  "sample_codec =
     \<lparr>re_push_packet = \<lambda>pkt s. if 4016 < length (sample_header pkt) then NErr NT_STATUS_INVALID_PARAMETER s
        else NOk () (sample_push (sample_header pkt) s),
      re_pull_packet = \<lambda>ndr. NOk (sample_packet (nl_data ndr)) ndr,
      re_push_auth = \<lambda>a s. if 4000 < length (au_credentials a) then NErr NT_STATUS_INVALID_PARAMETER s
        else NOk () (sample_push (take 40 (np_data s @ replicate 40 0) @ au_credentials a) s),
      re_pull_auth = \<lambda>ndr. NErr NT_STATUS_INVALID_PARAMETER ndr,
      re_sig_size = \<lambda>g n. 16,
      re_seal_packet = \<lambda>g data pdu. (NT_STATUS_OK, data, replicate 16 1),
      re_sign_packet = \<lambda>g data pdu. (NT_STATUS_OK, replicate 16 1),
      re_unseal_packet = \<lambda>g data pdu sig. (NT_STATUS_OK, data),
      re_check_packet = \<lambda>g data pdu sig. NT_STATUS_OK,
      re_fill = \<lambda>_. 0\<rparr>"

definition sample_env :: "NTSTATUS \<Rightarrow> rpc_env" where
  "sample_env st = \<lparr>ev_codec = sample_codec, ev_send_request = \<lambda>n b t. st, ev_callback = \<lambda>p s. s, ev_composite_fn = \<lambda>c s. s,
     ev_junk = stack_packet, ev_fuel = 100\<rparr>"

definition no_links :: links where
  "no_links = \<lparr>l_next = \<lambda>_. None, l_prev = \<lambda>_. None\<rparr>"

lemma length_sample_header: "length (sample_header pkt) = 16 + (case stub_of (pk_u pkt) of None \<Rightarrow> 0 | Some stub \<Rightarrow> length stub)"
  by (auto simp: sample_header_def split: option.splits)

lemma sample_blob: "length d < 2 ^ 32 \<Longrightarrow> packet_blob (sample_push d s) = ROk d"
  by (simp add: packet_blob_def ndr_push_blob_def sample_push_def Let_def unat_of_nat)

lemma with_frag_length_long: "10 \<le> length d \<Longrightarrow> \<exists>b. with_frag_length d = ROk b"
  by (auto simp: with_frag_length_def dcerpc_set_frag_length_def set_u16_field_def)

lemma sample_push_auth:
  assumes "\<forall>stub. stub_of (pk_u pkt) = Some stub \<longrightarrow> length stub \<le> 4000"
  shows "\<exists>b. ncacn_push_auth sample_codec pkt None = ROk b"
proof -
  define q where "q = pkt\<lparr>pk_auth_length := 0\<rparr>"
  have len: "16 \<le> length (sample_header q)" "length (sample_header q) \<le> 4016"
    using assms length_sample_header [of q] by (auto simp: q_def split: option.splits)
  have "packet_blob (sample_push (sample_header q) s) = ROk (sample_header q)" for s
    by (rule sample_blob) (use len in simp)
  moreover obtain b where "with_frag_length (sample_header q) = ROk b" using with_frag_length_long [of "sample_header q"] len(1) by auto
  ultimately have "ncacn_push_auth sample_codec pkt None = ROk b"
    using len(2) by (simp add: ncacn_push_auth_def sample_codec_def rbind_def Let_def q_def [symmetric])
  then show ?thesis by blast
qed

lemma sample_carries:
  assumes "\<forall>(f, stub, l) \<in> set fs. length stub \<le> 4000" "pk_u pkt = Request h c n obj x"
  shows "carries (sample_env NT_STATUS_OK) pkt fs"
  unfolding carries_def
proof (intro ballI, clarify)
  fix f stub l
  assume "(f, stub, l) \<in> set fs"
  then have "length stub \<le> 4000" using assms(1) by auto
  then have "\<exists>b. ncacn_push_auth sample_codec (pkt\<lparr>pk_pfc_flags := f, pk_u := with_stub stub (pk_u pkt)\<rparr>) None = ROk b"
    by (intro sample_push_auth) (simp add: assms(2) with_stub_def stub_of_def)
  then show "\<exists>b. ncacn_push_auth (ev_codec (sample_env NT_STATUS_OK)) (pkt\<lparr>pk_pfc_flags := f, pk_u := with_stub stub (pk_u pkt)\<rparr>) None = ROk b \<and>
      (\<forall>n. ev_send_request (sample_env NT_STATUS_OK) n b l = NT_STATUS_OK)"
    by (simp add: sample_env_def)
qed

text \<open>A request with at most 4000 bytes of data is carried.\<close>

lemma sample_request_carried:
  assumes "length stub \<le> 4000"
  shows "case request_fragments s pipe obj opnum async stub of (pkt, fs) \<Rightarrow> carries (sample_env NT_STATUS_OK) pkt fs"
proof -
  have piece: "x \<in> set xs \<Longrightarrow> length x \<le> length (concat xs)" for x and xs :: "u8 list list"
    by (induction xs) auto
  have tag: "e \<in> set (tagged f b xs) \<Longrightarrow> fst (snd e) \<in> set xs" for e f b and xs :: "u8 list list"
    by (induction f b xs rule: tagged.induct) auto
  have "length (fst (snd e)) \<le> 4000" if "e \<in> set (tagged f b (pieces c stub))" for e f b c
    using piece [OF tag [OF that]] assms by simp
  then show ?thesis
    unfolding request_fragments_def Let_def prod.case
    by (intro sample_carries) (auto simp add: request_packet_def split_beta)
qed

lemma sample_idle: "idle_client (sample_env st)"
  by (simp add: idle_client_def sample_env_def)

lemma sample_laws: "sig_size_law sample_codec" "push_auth_law sample_codec"
proof -
  show "sig_size_law sample_codec" by (auto simp: sig_size_law_def sample_codec_def)
  show "push_auth_law sample_codec"
    unfolding push_auth_law_def
  proof (intro allI impI)
    fix pkt a s s1 s2 t n blob
    assume "re_push_auth sample_codec a s2 = NOk () t" "packet_blob t = ROk blob"
    then show "16 + length (au_credentials a) \<le> length blob"
      by (auto simp: sample_codec_def sample_blob split: if_splits)
  qed
qed

lemma initial_simps [simp]:
  "dc_pending (ds_conn (initial_dstate lk)) = None" "dc_request_queue (ds_conn (initial_dstate lk)) = None" "ds_next (initial_dstate lk) = 0"
  "dc_security (ds_conn (initial_dstate lk)) = \<lparr>rs_flags = 0, rs_auth_info = None, rs_generic_state = None\<rparr>"
  "dc_srv_max_recv_frag (ds_conn (initial_dstate lk)) = 0" "fst (next_call_id (ds_conn (initial_dstate lk))) = 2"
  by (simp_all add: initial_dstate_def dcerpc_connection_init_def next_call_id_def)

lemma sample_chunk: "0 < chunk_size_of 0 None"
  by (simp add: chunk_size_of_def word_less_nat_alt)

section \<open>Applications\<close>

theorem ship_sends_fragments_witness:
  "let r = waiting 0 7 None False (replicate 10 9) 2;
       s = (initial_dstate no_links)\<lparr>ds_conn := (dcerpc_connection_init)\<lparr>dc_srv_max_recv_frag := 60, dc_request_queue := Some 0\<rparr>, ds_reqs := [0 \<mapsto> r]\<rparr>
   in \<exists>fs. dcerpc_ship_next_request (sample_env NT_STATUS_OK) s =
        send_fragments (sample_env NT_STATUS_OK) 0 (request_packet (ds_conn s) (ds_pipes s 0) r) fs (pending_add 0 (queue_remove 0 s)) \<and>
        concat (map (\<lambda>f. fst (snd f)) fs) = replicate 10 9 \<and> (\<forall>f \<in> set fs. length (fst (snd f)) \<le> 4)"
proof -
  let ?r = "waiting 0 7 None False (replicate 10 9) 2"
  let ?s = "(initial_dstate no_links)\<lparr>ds_conn := (dcerpc_connection_init)\<lparr>dc_srv_max_recv_frag := 60, dc_request_queue := Some 0\<rparr>, ds_reqs := [0 \<mapsto> ?r]\<rparr>"
  have c: "chunk_size_of 60 None = 4" by (simp add: chunk_size_of_def)
  have "\<exists>fs. dcerpc_ship_next_request (sample_env NT_STATUS_OK) ?s =
        send_fragments (sample_env NT_STATUS_OK) 0 (request_packet (ds_conn ?s) (ds_pipes ?s (rr_pipe ?r)) ?r) fs (pending_add 0 (queue_remove 0 ?s)) \<and>
        fs \<noteq> [] \<and> concat (map (\<lambda>f. fst (snd f)) fs) = rr_request_data ?r \<and>
        (\<forall>i < length fs. length (fst (snd (fs ! i))) \<le> unat (4 :: u32) \<and>
           (fst (fs ! i) AND DCERPC_PFC_FLAG_FIRST \<noteq> 0 \<longleftrightarrow> i = 0) \<and>
           (fst (fs ! i) AND DCERPC_PFC_FLAG_LAST \<noteq> 0 \<longleftrightarrow> i = length fs - 1) \<and>
           (snd (snd (fs ! i)) \<longleftrightarrow> i = length fs - 1) \<and>
           fst (fs ! i) AND DCERPC_PFC_FLAG_ORPC = (if rr_object ?r = None then 0 else DCERPC_PFC_FLAG_ORPC))"
    by (rule ship_sends_fragments) (simp_all add: c waiting_def dcerpc_connection_init_def sample_env_def)
  moreover have "rr_request_data ?r = replicate 10 9" "rr_pipe ?r = 0" by (simp_all add: waiting_def)
  ultimately show ?thesis unfolding Let_def by (fastforce simp: in_set_conv_nth)
qed

theorem ship_never_ends_witness:
  "let r = waiting 0 7 None False [9] 2;
       s = (initial_dstate no_links)\<lparr>ds_conn := (dcerpc_connection_init)\<lparr>dc_srv_max_recv_frag := 56, dc_request_queue := Some 0\<rparr>, ds_reqs := [0 \<mapsto> r]\<rparr>
   in dcerpc_ship_next_request (sample_env NT_STATUS_OK) s = Hang"
  unfolding Let_def
  by (rule ship_never_ends [where p = 0 and r = "waiting 0 7 None False [9] 2"])
    (auto simp: waiting_def dcerpc_connection_init_def intro!: sample_carries simp: request_packet_def)

text \<open>A reply of one packet to the call number 2.\<close>

definition sample_reply :: "u8 list" where
  "sample_reply = [5, 0, 2, 3, 0x10, 0, 0, 0, 0, 0, 0, 0, 2, 0, 0, 0, 7, 8]"

lemma sample_reply_frag: "reply_frags sample_codec 0 2 [(sample_reply, [7, 8])]"
proof -
  have "ncacn_pull sample_codec 0 sample_reply = ROk (sample_packet sample_reply)"
    by (simp add: ncacn_pull_def sample_codec_def ndr_pull_init_flags_def with_order_def ndr_pull_init_blob_def sample_reply_def)
  moreover have "IVAL sample_reply 12 = 2" by (simp add: IVAL_def SVAL_def sample_reply_def)
  ultimately show ?thesis by (simp add: reply_frag_def sample_packet_def) (simp add: sample_reply_def)
qed

theorem dcerpc_request_returns_reply_witness:
  "\<exists>t. dcerpc_request (sample_env NT_STATUS_OK) 0 None 7 False [1, 2, 3] [RecvData sample_reply] (initial_dstate no_links) =
    Ret (NT_STATUS_OK, [7, 8], []) t"
proof -
  have env: "ev_codec (sample_env NT_STATUS_OK) = sample_codec" "ev_fuel (sample_env NT_STATUS_OK) = 100" by (simp_all add: sample_env_def)
  show ?thesis
    using dcerpc_request_returns_reply [OF idle_client_ok [OF sample_idle [of NT_STATUS_OK]] rpc_run.start [of "sample_env NT_STATUS_OK" no_links], where pipe = 0 and obj = None and opnum = 7 and async = False and stub = "[1, 2, 3]" and fs = "[(sample_reply, [7, 8])]" and es = "[]"] sample_request_carried [of "[1, 2, 3]" "initial_dstate no_links" 0 None 7 False]
      sample_reply_frag sample_chunk
    by (auto simp: env)
qed

text \<open>A second request waits in the queue.\<close>

lemma request_send_queued:
  assumes l: "conn_lists (p # ps) [] s"
  shows "\<exists>t. dcerpc_request_send env pipe obj opnum False stub s = Ret (ds_next s) t \<and> conn_lists (p # ps) [ds_next s] t \<and>
    ds_reqs t = (ds_reqs s)(ds_next s \<mapsto> waiting pipe opnum obj False stub (fst (next_call_id (ds_conn s))))"
proof -
  define q where "q = ds_next s"
  define r where "r = waiting pipe opnum obj False stub (fst (next_call_id (ds_conn s)))"
  define s0 where "s0 = s\<lparr>ds_conn := snd (next_call_id (ds_conn s))\<rparr>"
  obtain t where t: "queue_add_end q (new_req q r s0) = Ret () t" "conn_lists (p # ps) ([] @ [q]) t" "ds_reqs t = (ds_reqs s0)(q \<mapsto> r)"
    using lists_queue_add [of "p # ps" "[]" s0 q r] l by (auto simp: s0_def q_def r_def waiting_def)
  have start: "s\<lparr>ds_conn := snd (next_call_id (ds_conn s)), ds_reqs := (ds_reqs s)(q \<mapsto> r), ds_next := q + 1\<rparr> = new_req q r s0"
    by (simp add: new_req_def s0_def)
  have "ds_reqs t q = Some r" "\<not> rr_async_call r" by (simp_all add: t(3) r_def waiting_def)
  then have ship: "dcerpc_ship_next_request env t = Ret () t"
    using lists_queue [OF t(2)] lists_pending [OF t(2)] by (simp add: dcerpc_ship_next_request_def with_req_def)
  have "\<exists>as. dcerpc_request_send env pipe obj opnum False stub s = Ret q (acted as t)"
    unfolding dcerpc_request_send_def Let_def split_beta q_def [symmetric] r_def [unfolded waiting_def, symmetric] start t(1)
    using ship by (auto intro: exI [of _ "[]"])
  then obtain as where "dcerpc_request_send env pipe obj opnum False stub s = Ret q (acted as t)" by blast
  then show ?thesis using t(2,3) by (auto simp: q_def [symmetric] r_def [symmetric] s0_def intro!: exI [of _ "acted as t"])
qed

text \<open>A state with one request pending and one in the queue.\<close>

lemma sample_state:
  "\<exists>s p q. rpc_run (sample_env NT_STATUS_OK) s \<and> conn_lists [p] [q] s \<and> has_callback NoCallback s p \<and> has_callback NoCallback s q"
proof -
  let ?e = "sample_env NT_STATUS_OK"
  obtain s where s: "dcerpc_request_send ?e 0 None 7 False [] (initial_dstate no_links) = Ret 0 s" "conn_lists [0] [] s"
    "ds_reqs s = (ds_reqs (initial_dstate no_links))(0 \<mapsto> waiting 0 7 None False [] 2)"
    using dcerpc_request_send_plain [OF sample_request_carried _ initial_lists [of no_links] disjI2 [OF refl], where stub = "[]"
        and obj = None and pipe = 0 and opnum = 7 and async = False] sample_chunk
    by (auto simp: sample_env_def)
  have run: "rpc_run ?e s" by (rule rpc_run.request [OF rpc_run.start s(1)])
  obtain t where t: "dcerpc_request_send ?e 0 None 7 False [] s = Ret (ds_next s) t" "conn_lists [0] [ds_next s] t"
    "ds_reqs t = (ds_reqs s)(ds_next s \<mapsto> waiting 0 7 None False [] (fst (next_call_id (ds_conn s))))"
    using request_send_queued [OF s(2), of ?e 0 None 7 "[]"] by auto
  have "rpc_run ?e t" by (rule rpc_run.request [OF run t(1)])
  moreover have "has_callback NoCallback t 0" "has_callback NoCallback t (ds_next s)"
    by (simp_all add: has_callback_def t(3) s(3) waiting_def)
  ultimately show ?thesis using t(2) by blast
qed

theorem rpc_lists_invariant_witness:
  "\<exists>s p q. rpc_run (sample_env NT_STATUS_OK) s \<and> dlist (pending_list s) [p] \<and> dlist (queue_list s) [q] \<and>
    (\<forall>x. x \<in> {p, q} \<longleftrightarrow> (\<exists>r. ds_reqs s x = Some r \<and> rr_state r = RPC_REQUEST_PENDING))"
proof -
  obtain s p q where s: "rpc_run (sample_env NT_STATUS_OK) s" "conn_lists [p] [q] s" using sample_state by blast
  have l: "dlist (pending_list s) [p]" "dlist (queue_list s) [q]" using s(2) by (simp_all add: conn_lists_def pending_list_def queue_list_def)
  obtain ps qs where "dlist (pending_list s) ps" "dlist (queue_list s) qs"
    "\<forall>x. x \<in> set ps \<union> set qs \<longleftrightarrow> (\<exists>r. ds_reqs s x = Some r \<and> rr_state r = RPC_REQUEST_PENDING)"
    using rpc_lists_invariant [OF idle_client_ok [OF sample_idle] s(1)] by auto
  moreover have "ps = [p]" "qs = [q]" using calculation(1,2) l dlist_unique by blast+
  ultimately have "\<forall>x. x \<in> {p, q} \<longleftrightarrow> (\<exists>r. ds_reqs s x = Some r \<and> rr_state r = RPC_REQUEST_PENDING)" by auto
  then show ?thesis using s(1) l by blast
qed

theorem transport_error_finishes_pending_witness:
  "\<exists>s t p q. handle_rpc_event (sample_env NT_STATUS_OK) (TransportError NT_STATUS_UNEXPECTED_NETWORK_ERROR) s = Ret () t \<and>
    dlist (pending_list s) [p] \<and> dc_pending (ds_conn t) = None \<and> dlist (queue_list t) [q] \<and>
    ds_reqs t p = map_option (killed NT_STATUS_UNEXPECTED_NETWORK_ERROR) (ds_reqs s p)"
proof -
  let ?e = "sample_env NT_STATUS_OK" and ?st = "NT_STATUS_UNEXPECTED_NETWORK_ERROR"
  obtain s p q where s: "rpc_run ?e s" "conn_lists [p] [q] s" "has_callback NoCallback s p" using sample_state by blast
  have l: "dlist (pending_list s) [p]" "dlist (queue_list s) [q]" using s(2) by (simp_all add: conn_lists_def pending_list_def queue_list_def)
  obtain t qs where t: "handle_rpc_event ?e (TransportError ?st) s = Ret () t" "dc_pending (ds_conn t) = None"
    "ds_reqs t = (\<lambda>x. if x \<in> set [p] then map_option (killed ?st) (ds_reqs s x) else ds_reqs s x)" "dlist (queue_list s) qs" "dlist (queue_list t) qs"
    using transport_error_finishes_pending [OF sample_idle s(1) l(1), of ?st] s(3) by (auto simp: sample_env_def NT_STATUS_IS_OK_def)
  have "qs = [q]" using t(4) l(2) dlist_unique by blast
  then show ?thesis using t l by (intro exI [of _ s] exI [of _ t] exI [of _ p] exI [of _ q]) simp
qed

theorem queued_timeout_breaks_queue_witness:
  "\<exists>s t q. rpc_run (sample_env NT_STATUS_OK) s \<and> handle_rpc_event (sample_env NT_STATUS_OK) (RequestTimeout q) s = Ret () t \<and>
    dcerpc_ship_next_request (sample_env NT_STATUS_OK) (free_req q t) = Undef"
proof -
  obtain s p q where s: "rpc_run (sample_env NT_STATUS_OK) s" "conn_lists [p] [q] s" "has_callback NoCallback s q" using sample_state by blast
  have "dlist (queue_list s) [q]" using s(2) by (simp add: conn_lists_def queue_list_def)
  then show ?thesis using queued_timeout_breaks_queue [OF sample_idle s(1) _ s(3), of "[]"] s(1) by blast
qed

definition sample_syntax :: dcerpc_syntax_id where
  "sample_syntax = \<lparr>si_uuid = replicate 16 0, si_if_version = 1\<rparr>"

theorem failed_bind_leaves_dangling_request_witness:
  "\<exists>c t u. dcerpc_bind_send (sample_env NT_STATUS_IO_TIMEOUT) 0 sample_syntax sample_syntax (initial_dstate no_links) = Ret c t \<and>
    dcerpc_bind_recv (sample_env NT_STATUS_IO_TIMEOUT) c [] t = Ret (NT_STATUS_IO_TIMEOUT, []) u \<and>
    handle_rpc_event (sample_env NT_STATUS_IO_TIMEOUT) (TransportError NT_STATUS_IO_TIMEOUT) u = Undef"
  by (rule failed_bind_leaves_dangling_request [OF idle_client_ok [OF sample_idle] rpc_run.start])
    (simp_all add: sample_env_def sample_push_auth NT_STATUS_IS_OK_def)

text \<open>A signed packet: the stub fills whole blocks, the signature has sixteen bytes.\<close>

definition sample_auth :: dcerpc_auth where
  "sample_auth = \<lparr>au_type = 10, au_level = DCERPC_AUTH_LEVEL_INTEGRITY, au_pad_length = 0, au_reserved = 0, au_context_id = 0, au_credentials = []\<rparr>"

definition sample_request :: ncacn_packet where
  "sample_request = (init_ncacn_hdr 0 stack_packet)\<lparr>pk_call_id := 2, pk_u := Request 16 0 7 None (replicate 16 9)\<rparr>"

theorem request_announces_length_witness:
  "\<exists>b c'. ncacn_push_request_sign sample_codec sample_request \<lparr>rs_flags = 0, rs_auth_info = Some sample_auth, rs_generic_state = Some 0\<rparr> = (ROk b, c') \<and>
    dcerpc_get_frag_length b = Some (of_nat (length b)) \<and> map_option au_credentials (rs_auth_info c') = Some []"
proof -
  let ?c = "\<lparr>rs_flags = 0, rs_auth_info = Some sample_auth, rs_generic_state = Some 0\<rparr>"
  have "case ncacn_push_request_sign sample_codec sample_request ?c of (ROk _, _) \<Rightarrow> True | _ \<Rightarrow> False" by code_simp
  then obtain b c' where "ncacn_push_request_sign sample_codec sample_request ?c = (ROk b, c')" by (auto split: prod.splits rpc_res.splits)
  then show ?thesis using request_announces_length [OF _ sample_laws, of sample_request ?c b c'] by auto
qed

end
