(* ===== verification/SmbRequest.thy ===== *)
theory SmbRequest
  imports Charcnv Ndr
begin

text \<open>
  Request packets of the SMB client, \<open>libcli/raw/rawrequest.c\<close>: building a packet, appending
  bytes, blobs and strings, and reading strings and data from a reply. Pointers into a packet are
  offsets from the start of its buffer; None is an access outside the buffer, a conversion that
  does not end, or a panic. Buffers start at even addresses. Allocation succeeds.
\<close>

section \<open>Memory\<close>

definition poke :: "int \<Rightarrow> u8 list \<Rightarrow> u8 list \<Rightarrow> u8 list option" where
  "poke ofs bs buf =
     (if 0 \<le> ofs \<and> ofs + int (length bs) \<le> int (length buf)
      then Some (take (nat ofs) buf @ bs @ drop (nat ofs + length bs) buf) else None)"

fun pokes :: "(int \<times> u8 list) list \<Rightarrow> u8 list \<Rightarrow> u8 list option" where
  "pokes [] buf = Some buf"
| "pokes ((ofs, bs) # r) buf = Option.bind (poke ofs bs buf) (pokes r)"

definition peek :: "int \<Rightarrow> int \<Rightarrow> u8 list \<Rightarrow> u8 list option" where
  "peek ofs n buf = (if 0 \<le> ofs \<and> 0 \<le> n \<and> ofs + n \<le> int (length buf) then Some (take (nat n) (drop (nat ofs) buf)) else None)"

definition peek8 :: "int \<Rightarrow> u8 list \<Rightarrow> int option" where
  "peek8 ofs buf = map_option (\<lambda>w. uint (w ! 0)) (peek ofs 1 buf)"

definition peek16 :: "int \<Rightarrow> u8 list \<Rightarrow> int option" where
  "peek16 ofs buf = map_option (\<lambda>w. uint (SVAL w 0)) (peek ofs 2 buf)"

definition peek32 :: "int \<Rightarrow> u8 list \<Rightarrow> int option" where
  "peek32 ofs buf = map_option (\<lambda>w. uint (IVAL w 0)) (peek ofs 4 buf)"

text \<open>Conversions to \<open>int\<close>, \<open>uint_t\<close> and \<open>size_t\<close>.\<close>

definition int32 :: "int \<Rightarrow> int" where "int32 x = (x + 2147483648) mod 4294967296 - 2147483648"
definition uint32 :: "int \<Rightarrow> int" where "uint32 x = x mod 4294967296"
definition usize :: "int \<Rightarrow> int" where "usize x = x mod 18446744073709551616"

text \<open>\<open>strnlen\<close> and \<open>utf16_len_n\<close> on memory; a negative limit is a huge \<open>size_t\<close>.\<close>

definition strnlen_at :: "u8 list \<Rightarrow> int \<Rightarrow> int \<Rightarrow> int option" where
  "strnlen_at buf src n =
     (if src < 0 then None
      else
        (let rest = drop (nat src) buf; m = nat (usize n); len = strnlen rest m
         in if m \<le> length rest \<or> len < length rest then Some (int len) else None))"

definition utf16_len_at :: "u8 list \<Rightarrow> int \<Rightarrow> int \<Rightarrow> int option" where
  "utf16_len_at buf src n =
     (if src < 0 then None
      else
        (let rest = drop (nat src) buf; m = nat (usize n)
         in if m \<le> length rest \<or> utf16_units rest m + 2 \<le> length rest then Some (int (utf16_len_n rest m)) else None))"

section \<open>Packets\<close>

abbreviation (input) "NBT_HDR_SIZE \<equiv> (4 :: int)"
abbreviation (input) "MIN_SMB_SIZE \<equiv> (35 :: int)"
abbreviation (input) "HDR_COM \<equiv> (4 :: int)"
abbreviation (input) "HDR_RCLS \<equiv> (5 :: int)"
abbreviation (input) "HDR_FLG \<equiv> (9 :: int)"
abbreviation (input) "HDR_FLG2 \<equiv> (10 :: int)"
abbreviation (input) "HDR_PIDHIGH \<equiv> (12 :: int)"
abbreviation (input) "HDR_SS_FIELD \<equiv> (14 :: int)"
abbreviation (input) "HDR_TID \<equiv> (24 :: int)"
abbreviation (input) "HDR_PID \<equiv> (26 :: int)"
abbreviation (input) "HDR_UID \<equiv> (28 :: int)"
abbreviation (input) "HDR_MID \<equiv> (30 :: int)"
abbreviation (input) "HDR_WCT \<equiv> (32 :: int)"
abbreviation (input) "HDR_VWV \<equiv> (33 :: int)"
abbreviation (input) "FLAG_CASELESS_PATHNAMES \<equiv> (0x08 :: u8)"
abbreviation (input) "FLAGS2_UNICODE_STRINGS \<equiv> (0x8000 :: u16)"
abbreviation (input) "STR_LEN8BIT \<equiv> (64 :: u32)"
abbreviation (input) "STR_LEN_NOTERM \<equiv> (256 :: u32)"
abbreviation (input) "NT_STATUS_NOT_FOUND \<equiv> (0xC0000225 :: NTSTATUS)"

record request_buffer =
  rb_buffer :: "u8 list"
  rb_size :: int
  rb_allocated :: int
  rb_hdr :: int
  rb_vwv :: int
  rb_wct :: int
  rb_data :: int
  rb_data_size :: int
  rb_ptr :: int

datatype smbcli_request_state = SMBCLI_REQUEST_INIT | SMBCLI_REQUEST_RECV | SMBCLI_REQUEST_DONE | SMBCLI_REQUEST_ERROR

record smbcli_request =
  sq_state :: smbcli_request_state
  sq_flags2 :: u16
  sq_status :: NTSTATUS
  sq_mid :: u16
  sq_in :: request_buffer
  sq_out :: request_buffer

definition empty_buffer :: request_buffer where
  "empty_buffer = \<lparr>rb_buffer = [], rb_size = 0, rb_allocated = 0, rb_hdr = 0, rb_vwv = 0, rb_wct = 0, rb_data = 0, rb_data_size = 0, rb_ptr = 0\<rparr>"

text \<open>The final status.\<close>

definition smbcli_request_destroy :: "smbcli_request option \<Rightarrow> NTSTATUS" where
  "smbcli_request_destroy req =
     (case req of
        None \<Rightarrow> NT_STATUS_UNSUCCESSFUL
      | Some r \<Rightarrow> if sq_state r = SMBCLI_REQUEST_ERROR \<and> NT_STATUS_IS_OK (sq_status r) then NT_STATUS_INTERNAL_ERROR else sq_status r)"

definition smbcli_request_setup_nonsmb :: "(nat \<Rightarrow> u8) \<Rightarrow> int \<Rightarrow> smbcli_request option" where
  "smbcli_request_setup_nonsmb fill sz =
     map_option (\<lambda>buf. \<lparr>sq_state = SMBCLI_REQUEST_INIT, sq_flags2 = 0, sq_status = NT_STATUS_OK, sq_mid = 0, sq_in = empty_buffer,
        sq_out = empty_buffer\<lparr>rb_buffer := buf, rb_size := sz, rb_allocated := sz\<rparr>\<rparr>)
       (poke 0 (SIVAL 0) (map fill [0..<nat sz]))"

text \<open>The command words and the data of a packet with \<open>wct\<close> words; the mid is that of the transport.\<close>

definition smbcli_request_setup_transport :: "(nat \<Rightarrow> u8) \<Rightarrow> u16 \<Rightarrow> u8 \<Rightarrow> int \<Rightarrow> int \<Rightarrow> smbcli_request option" where
  "smbcli_request_setup_transport fill mid command wct buflen =
     Option.bind (smbcli_request_setup_nonsmb fill (NBT_HDR_SIZE + MIN_SMB_SIZE + wct * 2 + buflen))
       (\<lambda>req.
          let hdr = NBT_HDR_SIZE; vwv = hdr + HDR_VWV; data = vwv + 2 * wct + 2
          in map_option (\<lambda>buf. req\<lparr>sq_mid := mid, sq_out := (sq_out req)\<lparr>rb_buffer := buf, rb_hdr := hdr, rb_vwv := vwv, rb_wct := wct,
                 rb_data := data, rb_data_size := buflen, rb_ptr := data\<rparr>\<rparr>)
               (pokes [(hdr + HDR_WCT, [of_int wct]), (vwv + 2 * wct, SSVAL (of_int buflen)),
                       (hdr, [0xFF, 0x53, 0x4D, 0x42]), (hdr + HDR_COM, [command]),
                       (hdr + HDR_FLG, [FLAG_CASELESS_PATHNAMES]), (hdr + HDR_FLG2, SSVAL 0),
                       (hdr + HDR_PID, SSVAL 0), (hdr + HDR_UID, SSVAL 0), (hdr + HDR_MID, SSVAL mid), (hdr + HDR_TID, SSVAL 0),
                       (hdr + HDR_PIDHIGH, SSVAL 0), (hdr + HDR_RCLS, SIVAL 0), (hdr + HDR_SS_FIELD, replicate 10 0)]
                  (rb_buffer (sq_out req))))"

definition poke_out :: "(int \<times> u8 list) list \<Rightarrow> smbcli_request \<Rightarrow> smbcli_request option" where
  "poke_out ws req = map_option (\<lambda>buf. req\<lparr>sq_out := (sq_out req)\<lparr>rb_buffer := buf\<rparr>\<rparr>) (pokes ws (rb_buffer (sq_out req)))"

record smbcli_session =
  se_flags2 :: u16
  se_pid :: u32
  se_vuid :: u16

definition smbcli_request_setup_session ::
    "(nat \<Rightarrow> u8) \<Rightarrow> u16 \<Rightarrow> smbcli_session \<Rightarrow> u8 \<Rightarrow> int \<Rightarrow> int \<Rightarrow> smbcli_request option" where
  "smbcli_request_setup_session fill mid session command wct buflen =
     Option.bind (smbcli_request_setup_transport fill mid command wct buflen)
       (\<lambda>req. let hdr = rb_hdr (sq_out req) in
          poke_out [(hdr + HDR_FLG2, SSVAL (se_flags2 session)), (hdr + HDR_PID, SSVAL (ucast (se_pid session AND 0xFFFF))),
            (hdr + HDR_PIDHIGH, SSVAL (ucast (drop_bit 16 (se_pid session)))), (hdr + HDR_UID, SSVAL (se_vuid session))] req)"

definition smbcli_request_setup ::
    "(nat \<Rightarrow> u8) \<Rightarrow> u16 \<Rightarrow> smbcli_session \<Rightarrow> u16 \<Rightarrow> u8 \<Rightarrow> int \<Rightarrow> int \<Rightarrow> smbcli_request option" where
  "smbcli_request_setup fill mid session tid command wct buflen =
     Option.bind (smbcli_request_setup_session fill mid session command wct buflen)
       (\<lambda>req. poke_out [(rb_hdr (sq_out req) + HDR_TID, SSVAL tid)] req)"

section \<open>Growing a packet\<close>

text \<open>New memory holds \<open>fill\<close>.\<close>

definition smbcli_req_grow_allocation :: "(nat \<Rightarrow> u8) \<Rightarrow> int \<Rightarrow> request_buffer \<Rightarrow> request_buffer option" where
  "smbcli_req_grow_allocation fill new_size rb =
     (let delta = int32 (uint32 new_size - rb_data_size rb) in
      if usize (delta + rb_size rb) \<le> rb_allocated rb then Some rb
      else if delta + rb_size rb < 0 then None
      else
        (let n = nat (rb_size rb + delta); buf = rb_buffer rb
         in Some (rb\<lparr>rb_allocated := rb_size rb + delta, rb_buffer := take n buf @ map fill [length buf..<n]\<rparr>)))"

definition smbcli_req_grow_data :: "(nat \<Rightarrow> u8) \<Rightarrow> int \<Rightarrow> request_buffer \<Rightarrow> request_buffer option" where
  "smbcli_req_grow_data fill new_size rb0 =
     Option.bind (smbcli_req_grow_allocation fill new_size rb0)
       (\<lambda>rb. let delta = int32 (uint32 new_size - rb_data_size rb) in
          map_option (\<lambda>buf. rb\<lparr>rb_size := rb_size rb + delta, rb_data_size := rb_data_size rb + delta, rb_buffer := buf\<rparr>)
            (poke (rb_vwv rb + 2 * rb_wct rb) (SSVAL (of_int (uint32 new_size))) (rb_buffer rb)))"

definition smbcli_chained_request_setup :: "(nat \<Rightarrow> u8) \<Rightarrow> u8 \<Rightarrow> int \<Rightarrow> int \<Rightarrow> request_buffer \<Rightarrow> request_buffer option" where
  "smbcli_chained_request_setup fill command wct buflen rb0 =
     (let new_size = uint32 (1 + wct * 2 + 2 + buflen) in
      Option.bind (pokes [(rb_vwv rb0, SSVAL (ucast command)), (rb_vwv rb0 + 2, SSVAL (of_int (rb_size rb0 - NBT_HDR_SIZE)))] (rb_buffer rb0))
        (\<lambda>buf. Option.bind (smbcli_req_grow_allocation fill (rb_data_size rb0 + new_size) (rb0\<lparr>rb_buffer := buf\<rparr>))
           (\<lambda>rb. let vwv = rb_size rb + 1 in
              map_option (\<lambda>buf. rb\<lparr>rb_vwv := vwv, rb_size := rb_size rb + new_size, rb_buffer := buf\<rparr>)
                (pokes [(vwv - 1, [of_int wct]), (vwv + 2 * wct, SSVAL (of_int buflen))] (rb_buffer rb)))))"

section \<open>Appending\<close>

text \<open>Memory at the end of the data, then the new size. The number of bytes is returned by the callers.\<close>

definition append_at :: "(nat \<Rightarrow> u8) \<Rightarrow> u8 list \<Rightarrow> int \<Rightarrow> request_buffer \<Rightarrow> request_buffer option" where
  "append_at fill bs len rb =
     Option.bind (poke (rb_data rb + rb_data_size rb) bs (rb_buffer rb))
       (\<lambda>buf. smbcli_req_grow_data fill (len + rb_data_size rb) (rb\<lparr>rb_buffer := buf\<rparr>))"

definition smbcli_req_append_bytes :: "(nat \<Rightarrow> u8) \<Rightarrow> u8 list \<Rightarrow> request_buffer \<Rightarrow> (int \<times> request_buffer) option" where
  "smbcli_req_append_bytes fill bytes rb =
     Option.bind (smbcli_req_grow_allocation fill (int (length bytes) + rb_data_size rb) rb)
       (\<lambda>rb1. map_option (Pair (int (length bytes))) (append_at fill bytes (int (length bytes)) rb1))"

definition smbcli_req_append_blob :: "(nat \<Rightarrow> u8) \<Rightarrow> u8 list \<Rightarrow> request_buffer \<Rightarrow> (int \<times> request_buffer) option" where
  "smbcli_req_append_blob fill blob rb =
     Option.bind (smbcli_req_grow_allocation fill (rb_data_size rb + int (length blob)) rb)
       (\<lambda>rb1. map_option (Pair (int (length blob))) (append_at fill blob (int (length blob)) rb1))"

definition smbcli_req_append_var_block :: "(nat \<Rightarrow> u8) \<Rightarrow> u8 list \<Rightarrow> u16 \<Rightarrow> request_buffer \<Rightarrow> (int \<times> request_buffer) option" where
  "smbcli_req_append_var_block fill bytes byte_len rb =
     (let n = uint byte_len + 3 in
      Option.bind (smbcli_req_grow_allocation fill (n + rb_data_size rb) rb)
        (\<lambda>rb1. map_option (Pair n) (append_at fill ([5] @ SSVAL byte_len @ take (unat byte_len) bytes) n rb1)))"

text \<open>
  Strings. \<open>unicode\<close> is the negotiated capability, \<open>strupper\<close> the parameter of \<open>push_string\<close>; the
  number of bytes is -1 when a conversion to the DOS charset has failed.
\<close>

definition string_flags :: "bool \<Rightarrow> u32 \<Rightarrow> u32" where
  "string_flags unicode flags =
     (if flags AND (STR_ASCII OR STR_UNICODE) = 0 then flags OR (if unicode then STR_UNICODE else STR_ASCII) else flags)"

definition max_string_bytes :: "u8 list \<Rightarrow> nat" where
  "max_string_bytes str = (length str + 2) * 3"

definition smbcli_req_append_string ::
    "(nat \<Rightarrow> u8) \<Rightarrow> (u8 list \<Rightarrow> u8 list option) \<Rightarrow> bool \<Rightarrow> u8 list \<Rightarrow> u32 \<Rightarrow> request_buffer \<Rightarrow> conv_state \<Rightarrow>
     (int \<times> request_buffer \<times> conv_state) option" where
  "smbcli_req_append_string fill strupper unicode str flags0 rb st =
     (let flags = string_flags unicode flags0; len = max_string_bytes str in
      Option.bind (smbcli_req_grow_allocation fill (int len + rb_data_size rb) rb)
        (\<lambda>rb1. case push_string strupper (odd (rb_data rb1 + rb_data_size rb1)) str len flags st of
             None \<Rightarrow> None
           | Some (None, _) \<Rightarrow> None
           | Some (Some (n, bs), st1) \<Rightarrow> map_option (\<lambda>rb2. (n, rb2, st1)) (append_at fill bs n rb1)))"

definition smbcli_req_append_string_len ::
    "(nat \<Rightarrow> u8) \<Rightarrow> (u8 list \<Rightarrow> u8 list option) \<Rightarrow> bool \<Rightarrow> u8 list \<Rightarrow> u32 \<Rightarrow> request_buffer \<Rightarrow> conv_state \<Rightarrow>
     (int \<times> int \<times> request_buffer \<times> conv_state) option" where
  "smbcli_req_append_string_len fill strupper unicode str flags0 rb st =
     (let flags = string_flags unicode flags0;
          diff1 = (if flags AND STR_UNICODE \<noteq> 0 \<and> flags AND STR_NOALIGN = 0 then int (ucs2_align (odd (rb_data rb + rb_data_size rb)) flags) else 0);
          diff = (if flags AND STR_TERMINATE \<noteq> 0 then diff1 + (if flags AND STR_UNICODE \<noteq> 0 then 2 else 1) else diff1)
      in map_option (\<lambda>(ret, rb1, st1). (ret, int32 (if diff \<le> usize ret then ret - diff else ret), rb1, st1))
           (smbcli_req_append_string fill strupper unicode str flags rb st))"

definition smbcli_req_append_ascii4 ::
    "(nat \<Rightarrow> u8) \<Rightarrow> (u8 list \<Rightarrow> u8 list option) \<Rightarrow> bool \<Rightarrow> u8 list \<Rightarrow> u32 \<Rightarrow> request_buffer \<Rightarrow> conv_state \<Rightarrow>
     (int \<times> request_buffer \<times> conv_state) option" where
  "smbcli_req_append_ascii4 fill strupper unicode str flags rb st =
     Option.bind (smbcli_req_append_bytes fill [4] rb)
       (\<lambda>(_, rb1). map_option (\<lambda>(n, rb2, st1). (n + 1, rb2, st1)) (smbcli_req_append_string fill strupper unicode str flags rb1 st))"

section \<open>Sending\<close>

definition smb_setlen :: "int \<Rightarrow> u8 list" where
  "smb_setlen len = [0, of_int (len div 65536 mod 2), of_int (len div 256 mod 256), of_int (len mod 256)]"

definition smb_len :: "u8 list \<Rightarrow> int option" where
  "smb_len buf = map_option (\<lambda>w. uint (w ! 3) + 256 * uint (w ! 2) + 65536 * uint (w ! 1)) (peek 0 4 buf)"

text \<open>What goes to the transport, before it is signed.\<close>

definition smbcli_request_send :: "request_buffer \<Rightarrow> request_buffer option" where
  "smbcli_request_send rb =
     (case peek32 0 (rb_buffer rb) of
        None \<Rightarrow> None
      | Some n \<Rightarrow>
          if n = 0 then map_option (\<lambda>buf. rb\<lparr>rb_buffer := buf\<rparr>) (poke 0 (smb_setlen (rb_size rb - NBT_HDR_SIZE)) (rb_buffer rb))
          else Some rb)"

section \<open>Reading a reply\<close>

text \<open>The next reply in a chain.\<close>

definition smbcli_chained_advance :: "request_buffer \<Rightarrow> (NTSTATUS \<times> request_buffer) option" where
  "smbcli_chained_advance rb =
     (let buf = rb_buffer rb; e = rb_size rb in
      case (peek8 (rb_vwv rb) buf) of
        None \<Rightarrow> None
      | Some command \<Rightarrow>
          if command = 0xFF then Some (NT_STATUS_NOT_FOUND, rb)
          else
            (case peek16 (rb_vwv rb + 2) buf of
               None \<Rightarrow> None
             | Some ofs \<Rightarrow>
                 (let b = rb_hdr rb + ofs in
                  if e < b + 3 then Some (NT_STATUS_BUFFER_TOO_SMALL, rb)
                  else
                    (case peek8 b buf of
                       None \<Rightarrow> None
                     | Some wct \<Rightarrow>
                         (let rb1 = rb\<lparr>rb_vwv := b + 1, rb_wct := wct\<rparr> in
                          if e < b + 3 + wct * 2 then Some (NT_STATUS_BUFFER_TOO_SMALL, rb1)
                          else
                            (case peek16 (b + 1 + wct * 2) buf of
                               None \<Rightarrow> None
                             | Some n \<Rightarrow>
                                 Some (if e < b + 3 + wct * 2 + n then NT_STATUS_BUFFER_TOO_SMALL else NT_STATUS_OK,
                                       rb1\<lparr>rb_data := b + 3 + wct * 2, rb_data_size := n\<rparr>)))))))"

text \<open>The break of an oplock: tree, file and level.\<close>

definition smbcli_handle_oplock_break :: "int \<Rightarrow> int \<Rightarrow> int \<Rightarrow> u8 list \<Rightarrow> (int \<times> int \<times> int) option option" where
  "smbcli_handle_oplock_break len hdr vwv buf =
     (if len \<noteq> MIN_SMB_SIZE + 2 * 8 + NBT_HDR_SIZE then Some None
      else
        (case (peek8 (hdr + HDR_FLG) buf, peek8 (hdr + HDR_COM) buf, peek16 (hdr + HDR_MID) buf, peek16 (vwv + 12) buf, peek16 (vwv + 14) buf,
               peek16 (hdr + HDR_TID) buf, peek16 (vwv + 4) buf, peek8 (vwv + 7) buf) of
           (Some flg, Some com, Some mid, Some w6, Some w7, Some tid, Some fnum, Some level) \<Rightarrow>
             Some (if 128 \<le> flg \<or> com \<noteq> 0x24 \<or> mid \<noteq> 0xFFFF \<or> w6 \<noteq> 0 \<or> w7 \<noteq> 0 then None else Some (tid, fnum, level))
         | _ \<Rightarrow> None))"

type_synonym pulled = "((int \<times> u8 list option) \<times> conv_state) option"

text \<open>The end of the readers: the conversion of \<open>n\<close> bytes, and what is returned when it succeeds.\<close>

definition pull_convert :: "charset_t \<Rightarrow> u8 list \<Rightarrow> int \<Rightarrow> int \<Rightarrow> (u8 list \<Rightarrow> int) \<Rightarrow> conv_state \<Rightarrow> pulled" where
  "pull_convert a buf src n ret st =
     (case peek src n buf of
        None \<Rightarrow> None
      | Some w \<Rightarrow>
          (case convert_string_talloc a CH_UNIX (Some w) st of
             (Conv d, st1) \<Rightarrow> Some ((ret d, Some d), st1)
           | (ConvFail, st1) \<Rightarrow> Some ((0, None), st1)
           | _ \<Rightarrow> None))"

definition smbcli_req_pull_ucs2 :: "request_buffer \<Rightarrow> int \<Rightarrow> int \<Rightarrow> u32 \<Rightarrow> conv_state \<Rightarrow> pulled" where
  "smbcli_req_pull_ucs2 rb src0 byte_len0 flags st =
     (let alignment = (if flags AND STR_NOALIGN = 0 then int (ucs2_align (odd src0) flags) else 0);
          src = src0 + alignment;
          byte_len = (if alignment \<noteq> 0 \<and> byte_len0 \<noteq> - 1 then byte_len0 - 1 else byte_len0);
          src_len0 = int32 (rb_data_size rb - (src - rb_data rb))
      in if src_len0 < 0 then Some ((0, None), st)
         else
           (let src_len = (if byte_len \<noteq> - 1 \<and> byte_len < src_len0 then byte_len else src_len0) in
            case utf16_len_at (rb_buffer rb) src src_len of
              None \<Rightarrow> None
            | Some src_len2 \<Rightarrow>
                if src_len2 < 2 then Some ((0, None), st)
                else pull_convert CH_UTF16 (rb_buffer rb) src src_len2 (\<lambda>_. src_len2 + alignment) st))"

definition smbcli_req_pull_ascii :: "request_buffer \<Rightarrow> int \<Rightarrow> int \<Rightarrow> conv_state \<Rightarrow> pulled" where
  "smbcli_req_pull_ascii rb src byte_len st =
     (let src_len0 = int32 (rb_data_size rb - (src - rb_data rb)) in
      if src_len0 < 0 then Some ((0, None), st)
      else
        (let src_len = (if byte_len \<noteq> - 1 \<and> byte_len < src_len0 then byte_len else src_len0) in
         case strnlen_at (rb_buffer rb) src src_len of
           None \<Rightarrow> None
         | Some n \<Rightarrow>
             (let src_len2 = (if n < src_len - 1 then n + 1 else n)
              in pull_convert CH_DOS (rb_buffer rb) src src_len2 (\<lambda>d. int (length d)) st)))"

definition smbcli_req_pull_string :: "u16 \<Rightarrow> request_buffer \<Rightarrow> int \<Rightarrow> int \<Rightarrow> u32 \<Rightarrow> conv_state \<Rightarrow> pulled" where
  "smbcli_req_pull_string flags2 rb src byte_len flags st =
     (if flags AND STR_ASCII = 0 \<and> (flags AND STR_UNICODE \<noteq> 0 \<or> flags2 AND FLAGS2_UNICODE_STRINGS \<noteq> 0)
      then smbcli_req_pull_ucs2 rb src byte_len flags st
      else smbcli_req_pull_ascii rb src byte_len st)"

definition smbcli_req_pull_blob :: "request_buffer \<Rightarrow> int \<Rightarrow> int \<Rightarrow> u8 list option" where
  "smbcli_req_pull_blob rb src byte_len =
     (let src_len0 = int32 (rb_data_size rb - (src - rb_data rb)) in
      if src_len0 < 0 then Some []
      else peek src (usize (if byte_len \<noteq> - 1 \<and> byte_len < src_len0 then byte_len else src_len0)) (rb_buffer rb))"

definition smbcli_req_data_oob :: "request_buffer \<Rightarrow> int \<Rightarrow> int \<Rightarrow> bool" where
  "smbcli_req_data_oob rb ptr count \<longleftrightarrow>
     ptr < rb_data rb \<or> rb_data rb + rb_data_size rb \<le> ptr \<or> rb_data_size rb < count \<or> rb_data rb + rb_data_size rb < ptr + count"

text \<open>The data, None inside when it is not in the packet.\<close>

definition smbcli_raw_pull_data :: "request_buffer \<Rightarrow> int \<Rightarrow> int \<Rightarrow> u8 list option option" where
  "smbcli_raw_pull_data rb src len =
     (if len = 0 then Some (Some [])
      else if smbcli_req_data_oob rb src (uint32 len) then Some None
      else map_option Some (peek src len (rb_buffer rb)))"

section \<open>Strings in blobs\<close>

definition smbcli_blob_pull_ucs2 :: "u8 list \<Rightarrow> int \<Rightarrow> int \<Rightarrow> u32 \<Rightarrow> conv_state \<Rightarrow> pulled" where
  "smbcli_blob_pull_ucs2 blob src0 byte_len flags st =
     (if src0 < 0 \<or> int (length blob) \<le> src0 then Some ((0, None), st)
      else
        (let src_len0 = int (length blob) - src0;
             src_len1 = (if byte_len \<noteq> - 1 \<and> byte_len < src_len0 then byte_len else src_len0);
             alignment = (if flags AND STR_NOALIGN = 0 then int (ucs2_align (odd src0) flags) else 0);
             src = src0 + alignment;
             src_len = src_len1 - alignment
         in if src_len < 2 then Some ((0, None), st)
            else
              (case utf16_len_at blob src src_len of
                 None \<Rightarrow> None
               | Some src_len2 \<Rightarrow> pull_convert CH_UTF16 blob src src_len2 (\<lambda>_. src_len2 + alignment) st)))"

definition smbcli_blob_pull_ascii :: "u8 list \<Rightarrow> int \<Rightarrow> int \<Rightarrow> conv_state \<Rightarrow> pulled" where
  "smbcli_blob_pull_ascii blob src byte_len st =
     (let src_len0 = int32 (int (length blob) - src) in
      if src_len0 < 0 then Some ((0, None), st)
      else
        (let src_len = (if byte_len \<noteq> - 1 \<and> byte_len < src_len0 then byte_len else src_len0) in
         case strnlen_at blob src src_len of
           None \<Rightarrow> None
         | Some n \<Rightarrow>
             (let src_len2 = (if n < src_len - 1 then n + 1 else n)
              in pull_convert CH_DOS blob src src_len2 (\<lambda>d. int (length d)) st)))"

definition with_extra :: "int \<Rightarrow> pulled \<Rightarrow> pulled" where
  "with_extra k r = map_option (\<lambda>((n, d), st). ((k + n, d), st)) r"

text \<open>The part that two readers have in common.\<close>

definition blob_string_at :: "u8 list \<Rightarrow> int \<Rightarrow> int \<Rightarrow> u32 \<Rightarrow> bool \<Rightarrow> conv_state \<Rightarrow> pulled" where
  "blob_string_at blob str_offset byte_len flags ucs2 st =
     (if ucs2
      then (let align = (if odd str_offset \<and> flags AND STR_NOALIGN = 0 then 1 else 0) in
            with_extra (align + (if flags AND STR_LEN_NOTERM \<noteq> 0 then 2 else 0))
              (smbcli_blob_pull_ucs2 blob (str_offset + align) byte_len flags st))
      else with_extra (if flags AND STR_LEN_NOTERM \<noteq> 0 then 1 else 0) (smbcli_blob_pull_ascii blob str_offset byte_len st))"

text \<open>\<open>unicode\<close> is the capability; None is a missing session. The length on the wire is returned too.\<close>

definition smbcli_blob_pull_string ::
    "bool option \<Rightarrow> u8 list \<Rightarrow> u16 \<Rightarrow> u16 \<Rightarrow> u32 \<Rightarrow> conv_state \<Rightarrow> (int option \<times> (int \<times> u8 list option) \<times> conv_state) option" where
  "smbcli_blob_pull_string unicode blob len_offset str_offset flags0 st =
     (let flags = (if flags0 AND STR_ASCII = 0 \<and> unicode \<noteq> Some False then flags0 OR STR_UNICODE else flags0);
          n = (if flags AND STR_LEN8BIT \<noteq> 0 then 1 else 4)
      in if usize (int (length blob) - n) < uint len_offset then Some (None, (0, None), st)
         else
           (case (if n = 1 then peek8 (uint len_offset) blob else peek32 (uint len_offset) blob) of
              None \<Rightarrow> None
            | Some private_length \<Rightarrow>
                map_option (Pair (Some private_length))
                  (blob_string_at blob (uint str_offset) (int32 private_length) flags (flags AND STR_ASCII = 0 \<and> flags AND STR_UNICODE \<noteq> 0) st)))"

definition smbcli_blob_pull_unix_string :: "bool \<Rightarrow> u8 list \<Rightarrow> u16 \<Rightarrow> u32 \<Rightarrow> conv_state \<Rightarrow> pulled" where
  "smbcli_blob_pull_unix_string unicode blob str_offset flags st =
     blob_string_at blob (uint str_offset) (- 1) flags (flags AND STR_ASCII = 0 \<and> (flags AND STR_UNICODE \<noteq> 0 \<or> unicode)) st"

text \<open>Appending to a blob; the address of its end decides about the alignment.\<close>

definition smbcli_blob_append_string ::
    "(u8 list \<Rightarrow> u8 list option) \<Rightarrow> bool \<Rightarrow> bool \<Rightarrow> u8 list \<Rightarrow> u8 list option \<Rightarrow> u32 \<Rightarrow> conv_state \<Rightarrow> (int \<times> u8 list \<times> conv_state) option" where
  "smbcli_blob_append_string strupper unicode odd_end blob str flags0 st =
     (case str of
        None \<Rightarrow> Some (0, blob, st)
      | Some s \<Rightarrow>
          (case push_string strupper odd_end s (max_string_bytes s) (string_flags unicode flags0) st of
             None \<Rightarrow> None
           | Some (None, _) \<Rightarrow> None
           | Some (Some (n, bs), st1) \<Rightarrow>
               if n < 0 then Some (n, take (nat (int (length blob) + n)) blob, st1) else Some (n, blob @ take (nat n) bs, st1)))"

end
