(* ===== verification/SmbTrans.thy ===== *)
theory SmbTrans
  imports SmbRequest
begin

text \<open>
  The transactions of the SMB client, \<open>libcli/raw/rawtrans.c\<close>: requests whose parameters and data
  are split over several packets, and the assembly of replies in parts. The replies a request gets
  are a list; a request that waits for a reply beyond its end hangs. An access outside a buffer is
  \<open>Undef\<close>. Allocation succeeds; new memory holds \<open>fill\<close>.
\<close>

abbreviation (input) "SMBtrans \<equiv> (0x25 :: u8)"
abbreviation (input) "SMBtrans2 \<equiv> (0x32 :: u8)"
abbreviation (input) "SMBnttrans \<equiv> (0xA0 :: u8)"

section \<open>Waiting for replies\<close>

text \<open>
  Each element of the list is the request after the events that ended one wait: finished with a
  packet, failed, or still waiting when the event loop itself has failed.
\<close>

definition smbcli_request_receive :: "smbcli_request \<Rightarrow> smbcli_request list \<Rightarrow> (bool \<times> smbcli_request \<times> smbcli_request list) option" where
  "smbcli_request_receive req rest =
     (if sq_state req = SMBCLI_REQUEST_INIT \<or> sq_state req = SMBCLI_REQUEST_RECV
      then (case rest of [] \<Rightarrow> None | r # rs \<Rightarrow> Some (sq_state r = SMBCLI_REQUEST_DONE, r, rs))
      else Some (sq_state req = SMBCLI_REQUEST_DONE, req, rest))"

definition smbcli_request_receive_more :: "smbcli_request \<Rightarrow> smbcli_request list \<Rightarrow> (bool \<times> smbcli_request \<times> smbcli_request list) option" where
  "smbcli_request_receive_more req = smbcli_request_receive (req\<lparr>sq_state := SMBCLI_REQUEST_RECV\<rparr>)"

definition smbcli_request_simple_recv :: "smbcli_request \<Rightarrow> smbcli_request list \<Rightarrow> NTSTATUS option" where
  "smbcli_request_simple_recv req rest = map_option (\<lambda>(_, r, _). smbcli_request_destroy (Some r)) (smbcli_request_receive req rest)"

definition smbcli_request_is_error :: "smbcli_request \<Rightarrow> bool" where
  "smbcli_request_is_error req = NT_STATUS_IS_ERR (sq_status req)"

text \<open>The end of a request with a status of its own.\<close>

definition destroy_with :: "NTSTATUS \<Rightarrow> smbcli_request \<Rightarrow> NTSTATUS" where
  "destroy_with status req = smbcli_request_destroy (Some (req\<lparr>sq_status := status\<rparr>))"

section \<open>Replies in parts\<close>

definition vwv16 :: "request_buffer \<Rightarrow> int \<Rightarrow> int option" where
  "vwv16 rb n = peek16 (rb_vwv rb + 2 * n) (rb_buffer rb)"

definition vwv32 :: "request_buffer \<Rightarrow> int \<Rightarrow> int option" where
  "vwv32 rb ofs = peek32 (rb_vwv rb + ofs) (rb_buffer rb)"

definition raw_trans_oob :: "request_buffer \<Rightarrow> int \<Rightarrow> int \<Rightarrow> bool" where
  "raw_trans_oob rb offset count \<longleftrightarrow> count \<noteq> 0 \<and>
     (let ptr = rb_hdr rb + offset
      in ptr < rb_data rb \<or> rb_data rb + rb_data_size rb \<le> ptr \<or> rb_data_size rb < count \<or> rb_data rb + rb_data_size rb < ptr + count)"

record trans_out =
  tro_setup :: "int list"
  tro_params :: "u8 list"
  tro_params_length :: int
  tro_data :: "u8 list"
  tro_data_length :: int

definition no_output :: trans_out where
  "no_output = \<lparr>tro_setup = [], tro_params = [], tro_params_length = 0, tro_data = [], tro_data_length = 0\<rparr>"

text \<open>A copy of \<open>count\<close> bytes of the packet.\<close>

definition copy_part :: "request_buffer \<Rightarrow> int \<Rightarrow> int \<Rightarrow> int \<Rightarrow> u8 list \<Rightarrow> u8 list option" where
  "copy_part rb ofs count disp dest =
     (if count = 0 then Some dest else Option.bind (peek (rb_hdr rb + ofs) count (rb_buffer rb)) (\<lambda>w. poke disp w dest))"

record part =
  pt_param_count :: int
  pt_param_ofs :: int
  pt_param_disp :: int
  pt_data_count :: int
  pt_data_ofs :: int
  pt_data_disp :: int

text \<open>Both copies, when the part passes the tests: the sums of the caller and the offsets.\<close>

definition store_part :: "bool \<Rightarrow> request_buffer \<Rightarrow> part \<Rightarrow> trans_out \<Rightarrow> (NTSTATUS + u8 list \<times> u8 list) option" where
  "store_part fits rb pt out =
     (if \<not> fits \<or> raw_trans_oob rb (pt_param_ofs pt) (pt_param_count pt) \<or> raw_trans_oob rb (pt_data_ofs pt) (pt_data_count pt)
      then Some (Inl NT_STATUS_BUFFER_TOO_SMALL)
      else
        Option.bind (copy_part rb (pt_data_ofs pt) (pt_data_count pt) (pt_data_disp pt) (tro_data out))
          (\<lambda>d. map_option (\<lambda>p. Inr (d, p)) (copy_part rb (pt_param_ofs pt) (pt_param_count pt) (pt_param_disp pt) (tro_params out))))"

subsection \<open>Trans and trans2\<close>

definition trans2_part :: "request_buffer \<Rightarrow> part option" where
  "trans2_part rb =
     (case those (map (vwv16 rb) [3, 4, 5, 6, 7, 8]) of
        Some [pc, po, pd, dc, dw, dd] \<Rightarrow>
          Some \<lparr>pt_param_count = pc, pt_param_ofs = po, pt_param_disp = pd, pt_data_count = dc, pt_data_ofs = dw, pt_data_disp = dd\<rparr>
      | _ \<Rightarrow> None)"

text \<open>One part: an error, or the totals and the output after it.\<close>

definition trans2_lump :: "int \<Rightarrow> int \<Rightarrow> request_buffer \<Rightarrow> trans_out \<Rightarrow> (NTSTATUS + int \<times> int \<times> trans_out) option" where
  "trans2_lump total_data total_param rb out =
     (case (vwv16 rb 1, vwv16 rb 0) of
        (Some total_data2, Some total_param2) \<Rightarrow>
          if total_data < total_data2 \<or> total_param < total_param2 then Some (Inl NT_STATUS_BUFFER_TOO_SMALL)
          else
            Option.bind (trans2_part rb)
              (\<lambda>pt. map_option (map_sum id (\<lambda>(d, p). (total_data2, total_param2,
                     out\<lparr>tro_data := d, tro_params := p, tro_data_length := tro_data_length out + pt_data_count pt,
                         tro_params_length := tro_params_length out + pt_param_count pt\<rparr>)))
                 (store_part (pt_data_count pt + pt_data_disp pt \<le> total_data2 \<and> pt_param_count pt + pt_param_disp pt \<le> total_param2) rb pt out))
      | _ \<Rightarrow> None)"

function trans2_loop :: "int \<Rightarrow> int \<Rightarrow> smbcli_request \<Rightarrow> smbcli_request list \<Rightarrow> trans_out \<Rightarrow> (NTSTATUS, trans_out) res" where
  "trans2_loop total_data total_param req rest out =
     (case trans2_lump total_data total_param (sq_in req) out of
        None \<Rightarrow> Undef
      | Some (Inl status) \<Rightarrow> Ret (destroy_with status req) out
      | Some (Inr (td, tp, out1)) \<Rightarrow>
          if td \<le> tro_data_length out1 \<and> tp \<le> tro_params_length out1 then Ret (smbcli_request_destroy (Some req)) out1
          else
            (case smbcli_request_receive_more req rest of
               None \<Rightarrow> Hang
             | Some (False, r, _) \<Rightarrow> Ret (destroy_with NT_STATUS_UNSUCCESSFUL r) out1
             | Some (True, r, rs) \<Rightarrow> trans2_loop td tp r rs out1))"
  by pat_completeness auto

termination
  by (relation "measure (\<lambda>(_, _, _, rest, _). length rest)")
     (auto simp: smbcli_request_receive_more_def smbcli_request_receive_def split: list.splits)

definition smb_raw_trans2_recv :: "(nat \<Rightarrow> u8) \<Rightarrow> smbcli_request \<Rightarrow> smbcli_request list \<Rightarrow> (NTSTATUS, trans_out) res" where
  "smb_raw_trans2_recv fill req0 rest0 =
     (case smbcli_request_receive req0 rest0 of
        None \<Rightarrow> Hang
      | Some (ok, req, rest) \<Rightarrow>
          if \<not> ok \<or> NT_STATUS_IS_ERR (sq_status req) then Ret (smbcli_request_destroy (Some req)) no_output
          else if rb_wct (sq_in req) < 10 then Ret (destroy_with NT_STATUS_INVALID_PARAMETER req) no_output
          else
            (case (vwv16 (sq_in req) 1, vwv16 (sq_in req) 0, vwv16 (sq_in req) 9) of
               (Some total_data, Some total_param, Some count) \<Rightarrow>
                 (let setup_count = count mod 256;
                      out = no_output\<lparr>tro_data := map fill [0..<nat total_data], tro_params := map fill [0..<nat total_param]\<rparr>
                  in if rb_wct (sq_in req) \<noteq> 10 + setup_count then Ret (destroy_with NT_STATUS_INVALID_PARAMETER req) out
                     else
                       (case those (map (vwv16 (sq_in req)) [10..9 + setup_count]) of
                          None \<Rightarrow> Undef
                        | Some ws \<Rightarrow> trans2_loop total_data total_param req rest (out\<lparr>tro_setup := ws\<rparr>)))
             | _ \<Rightarrow> Undef))"

definition smb_raw_trans_recv :: "(nat \<Rightarrow> u8) \<Rightarrow> smbcli_request \<Rightarrow> smbcli_request list \<Rightarrow> (NTSTATUS, trans_out) res" where
  "smb_raw_trans_recv = smb_raw_trans2_recv"

subsection \<open>Nttrans\<close>

definition nttrans_part :: "request_buffer \<Rightarrow> part option" where
  "nttrans_part rb =
     (case those (map (vwv32 rb) [11, 15, 19, 23, 27, 31]) of
        Some [pc, po, pd, dc, dw, dd] \<Rightarrow>
          Some \<lparr>pt_param_count = pc, pt_param_ofs = po, pt_param_disp = pd, pt_data_count = dc, pt_data_ofs = dw, pt_data_disp = dd\<rparr>
      | _ \<Rightarrow> None)"

text \<open>The sums are computed in 32 bits.\<close>

definition nttrans_lump :: "int \<Rightarrow> int \<Rightarrow> request_buffer \<Rightarrow> trans_out \<Rightarrow> (NTSTATUS + part \<times> int \<times> int \<times> trans_out) option" where
  "nttrans_lump total_data total_param rb out =
     (case (vwv32 rb 3, vwv32 rb 7) of
        (Some total_param2, Some total_data2) \<Rightarrow>
          if total_data < total_data2 \<or> total_param < total_param2 then Some (Inl NT_STATUS_BUFFER_TOO_SMALL)
          else
            Option.bind (nttrans_part rb)
              (\<lambda>pt. map_option (map_sum id (\<lambda>(d, p). (pt, total_data2, total_param2,
                     out\<lparr>tro_data := d, tro_params := p, tro_data_length := total_data2, tro_params_length := total_param2\<rparr>)))
                 (store_part (uint32 (pt_data_count pt + pt_data_disp pt) \<le> total_data2 \<and> uint32 (pt_param_count pt + pt_param_disp pt) \<le> total_param2) rb pt out))
      | _ \<Rightarrow> None)"

text \<open>
  The reply is awaited with the function for the first one: the request is finished already, so the
  same packet is taken again. \<open>recvd\<close> are the counts so far; at the end of the fuel the loop hangs.
\<close>

fun nttrans_loop :: "nat \<Rightarrow> int \<Rightarrow> int \<Rightarrow> int \<Rightarrow> int \<Rightarrow> smbcli_request \<Rightarrow> smbcli_request list \<Rightarrow> trans_out \<Rightarrow> (NTSTATUS, trans_out) res" where
  "nttrans_loop 0 total_data total_param recvd_data recvd_param req rest out = Hang"
| "nttrans_loop (Suc k) total_data total_param recvd_data recvd_param req rest out =
     (if \<not> (recvd_data < total_data \<or> recvd_param < total_param) then Ret (smbcli_request_destroy (Some req)) out
      else
        (case nttrans_lump total_data total_param (sq_in req) out of
           None \<Rightarrow> Undef
         | Some (Inl status) \<Rightarrow> Ret (destroy_with status req) out
         | Some (Inr (pt, td, tp, out1)) \<Rightarrow>
             (let rp = uint32 (recvd_param + pt_param_count pt); rd = uint32 (recvd_data + pt_data_count pt) in
              if td \<le> rd \<and> tp \<le> rp then Ret (smbcli_request_destroy (Some req)) out1
              else
                (case smbcli_request_receive req rest of
                   None \<Rightarrow> Hang
                 | Some (ok, r, rs) \<Rightarrow>
                     if \<not> ok \<or> smbcli_request_is_error r then Ret (smbcli_request_destroy (Some r)) out1
                     else
                       (case peek8 (rb_hdr (sq_in r) + HDR_COM) (rb_buffer (sq_in r)) of
                          None \<Rightarrow> Undef
                        | Some com \<Rightarrow>
                            if com \<noteq> uint SMBnttrans then Ret (destroy_with NT_STATUS_UNSUCCESSFUL r) out1
                            else nttrans_loop k td tp rd rp r rs out1)))))"

definition smb_raw_nttrans_recv :: "nat \<Rightarrow> (nat \<Rightarrow> u8) \<Rightarrow> smbcli_request \<Rightarrow> smbcli_request list \<Rightarrow> trans_out \<Rightarrow> (NTSTATUS, trans_out) res" where
  "smb_raw_nttrans_recv fuel fill req0 rest0 out0 =
     (case smbcli_request_receive req0 rest0 of
        None \<Rightarrow> Hang
      | Some (ok, req, rest) \<Rightarrow>
          if \<not> ok \<or> smbcli_request_is_error req then Ret (smbcli_request_destroy (Some req)) out0
          else
            (case peek8 (rb_hdr (sq_in req) + HDR_COM) (rb_buffer (sq_in req)) of
               None \<Rightarrow> Undef
             | Some com \<Rightarrow>
                 if com \<noteq> uint SMBnttrans then Ret (destroy_with NT_STATUS_UNSUCCESSFUL req) out0
                 else if rb_wct (sq_in req) < 18 then Ret (destroy_with NT_STATUS_INVALID_PARAMETER req) out0
                 else
                   (case (vwv32 (sq_in req) 3, vwv32 (sq_in req) 7, peek8 (rb_vwv (sq_in req) + 35) (rb_buffer (sq_in req))) of
                      (Some total_param, Some total_data, Some setup_count) \<Rightarrow>
                        (let out = out0\<lparr>tro_data := map fill [0..<nat total_data], tro_data_length := total_data,
                                       tro_params := map fill [0..<nat total_param], tro_params_length := total_param\<rparr>
                         in if rb_wct (sq_in req) \<noteq> 18 + setup_count then Ret (destroy_with NT_STATUS_INVALID_PARAMETER req) out
                            else
                              (case those (map (vwv16 (sq_in req)) [18..17 + setup_count]) of
                                 None \<Rightarrow> Undef
                               | Some ws \<Rightarrow>
                                   nttrans_loop fuel total_data total_param 0 0 req rest (if setup_count > 0 then out\<lparr>tro_setup := ws\<rparr> else out)))
                    | _ \<Rightarrow> Undef)))"

section \<open>Requests\<close>

text \<open>The connection a request is sent on; the fields of a request.\<close>

record smb_tree =
  st_session :: smbcli_session
  st_tid :: u16
  st_unicode :: bool
  st_max_xmit :: int

record trans_in =
  tri_max_param :: u16
  tri_max_data :: u16
  tri_max_setup :: u8
  tri_flags :: u16
  tri_timeout :: u32
  tri_setup :: "u16 list"
  tri_trans_name :: "u8 list option"
  tri_params :: "u8 list option"
  tri_data :: "u8 list option"

text \<open>The length of a blob, 0 for one without data.\<close>

definition blob_length :: "u8 list option \<Rightarrow> int" where
  "blob_length b = (case b of None \<Rightarrow> 0 | Some x \<Rightarrow> int (length x))"

definition word16 :: "int \<Rightarrow> u8 list" where
  "word16 n = SSVAL (of_int n)"

definition smb_raw_max_trans_data :: "smb_tree \<Rightarrow> int \<Rightarrow> int" where
  "smb_raw_max_trans_data tree param_size = usize (st_max_xmit tree - (70 + param_size))"

text \<open>The data that goes into a packet: \<open>left\<close> bytes, or what the limit, cut to 16 bits, allows.\<close>

definition data_share :: "smb_tree \<Rightarrow> int \<Rightarrow> int \<Rightarrow> int" where
  "data_share tree param_size left = (let max_data = smb_raw_max_trans_data tree param_size mod 65536 in if max_data < left then max_data else left)"

definition append_opt_blob :: "(nat \<Rightarrow> u8) \<Rightarrow> u8 list option \<Rightarrow> request_buffer \<Rightarrow> request_buffer option" where
  "append_opt_blob fill b rb = (case b of None \<Rightarrow> Some rb | Some x \<Rightarrow> map_option snd (smbcli_req_append_blob fill x rb))"

definition trans_padding :: "u8 \<Rightarrow> int" where
  "trans_padding command = (if command = SMBtrans then 1 else 3)"

text \<open>The name of a trans request, and the number of bytes it takes.\<close>

definition append_trans_name ::
    "(nat \<Rightarrow> u8) \<Rightarrow> (u8 list \<Rightarrow> u8 list option) \<Rightarrow> smb_tree \<Rightarrow> u8 \<Rightarrow> trans_in \<Rightarrow> request_buffer \<Rightarrow> conv_state \<Rightarrow> (int \<times> request_buffer \<times> conv_state) option" where
  "append_trans_name fill strupper tree command parms rb st =
     (if command = SMBtrans
      then (case tri_trans_name parms of
              None \<Rightarrow> Some (0, rb, st)
            | Some name \<Rightarrow> smbcli_req_append_string fill strupper (st_unicode tree) name STR_TERMINATE rb st)
      else Some (0, rb, st))"

text \<open>The words of the first packet, at offsets from the first word.\<close>

definition trans_words :: "trans_in \<Rightarrow> int \<Rightarrow> int \<Rightarrow> int \<Rightarrow> (int \<times> u8 list) list" where
  "trans_words parms data_length param_ofs data_ofs =
     [(0, word16 (blob_length (tri_params parms))), (2, word16 (blob_length (tri_data parms))), (4, SSVAL (tri_max_param parms)),
      (6, SSVAL (tri_max_data parms)), (8, SSVAL (ucast (tri_max_setup parms))), (10, SSVAL (tri_flags parms)), (12, SIVAL (tri_timeout parms)),
      (16, SSVAL 0), (18, word16 (blob_length (tri_params parms))), (20, word16 param_ofs), (22, word16 data_length), (24, word16 data_ofs),
      (26, word16 (int (length (tri_setup parms))))] @
     map (\<lambda>i. (28 + 2 * int i, SSVAL (tri_setup parms ! i))) [0..<length (tri_setup parms)]"

definition at_vwv :: "int \<Rightarrow> (int \<times> u8 list) list \<Rightarrow> (int \<times> u8 list) list" where
  "at_vwv vwv ws = map (\<lambda>(i, bs). (vwv + i, bs)) ws"

definition trans_primary ::
    "(nat \<Rightarrow> u8) \<Rightarrow> (u8 list \<Rightarrow> u8 list option) \<Rightarrow> u16 \<Rightarrow> smb_tree \<Rightarrow> u8 \<Rightarrow> trans_in \<Rightarrow> conv_state \<Rightarrow> (int \<times> request_buffer \<times> conv_state) option" where
  "trans_primary fill strupper mid tree command parms st =
     (let wct = 14 + int (length (tri_setup parms)); padding = trans_padding command; np = blob_length (tri_params parms) in
      Option.bind (smbcli_request_setup fill mid (st_session tree) (st_tid tree) command wct padding)
        (\<lambda>req. Option.bind (append_trans_name fill strupper tree command parms (sq_out req) st)
          (\<lambda>(namelen, rb, st1).
             let param_ofs = rb_data rb + padding - rb_hdr rb + namelen; data_length = data_share tree np (blob_length (tri_data parms)) in
             Option.bind (pokes ((rb_data rb, replicate (nat padding) 0) # at_vwv (rb_vwv rb) (trans_words parms data_length param_ofs (param_ofs + np))) (rb_buffer rb))
               (\<lambda>buf. Option.bind (append_opt_blob fill (tri_params parms) (rb\<lparr>rb_buffer := buf\<rparr>))
                 (\<lambda>rb2. Option.bind (append_opt_blob fill (map_option (take (nat data_length)) (tri_data parms)) rb2)
                   (\<lambda>rb3. map_option (\<lambda>rb4. (data_length, rb4, st1)) (smbcli_request_send rb3)))))))"

definition trans_secondary :: "(nat \<Rightarrow> u8) \<Rightarrow> u16 \<Rightarrow> u16 \<Rightarrow> smb_tree \<Rightarrow> u8 \<Rightarrow> trans_in \<Rightarrow> int \<Rightarrow> int \<Rightarrow> request_buffer option" where
  "trans_secondary fill new_mid mid tree command parms disp len =
     Option.bind (smbcli_request_setup fill new_mid (st_session tree) (st_tid tree) (command + 1) 9 len)
       (\<lambda>req. let rb = sq_out req in
          Option.bind (pokes ((rb_hdr rb + HDR_MID, SSVAL mid) # at_vwv (rb_vwv rb)
                [(0, word16 (blob_length (tri_params parms))), (2, word16 (blob_length (tri_data parms))), (4, SSVAL 0), (6, SSVAL 0), (8, SSVAL 0),
                 (10, word16 len), (12, word16 (rb_data rb - rb_hdr rb)), (14, word16 disp), (16, SSVAL 0xFFFF)] @
                (if len \<noteq> 0 then [(rb_data rb, take (nat len) (drop (nat disp) (case tri_data parms of None \<Rightarrow> [] | Some d \<Rightarrow> d)))] else []))
              (rb_buffer rb))
            (\<lambda>buf. smbcli_request_send (rb\<lparr>rb_buffer := buf\<rparr>)))"

text \<open>The loop over the rest of the data; \<open>mids\<close> are the numbers the transport hands out.\<close>

fun trans_rest :: "nat \<Rightarrow> (nat \<Rightarrow> u8) \<Rightarrow> (nat \<Rightarrow> u16) \<Rightarrow> u16 \<Rightarrow> smb_tree \<Rightarrow> u8 \<Rightarrow> trans_in \<Rightarrow> int \<Rightarrow> (request_buffer list, unit) res" where
  "trans_rest 0 fill mids mid tree command parms disp = Hang"
| "trans_rest (Suc k) fill mids mid tree command parms disp =
     (if disp = blob_length (tri_data parms) then Ret [] ()
      else
        (let len = data_share tree 0 ((blob_length (tri_data parms) - disp) mod 65536) in
         case trans_secondary fill (mids k) mid tree command parms disp len of
           None \<Rightarrow> Undef
         | Some rb \<Rightarrow> bindr (trans_rest k fill mids mid tree command parms ((disp + len) mod 65536)) (\<lambda>rbs _. Ret (rb # rbs) ())))"

text \<open>
  The packets a request sends, None when it is refused. When there is more than one, the first has
  to be answered; \<open>interim\<close> tells that it was, with success.
\<close>

definition smb_raw_trans_send_backend ::
    "nat \<Rightarrow> (nat \<Rightarrow> u8) \<Rightarrow> (u8 list \<Rightarrow> u8 list option) \<Rightarrow> (nat \<Rightarrow> u16) \<Rightarrow> u16 \<Rightarrow> bool \<Rightarrow> smb_tree \<Rightarrow> u8 \<Rightarrow> trans_in \<Rightarrow> conv_state \<Rightarrow>
     (request_buffer list option, conv_state) res" where
  "smb_raw_trans_send_backend fuel fill strupper mids mid interim tree command parms st =
     (if 65535 < blob_length (tri_params parms) \<or> 65535 < blob_length (tri_data parms) then Ret None st
      else
        (case trans_primary fill strupper mid tree command parms st of
           None \<Rightarrow> Undef
         | Some (disp, rb, st1) \<Rightarrow>
             if disp \<noteq> blob_length (tri_data parms) \<and> \<not> interim then Ret (Some [rb]) st1
             else
               (case trans_rest fuel fill mids mid tree command parms disp of
                  Ret rbs _ \<Rightarrow> Ret (Some (rb # rbs)) st1 | Exit n _ \<Rightarrow> Exit n st1 | Hang \<Rightarrow> Hang | Undef \<Rightarrow> Undef)))"

definition smb_raw_trans_send where
  "smb_raw_trans_send fuel fill strupper mids mid interim tree = smb_raw_trans_send_backend fuel fill strupper mids mid interim tree SMBtrans"

definition smb_raw_trans2_send where
  "smb_raw_trans2_send fuel fill strupper mids mid interim tree = smb_raw_trans_send_backend fuel fill strupper mids mid interim tree SMBtrans2"

record nttrans_in =
  nti_max_setup :: u8
  nti_max_param :: u32
  nti_max_data :: u32
  nti_setup :: "u16 list"
  nti_function :: u16
  nti_params :: "u8 list"
  nti_data :: "u8 list"

definition word32 :: "int \<Rightarrow> u8 list" where
  "word32 n = SIVAL (of_int n)"

text \<open>The packet of an nttrans request; there is only one.\<close>

definition smb_raw_nttrans_send :: "(nat \<Rightarrow> u8) \<Rightarrow> u16 \<Rightarrow> smb_tree \<Rightarrow> nttrans_in \<Rightarrow> request_buffer option" where
  "smb_raw_nttrans_send fill mid tree parms =
     (let np = int (length (nti_params parms)); nd = int (length (nti_data parms)); align = (if np \<noteq> 0 \<or> nd \<noteq> 0 then 3 else 0);
          count = int (length (nti_setup parms))
      in Option.bind (smbcli_request_setup fill mid (st_session tree) (st_tid tree) SMBnttrans (19 + count) (align + np + nd))
           (\<lambda>req. let rb = sq_out req; param_ofs = rb_data rb + align - rb_hdr rb in
              Option.bind (pokes ((rb_data rb, replicate (nat align) 0) # at_vwv (rb_vwv rb)
                    ([(0, [nti_max_setup parms]), (1, SSVAL 0), (3, word32 np), (7, word32 nd), (11, SIVAL (nti_max_param parms)), (15, SIVAL (nti_max_data parms)),
                      (19, word32 np), (23, word32 param_ofs), (27, word32 nd), (31, word32 (param_ofs + np)), (35, [of_int count]), (36, SSVAL (nti_function parms))] @
                     map (\<lambda>i. (38 + 2 * int i, SSVAL (nti_setup parms ! i))) [0..<length (nti_setup parms)]) @
                    [(rb_data rb + align, nti_params parms), (rb_data rb + align + np, nti_data parms)]) (rb_buffer rb))
                (\<lambda>buf. smbcli_request_send (rb\<lparr>rb_buffer := buf\<rparr>))))"

end
