(* ===== verification/SmbRequestProps.thy ===== *)
theory SmbRequestProps
  imports SmbRequest CharcnvProps NdrProps
begin

text \<open>
  What the functions on SMB packets promise. A packet under construction has its data behind the
  command words, the count of the data in front of it, and everything inside the allocated buffer;
  every way of appending keeps this and adds exactly its bytes. Readers of a reply stay inside the
  buffer, whatever the packet says, as long as the caller's limit is not a negative number.
\<close>

section \<open>Arithmetic and memory\<close>

lemma int32_id [simp]: "- 2147483648 \<le> x \<Longrightarrow> x < 2147483648 \<Longrightarrow> int32 x = x"
  by (simp add: int32_def)

lemma int32_range: "- 2147483648 \<le> int32 x \<and> int32 x < 2147483648"
  using pos_mod_bound [of 4294967296 "x + 2147483648"] pos_mod_sign [of 4294967296 "x + 2147483648"] by (simp add: int32_def)

lemma uint32_id [simp]: "0 \<le> x \<Longrightarrow> x < 4294967296 \<Longrightarrow> uint32 x = x"
  by (simp add: uint32_def)

lemma usize_id [simp]: "0 \<le> x \<Longrightarrow> x < 18446744073709551616 \<Longrightarrow> usize x = x"
  by (simp add: usize_def)

lemma poke_Some: "0 \<le> ofs \<Longrightarrow> ofs + int (length bs) \<le> int (length buf) \<Longrightarrow>
    poke ofs bs buf = Some (take (nat ofs) buf @ bs @ drop (nat ofs + length bs) buf)"
  by (simp add: poke_def)

lemma poke_length: "poke ofs bs buf = Some b \<Longrightarrow> length b = length buf"
  by (auto simp: poke_def split: if_splits)

lemma poke_outside: "poke ofs bs buf = Some b \<Longrightarrow> int i < ofs \<or> ofs + int (length bs) \<le> int i \<Longrightarrow> b ! i = buf ! i"
  by (auto simp: poke_def nth_append split: if_splits)

lemma poke_inside: "poke ofs bs buf = Some b \<Longrightarrow> ofs \<le> int i \<Longrightarrow> int i < ofs + int (length bs) \<Longrightarrow> b ! i = bs ! (i - nat ofs)"
  by (auto simp: poke_def nth_append split: if_splits)

lemma peek_length: "peek ofs n buf = Some w \<Longrightarrow> length w = nat n"
  by (auto simp: peek_def split: if_splits)

lemma peek_nth: "peek ofs n buf = Some w \<Longrightarrow> i < nat n \<Longrightarrow> w ! i = buf ! (nat ofs + i)"
  by (auto simp: peek_def split: if_splits)

lemma peek_Some_iff: "(\<exists>w. peek ofs n buf = Some w) \<longleftrightarrow> 0 \<le> ofs \<and> 0 \<le> n \<and> ofs + n \<le> int (length buf)"
  by (simp add: peek_def)

text \<open>Reading what was written, and what was written elsewhere.\<close>

lemma peek_poke: "poke ofs bs buf = Some b \<Longrightarrow> peek ofs (int (length bs)) b = Some bs"
  by (auto simp: poke_def peek_def split: if_splits)

lemma peek_poke_other:
  assumes "poke ofs bs buf = Some b" "q + n \<le> ofs \<or> ofs + int (length bs) \<le> q"
  shows "peek q n b = peek q n buf"
proof (cases "0 \<le> q \<and> 0 \<le> n \<and> q + n \<le> int (length buf)")
  case True
  have len: "length b = length buf" using poke_length [OF assms(1)] .
  have inb: "nat q \<le> length buf" using True by linarith
  have "take (nat n) (drop (nat q) b) = take (nat n) (drop (nat q) buf)"
  proof (rule nth_equalityI)
    show "length (take (nat n) (drop (nat q) b)) = length (take (nat n) (drop (nat q) buf))" using len by simp
    fix i
    assume i: "i < length (take (nat n) (drop (nat q) b))"
    then have "i < nat n" by simp
    then have "b ! (nat q + i) = buf ! (nat q + i)"
      by (intro poke_outside [OF assms(1)]) (use assms(2) True in auto)
    then show "take (nat n) (drop (nat q) b) ! i = take (nat n) (drop (nat q) buf) ! i" using i len inb by simp
  qed
  then show ?thesis using True len by (simp add: peek_def)
next
  case False
  then show ?thesis using poke_length [OF assms(1)] by (auto simp: peek_def)
qed

lemma peek16_SSVAL: "peek ofs 2 buf = Some (SSVAL v) \<Longrightarrow> peek16 ofs buf = Some (uint v)"
  using SVAL_at [of "[]" v "[]"] by (simp add: peek16_def uint_up_ucast is_up)

section \<open>Packets under construction\<close>

definition wf_out :: "request_buffer \<Rightarrow> bool" where
  "wf_out rb \<longleftrightarrow> rb_allocated rb = int (length (rb_buffer rb)) \<and> rb_hdr rb = NBT_HDR_SIZE \<and>
     NBT_HDR_SIZE + HDR_VWV \<le> rb_vwv rb \<and> 0 \<le> rb_wct rb \<and>
     rb_data rb = rb_vwv rb + 2 * rb_wct rb + 2 \<and> 0 \<le> rb_data_size rb \<and> rb_data rb + rb_data_size rb = rb_size rb \<and>
     rb_size rb \<le> rb_allocated rb \<and> peek16 (rb_vwv rb + 2 * rb_wct rb) (rb_buffer rb) = Some (rb_data_size rb mod 65536)"

text \<open>The data, and the part in front of the count.\<close>

definition out_data :: "request_buffer \<Rightarrow> u8 list" where
  "out_data rb = take (nat (rb_data_size rb)) (drop (nat (rb_data rb)) (rb_buffer rb))"

definition out_head :: "request_buffer \<Rightarrow> u8 list" where
  "out_head rb = take (nat (rb_data rb) - 2) (rb_buffer rb)"

lemma wf_out_data: "wf_out rb \<Longrightarrow> int (length (out_data rb)) = rb_data_size rb"
  by (auto simp: wf_out_def out_data_def)

text \<open>The same packet in a buffer with room for \<open>n\<close> more bytes.\<close>

definition roomy :: "int \<Rightarrow> request_buffer \<Rightarrow> request_buffer \<Rightarrow> bool" where
  "roomy n rb rb' \<longleftrightarrow> wf_out rb' \<and> rb_vwv rb' = rb_vwv rb \<and> rb_wct rb' = rb_wct rb \<and> rb_size rb' = rb_size rb \<and>
     out_data rb' = out_data rb \<and> out_head rb' = out_head rb \<and> rb_size rb' + n \<le> rb_allocated rb'"

lemma take_less: "take k xs = take k ys \<Longrightarrow> m \<le> k \<Longrightarrow> take m xs = take m ys"
proof -
  assume "take k xs = take k ys" "m \<le> k"
  then have "take m (take k xs) = take m (take k ys)" by simp
  then show ?thesis using \<open>m \<le> k\<close> by (simp add: min_def)
qed

lemma window_prefix: "take k xs = take k ys \<Longrightarrow> i + n \<le> k \<Longrightarrow> take n (drop i xs) = take n (drop i ys)"
  using take_less [of k xs ys "n + i"] by (simp add: take_drop)

lemma peek_prefix: "take k b = take k buf \<Longrightarrow> q + n \<le> int k \<Longrightarrow> int k \<le> int (length b) \<Longrightarrow> int k \<le> int (length buf) \<Longrightarrow> peek q n b = peek q n buf"
proof -
  assume a: "take k b = take k buf" "q + n \<le> int k" "int k \<le> int (length b)" "int k \<le> int (length buf)"
  have eq: "take (nat n) (drop (nat q) b) = take (nat n) (drop (nat q) buf)" if "0 \<le> q" "0 \<le> n"
    by (rule window_prefix [OF a(1)]) (use a(2) that in linarith)
  show ?thesis using a eq by (auto simp: peek_def)
qed

lemma grow_allocation_roomy:
  assumes wf: "wf_out rb" and n: "0 \<le> n" "rb_size rb + n < 2147483648"
  shows "\<exists>rb'. smbcli_req_grow_allocation fill (n + rb_data_size rb) rb = Some rb' \<and> roomy n rb rb'"
proof -
  have d: "0 \<le> rb_data_size rb" "0 \<le> rb_size rb" "rb_data_size rb \<le> rb_size rb" using wf by (auto simp: wf_out_def)
  have delta: "int32 (uint32 (n + rb_data_size rb) - rb_data_size rb) = n" using d n by simp
  show ?thesis
  proof (cases "n + rb_size rb \<le> rb_allocated rb")
    case True
    then show ?thesis using d n wf by (auto simp: smbcli_req_grow_allocation_def delta Let_def roomy_def)
  next
    case False
    let ?k = "nat (rb_size rb)" and ?m = "nat (rb_size rb + n)" and ?buf = "rb_buffer rb"
    define b where "b = take ?m ?buf @ map fill [length ?buf..<?m]"
    let ?rb = "rb\<lparr>rb_allocated := rb_size rb + n, rb_buffer := b\<rparr>"
    have alloc: "rb_allocated rb = int (length ?buf)" "rb_size rb \<le> int (length ?buf)" using wf by (auto simp: wf_out_def)
    have len: "length b = ?m" "length ?buf \<le> ?m" using False alloc d n by (auto simp: b_def)
    have pre: "take ?k b = take ?k ?buf" using alloc len(2) d by (simp add: take_append b_def)
    have bcc: "peek16 q b = peek16 q ?buf" if "q + 2 \<le> rb_size rb" for q
      unfolding peek16_def by (subst peek_prefix [OF pre]) (use that alloc len d n in auto)
    have "wf_out ?rb" using wf len d n bcc [of "rb_vwv rb + 2 * rb_wct rb"] by (auto simp: wf_out_def)
    moreover have "out_data ?rb = out_data rb"
      unfolding out_data_def by simp (rule window_prefix [OF pre], use wf in \<open>auto simp: wf_out_def\<close>)
    moreover have "out_head ?rb = out_head rb"
      unfolding out_head_def by simp (rule take_less [OF pre], use wf in \<open>auto simp: wf_out_def\<close>)
    ultimately have "roomy n rb ?rb" by (simp add: roomy_def)
    moreover have "smbcli_req_grow_allocation fill (n + rb_data_size rb) rb = Some ?rb"
      using False d n by (simp add: smbcli_req_grow_allocation_def delta Let_def b_def)
    ultimately show ?thesis by blast
  qed
qed

text \<open>The packet with \<open>bs\<close> behind its data.\<close>

definition grown :: "u8 list \<Rightarrow> request_buffer \<Rightarrow> request_buffer \<Rightarrow> bool" where
  "grown bs rb rb' \<longleftrightarrow> wf_out rb' \<and> out_data rb' = out_data rb @ bs \<and> out_head rb' = out_head rb \<and>
     rb_size rb' = rb_size rb + int (length bs) \<and> rb_vwv rb' = rb_vwv rb \<and> rb_wct rb' = rb_wct rb"

lemma grown_Nil: "wf_out rb \<Longrightarrow> grown [] rb rb"
  by (simp add: grown_def)

lemma grown_trans: "grown bs rb rb1 \<Longrightarrow> grown cs rb1 rb2 \<Longrightarrow> grown (bs @ cs) rb rb2"
  by (simp add: grown_def)

lemma grown_roomy: "roomy n rb rb1 \<Longrightarrow> grown bs rb1 rb2 \<Longrightarrow> grown bs rb rb2"
  by (simp add: grown_def roomy_def)

text \<open>Storing bytes at the end of the data and enlarging it by as many.\<close>

lemma append_at_data:
  assumes wf: "wf_out rb" and room: "rb_size rb + int (length bs) \<le> rb_allocated rb" "rb_size rb + int (length bs) < 2147483648"
  shows "\<exists>rb'. append_at fill bs (int (length bs)) rb = Some rb' \<and> grown bs rb rb'"
proof -
  let ?n = "int (length bs)" and ?q = "rb_vwv rb + 2 * rb_wct rb"
  have d: "0 \<le> rb_data_size rb" "rb_data_size rb \<le> rb_size rb" "rb_data rb = ?q + 2" "rb_data rb + rb_data_size rb = rb_size rb" "0 \<le> ?q"
    "rb_allocated rb = int (length (rb_buffer rb))" "rb_size rb \<le> rb_allocated rb"
    using wf by (auto simp: wf_out_def)
  obtain b1 where b1: "poke (rb_size rb) bs (rb_buffer rb) = Some b1" using d room by (simp add: poke_def)
  note len1 = poke_length [OF b1]
  have u: "uint32 (?n + rb_data_size rb) = ?n + rb_data_size rb" using d room by simp
  have delta: "int32 (uint32 (?n + rb_data_size rb) - rb_data_size rb) = ?n" using d room by simp
  have grow: "smbcli_req_grow_allocation fill (?n + rb_data_size rb) (rb\<lparr>rb_buffer := b1\<rparr>) = Some (rb\<lparr>rb_buffer := b1\<rparr>)"
    using d room delta by (simp add: smbcli_req_grow_allocation_def Let_def)
  define v where "v = (of_int (?n + rb_data_size rb) :: u16)"
  obtain b2 where b2: "poke ?q (SSVAL v) b1 = Some b2" using d len1 by (simp add: poke_def)
  note len2 = poke_length [OF b2]
  let ?rb = "rb\<lparr>rb_size := rb_size rb + ?n, rb_data_size := rb_data_size rb + ?n, rb_buffer := b2\<rparr>"
  have eq: "append_at fill bs ?n rb = Some ?rb"
    using b1 b2 d grow delta u by (simp add: append_at_def smbcli_req_grow_data_def Let_def v_def)
  have bcc: "peek16 ?q b2 = Some ((rb_data_size rb + ?n) mod 65536)"
  proof -
    have "peek ?q 2 b2 = Some (SSVAL v)" using peek_poke [OF b2] by simp
    then have "peek16 ?q b2 = Some (uint v)" by (rule peek16_SSVAL)
    moreover have "uint v = (rb_data_size rb + ?n) mod 65536" unfolding v_def uint_word_of_int by (simp add: add.commute)
    ultimately show ?thesis by simp
  qed
  have wf': "wf_out ?rb" using wf bcc d room len1 len2 by (auto simp: wf_out_def)
  have nth2: "b2 ! i = (if rb_size rb \<le> int i \<and> int i < rb_size rb + ?n then bs ! (i - nat (rb_size rb)) else rb_buffer rb ! i)"
    if i: "int i < ?q \<or> rb_data rb \<le> int i" for i
    using poke_outside [OF b2, of i] poke_inside [OF b1, of i] poke_outside [OF b1, of i] i d by auto
  have "out_head ?rb = out_head rb"
    unfolding out_head_def
  proof (rule nth_equalityI)
    fix i
    assume "i < length (take (nat (rb_data ?rb) - 2) (rb_buffer ?rb))"
    then have i: "i < nat (rb_data rb) - 2" "i < length b2" by auto
    then have "int i < ?q" using d(3,5) by linarith
    then have "b2 ! i = rb_buffer rb ! i" using nth2 [of i] d(1,3,4) by auto
    then show "take (nat (rb_data ?rb) - 2) (rb_buffer ?rb) ! i = take (nat (rb_data rb) - 2) (rb_buffer rb) ! i" using i by simp
  qed (use len1 len2 in simp)
  moreover have "out_data ?rb = out_data rb @ bs"
    unfolding out_data_def
  proof (rule nth_equalityI)
    show len: "length (take (nat (rb_data_size ?rb)) (drop (nat (rb_data ?rb)) (rb_buffer ?rb))) =
        length (take (nat (rb_data_size rb)) (drop (nat (rb_data rb)) (rb_buffer rb)) @ bs)"
      using len1 len2 d room by auto
    fix i
    assume i: "i < length (take (nat (rb_data_size ?rb)) (drop (nat (rb_data ?rb)) (rb_buffer ?rb)))"
    have "rb_data rb \<le> int (nat (rb_data rb) + i)" using d by simp
    moreover have sz: "nat (rb_size rb) = nat (rb_data rb) + nat (rb_data_size rb)" "0 \<le> rb_data rb" using d by linarith+
    ultimately have "b2 ! (nat (rb_data rb) + i) = (if nat (rb_data_size rb) \<le> i \<and> i < nat (rb_data_size rb) + length bs
        then bs ! (i - nat (rb_data_size rb)) else rb_buffer rb ! (nat (rb_data rb) + i))"
      using nth2 [of "nat (rb_data rb) + i"] d(1,4) by auto
    then show "take (nat (rb_data_size ?rb)) (drop (nat (rb_data ?rb)) (rb_buffer ?rb)) ! i =
        (take (nat (rb_data_size rb)) (drop (nat (rb_data rb)) (rb_buffer rb)) @ bs) ! i"
      using i sz d(1,4,6,7) room len1 len2 by (auto simp: nth_append)
  qed
  ultimately show ?thesis using eq wf' by (auto simp: grown_def)
qed

lemma append_room:
  assumes "wf_out rb" "0 \<le> n" "int (length bs) \<le> n" "rb_size rb + n < 2147483648"
  shows "\<exists>rb1 rb'. smbcli_req_grow_allocation fill (n + rb_data_size rb) rb = Some rb1 \<and> roomy n rb rb1 \<and>
    append_at fill bs (int (length bs)) rb1 = Some rb' \<and> grown bs rb rb'"
proof -
  obtain rb1 where rb1: "smbcli_req_grow_allocation fill (n + rb_data_size rb) rb = Some rb1" "roomy n rb rb1"
    using grow_allocation_roomy [OF assms(1,2,4)] by blast
  then have r: "wf_out rb1" "rb_size rb1 + int (length bs) \<le> rb_allocated rb1" "rb_size rb1 + int (length bs) < 2147483648"
    using assms by (auto simp: roomy_def)
  show ?thesis using append_at_data [OF r] rb1 grown_roomy by blast
qed

text \<open>What one call appends; \<open>at\<close> is the offset of the end of the data.\<close>

datatype append_op = Bytes "u8 list" | Blob "u8 list" | VarBlock "u8 list" | Str "u8 list" u32 | Ascii4 "u8 list" u32

record append_env =
  ae_fill :: "nat \<Rightarrow> u8"
  ae_strupper :: "u8 list \<Rightarrow> u8 list option"
  ae_unicode :: bool

fun run_append :: "append_env \<Rightarrow> append_op \<Rightarrow> request_buffer \<Rightarrow> conv_state \<Rightarrow> (int \<times> request_buffer \<times> conv_state) option" where
  "run_append e (Bytes bs) rb st = map_option (\<lambda>(n, rb'). (n, rb', st)) (smbcli_req_append_bytes (ae_fill e) bs rb)"
| "run_append e (Blob bs) rb st = map_option (\<lambda>(n, rb'). (n, rb', st)) (smbcli_req_append_blob (ae_fill e) bs rb)"
| "run_append e (VarBlock bs) rb st = map_option (\<lambda>(n, rb'). (n, rb', st)) (smbcli_req_append_var_block (ae_fill e) bs (of_nat (length bs)) rb)"
| "run_append e (Str str flags) rb st = smbcli_req_append_string (ae_fill e) (ae_strupper e) (ae_unicode e) str flags rb st"
| "run_append e (Ascii4 str flags) rb st = smbcli_req_append_ascii4 (ae_fill e) (ae_strupper e) (ae_unicode e) str flags rb st"

text \<open>An upper bound for the bytes of a call.\<close>

fun append_bound :: "append_op \<Rightarrow> nat" where
  "append_bound (Bytes bs) = length bs"
| "append_bound (Blob bs) = length bs"
| "append_bound (VarBlock bs) = length bs + 3"
| "append_bound (Str str flags) = max_string_bytes str"
| "append_bound (Ascii4 str flags) = 1 + max_string_bytes str"

text \<open>The bytes of a string, -1 when it has none in the DOS charset.\<close>

definition string_bytes :: "append_env \<Rightarrow> bool \<Rightarrow> u8 list \<Rightarrow> u32 \<Rightarrow> conv_state \<Rightarrow> (int \<times> u8 list \<times> conv_state) option" where
  "string_bytes e odd_end str flags st =
     (case push_string (ae_strupper e) odd_end str (max_string_bytes str) (string_flags (ae_unicode e) flags) st of
        Some (Some (n, bs), st1) \<Rightarrow> Some (n, bs, st1) | _ \<Rightarrow> None)"

fun op_bytes :: "append_env \<Rightarrow> append_op \<Rightarrow> int \<Rightarrow> conv_state \<Rightarrow> (int \<times> u8 list \<times> conv_state) option" where
  "op_bytes e (Bytes bs) at st = Some (int (length bs), bs, st)"
| "op_bytes e (Blob bs) at st = Some (int (length bs), bs, st)"
| "op_bytes e (VarBlock bs) at st = Some (int (length bs) + 3, [5] @ SSVAL (of_nat (length bs)) @ bs, st)"
| "op_bytes e (Str str flags) at st = string_bytes e (odd at) str flags st"
| "op_bytes e (Ascii4 str flags) at st =
     map_option (\<lambda>(n, bs, st1). (n + 1, 4 # bs, st1)) (string_bytes e (odd (at + 1)) str flags st)"

lemma append_string_data:
  assumes "wf_out rb" "string_bytes e (odd (rb_size rb)) str flags st = Some (int (length bs), bs, st1)"
    and "length bs \<le> max_string_bytes str" "rb_size rb + int (max_string_bytes str) < 2147483648"
  shows "\<exists>rb'. smbcli_req_append_string (ae_fill e) (ae_strupper e) (ae_unicode e) str flags rb st = Some (int (length bs), rb', st1) \<and>
    grown bs rb rb'"
proof -
  obtain rb1 rb' where r: "smbcli_req_grow_allocation (ae_fill e) (int (max_string_bytes str) + rb_data_size rb) rb = Some rb1"
    "roomy (int (max_string_bytes str)) rb rb1" "append_at (ae_fill e) bs (int (length bs)) rb1 = Some rb'" "grown bs rb rb'"
    using append_room [OF assms(1), of "int (max_string_bytes str)" bs "ae_fill e"] assms(3,4) by auto
  have at: "rb_data rb1 + rb_data_size rb1 = rb_size rb" using r(2) by (auto simp: roomy_def wf_out_def)
  have "push_string (ae_strupper e) (odd (rb_size rb)) str (max_string_bytes str) (string_flags (ae_unicode e) flags) st = Some (Some (int (length bs), bs), st1)"
    using assms(2) by (auto simp: string_bytes_def split: option.splits prod.splits)
  then show ?thesis using r unfolding smbcli_req_append_string_def Let_def r(1) bind.bind_lunit at by simp
qed

lemma append_bytes_data:
  assumes "wf_out rb" "rb_size rb + int (length bs) < 2147483648"
  shows "\<exists>rb'. smbcli_req_append_bytes fill bs rb = Some (int (length bs), rb') \<and>
    grown bs rb rb'"
  using append_room [OF assms(1) _ order.refl assms(2), of fill] by (auto simp: smbcli_req_append_bytes_def)

lemma run_append_data:
  assumes "wf_out rb" "op_bytes e x (rb_size rb) st = Some (int (length bs), bs, st1)" "length bs \<le> append_bound x"
    and "rb_size rb + int (append_bound x) < 2147483648" "case x of VarBlock b \<Rightarrow> length b < 65536 | _ \<Rightarrow> True"
  shows "\<exists>rb'. run_append e x rb st = Some (int (length bs), rb', st1) \<and>
    grown bs rb rb'"
proof (cases x)
  case (Bytes b)
  then show ?thesis using append_bytes_data [OF assms(1), of b "ae_fill e"] assms by auto
next
  case (Blob b)
  then show ?thesis using append_room [OF assms(1) _ order.refl, of b "ae_fill e"] assms by (auto simp: smbcli_req_append_blob_def add.commute)
next
  case (VarBlock b)
  have len: "unat (of_nat (length b) :: u16) = length b" using VarBlock assms(5) by (simp add: unat_of_nat)
  have u: "uint (of_nat (length b) :: u16) + 3 = int (length bs)" using VarBlock assms(2) len by (simp add: uint_nat)
  then show ?thesis
    using append_room [OF assms(1) _ order.refl, of bs "ae_fill e"] VarBlock assms(2,4) len by (auto simp: smbcli_req_append_var_block_def Let_def)
next
  case (Str str flags)
  then show ?thesis using append_string_data [OF assms(1), of e str flags st bs st1] assms by simp
next
  case (Ascii4 str flags)
  obtain b where b: "string_bytes e (odd (rb_size rb + 1)) str flags st = Some (int (length b), b, st1)" "bs = 4 # b"
    using assms(2) Ascii4 by auto
  obtain rb1 where rb1: "smbcli_req_append_bytes (ae_fill e) [4] rb = Some (1, rb1)" "grown [4] rb rb1"
    using append_bytes_data [OF assms(1), of "[4]" "ae_fill e"] assms(4) Ascii4 by auto
  then have wf1: "wf_out rb1" "rb_size rb1 = rb_size rb + 1" by (simp_all add: grown_def)
  obtain rb' where "smbcli_req_append_string (ae_fill e) (ae_strupper e) (ae_unicode e) str flags rb1 st = Some (int (length b), rb', st1)" "grown b rb1 rb'"
    using append_string_data [OF wf1(1), of e str flags st b st1] b assms(3,4) Ascii4 wf1(2) by auto
  then show ?thesis
    using rb1 grown_trans [OF rb1(2)] b(2) Ascii4 by (auto simp: smbcli_req_append_ascii4_def)
qed

section \<open>Building a packet\<close>

definition apart :: "int \<Rightarrow> u8 list \<Rightarrow> int \<times> u8 list \<Rightarrow> bool" where
  "apart ofs bs w \<longleftrightarrow> fst w + int (length (snd w)) \<le> ofs \<or> ofs + int (length bs) \<le> fst w"

lemma pokes_length: "pokes ws buf = Some b \<Longrightarrow> length b = length buf"
  by (induction ws buf rule: pokes.induct) (auto simp: poke_length split: Option.bind_splits)

lemma pokes_Some: "\<forall>w \<in> set ws. 0 \<le> fst w \<and> fst w + int (length (snd w)) \<le> int (length buf) \<Longrightarrow> \<exists>b. pokes ws buf = Some b"
proof (induction ws buf rule: pokes.induct)
  case (2 ofs bs r buf)
  then obtain b where b: "poke ofs bs buf = Some b" by (auto simp: poke_def)
  then show ?case using 2 poke_length [OF b] by auto
qed simp

lemma pokes_other:
  "pokes ws buf = Some b \<Longrightarrow> list_all (apart ofs bs) ws \<Longrightarrow> peek ofs (int (length bs)) b = peek ofs (int (length bs)) buf"
proof (induction ws buf rule: pokes.induct)
  case (2 q cs r buf)
  then obtain b1 where b1: "poke q cs buf = Some b1" "pokes r b1 = Some b" by (auto split: Option.bind_splits)
  then show ?case using 2 peek_poke_other [OF b1(1), of ofs "int (length bs)"] by (auto simp: apart_def)
qed simp

lemma pokes_field:
  assumes "pokes ws buf = Some b" "k < length ws" "ws ! k = (ofs, bs)" "list_all (apart ofs bs) (drop (Suc k) ws)"
  shows "peek ofs (int (length bs)) b = Some bs"
  using assms
proof (induction ws buf arbitrary: k rule: pokes.induct)
  case (2 q cs r buf)
  then obtain b1 where b1: "poke q cs buf = Some b1" "pokes r b1 = Some b" by (auto split: Option.bind_splits)
  show ?case
  proof (cases k)
    case 0
    then show ?thesis using 2 b1 pokes_other [OF b1(2)] peek_poke [OF b1(1)] by auto
  next
    case (Suc j)
    then show ?thesis using 2 b1 by auto
  qed
qed simp

text \<open>The writes of the setup functions, in their order.\<close>

definition setup_writes :: "u16 \<Rightarrow> smbcli_session \<Rightarrow> u16 \<Rightarrow> u8 \<Rightarrow> int \<Rightarrow> int \<Rightarrow> (int \<times> u8 list) list" where
  "setup_writes mid session tid command wct buflen =
     [(0, SIVAL 0), (36, [of_int wct]), (37 + 2 * wct, SSVAL (of_int buflen)), (4, [0xFF, 0x53, 0x4D, 0x42]), (8, [command]),
      (13, [8]), (14, SSVAL 0), (30, SSVAL 0), (32, SSVAL 0), (34, SSVAL mid), (28, SSVAL 0), (16, SSVAL 0), (9, SIVAL 0), (18, replicate 10 0),
      (14, SSVAL (se_flags2 session)), (30, SSVAL (ucast (se_pid session AND 0xFFFF))), (16, SSVAL (ucast (drop_bit 16 (se_pid session)))),
      (32, SSVAL (se_vuid session)), (28, SSVAL tid)]"

lemma pokes_append: "pokes (ws @ vs) buf = Option.bind (pokes ws buf) (pokes vs)"
  by (induction ws buf rule: pokes.induct) (auto split: Option.bind_splits)

lemma setup_buffer:
  assumes "0 \<le> wct" "0 \<le> buflen"
  shows "\<exists>req b. smbcli_request_setup fill mid session tid command wct buflen = Some req \<and>
    pokes (setup_writes mid session tid command wct buflen) (map fill [0..<nat (39 + wct * 2 + buflen)]) = Some b \<and>
    sq_mid req = mid \<and>
    sq_out req = \<lparr>rb_buffer = b, rb_size = 39 + wct * 2 + buflen, rb_allocated = 39 + wct * 2 + buflen, rb_hdr = 4, rb_vwv = 37, rb_wct = wct,
      rb_data = 39 + 2 * wct, rb_data_size = buflen, rb_ptr = 39 + 2 * wct\<rparr>"
proof -
  let ?n = "39 + wct * 2 + buflen"
  define buf where "buf = map fill [0..<nat ?n]"
  have len: "int (length buf) = ?n" using assms by (simp add: buf_def)
  define ws where "ws = setup_writes mid session tid command wct buflen"
  define w0 w1 w2 w3 where parts: "w0 = take 1 ws" "w1 = take 13 (drop 1 ws)" "w2 = take 4 (drop 14 ws)" "w3 = drop 18 ws"
  have ws: "ws = w0 @ w1 @ w2 @ w3" by (simp add: parts ws_def setup_writes_def)
  have "\<exists>b. pokes ws buf = Some b" by (rule pokes_Some) (use len assms in \<open>simp add: ws_def setup_writes_def\<close>)
  then obtain b where b: "pokes ws buf = Some b" by blast
  obtain b0 b1 b2 where bs: "pokes w0 buf = Some b0" "pokes w1 b0 = Some b1" "pokes w2 b1 = Some b2" "pokes w3 b2 = Some b"
    using b unfolding ws pokes_append by (auto split: Option.bind_splits)
  have p0: "poke 0 (SIVAL 0) buf = Some b0" using bs(1) by (auto simp: parts ws_def setup_writes_def split: Option.bind_splits)
  have "\<exists>req. smbcli_request_setup fill mid session tid command wct buflen = Some req \<and> sq_mid req = mid \<and>
    sq_out req = \<lparr>rb_buffer = b, rb_size = ?n, rb_allocated = ?n, rb_hdr = 4, rb_vwv = 37, rb_wct = wct,
      rb_data = 39 + 2 * wct, rb_data_size = buflen, rb_ptr = 39 + 2 * wct\<rparr>"
    using p0 bs(2-4)
    by (simp add: smbcli_request_setup_def smbcli_request_setup_session_def smbcli_request_setup_transport_def smbcli_request_setup_nonsmb_def
        buf_def [symmetric] poke_out_def empty_buffer_def Let_def parts ws_def setup_writes_def del: pokes.simps)
  then show ?thesis using b by (auto simp: buf_def [symmetric] ws_def)
qed

lemma setup_wf:
  assumes "0 \<le> wct" "0 \<le> buflen" "smbcli_request_setup fill mid session tid command wct buflen = Some req"
  shows "wf_out (sq_out req)" "rb_size (sq_out req) = 39 + wct * 2 + buflen" "rb_wct (sq_out req) = wct" "rb_data_size (sq_out req) = buflen"
    "out_head (sq_out req) ! 8 = command" "peek16 28 (out_head (sq_out req)) = Some (uint tid)" "peek16 34 (out_head (sq_out req)) = Some (uint mid)"
    "peek 4 4 (out_head (sq_out req)) = Some [0xFF, 0x53, 0x4D, 0x42]" "peek 0 4 (out_head (sq_out req)) = Some [0, 0, 0, 0]"
proof -
  let ?n = "39 + wct * 2 + buflen"
  let ?ws = "setup_writes mid session tid command wct buflen"
  obtain b where b: "pokes ?ws (map fill [0..<nat ?n]) = Some b"
    and out: "sq_out req = \<lparr>rb_buffer = b, rb_size = ?n, rb_allocated = ?n, rb_hdr = 4, rb_vwv = 37, rb_wct = wct,
      rb_data = 39 + 2 * wct, rb_data_size = buflen, rb_ptr = 39 + 2 * wct\<rparr>"
    using setup_buffer [OF assms(1,2), of fill mid session tid command] assms(3) by auto
  have len: "int (length b) = ?n" using pokes_length [OF b] assms(1,2) by simp
  have bcc: "peek (37 + 2 * wct) 2 b = Some (SSVAL (of_int buflen))"
    using pokes_field [OF b, of 2 "37 + 2 * wct" "SSVAL (of_int buflen)"] assms(1) by (simp add: setup_writes_def apart_def)
  have cmd: "peek 8 1 b = Some [command]"
    using pokes_field [OF b, of 4 8 "[command]"] assms(1) by (simp add: setup_writes_def apart_def)
  have t: "peek 28 2 b = Some (SSVAL tid)" using pokes_field [OF b, of 18 28 "SSVAL tid"] by (simp add: setup_writes_def)
  have m: "peek 34 2 b = Some (SSVAL mid)" using pokes_field [OF b, of 9 34 "SSVAL mid"] by (simp add: setup_writes_def apart_def)
  have magic: "peek 4 4 b = Some [0xFF, 0x53, 0x4D, 0x42]"
    using pokes_field [OF b, of 3 4 "[0xFF, 0x53, 0x4D, 0x42]"] by (simp add: setup_writes_def apart_def)
  have zero: "peek 0 4 b = Some [0, 0, 0, 0]"
    using pokes_field [OF b, of 0 0 "SIVAL 0"] assms(1) by (simp add: setup_writes_def apart_def) (simp add: SIVAL_def SSVAL_def)
  have head: "peek q k (out_head (sq_out req)) = peek q k b" if "q + k \<le> 37" for q k
    by (rule peek_prefix [of "nat (37 + 2 * wct)"]) (use that len assms(1,2) in \<open>auto simp: out_head_def out\<close>)
  show "wf_out (sq_out req)"
    using assms(1,2) len peek16_SSVAL [OF bcc] by (auto simp: wf_out_def out uint_word_of_int)
  show "rb_size (sq_out req) = ?n" "rb_wct (sq_out req) = wct" "rb_data_size (sq_out req) = buflen" by (simp_all add: out)
  show "out_head (sq_out req) ! 8 = command" using cmd head [of 8 1] peek_nth [of 8 1 "out_head (sq_out req)" "[command]" 0] by simp
  show "peek16 28 (out_head (sq_out req)) = Some (uint tid)" "peek16 34 (out_head (sq_out req)) = Some (uint mid)"
    using peek16_SSVAL t m head by simp_all
  show "peek 4 4 (out_head (sq_out req)) = Some [0xFF, 0x53, 0x4D, 0x42]" "peek 0 4 (out_head (sq_out req)) = Some [0, 0, 0, 0]"
    using magic zero head by simp_all
qed

text \<open>A sequence of calls, and the bytes it should add.\<close>

fun run_appends :: "append_env \<Rightarrow> append_op list \<Rightarrow> request_buffer \<Rightarrow> conv_state \<Rightarrow> (request_buffer \<times> conv_state) option" where
  "run_appends e [] rb st = Some (rb, st)"
| "run_appends e (x # xs) rb st = (case run_append e x rb st of None \<Rightarrow> None | Some (_, rb1, st1) \<Rightarrow> run_appends e xs rb1 st1)"

fun ops_bytes :: "append_env \<Rightarrow> append_op list \<Rightarrow> int \<Rightarrow> conv_state \<Rightarrow> (u8 list \<times> conv_state) option" where
  "ops_bytes e [] at st = Some ([], st)"
| "ops_bytes e (x # xs) at st =
     (case op_bytes e x at st of
        None \<Rightarrow> None
      | Some (n, bs, st1) \<Rightarrow>
          if n = int (length bs) then map_option (\<lambda>(r, st2). (bs @ r, st2)) (ops_bytes e xs (at + n) st1) else None)"

fun short_block :: "append_op \<Rightarrow> bool" where
  "short_block (VarBlock b) = (length b < 65536)"
| "short_block _ = True"

lemma string_bytes_bound:
  assumes "conv_inv st" "string_bytes e odd_end str flags st = Some (int (length bs), bs, st1)"
  shows "length bs \<le> max_string_bytes str \<and> conv_inv st1"
proof -
  have total: "\<exists>ret os st'. convert_string a b src srclen destlen st = (Some (ret, os), st') \<and> conv_inv st' \<and> length os \<le> destlen" for a b src srclen destlen
    using conversions_total [OF assms(1), of a b src srclen destlen] by blast
  obtain fl where fl: "push_string (ae_strupper e) odd_end str (max_string_bytes str) fl st = Some (Some (int (length bs), bs), st1)"
    using assms(2) by (auto simp: string_bytes_def split: option.splits prod.splits)
  have pad: "ucs2_align odd_end fl \<le> 1" by (simp add: ucs2_align_def)
  have room: "6 \<le> max_string_bytes str" by (simp add: max_string_bytes_def)
  show ?thesis
  proof (cases "fl AND STR_ASCII \<noteq> 0")
    case True
    then have asc: "push_ascii (ae_strupper e) str (max_string_bytes str) fl st = (Some (int (length bs), bs), st1)" using fl by (simp add: push_string_def)
    then obtain s where s: "with_upper (ae_strupper e) fl str = Some s" by (auto simp: push_ascii_def split: option.splits)
    obtain ret os st' where "convert_string CH_UNIX CH_DOS (cstring s)
        (Some (if fl AND (STR_TERMINATE OR STR_TERMINATE_ASCII) \<noteq> 0 then length s + 1 else length s)) (max_string_bytes str) st = (Some (ret, os), st')"
      "conv_inv st'" "length os \<le> max_string_bytes str"
      using total by blast
    then show ?thesis using asc s by (simp add: push_ascii_def)
  next
    case False
    then have ucs: "push_ucs2 (ae_strupper e) odd_end str (max_string_bytes str) fl st = (Some (int (length bs), bs), st1)"
      using fl by (auto simp: push_string_def split: if_splits)
    then obtain s where s: "with_upper (ae_strupper e) fl str = Some s" by (auto simp: push_ucs2_def split: option.splits)
    let ?room = "(max_string_bytes str - ucs2_align odd_end fl) div 2 * 2"
    obtain ret os st' where c: "convert_string CH_UNIX CH_UTF16 (cstring s) (Some (if fl AND STR_TERMINATE \<noteq> 0 then length s + 1 else length s)) ?room st =
        (Some (ret, os), st')" "conv_inv st'" "length os \<le> ?room"
      using total by blast
    then have "bs = replicate (ucs2_align odd_end fl) 0 @ os" "st1 = st'" using ucs s by (auto simp: push_ucs2_def Let_def)
    then show ?thesis using c(2,3) pad room by auto
  qed
qed

lemma op_bytes_bound:
  assumes "conv_inv st" "op_bytes e x at st = Some (int (length bs), bs, st1)"
  shows "length bs \<le> append_bound x \<and> conv_inv st1"
proof (cases x)
  case (Ascii4 str flags)
  then obtain b where "string_bytes e (odd (at + 1)) str flags st = Some (int (length b), b, st1)" "bs = 4 # b" using assms(2) by auto
  then show ?thesis using string_bytes_bound [OF assms(1)] Ascii4 by fastforce
qed (use assms string_bytes_bound [OF assms(1)] in auto)

lemma ops_bytes_bound: "conv_inv st \<Longrightarrow> ops_bytes e ops at st = Some (bs, st') \<Longrightarrow> length bs \<le> sum_list (map append_bound ops)"
proof (induction ops arbitrary: at st bs)
  case (Cons x xs)
  obtain b1 st1 r where b1: "op_bytes e x at st = Some (int (length b1), b1, st1)"
    "ops_bytes e xs (at + int (length b1)) st1 = Some (r, st')" "bs = b1 @ r"
    using Cons.prems(2) by (auto split: option.splits if_splits)
  then show ?case using op_bytes_bound [OF Cons.prems(1) b1(1)] Cons.IH [of st1 _ r] by fastforce
qed simp

lemma run_appends_data:
  assumes "wf_out rb" "conv_inv st" "ops_bytes e ops (rb_size rb) st = Some (bs, st')"
    and "rb_size rb + int (sum_list (map append_bound ops)) < 2147483648" "list_all short_block ops"
  shows "\<exists>rb'. run_appends e ops rb st = Some (rb', st') \<and> grown bs rb rb'"
  using assms
proof (induction ops arbitrary: rb st bs)
  case (Cons x xs)
  obtain b1 st1 r where b1: "op_bytes e x (rb_size rb) st = Some (int (length b1), b1, st1)"
    "ops_bytes e xs (rb_size rb + int (length b1)) st1 = Some (r, st')" "bs = b1 @ r"
    using Cons.prems(3) by (auto split: option.splits if_splits)
  note bound = op_bytes_bound [OF Cons.prems(2) b1(1)]
  obtain rb1 where rb1: "run_append e x rb st = Some (int (length b1), rb1, st1)" "grown b1 rb rb1"
    using run_append_data [OF Cons.prems(1) b1(1)] bound Cons.prems(4,5) by (cases x) auto
  then have wf1: "wf_out rb1" "rb_size rb1 = rb_size rb + int (length b1)" by (simp_all add: grown_def)
  obtain rb' where "run_appends e xs rb1 st1 = Some (rb', st')" "grown r rb1 rb'"
    using Cons.IH [of rb1 st1 r] wf1 bound b1 Cons.prems(4,5) by auto
  then show ?case using rb1 grown_trans [OF rb1(2)] b1(3) by auto
qed (simp add: grown_Nil)

lemma smb_setlen_length [simp]: "length (smb_setlen n) = 4"
  by (simp add: smb_setlen_def)

lemma smb_len_setlen:
  assumes "0 \<le> n" "n < 131072" "peek 0 4 b = Some (smb_setlen n)"
  shows "smb_len b = Some n"
proof -
  have top: "n div 65536 = n div 256 div 256" using zdiv_zmult2_eq [of 256 n 256] by simp
  have "n div 65536 < 2" "0 \<le> n div 65536" using assms(1,2) by (auto intro: div_less_mono)
  then have "n div 65536 mod 2 = n div 256 div 256" using top by simp
  moreover have "n = n div 256 * 256 + n mod 256" "n div 256 = n div 256 div 256 * 256 + n div 256 mod 256" by simp_all
  ultimately have "n mod 256 + 256 * (n div 256 mod 256) + 65536 * (n div 65536 mod 2) = n" by linarith
  then show ?thesis using assms(3) \<open>n div 65536 < 2\<close> \<open>0 \<le> n div 65536\<close> by (simp add: smb_len_def smb_setlen_def uint_word_of_int)
qed

lemma send_packet:
  assumes wf: "wf_out rb" and zero: "peek 0 4 (out_head rb) = Some [0, 0, 0, 0]"
  shows "\<exists>rb'. smbcli_request_send rb = Some rb' \<and> wf_out rb' \<and> out_data rb' = out_data rb \<and> drop 4 (out_head rb') = drop 4 (out_head rb) \<and>
    rb_size rb' = rb_size rb \<and> rb_vwv rb' = rb_vwv rb \<and> rb_wct rb' = rb_wct rb \<and> peek 0 4 (rb_buffer rb') = Some (smb_setlen (rb_size rb - 4))"
proof -
  let ?b = "rb_buffer rb"
  have d: "39 \<le> rb_data rb" "rb_data rb + rb_data_size rb = rb_size rb" "0 \<le> rb_data_size rb" "rb_size rb \<le> int (length ?b)"
    "rb_data rb = rb_vwv rb + 2 * rb_wct rb + 2"
    using wf by (auto simp: wf_out_def)
  have "peek 0 4 ?b = peek 0 4 (out_head rb)"
    by (rule peek_prefix [of "nat (rb_data rb) - 2"]) (use d in \<open>auto simp: out_head_def\<close>)
  then have p32: "peek32 0 ?b = Some 0" using zero by (simp add: peek32_def IVAL_def SVAL_def)
  obtain b where b: "poke 0 (smb_setlen (rb_size rb - 4)) ?b = Some b" using d by (simp add: poke_def smb_setlen_def)
  note len = poke_length [OF b]
  have rest: "drop 4 b = drop 4 ?b" using b d by (auto simp: poke_def split: if_splits)
  let ?rb = "rb\<lparr>rb_buffer := b\<rparr>"
  have w: "take n (drop i b) = take n (drop i ?b)" if "4 \<le> i" for n i
  proof -
    have "drop (i - 4) (drop 4 b) = drop (i - 4) (drop 4 ?b)" using rest by simp
    then show ?thesis using that by simp
  qed
  have "peek16 q b = peek16 q ?b" if "4 \<le> q" for q
    using w [of "nat q" 2] that len by (auto simp: peek16_def peek_def)
  then have "wf_out ?rb" using wf d len by (auto simp: wf_out_def)
  moreover have "out_data ?rb = out_data rb" unfolding out_data_def using w d by simp
  moreover have "drop 4 (out_head ?rb) = drop 4 (out_head rb)" unfolding out_head_def using w [of 4] by (simp add: drop_take)
  moreover have "peek 0 4 b = Some (smb_setlen (rb_size rb - 4))" using peek_poke [OF b] by simp
  ultimately show ?thesis using p32 b by (auto simp: smbcli_request_send_def)
qed

text \<open>C14. Building a packet. A packet that is set up with any command and any number of words, to which
  any sequence of bytes, blobs, variable blocks and strings is appended, and that is sent, has the
  command, tree and number it was set up with, its data is exactly the concatenation of what was
  appended, the byte count in front of the data is the size of the data, and the packet announces
  its own length; nothing is written outside the buffer.\<close>

theorem request_build:
  assumes start: "0 \<le> wct" "0 \<le> buflen" "smbcli_request_setup fill mid session tid command wct buflen = Some req"
    and ops: "conv_inv st" "ops_bytes e ops (39 + wct * 2 + buflen) st = Some (bs, st')" "list_all short_block ops"
    and total: "39 + wct * 2 + buflen + int (sum_list (map append_bound ops)) < 131072"
  shows "\<exists>rb rb'. run_appends e ops (sq_out req) st = Some (rb, st') \<and> smbcli_request_send rb = Some rb' \<and>
    out_data rb' = out_data (sq_out req) @ bs \<and> peek16 (37 + 2 * wct) (rb_buffer rb') = Some ((buflen + int (length bs)) mod 65536) \<and>
    smb_len (rb_buffer rb') = Some (rb_size rb' - 4) \<and> rb_size rb' = 39 + wct * 2 + buflen + int (length bs) \<and>
    drop 4 (out_head rb') = drop 4 (out_head (sq_out req)) \<and> out_head (sq_out req) ! 8 = command \<and>
    peek16 28 (out_head (sq_out req)) = Some (uint tid) \<and> peek16 34 (out_head (sq_out req)) = Some (uint mid)"
proof -
  note s = setup_wf [OF start]
  have vwv: "rb_vwv (sq_out req) = 37" using setup_buffer [OF start(1,2), of fill mid session tid command] start(3) by auto
  have "rb_size (sq_out req) + int (sum_list (map append_bound ops)) < 2147483648" using total s(2) by simp
  then obtain rb where rb: "run_appends e ops (sq_out req) st = Some (rb, st')" "grown bs (sq_out req) rb"
    using run_appends_data [OF s(1) ops(1), of e ops bs st'] ops(2,3) s(2) by auto
  then have g: "wf_out rb" "out_data rb = out_data (sq_out req) @ bs" "out_head rb = out_head (sq_out req)"
    "rb_size rb = 39 + wct * 2 + buflen + int (length bs)" "rb_vwv rb = 37" "rb_wct rb = wct"
    using s(2,3) vwv by (simp_all add: grown_def)
  obtain rb' where rb': "smbcli_request_send rb = Some rb'" "wf_out rb'" "out_data rb' = out_data rb" "drop 4 (out_head rb') = drop 4 (out_head rb)"
    "rb_size rb' = rb_size rb" "rb_vwv rb' = rb_vwv rb" "rb_wct rb' = rb_wct rb" "peek 0 4 (rb_buffer rb') = Some (smb_setlen (rb_size rb - 4))"
    using send_packet [OF g(1)] s(9) g(3) by auto
  have "length bs \<le> sum_list (map append_bound ops)" using ops_bytes_bound [OF ops(1,2)] .
  then have len: "smb_len (rb_buffer rb') = Some (rb_size rb' - 4)"
    using smb_len_setlen [OF _ _ rb'(8)] total g(4) rb'(5) start(1,2) by simp
  have "rb_data_size rb' = buflen + int (length bs)" using rb'(2,5,6,7) g(4,5,6) by (simp add: wf_out_def)
  then have "peek16 (37 + 2 * wct) (rb_buffer rb') = Some ((buflen + int (length bs)) mod 65536)"
    using rb'(2,6,7) g(5,6) by (simp add: wf_out_def)
  then show ?thesis using rb(1) rb' g s(5-7) len by simp
qed

section \<open>Reading a reply\<close>

definition wf_in :: "request_buffer \<Rightarrow> bool" where
  "wf_in rb \<longleftrightarrow> 0 \<le> rb_data rb \<and> 0 \<le> rb_data_size rb \<and> rb_data rb + rb_data_size rb \<le> int (length (rb_buffer rb)) \<and>
     int (length (rb_buffer rb)) < 2147483648"

text \<open>A reader that ends without an access outside the buffer, and with a conversion table as it was.\<close>

definition reads_well :: "pulled \<Rightarrow> bool" where
  "reads_well r \<longleftrightarrow> (\<exists>n d st'. r = Some ((n, d), st') \<and> conv_inv st' \<and> (d = None \<longrightarrow> n = 0))"

lemma reads_nothing [intro]: "conv_inv st \<Longrightarrow> reads_well (Some ((0, None), st))"
  by (simp add: reads_well_def)

lemma pull_convert_reads:
  assumes "conv_inv st" "0 \<le> src" "0 \<le> n" "src + n \<le> int (length buf)"
  shows "reads_well (pull_convert a buf src n ret st)"
proof -
  obtain w where w: "peek src n buf = Some w" using assms by (simp add: peek_def)
  obtain r st' where "convert_string_talloc a CH_UNIX (Some w) st = (r, st')" "conv_inv st'" "r = ConvFail \<or> (\<exists>os. r = Conv os)"
    using conversions_total [OF assms(1), of a CH_UNIX "[]" None 0 "Some w"] by blast
  then show ?thesis using w by (auto simp: pull_convert_def reads_well_def)
qed

lemma strnlen_at_inside:
  assumes "0 \<le> src" "0 \<le> n" "src + n \<le> int (length buf)" "int (length buf) < 2147483648"
  shows "\<exists>k. strnlen_at buf src n = Some k \<and> 0 \<le> k \<and> k \<le> n"
proof -
  have "nat n \<le> length buf - nat src" using assms by linarith
  moreover have "int (strnlen (drop (nat src) buf) (nat n)) \<le> n" using strnlen_le [of "drop (nat src) buf" "nat n"] assms(2) by linarith
  ultimately show ?thesis using assms by (simp add: strnlen_at_def Let_def)
qed

lemma utf16_len_at_inside:
  assumes "0 \<le> src" "0 \<le> n" "src + n \<le> int (length buf)" "int (length buf) < 2147483648"
  shows "\<exists>k. utf16_len_at buf src n = Some k \<and> 0 \<le> k \<and> k \<le> n"
proof -
  have "nat n \<le> length buf - nat src" using assms by linarith
  moreover have "int (utf16_len_n (drop (nat src) buf) (nat n)) \<le> n" using utf16_len_n_le [of "drop (nat src) buf" "nat n"] assms(2) by linarith
  ultimately show ?thesis using assms by (simp add: utf16_len_at_def Let_def)
qed

lemma pull_ucs2_reads:
  assumes "wf_in rb" "conv_inv st" "- 1 \<le> byte_len" "0 \<le> src" "src < 2147483647"
  shows "reads_well (smbcli_req_pull_ucs2 rb src byte_len flags st)"
proof -
  define al where "al = (if flags AND STR_NOALIGN = 0 then int (ucs2_align (odd src) flags) else 0)"
  define bl where "bl = (if al \<noteq> 0 \<and> byte_len \<noteq> - 1 then byte_len - 1 else byte_len)"
  define l0 where "l0 = rb_data_size rb - (src + al - rb_data rb)"
  define l1 where "l1 = (if bl \<noteq> - 1 \<and> bl < l0 then bl else l0)"
  have al: "0 \<le> al" "al \<le> 1" by (simp_all add: al_def ucs2_align_def)
  have bl: "- 1 \<le> bl" using assms(3) al by (auto simp: bl_def)
  have i: "int32 l0 = l0" using assms al by (simp add: l0_def wf_in_def)
  have eq: "smbcli_req_pull_ucs2 rb src byte_len flags st =
      (if l0 < 0 then Some ((0, None), st)
       else case utf16_len_at (rb_buffer rb) (src + al) l1 of
          None \<Rightarrow> None
        | Some k \<Rightarrow> if k < 2 then Some ((0, None), st) else pull_convert CH_UTF16 (rb_buffer rb) (src + al) k (\<lambda>_. k + al) st)"
    unfolding smbcli_req_pull_ucs2_def Let_def al_def [symmetric] bl_def [symmetric] l0_def [symmetric] i l1_def [symmetric] ..
  show ?thesis
  proof (cases "l0 < 0")
    case False
    then have l1: "0 \<le> l1" "src + al + l1 \<le> int (length (rb_buffer rb))" "0 \<le> src + al" using bl assms al by (auto simp: l1_def l0_def wf_in_def)
    then obtain k where "utf16_len_at (rb_buffer rb) (src + al) l1 = Some k" "0 \<le> k" "k \<le> l1"
      using utf16_len_at_inside [OF l1(3,1,2)] assms(1) by (auto simp: wf_in_def)
    then show ?thesis using False eq l1 pull_convert_reads [OF assms(2) l1(3)] reads_nothing [OF assms(2)] by auto
  qed (use eq assms(2) in auto)
qed

text \<open>The two readers of DOS strings are one function of a limit.\<close>

lemma ascii_reads:
  assumes "conv_inv st" "0 \<le> src" "0 \<le> n" "src + n \<le> int (length buf)" "int (length buf) < 2147483648"
  shows "reads_well (case strnlen_at buf src n of None \<Rightarrow> None
     | Some k \<Rightarrow> let m = (if k < n - 1 then k + 1 else k) in pull_convert CH_DOS buf src m ret st)"
proof -
  obtain k where "strnlen_at buf src n = Some k" "0 \<le> k" "k \<le> n" using strnlen_at_inside [OF assms(2-5)] by blast
  then show ?thesis using pull_convert_reads [OF assms(1,2)] assms(4) by (auto simp: Let_def)
qed

lemma pull_ascii_reads:
  assumes "wf_in rb" "conv_inv st" "- 1 \<le> byte_len" "0 \<le> src" "src < 2147483648"
  shows "reads_well (smbcli_req_pull_ascii rb src byte_len st)"
proof -
  define l0 where "l0 = rb_data_size rb - (src - rb_data rb)"
  have i: "int32 l0 = l0" using assms by (simp add: l0_def wf_in_def)
  have "src + (if byte_len \<noteq> - 1 \<and> byte_len < l0 then byte_len else l0) \<le> int (length (rb_buffer rb))" using assms(1) by (auto simp: l0_def wf_in_def)
  then show ?thesis
    using assms unfolding smbcli_req_pull_ascii_def l0_def [symmetric] i Let_def [of l0]
    by (auto simp: Let_def [of "if _ then byte_len else _"] wf_in_def intro!: ascii_reads)
qed

lemma pull_blob_reads:
  assumes "wf_in rb" "- 1 \<le> byte_len" "0 \<le> src" "src < 2147483648"
  shows "\<exists>w. smbcli_req_pull_blob rb src byte_len = Some w"
proof -
  define l0 where "l0 = rb_data_size rb - (src - rb_data rb)"
  have i: "int32 l0 = l0" using assms by (simp add: l0_def wf_in_def)
  show ?thesis
    using assms unfolding smbcli_req_pull_blob_def l0_def [symmetric] i Let_def
    by (auto simp: peek_Some_iff wf_in_def) (auto simp: l0_def)
qed

lemma raw_pull_data_reads:
  assumes "wf_in rb" "0 \<le> len" "len < 4294967296"
  shows "\<exists>r. smbcli_raw_pull_data rb src len = Some r \<and> (r = None \<or> (\<exists>w. r = Some w \<and> length w = nat len))"
  using assms by (auto simp: smbcli_raw_pull_data_def smbcli_req_data_oob_def peek_def wf_in_def)

text \<open>C15. Readers of a reply. On a packet whose data lies inside its buffer, reading a string, a blob or data at
  any offset with any limit from -1 upwards ends without an access outside the buffer, whatever the
  packet contains; data is returned only with the requested length.\<close>

theorem replies_read_in_bounds:
  assumes "wf_in rb" "conv_inv st" "- 1 \<le> byte_len" "0 \<le> src" "src < 2147483647" "0 \<le> len" "len < 4294967296"
  shows "reads_well (smbcli_req_pull_string flags2 rb src byte_len flags st) \<and>
    (\<exists>w. smbcli_req_pull_blob rb src byte_len = Some w) \<and>
    (\<exists>r. smbcli_raw_pull_data rb src len = Some r \<and> (r = None \<or> (\<exists>w. r = Some w \<and> length w = nat len)))"
  using pull_ucs2_reads [OF assms(1-5)] pull_ascii_reads [OF assms(1-4)] pull_blob_reads [OF assms(1,3,4)]
    raw_pull_data_reads [OF assms(1,6,7)] assms(5) by (simp add: smbcli_req_pull_string_def)

section \<open>Strings through a packet\<close>

lemma convert_text:
  assumes "conv_inv st" "cs_unix st = ''UTF8'' \<or> cs_unix st = ''UTF-8''" "list_all scalar cps" "length (utf16 cps) \<le> out"
  shows "\<exists>st'. convert_string CH_UNIX CH_UTF16 (utf8 cps @ r) (Some (length (utf8 cps))) out st = (Some (int (length (utf16 cps)), utf16 cps), st') \<and> conv_inv st'"
proof -
  obtain d where d: "open_handle st CH_UNIX CH_UTF16 = Handle d" "ic_direct d = Some utf8_pull"
    using open_utf(1) [OF assms(2), of "cs_env st"] by (auto simp: open_handle_def)
  have "smb_iconv d (utf8 cps) out = Some (Inr 0, [], utf16 cps)" using utf8_pull_text [OF assms(3,4)] d(2) by (simp add: smb_iconv_def)
  then show ?thesis
    using get_conv_handle_inv [OF assms(1), of CH_UNIX CH_UTF16] d(1) by (auto simp: convert_string_def source_bytes_def)
qed

lemma utf_terminated: "utf8 (cps @ [0]) = utf8 cps @ [0]" "utf16 (cps @ [0]) = utf16 cps @ [0, 0]"
  by (simp_all add: utf8_def utf16_def utf8_enc_def utf16_enc_def le16_def)

lemma append_utf16:
  assumes "wf_out rb" "conv_inv st" "cs_unix st = ''UTF8'' \<or> cs_unix st = ''UTF-8''" "list_all scalar cps"
    and "rb_size rb + int (max_string_bytes (utf8 cps)) < 2147483648"
  shows "\<exists>rb' st'. smbcli_req_append_string fill strupper True (utf8 cps) STR_TERMINATE rb st =
      Some ((if odd (rb_size rb) then 1 else 0) + int (length (utf16 (cps @ [0]))), rb', st') \<and>
    grown ((if odd (rb_size rb) then [0] else []) @ utf16 (cps @ [0])) rb rb' \<and> conv_inv st'"
proof -
  let ?pad = "ucs2_align (odd (rb_size rb)) 9" and ?n = "max_string_bytes (utf8 cps)"
  let ?e = "\<lparr>ae_fill = fill, ae_strupper = strupper, ae_unicode = True\<rparr>"
  have pad: "?pad = (if odd (rb_size rb) then 1 else 0)" by (simp add: ucs2_align_def)
  have s: "list_all scalar (cps @ [0])" using assms(4) by (simp add: scalar_def)
  have "length (utf16 cps) \<le> 2 * length (utf8 cps)" using length_utf [OF assms(4)] by simp
  then have len: "length (utf16 (cps @ [0])) \<le> (?n - ?pad) div 2 * 2" "length (utf16 (cps @ [0])) + ?pad \<le> ?n"
    unfolding pad utf_terminated max_string_bytes_def by auto
  obtain st' where c: "convert_string CH_UNIX CH_UTF16 (cstring (utf8 cps)) (Some (length (utf8 cps) + 1)) ((?n - ?pad) div 2 * 2) st =
      (Some (int (length (utf16 (cps @ [0]))), utf16 (cps @ [0])), st')" "conv_inv st'"
    using convert_text [OF assms(2,3) s len(1), of "[]"] by (auto simp: utf_terminated cstring_def)
  let ?bs = "replicate ?pad 0 @ utf16 (cps @ [0])"
  have b: "string_bytes ?e (odd (rb_size rb)) (utf8 cps) 1 st = Some (int (length ?bs), ?bs, st')"
    using c(1) by (simp add: string_bytes_def push_string_def push_ucs2_def string_flags_def with_upper_def Let_def)
  obtain rb' where "smbcli_req_append_string (ae_fill ?e) (ae_strupper ?e) (ae_unicode ?e) (utf8 cps) 1 rb st = Some (int (length ?bs), rb', st')"
    "grown ?bs rb rb'"
    using append_string_data [OF assms(1) b _ assms(5)] len(2) by auto
  then show ?thesis using c(2) pad by auto
qed

text \<open>The units of a text without a NUL are found up to the end.\<close>

lemma utf16_enc_units:
  assumes "scalar cp" "cp \<noteq> 0" and n: "2 \<le> n"
  shows "utf16_units (utf16_enc cp @ r) (length (utf16_enc cp) + n) = length (utf16_enc cp) + utf16_units r n"
proof (cases "cp < 0x10000")
  case True
  have "utf16_value (utf16_enc cp) = cp" using utf16_value_enc [OF assms(1)] .
  then have "\<not> (ucast cp = (0 :: u8) \<and> ucast (drop_bit 8 cp) = (0 :: u8))"
    using assms(2) True by (auto simp: utf16_value_def utf16_enc_def le16_def)
  then show ?thesis using True n by (auto simp: utf16_enc_def le16_def)
next
  case False
  have "ucast (216 OR v :: u32) \<noteq> (0 :: u8)" "ucast (220 OR v :: u32) \<noteq> (0 :: u8)" for v
    by (auto simp: u8_eq_iff bit_simps)
  then show ?thesis using False n by (auto simp: utf16_enc_def le16_def Let_def)
qed

lemma utf16_units_text:
  assumes "list_all scalar cps" "0 \<notin> set cps" "2 \<le> n"
  shows "utf16_units (utf16 cps @ [0, 0] @ r) (length (utf16 cps) + n) = length (utf16 cps)"
  using assms
proof (induction cps)
  case (Cons cp cps)
  have "utf16_units (utf16_enc cp @ (utf16 cps @ [0, 0] @ r)) (length (utf16_enc cp) + (length (utf16 cps) + n)) =
      length (utf16_enc cp) + utf16_units (utf16 cps @ [0, 0] @ r) (length (utf16 cps) + n)"
    by (rule utf16_enc_units) (use Cons.prems in auto)
  then show ?case using Cons by (simp add: utf16_def add.assoc)
qed (simp add: utf16_def)

lemma pull_utf16:
  assumes "conv_inv st" "cs_unix st = ''UTF8'' \<or> cs_unix st = ''UTF-8''" "list_all scalar cps" "0 \<notin> set cps"
    and at: "0 \<le> src" "drop (nat src) buf = utf16 cps @ [0, 0] @ r" "int (length (utf16 cps)) + 2 \<le> n" "src + n \<le> int (length buf)" "n < 2147483648"
  shows "utf16_len_at buf src n = Some (int (length (utf16 cps)) + 2) \<and>
    (\<exists>st'. pull_convert CH_UTF16 buf src (int (length (utf16 cps)) + 2) ret st = Some ((ret (utf8 cps @ [0]), Some (utf8 cps @ [0])), st') \<and> conv_inv st')"
proof
  let ?k = "length (utf16 cps)"
  have "utf16_units (utf16 cps @ [0, 0] @ r) (?k + nat (n - int ?k)) = ?k"
    by (rule utf16_units_text [OF assms(3,4)]) (use at(3) in linarith)
  moreover have "?k + nat (n - int ?k) = nat n" using at(3) by linarith
  moreover have "length buf - nat src = ?k + 2 + length r" using arg_cong [OF at(2), of length] by simp
  ultimately show "utf16_len_at buf src n = Some (int ?k + 2)"
    using at by (auto simp: utf16_len_at_def Let_def utf16_len_n_def)
  have s: "list_all scalar (cps @ [0])" "cps @ [0] \<noteq> []" using assms(3) by (simp_all add: scalar_def)
  have "peek src (int ?k + 2) buf = Some (utf16 (cps @ [0]))" using at by (simp add: peek_def utf_terminated nat_add_distrib)
  then show "\<exists>st'. pull_convert CH_UTF16 buf src (int ?k + 2) ret st = Some ((ret (utf8 cps @ [0]), Some (utf8 cps @ [0])), st') \<and> conv_inv st'"
    using text_conversions [OF assms(1,2) s] by (auto simp: pull_convert_def utf_terminated)
qed

lemma grown_at:
  assumes "wf_out rb" "grown bs rb rb2"
  shows "\<exists>rest. drop (nat (rb_size rb)) (rb_buffer rb2) = bs @ rest"
proof -
  let ?d = "drop (nat (rb_data rb)) (rb_buffer rb2)"
  have g: "out_data rb2 = out_data rb @ bs" "rb_data rb2 = rb_data rb" using assms by (auto simp: grown_def wf_out_def)
  have w: "int (length (out_data rb)) = rb_data_size rb" "rb_data rb + rb_data_size rb = rb_size rb" "0 \<le> rb_data rb"
    using assms(1) wf_out_data [OF assms(1)] by (auto simp: wf_out_def)
  have "?d = out_data rb2 @ drop (nat (rb_data_size rb2)) ?d" unfolding out_data_def g(2) by (rule append_take_drop_id [symmetric])
  then obtain rest where "?d = out_data rb @ bs @ rest" unfolding g(1) by (metis append_assoc)
  then have "drop (length (out_data rb)) ?d = bs @ rest" by simp
  moreover have "length (out_data rb) + nat (rb_data rb) = nat (rb_size rb)" using w by linarith
  ultimately show ?thesis by auto
qed

text \<open>Strings survive a packet. A string of Unicode scalar values without NUL that is appended, terminated, to a
  packet at any offset, and followed by anything, is read back from the packet at the offset at which it was
  appended: the reader returns the string with its NUL and consumes as many bytes as were added, alignment included.\<close>

theorem string_through_packet:
  assumes "wf_out rb" "conv_inv st" "cs_unix st = ''UTF8'' \<or> cs_unix st = ''UTF-8''" "list_all scalar cps" "0 \<notin> set cps"
    and small: "rb_size rb + int (max_string_bytes (utf8 cps)) < 2147483648"
    and reader: "conv_inv st2" "cs_unix st2 = ''UTF8'' \<or> cs_unix st2 = ''UTF-8''" "flags2 AND FLAGS2_UNICODE_STRINGS \<noteq> 0"
  shows "\<exists>n rb' st'. smbcli_req_append_string fill strupper True (utf8 cps) STR_TERMINATE rb st = Some (n, rb', st') \<and>
    (\<forall>more rb2. grown more rb' rb2 \<longrightarrow> rb_size rb2 < 2147483648 \<longrightarrow>
       (\<exists>st3. smbcli_req_pull_string flags2 rb2 (rb_size rb) (- 1) STR_TERMINATE st2 = Some ((n, Some (utf8 cps @ [0])), st3)))"
proof -
  let ?al = "if odd (rb_size rb) then 1 else 0 :: int" and ?k = "int (length (utf16 cps)) + 2"
  have k: "int (length (utf16 (cps @ [0]))) = ?k" by (simp add: utf_terminated)
  obtain rb' st' where a: "smbcli_req_append_string fill strupper True (utf8 cps) 1 rb st = Some (?al + ?k, rb', st')"
    "grown ((if odd (rb_size rb) then [0] else []) @ utf16 (cps @ [0])) rb rb'"
    using append_utf16 [OF assms(1-4) small, of fill strupper] unfolding k by blast
  have "\<exists>st3. smbcli_req_pull_string flags2 rb2 (rb_size rb) (- 1) 1 st2 = Some ((?al + ?k, Some (utf8 cps @ [0])), st3)"
    if g: "grown more rb' rb2" and l: "rb_size rb2 < 2147483648" for more rb2
  proof -
    let ?b = "rb_buffer rb2"
    have g2: "grown (((if odd (rb_size rb) then [0] else []) @ utf16 (cps @ [0])) @ more) rb rb2" by (rule grown_trans [OF a(2) g])
    then have d: "wf_out rb2" "rb_data rb2 = rb_data rb"
      "rb_size rb2 = rb_size rb + ?al + ?k + int (length more)"
      using assms(1) by (auto simp: grown_def utf_terminated wf_out_def)
    have w: "0 \<le> rb_data rb" "0 \<le> rb_data_size rb" "rb_data rb + rb_data_size rb = rb_size rb" using assms(1) by (auto simp: wf_out_def)
    have w2: "rb_data rb2 + rb_data_size rb2 = rb_size rb2" "rb_size rb2 \<le> int (length ?b)" "0 \<le> rb_data_size rb2" using d(1) by (auto simp: wf_out_def)
    obtain rest where "drop (nat (rb_size rb)) ?b = (((if odd (rb_size rb) then [0] else []) @ utf16 (cps @ [0])) @ more) @ rest"
      using grown_at [OF assms(1) g2] by blast
    then have "drop (length (if odd (rb_size rb) then [0] else [] :: u8 list)) (drop (nat (rb_size rb)) ?b) = utf16 cps @ [0, 0] @ more @ rest"
      by (simp add: utf_terminated)
    moreover have "length (if odd (rb_size rb) then [0] else [] :: u8 list) + nat (rb_size rb) = nat (rb_size rb + ?al)" using w by auto
    ultimately have at: "drop (nat (rb_size rb + ?al)) ?b = utf16 cps @ [0, 0] @ more @ rest" by (simp add: add.commute)
    have sz: "0 \<le> rb_size rb" using w by linarith
    have al: "int (ucs2_align (odd (rb_size rb)) 1) = ?al" by (simp add: ucs2_align_def)
    let ?n = "rb_data_size rb2 - (rb_size rb + ?al - rb_data rb2)"
    have n: "?k \<le> ?n" "rb_size rb + ?al + ?n \<le> int (length ?b)" "?n < 2147483648" using d(2,3) w2 l sz by auto
    have i: "int32 ?n = ?n" using n by (intro int32_id) auto
    have p: "utf16_len_at ?b (rb_size rb + ?al) ?n = Some ?k \<and>
      (\<exists>st'. pull_convert CH_UTF16 ?b (rb_size rb + ?al) ?k (\<lambda>_. ?k + ?al) st2 = Some ((?k + ?al, Some (utf8 cps @ [0])), st') \<and> conv_inv st')"
      using pull_utf16 [OF reader(1,2) assms(4,5) _ at _ n(2,3), of "\<lambda>_. ?k + ?al"] n(1) sz by auto
    have neg: "\<not> ?n < 0" "\<not> ?k < 2" using n(1) by auto
    show ?thesis
      using p reader(3) neg i by (auto simp: smbcli_req_pull_string_def smbcli_req_pull_ucs2_def al Let_def)
  qed
  then show ?thesis using a(1) by blast
qed

section \<open>Two reads outside a blob\<close>

lemma usize_neg: "- 18446744073709551616 \<le> x \<Longrightarrow> x < 0 \<Longrightarrow> usize x = 18446744073709551616 + x"
  unfolding usize_def by (rule int_mod_pos_eq [of _ _ "- 1"]) auto

lemma strnlen_at_unlimited:
  assumes "0 \<le> src" "src \<le> int (length buf)" "0 \<notin> set (drop (nat src) buf)" "n < 0" "- 2147483648 \<le> n" "int (length buf) < 2147483648"
  shows "strnlen_at buf src n = None"
proof -
  have "nat (usize n) \<ge> 18446744071562067968" using assms(4,5) by (simp add: usize_neg)
  then have m: "length (drop (nat src) buf) < nat (usize n)" using assms(6) by simp
  have all: "takeWhile (\<lambda>c. c \<noteq> 0) (drop (nat src) buf) = drop (nat src) buf"
    using assms(3) unfolding takeWhile_eq_all_conv by blast
  have "strnlen (drop (nat src) buf) (nat (usize n)) = length (drop (nat src) buf)" using m by (simp add: strnlen_def all)
  then show ?thesis using m assms(1) by (simp add: strnlen_at_def Let_def)
qed

text \<open>Strings in blobs are read outside the blob in two cases. The test of the offset of the length field
  subtracts the size of the field from the length of the blob without a sign, so in a blob that is shorter than
  the field every offset passes and the field is read behind the end; and a length on the wire between
  0x80000000 and 0xFFFFFFFE becomes a negative limit of a DOS string, so that the search for its NUL has
  no limit and leaves a blob that holds none.\<close>

theorem blob_strings_read_outside:
  "(flags AND STR_LEN8BIT = 0 \<and> length blob < 4 \<longrightarrow> smbcli_blob_pull_string unicode blob len_offset str_offset flags st = None) \<and>
   (flags AND STR_LEN8BIT = 0 \<and> flags AND STR_ASCII \<noteq> 0 \<and> length blob < 2147483648 \<and> 0 \<notin> set (drop (unat str_offset) blob) \<and> unat str_offset \<le> length blob \<and>
      peek32 (uint len_offset) blob = Some n \<and> 2147483648 \<le> n \<and> n < 4294967295 \<longrightarrow>
    smbcli_blob_pull_string unicode blob len_offset str_offset flags st = None)"
proof (intro conjI impI)
  have u: "uint len_offset < 65536" using uint_lt2p [of len_offset] by simp
  have bit8: "(flags OR STR_UNICODE) AND STR_LEN8BIT = 0" if "flags AND STR_LEN8BIT = 0"
    using that by (simp add: bit.conj_disj_distrib2)
  {
    assume a: "flags AND STR_LEN8BIT = 0 \<and> length blob < 4"
    have "usize (int (length blob) - 4) = 18446744073709551616 + (int (length blob) - 4)" using a by (intro usize_neg) auto
    then have ok: "\<not> usize (int (length blob) - 4) < uint len_offset" using u by simp
    have "\<not> uint len_offset + 4 \<le> int (length blob)" using a uint_ge_0 [of len_offset] by linarith
    then have "peek32 (uint len_offset) blob = None" by (simp add: peek32_def peek_def)
    then show "smbcli_blob_pull_string unicode blob len_offset str_offset flags st = None"
      using a ok bit8 by (simp add: smbcli_blob_pull_string_def Let_def)
  next
    assume a: "flags AND STR_LEN8BIT = 0 \<and> flags AND STR_ASCII \<noteq> 0 \<and> length blob < 2147483648 \<and> 0 \<notin> set (drop (unat str_offset) blob) \<and>
      unat str_offset \<le> length blob \<and> peek32 (uint len_offset) blob = Some n \<and> 2147483648 \<le> n \<and> n < 4294967295"
    then have p: "uint len_offset + 4 \<le> int (length blob)" by (auto simp: peek32_def peek_def split: if_splits)
    then have "usize (int (length blob) - 4) = int (length blob) - 4" using a p uint_ge_0 [of len_offset] by (intro usize_id) linarith+
    then have ok: "\<not> usize (int (length blob) - 4) < uint len_offset" using p by simp
    have n: "int32 n = n - 4294967296"
    proof -
      have "(n - 2147483648) mod 4294967296 = n - 2147483648" using a by simp
      moreover have "(n + 2147483648) mod 4294967296 = (n - 2147483648) mod 4294967296" by (simp add: mod_eq_dvd_iff)
      ultimately show ?thesis by (simp add: int32_def)
    qed
    let ?s = "uint str_offset"
    have "int (unat str_offset) \<le> int (length blob)" using a unfolding of_nat_le_iff by blast
    then have at: "0 \<le> ?s" "?s \<le> int (length blob)" "nat ?s = unat str_offset" by simp_all
    have "strnlen_at blob ?s (int32 n) = None"
      by (rule strnlen_at_unlimited) (use a n at in simp_all)
    moreover have "int32 (int (length blob) - ?s) = int (length blob) - ?s" using a at by (intro int32_id) linarith+
    moreover have "int32 n < int (length blob) - ?s" "int32 n \<noteq> - 1" using n a at by simp_all
    ultimately have "smbcli_blob_pull_ascii blob ?s (int32 n) st = None"
      using at by (simp add: smbcli_blob_pull_ascii_def Let_def)
    then show "smbcli_blob_pull_string unicode blob len_offset str_offset flags st = None"
      using a ok by (simp add: smbcli_blob_pull_string_def blob_string_at_def with_extra_def Let_def)
  }
qed

theorem blob_strings_read_outside_witness:
  "smbcli_blob_pull_string (Some True) [1, 2, 3] 0 0 STR_TERMINATE utf8_state = None \<and>
   smbcli_blob_pull_string (Some True) [0xFE, 0xFF, 0xFF, 0xFF, 0x41] 0 4 STR_ASCII utf8_state = None"
  using blob_strings_read_outside [of STR_TERMINATE "[1, 2, 3]" "Some True" 0 0 utf8_state 0]
    blob_strings_read_outside [of STR_ASCII "[0xFE, 0xFF, 0xFF, 0xFF, 0x41]" "Some True" 0 4 utf8_state 4294967294]
  by (simp add: peek32_def peek_def IVAL_def SVAL_def)

section \<open>Concrete packets\<close>

definition demo_session :: smbcli_session where
  "demo_session = \<lparr>se_flags2 = 0xC801, se_pid = 0x12345, se_vuid = 3\<rparr>"

definition demo_env :: append_env where
  "demo_env = \<lparr>ae_fill = (\<lambda>_. 0xAA), ae_strupper = Some, ae_unicode = True\<rparr>"

theorem request_build_witness:
  "\<exists>req rb rb'. smbcli_request_setup (\<lambda>_. 0xAA) 7 demo_session 5 0x32 15 3 = Some req \<and>
     run_appends demo_env [Bytes [1, 2], VarBlock [9], Blob [4]] (sq_out req) utf8_state = Some (rb, utf8_state) \<and>
     smbcli_request_send rb = Some rb' \<and> out_data rb' = out_data (sq_out req) @ [1, 2, 5, 1, 0, 9, 4] \<and>
     peek16 67 (rb_buffer rb') = Some 10 \<and> smb_len (rb_buffer rb') = Some 75"
proof -
  obtain req where req: "smbcli_request_setup (\<lambda>_. 0xAA) 7 demo_session 5 0x32 15 3 = Some req"
    using setup_buffer [of 15 3 "\<lambda>_. 0xAA" 7 demo_session 5 "0x32"] by auto
  have ops: "ops_bytes demo_env [Bytes [1, 2], VarBlock [9], Blob [4]] (39 + 15 * 2 + 3) utf8_state = Some ([1, 2, 5, 1, 0, 9, 4], utf8_state)"
    by (simp add: SSVAL_def)
  show ?thesis using request_build [OF _ _ req utf8_state_inv ops] req by auto
qed

theorem replies_read_in_bounds_witness:
  "\<exists>w. smbcli_req_pull_blob (empty_buffer\<lparr>rb_buffer := [0, 0, 1, 2, 3], rb_data := 2, rb_data_size := 3\<rparr>) 3 (- 1) = Some w"
  using replies_read_in_bounds [of "empty_buffer\<lparr>rb_buffer := [0, 0, 1, 2, 3], rb_data := 2, rb_data_size := 3\<rparr>" utf8_state "- 1" 3 0 0 0]
    utf8_state_inv by (simp add: wf_in_def empty_buffer_def)

theorem string_through_packet_witness:
  "\<exists>req n rb' st' st3. smbcli_request_setup (\<lambda>_. 0xAA) 7 demo_session 5 0x32 15 0 = Some req \<and>
     smbcli_req_append_string (\<lambda>_. 0xAA) Some True [0x41, 0xC3, 0xA9] STR_TERMINATE (sq_out req) utf8_state = Some (n, rb', st') \<and>
     smbcli_req_pull_string 0x8000 rb' 69 (- 1) STR_TERMINATE utf8_state = Some ((n, Some [0x41, 0xC3, 0xA9, 0]), st3)"
proof -
  obtain req where req: "smbcli_request_setup (\<lambda>_. 0xAA) 7 demo_session 5 0x32 15 0 = Some req"
    using setup_buffer [of 15 0 "\<lambda>_. 0xAA" 7 demo_session 5 "0x32"] by auto
  note s = setup_wf [OF _ _ req]
  have t: "utf8 [0x41, 0xE9] = [0x41, 0xC3, 0xA9]" by code_simp
  have u: "cs_unix utf8_state = ''UTF8'' \<or> cs_unix utf8_state = ''UTF-8''" "list_all scalar [0x41, 0xE9]" "0 \<notin> set [0x41, 0xE9 :: u32]"
    by (simp_all add: utf8_state_def scalar_def)
  have small: "rb_size (sq_out req) + int (max_string_bytes (utf8 [0x41, 0xE9])) < 2147483648" using s(2) by (simp add: t max_string_bytes_def)
  have wf: "wf_out (sq_out req)" using s(1) by simp
  obtain n rb' st' where a: "smbcli_req_append_string (\<lambda>_. 0xAA) Some True (utf8 [0x41, 0xE9]) 1 (sq_out req) utf8_state = Some (n, rb', st')"
    and r: "\<forall>more rb2. grown more rb' rb2 \<longrightarrow> rb_size rb2 < 2147483648 \<longrightarrow>
       (\<exists>st3. smbcli_req_pull_string 0x8000 rb2 (rb_size (sq_out req)) (- 1) 1 utf8_state = Some ((n, Some (utf8 [0x41, 0xE9] @ [0])), st3))"
    using string_through_packet [OF wf utf8_state_inv u small utf8_state_inv u(1), of "0x8000" "\<lambda>_. 0xAA" Some] by auto
  obtain bs where "grown bs (sq_out req) rb'" "length bs \<le> 7"
    using append_utf16 [OF wf utf8_state_inv u(1,2) small, of "\<lambda>_. 0xAA" Some] a by (auto simp: t utf16_def utf16_enc_def le16_def)
  then have "grown [] rb' rb'" "rb_size rb' < 2147483648" using s(2) by (auto simp: grown_def)
  then show ?thesis using a r req s(2) by (auto simp: t)
qed

end
