(* ===== verification/SmbTransProps.thy ===== *)
theory SmbTransProps
  imports SmbTrans SmbRequestProps
begin

text \<open>
  The assembly of replies in parts. With packets as the transport hands them over, trans and trans2
  replies are read and stored inside their buffers, and the parts of an answer are put together in
  any order. Nttrans replies have neither property.
\<close>

section \<open>Packets of the transport\<close>

definition wf_reply :: "request_buffer \<Rightarrow> bool" where
  "wf_reply rb \<longleftrightarrow> rb_hdr rb = NBT_HDR_SIZE \<and> rb_vwv rb = NBT_HDR_SIZE + HDR_VWV \<and> 0 \<le> rb_wct rb \<and>
     rb_data rb = rb_vwv rb + 2 * rb_wct rb + 2 \<and> 0 \<le> rb_data_size rb \<and> rb_data rb + rb_data_size rb \<le> int (length (rb_buffer rb)) \<and>
     int (length (rb_buffer rb)) < 2147483648"

lemma SVAL_less: "uint (SVAL w i) < 65536"
proof -
  have "take_bit 16 (SVAL w i) = SVAL w i" by (rule bit_word_eqI) (auto simp: SVAL_def bit_simps dest: bit_imp_le_length)
  then have "uint (SVAL w i) = take_bit 16 (uint (SVAL w i))" by (metis unsigned_take_bit_eq)
  then show ?thesis using take_bit_int_less_exp [of 16 "uint (SVAL w i)"] by simp
qed

lemma peek16_Some: "0 \<le> ofs \<Longrightarrow> ofs + 2 \<le> int (length buf) \<Longrightarrow> \<exists>v. peek16 ofs buf = Some v \<and> 0 \<le> v \<and> v < 65536"
  by (simp add: peek16_def peek_def SVAL_less)

lemma peek32_Some: "0 \<le> ofs \<Longrightarrow> ofs + 4 \<le> int (length buf) \<Longrightarrow> \<exists>v. peek32 ofs buf = Some v \<and> 0 \<le> v \<and> v < 4294967296"
  using uint_lt2p [where x = "IVAL (take 4 (drop (nat ofs) buf)) 0"] by (simp add: peek32_def peek_def)

lemma vwv16_Some: "wf_reply rb \<Longrightarrow> 0 \<le> n \<Longrightarrow> n \<le> rb_wct rb \<Longrightarrow> \<exists>v. vwv16 rb n = Some v \<and> 0 \<le> v \<and> v < 65536"
  unfolding vwv16_def by (rule peek16_Some) (auto simp: wf_reply_def)

lemma those_map: "(\<And>x. x \<in> set xs \<Longrightarrow> \<exists>v. f x = Some v) \<Longrightarrow> \<exists>vs. those (map f xs) = Some vs \<and> length vs = length xs"
proof (induction xs)
  case (Cons x xs)
  then obtain v vs where "f x = Some v" "those (map f xs) = Some vs" "length vs = length xs" by fastforce
  then show ?case by simp
qed simp

section \<open>One part\<close>

definition part_range :: "int \<Rightarrow> int \<Rightarrow> nat set" where
  "part_range disp count = {nat disp..<nat (disp + count)}"

text \<open>The bytes of a part are those of the answer \<open>D\<close> at its displacement.\<close>

definition slice :: "u8 list \<Rightarrow> request_buffer \<Rightarrow> int \<Rightarrow> int \<Rightarrow> int \<Rightarrow> bool" where
  "slice D rb ofs count disp \<longleftrightarrow> 0 \<le> disp \<and> disp + count \<le> int (length D) \<and>
     take (nat count) (drop (nat (rb_hdr rb + ofs)) (rb_buffer rb)) = take (nat count) (drop (nat disp) D)"

definition agrees :: "nat set \<Rightarrow> u8 list \<Rightarrow> u8 list \<Rightarrow> bool" where
  "agrees A D mem \<longleftrightarrow> length mem = length D \<and> (\<forall>i \<in> A. i < length D \<longrightarrow> mem ! i = D ! i)"

lemma agrees_all: "agrees A D mem \<Longrightarrow> {..<length D} \<subseteq> A \<Longrightarrow> mem = D"
  by (auto simp: agrees_def intro!: nth_equalityI)

lemma in_packet:
  assumes "wf_reply rb" "\<not> raw_trans_oob rb ofs count" "0 < count"
  shows "0 \<le> rb_hdr rb + ofs \<and> rb_hdr rb + ofs + count \<le> int (length (rb_buffer rb))"
  using assms by (auto simp: wf_reply_def raw_trans_oob_def Let_def)

lemma copy_part_Some:
  assumes "wf_reply rb" "\<not> raw_trans_oob rb ofs count" "0 \<le> count" "0 \<le> disp" "disp + count \<le> int (length dest)"
  shows "\<exists>d. copy_part rb ofs count disp dest = Some d \<and> length d = length dest \<and>
    (\<forall>i. i \<notin> part_range disp count \<longrightarrow> d ! i = dest ! i) \<and>
    (\<forall>i. i < nat count \<longrightarrow> d ! (nat disp + i) = rb_buffer rb ! (nat (rb_hdr rb + ofs) + i))"
proof (cases "count = 0")
  case False
  then have c: "0 < count" using assms(3) by simp
  note p = in_packet [OF assms(1,2) c]
  obtain w where w: "peek (rb_hdr rb + ofs) count (rb_buffer rb) = Some w" using p c by (simp add: peek_def)
  note wl = peek_length [OF w]
  obtain d where d: "poke disp w dest = Some d" using assms wl by (simp add: poke_def)
  have "d ! i = dest ! i" if "i \<notin> part_range disp count" for i
    by (rule poke_outside [OF d]) (use that wl assms(3,4) in \<open>auto simp: part_range_def\<close>)
  moreover have "d ! (nat disp + i) = rb_buffer rb ! (nat (rb_hdr rb + ofs) + i)" if "i < nat count" for i
  proof -
    have "d ! (nat disp + i) = w ! (nat disp + i - nat disp)" by (rule poke_inside [OF d]) (use that wl assms(3,4) in auto)
    then show ?thesis using peek_nth [OF w that] by simp
  qed
  ultimately show ?thesis using w d poke_length [OF d] False by (auto simp: copy_part_def)
qed (simp add: copy_part_def)

lemma copy_part_agrees:
  assumes "wf_reply rb" "\<not> raw_trans_oob rb ofs count" "0 \<le> count" "slice D rb ofs count disp" "agrees A D dest"
  shows "\<exists>d. copy_part rb ofs count disp dest = Some d \<and> agrees (A \<union> part_range disp count) D d"
proof -
  have l: "length dest = length D" "0 \<le> disp" "disp + count \<le> int (length D)" using assms(4,5) by (simp_all add: slice_def agrees_def)
  obtain d where d: "copy_part rb ofs count disp dest = Some d" "length d = length dest"
    "\<forall>i. i \<notin> part_range disp count \<longrightarrow> d ! i = dest ! i" "\<forall>i. i < nat count \<longrightarrow> d ! (nat disp + i) = rb_buffer rb ! (nat (rb_hdr rb + ofs) + i)"
    using copy_part_Some [OF assms(1-3) l(2)] l by metis
  have "d ! i = D ! i" if "i \<in> A \<union> part_range disp count" "i < length D" for i
  proof (cases "i \<in> part_range disp count")
    case True
    then obtain j where j: "i = nat disp + j" "j < nat count"
      using l(2) assms(3) by (metis part_range_def atLeastLessThan_iff le_add_diff_inverse nat_add_distrib nat_add_left_cancel_less)
    have "0 < count" using j(2) by linarith
    note p = in_packet [OF assms(1,2) this]
    have "take (nat count) (drop (nat (rb_hdr rb + ofs)) (rb_buffer rb)) ! j = take (nat count) (drop (nat disp) D) ! j"
      using assms(4) by (simp add: slice_def)
    moreover have "nat (rb_hdr rb + ofs) \<le> length (rb_buffer rb)" "nat disp \<le> length D" using p l assms(3) by linarith+
    ultimately show ?thesis using d(4) j by simp
  next
    case False
    then show ?thesis using d(3) that assms(5) by (auto simp: agrees_def)
  qed
  then show ?thesis using d(1,2) l(1) by (auto simp: agrees_def)
qed

section \<open>Trans and trans2 stay in bounds\<close>

text \<open>The memory of an answer has room for the totals.\<close>

definition holds :: "int \<Rightarrow> int \<Rightarrow> trans_out \<Rightarrow> bool" where
  "holds td tp out \<longleftrightarrow> td \<le> int (length (tro_data out)) \<and> tp \<le> int (length (tro_params out))"

lemma trans2_part_Some:
  assumes "wf_reply rb" "8 \<le> rb_wct rb"
  shows "\<exists>pt. trans2_part rb = Some pt \<and> 0 \<le> pt_param_count pt \<and> 0 \<le> pt_param_disp pt \<and> 0 \<le> pt_data_count pt \<and> 0 \<le> pt_data_disp pt"
proof -
  have v: "\<exists>v. vwv16 rb n = Some v \<and> 0 \<le> v \<and> v < 65536" if "n \<in> {3, 4, 5, 6, 7, 8}" for n
    by (rule vwv16_Some [OF assms(1)]) (use that assms(2) in auto)
  obtain a b c d e f where "vwv16 rb 3 = Some a" "vwv16 rb 4 = Some b" "vwv16 rb 5 = Some c" "vwv16 rb 6 = Some d" "vwv16 rb 7 = Some e" "vwv16 rb 8 = Some f"
    "0 \<le> a" "0 \<le> c" "0 \<le> d" "0 \<le> f"
    using v [of 3] v [of 4] v [of 5] v [of 6] v [of 7] v [of 8] by auto
  then show ?thesis by (simp add: trans2_part_def)
qed

lemma trans2_lump_holds:
  assumes "wf_reply rb" "8 \<le> rb_wct rb" "holds td tp out"
  shows "(\<exists>st. trans2_lump td tp rb out = Some (Inl st)) \<or>
    (\<exists>td' tp' out'. trans2_lump td tp rb out = Some (Inr (td', tp', out')) \<and> holds td' tp' out' \<and>
       length (tro_data out') = length (tro_data out) \<and> length (tro_params out') = length (tro_params out))"
proof -
  obtain td' tp' where t: "vwv16 rb 1 = Some td'" "vwv16 rb 0 = Some tp'" using vwv16_Some [OF assms(1)] assms(2) by (metis numeral_le_one_iff order.refl order_trans zero_le_numeral zero_le_one one_le_numeral)
  obtain pt where pt: "trans2_part rb = Some pt" "0 \<le> pt_param_count pt" "0 \<le> pt_param_disp pt" "0 \<le> pt_data_count pt" "0 \<le> pt_data_disp pt"
    using trans2_part_Some [OF assms(1,2)] by blast
  let ?fits = "pt_data_count pt + pt_data_disp pt \<le> td' \<and> pt_param_count pt + pt_param_disp pt \<le> tp'"
  show ?thesis
  proof (cases "td < td' \<or> tp < tp' \<or> \<not> ?fits \<or> raw_trans_oob rb (pt_param_ofs pt) (pt_param_count pt) \<or> raw_trans_oob rb (pt_data_ofs pt) (pt_data_count pt)")
    case True
    then show ?thesis using t pt(1) by (auto simp: trans2_lump_def store_part_def)
  next
    case False
    obtain d where d: "copy_part rb (pt_data_ofs pt) (pt_data_count pt) (pt_data_disp pt) (tro_data out) = Some d" "length d = length (tro_data out)"
      using copy_part_Some [OF assms(1) _ pt(4,5)] False assms(3) unfolding holds_def by (metis add.commute not_less order_trans)
    obtain p where p: "copy_part rb (pt_param_ofs pt) (pt_param_count pt) (pt_param_disp pt) (tro_params out) = Some p" "length p = length (tro_params out)"
      using copy_part_Some [OF assms(1) _ pt(2,3)] False assms(3) unfolding holds_def by (metis add.commute not_less order_trans)
    show ?thesis using False t pt(1) d p assms(3) by (auto simp: trans2_lump_def store_part_def holds_def)
  qed
qed

lemma trans2_loop_safe:
  assumes "\<And>r. r \<in> set (req # rest) \<Longrightarrow> sq_state r = SMBCLI_REQUEST_DONE \<Longrightarrow> wf_reply (sq_in r) \<and> 8 \<le> rb_wct (sq_in r)"
    and "sq_state req = SMBCLI_REQUEST_DONE" "holds td tp out"
  shows "trans2_loop td tp req rest out = Hang \<or> (\<exists>st out'. trans2_loop td tp req rest out = Ret st out' \<and>
    length (tro_data out') = length (tro_data out) \<and> length (tro_params out') = length (tro_params out))"
  using assms
proof (induction td tp req rest out rule: trans2_loop.induct)
  case (1 td tp req rest out)
  have w: "wf_reply (sq_in req)" "8 \<le> rb_wct (sq_in req)" using "1.prems"(1,2) by auto
  consider st where "trans2_lump td tp (sq_in req) out = Some (Inl st)"
    | td' tp' out' where "trans2_lump td tp (sq_in req) out = Some (Inr (td', tp', out'))" "holds td' tp' out'"
       "length (tro_data out') = length (tro_data out)" "length (tro_params out') = length (tro_params out)"
    using trans2_lump_holds [OF w "1.prems"(3)] by blast
  then show ?case
  proof cases
    case (2 td' tp' out')
    show ?thesis
    proof (cases "td' \<le> tro_data_length out' \<and> tp' \<le> tro_params_length out'")
      case False
      show ?thesis
      proof (cases rest)
        case Nil
        then show ?thesis using 2 False by (simp add: smbcli_request_receive_more_def smbcli_request_receive_def)
      next
        case (Cons r rs)
        show ?thesis
        proof (cases "sq_state r = SMBCLI_REQUEST_DONE")
          case True
          have rm: "smbcli_request_receive_more req rest = Some (True, r, rs)" using Cons True by (simp add: smbcli_request_receive_more_def smbcli_request_receive_def)
          have "trans2_loop td' tp' r rs out' = Hang \<or> (\<exists>st out''. trans2_loop td' tp' r rs out' = Ret st out'' \<and>
             length (tro_data out'') = length (tro_data out') \<and> length (tro_params out'') = length (tro_params out'))"
            by (rule "1.IH" [OF 2(1) _ refl refl False rm]) (use Cons True 2(2) "1.prems"(1) in auto)
          then show ?thesis using 2 False rm by (subst (1 2) trans2_loop.simps) (simp del: trans2_loop.simps)
        qed (use Cons 2 False in \<open>simp add: smbcli_request_receive_more_def smbcli_request_receive_def\<close>)
      qed
    qed (use 2 in simp)
  qed simp
qed

definition sound_reply :: "smbcli_request \<Rightarrow> bool" where
  "sound_reply r \<longleftrightarrow> (sq_state r = SMBCLI_REQUEST_DONE \<longrightarrow> wf_reply (sq_in r))"

definition enough_words :: "int \<Rightarrow> smbcli_request \<Rightarrow> bool" where
  "enough_words n r \<longleftrightarrow> (sq_state r = SMBCLI_REQUEST_DONE \<longrightarrow> n \<le> rb_wct (sq_in r))"

lemma trans2_recv_start:
  assumes "sq_state req = SMBCLI_REQUEST_RECV" "rest = r # rs" "sq_state r = SMBCLI_REQUEST_DONE" "\<not> NT_STATUS_IS_ERR (sq_status r)" "wf_reply (sq_in r)"
    "10 \<le> rb_wct (sq_in r)"
  shows "\<exists>td tp n ws. vwv16 (sq_in r) 1 = Some td \<and> vwv16 (sq_in r) 0 = Some tp \<and> vwv16 (sq_in r) 9 = Some n \<and> 0 \<le> td \<and> td < 65536 \<and> 0 \<le> tp \<and> tp < 65536 \<and>
    (let out = no_output\<lparr>tro_data := map fill [0..<nat td], tro_params := map fill [0..<nat tp]\<rparr> in
     smb_raw_trans2_recv fill req rest = (if rb_wct (sq_in r) \<noteq> 10 + n mod 256 then Ret (destroy_with NT_STATUS_INVALID_PARAMETER r) out
       else trans2_loop td tp r rs (out\<lparr>tro_setup := ws\<rparr>)))"
proof -
  obtain td tp n where t: "vwv16 (sq_in r) 1 = Some td" "vwv16 (sq_in r) 0 = Some tp" "vwv16 (sq_in r) 9 = Some n" "0 \<le> td" "td < 65536" "0 \<le> tp" "tp < 65536"
    using vwv16_Some [OF assms(5), of 1] vwv16_Some [OF assms(5), of 0] vwv16_Some [OF assms(5), of 9] assms(6) by auto
  have rc: "smbcli_request_receive req rest = Some (True, r, rs)" using assms(1-3) by (simp add: smbcli_request_receive_def)
  obtain ws where ws: "rb_wct (sq_in r) = 10 + n mod 256 \<longrightarrow> those (map (vwv16 (sq_in r)) [10..9 + n mod 256]) = Some ws"
  proof (cases "rb_wct (sq_in r) = 10 + n mod 256")
    case True
    have "\<exists>v. vwv16 (sq_in r) k = Some v" if "k \<in> set [10..9 + n mod 256]" for k
      using vwv16_Some [OF assms(5), of k] that True by auto
    then show thesis using that those_map by blast
  qed simp
  have "smb_raw_trans2_recv fill req rest = (if rb_wct (sq_in r) \<noteq> 10 + n mod 256
      then Ret (destroy_with NT_STATUS_INVALID_PARAMETER r) (no_output\<lparr>tro_data := map fill [0..<nat td], tro_params := map fill [0..<nat tp]\<rparr>)
      else trans2_loop td tp r rs (no_output\<lparr>tro_data := map fill [0..<nat td], tro_params := map fill [0..<nat tp], tro_setup := ws\<rparr>))"
    using rc t(1-3) ws assms(4,6) by (simp add: smb_raw_trans2_recv_def Let_def no_output_def del: trans2_loop.simps)
  then show ?thesis using t by (auto simp: Let_def no_output_def simp del: trans2_loop.simps)
qed

text \<open>C18. Trans2 replies stay in bounds. Whatever the packets say, receiving a trans or trans2 reply reads only inside the
  packets and writes only inside the memory it allocated, provided every packet after the first has
  eight words or more (the first is tested for its ten); it returns as soon as the packets allow.\<close>

theorem trans2_recv_in_bounds:
  assumes "sq_state req = SMBCLI_REQUEST_RECV" "list_all sound_reply rest" "list_all (enough_words 8) (tl rest)"
  shows "smb_raw_trans2_recv fill req rest = Hang \<or>
    (\<exists>status out. smb_raw_trans2_recv fill req rest = Ret status out \<and> length (tro_data out) < 65536 \<and> length (tro_params out) < 65536)"
proof (cases rest)
  case Nil
  then show ?thesis using assms(1) by (simp add: smb_raw_trans2_recv_def smbcli_request_receive_def)
next
  case (Cons r rs)
  have rc: "smbcli_request_receive req rest = Some (sq_state r = SMBCLI_REQUEST_DONE, r, rs)" using assms(1) Cons by (simp add: smbcli_request_receive_def)
  show ?thesis
  proof (cases "sq_state r = SMBCLI_REQUEST_DONE \<and> \<not> NT_STATUS_IS_ERR (sq_status r) \<and> 10 \<le> rb_wct (sq_in r)")
    case True
    then have r: "sq_state r = SMBCLI_REQUEST_DONE" "\<not> NT_STATUS_IS_ERR (sq_status r)" "wf_reply (sq_in r)" "10 \<le> rb_wct (sq_in r)"
      using assms(2) Cons by (simp_all add: sound_reply_def)
    obtain td tp n ws where t: "0 \<le> td" "td < 65536" "0 \<le> tp" "tp < 65536"
      "let out = no_output\<lparr>tro_data := map fill [0..<nat td], tro_params := map fill [0..<nat tp]\<rparr> in
       smb_raw_trans2_recv fill req rest = (if rb_wct (sq_in r) \<noteq> 10 + n mod 256 then Ret (destroy_with NT_STATUS_INVALID_PARAMETER r) out
         else trans2_loop td tp r rs (out\<lparr>tro_setup := ws\<rparr>))"
      using trans2_recv_start [OF assms(1) Cons r, of fill] by blast
    define out where "out = no_output\<lparr>tro_data := map fill [0..<nat td], tro_params := map fill [0..<nat tp]\<rparr>"
    have l: "length (tro_data out) < 65536" "length (tro_params out) < 65536" "holds td tp (out\<lparr>tro_setup := ws\<rparr>)" using t by (simp_all add: out_def holds_def)
    have "trans2_loop td tp r rs (out\<lparr>tro_setup := ws\<rparr>) = Hang \<or> (\<exists>st out'. trans2_loop td tp r rs (out\<lparr>tro_setup := ws\<rparr>) = Ret st out' \<and>
       length (tro_data out') = length (tro_data (out\<lparr>tro_setup := ws\<rparr>)) \<and> length (tro_params out') = length (tro_params (out\<lparr>tro_setup := ws\<rparr>)))"
      by (rule trans2_loop_safe) (use r l assms(2,3) Cons in \<open>auto simp: list_all_iff sound_reply_def enough_words_def\<close>)
    then show ?thesis using t(5) l unfolding out_def [symmetric] Let_def by (auto simp del: trans2_loop.simps)
  next
    case False
    then show ?thesis using rc by (auto simp: smb_raw_trans2_recv_def no_output_def not_le)
  qed
qed

section \<open>The parts of an answer\<close>

text \<open>A reply that carries a part of the data \<open>D\<close> and of the parameters \<open>P\<close>.\<close>

definition delivers :: "u8 list \<Rightarrow> u8 list \<Rightarrow> smbcli_request \<Rightarrow> part \<Rightarrow> bool" where
  "delivers D P r pt \<longleftrightarrow> sq_state r = SMBCLI_REQUEST_DONE \<and> wf_reply (sq_in r) \<and> vwv16 (sq_in r) 1 = Some (int (length D)) \<and>
     vwv16 (sq_in r) 0 = Some (int (length P)) \<and> trans2_part (sq_in r) = Some pt \<and> 0 \<le> pt_data_count pt \<and> 0 \<le> pt_param_count pt \<and>
     \<not> raw_trans_oob (sq_in r) (pt_data_ofs pt) (pt_data_count pt) \<and> \<not> raw_trans_oob (sq_in r) (pt_param_ofs pt) (pt_param_count pt) \<and>
     slice D (sq_in r) (pt_data_ofs pt) (pt_data_count pt) (pt_data_disp pt) \<and>
     slice P (sq_in r) (pt_param_ofs pt) (pt_param_count pt) (pt_param_disp pt)"

definition data_sum :: "part list \<Rightarrow> int" where "data_sum pts = sum_list (map pt_data_count pts)"
definition param_sum :: "part list \<Rightarrow> int" where "param_sum pts = sum_list (map pt_param_count pts)"
definition data_cover :: "part list \<Rightarrow> nat set" where "data_cover pts = (\<Union>pt \<in> set pts. part_range (pt_data_disp pt) (pt_data_count pt))"
definition param_cover :: "part list \<Rightarrow> nat set" where "param_cover pts = (\<Union>pt \<in> set pts. part_range (pt_param_disp pt) (pt_param_count pt))"

text \<open>The parts are complete with the last and not before.\<close>

definition complete_with_last :: "int \<Rightarrow> int \<Rightarrow> part list \<Rightarrow> bool" where
  "complete_with_last nd np pts \<longleftrightarrow> data_sum pts = nd \<and> param_sum pts = np \<and>
     (\<forall>k < length pts. 0 < k \<longrightarrow> data_sum (take k pts) < nd \<or> param_sum (take k pts) < np)"

lemma delivers_lump:
  assumes "delivers D P r pt" "agrees A D (tro_data out)" "agrees B P (tro_params out)"
  shows "\<exists>out'. trans2_lump (int (length D)) (int (length P)) (sq_in r) out = Some (Inr (int (length D), int (length P), out')) \<and>
    agrees (A \<union> part_range (pt_data_disp pt) (pt_data_count pt)) D (tro_data out') \<and>
    agrees (B \<union> part_range (pt_param_disp pt) (pt_param_count pt)) P (tro_params out') \<and>
    tro_data_length out' = tro_data_length out + pt_data_count pt \<and> tro_params_length out' = tro_params_length out + pt_param_count pt"
proof -
  have r: "wf_reply (sq_in r)" "\<not> raw_trans_oob (sq_in r) (pt_data_ofs pt) (pt_data_count pt)" "0 \<le> pt_data_count pt"
    "slice D (sq_in r) (pt_data_ofs pt) (pt_data_count pt) (pt_data_disp pt)" "\<not> raw_trans_oob (sq_in r) (pt_param_ofs pt) (pt_param_count pt)"
    "0 \<le> pt_param_count pt" "slice P (sq_in r) (pt_param_ofs pt) (pt_param_count pt) (pt_param_disp pt)"
    using assms(1) by (simp_all add: delivers_def)
  obtain d where d: "copy_part (sq_in r) (pt_data_ofs pt) (pt_data_count pt) (pt_data_disp pt) (tro_data out) = Some d"
    "agrees (A \<union> part_range (pt_data_disp pt) (pt_data_count pt)) D d"
    using copy_part_agrees [OF r(1-4) assms(2)] by blast
  obtain p where p: "copy_part (sq_in r) (pt_param_ofs pt) (pt_param_count pt) (pt_param_disp pt) (tro_params out) = Some p"
    "agrees (B \<union> part_range (pt_param_disp pt) (pt_param_count pt)) P p"
    using copy_part_agrees [OF r(1,5-7) assms(3)] by blast
  have "pt_data_count pt + pt_data_disp pt \<le> int (length D)" "pt_param_count pt + pt_param_disp pt \<le> int (length P)"
    using r(4,7) by (simp_all add: slice_def add.commute)
  then show ?thesis using assms(1) r(2,5) d p by (simp add: trans2_lump_def store_part_def delivers_def)
qed

lemma delivers_loop:
  assumes "list_all2 (delivers D P) (r # rs) (pt # pts)" "agrees A D (tro_data out)" "agrees B P (tro_params out)"
    and sums: "tro_data_length out + data_sum (pt # pts) = int (length D)" "tro_params_length out + param_sum (pt # pts) = int (length P)"
    and partial: "\<And>k. k < length pts \<Longrightarrow> tro_data_length out + data_sum (take (Suc k) (pt # pts)) < int (length D) \<or>
        tro_params_length out + param_sum (take (Suc k) (pt # pts)) < int (length P)"
  shows "\<exists>out'. trans2_loop (int (length D)) (int (length P)) r (rs @ later) out = Ret (smbcli_request_destroy (Some (last (r # rs)))) out' \<and>
    agrees (A \<union> data_cover (pt # pts)) D (tro_data out') \<and> agrees (B \<union> param_cover (pt # pts)) P (tro_params out') \<and>
    tro_data_length out' = int (length D) \<and> tro_params_length out' = int (length P)"
  using assms
proof (induction rs arbitrary: r pt pts out A B)
  case Nil
  then have pts: "pts = []" by simp
  obtain out' where o: "trans2_lump (int (length D)) (int (length P)) (sq_in r) out = Some (Inr (int (length D), int (length P), out'))"
    "agrees (A \<union> part_range (pt_data_disp pt) (pt_data_count pt)) D (tro_data out')" "agrees (B \<union> part_range (pt_param_disp pt) (pt_param_count pt)) P (tro_params out')"
    "tro_data_length out' = tro_data_length out + pt_data_count pt" "tro_params_length out' = tro_params_length out + pt_param_count pt"
    using delivers_lump [of D P r pt A out B] Nil.prems by auto
  then have "tro_data_length out' = int (length D)" "tro_params_length out' = int (length P)" using Nil.prems(4,5) pts by (simp_all add: data_sum_def param_sum_def)
  then show ?case using o pts by (subst trans2_loop.simps) (simp add: data_cover_def param_cover_def)
next
  case (Cons r2 rs)
  obtain pt2 pts2 where pts: "pts = pt2 # pts2" using Cons.prems(1) by (cases pts) auto
  obtain out1 where o: "trans2_lump (int (length D)) (int (length P)) (sq_in r) out = Some (Inr (int (length D), int (length P), out1))"
    "agrees (A \<union> part_range (pt_data_disp pt) (pt_data_count pt)) D (tro_data out1)" "agrees (B \<union> part_range (pt_param_disp pt) (pt_param_count pt)) P (tro_params out1)"
    "tro_data_length out1 = tro_data_length out + pt_data_count pt" "tro_params_length out1 = tro_params_length out + pt_param_count pt"
    using delivers_lump [of D P r pt A out B] Cons.prems by auto
  have not_done: "\<not> (int (length D) \<le> tro_data_length out1 \<and> int (length P) \<le> tro_params_length out1)"
    using Cons.prems(6) [of 0] o(4,5) pts by (auto simp: data_sum_def param_sum_def)
  have "sq_state r2 = SMBCLI_REQUEST_DONE" using Cons.prems(1) pts by (simp add: delivers_def)
  then have rm: "smbcli_request_receive_more r (r2 # rs @ later) = Some (True, r2, rs @ later)" by (simp add: smbcli_request_receive_more_def smbcli_request_receive_def)
  have all: "list_all2 (delivers D P) (r2 # rs) (pt2 # pts2)" using Cons.prems(1) pts by simp
  have s: "tro_data_length out1 + data_sum (pt2 # pts2) = int (length D)" "tro_params_length out1 + param_sum (pt2 # pts2) = int (length P)"
    using Cons.prems(4,5) o(4,5) pts by (simp_all add: data_sum_def param_sum_def)
  have op: "tro_data_length out1 + data_sum (take (Suc k) (pt2 # pts2)) < int (length D) \<or>
        tro_params_length out1 + param_sum (take (Suc k) (pt2 # pts2)) < int (length P)" if "k < length pts2" for k
    using Cons.prems(6) [of "Suc k"] that o(4,5) pts by (simp add: data_sum_def param_sum_def add.assoc)
  obtain out' where "trans2_loop (int (length D)) (int (length P)) r2 (rs @ later) out1 = Ret (smbcli_request_destroy (Some (last (r2 # rs)))) out'"
    "agrees ((A \<union> part_range (pt_data_disp pt) (pt_data_count pt)) \<union> data_cover (pt2 # pts2)) D (tro_data out')"
    "agrees ((B \<union> part_range (pt_param_disp pt) (pt_param_count pt)) \<union> param_cover (pt2 # pts2)) P (tro_params out')"
    "tro_data_length out' = int (length D)" "tro_params_length out' = int (length P)"
    using Cons.IH [OF all o(2,3) s op] by blast
  moreover have "trans2_loop (int (length D)) (int (length P)) r ((r2 # rs) @ later) out = trans2_loop (int (length D)) (int (length P)) r2 (rs @ later) out1"
    by (subst trans2_loop.simps) (simp del: trans2_loop.simps add: o(1) rm if_not_P [OF not_done])
  ultimately show ?case using pts by (simp del: trans2_loop.simps add: data_cover_def param_cover_def Un_assoc)
qed

text \<open>C17. Parts of an answer. When the packets of a trans2 reply carry parts of the parameters and of the data,
  in any order, so that together they cover both and are complete with the last packet and not
  before, the reply is put together without a change: the client receives exactly the parameters and the
  data, their lengths, and the status of the last packet; further packets are not waited for.\<close>

theorem trans2_reassembles:
  assumes "sq_state req = SMBCLI_REQUEST_RECV" "list_all2 (delivers D P) (r # rs) pts"
    and first: "\<not> NT_STATUS_IS_ERR (sq_status r)" "10 \<le> rb_wct (sq_in r)" "vwv16 (sq_in r) 9 = Some n" "rb_wct (sq_in r) = 10 + n mod 256"
    and cover: "{..<length D} \<subseteq> data_cover pts" "{..<length P} \<subseteq> param_cover pts" "complete_with_last (int (length D)) (int (length P)) pts"
  shows "\<exists>out. smb_raw_trans2_recv fill req (r # rs @ later) = Ret (sq_status (last (r # rs))) out \<and> tro_data out = D \<and> tro_params out = P \<and>
    tro_data_length out = int (length D) \<and> tro_params_length out = int (length P)"
proof -
  obtain pt pts' where pts: "pts = pt # pts'" using assms(2) by (cases pts) auto
  have r: "sq_state r = SMBCLI_REQUEST_DONE" "wf_reply (sq_in r)" "vwv16 (sq_in r) 1 = Some (int (length D))" "vwv16 (sq_in r) 0 = Some (int (length P))"
    using assms(2) pts by (simp_all add: delivers_def)
  obtain ws where recv: "smb_raw_trans2_recv fill req (r # rs @ later) =
      trans2_loop (int (length D)) (int (length P)) r (rs @ later)
        (no_output\<lparr>tro_data := map fill [0..<length D], tro_params := map fill [0..<length P]\<rparr>\<lparr>tro_setup := ws\<rparr>)"
    using trans2_recv_start [OF assms(1) refl r(1) first(1) r(2) first(2), of fill "rs @ later"] r(3,4) first(3,4) by (auto simp: Let_def simp del: trans2_loop.simps)
  let ?out = "no_output\<lparr>tro_data := map fill [0..<length D], tro_params := map fill [0..<length P]\<rparr>\<lparr>tro_setup := ws\<rparr>"
  have zero: "tro_data_length ?out = 0" "tro_params_length ?out = 0" by (simp_all add: no_output_def)
  have a: "agrees {} D (tro_data ?out)" "agrees {} P (tro_params ?out)" by (simp_all add: agrees_def)
  have s: "tro_data_length ?out + data_sum (pt # pts') = int (length D)" "tro_params_length ?out + param_sum (pt # pts') = int (length P)"
    using cover(3) pts unfolding zero by (simp_all add: complete_with_last_def)
  have op: "tro_data_length ?out + data_sum (take (Suc k) (pt # pts')) < int (length D) \<or>
      tro_params_length ?out + param_sum (take (Suc k) (pt # pts')) < int (length P)" if "k < length pts'" for k
    using cover(3) pts that unfolding zero complete_with_last_def by (auto simp del: take_Suc_Cons)
  obtain out where o: "trans2_loop (int (length D)) (int (length P)) r (rs @ later) ?out = Ret (smbcli_request_destroy (Some (last (r # rs)))) out"
    "agrees ({} \<union> data_cover (pt # pts')) D (tro_data out)" "agrees ({} \<union> param_cover (pt # pts')) P (tro_params out)"
    "tro_data_length out = int (length D)" "tro_params_length out = int (length P)"
    using delivers_loop [OF _ a s op, of r rs later] assms(2) pts by auto
  have "sq_state (last (r # rs)) = SMBCLI_REQUEST_DONE"
    using assms(2) by (metis delivers_def in_set_conv_nth last_in_set list.distinct(1) list_all2_conv_all_nth)
  then have "smbcli_request_destroy (Some (last (r # rs))) = sq_status (last (r # rs))" by (simp add: smbcli_request_destroy_def)
  moreover have "tro_data out = D" "tro_params out = P" using agrees_all [OF o(2)] agrees_all [OF o(3)] cover(1,2) pts by auto
  ultimately show ?thesis using recv o(1,4,5) by metis
qed

section \<open>Nttrans\<close>

lemma nttrans_loop_later:
  "sq_state req = SMBCLI_REQUEST_DONE \<Longrightarrow> nttrans_loop k td tp rd rp req rest out = nttrans_loop k td tp rd rp req rest' out"
proof (induction k arbitrary: td tp rd rp out)
  case (Suc k)
  have rc: "smbcli_request_receive req l = Some (True, req, l)" for l using Suc.prems by (simp add: smbcli_request_receive_def)
  show ?case
  proof (cases "nttrans_lump td tp (sq_in req) out")
    case (Some x)
    then show ?thesis
    proof (cases x)
      case (Inr q)
      obtain pt td' tp' out' where "q = (pt, td', tp', out')" by (cases q) auto
      then show ?thesis using Some Inr rc Suc.IH [OF Suc.prems] by (simp add: Let_def split: option.splits)
    qed simp
  qed simp
qed simp

text \<open>Nttrans replies in parts are lost: the packets after the first are never looked at, because the wait for the next one
  is that for the first, which is over; and when the first packet announces parameters or data but
  carries none, the client takes it again for ever, whatever the server sends.\<close>

theorem nttrans_later_packets_ignored:
  assumes "sq_state req = SMBCLI_REQUEST_RECV"
  shows "smb_raw_nttrans_recv fuel fill req (r # rest) out = smb_raw_nttrans_recv fuel fill req (r # rest') out \<and>
    (sq_state r = SMBCLI_REQUEST_DONE \<and> \<not> NT_STATUS_IS_ERR (sq_status r) \<and> rb_wct (sq_in r) = 18 \<and> wf_reply (sq_in r) \<and>
     peek8 8 (rb_buffer (sq_in r)) = Some (uint SMBnttrans) \<and> peek8 72 (rb_buffer (sq_in r)) = Some 0 \<and>
     nttrans_part (sq_in r) = Some pt \<and> pt_data_count pt = 0 \<and> pt_param_count pt = 0 \<and> vwv32 (sq_in r) 3 = Some tp \<and> vwv32 (sq_in r) 7 = Some td \<and>
     0 \<le> td \<and> 0 \<le> tp \<and> 0 < td + tp \<and> 0 \<le> pt_data_disp pt \<and> pt_data_disp pt \<le> td \<and> 0 \<le> pt_param_disp pt \<and> pt_param_disp pt \<le> tp \<and> td < 4294967296 \<and> tp < 4294967296 \<longrightarrow>
     smb_raw_nttrans_recv fuel fill req (r # rest) out = Hang)"
proof (intro conjI impI)
  have rc: "smbcli_request_receive req (r # l) = Some (sq_state r = SMBCLI_REQUEST_DONE, r, l)" for l using assms by (simp add: smbcli_request_receive_def)
  show "smb_raw_nttrans_recv fuel fill req (r # rest) out = smb_raw_nttrans_recv fuel fill req (r # rest') out"
    using nttrans_loop_later [of r fuel _ _ _ _ rest _ rest'] by (cases "sq_state r = SMBCLI_REQUEST_DONE")
      (simp_all add: smb_raw_nttrans_recv_def rc Let_def split: option.split)
  assume a: "sq_state r = SMBCLI_REQUEST_DONE \<and> \<not> NT_STATUS_IS_ERR (sq_status r) \<and> rb_wct (sq_in r) = 18 \<and> wf_reply (sq_in r) \<and>
     peek8 8 (rb_buffer (sq_in r)) = Some (uint SMBnttrans) \<and> peek8 72 (rb_buffer (sq_in r)) = Some 0 \<and>
     nttrans_part (sq_in r) = Some pt \<and> pt_data_count pt = 0 \<and> pt_param_count pt = 0 \<and> vwv32 (sq_in r) 3 = Some tp \<and> vwv32 (sq_in r) 7 = Some td \<and>
     0 \<le> td \<and> 0 \<le> tp \<and> 0 < td + tp \<and> 0 \<le> pt_data_disp pt \<and> pt_data_disp pt \<le> td \<and> 0 \<le> pt_param_disp pt \<and> pt_param_disp pt \<le> tp \<and> td < 4294967296 \<and> tp < 4294967296"
  have hdr: "rb_hdr (sq_in r) + 4 = 8" "rb_vwv (sq_in r) + 35 = 72" using a by (simp_all add: wf_reply_def)
  have lump: "\<exists>u'. nttrans_lump td tp (sq_in r) u = Some (Inr (pt, td, tp, u'))" for u
    using a by (auto simp: nttrans_lump_def store_part_def raw_trans_oob_def copy_part_def)
  have rc2: "smbcli_request_receive r l = Some (True, r, l)" for l using a by (simp add: smbcli_request_receive_def)
  have loop: "nttrans_loop k td tp 0 0 r l u = Hang" for k l u
  proof (induction k arbitrary: u)
    case (Suc k)
    obtain u' where "nttrans_lump td tp (sq_in r) u = Some (Inr (pt, td, tp, u'))" using lump by blast
    then show ?case using Suc.IH [of u'] a rc2 by (auto simp: Let_def smbcli_request_is_error_def hdr)
  qed simp
  show "smb_raw_nttrans_recv fuel fill req (r # rest) out = Hang"
    using a rc loop by (simp add: smb_raw_nttrans_recv_def Let_def smbcli_request_is_error_def hdr)
qed

text \<open>Nttrans replies are stored outside the memory allocated for them: the count and the displacement of a part
  are added in 32 bits, so a displacement close to 2 to the power of 32 passes the test, and the
  bytes of the packet are written that far behind the buffer.\<close>

theorem nttrans_sum_wraps:
  assumes "sq_state req = SMBCLI_REQUEST_RECV" "sq_state r = SMBCLI_REQUEST_DONE" "\<not> NT_STATUS_IS_ERR (sq_status r)" "wf_reply (sq_in r)" "rb_wct (sq_in r) = 18"
    and words: "peek8 8 (rb_buffer (sq_in r)) = Some (uint SMBnttrans)" "peek8 72 (rb_buffer (sq_in r)) = Some 0"
      "nttrans_part (sq_in r) = Some pt" "vwv32 (sq_in r) 3 = Some tp" "vwv32 (sq_in r) 7 = Some td"
    and inside: "\<not> raw_trans_oob (sq_in r) (pt_data_ofs pt) (pt_data_count pt)" "\<not> raw_trans_oob (sq_in r) (pt_param_ofs pt) (pt_param_count pt)"
    and fits: "uint32 (pt_param_count pt + pt_param_disp pt) \<le> tp" "uint32 (pt_data_count pt + pt_data_disp pt) \<le> td"
    and wraps: "0 < pt_data_count pt" "0 < td" "td < pt_data_count pt + pt_data_disp pt"
  shows "smb_raw_nttrans_recv (Suc fuel) fill req (r # rest) out = Undef"
proof -
  have hdr: "rb_hdr (sq_in r) + 4 = 8" "rb_vwv (sq_in r) + 35 = 72" using assms(4) by (simp_all add: wf_reply_def)
  obtain w where w: "peek (rb_hdr (sq_in r) + pt_data_ofs pt) (pt_data_count pt) (rb_buffer (sq_in r)) = Some w"
    using in_packet [OF assms(4) inside(1) wraps(1)] wraps(1) by (simp add: peek_def)
  have "poke (pt_data_disp pt) w (map fill [0..<nat td]) = None" using wraps peek_length [OF w] by (auto simp: poke_def)
  then have "copy_part (sq_in r) (pt_data_ofs pt) (pt_data_count pt) (pt_data_disp pt) (map fill [0..<nat td]) = None"
    using w wraps(1) by (simp add: copy_part_def)
  then have lump: "nttrans_lump td tp (sq_in r) u = None" if "tro_data u = map fill [0..<nat td]" for u
    using that words inside fits by (simp add: nttrans_lump_def store_part_def)
  show ?thesis
    using assms(1-3,5) words wraps(2) lump
    by (simp add: smb_raw_nttrans_recv_def smbcli_request_receive_def smbcli_request_is_error_def hdr Let_def)
qed

section \<open>Concrete replies\<close>

definition demo_reply :: "u8 \<Rightarrow> u8 list \<Rightarrow> u8 list \<Rightarrow> smbcli_request" where
  "demo_reply com words bytes =
     \<lparr>sq_state = SMBCLI_REQUEST_DONE, sq_flags2 = 0, sq_status = NT_STATUS_OK, sq_mid = 1,
      sq_in = \<lparr>rb_buffer = replicate 8 0 @ [com] @ replicate 27 0 @ [of_nat (length words div 2)] @ words @ [of_nat (length bytes), 0] @ bytes,
         rb_size = int (39 + length words + length bytes), rb_allocated = int (39 + length words + length bytes), rb_hdr = 4, rb_vwv = 37,
         rb_wct = int (length words div 2), rb_data = 39 + int (length words), rb_data_size = int (length bytes), rb_ptr = 39 + int (length words)\<rparr>,
      sq_out = empty_buffer\<rparr>"

definition demo_waiting :: smbcli_request where
  "demo_waiting = (demo_reply 0 [] [])\<lparr>sq_state := SMBCLI_REQUEST_RECV\<rparr>"

text \<open>The second half of four bytes of data first, and all of two bytes of parameters; then the first half.\<close>

definition demo_part1 :: smbcli_request where
  "demo_part1 = demo_reply 0x32 ([2, 0, 4, 0, 0, 0, 2, 0, 55, 0, 0, 0, 2, 0, 57, 0, 2, 0, 0, 0]) [0x70, 0x71, 3, 4]"

definition demo_part2 :: smbcli_request where
  "demo_part2 = demo_reply 0x32 ([2, 0, 4, 0, 0, 0, 0, 0, 0, 0, 0, 0, 2, 0, 55, 0, 0, 0, 0, 0]) [1, 2]"

theorem trans2_reassembles_witness:
  "\<exists>out. smb_raw_trans2_recv (\<lambda>_. 0xAA) demo_waiting [demo_part1, demo_part2] = Ret NT_STATUS_OK out \<and> tro_data out = [1, 2, 3, 4] \<and> tro_params out = [0x70, 0x71]"
proof -
  define p1 where "p1 = \<lparr>pt_param_count = 2, pt_param_ofs = 55, pt_param_disp = 0, pt_data_count = 2, pt_data_ofs = 57, pt_data_disp = 2\<rparr>"
  define p2 where "p2 = \<lparr>pt_param_count = 0, pt_param_ofs = 0, pt_param_disp = 0, pt_data_count = 2, pt_data_ofs = 55, pt_data_disp = 0\<rparr>"
  have w: "wf_reply (sq_in demo_part1)" "wf_reply (sq_in demo_part2)" by code_simp+
  have d1: "delivers [1, 2, 3, 4] [0x70, 0x71] demo_part1 p1" unfolding delivers_def p1_def by code_simp
  have d2: "delivers [1, 2, 3, 4] [0x70, 0x71] demo_part2 p2" unfolding delivers_def p2_def by code_simp
  have st: "sq_state demo_waiting = SMBCLI_REQUEST_RECV" "\<not> NT_STATUS_IS_ERR (sq_status demo_part1)" "10 \<le> rb_wct (sq_in demo_part1)"
    "vwv16 (sq_in demo_part1) 9 = Some 0" "rb_wct (sq_in demo_part1) = 10 + 0 mod 256" "sq_status demo_part2 = NT_STATUS_OK" by code_simp+
  have c: "{..<length [1, 2, 3, 4 :: u8]} \<subseteq> data_cover [p1, p2]" "{..<length [0x70, 0x71 :: u8]} \<subseteq> param_cover [p1, p2]"
    by (auto simp: data_cover_def param_cover_def part_range_def p1_def p2_def)
  have "complete_with_last (int (length [1, 2, 3, 4 :: u8])) (int (length [0x70, 0x71 :: u8])) [p1, p2]"
    by (auto simp: complete_with_last_def data_sum_def param_sum_def p1_def p2_def less_Suc_eq)
  from trans2_reassembles [OF st(1) _ st(2-5) c this, of "[demo_part2]" "\<lambda>_. 0xAA" "[]"] d1 d2 st(6) show ?thesis by auto
qed

theorem trans2_recv_in_bounds_witness:
  "list_all (enough_words 8) [demo_part2] \<and> smb_raw_trans2_recv (\<lambda>_. 0) demo_waiting [demo_part1, demo_part2] \<noteq> Undef"
proof -
  have "sq_state demo_waiting = SMBCLI_REQUEST_RECV" by code_simp
  moreover have "list_all sound_reply [demo_part1, demo_part2]" by code_simp
  moreover have "list_all (enough_words 8) [demo_part2]" by code_simp
  ultimately show ?thesis using trans2_recv_in_bounds [of demo_waiting "[demo_part1, demo_part2]" "\<lambda>_. 0"] by auto
qed

definition demo_nttrans :: "u8 list \<Rightarrow> u8 list \<Rightarrow> smbcli_request" where
  "demo_nttrans count disp = demo_reply SMBnttrans ([0, 0, 0] @ [0, 0, 0, 0] @ [8, 0, 0, 0] @ replicate 12 0 @ count @ [71, 0, 0, 0] @ disp @ [0]) [1, 2, 3, 4]"

theorem nttrans_later_packets_ignored_witness:
  "smb_raw_nttrans_recv 1000 (\<lambda>_. 0) demo_waiting [demo_nttrans [0, 0, 0, 0] [0, 0, 0, 0], demo_nttrans [4, 0, 0, 0] [0, 0, 0, 0]] no_output = Hang"
proof -
  let ?r = "demo_nttrans [0, 0, 0, 0] [0, 0, 0, 0]"
  define pt where "pt = \<lparr>pt_param_count = 0, pt_param_ofs = 0, pt_param_disp = 0, pt_data_count = 0, pt_data_ofs = 71, pt_data_disp = 0\<rparr>"
  have st: "sq_state demo_waiting = SMBCLI_REQUEST_RECV" by code_simp
  have r: "sq_state ?r = SMBCLI_REQUEST_DONE" "\<not> NT_STATUS_IS_ERR (sq_status ?r)" "rb_wct (sq_in ?r) = 18" "wf_reply (sq_in ?r)"
    "peek8 8 (rb_buffer (sq_in ?r)) = Some (uint SMBnttrans)" "peek8 72 (rb_buffer (sq_in ?r)) = Some 0"
    "vwv32 (sq_in ?r) 3 = Some 0" "vwv32 (sq_in ?r) 7 = Some 8" by code_simp+
  have "nttrans_part (sq_in ?r) = Some pt" unfolding pt_def by code_simp
  then show ?thesis
    using nttrans_later_packets_ignored [OF st, of 1000 "\<lambda>_. 0" ?r "[demo_nttrans [4, 0, 0, 0] [0, 0, 0, 0]]" no_output "[demo_nttrans [4, 0, 0, 0] [0, 0, 0, 0]]" pt 0 8] r by (simp add: pt_def)
qed

theorem nttrans_sum_wraps_witness:
  "smb_raw_nttrans_recv 1 (\<lambda>_. 0) demo_waiting [demo_nttrans [4, 0, 0, 0] [0xFE, 0xFF, 0xFF, 0xFF]] no_output = Undef"
proof -
  let ?r = "demo_nttrans [4, 0, 0, 0] [0xFE, 0xFF, 0xFF, 0xFF]"
  define pt where "pt = \<lparr>pt_param_count = 0, pt_param_ofs = 0, pt_param_disp = 0, pt_data_count = 4, pt_data_ofs = 71, pt_data_disp = 4294967294\<rparr>"
  have st: "sq_state demo_waiting = SMBCLI_REQUEST_RECV" by code_simp
  have r: "sq_state ?r = SMBCLI_REQUEST_DONE" "\<not> NT_STATUS_IS_ERR (sq_status ?r)" "wf_reply (sq_in ?r)" "rb_wct (sq_in ?r) = 18"
    "peek8 8 (rb_buffer (sq_in ?r)) = Some (uint SMBnttrans)" "peek8 72 (rb_buffer (sq_in ?r)) = Some 0" by code_simp+
  have p: "nttrans_part (sq_in ?r) = Some pt" unfolding pt_def by code_simp
  have v: "vwv32 (sq_in ?r) 3 = Some 0" "vwv32 (sq_in ?r) 7 = Some 8" by code_simp+
  have i: "\<not> raw_trans_oob (sq_in ?r) (pt_data_ofs pt) (pt_data_count pt)" "\<not> raw_trans_oob (sq_in ?r) (pt_param_ofs pt) (pt_param_count pt)"
    "uint32 (pt_param_count pt + pt_param_disp pt) \<le> 0" "uint32 (pt_data_count pt + pt_data_disp pt) \<le> 8" unfolding pt_def by code_simp+
  show ?thesis
    using nttrans_sum_wraps [OF st r p v i, of 0 "\<lambda>_. 0" "[]" no_output] by (simp add: pt_def)
qed

end
