(* ===== verification/SmbTransSend.thy ===== *)
theory SmbTransSend
  imports SmbTrans SmbRequestProps
begin

text \<open>
  What the packets of a transaction carry. A server that follows the offsets and counts in the words
  of each packet finds the parameters and, over all packets, the data.
\<close>

section \<open>Writes into a packet\<close>

text \<open>A write in front of the count of the data, and one into the data.\<close>

lemma peek_out_head:
  assumes "wf_out rb" "q + k \<le> rb_data rb - 2"
  shows "peek q k (rb_buffer rb) = peek q k (out_head rb)"
  by (rule peek_prefix [of "nat (rb_data rb) - 2"]) (use assms in \<open>auto simp: wf_out_def out_head_def\<close>)

lemma peek_out_data:
  assumes "wf_out rb" "out_data rb = a @ b @ c"
  shows "peek (rb_data rb + int (length a)) (int (length b)) (rb_buffer rb) = Some b"
proof -
  have w: "0 \<le> rb_data rb" "0 \<le> rb_data_size rb" "rb_data rb + rb_data_size rb \<le> int (length (rb_buffer rb))" using assms(1) by (auto simp: wf_out_def)
  have "int (length a) + int (length b) \<le> rb_data_size rb" using wf_out_data [OF assms(1)] assms(2) by simp
  moreover have "take (nat (rb_data_size rb)) (drop (nat (rb_data rb)) (rb_buffer rb)) = a @ b @ c" using assms(2) by (simp add: out_data_def)
  moreover have "drop (nat (rb_data rb + int (length a))) (rb_buffer rb) = drop (length a) (drop (nat (rb_data rb)) (rb_buffer rb))"
    using w by (simp add: nat_add_distrib add.commute)
  moreover have "take (length b) (drop (length a) (take n xs)) = take (length b) (drop (length a) xs)" if "length a + length b \<le> n" for n and xs :: "u8 list"
    using that by (simp add: drop_take take_take min_def)
  ultimately have "take (length b) (drop (nat (rb_data rb + int (length a))) (rb_buffer rb)) = b"
    by (metis append_eq_conv_conj int_nat_eq nat_le_iff of_nat_add w(2) nat_int zle_int)
  then show ?thesis using w \<open>int (length a) + int (length b) \<le> rb_data_size rb\<close> by (simp add: peek_def)
qed

text \<open>The packet after writes in front of the count of the data.\<close>

lemma head_writes:
  assumes wf: "wf_out rb" and ws: "\<forall>w \<in> set ws. 4 \<le> fst w \<and> fst w + int (length (snd w)) \<le> rb_data rb - 2" and b: "pokes ws (rb_buffer rb) = Some b"
  shows "wf_out (rb\<lparr>rb_buffer := b\<rparr>) \<and> out_data (rb\<lparr>rb_buffer := b\<rparr>) = out_data rb \<and> take 4 b = take 4 (rb_buffer rb)"
proof -
  note len = pokes_length [OF b]
  have d: "39 \<le> rb_data rb" "rb_data rb = rb_vwv rb + 2 * rb_wct rb + 2" "rb_data rb \<le> int (length (rb_buffer rb))" using wf by (auto simp: wf_out_def)
  have other: "peek q k b = peek q k (rb_buffer rb)" if "0 \<le> k" "q + k \<le> 4 \<or> rb_data rb - 2 \<le> q" for q k
  proof -
    have "list_all (apart q (replicate (nat k) 0)) ws" using ws that by (fastforce simp: list_all_iff apart_def)
    from pokes_other [OF b this] show ?thesis using that(1) by simp
  qed
  have "peek16 (rb_vwv rb + 2 * rb_wct rb) b = peek16 (rb_vwv rb + 2 * rb_wct rb) (rb_buffer rb)" using other d by (simp add: peek16_def)
  then have "wf_out (rb\<lparr>rb_buffer := b\<rparr>)" using wf len by (simp add: wf_out_def)
  moreover have "peek (rb_data rb) (rb_data_size rb) b = peek (rb_data rb) (rb_data_size rb) (rb_buffer rb)"
    by (rule other) (use wf in \<open>auto simp: wf_out_def\<close>)
  then have "out_data (rb\<lparr>rb_buffer := b\<rparr>) = out_data rb" using wf len by (auto simp: wf_out_def out_data_def peek_def)
  moreover have "take 4 b = take 4 (rb_buffer rb)" using other [of 4 0] d len by (simp add: peek_def)
  ultimately show ?thesis by blast
qed

lemma data_write:
  assumes wf: "wf_out rb" and b: "poke (rb_data rb) bs (rb_buffer rb) = Some b" and l: "int (length bs) \<le> rb_data_size rb"
  shows "wf_out (rb\<lparr>rb_buffer := b\<rparr>) \<and> out_data (rb\<lparr>rb_buffer := b\<rparr>) = bs @ drop (length bs) (out_data rb) \<and> out_head (rb\<lparr>rb_buffer := b\<rparr>) = out_head rb"
proof -
  note len = poke_length [OF b]
  have d: "39 \<le> rb_data rb" "rb_data rb = rb_vwv rb + 2 * rb_wct rb + 2" "rb_data rb + rb_data_size rb \<le> int (length (rb_buffer rb))" "0 \<le> rb_data_size rb"
    using wf by (auto simp: wf_out_def)
  have b': "b = take (nat (rb_data rb)) (rb_buffer rb) @ bs @ drop (nat (rb_data rb) + length bs) (rb_buffer rb)"
    using b by (simp add: poke_def split: if_splits)
  have k: "nat (rb_data rb) \<le> length (rb_buffer rb)" using d by linarith
  have "peek16 (rb_vwv rb + 2 * rb_wct rb) b = peek16 (rb_vwv rb + 2 * rb_wct rb) (rb_buffer rb)"
    unfolding peek16_def by (subst peek_poke_other [OF b]) (use d in auto)
  then have "wf_out (rb\<lparr>rb_buffer := b\<rparr>)" using wf len by (simp add: wf_out_def)
  moreover have "out_head (rb\<lparr>rb_buffer := b\<rparr>) = out_head rb" using k by (simp add: out_head_def b' take_append)
  moreover have "drop (nat (rb_data rb)) b = bs @ drop (length bs) (drop (nat (rb_data rb)) (rb_buffer rb))" using k by (simp add: b' add.commute)
  then have "out_data (rb\<lparr>rb_buffer := b\<rparr>) = bs @ drop (length bs) (out_data rb)" using l by (simp add: out_data_def take_append drop_take nat_diff_distrib)
  ultimately show ?thesis by blast
qed

text \<open>Reading a packet that has been sent.\<close>

lemma peek_drop4:
  assumes "drop 4 xs = drop 4 ys" "length xs = length ys" "4 \<le> q"
  shows "peek q k xs = peek q k ys"
proof -
  have "drop (nat q - 4) (drop 4 xs) = drop (nat q - 4) (drop 4 ys)" using assms(1) by simp
  then have "drop (nat q) xs = drop (nat q) ys" using assms(3) by simp
  then show ?thesis using assms(2) by (simp add: peek_def)
qed

lemma length_out_head: "wf_out rb \<Longrightarrow> int (length (out_head rb)) = rb_data rb - 2"
  by (auto simp: wf_out_def out_head_def)

lemma sent_packet:
  assumes wf: "wf_out rb" and zero: "take 4 (rb_buffer rb) = [0, 0, 0, 0]"
  shows "\<exists>rb'. smbcli_request_send rb = Some rb' \<and> wf_out rb' \<and> out_data rb' = out_data rb \<and> rb_size rb' = rb_size rb \<and> rb_data rb' = rb_data rb \<and>
    rb_vwv rb' = rb_vwv rb \<and> rb_wct rb' = rb_wct rb \<and>
    (\<forall>q k. 4 \<le> q \<longrightarrow> q + k \<le> rb_data rb - 2 \<longrightarrow> peek q k (rb_buffer rb') = peek q k (rb_buffer rb))"
proof -
  have d: "39 \<le> rb_data rb" "rb_data rb \<le> int (length (rb_buffer rb))" using wf by (auto simp: wf_out_def)
  have "peek 0 4 (out_head rb) = peek 0 4 (rb_buffer rb)" using peek_out_head [OF wf, of 0 4] d by simp
  then have "peek 0 4 (out_head rb) = Some [0, 0, 0, 0]" using zero d by (simp add: peek_def)
  then obtain rb' where s: "smbcli_request_send rb = Some rb'" "wf_out rb'" "out_data rb' = out_data rb" "drop 4 (out_head rb') = drop 4 (out_head rb)"
    "rb_size rb' = rb_size rb" "rb_vwv rb' = rb_vwv rb" "rb_wct rb' = rb_wct rb"
    using send_packet [OF wf] by blast
  then have dd: "rb_data rb' = rb_data rb" using wf by (simp add: wf_out_def)
  then have l: "length (out_head rb') = length (out_head rb)" using length_out_head [OF wf] length_out_head [OF s(2)] by simp
  have "peek q k (rb_buffer rb') = peek q k (rb_buffer rb)" if "4 \<le> q" "q + k \<le> rb_data rb - 2" for q k
    using peek_out_head [OF wf that(2)] peek_out_head [OF s(2), of q k] peek_drop4 [OF s(4) l that(1)] that(2) dd by simp
  then show ?thesis using s dd by blast
qed

lemma uint_of_int16: "0 \<le> n \<Longrightarrow> n < 65536 \<Longrightarrow> uint (of_int n :: u16) = n"
  by (simp add: uint_word_of_int)

lemma peek16_word16: "peek q 2 buf = Some (word16 n) \<Longrightarrow> 0 \<le> n \<Longrightarrow> n < 65536 \<Longrightarrow> peek16 q buf = Some n"
  unfolding word16_def using peek16_SSVAL uint_of_int16 by metis

text \<open>The packet a request starts from.\<close>

lemma setup_packet:
  assumes "0 \<le> wct" "0 \<le> buflen"
  shows "\<exists>req. smbcli_request_setup fill mid session tid command wct buflen = Some req \<and> wf_out (sq_out req) \<and> rb_size (sq_out req) = 39 + 2 * wct + buflen \<and>
    rb_data_size (sq_out req) = buflen \<and> rb_data (sq_out req) = 39 + 2 * wct \<and> rb_vwv (sq_out req) = 37 \<and> rb_wct (sq_out req) = wct \<and> rb_hdr (sq_out req) = 4 \<and>
    take 4 (rb_buffer (sq_out req)) = [0, 0, 0, 0]"
proof -
  obtain req where req: "smbcli_request_setup fill mid session tid command wct buflen = Some req" "rb_vwv (sq_out req) = 37"
    using setup_buffer [OF assms, of fill mid session tid command] by auto
  note s = setup_wf [OF assms req(1)]
  have "rb_data (sq_out req) = 39 + 2 * wct" "rb_hdr (sq_out req) = 4" using s(1,3) req(2) by (auto simp: wf_out_def)
  moreover have "peek 0 4 (rb_buffer (sq_out req)) = Some [0, 0, 0, 0]" using s(9) peek_out_head [OF s(1), of 0 4] calculation(1) assms(1) by simp
  then have "take 4 (rb_buffer (sq_out req)) = [0, 0, 0, 0]" by (simp add: peek_def split: if_splits)
  ultimately show ?thesis using req s by auto
qed

section \<open>What a server reads\<close>

text \<open>The displacement and the bytes of a later packet.\<close>

definition secondary_view :: "request_buffer \<Rightarrow> (int \<times> u8 list) option" where
  "secondary_view rb =
     (case (vwv16 rb 5, vwv16 rb 6, vwv16 rb 7) of
        (Some n, Some ofs, Some disp) \<Rightarrow> map_option (Pair disp) (peek (NBT_HDR_SIZE + ofs) n (rb_buffer rb))
      | _ \<Rightarrow> None)"

definition data_bytes :: "trans_in \<Rightarrow> u8 list" where
  "data_bytes parms = (case tri_data parms of None \<Rightarrow> [] | Some d \<Rightarrow> d)"

definition param_bytes :: "trans_in \<Rightarrow> u8 list" where
  "param_bytes parms = (case tri_params parms of None \<Rightarrow> [] | Some d \<Rightarrow> d)"

lemma blob_length_bytes: "blob_length (tri_data parms) = int (length (data_bytes parms))" "blob_length (tri_params parms) = int (length (param_bytes parms))"
  by (simp_all add: blob_length_def data_bytes_def param_bytes_def split: option.split)

lemma secondary_packet:
  assumes "0 \<le> disp" "0 \<le> len" "disp + len \<le> int (length (data_bytes parms))" "int (length (data_bytes parms)) < 65536"
  shows "\<exists>rb. trans_secondary fill new_mid mid tree command parms disp len = Some rb \<and>
    secondary_view rb = Some (disp, take (nat len) (drop (nat disp) (data_bytes parms))) \<and> rb_size rb = 57 + len"
proof -
  obtain req where req: "smbcli_request_setup fill new_mid (st_session tree) (st_tid tree) (command + 1) 9 len = Some req"
    and s: "wf_out (sq_out req)" "rb_size (sq_out req) = 57 + len" "rb_data_size (sq_out req) = len" "rb_data (sq_out req) = 57" "rb_vwv (sq_out req) = 37"
      "rb_hdr (sq_out req) = 4" "take 4 (rb_buffer (sq_out req)) = [0, 0, 0, 0]"
    using setup_packet [of 9 len fill new_mid "st_session tree" "st_tid tree" "command + 1"] assms(2) by auto
  let ?rb = "sq_out req" and ?bs = "take (nat len) (drop (nat disp) (data_bytes parms))"
  define ws where "ws = (34, SSVAL mid) # at_vwv 37 [(0, word16 (blob_length (tri_params parms))), (2, word16 (blob_length (tri_data parms))),
      (4, SSVAL 0), (6, SSVAL 0), (8, SSVAL 0), (10, word16 len), (12, word16 53), (14, word16 disp), (16, SSVAL 0xFFFF)]"
  have wl: "length (word16 n) = 2" for n by (simp add: word16_def)
  have lb: "length ?bs = nat len" using assms by simp
  have bl: "57 + len \<le> int (length (rb_buffer ?rb))" using s(1-2) by (auto simp: wf_out_def)
  have small: "\<forall>w \<in> set ws. 4 \<le> fst w \<and> fst w + int (length (snd w)) \<le> rb_data ?rb - 2" by (simp add: ws_def at_vwv_def wl s(4))
  then have "\<exists>b. pokes ws (rb_buffer ?rb) = Some b" by (intro pokes_Some) (use bl assms(2) s(4) in fastforce)
  then obtain b1 where b1: "pokes ws (rb_buffer ?rb) = Some b1" by blast
  note h = head_writes [OF s(1) small b1]
  have f: "peek 47 2 b1 = Some (word16 len)" "peek 49 2 b1 = Some (word16 53)" "peek 51 2 b1 = Some (word16 disp)"
    using pokes_field [OF b1, of 6 47 "word16 len"] pokes_field [OF b1, of 7 49 "word16 53"] pokes_field [OF b1, of 8 51 "word16 disp"]
    by (simp_all add: ws_def at_vwv_def wl apart_def)
  let ?rb1 = "?rb\<lparr>rb_buffer := b1\<rparr>"
  obtain b2 where b2: "poke 57 ?bs b1 = Some b2" using bl lb assms(2) pokes_length [OF b1] by (auto simp: poke_def)
  have dw: "wf_out (?rb1\<lparr>rb_buffer := b2\<rparr>) \<and> out_data (?rb1\<lparr>rb_buffer := b2\<rparr>) = ?bs @ drop (length ?bs) (out_data ?rb1) \<and>
      out_head (?rb1\<lparr>rb_buffer := b2\<rparr>) = out_head ?rb1"
    by (rule data_write) (use h b2 s lb assms(2) in auto)
  let ?rb2 = "?rb\<lparr>rb_buffer := b2\<rparr>"
  have "length (out_data ?rb1) = length ?bs" using wf_out_data [of ?rb1] h s(3) lb by auto
  then have rb2: "wf_out ?rb2" "out_data ?rb2 = ?bs" "rb_data ?rb2 = 57" using dw s(4) by simp_all
  have f2: "peek q k b2 = peek q k b1" if "q + k \<le> 57" for q k by (rule peek_poke_other [OF b2]) (use that in simp)
  have pw: "pokes ((34, SSVAL mid) # at_vwv 37 [(0, word16 (blob_length (tri_params parms))), (2, word16 (blob_length (tri_data parms))), (4, SSVAL 0), (6, SSVAL 0), (8, SSVAL 0),
        (10, word16 len), (12, word16 (57 - 4)), (14, word16 disp), (16, SSVAL 0xFFFF)] @ (if len \<noteq> 0 then [(57, ?bs)] else [])) (rb_buffer ?rb) = Some b2"
  proof -
    have "pokes (ws @ (if len \<noteq> 0 then [(57, ?bs)] else [])) (rb_buffer ?rb) = Some b2"
      using b1 b2 bl pokes_length [OF b1] assms(2) by (auto simp: pokes_append poke_def split: if_splits)
    then show ?thesis by (simp add: ws_def del: pokes.simps)
  qed
  have "take 4 b2 = [0, 0, 0, 0]" using h s(7) f2 [of 0 4] poke_length [OF b2] bl pokes_length [OF b1] assms(2) by (simp add: peek_def)
  then obtain rb' where rb': "smbcli_request_send ?rb2 = Some rb'" "wf_out rb'" "out_data rb' = ?bs" "rb_size rb' = 57 + len" "rb_data rb' = 57" "rb_vwv rb' = 37"
    and same: "\<forall>q k. 4 \<le> q \<longrightarrow> q + k \<le> 55 \<longrightarrow> peek q k (rb_buffer rb') = peek q k b2"
    using sent_packet [OF rb2(1)] rb2 s by auto
  have v: "vwv16 rb' 5 = Some len" "vwv16 rb' 6 = Some 53" "vwv16 rb' 7 = Some disp"
    using same f f2 assms by (auto simp: vwv16_def rb'(6) intro!: peek16_word16)
  have d: "peek 57 len (rb_buffer rb') = Some ?bs" using peek_out_data [OF rb'(2), of "[]" ?bs "[]"] rb'(3,5) lb assms(2) by simp
  have "trans_secondary fill new_mid mid tree command parms disp len = Some rb'"
    using req pw rb'(1) by (simp add: trans_secondary_def s Let_def data_bytes_def [symmetric] del: pokes.simps split del: if_split cong: if_cong)
  moreover have "secondary_view rb' = Some (disp, ?bs)" using v d by (simp add: secondary_view_def)
  ultimately show ?thesis using rb'(4) by blast
qed

text \<open>Pieces with their displacements, put together when each continues the one before.\<close>

fun follow :: "int \<Rightarrow> (int \<times> u8 list) list \<Rightarrow> u8 list option" where
  "follow at [] = Some []"
| "follow at ((disp, bs) # r) = (if disp = at then map_option (append bs) (follow (at + int (length bs)) r) else None)"

lemma trans_rest_pieces:
  assumes "0 \<le> disp" "disp \<le> int (length (data_bytes parms))" "int (length (data_bytes parms)) < 65536" "0 < smb_raw_max_trans_data tree 0 mod 65536"
    and "length (data_bytes parms) - nat disp < k"
  shows "\<exists>rbs vs. trans_rest k fill mids mid tree command parms disp = Ret rbs () \<and> map secondary_view rbs = map Some vs \<and>
    follow disp vs = Some (drop (nat disp) (data_bytes parms)) \<and>
    list_all (\<lambda>rb. rb_size rb \<le> 57 + smb_raw_max_trans_data tree 0 mod 65536) rbs"
  using assms(1,2,5)
proof (induction k arbitrary: disp)
  case (Suc k)
  let ?D = "data_bytes parms" and ?m = "smb_raw_max_trans_data tree 0 mod 65536"
  show ?case
  proof (cases "disp = int (length ?D)")
    case True
    then show ?thesis using blob_length_bytes(1) by simp
  next
    case False
    define len where "len = data_share tree 0 ((int (length ?D) - disp) mod 65536)"
    have md: "(int (length ?D) - disp) mod 65536 = int (length ?D) - disp" using Suc.prems assms(3) by simp
    have len: "0 < len" "disp + len \<le> int (length ?D)" "len \<le> ?m" using assms(4) False Suc.prems unfolding len_def data_share_def md Let_def by auto
    obtain rb where rb: "trans_secondary fill (mids k) mid tree command parms disp len = Some rb"
      "secondary_view rb = Some (disp, take (nat len) (drop (nat disp) ?D))" "rb_size rb = 57 + len"
      using secondary_packet [OF Suc.prems(1) _ len(2) assms(3)] len(1) by (metis less_le)
    have nx: "(disp + len) mod 65536 = disp + len" using Suc.prems(1) len assms(3) by simp
    have nd: "nat (disp + len) = nat disp + nat len" using Suc.prems(1) len(1) by (simp add: nat_add_distrib)
    have dec: "length ?D - nat (disp + len) < k" using nd len(1,2) Suc.prems by linarith
    obtain rbs vs where r: "trans_rest k fill mids mid tree command parms (disp + len) = Ret rbs ()" "map secondary_view rbs = map Some vs"
      "follow (disp + len) vs = Some (drop (nat (disp + len)) ?D)" "list_all (\<lambda>rb. rb_size rb \<le> 57 + ?m) rbs"
      using Suc.IH [OF _ len(2) dec] len(1) Suc.prems(1) by auto
    have pl: "length (take (nat len) (drop (nat disp) ?D)) = nat len" using len(1,2) Suc.prems(1) by simp
    have "take (nat len) (drop (nat disp) ?D) @ drop (nat disp + nat len) ?D = drop (nat disp) ?D"
      by (metis append_take_drop_id drop_drop add.commute)
    then have "follow disp ((disp, take (nat len) (drop (nat disp) ?D)) # vs) = Some (drop (nat disp) ?D)"
      using r(3) nd len(1) pl by (simp add: add.commute)
    moreover have "trans_rest (Suc k) fill mids mid tree command parms disp = Ret (rb # rbs) ()"
      using rb(1) r(1) False nx unfolding trans_rest.simps blob_length_bytes Let_def len_def [symmetric] by simp
    moreover have "map secondary_view (rb # rbs) = map Some ((disp, take (nat len) (drop (nat disp) ?D)) # vs)" using rb(2) r(2) by simp
    moreover have "list_all (\<lambda>rb. rb_size rb \<le> 57 + ?m) (rb # rbs)" using r(4) rb(3) len(3) by simp
    ultimately show ?thesis by blast
  qed
qed simp

section \<open>The first packet\<close>

definition primary_view :: "request_buffer \<Rightarrow> (u8 list \<times> u8 list) option" where
  "primary_view rb =
     (case (vwv16 rb 9, vwv16 rb 10, vwv16 rb 11, vwv16 rb 12) of
        (Some np, Some pofs, Some nd, Some dofs) \<Rightarrow>
          (case (peek (NBT_HDR_SIZE + pofs) np (rb_buffer rb), peek (NBT_HDR_SIZE + dofs) nd (rb_buffer rb)) of (Some p, Some d) \<Rightarrow> Some (p, d) | _ \<Rightarrow> None)
      | _ \<Rightarrow> None)"

lemma append_opt_blob_grown:
  assumes "wf_out rb" "rb_size rb + blob_length b < 2147483648"
  shows "\<exists>rb'. append_opt_blob fill b rb = Some rb' \<and> grown (case b of None \<Rightarrow> [] | Some x \<Rightarrow> x) rb rb'"
proof (cases b)
  case (Some x)
  then obtain rb1 rb' where "smbcli_req_grow_allocation fill (int (length x) + rb_data_size rb) rb = Some rb1" "append_at fill x (int (length x)) rb1 = Some rb'" "grown x rb rb'"
    using append_room [OF assms(1) _ order.refl, of x fill] assms(2) by (auto simp: blob_length_def)
  then show ?thesis using Some by (auto simp: append_opt_blob_def smbcli_req_append_blob_def add.commute)
qed (simp add: append_opt_blob_def grown_Nil assms(1))

text \<open>The words stay where they were written when a packet grows.\<close>

lemma grown_peek:
  assumes "wf_out rb" "grown bs rb rb'" "q + k \<le> rb_data rb - 2"
  shows "peek q k (rb_buffer rb') = peek q k (rb_buffer rb)"
proof -
  have "wf_out rb'" "out_head rb' = out_head rb" "rb_data rb' = rb_data rb" using assms(1,2) by (auto simp: grown_def wf_out_def)
  then show ?thesis using peek_out_head [OF assms(1,3)] peek_out_head [of rb' q k] assms(3) by simp
qed

text \<open>The bytes of the name.\<close>

definition trans_name_bytes :: "(u8 list \<Rightarrow> u8 list option) \<Rightarrow> smb_tree \<Rightarrow> u8 \<Rightarrow> trans_in \<Rightarrow> conv_state \<Rightarrow> (int \<times> u8 list \<times> conv_state) option" where
  "trans_name_bytes strupper tree command parms st =
     (if command = SMBtrans
      then (case tri_trans_name parms of
              None \<Rightarrow> Some (0, [], st)
            | Some name \<Rightarrow> string_bytes \<lparr>ae_fill = (\<lambda>_. 0), ae_strupper = strupper, ae_unicode = st_unicode tree\<rparr> False name STR_TERMINATE st)
      else Some (0, [], st))"

lemma append_name_grown:
  assumes "wf_out rb" "conv_inv st" "trans_name_bytes strupper tree command parms st = Some (int (length nb), nb, st1)" "command = SMBtrans \<Longrightarrow> even (rb_size rb)"
    and "rb_size rb + int (case tri_trans_name parms of None \<Rightarrow> 0 | Some s \<Rightarrow> max_string_bytes s) < 2147483648"
  shows "\<exists>rb'. append_trans_name fill strupper tree command parms rb st = Some (int (length nb), rb', st1) \<and> grown nb rb rb'"
proof (cases "command = SMBtrans \<and> tri_trans_name parms \<noteq> None")
  case True
  then obtain name where n: "tri_trans_name parms = Some name" by blast
  let ?e = "\<lparr>ae_fill = fill, ae_strupper = strupper, ae_unicode = st_unicode tree\<rparr>"
  have b: "string_bytes ?e (odd (rb_size rb)) name 1 st = Some (int (length nb), nb, st1)"
    using assms(3,4) True n by (simp add: trans_name_bytes_def string_bytes_def)
  obtain rb' where "smbcli_req_append_string (ae_fill ?e) (ae_strupper ?e) (ae_unicode ?e) name 1 rb st = Some (int (length nb), rb', st1)" "grown nb rb rb'"
    using append_string_data [OF assms(1) b] string_bytes_bound [OF assms(2) b] assms(5) n by auto
  then show ?thesis using True n by (simp add: append_trans_name_def)
next
  case False
  then have "nb = [] \<and> st1 = st" using assms(3) by (auto simp: trans_name_bytes_def split: if_splits option.splits)
  then show ?thesis using False grown_Nil [OF assms(1)] by (auto simp: append_trans_name_def split: option.split)
qed

text \<open>The words that tell a server where the parameters and the data are.\<close>

lemma trans_words_fields:
  assumes "pokes (at_vwv 37 (trans_words parms n pofs dofs)) buf = Some b"
  shows "peek 55 2 b = Some (word16 (blob_length (tri_params parms)))" "peek 57 2 b = Some (word16 pofs)" "peek 59 2 b = Some (word16 n)" "peek 61 2 b = Some (word16 dofs)"
proof -
  define ws where "ws = at_vwv 37 (trans_words parms n pofs dofs)"
  have wl: "length (word16 n) = 2" for n by (simp add: word16_def)
  have f: "pokes ws buf = Some b" using assms by (simp add: ws_def)
  have i: "8 < length ws" "9 < length ws" "10 < length ws" "11 < length ws" by (simp_all add: ws_def at_vwv_def trans_words_def)
  have at: "ws ! 8 = (55, word16 (blob_length (tri_params parms)))" "ws ! 9 = (57, word16 pofs)" "ws ! 10 = (59, word16 n)" "ws ! 11 = (61, word16 dofs)"
    by (simp_all add: ws_def at_vwv_def trans_words_def)
  have ap: "list_all (apart 55 (word16 m)) (drop (Suc 8) ws)" "list_all (apart 57 (word16 m)) (drop (Suc 9) ws)"
    "list_all (apart 59 (word16 m)) (drop (Suc 10) ws)" "list_all (apart 61 (word16 m)) (drop (Suc 11) ws)" for m
    by (simp_all add: ws_def at_vwv_def trans_words_def apart_def wl list_all_iff)
  show "peek 55 2 b = Some (word16 (blob_length (tri_params parms)))" "peek 57 2 b = Some (word16 pofs)" "peek 59 2 b = Some (word16 n)" "peek 61 2 b = Some (word16 dofs)"
    using pokes_field [OF f i(1) at(1) ap(1)] pokes_field [OF f i(2) at(2) ap(2)] pokes_field [OF f i(3) at(3) ap(3)] pokes_field [OF f i(4) at(4) ap(4)] by (simp_all add: wl)
qed

lemma trans_words_inside:
  "\<forall>w \<in> set (at_vwv 37 (trans_words parms n pofs dofs)). 4 \<le> fst w \<and> fst w + int (length (snd w)) \<le> 65 + 2 * int (length (tri_setup parms))"
  by (auto simp: at_vwv_def trans_words_def word16_def)

text \<open>The part of the packet in front of the parameters.\<close>

lemma primary_head:
  assumes "wf_out rb" "rb_vwv rb = 37" "rb_wct rb = 14 + int (length (tri_setup parms))" "out_data rb = pad @ nb" "int (length pad) = padn" "take 4 (rb_buffer rb) = [0, 0, 0, 0]"
  shows "\<exists>b. pokes ((rb_data rb, replicate (nat padn) 0) # at_vwv (rb_vwv rb) (trans_words parms n pofs dofs)) (rb_buffer rb) = Some b \<and>
    wf_out (rb\<lparr>rb_buffer := b\<rparr>) \<and> out_data (rb\<lparr>rb_buffer := b\<rparr>) = replicate (nat padn) 0 @ nb \<and> take 4 b = [0, 0, 0, 0] \<and>
    peek 55 2 b = Some (word16 (blob_length (tri_params parms))) \<and> peek 57 2 b = Some (word16 pofs) \<and> peek 59 2 b = Some (word16 n) \<and> peek 61 2 b = Some (word16 dofs)"
proof -
  let ?sc = "int (length (tri_setup parms))"
  have d: "rb_data rb = 67 + 2 * ?sc" "rb_data rb + rb_data_size rb \<le> int (length (rb_buffer rb))" "0 \<le> rb_data_size rb" using assms(1-3) by (auto simp: wf_out_def)
  have ds: "rb_data_size rb = padn + int (length nb)" using wf_out_data [OF assms(1)] assms(4,5) by simp
  have np: "int (length (replicate (nat padn) (0 :: u8))) = padn" using assms(5) by simp
  obtain b1 where b1: "poke (rb_data rb) (replicate (nat padn) 0) (rb_buffer rb) = Some b1" using d ds np by (simp add: poke_def)
  have w1: "wf_out (rb\<lparr>rb_buffer := b1\<rparr>) \<and> out_data (rb\<lparr>rb_buffer := b1\<rparr>) = replicate (nat padn) 0 @ drop (length (replicate (nat padn) (0 :: u8))) (out_data rb) \<and>
      out_head (rb\<lparr>rb_buffer := b1\<rparr>) = out_head rb"
    by (rule data_write [OF assms(1) b1]) (use np ds in simp)
  have o1: "out_data (rb\<lparr>rb_buffer := b1\<rparr>) = replicate (nat padn) 0 @ nb" using w1 assms(4,5) by auto
  let ?ws = "at_vwv 37 (trans_words parms n pofs dofs)" and ?rb1 = "rb\<lparr>rb_buffer := b1\<rparr>"
  have "\<forall>w \<in> set ?ws. 0 \<le> fst w \<and> fst w + int (length (snd w)) \<le> int (length b1)"
    using trans_words_inside [of parms n pofs dofs] d poke_length [OF b1] by fastforce
  then obtain b where b: "pokes ?ws b1 = Some b" using pokes_Some by blast
  have "wf_out (?rb1\<lparr>rb_buffer := b\<rparr>) \<and> out_data (?rb1\<lparr>rb_buffer := b\<rparr>) = out_data ?rb1 \<and> take 4 b = take 4 (rb_buffer ?rb1)"
    by (rule head_writes) (use w1 b d trans_words_inside [of parms n pofs dofs] in auto)
  moreover have "take 4 b1 = take 4 (rb_buffer rb)" using b1 d by (auto simp: poke_def split: if_splits)
  ultimately show ?thesis using b1 b o1 trans_words_fields [OF b] assms(2,6) by auto
qed

lemma primary_packet:
  assumes "conv_inv st" "trans_name_bytes strupper tree command parms st = Some (int (length nb), nb, st1)"
    and name: "(case tri_trans_name parms of None \<Rightarrow> 0 | Some s \<Rightarrow> max_string_bytes s) < 1000000"
    and offsets: "70 + 2 * int (length (tri_setup parms)) + int (length nb) + int (length (param_bytes parms)) < 65536"
    and data: "int (length (data_bytes parms)) < 65536"
  shows "\<exists>rb n. trans_primary fill strupper mid tree command parms st = Some (n, rb, st1) \<and> 0 \<le> n \<and> n \<le> int (length (data_bytes parms)) \<and>
    primary_view rb = Some (param_bytes parms, take (nat n) (data_bytes parms))"
proof -
  let ?sc = "int (length (tri_setup parms))" and ?P = "param_bytes parms" and ?D = "data_bytes parms"
  define padn where "padn = trans_padding command"
  have pn: "0 \<le> padn" "padn \<le> 3" "command = SMBtrans \<Longrightarrow> padn = 1" by (simp_all add: padn_def trans_padding_def)
  obtain req where req: "smbcli_request_setup fill mid (st_session tree) (st_tid tree) command (14 + ?sc) padn = Some req"
    and s: "wf_out (sq_out req)" "rb_size (sq_out req) = 67 + 2 * ?sc + padn" "rb_data_size (sq_out req) = padn" "rb_data (sq_out req) = 67 + 2 * ?sc" "rb_vwv (sq_out req) = 37"
      "rb_wct (sq_out req) = 14 + ?sc" "rb_hdr (sq_out req) = 4" "take 4 (rb_buffer (sq_out req)) = [0, 0, 0, 0]"
    using setup_packet [of "14 + ?sc" padn fill mid "st_session tree" "st_tid tree" command] pn(1) by auto
  have even: "command = SMBtrans \<Longrightarrow> even (rb_size (sq_out req))" using s(2) pn(3) by simp
  obtain rb where rb: "append_trans_name fill strupper tree command parms (sq_out req) st = Some (int (length nb), rb, st1)" "grown nb (sq_out req) rb"
    using append_name_grown [OF s(1) assms(1,2) even, of fill] s(2) pn offsets name by auto
  then have r: "wf_out rb" "rb_vwv rb = 37" "rb_wct rb = 14 + ?sc" "out_data rb = out_data (sq_out req) @ nb" "rb_size rb = 67 + 2 * ?sc + padn + int (length nb)"
    "rb_data rb = 67 + 2 * ?sc" "rb_hdr rb = 4"
    using s by (auto simp: grown_def wf_out_def)
  have pl: "int (length (out_data (sq_out req))) = padn" using wf_out_data [OF s(1)] s(3) by simp
  have "peek 0 4 (rb_buffer rb) = peek 0 4 (rb_buffer (sq_out req))" by (rule grown_peek [OF s(1) rb(2)]) (use s in simp)
  then have z: "take 4 (rb_buffer rb) = [0, 0, 0, 0]" using s(8) s(1) r(1,6) by (auto simp: peek_def wf_out_def split: if_splits)
  define n where "n = data_share tree (int (length ?P)) (int (length ?D))"
  have n: "0 \<le> n" "n \<le> int (length ?D)" by (auto simp: n_def data_share_def Let_def)
  let ?pofs = "63 + 2 * ?sc + padn + int (length nb)"
  let ?dofs = "?pofs + int (length ?P)"
  obtain b where b: "pokes ((rb_data rb, replicate (nat padn) 0) # at_vwv (rb_vwv rb) (trans_words parms n ?pofs ?dofs)) (rb_buffer rb) = Some b"
    "wf_out (rb\<lparr>rb_buffer := b\<rparr>)" "out_data (rb\<lparr>rb_buffer := b\<rparr>) = replicate (nat padn) 0 @ nb" "take 4 b = [0, 0, 0, 0]"
    "peek 55 2 b = Some (word16 (int (length ?P)))" "peek 57 2 b = Some (word16 ?pofs)" "peek 59 2 b = Some (word16 n)" "peek 61 2 b = Some (word16 ?dofs)"
    using primary_head [OF r(1-4) pl z] unfolding blob_length_bytes(2) by blast
  let ?rb2 = "rb\<lparr>rb_buffer := b\<rparr>"
  have s2: "rb_size ?rb2 + blob_length (tri_params parms) < 2147483648" using r(5) offsets pn by (simp add: blob_length_bytes)
  obtain rb3 where rb3: "append_opt_blob fill (tri_params parms) ?rb2 = Some rb3" "grown ?P ?rb2 rb3"
    using append_opt_blob_grown [OF b(2) s2, of fill] by (auto simp: param_bytes_def)
  have bl: "blob_length (map_option (take (nat n)) (tri_data parms)) = n" "(case map_option (take (nat n)) (tri_data parms) of None \<Rightarrow> [] | Some x \<Rightarrow> x) = take (nat n) ?D"
    using n by (auto simp: blob_length_def data_bytes_def split: option.splits)
  have w3: "wf_out rb3" "rb_size rb3 + blob_length (map_option (take (nat n)) (tri_data parms)) < 2147483648"
    using rb3(2) r(5) offsets pn n data unfolding bl by (auto simp: grown_def)
  obtain rb4 where rb4: "append_opt_blob fill (map_option (take (nat n)) (tri_data parms)) rb3 = Some rb4" "grown (take (nat n) ?D) rb3 rb4"
    using append_opt_blob_grown [OF w3, of fill] unfolding bl(2) by blast
  have g: "grown (?P @ take (nat n) ?D) ?rb2 rb4" by (rule grown_trans [OF rb3(2) rb4(2)])
  have same4: "peek q k (rb_buffer rb4) = peek q k b" if "q + k \<le> 65 + 2 * ?sc" for q k
    using grown_peek [OF b(2) g, of q k] that r(6) by simp
  have "peek 0 4 (rb_buffer rb4) = Some [0, 0, 0, 0]" using same4 [of 0 4] b(2,4) r(6) by (auto simp: peek_def wf_out_def)
  then have z4: "take 4 (rb_buffer rb4) = [0, 0, 0, 0]" by (simp add: peek_def split: if_splits)
  have w4: "wf_out rb4" "rb_data rb4 = 67 + 2 * ?sc" "rb_vwv rb4 = 37" "out_data rb4 = (replicate (nat padn) 0 @ nb) @ ?P @ take (nat n) ?D"
    using g b(2,3) r(2,6) by (auto simp: grown_def wf_out_def)
  obtain rb5 where rb5: "smbcli_request_send rb4 = Some rb5" "wf_out rb5" "out_data rb5 = out_data rb4" "rb_data rb5 = rb_data rb4" "rb_vwv rb5 = rb_vwv rb4"
    and same5: "\<forall>q k. 4 \<le> q \<longrightarrow> q + k \<le> rb_data rb4 - 2 \<longrightarrow> peek q k (rb_buffer rb5) = peek q k (rb_buffer rb4)"
    using sent_packet [OF w4(1) z4] by blast
  have f: "peek q 2 (rb_buffer rb5) = peek q 2 b" if "4 \<le> q" "q \<le> 61" for q using same5 same4 [of q 2] that w4(2) by simp
  have v: "vwv16 rb5 9 = Some (int (length ?P))" "vwv16 rb5 10 = Some ?pofs" "vwv16 rb5 11 = Some n" "vwv16 rb5 12 = Some ?dofs"
    using f b(5-8) n offsets data pn by (auto simp: vwv16_def rb5(5) w4(3) intro!: peek16_word16)
  have lp: "int (length (replicate (nat padn) (0 :: u8) @ nb)) = padn + int (length nb)" using pn(1) by simp
  have p: "peek (4 + ?pofs) (int (length ?P)) (rb_buffer rb5) = Some ?P"
    using peek_out_data [OF rb5(2), of "replicate (nat padn) 0 @ nb" ?P "take (nat n) ?D"] rb5(3,4) w4(2,4) lp by (simp add: algebra_simps)
  have ld: "int (length (take (nat n) ?D)) = n" using n by simp
  have "peek (rb_data rb5 + int (length ((replicate (nat padn) 0 @ nb) @ ?P))) (int (length (take (nat n) ?D))) (rb_buffer rb5) = Some (take (nat n) ?D)"
    by (rule peek_out_data [OF rb5(2), of _ _ "[]"]) (use rb5(3) w4(4) in simp)
  then have d: "peek (4 + ?dofs) n (rb_buffer rb5) = Some (take (nat n) ?D)" unfolding ld using rb5(4) w4(2) lp by (simp add: algebra_simps)
  have "trans_primary fill strupper mid tree command parms st = Some (n, rb5, st1)"
    using req rb(1) b(1) rb3(1) rb4(1) rb5(1) r(6,7)
    by (simp add: trans_primary_def Let_def padn_def [symmetric] blob_length_bytes n_def [symmetric] algebra_simps del: pokes.simps)
  moreover have "primary_view rb5 = Some (?P, take (nat n) ?D)" using v p d by (simp add: primary_view_def)
  ultimately show ?thesis using n by blast
qed

text \<open>C16. A transaction reaches the server whole. For trans and trans2 requests with parameters and data of at most 65535 bytes, whose
  offsets fit into 16 bits, on a connection that leaves room for at least one byte of data in a packet, the
  client sends its packets and returns: the first carries all parameters, and the data of the first and of the later
  packets, each at its displacement, continue one another and are together the data of the request.\<close>

theorem trans_send_delivers:
  assumes "conv_inv st" "trans_name_bytes strupper tree command parms st = Some (int (length nb), nb, st1)"
    and name: "(case tri_trans_name parms of None \<Rightarrow> 0 | Some s \<Rightarrow> max_string_bytes s) < 1000000"
    and offsets: "70 + 2 * int (length (tri_setup parms)) + int (length nb) + int (length (param_bytes parms)) < 65536"
    and data: "int (length (data_bytes parms)) < 65536" "0 < smb_raw_max_trans_data tree 0 mod 65536" "length (data_bytes parms) < fuel"
  shows "\<exists>rb rbs d vs. smb_raw_trans_send_backend fuel fill strupper mids mid True tree command parms st = Ret (Some (rb # rbs)) st1 \<and>
    primary_view rb = Some (param_bytes parms, d) \<and> map secondary_view rbs = map Some vs \<and> follow 0 ((0, d) # vs) = Some (data_bytes parms) \<and>
    list_all (\<lambda>rb. rb_size rb \<le> 57 + smb_raw_max_trans_data tree 0 mod 65536) rbs"
proof -
  let ?D = "data_bytes parms"
  obtain rb n where rb: "trans_primary fill strupper mid tree command parms st = Some (n, rb, st1)" "0 \<le> n" "n \<le> int (length ?D)"
    "primary_view rb = Some (param_bytes parms, take (nat n) ?D)"
    using primary_packet [OF assms(1-5)] by blast
  have "length ?D - nat n < fuel" using data(3) by linarith
  then obtain rbs vs where r: "trans_rest fuel fill mids mid tree command parms n = Ret rbs ()" "map secondary_view rbs = map Some vs"
    "follow n vs = Some (drop (nat n) ?D)" "list_all (\<lambda>rb. rb_size rb \<le> 57 + smb_raw_max_trans_data tree 0 mod 65536) rbs"
    using trans_rest_pieces [OF rb(2,3) data(1,2)] by blast
  have "int (length (take (nat n) ?D)) = n" using rb(2,3) by simp
  then have "follow 0 ((0, take (nat n) ?D) # vs) = Some ?D" using r(3) by (simp only: follow.simps add_0) simp
  moreover have "blob_length (tri_params parms) \<le> 65535" "blob_length (tri_data parms) \<le> 65535" using offsets data(1) by (simp_all add: blob_length_bytes)
  then have "smb_raw_trans_send_backend fuel fill strupper mids mid True tree command parms st = Ret (Some (rb # rbs)) st1"
    using rb(1) r(1) by (simp add: smb_raw_trans_send_backend_def)
  ultimately show ?thesis using rb(4) r(2,4) by blast
qed

text \<open>Without room for data the client never returns: when what the limit of the connection leaves for data is a multiple of 65536,
  as it is for a limit of exactly 70 bytes, the rest of the data is sent in packets without any,
  for ever.\<close>

theorem trans_send_spins:
  assumes "smb_raw_max_trans_data tree 0 mod 65536 = 0" "0 \<le> disp" "disp < blob_length (tri_data parms)" "blob_length (tri_data parms) < 65536"
  shows "trans_rest fuel fill mids mid tree command parms disp = Hang"
proof (induction fuel)
  case (Suc k)
  have z: "data_share tree 0 ((blob_length (tri_data parms) - disp) mod 65536) = 0" using assms by (simp add: data_share_def Let_def)
  obtain rb where "trans_secondary fill (mids k) mid tree command parms disp 0 = Some rb"
    using secondary_packet [of disp 0 parms fill "mids k" mid tree command] assms(2-4) by (auto simp: blob_length_bytes)
  moreover have "(disp + 0) mod 65536 = disp" using assms(2-4) by simp
  ultimately show ?case using assms(3) Suc z by simp
qed simp

section \<open>A concrete transaction\<close>

definition demo_tree :: "int \<Rightarrow> smb_tree" where
  "demo_tree limit = \<lparr>st_session = demo_session, st_tid = 5, st_unicode = True, st_max_xmit = limit\<rparr>"

definition demo_trans :: trans_in where
  "demo_trans = \<lparr>tri_max_param = 2, tri_max_data = 100, tri_max_setup = 0, tri_flags = 0, tri_timeout = 0, tri_setup = [7], tri_trans_name = None,
     tri_params = Some [1], tri_data = Some [11, 12, 13, 14, 15]\<rparr>"

theorem trans_send_delivers_witness:
  "\<exists>rb rbs d vs. smb_raw_trans_send_backend 10 (\<lambda>_. 0) Some (\<lambda>_. 9) 8 True (demo_tree 72) SMBtrans2 demo_trans utf8_state = Ret (Some (rb # rbs)) utf8_state \<and>
     primary_view rb = Some ([1], d) \<and> map secondary_view rbs = map Some vs \<and> follow 0 ((0, d) # vs) = Some [11, 12, 13, 14, 15] \<and> rbs \<noteq> []"
proof -
  have n: "trans_name_bytes Some (demo_tree 72) SMBtrans2 demo_trans utf8_state = Some (int (length ([] :: u8 list)), [], utf8_state)"
    by (simp add: trans_name_bytes_def)
  have b: "param_bytes demo_trans = [1]" "data_bytes demo_trans = [11, 12, 13, 14, 15]" by (simp_all add: param_bytes_def data_bytes_def demo_trans_def)
  have s: "(case tri_trans_name demo_trans of None \<Rightarrow> 0 | Some s \<Rightarrow> max_string_bytes s) < 1000000"
    "70 + 2 * int (length (tri_setup demo_trans)) + int (length ([] :: u8 list)) + int (length (param_bytes demo_trans)) < 65536"
    "int (length (data_bytes demo_trans)) < 65536" "0 < smb_raw_max_trans_data (demo_tree 72) 0 mod 65536" "length (data_bytes demo_trans) < 10"
    by (simp_all add: param_bytes_def data_bytes_def demo_trans_def demo_tree_def smb_raw_max_trans_data_def)
  obtain rb rbs d vs where r: "smb_raw_trans_send_backend 10 (\<lambda>_. 0) Some (\<lambda>_. 9) 8 True (demo_tree 72) SMBtrans2 demo_trans utf8_state = Ret (Some (rb # rbs)) utf8_state"
    "primary_view rb = Some (param_bytes demo_trans, d)" "map secondary_view rbs = map Some vs" "follow 0 ((0, d) # vs) = Some (data_bytes demo_trans)"
    using trans_send_delivers [OF utf8_state_inv n s, of "\<lambda>_. 0" "\<lambda>_. 9" 8] by blast
  have "rbs \<noteq> []"
  proof
    assume e: "rbs = []"
    obtain rb' k where p: "trans_primary (\<lambda>_. 0) Some 8 (demo_tree 72) SMBtrans2 demo_trans utf8_state = Some (k, rb', utf8_state)"
      "primary_view rb' = Some (param_bytes demo_trans, take (nat k) (data_bytes demo_trans))"
      using primary_packet [OF utf8_state_inv n s(1-3), of "\<lambda>_. 0" 8] by blast
    have "k = data_share (demo_tree 72) 1 5" using p(1) by (auto simp: trans_primary_def Let_def blob_length_bytes b bind_eq_Some_conv)
    then have "k = 1" by (simp add: data_share_def smb_raw_max_trans_data_def demo_tree_def)
    moreover have "rb' = rb" using r(1) p(1) by (auto simp: smb_raw_trans_send_backend_def blob_length_bytes b split: if_splits res.splits)
    ultimately show False using p(2) r(2-4) e by (simp add: b)
  qed
  then show ?thesis using r by (auto simp: b)
qed

theorem trans_send_spins_witness:
  "trans_rest 1000 (\<lambda>_. 0) (\<lambda>_. 9) 8 (demo_tree 70) SMBtrans2 demo_trans 0 = Hang"
  by (rule trans_send_spins) (simp_all add: demo_tree_def demo_trans_def smb_raw_max_trans_data_def blob_length_def)

end
