(* ===== verification/Digest.thy ===== *)
theory Digest
  imports WxPrelude
begin

text \<open>
  Iterated hash functions with blocks of 64 bytes, independently of any code: a message is padded with
  one bit, zeros and its length to a multiple of the block size, the blocks are absorbed one after the
  other, and the state at the end is the digest. The locale \<open>digest\<close> is what an implementation in
  pieces promises; the keyed hash of RFC 2104 is computed by any implementation that keeps it.
\<close>

section \<open>Blocks\<close>

fun absorb :: "('s \<Rightarrow> u8 list \<Rightarrow> 's) \<Rightarrow> 's \<Rightarrow> u8 list \<Rightarrow> 's" where
  "absorb f s m = (if length m < 64 then s else absorb f (f s (take 64 m)) (drop 64 m))"

declare absorb.simps [simp del]

definition pad64 :: "(nat \<Rightarrow> u8 list) \<Rightarrow> u8 list \<Rightarrow> u8 list" where
  "pad64 enc m = m @ [0x80] @ replicate ((119 - length m mod 64) mod 64) 0 @ enc (length m)"

definition md_hash :: "('s \<Rightarrow> u8 list \<Rightarrow> 's) \<Rightarrow> 's \<Rightarrow> (nat \<Rightarrow> u8 list) \<Rightarrow> ('s \<Rightarrow> u8 list) \<Rightarrow> u8 list \<Rightarrow> u8 list" where
  "md_hash f iv enc fin m = fin (absorb f iv (pad64 enc m))"

text \<open>The whole blocks of a message, and the rest.\<close>

definition full :: "u8 list \<Rightarrow> u8 list" where "full m = take (64 * (length m div 64)) m"
definition rest :: "u8 list \<Rightarrow> u8 list" where "rest m = drop (64 * (length m div 64)) m"

lemma full_rest: "full m @ rest m = m"
  by (simp add: full_def rest_def)

lemma length_full: "length (full m) = 64 * (length m div 64)"
  by (simp add: full_def)

lemma length_rest: "length (rest m) = length m mod 64"
  by (simp add: rest_def minus_mult_div_eq_mod)

lemma full_rest_short: "length m < 64 \<Longrightarrow> full m = [] \<and> rest m = m"
  by (simp add: full_def rest_def)

lemma full_rest_aligned:
  assumes "64 dvd length m"
  shows "full (m @ x) = m @ full x" "rest (m @ x) = rest x"
proof -
  obtain k where k: "length m = 64 * k" using assms by (auto simp: dvd_def)
  then have "64 * (length (m @ x) div 64) = length m + 64 * (length x div 64)" by simp
  then show "full (m @ x) = m @ full x" "rest (m @ x) = rest x" by (simp_all add: full_def rest_def)
qed

lemma absorb_short: "length m < 64 \<Longrightarrow> absorb f s m = s"
  by (subst absorb.simps) simp

lemma absorb_block: "length b = 64 \<Longrightarrow> absorb f s (b @ m) = absorb f (f s b) m"
  by (subst absorb.simps) simp

lemma absorb_append: "64 dvd length a \<Longrightarrow> absorb f s (a @ b) = absorb f (absorb f s a) b"
proof (induction f s a rule: absorb.induct)
  case (1 f s a)
  show ?case
  proof (cases "length a < 64")
    case True
    then have "a = []" using 1(2) by (auto dest: dvd_imp_le)
    then show ?thesis by (simp add: absorb_short)
  next
    case False
    have "absorb f (f s (take 64 a)) (drop 64 a @ b) = absorb f (absorb f (f s (take 64 a)) (drop 64 a)) b"
      using 1 False by (simp add: dvd_diff_nat)
    moreover have "absorb f s (a @ b) = absorb f (f s (take 64 a)) (drop 64 a @ b)" using False by (subst absorb.simps) simp
    moreover have "absorb f s a = absorb f (f s (take 64 a)) (drop 64 a)" using False by (subst absorb.simps) simp
    ultimately show ?thesis by simp
  qed
qed

lemma absorb_full: "absorb f s (full m) = absorb f s m"
proof -
  have "absorb f s (full m @ rest m) = absorb f (absorb f s (full m)) (rest m)" by (rule absorb_append) (simp add: length_full)
  then show ?thesis by (simp add: full_rest absorb_short length_rest)
qed

text \<open>Completing the block that has been started.\<close>

lemma absorb_complete:
  assumes "length x = 64 - length m mod 64" "length m mod 64 \<noteq> 0"
  shows "absorb f s (m @ x) = f (absorb f s m) (rest m @ x)" "64 dvd length (m @ x)"
proof -
  have "absorb f s (m @ x) = absorb f s (full m @ (rest m @ x))" by (metis append_assoc full_rest)
  also have "\<dots> = absorb f (absorb f s (full m)) (rest m @ x)" by (rule absorb_append) (simp add: length_full)
  also have "\<dots> = f (absorb f s m) (rest m @ x)"
    using absorb_block [of "rest m @ x" f "absorb f s m" "[]"] assms by (simp add: length_rest absorb_full absorb_short)
  finally show "absorb f s (m @ x) = f (absorb f s m) (rest m @ x)" .
  have "length m = 64 * (length m div 64) + length m mod 64" "length m mod 64 < 64" by simp_all
  then have "length (m @ x) = 64 * (length m div 64) + 64" unfolding length_append assms(1) by linarith
  then show "64 dvd length (m @ x)" by simp
qed

text \<open>The blocks of the padding.\<close>

lemma absorb_pad:
  assumes "\<And>n. length (enc n) = 8"
  shows "absorb f s (pad64 enc m) =
    (if length m mod 64 < 56 then f (absorb f s m) (rest m @ [0x80] @ replicate (55 - length m mod 64) 0 @ enc (length m))
     else f (f (absorb f s m) (rest m @ [0x80] @ replicate (63 - length m mod 64) 0)) (replicate 56 0 @ enc (length m)))"
proof -
  let ?t = "length m mod 64" and ?z = "(119 - length m mod 64) mod 64"
  have t: "?t < 64" by simp
  have "absorb f s (pad64 enc m) = absorb f s (full m @ (rest m @ [0x80] @ replicate ?z 0 @ enc (length m)))"
    unfolding pad64_def by (metis append_assoc full_rest)
  also have "\<dots> = absorb f (absorb f s (full m)) (rest m @ [0x80] @ replicate ?z 0 @ enc (length m))" by (rule absorb_append) (simp add: length_full)
  finally have eq: "absorb f s (pad64 enc m) = absorb f (absorb f s m) (rest m @ [0x80] @ replicate ?z 0 @ enc (length m))" by (simp add: absorb_full)
  show ?thesis
  proof (cases "?t < 56")
    case True
    then have "119 - ?t = 64 + (55 - ?t)" by linarith
    moreover have "55 - ?t < 64" by simp
    ultimately have z: "?z = 55 - ?t" by (metis mod_add_self1 mod_less)
    then show ?thesis using eq True absorb_block [of "rest m @ [0x80] @ replicate ?z 0 @ enc (length m)" f "absorb f s m" "[]"] assms
      by (simp add: length_rest absorb_short)
  next
    case False
    then have "119 - ?t < 64" "119 - ?t = (63 - ?t) + 56" using t by linarith+
    then have z: "?z = (63 - ?t) + 56" by (metis mod_less)
    have "replicate ?z 0 = replicate (63 - ?t) 0 @ (replicate 56 0 :: u8 list)" unfolding z by (rule replicate_add)
    then have "absorb f s (pad64 enc m) = absorb f (absorb f s m) ((rest m @ [0x80] @ replicate (63 - ?t) 0) @ (replicate 56 0 @ enc (length m)))"
      using eq by simp
    also have "\<dots> = absorb f (f (absorb f s m) (rest m @ [0x80] @ replicate (63 - ?t) 0)) (replicate 56 0 @ enc (length m))"
      by (rule absorb_block) (use False t in \<open>simp add: length_rest\<close>)
    also have "\<dots> = f (f (absorb f s m) (rest m @ [0x80] @ replicate (63 - ?t) 0)) (replicate 56 0 @ enc (length m))"
      using absorb_block [of "replicate 56 0 @ enc (length m)" f _ "[]"] assms by (simp add: absorb_short)
    finally show ?thesis using False by simp
  qed
qed

section \<open>Hashing in pieces\<close>

text \<open>
  \<open>rep c m\<close>: the context \<open>c\<close> has been given the message \<open>m\<close>. A context is started on memory with any
  contents \<open>j\<close> of the right size; \<open>fits\<close> tells for which lengths the implementation works.
\<close>

locale digest =
  fixes start :: "'j \<Rightarrow> 'c" and update :: "u8 list \<Rightarrow> 'c \<Rightarrow> 'c" and final :: "'c \<Rightarrow> u8 list"
    and H :: "u8 list \<Rightarrow> u8 list" and rep :: "'c \<Rightarrow> u8 list \<Rightarrow> bool" and ok :: "'j \<Rightarrow> bool" and fits :: "nat \<Rightarrow> bool"
  assumes rep_start: "ok j \<Longrightarrow> rep (start j) []"
    and rep_update: "rep c m \<Longrightarrow> fits (length m + length x) \<Longrightarrow> rep (update x c) (m @ x)"
    and final_rep: "rep c m \<Longrightarrow> final c = H m"
    and fits_less: "fits n \<Longrightarrow> k \<le> n \<Longrightarrow> fits k"
begin

lemma rep_pieces: "rep c m \<Longrightarrow> fits (length m + length (concat xs)) \<Longrightarrow> rep (fold update xs c) (m @ concat xs)"
proof (induction xs arbitrary: c m)
  case (Cons x xs)
  have "rep (update x c) (m @ x)" by (rule rep_update [OF Cons.prems(1)]) (rule fits_less [OF Cons.prems(2)], simp)
  then show ?case using Cons.IH [of "update x c" "m @ x"] Cons.prems(2) by (simp add: add.assoc)
qed simp

theorem pieces: "ok j \<Longrightarrow> fits (length (concat xs)) \<Longrightarrow> final (fold update xs (start j)) = H (concat xs)"
  using rep_pieces [OF rep_start, of j xs] by (auto intro: final_rep)

end

text \<open>The keyed hash of RFC 2104 with a hash function \<open>h\<close> on blocks of 64 bytes.\<close>

definition rfc2104 :: "(u8 list \<Rightarrow> u8 list) \<Rightarrow> u8 list \<Rightarrow> u8 list \<Rightarrow> u8 list" where
  "rfc2104 h key msg =
     (let k = (if 64 < length key then h key else key); b = k @ replicate (64 - length k) 0
      in h (map (\<lambda>x. x XOR 0x5C) b @ h (map (\<lambda>x. x XOR 0x36) b @ msg)))"

end
