(* ===== verification/Md5.thy ===== *)
theory Md5
  imports Ndr Digest
begin

text \<open>
  The message digest MD5, \<open>lib/crypto/md5.c\<close>, on a little-endian machine, with the keyed digest of
  \<open>lib/crypto/hmacmd5.c\<close>. The words of a block are read from the 64 bytes of the context.
\<close>

section \<open>The digest\<close>

type_synonym md5_state = "u32 \<times> u32 \<times> u32 \<times> u32"

record MD5Context =
  mc_buf :: md5_state
  mc_bits0 :: u32
  mc_bits1 :: u32
  mc_in :: "u8 list"

fun byteReverse :: "u8 list \<Rightarrow> nat \<Rightarrow> u8 list" where
  "byteReverse buf 0 = buf"
| "byteReverse buf (Suc longs) = SIVAL (IVAL buf 0) @ byteReverse (drop 4 buf) longs"

definition MD5Init :: "u8 list \<Rightarrow> MD5Context" where
  "MD5Init junk = \<lparr>mc_buf = (0x67452301, 0xefcdab89, 0x98badcfe, 0x10325476), mc_bits0 = 0, mc_bits1 = 0, mc_in = junk\<rparr>"

definition F1 :: "u32 \<Rightarrow> u32 \<Rightarrow> u32 \<Rightarrow> u32" where "F1 x y z = z XOR (x AND (y XOR z))"
definition F2 :: "u32 \<Rightarrow> u32 \<Rightarrow> u32 \<Rightarrow> u32" where "F2 x y z = F1 z x y"
definition F3 :: "u32 \<Rightarrow> u32 \<Rightarrow> u32 \<Rightarrow> u32" where "F3 x y z = x XOR y XOR z"
definition F4 :: "u32 \<Rightarrow> u32 \<Rightarrow> u32 \<Rightarrow> u32" where "F4 x y z = y XOR (x OR NOT z)"

definition MD5STEP :: "(u32 \<Rightarrow> u32 \<Rightarrow> u32 \<Rightarrow> u32) \<Rightarrow> u32 \<Rightarrow> u32 \<Rightarrow> u32 \<Rightarrow> u32 \<Rightarrow> u32 \<Rightarrow> nat \<Rightarrow> u32" where
  "MD5STEP f w x y z data s = (let t = w + (f x y z + data) in (push_bit s t OR drop_bit (32 - s) t) + x)"

text \<open>The four groups of steps of \<open>MD5Transform\<close>.\<close>

definition md5_round1 :: "u32 list \<Rightarrow> md5_state \<Rightarrow> md5_state" where
  "md5_round1 inp = (\<lambda>(a, b, c, d).
     let a = MD5STEP F1 a b c d (inp ! 0 + 0xd76aa478) 7;
         d = MD5STEP F1 d a b c (inp ! 1 + 0xe8c7b756) 12;
         c = MD5STEP F1 c d a b (inp ! 2 + 0x242070db) 17;
         b = MD5STEP F1 b c d a (inp ! 3 + 0xc1bdceee) 22;
         a = MD5STEP F1 a b c d (inp ! 4 + 0xf57c0faf) 7;
         d = MD5STEP F1 d a b c (inp ! 5 + 0x4787c62a) 12;
         c = MD5STEP F1 c d a b (inp ! 6 + 0xa8304613) 17;
         b = MD5STEP F1 b c d a (inp ! 7 + 0xfd469501) 22;
         a = MD5STEP F1 a b c d (inp ! 8 + 0x698098d8) 7;
         d = MD5STEP F1 d a b c (inp ! 9 + 0x8b44f7af) 12;
         c = MD5STEP F1 c d a b (inp ! 10 + 0xffff5bb1) 17;
         b = MD5STEP F1 b c d a (inp ! 11 + 0x895cd7be) 22;
         a = MD5STEP F1 a b c d (inp ! 12 + 0x6b901122) 7;
         d = MD5STEP F1 d a b c (inp ! 13 + 0xfd987193) 12;
         c = MD5STEP F1 c d a b (inp ! 14 + 0xa679438e) 17;
         b = MD5STEP F1 b c d a (inp ! 15 + 0x49b40821) 22
     in (a, b, c, d))"

definition md5_round2 :: "u32 list \<Rightarrow> md5_state \<Rightarrow> md5_state" where
  "md5_round2 inp = (\<lambda>(a, b, c, d).
     let a = MD5STEP F2 a b c d (inp ! 1 + 0xf61e2562) 5;
         d = MD5STEP F2 d a b c (inp ! 6 + 0xc040b340) 9;
         c = MD5STEP F2 c d a b (inp ! 11 + 0x265e5a51) 14;
         b = MD5STEP F2 b c d a (inp ! 0 + 0xe9b6c7aa) 20;
         a = MD5STEP F2 a b c d (inp ! 5 + 0xd62f105d) 5;
         d = MD5STEP F2 d a b c (inp ! 10 + 0x02441453) 9;
         c = MD5STEP F2 c d a b (inp ! 15 + 0xd8a1e681) 14;
         b = MD5STEP F2 b c d a (inp ! 4 + 0xe7d3fbc8) 20;
         a = MD5STEP F2 a b c d (inp ! 9 + 0x21e1cde6) 5;
         d = MD5STEP F2 d a b c (inp ! 14 + 0xc33707d6) 9;
         c = MD5STEP F2 c d a b (inp ! 3 + 0xf4d50d87) 14;
         b = MD5STEP F2 b c d a (inp ! 8 + 0x455a14ed) 20;
         a = MD5STEP F2 a b c d (inp ! 13 + 0xa9e3e905) 5;
         d = MD5STEP F2 d a b c (inp ! 2 + 0xfcefa3f8) 9;
         c = MD5STEP F2 c d a b (inp ! 7 + 0x676f02d9) 14;
         b = MD5STEP F2 b c d a (inp ! 12 + 0x8d2a4c8a) 20
     in (a, b, c, d))"

definition md5_round3 :: "u32 list \<Rightarrow> md5_state \<Rightarrow> md5_state" where
  "md5_round3 inp = (\<lambda>(a, b, c, d).
     let a = MD5STEP F3 a b c d (inp ! 5 + 0xfffa3942) 4;
         d = MD5STEP F3 d a b c (inp ! 8 + 0x8771f681) 11;
         c = MD5STEP F3 c d a b (inp ! 11 + 0x6d9d6122) 16;
         b = MD5STEP F3 b c d a (inp ! 14 + 0xfde5380c) 23;
         a = MD5STEP F3 a b c d (inp ! 1 + 0xa4beea44) 4;
         d = MD5STEP F3 d a b c (inp ! 4 + 0x4bdecfa9) 11;
         c = MD5STEP F3 c d a b (inp ! 7 + 0xf6bb4b60) 16;
         b = MD5STEP F3 b c d a (inp ! 10 + 0xbebfbc70) 23;
         a = MD5STEP F3 a b c d (inp ! 13 + 0x289b7ec6) 4;
         d = MD5STEP F3 d a b c (inp ! 0 + 0xeaa127fa) 11;
         c = MD5STEP F3 c d a b (inp ! 3 + 0xd4ef3085) 16;
         b = MD5STEP F3 b c d a (inp ! 6 + 0x04881d05) 23;
         a = MD5STEP F3 a b c d (inp ! 9 + 0xd9d4d039) 4;
         d = MD5STEP F3 d a b c (inp ! 12 + 0xe6db99e5) 11;
         c = MD5STEP F3 c d a b (inp ! 15 + 0x1fa27cf8) 16;
         b = MD5STEP F3 b c d a (inp ! 2 + 0xc4ac5665) 23
     in (a, b, c, d))"

definition md5_round4 :: "u32 list \<Rightarrow> md5_state \<Rightarrow> md5_state" where
  "md5_round4 inp = (\<lambda>(a, b, c, d).
     let a = MD5STEP F4 a b c d (inp ! 0 + 0xf4292244) 6;
         d = MD5STEP F4 d a b c (inp ! 7 + 0x432aff97) 10;
         c = MD5STEP F4 c d a b (inp ! 14 + 0xab9423a7) 15;
         b = MD5STEP F4 b c d a (inp ! 5 + 0xfc93a039) 21;
         a = MD5STEP F4 a b c d (inp ! 12 + 0x655b59c3) 6;
         d = MD5STEP F4 d a b c (inp ! 3 + 0x8f0ccc92) 10;
         c = MD5STEP F4 c d a b (inp ! 10 + 0xffeff47d) 15;
         b = MD5STEP F4 b c d a (inp ! 1 + 0x85845dd1) 21;
         a = MD5STEP F4 a b c d (inp ! 8 + 0x6fa87e4f) 6;
         d = MD5STEP F4 d a b c (inp ! 15 + 0xfe2ce6e0) 10;
         c = MD5STEP F4 c d a b (inp ! 6 + 0xa3014314) 15;
         b = MD5STEP F4 b c d a (inp ! 13 + 0x4e0811a1) 21;
         a = MD5STEP F4 a b c d (inp ! 4 + 0xf7537e82) 6;
         d = MD5STEP F4 d a b c (inp ! 11 + 0xbd3af235) 10;
         c = MD5STEP F4 c d a b (inp ! 2 + 0x2ad7d2bb) 15;
         b = MD5STEP F4 b c d a (inp ! 9 + 0xeb86d391) 21
     in (a, b, c, d))"

definition MD5Transform :: "md5_state \<Rightarrow> u32 list \<Rightarrow> md5_state" where
  "MD5Transform buf inp =
     (case (buf, md5_round4 inp (md5_round3 inp (md5_round2 inp (md5_round1 inp buf)))) of
        ((b0, b1, b2, b3), (a, b, c, d)) \<Rightarrow> (b0 + a, b1 + b, b2 + c, b3 + d))"

definition md5_words :: "u8 list \<Rightarrow> u32 list" where
  "md5_words bytes = map (\<lambda>i. IVAL bytes (4 * i)) [0..<16]"

text \<open>Reversal and transformation of the block in the context.\<close>

definition md5_transform_in :: "MD5Context \<Rightarrow> MD5Context" where
  "md5_transform_in ctx =
     (let inp = byteReverse (mc_in ctx) 16 in ctx\<lparr>mc_in := inp, mc_buf := MD5Transform (mc_buf ctx) (md5_words inp)\<rparr>)"

text \<open>Bytes stored in the block of the context, from a position.\<close>

definition put_in :: "nat \<Rightarrow> u8 list \<Rightarrow> MD5Context \<Rightarrow> MD5Context" where
  "put_in pos bytes ctx = ctx\<lparr>mc_in := take pos (mc_in ctx) @ bytes @ drop (pos + length bytes) (mc_in ctx)\<rparr>"

text \<open>The loop over whole blocks, and the bytes left.\<close>

fun md5_loop :: "u8 list \<Rightarrow> MD5Context \<Rightarrow> MD5Context" where
  "md5_loop buf ctx =
     (if 64 \<le> length buf then md5_loop (drop 64 buf) (md5_transform_in (put_in 0 (take 64 buf) ctx)) else put_in 0 buf ctx)"

definition md5_count :: "nat \<Rightarrow> MD5Context \<Rightarrow> MD5Context" where
  "md5_count len ctx =
     (let t = mc_bits0 ctx; low = t + push_bit 3 (of_nat len)
      in ctx\<lparr>mc_bits0 := low, mc_bits1 := mc_bits1 ctx + (if low < t then 1 else 0) + of_nat (len div 2 ^ 29)\<rparr>)"

definition MD5Update :: "u8 list \<Rightarrow> MD5Context \<Rightarrow> MD5Context" where
  "MD5Update buf ctx0 =
     (let ctx = md5_count (length buf) ctx0; t = unat (drop_bit 3 (mc_bits0 ctx0) AND 0x3F) in
      if t \<noteq> 0
      then if length buf < 64 - t then put_in t buf ctx
           else md5_loop (drop (64 - t) buf) (md5_transform_in (put_in t (take (64 - t) buf) ctx))
      else md5_loop buf ctx)"

text \<open>
  The digest, and the context after it: the call that should clear it is given the size of a
  pointer, which are the first eight bytes.
\<close>

definition MD5Final :: "MD5Context \<Rightarrow> u8 list \<times> MD5Context" where
  "MD5Final ctx0 =
     (let count = unat (drop_bit 3 (mc_bits0 ctx0) AND 0x3F); ctx1 = put_in count [0x80] ctx0; left = 64 - 1 - count;
          ctx2 = (if left < 8 then put_in 0 (replicate 56 0) (md5_transform_in (put_in (count + 1) (replicate left 0) ctx1))
                  else put_in (count + 1) (replicate (left - 8) 0) ctx1);
          ctx3 = ctx2\<lparr>mc_in := byteReverse (mc_in ctx2) 14\<rparr>;
          ctx4 = put_in 56 (SIVAL (mc_bits0 ctx0) @ SIVAL (mc_bits1 ctx0)) ctx3
      in case MD5Transform (mc_buf ctx4) (md5_words (mc_in ctx4)) of
           (a, b, c, d) \<Rightarrow> (byteReverse (SIVAL a @ SIVAL b @ SIVAL c @ SIVAL d) 4, ctx4\<lparr>mc_buf := (0, 0, c, d)\<rparr>))"

section \<open>The keyed digest\<close>

record HMACMD5Context =
  hc_ctx :: MD5Context
  hc_ipad :: "u8 list"
  hc_opad :: "u8 list"

definition md5_of :: "u8 list \<Rightarrow> u8 list list \<Rightarrow> u8 list" where
  "md5_of junk pieces = fst (MD5Final (fold MD5Update pieces (MD5Init junk)))"

definition hmac_md5_init_rfc2104 :: "u8 list \<Rightarrow> u8 list \<Rightarrow> HMACMD5Context" where
  "hmac_md5_init_rfc2104 junk key0 =
     (let key = (if 64 < length key0 then md5_of junk [key0] else key0);
          k = key @ replicate (64 - length key) 0;
          ipad = map (\<lambda>x. x XOR 0x36) k; opad = map (\<lambda>x. x XOR 0x5C) k
      in \<lparr>hc_ctx = MD5Update ipad (MD5Init junk), hc_ipad = ipad, hc_opad = opad\<rparr>)"

definition hmac_md5_init_limK_to_64 :: "u8 list \<Rightarrow> u8 list \<Rightarrow> HMACMD5Context" where
  "hmac_md5_init_limK_to_64 junk key = hmac_md5_init_rfc2104 junk (take 64 key)"

definition hmac_md5_update :: "u8 list \<Rightarrow> HMACMD5Context \<Rightarrow> HMACMD5Context" where
  "hmac_md5_update data ctx = ctx\<lparr>hc_ctx := MD5Update data (hc_ctx ctx)\<rparr>"

definition hmac_md5_final :: "u8 list \<Rightarrow> HMACMD5Context \<Rightarrow> u8 list" where
  "hmac_md5_final junk ctx = md5_of junk [hc_opad ctx, fst (MD5Final (hc_ctx ctx))]"

definition hmac_md5 :: "u8 list \<Rightarrow> u8 list \<Rightarrow> u8 list \<Rightarrow> u8 list" where
  "hmac_md5 junk key data =
     (let ctx = hmac_md5_init_limK_to_64 junk (take 16 key)
      in hmac_md5_final junk (if length data \<noteq> 0 then hmac_md5_update data ctx else ctx))"

end
