(* ===== verification/SmbSigning.thy ===== *)
theory SmbSigning
  imports SmbRequest Md5
begin

text \<open>
  Signed packets of the SMB client, \<open>libcli/raw/smb_signing.c\<close>: the signature of a packet, the check
  of the signature of a reply, the sequence numbers and the states of the signing engine. \<open>junk\<close> is
  what the memory of the digest's context held before. A packet with no header (a session request)
  has the offset 0 for its header, the null pointer, which is never read.
\<close>

section \<open>The state\<close>

abbreviation (input) "NEGOTIATE_SECURITY_SIGNATURES_ENABLED \<equiv> (0x04 :: u8)"
abbreviation (input) "NEGOTIATE_SECURITY_SIGNATURES_REQUIRED \<equiv> (0x08 :: u8)"
abbreviation (input) "FLAGS2_SMB_SECURITY_SIGNATURES \<equiv> (0x0004 :: u16)"

datatype smb_signing_engine_state = SMB_SIGNING_ENGINE_OFF | SMB_SIGNING_ENGINE_BSRSPYL | SMB_SIGNING_ENGINE_ON

datatype smb_signing_state = SMB_SIGNING_OFF | SMB_SIGNING_SUPPORTED | SMB_SIGNING_REQUIRED | SMB_SIGNING_AUTO

record smb_signing_context =
  sg_signing_state :: smb_signing_engine_state
  sg_mac_key :: "u8 list"
  sg_next_seq_num :: u32
  sg_allow_smb_signing :: bool
  sg_doing_signing :: bool
  sg_mandatory_signing :: bool
  sg_seen_valid :: bool

record smbcli_negotiate =
  ng_sec_mode :: u8
  ng_sign_info :: smb_signing_context
  ng_readbraw_supported :: bool
  ng_writebraw_supported :: bool

record smbcli_signed_request = smbcli_request +
  sq_seq_num :: u32
  sq_one_way_request :: bool
  sq_sign_single_increment :: bool

section \<open>Switching it on and off\<close>

definition smbcli_set_signing_off :: "smb_signing_context \<Rightarrow> smb_signing_context" where
  "smbcli_set_signing_off si =
     si\<lparr>sg_doing_signing := False, sg_next_seq_num := 0, sg_mac_key := [], sg_signing_state := SMB_SIGNING_ENGINE_OFF\<rparr>"

definition set_smb_signing_common :: "smb_signing_context \<Rightarrow> bool" where
  "set_smb_signing_common si = (if sg_doing_signing si then False else if \<not> sg_allow_smb_signing si then False else True)"

definition smbcli_set_smb_signing_common :: "smbcli_negotiate \<Rightarrow> bool \<times> smbcli_negotiate" where
  "smbcli_set_smb_signing_common ng =
     (if \<not> set_smb_signing_common (ng_sign_info ng) then (False, ng)
      else if ng_sec_mode ng AND (NEGOTIATE_SECURITY_SIGNATURES_REQUIRED OR NEGOTIATE_SECURITY_SIGNATURES_ENABLED) = 0 then (False, ng)
      else (True, ng\<lparr>ng_readbraw_supported := False, ng_writebraw_supported := False\<rparr>))"

definition smbcli_temp_set_signing :: "smbcli_negotiate \<Rightarrow> bool \<times> smbcli_negotiate" where
  "smbcli_temp_set_signing ng0 =
     (case smbcli_set_smb_signing_common ng0 of
        (False, ng) \<Rightarrow> (False, ng)
      | (True, ng) \<Rightarrow> (True, ng\<lparr>ng_sign_info := (smbcli_set_signing_off (ng_sign_info ng))\<lparr>sg_mac_key := [], sg_signing_state := SMB_SIGNING_ENGINE_BSRSPYL\<rparr>\<rparr>))"

definition smbcli_simple_set_signing :: "u8 list \<Rightarrow> u8 list option \<Rightarrow> smb_signing_context \<Rightarrow> smb_signing_context" where
  "smbcli_simple_set_signing user_session_key response si =
     si\<lparr>sg_mac_key := user_session_key @ (case response of Some r \<Rightarrow> r | None \<Rightarrow> []), sg_next_seq_num := 0,
        sg_signing_state := SMB_SIGNING_ENGINE_ON\<rparr>"

definition smbcli_transport_simple_set_signing :: "u8 list \<Rightarrow> u8 list \<Rightarrow> smbcli_negotiate \<Rightarrow> bool \<times> smbcli_negotiate" where
  "smbcli_transport_simple_set_signing user_session_key response ng0 =
     (case smbcli_set_smb_signing_common ng0 of
        (False, ng) \<Rightarrow> (False, ng)
      | (True, ng) \<Rightarrow> (True, ng\<lparr>ng_sign_info := smbcli_simple_set_signing user_session_key (Some response) (ng_sign_info ng)\<rparr>))"

definition smbcli_init_signing :: "smb_signing_state \<Rightarrow> smb_signing_context \<Rightarrow> smb_signing_context" where
  "smbcli_init_signing client_signing si0 =
     (let si = smbcli_set_signing_off (si0\<lparr>sg_mac_key := []\<rparr>) in
      case client_signing of
        SMB_SIGNING_OFF \<Rightarrow> si\<lparr>sg_allow_smb_signing := False\<rparr>
      | SMB_SIGNING_SUPPORTED \<Rightarrow> si\<lparr>sg_allow_smb_signing := True\<rparr>
      | SMB_SIGNING_AUTO \<Rightarrow> si\<lparr>sg_allow_smb_signing := True\<rparr>
      | SMB_SIGNING_REQUIRED \<Rightarrow> si\<lparr>sg_allow_smb_signing := True, sg_mandatory_signing := True\<rparr>)"

text \<open>What a good or a bad signature does to the state.\<close>

definition signing_good :: "bool \<Rightarrow> smb_signing_context \<Rightarrow> bool \<times> smb_signing_context" where
  "signing_good good si =
     (if good then (True, si\<lparr>sg_doing_signing := True, sg_seen_valid := True\<rparr>)
      else if \<not> sg_seen_valid si then (True, smbcli_set_signing_off si)
      else (False, si))"

section \<open>Signatures\<close>

definition mark_packet_signed :: "request_buffer \<Rightarrow> request_buffer option" where
  "mark_packet_signed out =
     (if rb_hdr out = 0 then None
      else Option.bind (peek (rb_hdr out + HDR_FLG2) 2 (rb_buffer out))
        (\<lambda>w. map_option (\<lambda>buf. out\<lparr>rb_buffer := buf\<rparr>)
           (poke (rb_hdr out + HDR_FLG2) (SSVAL (ucast (SVAL w 0) OR FLAGS2_SMB_SECURITY_SIGNATURES)) (rb_buffer out))))"

definition sign_outgoing_message :: "u8 list \<Rightarrow> request_buffer \<Rightarrow> u8 list \<Rightarrow> u32 \<Rightarrow> request_buffer option" where
  "sign_outgoing_message junk out0 mac_key seq_num =
     (if rb_hdr out0 = 0 then None
      else Option.bind (pokes [(rb_hdr out0 + HDR_SS_FIELD, SIVAL seq_num), (rb_hdr out0 + HDR_SS_FIELD + 4, SIVAL 0)] (rb_buffer out0))
        (\<lambda>buf. Option.bind (mark_packet_signed (out0\<lparr>rb_buffer := buf\<rparr>))
        (\<lambda>out. Option.bind (peek NBT_HDR_SIZE (usize (rb_size out - NBT_HDR_SIZE)) (rb_buffer out))
        (\<lambda>packet. map_option (\<lambda>b. out\<lparr>rb_buffer := b\<rparr>)
           (poke (rb_hdr out + HDR_SS_FIELD) (take 8 (md5_of junk [mac_key, packet])) (rb_buffer out))))))"

definition check_signed_incoming_message :: "u8 list \<Rightarrow> request_buffer \<Rightarrow> u8 list \<Rightarrow> u32 \<Rightarrow> bool option" where
  "check_signed_incoming_message junk inb mac_key seq_num =
     (if rb_size inb < NBT_HDR_SIZE + HDR_SS_FIELD + 8 then Some False
      else if mac_key = [] then Some False
      else
        (let buf = rb_buffer inb; hdr = rb_hdr inb; offset_end_of_sig = HDR_SS_FIELD + 8; sequence_buf = SIVAL seq_num @ SIVAL 0 in
         Option.bind (peek (hdr + HDR_SS_FIELD) 8 buf)
           (\<lambda>server_sent_mac. Option.bind (peek hdr HDR_SS_FIELD buf)
           (\<lambda>before. map_option (\<lambda>after. server_sent_mac = take 8 (md5_of junk [mac_key, before, sequence_buf, after]))
              (peek (hdr + offset_end_of_sig) (rb_size inb - NBT_HDR_SIZE - offset_end_of_sig) buf)))))"

section \<open>Requests and replies\<close>

definition smbcli_req_allocate_seq_num :: "'a smbcli_signed_request_scheme \<Rightarrow> smb_signing_context \<Rightarrow> 'a smbcli_signed_request_scheme \<times> smb_signing_context" where
  "smbcli_req_allocate_seq_num req si =
     (req\<lparr>sq_seq_num := sg_next_seq_num si\<rparr>, si\<lparr>sg_next_seq_num := sg_next_seq_num si + (if sq_sign_single_increment req then 1 else 2)\<rparr>)"

definition smbcli_request_calculate_sign_mac ::
    "u8 list \<Rightarrow> 'a smbcli_signed_request_scheme \<Rightarrow> smb_signing_context \<Rightarrow> ('a smbcli_signed_request_scheme \<times> smb_signing_context) option" where
  "smbcli_request_calculate_sign_mac junk req si =
     (case sg_signing_state si of
        SMB_SIGNING_ENGINE_OFF \<Rightarrow> Some (req, si)
      | SMB_SIGNING_ENGINE_BSRSPYL \<Rightarrow>
          Option.bind (mark_packet_signed (sq_out req))
            (\<lambda>out. map_option (\<lambda>buf. (req\<lparr>sq_out := out\<lparr>rb_buffer := buf\<rparr>\<rparr>, si))
               (poke (rb_hdr out + HDR_SS_FIELD) [0x42, 0x53, 0x52, 0x53, 0x50, 0x59, 0x4C, 0x20] (rb_buffer out)))
      | SMB_SIGNING_ENGINE_ON \<Rightarrow>
          (case smbcli_req_allocate_seq_num req si of
             (req1, si1) \<Rightarrow> map_option (\<lambda>out. (req1\<lparr>sq_out := out\<rparr>, si1)) (sign_outgoing_message junk (sq_out req1) (sg_mac_key si1) (sq_seq_num req1))))"

definition smbcli_request_check_sign_mac :: "u8 list \<Rightarrow> 'a smbcli_signed_request_scheme \<Rightarrow> smb_signing_context \<Rightarrow> (bool \<times> smb_signing_context) option" where
  "smbcli_request_check_sign_mac junk req si =
     (if sg_signing_state si = SMB_SIGNING_ENGINE_OFF then Some (True, si)
      else if rb_size (sq_in req) < HDR_SS_FIELD + 8 then Some (False, si)
      else map_option (\<lambda>good. signing_good good si) (check_signed_incoming_message junk (sq_in req) (sg_mac_key si) (sq_seq_num req + 1)))"

end
