(* ===== verification/SmbTransport.thy ===== *)
theory SmbTransport
  imports SmbSigning NtError
begin

text \<open>
  The SMB client's transport, \<open>libcli/raw/clitransport.c\<close>: sending a request, matching a packet that
  has been received to the request it answers, message numbers, timeouts and the death of the
  connection. Requests are addresses on a heap, None when freed; the list of requests that wait
  for a reply is the list of their addresses in its order (\<open>DList\<close> shows that the macros for linked
  lists do this). The functions called back, the packet layer and the contents of uninitialised
  memory are parameters; None is an access outside a packet or to a freed request.
\<close>

abbreviation (input) "NT_STATUS_REMOTE_NOT_LISTENING \<equiv> (0xC00000BC :: NTSTATUS)"
abbreviation (input) "NT_STATUS_RESOURCE_NAME_NOT_FOUND \<equiv> (0xC000008B :: NTSTATUS)"
abbreviation (input) "NT_STATUS_REMOTE_RESOURCES \<equiv> (0xC000013D :: NTSTATUS)"
abbreviation (input) "NT_STATUS_UNEXPECTED_IO_ERROR \<equiv> (0xC00000E9 :: NTSTATUS)"
abbreviation (input) "NT_STATUS_NOT_SUPPORTED \<equiv> (0xC00000BB :: NTSTATUS)"
abbreviation (input) "NT_STATUS_NET_WRITE_FAULT \<equiv> (0xC00000D2 :: NTSTATUS)"
abbreviation (input) "NT_STATUS_IO_TIMEOUT \<equiv> (0xC00000B5 :: NTSTATUS)"
abbreviation (input) "NT_STATUS_UNEXPECTED_NETWORK_ERROR \<equiv> (0xC00000C4 :: NTSTATUS)"
abbreviation (input) "NT_STATUS_LOCAL_DISCONNECT \<equiv> (0xC000013B :: NTSTATUS)"

section \<open>State\<close>

record smbcli_transport_request = smbcli_signed_request +
  sq_ntcancel :: "nat list"
  sq_async_fn :: bool

datatype smb_etype = ETYPE_NONE | ETYPE_SMB | ETYPE_SOCKET | ETYPE_NBT

datatype smb_socket_error = SOCKET_READ_TIMEOUT | SOCKET_READ_EOF | SOCKET_READ_ERROR | SOCKET_WRITE_ERROR | SOCKET_READ_BAD_SIG

datatype smb_error = Nt_status NTSTATUS | Socket_error smb_socket_error

record smbcli_transport =
  st_sock :: bool
  st_next_mid :: u16
  st_negotiate :: smbcli_negotiate
  st_request_timeout :: nat
  st_readbraw_pending :: bool
  st_etype :: smb_etype
  st_error :: smb_error
  st_oplock_handler :: bool
  st_pending_recv :: "nat list"
  st_requests :: "nat \<Rightarrow> smbcli_transport_request option"
  st_timers :: "nat list"

text \<open>A new transport on a connected socket; the negotiation has not taken place.\<close>

definition smbcli_transport_init :: "smb_signing_state \<Rightarrow> smbcli_transport" where
  "smbcli_transport_init client_signing =
     \<lparr>st_sock = True, st_next_mid = 0,
      st_negotiate = \<lparr>ng_sec_mode = 0,
        ng_sign_info = smbcli_init_signing client_signing
          \<lparr>sg_signing_state = SMB_SIGNING_ENGINE_OFF, sg_mac_key = [], sg_next_seq_num = 0, sg_allow_smb_signing = False,
           sg_doing_signing = False, sg_mandatory_signing = False, sg_seen_valid = False\<rparr>,
        ng_readbraw_supported = False, ng_writebraw_supported = False\<rparr>,
      st_request_timeout = 60, st_readbraw_pending = False, st_etype = ETYPE_NONE, st_error = Nt_status NT_STATUS_OK, st_oplock_handler = False,
      st_pending_recv = [], st_requests = Map.empty, st_timers = []\<rparr>"

definition with_request :: "nat \<Rightarrow> (smbcli_transport_request \<Rightarrow> smbcli_transport_request) \<Rightarrow> smbcli_transport \<Rightarrow> smbcli_transport option" where
  "with_request r f t = map_option (\<lambda>q. t\<lparr>st_requests := (st_requests t)(r \<mapsto> f q)\<rparr>) (st_requests t r)"

text \<open>The callback of a request, where it has one.\<close>

definition call_async :: "(nat \<Rightarrow> smbcli_transport \<Rightarrow> smbcli_transport option) \<Rightarrow> nat \<Rightarrow> smbcli_transport \<Rightarrow> smbcli_transport option" where
  "call_async async r t = Option.bind (st_requests t r) (\<lambda>q. if sq_async_fn q then async r t else Some t)"

text \<open>A request is freed, with its timer; the destructor takes one that waits for a reply off the list.\<close>

definition smbcli_request_free :: "nat \<Rightarrow> smbcli_transport \<Rightarrow> smbcli_transport" where
  "smbcli_request_free r t =
     t\<lparr>st_pending_recv :=
           (case st_requests t r of
              Some q \<Rightarrow> if sq_state q = SMBCLI_REQUEST_RECV then remove1 r (st_pending_recv t) else st_pending_recv t
            | None \<Rightarrow> st_pending_recv t),
         st_requests := (st_requests t)(r := None), st_timers := filter (\<lambda>x. x \<noteq> r) (st_timers t)\<rparr>"

section \<open>Message numbers\<close>

partial_function (option) next_mid_loop :: "u16 list \<Rightarrow> u16 \<Rightarrow> u16 option" where
  "next_mid_loop used mid0 =
     (let mid = (if mid0 = 0 then 1 else mid0) in if mid \<in> set used then next_mid_loop used (mid + 1) else Some mid)"

definition pending_mids :: "smbcli_transport \<Rightarrow> u16 list option" where
  "pending_mids t = those (map (\<lambda>r. map_option sq_mid (st_requests t r)) (st_pending_recv t))"

definition smbcli_transport_next_mid :: "smbcli_transport \<Rightarrow> (u16 \<times> smbcli_transport) option" where
  "smbcli_transport_next_mid t =
     Option.bind (pending_mids t) (\<lambda>used. map_option (\<lambda>mid. (mid, t\<lparr>st_next_mid := mid + 1\<rparr>)) (next_mid_loop used (st_next_mid t)))"

section \<open>The end of a connection\<close>

text \<open>The requests still waiting, from the head of the list; the callbacks may change the list.\<close>

partial_function (option) transport_kill ::
    "(nat \<Rightarrow> smbcli_transport \<Rightarrow> smbcli_transport option) \<Rightarrow> NTSTATUS \<Rightarrow> smbcli_transport \<Rightarrow> smbcli_transport option" where
  "transport_kill async status t =
     (case st_pending_recv t of
        [] \<Rightarrow> Some t
      | r # rs \<Rightarrow>
          Option.bind (with_request r (\<lambda>q. q\<lparr>sq_state := SMBCLI_REQUEST_ERROR, sq_status := status\<rparr>) t)
            (\<lambda>t1. Option.bind (call_async async r (t1\<lparr>st_pending_recv := remove1 r (st_pending_recv t1)\<rparr>)) (transport_kill async status)))"

definition smbcli_transport_dead ::
    "(nat \<Rightarrow> smbcli_transport \<Rightarrow> smbcli_transport option) \<Rightarrow> NTSTATUS \<Rightarrow> smbcli_transport \<Rightarrow> smbcli_transport option" where
  "smbcli_transport_dead async status t =
     transport_kill async (if status = NT_STATUS_UNSUCCESSFUL then NT_STATUS_UNEXPECTED_NETWORK_ERROR else status) (t\<lparr>st_sock := False\<rparr>)"

text \<open>Receive errors and the destructor of the transport.\<close>

definition smbcli_transport_error :: "(nat \<Rightarrow> smbcli_transport \<Rightarrow> smbcli_transport option) \<Rightarrow> NTSTATUS \<Rightarrow> smbcli_transport \<Rightarrow> smbcli_transport option" where
  "smbcli_transport_error async status t = smbcli_transport_dead async status t"

definition transport_destructor :: "(nat \<Rightarrow> smbcli_transport \<Rightarrow> smbcli_transport option) \<Rightarrow> smbcli_transport \<Rightarrow> smbcli_transport option" where
  "transport_destructor async t = smbcli_transport_dead async NT_STATUS_LOCAL_DISCONNECT t"

definition map_session_refused_error :: "u8 \<Rightarrow> NTSTATUS" where
  "map_session_refused_error err =
     (if err = 0x80 \<or> err = 0x81 then NT_STATUS_REMOTE_NOT_LISTENING
      else if err = 0x82 then NT_STATUS_RESOURCE_NAME_NOT_FOUND
      else if err = 0x83 then NT_STATUS_REMOTE_RESOURCES
      else NT_STATUS_UNEXPECTED_IO_ERROR)"

text \<open>The answer to a session request; the reply is the packet of the request, if one has come.\<close>

definition smbcli_transport_connect_recv :: "u8 list option \<Rightarrow> NTSTATUS option" where
  "smbcli_transport_connect_recv reply =
     (case reply of
        None \<Rightarrow> Some NT_STATUS_UNEXPECTED_NETWORK_ERROR
      | Some buf \<Rightarrow>
          Option.bind (peek 0 1 buf)
            (\<lambda>w. if w ! 0 = 0x82 then Some NT_STATUS_OK
                 else if w ! 0 = 0x83 then map_option (\<lambda>e. map_session_refused_error (e ! 0)) (peek 4 1 buf)
                 else if w ! 0 = 0x84 then Some NT_STATUS_NOT_SUPPORTED
                 else Some NT_STATUS_UNEXPECTED_IO_ERROR))"

section \<open>Receiving\<close>

definition smbcli_handle_ntcancel_reply :: "nat option \<Rightarrow> u8 list \<Rightarrow> smbcli_transport \<Rightarrow> (nat option \<times> smbcli_transport) option" where
  "smbcli_handle_ntcancel_reply req buf t =
     (case req of
        None \<Rightarrow> Some (None, t)
      | Some r \<Rightarrow>
          Option.bind (st_requests t r)
            (\<lambda>q. if sq_ntcancel q = [] then Some (Some r, t)
                 else if int (length buf) < MIN_SMB_SIZE + NBT_HDR_SIZE then Some (Some r, t)
                 else Option.bind (peek8 (NBT_HDR_SIZE + HDR_FLG) buf)
                   (\<lambda>flg. Option.bind (peek8 (NBT_HDR_SIZE + HDR_COM) buf)
                      (\<lambda>com. if 128 \<le> flg \<and> com = 0xA4
                             then map_option (\<lambda>t1. (None, t1)) (with_request r (\<lambda>q. q\<lparr>sq_ntcancel := tl (sq_ntcancel q)\<rparr>) t)
                             else Some (Some r, t)))))"

text \<open>The two ends of the receive function: the request is finished or in error.\<close>

definition recv_end ::
    "(nat \<Rightarrow> smbcli_transport \<Rightarrow> smbcli_transport option) \<Rightarrow> smbcli_request_state \<Rightarrow> nat \<Rightarrow> smbcli_transport \<Rightarrow> smbcli_transport option" where
  "recv_end async state r t =
     Option.bind (with_request r (\<lambda>q. q\<lparr>sq_state := state\<rparr>) (t\<lparr>st_pending_recv := remove1 r (st_pending_recv t)\<rparr>)) (call_async async r)"

definition set_in :: "u8 list \<Rightarrow> smbcli_transport_request \<Rightarrow> smbcli_transport_request" where
  "set_in buf q = q\<lparr>sq_in := (sq_in q)\<lparr>rb_buffer := buf, rb_size := int (length buf), rb_allocated := int (length buf)\<rparr>\<rparr>"

text \<open>The header and the data of a reply with \<open>wct\<close> words that has room for them; the status in it.\<close>

definition recv_data :: "u8 list \<Rightarrow> int \<Rightarrow> request_buffer \<Rightarrow> request_buffer option" where
  "recv_data buf wct rb =
     map_option
       (\<lambda>n. let least = NBT_HDR_SIZE + MIN_SMB_SIZE + 2 * wct; dsize = (if rb_size rb < least + n then rb_size rb - least else n);
                data = NBT_HDR_SIZE + HDR_VWV + 2 * wct + 2
            in rb\<lparr>rb_hdr := NBT_HDR_SIZE, rb_vwv := NBT_HDR_SIZE + HDR_VWV, rb_wct := wct, rb_data := data, rb_data_size := dsize, rb_ptr := data\<rparr>)
       (peek16 (NBT_HDR_SIZE + HDR_VWV + 2 * wct) buf)"

definition recv_status :: "u8 list \<Rightarrow> (u16 \<times> NTSTATUS) option" where
  "recv_status buf =
     Option.bind (peek (NBT_HDR_SIZE + HDR_FLG2) 2 buf)
       (\<lambda>f. let flags2 = ucast (SVAL f 0) :: u16 in
          if flags2 AND 0x4000 = 0
          then Option.bind (peek (NBT_HDR_SIZE + HDR_RCLS) 1 buf)
                 (\<lambda>c. map_option (\<lambda>e. (flags2, if c ! 0 = 0 \<and> SVAL e 0 = 0 then NT_STATUS_OK else NT_STATUS_DOS (ucast (c ! 0)) (SVAL e 0)))
                   (peek (NBT_HDR_SIZE + 7) 2 buf))
          else map_option (\<lambda>e. (flags2, IVAL e 0)) (peek (NBT_HDR_SIZE + HDR_RCLS) 4 buf))"

text \<open>What is done to the request and the transport before one of the two ends, and which end it is.\<close>

definition recv_prepare :: "u8 list \<Rightarrow> u8 list \<Rightarrow> int \<Rightarrow> nat \<Rightarrow> smbcli_transport \<Rightarrow> (smbcli_request_state \<times> smbcli_transport) option" where
  "recv_prepare junk buf wct r t =
     Option.bind (map_option (set_in buf) (st_requests t r))
       (\<lambda>q. let put = (\<lambda>q1 t1. t1\<lparr>st_requests := (st_requests t1)(r \<mapsto> q1)\<rparr>) in
          if 4 \<le> length buf \<and> buf ! 0 \<noteq> 0 then Some (SMBCLI_REQUEST_DONE, put (q\<lparr>sq_status := NT_STATUS_OK\<rparr>) t)
          else if int (length buf) < NBT_HDR_SIZE + MIN_SMB_SIZE then Some (SMBCLI_REQUEST_ERROR, put q t)
          else if int (length buf) < NBT_HDR_SIZE + MIN_SMB_SIZE + 2 * wct
          then Some (SMBCLI_REQUEST_ERROR, put (q\<lparr>sq_status := NT_STATUS_UNSUCCESSFUL\<rparr>) t)
          else
            Option.bind (recv_data buf wct (sq_in q))
              (\<lambda>rb. Option.bind (recv_status buf)
              (\<lambda>(flags2, status).
                 let q1 = q\<lparr>sq_in := rb, sq_flags2 := flags2, sq_status := status\<rparr>;
                     t1 = t\<lparr>st_error := Nt_status status, st_etype := (if NT_STATUS_IS_OK status then ETYPE_NONE else ETYPE_SMB)\<rparr>
                 in map_option
                      (\<lambda>(accepted, si).
                         let t2 = t1\<lparr>st_negotiate := (st_negotiate t1)\<lparr>ng_sign_info := si\<rparr>\<rparr> in
                         if accepted then (SMBCLI_REQUEST_DONE, put q1 t2)
                         else (SMBCLI_REQUEST_ERROR, put (q1\<lparr>sq_status := NT_STATUS_ACCESS_DENIED\<rparr>)
                                 (t2\<lparr>st_etype := ETYPE_SOCKET, st_error := Socket_error SOCKET_READ_BAD_SIG\<rparr>)))
                      (smbcli_request_check_sign_mac junk q1 (ng_sign_info (st_negotiate t1))))))"

text \<open>The message number and the number of words of a packet that is long enough to have them.\<close>

definition recv_ids :: "u8 list \<Rightarrow> (u16 \<times> int) option" where
  "recv_ids buf =
     (if int (length buf) < MIN_SMB_SIZE then Some (0, 0)
      else Option.bind (peek (NBT_HDR_SIZE + HDR_MID) 2 buf)
        (\<lambda>m. Option.bind (peek8 (NBT_HDR_SIZE + HDR_WCT) buf)
        (\<lambda>wct. map_option (\<lambda>opcode. (ucast (SVAL m 0), wct)) (peek8 (NBT_HDR_SIZE + HDR_COM) buf))))"

definition smbcli_transport_finish_recv ::
    "u8 list \<Rightarrow> (nat \<Rightarrow> smbcli_transport \<Rightarrow> smbcli_transport option) \<Rightarrow> (int \<times> int \<times> int \<Rightarrow> smbcli_transport \<Rightarrow> smbcli_transport option) \<Rightarrow>
     u8 list \<Rightarrow> smbcli_transport \<Rightarrow> smbcli_transport option" where
  "smbcli_transport_finish_recv junk async oplock buf t =
     Option.bind (smbcli_handle_oplock_break (int (length buf)) NBT_HDR_SIZE (NBT_HDR_SIZE + HDR_VWV) buf)
       (\<lambda>brk. case brk of
          Some b \<Rightarrow> if st_oplock_handler t then oplock b t else Some t
        | None \<Rightarrow>
            if st_readbraw_pending t
            then let t1 = t\<lparr>st_readbraw_pending := False\<rparr> in
                 (case st_pending_recv t1 of
                    [] \<Rightarrow> Some t1
                  | r # rs \<Rightarrow> Option.bind (with_request r (set_in buf) t1) (recv_end async SMBCLI_REQUEST_DONE r))
            else
              Option.bind (recv_ids buf)
                (\<lambda>(mid, wct). Option.bind (pending_mids t)
                (\<lambda>mids. let found = map_option fst (find (\<lambda>(r, m). m = mid) (zip (st_pending_recv t) mids)) in
                   Option.bind (smbcli_handle_ntcancel_reply found buf t)
                     (\<lambda>(req, t1). case req of
            None \<Rightarrow> Some t1
          | Some r \<Rightarrow> Option.bind (recv_prepare junk buf wct r t1) (\<lambda>(state, t2). recv_end async state r t2)))))"

section \<open>Sending\<close>

text \<open>\<open>packet_send\<close> is the status of handing the packet to the packet layer.\<close>

definition smbcli_transport_send :: "(u8 list \<Rightarrow> NTSTATUS) \<Rightarrow> nat \<Rightarrow> smbcli_transport \<Rightarrow> smbcli_transport option" where
  "smbcli_transport_send packet_send r t =
     Option.bind (st_requests t r)
       (\<lambda>q. if \<not> st_sock t then with_request r (\<lambda>q. q\<lparr>sq_state := SMBCLI_REQUEST_ERROR, sq_status := NT_STATUS_NET_WRITE_FAULT\<rparr>) t
            else
              (let status = packet_send (take (nat (rb_size (sq_out q))) (rb_buffer (sq_out q))) in
               if \<not> NT_STATUS_IS_OK status then with_request r (\<lambda>q. q\<lparr>sq_state := SMBCLI_REQUEST_ERROR, sq_status := status\<rparr>) t
               else if sq_one_way_request q then Some (smbcli_request_free r t)
               else
                 map_option (\<lambda>t1. t1\<lparr>st_pending_recv := r # st_pending_recv t1,
                     st_timers := (if st_request_timeout t1 = 0 then st_timers t1 else r # st_timers t1)\<rparr>)
                   (with_request r (\<lambda>q. q\<lparr>sq_state := SMBCLI_REQUEST_RECV\<rparr>) t)))"

definition smbcli_request_send_signed :: "u8 list \<Rightarrow> (u8 list \<Rightarrow> NTSTATUS) \<Rightarrow> nat \<Rightarrow> smbcli_transport \<Rightarrow> smbcli_transport option" where
  "smbcli_request_send_signed junk packet_send r t =
     Option.bind (st_requests t r)
       (\<lambda>q. Option.bind (smbcli_request_send (sq_out q))
       (\<lambda>out. Option.bind (smbcli_request_calculate_sign_mac junk (q\<lparr>sq_out := out\<rparr>) (ng_sign_info (st_negotiate t)))
       (\<lambda>(q1, si). smbcli_transport_send packet_send r
          (t\<lparr>st_negotiate := (st_negotiate t)\<lparr>ng_sign_info := si\<rparr>, st_requests := (st_requests t)(r \<mapsto> q1)\<rparr>))))"

text \<open>Another reply for a request; the timeout of a request.\<close>

definition smbcli_transport_receive_more :: "nat \<Rightarrow> smbcli_transport \<Rightarrow> smbcli_transport option" where
  "smbcli_transport_receive_more r t =
     map_option (\<lambda>t1. t1\<lparr>st_pending_recv := r # st_pending_recv t1\<rparr>) (with_request r (\<lambda>q. q\<lparr>sq_state := SMBCLI_REQUEST_RECV\<rparr>) t)"

definition smbcli_timeout_handler :: "(nat \<Rightarrow> smbcli_transport \<Rightarrow> smbcli_transport option) \<Rightarrow> nat \<Rightarrow> smbcli_transport \<Rightarrow> smbcli_transport option" where
  "smbcli_timeout_handler async r t =
     Option.bind (st_requests t r)
       (\<lambda>q. let t1 = (if sq_state q = SMBCLI_REQUEST_RECV then t\<lparr>st_pending_recv := remove1 r (st_pending_recv t)\<rparr> else t) in
            Option.bind (with_request r (\<lambda>q. q\<lparr>sq_status := NT_STATUS_IO_TIMEOUT, sq_state := SMBCLI_REQUEST_ERROR\<rparr>) t1) (call_async async r))"

text \<open>The end of a request: its final status.\<close>

definition smbcli_request_finish :: "nat \<Rightarrow> smbcli_transport \<Rightarrow> (NTSTATUS \<times> smbcli_transport) option" where
  "smbcli_request_finish r t = map_option (\<lambda>q. (smbcli_request_destroy (Some (smbcli_request.truncate q)), smbcli_request_free r t)) (st_requests t r)"

end
