(* ===== verification/Md5Props.thy ===== *)
theory Md5Props
  imports Md5 NdrProps
begin

text \<open>
  MD5 of a message given in any pieces is that of RFC 1321, written here from the standard: the loop
  over the 64 steps with the four auxiliary functions, and the padding of \<open>Digest\<close>.
\<close>

section \<open>The standard\<close>

definition rfc1321_K :: "u32 list" where
  "rfc1321_K = [0xD76AA478, 0xE8C7B756, 0x242070DB, 0xC1BDCEEE, 0xF57C0FAF, 0x4787C62A, 0xA8304613, 0xFD469501,
     0x698098D8, 0x8B44F7AF, 0xFFFF5BB1, 0x895CD7BE, 0x6B901122, 0xFD987193, 0xA679438E, 0x49B40821,
     0xF61E2562, 0xC040B340, 0x265E5A51, 0xE9B6C7AA, 0xD62F105D, 0x02441453, 0xD8A1E681, 0xE7D3FBC8,
     0x21E1CDE6, 0xC33707D6, 0xF4D50D87, 0x455A14ED, 0xA9E3E905, 0xFCEFA3F8, 0x676F02D9, 0x8D2A4C8A,
     0xFFFA3942, 0x8771F681, 0x6D9D6122, 0xFDE5380C, 0xA4BEEA44, 0x4BDECFA9, 0xF6BB4B60, 0xBEBFBC70,
     0x289B7EC6, 0xEAA127FA, 0xD4EF3085, 0x04881D05, 0xD9D4D039, 0xE6DB99E5, 0x1FA27CF8, 0xC4AC5665,
     0xF4292244, 0x432AFF97, 0xAB9423A7, 0xFC93A039, 0x655B59C3, 0x8F0CCC92, 0xFFEFF47D, 0x85845DD1,
     0x6FA87E4F, 0xFE2CE6E0, 0xA3014314, 0x4E0811A1, 0xF7537E82, 0xBD3AF235, 0x2AD7D2BB, 0xEB86D391]"

definition rfc1321_F :: "nat \<Rightarrow> u32 \<Rightarrow> u32 \<Rightarrow> u32 \<Rightarrow> u32" where
  "rfc1321_F i x y z =
     (if i < 16 then (x AND y) OR (NOT x AND z) else if i < 32 then (x AND z) OR (y AND NOT z)
      else if i < 48 then x XOR y XOR z else y XOR (x OR NOT z))"

definition rfc1321_index :: "nat \<Rightarrow> nat" where
  "rfc1321_index i = (if i < 16 then i else if i < 32 then (5 * i + 1) mod 16 else if i < 48 then (3 * i + 5) mod 16 else (7 * i) mod 16)"

definition rfc1321_shift :: "nat \<Rightarrow> nat" where
  "rfc1321_shift i = [[7, 12, 17, 22], [5, 9, 14, 20], [4, 11, 16, 23], [6, 10, 15, 21]] ! (i div 16) ! (i mod 4)"

definition rfc1321_step :: "u32 list \<Rightarrow> nat \<Rightarrow> md5_state \<Rightarrow> md5_state" where
  "rfc1321_step M i = (\<lambda>(a, b, c, d).
     (d, b + word_rotl (rfc1321_shift i) (a + rfc1321_F i b c d + M ! rfc1321_index i + rfc1321_K ! i), b, c))"

definition rfc1321_block :: "md5_state \<Rightarrow> u8 list \<Rightarrow> md5_state" where
  "rfc1321_block s bytes =
     (case (s, fold (rfc1321_step (md5_words bytes)) [0..<64] s) of ((b0, b1, b2, b3), (a, b, c, d)) \<Rightarrow> (b0 + a, b1 + b, b2 + c, b3 + d))"

definition rfc1321_iv :: md5_state where
  "rfc1321_iv = (0x67452301, 0xEFCDAB89, 0x98BADCFE, 0x10325476)"

text \<open>The number of bits, the low word first.\<close>

definition rfc1321_length :: "nat \<Rightarrow> u8 list" where
  "rfc1321_length n = SIVAL (of_nat (8 * n)) @ SIVAL (of_nat (8 * n div 2 ^ 32))"

definition rfc1321_out :: "md5_state \<Rightarrow> u8 list" where
  "rfc1321_out = (\<lambda>(a, b, c, d). SIVAL a @ SIVAL b @ SIVAL c @ SIVAL d)"

definition rfc1321_md5 :: "u8 list \<Rightarrow> u8 list" where
  "rfc1321_md5 = md_hash rfc1321_block rfc1321_iv rfc1321_length rfc1321_out"

section \<open>The transformation\<close>

lemma rotate_left:
  assumes "0 < s" "s < 32"
  shows "push_bit s t OR drop_bit (32 - s) t = word_rotl s (t :: u32)"
proof (rule bit_word_eqI)
  fix n assume n: "n < LENGTH(32)"
  have r: "bit (word_rotl s t) n = bit t ((n + (32 - s)) mod 32)" using n assms by (simp add: bit_word_rotl_iff)
  have l: "bit (push_bit s t OR drop_bit (32 - s) t) n = (s \<le> n \<and> bit t (n - s) \<or> bit t (n + (32 - s)))"
    using n by (auto simp: bit_simps add.commute)
  show "bit (push_bit s t OR drop_bit (32 - s) t) n = bit (word_rotl s t) n"
  proof (cases "n < s")
    case True
    then have "(n + (32 - s)) mod 32 = n + (32 - s)" using assms by (intro mod_less) linarith
    then show ?thesis unfolding r l using True by simp
  next
    case False
    have e: "n + (32 - s) = 32 + (n - s)" using False assms by linarith
    have "n - s < 32" using n by simp
    then have "(n + (32 - s)) mod 32 = n - s" unfolding e mod_add_self1 by (rule mod_less)
    moreover have "\<not> bit t (n + (32 - s))" using bit_imp_le_length [of t "n + (32 - s)"] unfolding e by auto
    ultimately show ?thesis unfolding r l using False by simp
  qed
qed

lemma aux_functions: "F1 x y z = (x AND y) OR (NOT x AND z)" "F2 x y z = (x AND z) OR (y AND NOT z)"
  by (auto simp: F1_def F2_def bit_simps intro!: bit_word_eqI)

lemma step_eq: "0 < s \<Longrightarrow> s < 32 \<Longrightarrow> MD5STEP f w x y z (m + k) s = x + word_rotl s (w + f x y z + m + k)"
  unfolding MD5STEP_def Let_def by (simp add: rotate_left add_ac)

lemma F_rounds:
  "i < 16 \<Longrightarrow> rfc1321_F i x y z = F1 x y z" "16 \<le> i \<Longrightarrow> i < 32 \<Longrightarrow> rfc1321_F i x y z = F2 x y z"
  "32 \<le> i \<Longrightarrow> i < 48 \<Longrightarrow> rfc1321_F i x y z = F3 x y z" "48 \<le> i \<Longrightarrow> rfc1321_F i x y z = F4 x y z"
  by (simp_all add: rfc1321_F_def aux_functions F3_def F4_def)

text \<open>The steps of the standard, each with its new word shared by those that follow.\<close>

lemma steps1:
  "fold (rfc1321_step M) (0 # js) (a, b, c, d) = (let x = MD5STEP F1 a b c d (M ! 0 + 0xd76aa478) 7 in fold (rfc1321_step M) js (d, x, b, c))"
  "fold (rfc1321_step M) (1 # js) (a, b, c, d) = (let x = MD5STEP F1 a b c d (M ! 1 + 0xe8c7b756) 12 in fold (rfc1321_step M) js (d, x, b, c))"
  "fold (rfc1321_step M) (2 # js) (a, b, c, d) = (let x = MD5STEP F1 a b c d (M ! 2 + 0x242070db) 17 in fold (rfc1321_step M) js (d, x, b, c))"
  "fold (rfc1321_step M) (3 # js) (a, b, c, d) = (let x = MD5STEP F1 a b c d (M ! 3 + 0xc1bdceee) 22 in fold (rfc1321_step M) js (d, x, b, c))"
  "fold (rfc1321_step M) (4 # js) (a, b, c, d) = (let x = MD5STEP F1 a b c d (M ! 4 + 0xf57c0faf) 7 in fold (rfc1321_step M) js (d, x, b, c))"
  "fold (rfc1321_step M) (5 # js) (a, b, c, d) = (let x = MD5STEP F1 a b c d (M ! 5 + 0x4787c62a) 12 in fold (rfc1321_step M) js (d, x, b, c))"
  "fold (rfc1321_step M) (6 # js) (a, b, c, d) = (let x = MD5STEP F1 a b c d (M ! 6 + 0xa8304613) 17 in fold (rfc1321_step M) js (d, x, b, c))"
  "fold (rfc1321_step M) (7 # js) (a, b, c, d) = (let x = MD5STEP F1 a b c d (M ! 7 + 0xfd469501) 22 in fold (rfc1321_step M) js (d, x, b, c))"
  "fold (rfc1321_step M) (8 # js) (a, b, c, d) = (let x = MD5STEP F1 a b c d (M ! 8 + 0x698098d8) 7 in fold (rfc1321_step M) js (d, x, b, c))"
  "fold (rfc1321_step M) (9 # js) (a, b, c, d) = (let x = MD5STEP F1 a b c d (M ! 9 + 0x8b44f7af) 12 in fold (rfc1321_step M) js (d, x, b, c))"
  "fold (rfc1321_step M) (10 # js) (a, b, c, d) = (let x = MD5STEP F1 a b c d (M ! 10 + 0xffff5bb1) 17 in fold (rfc1321_step M) js (d, x, b, c))"
  "fold (rfc1321_step M) (11 # js) (a, b, c, d) = (let x = MD5STEP F1 a b c d (M ! 11 + 0x895cd7be) 22 in fold (rfc1321_step M) js (d, x, b, c))"
  "fold (rfc1321_step M) (12 # js) (a, b, c, d) = (let x = MD5STEP F1 a b c d (M ! 12 + 0x6b901122) 7 in fold (rfc1321_step M) js (d, x, b, c))"
  "fold (rfc1321_step M) (13 # js) (a, b, c, d) = (let x = MD5STEP F1 a b c d (M ! 13 + 0xfd987193) 12 in fold (rfc1321_step M) js (d, x, b, c))"
  "fold (rfc1321_step M) (14 # js) (a, b, c, d) = (let x = MD5STEP F1 a b c d (M ! 14 + 0xa679438e) 17 in fold (rfc1321_step M) js (d, x, b, c))"
  "fold (rfc1321_step M) (15 # js) (a, b, c, d) = (let x = MD5STEP F1 a b c d (M ! 15 + 0x49b40821) 22 in fold (rfc1321_step M) js (d, x, b, c))"
  by (simp_all add: rfc1321_step_def F_rounds step_eq rfc1321_index_def rfc1321_shift_def rfc1321_K_def)

lemma steps2:
  "fold (rfc1321_step M) (16 # js) (a, b, c, d) = (let x = MD5STEP F2 a b c d (M ! 1 + 0xf61e2562) 5 in fold (rfc1321_step M) js (d, x, b, c))"
  "fold (rfc1321_step M) (17 # js) (a, b, c, d) = (let x = MD5STEP F2 a b c d (M ! 6 + 0xc040b340) 9 in fold (rfc1321_step M) js (d, x, b, c))"
  "fold (rfc1321_step M) (18 # js) (a, b, c, d) = (let x = MD5STEP F2 a b c d (M ! 11 + 0x265e5a51) 14 in fold (rfc1321_step M) js (d, x, b, c))"
  "fold (rfc1321_step M) (19 # js) (a, b, c, d) = (let x = MD5STEP F2 a b c d (M ! 0 + 0xe9b6c7aa) 20 in fold (rfc1321_step M) js (d, x, b, c))"
  "fold (rfc1321_step M) (20 # js) (a, b, c, d) = (let x = MD5STEP F2 a b c d (M ! 5 + 0xd62f105d) 5 in fold (rfc1321_step M) js (d, x, b, c))"
  "fold (rfc1321_step M) (21 # js) (a, b, c, d) = (let x = MD5STEP F2 a b c d (M ! 10 + 0x02441453) 9 in fold (rfc1321_step M) js (d, x, b, c))"
  "fold (rfc1321_step M) (22 # js) (a, b, c, d) = (let x = MD5STEP F2 a b c d (M ! 15 + 0xd8a1e681) 14 in fold (rfc1321_step M) js (d, x, b, c))"
  "fold (rfc1321_step M) (23 # js) (a, b, c, d) = (let x = MD5STEP F2 a b c d (M ! 4 + 0xe7d3fbc8) 20 in fold (rfc1321_step M) js (d, x, b, c))"
  "fold (rfc1321_step M) (24 # js) (a, b, c, d) = (let x = MD5STEP F2 a b c d (M ! 9 + 0x21e1cde6) 5 in fold (rfc1321_step M) js (d, x, b, c))"
  "fold (rfc1321_step M) (25 # js) (a, b, c, d) = (let x = MD5STEP F2 a b c d (M ! 14 + 0xc33707d6) 9 in fold (rfc1321_step M) js (d, x, b, c))"
  "fold (rfc1321_step M) (26 # js) (a, b, c, d) = (let x = MD5STEP F2 a b c d (M ! 3 + 0xf4d50d87) 14 in fold (rfc1321_step M) js (d, x, b, c))"
  "fold (rfc1321_step M) (27 # js) (a, b, c, d) = (let x = MD5STEP F2 a b c d (M ! 8 + 0x455a14ed) 20 in fold (rfc1321_step M) js (d, x, b, c))"
  "fold (rfc1321_step M) (28 # js) (a, b, c, d) = (let x = MD5STEP F2 a b c d (M ! 13 + 0xa9e3e905) 5 in fold (rfc1321_step M) js (d, x, b, c))"
  "fold (rfc1321_step M) (29 # js) (a, b, c, d) = (let x = MD5STEP F2 a b c d (M ! 2 + 0xfcefa3f8) 9 in fold (rfc1321_step M) js (d, x, b, c))"
  "fold (rfc1321_step M) (30 # js) (a, b, c, d) = (let x = MD5STEP F2 a b c d (M ! 7 + 0x676f02d9) 14 in fold (rfc1321_step M) js (d, x, b, c))"
  "fold (rfc1321_step M) (31 # js) (a, b, c, d) = (let x = MD5STEP F2 a b c d (M ! 12 + 0x8d2a4c8a) 20 in fold (rfc1321_step M) js (d, x, b, c))"
  by (simp_all add: rfc1321_step_def F_rounds step_eq rfc1321_index_def rfc1321_shift_def rfc1321_K_def)

lemma steps3:
  "fold (rfc1321_step M) (32 # js) (a, b, c, d) = (let x = MD5STEP F3 a b c d (M ! 5 + 0xfffa3942) 4 in fold (rfc1321_step M) js (d, x, b, c))"
  "fold (rfc1321_step M) (33 # js) (a, b, c, d) = (let x = MD5STEP F3 a b c d (M ! 8 + 0x8771f681) 11 in fold (rfc1321_step M) js (d, x, b, c))"
  "fold (rfc1321_step M) (34 # js) (a, b, c, d) = (let x = MD5STEP F3 a b c d (M ! 11 + 0x6d9d6122) 16 in fold (rfc1321_step M) js (d, x, b, c))"
  "fold (rfc1321_step M) (35 # js) (a, b, c, d) = (let x = MD5STEP F3 a b c d (M ! 14 + 0xfde5380c) 23 in fold (rfc1321_step M) js (d, x, b, c))"
  "fold (rfc1321_step M) (36 # js) (a, b, c, d) = (let x = MD5STEP F3 a b c d (M ! 1 + 0xa4beea44) 4 in fold (rfc1321_step M) js (d, x, b, c))"
  "fold (rfc1321_step M) (37 # js) (a, b, c, d) = (let x = MD5STEP F3 a b c d (M ! 4 + 0x4bdecfa9) 11 in fold (rfc1321_step M) js (d, x, b, c))"
  "fold (rfc1321_step M) (38 # js) (a, b, c, d) = (let x = MD5STEP F3 a b c d (M ! 7 + 0xf6bb4b60) 16 in fold (rfc1321_step M) js (d, x, b, c))"
  "fold (rfc1321_step M) (39 # js) (a, b, c, d) = (let x = MD5STEP F3 a b c d (M ! 10 + 0xbebfbc70) 23 in fold (rfc1321_step M) js (d, x, b, c))"
  "fold (rfc1321_step M) (40 # js) (a, b, c, d) = (let x = MD5STEP F3 a b c d (M ! 13 + 0x289b7ec6) 4 in fold (rfc1321_step M) js (d, x, b, c))"
  "fold (rfc1321_step M) (41 # js) (a, b, c, d) = (let x = MD5STEP F3 a b c d (M ! 0 + 0xeaa127fa) 11 in fold (rfc1321_step M) js (d, x, b, c))"
  "fold (rfc1321_step M) (42 # js) (a, b, c, d) = (let x = MD5STEP F3 a b c d (M ! 3 + 0xd4ef3085) 16 in fold (rfc1321_step M) js (d, x, b, c))"
  "fold (rfc1321_step M) (43 # js) (a, b, c, d) = (let x = MD5STEP F3 a b c d (M ! 6 + 0x04881d05) 23 in fold (rfc1321_step M) js (d, x, b, c))"
  "fold (rfc1321_step M) (44 # js) (a, b, c, d) = (let x = MD5STEP F3 a b c d (M ! 9 + 0xd9d4d039) 4 in fold (rfc1321_step M) js (d, x, b, c))"
  "fold (rfc1321_step M) (45 # js) (a, b, c, d) = (let x = MD5STEP F3 a b c d (M ! 12 + 0xe6db99e5) 11 in fold (rfc1321_step M) js (d, x, b, c))"
  "fold (rfc1321_step M) (46 # js) (a, b, c, d) = (let x = MD5STEP F3 a b c d (M ! 15 + 0x1fa27cf8) 16 in fold (rfc1321_step M) js (d, x, b, c))"
  "fold (rfc1321_step M) (47 # js) (a, b, c, d) = (let x = MD5STEP F3 a b c d (M ! 2 + 0xc4ac5665) 23 in fold (rfc1321_step M) js (d, x, b, c))"
  by (simp_all add: rfc1321_step_def F_rounds step_eq rfc1321_index_def rfc1321_shift_def rfc1321_K_def)

lemma steps4:
  "fold (rfc1321_step M) (48 # js) (a, b, c, d) = (let x = MD5STEP F4 a b c d (M ! 0 + 0xf4292244) 6 in fold (rfc1321_step M) js (d, x, b, c))"
  "fold (rfc1321_step M) (49 # js) (a, b, c, d) = (let x = MD5STEP F4 a b c d (M ! 7 + 0x432aff97) 10 in fold (rfc1321_step M) js (d, x, b, c))"
  "fold (rfc1321_step M) (50 # js) (a, b, c, d) = (let x = MD5STEP F4 a b c d (M ! 14 + 0xab9423a7) 15 in fold (rfc1321_step M) js (d, x, b, c))"
  "fold (rfc1321_step M) (51 # js) (a, b, c, d) = (let x = MD5STEP F4 a b c d (M ! 5 + 0xfc93a039) 21 in fold (rfc1321_step M) js (d, x, b, c))"
  "fold (rfc1321_step M) (52 # js) (a, b, c, d) = (let x = MD5STEP F4 a b c d (M ! 12 + 0x655b59c3) 6 in fold (rfc1321_step M) js (d, x, b, c))"
  "fold (rfc1321_step M) (53 # js) (a, b, c, d) = (let x = MD5STEP F4 a b c d (M ! 3 + 0x8f0ccc92) 10 in fold (rfc1321_step M) js (d, x, b, c))"
  "fold (rfc1321_step M) (54 # js) (a, b, c, d) = (let x = MD5STEP F4 a b c d (M ! 10 + 0xffeff47d) 15 in fold (rfc1321_step M) js (d, x, b, c))"
  "fold (rfc1321_step M) (55 # js) (a, b, c, d) = (let x = MD5STEP F4 a b c d (M ! 1 + 0x85845dd1) 21 in fold (rfc1321_step M) js (d, x, b, c))"
  "fold (rfc1321_step M) (56 # js) (a, b, c, d) = (let x = MD5STEP F4 a b c d (M ! 8 + 0x6fa87e4f) 6 in fold (rfc1321_step M) js (d, x, b, c))"
  "fold (rfc1321_step M) (57 # js) (a, b, c, d) = (let x = MD5STEP F4 a b c d (M ! 15 + 0xfe2ce6e0) 10 in fold (rfc1321_step M) js (d, x, b, c))"
  "fold (rfc1321_step M) (58 # js) (a, b, c, d) = (let x = MD5STEP F4 a b c d (M ! 6 + 0xa3014314) 15 in fold (rfc1321_step M) js (d, x, b, c))"
  "fold (rfc1321_step M) (59 # js) (a, b, c, d) = (let x = MD5STEP F4 a b c d (M ! 13 + 0x4e0811a1) 21 in fold (rfc1321_step M) js (d, x, b, c))"
  "fold (rfc1321_step M) (60 # js) (a, b, c, d) = (let x = MD5STEP F4 a b c d (M ! 4 + 0xf7537e82) 6 in fold (rfc1321_step M) js (d, x, b, c))"
  "fold (rfc1321_step M) (61 # js) (a, b, c, d) = (let x = MD5STEP F4 a b c d (M ! 11 + 0xbd3af235) 10 in fold (rfc1321_step M) js (d, x, b, c))"
  "fold (rfc1321_step M) (62 # js) (a, b, c, d) = (let x = MD5STEP F4 a b c d (M ! 2 + 0x2ad7d2bb) 15 in fold (rfc1321_step M) js (d, x, b, c))"
  "fold (rfc1321_step M) (63 # js) (a, b, c, d) = (let x = MD5STEP F4 a b c d (M ! 9 + 0xeb86d391) 21 in fold (rfc1321_step M) js (d, x, b, c))"
  by (simp_all add: rfc1321_step_def F_rounds step_eq rfc1321_index_def rfc1321_shift_def rfc1321_K_def)

lemma round1: "fold (rfc1321_step M) [0, 1, 2, 3, 4, 5, 6, 7, 8, 9, 10, 11, 12, 13, 14, 15] (a, b, c, d) = md5_round1 M (a, b, c, d)"
  by (simp only: steps1 fold_simps(1) md5_round1_def prod.case Let_def [of "(a, b, c, d)"])

lemma round2: "fold (rfc1321_step M) [16, 17, 18, 19, 20, 21, 22, 23, 24, 25, 26, 27, 28, 29, 30, 31] (a, b, c, d) = md5_round2 M (a, b, c, d)"
  by (simp only: steps2 fold_simps(1) md5_round2_def prod.case Let_def [of "(a, b, c, d)"])

lemma round3: "fold (rfc1321_step M) [32, 33, 34, 35, 36, 37, 38, 39, 40, 41, 42, 43, 44, 45, 46, 47] (a, b, c, d) = md5_round3 M (a, b, c, d)"
  by (simp only: steps3 fold_simps(1) md5_round3_def prod.case Let_def [of "(a, b, c, d)"])

lemma round4: "fold (rfc1321_step M) [48, 49, 50, 51, 52, 53, 54, 55, 56, 57, 58, 59, 60, 61, 62, 63] (a, b, c, d) = md5_round4 M (a, b, c, d)"
  by (simp only: steps4 fold_simps(1) md5_round4_def prod.case Let_def [of "(a, b, c, d)"])

lemma MD5Transform_rfc: "MD5Transform s (md5_words bytes) = rfc1321_block s bytes"
proof -
  obtain a b c d where s: "s = (a, b, c, d)" by (cases s) auto
  have l: "[0..<64] = [0, 1, 2, 3, 4, 5, 6, 7, 8, 9, 10, 11, 12, 13, 14, 15] @ [16, 17, 18, 19, 20, 21, 22, 23, 24, 25, 26, 27, 28, 29, 30, 31] @
      [32, 33, 34, 35, 36, 37, 38, 39, 40, 41, 42, 43, 44, 45, 46, 47] @ [48, 49, 50, 51, 52, 53, 54, 55, 56, 57, 58, 59, 60, 61, 62, 63]"
    by (simp add: upt_rec)
  have r: "fold (rfc1321_step M) [0, 1, 2, 3, 4, 5, 6, 7, 8, 9, 10, 11, 12, 13, 14, 15] x = md5_round1 M x"
    "fold (rfc1321_step M) [16, 17, 18, 19, 20, 21, 22, 23, 24, 25, 26, 27, 28, 29, 30, 31] x = md5_round2 M x"
    "fold (rfc1321_step M) [32, 33, 34, 35, 36, 37, 38, 39, 40, 41, 42, 43, 44, 45, 46, 47] x = md5_round3 M x"
    "fold (rfc1321_step M) [48, 49, 50, 51, 52, 53, 54, 55, 56, 57, 58, 59, 60, 61, 62, 63] x = md5_round4 M x" for M x
    by (cases x; simp only: round1 round2 round3 round4)+
  show ?thesis unfolding MD5Transform_def rfc1321_block_def l fold_append comp_def r ..
qed

section \<open>Messages in pieces\<close>

lemma byte_high_bits: "\<not> bit (a :: u8) (8 + n)" "\<not> bit (a :: u8) (16 + n)" "\<not> bit (a :: u8) (24 + n)"
  by (auto dest: bit_imp_le_length)

lemma IVAL_bytes: "4 \<le> length buf \<Longrightarrow> SIVAL (IVAL buf 0) = take 4 buf"
proof -
  assume "4 \<le> length buf"
  then obtain a b c d r where buf: "buf = a # b # c # d # r"
    by (metis Suc_le_length_iff numeral_eq_Suc pred_numeral_simps(2,3) semiring_norm(26,27,28) eval_nat_numeral(1) numeral_3_eq_3 One_nat_def numeral_2_eq_2)
  have "ucast (ucast (IVAL buf 0 AND 0xFFFF) AND 0xFF :: u16) = a" "ucast (drop_bit 8 (ucast (IVAL buf 0 AND 0xFFFF) :: u16)) = b"
    "ucast (ucast (drop_bit 16 (IVAL buf 0)) AND 0xFF :: u16) = c" "ucast (drop_bit 8 (ucast (drop_bit 16 (IVAL buf 0)) :: u16)) = d"
    by (auto simp: buf IVAL_def SVAL_def mask_numerals bit_simps byte_high_bits intro!: bit_word_eqI)
  then show ?thesis by (simp add: buf SIVAL_def SSVAL_def)
qed

lemma byteReverse_id: "4 * n \<le> length buf \<Longrightarrow> byteReverse buf n = buf"
proof (induction n arbitrary: buf)
  case (Suc n)
  then have "byteReverse (drop 4 buf) n = drop 4 buf" by simp
  then show ?case using Suc.prems IVAL_bytes [of buf] by simp
qed simp

text \<open>The context after the message \<open>m\<close>.\<close>

definition md5_rep :: "MD5Context \<Rightarrow> u8 list \<Rightarrow> bool" where
  "md5_rep ctx m \<longleftrightarrow> mc_buf ctx = absorb rfc1321_block rfc1321_iv m \<and> length (mc_in ctx) = 64 \<and> take (length m mod 64) (mc_in ctx) = rest m \<and>
     mc_bits0 ctx = of_nat (8 * length m) \<and> mc_bits1 ctx = of_nat (8 * length m div 2 ^ 32)"

lemma carry_out:
  assumes "x < p" "y < (p :: nat)"
  shows "((x + y) mod p < x) = (p \<le> x + y)" "(x + y) div p = (if p \<le> x + y then 1 else 0)"
proof -
  have "(x + y) mod p = x + y - p \<and> (x + y) div p = 1" if "p \<le> x + y"
    using that assms by (simp add: le_mod_geq le_div_geq)
  moreover have "(x + y) mod p = x + y \<and> (x + y) div p = 0" if "\<not> p \<le> x + y" using that by simp
  ultimately show "((x + y) mod p < x) = (p \<le> x + y)" "(x + y) div p = (if p \<le> x + y then 1 else 0)"
    using assms by (cases "p \<le> x + y"; simp)+
qed

lemma md5_count_bits:
  assumes "mc_bits0 ctx = of_nat (8 * n)" "mc_bits1 ctx = of_nat (8 * n div 2 ^ 32)"
  shows "mc_bits0 (md5_count k ctx) = of_nat (8 * (n + k))" "mc_bits1 (md5_count k ctx) = of_nat (8 * (n + k) div 2 ^ 32)"
    "mc_buf (md5_count k ctx) = mc_buf ctx" "mc_in (md5_count k ctx) = mc_in ctx"
proof -
  let ?p = "2 ^ 32 :: nat"
  have low: "mc_bits0 ctx + push_bit 3 (of_nat k) = of_nat (8 * (n + k))"
    by (simp add: assms(1) push_bit_eq_mult algebra_simps)
  then show b0: "mc_bits0 (md5_count k ctx) = of_nat (8 * (n + k))" by (simp add: md5_count_def Let_def)
  have d: "8 * n = ?p * (8 * n div ?p) + 8 * n mod ?p" "8 * k = ?p * (8 * k div ?p) + 8 * k mod ?p" by (rule mult_div_mod_eq [symmetric])+
  have "8 * k div ?p = k div 2 ^ 29" using div_mult2_eq [of "8 * k" 8 "2 ^ 29"] by simp
  then have sum: "8 * (n + k) = ?p * (8 * n div ?p + k div 2 ^ 29) + (8 * n mod ?p + 8 * k mod ?p)" using d by (simp add: algebra_simps)
  have small: "8 * n mod ?p < ?p" "8 * k mod ?p < ?p" by simp_all
  have u: "unat (of_nat (8 * (n + k)) :: u32) = (8 * n mod ?p + 8 * k mod ?p) mod ?p" "unat (of_nat (8 * n) :: u32) = 8 * n mod ?p"
    unfolding unat_of_nat by (simp_all add: mod_simps distrib_left)
  have carry: "((of_nat (8 * (n + k)) :: u32) < of_nat (8 * n)) = (?p \<le> 8 * n mod ?p + 8 * k mod ?p)"
    unfolding word_less_nat_alt u using small by (rule carry_out)
  have "8 * (n + k) div ?p = (8 * n div ?p + k div 2 ^ 29) + (8 * n mod ?p + 8 * k mod ?p) div ?p"
    unfolding sum by (rule div_mult_self4) simp
  moreover have "(8 * n mod ?p + 8 * k mod ?p) div ?p = (if ?p \<le> 8 * n mod ?p + 8 * k mod ?p then 1 else 0)" using small by (rule carry_out)
  ultimately show "mc_bits1 (md5_count k ctx) = of_nat (8 * (n + k) div ?p)"
    unfolding md5_count_def Let_def low using carry assms by simp
  show "mc_buf (md5_count k ctx) = mc_buf ctx" "mc_in (md5_count k ctx) = mc_in ctx" by (simp_all add: md5_count_def Let_def)
qed

lemma count_position: "mc_bits0 ctx = of_nat (8 * n) \<Longrightarrow> unat (drop_bit 3 (mc_bits0 ctx) AND 0x3F) = n mod 64"
proof -
  assume a: "mc_bits0 ctx = of_nat (8 * n)"
  have "(0x3F :: u32) = mask 6" by code_simp
  then have "drop_bit 3 (mc_bits0 ctx) AND 0x3F = take_bit 6 (drop_bit 3 (mc_bits0 ctx))" by (simp only: take_bit_eq_mask)
  moreover have "unat (drop_bit 3 (mc_bits0 ctx)) = 8 * n mod 2 ^ 32 div 8" unfolding a unat_drop_bit_eq unat_of_nat by (simp add: drop_bit_eq_div)
  ultimately have "unat (drop_bit 3 (mc_bits0 ctx) AND 0x3F) = 8 * n mod 2 ^ 32 div 8 mod 64"
    by (simp only: unsigned_take_bit_eq) (simp add: take_bit_eq_mod)
  moreover have "8 * n mod 2 ^ 32 = 8 * (n mod 2 ^ 29)" using mod_mult_mult1 [of 8 n "2 ^ 29"] by simp
  ultimately show ?thesis by (simp add: mod_mod_cancel)
qed

lemma transform_in: "length (mc_in ctx) = 64 \<Longrightarrow> md5_transform_in ctx = ctx\<lparr>mc_buf := rfc1321_block (mc_buf ctx) (mc_in ctx)\<rparr>"
  by (simp add: md5_transform_in_def byteReverse_id MD5Transform_rfc)

lemma put_in_length: "pos + length bytes \<le> 64 \<Longrightarrow> length (mc_in ctx) = 64 \<Longrightarrow> length (mc_in (put_in pos bytes ctx)) = 64"
  by (simp add: put_in_def)

lemma put_in_fields [simp]: "mc_buf (put_in p b ctx) = mc_buf ctx" "mc_bits0 (put_in p b ctx) = mc_bits0 ctx" "mc_bits1 (put_in p b ctx) = mc_bits1 ctx"
  by (simp_all add: put_in_def)

declare md5_loop.simps [simp del]

lemma md5_loop_result:
  "length (mc_in ctx) = 64 \<Longrightarrow> mc_buf (md5_loop buf ctx) = absorb rfc1321_block (mc_buf ctx) buf \<and> length (mc_in (md5_loop buf ctx)) = 64 \<and>
    take (length buf mod 64) (mc_in (md5_loop buf ctx)) = rest buf \<and> mc_bits0 (md5_loop buf ctx) = mc_bits0 ctx \<and> mc_bits1 (md5_loop buf ctx) = mc_bits1 ctx"
proof (induction buf ctx rule: md5_loop.induct)
  case (1 buf ctx)
  show ?case
  proof (cases "64 \<le> length buf")
    case True
    let ?c = "put_in 0 (take 64 buf) ctx"
    have c: "mc_in ?c = take 64 buf" "length (mc_in ?c) = 64" using 1(2) True by (simp_all add: put_in_def)
    have "rest buf = rest (drop 64 buf)" using full_rest_aligned(2) [of "take 64 buf" "drop 64 buf"] True by (simp add: min_def)
    moreover have "length buf mod 64 = (length buf - 64) mod 64" using True by (simp add: le_mod_geq)
    moreover have "absorb rfc1321_block (mc_buf ctx) buf = absorb rfc1321_block (rfc1321_block (mc_buf ctx) (take 64 buf)) (drop 64 buf)"
      using True by (subst absorb.simps) simp
    moreover have "md5_loop buf ctx = md5_loop (drop 64 buf) (md5_transform_in ?c)" using True by (subst md5_loop.simps) simp
    ultimately show ?thesis using 1(1) [OF True] transform_in [OF c(2)] c by simp
  next
    case False
    then have l: "md5_loop buf ctx = put_in 0 buf ctx" "rest buf = buf" "length buf mod 64 = length buf" using full_rest_short [of buf] by (simp_all add: not_le md5_loop.simps [of buf])
    have "length (mc_in (put_in 0 buf ctx)) = 64" by (rule put_in_length) (use False 1(2) in auto)
    moreover have "absorb rfc1321_block (mc_buf ctx) buf = mc_buf ctx" by (rule absorb_short) (use False in simp)
    ultimately show ?thesis unfolding l(1) using l False by (simp add: put_in_def)
  qed
qed

lemma md5_loop_rep:
  assumes "mc_buf ctx = absorb rfc1321_block rfc1321_iv m" "length (mc_in ctx) = 64" "64 dvd length m"
    "mc_bits0 ctx = of_nat (8 * length (m @ x))" "mc_bits1 ctx = of_nat (8 * length (m @ x) div 2 ^ 32)"
  shows "md5_rep (md5_loop x ctx) (m @ x)"
proof -
  have "length (m @ x) mod 64 = length x mod 64" using assms(3) by (auto simp: dvd_def)
  then show ?thesis unfolding md5_rep_def
    using md5_loop_result [OF assms(2), of x] full_rest_aligned(2) [OF assms(3), of x] assms by (simp add: absorb_append)
qed

lemma short_piece:
  assumes "length x < 64 - length m mod 64"
  shows "absorb f s (m @ x) = absorb f s m" "rest (m @ x) = rest m @ x" "length (m @ x) mod 64 = length m mod 64 + length x"
proof -
  have l: "length (rest m @ x) < 64" using assms by (simp add: length_rest)
  have e: "m @ x = full m @ (rest m @ x)" by (metis append_assoc full_rest)
  have a: "64 dvd length (full m)" by (simp add: length_full)
  show "absorb f s (m @ x) = absorb f s m" unfolding e absorb_append [OF a] absorb_short [OF l] by (rule absorb_full)
  show "rest (m @ x) = rest m @ x" unfolding e full_rest_aligned(2) [OF a] using full_rest_short [OF l] by simp
  have "length (m @ x) mod 64 = (length m mod 64 + length x) mod 64" by (simp add: mod_simps)
  then show "length (m @ x) mod 64 = length m mod 64 + length x" using assms by simp
qed

lemma put_in_rest:
  assumes "length (mc_in ctx) = 64" "take t (mc_in ctx) = r" "length r = t" "t + length x \<le> 64"
  shows "take (t + length x) (mc_in (put_in t x ctx)) = r @ x" "length (mc_in (put_in t x ctx)) = 64"
  using assms by (simp_all add: put_in_def)

lemma MD5Update_rep: "md5_rep ctx m \<Longrightarrow> md5_rep (MD5Update x ctx) (m @ x)"
proof -
  assume r: "md5_rep ctx m"
  let ?t = "length m mod 64" and ?c = "md5_count (length x) ctx"
  have bits: "mc_bits0 ctx = of_nat (8 * length m)" "mc_bits1 ctx = of_nat (8 * length m div 2 ^ 32)" using r by (simp_all add: md5_rep_def)
  note n = md5_count_bits [OF bits, of "length x"]
  have c: "mc_buf ?c = absorb rfc1321_block rfc1321_iv m" "length (mc_in ?c) = 64" "take ?t (mc_in ?c) = rest m"
    using r n by (simp_all add: md5_rep_def)
  have u: "MD5Update x ctx = (if ?t \<noteq> 0 then if length x < 64 - ?t then put_in ?t x ?c
      else md5_loop (drop (64 - ?t) x) (md5_transform_in (put_in ?t (take (64 - ?t) x) ?c)) else md5_loop x ?c)"
    unfolding MD5Update_def Let_def count_position [OF bits(1)] ..
  consider (aligned) "?t = 0" | (short) "?t \<noteq> 0" "length x < 64 - ?t" | (complete) "?t \<noteq> 0" "\<not> length x < 64 - ?t" by blast
  then show ?thesis
  proof cases
    case aligned
    then show ?thesis unfolding u using md5_loop_rep [of ?c m x] c n by (simp add: dvd_eq_mod_eq_0)
  next
    case short
    have "take (?t + length x) (mc_in (put_in ?t x ?c)) = rest m @ x \<and> length (mc_in (put_in ?t x ?c)) = 64"
      using put_in_rest [OF c(2,3)] short by (simp add: length_rest)
    then show ?thesis unfolding u md5_rep_def short_piece [OF short(2)] using short c n by simp
  next
    case complete
    let ?y = "take (64 - ?t) x" and ?z = "drop (64 - ?t) x"
    have y: "length ?y = 64 - ?t" "?t + length ?y = 64" using complete mod_less_divisor [of 64 "length m"] by (simp_all add: min_def)
    note cm = absorb_complete [OF y(1) complete(1)]
    have i: "length (mc_in (put_in ?t ?y ?c)) = 64" "mc_in (put_in ?t ?y ?c) = rest m @ ?y"
      using put_in_rest [OF c(2,3) length_rest, of ?y] y(2) by simp_all
    have "md5_rep (md5_loop ?z (md5_transform_in (put_in ?t ?y ?c))) ((m @ ?y) @ ?z)"
      by (rule md5_loop_rep [OF _ _ cm(2)]) (simp_all only: transform_in [OF i(1)] cm(1), use i c n in simp_all)
    then show ?thesis unfolding u using complete by simp
  qed
qed

text \<open>The last block, or the last two.\<close>

lemma put_in_rest':
  assumes "take t (mc_in ctx) = r \<and> length (mc_in ctx) = 64" "length r = t" "u = t + length x" "u \<le> 64"
  shows "take u (mc_in (put_in t x ctx)) = r @ x \<and> length (mc_in (put_in t x ctx)) = 64"
  using assms put_in_rest [of ctx t r x] by simp

lemma length_rfc1321_length: "length (rfc1321_length n) = 8"
  by (simp add: rfc1321_length_def SIVAL_def SSVAL_def)

lemma MD5Final_rep: "md5_rep ctx m \<Longrightarrow> fst (MD5Final ctx) = rfc1321_md5 m"
proof -
  assume r: "md5_rep ctx m"
  let ?t = "length m mod 64" and ?s = "absorb rfc1321_block rfc1321_iv m"
  have f: "mc_buf ctx = ?s" "mc_bits0 ctx = of_nat (8 * length m)" "mc_bits1 ctx = of_nat (8 * length m div 2 ^ 32)"
    "take ?t (mc_in ctx) = rest m \<and> length (mc_in ctx) = 64" using r by (simp_all add: md5_rep_def)
  define c1 where "c1 = put_in ?t [0x80] ctx"
  have t: "?t < 64" by simp
  have c1: "take (?t + 1) (mc_in c1) = rest m @ [0x80] \<and> length (mc_in c1) = 64"
    unfolding c1_def by (rule put_in_rest' [OF f(4) length_rest]) (use t in simp_all)
  define c2 where "c2 = (if 64 - 1 - ?t < 8 then put_in 0 (replicate 56 0) (md5_transform_in (put_in (?t + 1) (replicate (64 - 1 - ?t) 0) c1))
      else put_in (?t + 1) (replicate (64 - 1 - ?t - 8) 0) c1)"
  define pre s where "pre = (if ?t < 56 then rest m @ [0x80] @ replicate (55 - ?t) 0 else replicate 56 0)"
    and "s = (if ?t < 56 then ?s else rfc1321_block ?s (rest m @ [0x80] @ replicate (63 - ?t) 0))"
  have c2: "take 56 (mc_in c2) = pre \<and> length (mc_in c2) = 64 \<and> mc_buf c2 = s"
  proof (cases "?t < 56")
    case True
    have e: "c2 = put_in (?t + 1) (replicate (64 - 1 - ?t - 8) 0) c1" using True by (simp add: c2_def)
    have "take 56 (mc_in c2) = (rest m @ [0x80]) @ replicate (64 - 1 - ?t - 8) 0 \<and> length (mc_in c2) = 64"
      unfolding e by (rule put_in_rest' [OF c1]) (use True in \<open>simp_all add: length_rest\<close>)
    moreover have "mc_buf c2 = ?s" unfolding e by (simp add: c1_def f(1))
    ultimately show ?thesis using True by (simp add: pre_def s_def)
  next
    case False
    define c where "c = put_in (?t + 1) (replicate (64 - 1 - ?t) 0) c1"
    have c: "take 64 (mc_in c) = (rest m @ [0x80]) @ replicate (64 - 1 - ?t) 0 \<and> length (mc_in c) = 64"
      unfolding c_def by (rule put_in_rest' [OF c1]) (use t in \<open>simp_all add: length_rest\<close>)
    then have i: "mc_in c = rest m @ [0x80] @ replicate (63 - ?t) 0" using take_all [of "mc_in c" 64] by simp
    have b: "mc_buf c = ?s" by (simp add: c_def c1_def f(1))
    have e: "c2 = put_in 0 (replicate 56 0) (md5_transform_in c)" using False by (simp add: c2_def c_def)
    have "take 56 (mc_in c2) = [] @ replicate 56 0 \<and> length (mc_in c2) = 64"
      unfolding e by (rule put_in_rest') (use c in \<open>simp_all add: transform_in\<close>)
    moreover have "mc_buf c2 = rfc1321_block ?s (rest m @ [0x80] @ replicate (63 - ?t) 0)"
      unfolding e using c by (simp add: transform_in b) (simp add: i)
    ultimately show ?thesis using False by (simp add: pre_def s_def)
  qed
  define c4 where "c4 = put_in 56 (SIVAL (mc_bits0 ctx) @ SIVAL (mc_bits1 ctx)) c2"
  have len: "SIVAL (mc_bits0 ctx) @ SIVAL (mc_bits1 ctx) = rfc1321_length (length m)" unfolding f rfc1321_length_def ..
  have "length pre = 56" using c2 by auto
  then have c4: "take 64 (mc_in c4) = pre @ rfc1321_length (length m) \<and> length (mc_in c4) = 64"
    unfolding c4_def len using c2 by (intro put_in_rest') (simp_all add: length_rfc1321_length)
  have "fst (MD5Final ctx) = rfc1321_out (rfc1321_block s (pre @ rfc1321_length (length m)))"
  proof -
    have r: "c2\<lparr>mc_in := byteReverse (mc_in c2) 14\<rparr> = c2" using c2 by (simp add: byteReverse_id)
    have b: "mc_buf c4 = s" "mc_in c4 = pre @ rfc1321_length (length m)" using c2 c4 take_all [of "mc_in c4" 64] by (simp_all add: c4_def)
    obtain a b c d where out: "rfc1321_block s (pre @ rfc1321_length (length m)) = (a, b, c, d)" by (metis prod_cases4)
    have "byteReverse (SIVAL a @ SIVAL b @ SIVAL c @ SIVAL d) 4 = SIVAL a @ SIVAL b @ SIVAL c @ SIVAL d"
      by (rule byteReverse_id) (simp add: SIVAL_def SSVAL_def)
    then show ?thesis
      unfolding MD5Final_def Let_def count_position [OF f(2)] c1_def [symmetric] c2_def [symmetric] r c4_def [symmetric] MD5Transform_rfc b out rfc1321_out_def
      by (simp only: prod.case fst_conv)
  qed
  then show ?thesis unfolding rfc1321_md5_def md_hash_def absorb_pad [OF length_rfc1321_length] by (simp add: pre_def s_def)
qed

section \<open>The interface\<close>

lemma MD5Init_rep: "length junk = 64 \<Longrightarrow> md5_rep (MD5Init junk) []"
  by (simp add: md5_rep_def MD5Init_def rfc1321_iv_def absorb_short rest_def)

interpretation md5: digest MD5Init MD5Update "\<lambda>c. fst (MD5Final c)" rfc1321_md5 md5_rep "\<lambda>j. length j = 64" "\<lambda>_. True"
  by unfold_locales (simp_all add: MD5Init_rep MD5Update_rep MD5Final_rep)

lemma length_md5: "length (rfc1321_md5 m) = 16"
  by (simp add: rfc1321_md5_def md_hash_def rfc1321_out_def SIVAL_def SSVAL_def split: prod.split)

text \<open>
  C26. A message hashed by \<open>MD5Init\<close>, any number of calls of \<open>MD5Update\<close> with pieces of any lengths and
  \<open>MD5Final\<close> gives the MD5 digest of RFC 1321 of the pieces put together, whatever the memory of the
  context held before and also when the count of bits passes \<open>2\<^sup>3\<^sup>2\<close>.
\<close>

theorem md5_of_pieces:
  assumes "length junk = 64"
  shows "fst (MD5Final (fold MD5Update pieces (MD5Init junk))) = rfc1321_md5 (concat pieces)"
  using md5.pieces [OF assms] by simp

section \<open>The keyed digest\<close>

lemma md5_of_rfc: "length junk = 64 \<Longrightarrow> md5_of junk pieces = rfc1321_md5 (concat pieces)"
  unfolding md5_of_def using md5.pieces [of junk pieces] by simp

lemma hmac_session:
  assumes j: "length junk = 64"
  shows "hmac_md5_final junk (fold hmac_md5_update pieces (hmac_md5_init_rfc2104 junk key)) = rfc2104 rfc1321_md5 key (concat pieces)"
proof -
  let ?c = "hmac_md5_init_rfc2104 junk key"
  have pads: "hc_opad (fold hmac_md5_update pieces c) = hc_opad c" "hc_ctx (fold hmac_md5_update pieces c) = fold MD5Update pieces (hc_ctx c)" for c
    by (induction pieces arbitrary: c) (simp_all add: hmac_md5_update_def)
  define k where "k = (if 64 < length key then rfc1321_md5 key else key)"
  have k: "(if 64 < length key then md5_of junk [key] else key) = k" unfolding k_def md5_of_rfc [OF j] by simp
  have init: "hc_ctx ?c = MD5Update (map (\<lambda>x. x XOR 0x36) (k @ replicate (64 - length k) 0)) (MD5Init junk)"
    "hc_opad ?c = map (\<lambda>x. x XOR 0x5C) (k @ replicate (64 - length k) 0)"
    unfolding hmac_md5_init_rfc2104_def k Let_def by simp_all
  have "fst (MD5Final (fold MD5Update pieces (hc_ctx ?c))) = rfc1321_md5 (map (\<lambda>x. x XOR 0x36) (k @ replicate (64 - length k) 0) @ concat pieces)"
    unfolding init using md5.pieces [of junk "map (\<lambda>x. x XOR 0x36) (k @ replicate (64 - length k) 0) # pieces"] j by simp
  then show ?thesis
    unfolding hmac_md5_final_def pads md5_of_rfc [OF j] init rfc2104_def k_def [symmetric] Let_def by simp
qed

text \<open>
  The keyed digest, set up with a key of any length, given the text in any pieces and finished, is
  the HMAC of RFC 2104 over MD5; the variant that limits the key cuts a key of more than 64 bytes
  off instead of hashing it; the one-call function is the HMAC with the first 16 bytes of the key.
\<close>

theorem hmac_md5_rfc2104:
  assumes "length junk = 64"
  shows "hmac_md5_final junk (fold hmac_md5_update pieces (hmac_md5_init_rfc2104 junk key)) = rfc2104 rfc1321_md5 key (concat pieces) \<and>
    hmac_md5_final junk (fold hmac_md5_update pieces (hmac_md5_init_limK_to_64 junk key)) = rfc2104 rfc1321_md5 (take 64 key) (concat pieces) \<and>
    hmac_md5 junk key data = rfc2104 rfc1321_md5 (take 16 key) data"
proof (intro conjI)
  show "hmac_md5_final junk (fold hmac_md5_update pieces (hmac_md5_init_rfc2104 junk key)) = rfc2104 rfc1321_md5 key (concat pieces)"
    by (rule hmac_session [OF assms])
  show "hmac_md5_final junk (fold hmac_md5_update pieces (hmac_md5_init_limK_to_64 junk key)) = rfc2104 rfc1321_md5 (take 64 key) (concat pieces)"
    unfolding hmac_md5_init_limK_to_64_def by (rule hmac_session [OF assms])
  show "hmac_md5 junk key data = rfc2104 rfc1321_md5 (take 16 key) data"
    using hmac_session [OF assms, of "[]" "take 16 key"] hmac_session [OF assms, of "[data]" "take 16 key"]
    by (simp add: hmac_md5_def hmac_md5_init_limK_to_64_def Let_def)
qed

theorem md5_of_pieces_witness:
  "fst (MD5Final (fold MD5Update [replicate 3 1, replicate 70 2, [], [3]] (MD5Init (replicate 64 0xAA)))) = rfc1321_md5 (replicate 3 1 @ replicate 70 2 @ [3])"
  using md5_of_pieces [of "replicate 64 0xAA" "[replicate 3 1, replicate 70 2, [], [3]]"] by simp

theorem hmac_md5_rfc2104_witness:
  "hmac_md5_final (replicate 64 0) (fold hmac_md5_update [[1, 2], [3]] (hmac_md5_init_rfc2104 (replicate 64 0) (replicate 80 0x0B))) =
     rfc2104 rfc1321_md5 (replicate 80 0x0B) [1, 2, 3]"
  using hmac_md5_rfc2104 [of "replicate 64 0" "[[1, 2], [3]]" "replicate 80 0x0B"] by simp

end
