(* ===== verification/SmbSigningProps.thy ===== *)
theory SmbSigningProps
  imports SmbSigning SmbRequestProps Md5Props
begin

text \<open>
  What the signatures of SMB packets protect: a reply is accepted exactly when the eight bytes of its
  signature are those of the digest over the key, the packet and the sequence number; a packet that
  has been signed is accepted under the same key and number; sequence numbers do not repeat; and
  signing that has been established stays so, whatever the server sends.
\<close>

section \<open>Signatures\<close>

text \<open>The packet without the four bytes in front of it, and its signature.\<close>

definition smb_packet :: "request_buffer \<Rightarrow> u8 list" where
  "smb_packet rb = take (nat (rb_size rb - 4)) (drop 4 (rb_buffer rb))"

definition smb_mac :: "u8 list \<Rightarrow> u32 \<Rightarrow> u8 list \<Rightarrow> u8 list" where
  "smb_mac key seq pkt = take 8 (rfc1321_md5 (key @ take 14 pkt @ SIVAL seq @ SIVAL 0 @ drop 22 pkt))"

definition smb_signature :: "u8 list \<Rightarrow> u8 list" where
  "smb_signature pkt = take 8 (drop 14 pkt)"

definition wf_smb :: "request_buffer \<Rightarrow> bool" where
  "wf_smb rb \<longleftrightarrow> rb_hdr rb = 4 \<and> 0 \<le> rb_size rb \<and> rb_size rb \<le> int (length (rb_buffer rb)) \<and> rb_size rb < 18446744073709551616"

lemma length_smb_mac [simp]: "length (smb_mac key seq pkt) = 8"
  by (simp add: smb_mac_def length_md5)

lemma SIVAL_length [simp]: "length (SIVAL x) = 4"
  by (simp add: SIVAL_def SSVAL_def)

lemma SSVAL_length [simp]: "length (SSVAL x) = 2"
  by (simp add: SSVAL_def)

lemma length_smb_packet: "wf_smb rb \<Longrightarrow> 4 \<le> rb_size rb \<Longrightarrow> length (smb_packet rb) = nat (rb_size rb - 4)"
  by (auto simp: smb_packet_def wf_smb_def)

lemma peek_packet:
  assumes "wf_smb rb" "0 \<le> i" "0 \<le> n" "4 + i + n \<le> rb_size rb"
  shows "peek (4 + i) n (rb_buffer rb) = Some (take (nat n) (drop (nat i) (smb_packet rb)))"
proof -
  have "nat (4 + i) = nat i + 4" "nat n \<le> nat (rb_size rb - 4) - nat i" using assms by linarith+
  then show ?thesis using assms by (simp add: peek_def smb_packet_def wf_smb_def drop_take min_def)
qed

lemma check_exact:
  assumes j: "length junk = 64" and wf: "wf_smb rb"
  shows "check_signed_incoming_message junk rb key seq =
    Some (26 \<le> rb_size rb \<and> key \<noteq> [] \<and> smb_signature (smb_packet rb) = smb_mac key seq (smb_packet rb))"
proof (cases "26 \<le> rb_size rb \<and> key \<noteq> []")
  case True
  let ?p = "smb_packet rb"
  have h: "rb_hdr rb = 4" using wf by (simp add: wf_smb_def)
  have "peek 18 8 (rb_buffer rb) = Some (smb_signature ?p)" "peek 4 14 (rb_buffer rb) = Some (take 14 ?p)"
    using peek_packet [OF wf, of 14 8] peek_packet [OF wf, of 0 14] True by (simp_all add: smb_signature_def)
  moreover have "peek 26 (rb_size rb - 4 - 22) (rb_buffer rb) = Some (drop 22 ?p)"
    using peek_packet [OF wf, of 22 "rb_size rb - 4 - 22"] length_smb_packet [OF wf] True by (simp add: nat_diff_distrib)
  ultimately show ?thesis using True by (simp add: check_signed_incoming_message_def h md5_of_rfc [OF j] smb_mac_def)
next
  case False
  then show ?thesis by (auto simp: check_signed_incoming_message_def)
qed

text \<open>Writing and reading in a buffer that is given in pieces.\<close>

lemma poke_at: "ofs = int (length a) \<Longrightarrow> length c = length bs \<Longrightarrow> poke ofs bs (a @ c @ d) = Some (a @ bs @ d)"
  by (simp add: poke_def)

lemma peek_at: "ofs = int (length a) \<Longrightarrow> n = int (length c) \<Longrightarrow> peek ofs n (a @ c @ d) = Some c"
  by (simp add: peek_def)

text \<open>The fields of a packet that signing changes.\<close>

lemma packet_fields:
  assumes wf: "wf_smb rb" and sz: "26 \<le> rb_size rb"
  obtains n a f b s r t where "rb_buffer rb = n @ a @ f @ b @ s @ r @ t" "length n = 4" "length a = 10" "length f = 2" "length b = 2" "length s = 8"
    "smb_packet rb = a @ f @ b @ s @ r" "rb_size rb = int (26 + length r)"
proof -
  let ?b = "rb_buffer rb" and ?k = "nat (rb_size rb) - 26"
  have l: "26 + ?k \<le> length ?b" "26 \<le> nat (rb_size rb)" using wf sz by (simp_all add: wf_smb_def) linarith+
  define w where "w i m = take m (drop i ?b)" for i m
  have split: "w i (m + k) = w i m @ w (i + m) k" for i m k unfolding w_def by (simp only: take_add drop_drop add.commute [of m i])
  have len: "length (w i m) = m" if "i + m \<le> 26 + ?k" for i m using that l by (simp add: w_def)
  have "?b = w 0 26 @ w 26 ?k @ drop (26 + ?k) ?b"
    unfolding w_def by (metis append_take_drop_id drop_0 drop_drop add.commute)
  moreover have "w 0 26 = w 0 4 @ w 4 10 @ w 14 2 @ w 16 2 @ w 18 8"
    using split [of 0 4 22] split [of 4 10 12] split [of 14 2 10] split [of 16 2 8] by simp
  ultimately have e: "?b = w 0 4 @ w 4 10 @ w 14 2 @ w 16 2 @ w 18 8 @ w 26 ?k @ drop (26 + ?k) ?b" by simp
  have "smb_packet rb = w 4 (22 + ?k)" using l by (simp add: smb_packet_def w_def nat_diff_distrib)
  also have "\<dots> = w 4 10 @ w 14 2 @ w 16 2 @ w 18 8 @ w 26 ?k"
    using split [of 4 10 "12 + ?k"] split [of 14 2 "10 + ?k"] split [of 16 2 "8 + ?k"] split [of 18 8 ?k] by simp
  finally have p: "smb_packet rb = w 4 10 @ w 14 2 @ w 16 2 @ w 18 8 @ w 26 ?k" .
  have "rb_size rb = int (26 + length (w 26 ?k))" using len [of 26 ?k] sz by simp
  then show ?thesis by (intro that [OF e _ _ _ _ _ p]) (simp_all add: len)
qed

definition signed_flags :: "u8 list \<Rightarrow> u8 list" where
  "signed_flags f = SSVAL (ucast (SVAL f 0) OR FLAGS2_SMB_SECURITY_SIGNATURES)"

lemma sign_fields:
  assumes j: "length junk = 64" and wf: "wf_smb rb" and b: "rb_buffer rb = n @ a @ f @ b @ s @ r @ t"
    and l: "length n = 4" "length a = 10" "length f = 2" "length b = 2" "length s = 8" "rb_size rb = int (26 + length r)"
  shows "sign_outgoing_message junk rb key seq =
    Some (rb\<lparr>rb_buffer := n @ a @ signed_flags f @ b @ smb_mac key seq (a @ signed_flags f @ b @ s @ r) @ r @ t\<rparr>)"
proof -
  let ?q = "SIVAL seq @ SIVAL 0" and ?f = "signed_flags f"
  let ?mac = "smb_mac key seq (a @ ?f @ b @ s @ r)"
  have h: "rb_hdr rb = 4" "rb_size rb < 18446744073709551616" using wf by (simp_all add: wf_smb_def)
  have f2: "length ?f = 2" by (simp add: signed_flags_def)
  define s1 s2 where "s1 = take 4 s" and "s2 = drop 4 s"
  have s: "s = s1 @ s2" "length s1 = 4" "length s2 = 4" using l(5) by (simp_all add: s1_def s2_def)
  have "poke 18 (SIVAL seq) (rb_buffer rb) = Some (n @ a @ f @ b @ SIVAL seq @ s2 @ r @ t)"
    using poke_at [of 18 "n @ a @ f @ b" s1 "SIVAL seq" "s2 @ r @ t"] l s by (simp add: b)
  moreover have "poke 22 (SIVAL 0) (n @ a @ f @ b @ SIVAL seq @ s2 @ r @ t) = Some (n @ a @ f @ b @ ?q @ r @ t)"
    using poke_at [of 22 "n @ a @ f @ b @ SIVAL seq" s2 "SIVAL 0" "r @ t"] l s by simp
  ultimately have w: "pokes [(18, SIVAL seq), (22, SIVAL 0)] (rb_buffer rb) = Some (n @ a @ f @ b @ ?q @ r @ t)" by simp
  have m: "mark_packet_signed (rb\<lparr>rb_buffer := n @ a @ f @ b @ ?q @ r @ t\<rparr>) = Some (rb\<lparr>rb_buffer := n @ a @ ?f @ b @ ?q @ r @ t\<rparr>)"
    using peek_at [of 14 "n @ a" 2 f "b @ ?q @ r @ t"] poke_at [of 14 "n @ a" f ?f "b @ ?q @ r @ t"] l f2
    by (simp add: mark_packet_signed_def h signed_flags_def)
  have p: "peek 4 (usize (rb_size rb - 4)) (n @ a @ ?f @ b @ ?q @ r @ t) = Some (a @ ?f @ b @ ?q @ r)"
    using peek_at [of 4 n "rb_size rb - 4" "a @ ?f @ b @ ?q @ r" t] l f2 h by simp
  have mac: "take 8 (md5_of junk [key, a @ ?f @ b @ ?q @ r]) = ?mac"
    unfolding md5_of_rfc [OF j] smb_mac_def using l f2 by simp
  have "poke 18 ?mac (n @ a @ ?f @ b @ ?q @ r @ t) = Some (n @ a @ ?f @ b @ ?mac @ r @ t)"
    using poke_at [of 18 "n @ a @ ?f @ b" ?q ?mac "r @ t"] l f2 by simp
  then show ?thesis using w m p mac by (simp add: sign_outgoing_message_def h)
qed

lemma smb_mac_no_signature: "length x = 14 \<Longrightarrow> length s = 8 \<Longrightarrow> length s' = 8 \<Longrightarrow> smb_mac key seq (x @ s @ r) = smb_mac key seq (x @ s' @ r)"
  by (simp add: smb_mac_def)

text \<open>
  C24. Signing a packet. A packet with room for a signature is signed with no access outside its
  buffer; only its flag word, which gets the mark of signed packets, and its signature change; the
  check accepts it under the same key and number (unless the key is empty), and under another key
  or number only when that gives the same eight bytes.
\<close>

theorem signed_packet_accepted:
  assumes j: "length junk = 64" "length junk' = 64" and wf: "wf_smb rb" and sz: "26 \<le> rb_size rb"
  shows "\<exists>rb'. sign_outgoing_message junk rb key seq = Some rb' \<and> wf_smb rb' \<and> rb_size rb' = rb_size rb \<and>
    take 10 (smb_packet rb') = take 10 (smb_packet rb) \<and> drop 22 (smb_packet rb') = drop 22 (smb_packet rb) \<and>
    take 2 (drop 12 (smb_packet rb')) = take 2 (drop 12 (smb_packet rb)) \<and>
    take 2 (drop 10 (smb_packet rb')) = signed_flags (take 2 (drop 10 (smb_packet rb))) \<and>
    smb_signature (smb_packet rb') = smb_mac key seq (smb_packet rb') \<and>
    (\<forall>key' seq'. check_signed_incoming_message junk' rb' key' seq' =
       Some (key' \<noteq> [] \<and> smb_mac key seq (smb_packet rb') = smb_mac key' seq' (smb_packet rb')))"
proof -
  obtain n a f b s r t where p: "rb_buffer rb = n @ a @ f @ b @ s @ r @ t" "length n = 4" "length a = 10" "length f = 2" "length b = 2" "length s = 8"
    "smb_packet rb = a @ f @ b @ s @ r" "rb_size rb = int (26 + length r)"
    by (rule packet_fields [OF wf sz])
  let ?f = "signed_flags f"
  define m where "m = smb_mac key seq (a @ ?f @ b @ s @ r)"
  define rb' where "rb' = rb\<lparr>rb_buffer := n @ a @ ?f @ b @ m @ r @ t\<rparr>"
  have f2: "length ?f = 2" "length m = 8" by (simp_all add: signed_flags_def m_def)
  have sgn: "sign_outgoing_message junk rb key seq = Some rb'" unfolding rb'_def m_def by (rule sign_fields [OF j(1) wf p(1-6,8)])
  have wf': "wf_smb rb'" using wf p f2 by (simp add: rb'_def wf_smb_def)
  have pkt: "smb_packet rb' = a @ ?f @ b @ m @ r" using p f2 by (simp add: rb'_def smb_packet_def)
  have sig: "smb_signature (smb_packet rb') = m" unfolding pkt smb_signature_def using p f2 by simp
  have "smb_mac key seq ((a @ ?f @ b) @ s @ r) = smb_mac key seq ((a @ ?f @ b) @ m @ r)"
    by (rule smb_mac_no_signature) (use p f2 in simp_all)
  then have m: "m = smb_mac key seq (smb_packet rb')" by (intro trans [OF m_def]) (simp only: pkt append_assoc)
  have "check_signed_incoming_message junk' rb' key' seq' =
      Some (key' \<noteq> [] \<and> smb_mac key seq (smb_packet rb') = smb_mac key' seq' (smb_packet rb'))" for key' seq'
    unfolding check_exact [OF j(2) wf'] sig m [symmetric] using sz by (simp add: rb'_def)
  moreover have "take 10 (smb_packet rb') = take 10 (smb_packet rb)" "drop 22 (smb_packet rb') = drop 22 (smb_packet rb)"
    "take 2 (drop 12 (smb_packet rb')) = take 2 (drop 12 (smb_packet rb))"
    "take 2 (drop 10 (smb_packet rb')) = signed_flags (take 2 (drop 10 (smb_packet rb)))"
    unfolding pkt p(7) using p f2 by simp_all
  moreover have "smb_signature (smb_packet rb') = smb_mac key seq (smb_packet rb')" unfolding sig by (rule m)
  moreover have "rb_size rb' = rb_size rb" by (simp add: rb'_def)
  ultimately show ?thesis using sgn wf' by blast
qed

section \<open>Sequence numbers\<close>

fun allocate_all :: "'a smbcli_signed_request_scheme list \<Rightarrow> smb_signing_context \<Rightarrow> 'a smbcli_signed_request_scheme list" where
  "allocate_all [] si = []"
| "allocate_all (req # reqs) si = (case smbcli_req_allocate_seq_num req si of (req1, si1) \<Rightarrow> req1 # allocate_all reqs si1)"

text \<open>The numbers of a request: its own, and that of its reply if there is one.\<close>

definition request_numbers :: "'a smbcli_signed_request_scheme \<Rightarrow> u32 list" where
  "request_numbers req = sq_seq_num req # (if sq_sign_single_increment req then [] else [sq_seq_num req + 1])"

definition numbers_used :: "'a smbcli_signed_request_scheme list \<Rightarrow> nat" where
  "numbers_used reqs = sum_list (map (\<lambda>req. if sq_sign_single_increment req then 1 else 2) reqs)"

lemma consecutive_numbers:
  "concat (map request_numbers (allocate_all reqs si)) = map (\<lambda>i. sg_next_seq_num si + of_nat i) [0..<numbers_used reqs]"
proof (induction reqs arbitrary: si)
  case (Cons req reqs)
  let ?k = "if sq_sign_single_increment req then 1 else 2 :: nat"
  let ?g = "\<lambda>i. sg_next_seq_num si + of_nat i"
  have "concat (map request_numbers (allocate_all (req # reqs) si)) = map ?g [0..<?k] @ map (\<lambda>i. sg_next_seq_num si + of_nat ?k + of_nat i) [0..<numbers_used reqs]"
  proof -
    have "[0..<2] = [0, 1 :: nat]" by (simp add: upt_rec)
    then show ?thesis by (simp add: smbcli_req_allocate_seq_num_def request_numbers_def Cons.IH)
  qed
  also have "map (\<lambda>i. sg_next_seq_num si + of_nat ?k + of_nat i) [0..<numbers_used reqs] = map ?g [?k..<?k + numbers_used reqs]"
    by (rule nth_equalityI) (simp_all add: add.assoc)
  also have "map ?g [0..<?k] @ map ?g [?k..<?k + numbers_used reqs] = map ?g [0..<?k + numbers_used reqs]"
    by (simp only: upt_add_eq_append [OF le0] map_append)
  finally show ?case by (simp add: numbers_used_def)
qed (simp add: numbers_used_def)

text \<open>
  The sequence numbers of the requests sent while signing is on, and those expected of their
  replies, are all different until the 32-bit counter has gone round.
\<close>

theorem sequence_numbers_distinct:
  assumes "numbers_used reqs \<le> 4294967296"
  shows "distinct (concat (map request_numbers (allocate_all reqs si)))"
proof -
  have "inj_on (\<lambda>i. sg_next_seq_num si + (of_nat i :: u32)) {0..<numbers_used reqs}"
  proof (rule inj_onI)
    fix x y assume xy: "x \<in> {0..<numbers_used reqs}" "y \<in> {0..<numbers_used reqs}" "sg_next_seq_num si + of_nat x = sg_next_seq_num si + (of_nat y :: u32)"
    then have "unat (of_nat x :: u32) = unat (of_nat y :: u32)" by simp
    then show "x = y" using xy assms by (simp add: unat_of_nat)
  qed
  then show ?thesis unfolding consecutive_numbers by (simp add: distinct_map)
qed

section \<open>The signing engine\<close>

text \<open>What happens on a connection: the negotiated mode becomes known, signing is prepared or
  switched on during a session setup, requests are sent, and replies arrive and are accepted or not.\<close>

datatype sign_event =
    Negotiated u8
  | Temp_signing
  | Simple_signing "u8 list" "u8 list"
  | Send smbcli_signed_request
  | Reply smbcli_signed_request bool

inductive sign_step :: "u8 list \<Rightarrow> smbcli_negotiate \<Rightarrow> sign_event \<Rightarrow> smbcli_negotiate \<Rightarrow> bool" for junk where
  negotiated: "sign_step junk ng (Negotiated mode) (ng\<lparr>ng_sec_mode := mode\<rparr>)"
| temp: "sign_step junk ng Temp_signing (snd (smbcli_temp_set_signing ng))"
| simple: "sign_step junk ng (Simple_signing key response) (snd (smbcli_transport_simple_set_signing key response ng))"
| send: "smbcli_request_calculate_sign_mac junk req (ng_sign_info ng) = Some (req1, si) \<Longrightarrow> sign_step junk ng (Send req) (ng\<lparr>ng_sign_info := si\<rparr>)"
| reply: "smbcli_request_check_sign_mac junk req (ng_sign_info ng) = Some (accepted, si) \<Longrightarrow>
    sign_step junk ng (Reply req accepted) (ng\<lparr>ng_sign_info := si\<rparr>)"

inductive_cases sign_stepE [elim]: "sign_step junk ng ev ng'"

inductive sign_run :: "u8 list \<Rightarrow> smbcli_negotiate \<Rightarrow> sign_event list \<Rightarrow> smbcli_negotiate \<Rightarrow> bool" for junk where
  none: "sign_run junk ng [] ng"
| step: "sign_step junk ng ev ng1 \<Longrightarrow> sign_run junk ng1 evs ng2 \<Longrightarrow> sign_run junk ng (ev # evs) ng2"

definition fresh_negotiate :: "smb_signing_state \<Rightarrow> smbcli_negotiate" where
  "fresh_negotiate client_signing =
     \<lparr>ng_sec_mode = 0,
      ng_sign_info = smbcli_init_signing client_signing
        \<lparr>sg_signing_state = SMB_SIGNING_ENGINE_OFF, sg_mac_key = [], sg_next_seq_num = 0, sg_allow_smb_signing = False,
         sg_doing_signing = False, sg_mandatory_signing = False, sg_seen_valid = False\<rparr>,
      ng_readbraw_supported = False, ng_writebraw_supported = False\<rparr>"

definition sign_inv :: "smb_signing_context \<Rightarrow> bool" where
  "sign_inv si \<longleftrightarrow> (sg_signing_state si \<noteq> SMB_SIGNING_ENGINE_ON \<longrightarrow> sg_mac_key si = []) \<and> (sg_doing_signing si \<longleftrightarrow> sg_seen_valid si) \<and>
     (sg_signing_state si \<noteq> SMB_SIGNING_ENGINE_OFF \<longrightarrow> sg_allow_smb_signing si) \<and>
     (sg_doing_signing si \<longrightarrow> sg_signing_state si = SMB_SIGNING_ENGINE_ON \<and> sg_mac_key si \<noteq> [])"

definition valid_reply :: "u8 list \<Rightarrow> smbcli_signed_request \<Rightarrow> bool" where
  "valid_reply key req \<longleftrightarrow> 26 \<le> rb_size (sq_in req) \<and> smb_signature (smb_packet (sq_in req)) = smb_mac key (sq_seq_num req + 1) (smb_packet (sq_in req))"

lemma check_needs_key: "check_signed_incoming_message junk inb [] seq = Some g \<Longrightarrow> \<not> g"
  by (auto simp: check_signed_incoming_message_def split: if_splits)

text \<open>Signing is prepared or switched on only where it is allowed and not yet established.\<close>

lemma common_signing:
  "ng_sign_info (snd (smbcli_set_smb_signing_common ng)) = ng_sign_info ng"
  "fst (smbcli_set_smb_signing_common ng) \<Longrightarrow> \<not> sg_doing_signing (ng_sign_info ng) \<and> sg_allow_smb_signing (ng_sign_info ng)"
  by (auto simp: smbcli_set_smb_signing_common_def set_smb_signing_common_def split: if_splits)

lemma set_signing_result:
  "ng_sign_info (snd (smbcli_temp_set_signing ng)) =
     (if fst (smbcli_set_smb_signing_common ng) then (smbcli_set_signing_off (ng_sign_info ng))\<lparr>sg_signing_state := SMB_SIGNING_ENGINE_BSRSPYL\<rparr> else ng_sign_info ng)"
  "ng_sign_info (snd (smbcli_transport_simple_set_signing key response ng)) =
     (if fst (smbcli_set_smb_signing_common ng) then smbcli_simple_set_signing key (Some response) (ng_sign_info ng) else ng_sign_info ng)"
  using common_signing(1) [of ng]
  by (cases "smbcli_set_smb_signing_common ng"; cases "fst (smbcli_set_smb_signing_common ng)";
      simp add: smbcli_temp_set_signing_def smbcli_transport_simple_set_signing_def smbcli_set_signing_off_def)+

text \<open>Requests only use up sequence numbers; replies set or clear the flags.\<close>

lemma calculate_keeps:
  "smbcli_request_calculate_sign_mac junk req si = Some (req1, si1) \<Longrightarrow> \<exists>k. si1 = si\<lparr>sg_next_seq_num := k\<rparr>"
  by (cases "sg_signing_state si")
    (auto simp: smbcli_request_calculate_sign_mac_def smbcli_req_allocate_seq_num_def split: Option.bind_splits intro: exI [of _ "sg_next_seq_num si"])

lemma sign_step_inv: "sign_step junk ng ev ng1 \<Longrightarrow> sign_inv (ng_sign_info ng) \<Longrightarrow> sign_inv (ng_sign_info ng1)"
proof (induction rule: sign_step.induct)
  case (temp ng)
  then show ?case unfolding set_signing_result using common_signing(2) [of ng] by (auto simp: smbcli_set_signing_off_def sign_inv_def)
next
  case (simple ng key response)
  then show ?case unfolding set_signing_result using common_signing(2) [of ng] by (auto simp: smbcli_simple_set_signing_def sign_inv_def)
next
  case (send req ng req1 si)
  then show ?case using calculate_keeps [OF send.hyps] by (auto simp: sign_inv_def)
next
  case (reply req ng accepted si)
  then show ?case
    by (auto simp: smbcli_request_check_sign_mac_def signing_good_def smbcli_set_signing_off_def sign_inv_def dest: check_needs_key split: if_splits)
qed auto

lemma sign_run_inv: "sign_run junk ng evs ng1 \<Longrightarrow> sign_inv (ng_sign_info ng) \<Longrightarrow> sign_inv (ng_sign_info ng1)"
  by (induction rule: sign_run.induct) (auto intro: sign_step_inv)

lemma fresh_inv: "sign_inv (ng_sign_info (fresh_negotiate client_signing))"
  by (cases client_signing) (simp_all add: fresh_negotiate_def smbcli_init_signing_def smbcli_set_signing_off_def sign_inv_def)

lemma established_reply:
  assumes j: "length junk = 64" and inv: "sign_inv si" "sg_doing_signing si"
    and r: "smbcli_request_check_sign_mac junk req si = Some (accepted, si1)"
  shows "sg_doing_signing si1 \<and> sg_mac_key si1 = sg_mac_key si \<and> (wf_smb (sq_in req) \<longrightarrow> accepted = valid_reply (sg_mac_key si) req)"
proof -
  have e: "sg_seen_valid si" "sg_signing_state si = SMB_SIGNING_ENGINE_ON" "sg_mac_key si \<noteq> []" using inv by (simp_all add: sign_inv_def)
  show ?thesis
  proof (cases "rb_size (sq_in req) < 22")
    case True
    then show ?thesis using r e inv by (auto simp: smbcli_request_check_sign_mac_def valid_reply_def)
  next
    case False
    then obtain g where g: "check_signed_incoming_message junk (sq_in req) (sg_mac_key si) (sq_seq_num req + 1) = Some g" "signing_good g si = (accepted, si1)"
      using r e by (auto simp: smbcli_request_check_sign_mac_def)
    then have "accepted = g" "sg_doing_signing si1" "sg_mac_key si1 = sg_mac_key si" using e inv by (auto simp: signing_good_def split: if_splits)
    then show ?thesis using g(1) check_exact [OF j, of "sq_in req" "sg_mac_key si" "sq_seq_num req + 1"] e by (auto simp: valid_reply_def)
  qed
qed

lemma established_step:
  assumes "sign_step junk ng ev ng1" "length junk = 64" "sign_inv (ng_sign_info ng)" "sg_doing_signing (ng_sign_info ng)"
  shows "sg_doing_signing (ng_sign_info ng1) \<and> sg_mac_key (ng_sign_info ng1) = sg_mac_key (ng_sign_info ng) \<and>
    (\<forall>req accepted. ev = Reply req accepted \<and> wf_smb (sq_in req) \<longrightarrow> accepted = valid_reply (sg_mac_key (ng_sign_info ng)) req)"
  using assms
proof (induction rule: sign_step.induct)
  case (send req ng req1 si)
  then show ?case using calculate_keeps [OF send.hyps] by auto
next
  case (reply req ng accepted si)
  then show ?case using established_reply [OF reply.prems(1) reply.prems(2,3) reply.hyps] by simp
qed (auto simp: set_signing_result dest: common_signing(2))

lemma established_run:
  assumes "sign_run junk ng evs ng1" "length junk = 64" "sign_inv (ng_sign_info ng)" "sg_doing_signing (ng_sign_info ng)"
  shows "sg_doing_signing (ng_sign_info ng1) \<and> sg_mac_key (ng_sign_info ng1) = sg_mac_key (ng_sign_info ng) \<and>
    (\<forall>req accepted. Reply req accepted \<in> set evs \<and> wf_smb (sq_in req) \<longrightarrow> accepted = valid_reply (sg_mac_key (ng_sign_info ng)) req)"
  using assms
proof (induction rule: sign_run.induct)
  case (step ng ev ng1 evs ng2)
  note s = established_step [OF step.hyps(1) step.prems] and i = sign_step_inv [OF step.hyps(1) step.prems(2)]
  then show ?case using step.IH [OF step.prems(1) i] by auto
qed simp

text \<open>
  C23. Signing cannot be taken away. Once signing has been established on a connection, which takes a
  reply with a valid signature, it stays established with the same key whatever is negotiated, set
  up, sent and received afterwards: every later reply is accepted if and only if its signature is
  that of the key, the packet and the number expected for it.
\<close>

theorem established_signing_stays:
  assumes "length junk = 64" "sign_run junk (fresh_negotiate client_signing) evs ng" "sg_doing_signing (ng_sign_info ng)" "sign_run junk ng later ng'"
  shows "sg_doing_signing (ng_sign_info ng') \<and> sg_signing_state (ng_sign_info ng') = SMB_SIGNING_ENGINE_ON \<and>
    sg_mac_key (ng_sign_info ng') = sg_mac_key (ng_sign_info ng) \<and>
    (\<forall>req accepted. Reply req accepted \<in> set later \<and> wf_smb (sq_in req) \<longrightarrow> accepted = valid_reply (sg_mac_key (ng_sign_info ng)) req)"
proof -
  have i: "sign_inv (ng_sign_info ng)" using sign_run_inv [OF assms(2) fresh_inv] .
  then have "sign_inv (ng_sign_info ng')" using sign_run_inv [OF assms(4)] by simp
  then show ?thesis using established_run [OF assms(4,1) i assms(3)] by (simp add: sign_inv_def)
qed

text \<open>
  C25. Until a valid signature has been seen, a reply with a wrong one does the opposite: it is
  accepted and switches signing off, also where signing is mandatory, after which every reply is
  accepted as it is and requests go out unsigned.
\<close>

theorem first_bad_reply_switches_off:
  assumes "length junk = 64" "sg_signing_state si = SMB_SIGNING_ENGINE_ON" "\<not> sg_seen_valid si"
    "wf_smb (sq_in req)" "22 \<le> rb_size (sq_in req)" "\<not> valid_reply (sg_mac_key si) req"
  shows "\<exists>si1. smbcli_request_check_sign_mac junk req si = Some (True, si1) \<and> sg_mandatory_signing si1 = sg_mandatory_signing si \<and>
    (\<forall>reply. smbcli_request_check_sign_mac junk reply si1 = Some (True, si1)) \<and>
    (\<forall>request. smbcli_request_calculate_sign_mac junk request si1 = Some (request, si1))"
proof -
  have "check_signed_incoming_message junk (sq_in req) (sg_mac_key si) (sq_seq_num req + 1) = Some False"
    using check_exact [OF assms(1,4)] assms(6) by (auto simp: valid_reply_def)
  then have "smbcli_request_check_sign_mac junk req si = Some (True, smbcli_set_signing_off si)"
    using assms by (simp add: smbcli_request_check_sign_mac_def signing_good_def)
  then show ?thesis by (auto simp: smbcli_set_signing_off_def smbcli_request_check_sign_mac_def smbcli_request_calculate_sign_mac_def)
qed

section \<open>Concrete packets\<close>

definition plain_packet :: request_buffer where
  "plain_packet = empty_buffer\<lparr>rb_buffer := replicate 26 0, rb_size := 26, rb_hdr := 4\<rparr>"

text \<open>A reply with a valid signature, and one without.\<close>

definition signing_request :: "request_buffer \<Rightarrow> smbcli_signed_request" where
  "signing_request inb = \<lparr>sq_state = SMBCLI_REQUEST_RECV, sq_flags2 = 0, sq_status = NT_STATUS_OK, sq_mid = 1, sq_in = inb, sq_out = empty_buffer,
     sq_seq_num = 0, sq_one_way_request = False, sq_sign_single_increment = False\<rparr>"

definition good_reply :: "smbcli_signed_request" where
  "good_reply = signing_request (plain_packet\<lparr>rb_buffer := replicate 18 0 @ smb_mac [7] 1 (replicate 22 0)\<rparr>)"

definition bad_reply :: "smbcli_signed_request" where
  "bad_reply = signing_request (plain_packet\<lparr>rb_buffer := replicate 18 0 @ map NOT (smb_mac [7] 1 (replicate 22 0))\<rparr>)"

lemma signing_packets:
  "wf_smb plain_packet" "wf_smb (sq_in good_reply)" "wf_smb (sq_in bad_reply)" "valid_reply [7] good_reply" "\<not> valid_reply [7] bad_reply"
  "rb_size (sq_in bad_reply) = 26"
proof -
  let ?m = "smb_mac [7] 1 (replicate 22 0)"
  have r: "replicate 22 (0 :: u8) = replicate 14 0 @ replicate 8 0 @ []" by (simp add: replicate_app_Cons_same flip: replicate_add)
  have m: "smb_mac [7] 1 (replicate 14 0 @ s @ []) = ?m" if "length s = 8" for s
    unfolding r by (rule smb_mac_no_signature) (use that in simp_all)
  show "wf_smb plain_packet" "wf_smb (sq_in good_reply)" "wf_smb (sq_in bad_reply)" "rb_size (sq_in bad_reply) = 26"
    by (simp_all add: wf_smb_def plain_packet_def good_reply_def bad_reply_def signing_request_def)
  have s: "smb_packet (plain_packet\<lparr>rb_buffer := replicate 18 0 @ x\<rparr>) = replicate 14 0 @ x @ []" if "length x = 8" for x
    using that by (simp add: smb_packet_def plain_packet_def)
  show "valid_reply [7] good_reply"
    using m [of ?m] s [of ?m] by (simp add: valid_reply_def good_reply_def signing_request_def smb_signature_def) (simp add: plain_packet_def)
  have "hd (map NOT ?m) \<noteq> hd ?m"
  proof -
    have "bit (NOT x) 0 \<noteq> bit (x :: u8) 0" for x by (simp add: bit_not_iff)
    then have "NOT x \<noteq> (x :: u8)" for x by metis
    then show ?thesis by (metis length_smb_mac list.map_sel(1) list.size(3) zero_neq_numeral)
  qed
  then have "map NOT ?m \<noteq> ?m" by metis
  then show "\<not> valid_reply [7] bad_reply"
    using m [of "map NOT ?m"] s [of "map NOT ?m"] by (simp add: valid_reply_def bad_reply_def signing_request_def smb_signature_def)
qed

theorem signed_packet_accepted_witness:
  "\<exists>rb'. sign_outgoing_message (replicate 64 0) plain_packet [7] 5 = Some rb' \<and> check_signed_incoming_message (replicate 64 1) rb' [7] 5 = Some True"
proof -
  have "26 \<le> rb_size plain_packet" by (simp add: plain_packet_def)
  then show ?thesis using signed_packet_accepted [of "replicate 64 0" "replicate 64 1" plain_packet "[7]" 5] signing_packets(1) by auto
qed

theorem sequence_numbers_distinct_witness:
  "distinct (concat (map request_numbers (allocate_all [good_reply, good_reply\<lparr>sq_sign_single_increment := True\<rparr>, bad_reply] (ng_sign_info (fresh_negotiate SMB_SIGNING_AUTO)))))"
  by (rule sequence_numbers_distinct) (simp add: numbers_used_def good_reply_def bad_reply_def signing_request_def)

theorem established_signing_stays_witness:
  "\<exists>ng. sign_run (replicate 64 0) (fresh_negotiate SMB_SIGNING_AUTO) [Negotiated 4, Simple_signing [7] [], Reply good_reply True] ng \<and>
     sg_doing_signing (ng_sign_info ng) \<and> sg_mac_key (ng_sign_info ng) = [7] \<and>
     (\<exists>ng'. sign_run (replicate 64 0) ng [Temp_signing, Reply bad_reply False] ng' \<and> sg_mac_key (ng_sign_info ng') = [7])"
proof -
  let ?j = "replicate 64 0 :: u8 list"
  define ng1 where "ng1 = (fresh_negotiate SMB_SIGNING_AUTO)\<lparr>ng_sec_mode := 4\<rparr>"
  define ng2 where "ng2 = snd (smbcli_transport_simple_set_signing [7] [] ng1)"
  have si2: "ng_sign_info ng2 = smbcli_simple_set_signing [7] (Some []) (ng_sign_info ng1)"
    unfolding ng2_def set_signing_result by (simp add: ng1_def fresh_negotiate_def smbcli_set_smb_signing_common_def set_smb_signing_common_def
        smbcli_init_signing_def smbcli_set_signing_off_def)
  have s2: "sg_signing_state (ng_sign_info ng2) = SMB_SIGNING_ENGINE_ON" "sg_mac_key (ng_sign_info ng2) = [7]" unfolding si2 by (simp_all add: smbcli_simple_set_signing_def)
  have chk: "check_signed_incoming_message ?j (sq_in r) [7] (sq_seq_num r + 1) = Some (valid_reply [7] r)" if "wf_smb (sq_in r)" for r
    using check_exact [of ?j "sq_in r" "[7]"] that by (simp add: valid_reply_def)
  have sz: "rb_size (sq_in good_reply) = 26" by (simp add: good_reply_def signing_request_def plain_packet_def)
  define ng3 where "ng3 = ng2\<lparr>ng_sign_info := (ng_sign_info ng2)\<lparr>sg_doing_signing := True, sg_seen_valid := True\<rparr>\<rparr>"
  have "smbcli_request_check_sign_mac ?j good_reply (ng_sign_info ng2) = Some (True, ng_sign_info ng3)"
    using s2 sz chk [OF signing_packets(2)] signing_packets(4) by (simp add: smbcli_request_check_sign_mac_def signing_good_def ng3_def)
  then have st3: "sign_step ?j ng2 (Reply good_reply True) ng3"
    using sign_step.reply [of ?j good_reply ng2 True "ng_sign_info ng3"] by (simp add: ng3_def)
  have st1: "sign_step ?j (fresh_negotiate SMB_SIGNING_AUTO) (Negotiated 4) ng1" unfolding ng1_def by (rule sign_step.negotiated)
  have st2: "sign_step ?j ng1 (Simple_signing [7] []) ng2" unfolding ng2_def by (rule sign_step.simple)
  have run: "sign_run ?j (fresh_negotiate SMB_SIGNING_AUTO) [Negotiated 4, Simple_signing [7] [], Reply good_reply True] ng3"
    by (rule sign_run.step [OF st1 sign_run.step [OF st2 sign_run.step [OF st3 sign_run.none]]])
  have d: "sg_doing_signing (ng_sign_info ng3)" "sg_mac_key (ng_sign_info ng3) = [7]" "sg_signing_state (ng_sign_info ng3) = SMB_SIGNING_ENGINE_ON"
    using s2 by (simp_all add: ng3_def)
  define ng4 where "ng4 = snd (smbcli_temp_set_signing ng3)"
  have si4: "ng_sign_info ng4 = ng_sign_info ng3" unfolding ng4_def set_signing_result using d common_signing(2) [of ng3] by auto
  have "smbcli_request_check_sign_mac ?j bad_reply (ng_sign_info ng4) = Some (False, ng_sign_info ng4)"
    unfolding si4 using d chk [OF signing_packets(3)] signing_packets(5,6) by (simp add: smbcli_request_check_sign_mac_def signing_good_def ng3_def)
  then have st5: "sign_step ?j ng4 (Reply bad_reply False) ng4" using sign_step.reply [of ?j bad_reply ng4 False "ng_sign_info ng4"] by simp
  have st4: "sign_step ?j ng3 Temp_signing ng4" unfolding ng4_def by (rule sign_step.temp)
  have later: "sign_run ?j ng3 [Temp_signing, Reply bad_reply False] ng4"
    by (rule sign_run.step [OF st4 sign_run.step [OF st5 sign_run.none]])
  have "sg_mac_key (ng_sign_info ng4) = [7]"
    using established_signing_stays [of ?j SMB_SIGNING_AUTO _ ng3, OF _ run d(1) later] d(2) by simp
  then show ?thesis using run later d by blast
qed

theorem first_bad_reply_switches_off_witness:
  "\<exists>si1. smbcli_request_check_sign_mac (replicate 64 0) bad_reply
     (smbcli_simple_set_signing [7] None (ng_sign_info (fresh_negotiate SMB_SIGNING_REQUIRED))) = Some (True, si1) \<and> sg_mandatory_signing si1"
proof -
  let ?si = "smbcli_simple_set_signing [7] None (ng_sign_info (fresh_negotiate SMB_SIGNING_REQUIRED))"
  have "sg_signing_state ?si = SMB_SIGNING_ENGINE_ON" "\<not> sg_seen_valid ?si" "sg_mac_key ?si = [7]" "sg_mandatory_signing ?si"
    by (simp_all add: smbcli_simple_set_signing_def fresh_negotiate_def smbcli_init_signing_def smbcli_set_signing_off_def)
  then show ?thesis using first_bad_reply_switches_off [of "replicate 64 0" ?si bad_reply] signing_packets(3,5,6) by auto
qed

end
