(* ===== verification/SmbTransportProps.thy ===== *)
theory SmbTransportProps
  imports SmbTransport SmbSigningProps
begin

text \<open>
  The transport of the SMB client: the list of waiting requests is always exactly the requests
  that wait for a reply, message numbers are free ones, a reply reaches the request it answers
  and no other, and the death of a connection ends every request.
\<close>

section \<open>Message numbers\<close>

lemma next_mid_unfold:
  "next_mid_loop used mid = (let m = (if mid = 0 then 1 else mid) in if m \<in> set used then next_mid_loop used (m + 1) else Some m)"
  by (rule next_mid_loop.simps)

lemma next_mid_sound: "next_mid_loop used mid = Some m \<Longrightarrow> m \<noteq> 0 \<and> m \<notin> set used"
  by (rule next_mid_loop.raw_induct [of "\<lambda>used mid m. m \<noteq> 0 \<and> m \<notin> set used", rotated]) (auto simp: Let_def split: if_splits)

lemma word_gap: "(f :: u16) \<noteq> m \<Longrightarrow> unat (f - (m + 1)) < unat (f - m)"
proof -
  assume "f \<noteq> m"
  then have "f - m \<noteq> 0" by simp
  then have "unat (f - m - 1) < unat (f - m)" using measure_unat [of "f - m"] by blast
  then show ?thesis by (simp add: diff_diff_eq)
qed

lemma next_mid_complete: "f \<noteq> 0 \<Longrightarrow> f \<notin> set used \<Longrightarrow> \<exists>m. next_mid_loop used mid = Some m"
proof (induction "unat (f - mid)" arbitrary: mid rule: less_induct)
  case less
  let ?m = "if mid = 0 then 1 else mid"
  show ?case
  proof (cases "?m \<in> set used")
    case True
    then have "f \<noteq> ?m" using less.prems by auto
    have "unat (f - (?m + 1)) < unat (f - mid)"
    proof (cases "mid = 0")
      case True
      then show ?thesis using word_gap [of f 1] word_gap [of f 0] \<open>f \<noteq> ?m\<close> less.prems by simp
    next
      case False
      then show ?thesis using word_gap [of f mid] \<open>f \<noteq> ?m\<close> by simp
    qed
    then have "\<exists>m. next_mid_loop used (?m + 1) = Some m" using less by blast
    then show ?thesis using True by (subst next_mid_unfold) (simp only: Let_def if_True)
  next
    case False
    then show ?thesis by (subst next_mid_unfold) (simp only: Let_def if_False, blast)
  qed
qed

text \<open>
  C21. The message number of a new request is never zero and never that of a request still waiting
  for its reply; the search for it ends if and only if some number from 1 to 65535 is free.
\<close>

theorem message_number_free:
  assumes "pending_mids t = Some used"
  shows "(\<forall>mid t1. smbcli_transport_next_mid t = Some (mid, t1) \<longrightarrow> mid \<noteq> 0 \<and> mid \<notin> set used \<and> t1 = t\<lparr>st_next_mid := mid + 1\<rparr>) \<and>
    ((\<exists>mid t1. smbcli_transport_next_mid t = Some (mid, t1)) \<longleftrightarrow> (\<exists>f. f \<noteq> 0 \<and> f \<notin> set used))"
  using next_mid_sound [of used "st_next_mid t"] next_mid_complete [of _ used "st_next_mid t"] assms
  by (auto simp: smbcli_transport_next_mid_def)

section \<open>The waiting requests\<close>

definition awaits_reply :: "smbcli_transport \<Rightarrow> nat \<Rightarrow> bool" where
  "awaits_reply t r \<longleftrightarrow> (\<exists>q. st_requests t r = Some q \<and> sq_state q = SMBCLI_REQUEST_RECV)"

definition pending_ok :: "smbcli_transport \<Rightarrow> bool" where
  "pending_ok t \<longleftrightarrow> distinct (st_pending_recv t) \<and> (\<forall>r. r \<in> set (st_pending_recv t) \<longleftrightarrow> awaits_reply t r)"

text \<open>A callback that keeps the list right; one that always returns.\<close>

definition keeps_pending :: "(nat \<Rightarrow> smbcli_transport \<Rightarrow> smbcli_transport option) \<Rightarrow> bool" where
  "keeps_pending async \<longleftrightarrow> (\<forall>r t t1. pending_ok t \<and> async r t = Some t1 \<longrightarrow> pending_ok t1)"

lemma pending_mids_Some:
  assumes "pending_ok t"
  shows "pending_mids t = Some (map (\<lambda>r. sq_mid (the (st_requests t r))) (st_pending_recv t))"
proof -
  have "those (map (\<lambda>r. map_option sq_mid (st_requests t r)) rs) = Some (map (\<lambda>r. sq_mid (the (st_requests t r))) rs)"
    if "set rs \<subseteq> set (st_pending_recv t)" for rs
    using that assms by (induction rs) (auto simp: pending_ok_def awaits_reply_def)
  then show ?thesis by (simp add: pending_mids_def)
qed

text \<open>A request that stops waiting, and one that starts.\<close>

lemma pending_stop:
  assumes "pending_ok t" "sq_state q \<noteq> SMBCLI_REQUEST_RECV"
  shows "pending_ok (t\<lparr>st_pending_recv := remove1 r (st_pending_recv t), st_requests := (st_requests t)(r \<mapsto> q)\<rparr>)"
    "pending_ok (t\<lparr>st_pending_recv := remove1 r (st_pending_recv t), st_requests := (st_requests t)(r := None)\<rparr>)"
  using assms by (auto simp: pending_ok_def awaits_reply_def)

lemma pending_start:
  assumes "pending_ok t" "\<not> awaits_reply t r" "sq_state q = SMBCLI_REQUEST_RECV"
  shows "pending_ok (t\<lparr>st_requests := (st_requests t)(r \<mapsto> q), st_pending_recv := r # st_pending_recv t\<rparr>)"
  using assms by (auto simp: pending_ok_def awaits_reply_def)

lemma pending_same:
  assumes "pending_ok t" "st_pending_recv t1 = st_pending_recv t" "\<And>r. awaits_reply t1 r = awaits_reply t r"
  shows "pending_ok t1"
  using assms by (simp add: pending_ok_def)

lemma call_async_keeps: "keeps_pending async \<Longrightarrow> pending_ok t \<Longrightarrow> call_async async r t = Some t1 \<Longrightarrow> pending_ok t1"
  by (auto simp: call_async_def keeps_pending_def split: Option.bind_splits if_splits)

text \<open>Changes of a request that leave its state.\<close>

lemma with_request_keeps:
  assumes "with_request r f t = Some t1" "\<And>q. sq_state (f q) = sq_state q"
  shows "st_pending_recv t1 = st_pending_recv t" "awaits_reply t1 x = awaits_reply t x" "pending_ok t \<Longrightarrow> pending_ok t1"
proof -
  show a: "st_pending_recv t1 = st_pending_recv t" and b: "awaits_reply t1 x = awaits_reply t x" for x
    using assms by (auto simp: with_request_def awaits_reply_def split: if_splits)
  show "pending_ok t \<Longrightarrow> pending_ok t1" using pending_same [OF _ a b] .
qed

lemma recv_end_keeps:
  assumes "keeps_pending async" "pending_ok t" "state \<noteq> SMBCLI_REQUEST_RECV" "recv_end async state r t = Some t1"
  shows "pending_ok t1"
proof -
  obtain t2 where t2: "with_request r (\<lambda>q. q\<lparr>sq_state := state\<rparr>) (t\<lparr>st_pending_recv := remove1 r (st_pending_recv t)\<rparr>) = Some t2" "call_async async r t2 = Some t1"
    using assms(4) by (auto simp: recv_end_def split: Option.bind_splits)
  have "pending_ok t2" using t2(1) pending_stop(1) [OF assms(2), of _ r] assms(3) by (auto simp: with_request_def)
  then show ?thesis using call_async_keeps [OF assms(1) _ t2(2)] by blast
qed

lemma put_keeps:
  assumes "st_requests t r = Some q0" "sq_state q = sq_state q0"
  shows "awaits_reply (t\<lparr>st_requests := (st_requests t)(r \<mapsto> q)\<rparr>) x = awaits_reply t x"
  using assms by (auto simp: awaits_reply_def)

lemma recv_prepare_keeps:
  assumes "recv_prepare junk buf wct r t = Some (state, t1)"
  shows "state \<noteq> SMBCLI_REQUEST_RECV" "st_pending_recv t1 = st_pending_recv t" "awaits_reply t1 x = awaits_reply t x"
proof -
  obtain q0 where q0: "st_requests t r = Some q0" using assms by (cases "st_requests t r") (simp_all add: recv_prepare_def)
  have "state \<noteq> SMBCLI_REQUEST_RECV \<and> st_pending_recv t1 = st_pending_recv t \<and>
      (\<exists>q. st_requests t1 = (st_requests t)(r \<mapsto> q) \<and> sq_state q = sq_state q0)"
    using assms q0 by (auto simp: recv_prepare_def set_in_def Let_def split: if_splits Option.bind_splits prod.splits)
  then show "state \<noteq> SMBCLI_REQUEST_RECV" "st_pending_recv t1 = st_pending_recv t" "awaits_reply t1 x = awaits_reply t x"
    using q0 by (auto simp: awaits_reply_def split: if_splits)
qed

lemma ntcancel_keeps:
  assumes "smbcli_handle_ntcancel_reply req buf t = Some (req1, t1)" "pending_ok t"
  shows "pending_ok t1" "req1 \<noteq> None \<Longrightarrow> req1 = req \<and> t1 = t"
proof -
  have *: "pending_ok t2" if "with_request r (\<lambda>q. q\<lparr>sq_ntcancel := tl (sq_ntcancel q)\<rparr>) t = Some t2" for r t2
    by (rule with_request_keeps(3) [OF that _ assms(2)]) simp
  show "pending_ok t1" using assms *
    by (auto simp: smbcli_handle_ntcancel_reply_def split: option.splits Option.bind_splits if_splits)
  show "req1 \<noteq> None \<Longrightarrow> req1 = req \<and> t1 = t" using assms
    by (auto simp: smbcli_handle_ntcancel_reply_def split: option.splits Option.bind_splits if_splits)
qed

definition oplock_keeps :: "(int \<times> int \<times> int \<Rightarrow> smbcli_transport \<Rightarrow> smbcli_transport option) \<Rightarrow> bool" where
  "oplock_keeps oplock \<longleftrightarrow> (\<forall>b t t1. pending_ok t \<and> oplock b t = Some t1 \<longrightarrow> pending_ok t1)"

lemma finish_recv_keeps:
  assumes k: "keeps_pending async" "oplock_keeps oplock" and p: "pending_ok t"
    and f: "smbcli_transport_finish_recv junk async oplock buf t = Some t1"
  shows "pending_ok t1"
proof -
  have matched: "pending_ok t3" if "recv_prepare junk buf wct r t2 = Some (state, t4)" "recv_end async state r t4 = Some t3" "pending_ok t2" for wct r t2 t3 t4 state
    using recv_end_keeps [OF k(1) pending_same [OF that(3) recv_prepare_keeps(2,3) [OF that(1)]] recv_prepare_keeps(1) [OF that(1)] that(2)] .
  have raw: "pending_ok (t\<lparr>st_readbraw_pending := False\<rparr>)" by (rule pending_same [OF p]) (simp_all add: awaits_reply_def)
  have rawdone: "pending_ok t3" if "with_request r (set_in buf) (t\<lparr>st_readbraw_pending := False\<rparr>) = Some t2" "recv_end async SMBCLI_REQUEST_DONE r t2 = Some t3" for r t2 t3
    by (rule recv_end_keeps [OF k(1) with_request_keeps(3) [OF that(1) _ raw] _ that(2)]) (simp_all add: set_in_def)
  obtain brk where brk: "smbcli_handle_oplock_break (int (length buf)) 4 37 buf = Some brk"
    using f by (auto simp: smbcli_transport_finish_recv_def split: Option.bind_splits)
  show ?thesis
  proof (cases brk)
    case (Some b)
    then show ?thesis using f brk k(2) p by (cases b) (auto simp: smbcli_transport_finish_recv_def oplock_keeps_def split: if_splits)
  next
    case None
    show ?thesis
    proof (cases "st_readbraw_pending t")
      case True
      then show ?thesis using f brk None raw rawdone
        by (auto simp: smbcli_transport_finish_recv_def Let_def split: list.splits Option.bind_splits)
    next
      case False
      obtain mid wct where ids: "recv_ids buf = Some (mid, wct)"
        using f brk None False by (cases "recv_ids buf") (auto simp: smbcli_transport_finish_recv_def)
      let ?found = "map_option fst (find (\<lambda>(r, m). m = mid) (zip (st_pending_recv t) (map (\<lambda>r. sq_mid (the (st_requests t r))) (st_pending_recv t))))"
      have "Option.bind (smbcli_handle_ntcancel_reply ?found buf t) (\<lambda>(req, t2). case req of None \<Rightarrow> Some t2
          | Some r \<Rightarrow> Option.bind (recv_prepare junk buf wct r t2) (\<lambda>(state, t3). recv_end async state r t3)) = Some t1"
        using f brk None False by (simp add: smbcli_transport_finish_recv_def ids pending_mids_Some [OF p])
      then obtain req t2 where nt: "smbcli_handle_ntcancel_reply ?found buf t = Some (req, t2)"
          "(case req of None \<Rightarrow> Some t2 | Some r \<Rightarrow> Option.bind (recv_prepare junk buf wct r t2) (\<lambda>(state, t3). recv_end async state r t3)) = Some t1"
        by (cases "smbcli_handle_ntcancel_reply ?found buf t") auto
      then show ?thesis using ntcancel_keeps(1) [OF nt(1) p] matched by (auto split: option.splits Option.bind_splits)
    qed
  qed
qed

lemma free_keeps: "pending_ok t \<Longrightarrow> pending_ok (smbcli_request_free r t)"
  by (auto simp: smbcli_request_free_def pending_ok_def awaits_reply_def split: option.splits if_splits)

lemma with_request_stops:
  assumes "pending_ok t" "with_request r f (t\<lparr>st_pending_recv := remove1 r (st_pending_recv t)\<rparr>) = Some t1" "\<And>q. sq_state (f q) \<noteq> SMBCLI_REQUEST_RECV"
  shows "pending_ok t1"
  using assms(2) pending_stop(1) [OF assms(1,3)] by (auto simp: with_request_def)

lemma remove_idle: "pending_ok t \<Longrightarrow> \<not> awaits_reply t r \<Longrightarrow> remove1 r (st_pending_recv t) = st_pending_recv t"
  by (simp add: pending_ok_def remove1_idem)

lemma with_request_idle:
  assumes "pending_ok t" "with_request r f t = Some t1" "\<not> awaits_reply t r" "\<And>q. sq_state (f q) \<noteq> SMBCLI_REQUEST_RECV"
  shows "pending_ok t1"
  using with_request_stops [OF assms(1), of r f t1] assms(2,4) remove_idle [OF assms(1,3)] by simp

lemma pending_timers [simp]: "pending_ok (t\<lparr>st_timers := tm\<rparr>) = pending_ok t"
  by (simp add: pending_ok_def awaits_reply_def)

lemma send_keeps:
  assumes p: "pending_ok t" "\<not> awaits_reply t r" and s: "smbcli_transport_send packet_send r t = Some t1"
  shows "pending_ok t1"
proof -
  have failed: "pending_ok t2" if "with_request r (\<lambda>q. q\<lparr>sq_state := SMBCLI_REQUEST_ERROR, sq_status := st\<rparr>) t = Some t2" for st t2
    by (rule with_request_idle [OF p(1) that p(2)]) simp
  have started: "pending_ok (t2\<lparr>st_pending_recv := r # st_pending_recv t2\<rparr>)"
    if w: "with_request r (\<lambda>q. q\<lparr>sq_state := SMBCLI_REQUEST_RECV\<rparr>) t = Some t2" for t2
  proof -
    obtain q where q: "t2 = t\<lparr>st_requests := (st_requests t)(r \<mapsto> q\<lparr>sq_state := SMBCLI_REQUEST_RECV\<rparr>)\<rparr>" using w by (auto simp: with_request_def)
    show ?thesis using pending_start [OF p, of "q\<lparr>sq_state := SMBCLI_REQUEST_RECV\<rparr>"] unfolding q by simp
  qed
  have timed: "pending_ok (t2\<lparr>st_pending_recv := r # st_pending_recv t2, st_timers := tm\<rparr>)"
    if "with_request r (\<lambda>q. q\<lparr>sq_state := SMBCLI_REQUEST_RECV\<rparr>) t = Some t2" for t2 tm
    using started [OF that] pending_timers [of tm "t2\<lparr>st_pending_recv := r # st_pending_recv t2\<rparr>"] by simp
  show ?thesis using s failed timed free_keeps [OF p(1), of r]
    by (auto simp: smbcli_transport_send_def Let_def split: Option.bind_splits if_splits)
qed

lemma send_signed_keeps:
  assumes p: "pending_ok t" "\<not> awaits_reply t r" and s: "smbcli_request_send_signed junk packet_send r t = Some t1"
  shows "pending_ok t1"
proof -
  obtain q q1 si out where q: "st_requests t r = Some q" "smbcli_request_calculate_sign_mac junk (q\<lparr>sq_out := out\<rparr>) (ng_sign_info (st_negotiate t)) = Some (q1, si)"
      "smbcli_transport_send packet_send r (t\<lparr>st_negotiate := (st_negotiate t)\<lparr>ng_sign_info := si\<rparr>, st_requests := (st_requests t)(r \<mapsto> q1)\<rparr>) = Some t1"
    using s by (auto simp: smbcli_request_send_signed_def split: Option.bind_splits)
  let ?t = "t\<lparr>st_negotiate := (st_negotiate t)\<lparr>ng_sign_info := si\<rparr>, st_requests := (st_requests t)(r \<mapsto> q1)\<rparr>"
  have "sq_state q1 = sq_state q" using q(2)
    by (cases "sg_signing_state (ng_sign_info (st_negotiate t))")
      (auto simp: smbcli_request_calculate_sign_mac_def smbcli_req_allocate_seq_num_def split: Option.bind_splits)
  then have w: "awaits_reply ?t x = awaits_reply t x" for x using q(1) by (auto simp: awaits_reply_def)
  have "pending_ok ?t" by (rule pending_same [OF p(1)]) (simp_all add: w)
  then show ?thesis using send_keeps [OF _ _ q(3)] w p(2) by simp
qed

lemma timeout_keeps:
  assumes k: "keeps_pending async" and p: "pending_ok t" and s: "smbcli_timeout_handler async r t = Some t1"
  shows "pending_ok t1"
proof -
  obtain q where q: "st_requests t r = Some q" using s by (auto simp: smbcli_timeout_handler_def split: Option.bind_splits)
  have "(if sq_state q = SMBCLI_REQUEST_RECV then t\<lparr>st_pending_recv := remove1 r (st_pending_recv t)\<rparr> else t) = t\<lparr>st_pending_recv := remove1 r (st_pending_recv t)\<rparr>"
    using remove_idle [OF p, of r] q by (auto simp: awaits_reply_def)
  then obtain t2 where t2: "with_request r (\<lambda>q. q\<lparr>sq_status := NT_STATUS_IO_TIMEOUT, sq_state := SMBCLI_REQUEST_ERROR\<rparr>) (t\<lparr>st_pending_recv := remove1 r (st_pending_recv t)\<rparr>) = Some t2"
      "call_async async r t2 = Some t1"
    using s q by (auto simp: smbcli_timeout_handler_def Let_def split: Option.bind_splits)
  have "pending_ok t2" by (rule with_request_stops [OF p t2(1)]) simp
  then show ?thesis using call_async_keeps [OF k _ t2(2)] by blast
qed

lemma receive_more_keeps:
  assumes "pending_ok t" "\<not> awaits_reply t r" "smbcli_transport_receive_more r t = Some t1"
  shows "pending_ok t1"
  using pending_start [OF assms(1,2)] assms(3) by (auto simp: smbcli_transport_receive_more_def with_request_def)

lemma kill_step:
  assumes "pending_ok t" "st_pending_recv t = r # rs" "with_request r (\<lambda>q. q\<lparr>sq_state := SMBCLI_REQUEST_ERROR, sq_status := status\<rparr>) t = Some t1"
  shows "pending_ok (t1\<lparr>st_pending_recv := remove1 r (st_pending_recv t1)\<rparr>)"
proof -
  obtain q where q: "t1 = t\<lparr>st_requests := (st_requests t)(r \<mapsto> q\<lparr>sq_state := SMBCLI_REQUEST_ERROR, sq_status := status\<rparr>)\<rparr>" using assms(3) by (auto simp: with_request_def)
  show ?thesis using assms(1) unfolding q by (auto simp: pending_ok_def awaits_reply_def)
qed

lemma kill_keeps:
  "transport_kill async status t = Some t1 \<Longrightarrow> keeps_pending async \<longrightarrow> pending_ok t \<longrightarrow> pending_ok t1 \<and> st_pending_recv t1 = []"
proof (rule transport_kill.raw_induct [of "\<lambda>async status t t1. keeps_pending async \<longrightarrow> pending_ok t \<longrightarrow> pending_ok t1 \<and> st_pending_recv t1 = []", rotated])
  fix loop async status t t1
  assume IH: "\<And>async status t t1. loop async status t = Some t1 \<Longrightarrow> keeps_pending async \<longrightarrow> pending_ok t \<longrightarrow> pending_ok t1 \<and> st_pending_recv t1 = []"
    and eq: "(case st_pending_recv t of [] \<Rightarrow> Some t
      | r # rs \<Rightarrow> Option.bind (with_request r (\<lambda>q. q\<lparr>sq_state := SMBCLI_REQUEST_ERROR, sq_status := status\<rparr>) t)
          (\<lambda>t1. Option.bind (call_async async r (t1\<lparr>st_pending_recv := remove1 r (st_pending_recv t1)\<rparr>)) (loop async status))) = Some t1"
  show "keeps_pending async \<longrightarrow> pending_ok t \<longrightarrow> pending_ok t1 \<and> st_pending_recv t1 = []"
  proof (intro impI)
    assume k: "keeps_pending async" and p: "pending_ok t"
    show "pending_ok t1 \<and> st_pending_recv t1 = []"
    proof (cases "st_pending_recv t")
      case Nil
      then show ?thesis using eq p by simp
    next
      case (Cons r rs)
      then obtain t2 t3 where t2: "with_request r (\<lambda>q. q\<lparr>sq_state := SMBCLI_REQUEST_ERROR, sq_status := status\<rparr>) t = Some t2"
          "call_async async r (t2\<lparr>st_pending_recv := remove1 r (st_pending_recv t2)\<rparr>) = Some t3" "loop async status t3 = Some t1"
        using eq by (auto split: Option.bind_splits)
      have "pending_ok t3" using call_async_keeps [OF k kill_step [OF p Cons t2(1)] t2(2)] .
      then show ?thesis using IH [OF t2(3)] k by blast
    qed
  qed
qed

lemma dead_keeps: "keeps_pending async \<Longrightarrow> pending_ok t \<Longrightarrow> smbcli_transport_dead async status t = Some t1 \<Longrightarrow> pending_ok t1 \<and> st_pending_recv t1 = []"
  using kill_keeps [of async _ "t\<lparr>st_sock := False\<rparr>" t1] pending_same [of t "t\<lparr>st_sock := False\<rparr>"]
  by (auto simp: smbcli_transport_dead_def awaits_reply_def)

text \<open>What happens to a transport. Callbacks may call anything that keeps the list right.\<close>

inductive transport_step ::
    "u8 list \<Rightarrow> (nat \<Rightarrow> smbcli_transport \<Rightarrow> smbcli_transport option) \<Rightarrow> (int \<times> int \<times> int \<Rightarrow> smbcli_transport \<Rightarrow> smbcli_transport option) \<Rightarrow>
     smbcli_transport \<Rightarrow> smbcli_transport \<Rightarrow> bool" for junk async oplock where
  fresh: "st_requests t r = None \<Longrightarrow> sq_state q = SMBCLI_REQUEST_INIT \<Longrightarrow> smbcli_transport_next_mid t = Some (mid, t1) \<Longrightarrow>
    transport_step junk async oplock t (t1\<lparr>st_requests := (st_requests t1)(r \<mapsto> q\<lparr>sq_mid := mid\<rparr>)\<rparr>)"
| send: "st_requests t r = Some q \<Longrightarrow> sq_state q = SMBCLI_REQUEST_INIT \<Longrightarrow> smbcli_request_send_signed junk packet_send r t = Some t1 \<Longrightarrow>
    transport_step junk async oplock t t1"
| recv: "smbcli_transport_finish_recv junk async oplock buf t = Some t1 \<Longrightarrow> transport_step junk async oplock t t1"
| more_replies: "st_requests t r = Some q \<Longrightarrow> sq_state q = SMBCLI_REQUEST_DONE \<Longrightarrow> smbcli_transport_receive_more r t = Some t1 \<Longrightarrow>
    transport_step junk async oplock t t1"
| timeout: "smbcli_timeout_handler async r t = Some t1 \<Longrightarrow> transport_step junk async oplock t t1"
| dead: "smbcli_transport_dead async status t = Some t1 \<Longrightarrow> transport_step junk async oplock t t1"
| finish: "smbcli_request_finish r t = Some (status, t1) \<Longrightarrow> transport_step junk async oplock t t1"

lemma transport_step_keeps:
  assumes "transport_step junk async oplock t t1" "keeps_pending async" "oplock_keeps oplock" "pending_ok t"
  shows "pending_ok t1"
  using assms
proof (induction rule: transport_step.induct)
  case (fresh t r q mid t1)
  then have "t1 = t\<lparr>st_next_mid := mid + 1\<rparr>" by (auto simp: smbcli_transport_next_mid_def split: Option.bind_splits)
  then show ?case using fresh by (auto simp: pending_ok_def awaits_reply_def)
next
  case (send t r q packet_send t1)
  then have "\<not> awaits_reply t r" by (auto simp: awaits_reply_def)
  then show ?case using send_signed_keeps [OF send.prems(3) _ send.hyps(3)] by blast
next
  case (recv buf t t1)
  then show ?case using finish_recv_keeps by blast
next
  case (more_replies t r q t1)
  then have "\<not> awaits_reply t r" by (auto simp: awaits_reply_def)
  then show ?case using receive_more_keeps [OF more_replies.prems(3) _ more_replies.hyps(3)] by blast
next
  case (timeout r t t1)
  then show ?case using timeout_keeps by blast
next
  case (dead status t t1)
  then show ?case using dead_keeps by blast
next
  case (finish r t status t1)
  then show ?case using free_keeps [OF finish.prems(3)] by (auto simp: smbcli_request_finish_def)
qed

text \<open>
  C20. In every state a new transport reaches, by setting up and sending requests, receiving any packets,
  timeouts, further replies, the death of the connection and the end of requests, the list of
  pending requests has no duplicates and holds exactly the live requests that wait for a reply, as
  long as the callbacks keep it so: nothing on the list has been freed or completed, and no request
  that still waits has been forgotten.
\<close>

theorem pending_list_exact:
  assumes "keeps_pending async" "oplock_keeps oplock" "(transport_step junk async oplock)\<^sup>*\<^sup>* (smbcli_transport_init client_signing) t"
  shows "distinct (st_pending_recv t) \<and> (\<forall>r. r \<in> set (st_pending_recv t) \<longleftrightarrow> awaits_reply t r)"
proof -
  have "pending_ok (smbcli_transport_init client_signing)" by (simp add: smbcli_transport_init_def pending_ok_def awaits_reply_def)
  with assms(3) have "pending_ok t" by (induction rule: rtranclp_induct) (auto intro: transport_step_keeps [OF _ assms(1,2)])
  then show ?thesis by (simp add: pending_ok_def)
qed

section \<open>Receiving\<close>

lemma oplock_break_reads: "\<exists>brk. smbcli_handle_oplock_break (int (length buf)) 4 37 buf = Some brk"
  by (auto simp: smbcli_handle_oplock_break_def peek8_def peek16_def peek_def)

lemma recv_ids_reads: "(\<exists>ids. recv_ids buf = Some ids) \<longleftrightarrow> length buf \<noteq> 35 \<and> length buf \<noteq> 36"
  by (auto simp: recv_ids_def peek8_def peek_def)

text \<open>The request a packet is for: the first on the list with its message number.\<close>

definition addressee :: "u16 \<Rightarrow> smbcli_transport \<Rightarrow> nat option" where
  "addressee mid t = find (\<lambda>r. sq_mid (the (st_requests t r)) = mid) (st_pending_recv t)"

lemma find_zip_map: "map_option fst (find (\<lambda>(r, m). m = mid) (zip rs (map g rs))) = find (\<lambda>r. g r = mid) rs"
  by (induction rs) auto

lemma addressee_pending: "addressee mid t = Some r \<Longrightarrow> r \<in> set (st_pending_recv t)"
  by (auto simp: addressee_def find_Some_iff)

lemma finish_recv_eq:
  assumes "pending_ok t" "smbcli_handle_oplock_break (int (length buf)) 4 37 buf = Some None" "\<not> st_readbraw_pending t" "recv_ids buf = Some (mid, wct)"
  shows "smbcli_transport_finish_recv junk async oplock buf t =
    Option.bind (smbcli_handle_ntcancel_reply (addressee mid t) buf t)
      (\<lambda>(req, t1). case req of None \<Rightarrow> Some t1 | Some r \<Rightarrow> Option.bind (recv_prepare junk buf wct r t1) (\<lambda>(state, t2). recv_end async state r t2))"
  using assms by (simp add: smbcli_transport_finish_recv_def pending_mids_Some find_zip_map addressee_def)

lemma recv_data_wf:
  assumes "int (length buf) < 2147483648" "39 + 2 * wct \<le> int (length buf)" "0 \<le> wct" "rb_buffer rb = buf" "rb_size rb = int (length buf)"
  shows "\<exists>rb1. recv_data buf wct rb = Some rb1 \<and> wf_in rb1 \<and> wf_smb rb1 \<and> rb_buffer rb1 = buf \<and> rb_wct rb1 = wct \<and> rb_vwv rb1 = 37 \<and> rb_size rb1 = int (length buf)"
proof -
  obtain w where w: "peek (37 + 2 * wct) 2 buf = Some w" using peek_Some_iff [of "37 + 2 * wct" 2 buf] assms by auto
  have "0 \<le> uint (SVAL w 0)" by simp
  then show ?thesis using assms w by (simp add: recv_data_def peek16_def Let_def wf_in_def wf_smb_def)
qed

lemma recv_status_reads: "39 \<le> length buf \<Longrightarrow> \<exists>flags2 status. recv_status buf = Some (flags2, status)"
  by (simp add: recv_status_def peek_def Let_def)

lemma check_mac_returns: "length junk = 64 \<Longrightarrow> wf_smb (sq_in q) \<Longrightarrow> \<exists>accepted si1. smbcli_request_check_sign_mac junk q si = Some (accepted, si1)"
  using check_exact [of junk "sq_in q"] by (cases "signing_good (sg_doing_signing si) si") (auto simp: smbcli_request_check_sign_mac_def)

lemma recv_prepare_full:
  assumes j: "length junk = 64" and len: "int (length buf) < 2147483648" "39 + 2 * wct \<le> int (length buf)" "0 \<le> wct" and b: "buf ! 0 = 0"
    and q: "st_requests t r = Some q"
  shows "\<exists>q1 t1 accepted si1 flags2 status. recv_prepare junk buf wct r t = Some (if accepted then SMBCLI_REQUEST_DONE else SMBCLI_REQUEST_ERROR, t1) \<and>
    st_pending_recv t1 = st_pending_recv t \<and> st_requests t1 = (st_requests t)(r \<mapsto> q1) \<and>
    rb_buffer (sq_in q1) = buf \<and> wf_in (sq_in q1) \<and> rb_wct (sq_in q1) = wct \<and> sq_mid q1 = sq_mid q \<and> sq_seq_num q1 = sq_seq_num q \<and> sq_async_fn q1 = sq_async_fn q \<and>
    smbcli_request_check_sign_mac junk q1 (ng_sign_info (st_negotiate t)) = Some (accepted, si1) \<and> ng_sign_info (st_negotiate t1) = si1 \<and>
    recv_status buf = Some (flags2, status) \<and> sq_flags2 q1 = flags2 \<and> sq_status q1 = (if accepted then status else NT_STATUS_ACCESS_DENIED)"
proof -
  obtain rb where rb: "recv_data buf wct (sq_in (set_in buf q)) = Some rb" "wf_in rb" "wf_smb rb" "rb_buffer rb = buf" "rb_wct rb = wct"
    using recv_data_wf [OF len, of "sq_in (set_in buf q)"] by (auto simp: set_in_def)
  obtain flags2 status where st: "recv_status buf = Some (flags2, status)" using recv_status_reads len by force
  define q1 where "q1 = (set_in buf q)\<lparr>sq_in := rb, sq_flags2 := flags2, sq_status := status\<rparr>"
  have q1: "sq_in q1 = rb" "sq_mid q1 = sq_mid q" "sq_seq_num q1 = sq_seq_num q" "sq_async_fn q1 = sq_async_fn q" "sq_flags2 q1 = flags2" "sq_status q1 = status"
    by (simp_all add: q1_def set_in_def)
  obtain accepted si1 where c: "smbcli_request_check_sign_mac junk q1 (ng_sign_info (st_negotiate t)) = Some (accepted, si1)"
    using check_mac_returns [OF j, of q1 "ng_sign_info (st_negotiate t)"] rb(3) q1(1) by auto
  have c2: "smbcli_request_check_sign_mac junk (q1\<lparr>sq_status := s\<rparr>) si = smbcli_request_check_sign_mac junk q1 si" for s si
    by (simp add: smbcli_request_check_sign_mac_def)
  define t1 where "t1 = t\<lparr>st_error := Nt_status status, st_etype := (if NT_STATUS_IS_OK status then ETYPE_NONE else ETYPE_SMB),
      st_negotiate := (st_negotiate t)\<lparr>ng_sign_info := si1\<rparr>\<rparr>"
  have prep: "recv_prepare junk buf wct r t =
      Some (if accepted then (SMBCLI_REQUEST_DONE, t1\<lparr>st_requests := (st_requests t1)(r \<mapsto> q1)\<rparr>)
        else (SMBCLI_REQUEST_ERROR, t1\<lparr>st_etype := ETYPE_SOCKET, st_error := Socket_error SOCKET_READ_BAD_SIG,
          st_requests := (st_requests t1)(r \<mapsto> q1\<lparr>sq_status := NT_STATUS_ACCESS_DENIED\<rparr>)\<rparr>))"
    using len b q rb st c by (simp add: recv_prepare_def Let_def t1_def flip: q1_def)
  show ?thesis
  proof (cases accepted)
    case True
    then show ?thesis using prep rb c q1 st by (intro exI [of _ q1] exI [of _ "t1\<lparr>st_requests := (st_requests t1)(r \<mapsto> q1)\<rparr>"] exI [of _ True] exI [of _ si1]) (simp add: t1_def)
  next
    case False
    let ?q = "q1\<lparr>sq_status := NT_STATUS_ACCESS_DENIED\<rparr>"
    have "sq_in ?q = rb" "sq_flags2 ?q = flags2" "sq_mid ?q = sq_mid q" "sq_seq_num ?q = sq_seq_num q" "sq_async_fn ?q = sq_async_fn q" using q1 by simp_all
    then show ?thesis using False prep rb c c2 st
      by (intro exI [of _ ?q] exI [of _ "t1\<lparr>st_etype := ETYPE_SOCKET, st_error := Socket_error SOCKET_READ_BAD_SIG, st_requests := (st_requests t1)(r \<mapsto> ?q)\<rparr>"]
          exI [of _ False] exI [of _ si1]) (simp add: t1_def)
  qed
qed

lemma recv_end_eq:
  assumes "st_requests t r = Some q"
  shows "recv_end async state r t = call_async async r
    (t\<lparr>st_pending_recv := remove1 r (st_pending_recv t), st_requests := (st_requests t)(r \<mapsto> q\<lparr>sq_state := state\<rparr>)\<rparr>)"
  using assms by (simp add: recv_end_def with_request_def)

lemma recv_ids_words: "recv_ids buf = Some (mid, wct) \<Longrightarrow> 0 \<le> wct"
  by (auto simp: recv_ids_def peek8_def split: if_splits Option.bind_splits)

text \<open>
  C19. A reply that is complete goes to the first waiting request with its message number and to no
  other: that request leaves the list and gets the packet, its words and its data, all inside the
  packet; it is finished with the status in the packet when the signature is accepted, and in
  error with access denied when it is not; then its callback is called. A packet whose number
  nobody waits for changes nothing.
\<close>

theorem reply_delivery:
  assumes p: "pending_ok t" and j: "length junk = 64" and len: "int (length buf) < 2147483648" "39 + 2 * wct \<le> int (length buf)" and b: "buf ! 0 = 0"
    and plain: "smbcli_handle_oplock_break (int (length buf)) 4 37 buf = Some None" "\<not> st_readbraw_pending t" and ids: "recv_ids buf = Some (mid, wct)"
    and nt: "\<forall>r q. addressee mid t = Some r \<and> st_requests t r = Some q \<longrightarrow> sq_ntcancel q = []"
  shows "case addressee mid t of
      None \<Rightarrow> smbcli_transport_finish_recv junk async oplock buf t = Some t
    | Some r \<Rightarrow> \<exists>q q1 t1 accepted si1 flags2 status. st_requests t r = Some q \<and> smbcli_transport_finish_recv junk async oplock buf t = call_async async r t1 \<and>
        st_pending_recv t1 = remove1 r (st_pending_recv t) \<and> st_requests t1 = (st_requests t)(r \<mapsto> q1) \<and>
        rb_buffer (sq_in q1) = buf \<and> wf_in (sq_in q1) \<and> rb_wct (sq_in q1) = wct \<and> sq_mid q1 = mid \<and>
        smbcli_request_check_sign_mac junk q1 (ng_sign_info (st_negotiate t)) = Some (accepted, si1) \<and> ng_sign_info (st_negotiate t1) = si1 \<and>
        recv_status buf = Some (flags2, status) \<and> sq_flags2 q1 = flags2 \<and>
        (sq_state q1, sq_status q1) = (if accepted then (SMBCLI_REQUEST_DONE, status) else (SMBCLI_REQUEST_ERROR, NT_STATUS_ACCESS_DENIED))"
proof (cases "addressee mid t")
  case None
  then show ?thesis using finish_recv_eq [OF p plain ids] by (simp add: smbcli_handle_ntcancel_reply_def)
next
  case (Some r)
  obtain q where q: "st_requests t r = Some q" using addressee_pending [OF Some] p by (auto simp: pending_ok_def awaits_reply_def)
  have nc: "sq_ntcancel q = []" using nt Some q by blast
  have mid: "sq_mid q = mid" using Some q by (auto simp: addressee_def find_Some_iff)
  obtain q1 t1 accepted si1 flags2 status where r: "recv_prepare junk buf wct r t = Some (if accepted then SMBCLI_REQUEST_DONE else SMBCLI_REQUEST_ERROR, t1)"
    "st_pending_recv t1 = st_pending_recv t" "st_requests t1 = (st_requests t)(r \<mapsto> q1)"
    "rb_buffer (sq_in q1) = buf" "wf_in (sq_in q1)" "rb_wct (sq_in q1) = wct" "sq_mid q1 = sq_mid q"
    "smbcli_request_check_sign_mac junk q1 (ng_sign_info (st_negotiate t)) = Some (accepted, si1)" "ng_sign_info (st_negotiate t1) = si1"
    "recv_status buf = Some (flags2, status)" "sq_flags2 q1 = flags2" "sq_status q1 = (if accepted then status else NT_STATUS_ACCESS_DENIED)"
    using recv_prepare_full [OF j len recv_ids_words [OF ids] b q] by blast
  define st q2 where "st = (if accepted then SMBCLI_REQUEST_DONE else SMBCLI_REQUEST_ERROR)" and "q2 = q1\<lparr>sq_state := st\<rparr>"
  define t2 where "t2 = t1\<lparr>st_pending_recv := remove1 r (st_pending_recv t1), st_requests := (st_requests t1)(r \<mapsto> q2)\<rparr>"
  have "smbcli_transport_finish_recv junk async oplock buf t = Option.bind (recv_prepare junk buf wct r t) (\<lambda>(state, t2). recv_end async state r t2)"
    unfolding finish_recv_eq [OF p plain ids] Some using q nc by (simp add: smbcli_handle_ntcancel_reply_def)
  also have "\<dots> = recv_end async st r t1" unfolding r(1) st_def by simp
  also have "\<dots> = call_async async r t2" unfolding t2_def q2_def by (rule recv_end_eq) (simp add: r(3))
  finally have fin: "smbcli_transport_finish_recv junk async oplock buf t = call_async async r t2" .
  have "smbcli_request_check_sign_mac junk q2 si = smbcli_request_check_sign_mac junk q1 si" for si
    by (simp add: q2_def smbcli_request_check_sign_mac_def)
  then have c: "smbcli_request_check_sign_mac junk q2 (ng_sign_info (st_negotiate t)) = Some (accepted, si1)" using r(8) by simp
  have "st_pending_recv t2 = remove1 r (st_pending_recv t)" "st_requests t2 = (st_requests t)(r \<mapsto> q2)" "ng_sign_info (st_negotiate t2) = si1"
    using r by (simp_all add: t2_def)
  moreover have "rb_buffer (sq_in q2) = buf" "wf_in (sq_in q2)" "rb_wct (sq_in q2) = wct" "sq_mid q2 = mid" "sq_flags2 q2 = flags2"
    "(sq_state q2, sq_status q2) = (if accepted then (SMBCLI_REQUEST_DONE, status) else (SMBCLI_REQUEST_ERROR, NT_STATUS_ACCESS_DENIED))"
    using r mid by (simp_all add: q2_def st_def)
  ultimately show ?thesis using q fin c r(10) unfolding Some option.case by blast
qed

definition callbacks_return :: "(nat \<Rightarrow> smbcli_transport \<Rightarrow> smbcli_transport option) \<Rightarrow> (int \<times> int \<times> int \<Rightarrow> smbcli_transport \<Rightarrow> smbcli_transport option) \<Rightarrow> bool" where
  "callbacks_return async oplock \<longleftrightarrow> (\<forall>r t. async r t \<noteq> None) \<and> (\<forall>b t. oplock b t \<noteq> None)"

lemma recv_end_returns: "callbacks_return async oplock \<Longrightarrow> st_requests t r = Some q \<Longrightarrow> recv_end async state r t \<noteq> None"
  by (simp add: recv_end_eq call_async_def callbacks_return_def)

lemma recv_prepare_reads:
  assumes "length junk = 64" "int (length buf) < 2147483648" "0 \<le> wct" "st_requests t r = Some q"
  shows "\<exists>state t1 q1. recv_prepare junk buf wct r t = Some (state, t1) \<and> st_requests t1 r = Some q1"
proof (cases "39 + 2 * wct \<le> int (length buf) \<and> buf ! 0 = 0")
  case True
  then show ?thesis using recv_prepare_full [OF assms(1,2) _ assms(3) _ assms(4)] by fastforce
next
  case False
  then show ?thesis using assms by (auto simp: recv_prepare_def Let_def)
qed

text \<open>
  Receiving a packet never reads outside it, except when it has 35 or 36 bytes: the test of its
  length forgets the four bytes in front of the header, and the message number or the count of
  words behind the end are read (unless a raw read is pending, whose replies are not parsed).
\<close>

theorem received_packets_read:
  assumes p: "pending_ok t" and j: "length junk = 64" and len: "int (length buf) < 2147483648" and cb: "callbacks_return async oplock"
  shows "smbcli_transport_finish_recv junk async oplock buf t = None \<longleftrightarrow> \<not> st_readbraw_pending t \<and> (length buf = 35 \<or> length buf = 36)"
proof -
  obtain brk where brk: "smbcli_handle_oplock_break (int (length buf)) 4 37 buf = Some brk" using oplock_break_reads by blast
  have ex: "\<exists>q. st_requests t r = Some q" if "r \<in> set (st_pending_recv t)" for r using that p by (auto simp: pending_ok_def awaits_reply_def)
  consider (brk) b where "brk = Some b" | (raw) "brk = None" "st_readbraw_pending t"
    | (short) "brk = None" "\<not> st_readbraw_pending t" "length buf = 35 \<or> length buf = 36"
    | (plain) mid wct where "brk = None" "\<not> st_readbraw_pending t" "recv_ids buf = Some (mid, wct)"
    using recv_ids_reads [of buf] by (cases brk) auto
  then show ?thesis
  proof cases
    case brk: (brk b)
    then have "length buf = 55" using \<open>smbcli_handle_oplock_break _ _ _ _ = _\<close> by (auto simp: smbcli_handle_oplock_break_def split: if_splits)
    then show ?thesis using brk \<open>smbcli_handle_oplock_break _ _ _ _ = _\<close> cb by (cases b) (simp add: smbcli_transport_finish_recv_def callbacks_return_def)
  next
    case raw
    show ?thesis
    proof (cases "st_pending_recv t")
      case Nil
      then show ?thesis using brk raw by (simp add: smbcli_transport_finish_recv_def Let_def)
    next
      case (Cons r rs)
      then obtain q where q: "st_requests t r = Some q" using ex [of r] by auto
      let ?t = "t\<lparr>st_readbraw_pending := False, st_requests := (st_requests t)(r \<mapsto> set_in buf q)\<rparr>"
      have "recv_end async SMBCLI_REQUEST_DONE r ?t \<noteq> None" by (rule recv_end_returns [OF cb, of _ _ "set_in buf q"]) simp
      then show ?thesis using brk raw Cons q by (simp add: smbcli_transport_finish_recv_def with_request_def Let_def)
    qed
  next
    case short
    then have "recv_ids buf = None" using recv_ids_reads [of buf] by (cases "recv_ids buf") auto
    then show ?thesis using brk short by (simp add: smbcli_transport_finish_recv_def)
  next
    case plain
    then have n: "length buf \<noteq> 35" "length buf \<noteq> 36" using recv_ids_reads [of buf] by auto
    have eq: "smbcli_transport_finish_recv junk async oplock buf t = Option.bind (smbcli_handle_ntcancel_reply (addressee mid t) buf t)
        (\<lambda>(req, t1). case req of None \<Rightarrow> Some t1 | Some r \<Rightarrow> Option.bind (recv_prepare junk buf wct r t1) (\<lambda>(state, t2). recv_end async state r t2))"
      using finish_recv_eq [OF p _ plain(2,3)] brk plain(1) by simp
    show ?thesis
    proof (cases "addressee mid t")
      case None
      then show ?thesis using eq n by (simp add: smbcli_handle_ntcancel_reply_def)
    next
      case (Some r)
      then obtain q where q: "st_requests t r = Some q" using ex addressee_pending by blast
      obtain state t1 q1 where pr: "recv_prepare junk buf wct r t = Some (state, t1)" "st_requests t1 r = Some q1"
        using recv_prepare_reads [OF j len recv_ids_words [OF plain(3)] q] by blast
      have "smbcli_handle_ntcancel_reply (Some r) buf t = Some (Some r, t) \<or> (\<exists>t1. smbcli_handle_ntcancel_reply (Some r) buf t = Some (None, t1))"
        using q by (auto simp: smbcli_handle_ntcancel_reply_def with_request_def peek8_def peek_def)
      then show ?thesis using eq Some pr recv_end_returns [OF cb pr(2), of state] n by auto
    qed
  qed
qed

section \<open>The death of a connection\<close>

text \<open>Callbacks that return and touch no request but their own.\<close>

definition minds_own :: "(nat \<Rightarrow> smbcli_transport \<Rightarrow> smbcli_transport option) \<Rightarrow> bool" where
  "minds_own async \<longleftrightarrow> (\<forall>r t. \<exists>t1. async r t = Some t1 \<and> st_sock t1 = st_sock t \<and> st_pending_recv t1 = st_pending_recv t \<and>
     (\<forall>x. x \<noteq> r \<longrightarrow> st_requests t1 x = st_requests t x))"

lemma call_async_own:
  assumes "minds_own async" "st_requests t r = Some q"
  shows "\<exists>t1. call_async async r t = Some t1 \<and> st_sock t1 = st_sock t \<and> st_pending_recv t1 = st_pending_recv t \<and>
    (\<forall>x. x \<noteq> r \<longrightarrow> st_requests t1 x = st_requests t x) \<and> (if sq_async_fn q then async r t = Some t1 else t1 = t)"
proof (cases "sq_async_fn q")
  case True
  from assms(1) obtain t1 where "async r t = Some t1" "st_sock t1 = st_sock t" "st_pending_recv t1 = st_pending_recv t"
      "\<forall>x. x \<noteq> r \<longrightarrow> st_requests t1 x = st_requests t x"
    unfolding minds_own_def by blast
  with True assms(2) show ?thesis by (simp add: call_async_def)
qed (use assms(2) in \<open>simp add: call_async_def\<close>)

text \<open>
  What becomes of a waiting request: it is in error with the status, and its callback, if it has one,
  has been called in a state \<open>u\<close> in which that was so, the socket was as given and exactly the requests
  behind it on the list were still waiting; the request is then as the callback left it.
\<close>

definition told_dead ::
    "(nat \<Rightarrow> smbcli_transport \<Rightarrow> smbcli_transport option) \<Rightarrow> NTSTATUS \<Rightarrow> bool \<Rightarrow> nat \<Rightarrow> nat list \<Rightarrow> smbcli_transport_request \<Rightarrow> smbcli_transport \<Rightarrow> bool" where
  "told_dead async status sock r behind q t1 \<longleftrightarrow>
     (if sq_async_fn q
      then (\<exists>u v. st_requests u r = Some (q\<lparr>sq_state := SMBCLI_REQUEST_ERROR, sq_status := status\<rparr>) \<and> st_sock u = sock \<and>
              st_pending_recv u = behind \<and> async r u = Some v \<and> st_requests t1 r = st_requests v r)
      else st_requests t1 r = Some (q\<lparr>sq_state := SMBCLI_REQUEST_ERROR, sq_status := status\<rparr>))"

lemma told_dead_cong: "st_requests t1 r = st_requests t2 r \<Longrightarrow> told_dead async status sock r behind q t1 = told_dead async status sock r behind q t2"
  by (simp add: told_dead_def)

lemma kill_all:
  assumes "minds_own async" "distinct (st_pending_recv t)" "\<forall>r \<in> set (st_pending_recv t). st_requests t r \<noteq> None"
  shows "\<exists>t1. transport_kill async status t = Some t1 \<and> st_sock t1 = st_sock t \<and> st_pending_recv t1 = [] \<and>
    (\<forall>before r behind q. st_pending_recv t = before @ r # behind \<and> st_requests t r = Some q \<longrightarrow> told_dead async status (st_sock t) r behind q t1) \<and>
    (\<forall>r. r \<notin> set (st_pending_recv t) \<longrightarrow> st_requests t1 r = st_requests t r)"
  using assms(2,3)
proof (induction "st_pending_recv t" arbitrary: t)
  case Nil
  then show ?case by (subst transport_kill.simps) (simp flip: Nil.hyps)
next
  case (Cons r rs)
  note l = Cons.hyps(2) [symmetric]
  obtain q where q: "st_requests t r = Some q" using Cons.prems(2) l by (auto dest: bspec [of _ _ r])
  let ?q = "q\<lparr>sq_state := SMBCLI_REQUEST_ERROR, sq_status := status\<rparr>"
  define t1 where "t1 = t\<lparr>st_requests := (st_requests t)(r \<mapsto> ?q), st_pending_recv := rs\<rparr>"
  obtain t2 where t2: "call_async async r t1 = Some t2" "st_sock t2 = st_sock t1" "st_pending_recv t2 = st_pending_recv t1"
      "\<forall>x. x \<noteq> r \<longrightarrow> st_requests t2 x = st_requests t1 x" "if sq_async_fn q then async r t1 = Some t2 else t2 = t1"
    using call_async_own [OF assms(1), of t1 r ?q] by (auto simp: t1_def)
  have k: "transport_kill async status t = transport_kill async status t2"
    by (subst transport_kill.simps) (use l q t2(1) in \<open>simp add: with_request_def t1_def\<close>)
  have d: "rs = st_pending_recv t2" "r \<notin> set rs" "distinct rs" using t2(3) l Cons.prems(1) by (simp_all add: t1_def)
  have e: "\<forall>x \<in> set rs. st_requests t2 x \<noteq> None" "\<forall>x. x \<noteq> r \<longrightarrow> st_requests t2 x = st_requests t x"
    using t2(4) d(2) Cons.prems(2) l by (auto simp: t1_def)
  obtain t3 where t3: "transport_kill async status t2 = Some t3" "st_sock t3 = st_sock t2" "st_pending_recv t3 = []"
      "\<forall>before x behind y. rs = before @ x # behind \<and> st_requests t2 x = Some y \<longrightarrow> told_dead async status (st_sock t2) x behind y t3"
      "\<forall>x. x \<notin> set rs \<longrightarrow> st_requests t3 x = st_requests t2 x"
    using Cons.hyps(1) [OF d(1)] d e by auto
  have "told_dead async status (st_sock t) r rs q t2"
  proof (cases "sq_async_fn q")
    case True
    then have "async r t1 = Some t2" using t2(5) by simp
    moreover have "st_requests t1 r = Some ?q" "st_sock t1 = st_sock t" "st_pending_recv t1 = rs" by (simp_all add: t1_def)
    ultimately show ?thesis using True unfolding told_dead_def by auto
  qed (use t2(5) in \<open>simp add: told_dead_def t1_def\<close>)
  then have own: "told_dead async status (st_sock t) r rs q t3"
    using t3(5) d(2) told_dead_cong [of t3 r t2] by blast
  have "told_dead async status (st_sock t) x behind y t3"
    if x: "st_pending_recv t = before @ x # behind" "st_requests t x = Some y" for before x behind y
  proof (cases before)
    case Nil
    then show ?thesis using x l q own by simp
  next
    case (Cons b before')
    then have "rs = before' @ x # behind" "x \<noteq> r" using x(1) l d(2) by auto
    then show ?thesis using t3(4) e(2) x(2) t2(2) by (simp add: t1_def)
  qed
  moreover have "\<forall>x. x \<notin> set (st_pending_recv t) \<longrightarrow> st_requests t3 x = st_requests t x" using l t3(5) e(2) by auto
  ultimately show ?case using k t3 t2(2) by (simp add: t1_def)
qed

text \<open>
  C22. When the connection dies, the function that ends all waiting requests returns, provided that
  callbacks return and mind their own request; the socket is closed and no request waits any more.
  Every waiting request was put in error with the status (a plain failure becomes a network error);
  one without a callback is left so, and the callback of one that has it was called after that, when
  the socket was closed and exactly the requests behind it on the list were still waiting, and the
  request is as the callback left it. Requests that did not wait are as they were.
\<close>

theorem dead_transport_ends_requests:
  assumes "minds_own async" "pending_ok t"
  shows "\<exists>t1. smbcli_transport_dead async status t = Some t1 \<and> \<not> st_sock t1 \<and> st_pending_recv t1 = [] \<and>
    (\<forall>before r behind q. st_pending_recv t = before @ r # behind \<and> st_requests t r = Some q \<longrightarrow>
       told_dead async (if status = NT_STATUS_UNSUCCESSFUL then NT_STATUS_UNEXPECTED_NETWORK_ERROR else status) False r behind q t1) \<and>
    (\<forall>r. r \<notin> set (st_pending_recv t) \<longrightarrow> st_requests t1 r = st_requests t r)"
proof -
  have "distinct (st_pending_recv (t\<lparr>st_sock := False\<rparr>))" "\<forall>r \<in> set (st_pending_recv (t\<lparr>st_sock := False\<rparr>)). st_requests (t\<lparr>st_sock := False\<rparr>) r \<noteq> None"
    using assms(2) by (auto simp: pending_ok_def awaits_reply_def)
  from kill_all [OF assms(1) this] show ?thesis unfolding smbcli_transport_dead_def by simp
qed

section \<open>A transport with one waiting request\<close>

definition sample_transport :: smbcli_transport where
  "sample_transport = \<lparr>st_sock = True, st_next_mid = 7, st_negotiate = fresh_negotiate SMB_SIGNING_OFF, st_request_timeout = 60,
     st_readbraw_pending = False, st_etype = ETYPE_NONE, st_error = Nt_status NT_STATUS_OK, st_oplock_handler = False,
     st_pending_recv = [5],
     st_requests = [5 \<mapsto> \<lparr>sq_state = SMBCLI_REQUEST_RECV, sq_flags2 = 0, sq_status = NT_STATUS_OK, sq_mid = 7, sq_in = empty_buffer, sq_out = empty_buffer,
       sq_seq_num = 0, sq_one_way_request = False, sq_sign_single_increment = False, sq_ntcancel = [], sq_async_fn = False\<rparr>],
     st_timers = [5]\<rparr>"

definition transport_reply :: "u8 list" where "transport_reply = replicate 34 0 @ [7, 0] @ replicate 3 0"

lemma sample_ok: "pending_ok sample_transport" "pending_mids sample_transport = Some [7]" "addressee 7 sample_transport = Some 5"
  by (auto simp: pending_ok_def awaits_reply_def sample_transport_def pending_mids_def addressee_def split: if_splits)

lemma transport_reply_ids:
  "recv_ids transport_reply = Some (7, 0)" "smbcli_handle_oplock_break (int (length transport_reply)) 4 37 transport_reply = Some None" "transport_reply ! 0 = 0" "length transport_reply = 39"
  by code_simp+

theorem message_number_free_witness:
  "\<exists>mid t1. smbcli_transport_next_mid sample_transport = Some (mid, t1) \<and> mid \<noteq> 0 \<and> mid \<noteq> 7"
proof -
  have "\<exists>f. f \<noteq> 0 \<and> f \<notin> set [7 :: u16]" by (rule exI [of _ 1]) simp
  then show ?thesis using message_number_free [OF sample_ok(2)] by auto
qed

theorem reply_delivery_witness:
  "\<exists>q1 t1. smbcli_transport_finish_recv (replicate 64 0) (\<lambda>r t. Some t) (\<lambda>b t. None) transport_reply sample_transport = Some t1 \<and>
     st_pending_recv t1 = [] \<and> st_requests t1 5 = Some q1 \<and> sq_state q1 = SMBCLI_REQUEST_DONE"
proof -
  let ?f = "smbcli_transport_finish_recv (replicate 64 0) (\<lambda>r t. Some t) (\<lambda>b t. None) transport_reply sample_transport"
  have off: "smbcli_request_check_sign_mac j q1 (ng_sign_info (st_negotiate sample_transport)) = Some (True, ng_sign_info (st_negotiate sample_transport))"
    for j and q1 :: smbcli_transport_request
    by (simp add: sample_transport_def fresh_negotiate_def smbcli_init_signing_def smbcli_set_signing_off_def smbcli_request_check_sign_mac_def)
  have req: "st_requests sample_transport 5 = Some q \<Longrightarrow> sq_ntcancel q = [] \<and> \<not> sq_async_fn q" for q by (auto simp: sample_transport_def)
  obtain q1 t1 where r: "?f = call_async (\<lambda>r t. Some t) 5 t1" "st_pending_recv t1 = remove1 5 (st_pending_recv sample_transport)"
      "st_requests t1 = (st_requests sample_transport)(5 \<mapsto> q1)" "sq_state q1 = SMBCLI_REQUEST_DONE"
    using reply_delivery [of sample_transport "replicate 64 0" transport_reply 0 7 "\<lambda>r t. Some t" "\<lambda>b t. None"] sample_ok(1,3) transport_reply_ids req off
    by (auto simp: sample_transport_def split: if_splits)
  have "call_async (\<lambda>r t. Some t) 5 t1 = Some t1" using r(3) by (simp add: call_async_def)
  then show ?thesis using r by (simp add: sample_transport_def)
qed

theorem received_packets_read_witness:
  "smbcli_transport_finish_recv (replicate 64 0) (\<lambda>r t. Some t) (\<lambda>b t. Some t) (replicate 35 0) sample_transport = None \<and>
   smbcli_transport_finish_recv (replicate 64 0) (\<lambda>r t. Some t) (\<lambda>b t. Some t) transport_reply sample_transport \<noteq> None"
proof -
  have c: "callbacks_return (\<lambda>r t. Some t) (\<lambda>b t. Some t)" "\<not> st_readbraw_pending sample_transport" by (simp_all add: callbacks_return_def sample_transport_def)
  show ?thesis
    using received_packets_read [of sample_transport "replicate 64 0" "replicate 35 0" "\<lambda>r t. Some t" "\<lambda>b t. Some t"]
      received_packets_read [of sample_transport "replicate 64 0" transport_reply "\<lambda>r t. Some t" "\<lambda>b t. Some t"] c sample_ok(1) transport_reply_ids(4) by simp
qed

text \<open>The request of the sample transport has a callback here, which frees the request.\<close>

theorem dead_transport_ends_requests_witness:
  "let t = sample_transport\<lparr>st_requests := [5 \<mapsto> (the (st_requests sample_transport 5))\<lparr>sq_async_fn := True\<rparr>]\<rparr>;
       async = (\<lambda>r t. Some (t\<lparr>st_requests := (st_requests t)(r := None)\<rparr>))
   in \<exists>t1. smbcli_transport_dead async NT_STATUS_UNSUCCESSFUL t = Some t1 \<and> st_pending_recv t1 = [] \<and> st_requests t1 5 = None"
proof -
  let ?t = "sample_transport\<lparr>st_requests := [5 \<mapsto> (the (st_requests sample_transport 5))\<lparr>sq_async_fn := True\<rparr>]\<rparr>"
    and ?a = "\<lambda>r t. Some (t\<lparr>st_requests := (st_requests t)(r := None)\<rparr>)"
    and ?q = "(the (st_requests sample_transport 5))\<lparr>sq_async_fn := True\<rparr>"
  have m: "minds_own ?a" by (simp add: minds_own_def)
  have ok: "pending_ok ?t" by (auto simp: pending_ok_def awaits_reply_def sample_transport_def split: if_splits)
  obtain t1 where t1: "smbcli_transport_dead ?a NT_STATUS_UNSUCCESSFUL ?t = Some t1" "st_pending_recv t1 = []"
      "\<forall>before r behind q. st_pending_recv ?t = before @ r # behind \<and> st_requests ?t r = Some q \<longrightarrow>
         told_dead ?a NT_STATUS_UNEXPECTED_NETWORK_ERROR False r behind q t1"
    using dead_transport_ends_requests [OF m ok, of NT_STATUS_UNSUCCESSFUL] by auto
  have "told_dead ?a NT_STATUS_UNEXPECTED_NETWORK_ERROR False 5 [] ?q t1"
    using t1(3) [rule_format, of "[]" 5 "[]" ?q] by (simp add: sample_transport_def)
  then have "st_requests t1 5 = None" by (auto simp: told_dead_def)
  then show ?thesis using t1 by simp
qed

theorem pending_list_exact_witness:
  "\<exists>t. (transport_step (replicate 64 0) (\<lambda>r t. Some t) (\<lambda>b t. Some t))\<^sup>*\<^sup>* (smbcli_transport_init SMB_SIGNING_AUTO) t \<and>
     st_requests t 5 \<noteq> None \<and> distinct (st_pending_recv t) \<and> \<not> awaits_reply t 5 \<and> st_pending_recv t = []"
proof -
  let ?j = "replicate 64 0 :: u8 list" and ?t0 = "smbcli_transport_init SMB_SIGNING_AUTO"
  let ?q = "the (st_requests sample_transport 5)\<lparr>sq_state := SMBCLI_REQUEST_INIT\<rparr>"
  have k: "keeps_pending (\<lambda>r t. Some t)" "oplock_keeps (\<lambda>b t. Some t)" by (simp_all add: keeps_pending_def oplock_keeps_def)
  have mid: "smbcli_transport_next_mid ?t0 = Some (1, ?t0\<lparr>st_next_mid := 2\<rparr>)"
    by (simp add: smbcli_transport_next_mid_def pending_mids_def next_mid_loop.simps [of "[]"] smbcli_transport_init_def)
  define t where "t = ?t0\<lparr>st_next_mid := 2, st_requests := [5 \<mapsto> ?q\<lparr>sq_mid := 1\<rparr>]\<rparr>"
  have "transport_step ?j (\<lambda>r t. Some t) (\<lambda>b t. Some t) ?t0 t"
    using transport_step.fresh [of ?t0 5 ?q, OF _ _ mid] by (simp add: t_def smbcli_transport_init_def)
  then have r: "(transport_step ?j (\<lambda>r t. Some t) (\<lambda>b t. Some t))\<^sup>*\<^sup>* ?t0 t" by blast
  have "\<not> awaits_reply t 5" "st_pending_recv t = []" "st_requests t 5 \<noteq> None" by (simp_all add: t_def awaits_reply_def smbcli_transport_init_def)
  then show ?thesis using pending_list_exact [OF k r] r by blast
qed

end
