(* ===== verification/Msrpc.thy ===== *)
theory Msrpc
  imports SmbRequestProps
begin

text \<open>
  The small packet generator and parser of the NTLMSSP messages, \<open>auth/ntlmssp/ntlmssp_parse.c\<close>. A
  message has a head with words, inline bytes and descriptors, and behind it the data that the
  descriptors point to. What is generated is parsed back.
\<close>

section \<open>The generator\<close>

text \<open>The letters of the format, with their arguments.\<close>

datatype msrpc_arg = Arg_U "u8 list" | Arg_A "u8 list" | Arg_a u32 "u8 list" | Arg_B "u8 list" | Arg_b "u8 list" | Arg_d u32 | Arg_C "u8 list"

text \<open>
  What the first scan finds: bytes for the data with a descriptor in the head, an address in the
  data, or bytes in the head. A result None is a conversion that does not end, misuses its buffer
  or gives fewer bytes than its terminator has; the inner None is the return value False.
\<close>

datatype msrpc_item = In_data "u8 list" | In_addr u32 "u8 list" | In_head "u8 list"

definition without_end :: "nat \<Rightarrow> (u8 list \<Rightarrow> msrpc_item) \<Rightarrow> conv_talloc \<times> conv_state \<Rightarrow> msrpc_item option option \<times> conv_state" where
  "without_end n f r = (case r of (res, st) \<Rightarrow>
     ((case res of Conv b \<Rightarrow> if length b < n then None else Some (Some (f (take (length b - n) b))) | ConvFail \<Rightarrow> Some None | _ \<Rightarrow> None), st))"

fun msrpc_scan :: "msrpc_arg \<Rightarrow> conv_state \<Rightarrow> msrpc_item option option \<times> conv_state" where
  "msrpc_scan (Arg_U s) st = without_end 2 In_data (push_ucs2_talloc s st)"
| "msrpc_scan (Arg_A s) st = without_end 1 In_data (push_ascii_talloc s st)"
| "msrpc_scan (Arg_a n s) st = without_end 2 (In_addr n) (push_ucs2_talloc s st)"
| "msrpc_scan (Arg_B b) st = (Some (Some (In_data b)), st)"
| "msrpc_scan (Arg_b b) st = (Some (Some (In_head b)), st)"
| "msrpc_scan (Arg_d n) st = (Some (Some (In_head (SIVAL n))), st)"
| "msrpc_scan (Arg_C s) st = (Some (Some (In_head (s @ [0]))), st)"

fun msrpc_scans :: "msrpc_arg list \<Rightarrow> conv_state \<Rightarrow> msrpc_item list option option \<times> conv_state" where
  "msrpc_scans [] st = (Some (Some []), st)"
| "msrpc_scans (a # as) st =
     (case msrpc_scan a st of
        (Some (Some x), st1) \<Rightarrow> (case msrpc_scans as st1 of (r, st2) \<Rightarrow> (map_option (map_option ((#) x)) r, st2))
      | (Some None, st1) \<Rightarrow> (Some None, st1)
      | (None, st1) \<Rightarrow> (None, st1))"

fun head_bytes :: "msrpc_item \<Rightarrow> nat" where
  "head_bytes (In_data b) = 8"
| "head_bytes (In_addr n b) = 0"
| "head_bytes (In_head b) = length b"

text \<open>The second scan: head and data are filled from the front, the data from offset \<open>data_ofs\<close> of the message.\<close>

fun msrpc_fill :: "nat \<Rightarrow> msrpc_item list \<Rightarrow> u8 list \<times> u8 list" where
  "msrpc_fill data_ofs [] = ([], [])"
| "msrpc_fill data_ofs (In_data b # xs) =
     (case msrpc_fill (data_ofs + length b) xs of
        (h, d) \<Rightarrow> (SSVAL (of_nat (length b)) @ SSVAL (of_nat (length b)) @ SIVAL (of_nat data_ofs) @ h, b @ d))"
| "msrpc_fill data_ofs (In_addr n b # xs) =
     (case msrpc_fill (data_ofs + 4 + length b) xs of (h, d) \<Rightarrow> (h, SSVAL (ucast n) @ SSVAL (of_nat (length b)) @ b @ d))"
| "msrpc_fill data_ofs (In_head b # xs) = (case msrpc_fill data_ofs xs of (h, d) \<Rightarrow> (b @ h, d))"

definition msrpc_message :: "msrpc_item list \<Rightarrow> u8 list" where
  "msrpc_message items = (case msrpc_fill (sum_list (map head_bytes items)) items of (h, d) \<Rightarrow> h @ d)"

definition msrpc_gen :: "msrpc_arg list \<Rightarrow> conv_state \<Rightarrow> u8 list option option \<times> conv_state" where
  "msrpc_gen args st = (case msrpc_scans args st of (r, st1) \<Rightarrow> (map_option (map_option msrpc_message) r, st1))"

section \<open>The parser\<close>

datatype msrpc_fmt = Fmt_U | Fmt_A | Fmt_B | Fmt_b nat | Fmt_d | Fmt_C "u8 list"

datatype msrpc_val = Val_string "u8 list" | Val_blob "u8 list" | Val_word u32 | Val_none

text \<open>
  A descriptor, at an offset that has been tested. The two tests that compare addresses are against
  a wrap-around of the address of the message and are never true for a message in memory.
\<close>

definition bad_descr :: "u8 list \<Rightarrow> u32 \<Rightarrow> u32 \<Rightarrow> u32 \<Rightarrow> bool" where
  "bad_descr blob len1 len2 ptr \<longleftrightarrow> len1 \<noteq> len2 \<or> ptr + len1 < ptr \<or> ptr + len1 < len1 \<or> length blob < unat (ptr + len1)"

text \<open>
  \<open>p\<close> is the local array of 1024 bytes, which a string is converted into and copied from up to its
  NUL. The result None is False; the outer None is a conversion that does not end.
\<close>

definition pulled_string :: "u8 list \<Rightarrow> u8 list \<Rightarrow> nat \<Rightarrow> u32 \<Rightarrow> conv_state \<Rightarrow> (int \<times> u8 list) option \<times> conv_state" where
  "pulled_string p src len flags st =
     (case pull_string False p src (Some len) flags st of
        Some (Some (n, p1), st1) \<Rightarrow> (Some (n, takeWhile (\<lambda>c. c \<noteq> 0) p1), st1)
      | Some (None, st1) \<Rightarrow> (None, st1)
      | None \<Rightarrow> (None, st))"

definition parse_string ::
    "u8 list \<Rightarrow> u8 list \<Rightarrow> nat \<Rightarrow> bool \<Rightarrow> conv_state \<Rightarrow> (msrpc_val \<times> nat) option option \<times> conv_state" where
  "parse_string p blob head_ofs unicode st =
     (if length blob < head_ofs + 8 then (Some None, st)
      else
        (let len1 = SVAL blob head_ofs; len2 = SVAL blob (head_ofs + 2); ptr = IVAL blob (head_ofs + 4) in
         if len1 = 0 \<and> len2 = 0 then (Some (Some (Val_string [], head_ofs + 8)), st)
         else if bad_descr blob len1 len2 ptr then (Some None, st)
         else if unicode \<and> odd (unat len1) then (Some None, st)
         else if 0 < len1
         then (case pulled_string p (drop (unat ptr) blob) (unat len1) (if unicode then STR_UNICODE OR STR_NOALIGN else STR_ASCII OR STR_NOALIGN) st of
                 (None, st1) \<Rightarrow> (None, st1)
               | (Some (n, s), st1) \<Rightarrow> (Some (Some (Val_string s, head_ofs + 8)), st1))
         else (Some (Some (Val_string [], head_ofs + 8)), st)))"

definition parse_blob :: "u8 list \<Rightarrow> nat \<Rightarrow> (msrpc_val \<times> nat) option" where
  "parse_blob blob head_ofs =
     (if length blob < head_ofs + 8 then None
      else
        (let len1 = SVAL blob head_ofs; len2 = SVAL blob (head_ofs + 2); ptr = IVAL blob (head_ofs + 4) in
         if len1 = 0 \<and> len2 = 0 then Some (Val_blob [], head_ofs + 8)
         else if bad_descr blob len1 len2 ptr then None
         else Some (Val_blob (take (unat len1) (drop (unat ptr) blob)), head_ofs + 8)))"

text \<open>The length of an inline blob is kept in sixteen bits; a constant is read up to its NUL and compared.\<close>

fun msrpc_parse1 :: "u8 list \<Rightarrow> u8 list \<Rightarrow> msrpc_fmt \<Rightarrow> nat \<Rightarrow> conv_state \<Rightarrow> (msrpc_val \<times> nat) option option \<times> conv_state" where
  "msrpc_parse1 p blob Fmt_U head_ofs st = parse_string p blob head_ofs True st"
| "msrpc_parse1 p blob Fmt_A head_ofs st = parse_string p blob head_ofs False st"
| "msrpc_parse1 p blob Fmt_B head_ofs st = (Some (parse_blob blob head_ofs), st)"
| "msrpc_parse1 p blob (Fmt_b n) head_ofs st =
     (let len1 = n mod 2 ^ 16 in
      (Some (if length blob < head_ofs + len1 then None else Some (Val_blob (take len1 (drop head_ofs blob)), head_ofs + len1)), st))"
| "msrpc_parse1 p blob Fmt_d head_ofs st =
     (Some (if length blob < head_ofs + 4 then None else Some (Val_word (IVAL blob head_ofs), head_ofs + 4)), st)"
| "msrpc_parse1 p blob (Fmt_C s) head_ofs st =
     (case pulled_string p (drop head_ofs blob) (length blob - head_ofs) (STR_ASCII OR STR_TERMINATE) st of
        (None, st1) \<Rightarrow> (None, st1)
      | (Some (n, t), st1) \<Rightarrow> (Some (if s \<noteq> t then None else Some (Val_none, head_ofs + nat n)), st1))"

fun msrpc_parse :: "u8 list \<Rightarrow> u8 list \<Rightarrow> msrpc_fmt list \<Rightarrow> nat \<Rightarrow> conv_state \<Rightarrow> msrpc_val list option option \<times> conv_state" where
  "msrpc_parse p blob [] head_ofs st = (Some (Some []), st)"
| "msrpc_parse p blob (f # fs) head_ofs st =
     (case msrpc_parse1 p blob f head_ofs st of
        (Some (Some (v, ofs)), st1) \<Rightarrow> (case msrpc_parse p blob fs ofs st1 of (r, st2) \<Rightarrow> (map_option (map_option ((#) v)) r, st2))
      | (Some None, st1) \<Rightarrow> (Some None, st1)
      | (None, st1) \<Rightarrow> (None, st1))"

section \<open>Conversions of text\<close>

text \<open>A table of descriptors over UTF-8, which conversions keep.\<close>

definition utf8_table :: "conv_state \<Rightarrow> bool" where
  "utf8_table st \<longleftrightarrow> conv_inv st \<and> (cs_unix st = ''UTF8'' \<or> cs_unix st = ''UTF-8'')"

lemma get_conv_handle_unix: "get_conv_handle a b st = (h, st1) \<Longrightarrow> cs_unix st1 = cs_unix st"
  by (auto simp: get_conv_handle_def set_handle_def Let_def split: conv_handle.splits if_splits)

lemma convert_talloc_unix: "convert_string_talloc a b src st = (r, st1) \<Longrightarrow> cs_unix st1 = cs_unix st"
  by (auto simp: convert_string_talloc_def split: option.splits if_splits prod.splits dest: get_conv_handle_unix)

lemma convert_string_unix: "convert_string a b src n out st = (r, st1) \<Longrightarrow> cs_unix st1 = cs_unix st"
  by (auto simp: convert_string_def Let_def split: prod.splits dest: get_conv_handle_unix)

lemma push_ucs2_text:
  assumes "utf8_table st" "list_all scalar cps"
  shows "\<exists>st'. push_ucs2_talloc (utf8 cps) st = (Conv (utf16 cps @ [0, 0]), st') \<and> utf8_table st'"
proof -
  have s: "list_all scalar (cps @ [0])" "cps @ [0] \<noteq> []" using assms(2) by (simp_all add: scalar_def)
  from assms(1) have t: "conv_inv st" "cs_unix st = ''UTF8'' \<or> cs_unix st = ''UTF-8''" by (simp_all add: utf8_table_def)
  from text_conversions [OF t s] obtain st' where
    "push_ucs2_talloc (utf8 cps) st = (Conv (utf16 cps @ [0, 0]), st')" "conv_inv st'"
    by (auto simp: push_ucs2_talloc_def cstring_def utf_terminated)
  moreover then have "cs_unix st' = cs_unix st" unfolding push_ucs2_talloc_def by (auto dest: convert_talloc_unix)
  ultimately show ?thesis using t by (auto simp: utf8_table_def)
qed

lemma convert_back:
  assumes "utf8_table st" "list_all scalar cps" "length (utf8 cps) \<le> out"
  shows "\<exists>st'. convert_string CH_UTF16 CH_UNIX (utf16 cps @ r) (Some (length (utf16 cps))) out st = (Some (int (length (utf8 cps)), utf8 cps), st') \<and> utf8_table st'"
proof -
  from assms(1) have t: "conv_inv st" "cs_unix st = ''UTF8'' \<or> cs_unix st = ''UTF-8''" by (simp_all add: utf8_table_def)
  obtain e where e: "open_handle st CH_UTF16 CH_UNIX = Handle e" "ic_direct e = Some utf8_push"
    using open_utf(2) [OF t(2), of "cs_env st"] by (auto simp: open_handle_def)
  have "smb_iconv e (utf16 cps) out = Some (Inr 0, [], utf8 cps)" using utf8_push_text [OF assms(2,3)] e(2) by (simp add: smb_iconv_def)
  then obtain st' where c: "convert_string CH_UTF16 CH_UNIX (utf16 cps @ r) (Some (length (utf16 cps))) out st = (Some (int (length (utf8 cps)), utf8 cps), st')" "conv_inv st'"
    using get_conv_handle_inv [OF t(1), of CH_UTF16 CH_UNIX] e(1) by (auto simp: convert_string_def source_bytes_def)
  then have "cs_unix st' = cs_unix st" by (auto dest: convert_string_unix)
  then show ?thesis using c t(2) by (auto simp: utf8_table_def)
qed

lemma takeWhile_ended: "0 \<notin> set os \<Longrightarrow> length os < length d \<Longrightarrow> takeWhile (\<lambda>c. c \<noteq> (0 :: u8)) ((os @ drop (length os) d)[length os := 0]) = os"
proof -
  assume a: "0 \<notin> set os" "length os < length d"
  then have "(os @ drop (length os) d)[length os := 0] = os @ 0 # drop (Suc (length os)) d"
    by (simp add: list_update_append Cons_nth_drop_Suc [symmetric])
  moreover have "\<forall>c \<in> set os. c \<noteq> 0" using a(1) by auto
  ultimately show ?thesis by (simp add: takeWhile_append2)
qed

lemma pulled_text:
  assumes "utf8_table st" "list_all scalar cps" "0 \<notin> set (utf8 cps)" "length (utf8 cps) < length p"
  shows "\<exists>n st'. pulled_string p (utf16 cps @ r) (length (utf16 cps)) (STR_UNICODE OR STR_NOALIGN) st = (Some (n, utf8 cps), st') \<and> utf8_table st'"
proof -
  from convert_back [OF assms(1,2), of "length p" r] assms(4) obtain st' where
    c: "convert_string CH_UTF16 CH_UNIX (utf16 cps @ r) (Some (length (utf16 cps))) (length p) st = (Some (int (length (utf8 cps)), utf8 cps), st')" "utf8_table st'" by auto
  have "p \<noteq> []" "min (length (utf8 cps)) (length p - 1) = length (utf8 cps)" using assms(4) by auto
  then have "takeWhile (\<lambda>c. c \<noteq> 0) (finish_pull (int (length (utf8 cps))) (utf8 cps) p) = utf8 cps"
    using takeWhile_ended [OF assms(3,4)] by (simp add: finish_pull_def Let_def)
  moreover have "length (utf16 cps) div 2 * 2 = length (utf16 cps)" using even_utf16 [of cps] by simp
  ultimately show ?thesis using c by (simp add: pulled_string_def pull_string_def pull_ucs2_def ucs2_align_def)
qed

section \<open>What is generated is parsed\<close>

text \<open>
  Arguments that fit: a text without a NUL that the parser's array can hold, and bytes whose length
  fits into sixteen bits.
\<close>

fun fits_arg :: "msrpc_arg \<Rightarrow> bool" where
  "fits_arg (Arg_U s) = (\<exists>cps. s = utf8 cps \<and> list_all scalar cps \<and> 0 \<notin> set s \<and> length s < 1024)"
| "fits_arg (Arg_B b) = (length b < 2 ^ 16)"
| "fits_arg (Arg_b b) = (length b < 2 ^ 16)"
| "fits_arg (Arg_d n) = True"
| "fits_arg _ = False"

fun fmt_of :: "msrpc_arg \<Rightarrow> msrpc_fmt" where
  "fmt_of (Arg_U s) = Fmt_U"
| "fmt_of (Arg_A s) = Fmt_A"
| "fmt_of (Arg_B b) = Fmt_B"
| "fmt_of (Arg_b b) = Fmt_b (length b)"
| "fmt_of (Arg_C s) = Fmt_C s"
| "fmt_of _ = Fmt_d"

fun val_of :: "msrpc_arg \<Rightarrow> msrpc_val" where
  "val_of (Arg_U s) = Val_string s"
| "val_of (Arg_B b) = Val_blob b"
| "val_of (Arg_b b) = Val_blob b"
| "val_of (Arg_d n) = Val_word n"
| "val_of _ = Val_none"

text \<open>What the first scan makes of one.\<close>

inductive item_of :: "msrpc_arg \<Rightarrow> msrpc_item \<Rightarrow> bool" where
  "list_all scalar cps \<Longrightarrow> 0 \<notin> set (utf8 cps) \<Longrightarrow> length (utf8 cps) < 1024 \<Longrightarrow> item_of (Arg_U (utf8 cps)) (In_data (utf16 cps))"
| "length b < 2 ^ 16 \<Longrightarrow> item_of (Arg_B b) (In_data b)"
| "length b < 2 ^ 16 \<Longrightarrow> item_of (Arg_b b) (In_head b)"
| "item_of (Arg_d n) (In_head (SIVAL n))"

lemma scan_item:
  assumes "fits_arg a" "utf8_table st"
  shows "\<exists>x st'. msrpc_scan a st = (Some (Some x), st') \<and> item_of a x \<and> utf8_table st'"
proof (cases a)
  case (Arg_U s)
  with assms(1) obtain cps where c: "s = utf8 cps" "list_all scalar cps" "0 \<notin> set (utf8 cps)" "length (utf8 cps) < 1024" by auto
  from push_ucs2_text [OF assms(2) c(2)] item_of.intros(1) [OF c(2-4)] Arg_U c(1) show ?thesis by (auto simp: without_end_def)
qed (use assms in \<open>auto intro: item_of.intros\<close>)

lemma scans_items:
  "list_all fits_arg as \<Longrightarrow> utf8_table st \<Longrightarrow> \<exists>xs st'. msrpc_scans as st = (Some (Some xs), st') \<and> list_all2 item_of as xs \<and> utf8_table st'"
proof (induction as arbitrary: st)
  case (Cons a as)
  from scan_item [of a st] Cons.prems obtain x st1 where 1: "msrpc_scan a st = (Some (Some x), st1)" "item_of a x" "utf8_table st1" by auto
  from Cons.IH [OF _ 1(3)] Cons.prems(1) obtain xs st2 where "msrpc_scans as st1 = (Some (Some xs), st2)" "list_all2 item_of as xs" "utf8_table st2" by auto
  then show ?case using 1 by simp
qed simp

lemma fill_length: "msrpc_fill n xs = (h, d) \<Longrightarrow> length h = sum_list (map head_bytes xs)"
  by (induction n xs arbitrary: h d rule: msrpc_fill.induct) (auto split: prod.splits)

lemma utf16_short: "list_all scalar cps \<Longrightarrow> length (utf8 cps) < 1024 \<Longrightarrow> length (utf16 cps) < 2 ^ 16"
  using length_utf [of cps] by simp

text \<open>A descriptor in the head, and the data it points to.\<close>

lemma descr_read:
  assumes "blob = pre @ SSVAL (of_nat (length b)) @ SSVAL (of_nat (length b)) @ SIVAL (of_nat ofs) @ rest" "length b < 2 ^ 16"
  shows "SVAL blob (length pre) = of_nat (length b)" "SVAL blob (length pre + 2) = of_nat (length b)" "IVAL blob (length pre + 4) = of_nat ofs"
    "length pre + 8 \<le> length blob"
proof -
  have u: "(ucast (of_nat (length b) :: u16) :: u32) = of_nat (length b)" using assms(2) by (simp add: unsigned_of_nat take_bit_nat_eq_self)
  show "SVAL blob (length pre) = of_nat (length b)" using SVAL_at [of pre "of_nat (length b)"] u by (simp add: assms(1))
  show "SVAL blob (length pre + 2) = of_nat (length b)" using SVAL_at [of "pre @ SSVAL (of_nat (length b))" "of_nat (length b)"] u by (simp add: assms(1))
  show "IVAL blob (length pre + 4) = of_nat ofs"
    using IVAL_at [of "pre @ SSVAL (of_nat (length b)) @ SSVAL (of_nat (length b))" "of_nat ofs"] by (simp add: assms(1))
  show "length pre + 8 \<le> length blob" by (simp add: assms(1))
qed

lemma descr_good:
  assumes "length b < 2 ^ 16" "ofs + length b \<le> length blob" "length blob < 2 ^ 32"
  shows "\<not> bad_descr blob (of_nat (length b)) (of_nat (length b)) (of_nat ofs)" "unat (of_nat ofs :: u32) = ofs" "unat (of_nat (length b) :: u32) = length b"
proof -
  have b: "length b < 4294967296" "ofs < 4294967296" "ofs + length b < 4294967296" using assms by simp_all
  show u: "unat (of_nat ofs :: u32) = ofs" "unat (of_nat (length b) :: u32) = length b" using b by (simp_all add: unat_of_nat_u32)
  have "unat (of_nat ofs + of_nat (length b) :: u32) = ofs + length b" using unat_of_nat_u32 [OF b(3)] by simp
  then show "\<not> bad_descr blob (of_nat (length b)) (of_nat (length b)) (of_nat ofs)"
    using assms(2) u by (simp add: bad_descr_def word_less_nat_alt)
qed

lemma parse_descr:
  assumes "blob = pre @ SSVAL (of_nat (length b)) @ SSVAL (of_nat (length b)) @ SIVAL (of_nat (length front)) @ rest" "blob = front @ b @ tail"
    and "length b < 2 ^ 16" "length blob < 2 ^ 32"
  shows "parse_blob blob (length pre) = Some (Val_blob b, length pre + 8)"
    "b = utf16 cps \<Longrightarrow> list_all scalar cps \<Longrightarrow> 0 \<notin> set (utf8 cps) \<Longrightarrow> length (utf8 cps) < length p \<Longrightarrow> utf8_table st \<Longrightarrow>
      \<exists>st'. parse_string p blob (length pre) True st = (Some (Some (Val_string (utf8 cps), length pre + 8)), st') \<and> utf8_table st'"
proof -
  note r = descr_read [OF assms(1,3)]
  have "length front + length b \<le> length blob" by (simp add: assms(2))
  note g = descr_good [OF assms(3) this assms(4)]
  have z: "(of_nat (length b) :: u32) = 0 \<longleftrightarrow> b = []" using unsigned_eq_0_iff [of "of_nat (length b) :: u32", where ?'a = nat] g(3) by simp
  have dr: "drop (length front) blob = b @ tail" by (simp add: assms(2))
  show "parse_blob blob (length pre) = Some (Val_blob b, length pre + 8)"
    unfolding parse_blob_def r Let_def using r(4) g z dr by simp
  assume c: "b = utf16 cps" "list_all scalar cps" "0 \<notin> set (utf8 cps)" "length (utf8 cps) < length p" "utf8_table st"
  have ev: "even (length b)" using even_utf16 [of cps] c(1) by simp
  have em: "b = [] \<Longrightarrow> utf8 cps = []" using utf_nonempty [of cps] c(1) by (cases cps) (auto simp: utf8_def)
  from pulled_text [OF c(5,2-4), of tail] c(1) obtain n st' where
    pt: "pulled_string p (b @ tail) (length b) (STR_UNICODE OR STR_NOALIGN) st = (Some (n, utf8 cps), st')" "utf8_table st'" by auto
  show "\<exists>st'. parse_string p blob (length pre) True st = (Some (Some (Val_string (utf8 cps), length pre + 8)), st') \<and> utf8_table st'"
  proof (cases "b = []")
    case True
    then show ?thesis unfolding parse_string_def r Let_def using r(4) z em c(5) by simp
  next
    case False
    then have "0 < (of_nat (length b) :: u32)" using z by (simp add: word_gt_0)
    then show ?thesis unfolding parse_string_def r Let_def using r(4) g z False ev dr pt by simp
  qed
qed

lemma parse_fill:
  "list_all2 item_of as xs \<Longrightarrow> msrpc_fill (length (pre @ h @ mid)) xs = (h, d) \<Longrightarrow> blob = pre @ h @ mid @ d \<Longrightarrow> length blob < 2 ^ 32 \<Longrightarrow>
   length p = 1024 \<Longrightarrow> utf8_table st \<Longrightarrow>
   \<exists>st'. msrpc_parse p blob (map fmt_of as) (length pre) st = (Some (Some (map val_of as)), st')"
proof (induction as xs arbitrary: pre h mid d st rule: list_all2_induct)
  case (Cons a as x xs)
  let ?n = "length (pre @ h @ mid)"
  note step = Cons.IH [OF _ _ Cons.prems(3,4)]
  show ?case
  proof (cases "\<exists>b. x = In_data b")
    case True
    then obtain b where x: "x = In_data b" by blast
    from Cons.prems(1) x obtain h' d' where f: "msrpc_fill (?n + length b) xs = (h', d')"
      "h = SSVAL (of_nat (length b)) @ SSVAL (of_nat (length b)) @ SIVAL (of_nat ?n) @ h'" "d = b @ d'" by (auto split: prod.splits)
    let ?descr = "SSVAL (of_nat (length b)) @ SSVAL (of_nat (length b)) @ SIVAL (of_nat ?n)"
    have bl: "blob = pre @ SSVAL (of_nat (length b)) @ SSVAL (of_nat (length b)) @ SIVAL (of_nat (length (pre @ h @ mid))) @ h' @ mid @ b @ d'" "blob = (pre @ h @ mid) @ b @ d'"
      using Cons.prems(2) f by simp_all
    have lb: "length b < 2 ^ 16" using Cons.hyps(1) x by (auto elim!: item_of.cases dest!: utf16_short)
    note pd = parse_descr [OF bl lb Cons.prems(3)]
    have lh: "length h = 8 + length h'" using arg_cong [OF f(2), of length] by simp
    have "length ((pre @ ?descr) @ h' @ (mid @ b)) = ?n + length b" using lh by simp
    then have f': "msrpc_fill (length ((pre @ ?descr) @ h' @ (mid @ b))) xs = (h', d')" using f(1) by (simp only:)
    have "blob = (pre @ ?descr) @ h' @ (mid @ b) @ d'" using bl(1) by simp
    note step' = step [OF f' this]
    have IH: "\<exists>st'. msrpc_parse p blob (map fmt_of as) (length pre + 8) st1 = (Some (Some (map val_of as)), st')" if "utf8_table st1" for st1
      using step' [OF that] by simp
    from Cons.hyps(1) x consider (U) cps where "a = Arg_U (utf8 cps)" "b = utf16 cps" "list_all scalar cps" "0 \<notin> set (utf8 cps)" "length (utf8 cps) < 1024" | (B) "a = Arg_B b"
      by (auto elim: item_of.cases)
    then show ?thesis
    proof cases
      case U
      from pd(2) [OF U(2-4), of p st] U(5) Cons.prems(4,5) obtain st1 where
        "parse_string p blob (length pre) True st = (Some (Some (Val_string (utf8 cps), length pre + 8)), st1)" "utf8_table st1" by auto
      then show ?thesis using IH [of st1] U(1) by auto
    next
      case B
      then show ?thesis using IH [OF Cons.prems(5)] pd(1) by auto
    qed
  next
    case False
    with Cons.hyps(1) obtain b where x: "x = In_head b" by (auto elim: item_of.cases)
    from Cons.prems(1) x obtain h' where f: "msrpc_fill ?n xs = (h', d)" "h = b @ h'" by (auto simp: add.assoc split: prod.splits)
    have bl: "blob = pre @ b @ h' @ mid @ d" using Cons.prems(2) f by simp
    have IH: "\<exists>st'. msrpc_parse p blob (map fmt_of as) (length pre + length b) st = (Some (Some (map val_of as)), st')"
      using step [of "pre @ b" h' mid d st] Cons.prems(2,5) f by (simp add: add.assoc)
    from Cons.hyps(1) x consider (b) "a = Arg_b b" "length b < 2 ^ 16" | (d) n where "a = Arg_d n" "b = SIVAL n" by (auto elim: item_of.cases)
    then show ?thesis
    proof cases
      case b
      then show ?thesis using IH bl by auto
    next
      case d
      then show ?thesis using IH bl IVAL_at [of pre n "h' @ mid @ d"] by auto
    qed
  qed
qed simp

text \<open>The length of a message.\<close>

fun arg_size :: "msrpc_arg \<Rightarrow> nat" where
  "arg_size (Arg_U s) = 8 + 2 * length s"
| "arg_size (Arg_B b) = 8 + length b"
| "arg_size (Arg_b b) = length b"
| "arg_size _ = 4"

fun item_size :: "msrpc_item \<Rightarrow> nat" where
  "item_size (In_data b) = 8 + length b"
| "item_size (In_addr n b) = 4 + length b"
| "item_size (In_head b) = length b"

lemma fill_size: "msrpc_fill n xs = (h, d) \<Longrightarrow> length h + length d = sum_list (map item_size xs)"
  by (induction n xs arbitrary: h d rule: msrpc_fill.induct) (auto split: prod.splits)

lemma items_size: "list_all2 item_of as xs \<Longrightarrow> sum_list (map item_size xs) \<le> sum_list (map arg_size as)"
proof (induction rule: list_all2_induct)
  case (Cons a as x xs)
  have "item_size x \<le> arg_size a" using Cons.hyps(1) length_utf by (cases rule: item_of.cases) (auto simp: trans_le_add1)
  then show ?case using Cons.IH by simp
qed simp

text \<open>
  C30. A message generated from words, inline bytes, byte strings and Unicode texts in any order is
  parsed, by another process with its own table of conversions, to exactly these arguments.
\<close>

theorem msrpc_roundtrip:
  assumes "list_all fits_arg args" "sum_list (map arg_size args) < 2 ^ 32" "utf8_table st" "utf8_table st2" "length p = 1024"
  shows "\<exists>blob st' st2'. msrpc_gen args st = (Some (Some blob), st') \<and> msrpc_parse p blob (map fmt_of args) 0 st2 = (Some (Some (map val_of args)), st2')"
proof -
  from scans_items [OF assms(1,3)] obtain xs st' where x: "msrpc_scans args st = (Some (Some xs), st')" "list_all2 item_of args xs" by blast
  obtain h d where f: "msrpc_fill (sum_list (map head_bytes xs)) xs = (h, d)" by fastforce
  then have n: "msrpc_fill (length ([] @ h @ [])) xs = (h, d)" using fill_length [OF f] by simp
  have "length (h @ d) < 2 ^ 32" using fill_size [OF f] items_size [OF x(2)] assms(2) by simp
  then show ?thesis using x(1) parse_fill [OF x(2) n refl _ assms(5,4)] f by (auto simp: msrpc_gen_def msrpc_message_def)
qed

theorem msrpc_roundtrip_witness:
  "\<exists>blob st' st2'. msrpc_gen [Arg_d 0x101, Arg_U [0x41, 0x42], Arg_B [9, 8, 7], Arg_b [1]] utf8_state = (Some (Some blob), st') \<and>
     msrpc_parse (replicate 1024 0xAA) blob [Fmt_d, Fmt_U, Fmt_B, Fmt_b 1] 0 utf8_state =
       (Some (Some [Val_word 0x101, Val_string [0x41, 0x42], Val_blob [9, 8, 7], Val_blob [1]]), st2')"
proof -
  have u: "utf8 [0x41, 0x42] = [0x41, 0x42]" "list_all scalar [0x41, 0x42]" by (code_simp, simp add: scalar_def)
  have "utf8_table utf8_state" using utf8_state_inv by (simp add: utf8_table_def utf8_state_def)
  moreover have "list_all fits_arg [Arg_d 0x101, Arg_U [0x41, 0x42], Arg_B [9, 8, 7], Arg_b [1]]" using u by (auto intro!: exI [of _ "[0x41, 0x42]"])
  ultimately show ?thesis
    using msrpc_roundtrip [of "[Arg_d 0x101, Arg_U [0x41, 0x42], Arg_B [9, 8, 7], Arg_b [1]]" utf8_state utf8_state "replicate 1024 0xAA"] by simp
qed

end
