(* ===== verification/Md4.thy ===== *)
theory Md4
  imports Md5Props
begin

text \<open>
  The message digest MD4 in one call, \<open>lib/crypto/md4.c\<close>, which the passwords of Windows hosts are
  hashed with, and its equality with RFC 1320. The length is an \<open>int\<close>; eight times it must not overflow.
\<close>

section \<open>The digest\<close>

definition F_md4 :: "u32 \<Rightarrow> u32 \<Rightarrow> u32 \<Rightarrow> u32" where "F_md4 X Y Z = (X AND Y) OR ((NOT X) AND Z)"
definition G_md4 :: "u32 \<Rightarrow> u32 \<Rightarrow> u32 \<Rightarrow> u32" where "G_md4 X Y Z = (X AND Y) OR (X AND Z) OR (Y AND Z)"
definition H_md4 :: "u32 \<Rightarrow> u32 \<Rightarrow> u32 \<Rightarrow> u32" where "H_md4 X Y Z = X XOR Y XOR Z"

definition lshift :: "u32 \<Rightarrow> nat \<Rightarrow> u32" where
  "lshift x0 s = (let x = x0 AND 0xFFFFFFFF in (push_bit s x AND 0xFFFFFFFF) OR drop_bit (32 - s) x)"

definition ROUND1 :: "u32 list \<Rightarrow> u32 \<Rightarrow> u32 \<Rightarrow> u32 \<Rightarrow> u32 \<Rightarrow> nat \<Rightarrow> nat \<Rightarrow> u32" where
  "ROUND1 X a b c d k s = lshift (a + F_md4 b c d + X ! k) s"

definition ROUND2 :: "u32 list \<Rightarrow> u32 \<Rightarrow> u32 \<Rightarrow> u32 \<Rightarrow> u32 \<Rightarrow> nat \<Rightarrow> nat \<Rightarrow> u32" where
  "ROUND2 X a b c d k s = lshift (a + G_md4 b c d + X ! k + 0x5A827999) s"

definition ROUND3 :: "u32 list \<Rightarrow> u32 \<Rightarrow> u32 \<Rightarrow> u32 \<Rightarrow> u32 \<Rightarrow> nat \<Rightarrow> nat \<Rightarrow> u32" where
  "ROUND3 X a b c d k s = lshift (a + H_md4 b c d + X ! k + 0x6ED9EBA1) s"

definition md4_round1 :: "u32 list \<Rightarrow> md5_state \<Rightarrow> md5_state" where
  "md4_round1 X = (\<lambda>(a, b, c, d).
     let a = ROUND1 X a b c d 0 3;
         d = ROUND1 X d a b c 1 7;
         c = ROUND1 X c d a b 2 11;
         b = ROUND1 X b c d a 3 19;
         a = ROUND1 X a b c d 4 3;
         d = ROUND1 X d a b c 5 7;
         c = ROUND1 X c d a b 6 11;
         b = ROUND1 X b c d a 7 19;
         a = ROUND1 X a b c d 8 3;
         d = ROUND1 X d a b c 9 7;
         c = ROUND1 X c d a b 10 11;
         b = ROUND1 X b c d a 11 19;
         a = ROUND1 X a b c d 12 3;
         d = ROUND1 X d a b c 13 7;
         c = ROUND1 X c d a b 14 11;
         b = ROUND1 X b c d a 15 19
     in (a, b, c, d))"

definition md4_round2 :: "u32 list \<Rightarrow> md5_state \<Rightarrow> md5_state" where
  "md4_round2 X = (\<lambda>(a, b, c, d).
     let a = ROUND2 X a b c d 0 3;
         d = ROUND2 X d a b c 4 5;
         c = ROUND2 X c d a b 8 9;
         b = ROUND2 X b c d a 12 13;
         a = ROUND2 X a b c d 1 3;
         d = ROUND2 X d a b c 5 5;
         c = ROUND2 X c d a b 9 9;
         b = ROUND2 X b c d a 13 13;
         a = ROUND2 X a b c d 2 3;
         d = ROUND2 X d a b c 6 5;
         c = ROUND2 X c d a b 10 9;
         b = ROUND2 X b c d a 14 13;
         a = ROUND2 X a b c d 3 3;
         d = ROUND2 X d a b c 7 5;
         c = ROUND2 X c d a b 11 9;
         b = ROUND2 X b c d a 15 13
     in (a, b, c, d))"

definition md4_round3 :: "u32 list \<Rightarrow> md5_state \<Rightarrow> md5_state" where
  "md4_round3 X = (\<lambda>(a, b, c, d).
     let a = ROUND3 X a b c d 0 3;
         d = ROUND3 X d a b c 8 9;
         c = ROUND3 X c d a b 4 11;
         b = ROUND3 X b c d a 12 15;
         a = ROUND3 X a b c d 2 3;
         d = ROUND3 X d a b c 10 9;
         c = ROUND3 X c d a b 6 11;
         b = ROUND3 X b c d a 14 15;
         a = ROUND3 X a b c d 1 3;
         d = ROUND3 X d a b c 9 9;
         c = ROUND3 X c d a b 5 11;
         b = ROUND3 X b c d a 13 15;
         a = ROUND3 X a b c d 3 3;
         d = ROUND3 X d a b c 11 9;
         c = ROUND3 X c d a b 7 11;
         b = ROUND3 X b c d a 15 15
     in (a, b, c, d))"

definition mdfour64 :: "md5_state \<Rightarrow> u32 list \<Rightarrow> md5_state" where
  "mdfour64 s M =
     (case (s, md4_round3 M (md4_round2 M (md4_round1 M s))) of
        ((AA, BB, CC, DD), (a, b, c, d)) \<Rightarrow>
          ((a + AA) AND 0xFFFFFFFF, (b + BB) AND 0xFFFFFFFF, (c + CC) AND 0xFFFFFFFF, (d + DD) AND 0xFFFFFFFF))"

definition copy64 :: "u8 list \<Rightarrow> u32 list" where
  "copy64 bytes = map (\<lambda>i. push_bit 24 (ucast (bytes ! (i * 4 + 3))) OR push_bit 16 (ucast (bytes ! (i * 4 + 2))) OR
     push_bit 8 (ucast (bytes ! (i * 4 + 1))) OR push_bit 0 (ucast (bytes ! (i * 4 + 0)))) [0..<16]"

definition copy4 :: "u32 \<Rightarrow> u8 list" where
  "copy4 x = [ucast (x AND 0xFF), ucast (drop_bit 8 x AND 0xFF), ucast (drop_bit 16 x AND 0xFF), ucast (drop_bit 24 x AND 0xFF)]"

text \<open>The loop over whole blocks, which leaves the last one.\<close>

fun mdfour_loop :: "md5_state \<Rightarrow> u8 list \<Rightarrow> md5_state \<times> u8 list" where
  "mdfour_loop state inp = (if 64 < length inp then mdfour_loop (mdfour64 state (copy64 inp)) (drop 64 inp) else (state, inp))"

definition mdfour :: "u8 list \<Rightarrow> u8 list" where
  "mdfour inp0 =
     (let b = of_nat (length inp0 * 8) :: u32;
          (state, inp) = mdfour_loop (0x67452301, 0xefcdab89, 0x98badcfe, 0x10325476) inp0;
          n = length inp; buf = (inp @ replicate (128 - n) 0)[n := 0x80];
          state = (if n \<le> 55 then mdfour64 state (copy64 (take 56 buf @ copy4 b @ drop 60 buf))
                   else let buf1 = take 120 buf @ copy4 b @ drop 124 buf
                        in mdfour64 (mdfour64 state (copy64 buf1)) (copy64 (drop 64 buf1)))
      in case state of (A, B, C, D) \<Rightarrow> copy4 A @ copy4 B @ copy4 C @ copy4 D)"

section \<open>The standard\<close>

definition rfc1320_F :: "nat \<Rightarrow> u32 \<Rightarrow> u32 \<Rightarrow> u32 \<Rightarrow> u32" where
  "rfc1320_F i x y z =
     (if i < 16 then (x AND y) OR (NOT x AND z) else if i < 32 then (x AND y) OR (x AND z) OR (y AND z) else x XOR y XOR z)"

definition rfc1320_K :: "nat \<Rightarrow> u32" where
  "rfc1320_K i = (if i < 16 then 0 else if i < 32 then 0x5A827999 else 0x6ED9EBA1)"

definition rfc1320_index :: "nat \<Rightarrow> nat" where
  "rfc1320_index i =
     (if i < 16 then i else if i < 32 then i mod 4 * 4 + (i - 16) div 4 else [0, 8, 4, 12, 2, 10, 6, 14, 1, 9, 5, 13, 3, 11, 7, 15] ! (i - 32))"

definition rfc1320_shift :: "nat \<Rightarrow> nat" where
  "rfc1320_shift i = [[3, 7, 11, 19], [3, 5, 9, 13], [3, 9, 11, 15]] ! (i div 16) ! (i mod 4)"

definition rfc1320_step :: "u32 list \<Rightarrow> nat \<Rightarrow> md5_state \<Rightarrow> md5_state" where
  "rfc1320_step M i = (\<lambda>(a, b, c, d).
     (d, word_rotl (rfc1320_shift i) (a + rfc1320_F i b c d + M ! rfc1320_index i + rfc1320_K i), b, c))"

definition rfc1320_block :: "md5_state \<Rightarrow> u8 list \<Rightarrow> md5_state" where
  "rfc1320_block s bytes =
     (case (s, fold (rfc1320_step (md5_words bytes)) [0..<48] s) of ((b0, b1, b2, b3), (a, b, c, d)) \<Rightarrow> (a + b0, b + b1, c + b2, d + b3))"

definition rfc1320_md4 :: "u8 list \<Rightarrow> u8 list" where
  "rfc1320_md4 = md_hash rfc1320_block rfc1321_iv rfc1321_length rfc1321_out"

section \<open>The transformation\<close>

lemma all_ones: "x AND 0xFFFFFFFF = (x :: u32)"
proof -
  have "(0xFFFFFFFF :: u32) = mask 32" by code_simp
  then show ?thesis by (simp only: flip: take_bit_eq_mask) (simp add: take_bit_word_eq_self)
qed

lemma lshift_rotate: "0 < s \<Longrightarrow> s < 32 \<Longrightarrow> lshift x s = word_rotl s x"
  by (simp only: lshift_def Let_def all_ones rotate_left)

lemma F_md4_rounds:
  "i < 16 \<Longrightarrow> rfc1320_F i x y z = F_md4 x y z" "16 \<le> i \<Longrightarrow> i < 32 \<Longrightarrow> rfc1320_F i x y z = G_md4 x y z" "32 \<le> i \<Longrightarrow> rfc1320_F i x y z = H_md4 x y z"
  by (simp_all add: rfc1320_F_def F_md4_def G_md4_def H_md4_def)

lemma md4_steps1:
  "fold (rfc1320_step M) (0 # js) (a, b, c, d) = (let x = ROUND1 M a b c d 0 3 in fold (rfc1320_step M) js (d, x, b, c))"
  "fold (rfc1320_step M) (1 # js) (a, b, c, d) = (let x = ROUND1 M a b c d 1 7 in fold (rfc1320_step M) js (d, x, b, c))"
  "fold (rfc1320_step M) (2 # js) (a, b, c, d) = (let x = ROUND1 M a b c d 2 11 in fold (rfc1320_step M) js (d, x, b, c))"
  "fold (rfc1320_step M) (3 # js) (a, b, c, d) = (let x = ROUND1 M a b c d 3 19 in fold (rfc1320_step M) js (d, x, b, c))"
  "fold (rfc1320_step M) (4 # js) (a, b, c, d) = (let x = ROUND1 M a b c d 4 3 in fold (rfc1320_step M) js (d, x, b, c))"
  "fold (rfc1320_step M) (5 # js) (a, b, c, d) = (let x = ROUND1 M a b c d 5 7 in fold (rfc1320_step M) js (d, x, b, c))"
  "fold (rfc1320_step M) (6 # js) (a, b, c, d) = (let x = ROUND1 M a b c d 6 11 in fold (rfc1320_step M) js (d, x, b, c))"
  "fold (rfc1320_step M) (7 # js) (a, b, c, d) = (let x = ROUND1 M a b c d 7 19 in fold (rfc1320_step M) js (d, x, b, c))"
  "fold (rfc1320_step M) (8 # js) (a, b, c, d) = (let x = ROUND1 M a b c d 8 3 in fold (rfc1320_step M) js (d, x, b, c))"
  "fold (rfc1320_step M) (9 # js) (a, b, c, d) = (let x = ROUND1 M a b c d 9 7 in fold (rfc1320_step M) js (d, x, b, c))"
  "fold (rfc1320_step M) (10 # js) (a, b, c, d) = (let x = ROUND1 M a b c d 10 11 in fold (rfc1320_step M) js (d, x, b, c))"
  "fold (rfc1320_step M) (11 # js) (a, b, c, d) = (let x = ROUND1 M a b c d 11 19 in fold (rfc1320_step M) js (d, x, b, c))"
  "fold (rfc1320_step M) (12 # js) (a, b, c, d) = (let x = ROUND1 M a b c d 12 3 in fold (rfc1320_step M) js (d, x, b, c))"
  "fold (rfc1320_step M) (13 # js) (a, b, c, d) = (let x = ROUND1 M a b c d 13 7 in fold (rfc1320_step M) js (d, x, b, c))"
  "fold (rfc1320_step M) (14 # js) (a, b, c, d) = (let x = ROUND1 M a b c d 14 11 in fold (rfc1320_step M) js (d, x, b, c))"
  "fold (rfc1320_step M) (15 # js) (a, b, c, d) = (let x = ROUND1 M a b c d 15 19 in fold (rfc1320_step M) js (d, x, b, c))"
  by (simp_all add: rfc1320_step_def F_md4_rounds ROUND1_def lshift_rotate rfc1320_index_def rfc1320_shift_def rfc1320_K_def)

lemma md4_steps2:
  "fold (rfc1320_step M) (16 # js) (a, b, c, d) = (let x = ROUND2 M a b c d 0 3 in fold (rfc1320_step M) js (d, x, b, c))"
  "fold (rfc1320_step M) (17 # js) (a, b, c, d) = (let x = ROUND2 M a b c d 4 5 in fold (rfc1320_step M) js (d, x, b, c))"
  "fold (rfc1320_step M) (18 # js) (a, b, c, d) = (let x = ROUND2 M a b c d 8 9 in fold (rfc1320_step M) js (d, x, b, c))"
  "fold (rfc1320_step M) (19 # js) (a, b, c, d) = (let x = ROUND2 M a b c d 12 13 in fold (rfc1320_step M) js (d, x, b, c))"
  "fold (rfc1320_step M) (20 # js) (a, b, c, d) = (let x = ROUND2 M a b c d 1 3 in fold (rfc1320_step M) js (d, x, b, c))"
  "fold (rfc1320_step M) (21 # js) (a, b, c, d) = (let x = ROUND2 M a b c d 5 5 in fold (rfc1320_step M) js (d, x, b, c))"
  "fold (rfc1320_step M) (22 # js) (a, b, c, d) = (let x = ROUND2 M a b c d 9 9 in fold (rfc1320_step M) js (d, x, b, c))"
  "fold (rfc1320_step M) (23 # js) (a, b, c, d) = (let x = ROUND2 M a b c d 13 13 in fold (rfc1320_step M) js (d, x, b, c))"
  "fold (rfc1320_step M) (24 # js) (a, b, c, d) = (let x = ROUND2 M a b c d 2 3 in fold (rfc1320_step M) js (d, x, b, c))"
  "fold (rfc1320_step M) (25 # js) (a, b, c, d) = (let x = ROUND2 M a b c d 6 5 in fold (rfc1320_step M) js (d, x, b, c))"
  "fold (rfc1320_step M) (26 # js) (a, b, c, d) = (let x = ROUND2 M a b c d 10 9 in fold (rfc1320_step M) js (d, x, b, c))"
  "fold (rfc1320_step M) (27 # js) (a, b, c, d) = (let x = ROUND2 M a b c d 14 13 in fold (rfc1320_step M) js (d, x, b, c))"
  "fold (rfc1320_step M) (28 # js) (a, b, c, d) = (let x = ROUND2 M a b c d 3 3 in fold (rfc1320_step M) js (d, x, b, c))"
  "fold (rfc1320_step M) (29 # js) (a, b, c, d) = (let x = ROUND2 M a b c d 7 5 in fold (rfc1320_step M) js (d, x, b, c))"
  "fold (rfc1320_step M) (30 # js) (a, b, c, d) = (let x = ROUND2 M a b c d 11 9 in fold (rfc1320_step M) js (d, x, b, c))"
  "fold (rfc1320_step M) (31 # js) (a, b, c, d) = (let x = ROUND2 M a b c d 15 13 in fold (rfc1320_step M) js (d, x, b, c))"
  by (simp_all add: rfc1320_step_def F_md4_rounds ROUND2_def lshift_rotate rfc1320_index_def rfc1320_shift_def rfc1320_K_def flip: numeral_2_eq_2)

lemma md4_steps3:
  "fold (rfc1320_step M) (32 # js) (a, b, c, d) = (let x = ROUND3 M a b c d 0 3 in fold (rfc1320_step M) js (d, x, b, c))"
  "fold (rfc1320_step M) (33 # js) (a, b, c, d) = (let x = ROUND3 M a b c d 8 9 in fold (rfc1320_step M) js (d, x, b, c))"
  "fold (rfc1320_step M) (34 # js) (a, b, c, d) = (let x = ROUND3 M a b c d 4 11 in fold (rfc1320_step M) js (d, x, b, c))"
  "fold (rfc1320_step M) (35 # js) (a, b, c, d) = (let x = ROUND3 M a b c d 12 15 in fold (rfc1320_step M) js (d, x, b, c))"
  "fold (rfc1320_step M) (36 # js) (a, b, c, d) = (let x = ROUND3 M a b c d 2 3 in fold (rfc1320_step M) js (d, x, b, c))"
  "fold (rfc1320_step M) (37 # js) (a, b, c, d) = (let x = ROUND3 M a b c d 10 9 in fold (rfc1320_step M) js (d, x, b, c))"
  "fold (rfc1320_step M) (38 # js) (a, b, c, d) = (let x = ROUND3 M a b c d 6 11 in fold (rfc1320_step M) js (d, x, b, c))"
  "fold (rfc1320_step M) (39 # js) (a, b, c, d) = (let x = ROUND3 M a b c d 14 15 in fold (rfc1320_step M) js (d, x, b, c))"
  "fold (rfc1320_step M) (40 # js) (a, b, c, d) = (let x = ROUND3 M a b c d 1 3 in fold (rfc1320_step M) js (d, x, b, c))"
  "fold (rfc1320_step M) (41 # js) (a, b, c, d) = (let x = ROUND3 M a b c d 9 9 in fold (rfc1320_step M) js (d, x, b, c))"
  "fold (rfc1320_step M) (42 # js) (a, b, c, d) = (let x = ROUND3 M a b c d 5 11 in fold (rfc1320_step M) js (d, x, b, c))"
  "fold (rfc1320_step M) (43 # js) (a, b, c, d) = (let x = ROUND3 M a b c d 13 15 in fold (rfc1320_step M) js (d, x, b, c))"
  "fold (rfc1320_step M) (44 # js) (a, b, c, d) = (let x = ROUND3 M a b c d 3 3 in fold (rfc1320_step M) js (d, x, b, c))"
  "fold (rfc1320_step M) (45 # js) (a, b, c, d) = (let x = ROUND3 M a b c d 11 9 in fold (rfc1320_step M) js (d, x, b, c))"
  "fold (rfc1320_step M) (46 # js) (a, b, c, d) = (let x = ROUND3 M a b c d 7 11 in fold (rfc1320_step M) js (d, x, b, c))"
  "fold (rfc1320_step M) (47 # js) (a, b, c, d) = (let x = ROUND3 M a b c d 15 15 in fold (rfc1320_step M) js (d, x, b, c))"
  by (simp_all add: rfc1320_step_def F_md4_rounds ROUND3_def lshift_rotate rfc1320_index_def rfc1320_shift_def rfc1320_K_def)

lemma md4_fold1: "fold (rfc1320_step M) [0, 1, 2, 3, 4, 5, 6, 7, 8, 9, 10, 11, 12, 13, 14, 15] x = md4_round1 M x"
  by (cases x) (simp only: md4_steps1 fold_simps(1) md4_round1_def prod.case)

lemma md4_fold2: "fold (rfc1320_step M) [16, 17, 18, 19, 20, 21, 22, 23, 24, 25, 26, 27, 28, 29, 30, 31] x = md4_round2 M x"
  by (cases x) (simp only: md4_steps2 fold_simps(1) md4_round2_def prod.case)

lemma md4_fold3: "fold (rfc1320_step M) [32, 33, 34, 35, 36, 37, 38, 39, 40, 41, 42, 43, 44, 45, 46, 47] x = md4_round3 M x"
  by (cases x) (simp only: md4_steps3 fold_simps(1) md4_round3_def prod.case)

lemma copy64_words: "copy64 bytes = md5_words bytes"
  by (simp add: copy64_def md5_words_def IVAL_def SVAL_def push_bit_or mult.commute or.assoc or.commute or.left_commute add.commute numeral_3_eq_3)

lemma copy4_bytes: "copy4 x = SIVAL x"
  by (auto simp: copy4_def SIVAL_def SSVAL_def mask_numerals bit_simps intro!: bit_word_eqI)

lemma mdfour64_rfc: "mdfour64 s (md5_words bytes) = rfc1320_block s bytes"
proof -
  have l: "[0..<48] = [0, 1, 2, 3, 4, 5, 6, 7, 8, 9, 10, 11, 12, 13, 14, 15] @ [16, 17, 18, 19, 20, 21, 22, 23, 24, 25, 26, 27, 28, 29, 30, 31] @ [32, 33, 34, 35, 36, 37, 38, 39, 40, 41, 42, 43, 44, 45, 46, 47]"
    by (simp add: upt_rec)
  show ?thesis unfolding mdfour64_def rfc1320_block_def l fold_append comp_def md4_fold1 md4_fold2 md4_fold3 all_ones ..
qed

section \<open>The whole digest\<close>

declare mdfour_loop.simps [simp del]

lemma words_first: "md5_words bytes = md5_words (take 64 bytes)"
  by (simp add: md5_words_def IVAL_def SVAL_def)

lemma mdfour_loop_absorb:
  assumes "mdfour_loop state inp = (state1, m)"
  shows "\<exists>p. inp = p @ m \<and> 64 dvd length p \<and> length m \<le> 64 \<and> absorb rfc1320_block state p = state1 \<and> (inp \<noteq> [] \<longrightarrow> m \<noteq> [])"
  using assms
proof (induction state inp rule: mdfour_loop.induct)
  case (1 state inp)
  show ?case
  proof (cases "64 < length inp")
    case True
    have w: "md5_words inp = md5_words (take 64 inp)" by (rule words_first)
    then have "mdfour_loop (rfc1320_block state (take 64 inp)) (drop 64 inp) = (state1, m)"
      using 1(2) True by (subst (asm) mdfour_loop.simps) (simp add: copy64_words mdfour64_rfc)
    then obtain p where p: "drop 64 inp = p @ m" "64 dvd length p" "length m \<le> 64" "absorb rfc1320_block (rfc1320_block state (take 64 inp)) p = state1" "m \<noteq> []"
      using 1(1) [OF True] True w by (auto simp: copy64_words mdfour64_rfc)
    have "inp = (take 64 inp @ p) @ m" using p(1) by (metis append_assoc append_take_drop_id)
    moreover have "absorb rfc1320_block state (take 64 inp @ p) = state1" using True p(4) by (simp add: absorb_block)
    moreover have "64 dvd length (take 64 inp @ p)" using True p(2) by (simp add: min_def)
    ultimately show ?thesis using p by blast
  next
    case False
    then have "state1 = state" "m = inp" using 1(2) by (simp_all add: mdfour_loop.simps [of state inp])
    then show ?thesis using False by (intro exI [of _ "[]"]) (simp add: absorb_short)
  qed
qed

lemma rfc1321_length_short: "8 * n < 4294967296 \<Longrightarrow> rfc1321_length n = SIVAL (of_nat (n * 8)) @ [0, 0, 0, 0]"
  by (simp add: rfc1321_length_def SIVAL_def SSVAL_def mult.commute)

text \<open>
  C27. The one-call digest of a message whose length in bits fits the \<open>int\<close> of the code is the MD4 digest of
  RFC 1320 of the message.
\<close>

theorem mdfour_rfc1320:
  assumes "8 * length m < 2147483648"
  shows "mdfour m = rfc1320_md4 m"
proof -
  obtain s r where l: "mdfour_loop rfc1321_iv m = (s, r)" by fastforce
  obtain p where p: "m = p @ r" "64 dvd length p" "length r \<le> 64" "absorb rfc1320_block rfc1321_iv p = s" "m \<noteq> [] \<longrightarrow> r \<noteq> []"
    using mdfour_loop_absorb [OF l] by blast
  let ?n = "length r" and ?e = "rfc1321_length (length m)"
  have e: "?e = SIVAL (of_nat (length m * 8)) @ [0, 0, 0, 0]" using assms by (intro rfc1321_length_short) simp
  have b4: "length (SIVAL x) = 4" for x by (simp add: SIVAL_def SSVAL_def)
  have four: "[0, 0, 0, 0] = replicate 4 (0 :: u8)" by (simp add: eval_nat_numeral)
  define buf where "buf = (r @ replicate (128 - ?n) 0)[?n := 0x80]"
  have buf: "buf = r @ [0x80] @ replicate (127 - ?n) 0"
  proof -
    have "replicate (128 - ?n) (0 :: u8) = 0 # replicate (127 - ?n) 0" using p(3) by (simp add: Suc_diff_le flip: replicate_Suc)
    then show ?thesis by (simp add: buf_def)
  qed
  define z where "z = (if ?n \<le> 55 then 55 - ?n else 119 - ?n)"
  have "length m mod 64 = ?n mod 64" using p(1,2) by (auto simp: dvd_def)
  then have z: "(119 - length m mod 64) mod 64 = z" using p(3) unfolding z_def by (cases "?n = 64") (auto simp: mod_if)
  define T where "T = r @ [0x80] @ replicate z 0 @ ?e"
  have T: "absorb rfc1320_block rfc1321_iv (pad64 rfc1321_length m) = absorb rfc1320_block s T"
    using absorb_append [OF p(2), of rfc1320_block rfc1321_iv T] p(1,4) unfolding pad64_def z T_def by simp
  have blocks: "absorb rfc1320_block s T = (if ?n \<le> 55 then mdfour64 s (copy64 (take 56 buf @ copy4 (of_nat (length m * 8)) @ drop 60 buf))
      else mdfour64 (mdfour64 s (copy64 (take 120 buf @ copy4 (of_nat (length m * 8)) @ drop 124 buf)))
        (copy64 (drop 64 (take 120 buf @ copy4 (of_nat (length m * 8)) @ drop 124 buf))))"
  proof (cases "?n \<le> 55")
    case True
    have "take 64 (take 56 buf @ copy4 (of_nat (length m * 8)) @ drop 60 buf) = T"
      using True by (simp add: buf T_def e z_def copy4_bytes b4 take_Cons' drop_Cons' min_def four) linarith
    moreover have "absorb rfc1320_block s T = rfc1320_block s T"
      using absorb_block [of T rfc1320_block s "[]"] True by (simp add: T_def e z_def b4 absorb_short)
    ultimately show ?thesis using True words_first [of "take 56 buf @ copy4 (of_nat (length m * 8)) @ drop 60 buf"]
      by (simp add: copy64_words mdfour64_rfc)
  next
    case False
    have t: "take 120 buf @ copy4 (of_nat (length m * 8)) @ drop 124 buf = T" "length T = 128"
      using False p(3) by (simp_all add: buf T_def e z_def copy4_bytes b4 take_Cons' drop_Cons' min_def four)
    have "absorb rfc1320_block s (take 64 T @ drop 64 T) = absorb rfc1320_block (rfc1320_block s (take 64 T)) (drop 64 T @ [])"
      by (subst absorb_block) (use t(2) in simp_all)
    also have "\<dots> = rfc1320_block (rfc1320_block s (take 64 T)) (drop 64 T)"
      by (subst absorb_block) (use t(2) in \<open>simp_all add: absorb_short\<close>)
    finally show ?thesis using False words_first [of T] unfolding t(1) by (simp add: copy64_words mdfour64_rfc)
  qed
  have "mdfour m = rfc1321_out (absorb rfc1320_block s T)"
    unfolding mdfour_def blocks rfc1321_out_def using l by (simp add: Let_def rfc1321_iv_def copy4_bytes flip: buf_def)
  then show ?thesis unfolding rfc1320_md4_def md_hash_def T .
qed

theorem mdfour_rfc1320_witness: "mdfour (replicate 64 1) = rfc1320_md4 (replicate 64 1)"
  by (rule mdfour_rfc1320) simp

end
