(* ===== verification/SmbDes.thy ===== *)
theory SmbDes
  imports WxPrelude
begin

text \<open>
  The DES of the SMB authentication, \<open>libcli/auth/smbdes.c\<close>. The code keeps bits in arrays of \<open>char\<close>;
  here they are lists of truth values. The backward direction undoes the forward one, for a block
  and for the functions that treat each block with a key of its own.
\<close>

section \<open>Tables\<close>

definition des_perm1 :: "nat list" where
  "des_perm1 =
    [57, 49, 41, 33, 25, 17, 9, 1, 58, 50, 42, 34, 26, 18, 10, 2,
     59, 51, 43, 35, 27, 19, 11, 3, 60, 52, 44, 36, 63, 55, 47, 39,
     31, 23, 15, 7, 62, 54, 46, 38, 30, 22, 14, 6, 61, 53, 45, 37,
     29, 21, 13, 5, 28, 20, 12, 4]"

definition des_perm2 :: "nat list" where
  "des_perm2 =
    [14, 17, 11, 24, 1, 5, 3, 28, 15, 6, 21, 10, 23, 19, 12, 4,
     26, 8, 16, 7, 27, 20, 13, 2, 41, 52, 31, 37, 47, 55, 30, 40,
     51, 45, 33, 48, 44, 49, 39, 56, 34, 53, 46, 42, 50, 36, 29, 32]"

definition des_perm3 :: "nat list" where
  "des_perm3 =
    [58, 50, 42, 34, 26, 18, 10, 2, 60, 52, 44, 36, 28, 20, 12, 4,
     62, 54, 46, 38, 30, 22, 14, 6, 64, 56, 48, 40, 32, 24, 16, 8,
     57, 49, 41, 33, 25, 17, 9, 1, 59, 51, 43, 35, 27, 19, 11, 3,
     61, 53, 45, 37, 29, 21, 13, 5, 63, 55, 47, 39, 31, 23, 15, 7]"

definition des_perm4 :: "nat list" where
  "des_perm4 =
    [32, 1, 2, 3, 4, 5, 4, 5, 6, 7, 8, 9, 8, 9, 10, 11,
     12, 13, 12, 13, 14, 15, 16, 17, 16, 17, 18, 19, 20, 21, 20, 21,
     22, 23, 24, 25, 24, 25, 26, 27, 28, 29, 28, 29, 30, 31, 32, 1]"

definition des_perm5 :: "nat list" where
  "des_perm5 =
    [16, 7, 20, 21, 29, 12, 28, 17, 1, 15, 23, 26, 5, 18, 31, 10,
     2, 8, 24, 14, 32, 27, 3, 9, 19, 13, 30, 6, 22, 11, 4, 25]"

definition des_perm6 :: "nat list" where
  "des_perm6 =
    [40, 8, 48, 16, 56, 24, 64, 32, 39, 7, 47, 15, 55, 23, 63, 31,
     38, 6, 46, 14, 54, 22, 62, 30, 37, 5, 45, 13, 53, 21, 61, 29,
     36, 4, 44, 12, 52, 20, 60, 28, 35, 3, 43, 11, 51, 19, 59, 27,
     34, 2, 42, 10, 50, 18, 58, 26, 33, 1, 41, 9, 49, 17, 57, 25]"

definition des_sc :: "nat list" where
  "des_sc =
    [1, 1, 2, 2, 2, 2, 2, 2, 1, 2, 2, 2, 2, 2, 2, 1]"

definition des_sbox :: "nat list list list" where
  "des_sbox =
    [[[14, 4, 13, 1, 2, 15, 11, 8, 3, 10, 6, 12, 5, 9, 0, 7],
      [0, 15, 7, 4, 14, 2, 13, 1, 10, 6, 12, 11, 9, 5, 3, 8],
      [4, 1, 14, 8, 13, 6, 2, 11, 15, 12, 9, 7, 3, 10, 5, 0],
      [15, 12, 8, 2, 4, 9, 1, 7, 5, 11, 3, 14, 10, 0, 6, 13]],
     [[15, 1, 8, 14, 6, 11, 3, 4, 9, 7, 2, 13, 12, 0, 5, 10],
      [3, 13, 4, 7, 15, 2, 8, 14, 12, 0, 1, 10, 6, 9, 11, 5],
      [0, 14, 7, 11, 10, 4, 13, 1, 5, 8, 12, 6, 9, 3, 2, 15],
      [13, 8, 10, 1, 3, 15, 4, 2, 11, 6, 7, 12, 0, 5, 14, 9]],
     [[10, 0, 9, 14, 6, 3, 15, 5, 1, 13, 12, 7, 11, 4, 2, 8],
      [13, 7, 0, 9, 3, 4, 6, 10, 2, 8, 5, 14, 12, 11, 15, 1],
      [13, 6, 4, 9, 8, 15, 3, 0, 11, 1, 2, 12, 5, 10, 14, 7],
      [1, 10, 13, 0, 6, 9, 8, 7, 4, 15, 14, 3, 11, 5, 2, 12]],
     [[7, 13, 14, 3, 0, 6, 9, 10, 1, 2, 8, 5, 11, 12, 4, 15],
      [13, 8, 11, 5, 6, 15, 0, 3, 4, 7, 2, 12, 1, 10, 14, 9],
      [10, 6, 9, 0, 12, 11, 7, 13, 15, 1, 3, 14, 5, 2, 8, 4],
      [3, 15, 0, 6, 10, 1, 13, 8, 9, 4, 5, 11, 12, 7, 2, 14]],
     [[2, 12, 4, 1, 7, 10, 11, 6, 8, 5, 3, 15, 13, 0, 14, 9],
      [14, 11, 2, 12, 4, 7, 13, 1, 5, 0, 15, 10, 3, 9, 8, 6],
      [4, 2, 1, 11, 10, 13, 7, 8, 15, 9, 12, 5, 6, 3, 0, 14],
      [11, 8, 12, 7, 1, 14, 2, 13, 6, 15, 0, 9, 10, 4, 5, 3]],
     [[12, 1, 10, 15, 9, 2, 6, 8, 0, 13, 3, 4, 14, 7, 5, 11],
      [10, 15, 4, 2, 7, 12, 9, 5, 6, 1, 13, 14, 0, 11, 3, 8],
      [9, 14, 15, 5, 2, 8, 12, 3, 7, 0, 4, 10, 1, 13, 11, 6],
      [4, 3, 2, 12, 9, 5, 15, 10, 11, 14, 1, 7, 6, 0, 8, 13]],
     [[4, 11, 2, 14, 15, 0, 8, 13, 3, 12, 9, 7, 5, 10, 6, 1],
      [13, 0, 11, 7, 4, 9, 1, 10, 14, 3, 5, 12, 2, 15, 8, 6],
      [1, 4, 11, 13, 12, 3, 7, 14, 10, 15, 6, 8, 0, 5, 9, 2],
      [6, 11, 13, 8, 1, 4, 10, 7, 9, 5, 0, 15, 14, 2, 3, 12]],
     [[13, 2, 8, 4, 6, 15, 11, 1, 10, 9, 3, 14, 5, 0, 12, 7],
      [1, 15, 13, 8, 10, 3, 7, 4, 12, 5, 6, 11, 0, 14, 9, 2],
      [7, 11, 4, 1, 9, 12, 14, 2, 0, 6, 10, 13, 15, 3, 5, 8],
      [2, 1, 14, 7, 4, 10, 8, 13, 15, 12, 9, 0, 3, 5, 6, 11]]]"

section \<open>One block\<close>

definition permute :: "bool list \<Rightarrow> nat list \<Rightarrow> nat \<Rightarrow> bool list" where
  "permute inp p n = map (\<lambda>i. inp ! (p ! i - 1)) [0..<n]"

definition lshift_bits :: "bool list \<Rightarrow> nat \<Rightarrow> nat \<Rightarrow> bool list" where
  "lshift_bits d count n = map (\<lambda>i. d ! ((i + count) mod n)) [0..<n]"

definition xor_bits :: "bool list \<Rightarrow> bool list \<Rightarrow> nat \<Rightarrow> bool list" where
  "xor_bits in1 in2 n = map (\<lambda>i. in1 ! i \<noteq> in2 ! i) [0..<n]"

text \<open>The sixteen round keys.\<close>

fun des_keys :: "nat list \<Rightarrow> bool list \<Rightarrow> bool list \<Rightarrow> bool list list" where
  "des_keys [] c d = []"
| "des_keys (s # ss) c d =
     (let c1 = lshift_bits c s 28; d1 = lshift_bits d s 28 in permute (c1 @ d1) des_perm2 48 # des_keys ss c1 d1)"

definition des_key_schedule :: "bool list \<Rightarrow> bool list list" where
  "des_key_schedule key = (let pk1 = permute key des_perm1 56 in des_keys des_sc (take 28 pk1) (drop 28 pk1))"

definition des_substitute :: "nat \<Rightarrow> bool list \<Rightarrow> bool list" where
  "des_substitute j b =
     (let m = 2 * of_bool (b ! 0) + of_bool (b ! 5);
          n = 8 * of_bool (b ! 1) + 4 * of_bool (b ! 2) + 2 * of_bool (b ! 3) + of_bool (b ! 4)
      in map (\<lambda>k. bit (des_sbox ! j ! m ! n) (3 - k)) [0..<4])"

definition des_round :: "bool list \<Rightarrow> bool list \<times> bool list \<Rightarrow> bool list \<times> bool list" where
  "des_round ki = (\<lambda>(l, r).
     let er = permute r des_perm4 48; erk = xor_bits er ki 48;
         cb = concat (map (\<lambda>j. des_substitute j (take 6 (drop (j * 6) erk))) [0..<8]);
         pcb = permute cb des_perm5 32
     in (r, xor_bits l pcb 32))"

definition dohash :: "bool list \<Rightarrow> bool list \<Rightarrow> bool \<Rightarrow> bool list" where
  "dohash inp key forw =
     (let ki = des_key_schedule key; pd1 = permute inp des_perm3 64;
          (l, r) = fold (\<lambda>i. des_round (ki ! (if forw then i else 15 - i))) [0..<16] (take 32 pd1, drop 32 pd1)
      in permute (r @ l) des_perm6 64)"

section \<open>Bytes\<close>

definition str_to_key :: "u8 list \<Rightarrow> u8 list" where
  "str_to_key str =
     map (push_bit 1)
       [drop_bit 1 (str ! 0),
        push_bit 6 (str ! 0 AND 0x01) OR drop_bit 2 (str ! 1),
        push_bit 5 (str ! 1 AND 0x03) OR drop_bit 3 (str ! 2),
        push_bit 4 (str ! 2 AND 0x07) OR drop_bit 4 (str ! 3),
        push_bit 3 (str ! 3 AND 0x0F) OR drop_bit 5 (str ! 4),
        push_bit 2 (str ! 4 AND 0x1F) OR drop_bit 6 (str ! 5),
        push_bit 1 (str ! 5 AND 0x3F) OR drop_bit 7 (str ! 6),
        str ! 6 AND 0x7F]"

definition des_bits :: "u8 list \<Rightarrow> bool list" where
  "des_bits bytes = map (\<lambda>i. bytes ! (i div 8) AND push_bit (7 - i mod 8) 1 \<noteq> 0) [0..<64]"

definition des_bytes :: "bool list \<Rightarrow> u8 list" where
  "des_bytes outb =
     fold (\<lambda>i out. if outb ! i then out[i div 8 := out ! (i div 8) OR push_bit (7 - i mod 8) 1] else out) [0..<64] (replicate 8 0)"

definition des_crypt56 :: "u8 list \<Rightarrow> u8 list \<Rightarrow> bool \<Rightarrow> u8 list" where
  "des_crypt56 inp key forw = des_bytes (dohash (des_bits inp) (des_bits (str_to_key key)) forw)"

section \<open>Several blocks\<close>

definition E_P16 :: "u8 list \<Rightarrow> u8 list" where
  "E_P16 p14 = (let sp8 = [0x4b, 0x47, 0x53, 0x21, 0x40, 0x23, 0x24, 0x25] in des_crypt56 sp8 p14 True @ des_crypt56 sp8 (drop 7 p14) True)"

definition E_P24 :: "u8 list \<Rightarrow> u8 list \<Rightarrow> u8 list" where
  "E_P24 p21 c8 = des_crypt56 c8 p21 True @ des_crypt56 c8 (drop 7 p21) True @ des_crypt56 c8 (drop 14 p21) True"

definition D_P16 :: "u8 list \<Rightarrow> u8 list \<Rightarrow> u8 list" where
  "D_P16 p14 inp = des_crypt56 inp p14 False @ des_crypt56 (drop 8 inp) (drop 7 p14) False"

definition E_old_pw_hash :: "u8 list \<Rightarrow> u8 list \<Rightarrow> u8 list" where
  "E_old_pw_hash p14 inp = des_crypt56 inp p14 True @ des_crypt56 (drop 8 inp) (drop 7 p14) True"

definition des_crypt128 :: "u8 list \<Rightarrow> u8 list \<Rightarrow> u8 list" where
  "des_crypt128 inp key = des_crypt56 (des_crypt56 inp key True) (drop 9 key) True"

definition des_crypt64 :: "u8 list \<Rightarrow> u8 list \<Rightarrow> bool \<Rightarrow> u8 list" where
  "des_crypt64 inp key forw = (let buf = des_crypt56 inp key forw; key2 = (replicate 8 0)[0 := key ! 7] in des_crypt56 buf key2 forw)"

definition des_crypt112 :: "u8 list \<Rightarrow> u8 list \<Rightarrow> bool \<Rightarrow> u8 list" where
  "des_crypt112 inp key forw = des_crypt56 (des_crypt56 inp key forw) (drop 7 key) forw"

definition des_crypt112_16 :: "u8 list \<Rightarrow> u8 list \<Rightarrow> bool \<Rightarrow> u8 list" where
  "des_crypt112_16 inp key forw = des_crypt56 inp key forw @ des_crypt56 (drop 8 inp) (drop 7 key) forw"

definition sam_rid_crypt :: "u32 \<Rightarrow> u8 list \<Rightarrow> bool \<Rightarrow> u8 list" where
  "sam_rid_crypt rid inp forw =
     (let s0 = ucast (rid AND 0xFF); s1 = ucast (drop_bit 8 rid AND 0xFF); s2 = ucast (drop_bit 16 rid AND 0xFF); s3 = ucast (drop_bit 24 rid AND 0xFF);
          s = [s0, s1, s2, s3, s0, s1, s2, s3, s0, s1, s2, s3, s0, s1]
      in des_crypt56 inp s forw @ des_crypt56 (drop 8 inp) (drop 7 s) forw)"

section \<open>The two directions\<close>

lemma length_ops [simp]:
  "length (permute inp p n) = n" "length (xor_bits a b n) = n" "length (lshift_bits d c n) = n"
  by (simp_all add: permute_def xor_bits_def lshift_bits_def)

lemma xor_bits_twice: "length a = n \<Longrightarrow> xor_bits (xor_bits a b n) b n = a"
  by (auto simp: xor_bits_def intro!: nth_equalityI)

lemma length_key_schedule: "length (des_key_schedule key) = 16"
proof -
  have "length (des_keys ss c d) = length ss" for ss c d by (induction ss c d rule: des_keys.induct) (simp_all add: Let_def)
  then show ?thesis by (simp add: des_key_schedule_def Let_def des_sc_def)
qed

lemma permutations_inverse:
  "length x = 64 \<Longrightarrow> permute (permute x des_perm3 64) des_perm6 64 = x" "length x = 64 \<Longrightarrow> permute (permute x des_perm6 64) des_perm3 64 = x"
proof -
  have i: "list_all (\<lambda>i. des_perm6 ! i - 1 < 64 \<and> des_perm3 ! (des_perm6 ! i - 1) - 1 = i) [0..<64]"
    "list_all (\<lambda>i. des_perm3 ! i - 1 < 64 \<and> des_perm6 ! (des_perm3 ! i - 1) - 1 = i) [0..<64]" by code_simp+
  show "length x = 64 \<Longrightarrow> permute (permute x des_perm3 64) des_perm6 64 = x" "length x = 64 \<Longrightarrow> permute (permute x des_perm6 64) des_perm3 64 = x"
    using i by (auto simp: permute_def list_all_iff intro!: nth_equalityI)
qed

text \<open>A round, and how it is undone.\<close>

lemma round_swap:
  assumes "length l = 32" "length r = 32" "des_round k (l, r) = (l1, r1)"
  shows "des_round k (r1, l1) = (r, l)" "length l1 = 32" "length r1 = 32"
  using assms by (auto simp: des_round_def Let_def xor_bits_twice)

lemma rounds_swap:
  "length l = 32 \<Longrightarrow> length r = 32 \<Longrightarrow> fold des_round ks (l, r) = (l1, r1) \<Longrightarrow>
     fold des_round (rev ks) (r1, l1) = (r, l) \<and> length l1 = 32 \<and> length r1 = 32"
proof (induction ks arbitrary: l r)
  case (Cons k ks)
  obtain l2 r2 where k: "des_round k (l, r) = (l2, r2)" by fastforce
  note s = round_swap [OF Cons.prems(1,2) k]
  then show ?case using Cons.IH [of l2 r2] Cons.prems(3) k by simp
qed simp

lemma dohash_rounds:
  "dohash inp key forw =
     (case fold des_round (if forw then des_key_schedule key else rev (des_key_schedule key)) (take 32 (permute inp des_perm3 64), drop 32 (permute inp des_perm3 64)) of
        (l, r) \<Rightarrow> permute (r @ l) des_perm6 64)"
proof -
  let ?ki = "des_key_schedule key"
  have "map (\<lambda>i. ?ki ! (if forw then i else 15 - i)) [0..<16] = (if forw then ?ki else rev ?ki)"
    using length_key_schedule [of key] by (auto intro!: nth_equalityI simp: rev_nth)
  then have "fold (\<lambda>i. des_round (?ki ! (if forw then i else 15 - i))) [0..<16] x = fold des_round (if forw then ?ki else rev ?ki) x" for x
    using fold_map [of des_round "\<lambda>i. ?ki ! (if forw then i else 15 - i)" "[0..<16]"] by (simp add: comp_def)
  then show ?thesis by (simp add: dohash_def Let_def)
qed

lemma dohash_inverse:
  assumes "length inp = 64"
  shows "dohash (dohash inp key forw) key (\<not> forw) = inp" "length (dohash inp key forw) = 64"
proof -
  let ?p = "permute inp des_perm3 64" and ?ks = "if forw then des_key_schedule key else rev (des_key_schedule key)"
  obtain l r where f: "fold des_round ?ks (take 32 ?p, drop 32 ?p) = (l, r)" by fastforce
  have s: "fold des_round (rev ?ks) (r, l) = (drop 32 ?p, take 32 ?p)" "length l = 32" "length r = 32"
    using rounds_swap [OF _ _ f] by simp_all
  have out: "dohash inp key forw = permute (r @ l) des_perm6 64" unfolding dohash_rounds f by simp
  then show "length (dohash inp key forw) = 64" by simp
  have "permute (dohash inp key forw) des_perm3 64 = r @ l" unfolding out using permutations_inverse(2) [of "r @ l"] s by simp
  moreover have "(if \<not> forw then des_key_schedule key else rev (des_key_schedule key)) = rev ?ks" by simp
  ultimately have "dohash (dohash inp key forw) key (\<not> forw) = permute (take 32 ?p @ drop 32 ?p) des_perm6 64"
    unfolding dohash_rounds [of "dohash inp key forw"] using s by simp
  then show "dohash (dohash inp key forw) key (\<not> forw) = inp" using permutations_inverse(1) [OF assms] by simp
qed

section \<open>Bits and bytes\<close>

lemma length_des_bits [simp]: "length (des_bits bytes) = 64"
  by (simp add: des_bits_def)

lemma des_bits_nth: "i < 64 \<Longrightarrow> des_bits bytes ! i = bit (bytes ! (i div 8)) (7 - i mod 8)"
  by (simp add: des_bits_def and_exp_eq_0_iff_not_bit push_bit_eq_mult)

definition set_bits :: "bool list \<Rightarrow> nat \<Rightarrow> u8 list" where
  "set_bits outb n =
     fold (\<lambda>i out. if outb ! i then out[i div 8 := out ! (i div 8) OR push_bit (7 - i mod 8) 1] else out) [0..<n] (replicate 8 0)"

lemma set_bits_nth: "n \<le> 64 \<Longrightarrow> length (set_bits outb n) = 8 \<and> (\<forall>i < 64. bit (set_bits outb n ! (i div 8)) (7 - i mod 8) = (i < n \<and> outb ! i))"
proof (induction n)
  case 0
  then show ?case by (simp add: set_bits_def)
next
  case (Suc n)
  let ?o = "set_bits outb n"
  have s: "set_bits outb (Suc n) = (if outb ! n then ?o[n div 8 := ?o ! (n div 8) OR push_bit (7 - n mod 8) 1] else ?o)"
    by (simp add: set_bits_def)
  have IH: "length ?o = 8" "\<And>i. i < 64 \<Longrightarrow> bit (?o ! (i div 8)) (7 - i mod 8) = (i < n \<and> outb ! i)" using Suc by simp_all
  have n: "n < 64" "n div 8 < 8" using Suc.prems by simp_all
  have "bit (set_bits outb (Suc n) ! (i div 8)) (7 - i mod 8) = (i < Suc n \<and> outb ! i)" if i: "i < 64" for i
  proof (cases "i div 8 = n div 8")
    case True
    have m: "i mod 8 < 8" "n mod 8 < 8" by simp_all
    have "7 - i mod 8 = 7 - n mod 8 \<longleftrightarrow> i = n"
    proof
      assume "7 - i mod 8 = 7 - n mod 8"
      then have "i mod 8 = n mod 8" using m by linarith
      then show "i = n" using True by (metis div_mult_mod_eq)
    qed simp
    moreover have "7 - i mod 8 < 8" by simp
    ultimately have "bit (push_bit (7 - n mod 8) (1 :: u8)) (7 - i mod 8) = (i = n)" by (auto simp: bit_simps)
    then show ?thesis using IH(2) [OF i] IH(1) n True by (auto simp: s bit_or_iff)
  next
    case False
    then have "i \<noteq> n" by auto
    then show ?thesis using IH(2) [OF i] False by (auto simp: s)
  qed
  then show ?case using IH(1) by (simp add: s)
qed

lemma des_bytes_bits: "length outb = 64 \<Longrightarrow> des_bits (des_bytes outb) = outb" "length (des_bytes outb) = 8"
proof -
  have e: "des_bytes outb = set_bits outb 64" by (simp add: des_bytes_def set_bits_def)
  then show "length (des_bytes outb) = 8" using set_bits_nth [of 64 outb] by simp
  show "des_bits (des_bytes outb) = outb" if "length outb = 64"
    by (rule nth_equalityI) (use that e set_bits_nth [of 64 outb] in \<open>simp_all add: des_bits_nth\<close>)
qed

lemma des_bits_bytes: "length bytes = 8 \<Longrightarrow> des_bytes (des_bits bytes) = bytes"
proof (rule nth_equalityI)
  assume l: "length bytes = 8"
  then show "length (des_bytes (des_bits bytes)) = length bytes" by (simp add: des_bytes_bits(2))
  fix j assume "j < length (des_bytes (des_bits bytes))"
  then have j: "j < 8" by (simp add: des_bytes_bits(2))
  have b: "des_bits (des_bytes (des_bits bytes)) = des_bits bytes" by (rule des_bytes_bits(1)) (simp add: des_bits_def)
  show "des_bytes (des_bits bytes) ! j = bytes ! j"
  proof (rule bit_word_eqI)
    fix m assume "m < LENGTH(8)"
    then have m: "m < 8" by simp
    define k where "k = 7 - m"
    let ?i = "8 * j + k"
    have k: "k < 8" "7 - k = m" using m by (simp_all add: k_def)
    have i: "?i < 64" "?i div 8 = j" "?i mod 8 = k" using j k(1) by simp_all
    show "bit (des_bytes (des_bits bytes) ! j) m = bit (bytes ! j) m"
      using des_bits_nth [OF i(1), of "des_bytes (des_bits bytes)"] des_bits_nth [OF i(1), of bytes] unfolding b i k by simp
  qed
qed

lemma des_block_inverse:
  assumes "length inp = 8"
  shows "des_crypt56 (des_crypt56 inp key forw) key (\<not> forw) = inp" "length (des_crypt56 inp key forw) = 8"
proof -
  have l: "length (des_bits inp) = 64" by (simp add: des_bits_def)
  show "length (des_crypt56 inp key forw) = 8" by (simp add: des_crypt56_def des_bytes_bits(2))
  show "des_crypt56 (des_crypt56 inp key forw) key (\<not> forw) = inp"
    unfolding des_crypt56_def des_bytes_bits(1) [OF dohash_inverse(2) [OF l]] dohash_inverse(1) [OF l] by (rule des_bits_bytes [OF assms])
qed

text \<open>Only the first seven bytes of a key are used.\<close>

lemma des_key_prefix: "7 \<le> length key \<Longrightarrow> des_crypt56 inp (take 7 key) forw = des_crypt56 inp key forw"
  by (simp add: des_crypt56_def str_to_key_def)

lemma des_block_prefix: "8 \<le> length inp \<Longrightarrow> des_crypt56 (take 8 inp @ x) key forw = des_crypt56 inp key forw"
proof -
  assume l: "8 \<le> length inp"
  have "des_bits (take 8 inp @ x) = des_bits inp"
    by (rule nth_equalityI) (use l in \<open>auto simp: des_bits_nth nth_append\<close>)
  then show ?thesis by (simp add: des_crypt56_def)
qed

lemma des_pair_inverse:
  assumes "length inp = 16"
  shows "des_crypt56 (des_crypt56 inp k1 forw @ des_crypt56 (drop 8 inp) k2 forw) k1 (\<not> forw) @
    des_crypt56 (drop 8 (des_crypt56 inp k1 forw @ des_crypt56 (drop 8 inp) k2 forw)) k2 (\<not> forw) = inp"
proof -
  let ?a = "des_crypt56 inp k1 forw" and ?b = "des_crypt56 (drop 8 inp) k2 forw"
  have a: "?a = des_crypt56 (take 8 inp) k1 forw" using des_block_prefix [of inp "[]" k1 forw] assms by simp
  have l: "length ?a = 8" "length ?b = 8" using des_block_inverse(2) assms by (simp_all add: a)
  have "des_crypt56 (?a @ ?b) k1 (\<not> forw) = des_crypt56 ?a k1 (\<not> forw)" using des_block_prefix [of ?a ?b k1 "\<not> forw"] l by simp
  also have "\<dots> = take 8 inp" unfolding a by (rule des_block_inverse(1)) (simp add: assms)
  finally have "des_crypt56 (?a @ ?b) k1 (\<not> forw) = take 8 inp" .
  moreover have "des_crypt56 (drop 8 (?a @ ?b)) k2 (\<not> forw) = drop 8 inp" using des_block_inverse(1) [of "drop 8 inp" k2 forw] l assms by simp
  ultimately show ?thesis by simp
qed

text \<open>
  Each direction of the block cipher undoes the other, for a block of eight bytes and a key of
  seven, for the functions that treat the halves of sixteen bytes with the halves of a key (the
  hashes of accounts among them); the double encryption of one block is undone by the other
  direction when the halves of the key are exchanged.
\<close>

theorem des_directions_inverse:
  assumes "length block = 8" "length pair = 16" "length key = 14"
  shows "des_crypt56 (des_crypt56 block k forw) k (\<not> forw) = block \<and>
    des_crypt112_16 (des_crypt112_16 pair key forw) key (\<not> forw) = pair \<and>
    sam_rid_crypt rid (sam_rid_crypt rid pair forw) (\<not> forw) = pair \<and>
    D_P16 key (E_old_pw_hash key pair) = pair \<and>
    des_crypt112 (des_crypt112 block key forw) (drop 7 key @ take 7 key) (\<not> forw) = block"
proof -
  have "des_crypt112 (des_crypt112 block key forw) (drop 7 key @ take 7 key) (\<not> forw) = block"
  proof -
    let ?a = "des_crypt56 block key forw"
    have l: "length ?a = 8" "length (drop 7 key) = 7" using des_block_inverse(2) assms by simp_all
    have "des_crypt56 (des_crypt56 ?a (drop 7 key) forw) (drop 7 key @ take 7 key) (\<not> forw) = ?a"
      using des_key_prefix [of "drop 7 key @ take 7 key" "des_crypt56 ?a (drop 7 key) forw" "\<not> forw"] des_block_inverse(1) [OF l(1), of "drop 7 key" forw] l assms by simp
    then show ?thesis using des_block_inverse(1) [OF assms(1), of key forw] des_key_prefix [of key ?a "\<not> forw"] assms by (simp add: des_crypt112_def)
  qed
  moreover have "D_P16 key (E_old_pw_hash key pair) = pair"
    using des_pair_inverse [OF assms(2), of key True "drop 7 key"] by (simp add: D_P16_def E_old_pw_hash_def)
  ultimately show ?thesis
    using des_block_inverse(1) [OF assms(1), of k forw] des_pair_inverse [OF assms(2)] by (simp add: des_crypt112_16_def sam_rid_crypt_def Let_def)
qed

theorem des_directions_inverse_witness:
  "des_crypt56 (des_crypt56 [1, 2, 3, 4, 5, 6, 7, 8] [9, 8, 7, 6, 5, 4, 3] True) [9, 8, 7, 6, 5, 4, 3] False = [1, 2, 3, 4, 5, 6, 7, 8]"
  using des_directions_inverse [of "[1, 2, 3, 4, 5, 6, 7, 8]" "replicate 16 0" "replicate 14 0" "[9, 8, 7, 6, 5, 4, 3]" True 1] by simp

end
