(* ===== verification/Arcfour.thy ===== *)
theory Arcfour
  imports WxPrelude
begin

text \<open>
  The stream cipher of \<open>lib/crypto/arcfour.c\<close>. A state is a table of 256 bytes and two indices; the
  table stays a permutation of the bytes, what is encrypted in pieces is what is encrypted at once,
  and encrypting twice with the same key gives the data back.
\<close>

record arcfour_state =
  af_sbox :: "u8 list"
  af_index_i :: u8
  af_index_j :: u8

section \<open>The cipher\<close>

definition af_swap :: "u8 \<Rightarrow> u8 \<Rightarrow> u8 list \<Rightarrow> u8 list" where
  "af_swap i j sbox = (let tc = sbox ! unat i; s1 = sbox[unat i := sbox ! unat j] in s1[unat j := tc])"

definition af_key_round :: "u8 list \<Rightarrow> nat \<Rightarrow> u8 list \<times> u8 \<Rightarrow> u8 list \<times> u8" where
  "af_key_round key ind = (\<lambda>(sbox, j0).
     let j = j0 + (sbox ! ind + key ! (ind mod length key)) in (af_swap (of_nat ind) j sbox, j))"

text \<open>None is a division by zero.\<close>

definition arcfour_init :: "u8 list \<Rightarrow> arcfour_state option" where
  "arcfour_init key =
     (if key = [] then None
      else case fold (af_key_round key) [0..<256] (map of_nat [0..<256], 0) of
             (sbox, j) \<Rightarrow> Some \<lparr>af_sbox = sbox, af_index_i = 0, af_index_j = 0\<rparr>)"

text \<open>One byte.\<close>

definition af_crypt_byte :: "arcfour_state \<Rightarrow> u8 \<Rightarrow> u8 \<times> arcfour_state" where
  "af_crypt_byte state byte =
     (let i = af_index_i state + 1; j = af_index_j state + af_sbox state ! unat i;
          sbox = af_swap i j (af_sbox state); t = sbox ! unat i + sbox ! unat j
      in (byte XOR sbox ! unat t, \<lparr>af_sbox = sbox, af_index_i = i, af_index_j = j\<rparr>))"

fun arcfour_crypt_sbox :: "arcfour_state \<Rightarrow> u8 list \<Rightarrow> u8 list \<times> arcfour_state" where
  "arcfour_crypt_sbox state [] = ([], state)"
| "arcfour_crypt_sbox state (byte # data) =
     (case af_crypt_byte state byte of
        (b, state1) \<Rightarrow> (case arcfour_crypt_sbox state1 data of (bs, state2) \<Rightarrow> (b # bs, state2)))"

definition arcfour_crypt_blob :: "u8 list \<Rightarrow> u8 list \<Rightarrow> u8 list option" where
  "arcfour_crypt_blob data key = map_option (\<lambda>state. fst (arcfour_crypt_sbox state data)) (arcfour_init key)"

definition arcfour_crypt :: "u8 list \<Rightarrow> u8 list \<Rightarrow> u8 list option" where
  "arcfour_crypt data keystr = arcfour_crypt_blob data (take 16 keystr)"

section \<open>The table\<close>

definition byte_permutation :: "u8 list \<Rightarrow> bool" where
  "byte_permutation sbox \<longleftrightarrow> length sbox = 256 \<and> distinct sbox"

lemma unat_byte: "unat (i :: u8) < 256"
  by (rule order_less_le_trans [OF unsigned_less]) simp

lemma af_swap_permutation: "byte_permutation sbox \<Longrightarrow> byte_permutation (af_swap i j sbox)"
  using unat_byte [of i] unat_byte [of j] by (simp add: byte_permutation_def af_swap_def Let_def distinct_swap)

lemma permutation_onto: "byte_permutation sbox \<Longrightarrow> set sbox = UNIV"
proof -
  assume p: "byte_permutation sbox"
  then have "card (set sbox) = CARD(u8)" by (simp add: byte_permutation_def distinct_card card_word)
  then show ?thesis by (intro card_subset_eq) simp_all
qed

lemma key_rounds_permutation: "byte_permutation (fst p) \<Longrightarrow> byte_permutation (fst (fold (af_key_round key) is p))"
  by (induction "is" arbitrary: p) (auto simp: af_key_round_def Let_def af_swap_permutation split: prod.splits)

lemma init_permutation: "arcfour_init key = Some state \<Longrightarrow> byte_permutation (af_sbox state)"
proof -
  assume s: "arcfour_init key = Some state"
  have "inj_on (of_nat :: nat \<Rightarrow> u8) {0..<256}"
  proof (rule inj_onI)
    fix x y :: nat
    assume xy: "x \<in> {0..<256}" "y \<in> {0..<256}" "(of_nat x :: u8) = of_nat y"
    then have "unat (of_nat x :: u8) = unat (of_nat y :: u8)" by simp
    then show "x = y" using xy(1,2) by (simp add: unat_of_nat)
  qed
  then have "byte_permutation (map of_nat [0..<256])" by (simp add: byte_permutation_def distinct_map)
  from key_rounds_permutation [of "(map of_nat [0..<256], 0)" key "[0..<256]"] this show ?thesis
    using s by (auto simp: arcfour_init_def split: prod.splits if_splits)
qed

lemma crypt_permutation: "byte_permutation (af_sbox state) \<Longrightarrow> byte_permutation (af_sbox (snd (arcfour_crypt_sbox state data)))"
  by (induction state data rule: arcfour_crypt_sbox.induct)
    (auto simp: af_crypt_byte_def Let_def af_swap_permutation split: prod.splits)

section \<open>The key stream\<close>

text \<open>The bytes that are added to the data do not depend on it.\<close>

fun key_stream :: "arcfour_state \<Rightarrow> nat \<Rightarrow> u8 list" where
  "key_stream state 0 = []"
| "key_stream state (Suc n) = (case af_crypt_byte state 0 of (k, state1) \<Rightarrow> k # key_stream state1 n)"

lemma crypt_byte_stream: "af_crypt_byte state byte = (byte XOR fst (af_crypt_byte state 0), snd (af_crypt_byte state 0))"
  by (simp add: af_crypt_byte_def Let_def)

lemma crypt_stream: "fst (arcfour_crypt_sbox state data) = map2 (XOR) data (key_stream state (length data))"
proof (induction data arbitrary: state)
  case (Cons byte data)
  obtain k state1 where k: "af_crypt_byte state 0 = (k, state1)" by fastforce
  then have "af_crypt_byte state byte = (byte XOR k, state1)" using crypt_byte_stream [of state byte] by simp
  then show ?case using Cons.IH [of state1] k by (simp add: case_prod_beta)
qed simp

lemma length_key_stream: "length (key_stream state n) = n"
  by (induction n arbitrary: state) (simp_all split: prod.splits)

lemma crypt_append:
  "arcfour_crypt_sbox state (a @ b) =
     (case arcfour_crypt_sbox state a of (x, state1) \<Rightarrow> case arcfour_crypt_sbox state1 b of (y, state2) \<Rightarrow> (x @ y, state2))"
  by (induction state a rule: arcfour_crypt_sbox.induct) (auto split: prod.splits)

lemma xor_twice: "length data = length ks \<Longrightarrow> map2 (XOR) (map2 (XOR) data ks) ks = (data :: u8 list)"
  by (induction data ks rule: list_induct2) (simp_all add: xor.assoc)

text \<open>
  With any key that is not empty the cipher is its own inverse, keeps the length of the data,
  gives the same bytes when data is encrypted in two pieces with the state in between, and its
  table always holds every byte once, so that every index of it is inside; an empty key is a
  division by zero.
\<close>

theorem arcfour_inverse:
  "(arcfour_init key = None \<longleftrightarrow> key = []) \<and>
   (\<forall>state. arcfour_init key = Some state \<longrightarrow>
      arcfour_crypt_blob data key = Some (fst (arcfour_crypt_sbox state data)) \<and>
      arcfour_crypt_blob (fst (arcfour_crypt_sbox state data)) key = Some data \<and>
      length (fst (arcfour_crypt_sbox state data)) = length data \<and>
      fst (arcfour_crypt_sbox state (data @ more_data)) =
        fst (arcfour_crypt_sbox state data) @ fst (arcfour_crypt_sbox (snd (arcfour_crypt_sbox state data)) more_data) \<and>
      distinct (af_sbox (snd (arcfour_crypt_sbox state data))) \<and> set (af_sbox (snd (arcfour_crypt_sbox state data))) = UNIV)"
proof (intro conjI allI impI)
  show "arcfour_init key = None \<longleftrightarrow> key = []" by (simp add: arcfour_init_def split: prod.splits)
  fix state
  assume s: "arcfour_init key = Some state"
  let ?c = "fst (arcfour_crypt_sbox state data)"
  have len: "length ?c = length data" by (simp add: crypt_stream length_key_stream)
  show "arcfour_crypt_blob data key = Some ?c" using s by (simp add: arcfour_crypt_blob_def)
  have "fst (arcfour_crypt_sbox state ?c) = map2 (XOR) ?c (key_stream state (length data))" using crypt_stream [of state ?c] by (simp add: len)
  then show "arcfour_crypt_blob ?c key = Some data"
    using s xor_twice [of data "key_stream state (length data)"] by (simp add: arcfour_crypt_blob_def crypt_stream length_key_stream)
  show "length ?c = length data" by (rule len)
  show "fst (arcfour_crypt_sbox state (data @ more_data)) = ?c @ fst (arcfour_crypt_sbox (snd (arcfour_crypt_sbox state data)) more_data)"
    by (simp add: crypt_append split: prod.splits)
  have p: "byte_permutation (af_sbox (snd (arcfour_crypt_sbox state data)))" using crypt_permutation [OF init_permutation [OF s]] .
  then show "distinct (af_sbox (snd (arcfour_crypt_sbox state data)))" by (simp add: byte_permutation_def)
  show "set (af_sbox (snd (arcfour_crypt_sbox state data))) = UNIV" by (rule permutation_onto [OF p])
qed

theorem arcfour_inverse_witness:
  "\<exists>state. arcfour_init [1, 2, 3] = Some state \<and> arcfour_crypt_blob (fst (arcfour_crypt_sbox state [9, 8])) [1, 2, 3] = Some [9, 8]"
proof -
  obtain state where s: "arcfour_init [1, 2, 3] = Some state" using arcfour_inverse [of "[1, 2, 3]" "[]" "[]"] by auto
  then show ?thesis using arcfour_inverse [of "[1, 2, 3]" "[9, 8]" "[]"] by auto
qed

end
