(* ===== verification/NetlogonCreds.thy ===== *)
theory NetlogonCreds
  imports Md5Props SmbDes Arcfour NtError
begin

text \<open>
  The credential chain of a domain member, \<open>libcli/auth/credentials.c\<close>, with the step of the server
  that keeps the chain in a database (\<open>rpc_server/netlogon/dcerpc_netlogon.c\<close>), and the encryption of
  secrets with a session key, \<open>libcli/auth/session.c\<close>. Both ends that know the machine password stay
  in step for any number of calls, and what is encrypted with a session key is decrypted with it.
\<close>

section \<open>The state\<close>

text \<open>
  The fields that the code of this file uses. A time stamp is a \<open>time_t\<close>; \<open>junk\<close> below is what the
  uninitialised buffers of the digests hold.
\<close>

record creds_CredentialState =
  cc_negotiate_flags :: u32
  cc_session_key :: "u8 list"
  cc_sequence :: u32
  cc_seed :: "u8 list"
  cc_client :: "u8 list"
  cc_server :: "u8 list"

record netr_Authenticator =
  na_cred :: "u8 list"
  na_timestamp :: u64

abbreviation (input) "NETLOGON_NEG_ARCFOUR \<equiv> (0x00000004 :: u32)"
abbreviation (input) "NETLOGON_NEG_128BIT \<equiv> (0x00004000 :: u32)"

definition creds_init_64bit :: "u8 list \<Rightarrow> u8 list \<Rightarrow> u8 list \<Rightarrow> creds_CredentialState \<Rightarrow> creds_CredentialState" where
  "creds_init_64bit client_challenge server_challenge machine_password creds =
     (let sum0 = IVAL client_challenge 0 + IVAL server_challenge 0; sum1 = IVAL client_challenge 4 + IVAL server_challenge 4;
          sum2 = SIVAL sum0 @ SIVAL sum1;
          key = des_crypt128 sum2 machine_password @ replicate 8 0;
          client = des_crypt112 client_challenge key True; server = des_crypt112 server_challenge key True
      in creds\<lparr>cc_session_key := key, cc_client := client, cc_server := server, cc_seed := client\<rparr>)"

definition creds_init_128bit :: "u8 list \<Rightarrow> u8 list \<Rightarrow> u8 list \<Rightarrow> u8 list \<Rightarrow> creds_CredentialState \<Rightarrow> creds_CredentialState" where
  "creds_init_128bit junk client_challenge server_challenge machine_password creds =
     (let ctx = hmac_md5_init_rfc2104 junk (take 16 machine_password);
          tmp = fst (MD5Final (MD5Update (take 8 server_challenge) (MD5Update (take 8 client_challenge) (MD5Update (replicate 4 0) (MD5Init junk)))));
          key = hmac_md5_final junk (hmac_md5_update tmp ctx);
          client = des_crypt112 client_challenge key True; server = des_crypt112 server_challenge key True
      in creds\<lparr>cc_session_key := key, cc_client := client, cc_server := server, cc_seed := client\<rparr>)"

definition creds_step :: "creds_CredentialState \<Rightarrow> creds_CredentialState" where
  "creds_step creds =
     (let seed = cc_seed creds;
          time_cred = SIVAL (IVAL seed 0 + cc_sequence creds) @ SIVAL (IVAL seed 4);
          client = des_crypt112 time_cred (cc_session_key creds) True;
          time_cred1 = SIVAL (IVAL seed 0 + cc_sequence creds + 1) @ SIVAL (IVAL seed 4);
          server = des_crypt112 time_cred1 (cc_session_key creds) True
      in creds\<lparr>cc_client := client, cc_server := server, cc_seed := time_cred1\<rparr>)"

section \<open>Keys under the session key\<close>

definition creds_des_encrypt_LMKey :: "creds_CredentialState \<Rightarrow> u8 list \<Rightarrow> u8 list" where
  "creds_des_encrypt_LMKey creds key = des_crypt56 key (cc_session_key creds) True"

definition creds_des_decrypt_LMKey :: "creds_CredentialState \<Rightarrow> u8 list \<Rightarrow> u8 list" where
  "creds_des_decrypt_LMKey creds key = des_crypt56 key (cc_session_key creds) False"

definition creds_des_encrypt :: "creds_CredentialState \<Rightarrow> u8 list \<Rightarrow> u8 list" where
  "creds_des_encrypt creds pass = des_crypt112_16 pass (cc_session_key creds) True"

definition creds_des_decrypt :: "creds_CredentialState \<Rightarrow> u8 list \<Rightarrow> u8 list" where
  "creds_des_decrypt creds pass = des_crypt112_16 pass (cc_session_key creds) False"

text \<open>None is a division by zero, as in \<open>arcfour_crypt_blob\<close>.\<close>

definition creds_arcfour_crypt :: "creds_CredentialState \<Rightarrow> u8 list \<Rightarrow> u8 list option" where
  "creds_arcfour_crypt creds data = arcfour_crypt_blob data (take 16 (cc_session_key creds))"

section \<open>The client\<close>

definition creds_client_init ::
    "u32 \<Rightarrow> u8 list \<Rightarrow> u8 list \<Rightarrow> u8 list \<Rightarrow> u8 list \<Rightarrow> u32 \<Rightarrow> creds_CredentialState \<Rightarrow> u8 list \<times> creds_CredentialState" where
  "creds_client_init now junk client_challenge server_challenge machine_password negotiate_flags creds0 =
     (let creds = creds0\<lparr>cc_sequence := now, cc_negotiate_flags := negotiate_flags\<rparr>;
          creds1 = (if negotiate_flags AND NETLOGON_NEG_128BIT \<noteq> 0
                    then creds_init_128bit junk client_challenge server_challenge machine_password creds
                    else creds_init_64bit client_challenge server_challenge machine_password creds)
      in (cc_client creds1, creds1))"

definition creds_client_authenticator :: "creds_CredentialState \<Rightarrow> netr_Authenticator \<times> creds_CredentialState" where
  "creds_client_authenticator creds0 =
     (let creds = creds_step (creds0\<lparr>cc_sequence := cc_sequence creds0 + 2\<rparr>)
      in (\<lparr>na_cred = cc_client creds, na_timestamp = ucast (cc_sequence creds)\<rparr>, creds))"

definition creds_client_check :: "creds_CredentialState \<Rightarrow> u8 list option \<Rightarrow> bool" where
  "creds_client_check creds received = (case received of None \<Rightarrow> False | Some cred \<Rightarrow> take 8 cred = take 8 (cc_server creds))"

section \<open>The server\<close>

definition creds_server_init ::
    "u8 list \<Rightarrow> u8 list \<Rightarrow> u8 list \<Rightarrow> u8 list \<Rightarrow> u32 \<Rightarrow> creds_CredentialState \<Rightarrow> u8 list \<times> creds_CredentialState" where
  "creds_server_init junk client_challenge server_challenge machine_password negotiate_flags creds =
     (let creds1 = (if negotiate_flags AND NETLOGON_NEG_128BIT \<noteq> 0
                    then creds_init_128bit junk client_challenge server_challenge machine_password creds
                    else creds_init_64bit client_challenge server_challenge machine_password creds)
      in (cc_server creds1, creds1\<lparr>cc_negotiate_flags := negotiate_flags\<rparr>))"

definition creds_server_check :: "creds_CredentialState \<Rightarrow> u8 list \<Rightarrow> bool" where
  "creds_server_check creds received = (take 8 received = take 8 (cc_client creds))"

text \<open>
  A pointer that may be NULL is an option. The result is the status, the authenticator that is
  returned (None is one that is not written) and the state, which is stepped before the check.
\<close>

definition creds_server_step_check ::
    "netr_Authenticator option \<Rightarrow> bool \<Rightarrow> creds_CredentialState option \<Rightarrow> NTSTATUS \<times> netr_Authenticator option \<times> creds_CredentialState option" where
  "creds_server_step_check received has_return creds0 =
     (case received of
        None \<Rightarrow> (NT_STATUS_INVALID_PARAMETER, None, creds0)
      | Some auth \<Rightarrow>
          if \<not> has_return then (NT_STATUS_INVALID_PARAMETER, None, creds0)
          else case creds0 of
            None \<Rightarrow> (NT_STATUS_ACCESS_DENIED, None, None)
          | Some c \<Rightarrow>
              (let creds = creds_step (c\<lparr>cc_sequence := ucast (na_timestamp auth)\<rparr>) in
               if creds_server_check creds (na_cred auth)
               then (NT_STATUS_OK, Some \<lparr>na_cred = cc_server creds, na_timestamp = ucast (cc_sequence creds)\<rparr>, Some creds)
               else (NT_STATUS_ACCESS_DENIED, Some \<lparr>na_cred = replicate 8 0, na_timestamp = 0\<rparr>, Some creds)))"

text \<open>
  The state is fetched from a database and stored in it in one transaction. The operations of the
  database are parameters: whether it can be opened, the start of a transaction (its success and the
  database in it), reading and writing the state of a computer (writing may change the database
  also when it fails: it deletes the old entry before it adds the new one), the commit with its
  success, and what cancelling leaves. The code does not look at the result of the last two. The
  name the state is written under is the one it was fetched with.
\<close>

abbreviation (input) "NT_STATUS_INTERNAL_DB_CORRUPTION \<equiv> (0xC00000E4 :: NTSTATUS)"

record 'db schannel_db =
  sd_connect :: bool
  sd_start :: "'db \<Rightarrow> bool \<times> 'db"
  sd_fetch :: "'db \<Rightarrow> string \<Rightarrow> NTSTATUS \<times> creds_CredentialState option"
  sd_store :: "'db \<Rightarrow> string \<Rightarrow> creds_CredentialState \<Rightarrow> NTSTATUS \<times> 'db"
  sd_commit :: "'db \<Rightarrow> bool \<times> 'db"
  sd_cancel :: "'db \<Rightarrow> 'db"

definition netr_creds_server_step_check ::
    "'db schannel_db \<Rightarrow> string \<Rightarrow> netr_Authenticator option \<Rightarrow> bool \<Rightarrow> 'db \<Rightarrow>
       NTSTATUS \<times> netr_Authenticator option \<times> creds_CredentialState option \<times> 'db" where
  "netr_creds_server_step_check ops computer_name received has_return db =
     (if \<not> sd_connect ops then (NT_STATUS_ACCESS_DENIED, None, None, db)
      else case sd_start ops db of
        (started, db0) \<Rightarrow>
          if \<not> started then (NT_STATUS_INTERNAL_DB_CORRUPTION, None, None, db0)
          else case sd_fetch ops db0 computer_name of
            (status0, creds0) \<Rightarrow>
              (case (if status0 = NT_STATUS_OK then creds_server_step_check received has_return creds0 else (status0, None, creds0)) of
                 (status1, ret, creds1) \<Rightarrow>
                   (case (if status1 = NT_STATUS_OK
                          then (case creds1 of Some c \<Rightarrow> sd_store ops db0 computer_name c | None \<Rightarrow> (status1, db0))
                          else (status1, db0)) of
                      (status2, db1) \<Rightarrow>
                        if status2 = NT_STATUS_OK then (status2, ret, creds1, snd (sd_commit ops db1))
                        else (status2, ret, None, sd_cancel ops db1))))"

section \<open>The keys of a logon\<close>

text \<open>
  The part of the logon information that holds keys; the three levels have it in the same place of
  the union, and None is a NULL pointer there.
\<close>

record netr_SamBaseInfo =
  sb_key :: "u8 list"
  sb_LMSessKey :: "u8 list"

definition creds_decrypt_samlogon :: "creds_CredentialState \<Rightarrow> u16 \<Rightarrow> netr_SamBaseInfo option \<Rightarrow> netr_SamBaseInfo option option" where
  "creds_decrypt_samlogon creds validation_level validation =
     (if validation_level \<noteq> 2 \<and> validation_level \<noteq> 3 \<and> validation_level \<noteq> 6 then Some validation
      else case validation of
        None \<Rightarrow> Some None
      | Some base \<Rightarrow>
          if validation_level = 6 then Some (Some base)
          else if cc_negotiate_flags creds AND NETLOGON_NEG_ARCFOUR \<noteq> 0
          then (case (if sb_key base \<noteq> replicate 16 0 then creds_arcfour_crypt creds (sb_key base) else Some (sb_key base)) of
                  None \<Rightarrow> None
                | Some key \<Rightarrow>
                    (case (if sb_LMSessKey base \<noteq> replicate 8 0 then creds_arcfour_crypt creds (sb_LMSessKey base) else Some (sb_LMSessKey base)) of
                       None \<Rightarrow> None
                     | Some lm \<Rightarrow> Some (Some (base\<lparr>sb_key := key, sb_LMSessKey := lm\<rparr>))))
          else Some (Some (base\<lparr>sb_LMSessKey := (if sb_LMSessKey base \<noteq> replicate 8 0 then creds_des_decrypt_LMKey creds (sb_LMSessKey base) else sb_LMSessKey base)\<rparr>)))"

section \<open>Data under a session key\<close>

text \<open>
  The loop of \<open>sess_crypt_blob\<close>: eight bytes of the data with seven of the key each time. At the end
  of the key the position turns back. None is a key that is read outside; up to then the position is
  at most the length of the key, so that the subtraction does not wrap around.
\<close>

fun sess_crypt :: "u8 list \<Rightarrow> bool \<Rightarrow> nat \<Rightarrow> u8 list \<Rightarrow> u8 list option" where
  "sess_crypt session_key forward k [] = Some []"
| "sess_crypt session_key forward k (c # cs) =
     (let inp = c # cs; n = min 8 (length inp); bin = take n inp @ replicate (8 - n) 0;
          k1 = (if length session_key < k + 7 then length session_key - k else k)
      in if length session_key < k1 + 7 then None
         else map_option (\<lambda>r. take n (des_crypt56 bin (take 7 (drop k1 session_key)) forward) @ r)
                (sess_crypt session_key forward (k1 + 7) (drop 8 inp)))"

definition sess_crypt_blob :: "u8 list \<Rightarrow> u8 list \<Rightarrow> bool \<Rightarrow> u8 list option" where
  "sess_crypt_blob inp session_key forward = sess_crypt session_key forward 0 inp"

definition sess_padded :: "u8 list \<Rightarrow> u8 list" where
  "sess_padded data = (let slen = length data; dlen = (slen + 7) div 8 * 8
     in SIVAL (of_nat slen) @ SIVAL 1 @ data @ replicate (dlen - slen) 0)"

definition sess_encrypt_string :: "u8 list \<Rightarrow> u8 list \<Rightarrow> u8 list option" where
  "sess_encrypt_string str session_key = sess_crypt_blob (sess_padded str) session_key True"

text \<open>The inner None is NULL. The length is a signed integer that is compared with an unsigned one.\<close>

definition sess_length_ok :: "u8 list \<Rightarrow> nat \<Rightarrow> bool" where
  "sess_length_ok out len \<longleftrightarrow> 0 \<le> sint (IVAL out 0) \<and> unat (IVAL out 0) \<le> len - 8"

definition sess_decrypt_string :: "u8 list \<Rightarrow> u8 list \<Rightarrow> u8 list option option" where
  "sess_decrypt_string blob session_key =
     (if length blob < 8 then Some None
      else map_option (\<lambda>out.
        if IVAL out 4 \<noteq> 1 then None
        else if \<not> sess_length_ok out (length blob) then None
        else Some (takeWhile (\<lambda>c. c \<noteq> 0) (take (unat (IVAL out 0)) (drop 8 out))))
        (sess_crypt_blob blob session_key False))"

definition sess_encrypt_blob :: "u8 list \<Rightarrow> u8 list \<Rightarrow> u8 list option" where
  "sess_encrypt_blob blob_in session_key = sess_crypt_blob (sess_padded blob_in) session_key True"

abbreviation (input) "NT_STATUS_UNKNOWN_REVISION \<equiv> (0xC0000058 :: NTSTATUS)"
abbreviation (input) "NT_STATUS_WRONG_PASSWORD \<equiv> (0xC000006A :: NTSTATUS)"

definition sess_decrypt_blob :: "u8 list \<Rightarrow> u8 list \<Rightarrow> (NTSTATUS + u8 list) option" where
  "sess_decrypt_blob blob session_key =
     (if length blob < 8 then Some (Inl NT_STATUS_INVALID_PARAMETER)
      else map_option (\<lambda>out.
        if IVAL out 4 \<noteq> 1 then Inl NT_STATUS_UNKNOWN_REVISION
        else if \<not> sess_length_ok out (length blob) then Inl NT_STATUS_WRONG_PASSWORD
        else Inr (take (unat (IVAL out 0)) (drop 8 out)))
        (sess_crypt_blob blob session_key False))"

section \<open>The key is read inside\<close>

lemma sess_crypt_block:
  "inp \<noteq> [] \<Longrightarrow> sess_crypt key forward k inp =
     (let n = min 8 (length inp); bin = take n inp @ replicate (8 - n) 0;
          k1 = (if length key < k + 7 then length key - k else k)
      in if length key < k1 + 7 then None
         else map_option (\<lambda>r. take n (des_crypt56 bin (take 7 (drop k1 key)) forward) @ r) (sess_crypt key forward (k1 + 7) (drop 8 inp)))"
  by (cases inp) (simp_all add: Let_def)

lemma sess_crypt_inside: "7 \<le> length key \<Longrightarrow> k \<le> length key \<Longrightarrow> k = 0 \<or> 7 \<le> k \<Longrightarrow>
   \<exists>out. sess_crypt key forward k inp = Some out \<and> length out = length inp"
proof (induction key forward k inp rule: sess_crypt.induct)
  case (2 key forward k c cs)
  define inp where "inp = c # cs"
  define k1 where "k1 = (if length key < k + 7 then length key - k else k)"
  define bin where "bin = take (min 8 (length inp)) inp @ replicate (8 - min 8 (length inp)) 0"
  have k1: "k1 + 7 \<le> length key" using 2(2-4) by (auto simp: k1_def)
  from 2(1) [OF inp_def refl bin_def k1_def] k1 2(2) obtain out where out: "sess_crypt key forward (k1 + 7) (drop 8 inp) = Some out" "length out = length inp - 8"
    by (auto simp: inp_def)
  have "length bin = 8" by (simp add: bin_def)
  then have "length (des_crypt56 bin (take 7 (drop k1 key)) forward) = 8" by (rule des_block_inverse(2))
  moreover have "inp \<noteq> []" by (simp add: inp_def)
  ultimately have "\<exists>out. sess_crypt key forward k inp = Some out \<and> length out = length inp"
    using k1 out unfolding sess_crypt_block [OF \<open>inp \<noteq> []\<close>] Let_def bin_def [symmetric] k1_def [symmetric] by auto
  then show ?case by (simp only: inp_def)
qed simp

text \<open>Whole blocks are given back.\<close>

lemma sess_crypt_inverse: "sess_crypt key forward k inp = Some out \<Longrightarrow> length inp mod 8 = 0 \<Longrightarrow>
   sess_crypt key (\<not> forward) k out = Some inp"
proof (induction key forward k inp arbitrary: out rule: sess_crypt.induct)
  case (2 key forward k c cs)
  define inp where "inp = c # cs"
  define k1 where "k1 = (if length key < k + 7 then length key - k else k)"
  have m: "8 dvd length inp" "inp \<noteq> []" using 2(3) by (simp_all only: inp_def mod_eq_0_iff_dvd list.distinct not_False_eq_True)
  then have l: "8 \<le> length inp" "length (drop 8 inp) mod 8 = 0" using dvd_imp_le [OF m(1)] by (simp_all add: mod_eq_0_iff_dvd dvd_diff_nat)
  define blk where "blk = take 8 inp"
  have bl: "length blk = 8" using l by (simp add: blk_def)
  define e where "e = des_crypt56 blk (take 7 (drop k1 key)) forward"
  note d = des_block_inverse [OF bl, of "take 7 (drop k1 key)" forward, folded e_def]
  have n: "min 8 (length inp) = 8" using l by simp
  have eq: "sess_crypt key forward k inp = Some out" using 2(2) by (simp only: inp_def)
  from eq l obtain r where r: "\<not> length key < k1 + 7" "sess_crypt key forward (k1 + 7) (drop 8 inp) = Some r" "out = e @ r"
    unfolding sess_crypt_block [OF m(2)] Let_def k1_def [symmetric] n using d(2) by (auto simp: e_def blk_def split: if_splits)
  have IH: "sess_crypt key (\<not> forward) (k1 + 7) r = Some (drop 8 inp)"
    by (rule 2(1) [OF inp_def refl refl k1_def r(1) r(2) l(2)])
  have os: "out \<noteq> []" "min 8 (length out) = 8" "take 8 out = e" "drop 8 out = r" using d(2) by (auto simp: r(3))
  have "sess_crypt key (\<not> forward) k out = Some (blk @ drop 8 inp)"
    unfolding sess_crypt_block [OF os(1)] Let_def k1_def [symmetric] os(2-4) using r(1) IH d bl by simp
  moreover have "blk @ drop 8 inp = c # cs" by (simp add: blk_def inp_def)
  ultimately show ?case by (simp only:)
qed simp

section \<open>Secrets come back\<close>

lemma length_sess_padded: "length (sess_padded data) mod 8 = 0" "8 \<le> length (sess_padded data)"
proof -
  have "length data \<le> (length data + 7) div 8 * 8" by linarith
  then have "length (sess_padded data) = 8 + (length data + 7) div 8 * 8" by (simp add: sess_padded_def Let_def)
  then show "length (sess_padded data) mod 8 = 0" "8 \<le> length (sess_padded data)" by simp_all
qed

lemma sess_padded_read:
  assumes "length data < 2 ^ 31"
  shows "IVAL (sess_padded data) 4 = 1" "unat (IVAL (sess_padded data) 0) = length data" "sess_length_ok (sess_padded data) (length (sess_padded data))"
    "take (length data) (drop 8 (sess_padded data)) = data"
proof -
  define pad where "pad = replicate ((length data + 7) div 8 * 8 - length data) (0 :: u8)"
  have p: "sess_padded data = SIVAL (of_nat (length data)) @ SIVAL 1 @ data @ pad" by (simp add: sess_padded_def Let_def pad_def)
  show "IVAL (sess_padded data) 4 = 1" unfolding p using IVAL_at [of "SIVAL (of_nat (length data))" 1 "data @ pad"] by simp
  have i: "IVAL (sess_padded data) 0 = of_nat (length data)" unfolding p using IVAL_at [of "[]" "of_nat (length data)"] by simp
  show u: "unat (IVAL (sess_padded data) 0) = length data" unfolding i using assms by (simp add: unat_of_nat)
  have "0 \<le> sint (of_nat (length data) :: u32)" using assms by (simp add: signed_of_nat signed_take_bit_int_eq_self)
  then show "sess_length_ok (sess_padded data) (length (sess_padded data))"
    unfolding sess_length_ok_def u unfolding i by (simp add: p)
  show "take (length data) (drop 8 (sess_padded data)) = data" by (simp add: p)
qed

text \<open>
  C35. With a session key of at least seven bytes no data of any length makes the loop read outside the
  key, and the bytes of whole blocks are given back by the other direction; a shorter key is read
  outside by any data. A secret, as a string without a NUL or as a blob, comes back from what was
  made of it, which is a whole number of blocks.
\<close>

theorem session_secrets_roundtrip:
  assumes "length secret < 2 ^ 31"
  shows "(length key < 7 \<longrightarrow> data \<noteq> [] \<longrightarrow> sess_crypt_blob data key forward = None) \<and>
    (7 \<le> length key \<longrightarrow>
      (\<exists>out. sess_crypt_blob data key forward = Some out \<and> length out = length data \<and>
         (length data mod 8 = 0 \<longrightarrow> sess_crypt_blob out key (\<not> forward) = Some data)) \<and>
      (\<exists>enc. sess_encrypt_blob secret key = Some enc \<and> length enc mod 8 = 0 \<and> sess_decrypt_blob enc key = Some (Inr secret)) \<and>
      (0 \<notin> set secret \<longrightarrow> (\<exists>enc. sess_encrypt_string secret key = Some enc \<and> sess_decrypt_string enc key = Some (Some secret))))"
proof (intro conjI impI)
  show "sess_crypt_blob data key forward = None" if "length key < 7" "data \<noteq> []"
    using that by (simp add: sess_crypt_blob_def sess_crypt_block Let_def)
  assume k: "7 \<le> length key"
  have all: "\<exists>out. sess_crypt_blob inp key f = Some out \<and> length out = length inp \<and>
      (length inp mod 8 = 0 \<longrightarrow> sess_crypt_blob out key (\<not> f) = Some inp)" for inp f
    using sess_crypt_inside [OF k, of 0 f inp] sess_crypt_inverse [of key f 0 inp] by (auto simp: sess_crypt_blob_def)
  then show "\<exists>out. sess_crypt_blob data key forward = Some out \<and> length out = length data \<and>
     (length data mod 8 = 0 \<longrightarrow> sess_crypt_blob out key (\<not> forward) = Some data)" .
  from all [of "sess_padded secret" True] length_sess_padded [of secret] obtain enc where
    e: "sess_crypt_blob (sess_padded secret) key True = Some enc" "length enc = length (sess_padded secret)" "sess_crypt_blob enc key False = Some (sess_padded secret)"
    by auto
  note r = sess_padded_read [OF assms]
  show "\<exists>enc. sess_encrypt_blob secret key = Some enc \<and> length enc mod 8 = 0 \<and> sess_decrypt_blob enc key = Some (Inr secret)"
    using e r length_sess_padded [of secret] by (simp add: sess_encrypt_blob_def sess_decrypt_blob_def)
  show "\<exists>enc. sess_encrypt_string secret key = Some enc \<and> sess_decrypt_string enc key = Some (Some secret)" if "0 \<notin> set secret"
  proof -
    have "takeWhile (\<lambda>c. c \<noteq> 0) secret = secret" by (rule takeWhile_all) (use that in auto)
    then show ?thesis using e r length_sess_padded [of secret] by (simp add: sess_encrypt_string_def sess_decrypt_string_def)
  qed
qed

theorem session_secrets_roundtrip_witness:
  "\<exists>enc. sess_encrypt_string [112, 119, 100] (replicate 16 7) = Some enc \<and> sess_decrypt_string enc (replicate 16 7) = Some (Some [112, 119, 100])"
  using session_secrets_roundtrip [of "[112, 119, 100]" "replicate 16 7" "[]" True] by simp

section \<open>The two ends stay in step\<close>

text \<open>A number of calls: the client authenticates, the server checks and answers, the client checks the answer. None is a call that one of them refuses.\<close>

fun exchanges :: "nat \<Rightarrow> creds_CredentialState \<times> creds_CredentialState \<Rightarrow> (creds_CredentialState \<times> creds_CredentialState) option" where
  "exchanges 0 p = Some p"
| "exchanges (Suc n) (c, s) =
     (case creds_client_authenticator c of (auth, c1) \<Rightarrow>
        (case creds_server_step_check (Some auth) True (Some s) of
           (status, Some ret, Some s1) \<Rightarrow> if status = NT_STATUS_OK \<and> creds_client_check c1 (Some (na_cred ret)) then exchanges n (c1, s1) else None
         | _ \<Rightarrow> None))"

definition in_step :: "creds_CredentialState \<Rightarrow> creds_CredentialState \<Rightarrow> bool" where
  "in_step c s \<longleftrightarrow> cc_session_key c = cc_session_key s \<and> cc_seed c = cc_seed s"

lemma exchange_in_step:
  assumes "in_step c s"
  shows "\<exists>c1 s1. exchanges (Suc n) (c, s) = exchanges n (c1, s1) \<and> in_step c1 s1 \<and> cc_sequence c1 = cc_sequence c + 2 \<and> cc_sequence s1 = cc_sequence c1"
  by (intro exI [of _ "snd (creds_client_authenticator c)"] exI [of _ "creds_step (s\<lparr>cc_sequence := cc_sequence c + 2\<rparr>)"])
    (use assms in \<open>simp add: in_step_def creds_client_authenticator_def creds_server_step_check_def creds_step_def creds_server_check_def creds_client_check_def
      Let_def ucast_up_down\<close>)

lemma exchanges_in_step:
  "in_step c s \<Longrightarrow> \<exists>c1 s1. exchanges n (c, s) = Some (c1, s1) \<and> in_step c1 s1 \<and> cc_sequence c1 = cc_sequence c + 2 * of_nat n \<and> (0 < n \<longrightarrow> cc_sequence s1 = cc_sequence c1)"
proof (induction n arbitrary: c s)
  case (Suc n)
  from exchange_in_step [OF Suc.prems, of n] obtain c1 s1 where
    1: "exchanges (Suc n) (c, s) = exchanges n (c1, s1)" "in_step c1 s1" "cc_sequence c1 = cc_sequence c + 2" "cc_sequence s1 = cc_sequence c1" by blast
  from Suc.IH [OF 1(2)] obtain c2 s2 where
    2: "exchanges n (c1, s1) = Some (c2, s2)" "in_step c2 s2" "cc_sequence c2 = cc_sequence c1 + 2 * of_nat n" "0 < n \<longrightarrow> cc_sequence s2 = cc_sequence c2" by blast
  have "n = 0 \<Longrightarrow> s2 = s1 \<and> c2 = c1" using 2(1) by simp
  then show ?case using 1 2 by (intro exI [of _ c2] exI [of _ s2]) (auto simp: algebra_simps)
qed simp

text \<open>The session key of the 128 bit variant is a function of the password and the challenges.\<close>

lemma init_128bit_key:
  assumes "length junk = 64"
  shows "creds_init_128bit junk cc sc pw creds =
    (let key = rfc2104 rfc1321_md5 (take 16 pw) (rfc1321_md5 (replicate 4 0 @ take 8 cc @ take 8 sc));
         client = des_crypt112 cc key True; server = des_crypt112 sc key True
     in creds\<lparr>cc_session_key := key, cc_client := client, cc_server := server, cc_seed := client\<rparr>)"
  using md5_of_rfc [OF assms, of "[replicate 4 0, take 8 cc, take 8 sc]"]
    hmac_session [OF assms, of "[rfc1321_md5 (replicate 4 0 @ take 8 cc @ take 8 sc)]" "take 16 pw"]
  by (simp add: creds_init_128bit_def Let_def md5_of_def)

lemma init_in_step:
  assumes "length junk1 = 64" "length junk2 = 64"
  shows "in_step (snd (creds_client_init now junk1 cc sc pw flags c0)) (snd (creds_server_init junk2 cc sc pw flags s0))"
    "cc_server (snd (creds_client_init now junk1 cc sc pw flags c0)) = fst (creds_server_init junk2 cc sc pw flags s0)"
    "cc_client (snd (creds_server_init junk2 cc sc pw flags s0)) = fst (creds_client_init now junk1 cc sc pw flags c0)"
    "cc_sequence (snd (creds_client_init now junk1 cc sc pw flags c0)) = now"
  by (simp_all add: in_step_def creds_client_init_def creds_server_init_def init_128bit_key assms creds_init_64bit_def Let_def)

text \<open>
  C33. A client and a server that know the same machine password and have exchanged challenges accept
  each other's first credentials, whichever key length was negotiated, and every later call of any
  number of calls: the server accepts each authenticator of the client and the client each answer.
  The clock is only read at the start; each call moves the sequence on by two.
\<close>

theorem credential_chain_agrees:
  assumes "length junk1 = 64" "length junk2 = 64"
    and "creds_client_init now junk1 client_challenge server_challenge pw flags c0 = (first_client, c)"
    and "creds_server_init junk2 client_challenge server_challenge pw flags s0 = (first_server, s)"
  shows "creds_server_check s first_client \<and> creds_client_check c (Some first_server) \<and>
    (\<exists>c1 s1. exchanges n (c, s) = Some (c1, s1) \<and> cc_session_key c1 = cc_session_key s1 \<and> cc_seed c1 = cc_seed s1 \<and>
       cc_sequence c1 = now + 2 * of_nat n \<and> (0 < n \<longrightarrow> cc_sequence s1 = cc_sequence c1))"
proof -
  have i: "in_step c s" "cc_server c = first_server" "cc_client s = first_client" "cc_sequence c = now"
    using init_in_step(1,2) [OF assms(1,2), of now client_challenge server_challenge pw flags c0 s0]
      init_in_step(3) [OF assms(1,2), of client_challenge server_challenge pw flags s0 now c0]
      init_in_step(4) [OF assms(1,2), of now client_challenge server_challenge pw flags c0] assms(3,4) by simp_all
  show ?thesis using exchanges_in_step [OF i(1), of n] i(2-4) by (auto simp: creds_server_check_def creds_client_check_def in_step_def)
qed

theorem credential_chain_agrees_witness:
  "\<exists>c s c1 s1 pw. pw = replicate 16 (7 :: u8) \<and>
     snd (creds_client_init 1000 (replicate 64 0) (replicate 8 1) (replicate 8 2) pw 0x4000 \<lparr>cc_negotiate_flags = 0, cc_session_key = [], cc_sequence = 0, cc_seed = [], cc_client = [], cc_server = []\<rparr>) = c \<and>
     snd (creds_server_init (replicate 64 5) (replicate 8 1) (replicate 8 2) pw 0x4000 \<lparr>cc_negotiate_flags = 0, cc_session_key = [], cc_sequence = 0, cc_seed = [], cc_client = [], cc_server = []\<rparr>) = s \<and>
     exchanges 3 (c, s) = Some (c1, s1) \<and> cc_sequence s1 = 1006"
proof -
  let ?e = "\<lparr>cc_negotiate_flags = 0, cc_session_key = [], cc_sequence = 0, cc_seed = [], cc_client = [], cc_server = []\<rparr>"
  let ?c = "creds_client_init 1000 (replicate 64 0) (replicate 8 1) (replicate 8 2) (replicate 16 7) 0x4000 ?e"
  let ?s = "creds_server_init (replicate 64 5) (replicate 8 1) (replicate 8 2) (replicate 16 7) 0x4000 ?e"
  from credential_chain_agrees [of "replicate 64 0" "replicate 64 5" 1000 "replicate 8 1" "replicate 8 2" "replicate 16 7" "0x4000" ?e "fst ?c" "snd ?c" ?e "fst ?s" "snd ?s" 3]
  obtain c1 s1 where "exchanges 3 (snd ?c, snd ?s) = Some (c1, s1)" "cc_sequence s1 = 1006" by (simp add: prod_eq_iff [symmetric]) metis
  then show ?thesis by blast
qed

section \<open>A refused authenticator\<close>

lemma des_crypt56_inj:
  assumes "length a = 8" "length b = 8" "des_crypt56 a key True = des_crypt56 b key True"
  shows "a = b"
proof -
  have "des_crypt56 (des_crypt56 x key True) key False = x" if "length x = 8" for x
    using des_block_inverse(1) [OF that, of key True] by simp
  from this [OF assms(1)] this [OF assms(2)] show ?thesis unfolding assms(3) by (rule trans [OF sym])
qed

lemma des_crypt112_inj:
  assumes "length a = 8" "length b = 8" "des_crypt112 a key True = des_crypt112 b key True"
  shows "a = b"
  by (rule des_crypt56_inj [OF assms(1,2) des_crypt56_inj [OF _ _ assms(3) [unfolded des_crypt112_def]]])
    (simp_all only: des_block_inverse(2) assms)

lemma length_des_crypt112: "length a = 8 \<Longrightarrow> length (des_crypt112 a key forw) = 8"
  by (simp add: des_crypt112_def des_block_inverse(2))

lemma SIVAL_inj: "SIVAL a = SIVAL b \<Longrightarrow> a = b"
  using IVAL_at [of "[]" a "[]"] IVAL_at [of "[]" b "[]"] by simp

lemma IVAL_seed: "IVAL (SIVAL a @ SIVAL b) 0 = a" "IVAL (SIVAL a @ SIVAL b) 4 = b"
  using IVAL_at [of "[]" a "SIVAL b"] IVAL_at [of "SIVAL a" b "[]"] by simp_all

text \<open>What the server accepts.\<close>

lemma server_accepts:
  "creds_server_step_check (Some auth) True (Some s) =
     (let s1 = creds_step (s\<lparr>cc_sequence := ucast (na_timestamp auth)\<rparr>) in
      if take 8 (na_cred auth) = des_crypt112 (SIVAL (IVAL (cc_seed s) 0 + ucast (na_timestamp auth)) @ SIVAL (IVAL (cc_seed s) 4)) (cc_session_key s) True
      then (NT_STATUS_OK, Some \<lparr>na_cred = cc_server s1, na_timestamp = ucast (cc_sequence s1)\<rparr>, Some s1)
      else (NT_STATUS_ACCESS_DENIED, Some \<lparr>na_cred = replicate 8 0, na_timestamp = 0\<rparr>, Some s1))"
  by (simp add: creds_server_step_check_def creds_server_check_def creds_step_def length_des_crypt112 Let_def)

lemma refused_breaks_step:
  assumes "in_step c s" "creds_server_step_check (Some bad) True (Some s) = (NT_STATUS_ACCESS_DENIED, ret, Some s1)"
    and "(ucast (na_timestamp bad) :: u32) + 1 \<noteq> 0"
  shows "fst (creds_server_step_check (Some (fst (creds_client_authenticator c))) True (Some s1)) = NT_STATUS_ACCESS_DENIED"
proof -
  let ?t = "ucast (na_timestamp bad) :: u32" and ?q = "cc_sequence c + 2" and ?lo = "IVAL (cc_seed s) 0" and ?hi = "IVAL (cc_seed s) 4"
  have s1: "s1 = creds_step (s\<lparr>cc_sequence := ?t\<rparr>)" using assms(2) by (simp add: server_accepts Let_def split: if_splits)
  then have seed: "IVAL (cc_seed s1) 0 = ?lo + ?t + 1" "IVAL (cc_seed s1) 4 = ?hi" "cc_session_key s1 = cc_session_key s"
    by (simp_all add: creds_step_def Let_def IVAL_seed)
  have auth: "na_cred (fst (creds_client_authenticator c)) = des_crypt112 (SIVAL (?lo + ?q) @ SIVAL ?hi) (cc_session_key s) True"
    "ucast (na_timestamp (fst (creds_client_authenticator c))) = ?q"
    using assms(1) by (simp_all add: creds_client_authenticator_def creds_step_def in_step_def Let_def ucast_up_down)
  have "des_crypt112 (SIVAL (?lo + ?q) @ SIVAL ?hi) (cc_session_key s) True \<noteq> des_crypt112 (SIVAL (?lo + ?t + 1 + ?q) @ SIVAL ?hi) (cc_session_key s) True"
  proof
    assume "des_crypt112 (SIVAL (?lo + ?q) @ SIVAL ?hi) (cc_session_key s) True = des_crypt112 (SIVAL (?lo + ?t + 1 + ?q) @ SIVAL ?hi) (cc_session_key s) True"
    then have "SIVAL (?lo + ?q) @ SIVAL ?hi = SIVAL (?lo + ?t + 1 + ?q) @ SIVAL ?hi" by (rule des_crypt112_inj [rotated 2]) simp_all
    then have "?lo + ?q = ?lo + ?t + 1 + ?q" by (auto dest: SIVAL_inj)
    then show False using assms(3) by (simp add: algebra_simps)
  qed
  moreover have "take 8 (des_crypt112 (SIVAL (?lo + ?q) @ SIVAL ?hi) (cc_session_key s) True) = des_crypt112 (SIVAL (?lo + ?q) @ SIVAL ?hi) (cc_session_key s) True"
    by (simp add: length_des_crypt112)
  ultimately show ?thesis unfolding server_accepts seed auth Let_def by (simp only: if_False fst_conv)
qed

text \<open>
  What the server relies on in the database: in a transaction the same is read as before it, and
  a start that fails changes nothing; cancelling it brings back what was read before, also after
  something was written; what was written and committed is read afterwards, up to the sequence
  number, which the database does not keep.
\<close>

definition same_entry :: "creds_CredentialState \<Rightarrow> NTSTATUS \<times> creds_CredentialState option \<Rightarrow> bool" where
  "same_entry c r \<longleftrightarrow> (\<exists>c'. r = (NT_STATUS_OK, Some c') \<and> c'\<lparr>cc_sequence := 0\<rparr> = c\<lparr>cc_sequence := 0\<rparr>)"

definition transactional :: "'db schannel_db \<Rightarrow> bool" where
  "transactional ops \<longleftrightarrow>
     (\<forall>db. sd_fetch ops (snd (sd_start ops db)) = sd_fetch ops db) \<and>
     (\<forall>db d0. sd_start ops db = (True, d0) \<longrightarrow> sd_fetch ops (sd_cancel ops d0) = sd_fetch ops db) \<and>
     (\<forall>db d0 name c st d1. sd_start ops db = (True, d0) \<longrightarrow> sd_store ops d0 name c = (st, d1) \<longrightarrow> sd_fetch ops (sd_cancel ops d1) = sd_fetch ops db) \<and>
     (\<forall>d0 name c d1 d2. sd_store ops d0 name c = (NT_STATUS_OK, d1) \<longrightarrow> sd_commit ops d1 = (True, d2) \<longrightarrow> same_entry c (sd_fetch ops d2 name))"

text \<open>The credential that belongs to a time stamp.\<close>

definition expected_cred :: "creds_CredentialState \<Rightarrow> u32 \<Rightarrow> u8 list" where
  "expected_cred c t = des_crypt112 (SIVAL (IVAL (cc_seed c) 0 + t) @ SIVAL (IVAL (cc_seed c) 4)) (cc_session_key c) True"

text \<open>The outcomes of the call, one equation each.\<close>

lemma step_check_refused:
  assumes "sd_connect ops" "sd_start ops db = (True, d0)" "sd_fetch ops d0 name = (st0, creds0)"
    and "st0 \<noteq> NT_STATUS_OK \<or> fst (creds_server_step_check received has_return creds0) \<noteq> NT_STATUS_OK"
  shows "\<exists>st ret. netr_creds_server_step_check ops name received has_return db = (st, ret, None, sd_cancel ops d0) \<and> st \<noteq> NT_STATUS_OK"
  using assms by (cases "creds_server_step_check received has_return creds0") (auto simp: netr_creds_server_step_check_def)

lemma step_check_accepted:
  assumes "sd_connect ops" "sd_start ops db = (True, d0)" "sd_fetch ops d0 name = (NT_STATUS_OK, creds0)"
    and "creds_server_step_check received has_return creds0 = (NT_STATUS_OK, ret, Some c1)" "sd_store ops d0 name c1 = (st, d1)"
  shows "netr_creds_server_step_check ops name received has_return db =
    (if st = NT_STATUS_OK then (st, ret, Some c1, snd (sd_commit ops d1)) else (st, ret, None, sd_cancel ops d1))"
  using assms by (simp add: netr_creds_server_step_check_def)

lemma step_check_OK:
  assumes "creds_server_step_check received has_return creds0 = (NT_STATUS_OK, ret, creds1)"
  shows "\<exists>auth c0. received = Some auth \<and> has_return \<and> creds0 = Some c0 \<and> take 8 (na_cred auth) = expected_cred c0 (ucast (na_timestamp auth)) \<and>
    creds1 = Some (creds_step (c0\<lparr>cc_sequence := ucast (na_timestamp auth)\<rparr>))"
proof -
  obtain auth c0 where r: "received = Some auth" "has_return" "creds0 = Some c0"
    using assms by (auto simp: creds_server_step_check_def split: option.splits if_splits)
  then have "creds_server_step_check (Some auth) True (Some c0) = (NT_STATUS_OK, ret, creds1)" using assms by simp
  then show ?thesis unfolding server_accepts Let_def using r by (auto simp: expected_cred_def split: if_splits)
qed

text \<open>
  C34. A call that does not succeed leaves the database as it was for everyone who reads it: whether
  the database could not be opened, the transaction not be started, nothing be fetched, the
  authenticator was refused or the new state could not be written, every computer's state is read
  as before and the caller gets no state; so the next authenticator of the true client is still
  accepted. A call succeeds only with an authenticator whose credential is the encryption under the
  session key of the stored seed moved by its time stamp; the caller gets the stepped state, which
  was written, and when the commit succeeded it is what is read next (its result is not looked at).
\<close>

theorem refused_authenticator:
  assumes "transactional ops" "netr_creds_server_step_check ops name received has_return db = (status, ret, creds1, db1)"
  shows "(status \<noteq> NT_STATUS_OK \<longrightarrow> creds1 = None \<and> sd_fetch ops db1 = sd_fetch ops db \<and>
      (\<forall>c s. sd_fetch ops db name = (NT_STATUS_OK, Some s) \<and> in_step c s \<longrightarrow>
         fst (creds_server_step_check (Some (fst (creds_client_authenticator c))) True (snd (sd_fetch ops db1 name))) = NT_STATUS_OK)) \<and>
    (status = NT_STATUS_OK \<longrightarrow>
      (\<exists>auth c0 c1 d0 d1. received = Some auth \<and> sd_fetch ops db name = (NT_STATUS_OK, Some c0) \<and>
         take 8 (na_cred auth) = expected_cred c0 (ucast (na_timestamp auth)) \<and>
         c1 = creds_step (c0\<lparr>cc_sequence := ucast (na_timestamp auth)\<rparr>) \<and> creds1 = Some c1 \<and>
         sd_start ops db = (True, d0) \<and> sd_store ops d0 name c1 = (NT_STATUS_OK, d1) \<and> db1 = snd (sd_commit ops d1) \<and>
         (fst (sd_commit ops d1) \<longrightarrow> same_entry c1 (sd_fetch ops db1 name))))"
proof -
  note law = assms(1) [unfolded transactional_def]
  have client: "fst (creds_server_step_check (Some (fst (creds_client_authenticator c))) True (Some s)) = NT_STATUS_OK" if "in_step c s" for c s
    using that by (simp add: in_step_def creds_client_authenticator_def creds_server_step_check_def creds_step_def creds_server_check_def Let_def ucast_up_down)
  obtain started d0 where d0: "sd_start ops db = (started, d0)" by force
  obtain st0 creds0 where f: "sd_fetch ops d0 name = (st0, creds0)" by force
  obtain st1 r1 c1 where k: "creds_server_step_check received has_return creds0 = (st1, r1, c1)" by (metis prod_cases3)
  have same: "sd_fetch ops d0 = sd_fetch ops db" using law d0 by (metis snd_conv)
  consider "\<not> sd_connect ops \<or> \<not> started" | "sd_connect ops" "started" "st0 \<noteq> NT_STATUS_OK \<or> st1 \<noteq> NT_STATUS_OK"
    | "sd_connect ops" "started" "st0 = NT_STATUS_OK" "st1 = NT_STATUS_OK" by blast
  then show ?thesis
  proof cases
    case 1
    then have "status \<noteq> NT_STATUS_OK" "creds1 = None" "db1 = db \<or> db1 = d0"
      using assms(2) d0 by (auto simp: netr_creds_server_step_check_def split: if_splits)
    then show ?thesis using same client by auto
  next
    case 2
    then have "status \<noteq> NT_STATUS_OK" "creds1 = None" "db1 = sd_cancel ops d0"
      using step_check_refused [of ops db d0 name st0 creds0 received has_return] assms(2) d0 f k by auto
    moreover have "sd_fetch ops (sd_cancel ops d0) = sd_fetch ops db" using law d0 2(2) by simp
    ultimately show ?thesis using client by auto
  next
    case 3
    then obtain auth c0 where a: "received = Some auth" "creds0 = Some c0" "take 8 (na_cred auth) = expected_cred c0 (ucast (na_timestamp auth))"
      "c1 = Some (creds_step (c0\<lparr>cc_sequence := ucast (na_timestamp auth)\<rparr>))" using step_check_OK [of received has_return creds0 r1 c1] k by auto
    let ?c = "creds_step (c0\<lparr>cc_sequence := ucast (na_timestamp auth)\<rparr>)"
    obtain st2 d1 where st: "sd_store ops d0 name ?c = (st2, d1)" by force
    note eq = step_check_accepted [of ops db d0 name creds0 received has_return r1 ?c st2 d1]
    show ?thesis
    proof (cases "st2 = NT_STATUS_OK")
      case True
      then have r: "status = NT_STATUS_OK" "creds1 = Some ?c" "db1 = snd (sd_commit ops d1)"
        using eq assms(2) d0 f k st a 3 by auto
      have "same_entry ?c (sd_fetch ops db1 name)" if "fst (sd_commit ops d1)"
        using law st True that r(3) by (metis (full_types) prod.collapse)
      moreover have "sd_fetch ops db name = (NT_STATUS_OK, Some c0)" using same f a(2) 3 by simp
      ultimately show ?thesis using r a st True d0 3 by auto
    next
      case False
      then have r: "status \<noteq> NT_STATUS_OK" "creds1 = None" "db1 = sd_cancel ops d1"
        using eq assms(2) d0 f k st a 3 by auto
      moreover have "sd_start ops db = (True, d0)" using d0 3(2) by simp
      then have "sd_fetch ops db1 = sd_fetch ops db" using law st unfolding r(3) by blast
      ultimately show ?thesis using client by auto
    qed
  qed
qed

definition sample_creds :: creds_CredentialState where
  "sample_creds = \<lparr>cc_negotiate_flags = 0, cc_session_key = replicate 16 1, cc_sequence = 40, cc_seed = replicate 8 3, cc_client = replicate 8 0, cc_server = replicate 8 0\<rparr>"

text \<open>A database with a copy of its contents at the start of the transaction.\<close>

definition sample_db :: "((string \<rightharpoonup> creds_CredentialState) \<times> (string \<rightharpoonup> creds_CredentialState)) schannel_db" where
  "sample_db = \<lparr>sd_connect = True, sd_start = \<lambda>(m, old). (True, (m, m)),
     sd_fetch = \<lambda>(m, old) name. (case m name of None \<Rightarrow> (0xC0000008, None) | Some c \<Rightarrow> (NT_STATUS_OK, Some c)),
     sd_store = \<lambda>(m, old) name c. (NT_STATUS_OK, (m(name \<mapsto> c\<lparr>cc_sequence := 0\<rparr>), old)),
     sd_commit = \<lambda>(m, old). (True, (m, m)), sd_cancel = \<lambda>(m, old). (old, old)\<rparr>"

lemma sample_db_transactional: "transactional sample_db"
  by (auto simp: transactional_def sample_db_def same_entry_def split: prod.splits)

theorem refused_authenticator_witness:
  "\<exists>ret creds1 db1. netr_creds_server_step_check sample_db ''host'' (Some \<lparr>na_cred = [], na_timestamp = 42\<rparr>) True ([''host'' \<mapsto> sample_creds], Map.empty) =
     (NT_STATUS_ACCESS_DENIED, ret, creds1, db1) \<and> sd_fetch sample_db db1 ''host'' = (NT_STATUS_OK, Some sample_creds)"
proof -
  let ?bad = "\<lparr>na_cred = [], na_timestamp = 42\<rparr> :: netr_Authenticator" and ?db = "([''host'' \<mapsto> sample_creds], Map.empty)"
  have ne: "[] \<noteq> des_crypt112 (SIVAL a @ SIVAL b) key True" for a b key using length_des_crypt112 [of "SIVAL a @ SIVAL b" key True] by auto
  have r: "fst (creds_server_step_check (Some ?bad) True (Some sample_creds)) = NT_STATUS_ACCESS_DENIED"
    unfolding server_accepts Let_def by (simp add: ne)
  obtain st ret creds1 db1 where n: "netr_creds_server_step_check sample_db ''host'' (Some ?bad) True ?db = (st, ret, creds1, db1)"
    by (metis prod_cases4)
  have st: "st = NT_STATUS_ACCESS_DENIED"
    using n r by (cases "creds_server_step_check (Some ?bad) True (Some sample_creds)") (simp add: netr_creds_server_step_check_def sample_db_def)
  then have "sd_fetch sample_db db1 = sd_fetch sample_db ?db"
    using refused_authenticator [OF sample_db_transactional n] by simp
  then show ?thesis using n st by (simp add: sample_db_def)
qed

end
