(* ===== verification/Ntlm.thy ===== *)
theory Ntlm
  imports Msrpc Md4 NetlogonCreds
begin

text \<open>
  Passwords and responses: the hashes and the responses of a client, \<open>libcli/auth/smbencrypt.c\<close>, and
  the check of a response against the stored hashes, \<open>auth/ntlm_check.c\<close>.
\<close>

section \<open>Calls that convert strings\<close>

text \<open>
  A call changes the table of conversion descriptors. None is a conversion that does not end or
  misuses its buffer, a failed assertion, or a read outside an array.
\<close>

type_synonym 'a conv_call = "conv_state \<Rightarrow> 'a option \<times> conv_state"

definition returns :: "'a \<Rightarrow> 'a conv_call" where
  "returns x st = (Some x, st)"

definition after :: "'a conv_call \<Rightarrow> ('a \<Rightarrow> 'b conv_call) \<Rightarrow> 'b conv_call" where
  "after m f st = (case m st of (None, st1) \<Rightarrow> (None, st1) | (Some x, st1) \<Rightarrow> f x st1)"

text \<open>The inner None is the result -1.\<close>

definition ucs2_of :: "u8 list \<Rightarrow> u8 list option conv_call" where
  "ucs2_of s st = (case push_ucs2_talloc s st of (r, st1) \<Rightarrow> ((case r of Conv b \<Rightarrow> Some (Some b) | ConvFail \<Rightarrow> Some None | _ \<Rightarrow> None), st1))"

text \<open>\<open>strchr_m\<close> for a character that may be part of a longer one; a round that moves nowhere is a loop that does not end.\<close>

fun strchr_from :: "nat \<Rightarrow> u8 list \<Rightarrow> u32 \<Rightarrow> bool conv_call" where
  "strchr_from 0 s c st = (None, st)"
| "strchr_from (Suc n) s c st =
     (if s = [] then (Some False, st)
      else case next_codepoint s st of
        (None, st1) \<Rightarrow> (None, st1)
      | (Some (c2, sz), st1) \<Rightarrow> if c2 = c then (Some True, st1) else strchr_from n (drop sz s) c st1)"

definition has_at :: "u8 list \<Rightarrow> bool conv_call" where
  "has_at s = strchr_from (length s + 1) s 0x40"

section \<open>Hashes of a password\<close>

definition E_md4hash :: "u8 list \<Rightarrow> (bool \<times> u8 list) conv_call" where
  "E_md4hash passwd = after (ucs2_of passwd) (\<lambda>r. returns
     (case r of None \<Rightarrow> (False, mdfour passwd)
      | Some wpwd \<Rightarrow> if length wpwd < 2 then (False, mdfour passwd) else (True, mdfour (take (length wpwd - 2) wpwd))))"

text \<open>
  The DOS password has 256 bytes; the result of \<open>push_string\<close> is not looked at. Without a NUL in
  them \<open>strlen\<close> reads outside.
\<close>

definition E_deshash :: "(u8 list \<Rightarrow> u8 list option) \<Rightarrow> u8 list \<Rightarrow> (bool \<times> u8 list) conv_call" where
  "E_deshash strupper passwd st =
     (case push_string strupper False passwd 256 (STR_ASCII OR STR_UPPER OR STR_TERMINATE) st of
        None \<Rightarrow> (None, st)
      | Some (None, st1) \<Rightarrow> (None, st1)
      | Some (Some (n, os), st1) \<Rightarrow>
          (let dospwd = os @ replicate (256 - length os) 0
           in (if 0 \<in> set dospwd then Some (length (takeWhile (\<lambda>c. c \<noteq> 0) dospwd) \<le> 14, E_P16 dospwd) else None, st1)))"

definition SMBOWFencrypt :: "u8 list \<Rightarrow> u8 list \<Rightarrow> u8 list" where
  "SMBOWFencrypt passwd c8 = E_P24 (take 16 passwd @ replicate 5 0) c8"

definition SMBencrypt :: "(u8 list \<Rightarrow> u8 list option) \<Rightarrow> u8 list \<Rightarrow> u8 list \<Rightarrow> (bool \<times> u8 list) conv_call" where
  "SMBencrypt strupper passwd c8 = after (E_deshash strupper passwd) (\<lambda>(ret, p16). returns (ret, SMBOWFencrypt p16 c8))"

definition SMBNTencrypt :: "u8 list \<Rightarrow> u8 list \<Rightarrow> u8 list conv_call" where
  "SMBNTencrypt passwd c8 = after (E_md4hash passwd) (\<lambda>(ret, p16). returns (SMBOWFencrypt p16 c8))"

text \<open>\<open>strupper\<close> is \<open>strupper_talloc\<close>; the inner None is False.\<close>

definition ntv2_owf_gen ::
    "(u8 list \<Rightarrow> u8 list option) \<Rightarrow> u8 list \<Rightarrow> u8 list \<Rightarrow> u8 list option \<Rightarrow> u8 list option \<Rightarrow> bool \<Rightarrow> u8 list option conv_call" where
  "ntv2_owf_gen strupper junk owf user_in domain_in upper_case_domain =
     (case strupper (case user_in of None \<Rightarrow> [] | Some u \<Rightarrow> u) of
        None \<Rightarrow> returns None
      | Some user \<Rightarrow>
          (let domain0 = (case domain_in of None \<Rightarrow> [] | Some d \<Rightarrow> d) in
           case (if upper_case_domain then strupper domain0 else Some domain0) of
             None \<Rightarrow> returns None
           | Some domain \<Rightarrow>
               after (ucs2_of user) (\<lambda>u. case u of None \<Rightarrow> returns None | Some ub \<Rightarrow>
               after (ucs2_of domain) (\<lambda>d. case d of None \<Rightarrow> returns None | Some db \<Rightarrow>
                 if length ub < 2 \<or> length db < 2 then (\<lambda>st. (None, st))
                 else returns (Some (hmac_md5_final junk (hmac_md5_update (take (length db - 2) db)
                        (hmac_md5_update (take (length ub - 2) ub) (hmac_md5_init_limK_to_64 junk (take 16 owf))))))))))"

section \<open>Responses and session keys\<close>

definition SMBOWFencrypt_ntv2 :: "u8 list \<Rightarrow> u8 list \<Rightarrow> u8 list \<Rightarrow> u8 list \<Rightarrow> u8 list" where
  "SMBOWFencrypt_ntv2 junk kr srv_chal smbcli_chal =
     hmac_md5_final junk (hmac_md5_update smbcli_chal (hmac_md5_update srv_chal (hmac_md5_init_limK_to_64 junk (take 16 kr))))"

definition SMBsesskeygen_ntv2 :: "u8 list \<Rightarrow> u8 list \<Rightarrow> u8 list \<Rightarrow> u8 list" where
  "SMBsesskeygen_ntv2 junk kr nt_resp = hmac_md5_final junk (hmac_md5_update (take 16 nt_resp) (hmac_md5_init_limK_to_64 junk (take 16 kr)))"

definition SMBsesskeygen_ntv1 :: "u8 list \<Rightarrow> u8 list" where
  "SMBsesskeygen_ntv1 kr = mdfour (take 16 kr)"

definition SMBsesskeygen_lm_sess_key :: "u8 list \<Rightarrow> u8 list \<Rightarrow> u8 list" where
  "SMBsesskeygen_lm_sess_key lm_hash lm_resp =
     (let partial_lm_hash = take 8 lm_hash @ replicate 6 0xBD
      in des_crypt56 lm_resp partial_lm_hash True @ des_crypt56 lm_resp (drop 7 partial_lm_hash) True)"

text \<open>The result of \<open>msrpc_gen\<close> is not looked at: the blob stays empty when it fails.\<close>

definition generated :: "msrpc_arg list \<Rightarrow> u8 list conv_call" where
  "generated args = after (msrpc_gen args) (\<lambda>r. returns (case r of None \<Rightarrow> [] | Some b \<Rightarrow> b))"

definition NTLMv2_generate_names_blob :: "u8 list \<Rightarrow> u8 list \<Rightarrow> u8 list conv_call" where
  "NTLMv2_generate_names_blob hostname domain = generated [Arg_a 2 domain, Arg_a 1 hostname, Arg_a 0 []]"

definition unix_to_nt_time :: "u64 \<Rightarrow> u64" where
  "unix_to_nt_time t = (if t = - 1 then - 1 else if t = 0 then 0 else (t + 11644473600) * (1000 * 1000 * 10))"

definition push_nttime :: "u64 \<Rightarrow> u8 list" where
  "push_nttime t = SIVAL (ucast t) @ SIVAL (ucast (drop_bit 32 t))"

text \<open>The clock and the random bytes are arguments.\<close>

definition NTLMv2_generate_client_data :: "u64 \<Rightarrow> u8 list \<Rightarrow> u8 list \<Rightarrow> u8 list conv_call" where
  "NTLMv2_generate_client_data now client_chal names_blob =
     generated [Arg_d 0x00000101, Arg_d 0, Arg_b (push_nttime (unix_to_nt_time now)), Arg_b client_chal, Arg_d 0, Arg_b names_blob]"

definition NTLMv2_generate_response :: "u8 list \<Rightarrow> u64 \<Rightarrow> u8 list \<Rightarrow> u8 list \<Rightarrow> u8 list \<Rightarrow> u8 list \<Rightarrow> u8 list conv_call" where
  "NTLMv2_generate_response junk now client_chal ntlm_v2_hash server_chal names_blob =
     after (NTLMv2_generate_client_data now client_chal names_blob) (\<lambda>data.
       returns (SMBOWFencrypt_ntv2 junk ntlm_v2_hash server_chal data @ data))"

definition LMv2_generate_response :: "u8 list \<Rightarrow> u8 list \<Rightarrow> u8 list \<Rightarrow> u8 list \<Rightarrow> u8 list" where
  "LMv2_generate_response junk lmv2_client_data ntlm_v2_hash server_chal = SMBOWFencrypt_ntv2 junk ntlm_v2_hash server_chal lmv2_client_data @ lmv2_client_data"

text \<open>
  The four results, each None when its pointer is NULL; a key is stored only together with its
  response. The inner None is False.
\<close>

record ntlmv2_out =
  no_nt_response :: "u8 list option"
  no_user_session_key :: "u8 list option"
  no_lm_response :: "u8 list option"
  no_lm_session_key :: "u8 list option"

record ntlmv2_wanted =
  nw_nt_response :: bool
  nw_user_session_key :: bool
  nw_lm_response :: bool
  nw_lm_session_key :: bool

definition SMBNTLMv2encrypt_hash ::
    "(u8 list \<Rightarrow> u8 list option) \<Rightarrow> u8 list \<Rightarrow> u64 \<Rightarrow> u8 list \<Rightarrow> u8 list \<Rightarrow> ntlmv2_wanted \<Rightarrow> u8 list option \<Rightarrow> u8 list option \<Rightarrow> u8 list \<Rightarrow> u8 list \<Rightarrow> u8 list \<Rightarrow>
       ntlmv2_out option conv_call" where
  "SMBNTLMv2encrypt_hash strupper junk now client_chal lm_chal want user domain nt_hash server_chal names_blob =
     after (ntv2_owf_gen strupper junk nt_hash user domain True) (\<lambda>h. case h of None \<Rightarrow> returns None | Some ntlm_v2_hash \<Rightarrow>
     after (if nw_nt_response want then after (NTLMv2_generate_response junk now client_chal ntlm_v2_hash server_chal names_blob) (\<lambda>nt. returns (Some nt)) else returns None) (\<lambda>nt.
       let lm = (if nw_lm_response want then Some (LMv2_generate_response junk lm_chal ntlm_v2_hash server_chal) else None)
       in returns (Some
            \<lparr>no_nt_response = nt, no_user_session_key = (if nw_user_session_key want then map_option (SMBsesskeygen_ntv2 junk ntlm_v2_hash) nt else None),
             no_lm_response = lm, no_lm_session_key = (if nw_lm_session_key want then map_option (SMBsesskeygen_ntv2 junk ntlm_v2_hash) lm else None)\<rparr>)))"

definition SMBNTLMv2encrypt ::
    "(u8 list \<Rightarrow> u8 list option) \<Rightarrow> u8 list \<Rightarrow> u64 \<Rightarrow> u8 list \<Rightarrow> u8 list \<Rightarrow> ntlmv2_wanted \<Rightarrow> u8 list option \<Rightarrow> u8 list option \<Rightarrow> u8 list \<Rightarrow> u8 list \<Rightarrow> u8 list \<Rightarrow>
       ntlmv2_out option conv_call" where
  "SMBNTLMv2encrypt strupper junk now client_chal lm_chal want user domain password server_chal names_blob =
     after (E_md4hash password) (\<lambda>(ret, nt_hash). SMBNTLMv2encrypt_hash strupper junk now client_chal lm_chal want user domain nt_hash server_chal names_blob)"

section \<open>The check of a response\<close>

text \<open>
  A stored hash that may be missing is an option. The result is the session key when the response
  is right (the inner None when the caller does not want one) and None otherwise.
\<close>

definition smb_pwd_check_ntlmv1 :: "u8 list \<Rightarrow> u8 list option \<Rightarrow> u8 list \<Rightarrow> bool \<Rightarrow> u8 list option option" where
  "smb_pwd_check_ntlmv1 nt_response part_passwd sec_blob want_key =
     (case part_passwd of
        None \<Rightarrow> None
      | Some hash \<Rightarrow>
          if length sec_blob \<noteq> 8 then None
          else if length nt_response \<noteq> 24 then None
          else if SMBOWFencrypt hash sec_blob = nt_response then Some (if want_key then Some (SMBsesskeygen_ntv1 hash) else None)
          else None)"

definition smb_pwd_check_ntlmv2 ::
    "(u8 list \<Rightarrow> u8 list option) \<Rightarrow> u8 list \<Rightarrow> u8 list \<Rightarrow> u8 list option \<Rightarrow> u8 list \<Rightarrow> u8 list option \<Rightarrow> u8 list option \<Rightarrow> bool \<Rightarrow> u8 list option conv_call" where
  "smb_pwd_check_ntlmv2 strupper junk ntv2_response part_passwd sec_blob user domain upper_case_domain =
     (case part_passwd of
        None \<Rightarrow> returns None
      | Some hash \<Rightarrow>
          if length sec_blob \<noteq> 8 then returns None
          else if length ntv2_response < 24 then returns None
          else after (ntv2_owf_gen strupper junk hash user domain upper_case_domain) (\<lambda>h. returns
            (case h of
               None \<Rightarrow> None
             | Some kr \<Rightarrow>
                 (let v = SMBOWFencrypt_ntv2 junk kr sec_blob (drop 16 ntv2_response)
                  in if take 16 v = take 16 ntv2_response then Some (SMBsesskeygen_ntv2 junk kr v) else None))))"

definition smb_sess_key_ntlmv2 ::
    "(u8 list \<Rightarrow> u8 list option) \<Rightarrow> u8 list \<Rightarrow> u8 list \<Rightarrow> u8 list option \<Rightarrow> u8 list \<Rightarrow> u8 list option \<Rightarrow> u8 list option \<Rightarrow> bool \<Rightarrow> u8 list option conv_call" where
  "smb_sess_key_ntlmv2 strupper junk ntv2_response part_passwd sec_blob user domain upper_case_domain =
     (case part_passwd of
        None \<Rightarrow> returns None
      | Some hash \<Rightarrow>
          if length sec_blob \<noteq> 8 then returns None
          else if length ntv2_response < 24 then returns None
          else after (ntv2_owf_gen strupper junk hash user domain upper_case_domain) (\<lambda>h. returns
            (map_option (\<lambda>kr. SMBsesskeygen_ntv2 junk kr (SMBOWFencrypt_ntv2 junk kr sec_blob (drop 16 ntv2_response))) h)))"

text \<open>\<open>lanman\<close> and \<open>ntlm\<close> below are the settings \<open>lp_lanman_auth\<close> and \<open>lp_ntlm_auth\<close>.\<close>

definition hash_password_check ::
    "bool \<Rightarrow> u8 list option \<Rightarrow> u8 list option \<Rightarrow> u8 list \<Rightarrow> u8 list option \<Rightarrow> u8 list option \<Rightarrow> NTSTATUS conv_call" where
  "hash_password_check lanman client_lanman client_nt username stored_lanman stored_nt =
     (case (client_nt, stored_nt) of
        (Some c, Some s) \<Rightarrow> returns (if take 16 c = take 16 s then NT_STATUS_OK else NT_STATUS_WRONG_PASSWORD)
      | _ \<Rightarrow>
          (case (client_lanman, stored_lanman) of
             (Some c, Some s) \<Rightarrow>
               if \<not> lanman then returns NT_STATUS_WRONG_PASSWORD
               else after (has_at username) (\<lambda>at.
                 returns (if at then NT_STATUS_NOT_FOUND else if take 16 c = take 16 s then NT_STATUS_OK else NT_STATUS_WRONG_PASSWORD))
           | _ \<Rightarrow> after (has_at username) (\<lambda>at. returns (if at then NT_STATUS_NOT_FOUND else NT_STATUS_WRONG_PASSWORD))))"

text \<open>
  What a check is given, and its result: the status, the user session key and the LM session key;
  a key that is not set is empty.
\<close>

record ntlm_request =
  nr_logon_parameters :: u32
  nr_challenge :: "u8 list"
  nr_lm_response :: "u8 list"
  nr_nt_response :: "u8 list"
  nr_username :: "u8 list"
  nr_client_username :: "u8 list option"
  nr_client_domain :: "u8 list option"
  nr_stored_lanman :: "u8 list option"
  nr_stored_nt :: "u8 list option"

abbreviation (input) "MSV1_0_CLEARTEXT_PASSWORD_ALLOWED \<equiv> (0x002 :: u32)"

type_synonym check_result = "NTSTATUS \<times> u8 list \<times> u8 list"

definition cleartext_check :: "(u8 list \<Rightarrow> u8 list option) \<Rightarrow> bool \<Rightarrow> ntlm_request \<Rightarrow> check_result conv_call" where
  "cleartext_check strupper lanman r =
     after (if nr_lm_response r = [] then returns None
            else (\<lambda>st. case convert_string_talloc CH_DOS CH_UNIX (Some (nr_lm_response r)) st of
                   (Conv pw, st1) \<Rightarrow>
                     after (E_deshash strupper (takeWhile (\<lambda>c. c \<noteq> 0) pw)) (\<lambda>(ret, hash). returns (if ret then Some hash else None)) st1
                 | (ConvFail, st1) \<Rightarrow> (Some None, st1)
                 | (_, st1) \<Rightarrow> (None, st1))) (\<lambda>client_lm.
     after (hash_password_check lanman client_lm (if nr_nt_response r \<noteq> [] then Some (mdfour (nr_nt_response r)) else None)
              (nr_username r) (nr_stored_lanman r) (nr_stored_nt r)) (\<lambda>status. returns (status, [], [])))"

text \<open>The three ways to name the domain.\<close>

definition domain_forms :: "ntlm_request \<Rightarrow> (u8 list option \<times> bool) list" where
  "domain_forms r = [(nr_client_domain r, False), (nr_client_domain r, True), (Some [], False)]"

fun check_ntlmv2_forms :: "(u8 list \<Rightarrow> u8 list option) \<Rightarrow> u8 list \<Rightarrow> ntlm_request \<Rightarrow> (u8 list option \<times> bool) list \<Rightarrow> u8 list option conv_call" where
  "check_ntlmv2_forms strupper junk r [] = returns None"
| "check_ntlmv2_forms strupper junk r ((domain, upper) # fs) =
     after (smb_pwd_check_ntlmv2 strupper junk (nr_nt_response r) (nr_stored_nt r) (nr_challenge r) (nr_client_username r) domain upper) (\<lambda>k.
       case k of Some key \<Rightarrow> returns (Some key) | None \<Rightarrow> check_ntlmv2_forms strupper junk r fs)"

text \<open>After a right LMv2 response the key of the NTLMv2 response is used when there is one.\<close>

fun check_lmv2_forms :: "(u8 list \<Rightarrow> u8 list option) \<Rightarrow> u8 list \<Rightarrow> ntlm_request \<Rightarrow> (u8 list option \<times> bool) list \<Rightarrow> u8 list option conv_call" where
  "check_lmv2_forms strupper junk r [] = returns None"
| "check_lmv2_forms strupper junk r ((domain, upper) # fs) =
     after (smb_pwd_check_ntlmv2 strupper junk (nr_lm_response r) (nr_stored_nt r) (nr_challenge r) (nr_client_username r) domain upper) (\<lambda>k.
       case k of
         Some key \<Rightarrow>
           if 24 < length (nr_nt_response r)
           then after (smb_sess_key_ntlmv2 strupper junk (nr_nt_response r) (nr_stored_nt r) (nr_challenge r) (nr_client_username r) domain upper)
                  (\<lambda>k2. returns (Some (case k2 of None \<Rightarrow> [] | Some key2 \<Rightarrow> key2)))
           else returns (Some key)
       | None \<Rightarrow> check_lmv2_forms strupper junk r fs)"

definition both_keys :: "u8 list \<Rightarrow> check_result" where
  "both_keys key = (NT_STATUS_OK, key, take 8 key)"

definition lm_keys :: "bool \<Rightarrow> ntlm_request \<Rightarrow> check_result" where
  "lm_keys lanman r =
     (case nr_stored_lanman r of
        Some lm \<Rightarrow> if lanman then (NT_STATUS_OK, take 8 lm @ replicate 8 0, take 8 lm) else (NT_STATUS_OK, [], [])
      | None \<Rightarrow> (NT_STATUS_OK, [], []))"

definition wrong_password :: check_result where
  "wrong_password = (NT_STATUS_WRONG_PASSWORD, [], [])"

text \<open>The second half of the check: what is in the LM field.\<close>

definition check_lm_field :: "(u8 list \<Rightarrow> u8 list option) \<Rightarrow> u8 list \<Rightarrow> bool \<Rightarrow> bool \<Rightarrow> ntlm_request \<Rightarrow> check_result conv_call" where
  "check_lm_field strupper junk lanman ntlm r =
     (if length (nr_lm_response r) < 24 then returns wrong_password
      else
        after (if lanman \<and> nr_stored_lanman r \<noteq> None
               then after (has_at (nr_username r)) (\<lambda>at. returns (\<not> at \<and> smb_pwd_check_ntlmv1 (nr_lm_response r) (nr_stored_lanman r) (nr_challenge r) False \<noteq> None))
               else returns False) (\<lambda>lm_ok.
        if lm_ok then returns (lm_keys lanman r)
        else if nr_stored_nt r = None then returns wrong_password
        else after (check_lmv2_forms strupper junk r (domain_forms r)) (\<lambda>k.
          case k of
            Some key \<Rightarrow> returns (both_keys key)
          | None \<Rightarrow>
              if ntlm \<and> smb_pwd_check_ntlmv1 (nr_lm_response r) (nr_stored_nt r) (nr_challenge r) False \<noteq> None then returns (lm_keys lanman r)
              else after (has_at (nr_username r)) (\<lambda>at. returns (if at then NT_STATUS_NOT_FOUND else NT_STATUS_WRONG_PASSWORD, [], [])))))"

definition ntlm_password_check :: "(u8 list \<Rightarrow> u8 list option) \<Rightarrow> u8 list \<Rightarrow> bool \<Rightarrow> bool \<Rightarrow> ntlm_request \<Rightarrow> check_result conv_call" where
  "ntlm_password_check strupper junk lanman ntlm r =
     (if nr_logon_parameters r AND MSV1_0_CLEARTEXT_PASSWORD_ALLOWED \<noteq> 0 \<and> nr_challenge r = replicate 8 0 then cleartext_check strupper lanman r
      else if 24 < length (nr_nt_response r) \<and> nr_stored_nt r \<noteq> None
      then after (check_ntlmv2_forms strupper junk r (domain_forms r)) (\<lambda>k.
             case k of Some key \<Rightarrow> returns (both_keys key) | None \<Rightarrow> check_lm_field strupper junk lanman ntlm r)
      else if length (nr_nt_response r) = 24 \<and> nr_stored_nt r \<noteq> None \<and> ntlm
      then (case smb_pwd_check_ntlmv1 (nr_nt_response r) (nr_stored_nt r) (nr_challenge r) True of
              Some k \<Rightarrow> returns (NT_STATUS_OK, case k of None \<Rightarrow> [] | Some key \<Rightarrow> key,
                          case nr_stored_lanman r of Some lm \<Rightarrow> if lanman then take 8 lm else [] | None \<Rightarrow> [])
            | None \<Rightarrow> returns wrong_password)
      else check_lm_field strupper junk lanman ntlm r)"

section \<open>Calls one after the other\<close>

lemma after_eq_Some: "after m f st = (Some x, st') \<longleftrightarrow> (\<exists>y st1. m st = (Some y, st1) \<and> f y st1 = (Some x, st'))"
  by (auto simp: after_def split: prod.splits option.splits)

lemma returns_eq_Some [simp]: "returns y st = (Some x, st') \<longleftrightarrow> x = y \<and> st' = st"
  by (auto simp: returns_def)

lemma after_Some: "m st = (Some y, st1) \<Longrightarrow> after m f st = f y st1"
  by (simp add: after_def)

section \<open>The hash of a user in a domain\<close>

definition owf_text :: "u8 list \<Rightarrow> u32 list \<Rightarrow> u32 list \<Rightarrow> u8 list" where
  "owf_text owf ucps dcps = rfc2104 rfc1321_md5 (take 16 owf) (utf16 ucps @ utf16 dcps)"

lemma length_hmac_md5: "length (rfc2104 rfc1321_md5 key m) = 16"
  by (simp add: rfc2104_def Let_def length_md5)

lemma hmac_two:
  assumes "length junk = 64"
  shows "hmac_md5_final junk (hmac_md5_update y (hmac_md5_update x (hmac_md5_init_limK_to_64 junk (take 16 key)))) = rfc2104 rfc1321_md5 (take 16 key) (x @ y)"
    "hmac_md5_final junk (hmac_md5_update x (hmac_md5_init_limK_to_64 junk (take 16 key))) = rfc2104 rfc1321_md5 (take 16 key) x"
  using hmac_session [OF assms, of "[x, y]" "take 64 (take 16 key)"] hmac_session [OF assms, of "[x]" "take 64 (take 16 key)"]
  by (simp_all add: hmac_md5_init_limK_to_64_def min_def)

lemma ucs2_text: "utf8_table st \<Longrightarrow> list_all scalar cps \<Longrightarrow> \<exists>st'. ucs2_of (utf8 cps) st = (Some (Some (utf16 cps @ [0, 0])), st') \<and> utf8_table st'"
  using push_ucs2_text [of st cps] by (auto simp: ucs2_of_def)

lemma owf_gen_text:
  assumes "length junk = 64" "utf8_table st" "strupper user = Some (utf8 ucps)" "list_all scalar ucps"
    and "(if upper then strupper domain else Some domain) = Some (utf8 dcps)" "list_all scalar dcps"
  shows "\<exists>st'. ntv2_owf_gen strupper junk owf (Some user) (Some domain) upper st = (Some (Some (owf_text owf ucps dcps)), st') \<and> utf8_table st'"
proof -
  from ucs2_text [OF assms(2,4)] obtain st1 where u: "ucs2_of (utf8 ucps) st = (Some (Some (utf16 ucps @ [0, 0])), st1)" "utf8_table st1" by blast
  from ucs2_text [OF u(2) assms(6)] obtain st2 where d: "ucs2_of (utf8 dcps) st1 = (Some (Some (utf16 dcps @ [0, 0])), st2)" "utf8_table st2" by blast
  show ?thesis
    using d(2) by (simp add: ntv2_owf_gen_def assms(3,5) Let_def after_def u(1) d(1) returns_def hmac_two [OF assms(1)] owf_text_def)
qed

lemma response_text:
  assumes "length junk = 64"
  shows "SMBOWFencrypt_ntv2 junk kr srv cli = rfc2104 rfc1321_md5 (take 16 kr) (srv @ cli)" "SMBsesskeygen_ntv2 junk kr resp = rfc2104 rfc1321_md5 (take 16 kr) (take 16 resp)"
  by (simp_all add: SMBOWFencrypt_ntv2_def SMBsesskeygen_ntv2_def hmac_two [OF assms])

section \<open>A right response is accepted\<close>

lemma client_data: "\<exists>data. NTLMv2_generate_client_data now chal names st = (Some data, st) \<and> 20 \<le> length data"
  by (simp add: NTLMv2_generate_client_data_def generated_def msrpc_gen_def msrpc_message_def after_def returns_def push_nttime_def)

text \<open>The response and the key of the client.\<close>

lemma client_response:
  assumes "length junk = 64" "utf8_table st" "strupper user = Some (utf8 ucps)" "list_all scalar ucps" "strupper domain = Some (utf8 dcps)" "list_all scalar dcps"
    and "nw_nt_response want" "nw_user_session_key want"
  shows "\<exists>out st' data resp. SMBNTLMv2encrypt_hash strupper junk now chal lm_chal want (Some user) (Some domain) nt_hash srv names st = (Some (Some out), st') \<and>
    resp = rfc2104 rfc1321_md5 (owf_text nt_hash ucps dcps) (srv @ data) \<and> 20 \<le> length data \<and> no_nt_response out = Some (resp @ data) \<and>
    no_user_session_key out = Some (rfc2104 rfc1321_md5 (owf_text nt_hash ucps dcps) resp)"
proof -
  from owf_gen_text [of junk st strupper user ucps True domain dcps nt_hash] assms(1-6) obtain st1 where
    o1: "ntv2_owf_gen strupper junk nt_hash (Some user) (Some domain) True st = (Some (Some (owf_text nt_hash ucps dcps)), st1)" by auto
  from client_data [of now chal names st1] obtain data where d: "NTLMv2_generate_client_data now chal names st1 = (Some data, st1)" "20 \<le> length data" by blast
  have t: "take 16 (owf_text nt_hash ucps dcps) = owf_text nt_hash ucps dcps" by (simp add: owf_text_def length_hmac_md5)
  show ?thesis
    using assms(7,8) d(2)
    by (simp add: SMBNTLMv2encrypt_hash_def NTLMv2_generate_response_def after_def o1 d(1) returns_def response_text [OF assms(1)] t Let_def length_hmac_md5)
qed

lemma check_v2_text:
  assumes "length junk = 64" "utf8_table st" "strupper user = Some (utf8 ucps)" "list_all scalar ucps"
    and "(if upper then strupper domain else Some domain) = Some (utf8 dcps)" "list_all scalar dcps"
    and "length chal = 8" "length resp = 16" "8 \<le> length data"
  shows "\<exists>st'. smb_pwd_check_ntlmv2 strupper junk (resp @ data) (Some h) chal (Some user) (Some domain) upper st =
      (Some (if rfc2104 rfc1321_md5 (owf_text h ucps dcps) (chal @ data) = resp then Some (rfc2104 rfc1321_md5 (owf_text h ucps dcps) resp) else None), st') \<and> utf8_table st'"
proof -
  from owf_gen_text [of junk st strupper user ucps upper domain dcps h] assms(1-6) obtain st1 where
    o1: "ntv2_owf_gen strupper junk h (Some user) (Some domain) upper st = (Some (Some (owf_text h ucps dcps)), st1)" "utf8_table st1" by auto
  have t: "take 16 (owf_text h ucps dcps) = owf_text h ucps dcps" by (simp add: owf_text_def length_hmac_md5)
  have "take 16 (rfc2104 rfc1321_md5 k m) = rfc2104 rfc1321_md5 k m" for k m by (simp add: length_hmac_md5)
  then show ?thesis using assms(7-9) o1 t by (simp add: smb_pwd_check_ntlmv2_def after_def returns_def response_text [OF assms(1)] Let_def)
qed

text \<open>
  C29. The NTLMv2 response that a client computes from a password hash, its user and domain names and
  the challenge is accepted by the check against the same stored hash, whatever is in the LM field
  and whichever older responses are allowed; unless the response for the domain as it was written
  happens to have the same digest, both ends have the same user session key.
\<close>

theorem ntlmv2_response_accepted:
  assumes "length junk1 = 64" "length junk2 = 64" "utf8_table st1" "utf8_table st2"
    and "strupper user = Some (utf8 ucps)" "list_all scalar ucps" "strupper domain = Some (utf8 dcps)" "list_all scalar dcps" "domain = utf8 dcps0" "list_all scalar dcps0"
    and "nw_nt_response want" "nw_user_session_key want"
    and "length (nr_challenge r) = 8" "nr_stored_nt r = Some nt_hash" "nr_client_username r = Some user" "nr_client_domain r = Some domain"
    and "nr_logon_parameters r AND MSV1_0_CLEARTEXT_PASSWORD_ALLOWED = 0"
  shows "\<exists>out st1' nt key. SMBNTLMv2encrypt_hash strupper junk1 now chal lm_chal want (Some user) (Some domain) nt_hash (nr_challenge r) names st1 = (Some (Some out), st1') \<and>
    no_nt_response out = Some nt \<and> no_user_session_key out = Some key \<and>
    (nr_nt_response r = nt \<longrightarrow> (\<exists>ukey st2'. ntlm_password_check strupper junk2 lanman ntlm r st2 = (Some (NT_STATUS_OK, ukey, take 8 ukey), st2') \<and>
       (rfc2104 rfc1321_md5 (owf_text nt_hash ucps dcps0) (nr_challenge r @ drop 16 nt) \<noteq> take 16 nt \<or> dcps0 = dcps \<longrightarrow> ukey = key)))"
proof -
  from client_response [of junk1 st1 strupper user ucps domain dcps want now chal lm_chal nt_hash "nr_challenge r" names] assms(1,3,5-8,11,12)
  obtain out st1' data resp where c: "SMBNTLMv2encrypt_hash strupper junk1 now chal lm_chal want (Some user) (Some domain) nt_hash (nr_challenge r) names st1 = (Some (Some out), st1')"
    "resp = rfc2104 rfc1321_md5 (owf_text nt_hash ucps dcps) (nr_challenge r @ data)" "20 \<le> length data" "no_nt_response out = Some (resp @ data)"
    "no_user_session_key out = Some (rfc2104 rfc1321_md5 (owf_text nt_hash ucps dcps) resp)" by auto
  have lr: "length resp = 16" by (simp add: c(2) length_hmac_md5)
  let ?key = "\<lambda>d. rfc2104 rfc1321_md5 (owf_text nt_hash ucps d) resp" and ?ok = "\<lambda>d. rfc2104 rfc1321_md5 (owf_text nt_hash ucps d) (nr_challenge r @ data) = resp"
  have "\<exists>ukey st2'. ntlm_password_check strupper junk2 lanman ntlm r st2 = (Some (NT_STATUS_OK, ukey, take 8 ukey), st2') \<and> (\<not> ?ok dcps0 \<or> dcps0 = dcps \<longrightarrow> ukey = ?key dcps)"
    if nt: "nr_nt_response r = resp @ data"
  proof -
    from check_v2_text [of junk2 st2 strupper user ucps False domain dcps0 "nr_challenge r" resp data nt_hash] assms c(3) lr obtain st3 where
      f1: "smb_pwd_check_ntlmv2 strupper junk2 (resp @ data) (Some nt_hash) (nr_challenge r) (Some user) (Some domain) False st2 =
        (Some (if ?ok dcps0 then Some (?key dcps0) else None), st3)" "utf8_table st3" by auto
    from check_v2_text [of junk2 st3 strupper user ucps True domain dcps "nr_challenge r" resp data nt_hash] assms c(3) lr f1(2) obtain st4 where
      f2: "smb_pwd_check_ntlmv2 strupper junk2 (resp @ data) (Some nt_hash) (nr_challenge r) (Some user) (Some domain) True st3 =
        (Some (Some (?key dcps)), st4)" using c(2) by auto
    have "check_ntlmv2_forms strupper junk2 r (domain_forms r) st2 = (if ?ok dcps0 then (Some (Some (?key dcps0)), st3) else (Some (Some (?key dcps)), st4))"
      using f1(1) f2 by (simp add: domain_forms_def assms(14-16) nt after_def returns_def)
    then show ?thesis using lr c(3) nt assms(14,17) by (auto simp: ntlm_password_check_def after_def both_keys_def returns_def)
  qed
  then show ?thesis using c lr by auto
qed

section \<open>What is accepted was computed from a stored hash\<close>

text \<open>A response of the newer kind, for one of the forms of the domain; a response of the older kind; a password in clear.\<close>

definition v2_evidence :: "(u8 list \<Rightarrow> u8 list option) \<Rightarrow> u8 list \<Rightarrow> ntlm_request \<Rightarrow> u8 list \<Rightarrow> bool" where
  "v2_evidence strupper junk r resp \<longleftrightarrow>
     (\<exists>h kr domain upper st0 st1. nr_stored_nt r = Some h \<and> (domain, upper) \<in> set (domain_forms r) \<and> length (nr_challenge r) = 8 \<and> 24 \<le> length resp \<and>
        ntv2_owf_gen strupper junk h (nr_client_username r) domain upper st0 = (Some (Some kr), st1) \<and>
        take 16 (SMBOWFencrypt_ntv2 junk kr (nr_challenge r) (drop 16 resp)) = take 16 resp)"

definition v1_evidence :: "u8 list option \<Rightarrow> u8 list \<Rightarrow> u8 list \<Rightarrow> bool" where
  "v1_evidence stored chal resp \<longleftrightarrow> (\<exists>h. stored = Some h \<and> length chal = 8 \<and> length resp = 24 \<and> SMBOWFencrypt h chal = resp)"

text \<open>
  In clear: the NT field hashes to the stored NT hash, or the text of the LM field, converted from
  the DOS to the Unix character set and ended at its first NUL, to the stored LM hash. A conversion
  that fails is no evidence.
\<close>

definition clear_evidence :: "(u8 list \<Rightarrow> u8 list option) \<Rightarrow> bool \<Rightarrow> ntlm_request \<Rightarrow> conv_state \<Rightarrow> bool" where
  "clear_evidence strupper lanman r st \<longleftrightarrow> nr_logon_parameters r AND MSV1_0_CLEARTEXT_PASSWORD_ALLOWED \<noteq> 0 \<and> nr_challenge r = replicate 8 0 \<and>
     ((\<exists>h. nr_stored_nt r = Some h \<and> nr_nt_response r \<noteq> [] \<and> take 16 (mdfour (nr_nt_response r)) = take 16 h) \<or>
      (\<exists>h pw hash st0 st1. lanman \<and> nr_stored_lanman r = Some h \<and> nr_lm_response r \<noteq> [] \<and>
         convert_string_talloc CH_DOS CH_UNIX (Some (nr_lm_response r)) st = (Conv pw, st0) \<and>
         E_deshash strupper (takeWhile (\<lambda>c. c \<noteq> 0) pw) st0 = (Some (True, hash), st1) \<and> take 16 hash = take 16 h))"

lemma v1_accepts: "smb_pwd_check_ntlmv1 resp stored chal want \<noteq> None \<longleftrightarrow> v1_evidence stored chal resp"
  by (auto simp: smb_pwd_check_ntlmv1_def v1_evidence_def split: option.splits)

lemma v1_acceptsD: "smb_pwd_check_ntlmv1 resp stored chal want = Some k \<Longrightarrow> v1_evidence stored chal resp"
  using v1_accepts [of resp stored chal want] by simp

lemma v2_accepts:
  assumes "smb_pwd_check_ntlmv2 strupper junk resp (nr_stored_nt r) (nr_challenge r) (nr_client_username r) domain upper st = (Some (Some key), st')" "(domain, upper) \<in> set (domain_forms r)"
  shows "v2_evidence strupper junk r resp"
proof -
  from assms(1) obtain h where h: "nr_stored_nt r = Some h" "length (nr_challenge r) = 8" "24 \<le> length resp"
    by (auto simp: smb_pwd_check_ntlmv2_def not_less split: option.splits if_splits)
  with assms(1) obtain x st1 where x: "ntv2_owf_gen strupper junk h (nr_client_username r) domain upper st = (Some x, st1)"
    "(case x of None \<Rightarrow> None | Some kr \<Rightarrow> (let v = SMBOWFencrypt_ntv2 junk kr (nr_challenge r) (drop 16 resp)
        in if take 16 v = take 16 resp then Some (SMBsesskeygen_ntv2 junk kr v) else None)) = Some key"
    by (auto simp: smb_pwd_check_ntlmv2_def after_eq_Some)
  from x(2) obtain kr where "x = Some kr" "take 16 (SMBOWFencrypt_ntv2 junk kr (nr_challenge r) (drop 16 resp)) = take 16 resp"
    by (cases x) (auto simp: Let_def split: if_splits)
  then show ?thesis using h x(1) assms(2) unfolding v2_evidence_def by blast
qed

lemma ntlmv2_forms_accept:
  "check_ntlmv2_forms strupper junk r fs st = (Some (Some key), st') \<Longrightarrow> set fs \<subseteq> set (domain_forms r) \<Longrightarrow> v2_evidence strupper junk r (nr_nt_response r)"
proof (induction fs arbitrary: st)
  case (Cons f fs)
  obtain domain upper where f: "f = (domain, upper)" by fastforce
  with Cons.prems(1) obtain k st1 where k: "smb_pwd_check_ntlmv2 strupper junk (nr_nt_response r) (nr_stored_nt r) (nr_challenge r) (nr_client_username r) domain upper st = (Some k, st1)"
    "(case k of Some key \<Rightarrow> returns (Some key) | None \<Rightarrow> check_ntlmv2_forms strupper junk r fs) st1 = (Some (Some key), st')" by (auto simp: after_eq_Some)
  show ?case using k Cons.IH [of st1] Cons.prems(2) f by (cases k) (auto intro: v2_accepts)
qed simp

lemma lmv2_forms_accept:
  "check_lmv2_forms strupper junk r fs st = (Some (Some key), st') \<Longrightarrow> set fs \<subseteq> set (domain_forms r) \<Longrightarrow> v2_evidence strupper junk r (nr_lm_response r)"
proof (induction fs arbitrary: st)
  case (Cons f fs)
  obtain domain upper where f: "f = (domain, upper)" by fastforce
  with Cons.prems(1) obtain k st1 where k: "smb_pwd_check_ntlmv2 strupper junk (nr_lm_response r) (nr_stored_nt r) (nr_challenge r) (nr_client_username r) domain upper st = (Some k, st1)"
    "k = None \<longrightarrow> check_lmv2_forms strupper junk r fs st1 = (Some (Some key), st')" by (auto simp: after_eq_Some split: option.splits)
  show ?case using k Cons.IH [of st1] Cons.prems(2) f by (cases k) (auto intro: v2_accepts)
qed simp

lemma clear_accepts:
  assumes "cleartext_check strupper lanman r st = (Some (NT_STATUS_OK, uk, lk), st')" "nr_logon_parameters r AND MSV1_0_CLEARTEXT_PASSWORD_ALLOWED \<noteq> 0" "nr_challenge r = replicate 8 0"
  shows "clear_evidence strupper lanman r st"
proof -
  let ?nt = "if nr_nt_response r \<noteq> [] then Some (mdfour (nr_nt_response r)) else None"
  let ?lm = "if nr_lm_response r = [] then returns None
    else (\<lambda>st. case convert_string_talloc CH_DOS CH_UNIX (Some (nr_lm_response r)) st of
            (Conv pw, st1) \<Rightarrow> after (E_deshash strupper (takeWhile (\<lambda>c. c \<noteq> 0) pw)) (\<lambda>(ret, hash). returns (if ret then Some hash else None)) st1
          | (ConvFail, st1) \<Rightarrow> (Some None, st1) | (_, st1) \<Rightarrow> (None, st1))"
  from assms(1) obtain lm st1 st2 where lm: "?lm st = (Some lm, st1)"
    and h: "hash_password_check lanman lm ?nt (nr_username r) (nr_stored_lanman r) (nr_stored_nt r) st1 = (Some NT_STATUS_OK, st2)"
    unfolding cleartext_check_def after_eq_Some by auto
  have l: "lm = None \<or> nr_lm_response r \<noteq> [] \<and> (\<exists>pw hash s0 s1. convert_string_talloc CH_DOS CH_UNIX (Some (nr_lm_response r)) st = (Conv pw, s0) \<and>
      E_deshash strupper (takeWhile (\<lambda>c. c \<noteq> 0) pw) s0 = (Some (True, hash), s1) \<and> lm = Some hash)"
    using lm by (auto simp: after_eq_Some split: if_splits prod.splits conv_talloc.splits)
  have "(\<exists>h. nr_stored_nt r = Some h \<and> nr_nt_response r \<noteq> [] \<and> take 16 (mdfour (nr_nt_response r)) = take 16 h) \<or>
      (\<exists>h hash. lanman \<and> nr_stored_lanman r = Some h \<and> lm = Some hash \<and> take 16 hash = take 16 h)"
    using h by (auto simp: hash_password_check_def after_eq_Some split: option.splits if_splits)
  then show ?thesis using l assms(2,3) unfolding clear_evidence_def by fastforce
qed

lemma lm_field_accepts:
  assumes "check_lm_field strupper junk lanman ntlm r st = (Some (NT_STATUS_OK, uk, lk), st')"
  shows "v2_evidence strupper junk r (nr_lm_response r) \<or> ntlm \<and> v1_evidence (nr_stored_nt r) (nr_challenge r) (nr_lm_response r) \<or>
    lanman \<and> v1_evidence (nr_stored_lanman r) (nr_challenge r) (nr_lm_response r)"
proof -
  let ?lm = "if lanman \<and> nr_stored_lanman r \<noteq> None
    then after (has_at (nr_username r)) (\<lambda>at. returns (\<not> at \<and> smb_pwd_check_ntlmv1 (nr_lm_response r) (nr_stored_lanman r) (nr_challenge r) False \<noteq> None))
    else returns False"
  have "24 \<le> length (nr_lm_response r)" using assms by (auto simp: check_lm_field_def wrong_password_def not_less split: if_splits)
  with assms obtain ok st1 where ok: "?lm st = (Some ok, st1)"
    "(if ok then returns (lm_keys lanman r)
      else if nr_stored_nt r = None then returns wrong_password
      else after (check_lmv2_forms strupper junk r (domain_forms r)) (\<lambda>k.
        case k of
          Some key \<Rightarrow> returns (both_keys key)
        | None \<Rightarrow>
            if ntlm \<and> smb_pwd_check_ntlmv1 (nr_lm_response r) (nr_stored_nt r) (nr_challenge r) False \<noteq> None then returns (lm_keys lanman r)
            else after (has_at (nr_username r)) (\<lambda>at. returns (if at then NT_STATUS_NOT_FOUND else NT_STATUS_WRONG_PASSWORD, [], [])))) st1 =
     (Some (NT_STATUS_OK, uk, lk), st')"
    unfolding check_lm_field_def by (auto simp only: after_eq_Some not_less [symmetric] if_False)
  show ?thesis
  proof (cases ok)
    case True
    then show ?thesis using ok(1) by (auto simp: after_eq_Some split: if_splits dest: v1_acceptsD)
  next
    case False
    with ok(2) obtain k st2 where k: "check_lmv2_forms strupper junk r (domain_forms r) st1 = (Some k, st2)"
      "k = None \<longrightarrow> ntlm \<and> smb_pwd_check_ntlmv1 (nr_lm_response r) (nr_stored_nt r) (nr_challenge r) False \<noteq> None"
      by (auto simp: after_eq_Some wrong_password_def split: option.splits if_splits)
    then show ?thesis by (cases k) (auto dest: lmv2_forms_accept v1_acceptsD)
  qed
qed

text \<open>
  C28. Whatever the check accepts was computed from a stored hash and is of a kind the settings allow:
  a response of the newer kind in either field for one of the three forms of the domain, one of the
  older kind to the challenge from the NT hash, one from the LM hash, or a password in clear where
  the caller allows it and the challenge is zero. Without stored hashes nothing is accepted.
\<close>

theorem accepted_from_stored_hash:
  assumes "ntlm_password_check strupper junk lanman ntlm r st = (Some (NT_STATUS_OK, uk, lk), st')"
  shows "(clear_evidence strupper lanman r st \<or> v2_evidence strupper junk r (nr_nt_response r) \<or> v2_evidence strupper junk r (nr_lm_response r) \<or>
      ntlm \<and> v1_evidence (nr_stored_nt r) (nr_challenge r) (nr_nt_response r) \<or> ntlm \<and> v1_evidence (nr_stored_nt r) (nr_challenge r) (nr_lm_response r) \<or>
      lanman \<and> v1_evidence (nr_stored_lanman r) (nr_challenge r) (nr_lm_response r)) \<and>
    (nr_stored_nt r \<noteq> None \<or> lanman \<and> nr_stored_lanman r \<noteq> None)"
proof -
  let ?E = "clear_evidence strupper lanman r st \<or> v2_evidence strupper junk r (nr_nt_response r) \<or> v2_evidence strupper junk r (nr_lm_response r) \<or>
      ntlm \<and> v1_evidence (nr_stored_nt r) (nr_challenge r) (nr_nt_response r) \<or> ntlm \<and> v1_evidence (nr_stored_nt r) (nr_challenge r) (nr_lm_response r) \<or>
      lanman \<and> v1_evidence (nr_stored_lanman r) (nr_challenge r) (nr_lm_response r)"
  consider (clear) "nr_logon_parameters r AND MSV1_0_CLEARTEXT_PASSWORD_ALLOWED \<noteq> 0" "nr_challenge r = replicate 8 0" "cleartext_check strupper lanman r st = (Some (NT_STATUS_OK, uk, lk), st')"
    | (v2) key st1 where "check_ntlmv2_forms strupper junk r (domain_forms r) st = (Some (Some key), st1)"
    | (v1) "ntlm" "smb_pwd_check_ntlmv1 (nr_nt_response r) (nr_stored_nt r) (nr_challenge r) True \<noteq> None"
    | (lm) st1 where "check_lm_field strupper junk lanman ntlm r st1 = (Some (NT_STATUS_OK, uk, lk), st')"
    using assms unfolding ntlm_password_check_def
    by (auto simp: after_eq_Some wrong_password_def split: if_splits option.splits)
  then have "?E"
  proof cases
    case clear
    then show ?thesis using clear_accepts by blast
  next
    case v2
    then show ?thesis using ntlmv2_forms_accept by blast
  next
    case v1
    then show ?thesis using v1_accepts by blast
  next
    case lm
    then show ?thesis using lm_field_accepts by blast
  qed
  moreover have "?E \<Longrightarrow> nr_stored_nt r \<noteq> None \<or> lanman \<and> nr_stored_lanman r \<noteq> None"
    by (auto simp: clear_evidence_def v2_evidence_def v1_evidence_def)
  ultimately show ?thesis by blast
qed

section \<open>Two logons\<close>

definition sample_request :: "u8 list \<Rightarrow> ntlm_request" where
  "sample_request nt = \<lparr>nr_logon_parameters = 0, nr_challenge = [1, 2, 3, 4, 5, 6, 7, 8], nr_lm_response = [], nr_nt_response = nt,
     nr_username = [0x41], nr_client_username = Some [0x41], nr_client_domain = Some [0x42], nr_stored_lanman = None, nr_stored_nt = Some (replicate 16 9)\<rparr>"

definition sample_wanted :: ntlmv2_wanted where
  "sample_wanted = \<lparr>nw_nt_response = True, nw_user_session_key = True, nw_lm_response = False, nw_lm_session_key = False\<rparr>"

theorem ntlmv2_response_accepted_witness:
  "\<exists>out st1 nt key st2.
     SMBNTLMv2encrypt_hash Some (replicate 64 0) 1000 (replicate 8 3) (replicate 8 4) sample_wanted (Some [0x41]) (Some [0x42]) (replicate 16 9) [1, 2, 3, 4, 5, 6, 7, 8] [] utf8_state =
       (Some (Some out), st1) \<and> no_nt_response out = Some nt \<and> no_user_session_key out = Some key \<and>
     ntlm_password_check Some (replicate 64 5) False False (sample_request nt) utf8_state = (Some (NT_STATUS_OK, key, take 8 key), st2)"
proof -
  have u: "utf8 [0x41] = [0x41]" "utf8 [0x42] = [0x42]" "list_all scalar [0x41]" "list_all scalar [0x42]" by (code_simp, code_simp, simp_all add: scalar_def)
  have t: "utf8_table utf8_state" using utf8_state_inv by (simp add: utf8_table_def utf8_state_def)
  have r: "length (nr_challenge (sample_request nt)) = 8" "nr_stored_nt (sample_request nt) = Some (replicate 16 9)" "nr_client_username (sample_request nt) = Some [0x41]"
    "nr_client_domain (sample_request nt) = Some [0x42]" "nr_logon_parameters (sample_request nt) AND MSV1_0_CLEARTEXT_PASSWORD_ALLOWED = 0"
    "nr_challenge (sample_request nt) = [1, 2, 3, 4, 5, 6, 7, 8]" "nr_nt_response (sample_request nt) = nt" for nt by (simp_all add: sample_request_def)
  have w: "nw_nt_response sample_wanted" "nw_user_session_key sample_wanted" by (simp_all add: sample_wanted_def)
  have th1: "\<exists>out st1' n key. SMBNTLMv2encrypt_hash Some (replicate 64 0) 1000 (replicate 8 3) (replicate 8 4) sample_wanted (Some [0x41]) (Some [0x42]) (replicate 16 9) [1, 2, 3, 4, 5, 6, 7, 8] [] utf8_state =
       (Some (Some out), st1') \<and> no_nt_response out = Some n \<and> no_user_session_key out = Some key \<and>
       (nt = n \<longrightarrow> (\<exists>st2'. ntlm_password_check Some (replicate 64 5) False False (sample_request nt) utf8_state = (Some (NT_STATUS_OK, key, take 8 key), st2')))" for nt
  proof -
    have l: "length (replicate 64 (0 :: u8)) = 64" "length (replicate 64 (5 :: u8)) = 64" by simp_all
    have su: "Some [0x41] = Some (utf8 [0x41])" "Some [0x42] = Some (utf8 [0x42])" by (simp_all only: u)
    note th = ntlmv2_response_accepted [OF l t t su(1) u(3) su(2) u(4) u(2) [symmetric] u(4) w r(1-5) [of nt],
        of 1000 "replicate 8 3" "replicate 8 4" "[]" False False, unfolded r(6,7)]
    then show ?thesis by blast
  qed
  from th1 [of "[]"] obtain out st1 n key where
    c: "SMBNTLMv2encrypt_hash Some (replicate 64 0) 1000 (replicate 8 3) (replicate 8 4) sample_wanted (Some [0x41]) (Some [0x42]) (replicate 16 9) [1, 2, 3, 4, 5, 6, 7, 8] [] utf8_state = (Some (Some out), st1)"
      "no_nt_response out = Some n" "no_user_session_key out = Some key" by blast
  from th1 [of n] c show ?thesis by auto
qed

theorem accepted_from_stored_hash_witness:
  "\<exists>nt uk lk. ntlm_password_check Some (replicate 64 0) False True (sample_request nt) utf8_state = (Some (NT_STATUS_OK, uk, lk), utf8_state) \<and>
     nr_stored_nt (sample_request nt) \<noteq> None"
proof -
  let ?nt = "SMBOWFencrypt (replicate 16 9) [1, 2, 3, 4, 5, 6, 7, 8]"
  have "length ?nt = 24" by (simp add: SMBOWFencrypt_def E_P24_def des_block_inverse(2))
  then have c: "ntlm_password_check Some (replicate 64 0) False True (sample_request ?nt) utf8_state = (Some (NT_STATUS_OK, SMBsesskeygen_ntv1 (replicate 16 9), []), utf8_state)"
    by (simp add: ntlm_password_check_def sample_request_def smb_pwd_check_ntlmv1_def)
  from accepted_from_stored_hash [OF c] c show ?thesis by auto
qed

end
