(* ===== verification/NtlmsspSign.thy ===== *)
theory NtlmsspSign
  imports Md5Props Arcfour Crc32 NtError
begin

text \<open>
  Signing and sealing of packets with NTLMSSP, \<open>auth/ntlmssp/ntlmssp_sign.c\<close>, with the key weakening
  and the features of \<open>auth/ntlmssp/ntlmssp.c\<close>. After both ends have started with the same session key
  and flags every packet of a conversation is accepted and its data comes back.
\<close>

section \<open>The state\<close>

text \<open>
  The fields that these functions use. The two members of the union \<open>crypt\<close> are kept apart: which one is used depends on the negotiated
  flags alone, which nothing here changes. A pointer to a cipher state that has not been set is None.
\<close>

datatype ntlmssp_role = NTLMSSP_SERVER | NTLMSSP_CLIENT

record ntlmssp_crypt_ntlm =
  n1_seq_num :: u32
  n1_arcfour_state :: "arcfour_state option"

record ntlmssp_crypt_ntlm2 =
  n2_send_seq_num :: u32
  n2_recv_seq_num :: u32
  n2_send_sign_key :: "u8 list"
  n2_recv_sign_key :: "u8 list"
  n2_send_seal :: "arcfour_state option"
  n2_recv_seal :: "arcfour_state option"

record gensec_ntlmssp_state =
  gs_role :: ntlmssp_role
  gs_neg_flags :: u32
  gs_session_key :: "u8 list"
  gs_ntlm :: ntlmssp_crypt_ntlm
  gs_ntlm2 :: ntlmssp_crypt_ntlm2

abbreviation (input) "NTLMSSP_NEGOTIATE_SIGN \<equiv> (0x00000010 :: u32)"
abbreviation (input) "NTLMSSP_NEGOTIATE_SEAL \<equiv> (0x00000020 :: u32)"
abbreviation (input) "NTLMSSP_NEGOTIATE_LM_KEY \<equiv> (0x00000080 :: u32)"
abbreviation (input) "NTLMSSP_NEGOTIATE_NTLM2 \<equiv> (0x00080000 :: u32)"
abbreviation (input) "NTLMSSP_NEGOTIATE_128 \<equiv> (0x20000000 :: u32)"
abbreviation (input) "NTLMSSP_NEGOTIATE_KEY_EXCH \<equiv> (0x40000000 :: u32)"
abbreviation (input) "NTLMSSP_NEGOTIATE_56 \<equiv> (0x80000000 :: u32)"
abbreviation (input) "NTLMSSP_SIGN_VERSION \<equiv> (1 :: u32)"
abbreviation (input) "NTLMSSP_SIG_SIZE \<equiv> (16 :: nat)"
abbreviation (input) "NT_STATUS_NO_USER_SESSION_KEY \<equiv> (0xC0000202 :: NTSTATUS)"

definition has_flag :: "gensec_ntlmssp_state \<Rightarrow> u32 \<Rightarrow> bool" where
  "has_flag st flag \<longleftrightarrow> gs_neg_flags st AND flag \<noteq> 0"

section \<open>Features and keys\<close>

abbreviation (input) "GENSEC_FEATURE_SESSION_KEY \<equiv> (0x00000001 :: u32)"
abbreviation (input) "GENSEC_FEATURE_SIGN \<equiv> (0x00000002 :: u32)"
abbreviation (input) "GENSEC_FEATURE_SEAL \<equiv> (0x00000004 :: u32)"
abbreviation (input) "GENSEC_FEATURE_DCE_STYLE \<equiv> (0x00000008 :: u32)"
abbreviation (input) "GENSEC_FEATURE_ASYNC_REPLIES \<equiv> (0x00000010 :: u32)"

definition gensec_ntlmssp_have_feature :: "gensec_ntlmssp_state \<Rightarrow> u32 \<Rightarrow> bool" where
  "gensec_ntlmssp_have_feature st feature =
     (if feature AND GENSEC_FEATURE_SIGN \<noteq> 0 \<and> gs_session_key st = [] then False
      else if feature AND GENSEC_FEATURE_SIGN \<noteq> 0 \<and> has_flag st NTLMSSP_NEGOTIATE_SIGN then True
      else if feature AND GENSEC_FEATURE_SEAL \<noteq> 0 \<and> gs_session_key st = [] then False
      else if feature AND GENSEC_FEATURE_SEAL \<noteq> 0 \<and> has_flag st NTLMSSP_NEGOTIATE_SEAL then True
      else if feature AND GENSEC_FEATURE_SESSION_KEY \<noteq> 0 \<and> gs_session_key st \<noteq> [] then True
      else if feature AND GENSEC_FEATURE_DCE_STYLE \<noteq> 0 then True
      else feature AND GENSEC_FEATURE_ASYNC_REPLIES \<noteq> 0 \<and> has_flag st NTLMSSP_NEGOTIATE_NTLM2)"

definition ntlmssp_weakend_key :: "gensec_ntlmssp_state \<Rightarrow> u8 list" where
  "ntlmssp_weakend_key st =
     (let key = gs_session_key st in
      if length key < 16 then key
      else if has_flag st NTLMSSP_NEGOTIATE_LM_KEY
      then if has_flag st NTLMSSP_NEGOTIATE_56 then take 8 (key[7 := 0xA0]) else take 8 (key[5 := 0xE5, 6 := 0x38, 7 := 0xB0])
      else key)"

text \<open>A C string with its NUL.\<close>

definition text_bytes :: "string \<Rightarrow> u8 list" where
  "text_bytes s = map of_char s @ [0]"

definition CLI_SIGN :: string where "CLI_SIGN = ''session key to client-to-server signing key magic constant''"
definition CLI_SEAL :: string where "CLI_SEAL = ''session key to client-to-server sealing key magic constant''"
definition SRV_SIGN :: string where "SRV_SIGN = ''session key to server-to-client signing key magic constant''"
definition SRV_SEAL :: string where "SRV_SEAL = ''session key to server-to-client sealing key magic constant''"

definition calc_ntlmv2_key :: "u8 list \<Rightarrow> u8 list \<Rightarrow> string \<Rightarrow> u8 list" where
  "calc_ntlmv2_key junk session_key constant =
     fst (MD5Final (MD5Update (text_bytes constant) (MD5Update session_key (MD5Init junk))))"

text \<open>\<open>junk\<close> is what the memory of the digests holds before.\<close>

definition ntlmssp_sign_init :: "u8 list \<Rightarrow> gensec_ntlmssp_state \<Rightarrow> NTSTATUS \<times> gensec_ntlmssp_state" where
  "ntlmssp_sign_init junk st =
     (if length (gs_session_key st) < 8 then (NT_STATUS_NO_USER_SESSION_KEY, st)
      else if has_flag st NTLMSSP_NEGOTIATE_NTLM2
      then
        (let key = gs_session_key st;
             (send_sign, send_seal, recv_sign, recv_seal) =
               (case gs_role st of NTLMSSP_CLIENT \<Rightarrow> (CLI_SIGN, CLI_SEAL, SRV_SIGN, SRV_SEAL) | NTLMSSP_SERVER \<Rightarrow> (SRV_SIGN, SRV_SEAL, CLI_SIGN, CLI_SEAL));
             weak = (if has_flag st NTLMSSP_NEGOTIATE_128 then key else if has_flag st NTLMSSP_NEGOTIATE_56 then take 7 key else take 5 key)
         in (NT_STATUS_OK, st\<lparr>gs_ntlm2 :=
              \<lparr>n2_send_seq_num = 0, n2_recv_seq_num = 0,
               n2_send_sign_key = calc_ntlmv2_key junk key send_sign, n2_recv_sign_key = calc_ntlmv2_key junk key recv_sign,
               n2_send_seal = arcfour_init (calc_ntlmv2_key junk weak send_seal), n2_recv_seal = arcfour_init (calc_ntlmv2_key junk weak recv_seal)\<rparr>\<rparr>))
      else (NT_STATUS_OK, st\<lparr>gs_ntlm := \<lparr>n1_seq_num = 0, n1_arcfour_state = arcfour_init (ntlmssp_weakend_key st)\<rparr>\<rparr>))"

section \<open>Signatures\<close>

datatype ntlmssp_direction = NTLMSSP_SEND | NTLMSSP_RECEIVE

text \<open>
  The result is the signature and the state; None is a cipher state that is not there. The format
  \<open>dddd\<close> of \<open>msrpc_gen\<close> is four words one after the other.
\<close>

definition crypt_opt :: "arcfour_state option \<Rightarrow> u8 list \<Rightarrow> (u8 list \<times> arcfour_state option) option" where
  "crypt_opt a data = map_option (\<lambda>s. case arcfour_crypt_sbox s data of (d, s1) \<Rightarrow> (d, Some s1)) a"

definition ntlm2_signature ::
    "u8 list \<Rightarrow> u8 list \<Rightarrow> ntlmssp_direction \<Rightarrow> bool \<Rightarrow> gensec_ntlmssp_state \<Rightarrow> (u8 list \<times> gensec_ntlmssp_state) option" where
  "ntlm2_signature junk whole_pdu direction encrypt_sig st =
     (let c = gs_ntlm2 st;
          (seq_num, key, c1) = (case direction of
             NTLMSSP_SEND \<Rightarrow> (SIVAL (n2_send_seq_num c), n2_send_sign_key c, c\<lparr>n2_send_seq_num := n2_send_seq_num c + 1\<rparr>)
           | NTLMSSP_RECEIVE \<Rightarrow> (SIVAL (n2_recv_seq_num c), n2_recv_sign_key c, c\<lparr>n2_recv_seq_num := n2_recv_seq_num c + 1\<rparr>));
          digest = hmac_md5_final junk (hmac_md5_update whole_pdu (hmac_md5_update seq_num (hmac_md5_init_limK_to_64 junk key)))
      in if encrypt_sig \<and> has_flag st NTLMSSP_NEGOTIATE_KEY_EXCH
         then (case direction of
                 NTLMSSP_SEND \<Rightarrow> map_option (\<lambda>(d, a). (SIVAL NTLMSSP_SIGN_VERSION @ d @ seq_num, st\<lparr>gs_ntlm2 := c1\<lparr>n2_send_seal := a\<rparr>\<rparr>)) (crypt_opt (n2_send_seal c1) (take 8 digest))
               | NTLMSSP_RECEIVE \<Rightarrow> map_option (\<lambda>(d, a). (SIVAL NTLMSSP_SIGN_VERSION @ d @ seq_num, st\<lparr>gs_ntlm2 := c1\<lparr>n2_recv_seal := a\<rparr>\<rparr>)) (crypt_opt (n2_recv_seal c1) (take 8 digest)))
         else Some (SIVAL NTLMSSP_SIGN_VERSION @ take 8 digest @ seq_num, st\<lparr>gs_ntlm2 := c1\<rparr>))"

definition ntlm1_words :: "u8 list \<Rightarrow> u32 \<Rightarrow> u8 list" where
  "ntlm1_words data seq = SIVAL NTLMSSP_SIGN_VERSION @ SIVAL 0 @ SIVAL (crc32_calc_buffer data) @ SIVAL seq"

definition ntlm1_signature :: "u8 list \<Rightarrow> gensec_ntlmssp_state \<Rightarrow> (u8 list \<times> gensec_ntlmssp_state) option" where
  "ntlm1_signature data st =
     (let c = gs_ntlm st; sig = ntlm1_words data (n1_seq_num c)
      in map_option (\<lambda>(d, a). (take 4 sig @ d, st\<lparr>gs_ntlm := \<lparr>n1_seq_num = n1_seq_num c + 1, n1_arcfour_state = a\<rparr>\<rparr>)) (crypt_opt (n1_arcfour_state c) (drop 4 sig)))"

definition ntlmssp_make_packet_signature ::
    "u8 list \<Rightarrow> u8 list \<Rightarrow> u8 list \<Rightarrow> ntlmssp_direction \<Rightarrow> bool \<Rightarrow> gensec_ntlmssp_state \<Rightarrow> (u8 list \<times> gensec_ntlmssp_state) option" where
  "ntlmssp_make_packet_signature junk data whole_pdu direction encrypt_sig st =
     (if has_flag st NTLMSSP_NEGOTIATE_NTLM2 then ntlm2_signature junk whole_pdu direction encrypt_sig st else ntlm1_signature data st)"

section \<open>Packets\<close>

text \<open>
  The data that is signed or sealed lies inside the whole packet, between \<open>pre\<close> and \<open>post\<close>, so that
  sealing it in place changes the packet too. A result is the status with what the call has
  written and the state.
\<close>

definition gensec_ntlmssp_sign_packet ::
    "u8 list \<Rightarrow> u8 list \<Rightarrow> u8 list \<Rightarrow> u8 list \<Rightarrow> gensec_ntlmssp_state \<Rightarrow> (u8 list \<times> gensec_ntlmssp_state) option" where
  "gensec_ntlmssp_sign_packet junk pre data post st = ntlmssp_make_packet_signature junk data (pre @ data @ post) NTLMSSP_SEND True st"

definition gensec_ntlmssp_check_packet ::
    "u8 list \<Rightarrow> u8 list \<Rightarrow> u8 list \<Rightarrow> u8 list \<Rightarrow> u8 list \<Rightarrow> gensec_ntlmssp_state \<Rightarrow> (NTSTATUS \<times> gensec_ntlmssp_state) option" where
  "gensec_ntlmssp_check_packet junk pre data post sig st =
     (if gs_session_key st = [] then Some (NT_STATUS_NO_USER_SESSION_KEY, st)
      else case ntlmssp_make_packet_signature junk data (pre @ data @ post) NTLMSSP_RECEIVE True st of
        None \<Rightarrow> None
      | Some (local_sig, st1) \<Rightarrow>
          if has_flag st NTLMSSP_NEGOTIATE_NTLM2
          then Some (if length local_sig \<noteq> length sig \<or> local_sig \<noteq> sig then NT_STATUS_ACCESS_DENIED else NT_STATUS_OK, st1)
          else Some (if length local_sig \<noteq> length sig \<or> drop 8 local_sig \<noteq> drop 8 sig then NT_STATUS_ACCESS_DENIED else NT_STATUS_OK, st1))"

definition gensec_ntlmssp_seal_packet ::
    "u8 list \<Rightarrow> u8 list \<Rightarrow> u8 list \<Rightarrow> u8 list \<Rightarrow> gensec_ntlmssp_state \<Rightarrow> (NTSTATUS \<times> u8 list \<times> u8 list \<times> gensec_ntlmssp_state) option" where
  "gensec_ntlmssp_seal_packet junk pre data post st =
     (if gs_session_key st = [] then Some (NT_STATUS_NO_USER_SESSION_KEY, data, [], st)
      else if has_flag st NTLMSSP_NEGOTIATE_NTLM2
      then (case ntlmssp_make_packet_signature junk data (pre @ data @ post) NTLMSSP_SEND False st of
              None \<Rightarrow> None
            | Some (sig, st1) \<Rightarrow>
                (case crypt_opt (n2_send_seal (gs_ntlm2 st1)) data of
                   None \<Rightarrow> None
                 | Some (data1, a1) \<Rightarrow>
                     if has_flag st NTLMSSP_NEGOTIATE_KEY_EXCH
                     then (case crypt_opt a1 (take 8 (drop 4 sig)) of
                             None \<Rightarrow> None
                           | Some (d, a2) \<Rightarrow> Some (NT_STATUS_OK, data1, take 4 sig @ d @ drop 12 sig, st1\<lparr>gs_ntlm2 := (gs_ntlm2 st1)\<lparr>n2_send_seal := a2\<rparr>\<rparr>))
                     else Some (NT_STATUS_OK, data1, sig, st1\<lparr>gs_ntlm2 := (gs_ntlm2 st1)\<lparr>n2_send_seal := a1\<rparr>\<rparr>)))
      else (let c = gs_ntlm st; sig = ntlm1_words data (n1_seq_num c) in
            case crypt_opt (n1_arcfour_state c) data of
              None \<Rightarrow> None
            | Some (data1, a1) \<Rightarrow>
                (case crypt_opt a1 (drop 4 sig) of
                   None \<Rightarrow> None
                 | Some (d, a2) \<Rightarrow> Some (NT_STATUS_OK, data1, take 4 sig @ d, st\<lparr>gs_ntlm := \<lparr>n1_seq_num = n1_seq_num c + 1, n1_arcfour_state = a2\<rparr>\<rparr>))))"

definition gensec_ntlmssp_unseal_packet ::
    "u8 list \<Rightarrow> u8 list \<Rightarrow> u8 list \<Rightarrow> u8 list \<Rightarrow> u8 list \<Rightarrow> gensec_ntlmssp_state \<Rightarrow> (NTSTATUS \<times> u8 list \<times> gensec_ntlmssp_state) option" where
  "gensec_ntlmssp_unseal_packet junk pre data post sig st =
     (if gs_session_key st = [] then Some (NT_STATUS_NO_USER_SESSION_KEY, data, st)
      else if has_flag st NTLMSSP_NEGOTIATE_NTLM2
      then (case crypt_opt (n2_recv_seal (gs_ntlm2 st)) data of
              None \<Rightarrow> None
            | Some (data1, a) \<Rightarrow>
                map_option (\<lambda>(status, st1). (status, data1, st1))
                  (gensec_ntlmssp_check_packet junk pre data1 post sig (st\<lparr>gs_ntlm2 := (gs_ntlm2 st)\<lparr>n2_recv_seal := a\<rparr>\<rparr>)))
      else (case crypt_opt (n1_arcfour_state (gs_ntlm st)) data of
              None \<Rightarrow> None
            | Some (data1, a) \<Rightarrow>
                map_option (\<lambda>(status, st1). (status, data1, st1))
                  (gensec_ntlmssp_check_packet junk pre data1 post sig (st\<lparr>gs_ntlm := (gs_ntlm st)\<lparr>n1_arcfour_state := a\<rparr>\<rparr>))))"

text \<open>Data with the signature in front of it.\<close>

definition gensec_ntlmssp_wrap :: "u8 list \<Rightarrow> u8 list \<Rightarrow> gensec_ntlmssp_state \<Rightarrow> (NTSTATUS \<times> u8 list \<times> gensec_ntlmssp_state) option" where
  "gensec_ntlmssp_wrap junk inp st =
     (if gensec_ntlmssp_have_feature st GENSEC_FEATURE_SEAL
      then map_option (\<lambda>(status, data, sig, st1). (status, if NT_STATUS_IS_OK status then take NTLMSSP_SIG_SIZE sig @ data else take NTLMSSP_SIG_SIZE junk @ data, st1))
             (gensec_ntlmssp_seal_packet junk [] inp [] st)
      else if gensec_ntlmssp_have_feature st GENSEC_FEATURE_SIGN
      then map_option (\<lambda>(sig, st1). (NT_STATUS_OK, take NTLMSSP_SIG_SIZE sig @ inp, st1)) (gensec_ntlmssp_sign_packet junk [] inp [] st)
      else Some (NT_STATUS_OK, inp, st))"

definition gensec_ntlmssp_unwrap :: "u8 list \<Rightarrow> u8 list \<Rightarrow> gensec_ntlmssp_state \<Rightarrow> (NTSTATUS \<times> u8 list \<times> gensec_ntlmssp_state) option" where
  "gensec_ntlmssp_unwrap junk inp st =
     (if gensec_ntlmssp_have_feature st GENSEC_FEATURE_SEAL
      then if length inp < NTLMSSP_SIG_SIZE then Some (NT_STATUS_INVALID_PARAMETER, [], st)
           else gensec_ntlmssp_unseal_packet junk [] (drop NTLMSSP_SIG_SIZE inp) [] (take NTLMSSP_SIG_SIZE inp) st
      else if gensec_ntlmssp_have_feature st GENSEC_FEATURE_SIGN
      then if length inp < NTLMSSP_SIG_SIZE then Some (NT_STATUS_INVALID_PARAMETER, [], st)
           else map_option (\<lambda>(status, st1). (status, drop NTLMSSP_SIG_SIZE inp, st1))
                  (gensec_ntlmssp_check_packet junk [] (drop NTLMSSP_SIG_SIZE inp) [] (take NTLMSSP_SIG_SIZE inp) st)
      else Some (NT_STATUS_OK, inp, st))"

section \<open>The cipher at both ends\<close>

lemma crypt_state: "length x = length y \<Longrightarrow> snd (arcfour_crypt_sbox s x) = snd (arcfour_crypt_sbox s y)"
proof (induction x y arbitrary: s rule: list_induct2)
  case (Cons a x b y)
  have "snd (af_crypt_byte s a) = snd (af_crypt_byte s b)" using crypt_byte_stream [of s a] crypt_byte_stream [of s b] by simp
  then show ?case using Cons.IH [of "snd (af_crypt_byte s a)"] by (simp add: case_prod_beta)
qed simp

lemma crypt_back:
  "\<exists>d s1. arcfour_crypt_sbox s data = (d, s1) \<and> arcfour_crypt_sbox s d = (data, s1) \<and> length d = length data"
proof -
  let ?d = "fst (arcfour_crypt_sbox s data)"
  have l: "length ?d = length data" by (simp add: crypt_stream length_key_stream)
  have "fst (arcfour_crypt_sbox s ?d) = data"
    using xor_twice [of data "key_stream s (length data)"] by (simp add: crypt_stream length_key_stream)
  then show ?thesis using crypt_state [OF l, of s] l by (metis prod.collapse)
qed

lemma crypt_opt_back:
  "a \<noteq> None \<Longrightarrow> \<exists>d s1. crypt_opt a data = Some (d, Some s1) \<and> crypt_opt a d = Some (data, Some s1) \<and> length d = length data"
  using crypt_back [of "the a" data] by (auto simp: crypt_opt_def)

section \<open>The digests at both ends\<close>

lemma signature_digest:
  assumes "length junk = 64"
  shows "hmac_md5_final junk (hmac_md5_update pdu (hmac_md5_update seq (hmac_md5_init_limK_to_64 junk key))) = rfc2104 rfc1321_md5 (take 64 key) (seq @ pdu)"
  using hmac_session [OF assms, of "[seq, pdu]" "take 64 key"] by (simp add: hmac_md5_init_limK_to_64_def)

lemma calc_key: "length junk = 64 \<Longrightarrow> calc_ntlmv2_key junk key constant = rfc1321_md5 (key @ text_bytes constant)"
  using md5_of_rfc [of junk "[key, text_bytes constant]"] by (simp add: md5_of_def calc_ntlmv2_key_def)

lemma length_rfc2104: "length (rfc2104 rfc1321_md5 key m) = 16"
  by (simp add: rfc2104_def Let_def length_md5)

section \<open>Both ends in step\<close>

text \<open>What one end sends is what the other expects.\<close>

definition sends_to :: "gensec_ntlmssp_state \<Rightarrow> gensec_ntlmssp_state \<Rightarrow> bool" where
  "sends_to a b \<longleftrightarrow> gs_neg_flags a = gs_neg_flags b \<and> gs_session_key a = gs_session_key b \<and> gs_session_key a \<noteq> [] \<and>
     (if has_flag a NTLMSSP_NEGOTIATE_NTLM2
      then n2_send_seq_num (gs_ntlm2 a) = n2_recv_seq_num (gs_ntlm2 b) \<and> n2_send_sign_key (gs_ntlm2 a) = n2_recv_sign_key (gs_ntlm2 b) \<and>
           n2_send_seal (gs_ntlm2 a) = n2_recv_seal (gs_ntlm2 b) \<and> n2_recv_seal (gs_ntlm2 b) \<noteq> None
      else gs_ntlm a = gs_ntlm b \<and> n1_arcfour_state (gs_ntlm b) \<noteq> None)"

definition in_session :: "gensec_ntlmssp_state \<Rightarrow> gensec_ntlmssp_state \<Rightarrow> bool" where
  "in_session a b \<longleftrightarrow> sends_to a b \<and> sends_to b a"

lemma in_session_sym: "in_session a b \<Longrightarrow> in_session b a"
  by (simp add: in_session_def)

lemma has_flag_same: "gs_neg_flags a = gs_neg_flags b \<Longrightarrow> has_flag a f = has_flag b f"
  by (simp add: has_flag_def)

text \<open>A session starts in step.\<close>

lemma sign_init_in_session:
  assumes "length junk1 = 64" "length junk2 = 64" "8 \<le> length (gs_session_key c)"
    and "gs_session_key c = gs_session_key s" "gs_neg_flags c = gs_neg_flags s" "gs_role c = NTLMSSP_CLIENT" "gs_role s = NTLMSSP_SERVER"
  shows "fst (ntlmssp_sign_init junk1 c) = NT_STATUS_OK" "fst (ntlmssp_sign_init junk2 s) = NT_STATUS_OK"
    "in_session (snd (ntlmssp_sign_init junk1 c)) (snd (ntlmssp_sign_init junk2 s))"
proof -
  have md5: "arcfour_init (rfc1321_md5 m) \<noteq> None" for m using length_md5 [of m] by (auto simp: arcfour_init_def split: prod.splits)
  have weak: "ntlmssp_weakend_key c = ntlmssp_weakend_key s" using assms(4,5) by (simp add: ntlmssp_weakend_key_def has_flag_def Let_def)
  have "ntlmssp_weakend_key s \<noteq> []" using assms(3,4) by (auto simp: ntlmssp_weakend_key_def Let_def)
  then have ar: "arcfour_init (ntlmssp_weakend_key s) \<noteq> None" by (simp add: arcfour_init_def split: prod.splits)
  have l: "\<not> length (gs_session_key s) < 8" "gs_session_key s \<noteq> []" using assms(3,4) by auto
  show "fst (ntlmssp_sign_init junk1 c) = NT_STATUS_OK" "fst (ntlmssp_sign_init junk2 s) = NT_STATUS_OK"
    using l assms(4) by (simp_all add: ntlmssp_sign_init_def Let_def case_prod_beta)
  show "in_session (snd (ntlmssp_sign_init junk1 c)) (snd (ntlmssp_sign_init junk2 s))"
    using l assms(4-7) md5 weak ar
    by (simp add: in_session_def sends_to_def ntlmssp_sign_init_def has_flag_def calc_key [OF assms(1)] calc_key [OF assms(2)] Let_def)
qed

section \<open>A packet arrives\<close>

lemma has_flag_update [simp]: "has_flag (st\<lparr>gs_ntlm2 := x\<rparr>) f = has_flag st f" "has_flag (st\<lparr>gs_ntlm := y\<rparr>) f = has_flag st f"
  by (simp_all add: has_flag_def)

lemma sends_to_flags: "sends_to a b \<Longrightarrow> has_flag b f = has_flag a f"
  by (simp add: sends_to_def has_flag_def)

lemma sends_to_ntlm2:
  assumes "sends_to a b" "has_flag a NTLMSSP_NEGOTIATE_NTLM2"
  shows "gs_neg_flags b = gs_neg_flags a" "gs_session_key b = gs_session_key a" "gs_session_key a \<noteq> []"
    "n2_recv_seq_num (gs_ntlm2 b) = n2_send_seq_num (gs_ntlm2 a)" "n2_recv_sign_key (gs_ntlm2 b) = n2_send_sign_key (gs_ntlm2 a)"
    "n2_recv_seal (gs_ntlm2 b) = n2_send_seal (gs_ntlm2 a)" "n2_send_seal (gs_ntlm2 a) \<noteq> None"
  using assms unfolding sends_to_def by (auto split: if_splits)

lemma sends_to_ntlm:
  assumes "sends_to a b" "\<not> has_flag a NTLMSSP_NEGOTIATE_NTLM2"
  shows "gs_neg_flags b = gs_neg_flags a" "gs_session_key b = gs_session_key a" "gs_session_key a \<noteq> []"
    "gs_ntlm b = gs_ntlm a" "n1_arcfour_state (gs_ntlm a) \<noteq> None"
  using assms unfolding sends_to_def by (auto split: if_splits)

lemmas ntlmssp_defs = ntlmssp_make_packet_signature_def ntlm2_signature_def ntlm1_signature_def Let_def

text \<open>Its signature.\<close>

lemma sign_check:
  assumes "length junk1 = 64" "length junk2 = 64" "in_session a b"
  shows "\<exists>sig a1 b1. gensec_ntlmssp_sign_packet junk1 pre data post a = Some (sig, a1) \<and> length sig = 16 \<and>
    gensec_ntlmssp_check_packet junk2 pre data post sig b = Some (NT_STATUS_OK, b1) \<and> in_session a1 b1"
proof (cases "has_flag a NTLMSSP_NEGOTIATE_NTLM2")
  case True
  define c where "c = gs_ntlm2 a"
  define dig where "dig = rfc2104 rfc1321_md5 (take 64 (n2_send_sign_key c)) (SIVAL (n2_send_seq_num c) @ pre @ data @ post)"
  have ld: "length dig = 16" by (simp add: dig_def length_rfc2104)
  from assms(3) have ab: "sends_to a b" "sends_to b a" by (simp_all add: in_session_def)
  note s = sends_to_ntlm2 [OF ab(1) True, folded c_def] sends_to_flags [OF ab(1)] ab(2)
  from crypt_opt_back [OF s(7), of "take 8 dig"] obtain d s1 where d: "crypt_opt (n2_send_seal c) (take 8 dig) = Some (d, Some s1)" "length d = 8"
    using ld by auto
  show ?thesis
    using s True d ld
    by (cases "has_flag a NTLMSSP_NEGOTIATE_KEY_EXCH")
      (auto simp: gensec_ntlmssp_sign_packet_def gensec_ntlmssp_check_packet_def ntlmssp_defs signature_digest assms(1,2) in_session_def sends_to_def
        c_def [symmetric] dig_def [symmetric])
next
  case False
  define c where "c = gs_ntlm a"
  define sig where "sig = ntlm1_words data (n1_seq_num c)"
  have ls: "length sig = 16" by (simp add: sig_def ntlm1_words_def)
  from assms(3) have ab: "sends_to a b" "sends_to b a" by (simp_all add: in_session_def)
  note s = sends_to_ntlm [OF ab(1) False, folded c_def] sends_to_flags [OF ab(1)] ab(2)
  from crypt_opt_back [OF s(5), of "drop 4 sig"] obtain d s1 where d: "crypt_opt (n1_arcfour_state c) (drop 4 sig) = Some (d, Some s1)" "length d = 12"
    using ls by auto
  show ?thesis
    using s False d ls
    by (auto simp: gensec_ntlmssp_sign_packet_def gensec_ntlmssp_check_packet_def ntlmssp_defs in_session_def sends_to_def
        c_def [symmetric] sig_def [symmetric])
qed

text \<open>Its data, sealed.\<close>

lemma seal_unseal:
  assumes "length junk1 = 64" "length junk2 = 64" "in_session a b"
  shows "\<exists>data1 sig a1 b1. gensec_ntlmssp_seal_packet junk1 pre data post a = Some (NT_STATUS_OK, data1, sig, a1) \<and> length sig = 16 \<and> length data1 = length data \<and>
    gensec_ntlmssp_unseal_packet junk2 pre data1 post sig b = Some (NT_STATUS_OK, data, b1) \<and> in_session a1 b1"
proof (cases "has_flag a NTLMSSP_NEGOTIATE_NTLM2")
  case True
  define c where "c = gs_ntlm2 a"
  define dig where "dig = rfc2104 rfc1321_md5 (take 64 (n2_send_sign_key c)) (SIVAL (n2_send_seq_num c) @ pre @ data @ post)"
  have ld: "length dig = 16" by (simp add: dig_def length_rfc2104)
  from assms(3) have ab: "sends_to a b" "sends_to b a" by (simp_all add: in_session_def)
  note s = sends_to_ntlm2 [OF ab(1) True, folded c_def] sends_to_flags [OF ab(1)] ab(2)
  from crypt_opt_back [OF s(7), of data] obtain data1 s1 where e: "crypt_opt (n2_send_seal c) data = Some (data1, Some s1)"
    "crypt_opt (n2_send_seal c) data1 = Some (data, Some s1)" "length data1 = length data" by auto
  from crypt_opt_back [of "Some s1" "take 8 dig"] obtain d s2 where d: "crypt_opt (Some s1) (take 8 dig) = Some (d, Some s2)" "length d = 8"
    using ld by auto
  show ?thesis
    using s True d e ld
    by (cases "has_flag a NTLMSSP_NEGOTIATE_KEY_EXCH")
      (auto simp: gensec_ntlmssp_seal_packet_def gensec_ntlmssp_unseal_packet_def gensec_ntlmssp_check_packet_def ntlmssp_defs signature_digest assms(1,2) in_session_def sends_to_def
        c_def [symmetric] dig_def [symmetric])
next
  case False
  define c where "c = gs_ntlm a"
  define sig where "sig = ntlm1_words data (n1_seq_num c)"
  have ls: "length sig = 16" by (simp add: sig_def ntlm1_words_def)
  from assms(3) have ab: "sends_to a b" "sends_to b a" by (simp_all add: in_session_def)
  note s = sends_to_ntlm [OF ab(1) False, folded c_def] sends_to_flags [OF ab(1)] ab(2)
  from crypt_opt_back [OF s(5), of data] obtain data1 s1 where e: "crypt_opt (n1_arcfour_state c) data = Some (data1, Some s1)"
    "crypt_opt (n1_arcfour_state c) data1 = Some (data, Some s1)" "length data1 = length data" by auto
  from crypt_opt_back [of "Some s1" "drop 4 sig"] obtain d s2 where d: "crypt_opt (Some s1) (drop 4 sig) = Some (d, Some s2)" "length d = 12"
    using ls by auto
  show ?thesis
    using s False d e ls
    by (auto simp: gensec_ntlmssp_seal_packet_def gensec_ntlmssp_unseal_packet_def gensec_ntlmssp_check_packet_def ntlmssp_defs in_session_def sends_to_def
        c_def [symmetric] sig_def [symmetric])
qed

section \<open>Conversations\<close>

text \<open>
  A packet of a conversation: which end sends it, whether it is sealed or only signed, and its parts.
  Each packet is received before the next one is sent, as the calls of a connection do; the bytes
  of the uninitialised memory are those of the two ends.
\<close>

record ntlmssp_packet =
  np_from_client :: bool
  np_sealed :: bool
  np_pre :: "u8 list"
  np_data :: "u8 list"
  np_post :: "u8 list"

definition transfer ::
    "u8 list \<Rightarrow> u8 list \<Rightarrow> ntlmssp_packet \<Rightarrow> gensec_ntlmssp_state \<Rightarrow> gensec_ntlmssp_state \<Rightarrow> (u8 list \<times> gensec_ntlmssp_state \<times> gensec_ntlmssp_state) option" where
  "transfer junk1 junk2 p a b =
     (if np_sealed p
      then (case gensec_ntlmssp_seal_packet junk1 (np_pre p) (np_data p) (np_post p) a of
              Some (status, data, sig, a1) \<Rightarrow>
                if status \<noteq> NT_STATUS_OK then None
                else (case gensec_ntlmssp_unseal_packet junk2 (np_pre p) data (np_post p) sig b of
                        Some (status1, data1, b1) \<Rightarrow> if status1 = NT_STATUS_OK then Some (data1, a1, b1) else None
                      | None \<Rightarrow> None)
            | None \<Rightarrow> None)
      else (case gensec_ntlmssp_sign_packet junk1 (np_pre p) (np_data p) (np_post p) a of
              Some (sig, a1) \<Rightarrow>
                (case gensec_ntlmssp_check_packet junk2 (np_pre p) (np_data p) (np_post p) sig b of
                   Some (status1, b1) \<Rightarrow> if status1 = NT_STATUS_OK then Some (np_data p, a1, b1) else None
                 | None \<Rightarrow> None)
            | None \<Rightarrow> None))"

fun conversation ::
    "u8 list \<Rightarrow> u8 list \<Rightarrow> ntlmssp_packet list \<Rightarrow> gensec_ntlmssp_state \<Rightarrow> gensec_ntlmssp_state \<Rightarrow> u8 list list option" where
  "conversation junk1 junk2 [] c s = Some []"
| "conversation junk1 junk2 (p # ps) c s =
     (if np_from_client p
      then (case transfer junk1 junk2 p c s of Some (data, c1, s1) \<Rightarrow> map_option ((#) data) (conversation junk1 junk2 ps c1 s1) | None \<Rightarrow> None)
      else (case transfer junk2 junk1 p s c of Some (data, s1, c1) \<Rightarrow> map_option ((#) data) (conversation junk1 junk2 ps c1 s1) | None \<Rightarrow> None))"

lemma transfer_delivers:
  assumes "length junk1 = 64" "length junk2 = 64" "in_session a b"
  shows "\<exists>a1 b1. transfer junk1 junk2 p a b = Some (np_data p, a1, b1) \<and> in_session a1 b1"
  using seal_unseal [OF assms, of "np_pre p" "np_data p" "np_post p"] sign_check [OF assms, of "np_pre p" "np_data p" "np_post p"]
  by (cases "np_sealed p") (auto simp: transfer_def)

lemma conversation_delivers:
  assumes "length junk1 = 64" "length junk2 = 64"
  shows "in_session c s \<Longrightarrow> conversation junk1 junk2 ps c s = Some (map np_data ps)"
proof (induction ps arbitrary: c s)
  case (Cons p ps)
  show ?case
  proof (cases "np_from_client p")
    case True
    then show ?thesis using transfer_delivers [OF assms Cons.prems, of p] Cons.IH by auto
  next
    case False
    then show ?thesis using transfer_delivers [OF assms(2,1) in_session_sym [OF Cons.prems], of p] Cons.IH in_session_sym by fastforce
  qed
qed simp

lemma have_feature_same: "sends_to a b \<Longrightarrow> gensec_ntlmssp_have_feature b f = gensec_ntlmssp_have_feature a f"
  by (simp add: gensec_ntlmssp_have_feature_def sends_to_flags) (simp add: sends_to_def)

lemma wrap_unwrap:
  assumes "length junk1 = 64" "length junk2 = 64" "in_session a b"
  shows "\<exists>out a1 b1. gensec_ntlmssp_wrap junk1 inp a = Some (NT_STATUS_OK, out, a1) \<and> gensec_ntlmssp_unwrap junk2 out b = Some (NT_STATUS_OK, inp, b1) \<and>
    length out \<le> length inp + 16 \<and> in_session a1 b1"
proof -
  from assms(3) have ab: "sends_to a b" by (simp add: in_session_def)
  from seal_unseal [OF assms, of "[]" inp "[]"] obtain data1 sig a1 b1 where
    e: "gensec_ntlmssp_seal_packet junk1 [] inp [] a = Some (NT_STATUS_OK, data1, sig, a1)" "length sig = 16" "length data1 = length inp"
      "gensec_ntlmssp_unseal_packet junk2 [] data1 [] sig b = Some (NT_STATUS_OK, inp, b1)" "in_session a1 b1" by auto
  from sign_check [OF assms, of "[]" inp "[]"] obtain sig2 a2 b2 where
    g: "gensec_ntlmssp_sign_packet junk1 [] inp [] a = Some (sig2, a2)" "length sig2 = 16"
      "gensec_ntlmssp_check_packet junk2 [] inp [] sig2 b = Some (NT_STATUS_OK, b2)" "in_session a2 b2" by auto
  show ?thesis
    using e g assms(3) by (simp add: gensec_ntlmssp_wrap_def gensec_ntlmssp_unwrap_def have_feature_same [OF ab] NT_STATUS_IS_OK_def)
qed

text \<open>
  C31. When client and server start signing with the same session key and flags, every packet of every
  conversation between them, sealed or only signed, in either direction and with both variants of the
  protocol, is accepted and gives the data that was sent; what one end wraps the other unwraps.
\<close>

theorem ntlmssp_conversation:
  assumes "length junk1 = 64" "length junk2 = 64" "8 \<le> length (gs_session_key c)"
    and "gs_session_key c = gs_session_key s" "gs_neg_flags c = gs_neg_flags s" "gs_role c = NTLMSSP_CLIENT" "gs_role s = NTLMSSP_SERVER"
    and "ntlmssp_sign_init junk1 c = (status1, c1)" "ntlmssp_sign_init junk2 s = (status2, s1)"
  shows "status1 = NT_STATUS_OK \<and> status2 = NT_STATUS_OK \<and> conversation junk1 junk2 ps c1 s1 = Some (map np_data ps) \<and>
    (\<exists>out c2 s2. gensec_ntlmssp_wrap junk1 inp c1 = Some (NT_STATUS_OK, out, c2) \<and> gensec_ntlmssp_unwrap junk2 out s1 = Some (NT_STATUS_OK, inp, s2))"
proof -
  note i = sign_init_in_session [OF assms(1-7), unfolded assms(8,9) fst_conv snd_conv]
  show ?thesis using i(1,2) conversation_delivers [OF assms(1,2) i(3)] wrap_unwrap [OF assms(1,2) i(3), of inp] by blast
qed

section \<open>What a receiver accepts\<close>

text \<open>The sending side of an end with the newer variant: its key and the number of the next packet.\<close>

definition sending_side :: "gensec_ntlmssp_state \<Rightarrow> u32 \<times> u8 list \<times> u32" where
  "sending_side a = (gs_neg_flags a, n2_send_sign_key (gs_ntlm2 a), n2_send_seq_num (gs_ntlm2 a))"

definition counted :: "nat \<Rightarrow> u32 \<times> u8 list \<times> u32 \<Rightarrow> u32 \<times> u8 list \<times> u32" where
  "counted n x = (case x of (f, k, seq) \<Rightarrow> (f, k, seq + of_nat n))"

lemma counted_simps [simp]: "counted 0 x = x" "counted m (counted n x) = counted (n + m) x"
  by (simp_all add: counted_def split: prod.splits)

lemma sending_side_seal [simp]: "sending_side (st\<lparr>gs_ntlm2 := (gs_ntlm2 st)\<lparr>n2_send_seal := x\<rparr>\<rparr>) = sending_side st"
  "sending_side (st\<lparr>gs_ntlm2 := (gs_ntlm2 st)\<lparr>n2_recv_seal := x\<rparr>\<rparr>) = sending_side st"
  by (simp_all add: sending_side_def)

lemma signature_side:
  assumes "ntlm2_signature junk pdu dir enc a = Some (sig, a1)"
  shows "sending_side a1 = counted (case dir of NTLMSSP_SEND \<Rightarrow> 1 | NTLMSSP_RECEIVE \<Rightarrow> 0) (sending_side a)"
  using assms
  by (auto simp: ntlm2_signature_def Let_def sending_side_def counted_def split: ntlmssp_direction.splits if_splits)

lemma has_flag_side: "sending_side a1 = counted n (sending_side a) \<Longrightarrow> has_flag a1 f = has_flag a f"
  by (simp add: sending_side_def counted_def has_flag_def)

lemma sign_side:
  assumes "has_flag a NTLMSSP_NEGOTIATE_NTLM2" "gensec_ntlmssp_sign_packet junk pre data post a = Some (sig, a1)"
  shows "sending_side a1 = counted 1 (sending_side a)"
  using assms signature_side [of junk "pre @ data @ post" NTLMSSP_SEND]
  by (simp add: gensec_ntlmssp_sign_packet_def ntlmssp_make_packet_signature_def)

lemma check_side:
  assumes "has_flag b NTLMSSP_NEGOTIATE_NTLM2" "gensec_ntlmssp_check_packet junk pre data post sig b = Some (status, b1)"
  shows "sending_side b1 = sending_side b"
  using assms signature_side [of junk "pre @ data @ post" NTLMSSP_RECEIVE]
  by (auto simp: gensec_ntlmssp_check_packet_def ntlmssp_make_packet_signature_def split: if_splits option.splits)

lemma seal_side:
  assumes "has_flag a NTLMSSP_NEGOTIATE_NTLM2" "gensec_ntlmssp_seal_packet junk pre data post a = Some (NT_STATUS_OK, data1, sig, a1)"
  shows "sending_side a1 = counted 1 (sending_side a)"
  using assms signature_side [of junk "pre @ data @ post" NTLMSSP_SEND]
  by (auto simp: gensec_ntlmssp_seal_packet_def ntlmssp_make_packet_signature_def split: if_splits option.splits)

lemma unseal_side:
  assumes "has_flag b NTLMSSP_NEGOTIATE_NTLM2" "gensec_ntlmssp_unseal_packet junk pre data post sig b = Some (status, data1, b1)"
  shows "sending_side b1 = sending_side b"
  using assms
  by (auto simp: gensec_ntlmssp_unseal_packet_def split: if_splits option.splits dest!: check_side [rotated])

lemma transfer_side:
  assumes "has_flag a NTLMSSP_NEGOTIATE_NTLM2" "has_flag b NTLMSSP_NEGOTIATE_NTLM2" "transfer junk1 junk2 p a b = Some (data, a1, b1)"
  shows "sending_side a1 = counted 1 (sending_side a)" "sending_side b1 = sending_side b"
  using assms(3) seal_side [OF assms(1)] unseal_side [OF assms(2)] sign_side [OF assms(1)] check_side [OF assms(2)]
  by (fastforce simp: transfer_def split: if_splits option.splits)+

text \<open>The two ends after a conversation.\<close>

fun after_conversation ::
    "u8 list \<Rightarrow> u8 list \<Rightarrow> ntlmssp_packet list \<Rightarrow> gensec_ntlmssp_state \<Rightarrow> gensec_ntlmssp_state \<Rightarrow> (gensec_ntlmssp_state \<times> gensec_ntlmssp_state) option" where
  "after_conversation junk1 junk2 [] c s = Some (c, s)"
| "after_conversation junk1 junk2 (p # ps) c s =
     (if np_from_client p
      then (case transfer junk1 junk2 p c s of Some (data, c1, s1) \<Rightarrow> after_conversation junk1 junk2 ps c1 s1 | None \<Rightarrow> None)
      else (case transfer junk2 junk1 p s c of Some (data, s1, c1) \<Rightarrow> after_conversation junk1 junk2 ps c1 s1 | None \<Rightarrow> None))"

lemma after_conversation_session:
  assumes "length junk1 = 64" "length junk2 = 64"
  shows "in_session c s \<Longrightarrow> has_flag c NTLMSSP_NEGOTIATE_NTLM2 \<Longrightarrow>
    \<exists>c2 s2. after_conversation junk1 junk2 ps c s = Some (c2, s2) \<and> in_session c2 s2 \<and>
      sending_side c2 = counted (length (filter np_from_client ps)) (sending_side c)"
proof (induction ps arbitrary: c s)
  case (Cons p ps)
  have fl: "has_flag s NTLMSSP_NEGOTIATE_NTLM2" using Cons.prems by (auto simp: in_session_def dest: sends_to_flags)
  show ?case
  proof (cases "np_from_client p")
    case True
    obtain c1 s1 where t: "transfer junk1 junk2 p c s = Some (np_data p, c1, s1)" "in_session c1 s1"
      using transfer_delivers [OF assms Cons.prems(1), of p] by blast
    note side = transfer_side(1) [OF Cons.prems(2) fl t(1)]
    show ?thesis using Cons.IH [OF t(2)] has_flag_side [OF side] Cons.prems(2) side t(1) True by auto
  next
    case False
    obtain s1 c1 where t: "transfer junk2 junk1 p s c = Some (np_data p, s1, c1)" "in_session s1 c1"
      using transfer_delivers [OF assms(2,1) in_session_sym [OF Cons.prems(1)], of p] by blast
    have side: "sending_side c1 = counted 0 (sending_side c)" using transfer_side(2) [OF fl Cons.prems(2) t(1)] by simp
    show ?thesis using Cons.IH [OF in_session_sym [OF t(2)]] has_flag_side [OF side] Cons.prems(2) side t(1) False by auto
  qed
qed simp

lemma sign_and_check_exact:
  assumes "length junk1 = 64" "length junk2 = 64" "in_session a b" "has_flag a NTLMSSP_NEGOTIATE_NTLM2" "n2_recv_seal (gs_ntlm2 b) = Some cipher"
    and d: "d = take 8 (rfc2104 rfc1321_md5 (take 64 (n2_send_sign_key (gs_ntlm2 a))) (SIVAL (n2_send_seq_num (gs_ntlm2 a)) @ pre @ data @ post))"
    and w: "wanted = SIVAL 1 @ (if has_flag a NTLMSSP_NEGOTIATE_KEY_EXCH then fst (arcfour_crypt_sbox cipher d) else d) @ SIVAL (n2_send_seq_num (gs_ntlm2 a))"
  shows "map_option fst (gensec_ntlmssp_sign_packet junk1 pre data post a) = Some wanted"
    "map_option fst (gensec_ntlmssp_check_packet junk2 pre data post sig b) = Some (if sig = wanted then NT_STATUS_OK else NT_STATUS_ACCESS_DENIED)"
proof -
  have ab: "sends_to a b" using assms(3) by (simp add: in_session_def)
  note s = sends_to_ntlm2 [OF ab assms(4)] sends_to_flags [OF ab]
  show "map_option fst (gensec_ntlmssp_sign_packet junk1 pre data post a) = Some wanted"
    using assms(4,5) s by (auto simp: gensec_ntlmssp_sign_packet_def ntlmssp_defs signature_digest [OF assms(1)] crypt_opt_def case_prod_beta d w)
  show "map_option fst (gensec_ntlmssp_check_packet junk2 pre data post sig b) = Some (if sig = wanted then NT_STATUS_OK else NT_STATUS_ACCESS_DENIED)"
    using assms(4,5) s by (auto simp: gensec_ntlmssp_check_packet_def ntlmssp_defs signature_digest [OF assms(2)] crypt_opt_def case_prod_beta d w)
qed

text \<open>
  C32. Which signatures the server accepts from the client, with the newer variant: after any
  conversation of a session that both started with the same key and flags, and for every packet
  and every signature \<open>sig\<close>, the check succeeds exactly when \<open>sig\<close> is the signature the client
  would now compute for this packet, and denies access otherwise. That signature is the version,
  eight bytes and the number of packets the client has sent; the bytes are the start of the
  HMAC-MD5 of that number and the whole packet under the MD5 of the session key and the client's
  constant, encrypted with the cipher both ends share when a key exchange was negotiated.
\<close>

theorem ntlmssp_check_exact:
  assumes "length junk1 = 64" "length junk2 = 64" "8 \<le> length (gs_session_key c)"
    and "gs_session_key c = gs_session_key s" "gs_neg_flags c = gs_neg_flags s" "gs_role c = NTLMSSP_CLIENT" "gs_role s = NTLMSSP_SERVER"
    and "ntlmssp_sign_init junk1 c = (status1, c1)" "ntlmssp_sign_init junk2 s = (status2, s1)"
    and "has_flag c NTLMSSP_NEGOTIATE_NTLM2"
  shows "\<exists>c2 s2 cipher. after_conversation junk1 junk2 ps c1 s1 = Some (c2, s2) \<and> n2_send_seal (gs_ntlm2 c2) = Some cipher \<and>
    n2_recv_seal (gs_ntlm2 s2) = Some cipher \<and>
    (let seq = of_nat (length (filter np_from_client ps));
         d = take 8 (rfc2104 rfc1321_md5 (rfc1321_md5 (gs_session_key c @ text_bytes CLI_SIGN)) (SIVAL seq @ pre @ data @ post));
         wanted = SIVAL 1 @ (if has_flag c NTLMSSP_NEGOTIATE_KEY_EXCH then fst (arcfour_crypt_sbox cipher d) else d) @ SIVAL seq
     in map_option fst (gensec_ntlmssp_sign_packet junk1 pre data post c2) = Some wanted \<and>
        map_option fst (gensec_ntlmssp_check_packet junk2 pre data post sig s2) = Some (if sig = wanted then NT_STATUS_OK else NT_STATUS_ACCESS_DENIED))"
proof -
  note i = sign_init_in_session [OF assms(1-7), unfolded assms(8,9) fst_conv snd_conv]
  let ?key = "rfc1321_md5 (gs_session_key c @ text_bytes CLI_SIGN)"
  have c1: "sending_side c1 = (gs_neg_flags c, ?key, 0)"
    using assms(3,6,8,10) by (auto simp: ntlmssp_sign_init_def Let_def sending_side_def calc_key [OF assms(1)])
  then have fl: "has_flag c1 f = has_flag c f" for f by (simp add: sending_side_def has_flag_def)
  obtain c2 s2 where t: "after_conversation junk1 junk2 ps c1 s1 = Some (c2, s2)" "in_session c2 s2"
    "sending_side c2 = counted (length (filter np_from_client ps)) (sending_side c1)"
    using after_conversation_session [OF assms(1,2) i(3), of ps] fl assms(10) by auto
  have side: "has_flag c2 f = has_flag c f" "n2_send_sign_key (gs_ntlm2 c2) = ?key" "n2_send_seq_num (gs_ntlm2 c2) = of_nat (length (filter np_from_client ps))" for f
    using t(3) c1 by (simp_all add: sending_side_def counted_def has_flag_def)
  have "sends_to c2 s2" using t(2) by (simp add: in_session_def)
  note st = sends_to_ntlm2 [OF this]
  then obtain cipher where a: "n2_recv_seal (gs_ntlm2 s2) = Some cipher" "n2_send_seal (gs_ntlm2 c2) = Some cipher"
    using side(1) assms(10) by auto
  have k: "take 64 (n2_send_sign_key (gs_ntlm2 c2)) = ?key" using side(2) length_md5 by simp
  have "has_flag c2 NTLMSSP_NEGOTIATE_NTLM2" using side(1) assms(10) by simp
  note th = sign_and_check_exact [OF assms(1,2) t(2) this a(1) refl refl, unfolded k side(1,3), of pre data post]
  show ?thesis using t(1) a th unfolding Let_def by blast
qed

section \<open>A session\<close>

definition sample_end :: "ntlmssp_role \<Rightarrow> u8 list \<Rightarrow> gensec_ntlmssp_state" where
  "sample_end role key =
     \<lparr>gs_role = role, gs_neg_flags = 0x60080030, gs_session_key = key, gs_ntlm = \<lparr>n1_seq_num = 0, n1_arcfour_state = None\<rparr>,
      gs_ntlm2 = \<lparr>n2_send_seq_num = 0, n2_recv_seq_num = 0, n2_send_sign_key = [], n2_recv_sign_key = [],
        n2_send_seal = None, n2_recv_seal = None\<rparr>\<rparr>"

theorem ntlmssp_conversation_witness:
  "\<exists>c1 s1. ntlmssp_sign_init (replicate 64 0) (sample_end NTLMSSP_CLIENT (replicate 16 9)) = (NT_STATUS_OK, c1) \<and>
     ntlmssp_sign_init (replicate 64 1) (sample_end NTLMSSP_SERVER (replicate 16 9)) = (NT_STATUS_OK, s1) \<and>
     conversation (replicate 64 0) (replicate 64 1)
       [\<lparr>np_from_client = True, np_sealed = True, np_pre = [5, 0], np_data = [1, 2, 3], np_post = [10]\<rparr>,
        \<lparr>np_from_client = False, np_sealed = False, np_pre = [], np_data = [4], np_post = []\<rparr>] c1 s1 = Some [[1, 2, 3], [4]]"
proof -
  let ?c = "sample_end NTLMSSP_CLIENT (replicate 16 9)" and ?s = "sample_end NTLMSSP_SERVER (replicate 16 9)"
  obtain st1 c1 st2 s1 where i: "ntlmssp_sign_init (replicate 64 0) ?c = (st1, c1)" "ntlmssp_sign_init (replicate 64 1) ?s = (st2, s1)" by fastforce
  have r: "8 \<le> length (gs_session_key ?c)" "gs_session_key ?c = gs_session_key ?s" "gs_neg_flags ?c = gs_neg_flags ?s" "gs_role ?c = NTLMSSP_CLIENT" "gs_role ?s = NTLMSSP_SERVER"
    by (simp_all add: sample_end_def)
  show ?thesis
    using ntlmssp_conversation [OF _ _ r i, of
      "[\<lparr>np_from_client = True, np_sealed = True, np_pre = [5, 0], np_data = [1, 2, 3], np_post = [10]\<rparr>,
        \<lparr>np_from_client = False, np_sealed = False, np_pre = [], np_data = [4], np_post = []\<rparr>]" "[]"] i by auto
qed

text \<open>After one packet from the client, the signature of the next one is accepted.\<close>

theorem ntlmssp_check_exact_witness:
  "let j = replicate 64 0; ps = [\<lparr>np_from_client = True, np_sealed = True, np_pre = [5, 0], np_data = [1, 2, 3], np_post = [10]\<rparr>] in
   \<exists>c1 s1 c2 s2. ntlmssp_sign_init j (sample_end NTLMSSP_CLIENT (replicate 16 9)) = (NT_STATUS_OK, c1) \<and>
     ntlmssp_sign_init j (sample_end NTLMSSP_SERVER (replicate 16 9)) = (NT_STATUS_OK, s1) \<and>
     after_conversation j j ps c1 s1 = Some (c2, s2) \<and>
     (\<exists>sig. map_option fst (gensec_ntlmssp_sign_packet j [] [4] [] c2) = Some sig \<and>
        map_option fst (gensec_ntlmssp_check_packet j [] [4] [] sig s2) = Some NT_STATUS_OK)"
proof -
  let ?c = "sample_end NTLMSSP_CLIENT (replicate 16 9)" and ?s = "sample_end NTLMSSP_SERVER (replicate 16 9)" and ?j = "replicate 64 0 :: u8 list"
  let ?ps = "[\<lparr>np_from_client = True, np_sealed = True, np_pre = [5, 0], np_data = [1, 2, 3], np_post = [10]\<rparr>]"
  obtain st1 c1 st2 s1 where i: "ntlmssp_sign_init ?j ?c = (st1, c1)" "ntlmssp_sign_init ?j ?s = (st2, s1)" by fastforce
  have r: "8 \<le> length (gs_session_key ?c)" "gs_session_key ?c = gs_session_key ?s" "gs_neg_flags ?c = gs_neg_flags ?s" "gs_role ?c = NTLMSSP_CLIENT" "gs_role ?s = NTLMSSP_SERVER"
    "has_flag ?c NTLMSSP_NEGOTIATE_NTLM2" "length ?j = 64"
    by (simp_all add: sample_end_def has_flag_def)
  have ok: "st1 = NT_STATUS_OK" "st2 = NT_STATUS_OK" using sign_init_in_session(1,2) [OF r(7,7) r(1-5)] i by simp_all
  note th = ntlmssp_check_exact [OF r(7,7) r(1-5) i r(6), of ?ps "[]" "[4]" "[]"]
  from th [of "[]"] obtain c2 s2 sig where "after_conversation ?j ?j ?ps c1 s1 = Some (c2, s2)"
    "map_option fst (gensec_ntlmssp_sign_packet ?j [] [4] [] c2) = Some sig" by (auto simp: Let_def)
  moreover from this th [of sig] have "map_option fst (gensec_ntlmssp_check_packet ?j [] [4] [] sig s2) = Some NT_STATUS_OK"
    by (auto simp: Let_def)
  ultimately show ?thesis using i ok unfolding Let_def by blast
qed

end
