(* ===== verification/Spec2Isabelle.thy ===== *)
theory Spec2Isabelle
  imports NtErrorProps SvcMain ScmHost Protocol AccessCheck Asn1 NdrStringProps DcerpcWitness SmbTransProps SmbTransSend SmbTransportProps Ntlm NtlmsspSign
begin

text \<open>
  winexe runs a command on a Windows host from a Unix machine: the client installs a small service
  there through the service control manager, talks to it over named pipes, and copies standard
  input, output and the exit code of the remote process. The program is built inside a Samba tree.

  \<^bold>\<open>Parts and how they interact.\<close>
  \<^item> The client, \<open>winexe/winexe.c\<close>: \<open>main\<close> parses the arguments, connects to the host and
    opens the control pipe; everything else happens in callbacks of the event loop.
  \<^item> The pipe operations, \<open>winexe/async.c\<close>: open, read, write and close of a pipe as
    asynchronous requests whose replies call the client's callbacks.
  \<^item> The installation, \<open>winexe/service.c\<close>: \<open>svc_install\<close> and \<open>svc_uninstall\<close>, which the
    client calls when the control pipe does not exist or the service is of another version.
  \<^item> The service, \<open>winexe/winexesvc\<close>: \<open>service.c\<close> is its dialogue with the service control
    manager, \<open>winexesvc.c\<close> serves the control pipe, starts the process and reports its exit code.
  \<^item> From the Samba tree: the error tables of \<open>libcli/util/errormap.c\<close> that \<open>service.c\<close>
    depends on, the marshalling library \<open>librpc/ndr\<close> its calls go through, the character
    conversion \<open>lib/charset\<close> that the strings of these calls go through, the client side of the
    RPC runtime \<open>librpc/rpc/dcerpc.c\<close> with the composite contexts of \<open>libcli/composite\<close> and the
    linked lists of \<open>lib/util/dlinklist.h\<close> it keeps its requests in, the packets, the
    transactions, the signatures and the transport of the SMB client, \<open>rawrequest.c\<close>, \<open>rawtrans.c\<close>,
    \<open>smb_signing.c\<close> and \<open>clitransport.c\<close> of \<open>libcli/raw\<close>, on which the pipe operations and the RPC
    calls travel, the digests and ciphers of \<open>lib/crypto\<close> and \<open>libcli/auth/smbdes.c\<close> that signing
    and authentication rest on, the credential chain of domain members and the secrets under a
    session key, \<open>credentials.c\<close> and \<open>session.c\<close> of \<open>libcli/auth\<close>, the password hashes and responses of
    \<open>libcli/auth/smbencrypt.c\<close> with their check in \<open>auth/ntlm_check.c\<close>, the signing and sealing of
    packets with NTLMSSP, \<open>auth/ntlmssp/ntlmssp_sign.c\<close>, the ASN.1 coder
    \<open>libcli/util/asn1.c\<close>, and identifiers, privileges, tokens,
    security descriptors and the access check of \<open>libcli/security\<close>.

  \<^bold>\<open>Theories.\<close>
  \<^item> \<open>WxPrelude\<close>: machine words, the result type of calls that may exit, hang or go wrong, with
    the rules by which invariants of calls compose, and generic lemmas.
  \<^item> \<open>CString\<close>: the functions of the C library the sources use: \<open>strchr\<close>, \<open>strtoul\<close>,
    \<open>strtol\<close>, \<open>atoi\<close>, \<open>%u\<close>, \<open>%d\<close>, \<open>%0nX\<close>; printed numbers are read back as themselves.
  \<^item> \<open>NtErrorTables\<close>, \<open>NtError\<close>, \<open>NtErrorProps\<close>: the two tables of \<open>errormap.c\<close>
    entry by entry, the lookups with the macros of \<open>nt_status.h\<close>, and their properties.
  \<^item> \<open>AsyncPipe\<close>: \<open>async.c\<close>. The write queue is a linked list on an explicit heap that is
    proved to implement the locale \<open>fifo\<close>; requests, contexts and their buffers are records.
    The locale \<open>async_inv\<close> gives an invariant of a client's callbacks for all operations.
  \<^item> \<open>SvcControl\<close>: \<open>service.c\<close>; every remote call is an element of \<open>svc_call\<close> that an
    environment answers, and the calls made are recorded: which handles were opened and closed, and
    what the service was when it was taken for running or deleted. \<open>ScmHost\<close>: a host with a service
    control manager, a model of the locale \<open>service_manager\<close>, for examples.
  \<^item> \<open>SvcMain\<close>: \<open>winexesvc/service.c\<close>.
  \<^item> \<open>Winexe\<close>: \<open>winexe.c\<close>. \<open>wx_reach\<close> is the reachability relation of the event loop,
    \<open>wx_trace\<close> the same with the events handled, \<open>handle_event\<close> one event: a reply, the timer, a
    signal, input, or the end of the loop.
  \<^item> \<open>WinexeSvc\<close>: \<open>winexesvc.c\<close>; Win32 calls are elements of \<open>w32_call\<close> answered by an
    environment. \<open>SvcTrace\<close>: what its functions do to the sequence of calls: handles are
    closed, impersonation is reverted, names are distinct, loops end; \<open>session_step\<close> is the part
    of the calls that makes up a session.
  \<^item> \<open>Protocol\<close>: client and service together: the messages of one are what the other expects,
    and whole sessions of both ends, for the service on any host that satisfies the locale
    \<open>granting_host\<close>.
  \<^item> \<open>DomSid\<close>, \<open>SecurityToken\<close>, \<open>AccessCheck\<close>: \<open>libcli/security\<close>.
  \<^item> \<open>Asn1\<close>: \<open>asn1.c\<close>; the locale \<open>asn1_reader\<close> is the contract of every reader.
  \<^item> \<open>Ndr\<close>, \<open>NdrProps\<close>: \<open>ndr.c\<close>, \<open>ndr_basic.c\<close> and the macros of \<open>libndr.h\<close>: what the
    writers append, that it is read back, that no reader leaves its buffer (the locale
    \<open>ndr_reader\<close>), and how pointers are numbered.
  \<^item> \<open>Iconv\<close>: the built-in converters of \<open>iconv.c\<close>. \<open>Utf\<close>: the encodings UTF-8 and UTF-16 of
    a text, written independently of the code, and what the converters do on them.
    \<open>Charcnv\<close>: descriptors, their table and the conversions of \<open>charcnv.c\<close>. \<open>CharcnvProps\<close>:
    the locale \<open>charset_converter\<close> is the contract of every converter, \<open>charset_pipe\<close> composes
    two; conversions end, stay inside their buffers and are inverse to each other on text.
  \<^item> \<open>NdrString\<close>, \<open>NdrStringProps\<close>: \<open>ndr_string.c\<close> over any conversion that satisfies the
    locale \<open>conversion\<close>: readers stay inside the buffer, strings are read back.
  \<^item> \<open>DList\<close>: the macros of \<open>dlinklist.h\<close> on explicit links, and the locale \<open>linked_lists\<close> with
    the laws their users rely on.
  \<^item> \<open>DcerpcPdu\<close>, \<open>DcerpcPduProps\<close>: length fields, signing, sealing and checking of packets.
    \<open>Dcerpc\<close>: connections, requests on a heap, sending in fragments, replies, binding, timeouts and
    waiting; \<open>DcerpcCall\<close>: calls with typed arguments. \<open>DcerpcInv\<close>: the invariant of the two
    lists of a connection for every operation and the runs \<open>rpc_run\<close>, which leave out
    transitions of the code that can break the lists (timeout or free of a queued request, free of an
    unfinished bind); that a timeout in the queue and a failed bind do so is proved separately.
    \<open>DcerpcProps\<close>: fragments, whole requests, broken connections, and the cases in which the code
    goes wrong; \<open>DcerpcWitness\<close>: a small codec to which the theorems are applied.
  \<^item> \<open>SmbRequest\<close>, \<open>SmbRequestProps\<close>: \<open>rawrequest.c\<close>. Pointers into a packet are offsets; building a
    packet by any sequence of appends, reading replies inside their buffers, strings that survive
    a packet, and two cases in which strings are read outside a blob.
  \<^item> \<open>SmbTrans\<close>: \<open>rawtrans.c\<close>. \<open>SmbTransProps\<close>: replies in parts, their assembly in any order and
    its bounds for trans2, and what goes wrong for nttrans. \<open>SmbTransSend\<close>: what a server finds in
    the packets of a request.
  \<^item> \<open>Digest\<close>: hash functions over blocks of 64 bytes, the locale \<open>digest\<close> of an implementation that
    takes a message in pieces, and the keyed hash of RFC 2104. \<open>Md5\<close>: \<open>md5.c\<close> and \<open>hmacmd5.c\<close>;
    \<open>Md5Props\<close>: RFC 1321 written from the standard, the equality of the 64 steps, of the padding and of
    the pieces, the interpretation of \<open>digest\<close>, and HMAC. \<open>Md4\<close>: \<open>md4.c\<close> and RFC 1320.
    \<open>Arcfour\<close>: \<open>arcfour.c\<close>. \<open>SmbDes\<close>: \<open>smbdes.c\<close> on lists of bits, and that its two directions
    are inverse.
  \<^item> \<open>NetlogonCreds\<close>: \<open>credentials.c\<close> and \<open>session.c\<close>. Client and server of a credential chain stay in
    step, a failed call leaves the database as it was through its transaction, the loop over a session key
    stays inside it and secrets come back.
  \<^item> \<open>Msrpc\<close>: the message generator and parser \<open>ntlmssp_parse.c\<close>, which are inverse. \<open>Ntlm\<close>:
    \<open>smbencrypt.c\<close> and \<open>ntlm_check.c\<close>; a right response is accepted and gives both ends the same
    session key, and what is accepted was computed from a stored hash. The upper case of a string,
    the clock and random bytes are arguments.
  \<^item> \<open>Crc32\<close>: the checksum of \<open>crc32.c\<close>, whose table gives the division bit by bit. \<open>NtlmsspSign\<close>:
    \<open>ntlmssp_sign.c\<close>; whole conversations of two ends that started with the same key, and which
    signatures a check accepts after one.
  \<^item> \<open>SmbSigning\<close>: \<open>smb_signing.c\<close>. \<open>SmbSigningProps\<close>: which packets the check accepts, sequence
    numbers, and the signing engine as a step relation over what happens on a connection.
  \<^item> \<open>SmbTransport\<close>: \<open>clitransport.c\<close> with requests on a heap. \<open>SmbTransportProps\<close>: the list of pending
    requests in all reachable states, message numbers, the delivery of replies, bounds, and the end
    of a connection.

  \<^bold>\<open>Fuel.\<close> The polling loops of \<open>svc_install\<close> and \<open>svc_uninstall\<close>, the loop of
  \<open>handle_connection\<close> and that of \<open>asn1_write_OID\<close> may run for ever and take fuel; running out
  is a separate result (\<open>Hang\<close> or None). So do the loops of the RPC runtime that send fragments and
  that end all pending requests; one round more than there are bytes, or as many as requests, is
  proved to be enough, and that no number is enough when the server's limit leaves no room for
  data. The loop of \<open>smb_iconv\<close> has one round more than
  there are bytes, the retries of \<open>convert_string_talloc\<close> are limited to 20 (none is taken with
  the built-in charsets) and an array of strings to one more than the bytes of its buffer; these
  bounds are proved to be enough. Whether the polling loops end is up to the remote service, and what is
  proved of them is about the calls that return; \<open>handle_connection\<close> is proved to return for input
  that ends. \<open>server_loop\<close> runs
  for ever; its model runs a given number of iterations. The search for a message number and the loop
  that ends the requests of a dead connection are partial functions: when they return is proved.

  \<^bold>\<open>Not modelled.\<close> The option parser popt (the words it leaves are an argument of the model), the
  sockets and the packet layer below the SMB transport, the negotiation of the security mechanisms and the generated RPC stubs (answers of an environment), the
  event library (the step relations), terminal settings, debug output, failing allocations, the compiled service
  images, and the rest of the Samba tree, which winexe links but which is not its logic.
\<close>

end
